(* ===== verification/JsString.thy ===== *)
theory JsString
  imports Prelude
begin

text \<open>
  The string operations the source takes from JavaScript, on strings of code units up to
  255 (an Isabelle \<open>char\<close> each): \<open>trim\<close>, \<open>toLowerCase\<close>, \<open>startsWith\<close>, \<open>split\<close>,
  \<open>join\<close>, \<open>String(n)\<close>; and the coercions of src/src/shared/string-coerce.ts and
  src/src/shared/string-normalization.ts built on them.
\<close>

section \<open>Trimming\<close>

text \<open>White space and line terminators of ECMAScript with a code unit up to 255.\<close>

definition is_js_space :: "char \<Rightarrow> bool" where
  "is_js_space c \<longleftrightarrow> (let n = of_char c :: nat in n = 9 \<or> n = 10 \<or> n = 11 \<or> n = 12 \<or> n = 13 \<or> n = 32 \<or> n = 160)"

definition trim_start :: "string \<Rightarrow> string" where
  "trim_start s = dropWhile is_js_space s"

definition trim_end :: "string \<Rightarrow> string" where
  "trim_end s = rev (dropWhile is_js_space (rev s))"

definition js_trim :: "string \<Rightarrow> string" where
  "js_trim s = trim_end (trim_start s)"

definition trimmed :: "string \<Rightarrow> bool" where
  "trimmed s \<longleftrightarrow> s = [] \<or> (\<not> is_js_space (hd s) \<and> \<not> is_js_space (last s))"

lemma js_trim_Nil [simp]: "js_trim [] = []"
  by (simp add: js_trim_def trim_start_def trim_end_def)

lemma dropWhile_rev_last:
  "xs \<noteq> [] \<Longrightarrow> \<not> P (last xs) \<Longrightarrow> rev (dropWhile P (rev xs)) = xs"
  by (cases xs rule: rev_cases) auto

lemma trimmed_js_trim_id: "trimmed s \<Longrightarrow> js_trim s = s"
proof (cases s)
  case (Cons c cs)
  assume "trimmed s"
  with Cons have h: "\<not> is_js_space (hd s)" "\<not> is_js_space (last s)"
    by (auto simp: trimmed_def split: if_splits)
  from Cons h(1) have "trim_start s = s" by (simp add: trim_start_def)
  with Cons h(2) show ?thesis
    by (simp add: js_trim_def trim_end_def dropWhile_rev_last del: rev.simps)
qed simp

lemma trimmed_trim_end:
  assumes "s = [] \<or> \<not> is_js_space (hd s)" shows "trimmed (trim_end s)"
proof (cases "trim_end s = []")
  case True then show ?thesis by (simp add: trimmed_def)
next
  case False
  let ?d = "dropWhile is_js_space (rev s)"
  from False have ne: "?d \<noteq> []" by (simp add: trim_end_def)
  from ne have "\<not> is_js_space (hd ?d)" by (rule hd_dropWhile)
  then have lst: "\<not> is_js_space (last (trim_end s))"
    using ne by (simp add: trim_end_def last_rev)
  have "rev s = takeWhile is_js_space (rev s) @ ?d" by simp
  then have "s = rev ?d @ rev (takeWhile is_js_space (rev s))"
    by (metis rev_append rev_rev_ident)
  then have "hd s = hd (trim_end s)"
    using False by (metis hd_append2 trim_end_def)
  moreover from False have "s \<noteq> []" by (auto simp: trim_end_def)
  ultimately show ?thesis using assms lst by (auto simp: trimmed_def)
qed

lemma trimmed_js_trim [simp]: "trimmed (js_trim s)"
proof -
  have "trim_start s = [] \<or> \<not> is_js_space (hd (trim_start s))"
    using hd_dropWhile [of is_js_space s] by (auto simp: trim_start_def)
  then show ?thesis by (simp add: js_trim_def trimmed_trim_end)
qed

lemma js_trim_idem [simp]: "js_trim (js_trim s) = js_trim s"
  by (rule trimmed_js_trim_id) simp

lemma set_js_trim: "set (js_trim s) \<subseteq> set s"
  by (auto simp: js_trim_def trim_end_def trim_start_def dest!: set_dropWhileD)

lemma in_js_trimD: "c \<in> set (js_trim s) \<Longrightarrow> c \<in> set s"
  using set_js_trim by blast

section \<open>Lower case\<close>

definition lower_char :: "char \<Rightarrow> char" where
  "lower_char c = (let n = of_char c :: nat in
     if (65 \<le> n \<and> n \<le> 90) \<or> (192 \<le> n \<and> n \<le> 222 \<and> n \<noteq> 215) then char_of (n + 32) else c)"

definition js_lower :: "string \<Rightarrow> string" where
  "js_lower s = map lower_char s"

lemma of_char_lower:
  "(of_char (lower_char c) :: nat) =
     (let n = of_char c :: nat in
      if (65 \<le> n \<and> n \<le> 90) \<or> (192 \<le> n \<and> n \<le> 222 \<and> n \<noteq> 215) then n + 32 else n)"
  by (auto simp: lower_char_def Let_def of_char_of)

lemma lower_char_idem [simp]: "lower_char (lower_char c) = lower_char c"
proof -
  have "(of_char (lower_char (lower_char c)) :: nat) = of_char (lower_char c)"
    by (simp add: of_char_lower Let_def)
  then show ?thesis by simp
qed

lemma is_js_space_lower [simp]: "is_js_space (lower_char c) = is_js_space c"
  by (simp add: is_js_space_def of_char_lower Let_def)

lemma lower_char_eq_iff_low:
  assumes "(of_char d :: nat) < 65 \<or> (90 < (of_char d :: nat) \<and> (of_char d :: nat) < 97)"
  shows "lower_char c = d \<longleftrightarrow> c = d"
proof
  assume "lower_char c = d"
  then have e: "(of_char (lower_char c) :: nat) = of_char d" by simp
  have "(of_char c :: nat) = of_char d"
    using e assms by (auto simp: of_char_lower Let_def split: if_splits)
  then show "c = d" by simp
next
  assume "c = d"
  then have "(of_char (lower_char c) :: nat) = of_char d"
    using assms by (auto simp: of_char_lower Let_def)
  then show "lower_char c = d" by simp
qed

lemma lower_char_colon [simp]: "lower_char c = CHR '':'' \<longleftrightarrow> c = CHR '':''"
  by (rule lower_char_eq_iff_low) simp

lemma colon_lower_char [simp]: "CHR '':'' = lower_char c \<longleftrightarrow> c = CHR '':''"
  by (metis lower_char_colon)

lemma lower_char_of_colon [simp]: "lower_char (CHR '':'') = CHR '':''"
  by (simp add: lower_char_def)

lemma js_lower_Nil [simp]: "js_lower [] = []"
  by (simp add: js_lower_def)

lemma js_lower_eq_Nil [simp]: "js_lower s = [] \<longleftrightarrow> s = []"
  by (simp add: js_lower_def)

lemma js_lower_append [simp]: "js_lower (s @ t) = js_lower s @ js_lower t"
  by (simp add: js_lower_def)

lemma length_js_lower [simp]: "length (js_lower s) = length s"
  by (simp add: js_lower_def)

lemma js_lower_idem [simp]: "js_lower (js_lower s) = js_lower s"
  by (simp add: js_lower_def)

lemma trim_lower_commute: "js_trim (js_lower s) = js_lower (js_trim s)"
proof -
  have "dropWhile is_js_space (map lower_char t) = map lower_char (dropWhile is_js_space t)" for t
    by (simp add: dropWhile_map comp_def)
  then show ?thesis
    by (simp add: js_trim_def trim_start_def trim_end_def js_lower_def rev_map)
qed

lemma trimmed_js_lower [simp]: "trimmed (js_lower s) = trimmed s"
  by (cases "s = []") (auto simp: trimmed_def js_lower_def hd_map last_map)

section \<open>Prefixes, splitting, joining\<close>

definition starts_with :: "string \<Rightarrow> string \<Rightarrow> bool" where
  "starts_with s p \<longleftrightarrow> take (length p) s = p"

lemma starts_with_append [simp]: "starts_with (p @ s) p"
  by (simp add: starts_with_def)

lemma starts_withE: "starts_with s p \<Longrightarrow> (\<And>r. s = p @ r \<Longrightarrow> thesis) \<Longrightarrow> thesis"
  by (metis append_take_drop_id starts_with_def)

definition ends_with :: "string \<Rightarrow> string \<Rightarrow> bool" where
  "ends_with s p \<longleftrightarrow> starts_with (rev s) (rev p)"

text \<open>\<open>s.includes(p)\<close>.\<close>

definition js_includes :: "string \<Rightarrow> string \<Rightarrow> bool" where
  "js_includes s p = list_ex (\<lambda>i. starts_with (drop i s) p) [0..<Suc (length s)]"

fun split_char :: "char \<Rightarrow> string \<Rightarrow> string list" where
  "split_char d [] = [[]]"
| "split_char d (c # cs) =
     (if c = d then [] # split_char d cs
      else (case split_char d cs of [] \<Rightarrow> [[c]] | w # ws \<Rightarrow> (c # w) # ws))"

fun join_with :: "string \<Rightarrow> string list \<Rightarrow> string" where
  "join_with sep [] = []"
| "join_with sep [w] = w"
| "join_with sep (w # v # ws) = w @ sep @ join_with sep (v # ws)"

lemma split_char_not_Nil [simp]: "split_char d s \<noteq> []"
  by (induction s) (auto split: list.splits)

lemma split_char_no_sep: "d \<notin> set s \<Longrightarrow> split_char d s = [s]"
  by (induction s) auto

lemma split_char_append_sep:
  "d \<notin> set s \<Longrightarrow> split_char d (s @ d # t) = s # split_char d t"
  by (induction s) auto

lemma split_char_pieces: "w \<in> set (split_char d s) \<Longrightarrow> d \<notin> set w"
proof (induction s arbitrary: w)
  case (Cons c cs)
  then show ?case by (cases "split_char d cs") (auto split: if_splits)
qed simp

lemma join_split [simp]: "join_with [d] (split_char d s) = s"
proof (induction s)
  case (Cons c cs)
  obtain w ws where sp: "split_char d cs = w # ws"
    by (cases "split_char d cs") auto
  with Cons have "join_with [d] (w # ws) = cs" by simp
  with sp show ?case by (cases ws) auto
qed simp

lemma split_join:
  "ws \<noteq> [] \<Longrightarrow> (\<And>w. w \<in> set ws \<Longrightarrow> d \<notin> set w) \<Longrightarrow> split_char d (join_with [d] ws) = ws"
proof (induction ws rule: induct_list012)
  case (3 x y zs)
  then show ?case by (simp add: split_char_append_sep)
qed (auto simp: split_char_no_sep)

lemma join_with_inj:
  assumes "join_with [d] vs = join_with [d] ws" "vs \<noteq> []" "ws \<noteq> []"
    and "\<And>w. w \<in> set vs \<Longrightarrow> d \<notin> set w" "\<And>w. w \<in> set ws \<Longrightarrow> d \<notin> set w"
  shows "vs = ws"
  using assms split_join by metis

section \<open>Numbers as strings\<close>

fun nat_to_dec :: "nat \<Rightarrow> string" where
  "nat_to_dec n = (if n < 10 then [char_of (48 + n)] else nat_to_dec (n div 10) @ [char_of (48 + n mod 10)])"

declare nat_to_dec.simps [simp del]

definition int_to_dec :: "int \<Rightarrow> string" where
  "int_to_dec i = (if i < 0 then ''-'' @ nat_to_dec (nat (- i)) else nat_to_dec (nat i))"

lemma nat_to_dec_not_Nil [simp]: "nat_to_dec n \<noteq> []"
  by (subst nat_to_dec.simps) simp

lemma nat_to_dec_digits: "c \<in> set (nat_to_dec n) \<Longrightarrow> 48 \<le> (of_char c :: nat) \<and> (of_char c :: nat) \<le> 57"
proof (induction n arbitrary: c rule: nat_to_dec.induct)
  case (1 n)
  show ?case
  proof (cases "n < 10")
    case True
    with 1(2) have "c = char_of (48 + n)" by (simp add: nat_to_dec.simps [of n])
    with True show ?thesis by (simp add: of_char_of)
  next
    case False
    with 1(2) consider "c \<in> set (nat_to_dec (n div 10))" | "c = char_of (48 + n mod 10)"
      by (auto simp: nat_to_dec.simps [of n])
    then show ?thesis
    proof cases
      case 1 with False "1.IH" show ?thesis by blast
    next
      case 2
      have "n mod 10 < 10" by simp
      with 2 show ?thesis by (simp add: of_char_of)
    qed
  qed
qed

section \<open>Coercions (src/src/shared/string-coerce.ts)\<close>

text \<open>A value of type \<open>string | undefined | null\<close> is a \<open>string option\<close>.\<close>

definition normalizeOptionalString :: "string option \<Rightarrow> string option" where
  "normalizeOptionalString v = (case v of None \<Rightarrow> None
     | Some s \<Rightarrow> (let t = js_trim s in if t = [] then None else Some t))"

definition normalizeOptionalLowercaseString :: "string option \<Rightarrow> string option" where
  "normalizeOptionalLowercaseString v = map_option js_lower (normalizeOptionalString v)"

definition normalizeLowercaseStringOrEmpty :: "string option \<Rightarrow> string" where
  "normalizeLowercaseStringOrEmpty v = or_else (normalizeOptionalLowercaseString v) []"

lemmas coerce_defs = normalizeOptionalString_def normalizeOptionalLowercaseString_def
  normalizeLowercaseStringOrEmpty_def

lemma normalizeLowercase_eq:
  "normalizeLowercaseStringOrEmpty v = js_lower (js_trim (or_else v []))"
  by (auto simp: coerce_defs Let_def split: option.splits)

lemma normalizeLowercase_idem [simp]:
  "normalizeLowercaseStringOrEmpty (Some (normalizeLowercaseStringOrEmpty v)) =
     normalizeLowercaseStringOrEmpty v"
  by (simp add: normalizeLowercase_eq trim_lower_commute)

lemma normalizeOptionalString_Some_iff:
  "normalizeOptionalString v = Some t \<longleftrightarrow> t \<noteq> [] \<and> v \<noteq> None \<and> js_trim (the v) = t"
  by (auto simp: normalizeOptionalString_def Let_def split: option.splits)

section \<open>Lists of entries (src/src/shared/string-normalization.ts)\<close>

text \<open>
  Configured lists hold strings and numbers; \<open>String(entry)\<close> of an integer is its decimal
  rendering.
\<close>

datatype js_entry = EStr string | ENum int

definition js_String :: "js_entry \<Rightarrow> string" where
  "js_String e = (case e of EStr s \<Rightarrow> s | ENum n \<Rightarrow> int_to_dec n)"

definition normalizeStringEntries :: "js_entry list \<Rightarrow> string list" where
  "normalizeStringEntries xs =
     filter (\<lambda>s. s \<noteq> []) (map (\<lambda>e. or_else (normalizeOptionalString (Some (js_String e))) []) xs)"

lemma normalizeStringEntries_eq:
  "normalizeStringEntries xs = filter (\<lambda>s. s \<noteq> []) (map (js_trim \<circ> js_String) xs)"
  by (auto simp: normalizeStringEntries_def normalizeOptionalString_def Let_def
      intro!: arg_cong [where f = "filter _"])

lemma normalizeStringEntries_Nil [simp]: "normalizeStringEntries [] = []"
  by (simp add: normalizeStringEntries_def)

lemma normalizeStringEntries_append [simp]:
  "normalizeStringEntries (xs @ ys) = normalizeStringEntries xs @ normalizeStringEntries ys"
  by (simp add: normalizeStringEntries_def)

lemma normalizeStringEntries_trimmed:
  "s \<in> set (normalizeStringEntries xs) \<Longrightarrow> s \<noteq> [] \<and> trimmed s"
  by (auto simp: normalizeStringEntries_eq)

lemma normalizeStringEntries_idem [simp]:
  "normalizeStringEntries (map EStr (normalizeStringEntries xs)) = normalizeStringEntries xs"
proof -
  have "map (js_trim \<circ> js_String) (map EStr (normalizeStringEntries xs)) = normalizeStringEntries xs"
    by (auto simp: js_String_def trimmed_js_trim_id dest!: normalizeStringEntries_trimmed
        intro!: map_idI)
  then show ?thesis
    by (subst normalizeStringEntries_eq)
      (auto simp: filter_id_conv dest: normalizeStringEntries_trimmed)
qed


section \<open>Order of code units\<close>

text \<open>The order of \<open>a <= b\<close> on strings and of the default \<open>toSorted()\<close>.\<close>

fun str_cmp :: "string \<Rightarrow> string \<Rightarrow> int" where
  "str_cmp [] [] = 0"
| "str_cmp [] (b # bs) = -1"
| "str_cmp (a # as) [] = 1"
| "str_cmp (a # as) (b # bs) =
     (if a = b then str_cmp as bs else if (of_char a :: nat) < of_char b then -1 else 1)"

lemma str_cmp_refl [simp]: "str_cmp a a = 0"
  by (induction a) simp_all

lemma str_cmp_eq_0: "str_cmp a b = 0 \<longleftrightarrow> a = b"
  by (induction a b rule: str_cmp.induct) auto

lemma str_cmp_neg: "str_cmp b a = - str_cmp a b"
proof (induction a b rule: str_cmp.induct)
  case (4 a as b bs)
  have "of_char a = (of_char b :: nat) \<Longrightarrow> a = b" by simp
  with 4 show ?case by (auto simp: not_less_iff_gr_or_eq)
qed auto

lemma str_cmp_trans: "str_cmp a b \<le> 0 \<Longrightarrow> str_cmp b c \<le> 0 \<Longrightarrow> str_cmp a c \<le> 0"
proof (induction a b arbitrary: c rule: str_cmp.induct)
  case (2 b bs)
  then show ?case by (cases c) auto
next
  case (4 a as b bs)
  obtain d ds where c: "c = d # ds" using 4 by (cases c) (auto split: if_splits)
  have ne: "x \<noteq> y \<Longrightarrow> (of_char x :: nat) \<noteq> of_char y" for x y :: char by simp
  show ?case using 4 ne [of a b] ne [of b d] ne [of a d] unfolding c
    by (auto split: if_splits)
qed auto

text \<open>\<open>s || d\<close> of strings.\<close>

definition or_default :: "string \<Rightarrow> string \<Rightarrow> string" where
  "or_default s d = (if s = [] then d else s)"

end
