(* ===== verification/JsMap.thy ===== *)
theory JsMap
  imports Prelude
begin

text \<open>
  The JavaScript \<open>Map\<close>: key/value pairs in insertion order, \<open>set\<close> overwriting a key in
  place, \<open>delete\<close> removing it. The contract a client relies on is the locale
  \<open>kv_store\<close>; a memo table over such a store is the locale \<open>memo_table\<close>.
\<close>

section \<open>Insertion-ordered maps\<close>

type_synonym ('k, 'v) jsmap = "('k \<times> 'v) list"

abbreviation jm_get :: "('k, 'v) jsmap \<Rightarrow> 'k \<Rightarrow> 'v option" where
  "jm_get \<equiv> map_of"

fun jm_set :: "'k \<Rightarrow> 'v \<Rightarrow> ('k, 'v) jsmap \<Rightarrow> ('k, 'v) jsmap" where
  "jm_set k v [] = [(k, v)]"
| "jm_set k v ((k', v') # m) = (if k' = k then (k, v) # m else (k', v') # jm_set k v m)"

definition jm_del :: "'k \<Rightarrow> ('k, 'v) jsmap \<Rightarrow> ('k, 'v) jsmap" where
  "jm_del k m = filter (\<lambda>p. fst p \<noteq> k) m"

definition jm_has :: "'k \<Rightarrow> ('k, 'v) jsmap \<Rightarrow> bool" where
  "jm_has k m \<longleftrightarrow> k \<in> set (map fst m)"

definition jm_keys :: "('k, 'v) jsmap \<Rightarrow> 'k list" where
  "jm_keys m = map fst m"

definition jm_values :: "('k, 'v) jsmap \<Rightarrow> 'v list" where
  "jm_values m = map snd m"

definition jm_wf :: "('k, 'v) jsmap \<Rightarrow> bool" where
  "jm_wf m \<longleftrightarrow> distinct (map fst m)"

lemma jm_get_set [simp]: "jm_get (jm_set k v m) = (jm_get m)(k \<mapsto> v)"
  by (induction m) auto

lemma jm_get_del [simp]: "jm_get (jm_del k m) = (jm_get m)(k := None)"
  by (induction m) (auto simp: jm_del_def)

lemma fst_set_jm_set [simp]: "fst ` set (jm_set k v m) = insert k (fst ` set m)"
  by (induction k v m rule: jm_set.induct) auto

lemma keys_jm_set: "map fst (jm_set k v m) = (if k \<in> fst ` set m then map fst m else map fst m @ [k])"
  by (induction k v m rule: jm_set.induct) (auto simp: image_iff)

lemma jm_wf_Nil [simp]: "jm_wf []"
  by (simp add: jm_wf_def)

lemma jm_wf_set [simp]: "jm_wf m \<Longrightarrow> jm_wf (jm_set k v m)"
  by (auto simp: jm_wf_def keys_jm_set)

lemma jm_wf_del [simp]: "jm_wf m \<Longrightarrow> jm_wf (jm_del k m)"
  by (simp add: jm_wf_def jm_del_def distinct_map_filter)

lemma jm_wf_filter: "jm_wf m \<Longrightarrow> jm_wf (filter P m)"
  by (simp add: jm_wf_def distinct_map_filter)

lemma jm_has_iff: "jm_has k m \<longleftrightarrow> jm_get m k \<noteq> None"
  by (simp add: jm_has_def map_of_eq_None_iff)

lemma length_jm_set:
  "length (jm_set k v m) = (if jm_has k m then length m else Suc (length m))"
  by (induction k v m rule: jm_set.induct) (auto simp: jm_has_def image_iff)

lemma length_jm_del_le: "length (jm_del k m) \<le> length m"
  by (simp add: jm_del_def)

lemma jm_del_absent: "jm_get m k = None \<Longrightarrow> jm_del k m = m"
  by (auto simp: jm_del_def map_of_eq_None_iff intro!: filter_True)

lemma length_jm_del: "jm_wf m \<Longrightarrow> length (jm_del k m) = (if jm_has k m then length m - 1 else length m)"
proof (induction m)
  case (Cons p m)
  have wf: "jm_wf m" using Cons.prems by (simp add: jm_wf_def)
  show ?case
  proof (cases "fst p = k")
    case True
    then have "jm_del k m = m" using Cons.prems by (intro jm_del_absent) (simp add: jm_wf_def map_of_eq_None_iff)
    then show ?thesis using True by (simp add: jm_del_def jm_has_def)
  next
    case False
    then show ?thesis using Cons.IH [OF wf] by (cases m) (auto simp: jm_del_def jm_has_def)
  qed
qed (simp add: jm_del_def jm_has_def)

lemma jm_get_in_set: "jm_wf m \<Longrightarrow> (k, v) \<in> set m \<longleftrightarrow> jm_get m k = Some v"
  by (simp add: jm_wf_def)

lemma jm_get_SomeD: "jm_get m k = Some v \<Longrightarrow> (k, v) \<in> set m"
  by (rule map_of_SomeD)

lemma jm_get_filter:
  assumes "jm_wf m"
  shows "jm_get (filter P m) k = (case jm_get m k of None \<Rightarrow> None
           | Some v \<Rightarrow> if P (k, v) then Some v else None)"
  using assms
proof (induction m)
  case (Cons a m)
  obtain k' v' where a: "a = (k', v')" by fastforce
  from Cons.prems have "jm_wf m" and notin: "k' \<notin> fst ` set m"
    by (auto simp: jm_wf_def a)
  then have IH: "jm_get (filter P m) k =
      (case jm_get m k of None \<Rightarrow> None | Some v \<Rightarrow> if P (k, v) then Some v else None)"
    using Cons.IH by blast
  have "k = k' \<Longrightarrow> jm_get m k = None"
    using notin by (simp add: map_of_eq_None_iff)
  then show ?case using IH by (auto simp: a split: option.splits)
qed simp

lemma set_jm_set_subset: "set (jm_set k v m) \<subseteq> insert (k, v) (set m)"
  by (induction k v m rule: jm_set.induct) (auto split: if_splits)

lemma in_jm_setD: "p \<in> set (jm_set k v m) \<Longrightarrow> p = (k, v) \<or> p \<in> set m"
  using set_jm_set_subset by fast

lemma jm_set_present: "jm_get m k = Some v \<Longrightarrow> jm_wf m \<Longrightarrow> jm_set k v m = m"
  by (induction m) (auto simp: jm_wf_def)

text \<open>The key inserted longest ago, as \<open>map.keys().next().value\<close>, and its removal.\<close>

definition jm_drop_oldest :: "('k, 'v) jsmap \<Rightarrow> ('k, 'v) jsmap" where
  "jm_drop_oldest m = (case m of [] \<Rightarrow> [] | (k, v) # _ \<Rightarrow> jm_del k m)"

lemma jm_wf_drop_oldest [simp]: "jm_wf m \<Longrightarrow> jm_wf (jm_drop_oldest m)"
  by (auto simp: jm_drop_oldest_def split: list.splits)

lemma jm_get_drop_oldest:
  "jm_get (jm_drop_oldest m) k = Some v \<Longrightarrow> jm_get m k = Some v"
  by (cases m) (auto simp: jm_drop_oldest_def split: if_splits)

lemma jm_drop_oldest_tl: "jm_wf m \<Longrightarrow> jm_drop_oldest m = tl m"
  by (cases m) (auto simp: jm_drop_oldest_def jm_del_def jm_wf_def intro!: filter_True)

section \<open>The store contract\<close>

locale kv_store =
  fixes empty :: "'m"
    and get :: "'m \<Rightarrow> 'k \<Rightarrow> 'v option"
    and put :: "'k \<Rightarrow> 'v \<Rightarrow> 'm \<Rightarrow> 'm"
    and del :: "'k \<Rightarrow> 'm \<Rightarrow> 'm"
    and invar :: "'m \<Rightarrow> bool"
  assumes get_empty: "get empty k = None"
    and get_put: "get (put k v m) k' = (if k' = k then Some v else get m k')"
    and get_del: "get (del k m) k' = (if k' = k then None else get m k')"
    and invar_empty: "invar empty"
    and invar_put: "invar m \<Longrightarrow> invar (put k v m)"
    and invar_del: "invar m \<Longrightarrow> invar (del k m)"
begin

lemma get_put_same: "get (put k v m) k = Some v"
  by (simp add: get_put)

lemma get_put_other: "k' \<noteq> k \<Longrightarrow> get (put k v m) k' = get m k'"
  by (simp add: get_put)

lemma get_del_same: "get (del k m) k = None"
  by (simp add: get_del)

lemma put_put_get: "get (put k w (put k v m)) = get (put k w m)"
  by (rule ext) (simp add: get_put)

lemma del_put_get: "get (del k (put k v m)) = get (del k m)"
  by (rule ext) (simp add: get_put get_del)

end

interpretation jm: kv_store "[]" jm_get jm_set jm_del jm_wf
  by unfold_locales auto

section \<open>Memo tables\<close>

text \<open>
  A memo table keeps results of \<open>compute\<close> under the key of their input. Two inputs
  with the same key must have the same result, at least among the inputs called valid;
  eviction may drop entries but never invents one.
\<close>

locale memo_table = kv_store empty get put del invar
  for empty :: "'m" and get :: "'m \<Rightarrow> 'k \<Rightarrow> 'v option" and put :: "'k \<Rightarrow> 'v \<Rightarrow> 'm \<Rightarrow> 'm"
    and del :: "'k \<Rightarrow> 'm \<Rightarrow> 'm" and invar :: "'m \<Rightarrow> bool" +
  fixes valid :: "'i \<Rightarrow> bool"
    and keyof :: "'i \<Rightarrow> 'k"
    and compute :: "'i \<Rightarrow> 'v"
    and evict :: "'k \<Rightarrow> 'v \<Rightarrow> 'm \<Rightarrow> 'm"
  assumes key_sound: "valid i \<Longrightarrow> valid j \<Longrightarrow> keyof i = keyof j \<Longrightarrow> compute i = compute j"
    and evict_sound: "get (evict k v m) k' = Some w \<Longrightarrow> get m k' = Some w \<or> (k' = k \<and> w = v)"
begin

definition consistent :: "'m \<Rightarrow> bool" where
  "consistent m \<longleftrightarrow> (\<forall>i w. valid i \<longrightarrow> get m (keyof i) = Some w \<longrightarrow> w = compute i)"

lemma consistent_empty: "consistent empty"
  by (simp add: consistent_def get_empty)

lemma consistent_hit: "consistent m \<Longrightarrow> valid i \<Longrightarrow> get m (keyof i) = Some w \<Longrightarrow> w = compute i"
  by (simp add: consistent_def)

lemma consistent_fill:
  assumes "consistent m" "valid i"
  shows "consistent (evict (keyof i) (compute i) (put (keyof i) (compute i) m))"
  unfolding consistent_def
proof (intro allI impI)
  fix j w
  assume j: "valid j" and g: "get (evict (keyof i) (compute i) (put (keyof i) (compute i) m)) (keyof j) = Some w"
  from evict_sound [OF g] consider "get (put (keyof i) (compute i) m) (keyof j) = Some w"
    | "keyof j = keyof i" "w = compute i" by blast
  then show "w = compute j"
  proof cases
    case 1
    show ?thesis
    proof (cases "keyof j = keyof i")
      case True
      with 1 show ?thesis using key_sound [OF \<open>valid i\<close> j] by (simp add: get_put)
    next
      case False
      with 1 assms(1) j show ?thesis by (simp add: get_put consistent_def)
    qed
  next
    case 2 with key_sound [OF \<open>valid i\<close> j] show ?thesis by simp
  qed
qed

end

end
