(* ===== verification/AccountIds.thy ===== *)
theory AccountIds
  imports JsString JsMap
begin

text \<open>
  Agent and account identifiers: the shared identifier pattern and its fallback
  (src/src/routing/account-id.ts and the identifier part of
  src/src/routing/session-key.ts), and the two bounded caches in front of the account
  normaliser.
\<close>

section \<open>The identifier pattern\<close>

definition is_lower_alnum :: "char \<Rightarrow> bool" where
  "is_lower_alnum c \<longleftrightarrow> (let n = of_char c :: nat in (97 \<le> n \<and> n \<le> 122) \<or> (48 \<le> n \<and> n \<le> 57))"

definition is_alnum :: "char \<Rightarrow> bool" where
  "is_alnum c \<longleftrightarrow> is_lower_alnum (lower_char c)"

definition is_low_id_char :: "char \<Rightarrow> bool" where
  "is_low_id_char c \<longleftrightarrow> is_lower_alnum c \<or> c = CHR ''_'' \<or> c = CHR ''-''"

definition is_id_char :: "char \<Rightarrow> bool" where
  "is_id_char c \<longleftrightarrow> is_alnum c \<or> c = CHR ''_'' \<or> c = CHR ''-''"

text \<open>\<open>/^[a-z0-9][a-z0-9_-]{0,63}$/i\<close>\<close>

definition VALID_ID_RE :: "string \<Rightarrow> bool" where
  "VALID_ID_RE s \<longleftrightarrow> s \<noteq> [] \<and> is_alnum (hd s) \<and> list_all is_id_char (tl s) \<and> length s \<le> 64"

text \<open>\<open>replace(/[^a-z0-9_-]+/g, "-")\<close>: each run of other characters becomes one dash.\<close>

fun collapse_invalid :: "bool \<Rightarrow> string \<Rightarrow> string" where
  "collapse_invalid r [] = []"
| "collapse_invalid r (c # cs) =
     (if is_low_id_char c then c # collapse_invalid False cs
      else if r then collapse_invalid True cs
      else CHR ''-'' # collapse_invalid True cs)"

definition strip_leading_dashes :: "string \<Rightarrow> string" where
  "strip_leading_dashes s = dropWhile (\<lambda>c. c = CHR ''-'') s"

definition strip_trailing_dashes :: "string \<Rightarrow> string" where
  "strip_trailing_dashes s = rev (dropWhile (\<lambda>c. c = CHR ''-'') (rev s))"

definition id_fallback :: "string \<Rightarrow> string" where
  "id_fallback s = take 64 (strip_trailing_dashes (strip_leading_dashes (collapse_invalid False s)))"

definition safe_id :: "string \<Rightarrow> bool" where
  "safe_id s \<longleftrightarrow> list_all is_low_id_char s \<and> length s \<le> 64"

lemma collapse_invalid_id: "list_all is_low_id_char s \<Longrightarrow> collapse_invalid r s = s"
  by (induction s arbitrary: r) auto

lemma collapse_invalid_chars: "list_all is_low_id_char (collapse_invalid r s)"
  by (induction s arbitrary: r) (auto simp: is_low_id_char_def)

lemma list_all_subset: "list_all P s \<Longrightarrow> set t \<subseteq> set s \<Longrightarrow> list_all P t"
  by (auto simp: list_all_iff)

lemma set_strip_leading: "set (strip_leading_dashes s) \<subseteq> set s"
  by (auto simp: strip_leading_dashes_def dest!: set_dropWhileD)

lemma set_strip_trailing: "set (strip_trailing_dashes s) \<subseteq> set s"
  by (auto simp: strip_trailing_dashes_def dest!: set_dropWhileD)

lemma id_fallback_safe: "safe_id (id_fallback s)"
proof -
  have "set (id_fallback s) \<subseteq> set (collapse_invalid False s)"
    unfolding id_fallback_def using set_strip_leading set_strip_trailing set_take_subset
    by (meson subset_trans)
  then show ?thesis
    by (auto simp: safe_id_def id_fallback_def intro!: list_all_subset [OF collapse_invalid_chars])
qed

lemma is_low_id_char_lower: "is_id_char c \<Longrightarrow> is_low_id_char (lower_char c)"
  by (auto simp: is_id_char_def is_low_id_char_def is_alnum_def lower_char_def)

lemma low_id_char_facts:
  "is_low_id_char c \<Longrightarrow> \<not> is_js_space c \<and> c \<noteq> CHR '':'' \<and> lower_char c = c \<and> is_id_char c"
proof -
  assume c: "is_low_id_char c"
  have lw: "lower_char c = c"
  proof -
    have "(of_char (lower_char c) :: nat) = of_char c"
      using c by (auto simp: is_low_id_char_def is_lower_alnum_def of_char_lower Let_def)
    then show ?thesis by simp
  qed
  with c show ?thesis
    by (auto simp: is_low_id_char_def is_lower_alnum_def is_js_space_def Let_def
        is_id_char_def is_alnum_def)
qed

lemma VALID_ID_RE_lower_safe: "VALID_ID_RE s \<Longrightarrow> safe_id (js_lower s)"
  by (cases s) (auto simp: VALID_ID_RE_def safe_id_def js_lower_def list_all_iff is_id_char_def
      intro!: is_low_id_char_lower)

lemma safe_id_trimmed: "safe_id s \<Longrightarrow> js_trim s = s \<and> js_lower s = s"
proof
  assume "safe_id s"
  then have all: "\<And>c. c \<in> set s \<Longrightarrow> \<not> is_js_space c \<and> lower_char c = c"
    using low_id_char_facts by (auto simp: safe_id_def list_all_iff)
  then show "js_lower s = s" by (simp add: js_lower_def map_idI)
  have "trimmed s" using all by (cases "s = []") (simp_all add: trimmed_def)
  then show "js_trim s = s" by (rule trimmed_js_trim_id)
qed

section \<open>Agent identifiers (src/src/routing/session-key.ts)\<close>

definition DEFAULT_AGENT_ID :: string where "DEFAULT_AGENT_ID = ''main''"

definition DEFAULT_MAIN_KEY :: string where "DEFAULT_MAIN_KEY = ''main''"

definition normalizeAgentId :: "string option \<Rightarrow> string" where
  "normalizeAgentId value =
    (let trimmed = js_trim (or_else value []) in
     if trimmed = [] then DEFAULT_AGENT_ID
     else let normalized = normalizeLowercaseStringOrEmpty (Some trimmed) in
       if VALID_ID_RE trimmed then normalized
       else let fb = id_fallback normalized in if fb = [] then DEFAULT_AGENT_ID else fb)"

definition isValidAgentId :: "string option \<Rightarrow> bool" where
  "isValidAgentId value = (let trimmed = js_trim (or_else value []) in trimmed \<noteq> [] \<and> VALID_ID_RE trimmed)"

definition sanitizeAgentId :: "string option \<Rightarrow> string" where
  "sanitizeAgentId value = normalizeAgentId value"

lemma safe_id_main: "safe_id ''main''"
  by (simp add: safe_id_def is_low_id_char_def is_lower_alnum_def)

lemma normalizeAgentId_safe_id: "safe_id (normalizeAgentId v)" "normalizeAgentId v \<noteq> []"
  by (auto simp: normalizeAgentId_def Let_def DEFAULT_AGENT_ID_def safe_id_main id_fallback_safe
      normalizeLowercase_eq VALID_ID_RE_lower_safe)

lemma normalizeAgentId_valid:
  "isValidAgentId v \<Longrightarrow> normalizeAgentId v = js_lower (js_trim (or_else v []))"
  by (simp add: isValidAgentId_def normalizeAgentId_def Let_def normalizeLowercase_eq)

lemma collapse_length: "length (collapse_invalid r s) \<le> length s"
  by (induction s arbitrary: r) (auto intro: le_SucI)

lemma strip_length: "length (strip_trailing_dashes (strip_leading_dashes s)) \<le> length s"
proof -
  have "length (dropWhile P (rev t)) \<le> length t" for P :: "char \<Rightarrow> bool" and t
    using length_dropWhile_le [of P "rev t"] by simp
  then show ?thesis
    unfolding strip_trailing_dashes_def strip_leading_dashes_def length_rev
    using length_dropWhile_le le_trans by blast
qed

definition no_edge_dash :: "string \<Rightarrow> bool" where
  "no_edge_dash s \<longleftrightarrow> s = [] \<or> (hd s \<noteq> CHR ''-'' \<and> last s \<noteq> CHR ''-'')"

lemma strip_no_edge: "no_edge_dash (strip_trailing_dashes (strip_leading_dashes s))"
proof -
  let ?l = "strip_leading_dashes s"
  let ?t = "strip_trailing_dashes ?l"
  have l: "?l = [] \<or> hd ?l \<noteq> CHR ''-''"
    using hd_dropWhile [of "\<lambda>c. c = CHR ''-''" s] by (auto simp: strip_leading_dashes_def)
  show ?thesis
  proof (cases "?t = []")
    case False
    let ?d = "dropWhile (\<lambda>c. c = CHR ''-'') (rev ?l)"
    have ne: "?d \<noteq> []" using False by (simp add: strip_trailing_dashes_def)
    have "last ?t \<noteq> CHR ''-''"
      using hd_dropWhile [OF ne] ne by (simp add: strip_trailing_dashes_def last_rev)
    moreover have "rev ?l = takeWhile (\<lambda>c. c = CHR ''-'') (rev ?l) @ ?d" by simp
    then have "?l = ?t @ rev (takeWhile (\<lambda>c. c = CHR ''-'') (rev ?l))"
      by (metis rev_append rev_rev_ident strip_trailing_dashes_def)
    then have "hd ?l = hd ?t" using False by (metis hd_append2)
    moreover have "?l \<noteq> []" using False by (auto simp: strip_trailing_dashes_def)
    ultimately show ?thesis using l by (simp add: no_edge_dash_def)
  qed (simp add: no_edge_dash_def)
qed

lemma strip_id: "no_edge_dash s \<Longrightarrow> strip_trailing_dashes (strip_leading_dashes s) = s"
proof (cases "s = []")
  case False
  assume "no_edge_dash s"
  with False have h: "hd s \<noteq> CHR ''-''" "last s \<noteq> CHR ''-''" by (auto simp: no_edge_dash_def)
  then have "strip_leading_dashes s = s" using False
    by (cases s) (auto simp: strip_leading_dashes_def)
  then show ?thesis using h False
    by (simp add: strip_trailing_dashes_def dropWhile_rev_last)
qed (simp add: strip_leading_dashes_def strip_trailing_dashes_def)

text \<open>A safe identifier without an edge dash is a fixed point.\<close>

lemma normalizeAgentId_fix:
  assumes "safe_id s" "s \<noteq> []" "no_edge_dash s"
  shows "normalizeAgentId (Some s) = s"
proof -
  have "js_trim s = s" "js_lower s = s" using safe_id_trimmed [OF assms(1)] by simp_all
  moreover have "id_fallback s = s"
    using assms by (simp add: id_fallback_def safe_id_def collapse_invalid_id strip_id)
  ultimately show ?thesis
    using assms(2) by (simp add: normalizeAgentId_def Let_def normalizeLowercase_eq)
qed

lemma VALID_fix: "VALID_ID_RE s \<Longrightarrow> js_trim s = s \<Longrightarrow> normalizeAgentId (Some (js_lower s)) = js_lower s"
proof -
  assume v: "VALID_ID_RE s" and t: "js_trim s = s"
  have id: "is_id_char (lower_char c)" if "is_id_char c" for c
    using that is_low_id_char_lower low_id_char_facts by blast
  obtain c cs where s: "s = c # cs" using v by (cases s) (simp_all add: VALID_ID_RE_def)
  have "VALID_ID_RE (js_lower s)"
    using v id unfolding s VALID_ID_RE_def js_lower_def is_alnum_def list_all_iff by simp
  moreover have "js_lower s \<noteq> []" by (simp add: s)
  ultimately show ?thesis
    by (simp add: normalizeAgentId_def Let_def normalizeLowercase_eq trim_lower_commute t)
qed

lemma normalizeAgentId_idem_short:
  assumes "length (js_trim (or_else v [])) \<le> 64"
  shows "normalizeAgentId (Some (normalizeAgentId v)) = normalizeAgentId v"
proof -
  let ?t = "js_trim (or_else v [])"
  have m: "normalizeAgentId (Some ''main'') = ''main''"
    by (rule normalizeAgentId_fix [OF safe_id_main]) (auto simp: no_edge_dash_def)
  let ?u = "strip_trailing_dashes (strip_leading_dashes (collapse_invalid False (js_lower ?t)))"
  have len: "length ?u \<le> 64"
    using assms strip_length collapse_length length_js_lower by (metis le_trans)
  then have fb: "id_fallback (js_lower ?t) = ?u" by (simp add: id_fallback_def)
  consider "?t = []" | "?t \<noteq> []" "VALID_ID_RE ?t" | "?t \<noteq> []" "\<not> VALID_ID_RE ?t" by blast
  then show ?thesis
  proof cases
    case 1 then show ?thesis by (simp add: normalizeAgentId_def [of v] Let_def DEFAULT_AGENT_ID_def m)
  next
    case 2 then show ?thesis
      using VALID_fix by (simp add: normalizeAgentId_def [of v] Let_def normalizeLowercase_eq)
  next
    case 3
    then have eq: "normalizeAgentId v = (if ?u = [] then ''main'' else ?u)"
      using fb by (simp add: normalizeAgentId_def [of v] Let_def normalizeLowercase_eq DEFAULT_AGENT_ID_def)
    have "?u \<noteq> [] \<Longrightarrow> normalizeAgentId (Some ?u) = ?u"
      using id_fallback_safe [of "js_lower ?t"] strip_no_edge by (intro normalizeAgentId_fix) (simp_all add: fb)
    then show ?thesis using m by (simp add: eq)
  qed
qed

section \<open>Account identifiers (src/src/routing/account-id.ts)\<close>

definition DEFAULT_ACCOUNT_ID :: string where "DEFAULT_ACCOUNT_ID = ''default''"

definition ACCOUNT_ID_CACHE_MAX :: nat where "ACCOUNT_ID_CACHE_MAX = 512"

definition isBlockedObjectKey :: "string \<Rightarrow> bool" where
  "isBlockedObjectKey key \<longleftrightarrow> key \<in> set [''__proto__'', ''prototype'', ''constructor'']"

definition canonicalizeAccountId :: "string \<Rightarrow> string" where
  "canonicalizeAccountId value =
    (let normalized = normalizeLowercaseStringOrEmpty (Some value) in
     if VALID_ID_RE value then normalized else id_fallback normalized)"

definition normalizeCanonicalAccountId :: "string \<Rightarrow> string option" where
  "normalizeCanonicalAccountId value =
    (let canonical = canonicalizeAccountId value in
     if canonical = [] \<or> isBlockedObjectKey canonical then None else Some canonical)"

definition setNormalizeCache :: "(string, 'v) jsmap \<Rightarrow> string \<Rightarrow> 'v \<Rightarrow> (string, 'v) jsmap" where
  "setNormalizeCache cache key v =
    (let c = jm_set key v cache in
     if length c \<le> ACCOUNT_ID_CACHE_MAX then c else jm_drop_oldest c)"

text \<open>The result, without the cache.\<close>

definition normalizeAccountId :: "string option \<Rightarrow> string" where
  "normalizeAccountId value =
    (let trimmed = js_trim (or_else value []) in
     if trimmed = [] then DEFAULT_ACCOUNT_ID
     else or_else (normalizeCanonicalAccountId trimmed) DEFAULT_ACCOUNT_ID)"

text \<open>The function of the source, threading \<open>normalizeAccountIdCache\<close>.\<close>

definition normalizeAccountId_cached ::
  "(string, string) jsmap \<Rightarrow> string option \<Rightarrow> string \<times> (string, string) jsmap" where
  "normalizeAccountId_cached cache value =
    (let trimmed = js_trim (or_else value []) in
     if trimmed = [] then (DEFAULT_ACCOUNT_ID, cache)
     else let normalized = or_else (normalizeCanonicalAccountId trimmed) DEFAULT_ACCOUNT_ID in
       (case jm_get cache trimmed of
          Some cached \<Rightarrow> if cached \<noteq> [] then (cached, cache)
                        else (normalized, setNormalizeCache cache trimmed normalized)
        | None \<Rightarrow> (normalized, setNormalizeCache cache trimmed normalized)))"

definition normalizeOptionalAccountId :: "string option \<Rightarrow> string option" where
  "normalizeOptionalAccountId value =
    (let trimmed = js_trim (or_else value []) in
     if trimmed = [] then None else normalizeCanonicalAccountId trimmed)"

definition normalizeOptionalAccountId_cached ::
  "(string, string option) jsmap \<Rightarrow> string option \<Rightarrow> string option \<times> (string, string option) jsmap" where
  "normalizeOptionalAccountId_cached cache value =
    (let trimmed = js_trim (or_else value []) in
     if trimmed = [] then (None, cache)
     else (case jm_get cache trimmed of
        Some cached \<Rightarrow> (cached, cache)
      | None \<Rightarrow> (let normalized = normalizeCanonicalAccountId trimmed in
                 (normalized, setNormalizeCache cache trimmed normalized))))"

lemma canonical_safe: "safe_id (canonicalizeAccountId v)"
proof (cases "VALID_ID_RE v")
  case True
  then have "safe_id (js_lower v)" by (rule VALID_ID_RE_lower_safe)
  then have "js_trim (js_lower v) = js_lower v" using safe_id_trimmed by blast
  with True \<open>safe_id (js_lower v)\<close> show ?thesis
    by (simp add: canonicalizeAccountId_def normalizeLowercase_eq trim_lower_commute)
next
  case False then show ?thesis by (simp add: canonicalizeAccountId_def Let_def id_fallback_safe)
qed

lemma safe_id_default: "safe_id ''default''"
  by (simp add: safe_id_def is_low_id_char_def is_lower_alnum_def)

lemma normalizeAccountId_safe:
  "safe_id (normalizeAccountId v)" "normalizeAccountId v \<noteq> []" "\<not> isBlockedObjectKey (normalizeAccountId v)"
  using safe_id_default
  by (auto simp: normalizeAccountId_def normalizeCanonicalAccountId_def Let_def or_else_def
      DEFAULT_ACCOUNT_ID_def isBlockedObjectKey_def canonical_safe split: option.splits)

text \<open>The caches are memo tables keyed by the trimmed argument.\<close>

definition evict_over_max :: "string \<Rightarrow> 'v \<Rightarrow> (string, 'v) jsmap \<Rightarrow> (string, 'v) jsmap" where
  "evict_over_max k v c = (if length c \<le> ACCOUNT_ID_CACHE_MAX then c else jm_drop_oldest c)"

lemma setNormalizeCache_eq: "setNormalizeCache c k v = evict_over_max k v (jm_set k v c)"
  by (simp add: setNormalizeCache_def evict_over_max_def Let_def)

interpretation acct: memo_table "[]" jm_get jm_set jm_del jm_wf "\<lambda>_. True" id
  "\<lambda>t. or_else (normalizeCanonicalAccountId t) DEFAULT_ACCOUNT_ID" evict_over_max
  by unfold_locales (auto simp: evict_over_max_def split: if_splits dest: jm_get_drop_oldest)

interpretation acct_opt: memo_table "[]" jm_get jm_set jm_del jm_wf "\<lambda>_. True" id
  normalizeCanonicalAccountId evict_over_max
  by unfold_locales (auto simp: evict_over_max_def split: if_splits dest: jm_get_drop_oldest)

lemma setNormalizeCache_bound:
  assumes "length c \<le> ACCOUNT_ID_CACHE_MAX" "jm_wf c"
  shows "length (setNormalizeCache c k v) \<le> ACCOUNT_ID_CACHE_MAX" "jm_wf (setNormalizeCache c k v)"
proof -
  have wf: "jm_wf (jm_set k v c)" using assms(2) by simp
  have "length (jm_set k v c) \<le> Suc ACCOUNT_ID_CACHE_MAX"
    using assms(1) by (simp add: length_jm_set)
  with jm_drop_oldest_tl [OF wf]
  show "length (setNormalizeCache c k v) \<le> ACCOUNT_ID_CACHE_MAX"
    by (auto simp: setNormalizeCache_def Let_def)
  show "jm_wf (setNormalizeCache c k v)" using wf by (simp add: setNormalizeCache_def Let_def)
qed

definition account_cache_ok :: "(string, string) jsmap \<Rightarrow> bool" where
  "account_cache_ok c \<longleftrightarrow> jm_wf c \<and> length c \<le> ACCOUNT_ID_CACHE_MAX \<and> acct.consistent c"

lemma account_cache_step:
  assumes "account_cache_ok c"
  shows "fst (normalizeAccountId_cached c v) = normalizeAccountId v"
    and "account_cache_ok (snd (normalizeAccountId_cached c v))"
proof -
  let ?t = "js_trim (or_else v [])"
  let ?n = "or_else (normalizeCanonicalAccountId ?t) DEFAULT_ACCOUNT_ID"
  have con: "acct.consistent c" using assms by (simp add: account_cache_ok_def)
  have hit: "jm_get c ?t = Some w \<Longrightarrow> w = ?n" for w
    using acct.consistent_hit [OF con, of ?t w] by simp
  have "acct.consistent (setNormalizeCache c ?t ?n)"
    using acct.consistent_fill [OF con, of ?t] by (simp add: setNormalizeCache_eq)
  then have fill: "account_cache_ok (setNormalizeCache c ?t ?n)"
    using assms by (simp add: account_cache_ok_def setNormalizeCache_bound)
  show "fst (normalizeAccountId_cached c v) = normalizeAccountId v"
    using hit by (auto simp: normalizeAccountId_cached_def normalizeAccountId_def Let_def split: option.splits)
  show "account_cache_ok (snd (normalizeAccountId_cached c v))"
    using assms fill by (auto simp: normalizeAccountId_cached_def Let_def split: option.splits)
qed

lemma optional_cache_step:
  assumes "acct_opt.consistent c"
  shows "fst (normalizeOptionalAccountId_cached c v) = normalizeOptionalAccountId v"
    and "acct_opt.consistent (snd (normalizeOptionalAccountId_cached c v))"
proof -
  let ?t = "js_trim (or_else v [])"
  have hit: "jm_get c ?t = Some w \<Longrightarrow> w = normalizeCanonicalAccountId ?t" for w
    using acct_opt.consistent_hit [OF assms, of ?t w] by simp
  have fill: "acct_opt.consistent (setNormalizeCache c ?t (normalizeCanonicalAccountId ?t))"
    using acct_opt.consistent_fill [OF assms, of ?t] by (simp add: setNormalizeCache_eq)
  show "fst (normalizeOptionalAccountId_cached c v) = normalizeOptionalAccountId v"
    using hit by (auto simp: normalizeOptionalAccountId_cached_def normalizeOptionalAccountId_def Let_def split: option.splits)
  show "acct_opt.consistent (snd (normalizeOptionalAccountId_cached c v))"
    using assms fill by (auto simp: normalizeOptionalAccountId_cached_def Let_def split: option.splits)
qed

text \<open>The two normalisers agree up to the default.\<close>

lemma normalizeAccountId_optional:
  "normalizeAccountId v = or_else (normalizeOptionalAccountId v) DEFAULT_ACCOUNT_ID"
  by (simp add: normalizeAccountId_def normalizeOptionalAccountId_def Let_def)

section \<open>Properties\<close>

text \<open>A normalised agent id is path safe: never empty, at most 64 characters, only lower-case
  letters, digits, underscore and dash. Normalising it again changes nothing when the
  trimmed input has at most 64 characters.\<close>

lemma agent_id_canonical:
  assumes "length (js_trim (or_else v [])) \<le> 64"
  shows "safe_id (normalizeAgentId v) \<and> normalizeAgentId v \<noteq> []
    \<and> normalizeAgentId (Some (normalizeAgentId v)) = normalizeAgentId v"
  using normalizeAgentId_safe_id normalizeAgentId_idem_short [OF assms] by simp

lemma agent_id_canonical_witness:
  "normalizeAgentId (Some ''  Foo Bar! '') = ''foo-bar'' \<and> normalizeAgentId (Some ''foo-bar'') = ''foo-bar''"
proof -
  have 1: "length (js_trim (or_else (Some ''  Foo Bar! '') [])) \<le> 64" by code_simp
  have 2: "normalizeAgentId (Some ''  Foo Bar! '') = ''foo-bar''" by code_simp
  show ?thesis using agent_id_canonical [OF 1] unfolding 2 by simp
qed

text \<open>Normalising is not idempotent for longer inputs. The cut to 64 characters comes after the
  edge dashes are stripped, so it can leave a dash at the end, which the next
  normalisation strips.\<close>

lemma agent_id_not_idempotent:
  "normalizeAgentId (Some (normalizeAgentId (Some (''_'' @ replicate 62 (CHR ''a'') @ ''-x''))))
     \<noteq> normalizeAgentId (Some (''_'' @ replicate 62 (CHR ''a'') @ ''-x''))"
  by code_simp

text \<open>The bounded cache in front of the account normaliser is invisible: starting from a
  cache that is well formed, consistent and within its bound, the cached function returns
  the result of the function without cache and leaves such a cache.\<close>

lemma account_cache_transparent:
  assumes "account_cache_ok c"
  shows "fst (normalizeAccountId_cached c v) = normalizeAccountId v
    \<and> account_cache_ok (snd (normalizeAccountId_cached c v))"
  using account_cache_step [OF assms] by simp

lemma account_cache_transparent_witness:
  "fst (normalizeAccountId_cached [] (Some '' Bot 1 '')) = ''bot-1''"
proof -
  have 1: "account_cache_ok []"
    by (simp add: account_cache_ok_def acct.consistent_empty)
  have 2: "normalizeAccountId (Some '' Bot 1 '') = ''bot-1''" by code_simp
  show ?thesis using account_cache_transparent [OF 1] 2 by simp
qed

end
