(* ===== verification/SessionKeys.thy ===== *)
theory SessionKeys
  imports AccountIds
begin

text \<open>
  Session keys: the strings that address a conversation of an agent. Parsing and
  classification (src/src/sessions/session-key-utils.ts) and construction
  (src/src/routing/session-key.ts). A key is a colon-separated list
  \<open>agent:<agentId>:<rest>\<close>; the peer id of a Signal group keeps its case.
\<close>

abbreviation (input) colon :: char where "colon \<equiv> CHR '':''"

section \<open>Peer ids and opaque segments (session-key-utils.ts)\<close>

definition normalizeSessionPeerId :: "string option \<Rightarrow> string option \<Rightarrow> string option \<Rightarrow> string" where
  "normalizeSessionPeerId channel peerKind peerId =
    (let peerId' = js_trim (or_else peerId []) in
     if peerId' = [] then []
     else let channel' = normalizeLowercaseStringOrEmpty channel;
              peerKind' = normalizeLowercaseStringOrEmpty peerKind
          in if channel' = ''signal'' \<and> peerKind' = ''group'' then peerId'
             else normalizeLowercaseStringOrEmpty (Some peerId'))"

text \<open>
  A match of \<open>/(^|:)signal:group:([^:]+)/i\<close> at the head of a string: the length of the
  part before the peer id, and the peer id. The flag says whether the head is the start
  of the input (\<open>^\<close>).
\<close>

definition match_header :: "string \<Rightarrow> string \<Rightarrow> (nat \<times> string) option" where
  "match_header hdr s =
    (if js_lower (take (length hdr) s) = hdr
     then (let peer = takeWhile (\<lambda>c. c \<noteq> colon) (drop (length hdr) s) in
           if peer = [] then None else Some (length hdr, peer))
     else None)"

definition match_signal :: "bool \<Rightarrow> string \<Rightarrow> (nat \<times> string) option" where
  "match_signal at_start s =
    or_opt (if at_start then match_header ''signal:group:'' s else None)
           (match_header '':signal:group:'' s)"

lemma match_header_bound:
  "match_header hdr s = Some (n, peer) \<Longrightarrow> n = length hdr \<and> peer \<noteq> [] \<and> s = take n s @ peer @ drop (n + length peer) s
     \<and> js_lower (take n s) = hdr"
proof -
  assume "match_header hdr s = Some (n, peer)"
  then have n: "n = length hdr" "peer = takeWhile (\<lambda>c. c \<noteq> colon) (drop n s)" "peer \<noteq> []"
    "js_lower (take n s) = hdr"
    by (auto simp: match_header_def Let_def split: if_splits)
  have "drop n s = peer @ drop (length peer) (drop n s)"
    by (metis n(2) append_take_drop_id takeWhile_eq_take)
  then have "s = take n s @ peer @ drop (n + length peer) s"
    by (metis add.commute append_take_drop_id drop_drop)
  with n show ?thesis by auto
qed

lemma match_signal_bound:
  "match_signal b s = Some (n, peer) \<Longrightarrow>
     peer \<noteq> [] \<and> s = take n s @ peer @ drop (n + length peer) s \<and> s \<noteq> []
     \<and> js_lower (take n s) \<in> {''signal:group:'', '':signal:group:''}"
  by (auto simp: match_signal_def or_opt_def split: option.splits if_splits dest: match_header_bound)

lemma match_signal_shorter:
  "match_signal b (c # cs) = Some (n, peer) \<Longrightarrow> length (drop (n + length peer) (c # cs)) < length (c # cs)"
  using match_signal_bound [of b "c # cs" n peer] by (cases peer) auto

text \<open>
  \<open>raw.matchAll(...)\<close>: the slices before each peer id, with the peer id, and the tail.
\<close>

function (sequential) signal_segments :: "bool \<Rightarrow> string \<Rightarrow> string \<Rightarrow> (string \<times> string) list \<times> string" where
  "signal_segments at_start acc [] = ([], acc)"
| "signal_segments at_start acc (c # cs) =
     (case match_signal at_start (c # cs) of
        Some (n, peer) \<Rightarrow>
          (let (segs, tail) = signal_segments False [] (drop (n + length peer) (c # cs))
           in ((acc @ take n (c # cs), peer) # segs, tail))
      | None \<Rightarrow> signal_segments False (acc @ [c]) cs)"
  by pat_completeness auto

termination
  by (relation "measure (\<lambda>(b, acc, s). length s)") (auto dest!: match_signal_shorter)

definition normalizeSessionKeyPreservingOpaquePeerIds :: "string option \<Rightarrow> string" where
  "normalizeSessionKeyPreservingOpaquePeerIds sessionKey =
    (case normalizeOptionalString sessionKey of
       None \<Rightarrow> []
     | Some raw \<Rightarrow>
        (let (segs, tail) = signal_segments True [] raw in
         concat (map (\<lambda>(slice, peer). normalizeLowercaseStringOrEmpty (Some slice) @ js_trim peer) segs)
         @ normalizeLowercaseStringOrEmpty (Some tail)))"

record ParsedAgentSessionKey =
  pk_agentId :: string
  pk_rest :: string

definition parseAgentSessionKey :: "string option \<Rightarrow> ParsedAgentSessionKey option" where
  "parseAgentSessionKey sessionKey =
    (let raw = normalizeSessionKeyPreservingOpaquePeerIds sessionKey in
     if raw = [] then None
     else let parts = filter (\<lambda>p. p \<noteq> []) (split_char colon raw) in
       if length parts < 3 then None
       else if parts ! 0 \<noteq> ''agent'' then None
       else (case normalizeOptionalString (Some (parts ! 1)) of
          None \<Rightarrow> None
        | Some agentId \<Rightarrow>
            (let rest = join_with [colon] (drop 2 parts) in
             if rest = [] then None else Some \<lparr>pk_agentId = agentId, pk_rest = rest\<rparr>)))"

text \<open>\<open>/^cron:[^:]+:run:[^:]+(?::|$)/\<close>, read on the colon-separated segments.\<close>

definition cron_run_rest :: "string \<Rightarrow> bool" where
  "cron_run_rest rest =
    (case split_char colon rest of
       a # b # c # d # _ \<Rightarrow> a = ''cron'' \<and> b \<noteq> [] \<and> c = ''run'' \<and> d \<noteq> []
     | _ \<Rightarrow> False)"

definition isCronRunSessionKey :: "string option \<Rightarrow> bool" where
  "isCronRunSessionKey sessionKey =
    (case parseAgentSessionKey sessionKey of None \<Rightarrow> False | Some parsed \<Rightarrow> cron_run_rest (pk_rest parsed))"

definition opt_starts_with :: "string option \<Rightarrow> string \<Rightarrow> bool" where
  "opt_starts_with v p = (case v of None \<Rightarrow> False | Some s \<Rightarrow> starts_with s p)"

definition isCronSessionKey :: "string option \<Rightarrow> bool" where
  "isCronSessionKey sessionKey =
    (case parseAgentSessionKey sessionKey of None \<Rightarrow> False
     | Some parsed \<Rightarrow> opt_starts_with (normalizeOptionalLowercaseString (Some (pk_rest parsed))) ''cron:'')"

definition isSubagentSessionKey :: "string option \<Rightarrow> bool" where
  "isSubagentSessionKey sessionKey =
    (case normalizeOptionalString sessionKey of None \<Rightarrow> False
     | Some raw \<Rightarrow>
         if opt_starts_with (normalizeOptionalLowercaseString (Some raw)) ''subagent:'' then True
         else opt_starts_with
           (normalizeOptionalLowercaseString (map_option pk_rest (parseAgentSessionKey (Some raw)))) ''subagent:'')"

definition isAcpSessionKey :: "string option \<Rightarrow> bool" where
  "isAcpSessionKey sessionKey =
    (case normalizeOptionalString sessionKey of None \<Rightarrow> False
     | Some raw \<Rightarrow>
         if starts_with (normalizeLowercaseStringOrEmpty (Some raw)) ''acp:'' then True
         else opt_starts_with
           (normalizeOptionalLowercaseString (map_option pk_rest (parseAgentSessionKey (Some raw)))) ''acp:'')"

text \<open>\<open>raw.split(sep).length - 1\<close>: occurrences from the left, not overlapping.\<close>

function (sequential) count_sep :: "string \<Rightarrow> string \<Rightarrow> nat" where
  "count_sep sep [] = 0"
| "count_sep sep (c # cs) =
     (if sep \<noteq> [] \<and> starts_with (c # cs) sep then Suc (count_sep sep (drop (length sep) (c # cs)))
      else count_sep sep cs)"
  by pat_completeness auto
termination by (relation "measure (\<lambda>(sep, s). length s)") auto

definition getSubagentDepth :: "string option \<Rightarrow> nat" where
  "getSubagentDepth sessionKey =
    (case normalizeOptionalLowercaseString sessionKey of None \<Rightarrow> 0
     | Some raw \<Rightarrow> count_sep '':subagent:'' raw)"

fun last_index_of :: "string \<Rightarrow> string \<Rightarrow> nat option" where
  "last_index_of p [] = (if p = [] then Some 0 else None)"
| "last_index_of p (c # cs) =
     (case last_index_of p cs of Some i \<Rightarrow> Some (Suc i)
      | None \<Rightarrow> if starts_with (c # cs) p then Some 0 else None)"

record ParsedThreadSessionSuffix =
  ts_baseSessionKey :: "string option"
  ts_threadId :: "string option"

definition parseThreadSessionSuffix :: "string option \<Rightarrow> ParsedThreadSessionSuffix" where
  "parseThreadSessionSuffix sessionKey =
    (case normalizeOptionalString sessionKey of
       None \<Rightarrow> \<lparr>ts_baseSessionKey = None, ts_threadId = None\<rparr>
     | Some raw \<Rightarrow>
        (let lowerRaw = normalizeLowercaseStringOrEmpty (Some raw) in
         case last_index_of '':thread:'' lowerRaw of
           None \<Rightarrow> \<lparr>ts_baseSessionKey = Some raw, ts_threadId = None\<rparr>
         | Some i \<Rightarrow> \<lparr>ts_baseSessionKey = Some (take i raw),
                     ts_threadId = normalizeOptionalString (Some (drop (i + length '':thread:'') raw))\<rparr>))"

definition resolveThreadParentSessionKey :: "string option \<Rightarrow> string option" where
  "resolveThreadParentSessionKey sessionKey =
    (let p = parseThreadSessionSuffix sessionKey in
     if ts_threadId p = None then None else normalizeOptionalString (ts_baseSessionKey p))"

record RawSessionConversationRef =
  rc_channel :: string
  rc_kind :: string
  rc_rawId :: string
  rc_prefix :: string

definition parseRawSessionConversationRef :: "string option \<Rightarrow> RawSessionConversationRef option" where
  "parseRawSessionConversationRef sessionKey =
    (case normalizeOptionalString sessionKey of
       None \<Rightarrow> None
     | Some raw \<Rightarrow>
        (let rawParts = filter (\<lambda>p. p \<noteq> []) (split_char colon raw);
             bodyStartIndex = (if length rawParts \<ge> 3 \<and>
                normalizeOptionalLowercaseString (Some (rawParts ! 0)) = Some ''agent'' then 2 else 0);
             parts = drop bodyStartIndex rawParts
         in if length parts < 3 then None
            else (case (normalizeOptionalLowercaseString (Some (parts ! 0)),
                        normalizeOptionalLowercaseString (Some (parts ! 1))) of
               (Some channel, Some kind) \<Rightarrow>
                 if kind \<noteq> ''group'' \<and> kind \<noteq> ''channel'' then None
                 else (case (normalizeOptionalString (Some (join_with [colon] (drop 2 parts))),
                             normalizeOptionalString (Some (join_with [colon] (take (bodyStartIndex + 2) rawParts)))) of
                    (Some rawId, Some pre) \<Rightarrow>
                      Some \<lparr>rc_channel = channel, rc_kind = kind, rc_rawId = rawId, rc_prefix = pre\<rparr>
                  | _ \<Rightarrow> None)
             | _ \<Rightarrow> None)))"

section \<open>Construction (session-key.ts)\<close>

datatype ChatType = Direct | Group | Channel

datatype DmScope = ScopeMain | PerPeer | PerChannelPeer | PerAccountChannelPeer

datatype SessionKeyShape = MissingKey | AgentKey | LegacyOrAlias | MalformedAgent

datatype session_scope = PerSender | GlobalScope

definition chat_type_str :: "ChatType \<Rightarrow> string" where
  "chat_type_str k = (case k of Direct \<Rightarrow> ''direct'' | Group \<Rightarrow> ''group'' | Channel \<Rightarrow> ''channel'')"

definition normalizeToken :: "string option \<Rightarrow> string" where
  "normalizeToken value = normalizeLowercaseStringOrEmpty value"

definition normalizeMainKey :: "string option \<Rightarrow> string" where
  "normalizeMainKey value = or_default (normalizeLowercaseStringOrEmpty value) DEFAULT_MAIN_KEY"

definition buildAgentMainSessionKey :: "string \<Rightarrow> string option \<Rightarrow> string" where
  "buildAgentMainSessionKey agentId mainKey =
    ''agent:'' @ normalizeAgentId (Some agentId) @ '':'' @ normalizeMainKey mainKey"

datatype 'o wake_options = Wake 'o | WakeWithSession 'o string | WakeWithAgent 'o string

definition scopedHeartbeatWakeOptions ::
  "string \<Rightarrow> 'o \<Rightarrow> string option \<Rightarrow> session_scope option \<Rightarrow> 'o wake_options" where
  "scopedHeartbeatWakeOptions sessionKey wakeOptions mainKey scope =
    (case parseAgentSessionKey (Some sessionKey) of
       None \<Rightarrow> Wake wakeOptions
     | Some parsed \<Rightarrow>
        if isCronRunSessionKey (Some sessionKey) then
          (if scope = Some GlobalScope then WakeWithAgent wakeOptions (pk_agentId parsed)
           else WakeWithSession wakeOptions (buildAgentMainSessionKey (pk_agentId parsed) mainKey))
        else WakeWithSession wakeOptions sessionKey)"

definition resolveEventSessionKey :: "string \<Rightarrow> string option \<Rightarrow> session_scope option \<Rightarrow> string" where
  "resolveEventSessionKey sessionKey mainKey scope =
    (case parseAgentSessionKey (Some sessionKey) of
       None \<Rightarrow> sessionKey
     | Some parsed \<Rightarrow>
        if \<not> isCronRunSessionKey (Some sessionKey) then sessionKey
        else if scope = Some GlobalScope then ''global''
        else buildAgentMainSessionKey (pk_agentId parsed) mainKey)"

definition toAgentRequestSessionKey :: "string option \<Rightarrow> string option" where
  "toAgentRequestSessionKey storeKey =
    (let raw = js_trim (or_else storeKey []) in
     if raw = [] then None
     else Some (case parseAgentSessionKey (Some raw) of Some p \<Rightarrow> pk_rest p | None \<Rightarrow> raw))"

definition toAgentStoreSessionKey :: "string \<Rightarrow> string option \<Rightarrow> string option \<Rightarrow> string" where
  "toAgentStoreSessionKey agentId requestKey mainKey =
    (let raw = js_trim (or_else requestKey []);
         lowered = normalizeLowercaseStringOrEmpty (Some raw) in
     if raw = [] \<or> lowered = DEFAULT_MAIN_KEY then buildAgentMainSessionKey agentId mainKey
     else (case parseAgentSessionKey (Some raw) of
        Some parsed \<Rightarrow> ''agent:'' @ pk_agentId parsed @ '':'' @ pk_rest parsed
      | None \<Rightarrow>
         (let normalized = normalizeSessionKeyPreservingOpaquePeerIds (Some raw) in
          if starts_with lowered ''agent:'' then normalized
          else ''agent:'' @ normalizeAgentId (Some agentId) @ '':'' @ normalized)))"

definition resolveAgentIdFromSessionKey :: "string option \<Rightarrow> string" where
  "resolveAgentIdFromSessionKey sessionKey =
    normalizeAgentId (Some (case parseAgentSessionKey sessionKey of
       Some p \<Rightarrow> pk_agentId p | None \<Rightarrow> DEFAULT_AGENT_ID))"

definition classifySessionKeyShape :: "string option \<Rightarrow> SessionKeyShape" where
  "classifySessionKeyShape sessionKey =
    (let raw = js_trim (or_else sessionKey []) in
     if raw = [] then MissingKey
     else if parseAgentSessionKey (Some raw) \<noteq> None then AgentKey
     else if starts_with (normalizeLowercaseStringOrEmpty (Some raw)) ''agent:'' then MalformedAgent
     else LegacyOrAlias)"

text \<open>
  Identity links: canonical name to the peer ids that stand for it, in the order of
  \<open>Object.entries\<close>.
\<close>

type_synonym identity_links = "(string \<times> string list) list"

fun first_link :: "string list \<Rightarrow> identity_links \<Rightarrow> string option" where
  "first_link candidates [] = None"
| "first_link candidates ((canonical, ids) # rest) =
     (let canonicalName = js_trim canonical in
      if canonicalName = [] then first_link candidates rest
      else if list_ex (\<lambda>i. let normalized = normalizeToken (Some i)
                          in normalized \<noteq> [] \<and> normalized \<in> set candidates) ids
        then Some canonicalName
      else first_link candidates rest)"

definition link_candidates :: "string \<Rightarrow> string \<Rightarrow> string list" where
  "link_candidates channel peerId =
    (let rawCandidate = normalizeToken (Some peerId);
         channel' = normalizeToken (Some channel);
         scopedCandidate = normalizeToken (Some (channel' @ '':'' @ peerId))
     in uniq ((if rawCandidate \<noteq> [] then [rawCandidate] else []) @
              (if channel' \<noteq> [] \<and> scopedCandidate \<noteq> [] then [scopedCandidate] else [])))"

definition resolveLinkedPeerId :: "identity_links option \<Rightarrow> string \<Rightarrow> string \<Rightarrow> string option" where
  "resolveLinkedPeerId identityLinks channel peerId =
    (case identityLinks of None \<Rightarrow> None
     | Some links \<Rightarrow>
        (let peerId' = js_trim peerId in
         if peerId' = [] then None
         else let candidates = link_candidates channel peerId' in
           if candidates = [] then None else first_link candidates links))"

record peer_key_params =
  pp_agentId :: string
  pp_mainKey :: "string option"
  pp_channel :: string
  pp_accountId :: "string option"
  pp_peerKind :: "ChatType option"
  pp_peerId :: "string option"
  pp_identityLinks :: "identity_links option"
  pp_dmScope :: "DmScope option"

definition direct_peer_id :: "peer_key_params \<Rightarrow> string" where
  "direct_peer_id p =
    (let dmScope = or_else (pp_dmScope p) ScopeMain;
         peerId = js_trim (or_else (pp_peerId p) []);
         linkedPeerId = (if dmScope = ScopeMain then None
                         else resolveLinkedPeerId (pp_identityLinks p) (pp_channel p) peerId)
     in normalizeLowercaseStringOrEmpty (Some (or_else linkedPeerId peerId)))"

definition buildAgentPeerSessionKey :: "peer_key_params \<Rightarrow> string" where
  "buildAgentPeerSessionKey p =
    (let peerKind = or_else (pp_peerKind p) Direct;
         agent = normalizeAgentId (Some (pp_agentId p));
         channel = or_default (normalizeLowercaseStringOrEmpty (Some (pp_channel p))) ''unknown''
     in if peerKind = Direct then
          (let dmScope = or_else (pp_dmScope p) ScopeMain; peerId = direct_peer_id p in
           if dmScope = PerAccountChannelPeer \<and> peerId \<noteq> [] then
             ''agent:'' @ agent @ '':'' @ channel @ '':'' @ normalizeAccountId (pp_accountId p) @ '':direct:'' @ peerId
           else if dmScope = PerChannelPeer \<and> peerId \<noteq> [] then
             ''agent:'' @ agent @ '':'' @ channel @ '':direct:'' @ peerId
           else if dmScope = PerPeer \<and> peerId \<noteq> [] then
             ''agent:'' @ agent @ '':direct:'' @ peerId
           else buildAgentMainSessionKey (pp_agentId p) (pp_mainKey p))
        else
          ''agent:'' @ agent @ '':'' @ channel @ '':'' @ chat_type_str peerKind @ '':'' @
          or_default (normalizeSessionPeerId (Some (pp_channel p)) (Some (chat_type_str peerKind)) (pp_peerId p)) ''unknown'')"

definition buildGroupHistoryKey :: "string \<Rightarrow> string option \<Rightarrow> ChatType \<Rightarrow> string \<Rightarrow> string" where
  "buildGroupHistoryKey channel accountId peerKind peerId =
    (let channel' = or_default (normalizeToken (Some channel)) ''unknown'';
         accountId' = normalizeAccountId accountId;
         peerId' = or_default (normalizeSessionPeerId (Some channel') (Some (chat_type_str peerKind)) (Some peerId)) ''unknown''
     in channel' @ '':'' @ accountId' @ '':'' @ chat_type_str peerKind @ '':'' @ peerId')"

record thread_keys =
  tk_sessionKey :: string
  tk_parentSessionKey :: "string option"

definition resolveThreadSessionKeys ::
  "string \<Rightarrow> string option \<Rightarrow> string option \<Rightarrow> bool option \<Rightarrow> (string \<Rightarrow> string) option \<Rightarrow> thread_keys" where
  "resolveThreadSessionKeys baseSessionKey threadId parentSessionKey useSuffix normalizeThreadId =
    (let threadId' = js_trim (or_else threadId []) in
     if threadId' = [] then \<lparr>tk_sessionKey = baseSessionKey, tk_parentSessionKey = None\<rparr>
     else let normalizedThread = (case normalizeThreadId of Some f \<Rightarrow> f threadId'
                | None \<Rightarrow> normalizeLowercaseStringOrEmpty (Some threadId'));
              sessionKey = (if or_else useSuffix True
                then baseSessionKey @ '':thread:'' @ normalizedThread else baseSessionKey)
          in \<lparr>tk_sessionKey = sessionKey, tk_parentSessionKey = parentSessionKey\<rparr>)"


section \<open>Normalising keeps the segments\<close>

text \<open>
  \<open>squeezes s t\<close>: \<open>t\<close> is \<open>s\<close> with some white space dropped and some characters lowered.
  Every normalisation of a key is of this kind, so the colon-separated segments correspond.
\<close>

inductive squeezes :: "string \<Rightarrow> string \<Rightarrow> bool" where
  sq_Nil: "squeezes [] []"
| sq_keep: "squeezes s t \<Longrightarrow> squeezes (c # s) (c # t)"
| sq_low: "squeezes s t \<Longrightarrow> squeezes (c # s) (lower_char c # t)"
| sq_drop: "is_js_space c \<Longrightarrow> squeezes s t \<Longrightarrow> squeezes (c # s) t"

inductive_cases squeezes_NilE: "squeezes [] t"
inductive_cases squeezes_ConsE: "squeezes (c # s) t"

lemma squeezes_refl [simp]: "squeezes s s"
  by (induction s) (auto intro: squeezes.intros)

lemma squeezes_append: "squeezes s t \<Longrightarrow> squeezes s' t' \<Longrightarrow> squeezes (s @ s') (t @ t')"
  by (induction rule: squeezes.induct) (auto intro: squeezes.intros)

lemma squeezes_trans: "squeezes s t \<Longrightarrow> squeezes t u \<Longrightarrow> squeezes s u"
proof (induction arbitrary: u rule: squeezes.induct)
  case (sq_keep s t c)
  from sq_keep.prems sq_keep.IH show ?case
    by (blast elim!: squeezes_ConsE intro: squeezes.intros)
next
  case (sq_low s t c)
  show ?case
    by (rule squeezes_ConsE [OF sq_low.prems])
      (use sq_low.IH in \<open>auto intro: squeezes.sq_low squeezes.sq_drop\<close>)
qed (auto intro: squeezes.intros)

lemma squeezes_lower: "squeezes s (js_lower s)"
  by (induction s) (auto simp: js_lower_def intro: squeezes.intros)

lemma squeezes_spaces: "list_all is_js_space s \<Longrightarrow> squeezes s []"
  by (induction s) (auto intro: squeezes.intros)

lemma trim_decomp: "\<exists>p q. s = p @ js_trim s @ q \<and> list_all is_js_space p \<and> list_all is_js_space q"
proof -
  let ?m = "dropWhile is_js_space s"
  let ?q = "rev (takeWhile is_js_space (rev ?m))"
  have "s = takeWhile is_js_space s @ ?m" by simp
  moreover have "rev ?m = takeWhile is_js_space (rev ?m) @ dropWhile is_js_space (rev ?m)" by simp
  then have "?m = rev (dropWhile is_js_space (rev ?m)) @ ?q"
    by (metis rev_append rev_rev_ident)
  then have "?m = js_trim s @ ?q" by (simp add: js_trim_def trim_start_def trim_end_def)
  moreover have "list_all is_js_space (takeWhile is_js_space s)" "list_all is_js_space ?q"
    by (auto simp: list_all_iff dest: set_takeWhileD)
  ultimately show ?thesis by metis
qed

lemma squeezes_trim: "squeezes s (js_trim s)"
proof -
  obtain p q where d: "s = p @ js_trim s @ q" "list_all is_js_space p" "list_all is_js_space q"
    using trim_decomp by blast
  have "squeezes (p @ js_trim s @ q) ([] @ js_trim s @ [])"
    using d squeezes_spaces by (intro squeezes_append) auto
  with d(1) show ?thesis by simp
qed

lemma squeezes_token: "squeezes s (normalizeLowercaseStringOrEmpty (Some s))"
  by (auto simp: normalizeLowercase_eq intro: squeezes_trans squeezes_trim squeezes_lower)

lemma signal_segments_concat:
  "signal_segments b acc s = (segs, tail) \<Longrightarrow> acc @ s = concat (map (\<lambda>(a, p). a @ p) segs) @ tail"
proof (induction b acc s arbitrary: segs tail rule: signal_segments.induct)
  case (2 b acc c cs)
  show ?case
  proof (cases "match_signal b (c # cs)")
    case None
    with 2 show ?thesis by simp
  next
    case (Some np)
    obtain n peer where np: "np = (n, peer)" by fastforce
    obtain segs' tail' where r: "signal_segments False [] (drop (n + length peer) (c # cs)) = (segs', tail')"
      by fastforce
    have "drop (n + length peer) (c # cs) = concat (map (\<lambda>(a, p). a @ p) segs') @ tail'"
      using "2.IH"(2) [OF Some np [symmetric] r] np by simp
    moreover have "c # cs = take n (c # cs) @ peer @ drop (n + length peer) (c # cs)"
      using match_signal_bound Some np by blast
    moreover have "segs = (acc @ take n (c # cs), peer) # segs'" "tail = tail'"
      using "2.prems" Some np r by auto
    ultimately show ?thesis by simp
  qed
qed simp

lemma squeezes_concat:
  "squeezes (concat (map (\<lambda>(a, p). a @ p) segs))
     (concat (map (\<lambda>(a, p). normalizeLowercaseStringOrEmpty (Some a) @ js_trim p) segs))"
proof (induction segs)
  case (Cons ap segs)
  then show ?case
    by (cases ap) (auto intro!: squeezes_append squeezes_token squeezes_trim)
qed simp

lemma squeezes_normalized: "squeezes s (normalizeSessionKeyPreservingOpaquePeerIds (Some s))"
proof (cases "normalizeOptionalString (Some s)")
  case None
  then have "js_trim s = []" by (auto simp: normalizeOptionalString_def Let_def split: if_splits)
  with squeezes_trim [of s] None show ?thesis
    by (simp add: normalizeSessionKeyPreservingOpaquePeerIds_def)
next
  case (Some raw)
  then have raw: "raw = js_trim s" by (auto simp: normalizeOptionalString_def Let_def split: if_splits)
  obtain segs tail where sg: "signal_segments True [] raw = (segs, tail)" by fastforce
  have "squeezes raw (normalizeSessionKeyPreservingOpaquePeerIds (Some s))"
    using signal_segments_concat [OF sg] Some sg
    by (auto simp: normalizeSessionKeyPreservingOpaquePeerIds_def
        intro!: squeezes_append squeezes_concat squeezes_token)
  then show ?thesis using squeezes_trim [of s] raw squeezes_trans by blast
qed

lemma squeezes_split: "squeezes s t \<Longrightarrow> list_all2 squeezes (split_char colon s) (split_char colon t)"
proof (induction rule: squeezes.induct)
  case (sq_drop c s t)
  then have "c \<noteq> colon" by (auto simp: is_js_space_def)
  with sq_drop show ?case
    by (cases "split_char colon s"; cases "split_char colon t") (auto intro: squeezes.intros)
next
  case (sq_keep s t c)
  then show ?case
    by (cases "split_char colon s"; cases "split_char colon t") (auto intro: squeezes.intros)
next
  case (sq_low s t c)
  then show ?case
    by (cases "split_char colon s"; cases "split_char colon t") (auto intro: squeezes.intros)
qed (auto intro: squeezes.intros)

lemma squeezes_safe: "squeezes s t \<Longrightarrow> list_all is_low_id_char s \<Longrightarrow> t = s"
  by (induction rule: squeezes.induct) (auto dest: low_id_char_facts)

lemma squeezes_visible: "squeezes s t \<Longrightarrow> c \<in> set s \<Longrightarrow> \<not> is_js_space c \<Longrightarrow> t \<noteq> []"
  by (induction rule: squeezes.induct) auto

section \<open>Keys of an agent parse to that agent\<close>

definition visible_segment :: "string \<Rightarrow> bool" where
  "visible_segment rest \<longleftrightarrow> (\<exists>w \<in> set (split_char colon rest). \<exists>c \<in> set w. \<not> is_js_space c)"

lemma join_with_ne: "ws \<noteq> [] \<Longrightarrow> hd ws \<noteq> [] \<Longrightarrow> join_with sep ws \<noteq> []"
  by (cases ws; cases "tl ws") auto

lemma parse_built:
  assumes "safe_id i" "i \<noteq> []" "visible_segment rest"
  shows "\<exists>r. parseAgentSessionKey (Some (''agent:'' @ i @ '':'' @ rest)) = Some \<lparr>pk_agentId = i, pk_rest = r\<rparr>"
proof -
  let ?s = "''agent:'' @ i @ '':'' @ rest"
  let ?t = "normalizeSessionKeyPreservingOpaquePeerIds (Some ?s)"
  have i: "list_all is_low_id_char i" "colon \<notin> set i"
    using assms(1) low_id_char_facts by (auto simp: safe_id_def list_all_iff)
  have agent: "list_all is_low_id_char ''agent''"
    by (simp add: is_low_id_char_def is_lower_alnum_def)
  have split_s: "split_char colon ?s = ''agent'' # i # split_char colon rest"
    using split_char_append_sep [of colon "''agent''" "i @ '':'' @ rest"]
      split_char_append_sep [OF i(2), of rest] by simp
  from squeezes_split [OF squeezes_normalized, of ?s] obtain ws where
    split_t: "split_char colon ?t = ''agent'' # i # ws" and ws: "list_all2 squeezes (split_char colon rest) ws"
    unfolding split_s by (auto simp: list_all2_Cons1 dest!: squeezes_safe [OF _ agent] squeezes_safe [OF _ i(1)])
  obtain w c where wc: "w \<in> set (split_char colon rest)" "c \<in> set w" "\<not> is_js_space c"
    using assms(3) by (auto simp: visible_segment_def)
  then obtain v where "v \<in> set ws" "squeezes w v"
    using ws by (metis in_set_conv_nth list_all2_conv_all_nth)
  with wc squeezes_visible have v: "v \<in> set ws" "v \<noteq> []" by blast+
  let ?f = "filter (\<lambda>p. p \<noteq> []) ws"
  have f: "?f \<noteq> []" using v by (auto simp: filter_empty_conv)
  then have "hd ?f \<in> set ?f" by (rule hd_in_set)
  then have "hd ?f \<noteq> []" unfolding set_filter by blast
  with f have "join_with [colon] ?f \<noteq> []" by (rule join_with_ne)
  moreover have "?t \<noteq> []" using split_t by (auto)
  moreover have "filter (\<lambda>p. p \<noteq> []) (split_char colon ?t) = ''agent'' # i # ?f"
    using assms(2) unfolding split_t by simp
  moreover have "normalizeOptionalString (Some i) = Some i"
    using assms(1,2) safe_id_trimmed by (simp add: normalizeOptionalString_def)
  ultimately show ?thesis
    using f by (cases ?f) (auto simp: parseAgentSessionKey_def Let_def)
qed

lemma split_char_append_pieces:
  "w \<in> set (split_char d t) \<Longrightarrow> \<exists>v \<in> set (split_char d (s @ t)). set w \<subseteq> set v"
proof (induction s)
  case (Cons c s)
  then obtain v where "v \<in> set (split_char d (s @ t))" "set w \<subseteq> set v" by auto
  then show ?case by (cases "split_char d (s @ t)") auto
qed auto

lemma visible_append: "visible_segment t \<Longrightarrow> visible_segment (s @ t)"
  unfolding visible_segment_def using split_char_append_pieces by blast

lemma visible_direct: "visible_segment (''direct:'' @ x)"
  using split_char_append_sep [of colon "''direct''" x]
  by (auto simp: visible_segment_def is_js_space_def)

lemma visible_kind: "visible_segment (chat_type_str k @ '':'' @ x)"
  using split_char_append_sep [of colon "chat_type_str k" x]
  by (cases k) (auto simp: visible_segment_def chat_type_str_def is_js_space_def)

definition main_key_visible :: "string option \<Rightarrow> bool" where
  "main_key_visible mk \<longleftrightarrow> visible_segment (normalizeMainKey mk)"

lemma peer_key_shape:
  assumes "main_key_visible (pp_mainKey p)"
  shows "\<exists>rest. buildAgentPeerSessionKey p = ''agent:'' @ normalizeAgentId (Some (pp_agentId p)) @ '':'' @ rest
           \<and> visible_segment rest"
proof -
  let ?ch = "or_default (normalizeLowercaseStringOrEmpty (Some (pp_channel p))) ''unknown''"
  let ?d = "direct_peer_id p"
  have "visible_segment (?ch @ '':'' @ normalizeAccountId (pp_accountId p) @ '':'' @ ''direct:'' @ ?d)"
    using visible_append [OF visible_direct] by (metis append_assoc)
  moreover have "visible_segment ((?ch @ '':'') @ ''direct:'' @ ?d)"
    by (rule visible_append [OF visible_direct])
  moreover have "visible_segment (''direct:'' @ ?d)" by (rule visible_direct)
  moreover have "visible_segment ((?ch @ '':'') @ chat_type_str k @ '':'' @ x)" for k x
    by (rule visible_append [OF visible_kind])
  ultimately show ?thesis using assms
    by (simp add: buildAgentPeerSessionKey_def Let_def buildAgentMainSessionKey_def main_key_visible_def)
qed

section \<open>Threads\<close>

lemma last_index_of_append:
  "last_index_of p t = Some i \<Longrightarrow> last_index_of p (s @ t) = Some (length s + i)"
  by (induction s) auto

lemma last_index_no_head:
  "p \<noteq> [] \<Longrightarrow> hd p \<notin> set t \<Longrightarrow> last_index_of p t = None"
proof (induction t)
  case (Cons c t)
  then have "\<not> starts_with (c # t) p" by (cases p) (auto simp: starts_with_def)
  with Cons show ?case by simp
qed simp

lemma thread_marker_index:
  assumes "colon \<notin> set t" shows "last_index_of '':thread:'' (b @ '':thread:'' @ t) = Some (length b)"
proof -
  have none: "last_index_of '':thread:'' t = None"
    using assms by (intro last_index_no_head) auto
  have "\<not> starts_with ('':'' @ t) '':thread:''"
    using assms by (auto simp: starts_with_def) (metis in_set_takeD list.set_intros(1,2))
  then have "last_index_of '':thread:'' ('':'' @ t) = None" using none by simp
  then have "last_index_of '':thread:'' (''thread:'' @ t) = None"
    by (simp add: starts_with_def)
  then have "last_index_of '':thread:'' ('':thread:'' @ t) = Some 0"
    using none by (simp add: starts_with_def)
  from last_index_of_append [OF this, of b] show ?thesis by simp
qed


section \<open>Segments of a direct-message key\<close>

definition key_channel :: "peer_key_params \<Rightarrow> string" where
  "key_channel p = or_default (normalizeLowercaseStringOrEmpty (Some (pp_channel p))) ''unknown''"

lemma safe_id_no_colon: "safe_id s \<Longrightarrow> colon \<notin> set s"
  using low_id_char_facts by (auto simp: safe_id_def list_all_iff)

lemma token_no_colon: "colon \<notin> set s \<Longrightarrow> colon \<notin> set (normalizeLowercaseStringOrEmpty (Some s))"
  by (auto simp: normalizeLowercase_eq js_lower_def dest: in_js_trimD)

lemma key_channel_no_colon: "colon \<notin> set (pp_channel p) \<Longrightarrow> colon \<notin> set (key_channel p)"
  by (auto simp: key_channel_def or_default_def dest: token_no_colon)

lemma dm_key_segments:
  assumes "or_else (pp_peerKind p) Direct = Direct" "pp_dmScope p = Some PerAccountChannelPeer"
    "direct_peer_id p \<noteq> []" "colon \<notin> set (pp_channel p)"
  shows "split_char colon (buildAgentPeerSessionKey p) =
    ''agent'' # normalizeAgentId (Some (pp_agentId p)) # key_channel p # normalizeAccountId (pp_accountId p)
      # ''direct'' # split_char colon (direct_peer_id p)"
proof -
  let ?a = "normalizeAgentId (Some (pp_agentId p))"
  let ?acc = "normalizeAccountId (pp_accountId p)"
  have k: "buildAgentPeerSessionKey p =
      ''agent:'' @ ?a @ '':'' @ key_channel p @ '':'' @ ?acc @ '':direct:'' @ direct_peer_id p"
    using assms by (simp add: buildAgentPeerSessionKey_def key_channel_def Let_def)
  have nc: "colon \<notin> set ?a" "colon \<notin> set ?acc" "colon \<notin> set (key_channel p)"
    using normalizeAgentId_safe_id normalizeAccountId_safe key_channel_no_colon [OF assms(4)]
    by (auto dest: safe_id_no_colon)
  show ?thesis unfolding k
    using split_char_append_sep [of colon "''agent''" "?a @ '':'' @ key_channel p @ '':'' @ ?acc @ '':direct:'' @ direct_peer_id p"]
      split_char_append_sep [OF nc(1), of "key_channel p @ '':'' @ ?acc @ '':direct:'' @ direct_peer_id p"]
      split_char_append_sep [OF nc(3), of "?acc @ '':direct:'' @ direct_peer_id p"]
      split_char_append_sep [OF nc(2), of "''direct:'' @ direct_peer_id p"]
      split_char_append_sep [of colon "''direct''" "direct_peer_id p"] by simp
qed

section \<open>Properties\<close>

text \<open>C40: the agent id a session key is built for is the one it is resolved to. If the main key has a visible
  character other than a colon, parsing any direct, group or channel key built by \<open>buildAgentPeerSessionKey\<close>, whatever
  channel, account, peer, identity links and DM scope went into it, gives back the normalised agent id if the agent id has at
  most 64 characters after trimming. A longer id gives back the normal form of its normal form, which may
  differ from it (\<open>agent_id_not_idempotent\<close>).\<close>

theorem resolve_agent_of_built_key:
  assumes "main_key_visible (pp_mainKey p)"
  shows "resolveAgentIdFromSessionKey (Some (buildAgentPeerSessionKey p)) =
    (if length (js_trim (pp_agentId p)) \<le> 64 then normalizeAgentId (Some (pp_agentId p))
     else normalizeAgentId (Some (normalizeAgentId (Some (pp_agentId p)))))"
proof -
  let ?a = "normalizeAgentId (Some (pp_agentId p))"
  obtain rest where k: "buildAgentPeerSessionKey p = ''agent:'' @ ?a @ '':'' @ rest" "visible_segment rest"
    using peer_key_shape [OF assms] by blast
  obtain r where "parseAgentSessionKey (Some (''agent:'' @ ?a @ '':'' @ rest)) = Some \<lparr>pk_agentId = ?a, pk_rest = r\<rparr>"
    using parse_built [OF normalizeAgentId_safe_id k(2)] by blast
  then have "resolveAgentIdFromSessionKey (Some (buildAgentPeerSessionKey p)) = normalizeAgentId (Some ?a)"
    unfolding k(1) by (simp add: resolveAgentIdFromSessionKey_def)
  then show ?thesis
    using normalizeAgentId_idem_short [of "Some (pp_agentId p)"] by simp
qed

definition sample_peer :: peer_key_params where
  "sample_peer = \<lparr>pp_agentId = '' Ops '', pp_mainKey = None, pp_channel = ''Telegram'', pp_accountId = Some ''Bot'',
     pp_peerKind = Some Direct, pp_peerId = Some ''42'', pp_identityLinks = None, pp_dmScope = Some PerAccountChannelPeer\<rparr>"

theorem resolve_agent_of_built_key_witness:
  "resolveAgentIdFromSessionKey (Some (buildAgentPeerSessionKey sample_peer)) = ''ops''"
proof -
  have 1: "length (js_trim (pp_agentId sample_peer)) \<le> 64" by code_simp
  have 2: "main_key_visible (pp_mainKey sample_peer)" by code_simp
  have 3: "normalizeAgentId (Some (pp_agentId sample_peer)) = ''ops''" by code_simp
  show ?thesis using resolve_agent_of_built_key [OF 2] 1 3 by simp
qed

text \<open>C3: two direct conversations scoped per account, channel and peer share a session key only
  when agent, channel, account and peer all agree: no message of one direct peer reaches the
  session of another. Channel names have no colon.\<close>

theorem dm_sessions_isolated:
  assumes "or_else (pp_peerKind p) Direct = Direct" "or_else (pp_peerKind q) Direct = Direct"
    and "pp_dmScope p = Some PerAccountChannelPeer" "pp_dmScope q = Some PerAccountChannelPeer"
    and "direct_peer_id p \<noteq> []" "direct_peer_id q \<noteq> []"
    and "colon \<notin> set (pp_channel p)" "colon \<notin> set (pp_channel q)"
    and "buildAgentPeerSessionKey p = buildAgentPeerSessionKey q"
  shows "normalizeAgentId (Some (pp_agentId p)) = normalizeAgentId (Some (pp_agentId q))
    \<and> key_channel p = key_channel q
    \<and> normalizeAccountId (pp_accountId p) = normalizeAccountId (pp_accountId q)
    \<and> direct_peer_id p = direct_peer_id q"
proof -
  have "split_char colon (buildAgentPeerSessionKey p) = split_char colon (buildAgentPeerSessionKey q)"
    using assms(9) by simp
  then have "split_char colon (direct_peer_id p) = split_char colon (direct_peer_id q)"
    "normalizeAgentId (Some (pp_agentId p)) = normalizeAgentId (Some (pp_agentId q))"
    "key_channel p = key_channel q"
    "normalizeAccountId (pp_accountId p) = normalizeAccountId (pp_accountId q)"
    unfolding dm_key_segments [OF assms(1,3,5,7)] dm_key_segments [OF assms(2,4,6,8)] by simp_all
  moreover from this(1) have "direct_peer_id p = direct_peer_id q" by (metis join_split)
  ultimately show ?thesis by blast
qed

theorem dm_sessions_isolated_witness:
  "normalizeAgentId (Some (pp_agentId sample_peer)) = normalizeAgentId (Some ''ops'')"
proof -
  let ?q = "sample_peer\<lparr>pp_agentId := ''ops'', pp_accountId := Some ''bot''\<rparr>"
  have "buildAgentPeerSessionKey sample_peer = buildAgentPeerSessionKey ?q" by code_simp
  moreover have "direct_peer_id sample_peer \<noteq> []" "direct_peer_id ?q \<noteq> []" by code_simp+
  ultimately show ?thesis
    using dm_sessions_isolated [of sample_peer ?q] by (simp add: sample_peer_def)
qed

text \<open>A thread key parses back into its base key and the normalised thread id, for a trimmed
  base key and a thread id without colon.\<close>

lemma thread_key_roundtrip:
  assumes "b \<noteq> []" "trimmed b" "colon \<notin> set t" "js_trim t \<noteq> []"
  shows "parseThreadSessionSuffix (Some (tk_sessionKey (resolveThreadSessionKeys b (Some t) parent None None)))
    = \<lparr>ts_baseSessionKey = Some b, ts_threadId = Some (js_lower (js_trim t))\<rparr>"
proof -
  let ?t = "js_lower (js_trim t)"
  let ?k = "b @ '':thread:'' @ ?t"
  have k: "tk_sessionKey (resolveThreadSessionKeys b (Some t) parent None None) = ?k"
    using assms(4) by (simp add: resolveThreadSessionKeys_def Let_def normalizeLowercase_eq)
  have tr: "trimmed ?t" by simp
  then have "trimmed ?k" using assms(1,2,4) by (auto simp: trimmed_def)
  then have raw: "normalizeOptionalString (Some ?k) = Some ?k"
    using assms(1) by (simp add: normalizeOptionalString_def trimmed_js_trim_id)
  have "colon \<notin> set ?t" using assms(3) by (auto simp: js_lower_def dest: in_js_trimD)
  then have ix: "last_index_of '':thread:'' (js_lower b @ '':thread:'' @ ?t) = Some (length b)"
    using thread_marker_index [of ?t "js_lower b"] by simp
  have lm: "js_lower '':thread:'' = '':thread:''" by code_simp
  have low: "normalizeLowercaseStringOrEmpty (Some ?k) = js_lower b @ '':thread:'' @ ?t"
    by (simp only: normalizeLowercase_eq or_else_simps trimmed_js_trim_id [OF \<open>trimmed ?k\<close>]
        js_lower_append lm js_lower_idem)
  have "normalizeOptionalString (Some ?t) = Some ?t"
    using tr assms(4) by (simp add: normalizeOptionalString_def trimmed_js_trim_id)
  then show ?thesis
    unfolding k parseThreadSessionSuffix_def raw low option.case Let_def ix by simp
qed

lemma thread_key_roundtrip_witness:
  "parseThreadSessionSuffix (Some (tk_sessionKey (resolveThreadSessionKeys ''agent:a:main'' (Some '' T7 '') None None None)))
    = \<lparr>ts_baseSessionKey = Some ''agent:a:main'', ts_threadId = Some ''t7''\<rparr>"
proof -
  have 1: "''agent:a:main'' \<noteq> []" "trimmed ''agent:a:main''" "colon \<notin> set '' T7 ''" "js_trim '' T7 '' \<noteq> []"
    by code_simp+
  have 2: "js_lower (js_trim '' T7 '') = ''t7''" by code_simp
  show ?thesis using thread_key_roundtrip [OF 1] unfolding 2 .
qed

end
