(* ===== verification/Gating.thy ===== *)
theory Gating
  imports Prelude
begin

text \<open>
  The two pure gates of a channel: who may run control commands
  (src/src/channels/command-gating.ts) and whether a group message has to mention the bot
  (src/src/channels/mention-gating.ts).
\<close>

section \<open>Command gating\<close>

record CommandAuthorizer =
  ca_configured :: bool
  ca_allowed :: bool

datatype CommandGatingMode = ModeAllow | ModeDeny | ModeConfigured

definition resolveCommandAuthorizedFromAuthorizers ::
  "bool \<Rightarrow> CommandAuthorizer list \<Rightarrow> CommandGatingMode option \<Rightarrow> bool" where
  "resolveCommandAuthorizedFromAuthorizers useAccessGroups authorizers modeWhenAccessGroupsOff =
    (let mode = or_else modeWhenAccessGroupsOff ModeAllow in
     if \<not> useAccessGroups then
       (if mode = ModeAllow then True
        else if mode = ModeDeny then False
        else if \<not> list_ex ca_configured authorizers then True
        else list_ex (\<lambda>e. ca_configured e \<and> ca_allowed e) authorizers)
     else list_ex (\<lambda>e. ca_configured e \<and> ca_allowed e) authorizers)"

record ControlCommandGate =
  cg_commandAuthorized :: bool
  cg_shouldBlock :: bool

definition resolveControlCommandGate ::
  "bool \<Rightarrow> CommandAuthorizer list \<Rightarrow> bool \<Rightarrow> bool \<Rightarrow> CommandGatingMode option \<Rightarrow> ControlCommandGate" where
  "resolveControlCommandGate useAccessGroups authorizers allowTextCommands hasControlCommand mode =
    (let commandAuthorized = resolveCommandAuthorizedFromAuthorizers useAccessGroups authorizers mode
     in \<lparr>cg_commandAuthorized = commandAuthorized,
         cg_shouldBlock = allowTextCommands \<and> hasControlCommand \<and> \<not> commandAuthorized\<rparr>)"

definition resolveDualTextControlCommandGate ::
  "bool \<Rightarrow> bool \<Rightarrow> bool \<Rightarrow> bool \<Rightarrow> bool \<Rightarrow> bool \<Rightarrow> CommandGatingMode option \<Rightarrow> ControlCommandGate" where
  "resolveDualTextControlCommandGate useAccessGroups primaryConfigured primaryAllowed
      secondaryConfigured secondaryAllowed hasControlCommand mode =
    resolveControlCommandGate useAccessGroups
      [\<lparr>ca_configured = primaryConfigured, ca_allowed = primaryAllowed\<rparr>,
       \<lparr>ca_configured = secondaryConfigured, ca_allowed = secondaryAllowed\<rparr>]
      True hasControlCommand mode"

lemma authorized_access_groups:
  "resolveCommandAuthorizedFromAuthorizers True as mode \<longleftrightarrow> (\<exists>a \<in> set as. ca_configured a \<and> ca_allowed a)"
  by (auto simp: resolveCommandAuthorizedFromAuthorizers_def list_ex_iff)

lemma authorized_off:
  "resolveCommandAuthorizedFromAuthorizers False as mode =
    (case or_else mode ModeAllow of ModeAllow \<Rightarrow> True | ModeDeny \<Rightarrow> False
     | ModeConfigured \<Rightarrow> (\<exists>a \<in> set as. ca_configured a) \<longrightarrow> (\<exists>a \<in> set as. ca_configured a \<and> ca_allowed a))"
  by (auto simp: resolveCommandAuthorizedFromAuthorizers_def list_ex_iff Let_def
      split: CommandGatingMode.splits)

text \<open>An unconfigured authorizer never grants a command.\<close>

lemma authorized_drop_unconfigured:
  "\<not> ca_configured a \<Longrightarrow>
     resolveCommandAuthorizedFromAuthorizers g (xs @ a # ys) m = resolveCommandAuthorizedFromAuthorizers g (xs @ ys) m"
  by (simp add: resolveCommandAuthorizedFromAuthorizers_def Let_def)

section \<open>Mention gating\<close>

datatype InboundImplicitMentionKind = ReplyToBot | QuotedBot | BotThreadParticipant | NativeMention

record InboundMentionFacts =
  mf_canDetectMention :: bool
  mf_wasMentioned :: bool
  mf_hasAnyMention :: "bool option"
  mf_implicitMentionKinds :: "InboundImplicitMentionKind list option"

record InboundMentionPolicy =
  mp_isGroup :: bool
  mp_requireMention :: bool
  mp_allowedImplicitMentionKinds :: "InboundImplicitMentionKind list option"
  mp_allowTextCommands :: bool
  mp_hasControlCommand :: bool
  mp_commandAuthorized :: bool

record FlatMentionParams =
  fl_canDetectMention :: bool
  fl_wasMentioned :: bool
  fl_hasAnyMention :: "bool option"
  fl_implicitMentionKinds :: "InboundImplicitMentionKind list option"
  fl_isGroup :: bool
  fl_requireMention :: bool
  fl_allowedImplicitMentionKinds :: "InboundImplicitMentionKind list option"
  fl_allowTextCommands :: bool
  fl_hasControlCommand :: bool
  fl_commandAuthorized :: bool

datatype MentionDecisionParams =
  NestedParams InboundMentionFacts InboundMentionPolicy
| FlatParams FlatMentionParams

record InboundMentionDecision =
  md_effectiveWasMentioned :: bool
  md_shouldSkip :: bool
  md_implicitMention :: bool
  md_matchedImplicitMentionKinds :: "InboundImplicitMentionKind list"
  md_shouldBypassMention :: bool

definition implicitMentionKindWhen :: "InboundImplicitMentionKind \<Rightarrow> bool \<Rightarrow> InboundImplicitMentionKind list" where
  "implicitMentionKindWhen kind enabled = (if enabled then [kind] else [])"

fun collect_kinds ::
  "InboundImplicitMentionKind list option \<Rightarrow> InboundImplicitMentionKind list
    \<Rightarrow> InboundImplicitMentionKind list \<Rightarrow> InboundImplicitMentionKind list" where
  "collect_kinds allowed [] matched = matched"
| "collect_kinds allowed (kind # kinds) matched =
     (if (case allowed of None \<Rightarrow> False | Some a \<Rightarrow> kind \<notin> set a) then collect_kinds allowed kinds matched
      else if kind \<in> set matched then collect_kinds allowed kinds matched
      else collect_kinds allowed kinds (matched @ [kind]))"

definition resolveMatchedImplicitMentionKinds ::
  "InboundImplicitMentionKind list option \<Rightarrow> InboundImplicitMentionKind list option
    \<Rightarrow> InboundImplicitMentionKind list" where
  "resolveMatchedImplicitMentionKinds implicitMentionKinds allowedImplicitMentionKinds =
    (let inputKinds = or_else implicitMentionKinds [] in
     if inputKinds = [] then [] else collect_kinds allowedImplicitMentionKinds inputKinds [])"

definition resolveMentionDecisionCore ::
  "bool \<Rightarrow> bool \<Rightarrow> bool \<Rightarrow> InboundImplicitMentionKind list option
    \<Rightarrow> InboundImplicitMentionKind list option \<Rightarrow> bool \<Rightarrow> InboundMentionDecision" where
  "resolveMentionDecisionCore requireMention canDetectMention wasMentioned
      implicitMentionKinds allowedImplicitMentionKinds shouldBypassMention =
    (let matched = resolveMatchedImplicitMentionKinds implicitMentionKinds allowedImplicitMentionKinds;
         implicitMention = (matched \<noteq> []);
         effectiveWasMentioned = (wasMentioned \<or> implicitMention \<or> shouldBypassMention);
         shouldSkip = (requireMention \<and> canDetectMention \<and> \<not> effectiveWasMentioned)
     in \<lparr>md_effectiveWasMentioned = effectiveWasMentioned, md_shouldSkip = shouldSkip,
         md_implicitMention = implicitMention, md_matchedImplicitMentionKinds = matched,
         md_shouldBypassMention = shouldBypassMention\<rparr>)"

definition normalizeMentionDecisionParams ::
  "MentionDecisionParams \<Rightarrow> InboundMentionFacts \<times> InboundMentionPolicy" where
  "normalizeMentionDecisionParams params =
    (case params of NestedParams facts policy \<Rightarrow> (facts, policy)
     | FlatParams p \<Rightarrow>
        (\<lparr>mf_canDetectMention = fl_canDetectMention p, mf_wasMentioned = fl_wasMentioned p,
          mf_hasAnyMention = fl_hasAnyMention p, mf_implicitMentionKinds = fl_implicitMentionKinds p\<rparr>,
         \<lparr>mp_isGroup = fl_isGroup p, mp_requireMention = fl_requireMention p,
          mp_allowedImplicitMentionKinds = fl_allowedImplicitMentionKinds p,
          mp_allowTextCommands = fl_allowTextCommands p, mp_hasControlCommand = fl_hasControlCommand p,
          mp_commandAuthorized = fl_commandAuthorized p\<rparr>))"

definition resolveInboundMentionDecision :: "MentionDecisionParams \<Rightarrow> InboundMentionDecision" where
  "resolveInboundMentionDecision params =
    (let (facts, policy) = normalizeMentionDecisionParams params;
         shouldBypassMention =
           (mp_isGroup policy \<and> mp_requireMention policy \<and> \<not> mf_wasMentioned facts
            \<and> \<not> or_else (mf_hasAnyMention facts) False \<and> mp_allowTextCommands policy
            \<and> mp_commandAuthorized policy \<and> mp_hasControlCommand policy)
     in resolveMentionDecisionCore (mp_requireMention policy) (mf_canDetectMention facts)
          (mf_wasMentioned facts) (mf_implicitMentionKinds facts)
          (mp_allowedImplicitMentionKinds policy) shouldBypassMention)"

record MentionGateResult =
  mg_effectiveWasMentioned :: bool
  mg_shouldSkip :: bool

definition resolveMentionGating ::
  "bool \<Rightarrow> bool \<Rightarrow> bool \<Rightarrow> bool option \<Rightarrow> bool option \<Rightarrow> MentionGateResult" where
  "resolveMentionGating requireMention canDetectMention wasMentioned implicitMention shouldBypassMention =
    (let result = resolveMentionDecisionCore requireMention canDetectMention wasMentioned
           (Some (implicitMentionKindWhen NativeMention (implicitMention = Some True))) None
           (shouldBypassMention = Some True)
     in \<lparr>mg_effectiveWasMentioned = md_effectiveWasMentioned result, mg_shouldSkip = md_shouldSkip result\<rparr>)"

record MentionGateWithBypassParams =
  wb_isGroup :: bool
  wb_requireMention :: bool
  wb_canDetectMention :: bool
  wb_wasMentioned :: bool
  wb_implicitMention :: "bool option"
  wb_hasAnyMention :: "bool option"
  wb_allowTextCommands :: bool
  wb_hasControlCommand :: bool
  wb_commandAuthorized :: bool

record MentionGateWithBypassResult = MentionGateResult +
  mg_shouldBypassMention :: bool

definition resolveMentionGatingWithBypass :: "MentionGateWithBypassParams \<Rightarrow> MentionGateWithBypassResult" where
  "resolveMentionGatingWithBypass p =
    (let result = resolveInboundMentionDecision (NestedParams
          \<lparr>mf_canDetectMention = wb_canDetectMention p, mf_wasMentioned = wb_wasMentioned p,
           mf_hasAnyMention = wb_hasAnyMention p,
           mf_implicitMentionKinds = Some (implicitMentionKindWhen NativeMention (wb_implicitMention p = Some True))\<rparr>
          \<lparr>mp_isGroup = wb_isGroup p, mp_requireMention = wb_requireMention p,
           mp_allowedImplicitMentionKinds = None, mp_allowTextCommands = wb_allowTextCommands p,
           mp_hasControlCommand = wb_hasControlCommand p, mp_commandAuthorized = wb_commandAuthorized p\<rparr>)
     in \<lparr>mg_effectiveWasMentioned = md_effectiveWasMentioned result, mg_shouldSkip = md_shouldSkip result,
         mg_shouldBypassMention = md_shouldBypassMention result\<rparr>)"

definition kind_allowed :: "InboundImplicitMentionKind list option \<Rightarrow> InboundImplicitMentionKind \<Rightarrow> bool" where
  "kind_allowed allowed k \<longleftrightarrow> (case allowed of None \<Rightarrow> True | Some a \<Rightarrow> k \<in> set a)"

lemma collect_kinds_set:
  "set (collect_kinds allowed ks m) = set m \<union> {k \<in> set ks. kind_allowed allowed k}"
  by (induction allowed ks m rule: collect_kinds.induct)
    (auto simp: kind_allowed_def split: option.splits)

lemma collect_kinds_distinct: "distinct m \<Longrightarrow> distinct (collect_kinds allowed ks m)"
  by (induction allowed ks m rule: collect_kinds.induct) auto

lemma matched_kinds_set:
  "set (resolveMatchedImplicitMentionKinds ks allowed) = {k \<in> set (or_else ks []). kind_allowed allowed k}"
  by (auto simp: resolveMatchedImplicitMentionKinds_def Let_def collect_kinds_set)

lemma matched_kinds_distinct: "distinct (resolveMatchedImplicitMentionKinds ks allowed)"
  by (simp add: resolveMatchedImplicitMentionKinds_def Let_def collect_kinds_distinct)

lemma core_fields [simp]:
  "md_shouldBypassMention (resolveMentionDecisionCore r c w ks al b) = b"
  "md_effectiveWasMentioned (resolveMentionDecisionCore r c w ks al b) =
     (w \<or> (\<exists>k \<in> set (or_else ks []). kind_allowed al k) \<or> b)"
  "md_shouldSkip (resolveMentionDecisionCore r c w ks al b) =
     (r \<and> c \<and> \<not> w \<and> \<not> (\<exists>k \<in> set (or_else ks []). kind_allowed al k) \<and> \<not> b)"
proof -
  have ne: "resolveMatchedImplicitMentionKinds ks al \<noteq> [] \<longleftrightarrow> (\<exists>k \<in> set (or_else ks []). kind_allowed al k)"
    using matched_kinds_set [of ks al] by (metis (no_types, lifting) empty_Collect_eq set_empty)
  show "md_shouldBypassMention (resolveMentionDecisionCore r c w ks al b) = b"
    by (simp add: resolveMentionDecisionCore_def Let_def)
  show "md_effectiveWasMentioned (resolveMentionDecisionCore r c w ks al b) =
     (w \<or> (\<exists>k \<in> set (or_else ks []). kind_allowed al k) \<or> b)"
    using ne by (auto simp: resolveMentionDecisionCore_def Let_def)
  show "md_shouldSkip (resolveMentionDecisionCore r c w ks al b) =
     (r \<and> c \<and> \<not> w \<and> \<not> (\<exists>k \<in> set (or_else ks []). kind_allowed al k) \<and> \<not> b)"
    using ne by (auto simp: resolveMentionDecisionCore_def Let_def)
qed

lemma mention_decision_nested:
  "resolveInboundMentionDecision (NestedParams facts policy) =
     resolveMentionDecisionCore (mp_requireMention policy) (mf_canDetectMention facts)
       (mf_wasMentioned facts) (mf_implicitMentionKinds facts) (mp_allowedImplicitMentionKinds policy)
       (mp_isGroup policy \<and> mp_requireMention policy \<and> \<not> mf_wasMentioned facts
        \<and> \<not> or_else (mf_hasAnyMention facts) False \<and> mp_allowTextCommands policy
        \<and> mp_commandAuthorized policy \<and> mp_hasControlCommand policy)"
  by (simp add: resolveInboundMentionDecision_def normalizeMentionDecisionParams_def)

lemma matched_kinds_none_allowed:
  "resolveMatchedImplicitMentionKinds (Some (implicitMentionKindWhen k b)) None = (if b then [k] else [])"
  by (simp add: resolveMatchedImplicitMentionKinds_def implicitMentionKindWhen_def)

section \<open>Properties\<close>

text \<open>The mention bypass lets an unmentioned group message through only for an authorised
  control command: a group message that is skipped neither mentions the bot, nor matches an
  allowed implicit mention, nor carries an authorised control command sent where text
  commands are allowed; and a message is skipped exactly then, when mentions are required and
  detectable.\<close>

lemma mention_skip_iff:
  "md_shouldSkip (resolveInboundMentionDecision (NestedParams facts policy)) =
    (mp_requireMention policy \<and> mf_canDetectMention facts \<and> \<not> mf_wasMentioned facts
     \<and> \<not> list_ex (kind_allowed (mp_allowedImplicitMentionKinds policy)) (or_else (mf_implicitMentionKinds facts) [])
     \<and> \<not> (mp_isGroup policy \<and> mf_hasAnyMention facts \<noteq> Some True \<and> mp_allowTextCommands policy
          \<and> mp_commandAuthorized policy \<and> mp_hasControlCommand policy))"
  by (cases "mf_hasAnyMention facts") (auto simp: mention_decision_nested list_ex_iff)

text \<open>A control command is let through exactly when it is authorised: with access groups on
  some authorizer is configured and allows it, with access groups off the mode decides, and
  only text commands that carry a control command are ever blocked.\<close>

lemma control_command_gate:
  "resolveControlCommandGate useGroups as allowText hasControl mode =
    (let authorized =
       (if useGroups then list_ex (\<lambda>a. ca_configured a \<and> ca_allowed a) as
        else (case mode of
            Some ModeDeny \<Rightarrow> False
          | Some ModeConfigured \<Rightarrow>
              list_all (\<lambda>a. \<not> ca_configured a) as \<or> list_ex (\<lambda>a. ca_configured a \<and> ca_allowed a) as
          | _ \<Rightarrow> True))
     in \<lparr>cg_commandAuthorized = authorized, cg_shouldBlock = (allowText \<and> hasControl \<and> \<not> authorized)\<rparr>)"
proof -
  have "(\<not> list_ex ca_configured as) = list_all (\<lambda>a. \<not> ca_configured a) as"
    by (simp add: list_ex_iff list_all_iff)
  then show ?thesis
    by (cases mode; cases "the mode")
      (auto simp: resolveControlCommandGate_def resolveCommandAuthorizedFromAuthorizers_def Let_def)
qed

end
