(* ===== verification/IngressTypes.thy ===== *)
theory IngressTypes
  imports JsString Gating
begin

text \<open>
  The data of the channel ingress kernel (src/src/channels/message-access/types.ts):
  identifiers, allowlist entries, resolved allowlists, route facts, events, policies, the
  gates of the access graph and the final decision.
\<close>

section \<open>Identifiers and entries\<close>

datatype IdentifierKind = StableId | Username | Email | Phone | Role | PluginKind string

datatype Sensitivity = NormalSens | Pii

record MatchableIdentifier =
  mi_opaqueId :: string
  mi_kind :: IdentifierKind
  mi_dangerous :: "bool option"
  mi_sensitivity :: "Sensitivity option"

record InternalMatchMaterial = MatchableIdentifier +
  mm_value :: string

record InternalChannelIngressSubject =
  sub_identifiers :: "InternalMatchMaterial list"

record ChannelIngressNormalizedEntry =
  ne_opaqueEntryId :: string
  ne_kind :: IdentifierKind
  ne_dangerous :: "bool option"
  ne_sensitivity :: "Sensitivity option"

record InternalNormalizedEntry = ChannelIngressNormalizedEntry +
  ne_value :: string

datatype IngressReasonCode =
  R_allowed | R_route_blocked | R_route_sender_empty
| R_dm_policy_disabled | R_dm_policy_open | R_dm_policy_allowlisted
| R_dm_policy_pairing_required | R_dm_policy_not_allowlisted
| R_group_policy_disabled | R_group_policy_open | R_group_policy_allowed
| R_group_policy_empty_allowlist | R_group_policy_not_allowlisted
| R_command_authorized | R_control_command_unauthorized
| R_event_authorized | R_event_unauthorized | R_event_pairing_not_allowed
| R_sender_not_required | R_origin_subject_missing | R_origin_subject_not_matched
| R_activation_allowed | R_activation_skipped
| R_access_group_missing | R_access_group_unsupported | R_access_group_failed
| R_mutable_identifier_disabled | R_no_policy_match

record EntryDiagnostic =
  ed_opaqueEntryId :: "string option"
  ed_reasonCode :: IngressReasonCode

record RedactedIngressMatch =
  rm_matched :: bool
  rm_matchedEntryIds :: "string list"

record InternalNormalizeResult =
  nr_matchable :: "InternalNormalizedEntry list"
  nr_invalid :: "EntryDiagnostic list"
  nr_disabled :: "EntryDiagnostic list"

datatype MatchContext = CtxDm | CtxGroup | CtxRoute | CtxCommand

section \<open>Adapters and access groups\<close>

text \<open>The two operations a channel provides; \<open>normalizeEntries\<close> gets entries, context and
  account.\<close>

record InternalChannelIngressAdapter =
  ad_normalizeEntries :: "string list \<Rightarrow> MatchContext \<Rightarrow> string \<Rightarrow> InternalNormalizeResult"
  ad_matchSubject :: "InternalChannelIngressSubject \<Rightarrow> InternalNormalizedEntry list \<Rightarrow> MatchContext \<Rightarrow> RedactedIngressMatch"

datatype FactSource = StaticFact | DynamicFact

datatype FactFailure = FactMissing | FactUnsupported | FactFailed

datatype AccessGroupMembershipFact =
  MatchedFact string FactSource "string list"
| NotMatchedFact string FactSource
| FailureFact FactFailure string FactSource IngressReasonCode "string option"

definition fact_groupName :: "AccessGroupMembershipFact \<Rightarrow> string" where
  "fact_groupName f = (case f of MatchedFact g _ _ \<Rightarrow> g | NotMatchedFact g _ \<Rightarrow> g | FailureFact _ g _ _ _ \<Rightarrow> g)"

text \<open>Access group configuration (src/src/config/types.access-groups.ts).\<close>

datatype AccessGroupConfig =
  DiscordChannelAudience string string
| MessageSenders "(string \<times> string list) list"

record AccessGroupFacts =
  ag_referenced :: "string list"
  ag_matched :: "string list"
  ag_missing :: "string list"
  ag_unsupported :: "string list"
  ag_failed :: "string list"

record ResolvedIngressAllowlist =
  al_rawEntryCount :: nat
  al_normalizedEntries :: "ChannelIngressNormalizedEntry list"
  al_invalidEntries :: "EntryDiagnostic list"
  al_disabledEntries :: "EntryDiagnostic list"
  al_matchedEntryIds :: "string list"
  al_hasConfiguredEntries :: bool
  al_hasMatchableEntries :: bool
  al_hasWildcard :: bool
  al_accessGroups :: AccessGroupFacts
  al_match :: RedactedIngressMatch

record RedactedIngressAllowlistFacts =
  af_configured :: bool
  af_matched :: bool
  af_reasonCode :: IngressReasonCode
  af_matchedEntryIds :: "string list"
  af_invalidEntryCount :: nat
  af_disabledEntryCount :: nat
  af_accessGroups :: AccessGroupFacts

section \<open>Routes, events, policies\<close>

datatype RouteGateState = NotConfigured | RouteMatched | RouteNotMatched | RouteDisabled | RouteLookupFailed

datatype RouteSenderPolicy = InheritPolicy | ReplacePolicy | DenyWhenEmpty

datatype RouteSenderAllowlistSource = EffectiveDm | EffectiveGroup

datatype RouteKind = RK_route | RK_routeSender | RK_membership | RK_ownerAllowlist | RK_nestedAllowlist

datatype RouteEffect = RE_allow | RE_block_dispatch | RE_ignore

record RouteGateBase =
  rf_id :: string
  rf_kind :: RouteKind
  rf_gate :: RouteGateState
  rf_effect :: RouteEffect
  rf_precedence :: int
  rf_senderPolicy :: RouteSenderPolicy
  rf_match :: "RedactedIngressMatch option"

record RouteGateFacts = RouteGateBase +
  rf_senderAllowFrom :: "js_entry list option"
  rf_senderAllowFromSource :: "RouteSenderAllowlistSource option"

record ResolvedRouteGateFacts = RouteGateBase +
  rr_senderAllowlist :: "ResolvedIngressAllowlist option"

datatype EventKind = EvMessage | EvReaction | EvButton | EvPostback | EvNativeCommand | EvSlashCommand | EvSystem

datatype AuthMode = AuthInbound | AuthCommand | AuthOriginSubject | AuthRouteOnly | AuthNone

record EventBase =
  ev_kind :: EventKind
  ev_authMode :: AuthMode
  ev_mayPair :: bool

record ChannelIngressEventInput = EventBase +
  ev_originSubject :: "InternalChannelIngressSubject option"

record RedactedChannelIngressEvent = EventBase +
  ev_hasOriginSubject :: bool
  ev_originSubjectMatched :: bool

datatype ConversationKind = ConvDirect | ConvGroup | ConvChannel

record Conversation =
  cv_kind :: ConversationKind
  cv_id :: string
  cv_parentId :: "string option"
  cv_threadId :: "string option"
  cv_title :: "string option"

record AllowlistInputs =
  in_dm :: "js_entry list option"
  in_group :: "js_entry list option"
  in_commandOwner :: "js_entry list option"
  in_commandGroup :: "js_entry list option"
  in_pairingStore :: "js_entry list option"

record ChannelIngressStateInput =
  si_channelId :: string
  si_accountId :: string
  si_subject :: InternalChannelIngressSubject
  si_conversation :: Conversation
  si_adapter :: InternalChannelIngressAdapter
  si_accessGroups :: "(string \<times> AccessGroupConfig) list option"
  si_accessGroupMembership :: "AccessGroupMembershipFact list option"
  si_routeFacts :: "RouteGateFacts list option"
  si_mentionFacts :: "InboundMentionFacts option"
  si_event :: ChannelIngressEventInput
  si_allowlists :: AllowlistInputs

datatype DmPolicy = DmPairing | DmAllowlist | DmOpen | DmDisabled

datatype GroupPolicy = GroupAllowlist | GroupOpen | GroupDisabled

datatype MutableMatching = MutableDisabled | MutableEnabled

datatype ActivationOrder = BeforeSender | AfterCommand

record ActivationPolicy =
  ap_requireMention :: bool
  ap_allowTextCommands :: bool
  ap_allowedImplicitMentionKinds :: "InboundImplicitMentionKind list option"
  ap_order :: "ActivationOrder option"

record CommandPolicy =
  cp_useAccessGroups :: "bool option"
  cp_allowTextCommands :: bool
  cp_hasControlCommand :: bool
  cp_modeWhenAccessGroupsOff :: "CommandGatingMode option"

record ChannelIngressPolicyInput =
  po_dmPolicy :: DmPolicy
  po_groupPolicy :: GroupPolicy
  po_groupAllowFromFallbackToAllowFrom :: "bool option"
  po_mutableIdentifierMatching :: "MutableMatching option"
  po_activation :: "ActivationPolicy option"
  po_command :: "CommandPolicy option"

section \<open>The access graph\<close>

datatype IngressGatePhase = PhRoute | PhSender | PhCommand | PhEvent | PhActivation

datatype IngressGateKind =
  GK_route | GK_routeSender | GK_dmSender | GK_groupSender | GK_membership
| GK_ownerAllowlist | GK_nestedAllowlist | GK_command | GK_event | GK_mention

datatype IngressGateEffect = E_allow | E_block_dispatch | E_block_command | E_skip | E_observe | E_ignore

datatype SenderPolicy = SP_dm DmPolicy | SP_group GroupPolicy

record CommandMeta =
  cm_useAccessGroups :: bool
  cm_allowTextCommands :: bool
  cm_modeWhenAccessGroupsOff :: "CommandGatingMode option"
  cm_shouldBlockControlCommand :: bool

record ActivationMeta =
  am_hasMentionFacts :: bool
  am_requireMention :: bool
  am_allowTextCommands :: bool
  am_allowedImplicitMentionKinds :: "InboundImplicitMentionKind list option"
  am_order :: "ActivationOrder option"
  am_shouldSkip :: bool
  am_canDetectMention :: "bool option"
  am_wasMentioned :: "bool option"
  am_hasAnyMention :: "bool option"
  am_implicitMentionKinds :: "InboundImplicitMentionKind list option"
  am_effectiveWasMentioned :: "bool option"
  am_shouldBypassMention :: "bool option"

record AccessGraphGate =
  g_id :: string
  g_phase :: IngressGatePhase
  g_kind :: IngressGateKind
  g_effect :: IngressGateEffect
  g_allowed :: bool
  g_reasonCode :: IngressReasonCode
  g_match :: "RedactedIngressMatch option"
  g_allowlist :: "RedactedIngressAllowlistFacts option"
  g_sender :: "SenderPolicy option"
  g_command :: "CommandMeta option"
  g_event :: "RedactedChannelIngressEvent option"
  g_activation :: "ActivationMeta option"

record StateAllowlists =
  st_dm :: ResolvedIngressAllowlist
  st_pairingStore :: ResolvedIngressAllowlist
  st_group :: ResolvedIngressAllowlist
  st_commandOwner :: ResolvedIngressAllowlist
  st_commandGroup :: ResolvedIngressAllowlist

record ChannelIngressState =
  cs_channelId :: string
  cs_accountId :: string
  cs_conversationKind :: ConversationKind
  cs_event :: RedactedChannelIngressEvent
  cs_mentionFacts :: "InboundMentionFacts option"
  cs_routeFacts :: "ResolvedRouteGateFacts list"
  cs_allowlists :: StateAllowlists

datatype ChannelIngressAdmission = A_dispatch | A_observe | A_skip | A_drop | A_pairing_required

datatype IngressVerdict = V_allow | V_block | V_pairing

record ChannelIngressDecision =
  d_admission :: ChannelIngressAdmission
  d_decision :: IngressVerdict
  d_decisiveGateId :: string
  d_reasonCode :: IngressReasonCode
  d_gates :: "AccessGraphGate list"

end
