(* ===== verification/IngressSender.thy ===== *)
theory IngressSender
  imports IngressTypes
begin

text \<open>
  Allowlists after policy (src/src/channels/message-access/allowlist.ts) and the sender
  gates of direct and group conversations
  (src/src/channels/message-access/sender-gates.ts).
\<close>

section \<open>Allowlists (allowlist.ts)\<close>

definition allowlistFailureReason :: "ResolvedIngressAllowlist \<Rightarrow> IngressReasonCode option" where
  "allowlistFailureReason a =
    (if ag_failed (al_accessGroups a) \<noteq> [] then Some R_access_group_failed
     else if ag_unsupported (al_accessGroups a) \<noteq> [] then Some R_access_group_unsupported
     else if ag_missing (al_accessGroups a) \<noteq> [] then Some R_access_group_missing
     else None)"

definition redactedAllowlistDiagnostics ::
  "ResolvedIngressAllowlist \<Rightarrow> IngressReasonCode \<Rightarrow> RedactedIngressAllowlistFacts" where
  "redactedAllowlistDiagnostics a reasonCode =
    \<lparr>af_configured = al_hasConfiguredEntries a, af_matched = rm_matched (al_match a),
     af_reasonCode = reasonCode, af_matchedEntryIds = al_matchedEntryIds a,
     af_invalidEntryCount = length (al_invalidEntries a),
     af_disabledEntryCount = length (al_disabledEntries a),
     af_accessGroups = al_accessGroups a\<rparr>"

definition uniqueStrings :: "string list \<Rightarrow> string list" where
  "uniqueStrings values = uniq values"

definition mergeResolvedAllowlists :: "ResolvedIngressAllowlist list \<Rightarrow> ResolvedIngressAllowlist" where
  "mergeResolvedAllowlists as =
    (let matches = map al_match as;
         matchedEntryIds = uniqueStrings (concat (map al_matchedEntryIds as)) in
     \<lparr>al_rawEntryCount = foldl (\<lambda>sum a. sum + al_rawEntryCount a) 0 as,
      al_normalizedEntries = concat (map al_normalizedEntries as),
      al_invalidEntries = concat (map al_invalidEntries as),
      al_disabledEntries = concat (map al_disabledEntries as),
      al_matchedEntryIds = matchedEntryIds,
      al_hasConfiguredEntries = list_ex al_hasConfiguredEntries as,
      al_hasMatchableEntries = list_ex al_hasMatchableEntries as,
      al_hasWildcard = list_ex al_hasWildcard as,
      al_accessGroups =
        \<lparr>ag_referenced = uniqueStrings (concat (map (ag_referenced \<circ> al_accessGroups) as)),
         ag_matched = uniqueStrings (concat (map (ag_matched \<circ> al_accessGroups) as)),
         ag_missing = uniqueStrings (concat (map (ag_missing \<circ> al_accessGroups) as)),
         ag_unsupported = uniqueStrings (concat (map (ag_unsupported \<circ> al_accessGroups) as)),
         ag_failed = uniqueStrings (concat (map (ag_failed \<circ> al_accessGroups) as))\<rparr>,
      al_match = \<lparr>rm_matched = (list_ex rm_matched matches \<or> matchedEntryIds \<noteq> []),
                  rm_matchedEntryIds = matchedEntryIds\<rparr>\<rparr>)"

definition entry_dangerous :: "ChannelIngressNormalizedEntry \<Rightarrow> bool" where
  "entry_dangerous e \<longleftrightarrow> ne_dangerous e = Some True"

definition applyMutableIdentifierPolicy ::
  "ResolvedIngressAllowlist \<Rightarrow> ChannelIngressPolicyInput \<Rightarrow> ResolvedIngressAllowlist" where
  "applyMutableIdentifierPolicy a policy =
    (if po_mutableIdentifierMatching policy = Some MutableEnabled then a
     else let dangerous = filter entry_dangerous (al_normalizedEntries a);
              dangerousEntryIds = uniq (map ne_opaqueEntryId dangerous)
       in if dangerousEntryIds = [] then a
          else let matchedEntryIds = filter (\<lambda>i. i \<notin> set dangerousEntryIds) (al_matchedEntryIds a)
            in a\<lparr>al_disabledEntries := al_disabledEntries a @
                   map (\<lambda>e. \<lparr>ed_opaqueEntryId = Some (ne_opaqueEntryId e),
                             ed_reasonCode = R_mutable_identifier_disabled\<rparr>) dangerous,
                 al_matchedEntryIds := matchedEntryIds,
                 al_hasMatchableEntries := list_ex (\<lambda>e. \<not> entry_dangerous e) (al_normalizedEntries a),
                 al_match := \<lparr>rm_matched = (matchedEntryIds \<noteq> []), rm_matchedEntryIds = matchedEntryIds\<rparr>\<rparr>)"

fun route_effective :: "ResolvedIngressAllowlist \<Rightarrow> ResolvedRouteGateFacts list \<Rightarrow> ResolvedIngressAllowlist" where
  "route_effective effective [] = effective"
| "route_effective effective (route # routes) =
     (if rf_gate route \<noteq> RouteMatched then route_effective effective routes
      else (case rr_senderAllowlist route of
         None \<Rightarrow> route_effective effective routes
       | Some senders \<Rightarrow>
           if rf_senderPolicy route = InheritPolicy
           then route_effective (mergeResolvedAllowlists [effective, senders]) routes
           else route_effective senders routes))"

definition effectiveGroupSenderAllowlist ::
  "ChannelIngressState \<Rightarrow> ChannelIngressPolicyInput \<Rightarrow> ResolvedIngressAllowlist" where
  "effectiveGroupSenderAllowlist state policy =
    (let effective =
       (if po_groupAllowFromFallbackToAllowFrom policy = Some True
           \<and> \<not> al_hasConfiguredEntries (st_group (cs_allowlists state))
        then st_dm (cs_allowlists state) else st_group (cs_allowlists state))
     in applyMutableIdentifierPolicy (route_effective effective (cs_routeFacts state)) policy)"

section \<open>Sender gates (sender-gates.ts)\<close>

definition senderGate ::
  "string \<Rightarrow> IngressGateKind \<Rightarrow> IngressGateEffect \<Rightarrow> bool \<Rightarrow> IngressReasonCode \<Rightarrow> RedactedIngressMatch
    \<Rightarrow> SenderPolicy \<Rightarrow> ResolvedIngressAllowlist \<Rightarrow> AccessGraphGate" where
  "senderGate i kind effect allowed reasonCode m policy allowlistSource =
    \<lparr>g_id = i, g_phase = PhSender, g_kind = kind, g_effect = effect, g_allowed = allowed,
     g_reasonCode = reasonCode, g_match = Some m,
     g_allowlist = Some (redactedAllowlistDiagnostics allowlistSource reasonCode),
     g_sender = Some policy, g_command = None, g_event = None, g_activation = None\<rparr>"

definition senderGateForDirect :: "ChannelIngressState \<Rightarrow> ChannelIngressPolicyInput \<Rightarrow> AccessGraphGate" where
  "senderGateForDirect state policy =
    (let dm = applyMutableIdentifierPolicy (st_dm (cs_allowlists state)) policy;
         pairingStore = applyMutableIdentifierPolicy (st_pairingStore (cs_allowlists state)) policy;
         p = SP_dm (po_dmPolicy policy);
         allow = (\<lambda>r. senderGate ''sender:dm'' GK_dmSender E_allow True r (al_match dm) p dm);
         block = (\<lambda>r. senderGate ''sender:dm'' GK_dmSender E_block_dispatch False r (al_match dm) p dm)
     in if po_dmPolicy policy = DmDisabled then block R_dm_policy_disabled
        else if po_dmPolicy policy = DmOpen then
          (if al_hasWildcard dm then allow R_dm_policy_open
           else if rm_matched (al_match dm) then allow R_dm_policy_allowlisted
           else block R_dm_policy_not_allowlisted)
        else if rm_matched (al_match dm) then allow R_dm_policy_allowlisted
        else if po_dmPolicy policy = DmPairing \<and> rm_matched (al_match pairingStore) then
          senderGate ''sender:dm'' GK_dmSender E_allow True R_dm_policy_allowlisted
            (al_match pairingStore) p pairingStore
        else if po_dmPolicy policy = DmPairing \<and> ev_mayPair (cs_event state) then
          block R_dm_policy_pairing_required
        else block (if po_dmPolicy policy = DmPairing then R_event_pairing_not_allowed
                    else or_else (allowlistFailureReason dm) R_dm_policy_not_allowlisted))"

definition senderGateForGroup :: "ChannelIngressState \<Rightarrow> ChannelIngressPolicyInput \<Rightarrow> AccessGraphGate" where
  "senderGateForGroup state policy =
    (let group = effectiveGroupSenderAllowlist state policy;
         p = SP_group (po_groupPolicy policy);
         allow = (\<lambda>r. senderGate ''sender:group'' GK_groupSender E_allow True r (al_match group) p group);
         block = (\<lambda>r. senderGate ''sender:group'' GK_groupSender E_block_dispatch False r (al_match group) p group)
     in if po_groupPolicy policy = GroupDisabled then block R_group_policy_disabled
        else if po_groupPolicy policy = GroupOpen then allow R_group_policy_open
        else if \<not> al_hasConfiguredEntries group then block R_group_policy_empty_allowlist
        else if rm_matched (al_match group) then allow R_group_policy_allowed
        else block (or_else (allowlistFailureReason group) R_group_policy_not_allowlisted))"

definition applyEventAuthModeToSenderGate :: "ChannelIngressState \<Rightarrow> AccessGraphGate \<Rightarrow> AccessGraphGate" where
  "applyEventAuthModeToSenderGate state gate =
    (if ev_authMode (cs_event state) = AuthInbound \<or> g_allowed gate then gate
     else gate\<lparr>g_effect := E_ignore, g_allowed := True, g_reasonCode := R_sender_not_required,
               g_allowlist := map_option (\<lambda>a. a\<lparr>af_reasonCode := R_sender_not_required\<rparr>) (g_allowlist gate)\<rparr>)"

section \<open>Facts about allowlists\<close>

text \<open>A resolved allowlist says it matched exactly when some entry id matched.\<close>

definition match_ids_agree :: "ResolvedIngressAllowlist \<Rightarrow> bool" where
  "match_ids_agree a \<longleftrightarrow> rm_matchedEntryIds (al_match a) = al_matchedEntryIds a
     \<and> (al_matchedEntryIds a \<noteq> [] \<longrightarrow> rm_matched (al_match a))"

lemma mutable_matched_mono:
  "match_ids_agree a \<Longrightarrow> rm_matched (al_match (applyMutableIdentifierPolicy a p)) \<Longrightarrow> rm_matched (al_match a)"
  by (auto simp: applyMutableIdentifierPolicy_def Let_def match_ids_agree_def filter_empty_conv
      split: if_splits)

lemma mutable_keeps [simp]:
  "al_hasConfiguredEntries (applyMutableIdentifierPolicy a p) = al_hasConfiguredEntries a"
  "al_hasWildcard (applyMutableIdentifierPolicy a p) = al_hasWildcard a"
  "al_accessGroups (applyMutableIdentifierPolicy a p) = al_accessGroups a"
  "al_normalizedEntries (applyMutableIdentifierPolicy a p) = al_normalizedEntries a"
  by (simp_all add: applyMutableIdentifierPolicy_def Let_def)

lemma mutable_agree: "match_ids_agree a \<Longrightarrow> match_ids_agree (applyMutableIdentifierPolicy a p)"
  by (auto simp: applyMutableIdentifierPolicy_def Let_def match_ids_agree_def)

lemma mutable_idem:
  "applyMutableIdentifierPolicy a p = b \<Longrightarrow>
     al_match (applyMutableIdentifierPolicy b p) = al_match b \<and>
     al_matchedEntryIds (applyMutableIdentifierPolicy b p) = al_matchedEntryIds b"
proof -
  have twice: "filter P (filter P xs) = filter P xs" for P and xs :: "string list" by simp
  assume "applyMutableIdentifierPolicy a p = b"
  then show ?thesis
    by (auto simp: applyMutableIdentifierPolicy_def Let_def twice simp del: filter_filter)
qed

lemma mutable_no_dangerous_id:
  assumes "po_mutableIdentifierMatching p \<noteq> Some MutableEnabled"
    and "e \<in> set (al_normalizedEntries a)" "entry_dangerous e"
  shows "ne_opaqueEntryId e \<notin> set (al_matchedEntryIds (applyMutableIdentifierPolicy a p))"
proof -
  have "ne_opaqueEntryId e \<in> set (uniq (map ne_opaqueEntryId (filter entry_dangerous (al_normalizedEntries a))))"
    using assms(2,3) by simp
  moreover have "filter entry_dangerous (al_normalizedEntries a) \<noteq> []"
    using assms(2,3) by (auto simp: filter_empty_conv)
  ultimately show ?thesis using assms
    by (simp add: applyMutableIdentifierPolicy_def Let_def)
qed

lemma merge_agree: "match_ids_agree (mergeResolvedAllowlists as)"
  by (simp add: match_ids_agree_def mergeResolvedAllowlists_def Let_def)

lemma merge_matched:
  "(\<And>a. a \<in> set as \<Longrightarrow> match_ids_agree a) \<Longrightarrow>
     rm_matched (al_match (mergeResolvedAllowlists as)) \<longleftrightarrow> (\<exists>a \<in> set as. rm_matched (al_match a))"
  by (auto simp: mergeResolvedAllowlists_def Let_def list_ex_iff uniqueStrings_def match_ids_agree_def)

lemma merge_configured [simp]:
  "al_hasConfiguredEntries (mergeResolvedAllowlists as) \<longleftrightarrow> (\<exists>a \<in> set as. al_hasConfiguredEntries a)"
  by (auto simp: mergeResolvedAllowlists_def Let_def list_ex_iff)

section \<open>Facts about the sender gates\<close>

lemma senderGate_fields [simp]:
  "g_id (senderGate i k e al r m p a) = i" "g_phase (senderGate i k e al r m p a) = PhSender"
  "g_kind (senderGate i k e al r m p a) = k"
  "g_effect (senderGate i k e al r m p a) = e" "g_allowed (senderGate i k e al r m p a) = al"
  "g_reasonCode (senderGate i k e al r m p a) = r"
  by (simp_all add: senderGate_def)

definition sender_gate_ok :: "AccessGraphGate \<Rightarrow> bool" where
  "sender_gate_ok g \<longleftrightarrow> g_phase g = PhSender
     \<and> (g_allowed g \<longrightarrow> g_effect g \<in> {E_allow, E_ignore}) \<and> (\<not> g_allowed g \<longrightarrow> g_effect g = E_block_dispatch)"

lemma sender_gate_ok_direct: "sender_gate_ok (senderGateForDirect s p)"
  by (simp add: senderGateForDirect_def sender_gate_ok_def Let_def)

lemma sender_gate_ok_group: "sender_gate_ok (senderGateForGroup s p)"
  by (simp add: senderGateForGroup_def sender_gate_ok_def Let_def)

lemma sender_gate_ok_event: "sender_gate_ok g \<Longrightarrow> sender_gate_ok (applyEventAuthModeToSenderGate s g)"
  by (simp add: applyEventAuthModeToSenderGate_def sender_gate_ok_def)

text \<open>What an admitted direct sender proves about the allowlists.\<close>

definition direct_sender_authorized :: "ChannelIngressState \<Rightarrow> ChannelIngressPolicyInput \<Rightarrow> bool" where
  "direct_sender_authorized s p =
    (let dm = applyMutableIdentifierPolicy (st_dm (cs_allowlists s)) p;
         store = applyMutableIdentifierPolicy (st_pairingStore (cs_allowlists s)) p in
     case po_dmPolicy p of
       DmDisabled \<Rightarrow> False
     | DmOpen \<Rightarrow> al_hasWildcard dm \<or> rm_matched (al_match dm)
     | DmAllowlist \<Rightarrow> rm_matched (al_match dm)
     | DmPairing \<Rightarrow> rm_matched (al_match dm) \<or> rm_matched (al_match store))"

lemma direct_allowed_iff: "g_allowed (senderGateForDirect s p) = direct_sender_authorized s p"
  by (cases "po_dmPolicy p") (auto simp: senderGateForDirect_def direct_sender_authorized_def Let_def)

definition group_sender_authorized :: "ChannelIngressState \<Rightarrow> ChannelIngressPolicyInput \<Rightarrow> bool" where
  "group_sender_authorized s p =
    (let group = effectiveGroupSenderAllowlist s p in
     case po_groupPolicy p of
       GroupDisabled \<Rightarrow> False
     | GroupOpen \<Rightarrow> True
     | GroupAllowlist \<Rightarrow> al_hasConfiguredEntries group \<and> rm_matched (al_match group))"

lemma group_allowed_iff: "g_allowed (senderGateForGroup s p) = group_sender_authorized s p"
  by (cases "po_groupPolicy p") (auto simp: senderGateForGroup_def group_sender_authorized_def Let_def)

text \<open>Pairing is asked for only under the pairing policy, for an event that may pair.\<close>

lemma direct_pairing_iff:
  "g_reasonCode (senderGateForDirect s p) = R_dm_policy_pairing_required \<longleftrightarrow>
     po_dmPolicy p = DmPairing \<and> \<not> direct_sender_authorized s p \<and> ev_mayPair (cs_event s)"
  by (cases "po_dmPolicy p")
    (auto simp: senderGateForDirect_def direct_sender_authorized_def Let_def allowlistFailureReason_def
      or_else_def split: option.splits)

lemma group_never_pairs: "g_reasonCode (senderGateForGroup s p) \<noteq> R_dm_policy_pairing_required"
  by (auto simp: senderGateForGroup_def Let_def allowlistFailureReason_def or_else_def split: option.splits)

end
