(* ===== verification/IngressDecision.thy ===== *)
theory IngressDecision
  imports IngressSender
begin

text \<open>
  The decision of the ingress kernel (src/src/channels/message-access/decision.ts): route
  gates, the activation gate when it runs before the sender, the sender gate, the command
  gate, the event gate and the activation gate, in the order the code pushes them.
\<close>

section \<open>Gates\<close>

definition decisiveDecision ::
  "ChannelIngressAdmission \<Rightarrow> IngressVerdict \<Rightarrow> AccessGraphGate \<Rightarrow> AccessGraphGate list \<Rightarrow> ChannelIngressDecision" where
  "decisiveDecision admission decision gate gates =
    \<lparr>d_admission = admission, d_decision = decision, d_decisiveGateId = g_id gate,
     d_reasonCode = g_reasonCode gate, d_gates = gates\<rparr>"

fun gate_kind_of_route :: "RouteKind \<Rightarrow> IngressGateKind" where
  "gate_kind_of_route RK_route = GK_route"
| "gate_kind_of_route RK_routeSender = GK_routeSender"
| "gate_kind_of_route RK_membership = GK_membership"
| "gate_kind_of_route RK_ownerAllowlist = GK_ownerAllowlist"
| "gate_kind_of_route RK_nestedAllowlist = GK_nestedAllowlist"

fun gate_effect_of_route :: "RouteEffect \<Rightarrow> IngressGateEffect" where
  "gate_effect_of_route RE_allow = E_allow"
| "gate_effect_of_route RE_block_dispatch = E_block_dispatch"
| "gate_effect_of_route RE_ignore = E_ignore"

text \<open>A gate with the optional parts left out, as the object literals of the code do.\<close>

definition plain_gate ::
  "string \<Rightarrow> IngressGatePhase \<Rightarrow> IngressGateKind \<Rightarrow> IngressGateEffect \<Rightarrow> bool \<Rightarrow> IngressReasonCode \<Rightarrow> AccessGraphGate" where
  "plain_gate i phase kind effect allowed reasonCode =
    \<lparr>g_id = i, g_phase = phase, g_kind = kind, g_effect = effect, g_allowed = allowed,
     g_reasonCode = reasonCode, g_match = None, g_allowlist = None, g_sender = None,
     g_command = None, g_event = None, g_activation = None\<rparr>"

definition route_gate :: "ResolvedRouteGateFacts \<Rightarrow> AccessGraphGate" where
  "route_gate route =
    (plain_gate (rf_id route) PhRoute (gate_kind_of_route (rf_kind route))
       (gate_effect_of_route (rf_effect route)) (rf_effect route \<noteq> RE_block_dispatch)
       (if rf_effect route = RE_block_dispatch then R_route_blocked else R_allowed))
     \<lparr>g_match := rf_match route\<rparr>"

definition routeGates :: "ChannelIngressState \<Rightarrow> AccessGraphGate list" where
  "routeGates state = map route_gate (cs_routeFacts state)"

definition denies_empty_sender :: "ResolvedRouteGateFacts \<Rightarrow> bool" where
  "denies_empty_sender rt \<longleftrightarrow> rf_senderPolicy rt = DenyWhenEmpty \<and> rf_gate rt = RouteMatched
     \<and> map_option al_hasConfiguredEntries (rr_senderAllowlist rt) \<noteq> Some True"

definition routeSenderEmptyGate :: "ChannelIngressState \<Rightarrow> AccessGraphGate option" where
  "routeSenderEmptyGate state =
    (case find denies_empty_sender (cs_routeFacts state) of
       None \<Rightarrow> None
     | Some route \<Rightarrow> Some ((plain_gate (rf_id route @ '':sender'') PhRoute GK_routeSender E_block_dispatch False R_route_sender_empty)
         \<lparr>g_match := rf_match route,
          g_allowlist := map_option (\<lambda>a. redactedAllowlistDiagnostics a R_route_sender_empty) (rr_senderAllowlist route)\<rparr>))"

definition mergeCommandMatch :: "RedactedIngressMatch \<Rightarrow> RedactedIngressMatch \<Rightarrow> RedactedIngressMatch" where
  "mergeCommandMatch owner grp =
    (let matchedEntryIds = uniq (rm_matchedEntryIds owner @ rm_matchedEntryIds grp)
     in \<lparr>rm_matched = (rm_matched owner \<or> rm_matched grp \<or> matchedEntryIds \<noteq> []),
         rm_matchedEntryIds = matchedEntryIds\<rparr>)"

definition commandGate :: "ChannelIngressState \<Rightarrow> ChannelIngressPolicyInput \<Rightarrow> AccessGraphGate" where
  "commandGate state policy =
    (case po_command policy of
       None \<Rightarrow> plain_gate ''command'' PhCommand GK_command E_allow True R_command_authorized
     | Some command \<Rightarrow>
        (let useAccessGroups = or_else (cp_useAccessGroups command) True;
             owner = applyMutableIdentifierPolicy (st_commandOwner (cs_allowlists state)) policy;
             group = applyMutableIdentifierPolicy (st_commandGroup (cs_allowlists state)) policy;
             authorized = resolveCommandAuthorizedFromAuthorizers useAccessGroups
               [\<lparr>ca_configured = al_hasConfiguredEntries owner, ca_allowed = rm_matched (al_match owner)\<rparr>,
                \<lparr>ca_configured = al_hasConfiguredEntries group, ca_allowed = rm_matched (al_match group)\<rparr>]
               (cp_modeWhenAccessGroupsOff command);
             shouldBlock = (cp_allowTextCommands command \<and> cp_hasControlCommand command \<and> \<not> authorized)
         in (plain_gate ''command'' PhCommand GK_command
               (if shouldBlock then E_block_command else E_allow) authorized
               (if shouldBlock then R_control_command_unauthorized else R_command_authorized))
             \<lparr>g_match := Some (mergeCommandMatch (al_match owner) (al_match group)),
              g_command := Some \<lparr>cm_useAccessGroups = useAccessGroups,
                cm_allowTextCommands = cp_allowTextCommands command,
                cm_modeWhenAccessGroupsOff = cp_modeWhenAccessGroupsOff command,
                cm_shouldBlockControlCommand = shouldBlock\<rparr>\<rparr>))"

definition event_result :: "RedactedChannelIngressEvent \<Rightarrow> bool \<Rightarrow> IngressReasonCode \<Rightarrow> AccessGraphGate" where
  "event_result event allowed reasonCode =
    (plain_gate ''event'' PhEvent GK_event (if allowed then E_allow else E_block_dispatch) allowed reasonCode)
      \<lparr>g_event := Some event\<rparr>"

definition eventGate :: "ChannelIngressState \<Rightarrow> AccessGraphGate \<Rightarrow> AccessGraphGate \<Rightarrow> AccessGraphGate" where
  "eventGate state sender command =
    (let event = cs_event state; authMode = ev_authMode event; eventResult = event_result event in
     if authMode = AuthNone \<or> authMode = AuthRouteOnly then eventResult True R_event_authorized
     else if authMode = AuthCommand then
       eventResult (g_allowed command) (if g_allowed command then R_event_authorized else R_event_unauthorized)
     else if authMode = AuthOriginSubject then
       (if \<not> ev_hasOriginSubject event then eventResult False R_origin_subject_missing
        else let matched = ev_originSubjectMatched event
          in eventResult matched (if matched then R_event_authorized else R_origin_subject_not_matched))
     else eventResult (g_allowed sender) (if g_allowed sender then R_event_authorized else R_event_unauthorized))"

definition activationMetadata ::
  "ActivationPolicy option \<Rightarrow> InboundMentionFacts option \<Rightarrow> bool \<Rightarrow> bool option \<Rightarrow> bool option \<Rightarrow> ActivationMeta" where
  "activationMetadata activation mentionFacts shouldSkip effectiveWasMentioned shouldBypassMention =
    \<lparr>am_hasMentionFacts = (mentionFacts \<noteq> None),
     am_requireMention = or_else (map_option ap_requireMention activation) False,
     am_allowTextCommands = or_else (map_option ap_allowTextCommands activation) False,
     am_allowedImplicitMentionKinds = Option.bind activation ap_allowedImplicitMentionKinds,
     am_order = Option.bind activation ap_order,
     am_shouldSkip = shouldSkip,
     am_canDetectMention = map_option mf_canDetectMention mentionFacts,
     am_wasMentioned = map_option mf_wasMentioned mentionFacts,
     am_hasAnyMention = Option.bind mentionFacts mf_hasAnyMention,
     am_implicitMentionKinds = Option.bind mentionFacts mf_implicitMentionKinds,
     am_effectiveWasMentioned = effectiveWasMentioned,
     am_shouldBypassMention = shouldBypassMention\<rparr>"

definition activation_result ::
  "ActivationPolicy option \<Rightarrow> InboundMentionFacts option \<Rightarrow> bool \<Rightarrow> bool option \<Rightarrow> bool option \<Rightarrow> AccessGraphGate" where
  "activation_result activation mentionFacts shouldSkip effectiveWasMentioned shouldBypassMention =
    (plain_gate ''activation'' PhActivation GK_mention (if shouldSkip then E_skip else E_allow)
       (\<not> shouldSkip) (if shouldSkip then R_activation_skipped else R_activation_allowed))
     \<lparr>g_activation := Some (activationMetadata activation mentionFacts shouldSkip effectiveWasMentioned shouldBypassMention)\<rparr>"

definition activationGate ::
  "ChannelIngressState \<Rightarrow> ChannelIngressPolicyInput \<Rightarrow> AccessGraphGate \<Rightarrow> AccessGraphGate" where
  "activationGate state policy command =
    (let facts = cs_mentionFacts state in
     case (po_activation policy, facts) of
       (Some activation, Some mentionFacts) \<Rightarrow>
         (let result = resolveInboundMentionDecision (NestedParams mentionFacts
              \<lparr>mp_isGroup = (cs_conversationKind state \<noteq> ConvDirect),
               mp_requireMention = ap_requireMention activation,
               mp_allowedImplicitMentionKinds = ap_allowedImplicitMentionKinds activation,
               mp_allowTextCommands = ap_allowTextCommands activation,
               mp_hasControlCommand = or_else (map_option cp_hasControlCommand (po_command policy)) False,
               mp_commandAuthorized = g_allowed command\<rparr>)
          in activation_result (Some activation) facts (md_shouldSkip result)
               (Some (md_effectiveWasMentioned result)) (Some (md_shouldBypassMention result)))
     | (activation, _) \<Rightarrow>
         activation_result activation facts False
           (map_option (\<lambda>f. mf_wasMentioned f \<or> or_else (mf_implicitMentionKinds f) [] \<noteq> []) facts) None)"

section \<open>The decision\<close>

definition activation_before_sender :: "ChannelIngressState \<Rightarrow> ChannelIngressPolicyInput \<Rightarrow> AccessGraphGate option" where
  "activation_before_sender state policy =
    (case po_activation policy of
       Some activation \<Rightarrow>
         if ap_order activation = Some BeforeSender \<and> \<not> ap_allowTextCommands activation
         then Some (activationGate state policy (commandGate state (policy\<lparr>po_command := None\<rparr>)))
         else None
     | None \<Rightarrow> None)"

definition sender_gate_of :: "ChannelIngressState \<Rightarrow> ChannelIngressPolicyInput \<Rightarrow> AccessGraphGate" where
  "sender_gate_of state policy = applyEventAuthModeToSenderGate state
     (if cs_conversationKind state = ConvDirect then senderGateForDirect state policy
      else senderGateForGroup state policy)"

definition decideChannelIngress ::
  "ChannelIngressState \<Rightarrow> ChannelIngressPolicyInput \<Rightarrow> ChannelIngressDecision" where
  "decideChannelIngress state policy =
    (let gates = routeGates state @ (case routeSenderEmptyGate state of None \<Rightarrow> [] | Some g \<Rightarrow> [g]) in
     case find (\<lambda>g. g_effect g = E_block_dispatch) gates of
       Some routeBlock \<Rightarrow> decisiveDecision A_drop V_block routeBlock gates
     | None \<Rightarrow>
    (let before = activation_before_sender state policy;
         gates = gates @ (case before of None \<Rightarrow> [] | Some g \<Rightarrow> [g]) in
     if map_option g_effect before = Some E_skip then decisiveDecision A_skip V_allow (the before) gates
     else
    (let sender = sender_gate_of state policy; gates = gates @ [sender] in
     if \<not> g_allowed sender then
       (if g_reasonCode sender = R_dm_policy_pairing_required
        then decisiveDecision A_pairing_required V_pairing sender gates
        else decisiveDecision A_drop V_block sender gates)
     else
    (let command = commandGate state policy; gates = gates @ [command] in
     if g_effect command = E_block_command then decisiveDecision A_drop V_block command gates
     else
    (let event = eventGate state sender command; gates = gates @ [event] in
     if \<not> g_allowed event then decisiveDecision A_drop V_block event gates
     else
    (let activation = (case before of Some g \<Rightarrow> g | None \<Rightarrow> activationGate state policy command);
         gates = gates @ (case before of Some g \<Rightarrow> [] | None \<Rightarrow> [activation]) in
     if g_effect activation = E_skip then decisiveDecision A_skip V_allow activation gates
     else if g_effect activation = E_observe then decisiveDecision A_observe V_allow activation gates
     else decisiveDecision A_dispatch V_allow activation gates))))))"


section \<open>Facts about the gates\<close>

lemma plain_gate_fields [simp]:
  "g_id (plain_gate i ph k e al r) = i" "g_phase (plain_gate i ph k e al r) = ph"
  "g_kind (plain_gate i ph k e al r) = k" "g_effect (plain_gate i ph k e al r) = e"
  "g_allowed (plain_gate i ph k e al r) = al" "g_reasonCode (plain_gate i ph k e al r) = r"
  by (simp_all add: plain_gate_def)

definition blocking :: "AccessGraphGate \<Rightarrow> bool" where
  "blocking g \<longleftrightarrow> g_effect g \<in> {E_block_dispatch, E_block_command, E_skip, E_observe}"

definition admitted_effect :: "AccessGraphGate \<Rightarrow> bool" where
  "admitted_effect g \<longleftrightarrow> g_effect g \<in> {E_allow, E_ignore}"

lemma blocking_admitted [simp]: "\<not> blocking g \<longleftrightarrow> admitted_effect g"
  by (cases "g_effect g") (auto simp: blocking_def admitted_effect_def)

lemma route_gate_blocking [gate_simps]: "blocking (route_gate r) \<longleftrightarrow> rf_effect r = RE_block_dispatch"
  by (cases "rf_effect r") (simp_all add: route_gate_def blocking_def)

lemma route_gate_effect [gate_simps]:
  "g_effect (route_gate r) = E_block_dispatch \<longleftrightarrow> rf_effect r = RE_block_dispatch"
  by (cases "rf_effect r") (simp_all add: route_gate_def)

lemma route_gate_reason [gate_simps]: "g_reasonCode (route_gate r) \<noteq> R_dm_policy_pairing_required"
  by (simp add: route_gate_def)

lemma empty_gate_fields:
  "routeSenderEmptyGate s = Some g \<Longrightarrow> g_effect g = E_block_dispatch \<and> g_reasonCode g = R_route_sender_empty"
  by (auto simp: routeSenderEmptyGate_def split: option.splits)

lemma empty_gate_None [gate_simps]:
  "routeSenderEmptyGate s = None \<longleftrightarrow> list_all (\<lambda>r. \<not> denies_empty_sender r) (cs_routeFacts s)"
  by (auto simp: routeSenderEmptyGate_def list_all_iff dest: find_SomeD find_NoneD split: option.splits)

lemma command_gate_fields [gate_simps]:
  "g_effect (commandGate s p) = E_block_command \<longleftrightarrow> g_reasonCode (commandGate s p) = R_control_command_unauthorized"
  "g_effect (commandGate s p) \<in> {E_allow, E_block_command}"
  "g_reasonCode (commandGate s p) \<noteq> R_dm_policy_pairing_required"
  by (auto simp: commandGate_def Let_def split: option.splits)

lemma event_result_fields [simp]:
  "g_allowed (event_result e al r) = al" "g_reasonCode (event_result e al r) = r"
  "g_effect (event_result e al r) = (if al then E_allow else E_block_dispatch)"
  by (simp_all add: event_result_def)

lemma event_gate_fields [gate_simps]:
  "g_effect (eventGate s x c) = (if g_allowed (eventGate s x c) then E_allow else E_block_dispatch)"
  "g_reasonCode (eventGate s x c) \<noteq> R_dm_policy_pairing_required"
  by (simp_all add: eventGate_def Let_def)

text \<open>When the event gate lets an event through, mode by mode.\<close>

definition event_authorized :: "ChannelIngressState \<Rightarrow> bool \<Rightarrow> bool \<Rightarrow> bool" where
  "event_authorized s senderOk commandOk =
    (case ev_authMode (cs_event s) of
       AuthNone \<Rightarrow> True | AuthRouteOnly \<Rightarrow> True
     | AuthCommand \<Rightarrow> commandOk
     | AuthOriginSubject \<Rightarrow> ev_hasOriginSubject (cs_event s) \<and> ev_originSubjectMatched (cs_event s)
     | AuthInbound \<Rightarrow> senderOk)"

lemma event_gate_allowed [gate_simps]:
  "g_allowed (eventGate s x c) = event_authorized s (g_allowed x) (g_allowed c)"
  by (cases "ev_authMode (cs_event s)") (simp_all add: eventGate_def event_authorized_def Let_def)

lemma activation_result_fields [simp]:
  "g_effect (activation_result a f sk e b) = (if sk then E_skip else E_allow)"
  "g_allowed (activation_result a f sk e b) = (\<not> sk)"
  "g_id (activation_result a f sk e b) = ''activation''"
  "g_reasonCode (activation_result a f sk e b) = (if sk then R_activation_skipped else R_activation_allowed)"
  by (simp_all add: activation_result_def)

lemma activation_gate_fields [gate_simps]:
  "g_effect (activationGate s p c) \<in> {E_allow, E_skip}"
  "g_id (activationGate s p c) = ''activation''"
  "g_reasonCode (activationGate s p c) \<noteq> R_dm_policy_pairing_required"
  by (auto simp: activationGate_def Let_def split: option.splits)

lemma before_gate_fields:
  "activation_before_sender s p = Some g \<Longrightarrow>
     g_effect g \<in> {E_allow, E_skip} \<and> g_id g = ''activation'' \<and> g_reasonCode g \<noteq> R_dm_policy_pairing_required"
  using activation_gate_fields
  by (auto simp: activation_before_sender_def split: option.splits if_splits)

lemma sender_gate_of_ok: "sender_gate_ok (sender_gate_of s p)"
  by (simp add: sender_gate_of_def sender_gate_ok_event sender_gate_ok_direct sender_gate_ok_group)

lemma sender_gate_of_effect:
  "g_allowed (sender_gate_of s p) \<Longrightarrow> admitted_effect (sender_gate_of s p)"
  "\<not> g_allowed (sender_gate_of s p) \<Longrightarrow> g_effect (sender_gate_of s p) = E_block_dispatch"
  using sender_gate_of_ok [of s p] by (auto simp: sender_gate_ok_def admitted_effect_def)

definition sender_authorized :: "ChannelIngressState \<Rightarrow> ChannelIngressPolicyInput \<Rightarrow> bool" where
  "sender_authorized s p =
    (if cs_conversationKind s = ConvDirect then direct_sender_authorized s p else group_sender_authorized s p)"

lemma sender_gate_of_allowed [gate_simps]:
  "g_allowed (sender_gate_of s p) \<longleftrightarrow> ev_authMode (cs_event s) \<noteq> AuthInbound \<or> sender_authorized s p"
  by (auto simp: sender_gate_of_def applyEventAuthModeToSenderGate_def sender_authorized_def
      direct_allowed_iff group_allowed_iff)

lemma sender_gate_of_pairing [gate_simps]:
  "\<not> g_allowed (sender_gate_of s p) \<Longrightarrow>
    g_reasonCode (sender_gate_of s p) = R_dm_policy_pairing_required \<longleftrightarrow>
     cs_conversationKind s = ConvDirect \<and> po_dmPolicy p = DmPairing \<and> ev_mayPair (cs_event s)"
  by (auto simp: sender_gate_of_def applyEventAuthModeToSenderGate_def direct_pairing_iff group_never_pairs
      direct_allowed_iff split: if_splits)

section \<open>The order of the gates\<close>

text \<open>A list of gates that the decision passed through without stopping.\<close>

lemma find_blocking_append:
  "list_all admitted_effect gs \<Longrightarrow> find blocking (gs @ [g]) = (if blocking g then Some g else None)"
  by (induction gs) (auto simp: blocking_admitted [symmetric] simp del: blocking_admitted)

lemma find_blocking_none: "list_all admitted_effect gs \<Longrightarrow> find blocking gs = None"
  by (induction gs) (auto simp: blocking_admitted [symmetric] simp del: blocking_admitted)

lemma route_gates_admitted:
  "list_all admitted_effect (routeGates s) \<longleftrightarrow> list_all (\<lambda>r. rf_effect r \<noteq> RE_block_dispatch) (cs_routeFacts s)"
  by (simp add: routeGates_def list_all_iff route_gate_blocking blocking_admitted [symmetric] del: blocking_admitted)

definition route_phase :: "ChannelIngressState \<Rightarrow> AccessGraphGate list" where
  "route_phase s = routeGates s @ (case routeSenderEmptyGate s of None \<Rightarrow> [] | Some g \<Rightarrow> [g])"

lemma route_phase_blocking:
  "g \<in> set (route_phase s) \<Longrightarrow> blocking g \<longleftrightarrow> g_effect g = E_block_dispatch"
  "g \<in> set (route_phase s) \<Longrightarrow> g_reasonCode g \<noteq> R_dm_policy_pairing_required"
  by (auto simp: route_phase_def routeGates_def gate_simps blocking_def
      dest!: empty_gate_fields [OF sym] empty_gate_fields split: option.splits)
    (auto simp: route_gate_def split: RouteEffect.splits elim: gate_effect_of_route.elims)

lemma find_route_phase:
  "find (\<lambda>g. g_effect g = E_block_dispatch) (route_phase s) = find blocking (route_phase s)"
  by (rule find_cong_on) (simp add: route_phase_blocking)

definition routes_admit :: "ChannelIngressState \<Rightarrow> bool" where
  "routes_admit s \<longleftrightarrow> list_all (\<lambda>r. rf_effect r \<noteq> RE_block_dispatch \<and> \<not> denies_empty_sender r) (cs_routeFacts s)"

lemma route_phase_admitted: "list_all admitted_effect (route_phase s) \<longleftrightarrow> routes_admit s"
proof (cases "routeSenderEmptyGate s")
  case None
  then show ?thesis
    using route_gates_admitted [of s] empty_gate_None [of s]
    by (auto simp: route_phase_def routes_admit_def list_all_iff)
next
  case (Some g)
  then have "\<not> admitted_effect g" using empty_gate_fields [OF Some] by (simp add: admitted_effect_def)
  moreover have "\<not> routes_admit s"
    using empty_gate_None [of s] Some by (auto simp: routes_admit_def list_all_iff)
  ultimately show ?thesis using Some by (simp add: route_phase_def)
qed

lemma find_blocking_iff: "find blocking gs = None \<longleftrightarrow> list_all admitted_effect gs"
  by (auto simp: find_None_iff list_all_iff)

section \<open>What a dispatched event has passed\<close>

definition command_blocked :: "ChannelIngressState \<Rightarrow> ChannelIngressPolicyInput \<Rightarrow> bool" where
  "command_blocked s p \<longleftrightarrow> g_effect (commandGate s p) = E_block_command"

definition mention_gate :: "ChannelIngressState \<Rightarrow> ChannelIngressPolicyInput \<Rightarrow> AccessGraphGate" where
  "mention_gate s p = or_else (activation_before_sender s p) (activationGate s p (commandGate s p))"

definition ingress_admits :: "ChannelIngressState \<Rightarrow> ChannelIngressPolicyInput \<Rightarrow> bool" where
  "ingress_admits s p \<longleftrightarrow>
     routes_admit s
     \<and> (ev_authMode (cs_event s) = AuthInbound \<longrightarrow> sender_authorized s p)
     \<and> \<not> command_blocked s p
     \<and> event_authorized s True (g_allowed (commandGate s p))
     \<and> g_effect (mention_gate s p) \<noteq> E_skip"

text \<open>The decision as a cascade over the conditions, without the gates it collects.\<close>

lemma decide_unfold:
  "decideChannelIngress s p =
    (case find blocking (route_phase s) of
       Some g \<Rightarrow> decisiveDecision A_drop V_block g (route_phase s)
     | None \<Rightarrow>
    (let b = activation_before_sender s p; gs = route_phase s @ (case b of None \<Rightarrow> [] | Some g \<Rightarrow> [g]);
         x = sender_gate_of s p; c = commandGate s p; e = eventGate s x c; a = activationGate s p c in
     if map_option g_effect b = Some E_skip then decisiveDecision A_skip V_allow (the b) gs
     else if \<not> g_allowed x then
       (if g_reasonCode x = R_dm_policy_pairing_required then decisiveDecision A_pairing_required V_pairing x (gs @ [x])
        else decisiveDecision A_drop V_block x (gs @ [x]))
     else if g_effect c = E_block_command then decisiveDecision A_drop V_block c (gs @ [x, c])
     else if \<not> g_allowed e then decisiveDecision A_drop V_block e (gs @ [x, c, e])
     else (case b of
         Some g \<Rightarrow> decisiveDecision A_dispatch V_allow g (gs @ [x, c, e])
       | None \<Rightarrow> if g_effect a = E_skip then decisiveDecision A_skip V_allow a (gs @ [x, c, e, a])
           else decisiveDecision A_dispatch V_allow a (gs @ [x, c, e, a]))))"
proof -
  have obs: "g_effect (activationGate s p c) \<noteq> E_observe" for c
    using activation_gate_fields(1) [of s p c] by auto
  have obs2: "activation_before_sender s p = Some g \<Longrightarrow> g_effect g \<noteq> E_observe" for g
    using before_gate_fields [of s p g] by auto
  show ?thesis
  proof (cases "find blocking (route_phase s)")
    case None
    then have n: "find (\<lambda>g. g_effect g = E_block_dispatch) (route_phase s) = None"
      by (simp add: find_route_phase)
    show ?thesis
    proof (cases "activation_before_sender s p")
      case b: None
      show ?thesis
        by (simp add: decideChannelIngress_def route_phase_def [symmetric] n b None Let_def obs)
    next
      case b: (Some g)
      show ?thesis
        by (simp add: decideChannelIngress_def route_phase_def [symmetric] n b None Let_def obs2)
    qed
  qed (simp add: decideChannelIngress_def route_phase_def [symmetric] find_route_phase)
qed

lemma dispatch_iff_admits: "d_admission (decideChannelIngress s p) = A_dispatch \<longleftrightarrow> ingress_admits s p"
proof (cases "find blocking (route_phase s)")
  case None
  then have r: "routes_admit s" by (simp add: find_blocking_iff route_phase_admitted)
  have ev: "event_authorized s (g_allowed (sender_gate_of s p)) c = event_authorized s True c"
    if "g_allowed (sender_gate_of s p)" for c using that by simp
  show ?thesis using None r
    by (auto simp: decide_unfold ingress_admits_def decisiveDecision_def Let_def mention_gate_def
        command_blocked_def event_gate_allowed sender_gate_of_allowed split: option.splits)
next
  case (Some g)
  then have "\<not> routes_admit s" using find_blocking_iff [of "route_phase s"] by (simp add: route_phase_admitted)
  then show ?thesis using Some by (simp add: decide_unfold ingress_admits_def decisiveDecision_def)
qed

lemma pairing_iff:
  "d_admission (decideChannelIngress s p) = A_pairing_required \<longleftrightarrow>
     routes_admit s \<and> map_option g_effect (activation_before_sender s p) \<noteq> Some E_skip
     \<and> cs_conversationKind s = ConvDirect \<and> ev_authMode (cs_event s) = AuthInbound
     \<and> po_dmPolicy p = DmPairing \<and> ev_mayPair (cs_event s) \<and> \<not> direct_sender_authorized s p"
proof (cases "find blocking (route_phase s)")
  case None
  then have "routes_admit s" by (simp add: find_blocking_iff route_phase_admitted)
  with None show ?thesis
    by (auto simp: decide_unfold decisiveDecision_def Let_def sender_gate_of_allowed sender_gate_of_pairing
        sender_authorized_def split: option.splits)
next
  case (Some g)
  then have "\<not> routes_admit s" using find_blocking_iff [of "route_phase s"] by (simp add: route_phase_admitted)
  then show ?thesis using Some by (simp add: decide_unfold decisiveDecision_def)
qed

section \<open>The graph explains the decision\<close>

definition admission_of_gate :: "AccessGraphGate \<Rightarrow> ChannelIngressAdmission" where
  "admission_of_gate g =
    (case g_effect g of E_skip \<Rightarrow> A_skip | E_observe \<Rightarrow> A_observe
     | _ \<Rightarrow> if g_reasonCode g = R_dm_policy_pairing_required then A_pairing_required else A_drop)"

text \<open>The decision agrees with its graph: the first gate that stops the event decides it.\<close>

definition explained :: "ChannelIngressDecision \<Rightarrow> bool" where
  "explained d \<longleftrightarrow>
    (case find blocking (d_gates d) of
       None \<Rightarrow> d_admission d = A_dispatch \<and> d_decisiveGateId d = ''activation''
     | Some g \<Rightarrow> d_admission d = admission_of_gate g \<and> d_decisiveGateId d = g_id g
         \<and> d_reasonCode d = g_reasonCode g)
    \<and> d_decision d = (if d_admission d = A_drop then V_block
        else if d_admission d = A_pairing_required then V_pairing else V_allow)"

lemma explained_stop:
  "list_all admitted_effect gs \<Longrightarrow> blocking g \<Longrightarrow> a = admission_of_gate g \<Longrightarrow>
     v = (if a = A_drop then V_block else if a = A_pairing_required then V_pairing else V_allow) \<Longrightarrow>
     explained (decisiveDecision a v g (gs @ [g]))"
  by (simp add: explained_def decisiveDecision_def find_blocking_append)

lemma explained_through:
  "list_all admitted_effect gs \<Longrightarrow> g_id g = ''activation'' \<Longrightarrow>
     explained (decisiveDecision A_dispatch V_allow g gs)"
  by (simp add: explained_def decisiveDecision_def find_blocking_none)

lemma decide_explained: "explained (decideChannelIngress s p)"
proof (cases "find blocking (route_phase s)")
  case (Some g)
  then have g: "blocking g" "g \<in> set (route_phase s)" by (auto dest: find_SomeD)
  then have "g_effect g = E_block_dispatch" "g_reasonCode g \<noteq> R_dm_policy_pairing_required"
    using route_phase_blocking by auto
  then show ?thesis using Some
    by (simp add: decide_unfold explained_def decisiveDecision_def admission_of_gate_def)
next
  case None
  define b where "b = activation_before_sender s p"
  define gs where "gs = route_phase s @ (case b of None \<Rightarrow> [] | Some g \<Rightarrow> [g])"
  define x where "x = sender_gate_of s p"
  define c where "c = commandGate s p"
  define e where "e = eventGate s x c"
  define a where "a = activationGate s p c"
  have rp: "list_all admitted_effect (route_phase s)" using None by (simp add: find_blocking_iff)
  have bf: "g_effect g \<in> {E_allow, E_skip} \<and> g_id g = ''activation'' \<and> g_reasonCode g \<noteq> R_dm_policy_pairing_required"
    if "b = Some g" for g using before_gate_fields that unfolding b_def by blast
  have ok: "list_all admitted_effect gs" if "map_option g_effect b \<noteq> Some E_skip"
    using rp bf that by (cases b) (auto simp: gs_def admitted_effect_def)
  have xs: "g_allowed x \<Longrightarrow> admitted_effect x" "\<not> g_allowed x \<Longrightarrow> g_effect x = E_block_dispatch"
    using sender_gate_of_effect by (simp_all add: x_def)
  have cs: "g_effect c \<in> {E_allow, E_block_command}" "g_reasonCode c \<noteq> R_dm_policy_pairing_required"
    using command_gate_fields by (simp_all add: c_def)
  have es: "g_effect e = (if g_allowed e then E_allow else E_block_dispatch)"
      "g_reasonCode e \<noteq> R_dm_policy_pairing_required"
    by (simp_all add: e_def event_gate_fields(1) [symmetric] event_gate_fields(2))
  have as: "g_effect a \<in> {E_allow, E_skip}" "g_id a = ''activation''"
    using activation_gate_fields(1) [of s p c] activation_gate_fields(2) by (simp_all add: a_def)
  have fields: "blocking g \<longleftrightarrow> g_effect g \<in> {E_block_dispatch, E_block_command, E_skip, E_observe}" for g
    by (simp add: blocking_def)
  show ?thesis
  proof (cases "map_option g_effect b = Some E_skip")
    case True
    then obtain g where g: "b = Some g" "g_effect g = E_skip" by auto
    then have "decideChannelIngress s p = decisiveDecision A_skip V_allow g (route_phase s @ [g])"
      by (simp add: decide_unfold None b_def Let_def)
    then show ?thesis using explained_stop [OF rp, of g] g(2)
      by (simp add: fields admission_of_gate_def)
  next
    case False
    note gsok = ok [OF False]
    have D: "decideChannelIngress s p =
      (if \<not> g_allowed x then
         (if g_reasonCode x = R_dm_policy_pairing_required then decisiveDecision A_pairing_required V_pairing x (gs @ [x])
          else decisiveDecision A_drop V_block x (gs @ [x]))
       else if g_effect c = E_block_command then decisiveDecision A_drop V_block c ((gs @ [x]) @ [c])
       else if \<not> g_allowed e then decisiveDecision A_drop V_block e ((gs @ [x, c]) @ [e])
       else (case b of
           Some g \<Rightarrow> decisiveDecision A_dispatch V_allow g (gs @ [x, c, e])
         | None \<Rightarrow> if g_effect a = E_skip then decisiveDecision A_skip V_allow a ((gs @ [x, c, e]) @ [a])
             else decisiveDecision A_dispatch V_allow a (gs @ [x, c, e, a])))"
      using False unfolding a_def e_def c_def x_def gs_def b_def
      by (simp only: decide_unfold None option.simps Let_def if_False append_assoc append.simps)
    show ?thesis
    proof (cases "g_allowed x")
      case nx: False
      then show ?thesis unfolding D using explained_stop [OF gsok, of x] xs(2)
        by (auto simp: fields admission_of_gate_def)
    next
      case ax: True
      have g1: "list_all admitted_effect (gs @ [x])" using gsok xs(1) ax by simp
      show ?thesis
      proof (cases "g_effect c = E_block_command \<or> \<not> g_allowed e")
        case True
        have g2: "g_effect c \<noteq> E_block_command \<Longrightarrow> list_all admitted_effect (gs @ [x, c])"
          using g1 cs(1) by (auto simp: admitted_effect_def)
        show ?thesis unfolding D using True ax explained_stop [OF g1, of c] explained_stop [OF g2, of e] cs es
          by (auto simp: fields admission_of_gate_def)
      next
        case False
        then have g3: "list_all admitted_effect (gs @ [x, c, e])"
          using g1 cs(1) es(1) by (auto simp: admitted_effect_def)
        then show ?thesis unfolding D using ax False as bf
            explained_stop [OF g3, of a] explained_through [OF g3]
            explained_through [of "gs @ [x, c, e, a]" a]
          by (auto simp: fields admission_of_gate_def admitted_effect_def split: option.splits)
      qed
    qed
  qed
qed

section \<open>The conditions, read off the allowlists\<close>

definition command_authorized :: "ChannelIngressState \<Rightarrow> ChannelIngressPolicyInput \<Rightarrow> bool" where
  "command_authorized s p =
    (case po_command p of None \<Rightarrow> True
     | Some c \<Rightarrow>
       (let owner = applyMutableIdentifierPolicy (st_commandOwner (cs_allowlists s)) p;
            grp = applyMutableIdentifierPolicy (st_commandGroup (cs_allowlists s)) p;
            granted = (al_hasConfiguredEntries owner \<and> rm_matched (al_match owner)
                       \<or> al_hasConfiguredEntries grp \<and> rm_matched (al_match grp))
        in if cp_useAccessGroups c \<noteq> Some False then granted
           else (case cp_modeWhenAccessGroupsOff c of
               Some ModeDeny \<Rightarrow> False
             | Some ModeConfigured \<Rightarrow> granted \<or> \<not> al_hasConfiguredEntries owner \<and> \<not> al_hasConfiguredEntries grp
             | _ \<Rightarrow> True)))"

definition control_command_present :: "ChannelIngressPolicyInput \<Rightarrow> bool" where
  "control_command_present p =
    (case po_command p of None \<Rightarrow> False | Some c \<Rightarrow> cp_allowTextCommands c \<and> cp_hasControlCommand c)"

definition mention_skips :: "ChannelIngressState \<Rightarrow> ChannelIngressPolicyInput \<Rightarrow> bool" where
  "mention_skips s p =
    (case (po_activation p, cs_mentionFacts s) of
       (Some a, Some f) \<Rightarrow>
         ap_requireMention a \<and> mf_canDetectMention f \<and> \<not> mf_wasMentioned f
         \<and> \<not> list_ex (kind_allowed (ap_allowedImplicitMentionKinds a)) (or_else (mf_implicitMentionKinds f) [])
         \<and> \<not> (cs_conversationKind s \<noteq> ConvDirect \<and> mf_hasAnyMention f \<noteq> Some True \<and> ap_allowTextCommands a
              \<and> command_authorized s p \<and> map_option cp_hasControlCommand (po_command p) = Some True)
     | _ \<Rightarrow> False)"

lemma command_gate_allowed: "g_allowed (commandGate s p) = command_authorized s p"
  by (cases "po_command p"; cases "cp_useAccessGroups (the (po_command p))";
      cases "cp_modeWhenAccessGroupsOff (the (po_command p))")
    (auto simp: commandGate_def command_authorized_def Let_def
      resolveCommandAuthorizedFromAuthorizers_def split: CommandGatingMode.splits)

lemma command_blocked_iff: "command_blocked s p \<longleftrightarrow> control_command_present p \<and> \<not> command_authorized s p"
  unfolding command_gate_allowed [symmetric]
  by (cases "po_command p") (auto simp: command_blocked_def commandGate_def control_command_present_def Let_def)

lemma activation_gate_skip:
  "g_effect (activationGate s p c) = E_skip \<longleftrightarrow>
    (case (po_activation p, cs_mentionFacts s) of
       (Some a, Some f) \<Rightarrow>
         ap_requireMention a \<and> mf_canDetectMention f \<and> \<not> mf_wasMentioned f
         \<and> \<not> list_ex (kind_allowed (ap_allowedImplicitMentionKinds a)) (or_else (mf_implicitMentionKinds f) [])
         \<and> \<not> (cs_conversationKind s \<noteq> ConvDirect \<and> mf_hasAnyMention f \<noteq> Some True \<and> ap_allowTextCommands a
              \<and> g_allowed c \<and> map_option cp_hasControlCommand (po_command p) = Some True)
     | _ \<Rightarrow> False)"
proof (cases "po_activation p")
  case (Some a)
  show ?thesis
  proof (cases "cs_mentionFacts s")
    case f: (Some f)
    show ?thesis
      by (cases "mf_hasAnyMention f"; cases "po_command p")
        (auto simp: activationGate_def Some f mention_decision_nested list_ex_iff Let_def)
  qed (simp add: activationGate_def Some Let_def)
qed (simp add: activationGate_def Let_def)

lemma mention_gate_skip: "g_effect (mention_gate s p) = E_skip \<longleftrightarrow> mention_skips s p"
proof (cases "activation_before_sender s p")
  case None
  then show ?thesis
    by (auto simp: mention_gate_def activation_gate_skip command_gate_allowed mention_skips_def split: option.splits)
next
  case (Some g)
  then obtain a where "po_activation p = Some a" "\<not> ap_allowTextCommands a"
    "g = activationGate s p (commandGate s (p\<lparr>po_command := None\<rparr>))"
    by (auto simp: activation_before_sender_def split: option.splits if_splits)
  then show ?thesis using Some
    by (auto simp: mention_gate_def activation_gate_skip mention_skips_def split: option.splits)
qed

section \<open>Independence of the pairing store\<close>

definition with_pairing_store :: "ResolvedIngressAllowlist \<Rightarrow> ChannelIngressState \<Rightarrow> ChannelIngressState" where
  "with_pairing_store a s = s\<lparr>cs_allowlists := (cs_allowlists s)\<lparr>st_pairingStore := a\<rparr>\<rparr>"

lemma with_store_fields [simp]:
  "cs_routeFacts (with_pairing_store a s) = cs_routeFacts s"
  "cs_event (with_pairing_store a s) = cs_event s"
  "cs_mentionFacts (with_pairing_store a s) = cs_mentionFacts s"
  "cs_conversationKind (with_pairing_store a s) = cs_conversationKind s"
  "st_dm (cs_allowlists (with_pairing_store a s)) = st_dm (cs_allowlists s)"
  "st_group (cs_allowlists (with_pairing_store a s)) = st_group (cs_allowlists s)"
  "st_commandOwner (cs_allowlists (with_pairing_store a s)) = st_commandOwner (cs_allowlists s)"
  "st_commandGroup (cs_allowlists (with_pairing_store a s)) = st_commandGroup (cs_allowlists s)"
  by (simp_all add: with_pairing_store_def)

lemma store_irrelevant_gates:
  "routeGates (with_pairing_store a s) = routeGates s"
  "routeSenderEmptyGate (with_pairing_store a s) = routeSenderEmptyGate s"
  "commandGate (with_pairing_store a s) p = commandGate s p"
  "activationGate (with_pairing_store a s) p c = activationGate s p c"
  "eventGate (with_pairing_store a s) x c = eventGate s x c"
  "senderGateForGroup (with_pairing_store a s) p = senderGateForGroup s p"
  "applyEventAuthModeToSenderGate (with_pairing_store a s) g = applyEventAuthModeToSenderGate s g"
  by (simp_all add: routeGates_def routeSenderEmptyGate_def commandGate_def activationGate_def eventGate_def
      senderGateForGroup_def effectiveGroupSenderAllowlist_def applyEventAuthModeToSenderGate_def
      cong: option.case_cong)

lemma store_irrelevant_before:
  "activation_before_sender (with_pairing_store a s) p = activation_before_sender s p"
  by (simp only: activation_before_sender_def store_irrelevant_gates)

lemma store_irrelevant_sender:
  assumes "cs_conversationKind s \<noteq> ConvDirect \<or> po_dmPolicy p \<noteq> DmPairing"
  shows "sender_gate_of (with_pairing_store a s) p = sender_gate_of s p"
  using assms
  by (auto simp: sender_gate_of_def store_irrelevant_gates senderGateForDirect_def Let_def)

section \<open>Mutable identifiers\<close>

text \<open>Every matched entry of the allowlist is a dangerous one, such as a display name.\<close>

definition only_dangerous_matches :: "ResolvedIngressAllowlist \<Rightarrow> bool" where
  "only_dangerous_matches a \<longleftrightarrow>
    list_all (\<lambda>i. list_ex (\<lambda>e. entry_dangerous e \<and> ne_opaqueEntryId e = i) (al_normalizedEntries a))
      (al_matchedEntryIds a)
    \<and> (rm_matched (al_match a) \<longrightarrow> al_matchedEntryIds a \<noteq> [])"

lemma only_dangerous_unmatched:
  assumes "only_dangerous_matches a" "po_mutableIdentifierMatching p \<noteq> Some MutableEnabled"
  shows "\<not> rm_matched (al_match (applyMutableIdentifierPolicy a p))"
proof (cases "filter entry_dangerous (al_normalizedEntries a) = []")
  case True
  then have "al_matchedEntryIds a = []"
    using assms(1) by (cases "al_matchedEntryIds a")
      (auto simp: only_dangerous_matches_def list_all_iff list_ex_iff filter_empty_conv)
  then show ?thesis
    using True assms by (simp add: applyMutableIdentifierPolicy_def Let_def only_dangerous_matches_def)
next
  case False
  then show ?thesis
    using assms by (auto simp: applyMutableIdentifierPolicy_def Let_def only_dangerous_matches_def
        list_all_iff list_ex_iff filter_empty_conv)
qed

section \<open>Example states\<close>

definition no_groups :: AccessGroupFacts where
  "no_groups = \<lparr>ag_referenced = [], ag_matched = [], ag_missing = [], ag_unsupported = [], ag_failed = []\<rparr>"

definition sample_allowlist :: "bool \<Rightarrow> bool \<Rightarrow> ResolvedIngressAllowlist" where
  "sample_allowlist matched dangerous =
    \<lparr>al_rawEntryCount = 1,
     al_normalizedEntries = [\<lparr>ne_opaqueEntryId = ''entry-1'', ne_kind = Username,
       ne_dangerous = Some dangerous, ne_sensitivity = None\<rparr>],
     al_invalidEntries = [], al_disabledEntries = [],
     al_matchedEntryIds = (if matched then [''entry-1''] else []),
     al_hasConfiguredEntries = True, al_hasMatchableEntries = True, al_hasWildcard = False,
     al_accessGroups = no_groups,
     al_match = \<lparr>rm_matched = matched, rm_matchedEntryIds = (if matched then [''entry-1''] else [])\<rparr>\<rparr>"

definition sample_state :: "ResolvedIngressAllowlist \<Rightarrow> ResolvedIngressAllowlist \<Rightarrow> ChannelIngressState" where
  "sample_state dm store =
    \<lparr>cs_channelId = ''telegram'', cs_accountId = ''default'', cs_conversationKind = ConvDirect,
     cs_event = \<lparr>ev_kind = EvMessage, ev_authMode = AuthInbound, ev_mayPair = True,
       ev_hasOriginSubject = False, ev_originSubjectMatched = False\<rparr>,
     cs_mentionFacts = None, cs_routeFacts = [],
     cs_allowlists = \<lparr>st_dm = dm, st_pairingStore = store, st_group = dm, st_commandOwner = dm, st_commandGroup = dm\<rparr>\<rparr>"

definition sample_policy :: "DmPolicy \<Rightarrow> ChannelIngressPolicyInput" where
  "sample_policy dm = \<lparr>po_dmPolicy = dm, po_groupPolicy = GroupDisabled,
     po_groupAllowFromFallbackToAllowFrom = None, po_mutableIdentifierMatching = None,
     po_activation = None, po_command = None\<rparr>"

section \<open>Properties\<close>

text \<open>C4: an inbound event is dispatched exactly when every condition holds: no route blocks it and
  no matched route that denies an empty sender list lacks one; for inbound authorisation the
  sender is authorised by the direct or the group policy; a control command is authorised by
  the command allowlists; the event's own authorisation mode is satisfied; and the mention
  rule does not skip it. Neither the order of the gates nor running the mention gate before
  the sender gate admits anything more.\<close>

theorem dispatch_characterised:
  "d_admission (decideChannelIngress s p) = A_dispatch \<longleftrightarrow>
     list_all (\<lambda>r. rf_effect r \<noteq> RE_block_dispatch \<and> \<not> denies_empty_sender r) (cs_routeFacts s)
     \<and> (if ev_authMode (cs_event s) \<noteq> AuthInbound then True
         else if cs_conversationKind s = ConvDirect then direct_sender_authorized s p
         else group_sender_authorized s p)
     \<and> \<not> (control_command_present p \<and> \<not> command_authorized s p)
     \<and> event_authorized s True (command_authorized s p)
     \<and> \<not> mention_skips s p"
  by (auto simp: dispatch_iff_admits ingress_admits_def routes_admit_def sender_authorized_def
      command_blocked_iff mention_gate_skip command_gate_allowed)

text \<open>The decision is explained by its graph of gates. When no gate of the graph blocks,
  skips or observes, the event is dispatched and the activation gate is decisive; otherwise
  the first such gate is the decisive one and gives the admission, the reason and the
  verdict (block for a drop, pairing for a pairing request, allow for the rest).\<close>

lemma decision_explained_by_graph:
  "(let d = decideChannelIngress s p in
     (case find blocking (d_gates d) of
       None \<Rightarrow> d_admission d = A_dispatch \<and> d_decisiveGateId d = ''activation''
     | Some g \<Rightarrow> d_admission d = admission_of_gate g \<and> d_decisiveGateId d = g_id g
         \<and> d_reasonCode d = g_reasonCode g)
     \<and> d_decision d = (if d_admission d = A_drop then V_block
         else if d_admission d = A_pairing_required then V_pairing else V_allow))"
  using decide_explained [of s p] by (simp add: explained_def Let_def)

text \<open>A pairing request is answered exactly for an inbound direct message of an unauthorised
  sender under the pairing policy, for an event that may pair and that neither a route nor
  the early mention gate has stopped; never in a group and never under another policy.\<close>

lemma pairing_requested_iff:
  "d_admission (decideChannelIngress s p) = A_pairing_required \<longleftrightarrow>
     list_all (\<lambda>r. rf_effect r \<noteq> RE_block_dispatch \<and> \<not> denies_empty_sender r) (cs_routeFacts s)
     \<and> map_option g_effect (activation_before_sender s p) \<noteq> Some E_skip
     \<and> cs_conversationKind s = ConvDirect \<and> ev_authMode (cs_event s) = AuthInbound
     \<and> po_dmPolicy p = DmPairing \<and> ev_mayPair (cs_event s) \<and> \<not> direct_sender_authorized s p"
  by (simp add: pairing_iff routes_admit_def)

text \<open>The pairing store has no influence on the decision outside direct messages and outside
  the pairing policy: whatever it holds, a group message and a direct message under the
  allowlist, open or disabled policy are decided the same way, gate by gate.\<close>

lemma pairing_store_irrelevant:
  assumes "cs_conversationKind s \<noteq> ConvDirect \<or> po_dmPolicy p \<noteq> DmPairing"
  shows "decideChannelIngress (with_pairing_store a s) p = decideChannelIngress s p"
  by (simp only: decideChannelIngress_def store_irrelevant_gates store_irrelevant_before
      store_irrelevant_sender [OF assms])

lemma pairing_store_irrelevant_witness:
  "decideChannelIngress (with_pairing_store (sample_allowlist True False)
      (sample_state (sample_allowlist False False) (sample_allowlist False False))) (sample_policy DmAllowlist) =
   decideChannelIngress (sample_state (sample_allowlist False False) (sample_allowlist False False)) (sample_policy DmAllowlist)
   \<and> d_admission (decideChannelIngress (with_pairing_store (sample_allowlist True False)
      (sample_state (sample_allowlist False False) (sample_allowlist False False))) (sample_policy DmPairing)) = A_dispatch
   \<and> d_admission (decideChannelIngress
      (sample_state (sample_allowlist False False) (sample_allowlist False False)) (sample_policy DmPairing)) = A_pairing_required"
proof (intro conjI)
  show "decideChannelIngress (with_pairing_store (sample_allowlist True False)
      (sample_state (sample_allowlist False False) (sample_allowlist False False))) (sample_policy DmAllowlist) =
    decideChannelIngress (sample_state (sample_allowlist False False) (sample_allowlist False False)) (sample_policy DmAllowlist)"
    by (rule pairing_store_irrelevant) (simp add: sample_policy_def)
qed code_simp+

text \<open>C31: with mutable identifier matching not enabled, matches on dangerous entries such as
  display names never admit a direct message under the pairing and allowlist policies: if
  every match of the direct allowlist and of the pairing store is on a dangerous entry, an
  inbound direct message is not dispatched.\<close>

theorem mutable_identifiers_never_admit:
  assumes "po_mutableIdentifierMatching p \<noteq> Some MutableEnabled" "po_dmPolicy p \<noteq> DmOpen"
    and "cs_conversationKind s = ConvDirect" "ev_authMode (cs_event s) = AuthInbound"
    and "only_dangerous_matches (st_dm (cs_allowlists s))"
    and "only_dangerous_matches (st_pairingStore (cs_allowlists s))"
  shows "d_admission (decideChannelIngress s p) \<noteq> A_dispatch"
proof -
  have "\<not> direct_sender_authorized s p"
    using assms only_dangerous_unmatched
    by (cases "po_dmPolicy p") (simp_all add: direct_sender_authorized_def Let_def)
  then show ?thesis
    using assms by (simp add: dispatch_iff_admits ingress_admits_def sender_authorized_def)
qed

theorem mutable_identifiers_never_admit_witness:
  "d_admission (decideChannelIngress
     (sample_state (sample_allowlist True True) (sample_allowlist True True)) (sample_policy DmAllowlist)) \<noteq> A_dispatch
   \<and> d_admission (decideChannelIngress
     (sample_state (sample_allowlist True False) (sample_allowlist True True)) (sample_policy DmAllowlist)) = A_dispatch"
proof
  show "d_admission (decideChannelIngress
     (sample_state (sample_allowlist True True) (sample_allowlist True True)) (sample_policy DmAllowlist)) \<noteq> A_dispatch"
    by (rule mutable_identifiers_never_admit)
      (simp_all add: sample_policy_def sample_state_def sample_allowlist_def only_dangerous_matches_def entry_dangerous_def)
qed code_simp

end
