(* ===== verification/IngressState.thy ===== *)
theory IngressState
  imports IngressDecision JsMap
begin

text \<open>
  How the allowlists of an event are resolved (src/src/channels/message-access/state.ts and
  src/src/channels/allow-from.ts): entries are normalised and matched through the channel's
  adapter, access groups through membership facts and configuration, and the subject an event
  originates from through both. The adapter is an argument; what its clients rely on is the
  locale \<open>ingress_adapter\<close>. \<open>localeCompare\<close> is a parameter of the route order.
\<close>

section \<open>Allow-from entries (allow-from.ts)\<close>

definition ACCESS_GROUP_ALLOW_FROM_PREFIX :: string where
  "ACCESS_GROUP_ALLOW_FROM_PREFIX = ''accessGroup:''"

definition parseAccessGroupAllowFromEntry :: "string \<Rightarrow> string option" where
  "parseAccessGroupAllowFromEntry entry =
    (let t = js_trim entry in
     if \<not> starts_with t ACCESS_GROUP_ALLOW_FROM_PREFIX then None
     else let name = js_trim (drop (length ACCESS_GROUP_ALLOW_FROM_PREFIX) t)
       in if name \<noteq> [] then Some name else None)"

definition mergeDmAllowFromSources ::
  "js_entry list option \<Rightarrow> js_entry list option \<Rightarrow> string option \<Rightarrow> string list" where
  "mergeDmAllowFromSources allowFrom storeAllowFrom dmPolicy =
    (let storeEntries = (if dmPolicy = Some ''allowlist'' \<or> dmPolicy = Some ''open'' then []
                         else or_else storeAllowFrom [])
     in normalizeStringEntries (or_else allowFrom [] @ storeEntries))"

definition resolveGroupAllowFromSources ::
  "js_entry list option \<Rightarrow> js_entry list option \<Rightarrow> bool option \<Rightarrow> string list" where
  "resolveGroupAllowFromSources allowFrom groupAllowFrom fallbackToAllowFrom =
    (let explicitGroupAllowFrom =
           (case groupAllowFrom of Some g \<Rightarrow> if g \<noteq> [] then Some g else None | None \<Rightarrow> None);
         scoped = (case explicitGroupAllowFrom of Some g \<Rightarrow> g
           | None \<Rightarrow> if fallbackToAllowFrom = Some False then [] else or_else allowFrom [])
     in normalizeStringEntries scoped)"

fun firstDefined :: "'a option list \<Rightarrow> 'a option" where
  "firstDefined [] = None"
| "firstDefined (Some v # vs) = Some v"
| "firstDefined (None # vs) = firstDefined vs"

record AllowEntries =
  ae_entries :: "string list"
  ae_hasWildcard :: bool
  ae_hasEntries :: bool

definition isSenderIdAllowed :: "AllowEntries \<Rightarrow> string option \<Rightarrow> bool \<Rightarrow> bool" where
  "isSenderIdAllowed allow senderId allowWhenEmpty =
    (if \<not> ae_hasEntries allow then allowWhenEmpty
     else if ae_hasWildcard allow then True
     else (case senderId of None \<Rightarrow> False
       | Some s \<Rightarrow> if s = [] then False else s \<in> set (ae_entries allow)))"

section \<open>Matching entries through the adapter (state.ts)\<close>

definition redactedEntries :: "InternalNormalizedEntry list \<Rightarrow> ChannelIngressNormalizedEntry list" where
  "redactedEntries entries = map ChannelIngressNormalizedEntry.truncate entries"

definition emptyMatch :: RedactedIngressMatch where
  "emptyMatch = \<lparr>rm_matched = False, rm_matchedEntryIds = []\<rparr>"

definition mergeMatches :: "RedactedIngressMatch list \<Rightarrow> RedactedIngressMatch" where
  "mergeMatches matches =
    (let matchedEntryIds = uniq (concat (map rm_matchedEntryIds matches))
     in \<lparr>rm_matched = (list_ex rm_matched matches \<or> matchedEntryIds \<noteq> []),
         rm_matchedEntryIds = matchedEntryIds\<rparr>)"

definition mergeDiagnostics :: "EntryDiagnostic list list \<Rightarrow> EntryDiagnostic list" where
  "mergeDiagnostics groups = foldl (\<lambda>diagnostics g. diagnostics @ g) [] groups"

definition accessGroupFactByName ::
  "AccessGroupMembershipFact list option \<Rightarrow> (string, AccessGroupMembershipFact) jsmap" where
  "accessGroupFactByName facts = foldl (\<lambda>m f. jm_set (fact_groupName f) f m) [] (or_else facts [])"

record MatchedEntries =
  me_normalizedEntries :: "ChannelIngressNormalizedEntry list"
  me_invalidEntries :: "EntryDiagnostic list"
  me_disabledEntries :: "EntryDiagnostic list"
  me_match :: RedactedIngressMatch

definition normalizeAndMatch ::
  "InternalChannelIngressAdapter \<Rightarrow> InternalChannelIngressSubject \<Rightarrow> string \<Rightarrow> string list
    \<Rightarrow> MatchContext \<Rightarrow> MatchedEntries" where
  "normalizeAndMatch adapter subject accountId entries context =
    (if entries = [] then
       \<lparr>me_normalizedEntries = [], me_invalidEntries = [], me_disabledEntries = [], me_match = emptyMatch\<rparr>
     else let normalized = ad_normalizeEntries adapter entries context accountId;
              m = (if nr_matchable normalized \<noteq> []
                   then ad_matchSubject adapter subject (nr_matchable normalized) context else emptyMatch)
       in \<lparr>me_normalizedEntries = redactedEntries (nr_matchable normalized),
           me_invalidEntries = nr_invalid normalized, me_disabledEntries = nr_disabled normalized,
           me_match = m\<rparr>)"

definition referencedAccessGroups :: "string list \<Rightarrow> string list" where
  "referencedAccessGroups entries = uniq (List.map_filter parseAccessGroupAllowFromEntry entries)"

definition directAllowlistEntries :: "string list \<Rightarrow> string list" where
  "directAllowlistEntries entries = filter (\<lambda>e. parseAccessGroupAllowFromEntry e = None) entries"

definition configured_group :: "ChannelIngressStateInput \<Rightarrow> string \<Rightarrow> AccessGroupConfig option" where
  "configured_group input groupName =
    (case si_accessGroups input of None \<Rightarrow> None | Some groups \<Rightarrow> map_of groups groupName)"

definition groupSenderEntries :: "ChannelIngressStateInput \<Rightarrow> string \<Rightarrow> string list" where
  "groupSenderEntries input groupName =
    (case configured_group input groupName of
       Some (MessageSenders members) \<Rightarrow>
         normalizeStringEntries (map EStr
           (or_else (map_of members ''*'') [] @ or_else (map_of members (si_channelId input)) []))
     | _ \<Rightarrow> [])"

section \<open>Access groups\<close>

record GroupEntries =
  ge_normalizedEntries :: "ChannelIngressNormalizedEntry list"
  ge_invalidEntries :: "EntryDiagnostic list"
  ge_disabledEntries :: "EntryDiagnostic list"
  ge_matches :: "RedactedIngressMatch list"
  ge_accessGroups :: AccessGroupFacts

definition add_matched :: "string \<Rightarrow> RedactedIngressMatch \<Rightarrow> GroupEntries \<Rightarrow> GroupEntries" where
  "add_matched name m acc = acc
     \<lparr>ge_accessGroups := (ge_accessGroups acc)\<lparr>ag_matched := ag_matched (ge_accessGroups acc) @ [name]\<rparr>,
      ge_matches := ge_matches acc @ [m]\<rparr>"

definition add_failure :: "FactFailure \<Rightarrow> string \<Rightarrow> GroupEntries \<Rightarrow> GroupEntries" where
  "add_failure failure name acc =
    (let g = ge_accessGroups acc in
     acc\<lparr>ge_accessGroups := (case failure of
        FactMissing \<Rightarrow> g\<lparr>ag_missing := ag_missing g @ [name]\<rparr>
      | FactUnsupported \<Rightarrow> g\<lparr>ag_unsupported := ag_unsupported g @ [name]\<rparr>
      | FactFailed \<Rightarrow> g\<lparr>ag_failed := ag_failed g @ [name]\<rparr>)\<rparr>)"

definition resolve_group_step ::
  "ChannelIngressStateInput \<Rightarrow> MatchContext \<Rightarrow> (string, AccessGroupMembershipFact) jsmap
    \<Rightarrow> GroupEntries \<Rightarrow> string \<Rightarrow> GroupEntries" where
  "resolve_group_step input context factByName acc groupName =
    (case jm_get factByName groupName of
       Some (MatchedFact _ _ ids) \<Rightarrow>
         add_matched groupName \<lparr>rm_matched = True, rm_matchedEntryIds = ids\<rparr> acc
     | Some (FailureFact failure _ _ _ _) \<Rightarrow> add_failure failure groupName acc
     | Some (NotMatchedFact _ _) \<Rightarrow> acc
     | None \<Rightarrow>
        (case configured_group input groupName of
           None \<Rightarrow> add_failure FactMissing groupName acc
         | Some (DiscordChannelAudience _ _) \<Rightarrow> add_failure FactUnsupported groupName acc
         | Some (MessageSenders _) \<Rightarrow>
             (let resolved = normalizeAndMatch (si_adapter input) (si_subject input) (si_accountId input)
                               (groupSenderEntries input groupName) context;
                  acc = acc\<lparr>ge_normalizedEntries := ge_normalizedEntries acc @ me_normalizedEntries resolved,
                            ge_invalidEntries := ge_invalidEntries acc @ me_invalidEntries resolved,
                            ge_disabledEntries := ge_disabledEntries acc @ me_disabledEntries resolved\<rparr>
              in if rm_matched (me_match resolved) then add_matched groupName (me_match resolved) acc else acc)))"

definition resolveAccessGroupEntries ::
  "ChannelIngressStateInput \<Rightarrow> MatchContext \<Rightarrow> string list \<Rightarrow> GroupEntries" where
  "resolveAccessGroupEntries input context referenced =
    foldl (resolve_group_step input context (accessGroupFactByName (si_accessGroupMembership input)))
      \<lparr>ge_normalizedEntries = [], ge_invalidEntries = [], ge_disabledEntries = [], ge_matches = [],
       ge_accessGroups = \<lparr>ag_referenced = referenced, ag_matched = [], ag_missing = [],
         ag_unsupported = [], ag_failed = []\<rparr>\<rparr> referenced"

definition resolveIngressAllowlist ::
  "ChannelIngressStateInput \<Rightarrow> js_entry list option \<Rightarrow> MatchContext \<Rightarrow> ResolvedIngressAllowlist" where
  "resolveIngressAllowlist input rawEntries context =
    (let entries = normalizeStringEntries (or_else rawEntries []);
         referenced = referencedAccessGroups entries;
         directEntries = directAllowlistEntries entries;
         direct = normalizeAndMatch (si_adapter input) (si_subject input) (si_accountId input) directEntries context;
         groups = resolveAccessGroupEntries input context referenced;
         m = mergeMatches (me_match direct # ge_matches groups)
     in \<lparr>al_rawEntryCount = length entries,
         al_normalizedEntries = me_normalizedEntries direct @ ge_normalizedEntries groups,
         al_invalidEntries = mergeDiagnostics [me_invalidEntries direct, ge_invalidEntries groups],
         al_disabledEntries = mergeDiagnostics [me_disabledEntries direct, ge_disabledEntries groups],
         al_matchedEntryIds = rm_matchedEntryIds m,
         al_hasConfiguredEntries = (entries \<noteq> []),
         al_hasMatchableEntries = (me_normalizedEntries direct \<noteq> [] \<or> ge_normalizedEntries groups \<noteq> []),
         al_hasWildcard = (''*'' \<in> set directEntries),
         al_accessGroups = ge_accessGroups groups,
         al_match = m\<rparr>)"

section \<open>Origin subjects\<close>

definition eventSubjectMatchContext :: "ChannelIngressStateInput \<Rightarrow> MatchContext" where
  "eventSubjectMatchContext input =
    (if cv_kind (si_conversation input) = ConvDirect then CtxDm else CtxGroup)"

definition subject_entries ::
  "ChannelIngressStateInput \<Rightarrow> MatchContext \<Rightarrow> string \<Rightarrow> nat \<Rightarrow> InternalMatchMaterial \<Rightarrow> InternalNormalizedEntry list" where
  "subject_entries input context opaquePrefix identifierIndex identifier =
    (let entries = ad_normalizeEntries (si_adapter input) [mm_value identifier] context (si_accountId input);
         kept = filter (\<lambda>e. ne_kind e = mi_kind identifier \<and> ne_value e \<noteq> ''*'') (nr_matchable entries)
     in map (\<lambda>(entryIndex, e). e\<lparr>ne_opaqueEntryId :=
               opaquePrefix @ ''-'' @ nat_to_dec (identifierIndex + 1) @ [CHR '':''] @ nat_to_dec (entryIndex + 1)\<rparr>)
          (enumerate 0 kept))"

definition normalizeSubjectIdentifiersForMatch ::
  "ChannelIngressStateInput \<Rightarrow> InternalChannelIngressSubject \<Rightarrow> MatchContext \<Rightarrow> string \<Rightarrow> InternalNormalizedEntry list" where
  "normalizeSubjectIdentifiersForMatch input subject context opaquePrefix =
    concat (map (\<lambda>(i, identifier). subject_entries input context opaquePrefix i identifier)
      (enumerate 0 (sub_identifiers subject)))"

definition originSubjectMatched :: "ChannelIngressStateInput \<Rightarrow> bool" where
  "originSubjectMatched input =
    (case ev_originSubject (si_event input) of
       None \<Rightarrow> False
     | Some origin \<Rightarrow>
       if list_ex (\<lambda>identifier. list_ex (\<lambda>current. mi_kind current = mi_kind identifier
              \<and> mm_value current = mm_value identifier) (sub_identifiers (si_subject input)))
            (sub_identifiers origin) then True
       else
        (let context = eventSubjectMatchContext input;
             originEntries = normalizeSubjectIdentifiersForMatch input origin context ''origin''
         in if originEntries \<noteq> []
               \<and> rm_matched (ad_matchSubject (si_adapter input) (si_subject input) originEntries context)
            then True
            else let currentEntries = normalizeSubjectIdentifiersForMatch input (si_subject input) context ''current''
              in if currentEntries = [] then False
                 else rm_matched (ad_matchSubject (si_adapter input) origin currentEntries context)))"

section \<open>Route facts and the resolved state\<close>

definition route_before :: "(string \<Rightarrow> string \<Rightarrow> int) \<Rightarrow> RouteGateFacts \<Rightarrow> RouteGateFacts \<Rightarrow> int" where
  "route_before localeCompare left right =
    (if rf_precedence left - rf_precedence right \<noteq> 0 then rf_precedence left - rf_precedence right
     else localeCompare (rf_id left) (rf_id right))"

definition resolve_route ::
  "ChannelIngressStateInput \<Rightarrow> RouteGateFacts \<Rightarrow> ResolvedRouteGateFacts" where
  "resolve_route input route =
    (let senderAllowFrom = or_opt (rf_senderAllowFrom route)
           (case rf_senderAllowFromSource route of
              Some EffectiveDm \<Rightarrow> in_dm (si_allowlists input)
            | Some EffectiveGroup \<Rightarrow> in_group (si_allowlists input)
            | None \<Rightarrow> None)
     in \<lparr>rf_id = rf_id route, rf_kind = rf_kind route, rf_gate = rf_gate route,
         rf_effect = rf_effect route, rf_precedence = rf_precedence route,
         rf_senderPolicy = rf_senderPolicy route, rf_match = rf_match route,
         rr_senderAllowlist =
           map_option (\<lambda>raw. resolveIngressAllowlist input (Some raw) CtxRoute) senderAllowFrom\<rparr>)"

definition resolveRouteFacts ::
  "(string \<Rightarrow> string \<Rightarrow> int) \<Rightarrow> ChannelIngressStateInput \<Rightarrow> ResolvedRouteGateFacts list" where
  "resolveRouteFacts localeCompare input =
    map (resolve_route input) (js_sort (route_before localeCompare) (or_else (si_routeFacts input) []))"

definition resolveChannelIngressState ::
  "(string \<Rightarrow> string \<Rightarrow> int) \<Rightarrow> ChannelIngressStateInput \<Rightarrow> ChannelIngressState" where
  "resolveChannelIngressState localeCompare input =
    \<lparr>cs_channelId = si_channelId input, cs_accountId = si_accountId input,
     cs_conversationKind = cv_kind (si_conversation input),
     cs_event = \<lparr>ev_kind = ev_kind (si_event input), ev_authMode = ev_authMode (si_event input),
       ev_mayPair = ev_mayPair (si_event input),
       ev_hasOriginSubject = (ev_originSubject (si_event input) \<noteq> None),
       ev_originSubjectMatched = originSubjectMatched input\<rparr>,
     cs_mentionFacts = si_mentionFacts input,
     cs_routeFacts = resolveRouteFacts localeCompare input,
     cs_allowlists =
       \<lparr>st_dm = resolveIngressAllowlist input (in_dm (si_allowlists input)) CtxDm,
        st_pairingStore = resolveIngressAllowlist input (in_pairingStore (si_allowlists input)) CtxDm,
        st_group = resolveIngressAllowlist input (in_group (si_allowlists input)) CtxGroup,
        st_commandOwner = resolveIngressAllowlist input (in_commandOwner (si_allowlists input)) CtxCommand,
        st_commandGroup = resolveIngressAllowlist input (in_commandGroup (si_allowlists input)) CtxCommand\<rparr>\<rparr>"

section \<open>Access groups fail closed\<close>

text \<open>A group that matches: a membership fact says so, or its configured senders match.\<close>

definition group_matches :: "ChannelIngressStateInput \<Rightarrow> MatchContext \<Rightarrow> string \<Rightarrow> bool" where
  "group_matches input context name =
    (case jm_get (accessGroupFactByName (si_accessGroupMembership input)) name of
       Some (MatchedFact _ _ _) \<Rightarrow> True
     | Some _ \<Rightarrow> False
     | None \<Rightarrow> (case configured_group input name of
         Some (MessageSenders _) \<Rightarrow>
           rm_matched (me_match (normalizeAndMatch (si_adapter input) (si_subject input) (si_accountId input)
             (groupSenderEntries input name) context))
       | _ \<Rightarrow> False))"

text \<open>A group that cannot be resolved: a failure fact, no configuration, or a kind of group that
  has to be looked up elsewhere.\<close>

definition group_unresolved :: "ChannelIngressStateInput \<Rightarrow> string \<Rightarrow> bool" where
  "group_unresolved input name =
    (case jm_get (accessGroupFactByName (si_accessGroupMembership input)) name of
       Some (FailureFact _ _ _ _ _) \<Rightarrow> True
     | Some _ \<Rightarrow> False
     | None \<Rightarrow> (case configured_group input name of Some (MessageSenders _) \<Rightarrow> False | _ \<Rightarrow> True))"

lemma group_step_matched:
  "ag_matched (ge_accessGroups (resolve_group_step input context (accessGroupFactByName (si_accessGroupMembership input)) acc name)) =
     ag_matched (ge_accessGroups acc) @ (if group_matches input context name then [name] else [])"
  by (auto simp: resolve_group_step_def group_matches_def add_matched_def add_failure_def Let_def
      split: option.splits AccessGroupMembershipFact.splits AccessGroupConfig.splits FactFailure.splits)

lemma group_step_matches:
  "\<exists>ms. ge_matches (resolve_group_step input context (accessGroupFactByName (si_accessGroupMembership input)) acc name) =
     ge_matches acc @ ms \<and> list_all rm_matched ms \<and> (ms \<noteq> [] \<longleftrightarrow> group_matches input context name)"
  by (auto simp: resolve_group_step_def group_matches_def add_matched_def add_failure_def Let_def
      split: option.splits AccessGroupMembershipFact.splits AccessGroupConfig.splits FactFailure.splits)

definition failure_names :: "AccessGroupFacts \<Rightarrow> string set" where
  "failure_names g = set (ag_missing g) \<union> set (ag_unsupported g) \<union> set (ag_failed g)"

lemma group_step_failures:
  "failure_names (ge_accessGroups (resolve_group_step input context (accessGroupFactByName (si_accessGroupMembership input)) acc name)) =
     failure_names (ge_accessGroups acc) \<union> (if group_unresolved input name then {name} else {})"
  by (auto simp: resolve_group_step_def group_unresolved_def add_matched_def add_failure_def failure_names_def Let_def
      split: option.splits AccessGroupMembershipFact.splits AccessGroupConfig.splits FactFailure.splits)

lemma group_fold:
  fixes input c
  defines "step \<equiv> resolve_group_step input c (accessGroupFactByName (si_accessGroupMembership input))"
  shows "ag_matched (ge_accessGroups (foldl step acc names)) =
           ag_matched (ge_accessGroups acc) @ filter (group_matches input c) names
    \<and> (\<exists>ms. ge_matches (foldl step acc names) = ge_matches acc @ ms \<and> list_all rm_matched ms
         \<and> (ms \<noteq> [] \<longleftrightarrow> list_ex (group_matches input c) names))
    \<and> failure_names (ge_accessGroups (foldl step acc names)) =
        failure_names (ge_accessGroups acc) \<union> set (filter (group_unresolved input) names)"
proof (induction names arbitrary: acc)
  case (Cons n names)
  let ?acc = "step acc n"
  obtain ms where ms: "ge_matches ?acc = ge_matches acc @ ms" "list_all rm_matched ms"
      "ms \<noteq> [] \<longleftrightarrow> group_matches input c n"
    using group_step_matches [of input c acc n] unfolding step_def by blast
  obtain ms' where ms': "ge_matches (foldl step ?acc names) = ge_matches ?acc @ ms'" "list_all rm_matched ms'"
      "ms' \<noteq> [] \<longleftrightarrow> list_ex (group_matches input c) names"
    using Cons [of ?acc] by blast
  have "\<exists>k. ge_matches (foldl step acc (n # names)) = ge_matches acc @ k \<and> list_all rm_matched k
         \<and> (k \<noteq> [] \<longleftrightarrow> list_ex (group_matches input c) (n # names))"
    by (rule exI [of _ "ms @ ms'"]) (use ms ms' in auto)
  then show ?case
    using Cons [of ?acc] group_step_matched [of input c acc n] group_step_failures [of input c acc n]
    by (auto simp: step_def [symmetric])
qed simp

lemma access_group_entries:
  "ag_matched (ge_accessGroups (resolveAccessGroupEntries input c names)) = filter (group_matches input c) names"
  "list_ex rm_matched (ge_matches (resolveAccessGroupEntries input c names)) \<longleftrightarrow>
     list_ex (group_matches input c) names"
  "ge_matches (resolveAccessGroupEntries input c names) = [] \<longleftrightarrow> \<not> list_ex (group_matches input c) names"
  "failure_names (ge_accessGroups (resolveAccessGroupEntries input c names)) =
     set (filter (group_unresolved input) names)"
proof -
  let ?r = "resolveAccessGroupEntries input c names"
  let ?init = "\<lparr>ge_normalizedEntries = [], ge_invalidEntries = [], ge_disabledEntries = [], ge_matches = [],
       ge_accessGroups = \<lparr>ag_referenced = names, ag_matched = [], ag_missing = [],
         ag_unsupported = [], ag_failed = []\<rparr>\<rparr>"
  note fold = group_fold [of input c ?init names, folded resolveAccessGroupEntries_def]
  obtain ms where ms: "ge_matches ?r = ms" "list_all rm_matched ms"
      "ms \<noteq> [] \<longleftrightarrow> list_ex (group_matches input c) names"
    using fold by auto
  show "ag_matched (ge_accessGroups ?r) = filter (group_matches input c) names" using fold by simp
  show "ge_matches ?r = [] \<longleftrightarrow> \<not> list_ex (group_matches input c) names" using ms by blast
  show "list_ex rm_matched (ge_matches ?r) \<longleftrightarrow> list_ex (group_matches input c) names"
    using ms by (cases ms) (auto simp: list_all_iff)
  show "failure_names (ge_accessGroups ?r) = set (filter (group_unresolved input) names)"
    using fold by (simp add: failure_names_def)
qed

lemma unresolved_no_match: "group_unresolved input name \<Longrightarrow> \<not> group_matches input context name"
  by (auto simp: group_unresolved_def group_matches_def
      split: option.splits AccessGroupMembershipFact.splits AccessGroupConfig.splits)

lemma set_referenced:
  "set (referencedAccessGroups entries) = {g. \<exists>e \<in> set entries. parseAccessGroupAllowFromEntry e = Some g}"
  by (force simp: referencedAccessGroups_def map_filter_def)

section \<open>The adapter contract\<close>

text \<open>What the kernel relies on in an adapter: the ids of a match are ids of the entries it was
  given, and it says that it matched exactly when it names some.\<close>

locale ingress_adapter =
  fixes adapter :: InternalChannelIngressAdapter
  assumes match_ids: "set (rm_matchedEntryIds (ad_matchSubject adapter s es c)) \<subseteq> ne_opaqueEntryId ` set es"
    and matched_iff: "rm_matched (ad_matchSubject adapter s es c) \<longleftrightarrow> rm_matchedEntryIds (ad_matchSubject adapter s es c) \<noteq> []"
begin

lemma no_entries: "\<not> rm_matched (ad_matchSubject adapter s [] c)"
  using match_ids [of s "[]" c] by (simp add: matched_iff)

lemma normalize_match_iff:
  "rm_matched (me_match (normalizeAndMatch adapter s acct es c)) \<longleftrightarrow>
     rm_matchedEntryIds (me_match (normalizeAndMatch adapter s acct es c)) \<noteq> []"
  by (simp add: normalizeAndMatch_def emptyMatch_def Let_def matched_iff)

lemma normalize_match_ids:
  "set (rm_matchedEntryIds (me_match (normalizeAndMatch adapter s acct es c))) \<subseteq>
     ne_opaqueEntryId ` set (me_normalizedEntries (normalizeAndMatch adapter s acct es c))"
proof -
  have "ne_opaqueEntryId ` set (redactedEntries xs) = ne_opaqueEntryId ` set xs" for xs :: "InternalNormalizedEntry list"
    by (force simp: redactedEntries_def ChannelIngressNormalizedEntry.defs)
  then show ?thesis
    using match_ids by (simp add: normalizeAndMatch_def emptyMatch_def Let_def)
qed

lemma allowlist_matched_iff:
  assumes "si_adapter input = adapter"
  shows "rm_matched (al_match (resolveIngressAllowlist input raw c)) \<longleftrightarrow>
    rm_matched (me_match (normalizeAndMatch adapter (si_subject input) (si_accountId input)
        (directAllowlistEntries (normalizeStringEntries (or_else raw []))) c))
    \<or> list_ex (group_matches input c) (referencedAccessGroups (normalizeStringEntries (or_else raw [])))"
proof -
  let ?es = "normalizeStringEntries (or_else raw [])"
  let ?d = "me_match (normalizeAndMatch adapter (si_subject input) (si_accountId input) (directAllowlistEntries ?es) c)"
  let ?g = "ge_matches (resolveAccessGroupEntries input c (referencedAccessGroups ?es))"
  have "concat (map rm_matchedEntryIds (?d # ?g)) \<noteq> [] \<Longrightarrow> rm_matched ?d \<or> ?g \<noteq> []"
    by (cases "?g = []") (auto simp: normalize_match_iff)
  then show ?thesis
    using assms access_group_entries(2,3) [of input c "referencedAccessGroups ?es"]
    by (auto simp: resolveIngressAllowlist_def Let_def mergeMatches_def)
qed

lemma allowlist_agree: "match_ids_agree (resolveIngressAllowlist input raw c)"
  by (auto simp: match_ids_agree_def resolveIngressAllowlist_def Let_def mergeMatches_def)

end

end
