(* ===== verification/IngressIdentity.thy ===== *)
theory IngressIdentity
  imports IngressState
begin

text \<open>
  The adapter the runtime builds from a channel's identity descriptor
  (src/src/channels/message-access/runtime-identity.ts): identity fields with their
  normalisers, the entries and the subject they produce, and the match between them. It
  provides the contract of \<open>ingress_adapter\<close>. The functions of a descriptor are the
  plugin's; they are fields of the record.
\<close>

section \<open>Descriptors (runtime-types.ts)\<close>

datatype DangerousSpec = DangerConst bool | DangerFn "string \<Rightarrow> bool option"

record ChannelIngressIdentityField =
  idf_key :: "string option"
  idf_kind :: "IdentifierKind option"
  idf_normalize :: "(string \<Rightarrow> string option) option"
  idf_normalizeEntry :: "(string \<Rightarrow> string option) option"
  idf_normalizeSubject :: "(string \<Rightarrow> string option) option"
  idf_dangerous :: "DangerousSpec option"
  idf_sensitivity :: "Sensitivity option"

record ChannelIngressIdentityDescriptor =
  idd_primary :: ChannelIngressIdentityField
  idd_aliases :: "ChannelIngressIdentityField list option"
  idd_isWildcardEntry :: "(string \<Rightarrow> bool) option"
  idd_matchEntry :: "(InternalChannelIngressSubject \<Rightarrow> InternalNormalizedEntry \<Rightarrow> MatchContext \<Rightarrow> bool option) option"
  idd_resolveEntryId :: "(string \<Rightarrow> nat \<Rightarrow> string \<Rightarrow> nat \<Rightarrow> string) option"

record StableIdentityParams =
  sip_primary :: ChannelIngressIdentityField
  sip_aliases :: "ChannelIngressIdentityField list option"
  sip_isWildcardEntry :: "(string \<Rightarrow> bool) option"
  sip_matchEntry :: "(InternalChannelIngressSubject \<Rightarrow> InternalNormalizedEntry \<Rightarrow> MatchContext \<Rightarrow> bool option) option"
  sip_entryIdPrefix :: "string option"
  sip_resolveEntryId :: "(string \<Rightarrow> nat \<Rightarrow> string \<Rightarrow> nat \<Rightarrow> string) option"

record ChannelIngressIdentitySubjectInput =
  isi_stableId :: "js_entry option"
  isi_aliases :: "(string \<times> js_entry option) list option"

text \<open>A field after its key and kind are settled.\<close>

record ResolvedIdentityField =
  rif_key :: string
  rif_kind :: IdentifierKind
  rif_normalize :: "(string \<Rightarrow> string option) option"
  rif_normalizeEntry :: "(string \<Rightarrow> string option) option"
  rif_normalizeSubject :: "(string \<Rightarrow> string option) option"
  rif_dangerous :: "DangerousSpec option"
  rif_sensitivity :: "Sensitivity option"

section \<open>Fields\<close>

text \<open>An empty prefix is falsy.\<close>

definition defineStableChannelIngressIdentity :: "StableIdentityParams \<Rightarrow> ChannelIngressIdentityDescriptor" where
  "defineStableChannelIngressIdentity params =
    \<lparr>idd_primary = sip_primary params, idd_aliases = sip_aliases params,
     idd_isWildcardEntry = sip_isWildcardEntry params, idd_matchEntry = sip_matchEntry params,
     idd_resolveEntryId = or_opt (sip_resolveEntryId params)
       (case sip_entryIdPrefix params of
          None \<Rightarrow> None
        | Some prefix \<Rightarrow> if prefix = [] then None
            else Some (\<lambda>entry entryIndex fieldKey fieldIndex. prefix @ ''-'' @ nat_to_dec (entryIndex + 1)))\<rparr>"

definition defaultNormalize :: "string \<Rightarrow> string option" where
  "defaultNormalize v = Some v"

datatype FieldMode = ModeEntry | ModeSubject

definition normalizeFieldValue :: "ResolvedIdentityField \<Rightarrow> string \<Rightarrow> FieldMode \<Rightarrow> string option" where
  "normalizeFieldValue field v mode =
    (let normalize = (if mode = ModeEntry
           then or_else (or_opt (rif_normalizeEntry field) (rif_normalize field)) defaultNormalize
           else or_else (or_opt (rif_normalizeSubject field) (rif_normalize field)) defaultNormalize)
     in case normalize v of None \<Rightarrow> None
        | Some n \<Rightarrow> if js_trim n = [] then None else Some (js_trim n))"

definition fieldDangerous :: "ResolvedIdentityField \<Rightarrow> string \<Rightarrow> bool option" where
  "fieldDangerous field v =
    (case rif_dangerous field of None \<Rightarrow> None | Some (DangerConst b) \<Rightarrow> Some b | Some (DangerFn f) \<Rightarrow> f v)"

definition resolve_field :: "string \<Rightarrow> IdentifierKind \<Rightarrow> ChannelIngressIdentityField \<Rightarrow> ResolvedIdentityField" where
  "resolve_field key kind f =
    \<lparr>rif_key = key, rif_kind = kind, rif_normalize = idf_normalize f,
     rif_normalizeEntry = idf_normalizeEntry f, rif_normalizeSubject = idf_normalizeSubject f,
     rif_dangerous = idf_dangerous f, rif_sensitivity = idf_sensitivity f\<rparr>"

text \<open>The key of an alias is required by its type; a missing one reads as the empty string here.\<close>

definition identityFields :: "ChannelIngressIdentityDescriptor \<Rightarrow> ResolvedIdentityField list" where
  "identityFields identity =
    resolve_field (or_else (idf_key (idd_primary identity)) ''stableId'')
        (or_else (idf_kind (idd_primary identity)) StableId) (idd_primary identity)
    # map (\<lambda>alias. let key = or_else (idf_key alias) [] in
             resolve_field key (or_else (idf_kind alias) (PluginKind key)) alias)
        (or_else (idd_aliases identity) [])"

text \<open>The kinds as the strings the code compares and prints.\<close>

fun kind_string :: "IdentifierKind \<Rightarrow> string" where
  "kind_string StableId = ''stable-id''"
| "kind_string Username = ''username''"
| "kind_string Email = ''email''"
| "kind_string Phone = ''phone''"
| "kind_string Role = ''role''"
| "kind_string (PluginKind k) = ''plugin'' @ [CHR '':''] @ k"

definition identityMatchKey :: "IdentifierKind \<Rightarrow> string \<Rightarrow> string" where
  "identityMatchKey kind v = kind_string kind @ [CHR '':''] @ v"

section \<open>The adapter\<close>

definition adapterEntry ::
  "ChannelIngressIdentityDescriptor \<Rightarrow> ResolvedIdentityField \<Rightarrow> nat \<Rightarrow> string \<Rightarrow> nat \<Rightarrow> string
    \<Rightarrow> string option \<Rightarrow> InternalNormalizedEntry" where
  "adapterEntry identity field fieldIndex entry entryIndex v fallbackSuffix =
    \<lparr>ne_opaqueEntryId =
       (case idd_resolveEntryId identity of
          Some resolve \<Rightarrow> resolve entry entryIndex (rif_key field) fieldIndex
        | None \<Rightarrow> ''entry-'' @ nat_to_dec (entryIndex + 1) @ [CHR '':''] @ or_else fallbackSuffix (rif_key field)),
     ne_kind = rif_kind field, ne_dangerous = fieldDangerous field entry,
     ne_sensitivity = rif_sensitivity field, ne_value = v\<rparr>"

definition entry_matchables ::
  "ChannelIngressIdentityDescriptor \<Rightarrow> nat \<Rightarrow> string \<Rightarrow> InternalNormalizedEntry list" where
  "entry_matchables identity entryIndex entry =
    (let fields = identityFields identity;
         isWildcardEntry = or_else (idd_isWildcardEntry identity) (\<lambda>v. v = ''*'') in
     if isWildcardEntry entry
     then [adapterEntry identity (hd fields) 0 entry entryIndex ''*'' (Some ''wildcard'')]
     else concat (map (\<lambda>(fieldIndex, field).
            case normalizeFieldValue field entry ModeEntry of
              None \<Rightarrow> []
            | Some v \<Rightarrow> [adapterEntry identity field fieldIndex entry entryIndex v None])
          (enumerate 0 fields)))"

definition normalizeEntries ::
  "ChannelIngressIdentityDescriptor \<Rightarrow> string list \<Rightarrow> MatchContext \<Rightarrow> string \<Rightarrow> InternalNormalizeResult" where
  "normalizeEntries identity entries context accountId =
    \<lparr>nr_matchable = concat (map (\<lambda>(entryIndex, entry). entry_matchables identity entryIndex entry)
        (enumerate 0 entries)),
     nr_invalid = [], nr_disabled = []\<rparr>"

definition subject_keys :: "ChannelIngressIdentityDescriptor \<Rightarrow> InternalChannelIngressSubject \<Rightarrow> string list" where
  "subject_keys identity subject =
    concat (map (\<lambda>identifier.
        case find (\<lambda>f. rif_kind f = mi_kind identifier) (identityFields identity) of
          None \<Rightarrow> []
        | Some field \<Rightarrow>
           (case normalizeFieldValue field (mm_value identifier) ModeSubject of
              None \<Rightarrow> [] | Some v \<Rightarrow> [identityMatchKey (mi_kind identifier) v]))
      (sub_identifiers subject))"

definition entry_matches ::
  "ChannelIngressIdentityDescriptor \<Rightarrow> InternalChannelIngressSubject \<Rightarrow> MatchContext \<Rightarrow> InternalNormalizedEntry \<Rightarrow> bool" where
  "entry_matches identity subject context entry =
    (let fallback = (ne_value entry = ''*''
           \<or> identityMatchKey (ne_kind entry) (ne_value entry) \<in> set (subject_keys identity subject))
     in case idd_matchEntry identity of
          None \<Rightarrow> fallback
        | Some matchEntry \<Rightarrow> or_else (matchEntry subject entry context) fallback)"

definition matchSubject ::
  "ChannelIngressIdentityDescriptor \<Rightarrow> InternalChannelIngressSubject \<Rightarrow> InternalNormalizedEntry list
    \<Rightarrow> MatchContext \<Rightarrow> RedactedIngressMatch" where
  "matchSubject identity subject entries context =
    (let matchedEntryIds = map ne_opaqueEntryId (filter (entry_matches identity subject context) entries)
     in \<lparr>rm_matched = (matchedEntryIds \<noteq> []), rm_matchedEntryIds = matchedEntryIds\<rparr>)"

definition createIdentityAdapter :: "ChannelIngressIdentityDescriptor \<Rightarrow> InternalChannelIngressAdapter" where
  "createIdentityAdapter identity =
    \<lparr>ad_normalizeEntries = normalizeEntries identity, ad_matchSubject = matchSubject identity\<rparr>"

definition createIdentitySubject ::
  "ChannelIngressIdentityDescriptor \<Rightarrow> ChannelIngressIdentitySubjectInput \<Rightarrow> InternalChannelIngressSubject" where
  "createIdentitySubject identity input =
    \<lparr>sub_identifiers = concat (map (\<lambda>(index, field).
        let rawValue = (if index = 0 then isi_stableId input
              else (case isi_aliases input of None \<Rightarrow> None
                | Some aliases \<Rightarrow> or_else (map_of aliases (rif_key field)) None))
        in case rawValue of None \<Rightarrow> []
           | Some raw \<Rightarrow> (let v = js_String raw in
               [\<lparr>mi_opaqueId = rif_key field, mi_kind = rif_kind field,
                 mi_dangerous = fieldDangerous field v, mi_sensitivity = rif_sensitivity field,
                 mm_value = v\<rparr>]))
      (enumerate 0 (identityFields identity)))\<rparr>"

section \<open>The contract\<close>

interpretation idad: ingress_adapter "createIdentityAdapter identity" for identity
  by unfold_locales (auto simp: createIdentityAdapter_def matchSubject_def Let_def)

section \<open>Which entries admit a subject\<close>

definition entry_admits :: "ChannelIngressIdentityDescriptor \<Rightarrow> InternalChannelIngressSubject \<Rightarrow> string \<Rightarrow> bool" where
  "entry_admits identity s e \<longleftrightarrow>
     or_else (idd_isWildcardEntry identity) (\<lambda>v. v = ''*'') e
     \<or> list_ex (\<lambda>f. case normalizeFieldValue f e ModeEntry of
           None \<Rightarrow> False
         | Some v \<Rightarrow> v = ''*'' \<or> identityMatchKey (rif_kind f) v \<in> set (subject_keys identity s))
        (identityFields identity)"

lemma adapterEntry_fields [simp]:
  "ne_value (adapterEntry i f fi e ei v sfx) = v" "ne_kind (adapterEntry i f fi e ei v sfx) = rif_kind f"
  by (simp_all add: adapterEntry_def)

lemma list_ex_concat_enumerate:
  "(\<And>i x. list_ex P (g i x) \<longleftrightarrow> Q x) \<Longrightarrow>
     list_ex P (concat (map (\<lambda>(i, x). g i x) (enumerate k xs))) \<longleftrightarrow> list_ex Q xs"
  by (induction xs arbitrary: k) auto

lemma entry_matchables_match:
  assumes "idd_matchEntry identity = None"
  shows "list_ex (entry_matches identity s c) (entry_matchables identity i e) \<longleftrightarrow> entry_admits identity s e"
proof (cases "or_else (idd_isWildcardEntry identity) (\<lambda>v. v = ''*'') e")
  case True
  then show ?thesis
    by (simp add: entry_matchables_def entry_admits_def entry_matches_def assms)
next
  case False
  have "list_ex (entry_matches identity s c)
      (case normalizeFieldValue f e ModeEntry of None \<Rightarrow> []
       | Some v \<Rightarrow> [adapterEntry identity f j e i v None]) \<longleftrightarrow>
     (case normalizeFieldValue f e ModeEntry of None \<Rightarrow> False
         | Some v \<Rightarrow> v = ''*'' \<or> identityMatchKey (rif_kind f) v \<in> set (subject_keys identity s))" for j f
    by (simp add: entry_matches_def assms split: option.split)
  then show ?thesis using False
    by (simp add: entry_matchables_def entry_admits_def list_ex_concat_enumerate)
qed

lemma adapter_match_iff:
  assumes "idd_matchEntry identity = None"
  shows "rm_matched (me_match (normalizeAndMatch (createIdentityAdapter identity) s acct es c)) \<longleftrightarrow>
    list_ex (entry_admits identity s) es"
proof -
  have "rm_matched (matchSubject identity s ms c) \<longleftrightarrow> list_ex (entry_matches identity s c) ms" for ms
    by (simp add: matchSubject_def Let_def filter_empty_conv list_ex_iff)
  moreover have "list_ex (entry_matches identity s c)
      (concat (map (\<lambda>(i, e). entry_matchables identity i e) (enumerate 0 es))) \<longleftrightarrow> list_ex (entry_admits identity s) es"
    by (rule list_ex_concat_enumerate) (rule entry_matchables_match [OF assms])
  ultimately show ?thesis
    by (cases "concat (map (\<lambda>(i, e). entry_matchables identity i e) (enumerate 0 es)) = []")
      (auto simp: normalizeAndMatch_def createIdentityAdapter_def normalizeEntries_def Let_def emptyMatch_def)
qed

section \<open>Example\<close>

definition plain_field :: ChannelIngressIdentityField where
  "plain_field = \<lparr>idf_key = None, idf_kind = None, idf_normalize = None, idf_normalizeEntry = None,
     idf_normalizeSubject = None, idf_dangerous = None, idf_sensitivity = None\<rparr>"

definition plain_identity :: ChannelIngressIdentityDescriptor where
  "plain_identity = defineStableChannelIngressIdentity
     \<lparr>sip_primary = plain_field, sip_aliases = None, sip_isWildcardEntry = None, sip_matchEntry = None,
      sip_entryIdPrefix = None, sip_resolveEntryId = None\<rparr>"

definition sample_input :: "string \<Rightarrow> (string \<times> AccessGroupConfig) list \<Rightarrow> ChannelIngressStateInput" where
  "sample_input sender groups =
    \<lparr>si_channelId = ''telegram'', si_accountId = ''default'',
     si_subject = createIdentitySubject plain_identity \<lparr>isi_stableId = Some (EStr sender), isi_aliases = None\<rparr>,
     si_conversation = \<lparr>cv_kind = ConvDirect, cv_id = ''c'', cv_parentId = None, cv_threadId = None, cv_title = None\<rparr>,
     si_adapter = createIdentityAdapter plain_identity, si_accessGroups = Some groups,
     si_accessGroupMembership = None, si_routeFacts = None, si_mentionFacts = None,
     si_event = \<lparr>ev_kind = EvMessage, ev_authMode = AuthInbound, ev_mayPair = True, ev_originSubject = None\<rparr>,
     si_allowlists = \<lparr>in_dm = None, in_group = None, in_commandOwner = None, in_commandGroup = None, in_pairingStore = None\<rparr>\<rparr>"

definition staff_groups :: "(string \<times> AccessGroupConfig) list" where
  "staff_groups = [(''staff'', MessageSenders [(''telegram'', [''7''])]), (''audience'', DiscordChannelAudience ''g'' ''c'')]"

definition access_entry :: "string \<Rightarrow> js_entry" where
  "access_entry name = EStr (ACCESS_GROUP_ALLOW_FROM_PREFIX @ name)"

section \<open>Properties\<close>

text \<open>With the adapter built from an identity descriptor without a custom match, a resolved
  allowlist matches the sender exactly when one of its entries does: a plain entry that is
  the wildcard or that some identity field normalises to the wildcard or to the key of one of
  the sender's identifiers, or a reference to an access group that the membership facts or
  the configured senders of the group grant. Nothing else in the input can produce a match.\<close>

lemma allowlist_matches_iff:
  assumes "idd_matchEntry identity = None" "si_adapter input = createIdentityAdapter identity"
  shows "rm_matched (al_match (resolveIngressAllowlist input raw c)) \<longleftrightarrow>
    list_ex (\<lambda>e. case parseAccessGroupAllowFromEntry e of
        None \<Rightarrow> entry_admits identity (si_subject input) e
      | Some g \<Rightarrow> group_matches input c g)
    (normalizeStringEntries (or_else raw []))"
proof -
  let ?es = "normalizeStringEntries (or_else raw [])"
  have "rm_matched (al_match (resolveIngressAllowlist input raw c)) \<longleftrightarrow>
      list_ex (entry_admits identity (si_subject input)) (directAllowlistEntries ?es)
      \<or> list_ex (group_matches input c) (referencedAccessGroups ?es)"
    using idad.allowlist_matched_iff [OF assms(2)] by (simp add: adapter_match_iff [OF assms(1)])
  also have "\<dots> \<longleftrightarrow> list_ex (\<lambda>e. case parseAccessGroupAllowFromEntry e of
        None \<Rightarrow> entry_admits identity (si_subject input) e
      | Some g \<Rightarrow> group_matches input c g) ?es"
    (is "?l \<longleftrightarrow> ?r")
  proof
    assume ?l
    then consider e where "e \<in> set ?es" "parseAccessGroupAllowFromEntry e = None" "entry_admits identity (si_subject input) e"
      | e g where "e \<in> set ?es" "parseAccessGroupAllowFromEntry e = Some g" "group_matches input c g"
      by (auto simp: list_ex_iff set_referenced directAllowlistEntries_def)
    then show ?r
    proof cases
      case 1
      then show ?thesis by (auto simp: list_ex_iff intro!: bexI [of _ e])
    next
      case 2
      then show ?thesis by (auto simp: list_ex_iff intro!: bexI [of _ e])
    qed
  next
    assume ?r
    then obtain e where e: "e \<in> set ?es" "case parseAccessGroupAllowFromEntry e of
        None \<Rightarrow> entry_admits identity (si_subject input) e | Some g \<Rightarrow> group_matches input c g"
      by (auto simp: list_ex_iff)
    show ?l
    proof (cases "parseAccessGroupAllowFromEntry e")
      case None
      then show ?thesis using e by (auto simp: list_ex_iff directAllowlistEntries_def)
    next
      case (Some g)
      then have "g \<in> set (referencedAccessGroups ?es)" using e(1) by (auto simp: set_referenced)
      then show ?thesis using e(2) Some by (auto simp: list_ex_iff)
    qed
  qed
  finally show ?thesis .
qed

lemma allowlist_matches_iff_witness:
  "rm_matched (al_match (resolveIngressAllowlist (sample_input ''7'' staff_groups) (Some [EStr ''8'', access_entry ''staff'']) CtxDm))
   \<and> \<not> rm_matched (al_match (resolveIngressAllowlist (sample_input ''9'' staff_groups) (Some [EStr ''8'', access_entry ''staff'']) CtxDm))"
proof -
  have h: "idd_matchEntry plain_identity = None" "si_adapter (sample_input x staff_groups) = createIdentityAdapter plain_identity" for x
    by (simp_all add: plain_identity_def defineStableChannelIngressIdentity_def sample_input_def)
  show ?thesis
    unfolding allowlist_matches_iff [OF h] by code_simp
qed

text \<open>Access groups fail closed. An allowlist made only of references to groups that cannot be
  resolved (a failed, missing or unsupported lookup) matches nobody through any adapter, has
  no wildcard, and is reported with an access-group reason instead of the plain
  not-allowlisted one.\<close>

lemma unresolved_groups_fail_closed:
  assumes "list_all (\<lambda>e. case parseAccessGroupAllowFromEntry e of None \<Rightarrow> False | Some g \<Rightarrow> group_unresolved input g)
      (normalizeStringEntries (or_else raw []))"
    and "normalizeStringEntries (or_else raw []) \<noteq> []"
  shows "(let a = resolveIngressAllowlist input raw c in
     \<not> rm_matched (al_match a) \<and> \<not> al_hasWildcard a \<and> al_hasConfiguredEntries a
     \<and> allowlistFailureReason a \<in> {Some R_access_group_failed, Some R_access_group_unsupported, Some R_access_group_missing})"
proof -
  let ?es = "normalizeStringEntries (or_else raw [])"
  let ?refs = "referencedAccessGroups ?es"
  let ?g = "resolveAccessGroupEntries input c ?refs"
  have d: "directAllowlistEntries ?es = []"
    using assms(1) by (auto simp: directAllowlistEntries_def list_all_iff filter_empty_conv split: option.splits)
  have u: "\<forall>g \<in> set ?refs. group_unresolved input g"
    using assms(1) by (fastforce simp: set_referenced list_all_iff)
  have m: "ge_matches ?g = []"
    using u access_group_entries(3) [of input c ?refs] by (auto simp: list_ex_iff dest: unresolved_no_match)
  have "hd ?es \<in> set ?es" using assms(2) by simp
  then have "hd ?es \<in> set ?es \<and> parseAccessGroupAllowFromEntry (hd ?es) \<noteq> None"
    using assms(1) unfolding list_all_iff by (metis (mono_tags, lifting) option.simps(4))
  then have "set ?refs \<noteq> {}"
    unfolding set_referenced by blast
  then have "failure_names (ge_accessGroups ?g) \<noteq> {}"
    using u access_group_entries(4) [of input c ?refs] by auto
  then have f: "allowlistFailureReason (resolveIngressAllowlist input raw c)
      \<in> {Some R_access_group_failed, Some R_access_group_unsupported, Some R_access_group_missing}"
    by (simp add: allowlistFailureReason_def failure_names_def resolveIngressAllowlist_def Let_def)
  have "\<not> rm_matched (al_match (resolveIngressAllowlist input raw c))
      \<and> \<not> al_hasWildcard (resolveIngressAllowlist input raw c)
      \<and> al_hasConfiguredEntries (resolveIngressAllowlist input raw c)"
    using assms(2)
    by (simp add: resolveIngressAllowlist_def Let_def d m normalizeAndMatch_def emptyMatch_def mergeMatches_def)
  with f show ?thesis by (simp add: Let_def)
qed

lemma unresolved_groups_fail_closed_witness:
  "(let a = resolveIngressAllowlist (sample_input ''7'' staff_groups)
        (Some [access_entry ''audience'', access_entry ''gone'']) CtxDm in
     \<not> rm_matched (al_match a) \<and> \<not> al_hasWildcard a \<and> al_hasConfiguredEntries a
     \<and> allowlistFailureReason a \<in> {Some R_access_group_failed, Some R_access_group_unsupported, Some R_access_group_missing})"
proof (rule unresolved_groups_fail_closed)
  have n: "normalizeStringEntries (or_else (Some [access_entry ''audience'', access_entry ''gone'']) []) =
      [ACCESS_GROUP_ALLOW_FROM_PREFIX @ ''audience'', ACCESS_GROUP_ALLOW_FROM_PREFIX @ ''gone'']"
    by code_simp
  have p: "parseAccessGroupAllowFromEntry (ACCESS_GROUP_ALLOW_FROM_PREFIX @ ''audience'') = Some ''audience''"
      "parseAccessGroupAllowFromEntry (ACCESS_GROUP_ALLOW_FROM_PREFIX @ ''gone'') = Some ''gone''"
    by code_simp+
  show "list_all (\<lambda>e. case parseAccessGroupAllowFromEntry e of None \<Rightarrow> False
        | Some g \<Rightarrow> group_unresolved (sample_input ''7'' staff_groups) g)
      (normalizeStringEntries (or_else (Some [access_entry ''audience'', access_entry ''gone'']) []))"
    by (simp only: n) (simp add: p group_unresolved_def sample_input_def accessGroupFactByName_def
        configured_group_def staff_groups_def)
  show "normalizeStringEntries (or_else (Some [access_entry ''audience'', access_entry ''gone'']) []) \<noteq> []"
    by (simp only: n) simp
qed

end
