(* ===== verification/IngressRuntime.thy ===== *)
theory IngressRuntime
  imports IngressIdentity
begin

text \<open>
  The runtime around the ingress kernel (src/src/channels/message-access/runtime.ts and
  runtime-access-groups.ts): it reads the pairing store when the policy allows it, merges the
  configured lists, looks up access groups, turns route descriptors into route facts, resolves
  the state, decides, and projects the decision for the channel handlers. Store readers and
  the membership resolver of a plugin are arguments; a rejected promise is \<open>None\<close>.
\<close>

section \<open>Effective allow-from lists\<close>

definition shouldReadStore :: "ConversationKind \<Rightarrow> DmPolicy \<Rightarrow> bool" where
  "shouldReadStore conversationKind dmPolicy \<longleftrightarrow>
     conversationKind = ConvDirect \<and> dmPolicy \<noteq> DmAllowlist \<and> dmPolicy \<noteq> DmOpen"

record EffectiveLists =
  el_effectiveAllowFrom :: "string list"
  el_effectiveGroupAllowFrom :: "string list"

definition resolveChannelIngressEffectiveAllowFromLists ::
  "js_entry list option \<Rightarrow> js_entry list option \<Rightarrow> js_entry list option \<Rightarrow> string option \<Rightarrow> bool option
    \<Rightarrow> EffectiveLists" where
  "resolveChannelIngressEffectiveAllowFromLists allowFrom groupAllowFrom storeAllowFrom dmPolicy fallback =
    \<lparr>el_effectiveAllowFrom = normalizeStringEntries (map EStr (mergeDmAllowFromSources allowFrom storeAllowFrom dmPolicy)),
     el_effectiveGroupAllowFrom = normalizeStringEntries (map EStr (resolveGroupAllowFromSources allowFrom groupAllowFrom fallback))\<rparr>"

definition readChannelIngressStoreAllowFromForDmPolicy ::
  "(string \<Rightarrow> string \<Rightarrow> string list option) \<Rightarrow> string \<Rightarrow> string \<Rightarrow> string option \<Rightarrow> bool option
    \<Rightarrow> (string \<Rightarrow> string \<Rightarrow> string list option) option \<Rightarrow> string list" where
  "readChannelIngressStoreAllowFromForDmPolicy defaultStore provider accountId dmPolicy shouldRead readStore =
    (if shouldRead = Some False \<or> dmPolicy = Some ''allowlist'' \<or> dmPolicy = Some ''open'' then []
     else or_else ((or_else readStore defaultStore) provider accountId) [])"

fun dm_policy_string :: "DmPolicy \<Rightarrow> string" where
  "dm_policy_string DmPairing = ''pairing''"
| "dm_policy_string DmAllowlist = ''allowlist''"
| "dm_policy_string DmOpen = ''open''"
| "dm_policy_string DmDisabled = ''disabled''"

section \<open>Parameters\<close>

record ChannelIngressRouteDescriptor =
  rd_id :: string
  rd_kind :: "RouteKind option"
  rd_configured :: "bool option"
  rd_matched :: "bool option"
  rd_allowed :: "bool option"
  rd_enabled :: "bool option"
  rd_precedence :: "int option"
  rd_senderPolicy :: "RouteSenderPolicy option"
  rd_senderAllowFrom :: "js_entry list option"
  rd_senderAllowFromSource :: "RouteSenderAllowlistSource option"
  rd_matchId :: "string option"
  rd_blockReason :: "string option"

datatype RouteParam = NoRoute | OneRoute ChannelIngressRouteDescriptor | ManyRoutes "ChannelIngressRouteDescriptor list"

datatype GroupOwnerAllow = OwnerConfigured | OwnerNone

datatype DirectGroupAllow = DirectEffective | DirectNone

record ChannelMessageIngressCommandInput = CommandPolicy +
  ci_commandOwnerAllowFrom :: "js_entry list option"
  ci_groupOwnerAllowFrom :: "GroupOwnerAllow option"
  ci_directGroupAllowFrom :: "DirectGroupAllow option"
  ci_commandGroupAllowFromFallbackToAllowFrom :: "bool option"

text \<open>A store read: \<open>None\<close> for a rejected promise, \<open>Some None\<close> for null or undefined.\<close>

type_synonym store_reader = "string \<Rightarrow> string \<Rightarrow> DmPolicy \<Rightarrow> js_entry list option option"

type_synonym membership_resolver =
  "string \<Rightarrow> AccessGroupConfig \<Rightarrow> string \<Rightarrow> string \<Rightarrow> ChannelIngressIdentitySubjectInput \<Rightarrow> bool option"

record ResolveChannelMessageIngressParams =
  rp_channelId :: string
  rp_accountId :: string
  rp_identity :: ChannelIngressIdentityDescriptor
  rp_subject :: ChannelIngressIdentitySubjectInput
  rp_conversation :: Conversation
  rp_event :: ChannelIngressEventInput
  rp_policy :: ChannelIngressPolicyInput
  rp_allowFrom :: "js_entry list option"
  rp_groupAllowFrom :: "js_entry list option"
  rp_route :: RouteParam
  rp_routeFacts :: "RouteGateFacts list option"
  rp_accessGroups :: "(string \<times> AccessGroupConfig) list option"
  rp_accessGroupMembership :: "AccessGroupMembershipFact list option"
  rp_resolveAccessGroupMembership :: "membership_resolver option"
  rp_accessGroupMatchedAllowFromEntry :: "js_entry option"
  rp_providerMissingFallbackApplied :: "bool option"
  rp_mentionFacts :: "InboundMentionFacts option"
  rp_readStoreAllowFrom :: "store_reader option"
  rp_useDefaultPairingStore :: "bool option"
  rp_command :: "ChannelMessageIngressCommandInput option"

text \<open>What the runtime takes from its surroundings: string collation and the pairing store on disk.\<close>

record IngressEnv =
  env_localeCompare :: "string \<Rightarrow> string \<Rightarrow> int"
  env_pairingStore :: "string \<Rightarrow> string \<Rightarrow> string list option"

definition readStoreAllowFrom :: "IngressEnv \<Rightarrow> ResolveChannelMessageIngressParams \<Rightarrow> string \<Rightarrow> js_entry list" where
  "readStoreAllowFrom env params channelId =
    (if \<not> shouldReadStore (cv_kind (rp_conversation params)) (po_dmPolicy (rp_policy params)) then []
     else (case rp_readStoreAllowFrom params of
         Some read \<Rightarrow> or_else (or_else (read channelId (rp_accountId params) (po_dmPolicy (rp_policy params))) (Some [])) []
       | None \<Rightarrow>
           if rp_useDefaultPairingStore params = Some True
           then map EStr (readChannelIngressStoreAllowFromForDmPolicy (env_pairingStore env) channelId
                  (rp_accountId params) (Some (dm_policy_string (po_dmPolicy (rp_policy params)))) None None)
           else []))"

section \<open>Access groups (runtime-access-groups.ts)\<close>

definition accessGroupNames :: "js_entry list \<Rightarrow> string list" where
  "accessGroupNames entries = uniq (List.map_filter (\<lambda>e. parseAccessGroupAllowFromEntry (js_String e)) entries)"

definition allReferencedAccessGroupNames :: "js_entry list list \<Rightarrow> string list" where
  "allReferencedAccessGroupNames entries = uniq (concat (map accessGroupNames entries))"

definition normalizeEffectiveEntries ::
  "InternalChannelIngressAdapter \<Rightarrow> string \<Rightarrow> js_entry list \<Rightarrow> MatchContext \<Rightarrow> string list" where
  "normalizeEffectiveEntries adapter accountId entries context =
    (let rawEntries = normalizeStringEntries entries;
         accessGroupEntries = filter (\<lambda>e. parseAccessGroupAllowFromEntry e \<noteq> None) rawEntries;
         directEntries = filter (\<lambda>e. parseAccessGroupAllowFromEntry e = None) rawEntries
     in if directEntries = [] then accessGroupEntries
        else let normalized = ad_normalizeEntries adapter directEntries context accountId
          in uniq (accessGroupEntries @ map ne_value (nr_matchable normalized)))"

definition membership_fact ::
  "ResolveChannelMessageIngressParams \<Rightarrow> membership_resolver \<Rightarrow> string \<Rightarrow> string \<Rightarrow> AccessGroupMembershipFact list" where
  "membership_fact input resolve channelId name =
    (case (case rp_accessGroups input of None \<Rightarrow> None | Some groups \<Rightarrow> map_of groups name) of
       None \<Rightarrow> []
     | Some (MessageSenders _) \<Rightarrow> []
     | Some g \<Rightarrow>
        [case resolve name g channelId (rp_accountId input) (rp_subject input) of
           None \<Rightarrow> FailureFact FactFailed name DynamicFact R_access_group_failed (Some (''access-group'' @ [CHR '':''] @ name))
         | Some matched \<Rightarrow>
             if matched then MatchedFact name DynamicFact [''access-group'' @ [CHR '':''] @ name]
             else NotMatchedFact name DynamicFact])"

definition resolveRuntimeAccessGroupMembershipFacts ::
  "ResolveChannelMessageIngressParams \<Rightarrow> string \<Rightarrow> string list \<Rightarrow> AccessGroupMembershipFact list" where
  "resolveRuntimeAccessGroupMembershipFacts input channelId names =
    (case rp_resolveAccessGroupMembership input of
       None \<Rightarrow> []
     | Some resolve \<Rightarrow> concat (map (membership_fact input resolve channelId) names))"

section \<open>Route facts\<close>

fun routeDescriptors :: "RouteParam \<Rightarrow> ChannelIngressRouteDescriptor list" where
  "routeDescriptors NoRoute = []"
| "routeDescriptors (OneRoute r) = [r]"
| "routeDescriptors (ManyRoutes rs) = rs"

definition channelIngressRoutes :: "ChannelIngressRouteDescriptor option list \<Rightarrow> ChannelIngressRouteDescriptor list" where
  "channelIngressRoutes routes = List.map_filter (\<lambda>r. r) routes"

definition routeDescriptorMatch :: "ChannelIngressRouteDescriptor \<Rightarrow> RedactedIngressMatch" where
  "routeDescriptorMatch d =
    (let matched = or_else (or_opt (rd_matched d) (rd_allowed d)) (rd_enabled d \<noteq> Some False)
     in \<lparr>rm_matched = matched,
         rm_matchedEntryIds = (case rd_matchId d of None \<Rightarrow> [] | Some i \<Rightarrow> if matched \<and> i \<noteq> [] then [i] else [])\<rparr>)"

text \<open>\<open>routeFact\<close> over \<open>routeFactDefaults\<close>: the defaults of a descriptor with the gate, effect,
  kind and sender policy of its case.\<close>

definition routeFact ::
  "ChannelIngressRouteDescriptor \<Rightarrow> RouteKind option \<Rightarrow> RouteSenderPolicy option \<Rightarrow> RouteGateState \<Rightarrow> RouteEffect \<Rightarrow> RouteGateFacts" where
  "routeFact d kind senderPolicy gate effect =
    \<lparr>rf_id = rd_id d, rf_kind = or_else kind RK_route, rf_gate = gate, rf_effect = effect,
     rf_precedence = or_else (rd_precedence d) 0, rf_senderPolicy = or_else senderPolicy InheritPolicy,
     rf_match = Some (routeDescriptorMatch d),
     rf_senderAllowFrom = rd_senderAllowFrom d, rf_senderAllowFromSource = rd_senderAllowFromSource d\<rparr>"

definition route_facts_of :: "ChannelIngressRouteDescriptor \<Rightarrow> RouteGateFacts list" where
  "route_facts_of d =
    (if rd_configured d = Some False then []
     else if rd_enabled d = Some False
     then [routeFact d (rd_kind d) (rd_senderPolicy d) RouteDisabled RE_block_dispatch]
     else (case rd_allowed d of
         Some allowed \<Rightarrow> [routeFact d (rd_kind d) (rd_senderPolicy d)
            (if allowed then RouteMatched else RouteNotMatched) (if allowed then RE_allow else RE_block_dispatch)]
       | None \<Rightarrow>
           if rd_senderPolicy d \<noteq> Some DenyWhenEmpty \<and> rd_senderAllowFrom d = None \<and> rd_senderAllowFromSource d = None
           then []
           else [routeFact d (if rd_senderPolicy d = Some DenyWhenEmpty then rd_kind d else Some RK_routeSender)
                   (if rd_senderPolicy d = Some DenyWhenEmpty then Some DenyWhenEmpty else rd_senderPolicy d)
                   RouteMatched RE_allow]))"

definition routeFactsFromDescriptors :: "RouteParam \<Rightarrow> RouteGateFacts list" where
  "routeFactsFromDescriptors route = concat (map route_facts_of (routeDescriptors route))"

section \<open>Projections\<close>

definition normalizeChannelId :: "string \<Rightarrow> string option" where
  "normalizeChannelId i = (if js_trim i = [] then None else Some (js_trim i))"

definition findIngressGate :: "ChannelIngressDecision \<Rightarrow> IngressGatePhase \<Rightarrow> IngressGateKind \<Rightarrow> AccessGraphGate option" where
  "findIngressGate ingress phase kind = find (\<lambda>g. g_phase g = phase \<and> g_kind g = kind) (d_gates ingress)"

definition findSenderGate :: "ChannelIngressDecision \<Rightarrow> bool \<Rightarrow> AccessGraphGate option" where
  "findSenderGate ingress isGroup = findIngressGate ingress PhSender (if isGroup then GK_groupSender else GK_dmSender)"

record ChannelIngressSenderAccess =
  sa_allowed :: bool
  sa_decision :: IngressVerdict
  sa_reasonCode :: IngressReasonCode
  sa_gate :: "AccessGraphGate option"
  sa_effectiveAllowFrom :: "string list"
  sa_effectiveGroupAllowFrom :: "string list"
  sa_providerMissingFallbackApplied :: bool

record ChannelIngressCommandAccess =
  ca_requested :: bool
  ca_authorized :: bool
  ca_shouldBlockControlCommand :: bool
  ca_reasonCode :: IngressReasonCode
  ca_gate :: "AccessGraphGate option"

record ChannelIngressRouteAccess =
  ra_allowed :: bool
  ra_reasonCode :: "IngressReasonCode option"
  ra_reason :: "string option"
  ra_gate :: "AccessGraphGate option"

record ChannelIngressActivationAccess =
  aa_ran :: bool
  aa_allowed :: bool
  aa_shouldSkip :: bool
  aa_reasonCode :: IngressReasonCode
  aa_effectiveWasMentioned :: "bool option"
  aa_shouldBypassMention :: "bool option"
  aa_gate :: "AccessGraphGate option"

definition truthy_string :: "string option \<Rightarrow> string option" where
  "truthy_string s = (case s of Some t \<Rightarrow> if t = [] then None else Some t | None \<Rightarrow> None)"

definition routeDescriptorForGate ::
  "ChannelIngressRouteDescriptor list \<Rightarrow> AccessGraphGate \<Rightarrow> ChannelIngressRouteDescriptor option" where
  "routeDescriptorForGate descriptors gate =
    (let senderSuffix = '':sender'';
         baseGateId = (if ends_with (g_id gate) senderSuffix
           then take (length (g_id gate) - length senderSuffix) (g_id gate) else g_id gate)
     in find (\<lambda>d. rd_id d = g_id gate \<or> rd_id d = baseGateId) descriptors)"

definition projectRouteAccess :: "ChannelIngressDecision \<Rightarrow> RouteParam \<Rightarrow> ChannelIngressRouteAccess" where
  "projectRouteAccess ingress route =
    (let descriptors = routeDescriptors route in
     case find (\<lambda>g. g_phase g = PhRoute \<and> g_effect g = E_block_dispatch) (d_gates ingress) of
       Some routeBlock \<Rightarrow>
         \<lparr>ra_allowed = g_allowed routeBlock, ra_reasonCode = Some (g_reasonCode routeBlock),
          ra_reason = (case routeDescriptorForGate descriptors routeBlock of
             None \<Rightarrow> None | Some d \<Rightarrow> truthy_string (rd_blockReason d)),
          ra_gate = Some routeBlock\<rparr>
     | None \<Rightarrow>
       (let replacement = find (\<lambda>d. rd_senderPolicy d = Some ReplacePolicy \<and> truthy_string (rd_blockReason d) \<noteq> None) descriptors;
            senderBlock = find (\<lambda>g. g_phase g = PhSender \<and> g_effect g = E_block_dispatch) (d_gates ingress)
        in case (replacement, senderBlock) of
             (Some d, Some g) \<Rightarrow> \<lparr>ra_allowed = False, ra_reasonCode = Some (g_reasonCode g),
                 ra_reason = rd_blockReason d, ra_gate = Some g\<rparr>
           | _ \<Rightarrow> (case find (\<lambda>g. g_phase g = PhRoute) (d_gates ingress) of
               Some g \<Rightarrow> \<lparr>ra_allowed = g_allowed g, ra_reasonCode = Some (g_reasonCode g), ra_reason = None, ra_gate = Some g\<rparr>
             | None \<Rightarrow> \<lparr>ra_allowed = True, ra_reasonCode = None, ra_reason = None, ra_gate = None\<rparr>)))"

definition projectSenderAccess ::
  "ChannelIngressDecision \<Rightarrow> bool \<Rightarrow> string list \<Rightarrow> string list \<Rightarrow> bool option \<Rightarrow> ChannelIngressSenderAccess" where
  "projectSenderAccess ingress isGroup effectiveAllowFrom effectiveGroupAllowFrom providerMissing =
    (let gate = findSenderGate ingress isGroup;
         reasonCode = (if gate = None \<and> isGroup \<and> d_reasonCode ingress = R_route_sender_empty \<and> effectiveGroupAllowFrom = []
           then R_group_policy_empty_allowlist
           else or_else (map_option g_reasonCode gate) (d_reasonCode ingress));
         decision = (if reasonCode = R_dm_policy_pairing_required then V_pairing
           else if map_option g_allowed gate = Some True then V_allow else V_block)
     in \<lparr>sa_allowed = (decision = V_allow), sa_decision = decision, sa_reasonCode = reasonCode, sa_gate = gate,
         sa_effectiveAllowFrom = effectiveAllowFrom, sa_effectiveGroupAllowFrom = effectiveGroupAllowFrom,
         sa_providerMissingFallbackApplied = or_else providerMissing False\<rparr>)"

definition projectCommandAccess :: "ChannelIngressDecision \<Rightarrow> ChannelIngressPolicyInput \<Rightarrow> ChannelIngressCommandAccess" where
  "projectCommandAccess ingress policy =
    (let gate = findIngressGate ingress PhCommand GK_command; requested = (po_command policy \<noteq> None)
     in \<lparr>ca_requested = requested,
         ca_authorized = (if requested then map_option g_allowed gate = Some True else False),
         ca_shouldBlockControlCommand =
           (map_option cm_shouldBlockControlCommand (Option.bind gate g_command) = Some True),
         ca_reasonCode = or_else (map_option g_reasonCode gate) (d_reasonCode ingress), ca_gate = gate\<rparr>)"

definition projectActivationAccess :: "ChannelIngressDecision \<Rightarrow> ChannelIngressActivationAccess" where
  "projectActivationAccess ingress =
    (let gate = findIngressGate ingress PhActivation GK_mention; meta = Option.bind gate g_activation
     in \<lparr>aa_ran = (gate \<noteq> None), aa_allowed = (map_option g_allowed gate = Some True),
         aa_shouldSkip = (map_option am_shouldSkip meta = Some True),
         aa_reasonCode = or_else (map_option g_reasonCode gate) (d_reasonCode ingress),
         aa_effectiveWasMentioned = Option.bind meta am_effectiveWasMentioned,
         aa_shouldBypassMention = Option.bind meta am_shouldBypassMention, aa_gate = gate\<rparr>)"

section \<open>Command lists\<close>

definition commandOwnerAllowFrom ::
  "ChannelMessageIngressCommandInput option \<Rightarrow> bool \<Rightarrow> js_entry list \<Rightarrow> string list \<Rightarrow> js_entry list" where
  "commandOwnerAllowFrom command isGroup configuredAllowFrom effectiveAllowFrom =
    (case Option.bind command ci_commandOwnerAllowFrom of
       Some owners \<Rightarrow> owners
     | None \<Rightarrow> if \<not> isGroup then map EStr effectiveAllowFrom
         else if Option.bind command ci_groupOwnerAllowFrom = Some OwnerNone then [] else configuredAllowFrom)"

definition commandGroupAllowFrom ::
  "ChannelMessageIngressCommandInput option \<Rightarrow> bool \<Rightarrow> string list \<Rightarrow> js_entry list" where
  "commandGroupAllowFrom command isGroup effectiveCommandGroupAllowFrom =
    (if isGroup then map EStr effectiveCommandGroupAllowFrom
     else if Option.bind command ci_directGroupAllowFrom = Some DirectEffective
       then map EStr effectiveCommandGroupAllowFrom else [])"

definition accessGroupMatchedEntry :: "ResolveChannelMessageIngressParams \<Rightarrow> string option" where
  "accessGroupMatchedEntry params =
    map_option js_String (or_opt (rp_accessGroupMatchedAllowFromEntry params) (isi_stableId (rp_subject params)))"

definition appendAccessGroupMatchedEntry ::
  "string list \<Rightarrow> ResolvedIngressAllowlist \<Rightarrow> string option \<Rightarrow> string list" where
  "appendAccessGroupMatchedEntry entries allowlist matchedEntry =
    (case truthy_string matchedEntry of
       None \<Rightarrow> entries
     | Some m \<Rightarrow> if ag_matched (al_accessGroups allowlist) \<noteq> [] then uniq (entries @ [m]) else entries)"

section \<open>Resolving one event\<close>

record ResolvedChannelMessageIngress =
  ri_state :: ChannelIngressState
  ri_ingress :: ChannelIngressDecision
  ri_senderAccess :: ChannelIngressSenderAccess
  ri_routeAccess :: ChannelIngressRouteAccess
  ri_commandAccess :: ChannelIngressCommandAccess
  ri_activationAccess :: ChannelIngressActivationAccess

definition effective_policy :: "ResolveChannelMessageIngressParams \<Rightarrow> ChannelIngressPolicyInput" where
  "effective_policy params =
    (case rp_command params of None \<Rightarrow> rp_policy params
     | Some command \<Rightarrow> (rp_policy params)\<lparr>po_command := Some (CommandPolicy.truncate command)\<rparr>)"

definition ingress_state_input ::
  "IngressEnv \<Rightarrow> ResolveChannelMessageIngressParams \<Rightarrow> string \<Rightarrow> ChannelIngressStateInput" where
  "ingress_state_input env params channelId =
    (let routeFacts = routeFactsFromDescriptors (rp_route params) @ or_else (rp_routeFacts params) [];
         rawAllowFrom = map EStr (normalizeStringEntries (or_else (rp_allowFrom params) []));
         rawStoreAllowFrom = map EStr (normalizeStringEntries (readStoreAllowFrom env params channelId));
         rawGroupAllowFrom = map EStr (normalizeStringEntries (or_else (rp_groupAllowFrom params) []));
         referenced = allReferencedAccessGroupNames
           ([rawAllowFrom, rawGroupAllowFrom, rawStoreAllowFrom,
             or_else (Option.bind (rp_command params) ci_commandOwnerAllowFrom) []]
            @ map (\<lambda>route. or_else (rf_senderAllowFrom route) []) routeFacts);
         membership = resolveRuntimeAccessGroupMembershipFacts params channelId referenced
           @ or_else (rp_accessGroupMembership params) [];
         dmPolicy = Some (dm_policy_string (po_dmPolicy (rp_policy params)));
         fallback = po_groupAllowFromFallbackToAllowFrom (rp_policy params);
         rawEffective = resolveChannelIngressEffectiveAllowFromLists (Some rawAllowFrom) (Some rawGroupAllowFrom)
           (Some rawStoreAllowFrom) dmPolicy fallback;
         rawCommandGroup = resolveChannelIngressEffectiveAllowFromLists (Some rawAllowFrom) (Some rawGroupAllowFrom)
           None dmPolicy (or_opt (Option.bind (rp_command params) ci_commandGroupAllowFromFallbackToAllowFrom) fallback);
         isGroup = (cv_kind (rp_conversation params) \<noteq> ConvDirect)
     in \<lparr>si_channelId = channelId, si_accountId = rp_accountId params,
         si_subject = createIdentitySubject (rp_identity params) (rp_subject params),
         si_conversation = rp_conversation params, si_adapter = createIdentityAdapter (rp_identity params),
         si_accessGroups = rp_accessGroups params, si_accessGroupMembership = Some membership,
         si_routeFacts = Some routeFacts, si_mentionFacts = rp_mentionFacts params, si_event = rp_event params,
         si_allowlists =
           \<lparr>in_dm = Some rawAllowFrom,
            in_group = Some (map EStr (el_effectiveGroupAllowFrom rawEffective)),
            in_commandOwner = Some (commandOwnerAllowFrom (rp_command params) isGroup rawAllowFrom (el_effectiveAllowFrom rawEffective)),
            in_commandGroup = Some (commandGroupAllowFrom (rp_command params) isGroup (el_effectiveGroupAllowFrom rawCommandGroup)),
            in_pairingStore = Some rawStoreAllowFrom\<rparr>\<rparr>)"

definition base_effective_lists ::
  "IngressEnv \<Rightarrow> ResolveChannelMessageIngressParams \<Rightarrow> string \<Rightarrow> EffectiveLists" where
  "base_effective_lists env params channelId =
    (let adapter = createIdentityAdapter (rp_identity params);
         normalizeEffective = (\<lambda>entries context. map EStr (normalizeEffectiveEntries adapter (rp_accountId params)
           (map EStr (normalizeStringEntries entries)) context))
     in resolveChannelIngressEffectiveAllowFromLists
          (Some (normalizeEffective (or_else (rp_allowFrom params) []) CtxDm))
          (Some (normalizeEffective (or_else (rp_groupAllowFrom params) []) CtxGroup))
          (Some (normalizeEffective (readStoreAllowFrom env params channelId) CtxDm))
          (Some (dm_policy_string (po_dmPolicy (rp_policy params))))
          (po_groupAllowFromFallbackToAllowFrom (rp_policy params)))"

datatype IngressError = EmptyChannelId

definition resolveChannelMessageIngress ::
  "IngressEnv \<Rightarrow> ResolveChannelMessageIngressParams \<Rightarrow> IngressError + ResolvedChannelMessageIngress" where
  "resolveChannelMessageIngress env params =
    (case normalizeChannelId (rp_channelId params) of
       None \<Rightarrow> Inl EmptyChannelId
     | Some channelId \<Rightarrow>
        (let policy = effective_policy params;
             state = resolveChannelIngressState (env_localeCompare env) (ingress_state_input env params channelId);
             ingress = decideChannelIngress state policy;
             baseEffective = base_effective_lists env params channelId;
             matchedEntry = accessGroupMatchedEntry params;
             effectiveAllowFrom = appendAccessGroupMatchedEntry (el_effectiveAllowFrom baseEffective)
               (st_dm (cs_allowlists state)) matchedEntry;
             effectiveGroupAllowFrom = appendAccessGroupMatchedEntry (el_effectiveGroupAllowFrom baseEffective)
               (st_group (cs_allowlists state)) matchedEntry
         in Inr \<lparr>ri_state = state, ri_ingress = ingress,
             ri_senderAccess = projectSenderAccess ingress (cv_kind (rp_conversation params) \<noteq> ConvDirect)
               effectiveAllowFrom effectiveGroupAllowFrom (rp_providerMissingFallbackApplied params),
             ri_routeAccess = projectRouteAccess ingress (rp_route params),
             ri_commandAccess = projectCommandAccess ingress policy,
             ri_activationAccess = projectActivationAccess ingress\<rparr>))"

section \<open>The reusable resolver\<close>

record ChannelIngressConfigInput =
  cfg_accessGroups :: "(string \<times> AccessGroupConfig) list option"
  cfg_commandsUseAccessGroups :: "bool option"

record ChannelIngressCommandPresetInput =
  cpi_requested :: "bool option"
  cpi_cfg :: "ChannelIngressConfigInput option"
  cpi_useAccessGroups :: "bool option"
  cpi_allowTextCommands :: "bool option"
  cpi_hasControlCommand :: "bool option"
  cpi_modeWhenAccessGroupsOff :: "CommandGatingMode option"
  cpi_commandOwnerAllowFrom :: "js_entry list option"
  cpi_groupOwnerAllowFrom :: "GroupOwnerAllow option"
  cpi_directGroupAllowFrom :: "DirectGroupAllow option"
  cpi_commandGroupAllowFromFallbackToAllowFrom :: "bool option"

record ChannelIngressEventPresetInput =
  epi_kind :: "EventKind option"
  epi_authMode :: "AuthMode option"
  epi_mayPair :: "bool option"
  epi_originSubject :: "InternalChannelIngressSubject option"
  epi_isGroup :: "bool option"

record CreateChannelIngressResolverParams =
  cr_channelId :: string
  cr_accountId :: string
  cr_identity :: ChannelIngressIdentityDescriptor
  cr_accessGroups :: "(string \<times> AccessGroupConfig) list option"
  cr_accessGroupMembership :: "AccessGroupMembershipFact list option"
  cr_resolveAccessGroupMembership :: "membership_resolver option"
  cr_accessGroupMatchedAllowFromEntry :: "js_entry option"
  cr_readStoreAllowFrom :: "store_reader option"
  cr_useDefaultPairingStore :: "bool option"
  cr_cfg :: "ChannelIngressConfigInput option"
  cr_useAccessGroups :: "bool option"
  cr_defaultDmPolicy :: "DmPolicy option"
  cr_defaultGroupPolicy :: "GroupPolicy option"
  cr_groupAllowFromFallbackToAllowFrom :: "bool option"
  cr_mutableIdentifierMatching :: "MutableMatching option"

text \<open>\<open>false\<close> and an absent command are both \<open>None\<close>; the partial policy of a message contributes
  its three optional fields.\<close>

record ChannelIngressResolverMessageParams =
  mp_subject :: ChannelIngressIdentitySubjectInput
  mp_conversation :: Conversation
  mp_event :: "ChannelIngressEventPresetInput option"
  mp_dmPolicy :: "DmPolicy option"
  mp_groupPolicy :: "GroupPolicy option"
  mp_policyFallback :: "bool option"
  mp_policyMutable :: "MutableMatching option"
  mp_policyActivation :: "ActivationPolicy option"
  mp_allowFrom :: "js_entry list option"
  mp_groupAllowFrom :: "js_entry list option"
  mp_route :: RouteParam
  mp_routeFacts :: "RouteGateFacts list option"
  mp_accessGroupMembership :: "AccessGroupMembershipFact list option"
  mp_providerMissingFallbackApplied :: "bool option"
  mp_mentionFacts :: "InboundMentionFacts option"
  mp_command :: "ChannelIngressCommandPresetInput option"

definition useAccessGroupsFromConfig :: "bool option \<Rightarrow> ChannelIngressConfigInput option \<Rightarrow> bool" where
  "useAccessGroupsFromConfig useAccessGroups cfg =
    or_else useAccessGroups (Option.bind cfg cfg_commandsUseAccessGroups \<noteq> Some False)"

definition channelIngressCommand ::
  "ChannelIngressCommandPresetInput \<Rightarrow> ChannelMessageIngressCommandInput option" where
  "channelIngressCommand params =
    (if cpi_requested params = Some False then None
     else Some \<lparr>cp_useAccessGroups = Some (useAccessGroupsFromConfig (cpi_useAccessGroups params) (cpi_cfg params)),
       cp_allowTextCommands = or_else (cpi_allowTextCommands params) False,
       cp_hasControlCommand = or_else (cpi_hasControlCommand params) True,
       cp_modeWhenAccessGroupsOff = cpi_modeWhenAccessGroupsOff params,
       ci_commandOwnerAllowFrom = cpi_commandOwnerAllowFrom params,
       ci_groupOwnerAllowFrom = cpi_groupOwnerAllowFrom params,
       ci_directGroupAllowFrom = cpi_directGroupAllowFrom params,
       ci_commandGroupAllowFromFallbackToAllowFrom = cpi_commandGroupAllowFromFallbackToAllowFrom params\<rparr>)"

definition channelIngressEvent :: "ChannelIngressEventPresetInput \<Rightarrow> ChannelIngressEventInput" where
  "channelIngressEvent params =
    (let isGroup = or_else (epi_isGroup params) False in
     \<lparr>ev_kind = or_else (epi_kind params) EvMessage, ev_authMode = or_else (epi_authMode params) AuthInbound,
      ev_mayPair = or_else (epi_mayPair params) (\<not> isGroup), ev_originSubject = epi_originSubject params\<rparr>)"

definition resolveCommandInput ::
  "ChannelIngressCommandPresetInput option \<Rightarrow> bool option \<Rightarrow> ChannelMessageIngressCommandInput option" where
  "resolveCommandInput command useAccessGroups =
    (case command of None \<Rightarrow> None
     | Some c \<Rightarrow> channelIngressCommand (c\<lparr>cpi_useAccessGroups := or_opt (cpi_useAccessGroups c) useAccessGroups\<rparr>))"

definition resolveResolverPolicy ::
  "CreateChannelIngressResolverParams \<Rightarrow> ChannelIngressResolverMessageParams \<Rightarrow> ChannelIngressPolicyInput" where
  "resolveResolverPolicy base input =
    \<lparr>po_dmPolicy = or_else (or_opt (mp_dmPolicy input) (cr_defaultDmPolicy base)) DmPairing,
     po_groupPolicy = or_else (or_opt (mp_groupPolicy input) (cr_defaultGroupPolicy base)) GroupDisabled,
     po_groupAllowFromFallbackToAllowFrom = or_opt (mp_policyFallback input) (cr_groupAllowFromFallbackToAllowFrom base),
     po_mutableIdentifierMatching = or_opt (mp_policyMutable input) (cr_mutableIdentifierMatching base),
     po_activation = mp_policyActivation input, po_command = None\<rparr>"

text \<open>\<open>{ isGroup, ...eventDefaults, ...input.event }\<close>: later fields win.\<close>

definition spread_event ::
  "ChannelIngressEventPresetInput \<Rightarrow> ChannelIngressEventPresetInput option \<Rightarrow> ChannelIngressEventPresetInput" where
  "spread_event a b =
    (case b of None \<Rightarrow> a
     | Some e \<Rightarrow> \<lparr>epi_kind = or_opt (epi_kind e) (epi_kind a), epi_authMode = or_opt (epi_authMode e) (epi_authMode a),
         epi_mayPair = or_opt (epi_mayPair e) (epi_mayPair a),
         epi_originSubject = or_opt (epi_originSubject e) (epi_originSubject a),
         epi_isGroup = or_opt (epi_isGroup e) (epi_isGroup a)\<rparr>)"

definition no_event_preset :: ChannelIngressEventPresetInput where
  "no_event_preset = \<lparr>epi_kind = None, epi_authMode = None, epi_mayPair = None, epi_originSubject = None, epi_isGroup = None\<rparr>"

definition resolver_params ::
  "CreateChannelIngressResolverParams \<Rightarrow> ChannelIngressResolverMessageParams \<Rightarrow> ChannelIngressEventPresetInput option
    \<Rightarrow> ResolveChannelMessageIngressParams" where
  "resolver_params base input eventDefaults =
    (let isGroup = (cv_kind (mp_conversation input) \<noteq> ConvDirect);
         useAccessGroups = useAccessGroupsFromConfig (cr_useAccessGroups base) (cr_cfg base)
     in \<lparr>rp_channelId = cr_channelId base, rp_accountId = cr_accountId base, rp_identity = cr_identity base,
         rp_subject = mp_subject input, rp_conversation = mp_conversation input,
         rp_event = channelIngressEvent (spread_event (spread_event
           (no_event_preset\<lparr>epi_isGroup := Some isGroup\<rparr>) eventDefaults) (mp_event input)),
         rp_policy = resolveResolverPolicy base input,
         rp_allowFrom = mp_allowFrom input, rp_groupAllowFrom = mp_groupAllowFrom input,
         rp_route = mp_route input, rp_routeFacts = mp_routeFacts input,
         rp_accessGroups = or_opt (cr_accessGroups base) (Option.bind (cr_cfg base) cfg_accessGroups),
         rp_accessGroupMembership = Some (or_else (cr_accessGroupMembership base) [] @ or_else (mp_accessGroupMembership input) []),
         rp_resolveAccessGroupMembership = cr_resolveAccessGroupMembership base,
         rp_accessGroupMatchedAllowFromEntry = cr_accessGroupMatchedAllowFromEntry base,
         rp_providerMissingFallbackApplied = mp_providerMissingFallbackApplied input,
         rp_mentionFacts = mp_mentionFacts input,
         rp_readStoreAllowFrom = cr_readStoreAllowFrom base,
         rp_useDefaultPairingStore = cr_useDefaultPairingStore base,
         rp_command = resolveCommandInput (mp_command input) (Some useAccessGroups)\<rparr>)"

datatype ResolverMethod = ResolveMessage | ResolveCommand | ResolveEvent

fun method_event_defaults :: "ResolverMethod \<Rightarrow> ChannelIngressEventPresetInput option" where
  "method_event_defaults ResolveMessage = None"
| "method_event_defaults ResolveCommand = Some (no_event_preset\<lparr>epi_authMode := Some AuthCommand, epi_mayPair := Some False\<rparr>)"
| "method_event_defaults ResolveEvent = Some (no_event_preset\<lparr>epi_mayPair := Some False\<rparr>)"

definition createChannelIngressResolver ::
  "IngressEnv \<Rightarrow> CreateChannelIngressResolverParams \<Rightarrow> ResolverMethod \<Rightarrow> ChannelIngressResolverMessageParams
    \<Rightarrow> IngressError + ResolvedChannelMessageIngress" where
  "createChannelIngressResolver env base m input =
    resolveChannelMessageIngress env (resolver_params base input (method_event_defaults m))"

definition resolveStableChannelMessageIngress ::
  "IngressEnv \<Rightarrow> StableIdentityParams \<Rightarrow> CreateChannelIngressResolverParams \<Rightarrow> ChannelIngressResolverMessageParams
    \<Rightarrow> IngressError + ResolvedChannelMessageIngress" where
  "resolveStableChannelMessageIngress env identity base input =
    createChannelIngressResolver env (base\<lparr>cr_identity := defineStableChannelIngressIdentity identity\<rparr>) ResolveMessage input"

section \<open>Facts about the projections\<close>

lemma find_sender_gate:
  "find (\<lambda>g. g_phase g = PhSender \<and> g_kind g = k) gs = None \<longleftrightarrow> \<not> (\<exists>g \<in> set gs. g_phase g = PhSender \<and> g_kind g = k)"
  by (auto simp: find_None_iff)

lemma sender_gate_kind:
  "g_phase (sender_gate_of s p) = PhSender"
  "g_kind (sender_gate_of s p) = (if cs_conversationKind s = ConvDirect then GK_dmSender else GK_groupSender)"
  by (auto simp: sender_gate_of_def applyEventAuthModeToSenderGate_def senderGateForDirect_def
      senderGateForGroup_def Let_def)

lemma phases [simp]:
  "g \<in> set (route_phase s) \<Longrightarrow> g_phase g = PhRoute"
  "activation_before_sender s p = Some g \<Longrightarrow> g_phase g = PhActivation \<and> g_kind g = GK_mention"
  "g_phase (commandGate s p) = PhCommand" "g_kind (commandGate s p) = GK_command"
  "g_phase (eventGate s x c) = PhEvent"
  "g_phase (activationGate s p c) = PhActivation" "g_kind (activationGate s p c) = GK_mention"
       apply (auto simp: route_phase_def routeGates_def route_gate_def routeSenderEmptyGate_def split: option.splits)[1]
      apply (auto simp: activation_before_sender_def activationGate_def activation_result_def Let_def split: option.splits if_splits)[1]
     apply (auto simp: commandGate_def Let_def split: option.splits)[2]
   apply (auto simp: eventGate_def event_result_def Let_def)[1]
  apply (auto simp: activationGate_def activation_result_def Let_def split: option.splits)[2]
  done

lemma find_at: "(\<And>g. g \<in> set gs \<Longrightarrow> \<not> P g) \<Longrightarrow> P x \<Longrightarrow> find P (gs @ x # hs) = Some x"
  by (induction gs) auto

lemma gates_after_sender:
  assumes "find blocking (route_phase s) = None" "map_option g_effect (activation_before_sender s p) \<noteq> Some E_skip"
  shows "\<exists>hs. d_gates (decideChannelIngress s p) =
    (route_phase s @ (case activation_before_sender s p of None \<Rightarrow> [] | Some g \<Rightarrow> [g])) @ sender_gate_of s p # hs"
  using assms(2)
  by (simp only: decide_unfold assms(1) option.simps Let_def if_False)
    (simp add: decisiveDecision_def split: option.split)

text \<open>The sender gate a projection finds is the sender gate of the decision, or none ran.\<close>

lemma found_sender_gate:
  "findSenderGate (decideChannelIngress s p) (cs_conversationKind s \<noteq> ConvDirect) \<in>
     {None, Some (sender_gate_of s p)}
   \<and> (findSenderGate (decideChannelIngress s p) (cs_conversationKind s \<noteq> ConvDirect) = None \<longrightarrow>
        d_admission (decideChannelIngress s p) \<in> {A_drop, A_skip}
        \<and> d_reasonCode (decideChannelIngress s p) \<noteq> R_dm_policy_pairing_required)"
proof (cases "find blocking (route_phase s)")
  case (Some g)
  then have "g \<in> set (route_phase s)" by (auto dest: find_SomeD)
  then have "g_reasonCode g \<noteq> R_dm_policy_pairing_required" by (simp add: route_phase_blocking)
  moreover have "find (\<lambda>g. g_phase g = PhSender \<and> g_kind g = k) (route_phase s) = None" for k
    by (auto simp: find_None_iff)
  ultimately show ?thesis using Some
    by (simp add: decide_unfold findSenderGate_def findIngressGate_def decisiveDecision_def)
next
  case None
  let ?b = "activation_before_sender s p"
  let ?gs = "route_phase s @ (case ?b of None \<Rightarrow> [] | Some g \<Rightarrow> [g])"
  let ?x = "sender_gate_of s p"
  let ?k = "if cs_conversationKind s \<noteq> ConvDirect then GK_groupSender else GK_dmSender"
  have kind: "g_phase ?x = PhSender \<and> g_kind ?x = ?k" by (simp add: sender_gate_kind)
  have np: "g_phase g \<noteq> PhSender" if "g \<in> set ?gs" for g
    using that by (auto split: option.splits)
  have fx: "find (\<lambda>g. g_phase g = PhSender \<and> g_kind g = ?k) (?gs @ ?x # hs) = Some ?x" for hs
    by (rule find_at) (use np kind in auto)
  have fn: "find (\<lambda>g. g_phase g = PhSender \<and> g_kind g = ?k) ?gs = None"
    using np by (auto simp: find_None_iff)
  show ?thesis
  proof (cases "map_option g_effect ?b = Some E_skip")
    case True
    then obtain g where g: "?b = Some g" "g_effect g = E_skip" by auto
    then have "g_reasonCode g \<noteq> R_dm_policy_pairing_required" using before_gate_fields by blast
    then show ?thesis using g None fn
      by (simp add: decide_unfold findSenderGate_def findIngressGate_def decisiveDecision_def Let_def)
  next
    case False
    obtain hs where "d_gates (decideChannelIngress s p) = ?gs @ ?x # hs"
      using gates_after_sender [OF None False] by blast
    then show ?thesis by (simp only: findSenderGate_def findIngressGate_def fx) simp
  qed
qed

lemma found_passed:
  "findSenderGate (decideChannelIngress s p) (cs_conversationKind s \<noteq> ConvDirect) = Some g \<Longrightarrow>
     routes_admit s \<and> map_option g_effect (activation_before_sender s p) \<noteq> Some E_skip"
proof (rule conjI)
  assume f: "findSenderGate (decideChannelIngress s p) (cs_conversationKind s \<noteq> ConvDirect) = Some g"
  have none: "find (\<lambda>g. g_phase g = PhSender \<and> g_kind g = k) (route_phase s) = None" for k
    by (auto simp: find_None_iff)
  show r: "routes_admit s"
  proof (rule ccontr)
    assume "\<not> routes_admit s"
    then obtain h where "find blocking (route_phase s) = Some h"
      using find_blocking_iff [of "route_phase s"] by (cases "find blocking (route_phase s)") (auto simp: route_phase_admitted)
    then show False using f none
      by (simp add: decide_unfold findSenderGate_def findIngressGate_def decisiveDecision_def)
  qed
  show "map_option g_effect (activation_before_sender s p) \<noteq> Some E_skip"
  proof
    assume e: "map_option g_effect (activation_before_sender s p) = Some E_skip"
    then obtain h where h: "activation_before_sender s p = Some h" "g_effect h = E_skip" by auto
    have n: "find blocking (route_phase s) = None" using r by (simp add: find_blocking_iff route_phase_admitted)
    have "find (\<lambda>g. g_phase g = PhSender \<and> g_kind g = k) (route_phase s @ [h]) = None" for k
      using h(1) by (auto simp: find_None_iff)
    then show False using f h n
      by (simp add: decide_unfold findSenderGate_def findIngressGate_def decisiveDecision_def Let_def)
  qed
qed

lemma allowed_not_pairing:
  "g_allowed (sender_gate_of s p) \<Longrightarrow> g_reasonCode (sender_gate_of s p) \<noteq> R_dm_policy_pairing_required"
  by (auto simp: sender_gate_of_def applyEventAuthModeToSenderGate_def direct_pairing_iff group_never_pairs
      direct_allowed_iff split: if_splits)

section \<open>Example\<close>

definition sample_env :: IngressEnv where
  "sample_env = \<lparr>env_localeCompare = (\<lambda>a b. 0), env_pairingStore = (\<lambda>provider account. Some [''7''])\<rparr>"

definition sample_params :: "DmPolicy \<Rightarrow> ChannelIngressRouteDescriptor list \<Rightarrow> ResolveChannelMessageIngressParams" where
  "sample_params policy routes =
    \<lparr>rp_channelId = ''telegram'', rp_accountId = ''default'', rp_identity = plain_identity,
     rp_subject = \<lparr>isi_stableId = Some (EStr ''7''), isi_aliases = None\<rparr>,
     rp_conversation = \<lparr>cv_kind = ConvDirect, cv_id = ''c'', cv_parentId = None, cv_threadId = None, cv_title = None\<rparr>,
     rp_event = \<lparr>ev_kind = EvMessage, ev_authMode = AuthInbound, ev_mayPair = True, ev_originSubject = None\<rparr>,
     rp_policy = sample_policy policy, rp_allowFrom = Some [EStr ''8''], rp_groupAllowFrom = None,
     rp_route = ManyRoutes routes, rp_routeFacts = None, rp_accessGroups = None, rp_accessGroupMembership = None,
     rp_resolveAccessGroupMembership = None, rp_accessGroupMatchedAllowFromEntry = None,
     rp_providerMissingFallbackApplied = None, rp_mentionFacts = None, rp_readStoreAllowFrom = None,
     rp_useDefaultPairingStore = Some True, rp_command = None\<rparr>"

definition sample_route :: ChannelIngressRouteDescriptor where
  "sample_route = \<lparr>rd_id = ''room'', rd_kind = None, rd_configured = None, rd_matched = None, rd_allowed = None,
     rd_enabled = None, rd_precedence = None, rd_senderPolicy = None, rd_senderAllowFrom = None,
     rd_senderAllowFromSource = None, rd_matchId = None, rd_blockReason = None\<rparr>"

definition sample_command_params :: ResolveChannelMessageIngressParams where
  "sample_command_params = (sample_params DmPairing [])
     \<lparr>rp_command := Some \<lparr>cp_useAccessGroups = None, cp_allowTextCommands = True, cp_hasControlCommand = True,
       cp_modeWhenAccessGroupsOff = None, ci_commandOwnerAllowFrom = Some [], ci_groupOwnerAllowFrom = None,
       ci_directGroupAllowFrom = None, ci_commandGroupAllowFromFallbackToAllowFrom = None\<rparr>\<rparr>"

lemma sender_projection:
  fixes s p a b m
  defines "d \<equiv> decideChannelIngress s p"
  defines "sa \<equiv> projectSenderAccess d (cs_conversationKind s \<noteq> ConvDirect) a b m"
  shows "(d_admission d = A_dispatch \<longrightarrow> sa_allowed sa)
      \<and> (sa_decision sa = V_pairing \<longleftrightarrow> d_admission d = A_pairing_required)"
proof (cases "findSenderGate d (cs_conversationKind s \<noteq> ConvDirect)")
  case None
  then have "d_admission d \<in> {A_drop, A_skip}" "d_reasonCode d \<noteq> R_dm_policy_pairing_required"
    using found_sender_gate [of s p] by (simp_all add: d_def)
  then show ?thesis using None by (auto simp: sa_def projectSenderAccess_def Let_def)
next
  case (Some g)
  then have g: "g = sender_gate_of s p" using found_sender_gate [of s p] by (auto simp: d_def)
  show ?thesis
  proof (cases "g_allowed g")
    case True
    then have np: "g_reasonCode g \<noteq> R_dm_policy_pairing_required"
      unfolding g by (rule allowed_not_pairing)
    then have "sa_decision sa = V_allow" "sa_allowed sa"
      using Some True by (simp_all add: sa_def projectSenderAccess_def Let_def)
    moreover have "d_admission d \<noteq> A_pairing_required"
      using True unfolding d_def g by (auto simp: pairing_iff sender_gate_of_allowed sender_authorized_def)
    ultimately show ?thesis by simp
  next
    case False
    have "d_admission d \<noteq> A_dispatch"
      using False unfolding d_def g by (auto simp: dispatch_iff_admits ingress_admits_def sender_gate_of_allowed)
    moreover have "d_admission d = A_pairing_required \<longleftrightarrow> g_reasonCode g = R_dm_policy_pairing_required"
      using False Some found_passed [of s p] unfolding d_def g
      by (auto simp: pairing_iff sender_gate_of_pairing sender_gate_of_allowed sender_authorized_def)
    ultimately show ?thesis using Some False by (auto simp: sa_def projectSenderAccess_def Let_def)
  qed
qed

section \<open>Properties\<close>

text \<open>C32: outside direct messages, and under the allowlist and open policies, the pairing store is
  never consulted: whatever the store on disk or a plugin's reader would return, the whole
  resolution, state and projections included, is the same.\<close>

theorem runtime_ignores_store:
  assumes "cv_kind (rp_conversation params) \<noteq> ConvDirect \<or> po_dmPolicy (rp_policy params) \<in> {DmAllowlist, DmOpen}"
  shows "resolveChannelMessageIngress (env\<lparr>env_pairingStore := store\<rparr>)
      (params\<lparr>rp_readStoreAllowFrom := reader, rp_useDefaultPairingStore := dflt\<rparr>)
    = resolveChannelMessageIngress env params"
proof -
  have "readStoreAllowFrom env params c = []"
    "readStoreAllowFrom (env\<lparr>env_pairingStore := store\<rparr>)
      (params\<lparr>rp_readStoreAllowFrom := reader, rp_useDefaultPairingStore := dflt\<rparr>) c = []" for c
    using assms by (auto simp: readStoreAllowFrom_def shouldReadStore_def)
  note rs = this
  let ?p = "params\<lparr>rp_readStoreAllowFrom := reader, rp_useDefaultPairingStore := dflt\<rparr>"
  have "membership_fact ?p = membership_fact params"
    by (intro ext) (simp add: membership_fact_def split: option.split AccessGroupConfig.split)
  then have mf: "resolveRuntimeAccessGroupMembershipFacts ?p = resolveRuntimeAccessGroupMembershipFacts params"
    by (intro ext) (simp add: resolveRuntimeAccessGroupMembershipFacts_def split: option.split)
  have i: "ingress_state_input (env\<lparr>env_pairingStore := store\<rparr>) ?p c = ingress_state_input env params c" for c
    unfolding ingress_state_input_def rs mf by simp
  have b: "base_effective_lists (env\<lparr>env_pairingStore := store\<rparr>) ?p c = base_effective_lists env params c" for c
    unfolding base_effective_lists_def rs by simp
  have e: "effective_policy ?p = effective_policy params" "accessGroupMatchedEntry ?p = accessGroupMatchedEntry params"
    by (simp_all add: effective_policy_def accessGroupMatchedEntry_def split: option.split)
  have f: "rp_channelId ?p = rp_channelId params" "rp_conversation ?p = rp_conversation params"
    "rp_route ?p = rp_route params" "rp_providerMissingFallbackApplied ?p = rp_providerMissingFallbackApplied params"
    "env_localeCompare (env\<lparr>env_pairingStore := store\<rparr>) = env_localeCompare env"
    by simp_all
  show ?thesis
    unfolding resolveChannelMessageIngress_def i b e f by (rule refl)
qed

theorem runtime_ignores_store_witness:
  "resolveChannelMessageIngress (sample_env\<lparr>env_pairingStore := (\<lambda>p a. None)\<rparr>)
      ((sample_params DmAllowlist [])\<lparr>rp_readStoreAllowFrom := None, rp_useDefaultPairingStore := Some False\<rparr>)
    = resolveChannelMessageIngress sample_env (sample_params DmAllowlist [])"
  by (rule runtime_ignores_store) (simp add: sample_params_def sample_policy_def)

text \<open>The projections the channel handlers read agree with the decision: a dispatched event has
  an allowed sender; the sender projection asks for pairing exactly when the decision does; and
  an event with an empty channel id is an error and nothing else is.\<close>

lemma projections_agree:
  "(case resolveChannelMessageIngress env params of
      Inl e \<Rightarrow> js_trim (rp_channelId params) = []
    | Inr r \<Rightarrow> js_trim (rp_channelId params) \<noteq> []
        \<and> \<not> (d_admission (ri_ingress r) = A_dispatch \<and> \<not> sa_allowed (ri_senderAccess r))
        \<and> (sa_decision (ri_senderAccess r) = V_pairing \<longleftrightarrow> d_admission (ri_ingress r) = A_pairing_required))"
proof (cases "js_trim (rp_channelId params) = []")
  case True
  then show ?thesis by (simp add: resolveChannelMessageIngress_def normalizeChannelId_def)
next
  case False
  define s where "s = resolveChannelIngressState (env_localeCompare env)
     (ingress_state_input env params (js_trim (rp_channelId params)))"
  define p where "p = effective_policy params"
  define d where "d = decideChannelIngress s p"
  have kind: "cs_conversationKind s = cv_kind (rp_conversation params)"
    by (simp add: s_def resolveChannelIngressState_def ingress_state_input_def Let_def)
  obtain r where r: "resolveChannelMessageIngress env params = Inr r" "ri_ingress r = d"
      "\<exists>a b. ri_senderAccess r = projectSenderAccess d (cs_conversationKind s \<noteq> ConvDirect) a b (rp_providerMissingFallbackApplied params)"
    using False by (auto simp: resolveChannelMessageIngress_def normalizeChannelId_def Let_def
        s_def [symmetric] p_def [symmetric] d_def [symmetric] kind)
  then obtain a b where sa: "ri_senderAccess r =
      projectSenderAccess d (cs_conversationKind s \<noteq> ConvDirect) a b (rp_providerMissingFallbackApplied params)"
    by blast
  have "(d_admission d = A_dispatch \<longrightarrow> sa_allowed (ri_senderAccess r))
      \<and> (sa_decision (ri_senderAccess r) = V_pairing \<longleftrightarrow> d_admission d = A_pairing_required)"
    unfolding sa d_def by (rule sender_projection)
  then show ?thesis using r False by auto
qed

text \<open>The decision of the sender projection is the verdict of the sender gate alone: an event
  whose sender is allowed and whose control command is not authorised is dropped with the
  verdict block while the sender projection still says allow.\<close>

lemma sender_decision_not_final:
  "list_ex (\<lambda>p. case resolveChannelMessageIngress sample_env p of
      Inl e \<Rightarrow> False
    | Inr r \<Rightarrow> d_decision (ri_ingress r) = V_block \<and> sa_decision (ri_senderAccess r) = V_allow)
   [sample_command_params]"
  by code_simp

text \<open>A route descriptor with \<open>enabled\<close> false is not left out of the graph: it contributes a
  disabled gate that blocks every event, whatever else it says, and no dispatch survives it; only
  \<open>configured\<close> false leaves a descriptor out.\<close>

lemma disabled_route_blocks:
  "route_facts_of (r\<lparr>rd_configured := Some False, rd_enabled := e\<rparr>) = []
   \<and> map rf_effect (route_facts_of (r\<lparr>rd_configured := c, rd_enabled := Some False\<rparr>)) =
       (if c = Some False then [] else [RE_block_dispatch])
   \<and> map rf_gate (route_facts_of (r\<lparr>rd_configured := c, rd_enabled := Some False\<rparr>)) =
       (if c = Some False then [] else [RouteDisabled])"
  by (simp add: route_facts_of_def routeFact_def)

end
