(* ===== verification/Bindings.thy ===== *)
theory Bindings
  imports SessionKeys JsMap
begin

text \<open>
  Agents and route bindings of a configuration: the default agent
  (src/src/agents/agent-scope-config.ts), the configured bindings (src/src/config/bindings.ts),
  channel ids (src/src/channels/ids.ts, src/src/channels/chat-type.ts), binding scopes
  (src/src/routing/binding-scope.ts, peer-kind-match.ts) and the accounts bound to agents
  (src/src/routing/bindings.ts). The channel catalog is read from disk and \<open>localeCompare\<close> comes
  from the platform: both are parameters.
\<close>

section \<open>Configuration\<close>

text \<open>A value of unknown type as an identifier: a string or a number, anything else is \<open>None\<close>.\<close>

type_synonym id_value = "js_entry option"

record BindingPeer =
  bp_kind :: "string option"
  bp_id :: id_value

record AgentBindingMatch =
  bm_channel :: "string option"
  bm_accountId :: "string option"
  bm_peer :: "BindingPeer option"
  bm_guildId :: id_value
  bm_teamId :: id_value
  bm_roles :: "string list option"

record AgentBinding =
  ab_type :: "string option"
  ab_agentId :: string
  ab_match :: "AgentBindingMatch option"
  ab_sessionDmScope :: "DmScope option"

record AgentEntry =
  ag_id :: "string option"
  ag_default :: "bool option"

record RoutingConfig =
  rc_bindings :: "AgentBinding list option"
  rc_agents :: "AgentEntry list option"
  rc_dmScope :: "DmScope option"
  rc_identityLinks :: "identity_links option"

section \<open>Agents (agent-scope-config.ts)\<close>

definition listAgentEntries :: "RoutingConfig \<Rightarrow> AgentEntry list" where
  "listAgentEntries cfg = or_else (rc_agents cfg) []"

definition listAgentIds :: "RoutingConfig \<Rightarrow> string list" where
  "listAgentIds cfg =
    (let agents = listAgentEntries cfg in
     if agents = [] then [DEFAULT_AGENT_ID]
     else let ids = uniq (map (\<lambda>e. normalizeAgentId (ag_id e)) agents)
       in if ids \<noteq> [] then ids else [DEFAULT_AGENT_ID])"

definition resolveDefaultAgentId :: "RoutingConfig \<Rightarrow> string" where
  "resolveDefaultAgentId cfg =
    (let agents = listAgentEntries cfg in
     if agents = [] then DEFAULT_AGENT_ID
     else let defaults = filter (\<lambda>a. ag_default a = Some True) agents;
              chosen = js_trim (or_else (ag_id (if defaults \<noteq> [] then hd defaults else hd agents)) [])
       in normalizeAgentId (Some (or_default chosen DEFAULT_AGENT_ID)))"

definition resolveAgentEntry :: "RoutingConfig \<Rightarrow> string \<Rightarrow> AgentEntry option" where
  "resolveAgentEntry cfg agentId =
    (let i = normalizeAgentId (Some agentId)
     in find (\<lambda>entry. normalizeAgentId (ag_id entry) = i) (listAgentEntries cfg))"

section \<open>Configured bindings (config/bindings.ts)\<close>

datatype BindingType = RouteType | AcpType

definition normalizeBindingType :: "AgentBinding \<Rightarrow> BindingType" where
  "normalizeBindingType binding = (if ab_type binding = Some ''acp'' then AcpType else RouteType)"

definition isRouteBinding :: "AgentBinding \<Rightarrow> bool" where
  "isRouteBinding binding \<longleftrightarrow> normalizeBindingType binding = RouteType"

definition isAcpBinding :: "AgentBinding \<Rightarrow> bool" where
  "isAcpBinding binding \<longleftrightarrow> normalizeBindingType binding = AcpType"

definition listConfiguredBindings :: "RoutingConfig \<Rightarrow> AgentBinding list" where
  "listConfiguredBindings cfg = or_else (rc_bindings cfg) []"

definition listRouteBindings :: "RoutingConfig \<Rightarrow> AgentBinding list" where
  "listRouteBindings cfg = filter isRouteBinding (listConfiguredBindings cfg)"

definition listAcpBindings :: "RoutingConfig \<Rightarrow> AgentBinding list" where
  "listAcpBindings cfg = filter isAcpBinding (listConfiguredBindings cfg)"

section \<open>Channel ids and chat types\<close>

record BundledChatChannelEntry =
  bc_id :: string
  bc_aliases :: "string list"
  bc_order :: int

record ChannelCatalog =
  cat_entries :: "BundledChatChannelEntry list"
  cat_localeCompare :: "string \<Rightarrow> string \<Rightarrow> int"

definition listBundledChatChannelEntries :: "ChannelCatalog \<Rightarrow> BundledChatChannelEntry list" where
  "listBundledChatChannelEntries cat =
    js_sort (\<lambda>l r. if bc_order l - bc_order r \<noteq> 0 then bc_order l - bc_order r
                   else cat_localeCompare cat (bc_id l) (bc_id r))
      (map (\<lambda>e. e\<lparr>bc_id := or_else (normalizeOptionalLowercaseString (Some (bc_id e))) (bc_id e)\<rparr>) (cat_entries cat))"

definition CHAT_CHANNEL_ORDER :: "ChannelCatalog \<Rightarrow> string list" where
  "CHAT_CHANNEL_ORDER cat = map bc_id (listBundledChatChannelEntries cat)"

text \<open>\<open>Object.fromEntries\<close>: the last entry of a key wins.\<close>

definition CHAT_CHANNEL_ALIASES :: "ChannelCatalog \<Rightarrow> (string, string) jsmap" where
  "CHAT_CHANNEL_ALIASES cat =
    foldl (\<lambda>m (alias, i). jm_set alias i m) []
      (concat (map (\<lambda>e. map (\<lambda>alias. (alias, bc_id e)) (bc_aliases e)) (listBundledChatChannelEntries cat)))"

definition listChatChannelAliases :: "ChannelCatalog \<Rightarrow> string list" where
  "listChatChannelAliases cat = jm_keys (CHAT_CHANNEL_ALIASES cat)"

definition normalizeChatChannelId :: "ChannelCatalog \<Rightarrow> string option \<Rightarrow> string option" where
  "normalizeChatChannelId cat raw =
    (case normalizeOptionalLowercaseString raw of
       None \<Rightarrow> None
     | Some normalized \<Rightarrow>
        (let resolved = or_else (jm_get (CHAT_CHANNEL_ALIASES cat) normalized) normalized
         in if resolved \<in> set (CHAT_CHANNEL_ORDER cat) then Some resolved else None))"

definition normalizeChatType :: "string option \<Rightarrow> ChatType option" where
  "normalizeChatType raw =
    (case normalizeOptionalLowercaseString raw of
       None \<Rightarrow> None
     | Some v \<Rightarrow>
        if v = ''direct'' \<or> v = ''dm'' then Some Direct
        else if v = ''group'' then Some Group
        else if v = ''channel'' then Some Channel else None)"

definition peerKindMatches :: "ChatType \<Rightarrow> ChatType \<Rightarrow> bool" where
  "peerKindMatches bindingKind scopeKind \<longleftrightarrow> bindingKind = scopeKind
     \<or> bindingKind = Group \<and> scopeKind = Channel \<or> bindingKind = Channel \<and> scopeKind = Group"

section \<open>Binding scopes (binding-scope.ts)\<close>

definition normalizeRouteBindingId :: "id_value \<Rightarrow> string" where
  "normalizeRouteBindingId v = (case v of None \<Rightarrow> [] | Some e \<Rightarrow> js_trim (js_String e))"

definition normalizeRouteBindingRoles :: "string list option \<Rightarrow> string list option" where
  "normalizeRouteBindingRoles v = (case v of Some rs \<Rightarrow> if rs \<noteq> [] then Some rs else None | None \<Rightarrow> None)"

definition normalizeRouteBindingChannelId :: "ChannelCatalog \<Rightarrow> string option \<Rightarrow> string option" where
  "normalizeRouteBindingChannelId cat raw =
    (case normalizeChatChannelId cat raw of
       Some normalized \<Rightarrow> if normalized \<noteq> [] then Some normalized
         else (let fb = normalizeLowercaseStringOrEmpty raw in if fb \<noteq> [] then Some fb else None)
     | None \<Rightarrow> (let fb = normalizeLowercaseStringOrEmpty raw in if fb \<noteq> [] then Some fb else None))"

record NormalizedRouteBindingMatch =
  nrb_agentId :: string
  nrb_accountId :: string
  nrb_channelId :: string

definition resolveNormalizedRouteBindingMatch ::
  "ChannelCatalog \<Rightarrow> AgentBinding \<Rightarrow> NormalizedRouteBindingMatch option" where
  "resolveNormalizedRouteBindingMatch cat binding =
    (case ab_match binding of None \<Rightarrow> None
     | Some m \<Rightarrow>
        (case normalizeRouteBindingChannelId cat (bm_channel m) of None \<Rightarrow> None
         | Some channelId \<Rightarrow>
            (let accountId = (case bm_accountId m of Some a \<Rightarrow> js_trim a | None \<Rightarrow> []) in
             if accountId = [] \<or> accountId = ''*'' then None
             else Some \<lparr>nrb_agentId = normalizeAgentId (Some (ab_agentId binding)),
                        nrb_accountId = normalizeAccountId (Some accountId),
                        nrb_channelId = channelId\<rparr>)))"

text \<open>The three parts of a scope as the code passes them; the empty string is falsy.\<close>

definition scopeIdMatches :: "string option \<Rightarrow> string \<Rightarrow> string \<Rightarrow> bool" where
  "scopeIdMatches constraint exact groupSpace =
    (case constraint of None \<Rightarrow> True
     | Some c \<Rightarrow> if c = [] then True else c = exact \<or> c = groupSpace)"

definition hasAnyRouteBindingRole :: "string list \<Rightarrow> string list option \<Rightarrow> bool" where
  "hasAnyRouteBindingRole roles memberRoleIds =
    (case memberRoleIds of None \<Rightarrow> False | Some ids \<Rightarrow> list_ex (\<lambda>r. r \<in> set ids) roles)"

record RouteBindingScope =
  sc_guildId :: id_value
  sc_teamId :: id_value
  sc_groupSpace :: id_value
  sc_memberRoleIds :: "string list option"

definition routeBindingScopeMatches ::
  "string option \<Rightarrow> string option \<Rightarrow> string list option \<Rightarrow> RouteBindingScope \<Rightarrow> bool" where
  "routeBindingScopeMatches cGuildId cTeamId cRoles scope =
    (let guildId = normalizeRouteBindingId (sc_guildId scope);
         teamId = normalizeRouteBindingId (sc_teamId scope);
         groupSpace = normalizeRouteBindingId (sc_groupSpace scope) in
     if \<not> scopeIdMatches cGuildId guildId groupSpace then False
     else if \<not> scopeIdMatches cTeamId teamId groupSpace then False
     else (case normalizeRouteBindingRoles cRoles of
         None \<Rightarrow> True | Some roles \<Rightarrow> hasAnyRouteBindingRole roles (sc_memberRoleIds scope)))"

section \<open>Bound accounts (routing/bindings.ts)\<close>

definition listBindings :: "RoutingConfig \<Rightarrow> AgentBinding list" where
  "listBindings cfg = listRouteBindings cfg"

definition listBoundAccountIds :: "ChannelCatalog \<Rightarrow> RoutingConfig \<Rightarrow> string \<Rightarrow> string list" where
  "listBoundAccountIds cat cfg channelId =
    (case normalizeRouteBindingChannelId cat (Some channelId) of None \<Rightarrow> []
     | Some normalizedChannel \<Rightarrow>
        js_sort (cat_localeCompare cat)
          (uniq (map nrb_accountId (filter (\<lambda>r. nrb_channelId r = normalizedChannel)
             (List.map_filter (resolveNormalizedRouteBindingMatch cat) (listBindings cfg))))))"

definition resolveDefaultAgentBoundAccountId :: "ChannelCatalog \<Rightarrow> RoutingConfig \<Rightarrow> string \<Rightarrow> string option" where
  "resolveDefaultAgentBoundAccountId cat cfg channelId =
    (case normalizeRouteBindingChannelId cat (Some channelId) of None \<Rightarrow> None
     | Some normalizedChannel \<Rightarrow>
        (let defaultAgentId = normalizeAgentId (Some (resolveDefaultAgentId cfg)) in
         map_option nrb_accountId (find (\<lambda>r. nrb_channelId r = normalizedChannel \<and> nrb_agentId r = defaultAgentId)
           (List.map_filter (resolveNormalizedRouteBindingMatch cat) (listBindings cfg)))))"

definition add_bound_account ::
  "(string, (string, string list) jsmap) jsmap \<Rightarrow> NormalizedRouteBindingMatch \<Rightarrow> (string, (string, string list) jsmap) jsmap" where
  "add_bound_account m r =
    (let byAgent = or_else (jm_get m (nrb_channelId r)) [];
         accounts = or_else (jm_get byAgent (nrb_agentId r)) [];
         accounts' = (if nrb_accountId r \<in> set accounts then accounts else accounts @ [nrb_accountId r])
     in jm_set (nrb_channelId r) (jm_set (nrb_agentId r) accounts' byAgent) m)"

definition buildChannelAccountBindings ::
  "ChannelCatalog \<Rightarrow> RoutingConfig \<Rightarrow> (string, (string, string list) jsmap) jsmap" where
  "buildChannelAccountBindings cat cfg =
    foldl add_bound_account [] (List.map_filter (resolveNormalizedRouteBindingMatch cat) (listBindings cfg))"

definition resolvePreferredAccountId :: "string list \<Rightarrow> string \<Rightarrow> string list \<Rightarrow> string" where
  "resolvePreferredAccountId accountIds defaultAccountId boundAccounts =
    (if boundAccounts \<noteq> [] then hd boundAccounts else defaultAccountId)"

section \<open>Facts\<close>

lemma normalizeChatType_str [simp]: "normalizeChatType (Some (chat_type_str k)) = Some k"
proof -
  have "normalizeChatType (Some (chat_type_str Direct)) = Some Direct"
    "normalizeChatType (Some (chat_type_str Group)) = Some Group"
    "normalizeChatType (Some (chat_type_str Channel)) = Some Channel"
    by code_simp+
  then show ?thesis by (cases k) simp_all
qed

lemma peerKindMatches_refl [simp]: "peerKindMatches k k"
  by (simp add: peerKindMatches_def)

lemma peerKindMatches_sym: "peerKindMatches a b = peerKindMatches b a"
  by (auto simp: peerKindMatches_def)

lemma scopeIdMatches_exact:
  "c \<noteq> [] \<Longrightarrow> scopeIdMatches (Some c) exact [] \<longleftrightarrow> c = exact"
  by (simp add: scopeIdMatches_def)


definition bound_to ::
  "(string, (string, string list) jsmap) jsmap \<Rightarrow> string \<Rightarrow> string \<Rightarrow> string list" where
  "bound_to m channel agent = or_else (jm_get (or_else (jm_get m channel) []) agent) []"

lemma bound_to_add:
  "set (bound_to (add_bound_account m r) c a) =
     set (bound_to m c a) \<union> (if c = nrb_channelId r \<and> a = nrb_agentId r then {nrb_accountId r} else {})"
  by (auto simp: bound_to_def add_bound_account_def Let_def)

lemma bound_to_distinct: "distinct (bound_to m c a) \<Longrightarrow> distinct (bound_to (add_bound_account m r) c a)"
  by (auto simp: bound_to_def add_bound_account_def Let_def)

lemma bound_to_fold:
  "set (bound_to (foldl add_bound_account m rs) c a) =
     set (bound_to m c a) \<union> {nrb_accountId r | r. r \<in> set rs \<and> nrb_channelId r = c \<and> nrb_agentId r = a}"
proof (induction rs arbitrary: m)
  case (Cons r rs)
  show ?case by (auto simp: Cons bound_to_add split: if_splits)
qed simp

lemma bound_to_fold_distinct:
  "distinct (bound_to m c a) \<Longrightarrow> distinct (bound_to (foldl add_bound_account m rs) c a)"
  by (induction rs arbitrary: m) (simp_all add: bound_to_distinct)

section \<open>Properties\<close>

text \<open>The accounts that \<open>buildChannelAccountBindings\<close> lists for a channel and an agent are,
  without repetition, exactly the accounts of the route bindings that resolve to that channel
  and agent; and the default agent's bound account is one of them.\<close>

lemma channel_account_bindings:
  "distinct (bound_to (buildChannelAccountBindings cat cfg) channel agent)
   \<and> set (bound_to (buildChannelAccountBindings cat cfg) channel agent) =
       {nrb_accountId r | r. r \<in> set (List.map_filter (resolveNormalizedRouteBindingMatch cat) (listBindings cfg))
          \<and> nrb_channelId r = channel \<and> nrb_agentId r = agent}
   \<and> (case (resolveDefaultAgentBoundAccountId cat cfg raw, normalizeRouteBindingChannelId cat (Some raw)) of
        (Some acct, Some ch) \<Rightarrow> acct \<in> set (bound_to (buildChannelAccountBindings cat cfg) ch
            (normalizeAgentId (Some (resolveDefaultAgentId cfg))))
      | (Some acct, None) \<Rightarrow> False
      | (None, _) \<Rightarrow> True)"
proof (intro conjI)
  have set_eq: "set (bound_to (buildChannelAccountBindings cat cfg) c a) =
      {nrb_accountId r | r. r \<in> set (List.map_filter (resolveNormalizedRouteBindingMatch cat) (listBindings cfg))
          \<and> nrb_channelId r = c \<and> nrb_agentId r = a}" for c a
    by (simp add: buildChannelAccountBindings_def bound_to_fold) (simp add: bound_to_def)
  show "distinct (bound_to (buildChannelAccountBindings cat cfg) channel agent)"
    unfolding buildChannelAccountBindings_def by (rule bound_to_fold_distinct) (simp add: bound_to_def)
  show "set (bound_to (buildChannelAccountBindings cat cfg) channel agent) =
      {nrb_accountId r | r. r \<in> set (List.map_filter (resolveNormalizedRouteBindingMatch cat) (listBindings cfg))
          \<and> nrb_channelId r = channel \<and> nrb_agentId r = agent}"
    by (rule set_eq)
  show "case (resolveDefaultAgentBoundAccountId cat cfg raw, normalizeRouteBindingChannelId cat (Some raw)) of
        (Some acct, Some ch) \<Rightarrow> acct \<in> set (bound_to (buildChannelAccountBindings cat cfg) ch
            (normalizeAgentId (Some (resolveDefaultAgentId cfg))))
      | (Some acct, None) \<Rightarrow> False
      | (None, _) \<Rightarrow> True"
    by (auto simp: resolveDefaultAgentBoundAccountId_def set_eq Let_def dest!: find_SomeD split: option.splits)
qed

end
