(* ===== verification/RouteResolver.thy ===== *)
theory RouteResolver
  imports Bindings
begin

text \<open>
  The route of an inbound message (src/src/routing/resolve-route.ts): bindings are evaluated
  once per configuration and indexed per channel and account, a message is matched tier by
  tier (peer, parent peer, peer wildcard, guild and roles, guild, team, account, channel), and
  the session keys of the chosen agent are built. The caches the module keeps per
  configuration object are explicit state; the references they compare are modelled by the
  values, a configuration object being immutable in the source.
\<close>

section \<open>Data\<close>

record RoutePeer =
  rp_kind :: ChatType
  rp_id :: string

record RoutePeerInput =
  rpi_kind :: ChatType
  rpi_id :: id_value

record ResolveAgentRouteInput =
  ri_channel :: "string option"
  ri_accountId :: "string option"
  ri_peer :: "RoutePeerInput option"
  ri_parentPeer :: "RoutePeerInput option"
  ri_guildId :: id_value
  ri_teamId :: id_value
  ri_memberRoleIds :: "string list option"

datatype LastRoutePolicy = LastMain | LastSession

datatype MatchedBy =
  ByPeer | ByPeerParent | ByPeerWildcard | ByGuildRoles | ByGuild | ByTeam | ByAccount | ByChannel | ByDefault

record ResolvedAgentRoute =
  ar_agentId :: string
  ar_channel :: string
  ar_accountId :: string
  ar_sessionKey :: string
  ar_mainSessionKey :: string
  ar_lastRoutePolicy :: LastRoutePolicy
  ar_matchedBy :: MatchedBy

definition deriveLastRoutePolicy :: "string \<Rightarrow> string \<Rightarrow> LastRoutePolicy" where
  "deriveLastRoutePolicy sessionKey mainSessionKey = (if sessionKey = mainSessionKey then LastMain else LastSession)"

definition resolveInboundLastRouteSessionKey :: "LastRoutePolicy \<Rightarrow> string \<Rightarrow> string \<Rightarrow> string" where
  "resolveInboundLastRouteSessionKey lastRoutePolicy mainSessionKey sessionKey =
    (if lastRoutePolicy = LastMain then mainSessionKey else sessionKey)"

definition normalizeId :: "id_value \<Rightarrow> string" where
  "normalizeId v = normalizeRouteBindingId v"

definition buildAgentSessionKey ::
  "string \<Rightarrow> string \<Rightarrow> string option \<Rightarrow> RoutePeer option \<Rightarrow> DmScope option \<Rightarrow> identity_links option \<Rightarrow> string" where
  "buildAgentSessionKey agentId channel accountId peer dmScope identityLinks =
    buildAgentPeerSessionKey \<lparr>pp_agentId = agentId, pp_mainKey = Some DEFAULT_MAIN_KEY,
      pp_channel = or_default (normalizeToken (Some channel)) ''unknown'', pp_accountId = accountId,
      pp_peerKind = Some (case peer of None \<Rightarrow> Direct | Some p \<Rightarrow> rp_kind p),
      pp_peerId = (case peer of None \<Rightarrow> None
        | Some p \<Rightarrow> Some (or_default (normalizeId (Some (EStr (rp_id p)))) ''unknown'')),
      pp_identityLinks = identityLinks, pp_dmScope = dmScope\<rparr>"

section \<open>Agent lookup\<close>

definition listAgents :: "RoutingConfig \<Rightarrow> AgentEntry list" where
  "listAgents cfg = or_else (rc_agents cfg) []"

record AgentLookup =
  lk_byNormalizedId :: "(string, string) jsmap"
  lk_fallbackDefaultAgentId :: string

definition add_agent :: "(string, string) jsmap \<Rightarrow> AgentEntry \<Rightarrow> (string, string) jsmap" where
  "add_agent m agent =
    (let rawId = js_trim (or_else (ag_id agent) []) in
     if rawId = [] then m else jm_set (normalizeAgentId (Some rawId)) (sanitizeAgentId (Some rawId)) m)"

definition agent_lookup :: "RoutingConfig \<Rightarrow> AgentLookup" where
  "agent_lookup cfg =
    \<lparr>lk_byNormalizedId = foldl add_agent [] (listAgents cfg),
     lk_fallbackDefaultAgentId = sanitizeAgentId (Some (resolveDefaultAgentId cfg))\<rparr>"

type_synonym AgentLookupCache = "(AgentEntry list option \<times> AgentLookup) option"

definition resolveAgentLookupCache :: "RoutingConfig \<Rightarrow> AgentLookupCache \<Rightarrow> AgentLookup \<times> AgentLookupCache" where
  "resolveAgentLookupCache cfg cache =
    (case cache of
       Some (agentsRef, lookup) \<Rightarrow>
         if agentsRef = rc_agents cfg then (lookup, cache)
         else (agent_lookup cfg, Some (rc_agents cfg, agent_lookup cfg))
     | None \<Rightarrow> (agent_lookup cfg, Some (rc_agents cfg, agent_lookup cfg)))"

definition pick_in_lookup :: "AgentLookup \<Rightarrow> string \<Rightarrow> string" where
  "pick_in_lookup lookup agentId =
    (let t = js_trim agentId in
     if t = [] then lk_fallbackDefaultAgentId lookup
     else if lk_byNormalizedId lookup = [] then sanitizeAgentId (Some t)
     else (case jm_get (lk_byNormalizedId lookup) (normalizeAgentId (Some t)) of
         Some resolved \<Rightarrow> if resolved \<noteq> [] then resolved else lk_fallbackDefaultAgentId lookup
       | None \<Rightarrow> lk_fallbackDefaultAgentId lookup))"

definition pickFirstExistingAgentId ::
  "RoutingConfig \<Rightarrow> string \<Rightarrow> AgentLookupCache \<Rightarrow> string \<times> AgentLookupCache" where
  "pickFirstExistingAgentId cfg agentId cache =
    (let (lookup, cache') = resolveAgentLookupCache cfg cache in (pick_in_lookup lookup agentId, cache'))"

section \<open>Evaluated bindings\<close>

datatype NormalizedPeerConstraint =
  PeerNone | PeerInvalid | PeerWildcardKind ChatType | PeerValid ChatType string

record NormalizedBindingMatch =
  nm_accountPattern :: string
  nm_peer :: NormalizedPeerConstraint
  nm_guildId :: "string option"
  nm_teamId :: "string option"
  nm_roles :: "string list option"

record EvaluatedBinding =
  eb_binding :: AgentBinding
  eb_match :: NormalizedBindingMatch
  eb_order :: nat

record BindingScope =
  bs_peer :: "RoutePeer option"
  bs_guildId :: string
  bs_teamId :: string
  bs_memberRoleIds :: "string list"

definition normalizePeerConstraint :: "BindingPeer option \<Rightarrow> NormalizedPeerConstraint" where
  "normalizePeerConstraint peer =
    (case peer of None \<Rightarrow> PeerNone
     | Some p \<Rightarrow>
        (let i = normalizeId (bp_id p) in
         case normalizeChatType (bp_kind p) of None \<Rightarrow> PeerInvalid
         | Some kind \<Rightarrow> if i = [] then PeerInvalid else if i = ''*'' then PeerWildcardKind kind else PeerValid kind i))"

definition non_empty :: "string \<Rightarrow> string option" where
  "non_empty s = (if s = [] then None else Some s)"

definition normalizeBindingMatch :: "AgentBindingMatch option \<Rightarrow> NormalizedBindingMatch" where
  "normalizeBindingMatch m =
    \<lparr>nm_accountPattern = js_trim (or_else (Option.bind m bm_accountId) []),
     nm_peer = normalizePeerConstraint (Option.bind m bm_peer),
     nm_guildId = non_empty (normalizeId (Option.bind m bm_guildId)),
     nm_teamId = non_empty (normalizeId (Option.bind m bm_teamId)),
     nm_roles = normalizeRouteBindingRoles (Option.bind m bm_roles)\<rparr>"

definition resolveAccountPatternKey :: "string \<Rightarrow> string" where
  "resolveAccountPatternKey accountPattern =
    (if js_trim accountPattern = [] then DEFAULT_ACCOUNT_ID else normalizeAccountId (Some accountPattern))"

record EvaluatedBindingsByChannel =
  bch_byAccount :: "(string, EvaluatedBinding list) jsmap"
  bch_byAnyAccount :: "EvaluatedBinding list"

definition push_map :: "('k, 'v list) jsmap \<Rightarrow> 'k \<Rightarrow> 'v \<Rightarrow> ('k, 'v list) jsmap" where
  "push_map m k v = (case jm_get m k of None \<Rightarrow> jm_set k [v] m | Some xs \<Rightarrow> jm_set k (xs @ [v]) m)"

definition add_evaluated ::
  "(string, EvaluatedBindingsByChannel) jsmap \<times> nat \<Rightarrow> AgentBinding
    \<Rightarrow> (string, EvaluatedBindingsByChannel) jsmap \<times> nat" where
  "add_evaluated acc binding =
    (case acc of (byChannel, order) \<Rightarrow>
      (let channel = normalizeToken (Option.bind (ab_match binding) bm_channel) in
       if channel = [] then (byChannel, order)
       else
         (let m = normalizeBindingMatch (ab_match binding);
              evaluated = \<lparr>eb_binding = binding, eb_match = m, eb_order = order\<rparr>;
              bucket = or_else (jm_get byChannel channel) \<lparr>bch_byAccount = [], bch_byAnyAccount = []\<rparr>;
              bucket' = (if nm_accountPattern m = ''*''
                then bucket\<lparr>bch_byAnyAccount := bch_byAnyAccount bucket @ [evaluated]\<rparr>
                else bucket\<lparr>bch_byAccount := push_map (bch_byAccount bucket)
                       (resolveAccountPatternKey (nm_accountPattern m)) evaluated\<rparr>)
          in (jm_set channel bucket' byChannel, order + 1))))"

definition buildEvaluatedBindingsByChannel :: "RoutingConfig \<Rightarrow> (string, EvaluatedBindingsByChannel) jsmap" where
  "buildEvaluatedBindingsByChannel cfg = fst (foldl add_evaluated ([], 0) (listBindings cfg))"

fun merge_by_order :: "EvaluatedBinding list \<Rightarrow> EvaluatedBinding list \<Rightarrow> EvaluatedBinding list" where
  "merge_by_order [] ys = ys"
| "merge_by_order xs [] = xs"
| "merge_by_order (x # xs) (y # ys) =
     (if eb_order x \<le> eb_order y then x # merge_by_order xs (y # ys) else y # merge_by_order (x # xs) ys)"

definition mergeEvaluatedBindingsInSourceOrder ::
  "EvaluatedBinding list \<Rightarrow> EvaluatedBinding list \<Rightarrow> EvaluatedBinding list" where
  "mergeEvaluatedBindingsInSourceOrder accountScoped anyAccount =
    (if accountScoped = [] then anyAccount else if anyAccount = [] then accountScoped
     else merge_by_order accountScoped anyAccount)"

section \<open>The index\<close>

record EvaluatedBindingsIndex =
  ix_byPeer :: "(string, EvaluatedBinding list) jsmap"
  ix_byPeerWildcard :: "EvaluatedBinding list"
  ix_byGuildWithRoles :: "(string, EvaluatedBinding list) jsmap"
  ix_byGuild :: "(string, EvaluatedBinding list) jsmap"
  ix_byTeam :: "(string, EvaluatedBinding list) jsmap"
  ix_byAccount :: "EvaluatedBinding list"
  ix_byChannel :: "EvaluatedBinding list"

definition pushToIndexMap ::
  "(string, EvaluatedBinding list) jsmap \<Rightarrow> string option \<Rightarrow> EvaluatedBinding \<Rightarrow> (string, EvaluatedBinding list) jsmap" where
  "pushToIndexMap m key binding =
    (case key of None \<Rightarrow> m | Some k \<Rightarrow> if k = [] then m else push_map m k binding)"

definition peer_key :: "ChatType \<Rightarrow> string \<Rightarrow> string" where
  "peer_key kind i = chat_type_str kind @ '':'' @ i"

definition peerLookupKeys :: "ChatType \<Rightarrow> string \<Rightarrow> string list" where
  "peerLookupKeys kind i =
    (case kind of Group \<Rightarrow> [peer_key Group i, peer_key Channel i]
     | Channel \<Rightarrow> [peer_key Channel i, peer_key Group i]
     | Direct \<Rightarrow> [peer_key Direct i])"

text \<open>\<open>seen\<close> holds objects; the order of a binding identifies its object.\<close>

definition add_unseen :: "EvaluatedBinding list \<Rightarrow> EvaluatedBinding \<Rightarrow> EvaluatedBinding list" where
  "add_unseen out m = (if eb_order m \<in> set (map eb_order out) then out else out @ [m])"

definition collectPeerIndexedBindings ::
  "EvaluatedBindingsIndex \<Rightarrow> RoutePeer option \<Rightarrow> EvaluatedBinding list" where
  "collectPeerIndexedBindings index peer =
    (case peer of None \<Rightarrow> []
     | Some p \<Rightarrow> foldl add_unseen []
         (concat (map (\<lambda>key. or_else (jm_get (ix_byPeer index) key) []) (peerLookupKeys (rp_kind p) (rp_id p)))))"

definition empty_index :: EvaluatedBindingsIndex where
  "empty_index = \<lparr>ix_byPeer = [], ix_byPeerWildcard = [], ix_byGuildWithRoles = [], ix_byGuild = [],
     ix_byTeam = [], ix_byAccount = [], ix_byChannel = []\<rparr>"

definition index_binding :: "EvaluatedBindingsIndex \<Rightarrow> EvaluatedBinding \<Rightarrow> EvaluatedBindingsIndex" where
  "index_binding ix b =
    (let m = eb_match b in
     case nm_peer m of
       PeerValid kind i \<Rightarrow>
         ix\<lparr>ix_byPeer := foldl (\<lambda>mp key. pushToIndexMap mp (Some key) b) (ix_byPeer ix) (peerLookupKeys kind i)\<rparr>
     | PeerWildcardKind kind \<Rightarrow> ix\<lparr>ix_byPeerWildcard := ix_byPeerWildcard ix @ [b]\<rparr>
     | _ \<Rightarrow>
         if nm_guildId m \<noteq> None \<and> nm_roles m \<noteq> None
         then ix\<lparr>ix_byGuildWithRoles := pushToIndexMap (ix_byGuildWithRoles ix) (nm_guildId m) b\<rparr>
         else if nm_guildId m \<noteq> None \<and> nm_roles m = None
         then ix\<lparr>ix_byGuild := pushToIndexMap (ix_byGuild ix) (nm_guildId m) b\<rparr>
         else if nm_teamId m \<noteq> None
         then ix\<lparr>ix_byTeam := pushToIndexMap (ix_byTeam ix) (nm_teamId m) b\<rparr>
         else if nm_accountPattern m \<noteq> ''*''
         then ix\<lparr>ix_byAccount := ix_byAccount ix @ [b]\<rparr>
         else ix\<lparr>ix_byChannel := ix_byChannel ix @ [b]\<rparr>)"

definition buildEvaluatedBindingsIndex :: "EvaluatedBinding list \<Rightarrow> EvaluatedBindingsIndex" where
  "buildEvaluatedBindingsIndex bindings = foldl index_binding empty_index bindings"
section \<open>Matching\<close>

definition hasGuildConstraint :: "NormalizedBindingMatch \<Rightarrow> bool" where
  "hasGuildConstraint m \<longleftrightarrow> nm_guildId m \<noteq> None"

definition hasTeamConstraint :: "NormalizedBindingMatch \<Rightarrow> bool" where
  "hasTeamConstraint m \<longleftrightarrow> nm_teamId m \<noteq> None"

definition hasRolesConstraint :: "NormalizedBindingMatch \<Rightarrow> bool" where
  "hasRolesConstraint m \<longleftrightarrow> nm_roles m \<noteq> None"

definition binding_scope_of :: "BindingScope \<Rightarrow> RouteBindingScope" where
  "binding_scope_of scope =
    \<lparr>sc_guildId = Some (EStr (bs_guildId scope)), sc_teamId = Some (EStr (bs_teamId scope)),
     sc_groupSpace = None, sc_memberRoleIds = Some (bs_memberRoleIds scope)\<rparr>"

definition matchesBindingScope :: "NormalizedBindingMatch \<Rightarrow> BindingScope \<Rightarrow> bool" where
  "matchesBindingScope m scope =
    ((case nm_peer m of
        PeerInvalid \<Rightarrow> False
      | PeerValid kind i \<Rightarrow> (case bs_peer scope of None \<Rightarrow> False
          | Some p \<Rightarrow> peerKindMatches kind (rp_kind p) \<and> rp_id p = i)
      | PeerWildcardKind kind \<Rightarrow> (case bs_peer scope of None \<Rightarrow> False
          | Some p \<Rightarrow> peerKindMatches kind (rp_kind p))
      | PeerNone \<Rightarrow> True)
     \<and> routeBindingScopeMatches (nm_guildId m) (nm_teamId m) (nm_roles m) (binding_scope_of scope))"

text \<open>The input after normalisation.\<close>

record RouteQuery =
  rq_channel :: string
  rq_accountId :: string
  rq_peer :: "RoutePeer option"
  rq_parentPeer :: "RoutePeer option"
  rq_guildId :: string
  rq_teamId :: string
  rq_memberRoleIds :: "string list"

definition normalize_peer :: "RoutePeerInput option \<Rightarrow> RoutePeer option" where
  "normalize_peer peer = map_option (\<lambda>p.
     \<lparr>rp_kind = or_else (normalizeChatType (Some (chat_type_str (rpi_kind p)))) (rpi_kind p),
      rp_id = normalizeId (rpi_id p)\<rparr>) peer"

definition route_query :: "ResolveAgentRouteInput \<Rightarrow> RouteQuery" where
  "route_query input =
    \<lparr>rq_channel = normalizeToken (ri_channel input), rq_accountId = normalizeAccountId (ri_accountId input),
     rq_peer = normalize_peer (ri_peer input), rq_parentPeer = normalize_peer (ri_parentPeer input),
     rq_guildId = normalizeId (ri_guildId input), rq_teamId = normalizeId (ri_teamId input),
     rq_memberRoleIds = or_else (ri_memberRoleIds input) []\<rparr>"

record RouteTier =
  rt_matchedBy :: MatchedBy
  rt_enabled :: bool
  rt_scopePeer :: "RoutePeer option"
  rt_candidates :: "EvaluatedBinding list"
  rt_predicate :: "EvaluatedBinding \<Rightarrow> bool"

definition peer_valid :: "EvaluatedBinding \<Rightarrow> bool" where
  "peer_valid b = (case nm_peer (eb_match b) of PeerValid _ _ \<Rightarrow> True | _ \<Rightarrow> False)"

definition peer_wildcard :: "EvaluatedBinding \<Rightarrow> bool" where
  "peer_wildcard b = (case nm_peer (eb_match b) of PeerWildcardKind _ \<Rightarrow> True | _ \<Rightarrow> False)"

definition parent_scope :: "RouteQuery \<Rightarrow> RoutePeer option" where
  "parent_scope q = (case rq_parentPeer q of None \<Rightarrow> None | Some p \<Rightarrow> if rp_id p = [] then None else Some p)"

definition route_tiers :: "EvaluatedBindingsIndex \<Rightarrow> RouteQuery \<Rightarrow> RouteTier list" where
  "route_tiers ix q =
    [\<lparr>rt_matchedBy = ByPeer, rt_enabled = (rq_peer q \<noteq> None), rt_scopePeer = rq_peer q,
      rt_candidates = collectPeerIndexedBindings ix (rq_peer q), rt_predicate = peer_valid\<rparr>,
     \<lparr>rt_matchedBy = ByPeerParent, rt_enabled = (parent_scope q \<noteq> None), rt_scopePeer = parent_scope q,
      rt_candidates = collectPeerIndexedBindings ix (rq_parentPeer q), rt_predicate = peer_valid\<rparr>,
     \<lparr>rt_matchedBy = ByPeerWildcard, rt_enabled = (rq_peer q \<noteq> None), rt_scopePeer = rq_peer q,
      rt_candidates = ix_byPeerWildcard ix, rt_predicate = peer_wildcard\<rparr>,
     \<lparr>rt_matchedBy = ByGuildRoles, rt_enabled = (rq_guildId q \<noteq> [] \<and> rq_memberRoleIds q \<noteq> []), rt_scopePeer = rq_peer q,
      rt_candidates = (if rq_guildId q \<noteq> [] then or_else (jm_get (ix_byGuildWithRoles ix) (rq_guildId q)) [] else []),
      rt_predicate = (\<lambda>b. hasGuildConstraint (eb_match b) \<and> hasRolesConstraint (eb_match b))\<rparr>,
     \<lparr>rt_matchedBy = ByGuild, rt_enabled = (rq_guildId q \<noteq> []), rt_scopePeer = rq_peer q,
      rt_candidates = (if rq_guildId q \<noteq> [] then or_else (jm_get (ix_byGuild ix) (rq_guildId q)) [] else []),
      rt_predicate = (\<lambda>b. hasGuildConstraint (eb_match b) \<and> \<not> hasRolesConstraint (eb_match b))\<rparr>,
     \<lparr>rt_matchedBy = ByTeam, rt_enabled = (rq_teamId q \<noteq> []), rt_scopePeer = rq_peer q,
      rt_candidates = (if rq_teamId q \<noteq> [] then or_else (jm_get (ix_byTeam ix) (rq_teamId q)) [] else []),
      rt_predicate = (\<lambda>b. hasTeamConstraint (eb_match b))\<rparr>,
     \<lparr>rt_matchedBy = ByAccount, rt_enabled = True, rt_scopePeer = rq_peer q,
      rt_candidates = ix_byAccount ix, rt_predicate = (\<lambda>b. nm_accountPattern (eb_match b) \<noteq> ''*'')\<rparr>,
     \<lparr>rt_matchedBy = ByChannel, rt_enabled = True, rt_scopePeer = rq_peer q,
      rt_candidates = ix_byChannel ix, rt_predicate = (\<lambda>b. nm_accountPattern (eb_match b) = ''*'')\<rparr>]"

definition tier_matches :: "RouteQuery \<Rightarrow> RouteTier \<Rightarrow> EvaluatedBinding \<Rightarrow> bool" where
  "tier_matches q tier b \<longleftrightarrow> rt_predicate tier b \<and> matchesBindingScope (eb_match b)
     \<lparr>bs_peer = rt_scopePeer tier, bs_guildId = rq_guildId q, bs_teamId = rq_teamId q,
      bs_memberRoleIds = rq_memberRoleIds q\<rparr>"

fun first_tier_match :: "RouteQuery \<Rightarrow> RouteTier list \<Rightarrow> (EvaluatedBinding \<times> MatchedBy) option" where
  "first_tier_match q [] = None"
| "first_tier_match q (tier # tiers) =
     (if \<not> rt_enabled tier then first_tier_match q tiers
      else (case find (tier_matches q tier) (rt_candidates tier) of
          Some b \<Rightarrow> Some (b, rt_matchedBy tier)
        | None \<Rightarrow> first_tier_match q tiers))"

section \<open>The route\<close>

definition choose_route ::
  "RoutingConfig \<Rightarrow> RouteQuery \<Rightarrow> string \<Rightarrow> MatchedBy \<Rightarrow> DmScope option \<Rightarrow> ResolvedAgentRoute" where
  "choose_route cfg q resolvedAgentId matchedBy overrideScope =
    (let dmScope = or_else (rc_dmScope cfg) ScopeMain;
         effectiveDmScope = or_else overrideScope dmScope;
         sessionKey = buildAgentSessionKey resolvedAgentId (rq_channel q) (Some (rq_accountId q)) (rq_peer q)
           (Some effectiveDmScope) (rc_identityLinks cfg);
         mainSessionKey = normalizeLowercaseStringOrEmpty
           (Some (buildAgentMainSessionKey resolvedAgentId (Some DEFAULT_MAIN_KEY)))
     in \<lparr>ar_agentId = resolvedAgentId, ar_channel = rq_channel q, ar_accountId = rq_accountId q,
         ar_sessionKey = sessionKey, ar_mainSessionKey = mainSessionKey,
         ar_lastRoutePolicy = deriveLastRoutePolicy sessionKey mainSessionKey, ar_matchedBy = matchedBy\<rparr>)"

text \<open>The agent, the matching tier and the session override the tiers select.\<close>

definition selected_agent ::
  "RoutingConfig \<Rightarrow> EvaluatedBindingsIndex \<Rightarrow> RouteQuery \<Rightarrow> string \<times> MatchedBy \<times> DmScope option" where
  "selected_agent cfg ix q =
    (case first_tier_match q (route_tiers ix q) of
       Some (b, by) \<Rightarrow> (ab_agentId (eb_binding b), by, ab_sessionDmScope (eb_binding b))
     | None \<Rightarrow> (resolveDefaultAgentId cfg, ByDefault, None))"

section \<open>Caches\<close>

definition MAX_EVALUATED_BINDINGS_CACHE_KEYS :: nat where "MAX_EVALUATED_BINDINGS_CACHE_KEYS = 2000"

definition MAX_RESOLVED_ROUTE_CACHE_KEYS :: nat where "MAX_RESOLVED_ROUTE_CACHE_KEYS = 4000"

abbreviation (input) tab :: string where "tab \<equiv> [CHR 0x09]"

record EvaluatedBindingsCache =
  ec_bindingsRef :: "AgentBinding list option"
  ec_byChannel :: "(string, EvaluatedBindingsByChannel) jsmap"
  ec_byChannelAccount :: "(string, EvaluatedBinding list) jsmap"
  ec_byChannelAccountIndex :: "(string, EvaluatedBindingsIndex) jsmap"

record ResolvedRouteCache =
  rc_bindingsRef :: "AgentBinding list option"
  rc_agentsRef :: "AgentEntry list option"
  rc_sessionRef :: "DmScope option \<times> identity_links option"
  rc_byKey :: "(string, ResolvedAgentRoute) jsmap"

record RouterState =
  rs_agents :: AgentLookupCache
  rs_evaluated :: "EvaluatedBindingsCache option"
  rs_routes :: "ResolvedRouteCache option"

definition empty_router :: RouterState where
  "empty_router = \<lparr>rs_agents = None, rs_evaluated = None, rs_routes = None\<rparr>"

definition channel_bindings ::
  "(string, EvaluatedBindingsByChannel) jsmap \<Rightarrow> string \<Rightarrow> string \<Rightarrow> EvaluatedBinding list" where
  "channel_bindings byChannel channel accountId =
    (let channelBindings = jm_get byChannel channel;
         accountScoped = or_else (case channelBindings of None \<Rightarrow> None | Some c \<Rightarrow> jm_get (bch_byAccount c) accountId) [];
         anyAccount = or_else (map_option bch_byAnyAccount channelBindings) []
     in mergeEvaluatedBindingsInSourceOrder accountScoped anyAccount)"

definition evaluated_cache_for :: "RoutingConfig \<Rightarrow> EvaluatedBindingsCache option \<Rightarrow> EvaluatedBindingsCache" where
  "evaluated_cache_for cfg existing =
    (let fresh = \<lparr>ec_bindingsRef = rc_bindings cfg, ec_byChannel = buildEvaluatedBindingsByChannel cfg,
                  ec_byChannelAccount = [], ec_byChannelAccountIndex = []\<rparr>
     in case existing of None \<Rightarrow> fresh
        | Some c \<Rightarrow> if ec_bindingsRef c = rc_bindings cfg then c else fresh)"

definition getEvaluatedBindingsForChannelAccount ::
  "RoutingConfig \<Rightarrow> EvaluatedBindingsCache option \<Rightarrow> string \<Rightarrow> string
    \<Rightarrow> EvaluatedBinding list \<times> EvaluatedBindingsCache" where
  "getEvaluatedBindingsForChannelAccount cfg existing channel accountId =
    (let cache = evaluated_cache_for cfg existing; cacheKey = channel @ tab @ accountId in
     case jm_get (ec_byChannelAccount cache) cacheKey of
       Some hit \<Rightarrow> (hit, cache)
     | None \<Rightarrow>
        (let evaluated = channel_bindings (ec_byChannel cache) channel accountId;
             byAccount = jm_set cacheKey evaluated (ec_byChannelAccount cache);
             byIndex = jm_set cacheKey (buildEvaluatedBindingsIndex evaluated) (ec_byChannelAccountIndex cache)
         in (evaluated,
             if length byAccount > MAX_EVALUATED_BINDINGS_CACHE_KEYS
             then cache\<lparr>ec_byChannelAccount := [(cacheKey, evaluated)],
                        ec_byChannelAccountIndex := [(cacheKey, buildEvaluatedBindingsIndex evaluated)]\<rparr>
             else cache\<lparr>ec_byChannelAccount := byAccount, ec_byChannelAccountIndex := byIndex\<rparr>)))"

definition getEvaluatedBindingIndexForChannelAccount ::
  "RoutingConfig \<Rightarrow> EvaluatedBindingsCache option \<Rightarrow> string \<Rightarrow> string
    \<Rightarrow> EvaluatedBindingsIndex \<times> EvaluatedBindingsCache" where
  "getEvaluatedBindingIndexForChannelAccount cfg existing channel accountId =
    (let (bindings, cache) = getEvaluatedBindingsForChannelAccount cfg existing channel accountId;
         cacheKey = channel @ tab @ accountId in
     case jm_get (ec_byChannelAccountIndex cache) cacheKey of
       Some indexed \<Rightarrow> (indexed, cache)
     | None \<Rightarrow>
        (let built = buildEvaluatedBindingsIndex bindings
         in (built, cache\<lparr>ec_byChannelAccountIndex := jm_set cacheKey built (ec_byChannelAccountIndex cache)\<rparr>)))"

definition resolveRouteCacheForConfig :: "RoutingConfig \<Rightarrow> ResolvedRouteCache option \<Rightarrow> ResolvedRouteCache" where
  "resolveRouteCacheForConfig cfg existing =
    (let fresh = \<lparr>rc_bindingsRef = rc_bindings cfg, rc_agentsRef = rc_agents cfg,
                  rc_sessionRef = (rc_dmScope cfg, rc_identityLinks cfg), rc_byKey = []\<rparr>
     in case existing of None \<Rightarrow> fresh
        | Some c \<Rightarrow> if rc_bindingsRef c = rc_bindings cfg \<and> rc_agentsRef c = rc_agents cfg
              \<and> rc_sessionRef c = (rc_dmScope cfg, rc_identityLinks cfg) then c else fresh)"

definition formatRouteCachePeer :: "RoutePeer option \<Rightarrow> string" where
  "formatRouteCachePeer peer =
    (case peer of None \<Rightarrow> ''-'' | Some p \<Rightarrow> if rp_id p = [] then ''-'' else peer_key (rp_kind p) (rp_id p))"

definition formatRoleIdsCacheKey :: "string list \<Rightarrow> string" where
  "formatRoleIdsCacheKey roleIds =
    (case roleIds of
       [] \<Rightarrow> ''-''
     | [a] \<Rightarrow> a
     | [a, b] \<Rightarrow> (if str_cmp a b \<le> 0 then a @ '','' @ b else b @ '','' @ a)
     | _ \<Rightarrow> join_with '','' (js_sort str_cmp roleIds))"

definition dm_scope_str :: "DmScope \<Rightarrow> string" where
  "dm_scope_str s = (case s of ScopeMain \<Rightarrow> ''main'' | PerPeer \<Rightarrow> ''per-peer'' | PerChannelPeer \<Rightarrow> ''per-channel-peer''
     | PerAccountChannelPeer \<Rightarrow> ''per-account-channel-peer'')"

definition buildResolvedRouteCacheKey :: "RouteQuery \<Rightarrow> DmScope \<Rightarrow> string" where
  "buildResolvedRouteCacheKey q dmScope =
    rq_channel q @ tab @ rq_accountId q @ tab @ formatRouteCachePeer (rq_peer q) @ tab
    @ formatRouteCachePeer (rq_parentPeer q) @ tab @ or_default (rq_guildId q) ''-'' @ tab
    @ or_default (rq_teamId q) ''-'' @ tab @ formatRoleIdsCacheKey (rq_memberRoleIds q) @ tab @ dm_scope_str dmScope"

definition store_route :: "string \<Rightarrow> ResolvedAgentRoute \<Rightarrow> ResolvedRouteCache \<Rightarrow> ResolvedRouteCache" where
  "store_route key route cache =
    (let byKey = jm_set key route (rc_byKey cache)
     in cache\<lparr>rc_byKey := if length byKey > MAX_RESOLVED_ROUTE_CACHE_KEYS then [(key, route)] else byKey\<rparr>)"

definition resolveAgentRoute ::
  "bool \<Rightarrow> RoutingConfig \<Rightarrow> ResolveAgentRouteInput \<Rightarrow> RouterState \<Rightarrow> ResolvedAgentRoute \<times> RouterState" where
  "resolveAgentRoute shouldLogDebug cfg input st =
    (let q = route_query input;
         dmScope = or_else (rc_dmScope cfg) ScopeMain;
         useCache = (\<not> shouldLogDebug \<and> rc_identityLinks cfg = None);
         st = (if useCache then st\<lparr>rs_routes := Some (resolveRouteCacheForConfig cfg (rs_routes st))\<rparr> else st);
         routeCacheKey = buildResolvedRouteCacheKey q dmScope;
         cached = (if useCache then jm_get (rc_byKey (the (rs_routes st))) routeCacheKey else None)
     in case cached of
          Some route \<Rightarrow> (route, st)
        | None \<Rightarrow>
           (let (bindings, ec) = getEvaluatedBindingsForChannelAccount cfg (rs_evaluated st) (rq_channel q) (rq_accountId q);
                (ix, ec) = getEvaluatedBindingIndexForChannelAccount cfg (Some ec) (rq_channel q) (rq_accountId q);
                (agentId, by, scope) = selected_agent cfg ix q;
                (resolvedAgentId, lookupCache) = pickFirstExistingAgentId cfg agentId (rs_agents st);
                route = choose_route cfg q resolvedAgentId by scope;
                routes = (if useCache then Some (store_route routeCacheKey route (the (rs_routes st))) else rs_routes st)
            in (route, \<lparr>rs_agents = lookupCache, rs_evaluated = Some ec, rs_routes = routes\<rparr>)))"

section \<open>The index\<close>

text \<open>The list kept under a key; an absent key holds the empty list.\<close>

definition bucket :: "('k, 'v list) jsmap \<Rightarrow> 'k \<Rightarrow> 'v list" where
  "bucket m k = or_else (jm_get m k) []"

lemma bucket_empty [simp]: "bucket [] k = []"
  by (simp add: bucket_def)

lemma bucket_push [simp]: "bucket (push_map m k v) k' = bucket m k' @ (if k' = k then [v] else [])"
  by (auto simp: bucket_def push_map_def split: option.splits)

lemma bucket_push_index [simp]:
  "bucket (pushToIndexMap m key b) k' = bucket m k' @ (if key = Some k' \<and> k' \<noteq> [] then [b] else [])"
  by (auto simp: pushToIndexMap_def split: option.splits)

lemma chat_type_str_inj: "chat_type_str k = chat_type_str k' \<Longrightarrow> k = k'"
  by (cases k; cases k') (simp_all add: chat_type_str_def)

lemma chat_type_str_no_colon: "CHR '':'' \<notin> set (chat_type_str k)"
  by (cases k) (simp_all add: chat_type_str_def)

lemma sep_split_unique:
  "c \<notin> set a \<Longrightarrow> c \<notin> set b \<Longrightarrow> a @ c # x = b @ c # y \<Longrightarrow> a = b \<and> x = y"
proof (induction a arbitrary: b)
  case Nil
  then show ?case by (cases b) auto
next
  case (Cons d a)
  then obtain b' where b: "b = d # b'" by (cases b) auto
  show ?case using Cons.IH [of b'] Cons.prems unfolding b by simp
qed

lemma peer_key_inj: "peer_key k i = peer_key k' i' \<longleftrightarrow> k = k' \<and> i = i'"
proof
  assume "peer_key k i = peer_key k' i'"
  then have "chat_type_str k = chat_type_str k' \<and> i = i'"
    by (intro sep_split_unique [OF chat_type_str_no_colon chat_type_str_no_colon]) (simp add: peer_key_def)
  then show "k = k' \<and> i = i'" using chat_type_str_inj by blast
qed simp

lemma peer_key_nonempty: "peer_key k i \<noteq> []"
  by (cases k) (simp_all add: peer_key_def chat_type_str_def)

definition same_peer :: "RoutePeer \<Rightarrow> EvaluatedBinding \<Rightarrow> bool" where
  "same_peer p b =
    (case nm_peer (eb_match b) of PeerValid k i \<Rightarrow> peerKindMatches k (rp_kind p) \<and> i = rp_id p | _ \<Rightarrow> False)"

definition no_peer :: "EvaluatedBinding \<Rightarrow> bool" where
  "no_peer b \<longleftrightarrow> \<not> peer_valid b \<and> \<not> peer_wildcard b"

text \<open>Where the index puts a binding.\<close>

lemma fold_component:
  assumes "\<And>ix b. f (index_binding ix b) = f ix @ (if P b then [b] else [])"
  shows "f (foldl index_binding ix bs) = f ix @ filter P bs"
  by (induction bs arbitrary: ix) (simp_all add: assms)

lemma index_wildcard: "ix_byPeerWildcard (buildEvaluatedBindingsIndex bs) = filter peer_wildcard bs"
  unfolding buildEvaluatedBindingsIndex_def
  by (subst fold_component [where P = peer_wildcard])
    (auto simp: index_binding_def peer_wildcard_def empty_index_def Let_def split: NormalizedPeerConstraint.splits)

lemma index_account:
  "ix_byAccount (buildEvaluatedBindingsIndex bs) = filter (\<lambda>b. no_peer b \<and> nm_guildId (eb_match b) = None
     \<and> nm_teamId (eb_match b) = None \<and> nm_accountPattern (eb_match b) \<noteq> ''*'') bs" (is "_ = filter ?P bs")
  unfolding buildEvaluatedBindingsIndex_def
  by (subst fold_component [where P = ?P])
    (auto simp: index_binding_def no_peer_def peer_valid_def peer_wildcard_def empty_index_def Let_def
      split: NormalizedPeerConstraint.splits)

lemma index_channel:
  "ix_byChannel (buildEvaluatedBindingsIndex bs) = filter (\<lambda>b. no_peer b \<and> nm_guildId (eb_match b) = None
     \<and> nm_teamId (eb_match b) = None \<and> nm_accountPattern (eb_match b) = ''*'') bs" (is "_ = filter ?P bs")
  unfolding buildEvaluatedBindingsIndex_def
  by (subst fold_component [where P = ?P])
    (auto simp: index_binding_def no_peer_def peer_valid_def peer_wildcard_def empty_index_def Let_def
      split: NormalizedPeerConstraint.splits)

lemma index_guild_roles:
  assumes "g \<noteq> []"
  shows "bucket (ix_byGuildWithRoles (buildEvaluatedBindingsIndex bs)) g =
    filter (\<lambda>b. no_peer b \<and> nm_guildId (eb_match b) = Some g \<and> nm_roles (eb_match b) \<noteq> None) bs" (is "_ = filter ?P bs")
  unfolding buildEvaluatedBindingsIndex_def using assms
  by (subst fold_component [where P = ?P and f = "\<lambda>ix. bucket (ix_byGuildWithRoles ix) g"])
    (auto simp: index_binding_def no_peer_def peer_valid_def peer_wildcard_def empty_index_def Let_def
      split: NormalizedPeerConstraint.splits)

lemma index_guild:
  assumes "g \<noteq> []"
  shows "bucket (ix_byGuild (buildEvaluatedBindingsIndex bs)) g =
    filter (\<lambda>b. no_peer b \<and> nm_guildId (eb_match b) = Some g \<and> nm_roles (eb_match b) = None) bs" (is "_ = filter ?P bs")
  unfolding buildEvaluatedBindingsIndex_def using assms
  by (subst fold_component [where P = ?P and f = "\<lambda>ix. bucket (ix_byGuild ix) g"])
    (auto simp: index_binding_def no_peer_def peer_valid_def peer_wildcard_def empty_index_def Let_def
      split: NormalizedPeerConstraint.splits)

lemma index_team:
  assumes "t \<noteq> []"
  shows "bucket (ix_byTeam (buildEvaluatedBindingsIndex bs)) t =
    filter (\<lambda>b. no_peer b \<and> nm_guildId (eb_match b) = None \<and> nm_teamId (eb_match b) = Some t) bs" (is "_ = filter ?P bs")
  unfolding buildEvaluatedBindingsIndex_def using assms
  by (subst fold_component [where P = ?P and f = "\<lambda>ix. bucket (ix_byTeam ix) t"])
    (auto simp: index_binding_def no_peer_def peer_valid_def peer_wildcard_def empty_index_def Let_def
      split: NormalizedPeerConstraint.splits)

definition keyed_by :: "string \<Rightarrow> EvaluatedBinding \<Rightarrow> bool" where
  "keyed_by key b = (case nm_peer (eb_match b) of PeerValid k i \<Rightarrow> key \<in> set (peerLookupKeys k i) | _ \<Rightarrow> False)"

lemma bucket_push_keys:
  "distinct keys \<Longrightarrow> [] \<notin> set keys \<Longrightarrow>
    bucket (foldl (\<lambda>mp key. pushToIndexMap mp (Some key) b) m keys) k =
     bucket m k @ (if k \<in> set keys then [b] else [])"
  by (induction keys arbitrary: m) auto

lemma peerLookupKeys_distinct: "distinct (peerLookupKeys k i)" "[] \<notin> set (peerLookupKeys k i)"
  by (cases k; auto simp: peerLookupKeys_def peer_key_inj peer_key_nonempty [symmetric])+

lemma index_peer: "bucket (ix_byPeer (buildEvaluatedBindingsIndex bs)) key = filter (keyed_by key) bs"
  unfolding buildEvaluatedBindingsIndex_def
  by (subst fold_component [where P = "keyed_by key" and f = "\<lambda>ix. bucket (ix_byPeer ix) key"])
    (auto simp: index_binding_def keyed_by_def empty_index_def Let_def bucket_push_keys peerLookupKeys_distinct
      split: NormalizedPeerConstraint.splits)

lemma keyed_by_peer: "key \<in> set (peerLookupKeys (rp_kind p) (rp_id p)) \<Longrightarrow> keyed_by key = same_peer p"
  by (cases "rp_kind p") (auto simp: keyed_by_def same_peer_def peerLookupKeys_def peer_key_inj peerKindMatches_def
      fun_eq_iff split: NormalizedPeerConstraint.splits ChatType.splits)

lemma add_unseen_fold_new:
  "distinct (map eb_order (out @ xs)) \<Longrightarrow> foldl add_unseen out xs = out @ xs"
  by (induction xs arbitrary: out) (auto simp: add_unseen_def)

lemma add_unseen_fold_old:
  "set (map eb_order xs) \<subseteq> set (map eb_order out) \<Longrightarrow> foldl add_unseen out xs = out"
  by (induction xs) (auto simp: add_unseen_def)

lemma distinct_orders_filter: "distinct (map eb_order bs) \<Longrightarrow> distinct (map eb_order (filter P bs))"
  by (simp add: distinct_map_filter)

lemma collect_peer:
  assumes "distinct (map eb_order bs)"
  shows "collectPeerIndexedBindings (buildEvaluatedBindingsIndex bs) peer =
    (case peer of None \<Rightarrow> [] | Some p \<Rightarrow> filter (same_peer p) bs)"
proof (cases peer)
  case (Some p)
  have d: "foldl add_unseen [] (filter (same_peer p) bs) = filter (same_peer p) bs"
    using add_unseen_fold_new [of "[]" "filter (same_peer p) bs"] distinct_orders_filter [OF assms] by simp
  have k: "bucket (ix_byPeer (buildEvaluatedBindingsIndex bs)) key = filter (same_peer p) bs"
    if "key \<in> set (peerLookupKeys (rp_kind p) (rp_id p))" for key
    by (simp add: index_peer keyed_by_peer [OF that])
  have "foldl add_unseen [] (concat (map (bucket (ix_byPeer (buildEvaluatedBindingsIndex bs)))
      (peerLookupKeys (rp_kind p) (rp_id p)))) = filter (same_peer p) bs"
    using k d add_unseen_fold_old [of "filter (same_peer p) bs" "filter (same_peer p) bs"]
    by (cases "rp_kind p") (simp_all add: peerLookupKeys_def)
  then show ?thesis by (simp add: collectPeerIndexedBindings_def Some bucket_def [abs_def])
qed (simp add: collectPeerIndexedBindings_def)

section \<open>The tiers without the index\<close>

text \<open>The reference: every tier looks at all bindings of the account, in source order.\<close>

definition linear_tiers :: "EvaluatedBinding list \<Rightarrow> RouteQuery \<Rightarrow> RouteTier list" where
  "linear_tiers bs q = map (\<lambda>t. t\<lparr>rt_candidates := bs\<rparr>) (route_tiers empty_index q)"

definition tier_hits :: "RouteQuery \<Rightarrow> RouteTier \<Rightarrow> EvaluatedBinding \<Rightarrow> bool" where
  "tier_hits q t b \<longleftrightarrow> rt_enabled t \<and> tier_matches q t b"

text \<open>The candidates of each tier leave out only bindings that an earlier tier would have taken.\<close>

fun covered :: "RouteQuery \<Rightarrow> EvaluatedBinding list \<Rightarrow> RouteTier list \<Rightarrow> RouteTier list \<Rightarrow> bool" where
  "covered q bs pre [] = True"
| "covered q bs pre (t # ts) =
     ((rt_enabled t \<longrightarrow> (\<exists>I. rt_candidates t = filter I bs \<and>
        (\<forall>b \<in> set bs. tier_hits q t b \<longrightarrow> I b \<or> list_ex (\<lambda>t'. tier_hits q t' b) pre)))
      \<and> covered q bs (pre @ [t]) ts)"

lemma covered_first_match:
  "covered q bs pre ts \<Longrightarrow> (\<forall>b \<in> set bs. \<not> list_ex (\<lambda>t'. tier_hits q t' b) pre) \<Longrightarrow>
     first_tier_match q ts = first_tier_match q (map (\<lambda>t. t\<lparr>rt_candidates := bs\<rparr>) ts)"
proof (induction ts arbitrary: pre)
  case (Cons t ts)
  have tm: "tier_matches q (t\<lparr>rt_candidates := bs\<rparr>) = tier_matches q t"
    by (simp add: tier_matches_def fun_eq_iff)
  show ?case
  proof (cases "rt_enabled t")
    case False
    then have "\<forall>b \<in> set bs. \<not> list_ex (\<lambda>t'. tier_hits q t' b) (pre @ [t])"
      using Cons.prems(2) by (simp add: tier_hits_def)
    then show ?thesis using Cons False by simp
  next
    case True
    then obtain I where I: "rt_candidates t = filter I bs"
        "\<forall>b \<in> set bs. tier_hits q t b \<longrightarrow> I b"
      using Cons.prems by auto
    have f: "find (tier_matches q t) (rt_candidates t) = find (tier_matches q t) bs"
      unfolding I(1) find_filter
      by (rule find_cong_on) (use I(2) True in \<open>auto simp: tier_hits_def\<close>)
    show ?thesis
    proof (cases "find (tier_matches q t) bs")
      case None
      then have "\<forall>b \<in> set bs. \<not> list_ex (\<lambda>t'. tier_hits q t' b) (pre @ [t])"
        using Cons.prems(2) find_NoneD by (fastforce simp: tier_hits_def)
      then show ?thesis using Cons.IH [of "pre @ [t]"] Cons.prems(1) True None f tm by simp
    next
      case (Some b)
      then show ?thesis using True f tm by simp
    qed
  qed
qed simp

definition match_wf :: "EvaluatedBinding \<Rightarrow> bool" where
  "match_wf b \<longleftrightarrow> nm_guildId (eb_match b) \<noteq> Some [] \<and> nm_teamId (eb_match b) \<noteq> Some []
     \<and> nm_roles (eb_match b) \<noteq> Some []"

lemma normalize_match_wf: "match_wf \<lparr>eb_binding = b, eb_match = normalizeBindingMatch m, eb_order = i\<rparr>"
  by (auto simp: match_wf_def normalizeBindingMatch_def non_empty_def normalizeRouteBindingRoles_def
      split: option.splits)

text \<open>The scope check of a well-formed binding, part by part.\<close>

lemma scope_matches_iff:
  assumes "match_wf b" "js_trim g = g" "js_trim t = t"
  shows "routeBindingScopeMatches (nm_guildId (eb_match b)) (nm_teamId (eb_match b)) (nm_roles (eb_match b))
     (binding_scope_of \<lparr>bs_peer = p, bs_guildId = g, bs_teamId = t, bs_memberRoleIds = r\<rparr>) \<longleftrightarrow>
   (case nm_guildId (eb_match b) of None \<Rightarrow> True | Some x \<Rightarrow> x = g)
   \<and> (case nm_teamId (eb_match b) of None \<Rightarrow> True | Some x \<Rightarrow> x = t)
   \<and> (case nm_roles (eb_match b) of None \<Rightarrow> True | Some rs \<Rightarrow> \<exists>x \<in> set rs. x \<in> set r)"
  using assms
  by (auto simp: routeBindingScopeMatches_def binding_scope_of_def normalizeRouteBindingId_def js_String_def
      scopeIdMatches_def match_wf_def Let_def normalizeRouteBindingRoles_def hasAnyRouteBindingRole_def list_ex_iff
      split: option.splits if_splits)

definition query_wf :: "RouteQuery \<Rightarrow> bool" where
  "query_wf q \<longleftrightarrow> js_trim (rq_guildId q) = rq_guildId q \<and> js_trim (rq_teamId q) = rq_teamId q"

lemma query_wf_route_query: "query_wf (route_query input)"
  by (simp add: query_wf_def route_query_def normalizeId_def normalizeRouteBindingId_def split: option.split)

definition scope_hit :: "RouteQuery \<Rightarrow> RoutePeer option \<Rightarrow> EvaluatedBinding \<Rightarrow> bool" where
  "scope_hit q peer b \<longleftrightarrow> matchesBindingScope (eb_match b)
     \<lparr>bs_peer = peer, bs_guildId = rq_guildId q, bs_teamId = rq_teamId q, bs_memberRoleIds = rq_memberRoleIds q\<rparr>"

lemma scope_hit_valid: "scope_hit q peer b \<Longrightarrow> peer_valid b \<Longrightarrow> \<exists>p. peer = Some p \<and> same_peer p b"
  by (auto simp: scope_hit_def matchesBindingScope_def peer_valid_def same_peer_def
      split: NormalizedPeerConstraint.splits option.splits)

lemma scope_hit_wildcard: "scope_hit q peer b \<Longrightarrow> peer_wildcard b \<Longrightarrow> peer \<noteq> None"
  by (auto simp: scope_hit_def matchesBindingScope_def peer_wildcard_def
      split: NormalizedPeerConstraint.splits option.splits)

lemma scope_hit_parts:
  assumes "scope_hit q peer b" "match_wf b" "query_wf q"
  shows "nm_guildId (eb_match b) \<noteq> None \<Longrightarrow> nm_guildId (eb_match b) = Some (rq_guildId q) \<and> rq_guildId q \<noteq> []"
    and "nm_teamId (eb_match b) \<noteq> None \<Longrightarrow> nm_teamId (eb_match b) = Some (rq_teamId q) \<and> rq_teamId q \<noteq> []"
    and "nm_roles (eb_match b) \<noteq> None \<Longrightarrow> rq_memberRoleIds q \<noteq> []"
  using assms scope_matches_iff [OF assms(2), of "rq_guildId q" "rq_teamId q" peer "rq_memberRoleIds q"]
  by (auto simp: scope_hit_def matchesBindingScope_def query_wf_def match_wf_def)

lemma tiers_covered:
  assumes d: "distinct (map eb_order bs)" and wf: "\<forall>b \<in> set bs. match_wf b" and q: "query_wf q"
  shows "covered q bs [] (route_tiers (buildEvaluatedBindingsIndex bs) q)"
proof -
  let ?ix = "buildEvaluatedBindingsIndex bs"
  let ?pre = "\<lambda>b. rq_peer q \<noteq> None \<and> (peer_valid b \<or> peer_wildcard b) \<and> scope_hit q (rq_peer q) b"
  have peers: "no_peer b \<or> ?pre b" if "scope_hit q (rq_peer q) b" for b
    using that scope_hit_valid scope_hit_wildcard by (fastforce simp: no_peer_def)
  note parts = scope_hit_parts [OF _ _ q]
  have base: "no_peer b \<and> nm_guildId (eb_match b) = None \<or> ?pre b
      \<or> rq_guildId q \<noteq> [] \<and> nm_guildId (eb_match b) \<noteq> None
         \<and> (nm_roles (eb_match b) = None \<or> rq_memberRoleIds q \<noteq> [])"
    if "scope_hit q (rq_peer q) b" "match_wf b" for b
    using peers [OF that(1)] parts(1) [OF that] parts(3) [OF that] by blast
  have coll: "collectPeerIndexedBindings ?ix (Some p) = filter (same_peer p) bs" for p
    by (simp add: collect_peer [OF d])
  have bg: "or_else (jm_get (ix_byGuildWithRoles ?ix) g) [] = bucket (ix_byGuildWithRoles ?ix) g"
      "or_else (jm_get (ix_byGuild ?ix) g) [] = bucket (ix_byGuild ?ix) g"
      "or_else (jm_get (ix_byTeam ?ix) g) [] = bucket (ix_byTeam ?ix) g" for g
    by (simp_all add: bucket_def)
  have hit: "tier_hits q \<lparr>rt_matchedBy = m, rt_enabled = e, rt_scopePeer = p, rt_candidates = c, rt_predicate = P\<rparr> b
      \<longleftrightarrow> e \<and> P b \<and> scope_hit q p b" for m e p c P b
    by (auto simp: tier_hits_def tier_matches_def scope_hit_def)
  note cs = hasGuildConstraint_def hasRolesConstraint_def hasTeamConstraint_def
  show ?thesis
    unfolding route_tiers_def covered.simps append.simps list_ex_Nil_iff list_ex_Cons_iff hit RouteTier.simps bg
  proof (intro conjI impI TrueI, goal_cases)
    case 1
    then obtain p where "rq_peer q = Some p" by auto
    then show ?case using scope_hit_valid
      by (intro exI [of _ "same_peer p"]) (auto simp: coll)
  next
    case 2
    then obtain p where p: "parent_scope q = Some p" by auto
    then have "rq_parentPeer q = Some p" by (auto simp: parent_scope_def split: option.splits if_splits)
    then show ?case using scope_hit_valid p
      by (intro exI [of _ "same_peer p"]) (auto simp: coll)
  next
    case 3
    then show ?case by (intro exI [of _ peer_wildcard]) (auto simp: index_wildcard)
  next
    case 4
    then show ?case using peers parts wf
      by (intro exI [of _ "\<lambda>b. no_peer b \<and> nm_guildId (eb_match b) = Some (rq_guildId q) \<and> nm_roles (eb_match b) \<noteq> None"])
        (auto simp: index_guild_roles cs)
  next
    case 5
    then show ?case using peers parts wf
      by (intro exI [of _ "\<lambda>b. no_peer b \<and> nm_guildId (eb_match b) = Some (rq_guildId q) \<and> nm_roles (eb_match b) = None"])
        (auto simp: index_guild cs)
  next
    case 6
    show ?case
    proof (intro exI [of _ "\<lambda>b. no_peer b \<and> nm_guildId (eb_match b) = None \<and> nm_teamId (eb_match b) = Some (rq_teamId q)"] conjI ballI impI, goal_cases)
      case 1
      show ?case using 6 by (simp add: index_team)
    next
      case (2 b)
      then have b: "b \<in> set bs" and h: "scope_hit q (rq_peer q) b" by auto
      have w: "match_wf b" using wf b by blast
      note facts = base [OF h w] parts(2) [OF h w] 2(2)
      show ?case
        using facts h unfolding cs by argo
    qed
  next
    case 7
    show ?case
    proof (intro exI [of _ "\<lambda>b. no_peer b \<and> nm_guildId (eb_match b) = None \<and> nm_teamId (eb_match b) = None
          \<and> nm_accountPattern (eb_match b) \<noteq> ''*''"] conjI ballI impI, goal_cases)
      case 1
      show ?case using 7 by (simp add: index_account)
    next
      case (2 b)
      then have b: "b \<in> set bs" and h: "scope_hit q (rq_peer q) b" by auto
      have w: "match_wf b" using wf b by blast
      note facts = base [OF h w] parts(2) [OF h w] 2(2)
      show ?case
        using facts h unfolding cs by argo
    qed
  next
    case 8
    show ?case
    proof (intro exI [of _ "\<lambda>b. no_peer b \<and> nm_guildId (eb_match b) = None \<and> nm_teamId (eb_match b) = None
          \<and> nm_accountPattern (eb_match b) = ''*''"] conjI ballI impI, goal_cases)
      case 1
      show ?case using 8 by (simp add: index_channel)
    next
      case (2 b)
      then have b: "b \<in> set bs" and h: "scope_hit q (rq_peer q) b" by auto
      have w: "match_wf b" using wf b by blast
      note facts = base [OF h w] parts(2) [OF h w] 2(2)
      show ?case
        using facts h unfolding cs by argo
    qed
  qed
qed

section \<open>Evaluated bindings in source order\<close>

definition binding_channel :: "AgentBinding \<Rightarrow> string" where
  "binding_channel b = normalizeToken (Option.bind (ab_match b) bm_channel)"

text \<open>Every route binding with a channel, numbered in the order of the configuration.\<close>

fun evaluate_from :: "nat \<Rightarrow> AgentBinding list \<Rightarrow> EvaluatedBinding list" where
  "evaluate_from n [] = []"
| "evaluate_from n (b # bs) =
     (if binding_channel b = [] then evaluate_from n bs
      else \<lparr>eb_binding = b, eb_match = normalizeBindingMatch (ab_match b), eb_order = n\<rparr> # evaluate_from (n + 1) bs)"

definition pattern_key :: "EvaluatedBinding \<Rightarrow> string" where
  "pattern_key b = resolveAccountPatternKey (nm_accountPattern (eb_match b))"

definition any_account :: "EvaluatedBinding \<Rightarrow> bool" where
  "any_account b \<longleftrightarrow> nm_accountPattern (eb_match b) = ''*''"

definition of_channel :: "string \<Rightarrow> EvaluatedBinding \<Rightarrow> bool" where
  "of_channel ch b \<longleftrightarrow> binding_channel (eb_binding b) = ch"

text \<open>The bindings that concern an account of a channel.\<close>

definition account_bindings :: "RoutingConfig \<Rightarrow> string \<Rightarrow> string \<Rightarrow> EvaluatedBinding list" where
  "account_bindings cfg channel accountId =
    filter (\<lambda>b. of_channel channel b \<and> (any_account b \<or> pattern_key b = accountId))
      (evaluate_from 0 (listBindings cfg))"

lemma evaluate_from_orders: "b \<in> set (evaluate_from n bs) \<Longrightarrow> n \<le> eb_order b"
  by (induction bs arbitrary: n) (fastforce split: if_splits)+

lemma evaluate_from_sorted: "sorted_wrt (\<lambda>x y. eb_order x < eb_order y) (evaluate_from n bs)"
proof (induction bs arbitrary: n)
  case (Cons b bs)
  then show ?case using evaluate_from_orders [of _ "n + 1" bs] by (auto simp: Suc_le_lessD)
qed simp

lemma evaluate_from_wf: "b \<in> set (evaluate_from n bs) \<Longrightarrow> match_wf b"
  by (induction bs arbitrary: n) (auto simp: normalize_match_wf split: if_splits)

lemma evaluate_from_channel: "b \<in> set (evaluate_from n bs) \<Longrightarrow> binding_channel (eb_binding b) \<noteq> []"
  by (induction bs arbitrary: n) (auto split: if_splits)

definition chan_scoped :: "(string, EvaluatedBindingsByChannel) jsmap \<Rightarrow> string \<Rightarrow> string \<Rightarrow> EvaluatedBinding list" where
  "chan_scoped m ch acct = (case jm_get m ch of None \<Rightarrow> [] | Some c \<Rightarrow> bucket (bch_byAccount c) acct)"

definition chan_any :: "(string, EvaluatedBindingsByChannel) jsmap \<Rightarrow> string \<Rightarrow> EvaluatedBinding list" where
  "chan_any m ch = (case jm_get m ch of None \<Rightarrow> [] | Some c \<Rightarrow> bch_byAnyAccount c)"

lemma add_evaluated_step:
  fixes n :: nat
  assumes "binding_channel b \<noteq> []"
  defines "e \<equiv> \<lparr>eb_binding = b, eb_match = normalizeBindingMatch (ab_match b), eb_order = n\<rparr>"
  shows "snd (add_evaluated (m, n) b) = n + 1"
    "chan_scoped (fst (add_evaluated (m, n) b)) ch acct =
       chan_scoped m ch acct @ (if of_channel ch e \<and> \<not> any_account e \<and> pattern_key e = acct then [e] else [])"
    "chan_any (fst (add_evaluated (m, n) b)) ch = chan_any m ch @ (if of_channel ch e \<and> any_account e then [e] else [])"
  using assms
  by (auto simp: add_evaluated_def Let_def chan_scoped_def chan_any_def of_channel_def any_account_def
      pattern_key_def binding_channel_def split: option.splits)

lemma add_evaluated_skip: "binding_channel b = [] \<Longrightarrow> add_evaluated (m, n) b = (m, n)"
  by (simp add: add_evaluated_def binding_channel_def)

lemma add_evaluated_fold:
  "chan_scoped (fst (foldl add_evaluated (m, n) bs)) ch acct =
     chan_scoped m ch acct @ filter (\<lambda>e. of_channel ch e \<and> \<not> any_account e \<and> pattern_key e = acct) (evaluate_from n bs)"
  "chan_any (fst (foldl add_evaluated (m, n) bs)) ch =
     chan_any m ch @ filter (\<lambda>e. of_channel ch e \<and> any_account e) (evaluate_from n bs)"
proof (induction bs arbitrary: m n)
  case (Cons b bs)
  {
    case 1
    show ?case
    proof (cases "binding_channel b = []")
      case False
      obtain m' where m': "add_evaluated (m, n) b = (m', n + 1)"
        using add_evaluated_step(1) [OF False, of m n] by (cases "add_evaluated (m, n) b") auto
      show ?thesis using add_evaluated_step(2) [OF False, of m n ch acct] False
        by (simp add: m' Cons)
    qed (simp add: add_evaluated_skip Cons)
  next
    case 2
    show ?case
    proof (cases "binding_channel b = []")
      case False
      obtain m' where m': "add_evaluated (m, n) b = (m', n + 1)"
        using add_evaluated_step(1) [OF False, of m n] by (cases "add_evaluated (m, n) b") auto
      show ?thesis using add_evaluated_step(3) [OF False, of m n ch] False
        by (simp add: m' Cons)
    qed (simp add: add_evaluated_skip Cons)
  }
qed simp_all

lemma merge_Nil2 [simp]: "merge_by_order xs [] = xs"
  by (cases xs) simp_all

lemma merge_filters:
  assumes "sorted_wrt (\<lambda>x y. eb_order x < eb_order y) xs" "\<And>x. \<not> (P x \<and> Q x)"
  shows "merge_by_order (filter P xs) (filter Q xs) = filter (\<lambda>x. P x \<or> Q x) xs"
  using assms(1)
proof (induction xs)
  case (Cons x xs)
  have lt: "eb_order x < eb_order y" if "y \<in> set xs" for y using Cons.prems that by simp
  have IH: "merge_by_order (filter P xs) (filter Q xs) = filter (\<lambda>x. P x \<or> Q x) xs"
    using Cons by simp
  consider "P x" "\<not> Q x" | "Q x" "\<not> P x" | "\<not> P x" "\<not> Q x" using assms(2) by blast
  then show ?case
  proof cases
    case 1
    show ?thesis
    proof (cases "filter Q xs")
      case Nil
      then show ?thesis using 1 IH by simp
    next
      case (Cons y ys)
      then have "y \<in> set xs" by (metis filter_is_subset list.set_intros(1) subset_code(1))
      then show ?thesis using 1 IH Cons lt [of y] by simp
    qed
  next
    case 2
    show ?thesis
    proof (cases "filter P xs")
      case Nil
      then show ?thesis using 2 IH by simp
    next
      case (Cons y ys)
      then have "y \<in> set xs" by (metis filter_is_subset list.set_intros(1) subset_code(1))
      then show ?thesis using 2 IH Cons lt [of y] by simp
    qed
  qed (use IH in simp)
qed simp

lemma merge_source_order:
  "mergeEvaluatedBindingsInSourceOrder xs ys = merge_by_order xs ys"
  by (simp add: mergeEvaluatedBindingsInSourceOrder_def)

text \<open>The bindings the caches hold for a channel and account are those of the configuration, in
  source order.\<close>

lemma channel_bindings_eq:
  "channel_bindings (buildEvaluatedBindingsByChannel cfg) channel accountId = account_bindings cfg channel accountId"
proof -
  let ?all = "evaluate_from 0 (listBindings cfg)"
  have "channel_bindings (buildEvaluatedBindingsByChannel cfg) channel accountId =
      merge_by_order (chan_scoped (buildEvaluatedBindingsByChannel cfg) channel accountId)
        (chan_any (buildEvaluatedBindingsByChannel cfg) channel)"
    by (simp add: channel_bindings_def merge_source_order chan_scoped_def chan_any_def bucket_def Let_def
        split: option.split)
  also have "\<dots> = merge_by_order
      (filter (\<lambda>e. of_channel channel e \<and> \<not> any_account e \<and> pattern_key e = accountId) ?all)
      (filter (\<lambda>e. of_channel channel e \<and> any_account e) ?all)"
    by (simp add: buildEvaluatedBindingsByChannel_def add_evaluated_fold) (simp add: chan_scoped_def chan_any_def)
  also have "\<dots> = filter (\<lambda>e. of_channel channel e \<and> \<not> any_account e \<and> pattern_key e = accountId
      \<or> of_channel channel e \<and> any_account e) ?all"
    by (rule merge_filters [OF evaluate_from_sorted]) blast
  also have "\<dots> = account_bindings cfg channel accountId"
    unfolding account_bindings_def by (rule filter_cong) auto
  finally show ?thesis .
qed

lemma account_bindings_orders: "distinct (map eb_order (account_bindings cfg channel accountId))"
proof -
  have "sorted_wrt (\<lambda>x y. eb_order x < eb_order y) xs \<Longrightarrow> distinct (map eb_order xs)" for xs
    by (induction xs) auto
  then have "distinct (map eb_order (evaluate_from 0 (listBindings cfg)))"
    using evaluate_from_sorted by blast
  then show ?thesis by (simp add: account_bindings_def distinct_orders_filter)
qed

lemma account_bindings_wf: "\<forall>b \<in> set (account_bindings cfg channel accountId). match_wf b"
  using evaluate_from_wf by (auto simp: account_bindings_def)

text \<open>What a route would be without any index or cache.\<close>

definition route_reference :: "RoutingConfig \<Rightarrow> RouteQuery \<Rightarrow> ResolvedAgentRoute" where
  "route_reference cfg q =
    (let (agentId, by, scope) =
       (case first_tier_match q (linear_tiers (account_bindings cfg (rq_channel q) (rq_accountId q)) q) of
          Some (b, by) \<Rightarrow> (ab_agentId (eb_binding b), by, ab_sessionDmScope (eb_binding b))
        | None \<Rightarrow> (resolveDefaultAgentId cfg, ByDefault, None))
     in choose_route cfg q (pick_in_lookup (agent_lookup cfg) agentId) by scope)"

lemma linear_tiers_eq: "map (\<lambda>t. t\<lparr>rt_candidates := bs\<rparr>) (route_tiers ix q) = linear_tiers bs q"
  by (simp add: linear_tiers_def route_tiers_def)

lemma selected_agent_eq:
  assumes "query_wf q"
  shows "selected_agent cfg (buildEvaluatedBindingsIndex (account_bindings cfg (rq_channel q) (rq_accountId q))) q =
    (case first_tier_match q (linear_tiers (account_bindings cfg (rq_channel q) (rq_accountId q)) q) of
          Some (b, by) \<Rightarrow> (ab_agentId (eb_binding b), by, ab_sessionDmScope (eb_binding b))
        | None \<Rightarrow> (resolveDefaultAgentId cfg, ByDefault, None))"
  using covered_first_match [OF tiers_covered [OF account_bindings_orders account_bindings_wf assms]]
  by (simp add: selected_agent_def linear_tiers_eq)

section \<open>The caches\<close>

abbreviation (input) tab_char :: char where "tab_char \<equiv> CHR 0x09"

lemma account_no_tab: "tab_char \<notin> set (normalizeAccountId v)"
  using normalizeAccountId_safe(1) [of v]
  by (auto simp: safe_id_def list_all_iff is_low_id_char_def is_lower_alnum_def)

lemma account_key_inj:
  assumes "tab_char \<notin> set a" "tab_char \<notin> set b" "x @ tab @ a = y @ tab @ b"
  shows "x = y \<and> a = b"
proof -
  have "rev a @ tab_char # rev x = rev b @ tab_char # rev y"
    using arg_cong [OF assms(3), of rev] by simp
  then show ?thesis using sep_split_unique [of tab_char "rev a" "rev b" "rev x" "rev y"] assms by simp
qed

definition config_of_bindings :: "AgentBinding list option \<Rightarrow> RoutingConfig" where
  "config_of_bindings b = \<lparr>rc_bindings = b, rc_agents = None, rc_dmScope = None, rc_identityLinks = None\<rparr>"

lemma build_of_bindings:
  "buildEvaluatedBindingsByChannel cfg = buildEvaluatedBindingsByChannel (config_of_bindings (rc_bindings cfg))"
  "account_bindings cfg = account_bindings (config_of_bindings (rc_bindings cfg))"
  by (simp_all add: buildEvaluatedBindingsByChannel_def account_bindings_def [abs_def] listBindings_def
      listRouteBindings_def listConfiguredBindings_def config_of_bindings_def)

definition evaluated_ok :: "EvaluatedBindingsCache \<Rightarrow> bool" where
  "evaluated_ok c \<longleftrightarrow>
    (let cfg = config_of_bindings (ec_bindingsRef c) in
     ec_byChannel c = buildEvaluatedBindingsByChannel cfg
     \<and> (\<forall>ch acct v. tab_char \<notin> set acct \<longrightarrow> jm_get (ec_byChannelAccount c) (ch @ tab @ acct) = Some v
          \<longrightarrow> v = account_bindings cfg ch acct)
     \<and> (\<forall>ch acct v. tab_char \<notin> set acct \<longrightarrow> jm_get (ec_byChannelAccountIndex c) (ch @ tab @ acct) = Some v
          \<longrightarrow> v = buildEvaluatedBindingsIndex (account_bindings cfg ch acct)))"

definition opt_ok :: "('a \<Rightarrow> bool) \<Rightarrow> 'a option \<Rightarrow> bool" where
  "opt_ok P v \<longleftrightarrow> (case v of None \<Rightarrow> True | Some x \<Rightarrow> P x)"

lemma evaluated_cache_for_ok:
  assumes "opt_ok evaluated_ok existing"
  shows "evaluated_ok (evaluated_cache_for cfg existing)" "ec_bindingsRef (evaluated_cache_for cfg existing) = rc_bindings cfg"
  using assms build_of_bindings(1) [of cfg]
  by (auto simp: evaluated_cache_for_def evaluated_ok_def opt_ok_def Let_def split: option.splits)

lemma get_evaluated:
  fixes cfg ch
  assumes "opt_ok evaluated_ok existing" "tab_char \<notin> set acct"
  defines "r \<equiv> getEvaluatedBindingsForChannelAccount cfg existing ch acct"
  shows "fst r = account_bindings cfg ch acct \<and> evaluated_ok (snd r) \<and> ec_bindingsRef (snd r) = rc_bindings cfg"
proof -
  define c where "c = evaluated_cache_for cfg existing"
  have ok: "evaluated_ok c" "ec_bindingsRef c = rc_bindings cfg"
    using evaluated_cache_for_ok [OF assms(1)] by (simp_all add: c_def)
  have by_ch: "channel_bindings (ec_byChannel c) ch acct = account_bindings cfg ch acct"
    using ok build_of_bindings [of cfg] by (simp add: evaluated_ok_def Let_def channel_bindings_eq)
  show ?thesis
  proof (cases "jm_get (ec_byChannelAccount c) (ch @ tab @ acct)")
    case (Some hit)
    then have "hit = account_bindings cfg ch acct"
      using ok assms(2) build_of_bindings(2) [of cfg] by (auto simp: evaluated_ok_def Let_def)
    then show ?thesis using Some ok
      by (simp add: r_def getEvaluatedBindingsForChannelAccount_def c_def [symmetric] Let_def)
  next
    case None
    have eq: "ch' = ch \<and> a' = acct" if "ch' @ tab_char # a' = ch @ tab_char # acct" "tab_char \<notin> set a'" for ch' a'
      using account_key_inj [OF that(2) assms(2)] that(1) by simp
    show ?thesis using None ok build_of_bindings(2) [of cfg]
      by (auto simp: r_def getEvaluatedBindingsForChannelAccount_def c_def [symmetric] Let_def by_ch
          channel_bindings_eq evaluated_ok_def dest!: eq split: if_splits)
  qed
qed

lemma get_index:
  fixes cfg ch
  assumes "opt_ok evaluated_ok existing" "tab_char \<notin> set acct"
  defines "r \<equiv> getEvaluatedBindingIndexForChannelAccount cfg existing ch acct"
  shows "fst r = buildEvaluatedBindingsIndex (account_bindings cfg ch acct) \<and> evaluated_ok (snd r)"
proof -
  obtain bs c where g: "getEvaluatedBindingsForChannelAccount cfg existing ch acct = (bs, c)" by fastforce
  have ok: "bs = account_bindings cfg ch acct" "evaluated_ok c" "ec_bindingsRef c = rc_bindings cfg"
    using get_evaluated [OF assms(1,2), of cfg ch] g by auto
  show ?thesis
  proof (cases "jm_get (ec_byChannelAccountIndex c) (ch @ tab @ acct)")
    case (Some hit)
    then have "hit = buildEvaluatedBindingsIndex (account_bindings cfg ch acct)"
      using ok assms(2) build_of_bindings(2) [of cfg] by (auto simp: evaluated_ok_def Let_def)
    then show ?thesis using Some ok
      by (simp add: r_def getEvaluatedBindingIndexForChannelAccount_def g Let_def)
  next
    case None
    have eq: "ch' = ch \<and> a' = acct" if "ch' @ tab_char # a' = ch @ tab_char # acct" "tab_char \<notin> set a'" for ch' a'
      using account_key_inj [OF that(2) assms(2)] that(1) by simp
    show ?thesis using None ok build_of_bindings(2) [of cfg]
      by (auto simp: r_def getEvaluatedBindingIndexForChannelAccount_def g Let_def evaluated_ok_def
          dest!: eq split: if_splits)
  qed
qed

definition agents_ok :: "AgentEntry list option \<times> AgentLookup \<Rightarrow> bool" where
  "agents_ok e \<longleftrightarrow> snd e = agent_lookup \<lparr>rc_bindings = None, rc_agents = fst e, rc_dmScope = None, rc_identityLinks = None\<rparr>"

lemma agent_lookup_of_agents:
  "agent_lookup cfg = agent_lookup \<lparr>rc_bindings = None, rc_agents = rc_agents cfg, rc_dmScope = None, rc_identityLinks = None\<rparr>"
  by (simp add: agent_lookup_def listAgents_def resolveDefaultAgentId_def listAgentEntries_def)

lemma pick_agent:
  assumes "opt_ok agents_ok cache"
  shows "fst (pickFirstExistingAgentId cfg agentId cache) = pick_in_lookup (agent_lookup cfg) agentId"
    and "opt_ok agents_ok (snd (pickFirstExistingAgentId cfg agentId cache))"
  using assms agent_lookup_of_agents [of cfg]
  by (auto simp: pickFirstExistingAgentId_def resolveAgentLookupCache_def opt_ok_def agents_ok_def
      split: option.splits prod.splits if_splits)

text \<open>Inputs whose cache key identifies them: no tab in the textual parts, no comma in a role id, an
  identified peer, and no part that reads as the placeholder.\<close>

definition plain_part :: "string \<Rightarrow> bool" where
  "plain_part s \<longleftrightarrow> tab_char \<notin> set s \<and> s \<noteq> ''-''"

definition plain_peer :: "RoutePeer option \<Rightarrow> bool" where
  "plain_peer p = (case p of None \<Rightarrow> True | Some q \<Rightarrow> tab_char \<notin> set (rp_id q))"

definition cacheable :: "RouteQuery \<Rightarrow> bool" where
  "cacheable q \<longleftrightarrow> tab_char \<notin> set (rq_channel q) \<and> tab_char \<notin> set (rq_accountId q)
     \<and> plain_peer (rq_peer q) \<and> map_option rp_id (rq_peer q) \<noteq> Some [] \<and> plain_peer (rq_parentPeer q)
     \<and> plain_part (rq_guildId q) \<and> plain_part (rq_teamId q)
     \<and> list_all (\<lambda>r. tab_char \<notin> set r \<and> CHR '','' \<notin> set r) (rq_memberRoleIds q) \<and> rq_memberRoleIds q \<noteq> [''-'']"

lemma format_peer_no_tab: "plain_peer p \<Longrightarrow> tab_char \<notin> set (formatRouteCachePeer p)"
proof -
  have "tab_char \<notin> set (chat_type_str k)" for k by (cases k) (simp_all add: chat_type_str_def)
  then show "plain_peer p \<Longrightarrow> tab_char \<notin> set (formatRouteCachePeer p)"
    by (auto simp: plain_peer_def formatRouteCachePeer_def peer_key_def split: option.splits)
qed

definition known_peer :: "RoutePeer option \<Rightarrow> RoutePeer option" where
  "known_peer p = (case p of None \<Rightarrow> None | Some q \<Rightarrow> if rp_id q = [] then None else Some q)"

lemma format_peer_inj:
  assumes "formatRouteCachePeer p = formatRouteCachePeer p'"
  shows "known_peer p = known_peer p'"
proof -
  have ne: "peer_key k i \<noteq> ''-''" for k i
    by (cases k) (simp_all add: peer_key_def chat_type_str_def)
  show ?thesis using assms ne ne [symmetric]
    by (auto simp: formatRouteCachePeer_def known_peer_def peer_key_inj split: option.splits if_splits)
qed

lemma parent_scope_known: "parent_scope q = known_peer (rq_parentPeer q)"
  by (simp add: parent_scope_def known_peer_def)

lemma format_roles_join:
  "formatRoleIdsCacheKey rs = (if rs = [] then ''-'' else join_with '','' (js_sort str_cmp rs))"
  by (auto simp: formatRoleIdsCacheKey_def js_sort_def split: list.split)

lemma set_join_with: "c \<in> set (join_with sep ws) \<Longrightarrow> c \<in> set sep \<or> (\<exists>w \<in> set ws. c \<in> set w)"
  by (induction sep ws rule: join_with.induct) auto

lemma join_singleton: "ws \<noteq> [] \<Longrightarrow> join_with '','' ws = ''-'' \<Longrightarrow> (\<forall>w \<in> set ws. CHR '','' \<notin> set w) \<Longrightarrow> ws = [''-'']"
  using join_with_inj [of "CHR '',''" ws "[''-'']"] by simp

lemma format_roles_inj:
  assumes "formatRoleIdsCacheKey rs = formatRoleIdsCacheKey rs'"
    and "\<forall>r \<in> set rs. CHR '','' \<notin> set r" "\<forall>r \<in> set rs'. CHR '','' \<notin> set r"
    and "rs \<noteq> [''-'']" "rs' \<noteq> [''-'']"
  shows "set rs = set rs'"
proof -
  have one: "js_sort str_cmp xs = [''-''] \<Longrightarrow> xs = [''-'']" for xs
  proof -
    fix xs assume s: "js_sort str_cmp xs = [''-'']"
    have "length xs = 1" "set xs = {''-''}"
      using set_js_sort [of str_cmp xs] length_js_sort [of str_cmp xs] unfolding s by simp_all
    then show "xs = [''-'']" by (cases xs) auto
  qed
  have ne: "js_sort str_cmp xs \<noteq> []" if "xs \<noteq> []" for xs
    using set_js_sort [of str_cmp xs] that by (metis set_empty)
  have dash: "xs = [''-'']" if "xs \<noteq> []" "join_with '','' (js_sort str_cmp xs) = ''-''"
      "\<forall>r \<in> set xs. CHR '','' \<notin> set r" for xs
    using join_singleton [OF ne [OF that(1)] that(2)] that(3) one by simp
  show ?thesis
  proof (cases "rs = [] \<or> rs' = []")
    case True
    then show ?thesis using assms dash [of rs] dash [of rs'] by (auto simp: format_roles_join split: if_splits)
  next
    case False
    then have "join_with '','' (js_sort str_cmp rs) = join_with '','' (js_sort str_cmp rs')"
      using assms(1) by (simp add: format_roles_join)
    then have "js_sort str_cmp rs = js_sort str_cmp rs'"
      by (rule join_with_inj) (use False ne assms(2,3) in auto)
    then show ?thesis using set_js_sort by metis
  qed
qed

lemma format_roles_no_tab:
  "\<forall>r \<in> set rs. tab_char \<notin> set r \<Longrightarrow> tab_char \<notin> set (formatRoleIdsCacheKey rs)"
  by (auto simp: format_roles_join dest: set_join_with)

text \<open>The reference route reads the roles as a set and ignores a parent peer without an id.\<close>

lemma tier_matches_roles:
  assumes "set r = set r'"
  shows "matchesBindingScope m \<lparr>bs_peer = p, bs_guildId = g, bs_teamId = t, bs_memberRoleIds = r\<rparr> =
    matchesBindingScope m \<lparr>bs_peer = p, bs_guildId = g, bs_teamId = t, bs_memberRoleIds = r'\<rparr>"
  using assms
  by (simp add: matchesBindingScope_def routeBindingScopeMatches_def binding_scope_of_def hasAnyRouteBindingRole_def
      Let_def cong: option.case_cong split: NormalizedPeerConstraint.split)

definition same_query :: "RouteQuery \<Rightarrow> RouteQuery \<Rightarrow> bool" where
  "same_query q q' \<longleftrightarrow> rq_channel q = rq_channel q' \<and> rq_accountId q = rq_accountId q' \<and> rq_peer q = rq_peer q'
     \<and> parent_scope q = parent_scope q' \<and> rq_guildId q = rq_guildId q' \<and> rq_teamId q = rq_teamId q'
     \<and> set (rq_memberRoleIds q) = set (rq_memberRoleIds q')"

lemma same_query_tiers:
  assumes "same_query q q'"
  shows "first_tier_match q (linear_tiers bs q) = first_tier_match q' (linear_tiers bs q')"
proof -
  have e: "rq_memberRoleIds q = [] \<longleftrightarrow> rq_memberRoleIds q' = []"
    using assms by (metis same_query_def set_empty)
  have t: "linear_tiers bs q = linear_tiers bs q'"
    using assms e by (simp add: linear_tiers_def route_tiers_def same_query_def)
  have m: "tier_matches q t = tier_matches q' t" for t
    using assms tier_matches_roles [of "rq_memberRoleIds q" "rq_memberRoleIds q'"]
    unfolding tier_matches_def same_query_def fun_eq_iff by metis
  have "first_tier_match q ts = first_tier_match q' ts" for ts
    by (induction ts) (simp_all add: m split: option.split)
  then show ?thesis unfolding t .
qed

lemma same_query_reference: "same_query q q' \<Longrightarrow> route_reference cfg q = route_reference cfg q'"
proof -
  assume s: "same_query q q'"
  then have "choose_route cfg q = choose_route cfg q'"
    by (intro ext) (simp add: choose_route_def same_query_def)
  moreover have "account_bindings cfg (rq_channel q) (rq_accountId q) = account_bindings cfg (rq_channel q') (rq_accountId q')"
    using s by (simp add: same_query_def)
  ultimately show ?thesis by (simp only: route_reference_def same_query_tiers [OF s])
qed

lemma or_default_dash_inj: "plain_part a \<Longrightarrow> plain_part b \<Longrightarrow> or_default a ''-'' = or_default b ''-'' \<Longrightarrow> a = b"
  by (auto simp: or_default_def plain_part_def split: if_splits)

lemma or_default_no_tab: "plain_part a \<Longrightarrow> tab_char \<notin> set (or_default a ''-'')"
  by (simp add: or_default_def plain_part_def)

lemma key_parts_inj:
  assumes "x1 @ tab @ x2 @ tab @ x3 @ tab @ x4 @ tab @ x5 @ tab @ x6 @ tab @ x7 @ tab @ z =
           y1 @ tab @ y2 @ tab @ y3 @ tab @ y4 @ tab @ y5 @ tab @ y6 @ tab @ y7 @ tab @ z"
    and "list_all (\<lambda>s. tab_char \<notin> set s) [x1, x2, x3, x4, x5, x6, x7]"
    and "list_all (\<lambda>s. tab_char \<notin> set s) [y1, y2, y3, y4, y5, y6, y7]"
  shows "x1 = y1 \<and> x2 = y2 \<and> x3 = y3 \<and> x4 = y4 \<and> x5 = y5 \<and> x6 = y6 \<and> x7 = y7"
proof -
  have "join_with tab [x1, x2, x3, x4, x5, x6, x7] @ tab @ z = join_with tab [y1, y2, y3, y4, y5, y6, y7] @ tab @ z"
    using assms(1) by simp
  then have "join_with tab [x1, x2, x3, x4, x5, x6, x7] = join_with tab [y1, y2, y3, y4, y5, y6, y7]"
    by (simp only: append_same_eq)
  then have "[x1, x2, x3, x4, x5, x6, x7] = [y1, y2, y3, y4, y5, y6, y7]"
    by (rule join_with_inj) (use assms(2,3) in \<open>auto simp: list_all_iff\<close>)
  then show ?thesis by simp
qed

lemma cacheable_key_inj:
  assumes "cacheable q" "cacheable q'" "buildResolvedRouteCacheKey q s = buildResolvedRouteCacheKey q' s"
  shows "same_query q q'"
proof -
  have nt: "list_all (\<lambda>s. tab_char \<notin> set s) [rq_channel x, rq_accountId x, formatRouteCachePeer (rq_peer x),
      formatRouteCachePeer (rq_parentPeer x), or_default (rq_guildId x) ''-'', or_default (rq_teamId x) ''-'',
      formatRoleIdsCacheKey (rq_memberRoleIds x)]" if "cacheable x" for x
    using that format_roles_no_tab [of "rq_memberRoleIds x"]
    by (simp add: cacheable_def format_peer_no_tab or_default_no_tab list_all_iff)
  note parts = key_parts_inj [OF assms(3) [unfolded buildResolvedRouteCacheKey_def] nt [OF assms(1)] nt [OF assms(2)]]
  have kp: "known_peer (rq_peer x) = rq_peer x" if "cacheable x" for x
    using that by (auto simp: cacheable_def known_peer_def split: option.splits)
  have "rq_peer q = rq_peer q'"
    using parts format_peer_inj [of "rq_peer q" "rq_peer q'"] kp assms(1,2) by simp
  moreover have "parent_scope q = parent_scope q'"
    unfolding parent_scope_known using parts by (intro format_peer_inj) simp
  moreover have "set (rq_memberRoleIds q) = set (rq_memberRoleIds q')"
    by (rule format_roles_inj) (use parts assms(1,2) in \<open>auto simp: cacheable_def list_all_iff\<close>)
  moreover have "rq_guildId q = rq_guildId q'" "rq_teamId q = rq_teamId q'"
    using parts assms(1,2) or_default_dash_inj by (auto simp: cacheable_def)
  ultimately show ?thesis using parts by (simp add: same_query_def)
qed

text \<open>The route cache is a memo table of the reference route for the cacheable queries.\<close>

definition evict_routes :: "string \<Rightarrow> ResolvedAgentRoute \<Rightarrow> (string, ResolvedAgentRoute) jsmap \<Rightarrow> (string, ResolvedAgentRoute) jsmap" where
  "evict_routes k v m = (if length m > MAX_RESOLVED_ROUTE_CACHE_KEYS then [(k, v)] else m)"

definition route_key :: "RoutingConfig \<Rightarrow> RouteQuery \<Rightarrow> string" where
  "route_key cfg q = buildResolvedRouteCacheKey q (or_else (rc_dmScope cfg) ScopeMain)"

interpretation route_memo: memo_table "[]" jm_get jm_set jm_del jm_wf cacheable "route_key cfg"
    "route_reference cfg" evict_routes for cfg
proof
  fix i j assume "cacheable i" "cacheable j" "route_key cfg i = route_key cfg j"
  then show "route_reference cfg i = route_reference cfg j"
    unfolding route_key_def using cacheable_key_inj same_query_reference by blast
next
  fix m k v k' w
  assume "jm_get (evict_routes k v m) k' = Some w"
  then show "jm_get m k' = Some w \<or> k' = k \<and> w = v"
    by (auto simp: evict_routes_def split: if_splits)
qed

lemma store_route_eq: "rc_byKey (store_route k r c) = evict_routes k r (jm_set k r (rc_byKey c))"
  "rc_bindingsRef (store_route k r c) = rc_bindingsRef c" "rc_agentsRef (store_route k r c) = rc_agentsRef c"
  "rc_sessionRef (store_route k r c) = rc_sessionRef c"
  by (simp_all add: store_route_def evict_routes_def Let_def)

definition config_of_refs :: "ResolvedRouteCache \<Rightarrow> RoutingConfig" where
  "config_of_refs c = \<lparr>rc_bindings = rc_bindingsRef c, rc_agents = rc_agentsRef c,
     rc_dmScope = fst (rc_sessionRef c), rc_identityLinks = snd (rc_sessionRef c)\<rparr>"

definition routes_ok :: "ResolvedRouteCache \<Rightarrow> bool" where
  "routes_ok c \<longleftrightarrow> route_memo.consistent (config_of_refs c) (rc_byKey c)"

definition router_ok :: "RouterState \<Rightarrow> bool" where
  "router_ok st \<longleftrightarrow> opt_ok agents_ok (rs_agents st) \<and> opt_ok evaluated_ok (rs_evaluated st) \<and> opt_ok routes_ok (rs_routes st)"

lemma router_ok_empty: "router_ok empty_router"
  by (simp add: router_ok_def empty_router_def opt_ok_def)

lemma route_cache_for:
  assumes "opt_ok routes_ok existing"
  shows "routes_ok (resolveRouteCacheForConfig cfg existing)" "config_of_refs (resolveRouteCacheForConfig cfg existing) = cfg"
proof -
  show "config_of_refs (resolveRouteCacheForConfig cfg existing) = cfg"
    by (auto simp: resolveRouteCacheForConfig_def config_of_refs_def Let_def split: option.splits)
  show "routes_ok (resolveRouteCacheForConfig cfg existing)"
    using assms route_memo.consistent_empty
    by (auto simp: resolveRouteCacheForConfig_def routes_ok_def opt_ok_def Let_def split: option.splits)
qed

lemma resolve_step:
  assumes ok: "router_ok st" and c: "log \<or> rc_identityLinks cfg \<noteq> None \<or> cacheable (route_query input)"
  shows "fst (resolveAgentRoute log cfg input st) = route_reference cfg (route_query input)
    \<and> router_ok (snd (resolveAgentRoute log cfg input st))"
proof -
  define q where "q = route_query input"
  define use where "use \<longleftrightarrow> \<not> log \<and> rc_identityLinks cfg = None"
  define rc where "rc = resolveRouteCacheForConfig cfg (rs_routes st)"
  define st' where "st' = (if use then st\<lparr>rs_routes := Some rc\<rparr> else st)"
  define key where "key = route_key cfg q"
  have rc: "routes_ok rc" "config_of_refs rc = cfg"
    using route_cache_for [of "rs_routes st" cfg] ok by (simp_all add: rc_def router_ok_def)
  have ok': "router_ok st'" using ok rc by (simp add: st'_def router_ok_def opt_ok_def)
  have qc: "use \<Longrightarrow> cacheable q" using c by (auto simp: use_def q_def)
  define cached where "cached = (if use then jm_get (rc_byKey (the (rs_routes st'))) key else None)"
  have body: "resolveAgentRoute log cfg input st = (case cached of
       Some route \<Rightarrow> (route, st')
     | None \<Rightarrow>
       (let (bindings, ec) = getEvaluatedBindingsForChannelAccount cfg (rs_evaluated st') (rq_channel q) (rq_accountId q);
                (ix, ec) = getEvaluatedBindingIndexForChannelAccount cfg (Some ec) (rq_channel q) (rq_accountId q);
                (agentId, by, scope) = selected_agent cfg ix q;
                (resolvedAgentId, lookupCache) = pickFirstExistingAgentId cfg agentId (rs_agents st');
                route = choose_route cfg q resolvedAgentId by scope;
                routes = (if use then Some (store_route key route (the (rs_routes st'))) else rs_routes st')
            in (route, \<lparr>rs_agents = lookupCache, rs_evaluated = Some ec, rs_routes = routes\<rparr>)))"
    unfolding resolveAgentRoute_def Let_def cached_def key_def route_key_def st'_def rc_def use_def q_def
    by (rule refl)
  show ?thesis
  proof (cases cached)
    case (Some route)
    then have u: use and g: "jm_get (rc_byKey rc) key = Some route"
      by (auto simp: cached_def st'_def split: if_splits)
    then have "route = route_reference cfg q"
      using route_memo.consistent_hit [of cfg "rc_byKey rc" q route] rc qc
      by (simp add: routes_ok_def key_def)
    then show ?thesis using Some ok' body by (simp add: q_def)
  next
    case None
    have acct: "tab_char \<notin> set (rq_accountId q)"
      by (simp add: q_def route_query_def account_no_tab)
    obtain bs ec where b: "getEvaluatedBindingsForChannelAccount cfg (rs_evaluated st') (rq_channel q) (rq_accountId q) = (bs, ec)"
      by fastforce
    have ec: "evaluated_ok ec"
      using get_evaluated [of "rs_evaluated st'" "rq_accountId q" cfg "rq_channel q"] ok' acct b
      by (simp add: router_ok_def)
    obtain ix ec' where i: "getEvaluatedBindingIndexForChannelAccount cfg (Some ec) (rq_channel q) (rq_accountId q) = (ix, ec')"
      by fastforce
    have ix: "ix = buildEvaluatedBindingsIndex (account_bindings cfg (rq_channel q) (rq_accountId q))" "evaluated_ok ec'"
      using get_index [of "Some ec" "rq_accountId q" cfg "rq_channel q"] ec acct i by (simp_all add: opt_ok_def)
    obtain agentId by' scope where s: "selected_agent cfg ix q = (agentId, by', scope)"
      by (cases "selected_agent cfg ix q") auto
    obtain a lc where p: "pickFirstExistingAgentId cfg agentId (rs_agents st') = (a, lc)" by fastforce
    have pa: "a = pick_in_lookup (agent_lookup cfg) agentId" "opt_ok agents_ok lc"
      using pick_agent [of "rs_agents st'" cfg agentId] ok' p by (simp_all add: router_ok_def)
    let ?r = "choose_route cfg q a by' scope"
    have ref: "?r = route_reference cfg q"
      using selected_agent_eq [of q cfg] s ix(1) pa(1) query_wf_route_query [of input]
      by (simp add: route_reference_def q_def)
    have res: "resolveAgentRoute log cfg input st = (?r, \<lparr>rs_agents = lc, rs_evaluated = Some ec',
        rs_routes = (if use then Some (store_route key ?r (the (rs_routes st'))) else rs_routes st')\<rparr>)"
      using None by (simp add: body b i s p Let_def)
    have "routes_ok (store_route key ?r rc)" if use
    proof -
      have "config_of_refs (store_route key ?r rc) = cfg"
        using rc(2) by (simp add: config_of_refs_def store_route_eq)
      then show ?thesis
        using route_memo.consistent_fill [of cfg "rc_byKey rc" q] rc qc that
        by (simp add: routes_ok_def store_route_eq ref key_def)
    qed
    then have "router_ok \<lparr>rs_agents = lc, rs_evaluated = Some ec',
        rs_routes = (if use then Some (store_route key ?r (the (rs_routes st'))) else rs_routes st')\<rparr>"
      using pa(2) ix(2) ok' by (auto simp: router_ok_def opt_ok_def st'_def)
    then show ?thesis using res ref by (simp add: q_def)
  qed
qed

text \<open>A sequence of requests on the state of one configuration object, whose properties may be
  replaced between requests.\<close>

fun resolve_all ::
  "(bool \<times> RoutingConfig \<times> ResolveAgentRouteInput) list \<Rightarrow> RouterState \<Rightarrow> ResolvedAgentRoute list" where
  "resolve_all [] st = []"
| "resolve_all ((log, cfg, input) # reqs) st =
     (case resolveAgentRoute log cfg input st of (route, st') \<Rightarrow> route # resolve_all reqs st')"

lemma resolve_all_reference:
  "router_ok st \<Longrightarrow> list_all (\<lambda>(log, cfg, input). log \<or> rc_identityLinks cfg \<noteq> None \<or> cacheable (route_query input)) reqs \<Longrightarrow>
     resolve_all reqs st = map (\<lambda>(log, cfg, input). route_reference cfg (route_query input)) reqs"
proof (induction reqs st rule: resolve_all.induct)
  case (2 log cfg input reqs st)
  obtain r st' where r: "resolveAgentRoute log cfg input st = (r, st')" by fastforce
  then show ?case
    using resolve_step [of st log cfg input] 2 by simp
qed simp

section \<open>Example\<close>

definition sample_route_input :: "RoutePeerInput option \<Rightarrow> ResolveAgentRouteInput" where
  "sample_route_input peer = \<lparr>ri_channel = Some ''telegram'', ri_accountId = None, ri_peer = peer, ri_parentPeer = None,
     ri_guildId = None, ri_teamId = None, ri_memberRoleIds = None\<rparr>"

definition group_peer :: "string \<Rightarrow> RoutePeerInput option" where
  "group_peer i = Some \<lparr>rpi_kind = Group, rpi_id = Some (EStr i)\<rparr>"

definition sample_binding :: "string \<Rightarrow> string \<Rightarrow> AgentBinding" where
  "sample_binding agent peer = \<lparr>ab_type = None, ab_agentId = agent,
     ab_match = Some \<lparr>bm_channel = Some ''telegram'', bm_accountId = Some ''*'',
       bm_peer = (if peer = [] then None else Some \<lparr>bp_kind = Some ''group'', bp_id = Some (EStr peer)\<rparr>),
       bm_guildId = None, bm_teamId = None, bm_roles = None\<rparr>,
     ab_sessionDmScope = None\<rparr>"

definition sample_config :: RoutingConfig where
  "sample_config = \<lparr>rc_bindings = Some [sample_binding ''ops'' [], sample_binding ''team'' ''42''],
     rc_agents = None, rc_dmScope = None, rc_identityLinks = None\<rparr>"

section \<open>Properties\<close>

text \<open>C1: resolving a route with empty caches finds the binding that the plain rule finds: the tiers
  in their order of priority, in each tier the first binding of the configuration, in source
  order, that concerns the channel and account and whose constraints the message meets. The
  per-channel buckets, the merge of account and wildcard bindings and the index by peer, guild
  and team lose nothing and reorder nothing.\<close>

theorem indexed_route_is_reference:
  "fst (resolveAgentRoute log cfg input empty_router) = route_reference cfg (route_query input)"
proof -
  have "fst (resolveAgentRoute log cfg input empty_router) = fst (resolveAgentRoute True cfg input empty_router)"
    by (simp add: resolveAgentRoute_def empty_router_def resolveRouteCacheForConfig_def Let_def split: prod.split)
  then show ?thesis using resolve_step [OF router_ok_empty, of True cfg input] by simp
qed

text \<open>C30: the caches are invisible on inputs whose key identifies them: any sequence of requests,
  with bindings, agents or session settings replaced in between, gets for each request the
  reference route of its own configuration, never a stale or foreign one.\<close>

theorem route_caches_transparent:
  assumes "list_all (\<lambda>(log, cfg, input). log \<or> rc_identityLinks cfg \<noteq> None \<or> cacheable (route_query input)) reqs"
  shows "resolve_all reqs empty_router = map (\<lambda>(log, cfg, input). route_reference cfg (route_query input)) reqs"
  by (rule resolve_all_reference [OF router_ok_empty assms])

theorem route_caches_transparent_witness:
  "map ar_agentId (resolve_all [(False, sample_config\<lparr>rc_bindings := Some [sample_binding ''team'' ''42'']\<rparr>, sample_route_input (group_peer ''42'')),
      (False, sample_config\<lparr>rc_bindings := None\<rparr>, sample_route_input (group_peer ''42''))] empty_router)
   = [''team'', ''main'']"
proof -
  have 1: "list_all (\<lambda>(log, cfg, input). log \<or> rc_identityLinks cfg \<noteq> None \<or> cacheable (route_query input))
     [(False, sample_config\<lparr>rc_bindings := Some [sample_binding ''team'' ''42'']\<rparr>, sample_route_input (group_peer ''42'')),
      (False, sample_config\<lparr>rc_bindings := None\<rparr>, sample_route_input (group_peer ''42''))]"
    by code_simp
  show ?thesis unfolding route_caches_transparent [OF 1] by code_simp
qed

text \<open>The cache key does not tell a message without peer from one whose peer has an empty id.
  After a request without peer, a group message with an empty group id gets the cached route,
  with the main session key, where a fresh resolution gives it a group session of its own.\<close>

lemma empty_peer_id_gets_cached_main_session:
  "map ar_sessionKey (resolve_all [(False, sample_config\<lparr>rc_bindings := None\<rparr>, sample_route_input None),
      (False, sample_config\<lparr>rc_bindings := None\<rparr>, sample_route_input (group_peer []))] empty_router)
     = [''agent:main:main'', ''agent:main:main'']
   \<and> map ar_sessionKey (resolve_all [(False, sample_config\<lparr>rc_bindings := None\<rparr>, sample_route_input (group_peer []))] empty_router)
     = [''agent:main:telegram:group:unknown'']"
  by code_simp

end
