(* ===== verification/JsNumber.thy ===== *)
theory JsNumber
  imports Complex_Main
begin

text \<open>
  JavaScript numbers, as far as the code computes with them: finite values are rationals (rounding
  of floating point is not modelled), with the infinities and NaN; floors bounded below, the
  comparisons that NaN makes false, and \<open>Math.round\<close>, which rounds halves up.
\<close>

datatype js_number = Fin rat | PosInf | NegInf | NaN

definition num_at_most :: "js_number \<Rightarrow> int \<Rightarrow> bool" where
  "num_at_most n b = (case n of Fin q \<Rightarrow> q \<le> of_int b | PosInf \<Rightarrow> False | NegInf \<Rightarrow> True | NaN \<Rightarrow> False)"

text \<open>\<open>Math.max(min, Math.floor(n))\<close> of a number.\<close>

datatype js_limit = LimitInt int | LimitInf | LimitNaN

definition floor_max :: "int \<Rightarrow> js_number \<Rightarrow> js_limit" where
  "floor_max mn n =
    (case n of Fin q \<Rightarrow> LimitInt (max mn \<lfloor>q\<rfloor>) | PosInf \<Rightarrow> LimitInf | NegInf \<Rightarrow> LimitInt mn | NaN \<Rightarrow> LimitNaN)"

definition below_limit :: "nat \<Rightarrow> js_limit \<Rightarrow> bool" where
  "below_limit n lmt = (case lmt of LimitInt m \<Rightarrow> int n < m | LimitInf \<Rightarrow> True | LimitNaN \<Rightarrow> False)"

definition positive_limit :: "js_limit \<Rightarrow> bool" where
  "positive_limit lmt = (case lmt of LimitInt m \<Rightarrow> 0 < m | LimitInf \<Rightarrow> True | LimitNaN \<Rightarrow> False)"

text \<open>\<open>n >= limit\<close> for an integer.\<close>

definition reaches_limit :: "int \<Rightarrow> js_limit \<Rightarrow> bool" where
  "reaches_limit n lmt = (case lmt of LimitInt m \<Rightarrow> m \<le> n | LimitInf \<Rightarrow> False | LimitNaN \<Rightarrow> False)"

text \<open>\<open>Math.max(0, limit - n)\<close>.\<close>

definition limit_minus :: "js_limit \<Rightarrow> int \<Rightarrow> js_limit" where
  "limit_minus lmt n = (case lmt of LimitInt m \<Rightarrow> LimitInt (max 0 (m - n)) | LimitInf \<Rightarrow> LimitInf | LimitNaN \<Rightarrow> LimitNaN)"

definition js_round :: "rat \<Rightarrow> int" where
  "js_round q = \<lfloor>q + 1 / 2\<rfloor>"

definition js_trunc :: "rat \<Rightarrow> int" where
  "js_trunc q = (if 0 \<le> q then \<lfloor>q\<rfloor> else \<lceil>q\<rceil>)"

end
