(* ===== verification/CommandQueue.thy ===== *)
theory CommandQueue
  imports JsNumber SessionKeys JsMap "HOL-Library.Multiset"
begin

text \<open>
  The in-process command queue (src/src/process/command-queue.ts, lanes.ts,
  command-queue.types.ts): lanes with a priority queue and a concurrency limit, generations
  that make completions of an interrupted run stale, and waiters for the active tasks. The
  promise of an entry is named by its sequence number; what happens to promises, waiters and
  callbacks is emitted as a list of events. The closures of started tasks, which the runtime
  keeps, are the list \<open>qs_running\<close>. A wait callback does not call back into the queue.
\<close>

section \<open>State\<close>

definition main_lane :: string where "main_lane = ''main''"

datatype QueueError = TaskFailed | CommandLaneCleared string | CommandLaneTaskTimeout string int | GatewayDraining

datatype Outcome = Resolved | Rejected QueueError

datatype QueuePriority = Foreground | NormalPriority | Background

record CommandQueueEnqueueOptions =
  eo_warnAfterMs :: "js_number option"
  eo_hasOnWait :: bool
  eo_taskTimeoutMs :: "js_number option"
  eo_priority :: "QueuePriority option"

record QueueEntry =
  qe_enqueuedAt :: int
  qe_sequence :: nat
  qe_priority :: int
  qe_warnAfterMs :: js_number
  qe_queuedAheadAtEnqueue :: nat
  qe_activeAheadAtEnqueue :: nat
  qe_taskTimeoutMs :: "int option"
  qe_hasOnWait :: bool

record LaneState =
  ls_lane :: string
  ls_queue :: "QueueEntry list"
  ls_activeTaskIds :: "nat list"
  ls_maxConcurrent :: js_limit
  ls_draining :: bool
  ls_generation :: nat

record CommandLaneSnapshot =
  sn_lane :: string
  sn_queuedCount :: nat
  sn_activeCount :: nat
  sn_maxConcurrent :: js_limit
  sn_draining :: bool
  sn_generation :: nat

record ActiveTaskWaiter =
  aw_id :: nat
  aw_timeout :: "js_number option"
  aw_activeTaskIds :: "nat list"

record RunningTask =
  rn_lane :: string
  rn_taskId :: nat
  rn_generation :: nat
  rn_entry :: QueueEntry
  rn_startedAtMs :: int

record QueueState =
  qs_gatewayDraining :: bool
  qs_lanes :: "(string, LaneState) jsmap"
  qs_activeTaskWaiters :: "ActiveTaskWaiter list"
  qs_nextTaskId :: nat
  qs_nextQueueSequence :: nat
  qs_running :: "RunningTask list"
  qs_nextWaiterId :: nat

datatype QueueEmit =
  EmitWait nat int nat
| EmitStart nat nat
| EmitSettle nat Outcome
| EmitRefused QueueError
| EmitWaiter nat bool

definition initial_queue :: QueueState where
  "initial_queue = \<lparr>qs_gatewayDraining = False, qs_lanes = [], qs_activeTaskWaiters = [],
     qs_nextTaskId = 1, qs_nextQueueSequence = 1, qs_running = [], qs_nextWaiterId = 1\<rparr>"

definition max_sequence :: "QueueState \<Rightarrow> nat" where
  "max_sequence s = foldl max (qs_nextQueueSequence s - 1)
     (map qe_sequence (concat (map (\<lambda>(k, l). ls_queue l) (qs_lanes s))))"

text \<open>The singleton with its sequence counter repaired; entries always carry their fields here.\<close>

definition getQueueState :: "QueueState \<Rightarrow> QueueState" where
  "getQueueState s =
    (let s = (if qs_nextQueueSequence s = 0 then s\<lparr>qs_nextQueueSequence := 1\<rparr> else s)
     in if qs_nextQueueSequence s \<le> max_sequence s then s\<lparr>qs_nextQueueSequence := max_sequence s + 1\<rparr> else s)"

section \<open>Lanes\<close>

definition normalizeLane :: "string \<Rightarrow> string" where
  "normalizeLane lane = or_default (js_trim lane) main_lane"

definition getLaneDepth :: "LaneState \<Rightarrow> nat" where
  "getLaneDepth st = length (ls_queue st) + length (ls_activeTaskIds st)"

definition createCommandLaneSnapshot :: "LaneState \<Rightarrow> CommandLaneSnapshot" where
  "createCommandLaneSnapshot st =
    \<lparr>sn_lane = ls_lane st, sn_queuedCount = length (ls_queue st), sn_activeCount = length (ls_activeTaskIds st),
     sn_maxConcurrent = ls_maxConcurrent st, sn_draining = ls_draining st, sn_generation = ls_generation st\<rparr>"

definition new_lane :: "string \<Rightarrow> LaneState" where
  "new_lane lane = \<lparr>ls_lane = lane, ls_queue = [], ls_activeTaskIds = [], ls_maxConcurrent = LimitInt 1,
     ls_draining = False, ls_generation = 0\<rparr>"

definition put_lane :: "string \<Rightarrow> LaneState \<Rightarrow> QueueState \<Rightarrow> QueueState" where
  "put_lane lane st s = s\<lparr>qs_lanes := jm_set lane st (qs_lanes s)\<rparr>"

definition getLaneState :: "string \<Rightarrow> QueueState \<Rightarrow> LaneState \<times> QueueState" where
  "getLaneState lane s =
    (let s = getQueueState s in
     case jm_get (qs_lanes s) lane of
       Some existing \<Rightarrow> (existing, s)
     | None \<Rightarrow> (new_lane lane, put_lane lane (new_lane lane) s))"

definition completeTask :: "LaneState \<Rightarrow> nat \<Rightarrow> nat \<Rightarrow> LaneState option" where
  "completeTask st taskId taskGeneration =
    (if taskGeneration \<noteq> ls_generation st then None
     else Some (st\<lparr>ls_activeTaskIds := removeAll taskId (ls_activeTaskIds st)\<rparr>))"

section \<open>Waiters\<close>

definition hasPendingActiveTasks :: "QueueState \<Rightarrow> nat list \<Rightarrow> bool" where
  "hasPendingActiveTasks s taskIds =
    list_ex (\<lambda>(k, l). list_ex (\<lambda>t. t \<in> set taskIds) (ls_activeTaskIds l)) (qs_lanes s)"

definition waiter_done :: "QueueState \<Rightarrow> ActiveTaskWaiter \<Rightarrow> bool" where
  "waiter_done s w \<longleftrightarrow> aw_activeTaskIds w = [] \<or> \<not> hasPendingActiveTasks s (aw_activeTaskIds w)"

definition notifyActiveTaskWaiters :: "QueueState \<Rightarrow> QueueState \<times> QueueEmit list" where
  "notifyActiveTaskWaiters s =
    (s\<lparr>qs_activeTaskWaiters := filter (\<lambda>w. \<not> waiter_done s w) (qs_activeTaskWaiters s)\<rparr>,
     map (\<lambda>w. EmitWaiter (aw_id w) True) (filter (waiter_done s) (qs_activeTaskWaiters s)))"

definition resolveActiveTaskWaiter :: "nat \<Rightarrow> bool \<Rightarrow> QueueState \<Rightarrow> QueueState \<times> QueueEmit list" where
  "resolveActiveTaskWaiter i drained s =
    (if i \<notin> set (map aw_id (qs_activeTaskWaiters s)) then (s, [])
     else (s\<lparr>qs_activeTaskWaiters := filter (\<lambda>w. aw_id w \<noteq> i) (qs_activeTaskWaiters s)\<rparr>, [EmitWaiter i drained]))"

section \<open>Enqueueing and pumping\<close>

definition normalizeTaskTimeoutMs :: "js_number option \<Rightarrow> int option" where
  "normalizeTaskTimeoutMs v =
    (case v of Some (Fin q) \<Rightarrow> if q \<le> 0 then None else Some (max 1 \<lfloor>q\<rfloor>) | _ \<Rightarrow> None)"

definition resolveQueuePriority :: "QueuePriority option \<Rightarrow> int" where
  "resolveQueuePriority p = (case p of Some Foreground \<Rightarrow> 1 | Some Background \<Rightarrow> -1 | _ \<Rightarrow> 0)"

definition runs_after :: "QueueEntry \<Rightarrow> QueueEntry \<Rightarrow> bool" where
  "runs_after queued entry \<longleftrightarrow> qe_priority queued < qe_priority entry
     \<or> qe_priority queued = qe_priority entry \<and> qe_sequence queued > qe_sequence entry"

definition enqueueLaneEntry :: "LaneState \<Rightarrow> QueueEntry \<Rightarrow> LaneState" where
  "enqueueLaneEntry st entry =
    (let insertAt = find_index (\<lambda>queued. runs_after queued entry) (ls_queue st);
         entry' = entry\<lparr>qe_queuedAheadAtEnqueue := or_else insertAt (length (ls_queue st)),
                        qe_activeAheadAtEnqueue := length (ls_activeTaskIds st)\<rparr>
     in case insertAt of
          None \<Rightarrow> st\<lparr>ls_queue := ls_queue st @ [entry']\<rparr>
        | Some i \<Rightarrow> st\<lparr>ls_queue := take i (ls_queue st) @ entry' # drop i (ls_queue st)\<rparr>)"

definition start_entry :: "int \<Rightarrow> string \<Rightarrow> nat \<Rightarrow> nat \<Rightarrow> QueueEntry \<Rightarrow> RunningTask" where
  "start_entry now lane generation taskId entry =
    \<lparr>rn_lane = lane, rn_taskId = taskId, rn_generation = generation, rn_entry = entry, rn_startedAtMs = now\<rparr>"

definition wait_emits :: "int \<Rightarrow> QueueEntry \<Rightarrow> QueueEmit list" where
  "wait_emits now entry =
    (let waitedMs = now - qe_enqueuedAt entry in
     if num_at_most (qe_warnAfterMs entry) waitedMs \<and> qe_hasOnWait entry
     then [EmitWait (qe_sequence entry) waitedMs (qe_queuedAheadAtEnqueue entry)] else [])"

text \<open>The loop of \<open>pump\<close>: the active ids, the next task id, the rest of the queue, the started tasks
  and the events.\<close>

fun pump_loop ::
  "int \<Rightarrow> string \<Rightarrow> nat \<Rightarrow> js_limit \<Rightarrow> nat list \<Rightarrow> nat \<Rightarrow> QueueEntry list
    \<Rightarrow> nat list \<times> nat \<times> QueueEntry list \<times> RunningTask list \<times> QueueEmit list" where
  "pump_loop now lane gen lmt active nextId [] = (active, nextId, [], [], [])"
| "pump_loop now lane gen lmt active nextId (entry # queue) =
     (if \<not> below_limit (length active) lmt then (active, nextId, entry # queue, [], [])
      else (case pump_loop now lane gen lmt (active @ [nextId]) (nextId + 1) queue of
        (active', nextId', queue', started, emits) \<Rightarrow>
          (active', nextId', queue', start_entry now lane gen nextId entry # started,
           wait_emits now entry @ EmitStart (qe_sequence entry) nextId # emits)))"

definition pump :: "int \<Rightarrow> string \<Rightarrow> QueueState \<Rightarrow> QueueState \<times> QueueEmit list" where
  "pump now lane s =
    (let (st, s) = getLaneState lane s;
         (active, nextId, queue, started, emits) = pump_loop now lane (ls_generation st) (ls_maxConcurrent st)
            (ls_activeTaskIds st) (qs_nextTaskId s) (ls_queue st);
         st = st\<lparr>ls_activeTaskIds := active, ls_queue := queue, ls_draining := False\<rparr>
     in ((put_lane lane st s)\<lparr>qs_nextTaskId := nextId, qs_running := qs_running s @ started\<rparr>, emits))"

definition drainLane :: "int \<Rightarrow> string \<Rightarrow> QueueState \<Rightarrow> QueueState \<times> QueueEmit list" where
  "drainLane now lane s =
    (let (st, s) = getLaneState lane s in
     if ls_draining st then (s, [])
     else pump now lane (put_lane lane (st\<lparr>ls_draining := True\<rparr>) s))"

section \<open>Timeouts of running tasks\<close>

definition readLastProgressAtMs :: "int \<Rightarrow> js_number option \<Rightarrow> int" where
  "readLastProgressAtMs startedAtMs progress =
    (case progress of Some (Fin q) \<Rightarrow> if q > 0 then max startedAtMs \<lfloor>q\<rfloor> else startedAtMs | _ \<Rightarrow> startedAtMs)"

text \<open>\<open>None\<close> when the task has timed out, else the delay of the next check.\<close>

definition armTimeout :: "int \<Rightarrow> int \<Rightarrow> int \<Rightarrow> js_number option \<Rightarrow> int option" where
  "armTimeout now taskTimeoutMs startedAtMs progress =
    (let elapsedMs = max 0 (now - readLastProgressAtMs startedAtMs progress);
         remainingMs = taskTimeoutMs - elapsedMs
     in if remainingMs \<le> 0 then None else Some remainingMs)"

section \<open>Operations\<close>

definition markGatewayDraining :: "QueueState \<Rightarrow> QueueState" where
  "markGatewayDraining s = (getQueueState s)\<lparr>qs_gatewayDraining := True\<rparr>"

definition is_probe_lane :: "string \<Rightarrow> bool" where
  "is_probe_lane lane \<longleftrightarrow> starts_with lane (''auth-probe'' @ [CHR '':'']) \<or> starts_with lane (''session'' @ [CHR '':''] @ ''probe-'')"

definition setCommandLaneConcurrency :: "int \<Rightarrow> string \<Rightarrow> js_number \<Rightarrow> QueueState \<Rightarrow> QueueState \<times> QueueEmit list" where
  "setCommandLaneConcurrency now lane maxConcurrent s =
    (let cleaned = normalizeLane lane;
         (st, s) = getLaneState cleaned s;
         limit = floor_max (if is_probe_lane cleaned then 1 else 0) maxConcurrent;
         s = put_lane cleaned (st\<lparr>ls_maxConcurrent := limit\<rparr>) s
     in if positive_limit limit then drainLane now cleaned s else (s, []))"

definition enqueueCommandInLane ::
  "int \<Rightarrow> string \<Rightarrow> CommandQueueEnqueueOptions \<Rightarrow> QueueState \<Rightarrow> QueueState \<times> QueueEmit list" where
  "enqueueCommandInLane now lane opts s =
    (let s = getQueueState s in
     if qs_gatewayDraining s then (s, [EmitRefused GatewayDraining])
     else
      (let cleaned = normalizeLane lane;
           (st, s) = getLaneState cleaned s;
           entry = \<lparr>qe_enqueuedAt = now, qe_sequence = qs_nextQueueSequence s,
             qe_priority = resolveQueuePriority (eo_priority opts), qe_warnAfterMs = or_else (eo_warnAfterMs opts) (Fin 2000),
             qe_queuedAheadAtEnqueue = 0, qe_activeAheadAtEnqueue = 0,
             qe_taskTimeoutMs = normalizeTaskTimeoutMs (eo_taskTimeoutMs opts), qe_hasOnWait = eo_hasOnWait opts\<rparr>;
           s = (put_lane cleaned (enqueueLaneEntry st entry) s)\<lparr>qs_nextQueueSequence := qs_nextQueueSequence s + 1\<rparr>
       in drainLane now cleaned s))"

definition enqueueCommand :: "int \<Rightarrow> CommandQueueEnqueueOptions \<Rightarrow> QueueState \<Rightarrow> QueueState \<times> QueueEmit list" where
  "enqueueCommand now opts s = enqueueCommandInLane now main_lane opts s"

text \<open>A started task ends: the body of the asynchronous closure after \<open>runQueueEntryTask\<close>, which
  runs once per closure.\<close>

definition finish_task :: "int \<Rightarrow> RunningTask \<Rightarrow> Outcome \<Rightarrow> QueueState \<Rightarrow> QueueState \<times> QueueEmit list" where
  "finish_task now r outcome s =
    (let s = s\<lparr>qs_running := filter (\<lambda>x. rn_taskId x \<noteq> rn_taskId r) (qs_running s)\<rparr>;
         (st, s) = getLaneState (rn_lane r) s;
         settle = [EmitSettle (qe_sequence (rn_entry r)) outcome]
     in case completeTask st (rn_taskId r) (rn_generation r) of
          None \<Rightarrow> (s, settle)
        | Some st' \<Rightarrow>
           (let (s, notified) = notifyActiveTaskWaiters (put_lane (rn_lane r) st' s);
                (s, pumped) = pump now (rn_lane r) s
            in (s, notified @ pumped @ settle)))"

definition running_task :: "QueueState \<Rightarrow> nat \<Rightarrow> RunningTask option" where
  "running_task s taskId = find (\<lambda>r. rn_taskId r = taskId) (qs_running s)"

text \<open>The timer of a task fires: it has timed out, or the check is armed again.\<close>

definition fire_task_timer :: "int \<Rightarrow> nat \<Rightarrow> js_number option \<Rightarrow> QueueState \<Rightarrow> QueueState \<times> QueueEmit list" where
  "fire_task_timer now taskId progress s =
    (case running_task s taskId of
       None \<Rightarrow> (s, [])
     | Some r \<Rightarrow>
        (case normalizeTaskTimeoutMs (map_option (Fin \<circ> of_int) (qe_taskTimeoutMs (rn_entry r))) of
           None \<Rightarrow> (s, [])
         | Some ms \<Rightarrow>
            (case armTimeout now ms (rn_startedAtMs r) progress of
               Some remaining \<Rightarrow> (s, [])
             | None \<Rightarrow> finish_task now r (Rejected (CommandLaneTaskTimeout (rn_lane r) ms)) s)))"

definition clearCommandLane :: "string \<Rightarrow> QueueState \<Rightarrow> nat \<times> QueueState \<times> QueueEmit list" where
  "clearCommandLane lane s =
    (let cleaned = normalizeLane lane; s = getQueueState s in
     case jm_get (qs_lanes s) cleaned of
       None \<Rightarrow> (0, s, [])
     | Some st \<Rightarrow> (length (ls_queue st), put_lane cleaned (st\<lparr>ls_queue := []\<rparr>) s,
         map (\<lambda>e. EmitSettle (qe_sequence e) (Rejected (CommandLaneCleared cleaned))) (ls_queue st)))"

definition idle_lane :: "LaneState \<Rightarrow> LaneState" where
  "idle_lane st = st\<lparr>ls_generation := ls_generation st + 1, ls_activeTaskIds := [], ls_draining := False\<rparr>"

definition resetCommandLane :: "int \<Rightarrow> string \<Rightarrow> QueueState \<Rightarrow> nat \<times> QueueState \<times> QueueEmit list" where
  "resetCommandLane now lane s =
    (let cleaned = normalizeLane lane; s = getQueueState s in
     case jm_get (qs_lanes s) cleaned of
       None \<Rightarrow> (0, s, [])
     | Some st \<Rightarrow>
        (let s = put_lane cleaned (idle_lane st) s;
             (s, drained) = (if ls_queue st \<noteq> [] then drainLane now cleaned s else (s, []));
             (s, notified) = notifyActiveTaskWaiters s
         in (length (ls_activeTaskIds st), s, drained @ notified)))"

fun drain_lanes :: "int \<Rightarrow> string list \<Rightarrow> QueueState \<Rightarrow> QueueState \<times> QueueEmit list" where
  "drain_lanes now [] s = (s, [])"
| "drain_lanes now (lane # lanes) s =
     (let (s, emits) = drainLane now lane s; (s, rest) = drain_lanes now lanes s in (s, emits @ rest))"

definition resetAllLanes :: "int \<Rightarrow> QueueState \<Rightarrow> QueueState \<times> QueueEmit list" where
  "resetAllLanes now s =
    (let s = getQueueState s;
         lanesToDrain = map (\<lambda>(k, l). ls_lane l) (filter (\<lambda>(k, l). ls_queue l \<noteq> []) (qs_lanes s));
         s = s\<lparr>qs_gatewayDraining := False, qs_lanes := map (\<lambda>(k, l). (k, idle_lane l)) (qs_lanes s)\<rparr>;
         (s, drained) = drain_lanes now lanesToDrain s;
         (s, notified) = notifyActiveTaskWaiters s
     in (s, drained @ notified))"

definition active_ids :: "QueueState \<Rightarrow> nat list" where
  "active_ids s = concat (map (\<lambda>(k, l). ls_activeTaskIds l) (qs_lanes s))"

text \<open>The promise of \<open>waitForActiveTasks\<close> is named by a waiter number.\<close>

definition waitForActiveTasks :: "js_number option \<Rightarrow> QueueState \<Rightarrow> QueueState \<times> QueueEmit list" where
  "waitForActiveTasks timeoutMs s =
    (let s = getQueueState s; activeAtStart = active_ids s; i = qs_nextWaiterId s;
         s = s\<lparr>qs_nextWaiterId := i + 1\<rparr>
     in if activeAtStart = [] then (s, [EmitWaiter i True])
        else if (case timeoutMs of Some t \<Rightarrow> num_at_most t 0 | None \<Rightarrow> False) then (s, [EmitWaiter i False])
        else notifyActiveTaskWaiters (s\<lparr>qs_activeTaskWaiters := qs_activeTaskWaiters s
               @ [\<lparr>aw_id = i, aw_timeout = timeoutMs, aw_activeTaskIds = activeAtStart\<rparr>]\<rparr>))"

definition fire_waiter_timeout :: "nat \<Rightarrow> QueueState \<Rightarrow> QueueState \<times> QueueEmit list" where
  "fire_waiter_timeout i s =
    (if list_ex (\<lambda>w. aw_id w = i \<and> aw_timeout w \<noteq> None) (qs_activeTaskWaiters s)
     then resolveActiveTaskWaiter i False s else (s, []))"

text \<open>The hard reset of test suites; it is no operation of the transition system below.\<close>

definition resetCommandQueueStateForTest :: "QueueState \<Rightarrow> QueueState \<times> QueueEmit list" where
  "resetCommandQueueStateForTest s =
    (let s = getQueueState s in
     (s\<lparr>qs_gatewayDraining := False, qs_lanes := [], qs_activeTaskWaiters := [],
         qs_nextTaskId := 1, qs_nextQueueSequence := 1\<rparr>,
      map (\<lambda>w. EmitWaiter (aw_id w) True) (qs_activeTaskWaiters s)))"

section \<open>Reads\<close>

definition getQueueSize :: "string \<Rightarrow> QueueState \<Rightarrow> nat" where
  "getQueueSize lane s =
    (case jm_get (qs_lanes (getQueueState s)) (normalizeLane lane) of None \<Rightarrow> 0 | Some st \<Rightarrow> getLaneDepth st)"

definition getCommandLaneSnapshot :: "string \<Rightarrow> QueueState \<Rightarrow> CommandLaneSnapshot" where
  "getCommandLaneSnapshot lane s =
    (case jm_get (qs_lanes (getQueueState s)) (normalizeLane lane) of
       None \<Rightarrow> createCommandLaneSnapshot (new_lane (normalizeLane lane))
     | Some st \<Rightarrow> createCommandLaneSnapshot st)"

definition getCommandLaneSnapshots :: "(string \<Rightarrow> string \<Rightarrow> int) \<Rightarrow> QueueState \<Rightarrow> CommandLaneSnapshot list" where
  "getCommandLaneSnapshots localeCompare s =
    js_sort (\<lambda>a b. localeCompare (sn_lane a) (sn_lane b))
      (map (\<lambda>(k, l). createCommandLaneSnapshot l) (qs_lanes (getQueueState s)))"

definition getTotalQueueSize :: "QueueState \<Rightarrow> nat" where
  "getTotalQueueSize s = sum_list (map (\<lambda>(k, l). getLaneDepth l) (qs_lanes (getQueueState s)))"

definition getActiveTaskCount :: "QueueState \<Rightarrow> nat" where
  "getActiveTaskCount s = sum_list (map (\<lambda>(k, l). length (ls_activeTaskIds l)) (qs_lanes (getQueueState s)))"

section \<open>The queue as a transition system\<close>

datatype QueueOp =
  OpEnqueue int string CommandQueueEnqueueOptions
| OpFinish int nat Outcome
| OpTimer int nat "js_number option"
| OpSetConcurrency int string js_number
| OpClear string
| OpResetLane int string
| OpResetAll int
| OpMarkDraining
| OpWait "js_number option"
| OpWaiterTimeout nat

text \<open>A task that has ended or timed out before does not end again.\<close>

fun queue_op :: "QueueOp \<Rightarrow> QueueState \<Rightarrow> QueueState \<times> QueueEmit list" where
  "queue_op (OpEnqueue now lane opts) s = enqueueCommandInLane now lane opts s"
| "queue_op (OpFinish now taskId outcome) s =
     (case running_task s taskId of None \<Rightarrow> (s, []) | Some r \<Rightarrow> finish_task now r outcome s)"
| "queue_op (OpTimer now taskId progress) s = fire_task_timer now taskId progress s"
| "queue_op (OpSetConcurrency now lane n) s = setCommandLaneConcurrency now lane n s"
| "queue_op (OpClear lane) s = snd (clearCommandLane lane s)"
| "queue_op (OpResetLane now lane) s = snd (resetCommandLane now lane s)"
| "queue_op (OpResetAll now) s = resetAllLanes now s"
| "queue_op OpMarkDraining s = (markGatewayDraining s, [])"
| "queue_op (OpWait timeoutMs) s = waitForActiveTasks timeoutMs s"
| "queue_op (OpWaiterTimeout i) s = fire_waiter_timeout i s"

inductive queue_step :: "QueueState \<Rightarrow> QueueState \<Rightarrow> bool" where
  queue_stepI: "queue_op op s = (t, emits) \<Longrightarrow> queue_step s t"

inductive_cases queue_stepE: "queue_step s t"

fun queue_run :: "QueueOp list \<Rightarrow> QueueState \<Rightarrow> QueueState \<times> QueueEmit list" where
  "queue_run [] s = (s, [])"
| "queue_run (op # ops) s =
     (let (t, emits) = queue_op op s; (u, rest) = queue_run ops t in (u, emits @ rest))"

end
