(* ===== verification/CommandQueueProps.thy ===== *)
theory CommandQueueProps
  imports CommandQueue
begin

text \<open>
  The invariant of the command queue, its preservation by every operation, the conservation of
  promises, and the properties that follow for every sequence of operations.
\<close>

section \<open>The invariant\<close>

definition lane_core :: "QueueState \<Rightarrow> string \<Rightarrow> LaneState \<Rightarrow> bool" where
  "lane_core s k l \<longleftrightarrow> ls_lane l = k
     \<and> sorted_wrt (\<lambda>a b. runs_after b a) (ls_queue l)
     \<and> (\<forall>e \<in> set (ls_queue l). qe_sequence e < qs_nextQueueSequence s)
     \<and> distinct (ls_activeTaskIds l)
     \<and> set (ls_activeTaskIds l)
         = rn_taskId ` {r \<in> set (qs_running s). rn_lane r = k \<and> rn_generation r = ls_generation l}"

definition lane_settled :: "LaneState \<Rightarrow> bool" where
  "lane_settled l \<longleftrightarrow> \<not> ls_draining l
     \<and> (ls_queue l = [] \<or> \<not> below_limit (length (ls_activeTaskIds l)) (ls_maxConcurrent l))"

definition running_core :: "QueueState \<Rightarrow> RunningTask \<Rightarrow> bool" where
  "running_core s r \<longleftrightarrow> rn_taskId r < qs_nextTaskId s
     \<and> (case jm_get (qs_lanes s) (rn_lane r) of None \<Rightarrow> False | Some l \<Rightarrow> rn_generation r \<le> ls_generation l)"

definition core_inv :: "QueueState \<Rightarrow> bool" where
  "core_inv s \<longleftrightarrow> jm_wf (qs_lanes s) \<and> 1 \<le> qs_nextQueueSequence s
     \<and> (\<forall>(k, l) \<in> set (qs_lanes s). lane_core s k l)
     \<and> distinct (map rn_taskId (qs_running s))
     \<and> (\<forall>r \<in> set (qs_running s). running_core s r)"

definition lanes_settled :: "QueueState \<Rightarrow> bool" where
  "lanes_settled s \<longleftrightarrow> (\<forall>(k, l) \<in> set (qs_lanes s). lane_settled l)"

definition waiters_pending :: "QueueState \<Rightarrow> bool" where
  "waiters_pending s \<longleftrightarrow> (\<forall>w \<in> set (qs_activeTaskWaiters s). \<not> waiter_done s w)"

definition queue_inv :: "QueueState \<Rightarrow> bool" where
  "queue_inv s \<longleftrightarrow> core_inv s \<and> lanes_settled s \<and> waiters_pending s"

definition lane_at :: "QueueState \<Rightarrow> string \<Rightarrow> LaneState option" where
  "lane_at s k = jm_get (qs_lanes s) k"

lemma core_lane: "core_inv s \<Longrightarrow> lane_at s k = Some l \<Longrightarrow> lane_core s k l"
  unfolding core_inv_def lane_at_def by (auto dest: jm_get_SomeD)

lemma core_lanesI:
  assumes "jm_wf (qs_lanes s)" "1 \<le> qs_nextQueueSequence s"
    and "\<And>k l. lane_at s k = Some l \<Longrightarrow> lane_core s k l"
    and "distinct (map rn_taskId (qs_running s))"
    and "\<And>r. r \<in> set (qs_running s) \<Longrightarrow> running_core s r"
  shows "core_inv s"
  unfolding core_inv_def using assms by (auto simp: lane_at_def jm_get_in_set)

lemma core_wf: "core_inv s \<Longrightarrow> jm_wf (qs_lanes s)"
  by (simp add: core_inv_def)

lemma core_running: "core_inv s \<Longrightarrow> r \<in> set (qs_running s) \<Longrightarrow> running_core s r"
  by (simp add: core_inv_def)

lemma lanes_settled_iff:
  "jm_wf (qs_lanes s) \<Longrightarrow> lanes_settled s \<longleftrightarrow> (\<forall>k l. lane_at s k = Some l \<longrightarrow> lane_settled l)"
  unfolding lanes_settled_def lane_at_def by (auto simp: jm_get_in_set)

lemma foldl_max_le: "foldl max a xs \<le> (b::nat) \<longleftrightarrow> a \<le> b \<and> (\<forall>x \<in> set xs. x \<le> b)"
  by (induction xs arbitrary: a) auto

lemma core_sequence:
  assumes "core_inv s"
  shows "1 \<le> qs_nextQueueSequence s \<and> \<not> qs_nextQueueSequence s \<le> max_sequence s"
proof -
  have pos: "1 \<le> qs_nextQueueSequence s" using assms by (simp add: core_inv_def)
  have "max_sequence s \<le> qs_nextQueueSequence s - 1"
    unfolding max_sequence_def foldl_max_le
    using assms pos by (fastforce simp: core_inv_def lane_core_def)
  then show ?thesis using pos by linarith
qed

lemma getQueueState_id [simp]: "core_inv s \<Longrightarrow> getQueueState s = s"
  using core_sequence [of s] by (simp add: getQueueState_def)

lemma lane_at_put [simp]: "lane_at (put_lane k st s) = (lane_at s)(k \<mapsto> st)"
  by (auto simp: lane_at_def put_lane_def)

lemma lane_at_upd [simp]:
  "lane_at (s\<lparr>qs_nextQueueSequence := n\<rparr>) = lane_at s"
  "lane_at (s\<lparr>qs_running := rs\<rparr>) = lane_at s"
  "lane_at (s\<lparr>qs_gatewayDraining := b\<rparr>) = lane_at s"
  "lane_at (s\<lparr>qs_activeTaskWaiters := ws\<rparr>) = lane_at s"
  "lane_at (s\<lparr>qs_nextWaiterId := n\<rparr>) = lane_at s"
  by (auto simp: lane_at_def)

lemma put_lane_sel [simp]:
  "qs_gatewayDraining (put_lane k st s) = qs_gatewayDraining s"
  "qs_activeTaskWaiters (put_lane k st s) = qs_activeTaskWaiters s"
  "qs_nextTaskId (put_lane k st s) = qs_nextTaskId s"
  "qs_nextQueueSequence (put_lane k st s) = qs_nextQueueSequence s"
  "qs_running (put_lane k st s) = qs_running s"
  "qs_nextWaiterId (put_lane k st s) = qs_nextWaiterId s"
  "qs_lanes (put_lane k st s) = jm_set k st (qs_lanes s)"
  by (simp_all add: put_lane_def)

text \<open>Replacing the state of one lane keeps the core invariant when the new state is well formed
  and its generation has not decreased.\<close>

lemma core_put:
  assumes "core_inv s" and "lane_core s k st"
    and "\<And>l. lane_at s k = Some l \<Longrightarrow> ls_generation l \<le> ls_generation st"
  shows "core_inv (put_lane k st s)"
proof (rule core_lanesI)
  show "jm_wf (qs_lanes (put_lane k st s))" using assms(1) by (simp add: core_wf)
  show "1 \<le> qs_nextQueueSequence (put_lane k st s)" using assms(1) by (simp add: core_inv_def)
  fix k' l assume "lane_at (put_lane k st s) k' = Some l"
  then show "lane_core (put_lane k st s) k' l"
    using core_lane [OF assms(1)] assms(2) by (auto simp: lane_core_def split: if_splits)
next
  show "distinct (map rn_taskId (qs_running (put_lane k st s)))" using assms(1) by (simp add: core_inv_def)
  fix r assume "r \<in> set (qs_running (put_lane k st s))"
  then have "running_core s r" using core_running [OF assms(1)] by simp
  then show "running_core (put_lane k st s) r"
    using assms(3) by (auto simp: running_core_def lane_at_def split: option.splits intro: order_trans)
qed

text \<open>A lane field that neither the queue nor the bookkeeping of active tasks depends on.\<close>

lemma lane_core_limit [simp]:
  "lane_core s k (l\<lparr>ls_maxConcurrent := m\<rparr>) = lane_core s k l"
  "lane_core s k (l\<lparr>ls_draining := b\<rparr>) = lane_core s k l"
  by (simp_all add: lane_core_def)

lemma lane_core_new:
  assumes "core_inv s" "lane_at s k = None"
  shows "lane_core s k (new_lane k)"
proof -
  have "rn_lane r \<noteq> k" if "r \<in> set (qs_running s)" for r
    using core_running [OF assms(1) that] assms(2) by (auto simp: running_core_def lane_at_def)
  then have "{r \<in> set (qs_running s). rn_lane r = k \<and> rn_generation r = 0} = {}" by blast
  then show ?thesis by (simp add: lane_core_def new_lane_def)
qed

lemma getLaneState_core:
  assumes "core_inv s" "getLaneState k s = (st, t)"
  shows "core_inv t \<and> lane_at t k = Some st \<and> lane_at t = (lane_at s)(k \<mapsto> st)
    \<and> (lane_at s k = Some st \<and> t = s \<or> lane_at s k = None \<and> st = new_lane k \<and> t = put_lane k st s)"
proof (cases "lane_at s k")
  case None
  then have "st = new_lane k \<and> t = put_lane k st s"
    using assms by (auto simp: getLaneState_def lane_at_def)
  then show ?thesis using None core_put [OF assms(1) lane_core_new [OF assms(1) None]] by auto
next
  case (Some l)
  then have "st = l \<and> t = s" using assms by (auto simp: getLaneState_def lane_at_def)
  then show ?thesis using Some assms(1) by (auto simp: fun_upd_idem)
qed

lemma getLaneState_existing:
  "core_inv s \<Longrightarrow> lane_at s k = Some st \<Longrightarrow> getLaneState k s = (st, s)"
  by (simp add: getLaneState_def lane_at_def)

section \<open>The pump\<close>

lemma pump_loop_closed:
  "pump_loop now lane gen lmt active n queue = (a', n', q', st, em) \<Longrightarrow>
    \<exists>k \<le> length queue. q' = drop k queue \<and> n' = n + k \<and> a' = active @ [n..<n + k]
      \<and> map rn_entry st = take k queue \<and> map rn_taskId st = [n..<n + k]
      \<and> (\<forall>r \<in> set st. rn_lane r = lane \<and> rn_generation r = gen)
      \<and> (q' = [] \<or> \<not> below_limit (length a') lmt)
      \<and> (\<forall>e \<in> set em. (\<exists>i w a. e = EmitWait i w a) \<or> (\<exists>i tid. e = EmitStart i tid))"
proof (induction queue arbitrary: active n a' n' q' st em)
  case Nil
  then show ?case by auto
next
  case (Cons e queue)
  show ?case
  proof (cases "below_limit (length active) lmt")
    case False
    then have eqs: "q' = e # queue" "n' = n" "a' = active" "st = []" "em = []" using Cons.prems by auto
    show ?thesis using False by (intro exI [of _ 0]) (simp add: eqs)
  next
    case True
    obtain a2 n2 q2 s2 e2 where rec: "pump_loop now lane gen lmt (active @ [n]) (n + 1) queue = (a2, n2, q2, s2, e2)"
      by (metis prod_cases5)
    have eqs: "a' = a2" "n' = n2" "q' = q2" "st = start_entry now lane gen n e # s2"
      "em = wait_emits now e @ EmitStart (qe_sequence e) n # e2"
      using Cons.prems True rec by auto
    have w: "\<forall>x \<in> set (wait_emits now e). \<exists>i w a. x = EmitWait i w a"
      by (auto simp: wait_emits_def Let_def)
    obtain k where k: "k \<le> length queue" "q2 = drop k queue" "n2 = n + 1 + k" "a2 = (active @ [n]) @ [n + 1..<n + 1 + k]"
      "map rn_entry s2 = take k queue" "map rn_taskId s2 = [n + 1..<n + 1 + k]"
      "\<forall>r \<in> set s2. rn_lane r = lane \<and> rn_generation r = gen"
      "q2 = [] \<or> \<not> below_limit (length a2) lmt"
      "\<forall>e \<in> set e2. (\<exists>i w a. e = EmitWait i w a) \<or> (\<exists>i tid. e = EmitStart i tid)"
      using Cons.IH [OF rec] by blast
    have up: "[n..<n + Suc k] = n # [n + 1..<n + 1 + k]" by (simp add: upt_conv_Cons)
    have l: "k \<le> length queue" by (rule k(1))
    show ?thesis
    proof (intro exI [of _ "Suc k"] conjI)
      show "a' = active @ [n..<n + Suc k]" unfolding up eqs k(4) by simp
      show "map rn_taskId st = [n..<n + Suc k]" unfolding up eqs by (simp add: k(6) start_entry_def)
      show "\<forall>x \<in> set em. (\<exists>i w a. x = EmitWait i w a) \<or> (\<exists>i tid. x = EmitStart i tid)"
        unfolding eqs using w k(9) by auto
    qed (use k eqs in \<open>auto simp: start_entry_def\<close>)
  qed
qed

fun settled_seqs :: "QueueEmit list \<Rightarrow> nat list" where
  "settled_seqs [] = []"
| "settled_seqs (EmitSettle i outcome # em) = i # settled_seqs em"
| "settled_seqs (_ # em) = settled_seqs em"

lemma settled_append [simp]: "settled_seqs (xs @ ys) = settled_seqs xs @ settled_seqs ys"
  by (induction xs rule: settled_seqs.induct) auto

lemma settled_none:
  "(\<And>e. e \<in> set em \<Longrightarrow> \<forall>i outcome. e \<noteq> EmitSettle i outcome) \<Longrightarrow> settled_seqs em = []"
  by (induction em rule: settled_seqs.induct) fastforce+

definition queued_mset :: "QueueState \<Rightarrow> nat multiset" where
  "queued_mset s = sum_list (map (\<lambda>(k, l). mset (map qe_sequence (ls_queue l))) (qs_lanes s))"

definition running_mset :: "QueueState \<Rightarrow> nat multiset" where
  "running_mset s = mset (map (qe_sequence \<circ> rn_entry) (qs_running s))"

definition open_promises :: "QueueState \<Rightarrow> nat multiset" where
  "open_promises s = queued_mset s + running_mset s"

lemma sum_jm_set:
  fixes f :: "'k \<times> 'v \<Rightarrow> nat multiset"
  assumes "jm_wf m"
  shows "sum_list (map f (jm_set k v m)) + (case jm_get m k of None \<Rightarrow> {#} | Some u \<Rightarrow> f (k, u))
    = sum_list (map f m) + f (k, v)"
  using assms
proof (induction m)
  case (Cons p m)
  obtain k' v' where p: "p = (k', v')" by force
  have wf: "jm_wf m" using Cons.prems by (simp add: jm_wf_def)
  show ?case
  proof (cases "k' = k")
    case True
    then show ?thesis using p by (simp add: ac_simps)
  next
    case False
    then show ?thesis using p Cons.IH [OF wf] by (simp add: ac_simps)
  qed
qed simp

lemma queued_put:
  assumes "core_inv s"
  shows "queued_mset (put_lane k st s) + (case lane_at s k of None \<Rightarrow> {#} | Some l \<Rightarrow> mset (map qe_sequence (ls_queue l)))
    = queued_mset s + mset (map qe_sequence (ls_queue st))"
  using sum_jm_set [OF core_wf [OF assms], of "\<lambda>(k, l). mset (map qe_sequence (ls_queue l))" k st]
  by (simp add: queued_mset_def lane_at_def cong: option.case_cong)

lemma running_put [simp]: "running_mset (put_lane k st s) = running_mset s"
  by (simp add: running_mset_def)

lemma queued_put_same:
  assumes "core_inv s" "lane_at s k = Some l" "ls_queue st = ls_queue l"
  shows "queued_mset (put_lane k st s) = queued_mset s"
  using queued_put [OF assms(1), of k st] assms(2,3) by simp

lemma queued_getLaneState:
  assumes "core_inv s" "getLaneState k s = (st, t)"
  shows "queued_mset t = queued_mset s \<and> running_mset t = running_mset s"
proof -
  have "queued_mset (put_lane k (new_lane k) s) = queued_mset s" if "lane_at s k = None"
    using queued_put [OF assms(1), of k "new_lane k"] that by (simp add: new_lane_def)
  then show ?thesis using getLaneState_core [OF assms] by auto
qed

text \<open>What \<open>pump\<close> does to a well formed state.\<close>

definition pumped :: "QueueState \<Rightarrow> string \<Rightarrow> QueueState \<Rightarrow> QueueEmit list \<Rightarrow> bool" where
  "pumped s k t em \<longleftrightarrow> core_inv t
     \<and> (\<exists>st st'. lane_at s k = Some st \<and> lane_at t = (lane_at s)(k \<mapsto> st') \<and> lane_settled st'
          \<and> set (ls_activeTaskIds st) \<subseteq> set (ls_activeTaskIds st')
          \<and> ls_maxConcurrent st' = ls_maxConcurrent st \<and> ls_generation st' = ls_generation st)
     \<and> open_promises t = open_promises s \<and> settled_seqs em = []
     \<and> qs_activeTaskWaiters t = qs_activeTaskWaiters s
     \<and> qs_nextQueueSequence t = qs_nextQueueSequence s
     \<and> qs_gatewayDraining t = qs_gatewayDraining s
     \<and> qs_nextWaiterId t = qs_nextWaiterId s"

lemma pump_pumped:
  assumes c: "core_inv s" and l: "lane_at s k = Some st" and p: "pump now k s = (t, em)"
  shows "pumped s k t em"
proof -
  obtain a' n' q' started em' where loop: "pump_loop now k (ls_generation st) (ls_maxConcurrent st)
      (ls_activeTaskIds st) (qs_nextTaskId s) (ls_queue st) = (a', n', q', started, em')"
    by (metis prod_cases5)
  define st' where "st' = st\<lparr>ls_activeTaskIds := a', ls_queue := q', ls_draining := False\<rparr>"
  have t: "t = (put_lane k st' s)\<lparr>qs_nextTaskId := n', qs_running := qs_running s @ started\<rparr>" and em: "em = em'"
    using p by (simp_all add: pump_def getLaneState_existing [OF c l] loop st'_def)
  obtain m where m: "m \<le> length (ls_queue st)" "q' = drop m (ls_queue st)" "n' = qs_nextTaskId s + m"
      "a' = ls_activeTaskIds st @ [qs_nextTaskId s..<qs_nextTaskId s + m]" "map rn_entry started = take m (ls_queue st)"
      "map rn_taskId started = [qs_nextTaskId s..<qs_nextTaskId s + m]"
      "\<forall>r \<in> set started. rn_lane r = k \<and> rn_generation r = ls_generation st"
      "q' = [] \<or> \<not> below_limit (length a') (ls_maxConcurrent st)"
      "\<forall>e \<in> set em'. (\<exists>i w a. e = EmitWait i w a) \<or> (\<exists>i tid. e = EmitStart i tid)"
    using pump_loop_closed [OF loop] by blast
  have at: "lane_at t = (lane_at s)(k \<mapsto> st')" unfolding t by (auto simp: lane_at_def)
  have ids: "rn_taskId ` set started = set [qs_nextTaskId s..<qs_nextTaskId s + m]"
    using arg_cong [OF m(6), of set] by simp
  have old: "r \<in> set (qs_running s) \<Longrightarrow> rn_taskId r < qs_nextTaskId s" for r
    using core_running [OF c] by (auto simp: running_core_def)
  have act: "set (ls_activeTaskIds st) = rn_taskId ` {r \<in> set (qs_running s). rn_lane r = k \<and> rn_generation r = ls_generation st}"
    and dst: "distinct (ls_activeTaskIds st)" and srt: "sorted_wrt (\<lambda>a b. runs_after b a) (ls_queue st)"
    and seqs: "\<forall>e \<in> set (ls_queue st). qe_sequence e < qs_nextQueueSequence s" and key: "ls_lane st = k"
    using core_lane [OF c l] by (auto simp: lane_core_def)
  have lane': "lane_core t k st'"
  proof -
    have "{r \<in> set (qs_running s @ started). rn_lane r = k \<and> rn_generation r = ls_generation st}
        = {r \<in> set (qs_running s). rn_lane r = k \<and> rn_generation r = ls_generation st} \<union> set started"
      using m(7) by auto
    then have e: "rn_taskId ` {r \<in> set (qs_running t). rn_lane r = k \<and> rn_generation r = ls_generation st'}
        = set a'" by (simp add: t st'_def image_Un act [symmetric] ids m(4))
    have "\<forall>i \<in> set (ls_activeTaskIds st). i < qs_nextTaskId s" unfolding act using old by blast
    then have "distinct a'" using dst by (auto simp: m(4))
    then show ?thesis unfolding lane_core_def e
      using key srt seqs by (auto simp: st'_def t m(2) sorted_wrt_drop dest: in_set_dropD)
  qed
  have other: "lane_core t j l" if "j \<noteq> k" "lane_at s j = Some l" for j l
  proof -
    have "{r \<in> set (qs_running s @ started). rn_lane r = j \<and> rn_generation r = ls_generation l}
        = {r \<in> set (qs_running s). rn_lane r = j \<and> rn_generation r = ls_generation l}"
      using m(7) that by auto
    then show ?thesis using core_lane [OF c that(2)] by (simp add: lane_core_def t)
  qed
  have core: "core_inv t"
  proof (rule core_lanesI)
    show "jm_wf (qs_lanes t)" "1 \<le> qs_nextQueueSequence t" using c by (simp_all add: t core_inv_def)
    fix j lj assume "lane_at t j = Some lj"
    then show "lane_core t j lj" using lane' other by (auto simp: at split: if_splits)
  next
    have "map rn_taskId (qs_running t) = map rn_taskId (qs_running s) @ [qs_nextTaskId s..<qs_nextTaskId s + m]"
      by (simp add: t m(6))
    moreover have "\<forall>r \<in> set (qs_running s). rn_taskId r < qs_nextTaskId s" using old by blast
    ultimately show "distinct (map rn_taskId (qs_running t))" using c by (auto simp: core_inv_def)
    fix r assume "r \<in> set (qs_running t)"
    then consider "r \<in> set (qs_running s)" | "r \<in> set started" by (auto simp: t)
    then show "running_core t r"
    proof cases
      case 1
      have "running_core s r" by (rule core_running [OF c 1])
      then show ?thesis using l
        by (auto simp: running_core_def t m(3) lane_at_def st'_def split: option.splits)
    next
      case 2
      have "rn_taskId r \<in> set [qs_nextTaskId s..<qs_nextTaskId s + m]" using 2 ids by blast
      then show ?thesis using m(7) 2 by (simp add: running_core_def t m(3) st'_def)
    qed
  qed
  have "queued_mset t + mset (map qe_sequence (ls_queue st)) = queued_mset s + mset (map qe_sequence q')"
    using queued_put [OF c, of k st'] l by (simp add: queued_mset_def t st'_def)
  moreover have "mset (map qe_sequence (ls_queue st)) = mset (map qe_sequence q') + mset (map (qe_sequence \<circ> rn_entry) started)"
  proof -
    have "map (qe_sequence \<circ> rn_entry) started = map qe_sequence (take m (ls_queue st))"
      using arg_cong [OF m(5), of "map qe_sequence"] by simp
    moreover have "ls_queue st = take m (ls_queue st) @ q'" by (simp add: m(2))
    ultimately show ?thesis by (metis add.commute map_append mset_append)
  qed
  ultimately have "queued_mset t + mset (map (qe_sequence \<circ> rn_entry) started) = queued_mset s"
    by (simp add: ac_simps)
  moreover have "running_mset t = running_mset s + mset (map (qe_sequence \<circ> rn_entry) started)"
    by (simp add: running_mset_def t)
  ultimately have "open_promises t = open_promises s"
    by (metis add.assoc add.commute open_promises_def)
  moreover have "settled_seqs em = []" unfolding em by (rule settled_none) (use m(9) in fastforce)
  moreover have "lane_settled st'" using m(8) by (simp add: lane_settled_def st'_def)
  moreover have "set (ls_activeTaskIds st) \<subseteq> set (ls_activeTaskIds st')" by (simp add: st'_def m(4))
  moreover have "ls_maxConcurrent st' = ls_maxConcurrent st" "ls_generation st' = ls_generation st"
    by (simp_all add: st'_def)
  moreover have "qs_activeTaskWaiters t = qs_activeTaskWaiters s" "qs_nextQueueSequence t = qs_nextQueueSequence s"
    "qs_gatewayDraining t = qs_gatewayDraining s" "qs_nextWaiterId t = qs_nextWaiterId s"
    by (simp_all add: t)
  ultimately show ?thesis
    unfolding pumped_def using core l at by blast
qed

lemma pump_loop_last_start:
  "pump_loop now lane gen lmt active n queue = (a', n', q', st, em) \<Longrightarrow>
     if st = [] then a' = active else below_limit (length a' - 1) lmt"
proof (induction queue arbitrary: active n a' n' q' st em)
  case (Cons e queue)
  show ?case
  proof (cases "below_limit (length active) lmt")
    case True
    obtain a2 n2 q2 s2 e2 where rec: "pump_loop now lane gen lmt (active @ [n]) (n + 1) queue = (a2, n2, q2, s2, e2)"
      by (metis prod_cases5)
    then have "a' = a2" "st \<noteq> []" using Cons.prems True by auto
    then show ?thesis using Cons.IH [OF rec] True by (auto split: if_splits)
  qed (use Cons.prems in auto)
qed simp

lemma drainLane_pumped:
  assumes c: "core_inv s" and l: "lane_at s k = Some st" and d: "\<not> ls_draining st"
    and p: "drainLane now k s = (t, em)"
  shows "pumped s k t em"
proof -
  let ?s = "put_lane k (st\<lparr>ls_draining := True\<rparr>) s"
  have p': "pump now k ?s = (t, em)" using p d by (simp add: drainLane_def getLaneState_existing [OF c l])
  have c': "core_inv ?s" using core_put [OF c, of k "st\<lparr>ls_draining := True\<rparr>"] core_lane [OF c l] l by simp
  have "pumped ?s k t em" by (rule pump_pumped [OF c' _ p']) simp
  moreover have "open_promises ?s = open_promises s"
    using queued_put_same [OF c l, of "st\<lparr>ls_draining := True\<rparr>"] by (simp add: open_promises_def)
  ultimately show ?thesis unfolding pumped_def using l by auto
qed

text \<open>Pumping never takes the active tasks a waiter looks at away.\<close>

lemma pending_iff:
  assumes "jm_wf (qs_lanes s)"
  shows "hasPendingActiveTasks s ids \<longleftrightarrow> (\<exists>k l. lane_at s k = Some l \<and> (\<exists>i \<in> set ids. i \<in> set (ls_activeTaskIds l)))"
  unfolding hasPendingActiveTasks_def lane_at_def list_ex_iff
  using assms by (force simp: jm_get_in_set [symmetric])

lemma pumped_pending:
  assumes "core_inv s" "pumped s k t em" "hasPendingActiveTasks s ids"
  shows "hasPendingActiveTasks t ids"
proof -
  have wf: "jm_wf (qs_lanes s)" "jm_wf (qs_lanes t)"
    using assms(1,2) by (auto simp: core_wf pumped_def)
  obtain st st' where st: "lane_at s k = Some st" "lane_at t = (lane_at s)(k \<mapsto> st')"
      "set (ls_activeTaskIds st) \<subseteq> set (ls_activeTaskIds st')"
    using assms(2) by (auto simp: pumped_def)
  obtain j l i where j: "lane_at s j = Some l" "i \<in> set ids" "i \<in> set (ls_activeTaskIds l)"
    using assms(3) unfolding pending_iff [OF wf(1)] by blast
  show ?thesis unfolding pending_iff [OF wf(2)]
  proof (cases "j = k")
    case True
    then show "\<exists>k l. lane_at t k = Some l \<and> (\<exists>i \<in> set ids. i \<in> set (ls_activeTaskIds l))"
      using j st by (intro exI [of _ k] exI [of _ st']) auto
  next
    case False
    then show "\<exists>k l. lane_at t k = Some l \<and> (\<exists>i \<in> set ids. i \<in> set (ls_activeTaskIds l))"
      using j st by (intro exI [of _ j] exI [of _ l]) auto
  qed
qed

lemma pumped_waiters:
  assumes "core_inv s" "pumped s k t em" "waiters_pending s"
  shows "waiters_pending t"
proof -
  have "qs_activeTaskWaiters t = qs_activeTaskWaiters s" using assms(2) by (simp add: pumped_def)
  then show ?thesis using assms(3) pumped_pending [OF assms(1,2)]
    by (auto simp: waiters_pending_def waiter_done_def)
qed

lemma pumped_settled:
  assumes "core_inv s" "pumped s k t em" "\<And>j l. lane_at s j = Some l \<Longrightarrow> j \<noteq> k \<Longrightarrow> lane_settled l"
  shows "lanes_settled t"
proof -
  have "core_inv t" and "\<exists>st'. lane_at t = (lane_at s)(k \<mapsto> st') \<and> lane_settled st'"
    using assms(2) by (auto simp: pumped_def)
  then show ?thesis using assms(3) by (auto simp: lanes_settled_iff core_wf split: if_splits)
qed

lemma notify_core:
  assumes "core_inv s" "notifyActiveTaskWaiters s = (t, em)"
  shows "core_inv t \<and> lane_at t = lane_at s \<and> qs_running t = qs_running s \<and> qs_lanes t = qs_lanes s \<and> waiters_pending t
    \<and> open_promises t = open_promises s \<and> settled_seqs em = []
    \<and> qs_nextQueueSequence t = qs_nextQueueSequence s \<and> qs_nextTaskId t = qs_nextTaskId s
    \<and> qs_gatewayDraining t = qs_gatewayDraining s"
proof -
  have t: "t = s\<lparr>qs_activeTaskWaiters := filter (\<lambda>w. \<not> waiter_done s w) (qs_activeTaskWaiters s)\<rparr>"
    and em: "em = map (\<lambda>w. EmitWaiter (aw_id w) True) (filter (waiter_done s) (qs_activeTaskWaiters s))"
    using assms(2) by (auto simp: notifyActiveTaskWaiters_def)
  have "waiter_done t = waiter_done s" by (rule ext) (simp add: t waiter_done_def hasPendingActiveTasks_def)
  moreover have "core_inv t"
    using assms(1) by (simp add: t core_inv_def lane_core_def running_core_def)
  moreover have "settled_seqs em = []" unfolding em by (rule settled_none) auto
  ultimately show ?thesis
    by (auto simp: t waiters_pending_def open_promises_def queued_mset_def running_mset_def lane_at_def)
qed

text \<open>The promises an operation leaves open or settles are those that were open and, after an
  accepted enqueue, the new one.\<close>

definition promises_kept :: "QueueState \<Rightarrow> QueueState \<Rightarrow> QueueEmit list \<Rightarrow> bool" where
  "promises_kept s t em \<longleftrightarrow> qs_nextQueueSequence s \<le> qs_nextQueueSequence t
     \<and> open_promises t + mset (settled_seqs em)
        = open_promises s + mset [qs_nextQueueSequence s..<qs_nextQueueSequence t]"

definition op_ok :: "QueueState \<Rightarrow> QueueState \<Rightarrow> QueueEmit list \<Rightarrow> bool" where
  "op_ok s t em \<longleftrightarrow> queue_inv t \<and> promises_kept s t em"

lemma op_okI:
  assumes "core_inv t" "lanes_settled t" "waiters_pending t"
    and "open_promises t + mset (settled_seqs em) = open_promises s"
    and "qs_nextQueueSequence t = qs_nextQueueSequence s"
  shows "op_ok s t em"
  using assms by (simp add: op_ok_def queue_inv_def promises_kept_def)

lemma op_ok_refl: "queue_inv s \<Longrightarrow> op_ok s s []"
  by (simp add: op_ok_def promises_kept_def)

section \<open>Enqueueing\<close>

lemma enqueue_queue:
  assumes "find_index (\<lambda>queued. runs_after queued e) (ls_queue l) = ix"
  shows "\<exists>pre post e'. ls_queue l = pre @ post \<and> ls_queue (enqueueLaneEntry l e) = pre @ e' # post
    \<and> qe_sequence e' = qe_sequence e \<and> qe_priority e' = qe_priority e \<and> qe_queuedAheadAtEnqueue e' = length pre
    \<and> (\<forall>x \<in> set pre. \<not> runs_after x e) \<and> (post = [] \<or> runs_after (hd post) e)
    \<and> enqueueLaneEntry l e = l\<lparr>ls_queue := pre @ e' # post\<rparr>"
proof (cases ix)
  case None
  let ?e = "e\<lparr>qe_queuedAheadAtEnqueue := length (ls_queue l), qe_activeAheadAtEnqueue := length (ls_activeTaskIds l)\<rparr>"
  have "enqueueLaneEntry l e = l\<lparr>ls_queue := ls_queue l @ [?e]\<rparr>"
    using assms None by (simp add: enqueueLaneEntry_def Let_def)
  then show ?thesis using assms None
    by (intro exI [of _ "ls_queue l"] exI [of _ "[]"] exI [of _ ?e]) (auto simp: find_index_None)
next
  case (Some i)
  let ?e = "e\<lparr>qe_queuedAheadAtEnqueue := i, qe_activeAheadAtEnqueue := length (ls_activeTaskIds l)\<rparr>"
  have i: "i < length (ls_queue l) \<and> runs_after (ls_queue l ! i) e \<and> (\<forall>x \<in> set (take i (ls_queue l)). \<not> runs_after x e)"
    using find_index_Some [of "\<lambda>queued. runs_after queued e" "ls_queue l" i] assms Some by simp
  have "enqueueLaneEntry l e = l\<lparr>ls_queue := take i (ls_queue l) @ ?e # drop i (ls_queue l)\<rparr>"
    using assms Some by (simp add: enqueueLaneEntry_def Let_def)
  then show ?thesis using i
    by (intro exI [of _ "take i (ls_queue l)"] exI [of _ "drop i (ls_queue l)"] exI [of _ ?e]) (auto simp: hd_drop_conv_nth)
qed

lemma runs_after_trans: "runs_after a b \<Longrightarrow> runs_after b c \<Longrightarrow> runs_after a c"
  by (auto simp: runs_after_def)

lemma sorted_insert:
  assumes "sorted_wrt (\<lambda>a b. runs_after b a) (pre @ post)"
    and "\<And>x. x \<in> set pre \<Longrightarrow> runs_after e x" and "post = [] \<or> runs_after (hd post) e"
  shows "sorted_wrt (\<lambda>a b. runs_after b a) (pre @ e # post)"
proof -
  have "runs_after x e" if "x \<in> set post" for x
  proof (cases post)
    case (Cons y ys)
    then have "x = y \<or> runs_after x y" using assms(1) that by (auto simp: sorted_wrt_append)
    then show ?thesis using assms(3) Cons runs_after_trans by auto
  qed (use that in simp)
  then show ?thesis using assms by (auto simp: sorted_wrt_append)
qed

lemma lane_core_enqueue:
  assumes lc: "lane_core s k l" and seq: "qe_sequence e = qs_nextQueueSequence s"
  shows "lane_core (s\<lparr>qs_nextQueueSequence := qs_nextQueueSequence s + 1\<rparr>) k (enqueueLaneEntry l e)
    \<and> mset (map qe_sequence (ls_queue (enqueueLaneEntry l e)))
        = mset (map qe_sequence (ls_queue l)) + {#qe_sequence e#}
    \<and> ls_generation (enqueueLaneEntry l e) = ls_generation l \<and> ls_draining (enqueueLaneEntry l e) = ls_draining l
    \<and> ls_activeTaskIds (enqueueLaneEntry l e) = ls_activeTaskIds l"
proof -
  obtain pre post e' where q: "ls_queue l = pre @ post" "enqueueLaneEntry l e = l\<lparr>ls_queue := pre @ e' # post\<rparr>"
     "qe_sequence e' = qe_sequence e" "qe_priority e' = qe_priority e"
     "\<forall>x \<in> set pre. \<not> runs_after x e" "post = [] \<or> runs_after (hd post) e"
    using enqueue_queue [of e l] by blast
  have less: "\<forall>x \<in> set (pre @ post). qe_sequence x < qe_sequence e" using lc q(1) seq by (simp add: lane_core_def)
  have ra: "runs_after x e' = runs_after x e" "runs_after e' x = runs_after e x" for x
    using q(3,4) by (auto simp: runs_after_def)
  have "sorted_wrt (\<lambda>a b. runs_after b a) (pre @ e' # post)"
  proof (rule sorted_insert)
    show "sorted_wrt (\<lambda>a b. runs_after b a) (pre @ post)" using lc q(1) by (simp add: lane_core_def)
    show "post = [] \<or> runs_after (hd post) e'" using q(6) ra by simp
    fix x assume "x \<in> set pre"
    then show "runs_after e' x" using q(5) less ra(2) [of x] by (auto simp: runs_after_def not_less)
  qed
  moreover have "\<forall>x \<in> set (pre @ e' # post). qe_sequence x < qs_nextQueueSequence s + 1"
    using less seq q(3) by (auto intro: less_SucI)
  ultimately show ?thesis using lc q by (auto simp: lane_core_def)
qed

section \<open>Every operation keeps the invariant and the promises\<close>

lemma queue_invD:
  "queue_inv s \<Longrightarrow> core_inv s"
  "queue_inv s \<Longrightarrow> lane_at s k = Some l \<Longrightarrow> lane_settled l"
  "queue_inv s \<Longrightarrow> waiters_pending s"
  by (auto simp: queue_inv_def lanes_settled_iff core_wf)

lemma waiters_grow:
  assumes "jm_wf (qs_lanes s)" "jm_wf (qs_lanes t)" "waiters_pending s"
    and "qs_activeTaskWaiters t = qs_activeTaskWaiters s"
    and "\<And>k l. lane_at s k = Some l \<Longrightarrow> \<exists>l'. lane_at t k = Some l' \<and> set (ls_activeTaskIds l) \<subseteq> set (ls_activeTaskIds l')"
  shows "waiters_pending t"
proof -
  have "hasPendingActiveTasks t ids" if "hasPendingActiveTasks s ids" for ids
    using that assms(5) unfolding pending_iff [OF assms(1)] pending_iff [OF assms(2)] by blast
  then show ?thesis using assms(3,4) by (auto simp: waiters_pending_def waiter_done_def)
qed

lemma waiters_put:
  assumes "core_inv s" "core_inv t" "waiters_pending s" "qs_activeTaskWaiters t = qs_activeTaskWaiters s"
    and "lane_at t = (lane_at s)(k \<mapsto> st)"
    and "\<And>l. lane_at s k = Some l \<Longrightarrow> set (ls_activeTaskIds l) \<subseteq> set (ls_activeTaskIds st)"
  shows "waiters_pending t"
  using assms by (intro waiters_grow [of s t]) (auto simp: core_wf split: if_splits)

lemma core_next_sequence:
  assumes "core_inv s"
  shows "core_inv (s\<lparr>qs_nextQueueSequence := qs_nextQueueSequence s + 1\<rparr>)"
  using assms by (fastforce simp: core_inv_def lane_core_def running_core_def intro: less_SucI)

lemma enqueue_ok_accepted:
  assumes inv: "queue_inv s" and step: "enqueueCommandInLane now lane opts s = (t, em)"
  shows "op_ok s t em \<and> (qs_gatewayDraining s \<or> settled_seqs em = []
    \<and> qs_nextQueueSequence t = qs_nextQueueSequence s + 1
    \<and> open_promises t = open_promises s + {#qs_nextQueueSequence s#})"
proof (cases "qs_gatewayDraining s")
  case True
  then show ?thesis using assms op_ok_refl [OF inv]
    by (auto simp: enqueueCommandInLane_def queue_invD op_ok_def promises_kept_def)
next
  case False
  let ?k = "normalizeLane lane"
  have c: "core_inv s" by (rule queue_invD [OF inv])
  obtain st s1 where g: "getLaneState ?k s = (st, s1)" by force
  define e where "e = \<lparr>qe_enqueuedAt = now, qe_sequence = qs_nextQueueSequence s1,
      qe_priority = resolveQueuePriority (eo_priority opts), qe_warnAfterMs = or_else (eo_warnAfterMs opts) (Fin 2000),
      qe_queuedAheadAtEnqueue = 0, qe_activeAheadAtEnqueue = 0,
      qe_taskTimeoutMs = normalizeTaskTimeoutMs (eo_taskTimeoutMs opts), qe_hasOnWait = eo_hasOnWait opts\<rparr>"
  define l' where "l' = enqueueLaneEntry st e"
  define s2 where "s2 = put_lane ?k l' (s1\<lparr>qs_nextQueueSequence := qs_nextQueueSequence s1 + 1\<rparr>)"
  have at1: "core_inv s1" "lane_at s1 ?k = Some st" "lane_at s1 = (lane_at s)(?k \<mapsto> st)"
    and same1: "qs_nextQueueSequence s1 = qs_nextQueueSequence s" "qs_activeTaskWaiters s1 = qs_activeTaskWaiters s"
    and old: "lane_at s ?k = Some st \<or> lane_at s ?k = None \<and> st = new_lane ?k"
    using getLaneState_core [OF c g] by auto
  have nd: "\<not> ls_draining st" using old queue_invD(2) [OF inv] by (auto simp: lane_settled_def new_lane_def)
  have "s2 = (put_lane ?k l' s1)\<lparr>qs_nextQueueSequence := qs_nextQueueSequence s1 + 1\<rparr>"
    by (simp add: s2_def put_lane_def)
  then have d: "drainLane now ?k s2 = (t, em)"
    using step False c by (simp add: enqueueCommandInLane_def Let_def g l'_def e_def)
  have lc: "lane_core (s1\<lparr>qs_nextQueueSequence := qs_nextQueueSequence s1 + 1\<rparr>) ?k l'"
    "mset (map qe_sequence (ls_queue l')) = mset (map qe_sequence (ls_queue st)) + {#qs_nextQueueSequence s1#}"
    "ls_generation l' = ls_generation st" "ls_draining l' = ls_draining st" "ls_activeTaskIds l' = ls_activeTaskIds st"
    using lane_core_enqueue [OF core_lane [OF at1(1,2)], of e] by (simp_all add: l'_def e_def)
  have at2: "lane_at s2 = (lane_at s)(?k \<mapsto> l')" using at1(3) by (simp add: s2_def)
  have c2: "core_inv s2" unfolding s2_def
    by (rule core_put [OF core_next_sequence [OF at1(1)] lc(1)]) (use at1(2) lc(3) in \<open>simp add: lane_at_def\<close>)
  have w2: "waiters_pending s2"
    using waiters_put [OF c c2 queue_invD(3) [OF inv] _ at2] same1 old lc(5) by (auto simp: s2_def)
  have pp: "pumped s2 ?k t em"
    by (rule drainLane_pumped [OF c2 _ _ d, where st = l']) (simp_all add: at2 lc nd)
  have p: "core_inv t" "open_promises t = open_promises s2" "settled_seqs em = []"
      "qs_nextQueueSequence t = qs_nextQueueSequence s2"
    using pp by (simp_all add: pumped_def)
  have settled: "lanes_settled t"
    by (rule pumped_settled [OF c2 pp]) (use queue_invD(2) [OF inv] in \<open>auto simp: at2\<close>)
  have waiters: "waiters_pending t" by (rule pumped_waiters [OF c2 pp w2])
  have "queued_mset s2 + mset (map qe_sequence (ls_queue st)) = queued_mset s1 + mset (map qe_sequence (ls_queue l'))"
    using queued_put [OF at1(1), of ?k l'] at1(2) by (simp add: s2_def queued_mset_def)
  then have "queued_mset s2 = queued_mset s1 + {#qs_nextQueueSequence s1#}" unfolding lc(2) by simp
  then have "open_promises s2 = open_promises s + {#qs_nextQueueSequence s#}"
    using queued_getLaneState [OF c g] same1 by (simp add: open_promises_def running_mset_def s2_def)
  then show ?thesis using p settled waiters same1 by (simp add: op_ok_def queue_inv_def promises_kept_def s2_def)
qed

lemmas enqueue_ok = enqueue_ok_accepted [THEN conjunct1]

lemma enqueue_accepted:
  assumes "queue_inv s" "enqueueCommandInLane now lane opts s = (t, em)" "\<not> qs_gatewayDraining s"
  shows "settled_seqs em = [] \<and> qs_nextQueueSequence t = qs_nextQueueSequence s + 1
    \<and> open_promises t = open_promises s + {#qs_nextQueueSequence s#}"
  using enqueue_ok_accepted [OF assms(1,2)] assms(3) by simp

lemma not_positive_limit: "\<not> positive_limit m \<Longrightarrow> \<not> below_limit n m"
  by (auto simp: positive_limit_def below_limit_def split: js_limit.splits)

lemma concurrency_ok:
  assumes inv: "queue_inv s" and step: "setCommandLaneConcurrency now lane n s = (t, em)"
  shows "op_ok s t em"
proof -
  let ?k = "normalizeLane lane"
  let ?m = "floor_max (if is_probe_lane ?k then 1 else 0) n"
  have c: "core_inv s" by (rule queue_invD [OF inv])
  obtain st s1 where g: "getLaneState ?k s = (st, s1)" by force
  have at1: "core_inv s1" "lane_at s1 ?k = Some st" "lane_at s1 = (lane_at s)(?k \<mapsto> st)"
    and same1: "qs_nextQueueSequence s1 = qs_nextQueueSequence s" "qs_activeTaskWaiters s1 = qs_activeTaskWaiters s"
    and old: "lane_at s ?k = Some st \<or> lane_at s ?k = None \<and> st = new_lane ?k"
    using getLaneState_core [OF c g] by auto
  have nd: "\<not> ls_draining st" using old queue_invD(2) [OF inv] by (auto simp: lane_settled_def new_lane_def)
  define l' where "l' = st\<lparr>ls_maxConcurrent := ?m\<rparr>"
  define s2 where "s2 = put_lane ?k l' s1"
  have at2: "lane_at s2 = (lane_at s)(?k \<mapsto> l')" using at1(3) by (simp add: s2_def)
  have c2: "core_inv s2" unfolding s2_def
    by (rule core_put [OF at1(1)]) (use core_lane [OF at1(1,2)] at1(2) in \<open>simp_all add: l'_def\<close>)
  have w2: "waiters_pending s2"
    using waiters_put [OF c c2 queue_invD(3) [OF inv] _ at2] same1 old by (auto simp: s2_def l'_def)
  have o2: "open_promises s2 = open_promises s"
    using queued_put_same [OF at1(1,2), of l'] queued_getLaneState [OF c g] by (simp add: open_promises_def s2_def l'_def)
  have n2: "qs_nextQueueSequence s2 = qs_nextQueueSequence s" by (simp add: s2_def same1)
  show ?thesis
  proof (cases "positive_limit ?m")
    case True
    then have d: "drainLane now ?k s2 = (t, em)"
      using step by (simp add: setCommandLaneConcurrency_def Let_def g l'_def s2_def)
    have p: "pumped s2 ?k t em"
      by (rule drainLane_pumped [OF c2 _ _ d, where st = l']) (simp_all add: at2 nd l'_def)
    show ?thesis
      using p pumped_settled [OF c2 p] pumped_waiters [OF c2 p w2] queue_invD(2) [OF inv] o2 n2
      by (intro op_okI) (auto simp: pumped_def at2)
  next
    case False
    then have t: "t = s2" "em = []" using step by (simp_all add: setCommandLaneConcurrency_def Let_def g l'_def s2_def)
    have "lanes_settled s2"
      using queue_invD(2) [OF inv] not_positive_limit [OF False] nd
      by (auto simp: lanes_settled_iff core_wf c2 at2 l'_def lane_settled_def)
    then show ?thesis using c2 w2 o2 n2 by (intro op_okI) (simp_all add: t)
  qed
qed

lemma mset_filter_key:
  "distinct (map f xs) \<Longrightarrow> r \<in> set xs \<Longrightarrow>
     mset (map g (filter (\<lambda>x. f x \<noteq> f r) xs)) + {#g r#} = mset (map g xs)"
proof (induction xs)
  case (Cons x xs)
  show ?case
  proof (cases "r = x")
    case True
    then have "\<forall>y \<in> set xs. f y \<noteq> f r" using Cons.prems(1) by (metis distinct.simps(2) image_eqI list.simps(9) set_map)
    then have "filter (\<lambda>y. f y \<noteq> f r) xs = xs" by simp
    then show ?thesis using True by simp
  next
    case False
    then have "f x \<noteq> f r" using Cons.prems by auto
    then show ?thesis using Cons False by simp
  qed
qed simp

lemma lane_core_finish:
  assumes c: "core_inv s" and r: "r \<in> set (qs_running s)" and l: "lane_core s k l"
  shows "lane_core (s\<lparr>qs_running := filter (\<lambda>x. rn_taskId x \<noteq> rn_taskId r) (qs_running s)\<rparr>) k
    (l\<lparr>ls_activeTaskIds := removeAll (rn_taskId r) (ls_activeTaskIds l)\<rparr>)"
    and "\<not> (rn_lane r = k \<and> rn_generation r = ls_generation l) \<Longrightarrow> rn_taskId r \<notin> set (ls_activeTaskIds l)"
proof -
  have inj: "\<And>x. x \<in> set (qs_running s) \<Longrightarrow> rn_taskId x = rn_taskId r \<Longrightarrow> x = r"
    using c r unfolding core_inv_def distinct_map inj_on_def by blast
  show "lane_core (s\<lparr>qs_running := filter (\<lambda>x. rn_taskId x \<noteq> rn_taskId r) (qs_running s)\<rparr>) k
    (l\<lparr>ls_activeTaskIds := removeAll (rn_taskId r) (ls_activeTaskIds l)\<rparr>)"
    using l by (auto simp: lane_core_def distinct_removeAll)
  show "rn_taskId r \<notin> set (ls_activeTaskIds l)" if "\<not> (rn_lane r = k \<and> rn_generation r = ls_generation l)"
  proof
    assume "rn_taskId r \<in> set (ls_activeTaskIds l)"
    then obtain x where x: "x \<in> set (qs_running s)" "rn_lane x = k \<and> rn_generation x = ls_generation l"
        "rn_taskId x = rn_taskId r"
      using l by (auto simp: lane_core_def)
    then show False using inj [OF x(1,3)] that by simp
  qed
qed

lemma max_sequence_running [simp]: "max_sequence (s\<lparr>qs_running := rs\<rparr>) = max_sequence s"
  by (simp add: max_sequence_def)

lemma getLaneState_running:
  assumes "core_inv s" "lane_at s k = Some st"
  shows "getLaneState k (s\<lparr>qs_running := rs\<rparr>) = (st, s\<lparr>qs_running := rs\<rparr>)"
proof -
  have "1 \<le> qs_nextQueueSequence s \<and> \<not> qs_nextQueueSequence s \<le> max_sequence s"
    by (rule core_sequence [OF assms(1)])
  then have "getQueueState (s\<lparr>qs_running := rs\<rparr>) = s\<lparr>qs_running := rs\<rparr>" by (simp add: getQueueState_def)
  then show ?thesis using assms(2) by (simp add: getLaneState_def lane_at_def)
qed

text \<open>The state after a task has left the list of running tasks and its lane.\<close>

lemma finish_core:
  assumes c: "core_inv s" and r: "r \<in> set (qs_running s)"
    and s0: "s0 = s\<lparr>qs_running := filter (\<lambda>x. rn_taskId x \<noteq> rn_taskId r) (qs_running s)\<rparr>"
    and st: "lane_at s (rn_lane r) = Some st"
  shows "if rn_generation r = ls_generation st
      then core_inv (put_lane (rn_lane r) (st\<lparr>ls_activeTaskIds := removeAll (rn_taskId r) (ls_activeTaskIds st)\<rparr>) s0)
      else core_inv s0"
proof -
  let ?st' = "st\<lparr>ls_activeTaskIds := removeAll (rn_taskId r) (ls_activeTaskIds st)\<rparr>"
  have lane0: "lane_core s0 k l" if "lane_at s k = Some l" "\<not> (rn_lane r = k \<and> rn_generation r = ls_generation l)" for k l
  proof -
    have "rn_taskId r \<notin> set (ls_activeTaskIds l)"
      by (rule lane_core_finish(2) [OF c r core_lane [OF c that(1)] that(2)])
    then have "l\<lparr>ls_activeTaskIds := removeAll (rn_taskId r) (ls_activeTaskIds l)\<rparr> = l" by simp
    then show ?thesis using lane_core_finish(1) [OF c r core_lane [OF c that(1)]] by (simp add: s0)
  qed
  have run: "running_core s x" if "x \<in> set (qs_running s0)" for x
    using that core_running [OF c] by (auto simp: s0)
  have dist: "distinct (map rn_taskId (qs_running s0))" using c by (simp add: s0 core_inv_def distinct_map_filter)
  have at0: "lane_at s0 = lane_at s" by (auto simp: s0 lane_at_def)
  show ?thesis
  proof (cases "rn_generation r = ls_generation st")
    case False
    have "core_inv s0"
    proof (rule core_lanesI)
      show "jm_wf (qs_lanes s0)" "1 \<le> qs_nextQueueSequence s0" using c by (simp_all add: s0 core_inv_def)
      show "lane_core s0 k l" if "lane_at s0 k = Some l" for k l
        by (rule lane0) (use that False st in \<open>auto simp: at0\<close>)
      show "running_core s0 x" if "x \<in> set (qs_running s0)" for x
        using run [OF that] by (simp add: running_core_def s0)
    qed (rule dist)
    then show ?thesis using False by simp
  next
    case True
    have "core_inv (put_lane (rn_lane r) ?st' s0)"
    proof (rule core_lanesI)
      show "jm_wf (qs_lanes (put_lane (rn_lane r) ?st' s0))" "1 \<le> qs_nextQueueSequence (put_lane (rn_lane r) ?st' s0)"
        using c by (simp_all add: s0 core_inv_def)
      show "lane_core (put_lane (rn_lane r) ?st' s0) k l" if "lane_at (put_lane (rn_lane r) ?st' s0) k = Some l" for k l
      proof (cases "k = rn_lane r")
        case True
        have "lane_core s0 k ?st'" using lane_core_finish(1) [OF c r core_lane [OF c st]] True by (simp add: s0)
        moreover have "l = ?st'" using that True by simp
        ultimately show ?thesis by (simp add: lane_core_def)
      next
        case False
        then show ?thesis using lane0 [of k l] that by (simp add: at0 lane_core_def)
      qed
      show "distinct (map rn_taskId (qs_running (put_lane (rn_lane r) ?st' s0)))" using dist by simp
      show "running_core (put_lane (rn_lane r) ?st' s0) x" if "x \<in> set (qs_running (put_lane (rn_lane r) ?st' s0))" for x
        using run [of x] that st by (auto simp: running_core_def s0 lane_at_def split: option.splits)
    qed
    then show ?thesis using True by simp
  qed
qed

lemma finish_ok:
  assumes inv: "queue_inv s" and r: "r \<in> set (qs_running s)" and step: "finish_task now r outcome s = (t, em)"
  shows "op_ok s t em" and "settled_seqs em = [qe_sequence (rn_entry r)]"
    and "qs_nextQueueSequence t = qs_nextQueueSequence s"
    and "map_option ls_maxConcurrent \<circ> lane_at t = map_option ls_maxConcurrent \<circ> lane_at s"
proof -
  have c: "core_inv s" by (rule queue_invD [OF inv])
  let ?k = "rn_lane r" and ?i = "qe_sequence (rn_entry r)"
  define s0 where "s0 = s\<lparr>qs_running := filter (\<lambda>x. rn_taskId x \<noteq> rn_taskId r) (qs_running s)\<rparr>"
  obtain st where st: "lane_at s ?k = Some st"
    using core_running [OF c r] by (auto simp: running_core_def lane_at_def split: option.splits)
  have g: "getLaneState ?k s0 = (st, s0)" unfolding s0_def by (rule getLaneState_running [OF c st])
  have at0: "lane_at s0 = lane_at s" by (auto simp: s0_def lane_at_def)
  have "distinct (map rn_taskId (qs_running s))" using c by (simp add: core_inv_def)
  then have "running_mset s0 + {#?i#} = running_mset s"
    using mset_filter_key [OF _ r, of rn_taskId "qe_sequence \<circ> rn_entry"] by (simp add: running_mset_def s0_def)
  moreover have "queued_mset s0 = queued_mset s" by (simp add: queued_mset_def s0_def)
  ultimately have o0: "open_promises s0 + {#?i#} = open_promises s" by (simp add: open_promises_def)
  note fc = finish_core [OF c r s0_def st]
  have "op_ok s t em \<and> settled_seqs em = [?i] \<and> qs_nextQueueSequence t = qs_nextQueueSequence s
    \<and> map_option ls_maxConcurrent \<circ> lane_at t = map_option ls_maxConcurrent \<circ> lane_at s"
  proof (cases "rn_generation r = ls_generation st")
    case False
    then have t: "t = s0" "em = [EmitSettle ?i outcome]"
      using step by (simp_all add: finish_task_def Let_def s0_def [symmetric] g completeTask_def)
    have c0: "core_inv s0" using fc False by simp
    have "waiters_pending s0"
      by (rule waiters_grow [OF core_wf [OF c] core_wf [OF c0] queue_invD(3) [OF inv]]) (simp_all add: at0, simp add: s0_def)
    moreover have "lanes_settled s0" using queue_invD(2) [OF inv] by (simp add: lanes_settled_iff core_wf c0 at0)
    ultimately have "op_ok s t em" using c0 o0 by (intro op_okI) (simp_all add: t, simp add: s0_def)
    then show ?thesis by (simp add: t at0) (simp add: s0_def)
  next
    case True
    let ?st' = "st\<lparr>ls_activeTaskIds := removeAll (rn_taskId r) (ls_activeTaskIds st)\<rparr>"
    define s1 where "s1 = put_lane ?k ?st' s0"
    obtain s2 e2 where n: "notifyActiveTaskWaiters s1 = (s2, e2)" by force
    obtain s3 e3 where p: "pump now ?k s2 = (s3, e3)" by force
    have t: "t = s3" "em = e2 @ e3 @ [EmitSettle ?i outcome]"
      using step True by (simp_all add: finish_task_def Let_def s0_def [symmetric] g completeTask_def s1_def [symmetric] n p)
    have c1: "core_inv s1" using fc True by (simp add: s1_def)
    note nc = notify_core [OF c1 n]
    have c2: "core_inv s2" using nc by blast
    have at2: "lane_at s2 = (lane_at s)(?k \<mapsto> ?st')" using nc at0 by (simp add: s1_def)
    have pp: "pumped s2 ?k s3 e3" by (rule pump_pumped [OF c2 _ p, where st = ?st']) (simp add: at2)
    have "queued_mset s1 = queued_mset s0"
      using queued_put [OF c, of ?k ?st'] st by (simp add: s1_def queued_mset_def s0_def)
    then have "open_promises s1 = open_promises s0" by (simp add: open_promises_def s1_def)
    then have "open_promises s3 + {#?i#} = open_promises s" using o0 nc pp by (simp add: pumped_def)
    moreover have "lanes_settled s3"
      by (rule pumped_settled [OF _ pp]) (use nc queue_invD(2) [OF inv] in \<open>auto simp: at2\<close>)
    moreover have "waiters_pending s3" by (rule pumped_waiters [OF _ pp]) (use nc in auto)
    moreover have "qs_nextQueueSequence s3 = qs_nextQueueSequence s" "core_inv s3" "settled_seqs e3 = []"
      using pp nc by (simp_all add: pumped_def s1_def s0_def)
    moreover have "map_option ls_maxConcurrent \<circ> lane_at s3 = map_option ls_maxConcurrent \<circ> lane_at s"
      using pp st by (auto simp: pumped_def at2 fun_eq_iff)
    moreover have "settled_seqs em = [?i]" using nc \<open>settled_seqs e3 = []\<close> by (simp add: t)
    ultimately show ?thesis using nc by (intro conjI op_okI) (simp_all add: t)
  qed
  then show "op_ok s t em" "settled_seqs em = [?i]" "qs_nextQueueSequence t = qs_nextQueueSequence s"
    "map_option ls_maxConcurrent \<circ> lane_at t = map_option ls_maxConcurrent \<circ> lane_at s"
    by blast+
qed

lemma settled_clear: "settled_seqs (map (\<lambda>e. EmitSettle (f e) out) q) = map f q"
  by (induction q) auto

lemma clear_ok:
  assumes inv: "queue_inv s" and step: "clearCommandLane lane s = (n, t, em)"
  shows "op_ok s t em"
proof (cases "lane_at s (normalizeLane lane)")
  case None
  then show ?thesis
    using step op_ok_refl [OF inv] by (simp add: clearCommandLane_def Let_def queue_invD [OF inv] lane_at_def)
next
  case (Some st)
  let ?k = "normalizeLane lane" and ?l = "st\<lparr>ls_queue := []\<rparr>"
  have c: "core_inv s" by (rule queue_invD [OF inv])
  have t: "t = put_lane ?k ?l s" and em: "settled_seqs em = map qe_sequence (ls_queue st)"
    using step Some by (auto simp: clearCommandLane_def Let_def queue_invD [OF inv] lane_at_def settled_clear)
  have ct: "core_inv t" unfolding t
    by (rule core_put [OF c]) (use core_lane [OF c Some] Some in \<open>auto simp: lane_core_def\<close>)
  have "lanes_settled t"
    using queue_invD(2) [OF inv] queue_invD(2) [OF inv Some]
    unfolding lanes_settled_iff [OF core_wf [OF ct]] unfolding t lane_at_put by (auto simp: lane_settled_def)
  moreover have "waiters_pending t"
    by (rule waiters_put [OF c ct queue_invD(3) [OF inv], of ?k ?l]) (use Some in \<open>auto simp: t\<close>)
  moreover have "open_promises t + mset (settled_seqs em) = open_promises s"
    using queued_put [OF c, of ?k ?l] Some by (simp add: open_promises_def t em ac_simps)
  ultimately show ?thesis using ct by (intro op_okI) (simp_all add: t)
qed

lemma lane_core_idle:
  assumes c: "core_inv s" and l: "lane_at s k = Some l"
  shows "lane_core s k (idle_lane l)"
proof -
  have "rn_generation r \<le> ls_generation l" if "r \<in> set (qs_running s)" "rn_lane r = k" for r
    using core_running [OF c that(1)] that(2) l by (simp add: running_core_def lane_at_def)
  then have "{r \<in> set (qs_running s). rn_lane r = k \<and> rn_generation r = ls_generation l + 1} = {}" by fastforce
  then show ?thesis using core_lane [OF c l] by (simp add: lane_core_def idle_lane_def)
qed

lemma reset_lane_ok:
  assumes inv: "queue_inv s" and step: "resetCommandLane now lane s = (n, t, em)"
  shows "op_ok s t em"
proof (cases "lane_at s (normalizeLane lane)")
  case None
  then show ?thesis
    using step op_ok_refl [OF inv] by (simp add: resetCommandLane_def Let_def queue_invD [OF inv] lane_at_def)
next
  case (Some st)
  let ?k = "normalizeLane lane"
  have c: "core_inv s" by (rule queue_invD [OF inv])
  define s1 where "s1 = put_lane ?k (idle_lane st) s"
  obtain s2 e2 where d: "(if ls_queue st \<noteq> [] then drainLane now ?k s1 else (s1, [])) = (s2, e2)" by force
  obtain s3 e3 where nt: "notifyActiveTaskWaiters s2 = (s3, e3)" by force
  have t: "t = s3" "em = e2 @ e3"
    using step Some by (simp_all add: resetCommandLane_def Let_def queue_invD [OF inv] lane_at_def s1_def [symmetric] d nt)
  have c1: "core_inv s1" unfolding s1_def
    by (rule core_put [OF c lane_core_idle [OF c Some]]) (use Some in \<open>simp add: idle_lane_def\<close>)
  have at1: "lane_at s1 = (lane_at s)(?k \<mapsto> idle_lane st)" by (simp add: s1_def)
  have "open_promises s1 = open_promises s"
    using queued_put_same [OF c Some, of "idle_lane st"] by (simp add: open_promises_def s1_def idle_lane_def)
  moreover have "core_inv s2 \<and> lanes_settled s2 \<and> open_promises s2 = open_promises s1 \<and> settled_seqs e2 = []
      \<and> qs_nextQueueSequence s2 = qs_nextQueueSequence s1"
  proof (cases "ls_queue st = []")
    case True
    then have "lane_settled (idle_lane st)" by (simp add: lane_settled_def idle_lane_def)
    then have "lanes_settled s1"
      using queue_invD(2) [OF inv] unfolding lanes_settled_iff [OF core_wf [OF c1]] at1 by auto
    then show ?thesis using d c1 True by auto
  next
    case False
    then have d': "drainLane now ?k s1 = (s2, e2)" using d by simp
    have p: "pumped s1 ?k s2 e2"
      by (rule drainLane_pumped [OF c1 _ _ d', where st = "idle_lane st"]) (simp_all add: at1, simp add: idle_lane_def)
    have "lanes_settled s2"
      by (rule pumped_settled [OF c1 p]) (use queue_invD(2) [OF inv] in \<open>auto simp: at1\<close>)
    then show ?thesis using p by (simp add: pumped_def)
  qed
  moreover have "lanes_settled s3 = lanes_settled s2" if "core_inv s2"
    using notify_core [OF that nt] by (simp add: lanes_settled_def)
  ultimately show ?thesis using notify_core [OF _ nt] by (intro op_okI) (simp_all add: t, simp_all add: s1_def)
qed

lemma drain_lanes_ok:
  assumes "core_inv s" "drain_lanes now ks s = (t, em)"
    and "\<And>k. k \<in> set ks \<Longrightarrow> lane_at s k \<noteq> None"
    and "\<And>k l. lane_at s k = Some l \<Longrightarrow> \<not> ls_draining l"
    and "\<And>k l. lane_at s k = Some l \<Longrightarrow> k \<notin> set ks \<Longrightarrow> lane_settled l"
  shows "core_inv t \<and> lanes_settled t \<and> open_promises t = open_promises s \<and> settled_seqs em = []
    \<and> qs_nextQueueSequence t = qs_nextQueueSequence s \<and> qs_gatewayDraining t = qs_gatewayDraining s"
  using assms
proof (induction ks arbitrary: s em t)
  case Nil
  then show ?case by (simp add: lanes_settled_iff core_wf)
next
  case (Cons k ks)
  obtain s1 e1 where d: "drainLane now k s = (s1, e1)" by force
  obtain t' e2 where r: "drain_lanes now ks s1 = (t', e2)" by force
  have te: "t = t'" "em = e1 @ e2" using Cons.prems(2) by (simp_all add: d r)
  obtain st where st: "lane_at s k = Some st" using Cons.prems(3) by fastforce
  have p: "pumped s k s1 e1" by (rule drainLane_pumped [OF Cons.prems(1) st _ d]) (rule Cons.prems(4) [OF st])
  then obtain st' where at1: "lane_at s1 = (lane_at s)(k \<mapsto> st')" "lane_settled st'" and c1: "core_inv s1"
    by (auto simp: pumped_def)
  have "core_inv t' \<and> lanes_settled t' \<and> open_promises t' = open_promises s1 \<and> settled_seqs e2 = []
    \<and> qs_nextQueueSequence t' = qs_nextQueueSequence s1 \<and> qs_gatewayDraining t' = qs_gatewayDraining s1"
  proof (rule Cons.IH [OF c1 r])
    show "lane_at s1 j \<noteq> None" if "j \<in> set ks" for j using Cons.prems(3) [of j] that by (simp add: at1)
    show "\<not> ls_draining l" if "lane_at s1 j = Some l" for j l
      using that Cons.prems(4) [of j l] at1(2) by (auto simp: at1(1) lane_settled_def split: if_splits)
    show "lane_settled l" if "lane_at s1 j = Some l" "j \<notin> set ks" for j l
      using that Cons.prems(5) [of j l] at1(2) by (auto simp: at1(1) split: if_splits)
  qed
  then show ?case using p by (simp add: te pumped_def)
qed

lemma jm_get_map_values: "jm_get (map (\<lambda>(k, v). (k, f v)) m) k = map_option f (jm_get m k)"
  by (induction m) auto

lemma queued_idle:
  "queued_mset (s\<lparr>qs_gatewayDraining := b, qs_lanes := map (\<lambda>(k, l). (k, idle_lane l)) (qs_lanes s)\<rparr>) = queued_mset s"
  by (simp add: queued_mset_def comp_def split_def idle_lane_def)

lemma reset_all_ok:
  assumes inv: "queue_inv s" and step: "resetAllLanes now s = (t, em)"
  shows "op_ok s t em" and "\<not> qs_gatewayDraining t"
proof -
  have c: "core_inv s" by (rule queue_invD [OF inv])
  define ks where "ks = map (\<lambda>(k, l). ls_lane l) (filter (\<lambda>(k, l). ls_queue l \<noteq> []) (qs_lanes s))"
  define s1 where "s1 = s\<lparr>qs_gatewayDraining := False, qs_lanes := map (\<lambda>(k, l). (k, idle_lane l)) (qs_lanes s)\<rparr>"
  obtain s2 e2 where d: "drain_lanes now ks s1 = (s2, e2)" by force
  obtain s3 e3 where nt: "notifyActiveTaskWaiters s2 = (s3, e3)" by force
  have t: "t = s3" "em = e2 @ e3"
    using step by (simp_all add: resetAllLanes_def Let_def c ks_def [symmetric] s1_def [symmetric] d nt)
  have at1: "lane_at s1 k = map_option idle_lane (lane_at s k)" for k
    by (simp add: lane_at_def s1_def jm_get_map_values)
  have wf: "jm_wf (qs_lanes s1)" using core_wf [OF c] by (simp add: s1_def jm_wf_def comp_def split_def)
  have c1: "core_inv s1"
  proof (rule core_lanesI [OF wf])
    show "1 \<le> qs_nextQueueSequence s1" "distinct (map rn_taskId (qs_running s1))" using c by (simp_all add: s1_def core_inv_def)
    show "lane_core s1 k l" if "lane_at s1 k = Some l" for k l
      using that lane_core_idle [OF c, of k] by (auto simp: at1 lane_core_def, simp_all add: s1_def)
    show "running_core s1 r" if "r \<in> set (qs_running s1)" for r
      using core_running [OF c, of r] that
      by (auto simp: running_core_def s1_def jm_get_map_values idle_lane_def split: option.splits)
  qed
  have ks: "k \<in> set ks \<longleftrightarrow> (\<exists>l. lane_at s k = Some l \<and> ls_queue l \<noteq> [])" for k
  proof -
    have "(j, l) \<in> set (qs_lanes s) \<Longrightarrow> ls_lane l = j" for j l using c by (auto simp: core_inv_def lane_core_def)
    then have "k \<in> set ks \<longleftrightarrow> (\<exists>l. (k, l) \<in> set (qs_lanes s) \<and> ls_queue l \<noteq> [])" unfolding ks_def by fastforce
    then show ?thesis using core_wf [OF c] by (simp add: lane_at_def jm_get_in_set)
  qed
  have "core_inv s2 \<and> lanes_settled s2 \<and> open_promises s2 = open_promises s1 \<and> settled_seqs e2 = []
    \<and> qs_nextQueueSequence s2 = qs_nextQueueSequence s1 \<and> qs_gatewayDraining s2 = qs_gatewayDraining s1"
  proof (rule drain_lanes_ok [OF c1 d])
    show "lane_at s1 k \<noteq> None" if "k \<in> set ks" for k using that by (auto simp: ks at1)
    show "\<not> ls_draining l" if "lane_at s1 k = Some l" for k l using that by (auto simp: at1 idle_lane_def)
    show "lane_settled l" if "lane_at s1 k = Some l" "k \<notin> set ks" for k l
      using that by (auto simp: ks at1 idle_lane_def lane_settled_def)
  qed
  moreover have "open_promises s1 = open_promises s"
    by (simp add: open_promises_def s1_def queued_idle) (simp add: running_mset_def)
  moreover have "lanes_settled s3 = lanes_settled s2" if "core_inv s2"
    using notify_core [OF that nt] by (simp add: lanes_settled_def)
  ultimately show "op_ok s t em" "\<not> qs_gatewayDraining t" using notify_core [OF _ nt] by (intro op_okI, simp_all add: t, simp_all add: s1_def)
qed

text \<open>The waiters are no part of the core.\<close>

lemma same_core:
  assumes "queue_inv s" and "qs_lanes t = qs_lanes s" "qs_running t = qs_running s"
    and "qs_nextTaskId t = qs_nextTaskId s" "qs_nextQueueSequence t = qs_nextQueueSequence s"
  shows "core_inv t" "lanes_settled t" "open_promises t = open_promises s" "waiter_done t = waiter_done s"
  using assms
  by (simp_all add: queue_inv_def core_inv_def lane_core_def running_core_def lanes_settled_def open_promises_def
      queued_mset_def running_mset_def waiter_done_def [abs_def] hasPendingActiveTasks_def)

lemma same_core_ok:
  assumes "queue_inv s" and "qs_lanes t = qs_lanes s" "qs_running t = qs_running s"
    and "qs_nextTaskId t = qs_nextTaskId s" "qs_nextQueueSequence t = qs_nextQueueSequence s"
    and "set (qs_activeTaskWaiters t) \<subseteq> set (qs_activeTaskWaiters s)" "settled_seqs em = []"
  shows "op_ok s t em"
proof (rule op_okI)
  show "waiters_pending t"
    using queue_invD(3) [OF assms(1)] assms(6) same_core(4) [OF assms(1-5)] by (auto simp: waiters_pending_def)
qed (use same_core [OF assms(1-5)] assms(5,7) in simp_all)

lemma wait_ok:
  assumes inv: "queue_inv s" and step: "waitForActiveTasks timeoutMs s = (t, em)"
  shows "op_ok s t em"
proof -
  define s1 where "s1 = s\<lparr>qs_nextWaiterId := qs_nextWaiterId s + 1, qs_activeTaskWaiters := qs_activeTaskWaiters s
     @ [\<lparr>aw_id = qs_nextWaiterId s, aw_timeout = timeoutMs, aw_activeTaskIds = active_ids s\<rparr>]\<rparr>"
  have c: "core_inv s" by (rule queue_invD [OF inv])
  have alt: "t = s\<lparr>qs_nextWaiterId := qs_nextWaiterId s + 1\<rparr> \<and> settled_seqs em = [] \<or> notifyActiveTaskWaiters s1 = (t, em)"
    using step by (auto simp: waitForActiveTasks_def Let_def c s1_def split: if_splits)
  have "op_ok s t em" if "t = s\<lparr>qs_nextWaiterId := qs_nextWaiterId s + 1\<rparr>" "settled_seqs em = []"
    by (rule same_core_ok [OF inv]) (simp_all add: that)
  moreover have "op_ok s t em" if n: "notifyActiveTaskWaiters s1 = (t, em)"
  proof -
    note w = same_core [OF inv, of s1]
    have c1: "core_inv s1" by (rule w) (simp_all add: s1_def)
    note nc = notify_core [OF c1 n]
    have "lanes_settled s1" by (rule w) (simp_all add: s1_def)
    moreover have "open_promises s1 = open_promises s" by (rule w) (simp_all add: s1_def)
    ultimately show ?thesis using nc by (intro op_okI) (auto simp: lanes_settled_def s1_def)
  qed
  ultimately show ?thesis using alt by blast
qed

lemma waiter_timeout_ok:
  assumes inv: "queue_inv s" and step: "fire_waiter_timeout i s = (t, em)"
  shows "op_ok s t em"
  by (rule same_core_ok [OF inv])
    (use step in \<open>auto simp: fire_waiter_timeout_def resolveActiveTaskWaiter_def split: if_splits\<close>)

lemma mark_ok:
  assumes "queue_inv s"
  shows "op_ok s (markGatewayDraining s) []"
  by (rule same_core_ok [OF assms]) (simp_all add: markGatewayDraining_def queue_invD [OF assms])

lemma running_taskD: "running_task s i = Some r \<Longrightarrow> r \<in> set (qs_running s) \<and> rn_taskId r = i"
  unfolding running_task_def by (drule find_SomeD) simp

lemma timer_ok:
  assumes inv: "queue_inv s" and step: "fire_task_timer now i progress s = (t, em)"
  shows "op_ok s t em"
  using step op_ok_refl [OF inv] finish_ok(1) [OF inv conjunct1 [OF running_taskD]]
  by (auto simp: fire_task_timer_def split: option.splits)

lemma queue_op_ok:
  assumes inv: "queue_inv s" and step: "queue_op op s = (t, em)"
  shows "op_ok s t em"
proof (cases op)
  case (OpEnqueue now lane opts)
  then show ?thesis using enqueue_ok [OF inv] step by simp
next
  case (OpFinish now i outcome)
  then show ?thesis using step op_ok_refl [OF inv] finish_ok(1) [OF inv conjunct1 [OF running_taskD]]
    by (auto split: option.splits)
next
  case (OpTimer now i progress)
  then show ?thesis using timer_ok [OF inv] step by simp
next
  case (OpSetConcurrency now lane n)
  then show ?thesis using concurrency_ok [OF inv] step by simp
next
  case (OpClear lane)
  then show ?thesis using clear_ok [OF inv, of lane] step by (metis prod.collapse queue_op.simps(5))
next
  case (OpResetLane now lane)
  then show ?thesis using reset_lane_ok [OF inv, of now lane] step by (metis prod.collapse queue_op.simps(6))
next
  case (OpResetAll now)
  then show ?thesis using reset_all_ok(1) [OF inv] step by simp
next
  case OpMarkDraining
  then show ?thesis using mark_ok [OF inv] step by simp
next
  case (OpWait timeoutMs)
  then show ?thesis using wait_ok [OF inv] step by simp
next
  case (OpWaiterTimeout i)
  then show ?thesis using waiter_timeout_ok [OF inv] step by simp
qed

lemma queue_inv_initial: "queue_inv initial_queue"
  by (simp add: queue_inv_def core_inv_def lanes_settled_def waiters_pending_def initial_queue_def)

section \<open>The queue as a transition system\<close>

interpretation queue: transition_system "\<lambda>s. s = initial_queue" queue_step queue_inv
proof
  show "s = initial_queue \<Longrightarrow> queue_inv s" for s by (simp add: queue_inv_initial)
  show "queue_inv s \<Longrightarrow> queue_step s t \<Longrightarrow> queue_inv t" for s t
    by (erule queue_stepE) (auto dest!: queue_op_ok simp: op_ok_def)
qed

lemma queue_run_reachable:
  "reachable_from (\<lambda>s. s = initial_queue) queue_step s \<Longrightarrow> queue_run ops s = (t, em) \<Longrightarrow>
     reachable_from (\<lambda>s. s = initial_queue) queue_step t"
proof (induction ops arbitrary: s t em)
  case (Cons op ops)
  obtain s1 e1 where op: "queue_op op s = (s1, e1)" by force
  obtain t' e2 where run: "queue_run ops s1 = (t', e2)" by force
  have te: "t = t'" using Cons.prems(2) by (simp add: op run)
  then show ?case using Cons.IH [OF reach_step [OF Cons.prems(1) queue_stepI [OF op]] run] te by simp
qed simp

lemma mset_chain:
  fixes a b c d :: "nat multiset"
  assumes "b + d = a + n" "c + e = b + m"
  shows "c + (d + e) = a + (n + m)"
proof -
  have "c + (d + e) = (c + e) + d" by (simp only: ac_simps)
  also have "\<dots> = (b + d) + m" unfolding assms(2) by (simp only: ac_simps)
  finally show ?thesis unfolding assms(1) by (simp only: ac_simps)
qed

lemma queue_run_promises:
  "queue_inv s \<Longrightarrow> queue_run ops s = (t, em) \<Longrightarrow> queue_inv t \<and> promises_kept s t em"
proof (induction ops arbitrary: s t em)
  case Nil
  then show ?case by (simp add: promises_kept_def)
next
  case (Cons op ops)
  obtain s1 e1 where op: "queue_op op s = (s1, e1)" by force
  obtain t' e2 where run: "queue_run ops s1 = (t', e2)" by force
  have te: "t = t'" "em = e1 @ e2" using Cons.prems(2) by (simp_all add: op run)
  have ok: "queue_inv s1" "promises_kept s s1 e1" using queue_op_ok [OF Cons.prems(1) op] by (simp_all add: op_ok_def)
  have rec: "queue_inv t'" "promises_kept s1 t' e2" using Cons.IH [OF ok(1) run] by simp_all
  have "mset [qs_nextQueueSequence s..<qs_nextQueueSequence t']
      = mset [qs_nextQueueSequence s..<qs_nextQueueSequence s1] + mset [qs_nextQueueSequence s1..<qs_nextQueueSequence t']"
    using ok(2) rec(2) by (metis promises_kept_def le_Suc_ex mset_append upt_add_eq_append)
  moreover have "qs_nextQueueSequence s \<le> qs_nextQueueSequence t'"
    using ok(2) rec(2) by (simp add: promises_kept_def)
  moreover have "open_promises t' + mset (settled_seqs e1 @ settled_seqs e2)
      = open_promises s + (mset [qs_nextQueueSequence s..<qs_nextQueueSequence s1] + mset [qs_nextQueueSequence s1..<qs_nextQueueSequence t'])"
    unfolding mset_append by (rule mset_chain) (use ok(2) rec(2) in \<open>simp_all only: promises_kept_def\<close>)
  ultimately show ?case using rec by (simp only: te promises_kept_def settled_append)
qed

lemma run_from_start: "queue_inv (fst (queue_run ops initial_queue))"
  using queue_run_promises [OF queue_inv_initial, of ops] by (metis prod.collapse)

section \<open>Properties\<close>

text \<open>C8: After any sequence of enqueues, completions, timer firings, concurrency changes, clears,
  resets, restarts and waits: every lane keeps its queue in order of priority and arrival, the active
  tasks of a lane are exactly the running tasks of its current generation (no slot is leaked to a
  task that cannot end), no lane with a free slot has a queued entry (no lane is stuck), no drain flag
  is left set, and every waiter still waits for a task that is active (no wakeup is lost).\<close>

theorem queue_keeps_invariant: "queue_inv (fst (queue_run ops initial_queue))"
proof -
  have "reachable_from (\<lambda>s. s = initial_queue) queue_step (fst (queue_run ops initial_queue))"
    by (rule queue_run_reachable [OF reach_start, of initial_queue ops, OF _ prod.collapse [symmetric]]) simp
  then show ?thesis by (rule queue.reachable_inv)
qed

text \<open>C2: Every accepted command is queued, running or settled, and exactly one of these, once: after any
  sequence of operations the queued, running and settled sequence numbers together are the numbers
  given out, each of them once. No command is lost by a clear, a lane reset or a restart, and no promise is
  settled twice.\<close>

theorem queue_conserves_commands:
  "queued_mset (fst (queue_run ops initial_queue)) + running_mset (fst (queue_run ops initial_queue))
     + mset (settled_seqs (snd (queue_run ops initial_queue)))
   = mset [1..<qs_nextQueueSequence (fst (queue_run ops initial_queue))]"
proof -
  obtain t em where run: "queue_run ops initial_queue = (t, em)" by force
  have "promises_kept initial_queue t em" using queue_run_promises [OF queue_inv_initial run] by simp
  then show ?thesis
    by (simp add: run promises_kept_def open_promises_def) (simp add: initial_queue_def queued_mset_def running_mset_def)
qed

text \<open>A lane never runs more tasks than its limit allows at the moment it starts one: the pump starts
  tasks in queue order, as many as fit, each with a new id, and stops only at an empty queue or a full lane.\<close>

lemma pump_respects_limit:
  "case pump_loop now lane gen lmt active nextId queue of (active', nextId', queue', started, emits) \<Rightarrow>
     map rn_entry started @ queue' = queue
     \<and> active' = active @ map rn_taskId started
     \<and> map rn_taskId started = [nextId..<nextId']
     \<and> (if started = [] then active' = active else below_limit (length active' - 1) lmt)
     \<and> (if queue' = [] then True else \<not> below_limit (length active') lmt)"
proof -
  obtain a' n' q' st em where loop: "pump_loop now lane gen lmt active nextId queue = (a', n', q', st, em)"
    by (metis prod_cases5)
  obtain k where k: "k \<le> length queue" "q' = drop k queue" "n' = nextId + k" "a' = active @ [nextId..<nextId + k]"
    "map rn_entry st = take k queue" "map rn_taskId st = [nextId..<nextId + k]"
    "q' = [] \<or> \<not> below_limit (length a') lmt"
    using pump_loop_closed [OF loop] by blast
  have "if st = [] then a' = active else below_limit (length a' - 1) lmt"
    using loop pump_loop_last_start by blast
  moreover have "map rn_entry st @ q' = queue" "a' = active @ map rn_taskId st" "map rn_taskId st = [nextId..<n']"
    "if q' = [] then True else \<not> below_limit (length a') lmt"
    using k by auto
  ultimately show ?thesis by (simp only: loop prod.case)
qed

text \<open>When a started task ends, its promise is settled once with its outcome. A task of the current
  generation frees its slot, the waiters are notified and the lane is pumped; a task of an earlier generation (its
  lane was reset meanwhile) touches no lane, starts nothing and resolves no waiter. A task that is not running
  (it has ended or timed out) has no effect.\<close>

lemma completion_effect:
  "let s = fst (queue_run ops initial_queue) in
   case running_task s i of
     None \<Rightarrow> queue_op (OpFinish now i outcome) s = (s, [])
   | Some r \<Rightarrow>
      (case lane_at s (rn_lane r) of
         None \<Rightarrow> False
       | Some l \<Rightarrow>
          settled_seqs (snd (queue_op (OpFinish now i outcome) s)) = [qe_sequence (rn_entry r)]
          \<and> (if rn_generation r = ls_generation l then i \<in> set (ls_activeTaskIds l)
             else i \<notin> set (ls_activeTaskIds l)
               \<and> queue_op (OpFinish now i outcome) s
                 = (s\<lparr>qs_running := filter (\<lambda>x. rn_taskId x \<noteq> i) (qs_running s)\<rparr>,
                    [EmitSettle (qe_sequence (rn_entry r)) outcome])))"
proof -
  define s where "s = fst (queue_run ops initial_queue)"
  have inv: "queue_inv s" unfolding s_def by (rule run_from_start)
  have c: "core_inv s" by (rule queue_invD [OF inv])
  show ?thesis unfolding Let_def s_def [symmetric]
  proof (cases "running_task s i")
    case (Some r)
    have r: "r \<in> set (qs_running s)" "rn_taskId r = i" using running_taskD [OF Some] by simp_all
    obtain l where l: "lane_at s (rn_lane r) = Some l"
      using core_running [OF c r(1)] by (auto simp: running_core_def lane_at_def split: option.splits)
    have ok: "settled_seqs (snd (finish_task now r outcome s)) = [qe_sequence (rn_entry r)]"
      by (rule finish_ok(2) [OF inv r(1) prod.collapse [symmetric]])
    have lc: "lane_core s (rn_lane r) l" by (rule core_lane [OF c l])
    have stale: "finish_task now r outcome s
        = (s\<lparr>qs_running := filter (\<lambda>x. rn_taskId x \<noteq> i) (qs_running s)\<rparr>,
           [EmitSettle (qe_sequence (rn_entry r)) outcome]) \<and> i \<notin> set (ls_activeTaskIds l)"
      if "rn_generation r \<noteq> ls_generation l"
      using lane_core_finish(2) [OF c r(1) lc] that r(2)
      by (simp add: finish_task_def Let_def getLaneState_running [OF c l] completeTask_def)
    have active: "i \<in> set (ls_activeTaskIds l)" if "rn_generation r = ls_generation l"
      using lc r that by (auto simp: lane_core_def)
    show "case running_task s i of None \<Rightarrow> queue_op (OpFinish now i outcome) s = (s, [])
      | Some r \<Rightarrow> (case lane_at s (rn_lane r) of None \<Rightarrow> False
         | Some l \<Rightarrow> settled_seqs (snd (queue_op (OpFinish now i outcome) s)) = [qe_sequence (rn_entry r)]
          \<and> (if rn_generation r = ls_generation l then i \<in> set (ls_activeTaskIds l)
             else i \<notin> set (ls_activeTaskIds l) \<and> queue_op (OpFinish now i outcome) s
                 = (s\<lparr>qs_running := filter (\<lambda>x. rn_taskId x \<noteq> i) (qs_running s)\<rparr>,
                    [EmitSettle (qe_sequence (rn_entry r)) outcome])))"
      using ok stale active by (simp add: Some l)
  qed simp
qed

text \<open>Ending the running tasks one after the other, the earliest first.\<close>

fun finish_all :: "nat \<Rightarrow> int \<Rightarrow> Outcome \<Rightarrow> QueueState \<Rightarrow> QueueState \<times> QueueEmit list" where
  "finish_all 0 now outcome s = (s, [])"
| "finish_all (Suc n) now outcome s =
     (case qs_running s of
        [] \<Rightarrow> (s, [])
      | r # rs \<Rightarrow>
          (let (t, em) = finish_task now r outcome s; (u, rest) = finish_all n now outcome t in (u, em @ rest)))"

definition lanes_open :: "QueueState \<Rightarrow> bool" where
  "lanes_open s = list_all (\<lambda>(k, l). below_limit 0 (ls_maxConcurrent l)) (qs_lanes s)"

lemma lanes_open_iff:
  "jm_wf (qs_lanes s) \<Longrightarrow> lanes_open s \<longleftrightarrow> (\<forall>k. case (map_option ls_maxConcurrent \<circ> lane_at s) k of None \<Rightarrow> True | Some m \<Rightarrow> below_limit 0 m)"
  unfolding lanes_open_def lane_at_def list_all_iff
  by (auto simp: jm_get_in_set split: option.splits)

lemma sum_list_all_empty:
  fixes f :: "'a \<Rightarrow> nat multiset"
  shows "(\<And>x. x \<in> set xs \<Longrightarrow> f x = {#}) \<Longrightarrow> sum_list (map f xs) = {#}"
  by (induction xs) auto

lemma idle_drained:
  assumes inv: "queue_inv s" and op: "lanes_open s" and idle: "qs_running s = []"
  shows "open_promises s = {#}"
proof -
  have "ls_queue l = []" if "(k, l) \<in> set (qs_lanes s)" for k l
  proof -
    have "lane_settled l" "lane_core s k l" "below_limit 0 (ls_maxConcurrent l)"
      using inv op that by (auto simp: queue_inv_def lanes_settled_def core_inv_def lanes_open_def list_all_iff)
    then show ?thesis using idle by (auto simp: lane_settled_def lane_core_def)
  qed
  then have "queued_mset s = {#}" unfolding queued_mset_def by (intro sum_list_all_empty) auto
  then show ?thesis using idle by (simp add: open_promises_def running_mset_def)
qed

lemma finish_all_drains:
  assumes "queue_inv s" "lanes_open s" "size (open_promises s) \<le> n" "finish_all n now outcome s = (t, em)"
  shows "queue_inv t \<and> open_promises t = {#} \<and> mset (settled_seqs em) = open_promises s"
  using assms
proof (induction n arbitrary: s t em)
  case 0
  then show ?case by simp
next
  case (Suc n)
  note inv = Suc.prems(1) and op = Suc.prems(2)
  show ?case
  proof (cases "qs_running s")
    case Nil
    then show ?thesis using Suc.prems(4) inv idle_drained [OF inv op Nil] by simp
  next
    case (Cons r rs)
    obtain s1 e1 where f: "finish_task now r outcome s = (s1, e1)" by force
    obtain t' e2 where rest: "finish_all n now outcome s1 = (t', e2)" by force
    have te: "t = t'" "em = e1 @ e2" using Suc.prems(4) Cons by (simp_all add: f rest)
    have r: "r \<in> set (qs_running s)" by (simp add: Cons)
    note fo = finish_ok [OF inv r f]
    have inv1: "queue_inv s1" using fo(1) by (simp add: op_ok_def)
    have open1: "open_promises s1 + {#qe_sequence (rn_entry r)#} = open_promises s"
      using fo(1) by (simp add: op_ok_def promises_kept_def fo(2,3))
    have lo: "lanes_open s1"
      using op fo(4) by (simp add: lanes_open_iff core_wf queue_invD inv inv1)
    have "size (open_promises s1) \<le> n" using arg_cong [OF open1, of size] Suc.prems(3) by simp
    then have "queue_inv t' \<and> open_promises t' = {#} \<and> mset (settled_seqs e2) = open_promises s1"
      by (rule Suc.IH [OF inv1 lo _ rest])
    then show ?thesis using open1 by (simp add: te fo(2))
  qed
qed

text \<open>C9: The queue never blocks: from any reachable state whose lanes admit at least one task, ending the
  running tasks one after the other (whatever their outcome) settles every open command exactly once, after as
  many completions as there are open commands, and leaves nothing queued, nothing running and no waiter.\<close>

theorem queue_drains:
  assumes "lanes_open (fst (queue_run ops initial_queue))"
  shows "case finish_all (size (open_promises (fst (queue_run ops initial_queue)))) now outcome
              (fst (queue_run ops initial_queue)) of (t, em) \<Rightarrow>
           queued_mset t = {#} \<and> qs_running t = [] \<and> qs_activeTaskWaiters t = []
           \<and> mset (settled_seqs em) = open_promises (fst (queue_run ops initial_queue))"
proof -
  let ?s = "fst (queue_run ops initial_queue)"
  obtain t em where f: "finish_all (size (open_promises ?s)) now outcome ?s = (t, em)" by force
  have d: "queue_inv t \<and> open_promises t = {#} \<and> mset (settled_seqs em) = open_promises ?s"
    by (rule finish_all_drains [OF run_from_start assms order_refl f])
  then have q: "queued_mset t = {#}" "qs_running t = []" by (simp_all add: open_promises_def running_mset_def)
  have "\<not> hasPendingActiveTasks t ids" for ids
    using d q(2) by (auto simp: pending_iff core_wf queue_invD lane_core_def dest: core_lane [rotated])
  then have "qs_activeTaskWaiters t = []"
    using d by (cases "qs_activeTaskWaiters t") (auto simp: queue_inv_def waiters_pending_def waiter_done_def)
  then show ?thesis using d q by (simp add: f)
qed

definition sample_opts :: CommandQueueEnqueueOptions where
  "sample_opts = \<lparr>eo_warnAfterMs = None, eo_hasOnWait = False, eo_taskTimeoutMs = None, eo_priority = Some Foreground\<rparr>"

definition sample_ops :: "QueueOp list" where
  "sample_ops = [OpEnqueue 0 ''cron'' sample_opts, OpEnqueue 1 ''cron'' sample_opts, OpResetLane 2 ''cron'']"

theorem queue_drains_witness:
  "lanes_open (fst (queue_run sample_ops initial_queue))
   \<and> (case finish_all (size (open_promises (fst (queue_run sample_ops initial_queue)))) 5 Resolved
              (fst (queue_run sample_ops initial_queue)) of (t, em) \<Rightarrow>
           queued_mset t = {#} \<and> qs_running t = [] \<and> qs_activeTaskWaiters t = []
           \<and> mset (settled_seqs em) = open_promises (fst (queue_run sample_ops initial_queue)))"
proof -
  have "lanes_open (fst (queue_run sample_ops initial_queue))" by code_simp
  then show ?thesis by (intro conjI queue_drains)
qed

text \<open>While the gateway drains for a restart an enqueue is refused and changes nothing; otherwise it is accepted:
  it takes the next sequence number and is queued or running afterwards. A restart reset ends the draining.\<close>

lemma enqueue_accepts_unless_draining:
  "let s = fst (queue_run ops initial_queue); (t, em) = enqueueCommandInLane now lane opts s in
   (if qs_gatewayDraining s then t = s \<and> em = [EmitRefused GatewayDraining]
    else qs_nextQueueSequence t = qs_nextQueueSequence s + 1
      \<and> open_promises t = open_promises s + {#qs_nextQueueSequence s#} \<and> settled_seqs em = [])
   \<and> qs_gatewayDraining (markGatewayDraining s) \<and> \<not> qs_gatewayDraining (fst (resetAllLanes now s))"
proof -
  define s where "s = fst (queue_run ops initial_queue)"
  have inv: "queue_inv s" unfolding s_def by (rule run_from_start)
  obtain t em where step: "enqueueCommandInLane now lane opts s = (t, em)" by force
  have "\<not> qs_gatewayDraining s \<Longrightarrow> qs_nextQueueSequence t = qs_nextQueueSequence s + 1
      \<and> open_promises t = open_promises s + {#qs_nextQueueSequence s#} \<and> settled_seqs em = []"
    using enqueue_accepted [OF inv step] by simp
  moreover have "qs_gatewayDraining s \<Longrightarrow> t = s \<and> em = [EmitRefused GatewayDraining]"
    using step by (simp add: enqueueCommandInLane_def queue_invD [OF inv])
  moreover have "\<not> qs_gatewayDraining (fst (resetAllLanes now s))"
    by (rule reset_all_ok(2) [OF inv prod.collapse [symmetric]])
  ultimately show ?thesis
    by (simp add: Let_def s_def [symmetric] step markGatewayDraining_def queue_invD [OF inv])
qed

text \<open>Task timeouts: a normalised timeout is at least one millisecond; a task is timed out no earlier than its
  timeout after it was started, and while it is not, the next check comes after at least one millisecond
  and at most the timeout. At the start itself no task is timed out.\<close>

lemma task_timeout_bounds:
  "case normalizeTaskTimeoutMs v of
     None \<Rightarrow> True
   | Some ms \<Rightarrow> 1 \<le> ms
      \<and> (case armTimeout now ms startedAt progress of
           None \<Rightarrow> startedAt + ms \<le> now
         | Some remaining \<Rightarrow> 1 \<le> remaining \<and> remaining \<le> ms)
      \<and> armTimeout startedAt ms startedAt progress = Some ms"
proof (cases "normalizeTaskTimeoutMs v")
  case (Some ms)
  have ms: "1 \<le> ms" using Some by (auto simp: normalizeTaskTimeoutMs_def split: option.splits js_number.splits if_splits)
  have "startedAt \<le> readLastProgressAtMs startedAt progress"
    by (auto simp: readLastProgressAtMs_def split: option.splits js_number.splits)
  then show ?thesis using ms by (auto simp: Some armTimeout_def Let_def split: option.splits)
qed simp

end
