(* ===== verification/RateLimit.thy ===== *)
theory RateLimit
  imports JsNumber JsString JsMap
begin

text \<open>
  The window-based limiters: the fixed-window limiter (src/src/infra/fixed-window-rate-limit.ts)
  and the per-client write budget of the control plane
  (src/src/gateway/control-plane-rate-limit.ts). Both are instances of the locale
  \<open>window_limiter\<close>, which bounds the admissions of any interval.
\<close>

section \<open>Fixed windows\<close>

record FixedWindowState =
  fw_count :: nat
  fw_windowStartMs :: int

record RateDecision =
  rd_allowed :: bool
  rd_retryAfterMs :: js_limit
  rd_remaining :: js_limit

definition fixed_window_start :: FixedWindowState where
  "fixed_window_start = \<lparr>fw_count = 0, fw_windowStartMs = 0\<rparr>"

definition fixed_consume :: "js_limit \<Rightarrow> js_limit \<Rightarrow> int \<Rightarrow> FixedWindowState \<Rightarrow> RateDecision \<times> FixedWindowState" where
  "fixed_consume maxRequests windowMs nowMs st =
    (let st = (if reaches_limit (nowMs - fw_windowStartMs st) windowMs
               then \<lparr>fw_count = 0, fw_windowStartMs = nowMs\<rparr> else st) in
     if reaches_limit (int (fw_count st)) maxRequests
     then (\<lparr>rd_allowed = False, rd_retryAfterMs = limit_minus windowMs (nowMs - fw_windowStartMs st),
            rd_remaining = LimitInt 0\<rparr>, st)
     else (\<lparr>rd_allowed = True, rd_retryAfterMs = LimitInt 0,
            rd_remaining = limit_minus maxRequests (int (fw_count st + 1))\<rparr>,
           st\<lparr>fw_count := fw_count st + 1\<rparr>))"

definition createFixedWindowRateLimiter ::
  "js_number \<Rightarrow> js_number \<Rightarrow> int \<Rightarrow> FixedWindowState \<Rightarrow> RateDecision \<times> FixedWindowState" where
  "createFixedWindowRateLimiter maxRequests windowMs = fixed_consume (floor_max 1 maxRequests) (floor_max 1 windowMs)"

definition fixed_reset :: "FixedWindowState \<Rightarrow> FixedWindowState" where
  "fixed_reset st = st\<lparr>fw_count := 0, fw_windowStartMs := 0\<rparr>"

section \<open>The write budget of the control plane\<close>

definition CONTROL_PLANE_RATE_LIMIT_MAX_REQUESTS :: nat where "CONTROL_PLANE_RATE_LIMIT_MAX_REQUESTS = 3"
definition CONTROL_PLANE_RATE_LIMIT_WINDOW_MS :: int where "CONTROL_PLANE_RATE_LIMIT_WINDOW_MS = 60000"
definition CONTROL_PLANE_BUCKET_MAX_STALE_MS :: int where "CONTROL_PLANE_BUCKET_MAX_STALE_MS = 5 * 60000"
definition CONTROL_PLANE_BUCKET_MAX_ENTRIES :: nat where "CONTROL_PLANE_BUCKET_MAX_ENTRIES = 10000"

lemmas control_plane_limits = CONTROL_PLANE_RATE_LIMIT_MAX_REQUESTS_def CONTROL_PLANE_RATE_LIMIT_WINDOW_MS_def
  CONTROL_PLANE_BUCKET_MAX_STALE_MS_def CONTROL_PLANE_BUCKET_MAX_ENTRIES_def

record Bucket =
  bk_count :: nat
  bk_windowStartMs :: int

record ControlDecision =
  cd_allowed :: bool
  cd_retryAfterMs :: int
  cd_remaining :: int
  cd_key :: string

text \<open>The parts of a gateway client the key is made of; \<open>None\<close> where the value is no string.\<close>

record GatewayClientIdentity =
  gc_deviceId :: "string option"
  gc_clientIp :: "string option"
  gc_connId :: "string option"

definition normalizePart :: "string option \<Rightarrow> string \<Rightarrow> string" where
  "normalizePart v fallback =
    (case v of None \<Rightarrow> fallback | Some s \<Rightarrow> if js_trim s \<noteq> [] then js_trim s else fallback)"

definition resolveControlPlaneRateLimitKey :: "GatewayClientIdentity \<Rightarrow> string" where
  "resolveControlPlaneRateLimitKey client =
    (let deviceId = normalizePart (gc_deviceId client) ''unknown-device'';
         clientIp = normalizePart (gc_clientIp client) ''unknown-ip'';
         connId = normalizePart (gc_connId client) [];
         pair = deviceId @ ''|'' @ clientIp
     in if deviceId = ''unknown-device'' \<and> clientIp = ''unknown-ip'' \<and> connId \<noteq> []
        then pair @ ''|conn='' @ connId else pair)"

type_synonym Buckets = "(string, Bucket) jsmap"

definition window_over :: "int \<Rightarrow> Bucket option \<Rightarrow> bool" where
  "window_over nowMs b =
    (case b of None \<Rightarrow> True | Some b \<Rightarrow> CONTROL_PLANE_RATE_LIMIT_WINDOW_MS \<le> nowMs - bk_windowStartMs b)"

definition consume_key :: "string \<Rightarrow> int \<Rightarrow> Buckets \<Rightarrow> ControlDecision \<times> Buckets" where
  "consume_key key nowMs m =
    (case (window_over nowMs (jm_get m key), jm_get m key) of
       (False, Some b) \<Rightarrow>
         if CONTROL_PLANE_RATE_LIMIT_MAX_REQUESTS \<le> bk_count b
         then (\<lparr>cd_allowed = False,
                cd_retryAfterMs = max 0 (bk_windowStartMs b + CONTROL_PLANE_RATE_LIMIT_WINDOW_MS - nowMs),
                cd_remaining = 0, cd_key = key\<rparr>, m)
         else (\<lparr>cd_allowed = True, cd_retryAfterMs = 0,
                cd_remaining = max 0 (int CONTROL_PLANE_RATE_LIMIT_MAX_REQUESTS - int (bk_count b + 1)), cd_key = key\<rparr>,
               jm_set key (b\<lparr>bk_count := bk_count b + 1\<rparr>) m)
     | _ \<Rightarrow>
         (let m = (if \<not> jm_has key m \<and> CONTROL_PLANE_BUCKET_MAX_ENTRIES \<le> length m then jm_drop_oldest m else m)
          in (\<lparr>cd_allowed = True, cd_retryAfterMs = 0,
               cd_remaining = int CONTROL_PLANE_RATE_LIMIT_MAX_REQUESTS - 1, cd_key = key\<rparr>,
              jm_set key \<lparr>bk_count = 1, bk_windowStartMs = nowMs\<rparr> m)))"

definition consumeControlPlaneWriteBudget ::
  "GatewayClientIdentity \<Rightarrow> int \<Rightarrow> Buckets \<Rightarrow> ControlDecision \<times> Buckets" where
  "consumeControlPlaneWriteBudget client nowMs m = consume_key (resolveControlPlaneRateLimitKey client) nowMs m"

definition pruneStaleControlPlaneBuckets :: "int \<Rightarrow> Buckets \<Rightarrow> nat \<times> Buckets" where
  "pruneStaleControlPlaneBuckets nowMs m =
    (let stale = (\<lambda>(k, b). CONTROL_PLANE_BUCKET_MAX_STALE_MS < nowMs - bk_windowStartMs b)
     in (length (filter stale m), filter (\<lambda>p. \<not> stale p) m))"

section \<open>Admissions within an interval\<close>

text \<open>The times at which a sequence of requests is admitted.\<close>

fun admitted :: "(int \<Rightarrow> 's \<Rightarrow> bool \<times> 's) \<Rightarrow> int list \<Rightarrow> 's \<Rightarrow> int list" where
  "admitted admit [] s = []"
| "admitted admit (t # ts) s =
     (if fst (admit t s) then t # admitted admit ts (snd (admit t s)) else admitted admit ts (snd (admit t s)))"

definition count_in :: "int \<Rightarrow> int \<Rightarrow> int list \<Rightarrow> nat" where
  "count_in a w ts = length (filter (\<lambda>t. a \<le> t \<and> t < a + w) ts)"

lemma count_in_simps [simp]:
  "count_in a w [] = 0"
  "count_in a w (t # ts) = (if a \<le> t \<and> t < a + w then 1 else 0) + count_in a w ts"
  by (simp_all add: count_in_def)

text \<open>
  A limiter with windows of length \<open>width\<close> and a budget per window: a request outside the running
  window opens a new one and is admitted; a request inside it is admitted while the budget lasts.
\<close>

locale window_limiter =
  fixes admit :: "int \<Rightarrow> 's \<Rightarrow> bool \<times> 's"
    and window :: "'s \<Rightarrow> int option"
    and used :: "'s \<Rightarrow> nat"
    and budget :: nat
    and width :: int
  assumes opens: "window s = None \<or> (\<exists>st. window s = Some st \<and> width \<le> t - st) \<Longrightarrow>
      fst (admit t s) \<and> window (snd (admit t s)) = Some t \<and> used (snd (admit t s)) = 1"
    and inside: "window s = Some st \<Longrightarrow> t - st < width \<Longrightarrow>
      fst (admit t s) = (used s < budget) \<and> window (snd (admit t s)) = Some st
      \<and> used (snd (admit t s)) = used s + (if used s < budget then 1 else 0)"
    and budget_pos: "1 \<le> budget"
begin

lemma window_budget:
  "sorted ts \<Longrightarrow> window s = Some st \<Longrightarrow> a \<le> st \<Longrightarrow> used s \<le> budget \<Longrightarrow>
     count_in a width (admitted admit ts s) \<le> budget - used s"
proof (induction ts arbitrary: s st)
  case (Cons t ts)
  have srt: "sorted ts" using Cons.prems(1) by simp
  show ?case
  proof (cases "t - st < width")
    case True
    note i = inside [OF Cons.prems(2) True]
    then have u: "used (snd (admit t s)) \<le> budget" using Cons.prems(4) by simp
    have w: "window (snd (admit t s)) = Some st" using i by simp
    have "count_in a width (admitted admit ts (snd (admit t s))) \<le> budget - used (snd (admit t s))"
      by (rule Cons.IH [OF srt w Cons.prems(3) u])
    then show ?thesis using i by auto
  next
    case False
    then have late: "\<not> t < a + width" using Cons.prems(3) by linarith
    have "window s = None \<or> (\<exists>x. window s = Some x \<and> width \<le> t - x)" using Cons.prems(2) False by auto
    note o = opens [OF this]
    have "\<forall>x \<in> set ts. a + width \<le> x" using Cons.prems(1) late by auto
    then have "count_in a width (admitted admit ts s') = 0" for s'
      by (induction ts arbitrary: s') auto
    then show ?thesis using late by simp
  qed
qed simp

lemma interval_budget_late:
  "sorted ts \<Longrightarrow> \<forall>t \<in> set ts. a \<le> t \<Longrightarrow> used s \<le> budget \<or> window s = None \<Longrightarrow>
     count_in a width (admitted admit ts s) \<le> 2 * budget - (if window s = None then budget else used s)"
proof (induction ts arbitrary: s)
  case (Cons t ts)
  have srt: "sorted ts" and late: "\<forall>t \<in> set ts. a \<le> t" "a \<le> t" using Cons.prems(1,2) by simp_all
  show ?case
  proof (cases "\<exists>st. window s = Some st \<and> t - st < width")
    case True
    then obtain st where st: "window s = Some st" "t - st < width" by blast
    note i = inside [OF st]
    have u: "used (snd (admit t s)) \<le> budget" using i Cons.prems(3) st by auto
    have "count_in a width (admitted admit ts (snd (admit t s))) \<le> 2 * budget - used (snd (admit t s))"
      using Cons.IH [OF srt late(1), of "snd (admit t s)"] i u by simp
    then show ?thesis using i st Cons.prems(3) by auto
  next
    case False
    then have "window s = None \<or> (\<exists>st. window s = Some st \<and> width \<le> t - st)"
      by (cases "window s") (auto simp: not_less)
    note o = opens [OF this]
    have "count_in a width (admitted admit ts (snd (admit t s))) \<le> budget - 1"
      using window_budget [OF srt _ late(2), of "snd (admit t s)"] o budget_pos by simp
    then show ?thesis using o budget_pos Cons.prems(3) by auto
  qed
qed simp

text \<open>Whatever the interval, at most two budgets fall into it.\<close>

lemma interval_budget:
  assumes "sorted ts" and "window s = None \<or> used s \<le> budget"
  shows "count_in a width (admitted admit ts s) \<le> 2 * budget"
  using assms
proof (induction ts arbitrary: s)
  case (Cons t ts)
  have srt: "sorted ts" using Cons.prems(1) by simp
  show ?case
  proof (cases "a \<le> t")
    case True
    then have "\<forall>x \<in> set (t # ts). a \<le> x" using Cons.prems(1) by auto
    then have "count_in a width (admitted admit (t # ts) s) \<le> 2 * budget - (if window s = None then budget else used s)"
      using Cons.prems(2) by (intro interval_budget_late [OF Cons.prems(1)]) auto
    then show ?thesis by linarith
  next
    case False
    have "used (snd (admit t s)) \<le> budget"
    proof (cases "\<exists>st. window s = Some st \<and> t - st < width")
      case True
      then show ?thesis using inside Cons.prems(2) by fastforce
    next
      case False
      then have "window s = None \<or> (\<exists>st. window s = Some st \<and> width \<le> t - st)"
        by (cases "window s") (auto simp: not_less)
      then show ?thesis using opens [of s t] budget_pos by simp
    qed
    then show ?thesis using Cons.IH [OF srt] False by simp
  qed
qed simp

end

section \<open>The two limiters as window limiters\<close>

lemma limit_cases:
  "reaches_limit d (LimitInt m) = (m \<le> d)"
  "floor_max mn (Fin q) = LimitInt (max mn \<lfloor>q\<rfloor>)"
  by (simp_all add: reaches_limit_def floor_max_def)

definition fixed_admit :: "rat \<Rightarrow> rat \<Rightarrow> int \<Rightarrow> FixedWindowState \<Rightarrow> bool \<times> FixedWindowState" where
  "fixed_admit maxRequests windowMs t s =
    (let (d, s') = createFixedWindowRateLimiter (Fin maxRequests) (Fin windowMs) t s in (rd_allowed d, s'))"

lemma fixed_admit_simp:
  "fixed_admit q r t s =
    (if max 1 \<lfloor>r\<rfloor> \<le> t - fw_windowStartMs s then (True, \<lparr>fw_count = 1, fw_windowStartMs = t\<rparr>)
     else if fw_count s < nat (max 1 \<lfloor>q\<rfloor>) then (True, s\<lparr>fw_count := fw_count s + 1\<rparr>) else (False, s))"
  by (auto simp: fixed_admit_def createFixedWindowRateLimiter_def fixed_consume_def limit_cases Let_def)

interpretation fixed: window_limiter "fixed_admit q r" "\<lambda>s. Some (fw_windowStartMs s)" fw_count
    "nat (max 1 \<lfloor>q\<rfloor>)" "max 1 \<lfloor>r\<rfloor>" for q r
  by unfold_locales (auto simp: fixed_admit_simp)

text \<open>The bucket of one key, without the others.\<close>

definition bucket_admit :: "int \<Rightarrow> Bucket option \<Rightarrow> bool \<times> Bucket option" where
  "bucket_admit nowMs b =
    (if window_over nowMs b then (True, Some \<lparr>bk_count = 1, bk_windowStartMs = nowMs\<rparr>)
     else (case b of
        None \<Rightarrow> (True, None)
      | Some x \<Rightarrow> if bk_count x < CONTROL_PLANE_RATE_LIMIT_MAX_REQUESTS then (True, Some (x\<lparr>bk_count := bk_count x + 1\<rparr>))
                  else (False, b)))"

interpretation bucket: window_limiter bucket_admit "map_option bk_windowStartMs"
    "\<lambda>b. case b of None \<Rightarrow> 0 | Some x \<Rightarrow> bk_count x"
    CONTROL_PLANE_RATE_LIMIT_MAX_REQUESTS CONTROL_PLANE_RATE_LIMIT_WINDOW_MS
  by unfold_locales (auto simp: bucket_admit_def window_over_def control_plane_limits split: option.splits)

datatype ControlEvent = ControlRequest GatewayClientIdentity int | ControlPrune int

fun event_time :: "ControlEvent \<Rightarrow> int" where
  "event_time (ControlRequest c t) = t"
| "event_time (ControlPrune t) = t"

fun request_times :: "string \<Rightarrow> ControlEvent list \<Rightarrow> int list" where
  "request_times k [] = []"
| "request_times k (ControlRequest c t # es) =
     (if resolveControlPlaneRateLimitKey c = k then t # request_times k es else request_times k es)"
| "request_times k (ControlPrune t # es) = request_times k es"

fun request_keys :: "ControlEvent list \<Rightarrow> string list" where
  "request_keys [] = []"
| "request_keys (ControlRequest c t # es) = resolveControlPlaneRateLimitKey c # request_keys es"
| "request_keys (ControlPrune t # es) = request_keys es"

text \<open>A run of the module: the admitted requests, by key, and the buckets.\<close>

fun control_run :: "ControlEvent list \<Rightarrow> Buckets \<Rightarrow> (string \<times> int) list \<times> Buckets" where
  "control_run [] m = ([], m)"
| "control_run (ControlRequest c t # es) m =
     (let (d, m') = consumeControlPlaneWriteBudget c t m; (log, m'') = control_run es m'
      in (if cd_allowed d then (cd_key d, t) # log else log, m''))"
| "control_run (ControlPrune t # es) m = control_run es (snd (pruneStaleControlPlaneBuckets t m))"

lemma jm_drop_oldest_length: "jm_wf m \<Longrightarrow> length (jm_drop_oldest m) = length m - 1"
  by (simp add: jm_drop_oldest_tl)

lemma consume_key_wf:
  assumes "jm_wf m"
  shows "jm_wf (snd (consume_key k t m))"
  using assms by (auto simp: consume_key_def Let_def split: option.splits bool.splits)

lemma consume_key_length:
  assumes "jm_wf m" "length m \<le> CONTROL_PLANE_BUCKET_MAX_ENTRIES"
  shows "length (snd (consume_key k t m)) \<le> CONTROL_PLANE_BUCKET_MAX_ENTRIES"
proof -
  have "jm_has k m" if "jm_get m k = Some b" for b using that by (simp add: jm_has_iff)
  then show ?thesis using assms
    by (auto simp: consume_key_def Let_def length_jm_set jm_drop_oldest_length control_plane_limits
        split: option.splits bool.splits)
qed

lemma control_run_bounded:
  "jm_wf m \<Longrightarrow> length m \<le> CONTROL_PLANE_BUCKET_MAX_ENTRIES \<Longrightarrow>
     length (snd (control_run es m)) \<le> CONTROL_PLANE_BUCKET_MAX_ENTRIES"
proof (induction es m rule: control_run.induct)
  case (2 c t es m)
  obtain d m' where d: "consumeControlPlaneWriteBudget c t m = (d, m')" by force
  have "m' = snd (consume_key (resolveControlPlaneRateLimitKey c) t m)"
    using d by (simp add: consumeControlPlaneWriteBudget_def)
  then have "jm_wf m'" "length m' \<le> CONTROL_PLANE_BUCKET_MAX_ENTRIES"
    using consume_key_wf consume_key_length 2(2,3) by simp_all
  then show ?case using 2(1) [OF d [symmetric] refl] by (simp add: d split_def Let_def)
next
  case (3 t es m)
  have "length (filter P m) \<le> CONTROL_PLANE_BUCKET_MAX_ENTRIES" for P
    using length_filter_le [of P m] 3(3) by linarith
  then show ?case using 3 by (simp add: pruneStaleControlPlaneBuckets_def Let_def jm_wf_filter)
qed simp

text \<open>The bucket of a key agrees with its single-key model, but for stale buckets that were pruned.\<close>

definition bucket_sim :: "int \<Rightarrow> Bucket option \<Rightarrow> Bucket option \<Rightarrow> bool" where
  "bucket_sim nowMs b b' \<longleftrightarrow> b = b' \<or> b = None \<and> window_over nowMs b'"

lemma consume_key_other: "k \<noteq> key \<Longrightarrow> jm_has key m \<or> length m < CONTROL_PLANE_BUCKET_MAX_ENTRIES \<Longrightarrow>
    jm_get (snd (consume_key key t m)) k = jm_get m k"
  by (auto simp: consume_key_def Let_def split: option.splits bool.splits)

lemma consume_key_same:
  assumes "jm_has key m \<or> length m < CONTROL_PLANE_BUCKET_MAX_ENTRIES" and "bucket_sim t (jm_get m key) b'"
  shows "cd_allowed (fst (consume_key key t m)) = fst (bucket_admit t b')"
    and "jm_get (snd (consume_key key t m)) key = snd (bucket_admit t b')"
    and "cd_key (fst (consume_key key t m)) = key"
proof -
  have drop: "\<not> (\<not> jm_has key m \<and> CONTROL_PLANE_BUCKET_MAX_ENTRIES \<le> length m)" using assms(1) by auto
  consider (over) "window_over t (jm_get m key)" "window_over t b'"
    | (inside) b where "jm_get m key = Some b" "b' = Some b" "\<not> window_over t (Some b)"
    using assms(2)
    by (cases "window_over t (jm_get m key)"; cases "jm_get m key") (auto simp: bucket_sim_def window_over_def)
  then have "cd_allowed (fst (consume_key key t m)) = fst (bucket_admit t b')
      \<and> jm_get (snd (consume_key key t m)) key = snd (bucket_admit t b')
      \<and> cd_key (fst (consume_key key t m)) = key"
  proof cases
    case over
    then show ?thesis by (simp add: consume_key_def bucket_admit_def drop)
  next
    case (inside b)
    then show ?thesis by (simp add: consume_key_def bucket_admit_def)
  qed
  then show "cd_allowed (fst (consume_key key t m)) = fst (bucket_admit t b')"
    and "jm_get (snd (consume_key key t m)) key = snd (bucket_admit t b')"
    and "cd_key (fst (consume_key key t m)) = key" by blast+
qed

lemma consume_key_keys:
  assumes "jm_has key m \<or> length m < CONTROL_PLANE_BUCKET_MAX_ENTRIES"
  shows "fst ` set (snd (consume_key key t m)) \<subseteq> insert key (fst ` set m)"
  using assms by (auto simp: consume_key_def Let_def split: option.splits bool.splits)

lemma room_for_key:
  assumes "jm_wf m" "fst ` set m \<subseteq> K" "finite K" "card K \<le> n" "key \<in> K"
  shows "jm_has key m \<or> length m < n"
proof (cases "jm_has key m")
  case False
  then have "fst ` set m \<subset> K" using assms(2,5) by (auto simp: jm_has_def)
  then have "card (fst ` set m) < card K" using assms(3) by (rule psubset_card_mono [rotated])
  moreover have "card (fst ` set m) = length m" using assms(1) by (metis jm_wf_def distinct_card length_map list.set_map)
  ultimately show ?thesis using assms(4) by linarith
qed simp

lemma control_run_projects:
  assumes "jm_wf m" "fst ` set m \<subseteq> K" "finite K" "card K \<le> CONTROL_PLANE_BUCKET_MAX_ENTRIES"
    and "set (request_keys es) \<subseteq> K" "sorted (map event_time es)"
    and "\<And>t. t \<in> event_time ` set es \<Longrightarrow> bucket_sim t (jm_get m k) b'"
  shows "map snd (filter (\<lambda>p. fst p = k) (fst (control_run es m))) = admitted bucket_admit (request_times k es) b'"
  using assms
proof (induction es m arbitrary: b' rule: control_run.induct)
  case (2 c t es m)
  let ?key = "resolveControlPlaneRateLimitKey c"
  have room: "jm_has ?key m \<or> length m < CONTROL_PLANE_BUCKET_MAX_ENTRIES"
    by (rule room_for_key [OF 2(2,3,4,5)]) (use 2(6) in simp)
  obtain d m' where d: "consume_key ?key t m = (d, m')" by force
  then have d': "consumeControlPlaneWriteBudget c t m = (d, m')" by (simp add: consumeControlPlaneWriteBudget_def)
  have wf: "jm_wf m'" using consume_key_wf [OF 2(2), of ?key t] d by simp
  have "insert ?key (fst ` set m) \<subseteq> K" using 2(3,6) by simp
  then have ks: "fst ` set m' \<subseteq> K" using consume_key_keys [OF room, of t] unfolding d snd_conv by (rule order_trans [rotated])
  have sub: "set (request_keys es) \<subseteq> K" "sorted (map event_time es)" using 2(6,7) by simp_all
  have now: "bucket_sim t (jm_get m k) b'" by (rule 2(8)) simp
  note IH = 2(1) [OF d' [symmetric] refl wf ks 2(4,5) sub]
  show ?case
  proof (cases "?key = k")
    case True
    have same: "cd_allowed d = fst (bucket_admit t b')" "jm_get m' k = snd (bucket_admit t b')" "cd_key d = k"
      using consume_key_same [OF room, of t b'] now d True by auto
    have "map snd (filter (\<lambda>p. fst p = k) (fst (control_run es m'))) = admitted bucket_admit (request_times k es) (snd (bucket_admit t b'))"
      by (rule IH) (simp add: same(2) bucket_sim_def)
    then show ?thesis using True same by (simp add: d' split_def Let_def)
  next
    case False
    have other: "jm_get m' k = jm_get m k" using consume_key_other [of k ?key m t] room False d by auto
    have "map snd (filter (\<lambda>p. fst p = k) (fst (control_run es m'))) = admitted bucket_admit (request_times k es) b'"
      by (rule IH) (use 2(8) in \<open>simp add: other\<close>)
    moreover have "cd_key d = ?key" using consume_key_same(3) [OF room, of t "jm_get m ?key"] d by (simp add: bucket_sim_def)
    ultimately show ?thesis using False by (simp add: d' split_def Let_def)
  qed
next
  case (3 t es m)
  define m' where "m' = snd (pruneStaleControlPlaneBuckets t m)"
  have m': "m' = filter (\<lambda>p. \<not> (case p of (k, b) \<Rightarrow> CONTROL_PLANE_BUCKET_MAX_STALE_MS < t - bk_windowStartMs b)) m"
    by (simp add: m'_def pruneStaleControlPlaneBuckets_def Let_def)
  have "map snd (filter (\<lambda>p. fst p = k) (fst (control_run es m'))) = admitted bucket_admit (request_times k es) b'"
  proof (rule 3(1) [folded m'_def])
    show "jm_wf m'" unfolding m' by (rule jm_wf_filter [OF 3(2)])
    show "fst ` set m' \<subseteq> K" using 3(3) unfolding m' by auto
    show "bucket_sim u (jm_get m' k) b'" if "u \<in> event_time ` set es" for u
    proof -
      have le: "t \<le> u" using 3(7) that by auto
      have "bucket_sim u (jm_get m k) b'" using 3(8) that by simp
      then show ?thesis using le unfolding m' jm_get_filter [OF 3(2)]
        by (auto simp: bucket_sim_def window_over_def control_plane_limits split: option.splits)
    qed
  qed (use 3 in simp_all)
  then show ?case by (simp add: m'_def)
qed simp

lemma request_times_sorted: "sorted (map event_time es) \<Longrightarrow> sorted (request_times k es)"
proof (induction k es rule: request_times.induct)
  case (2 k c t es)
  have "set (request_times k es) \<subseteq> event_time ` set es" by (induction k es rule: request_times.induct) auto
  then show ?case using 2 by auto
qed auto

text \<open>The fixed-window limiter: with a clock that does not run backwards, whatever the interval of the
  length of one window, at most twice the configured number of requests is admitted in it, from any state
  whose counter is within the budget.\<close>

lemma fixed_window_admissions:
  assumes "sorted ts" "fw_count s \<le> nat (max 1 \<lfloor>q\<rfloor>)"
  shows "count_in a (max 1 \<lfloor>r\<rfloor>) (admitted (fixed_admit q r) ts s) \<le> 2 * nat (max 1 \<lfloor>q\<rfloor>)"
  by (rule fixed.interval_budget [OF assms(1)]) (simp add: assms(2))

lemma fixed_window_admissions_witness:
  "count_in 90 100 (admitted (fixed_admit 2 100) [100, 101, 102, 200, 201, 202] fixed_window_start) \<le> 2 * nat (max 1 \<lfloor>2 :: rat\<rfloor>)"
  using fixed_window_admissions [of "[100, 101, 102, 200, 201, 202]" fixed_window_start 2 90 100]
  by (simp add: fixed_window_start_def)

text \<open>The write budget of the control plane: the table never holds more than ten thousand buckets; and
  with a clock that does not run backwards and at most ten thousand clients, whatever the interleaving of
  requests of all clients and prunes, a client is admitted at most six times in any sixty seconds.\<close>

lemma control_plane_budget:
  "length (snd (control_run es [])) \<le> CONTROL_PLANE_BUCKET_MAX_ENTRIES
   \<and> (if sorted (map event_time es) \<and> card (set (request_keys es)) \<le> CONTROL_PLANE_BUCKET_MAX_ENTRIES
      then count_in a 60000 (map snd (filter (\<lambda>p. fst p = k) (fst (control_run es [])))) \<le> 6 else True)"
proof -
  have "count_in a 60000 (map snd (filter (\<lambda>p. fst p = k) (fst (control_run es [])))) \<le> 6"
    if "sorted (map event_time es)" "card (set (request_keys es)) \<le> CONTROL_PLANE_BUCKET_MAX_ENTRIES"
  proof -
    have "map snd (filter (\<lambda>p. fst p = k) (fst (control_run es []))) = admitted bucket_admit (request_times k es) None"
      by (rule control_run_projects [of _ "set (request_keys es)"]) (use that in \<open>simp_all add: bucket_sim_def\<close>)
    then show ?thesis
      using bucket.interval_budget [OF request_times_sorted [OF that(1)], of None a k]
      by (simp add: control_plane_limits)
  qed
  then show ?thesis using control_run_bounded [of "[]" es] by simp
qed

end
