(* ===== verification/AuthRateLimit.thy ===== *)
theory AuthRateLimit
  imports JsNumber JsString JsMap
begin

text \<open>
  The sliding-window limiter of failed authentications (src/src/gateway/auth-rate-limit.ts). A
  limiter is its configuration and the map of entries; the operations return the changed map.
  Address resolution (\<open>resolveClientIp\<close>, \<open>isLoopbackAddress\<close> of net.ts, over the ipaddr.js
  package) is a parameter. Times and configured numbers are rationals. The prune timer is
  an event of the runs below.
\<close>

section \<open>The limiter\<close>

record RateLimitConfig =
  rc_maxAttempts :: "rat option"
  rc_windowMs :: "rat option"
  rc_lockoutMs :: "rat option"
  rc_exemptLoopback :: "bool option"
  rc_pruneIntervalMs :: "rat option"

record RateLimitEntry =
  re_attempts :: "rat list"
  re_lockedUntil :: "rat option"

record RateLimitCheckResult =
  rr_allowed :: bool
  rr_remaining :: rat
  rr_retryAfterMs :: rat

record AuthRateLimiter =
  al_maxAttempts :: rat
  al_windowMs :: rat
  al_lockoutMs :: rat
  al_exemptLoopback :: bool
  al_pruneTimer :: bool

record AddressEnv =
  ae_resolveClientIp :: "string option \<Rightarrow> string option"
  ae_isLoopbackAddress :: "string \<Rightarrow> bool"

type_synonym AuthEntries = "(string, RateLimitEntry) jsmap"

definition AUTH_RATE_LIMIT_SCOPE_DEFAULT :: string where "AUTH_RATE_LIMIT_SCOPE_DEFAULT = ''default''"
definition AUTH_RATE_LIMIT_SCOPE_DEVICE_TOKEN :: string where "AUTH_RATE_LIMIT_SCOPE_DEVICE_TOKEN = ''device-token''"
definition BROWSER_ORIGIN_RATE_LIMIT_KEY_PREFIX :: string where
  "BROWSER_ORIGIN_RATE_LIMIT_KEY_PREFIX = ''browser-origin'' @ [CHR '':'']"

definition createAuthRateLimiter :: "RateLimitConfig option \<Rightarrow> AuthRateLimiter" where
  "createAuthRateLimiter config =
    (let field = (\<lambda>sel d. or_else (Option.bind config sel) d) in
     \<lparr>al_maxAttempts = field rc_maxAttempts 10, al_windowMs = field rc_windowMs 60000,
      al_lockoutMs = field rc_lockoutMs 300000, al_exemptLoopback = or_else (Option.bind config rc_exemptLoopback) True,
      al_pruneTimer = (0 < field rc_pruneIntervalMs 60000)\<rparr>)"

definition normalizeRateLimitClientIp :: "AddressEnv \<Rightarrow> string option \<Rightarrow> string" where
  "normalizeRateLimitClientIp env ip =
    (if (case ip of None \<Rightarrow> False | Some s \<Rightarrow> starts_with s BROWSER_ORIGIN_RATE_LIMIT_KEY_PREFIX) then the ip
     else or_else (ae_resolveClientIp env ip) ''unknown'')"

definition normalizeScope :: "string option \<Rightarrow> string" where
  "normalizeScope scope = or_default (js_trim (or_else scope AUTH_RATE_LIMIT_SCOPE_DEFAULT)) AUTH_RATE_LIMIT_SCOPE_DEFAULT"

definition resolveKey :: "AddressEnv \<Rightarrow> string option \<Rightarrow> string option \<Rightarrow> string \<times> string" where
  "resolveKey env rawIp rawScope =
    (let ip = normalizeRateLimitClientIp env rawIp in (normalizeScope rawScope @ CHR '':'' # ip, ip))"

definition isExempt :: "AuthRateLimiter \<Rightarrow> AddressEnv \<Rightarrow> string \<Rightarrow> bool" where
  "isExempt L env ip \<longleftrightarrow> al_exemptLoopback L \<and> ae_isLoopbackAddress env ip"

definition slideWindow :: "AuthRateLimiter \<Rightarrow> rat \<Rightarrow> RateLimitEntry \<Rightarrow> RateLimitEntry" where
  "slideWindow L now e = e\<lparr>re_attempts := filter (\<lambda>ts. ts > now - al_windowMs L) (re_attempts e)\<rparr>"

text \<open>\<open>entry.lockedUntil && now < entry.lockedUntil\<close>: zero is no lock.\<close>

definition lock_active :: "rat \<Rightarrow> RateLimitEntry \<Rightarrow> bool" where
  "lock_active now e = (case re_lockedUntil e of None \<Rightarrow> False | Some u \<Rightarrow> u \<noteq> 0 \<and> now < u)"

definition lock_expired :: "rat \<Rightarrow> RateLimitEntry \<Rightarrow> bool" where
  "lock_expired now e = (case re_lockedUntil e of None \<Rightarrow> False | Some u \<Rightarrow> u \<noteq> 0 \<and> u \<le> now)"

definition check_entry :: "AuthRateLimiter \<Rightarrow> rat \<Rightarrow> RateLimitEntry \<Rightarrow> RateLimitCheckResult \<times> RateLimitEntry" where
  "check_entry L now e =
    (if lock_active now e
     then (\<lparr>rr_allowed = False, rr_remaining = 0, rr_retryAfterMs = the (re_lockedUntil e) - now\<rparr>, e)
     else
      (let e = (if lock_expired now e then e\<lparr>re_lockedUntil := None, re_attempts := []\<rparr> else e);
           e = slideWindow L now e;
           remaining = max 0 (al_maxAttempts L - of_nat (length (re_attempts e)))
       in (\<lparr>rr_allowed = (remaining > 0), rr_remaining = remaining, rr_retryAfterMs = 0\<rparr>, e)))"

definition all_clear :: "AuthRateLimiter \<Rightarrow> RateLimitCheckResult" where
  "all_clear L = \<lparr>rr_allowed = True, rr_remaining = al_maxAttempts L, rr_retryAfterMs = 0\<rparr>"

definition auth_check ::
  "AuthRateLimiter \<Rightarrow> AddressEnv \<Rightarrow> rat \<Rightarrow> string option \<Rightarrow> string option \<Rightarrow> AuthEntries \<Rightarrow> RateLimitCheckResult \<times> AuthEntries" where
  "auth_check L env now rawIp rawScope m =
    (let (key, ip) = resolveKey env rawIp rawScope in
     if isExempt L env ip then (all_clear L, m)
     else (case jm_get m key of
         None \<Rightarrow> (all_clear L, m)
       | Some e \<Rightarrow> (let (result, e') = check_entry L now e in (result, jm_set key e' m))))"

definition fail_entry :: "AuthRateLimiter \<Rightarrow> rat \<Rightarrow> RateLimitEntry \<Rightarrow> RateLimitEntry" where
  "fail_entry L now e =
    (if lock_active now e then e
     else
      (let e = slideWindow L now e; e = e\<lparr>re_attempts := re_attempts e @ [now]\<rparr>
       in if al_maxAttempts L \<le> of_nat (length (re_attempts e)) then e\<lparr>re_lockedUntil := Some (now + al_lockoutMs L)\<rparr> else e))"

definition recordFailure ::
  "AuthRateLimiter \<Rightarrow> AddressEnv \<Rightarrow> rat \<Rightarrow> string option \<Rightarrow> string option \<Rightarrow> AuthEntries \<Rightarrow> AuthEntries" where
  "recordFailure L env now rawIp rawScope m =
    (let (key, ip) = resolveKey env rawIp rawScope in
     if isExempt L env ip then m
     else jm_set key (fail_entry L now (or_else (jm_get m key) \<lparr>re_attempts = [], re_lockedUntil = None\<rparr>)) m)"

definition auth_reset :: "AddressEnv \<Rightarrow> string option \<Rightarrow> string option \<Rightarrow> AuthEntries \<Rightarrow> AuthEntries" where
  "auth_reset env rawIp rawScope m = jm_del (fst (resolveKey env rawIp rawScope)) m"

definition prune_entry :: "AuthRateLimiter \<Rightarrow> rat \<Rightarrow> RateLimitEntry \<Rightarrow> RateLimitEntry option" where
  "prune_entry L now e =
    (if lock_active now e then Some e
     else (let e = slideWindow L now e in if re_attempts e = [] then None else Some e))"

definition auth_prune :: "AuthRateLimiter \<Rightarrow> rat \<Rightarrow> AuthEntries \<Rightarrow> AuthEntries" where
  "auth_prune L now m =
    concat (map (\<lambda>(k, e). case prune_entry L now e of None \<Rightarrow> [] | Some e' \<Rightarrow> [(k, e')]) m)"

definition auth_size :: "AuthEntries \<Rightarrow> nat" where
  "auth_size m = length m"

text \<open>\<open>dispose\<close> cancels the prune timer and forgets everything.\<close>

definition auth_dispose :: "AuthRateLimiter \<Rightarrow> AuthEntries \<Rightarrow> AuthRateLimiter \<times> AuthEntries" where
  "auth_dispose L m = (L\<lparr>al_pruneTimer := False\<rparr>, [])"

section \<open>Authentication attempts\<close>

text \<open>
  What the callers do (\<open>authorizeGatewayConnectCore\<close> of auth.ts, ws-connection/auth-context.ts,
  control-ui.ts, hooks-request-handler.ts): they check the client, refuse it when the limiter does, and
  else verify what it presents, which may await the token store or the Tailscale daemon; afterwards they
  record the failure, reset the client, or report nothing because it presented no credential. Between
  the check and the report other attempts, also of the same client, may check and report: an attempt is
  two events, with any events between them. A reset may come alone (a device token also clears the
  client's other scope, a valid hook token resets without a check).
\<close>

record OpenAttempt =
  oa_since :: rat
  oa_ip :: "string option"
  oa_scope :: "string option"

datatype AttemptReport = ReportsFailure | ReportsSuccess | ReportsNothing

datatype AuthEvent =
  AuthBegin rat "string option" "string option"
| AuthEnd rat nat AttemptReport
| AuthResets rat "string option" "string option"
| AuthPrune rat

fun auth_time :: "AuthEvent \<Rightarrow> rat" where
  "auth_time (AuthBegin t ip scope) = t"
| "auth_time (AuthEnd t i report) = t"
| "auth_time (AuthResets t ip scope) = t"
| "auth_time (AuthPrune t) = t"

text \<open>The entries of the limiter and the attempts that it has let through and that have not reported.\<close>

record AuthRun =
  ar_entries :: AuthEntries
  ar_open :: "OpenAttempt list"

definition auth_start :: AuthRun where
  "auth_start = \<lparr>ar_entries = [], ar_open = []\<rparr>"

definition begin_attempt :: "AuthRateLimiter \<Rightarrow> AddressEnv \<Rightarrow> rat \<Rightarrow> string option \<Rightarrow> string option \<Rightarrow> AuthRun \<Rightarrow> AuthRun" where
  "begin_attempt L env t ip scope st =
    (case auth_check L env t ip scope (ar_entries st) of (result, m) \<Rightarrow>
       \<lparr>ar_entries = m,
        ar_open = ar_open st @ (if rr_allowed result then [\<lparr>oa_since = t, oa_ip = ip, oa_scope = scope\<rparr>] else [])\<rparr>)"

definition end_attempt :: "AuthRateLimiter \<Rightarrow> AddressEnv \<Rightarrow> rat \<Rightarrow> nat \<Rightarrow> AttemptReport \<Rightarrow> AuthRun \<Rightarrow> AuthRun" where
  "end_attempt L env t i report st =
    (if i < length (ar_open st) then
       (let a = ar_open st ! i in
        \<lparr>ar_entries = (case report of
            ReportsFailure \<Rightarrow> recordFailure L env t (oa_ip a) (oa_scope a) (ar_entries st)
          | ReportsSuccess \<Rightarrow> auth_reset env (oa_ip a) (oa_scope a) (ar_entries st)
          | ReportsNothing \<Rightarrow> ar_entries st),
         ar_open = take i (ar_open st) @ drop (Suc i) (ar_open st)\<rparr>)
     else st)"

fun auth_step :: "AuthRateLimiter \<Rightarrow> AddressEnv \<Rightarrow> AuthEvent \<Rightarrow> AuthRun \<Rightarrow> AuthRun" where
  "auth_step L env (AuthBegin t ip scope) st = begin_attempt L env t ip scope st"
| "auth_step L env (AuthEnd t i report) st = end_attempt L env t i report st"
| "auth_step L env (AuthResets t ip scope) st = st\<lparr>ar_entries := auth_reset env ip scope (ar_entries st)\<rparr>"
| "auth_step L env (AuthPrune t) st = st\<lparr>ar_entries := auth_prune L t (ar_entries st)\<rparr>"

text \<open>An attempt counts for a key if the key is its own and its address is not exempt.\<close>

definition attempt_of :: "AuthRateLimiter \<Rightarrow> AddressEnv \<Rightarrow> string \<Rightarrow> OpenAttempt \<Rightarrow> bool" where
  "attempt_of L env k a \<longleftrightarrow>
    fst (resolveKey env (oa_ip a) (oa_scope a)) = k \<and> \<not> isExempt L env (snd (resolveKey env (oa_ip a) (oa_scope a)))"

text \<open>The attempts of a key that have failed since its last reset, by the time at which they began.\<close>

fun note_failure :: "AuthRateLimiter \<Rightarrow> AddressEnv \<Rightarrow> string \<Rightarrow> AuthEvent \<Rightarrow> AuthRun \<Rightarrow> rat list \<Rightarrow> rat list" where
  "note_failure L env k (AuthEnd t i report) st failed =
    (if i < length (ar_open st) then
       (let a = ar_open st ! i in
        case report of
          ReportsFailure \<Rightarrow> if attempt_of L env k a then failed @ [oa_since a] else failed
        | ReportsSuccess \<Rightarrow> if fst (resolveKey env (oa_ip a) (oa_scope a)) = k then [] else failed
        | ReportsNothing \<Rightarrow> failed)
     else failed)"
| "note_failure L env k (AuthResets t ip scope) st failed = (if fst (resolveKey env ip scope) = k then [] else failed)"
| "note_failure L env k _ st failed = failed"

fun failed_attempts :: "AuthRateLimiter \<Rightarrow> AddressEnv \<Rightarrow> string \<Rightarrow> AuthEvent list \<Rightarrow> AuthRun \<Rightarrow> rat list \<Rightarrow> rat list" where
  "failed_attempts L env k [] st failed = failed"
| "failed_attempts L env k (ev # es) st failed =
    failed_attempts L env k es (auth_step L env ev st) (note_failure L env k ev st failed)"

text \<open>The largest number of attempts of a key that are under way at the same time.\<close>

definition under_way :: "AuthRateLimiter \<Rightarrow> AddressEnv \<Rightarrow> string \<Rightarrow> AuthRun \<Rightarrow> rat list" where
  "under_way L env k st = map oa_since (filter (attempt_of L env k) (ar_open st))"

fun most_under_way :: "AuthRateLimiter \<Rightarrow> AddressEnv \<Rightarrow> string \<Rightarrow> AuthEvent list \<Rightarrow> AuthRun \<Rightarrow> nat" where
  "most_under_way L env k [] st = length (under_way L env k st)"
| "most_under_way L env k (ev # es) st =
    max (length (under_way L env k st)) (most_under_way L env k es (auth_step L env ev st))"

definition begun_within :: "rat \<Rightarrow> rat \<Rightarrow> rat list \<Rightarrow> nat" where
  "begun_within x w ts = length (filter (\<lambda>t. x \<le> t \<and> t < x + w) ts)"

section \<open>Entries\<close>

definition lock_of :: "RateLimitEntry \<Rightarrow> rat option" where
  "lock_of e = (case re_lockedUntil e of None \<Rightarrow> None | Some u \<Rightarrow> if u = 0 then None else Some u)"

definition recent :: "AuthRateLimiter \<Rightarrow> rat \<Rightarrow> rat list \<Rightarrow> rat list" where
  "recent L now ts = filter (\<lambda>t. t > now - al_windowMs L) ts"

lemma lock_active_iff: "lock_active now e = (case lock_of e of None \<Rightarrow> False | Some u \<Rightarrow> now < u)"
  by (auto simp: lock_active_def lock_of_def split: option.splits)

lemma lock_expired_iff: "lock_expired now e = (case lock_of e of None \<Rightarrow> False | Some u \<Rightarrow> u \<le> now)"
  by (auto simp: lock_expired_def lock_of_def split: option.splits)

lemma recent_later: "now \<le> u \<Longrightarrow> recent L u (recent L now ts) = recent L u ts"
  by (auto simp: recent_def intro!: filter_cong)

lemma recent_mono: "now \<le> u \<Longrightarrow> recent L now ts = recent L now ts' \<Longrightarrow> recent L u ts = recent L u ts'"
  by (metis recent_later)

lemma recent_idem [simp]: "recent L now (recent L now ts) = recent L now ts"
  by (simp add: recent_later)

lemma slideWindow_recent: "slideWindow L now e = e\<lparr>re_attempts := recent L now (re_attempts e)\<rparr>"
  by (simp add: slideWindow_def recent_def)

lemma check_entry_locked:
  "lock_active now e \<Longrightarrow> check_entry L now e
     = (\<lparr>rr_allowed = False, rr_remaining = 0, rr_retryAfterMs = the (re_lockedUntil e) - now\<rparr>, e)"
  by (simp add: check_entry_def)

text \<open>The entry a check leaves when the lock is not active.\<close>

definition open_attempts :: "AuthRateLimiter \<Rightarrow> rat \<Rightarrow> RateLimitEntry option \<Rightarrow> rat list" where
  "open_attempts L now oe =
    (case oe of None \<Rightarrow> [] | Some e \<Rightarrow> if lock_expired now e then [] else recent L now (re_attempts e))"

definition open_result :: "AuthRateLimiter \<Rightarrow> rat list \<Rightarrow> RateLimitCheckResult" where
  "open_result L ts = \<lparr>rr_allowed = (0 < al_maxAttempts L - of_nat (length ts)),
     rr_remaining = max 0 (al_maxAttempts L - of_nat (length ts)), rr_retryAfterMs = 0\<rparr>"

lemma check_entry_open:
  assumes "\<not> lock_active now e"
  shows "fst (check_entry L now e) = open_result L (open_attempts L now (Some e))"
    and "re_attempts (snd (check_entry L now e)) = open_attempts L now (Some e)"
    and "lock_of (snd (check_entry L now e)) = None"
  using assms
  by (auto simp: check_entry_def Let_def open_result_def open_attempts_def slideWindow_recent recent_def
      lock_active_iff lock_expired_iff lock_of_def split: option.splits)

definition auth_key :: "AddressEnv \<Rightarrow> string option \<Rightarrow> string option \<Rightarrow> string" where
  "auth_key env ip scope = fst (resolveKey env ip scope)"

definition auth_exempt :: "AuthRateLimiter \<Rightarrow> AddressEnv \<Rightarrow> string option \<Rightarrow> bool" where
  "auth_exempt L env ip = isExempt L env (normalizeRateLimitClientIp env ip)"

lemma resolveKey_parts: "resolveKey env ip scope = (auth_key env ip scope, normalizeRateLimitClientIp env ip)"
  by (simp add: auth_key_def resolveKey_def Let_def)

lemma jm_get_concat:
  "jm_wf m \<Longrightarrow> jm_get (concat (map (\<lambda>(k, e). case f e of None \<Rightarrow> [] | Some e' \<Rightarrow> [(k, e')]) m)) k
    = (case jm_get m k of None \<Rightarrow> None | Some e \<Rightarrow> f e)"
proof (induction m)
  case (Cons p m)
  obtain k' e where p: "p = (k', e)" by force
  have wf: "jm_wf m" and new: "jm_get m k' = None"
    using Cons.prems by (auto simp: jm_wf_def p map_of_eq_None_iff)
  show ?case using Cons.IH [OF wf] new by (auto simp: p split: option.splits)
qed simp

lemma keys_concat:
  "map fst (concat (map (\<lambda>(k, e). case f e of None \<Rightarrow> [] | Some e' \<Rightarrow> [(k, e')]) m))
    = map fst (filter (\<lambda>(k, e). f e \<noteq> None) m)"
  by (induction m) (auto split: option.splits)

lemma prune_get: "jm_wf m \<Longrightarrow> jm_get (auth_prune L now m) k = Option.bind (jm_get m k) (prune_entry L now)"
  unfolding auth_prune_def by (subst jm_get_concat) (auto split: option.splits)

lemma prune_wf: "jm_wf m \<Longrightarrow> jm_wf (auth_prune L now m)"
  by (simp add: jm_wf_def auth_prune_def keys_concat distinct_map_filter)

section \<open>Pruning\<close>

text \<open>An entry of the pruned limiter agrees with that of the limiter that is never pruned, up to
  attempts outside the window and entries without effect.\<close>

definition entry_sim :: "AuthRateLimiter \<Rightarrow> rat \<Rightarrow> RateLimitEntry option \<Rightarrow> RateLimitEntry option \<Rightarrow> bool" where
  "entry_sim L now oe oe' =
    (case (oe, oe') of
       (None, None) \<Rightarrow> True
     | (None, Some e') \<Rightarrow> \<not> lock_active now e' \<and> open_attempts L now (Some e') = []
     | (Some e, None) \<Rightarrow> False
     | (Some e, Some e') \<Rightarrow> lock_of e = lock_of e' \<and> recent L now (re_attempts e) = recent L now (re_attempts e'))"

lemma entry_sim_later:
  assumes "entry_sim L now oe oe'" "now \<le> u"
  shows "entry_sim L u oe oe'"
proof -
  consider "oe = None" "oe' = None" | e' where "oe = None" "oe' = Some e'" | e e' where "oe = Some e" "oe' = Some e'"
    using assms(1) by (cases oe; cases oe') (auto simp: entry_sim_def)
  then show ?thesis
  proof cases
    case 1
    then show ?thesis by (simp add: entry_sim_def)
  next
    case 2
    then have s: "\<not> lock_active now e'" "open_attempts L now (Some e') = []"
      using assms(1) by (simp_all add: entry_sim_def)
    have "\<not> lock_active u e'" "lock_expired now e' \<Longrightarrow> lock_expired u e'"
      using s(1) assms(2) by (auto simp: lock_expired_iff lock_active_iff split: option.splits)
    moreover have "recent L u (re_attempts e') = []" if "recent L now (re_attempts e') = []"
      unfolding recent_later [OF assms(2), of L "re_attempts e'", symmetric] that by (simp add: recent_def)
    ultimately show ?thesis using s(2) 2 by (auto simp: entry_sim_def open_attempts_def split: if_splits)
  next
    case 3
    then have s: "lock_of e = lock_of e'" "recent L now (re_attempts e) = recent L now (re_attempts e')"
      using assms(1) by (simp_all add: entry_sim_def)
    show ?thesis using s(1) recent_mono [OF assms(2) s(2)] 3 by (simp add: entry_sim_def)
  qed
qed

lemma prune_sim:
  assumes "entry_sim L now oe oe'"
  shows "entry_sim L now (Option.bind oe (prune_entry L now)) oe'"
proof (cases oe)
  case (Some e)
  then obtain e' where e': "oe' = Some e'" "lock_of e = lock_of e'" "recent L now (re_attempts e) = recent L now (re_attempts e')"
    using assms by (auto simp: entry_sim_def split: option.splits)
  have "lock_active now e = lock_active now e'" by (simp add: lock_active_iff e'(2))
  then show ?thesis using e' Some
    by (auto simp: prune_entry_def Let_def slideWindow_recent entry_sim_def open_attempts_def lock_of_def
        split: option.splits if_splits)
qed (use assms in simp)

lemma fail_open:
  assumes "lock_of e = None"
  shows "re_attempts (fail_entry L now e) = recent L now (re_attempts e) @ [now]"
    and "lock_of (fail_entry L now e)
      = (if al_maxAttempts L \<le> of_nat (length (recent L now (re_attempts e)) + 1) \<and> now + al_lockoutMs L \<noteq> 0
         then Some (now + al_lockoutMs L) else None)"
  using assms
  by (auto simp: fail_entry_def Let_def slideWindow_recent lock_active_iff lock_of_def split: option.splits if_splits)

lemma recent_empty_iff: "recent L now ts = [] \<longleftrightarrow> (\<forall>x \<in> set ts. x + al_windowMs L \<le> now)"
  by (auto simp: recent_def filter_empty_conv not_less algebra_simps)

lemma prune_check_same:
  assumes "jm_wf m" "0 < al_maxAttempts L" "now \<le> u"
  shows "fst (auth_check L env u ip scope (auth_prune L now m)) = fst (auth_check L env u ip scope m)"
proof -
  let ?k = "auth_key env ip scope"
  have same: "entry_sim L now oe oe" for oe by (simp add: entry_sim_def split: option.splits)
  have sim: "entry_sim L u (jm_get (auth_prune L now m) ?k) (jm_get m ?k)"
    unfolding prune_get [OF assms(1)] by (rule entry_sim_later [OF prune_sim [OF same] assms(3)])
  have get: "fst (auth_check L env u ip scope m') = (if auth_exempt L env ip then all_clear L
      else case jm_get m' ?k of None \<Rightarrow> all_clear L | Some e \<Rightarrow> fst (check_entry L u e))" for m'
    by (simp add: auth_check_def resolveKey_parts auth_exempt_def split_def Let_def split: option.splits)
  have clear: "all_clear L = open_result L []" using assms(2) by (simp add: all_clear_def open_result_def)
  show ?thesis
  proof (cases "jm_get m ?k")
    case None
    then show ?thesis using sim by (simp add: get entry_sim_def split: option.splits)
  next
    case (Some e')
    show ?thesis
    proof (cases "jm_get (auth_prune L now m) ?k")
      case None
      then show ?thesis using sim Some check_entry_open(1) [of u e' L] by (simp add: get entry_sim_def clear)
    next
      case (Some e)
      then have s: "lock_of e = lock_of e'" "recent L u (re_attempts e) = recent L u (re_attempts e')"
        using sim \<open>jm_get m ?k = Some e'\<close> by (simp_all add: entry_sim_def)
      have "fst (check_entry L u e) = fst (check_entry L u e')"
      proof (cases "lock_active u e")
        case True
        then have "lock_active u e'" "re_lockedUntil e = re_lockedUntil e'"
          using s(1) by (auto simp: lock_active_iff lock_of_def split: option.splits if_splits)
        then show ?thesis using True by (simp add: check_entry_locked)
      next
        case False
        then have "\<not> lock_active u e'" using s(1) by (simp add: lock_active_iff)
        moreover have "open_attempts L u (Some e) = open_attempts L u (Some e')"
          using s by (simp add: open_attempts_def lock_expired_iff)
        ultimately show ?thesis using False check_entry_open(1) by simp
      qed
      then show ?thesis using Some \<open>jm_get m ?k = Some e'\<close> by (simp add: get)
    qed
  qed
qed

section \<open>Failures of overlapping attempts\<close>

text \<open>
  What the entry of a key knows of its attempts: \<open>failed\<close> are the times at which the failed ones began,
  \<open>begun\<close> those of all that have failed or are under way. A lock covers the windows of all of them; without a
  lock the entry has at least as many failures in every later window as there are failed attempts.
\<close>

definition entry_knows :: "AuthRateLimiter \<Rightarrow> rat \<Rightarrow> RateLimitEntry option \<Rightarrow> rat list \<Rightarrow> rat set \<Rightarrow> bool" where
  "entry_knows L now oe failed begun \<longleftrightarrow>
    (case oe of
       None \<Rightarrow> recent L now failed = []
     | Some e \<Rightarrow> (case lock_of e of
         None \<Rightarrow> (\<forall>u \<ge> now. length (recent L u failed) \<le> length (recent L u (re_attempts e)))
       | Some until \<Rightarrow> \<forall>x \<in> set failed \<union> begun. x + al_windowMs L \<le> until))"

lemma recent_Nil [simp]: "recent L now [] = []"
  by (simp add: recent_def)

lemma recent_none_later: "recent L now ts = [] \<Longrightarrow> now \<le> u \<Longrightarrow> recent L u ts = []"
  unfolding recent_empty_iff by fastforce

lemma entry_knows_later:
  "entry_knows L now oe failed begun \<Longrightarrow> now \<le> u \<Longrightarrow> entry_knows L u oe failed begun"
  by (auto simp: entry_knows_def intro: recent_none_later split: option.splits)

lemma entry_knows_subset:
  "entry_knows L now oe failed begun \<Longrightarrow> set failed \<union> begun' \<subseteq> set failed \<union> begun \<Longrightarrow> entry_knows L now oe failed begun'"
  by (auto simp: entry_knows_def split: option.splits)

lemma entry_knows_open:
  assumes "entry_knows L now (Some e) failed begun" "\<not> lock_active now e" "now \<le> u"
  shows "length (recent L u failed) \<le> length (recent L u (open_attempts L now (Some e)))"
proof (cases "lock_of e")
  case None
  then show ?thesis
    using assms by (simp add: entry_knows_def open_attempts_def lock_expired_iff recent_later)
next
  case (Some until)
  then have "until \<le> now" using assms(2) by (simp add: lock_active_iff)
  moreover have "\<forall>x \<in> set failed. x + al_windowMs L \<le> until" using assms(1) Some by (simp add: entry_knows_def)
  ultimately have "recent L u failed = []" unfolding recent_empty_iff using assms(3) by (meson order_trans)
  then show ?thesis by simp
qed

text \<open>A check that lets the attempt through has seen fewer failures than are allowed.\<close>

lemma entry_knows_check:
  assumes k: "entry_knows L now (Some e) failed begun" and n: "al_maxAttempts L = of_nat n"
    and c: "check_entry L now e = (r, e')"
  shows "if rr_allowed r then entry_knows L now (Some e') failed begun' \<and> length (recent L now failed) < n
    else entry_knows L now (Some e') failed begun"
proof (cases "lock_active now e")
  case True
  then show ?thesis using c k by (auto simp: check_entry_locked)
next
  case False
  note o = check_entry_open [OF False, of L, unfolded c]
  have le: "length (recent L u failed) \<le> length (recent L u (re_attempts e'))" if "now \<le> u" for u
    using entry_knows_open [OF k False that] o(2) by simp
  have idem: "recent L now (open_attempts L now (Some e)) = open_attempts L now (Some e)"
    by (auto simp: open_attempts_def recent_def)
  have "length (recent L now failed) < n" if "rr_allowed r"
    using that le [of now] o(1,2) idem by (simp add: open_result_def n)
  then show ?thesis using o(3) le by (simp add: entry_knows_def)
qed

lemma entry_knows_fail:
  assumes k: "entry_knows L now oe failed begun" and g: "g \<in> begun" "\<forall>x \<in> set failed \<union> begun. x \<le> now"
    and cfg: "0 \<le> al_windowMs L" "al_windowMs L \<le> al_lockoutMs L" "0 < now"
  shows "entry_knows L now (Some (fail_entry L now (or_else oe \<lparr>re_attempts = [], re_lockedUntil = None\<rparr>))) (failed @ [g]) begun"
proof -
  let ?e = "or_else oe \<lparr>re_attempts = [], re_lockedUntil = None\<rparr>"
  have covered: "x + al_windowMs L \<le> now + al_lockoutMs L" if "x \<in> set (failed @ [g]) \<union> begun" for x
    using that g cfg(2) by (auto intro: add_mono)
  show ?thesis
  proof (cases "lock_of ?e")
    case None
    have le: "length (recent L u failed) \<le> length (recent L u (re_attempts ?e))" if "now \<le> u" for u
      using k None that recent_none_later [of L now failed u]
      by (cases oe) (auto simp: entry_knows_def)
    have gle: "g \<le> now" using g by blast
    have "length (recent L u (failed @ [g])) \<le> length (recent L u (re_attempts (fail_entry L now ?e)))" if "now \<le> u" for u
    proof -
      have "recent L u (recent L now (re_attempts ?e) @ [now]) = recent L u (re_attempts ?e) @ recent L u [now]"
        using recent_later [OF that, of L "re_attempts ?e"] by (simp add: recent_def)
      then show ?thesis using le [OF that] gle unfolding fail_open(1) [OF None] by (auto simp: recent_def)
    qed
    moreover have "lock_of (fail_entry L now ?e) \<in> {None, Some (now + al_lockoutMs L)}"
      unfolding fail_open(2) [OF None] by simp
    ultimately show ?thesis using covered by (auto simp: entry_knows_def)
  next
    case (Some until)
    then have old: "\<forall>x \<in> set (failed @ [g]) \<union> begun. x + al_windowMs L \<le> until"
      using k g(1) by (cases oe) (auto simp: entry_knows_def lock_of_def)
    have "lock_of (fail_entry L now ?e) = Some until \<or> lock_of (fail_entry L now ?e) = Some (now + al_lockoutMs L)"
      using Some cfg by (auto simp: fail_entry_def Let_def slideWindow_def lock_of_def split: option.splits if_splits)
    then show ?thesis using old covered by (auto simp: entry_knows_def)
  qed
qed

lemma entry_knows_prune:
  assumes k: "entry_knows L now oe failed begun"
  shows "entry_knows L now (Option.bind oe (prune_entry L now)) failed begun"
proof (cases "\<exists>e. oe = Some e \<and> \<not> lock_active now e")
  case False
  then show ?thesis using k by (cases oe) (simp_all add: prune_entry_def)
next
  case True
  then obtain e where e: "oe = Some e" "\<not> lock_active now e" by blast
  note le = entry_knows_open [OF k [unfolded e(1)] e(2)]
  have gone: "recent L now failed = []" if "recent L now (re_attempts e) = []"
    using le [of now] that by (auto simp: open_attempts_def split: if_splits)
  have kept: "recent L u (recent L now (re_attempts e)) = recent L u (re_attempts e)" if "now \<le> u" for u
    by (rule recent_later [OF that])
  show ?thesis using k e gone kept
    by (auto simp: prune_entry_def Let_def slideWindow_recent entry_knows_def lock_of_def split: option.splits)
qed

section \<open>Runs\<close>

definition run_knows :: "AuthRateLimiter \<Rightarrow> AddressEnv \<Rightarrow> string \<Rightarrow> nat \<Rightarrow> rat \<Rightarrow> AuthRun \<Rightarrow> rat list \<Rightarrow> bool" where
  "run_knows L env k most now st failed \<longleftrightarrow>
     jm_wf (ar_entries st) \<and> (\<forall>x \<in> set (failed @ under_way L env k st). x \<le> now) \<and>
     entry_knows L now (jm_get (ar_entries st) k) failed (set (under_way L env k st)) \<and>
     (\<forall>x. begun_within x (al_windowMs L) (failed @ under_way L env k st) \<le> most)"

lemma begun_within_append: "begun_within x w (ts @ us) = begun_within x w ts + begun_within x w us"
  by (simp add: begun_within_def)

lemma begun_within_le: "begun_within x w ts \<le> length ts"
  by (simp add: begun_within_def)

lemma begun_within_recent: "now < x + al_windowMs L \<Longrightarrow> begun_within x (al_windowMs L) ts \<le> length (recent L now ts)"
proof -
  assume "now < x + al_windowMs L"
  then have "begun_within x (al_windowMs L) ts = begun_within x (al_windowMs L) (recent L now ts)"
    unfolding begun_within_def recent_def filter_filter by (intro arg_cong [where f = length] filter_cong) auto
  then show ?thesis using begun_within_le by simp
qed

lemma run_knows_later: "run_knows L env k most now st failed \<Longrightarrow> now \<le> u \<Longrightarrow> run_knows L env k most u st failed"
  unfolding run_knows_def using entry_knows_later by (blast intro: order_trans)

lemma attempt_of_iff:
  "attempt_of L env k a \<longleftrightarrow> auth_key env (oa_ip a) (oa_scope a) = k \<and> \<not> auth_exempt L env (oa_ip a)"
  by (simp add: attempt_of_def resolveKey_parts auth_exempt_def)

text \<open>An attempt leaves the list of those under way.\<close>

lemma under_way_ended:
  assumes "i < length (ar_open st)" "ar_open st' = take i (ar_open st) @ drop (Suc i) (ar_open st)"
  shows "mset (under_way L env k st) = mset (under_way L env k st')
      + (if attempt_of L env k (ar_open st ! i) then {#oa_since (ar_open st ! i)#} else {#})"
proof -
  let ?P = "attempt_of L env k"
  have "filter ?P (ar_open st) = filter ?P (take i (ar_open st) @ ar_open st ! i # drop (Suc i) (ar_open st))"
    by (rule arg_cong [OF id_take_nth_drop [OF assms(1)]])
  then have parts: "filter ?P (ar_open st) = filter ?P (take i (ar_open st))
      @ (if ?P (ar_open st ! i) then [ar_open st ! i] else []) @ filter ?P (drop (Suc i) (ar_open st))"
    by (simp only: filter_append filter.simps) simp
  show ?thesis unfolding under_way_def assms(2) filter_append parts by simp
qed

lemma begun_within_mset: "begun_within x w ts = size (filter_mset (\<lambda>t. x \<le> t \<and> t < x + w) (mset ts))"
  by (simp add: begun_within_def flip: mset_filter)

lemma run_knows_begin:
  assumes inv: "run_knows L env k (n + b - 1) t st failed" and n: "0 < n" "al_maxAttempts L = of_nat n"
    and b: "length (under_way L env k (begin_attempt L env t ip scope st)) \<le> b"
  shows "run_knows L env k (n + b - 1) t (begin_attempt L env t ip scope st) failed"
proof -
  let ?a = "\<lparr>oa_since = t, oa_ip = ip, oa_scope = scope\<rparr>"
  obtain r m where c: "auth_check L env t ip scope (ar_entries st) = (r, m)" by fastforce
  define st' where "st' = begin_attempt L env t ip scope st"
  have st': "ar_entries st' = m" "under_way L env k st' = under_way L env k st @ (if rr_allowed r \<and> attempt_of L env k ?a then [t] else [])"
    by (simp_all add: st'_def begin_attempt_def c under_way_def)
  have wf: "jm_wf m"
    using inv c by (auto simp: run_knows_def auth_check_def split_def Let_def split: if_splits option.splits)
  have other: "jm_get m k = jm_get (ar_entries st) k" if "\<not> attempt_of L env k ?a"
    using that c by (auto simp: attempt_of_iff auth_check_def resolveKey_parts auth_exempt_def split_def Let_def
        split: if_splits option.splits)
  show ?thesis
  proof (cases "attempt_of L env k ?a")
    case False
    then show ?thesis unfolding st'_def [symmetric] using inv wf other by (simp add: run_knows_def st')
  next
    case True
    then have key: "auth_key env ip scope = k" "\<not> auth_exempt L env ip" by (simp_all add: attempt_of_iff)
    have res: "case jm_get (ar_entries st) k of None \<Rightarrow> m = ar_entries st
      | Some e \<Rightarrow> (\<exists>e'. check_entry L t e = (r, e') \<and> jm_get m k = Some e')"
      using c key by (auto simp: auth_check_def resolveKey_parts auth_exempt_def split_def Let_def split: option.splits)
    have knows: "entry_knows L t (jm_get (ar_entries st) k) failed (set (under_way L env k st))"
      using inv by (simp add: run_knows_def)
    have new: "if rr_allowed r then entry_knows L t (jm_get m k) failed (insert t (set (under_way L env k st)))
          \<and> length (recent L t failed) < n
        else entry_knows L t (jm_get m k) failed (set (under_way L env k st))"
    proof (cases "jm_get (ar_entries st) k")
      case None
      then show ?thesis using res knows n by (simp add: entry_knows_def)
    next
      case (Some e)
      then obtain e' where e': "check_entry L t e = (r, e')" "jm_get m k = Some e'" using res by auto
      show ?thesis using entry_knows_check [OF knows [unfolded Some] n(2) e'(1)] e'(2) by simp
    qed
    have within: "begun_within x (al_windowMs L) (failed @ under_way L env k st') \<le> n + b - 1" for x
    proof (cases "rr_allowed r \<and> x \<le> t \<and> t < x + al_windowMs L")
      case True
      then have "begun_within x (al_windowMs L) failed < n"
        using new begun_within_recent [of t x L failed] by simp
      moreover have "begun_within x (al_windowMs L) (under_way L env k st') \<le> b"
        using begun_within_le b unfolding st'_def by (blast intro: order_trans)
      ultimately show ?thesis by (simp add: begun_within_append)
    next
      case False
      then have "begun_within x (al_windowMs L) (failed @ under_way L env k st')
          = begun_within x (al_windowMs L) (failed @ under_way L env k st)"
        by (auto simp: st' begun_within_def)
      then show ?thesis using inv by (simp add: run_knows_def)
    qed
    show ?thesis unfolding st'_def [symmetric]
      using inv wf new within True by (auto simp: run_knows_def st' split: if_splits)
  qed
qed

lemma run_knows_end:
  assumes inv: "run_knows L env k most t st failed"
    and cfg: "0 \<le> al_windowMs L" "al_windowMs L \<le> al_lockoutMs L" "0 < t"
  shows "run_knows L env k most t (end_attempt L env t i report st) (note_failure L env k (AuthEnd t i report) st failed)"
proof (cases "i < length (ar_open st)")
  case False
  then show ?thesis using inv by (simp add: end_attempt_def)
next
  case True
  define a where "a = ar_open st ! i"
  define st' where "st' = end_attempt L env t i report st"
  define failed' where "failed' = note_failure L env k (AuthEnd t i report) st failed"
  let ?k = "auth_key env (oa_ip a) (oa_scope a)"
  have entries: "ar_entries st' = (case report of
        ReportsFailure \<Rightarrow> recordFailure L env t (oa_ip a) (oa_scope a) (ar_entries st)
      | ReportsSuccess \<Rightarrow> auth_reset env (oa_ip a) (oa_scope a) (ar_entries st) | ReportsNothing \<Rightarrow> ar_entries st)"
    using True by (cases report) (simp_all add: st'_def end_attempt_def a_def Let_def)
  have "ar_open st' = take i (ar_open st) @ drop (Suc i) (ar_open st)"
    using True by (simp add: st'_def end_attempt_def Let_def)
  note left = under_way_ended [OF True this, of L env k, folded a_def]
  have failed': "failed' = (case report of
      ReportsFailure \<Rightarrow> if attempt_of L env k a then failed @ [oa_since a] else failed
    | ReportsSuccess \<Rightarrow> if ?k = k then [] else failed | ReportsNothing \<Rightarrow> failed)"
    using True by (cases report) (simp_all add: failed'_def a_def resolveKey_parts Let_def)
  have wf: "jm_wf (ar_entries st')"
    using inv by (cases report) (simp_all add: run_knows_def entries recordFailure_def auth_reset_def split_def Let_def)
  have sub: "mset (failed' @ under_way L env k st') \<subseteq># mset (failed @ under_way L env k st)"
    using left by (auto simp: failed' split: AttemptReport.splits)
  have sets: "set failed' \<union> set (under_way L env k st') \<subseteq> set failed \<union> set (under_way L env k st)"
    using set_mset_mono [OF sub] by simp
  have within: "begun_within x (al_windowMs L) (failed' @ under_way L env k st') \<le> most" for x
  proof -
    have "begun_within x (al_windowMs L) (failed' @ under_way L env k st')
        \<le> begun_within x (al_windowMs L) (failed @ under_way L env k st)"
      unfolding begun_within_mset by (intro size_mset_mono multiset_filter_mono sub)
    then show ?thesis using inv by (meson order_trans run_knows_def)
  qed
  have knows: "entry_knows L t (jm_get (ar_entries st) k) failed (set (under_way L env k st))"
    and past: "\<forall>x \<in> set failed \<union> set (under_way L env k st). x \<le> t"
    using inv by (auto simp: run_knows_def)
  have "entry_knows L t (jm_get (ar_entries st') k) failed' (set (under_way L env k st'))"
  proof (cases report)
    case ReportsFailure
    show ?thesis
    proof (cases "attempt_of L env k a")
      case True
      then have key: "?k = k" "\<not> auth_exempt L env (oa_ip a)" by (simp_all add: attempt_of_iff)
      have got: "jm_get (ar_entries st') k
          = Some (fail_entry L t (or_else (jm_get (ar_entries st) k) \<lparr>re_attempts = [], re_lockedUntil = None\<rparr>))"
        using key ReportsFailure
        by (simp add: entries recordFailure_def resolveKey_parts split_def Let_def auth_exempt_def)
      have "oa_since a \<in># mset (under_way L env k st)" unfolding left using True by simp
      then have mem: "oa_since a \<in> set (under_way L env k st)" by simp
      have all: "entry_knows L t (jm_get (ar_entries st') k) failed' (set (under_way L env k st))"
        unfolding got using entry_knows_fail [OF knows mem past cfg] True ReportsFailure by (simp add: failed')
      show ?thesis by (rule entry_knows_subset [OF all]) (use sets failed' ReportsFailure True mem in auto)
    next
      case False
      have "jm_get (ar_entries st') k = jm_get (ar_entries st) k"
        using False ReportsFailure
        by (auto simp: entries recordFailure_def resolveKey_parts split_def Let_def auth_exempt_def attempt_of_iff)
      then show ?thesis using entry_knows_subset [OF knows] sets failed' ReportsFailure False by simp
    qed
  next
    case ReportsSuccess
    show ?thesis
    proof (cases "?k = k")
      case True
      then show ?thesis using ReportsSuccess
        by (simp add: entries auth_reset_def resolveKey_parts failed' entry_knows_def recent_def)
    next
      case False
      then have "jm_get (ar_entries st') k = jm_get (ar_entries st) k"
        using ReportsSuccess by (simp add: entries auth_reset_def resolveKey_parts)
      then show ?thesis using entry_knows_subset [OF knows] sets failed' ReportsSuccess False by simp
    qed
  next
    case ReportsNothing
    then show ?thesis using entry_knows_subset [OF knows] sets failed' entries by simp
  qed
  then show ?thesis unfolding st'_def [symmetric] failed'_def [symmetric]
    using wf within sets past by (auto simp: run_knows_def)
qed

lemma run_knows_step:
  assumes inv: "run_knows L env k (n + b - 1) (auth_time ev) st failed" and n: "0 < n" "al_maxAttempts L = of_nat n"
    and cfg: "0 \<le> al_windowMs L" "al_windowMs L \<le> al_lockoutMs L" "0 < auth_time ev"
    and b: "length (under_way L env k (auth_step L env ev st)) \<le> b"
  shows "run_knows L env k (n + b - 1) (auth_time ev) (auth_step L env ev st) (note_failure L env k ev st failed)"
proof (cases ev)
  case (AuthBegin t ip scope)
  have "run_knows L env k (n + b - 1) t (begin_attempt L env t ip scope st) failed"
    by (rule run_knows_begin [OF _ n]) (use inv b AuthBegin in simp_all)
  then show ?thesis by (simp add: AuthBegin)
next
  case (AuthEnd t i report)
  have "run_knows L env k (n + b - 1) t (end_attempt L env t i report st) (note_failure L env k ev st failed)"
    unfolding AuthEnd by (rule run_knows_end) (use inv cfg AuthEnd in simp_all)
  then show ?thesis by (simp add: AuthEnd)
next
  case (AuthResets t ip scope)
  show ?thesis
  proof (cases "auth_key env ip scope = k")
    case True
    have "begun_within x (al_windowMs L) (under_way L env k st) \<le> n + b - 1" for x
    proof -
      have "begun_within x (al_windowMs L) (failed @ under_way L env k st) \<le> n + b - 1"
        using inv by (simp add: run_knows_def)
      then show ?thesis by (simp add: begun_within_append)
    qed
    then show ?thesis using inv True AuthResets
      by (simp add: run_knows_def resolveKey_parts auth_reset_def under_way_def entry_knows_def recent_def)
  next
    case False
    then show ?thesis using inv AuthResets by (simp add: run_knows_def resolveKey_parts auth_reset_def under_way_def)
  qed
next
  case (AuthPrune t)
  have "jm_wf (ar_entries st)" using inv by (simp add: run_knows_def)
  then show ?thesis using inv AuthPrune entry_knows_prune
    by (simp add: run_knows_def prune_wf prune_get under_way_def)
qed

lemma failed_attempts_knows:
  assumes "run_knows L env k (n + b - 1) now st failed" "0 < n" "al_maxAttempts L = of_nat n"
    and "0 \<le> al_windowMs L" "al_windowMs L \<le> al_lockoutMs L"
    and "sorted (now # map auth_time es)" "list_all (\<lambda>ev. 0 < auth_time ev) es" "most_under_way L env k es st \<le> b"
  shows "begun_within x (al_windowMs L) (failed_attempts L env k es st failed) \<le> n + b - 1"
  using assms
proof (induction es arbitrary: now st failed)
  case Nil
  have "begun_within x (al_windowMs L) (failed @ under_way L env k st) \<le> n + b - 1"
    using Nil(1) by (simp add: run_knows_def)
  then show ?case by (simp add: begun_within_append)
next
  case (Cons ev es)
  have most: "most_under_way L env k es (auth_step L env ev st) \<le> b" using Cons.prems(8) by simp
  have "length (under_way L env k st') \<le> most_under_way L env k es st'" for st' by (cases es) simp_all
  then have b: "length (under_way L env k (auth_step L env ev st)) \<le> b" using most order_trans by blast
  have now: "run_knows L env k (n + b - 1) (auth_time ev) st failed"
    using run_knows_later [OF Cons.prems(1)] Cons.prems(6) by simp
  have "run_knows L env k (n + b - 1) (auth_time ev) (auth_step L env ev st) (note_failure L env k ev st failed)"
    by (rule run_knows_step [OF now Cons.prems(2-5) _ b]) (use Cons.prems(7) in simp)
  from Cons.IH [OF this Cons.prems(2-5) _ _ most] show ?case using Cons.prems(6,7) by simp
qed

section \<open>Properties\<close>

text \<open>C13: Brute force is bounded, also when attempts overlap. Attempts of all clients are checked and
  report in any interleaving, with resets and prunes at any moment. Let the limit \<open>n\<close> be positive, the lockout at least as
  long as the window, and the clock positive and not running backwards. Then of the attempts of a client (a key:
  scope and address, not exempt) that are let through within any window, at most \<open>n\<close>, plus one less than the number of its attempts
  that were ever under way at the same time, have failed since the last reset of the key: a success
  of the client starts the count anew. If its attempts do not overlap this is at most \<open>n\<close>.\<close>

theorem auth_failures_bounded:
  assumes "0 < n" "al_maxAttempts L = of_nat n" "0 \<le> al_windowMs L" "al_windowMs L \<le> al_lockoutMs L"
    and "sorted (map auth_time es)" "list_all (\<lambda>ev. 0 < auth_time ev) es"
  shows "begun_within x (al_windowMs L) (failed_attempts L env k es auth_start [])
    \<le> n + most_under_way L env k es auth_start - 1"
proof (rule failed_attempts_knows [where now = 0, OF _ assms(1-4) _ assms(6) order_refl])
  show "run_knows L env k (n + most_under_way L env k es auth_start - 1) 0 auth_start []"
    by (simp add: run_knows_def auth_start_def under_way_def entry_knows_def recent_def begun_within_def)
  show "sorted (0 # map auth_time es)" using assms(5,6) by (auto simp: list_all_iff less_imp_le)
qed

definition sample_env :: AddressEnv where
  "sample_env = \<lparr>ae_resolveClientIp = (\<lambda>ip. ip), ae_isLoopbackAddress = (\<lambda>ip. ip = ''127.0.0.1'')\<rparr>"

definition sample_limiter :: AuthRateLimiter where
  "sample_limiter = createAuthRateLimiter (Some \<lparr>rc_maxAttempts = Some 2, rc_windowMs = Some 10, rc_lockoutMs = Some 20,
     rc_exemptLoopback = None, rc_pruneIntervalMs = None\<rparr>)"

text \<open>Three attempts begin before the first reports and all fail, one more than the limit; the next one is refused,
  and after the lockout there are again two.\<close>

definition sample_attempts :: "AuthEvent list" where
  "sample_attempts = (let start = (\<lambda>t. AuthBegin t (Some ''10.0.0.9'') None); fails = (\<lambda>t. AuthEnd t 0 ReportsFailure)
     in [start 1, start 2, start 3, fails 4, fails 5, fails 6, start 7, AuthPrune 20, start 30, fails 31, start 32, fails 33, start 34])"

theorem auth_failures_bounded_witness:
  "failed_attempts sample_limiter sample_env ''default:10.0.0.9'' sample_attempts auth_start [] = [1, 2, 3, 30, 32]
   \<and> most_under_way sample_limiter sample_env ''default:10.0.0.9'' sample_attempts auth_start = 3
   \<and> begun_within 1 (al_windowMs sample_limiter)
        (failed_attempts sample_limiter sample_env ''default:10.0.0.9'' sample_attempts auth_start [])
      \<le> 2 + most_under_way sample_limiter sample_env ''default:10.0.0.9'' sample_attempts auth_start - 1"
proof (intro conjI)
  show "failed_attempts sample_limiter sample_env ''default:10.0.0.9'' sample_attempts auth_start [] = [1, 2, 3, 30, 32]"
    "most_under_way sample_limiter sample_env ''default:10.0.0.9'' sample_attempts auth_start = 3"
    by code_simp+
  have cfg: "al_maxAttempts sample_limiter = of_nat 2" "0 \<le> al_windowMs sample_limiter"
      "al_windowMs sample_limiter \<le> al_lockoutMs sample_limiter"
    by (simp_all add: sample_limiter_def createAuthRateLimiter_def)
  have es: "sorted (map auth_time sample_attempts)" "list_all (\<lambda>ev. 0 < auth_time ev) sample_attempts"
    by (simp_all add: sample_attempts_def Let_def)
  show "begun_within 1 (al_windowMs sample_limiter)
        (failed_attempts sample_limiter sample_env ''default:10.0.0.9'' sample_attempts auth_start [])
      \<le> 2 + most_under_way sample_limiter sample_env ''default:10.0.0.9'' sample_attempts auth_start - 1"
    by (rule auth_failures_bounded [OF _ cfg es]) simp
qed

text \<open>A failure recorded after a lockout has run out, without a check in between, keeps the old lockout
  time in the entry: the next check then clears the new failure with it, and the client has all its attempts again.
  A check in between keeps the failure counted.\<close>

lemma failure_after_lockout_forgotten:
  "check_entry sample_limiter 31 (fail_entry sample_limiter 30 \<lparr>re_attempts = [1, 2], re_lockedUntil = Some 22\<rparr>)
     = (\<lparr>rr_allowed = True, rr_remaining = 2, rr_retryAfterMs = 0\<rparr>, \<lparr>re_attempts = [], re_lockedUntil = None\<rparr>)
   \<and> fst (check_entry sample_limiter 31 (fail_entry sample_limiter 30
        (snd (check_entry sample_limiter 29 \<lparr>re_attempts = [1, 2], re_lockedUntil = Some 22\<rparr>))))
     = \<lparr>rr_allowed = True, rr_remaining = 1, rr_retryAfterMs = 0\<rparr>"
  by code_simp

end
