(* ===== verification/Dedupe.thy ===== *)
theory Dedupe
  imports JsNumber JsMap
begin

text \<open>
  Memory of recent ids: the dedupe cache (src/src/infra/dedupe.ts with infra/map-size.ts) and the
  scoped id cache (src/src/shared/scoped-expiring-id-cache.ts). Both forget; the locale
  \<open>forgetful_map\<close> states that they forget only what has expired, which makes them refine a map of
  last times that never forgets. Times and time-to-live are rationals; ids are strings.
\<close>

section \<open>Bounded maps\<close>

function prune_loop :: "nat \<Rightarrow> ('k, 'v) jsmap \<Rightarrow> ('k, 'v) jsmap" where
  "prune_loop n m = (if n < length m then prune_loop n (jm_drop_oldest m) else m)"
  by pat_completeness auto

termination
proof (relation "measure (\<lambda>(n, m). length m)")
  fix n and m :: "('k, 'v) jsmap"
  assume "n < length m"
  then obtain k v m' where m: "m = (k, v) # m'" by (cases m) auto
  have "length (filter (\<lambda>p. fst p \<noteq> k) m') \<le> length m'" by (rule length_filter_le)
  then show "((n, jm_drop_oldest m), n, m) \<in> measure (\<lambda>(n, m). length m)"
    by (simp add: m jm_drop_oldest_def jm_del_def less_Suc_eq_le)
qed simp

declare prune_loop.simps [simp del]

definition pruneMapToMaxSize :: "js_limit \<Rightarrow> ('k, 'v) jsmap \<Rightarrow> ('k, 'v) jsmap" where
  "pruneMapToMaxSize lmt m =
    (case lmt of LimitInt n \<Rightarrow> if n \<le> 0 then [] else prune_loop (nat n) m | LimitInf \<Rightarrow> m | LimitNaN \<Rightarrow> m)"

lemma prune_loop_drop: "jm_wf m \<Longrightarrow> prune_loop n m = drop (length m - n) m"
proof (induction n m rule: prune_loop.induct)
  case (1 n m)
  show ?case
  proof (cases "n < length m")
    case True
    then obtain p m' where m: "m = p # m'" by (cases m) auto
    have "prune_loop n m = prune_loop n (tl m)"
      using True 1(2) by (subst prune_loop.simps) (simp add: jm_drop_oldest_tl)
    also have "\<dots> = drop (length (tl m) - n) (tl m)"
      using 1(1) [OF True] jm_drop_oldest_tl [OF 1(2)] jm_wf_drop_oldest [OF 1(2)] by simp
    finally show ?thesis using True by (simp add: m Suc_diff_le)
  qed (subst prune_loop.simps, simp)
qed

section \<open>The dedupe cache\<close>

record DedupeCache =
  dc_ttlMs :: rat
  dc_maxSize :: js_limit

definition createDedupeCache :: "rat \<Rightarrow> js_number \<Rightarrow> DedupeCache" where
  "createDedupeCache ttlMs maxSize = \<lparr>dc_ttlMs = max 0 ttlMs, dc_maxSize = floor_max 0 maxSize\<rparr>"

type_synonym Timestamps = "(string, rat) jsmap"

definition dedupe_touch :: "string \<Rightarrow> rat \<Rightarrow> Timestamps \<Rightarrow> Timestamps" where
  "dedupe_touch key now m = jm_set key now (jm_del key m)"

definition dedupe_prune :: "DedupeCache \<Rightarrow> rat \<Rightarrow> Timestamps \<Rightarrow> Timestamps" where
  "dedupe_prune c now m =
    (let m = (if 0 < dc_ttlMs c then filter (\<lambda>(k, ts). \<not> ts < now - dc_ttlMs c) m else m) in
     if \<not> (case dc_maxSize c of LimitInt n \<Rightarrow> 0 < n | _ \<Rightarrow> True) then [] else pruneMapToMaxSize (dc_maxSize c) m)"

definition hasUnexpired :: "DedupeCache \<Rightarrow> string \<Rightarrow> rat \<Rightarrow> bool \<Rightarrow> Timestamps \<Rightarrow> bool \<times> Timestamps" where
  "hasUnexpired c key now touchOnRead m =
    (case jm_get m key of
       None \<Rightarrow> (False, m)
     | Some existing \<Rightarrow>
         if 0 < dc_ttlMs c \<and> dc_ttlMs c \<le> now - existing then (False, jm_del key m)
         else (True, if touchOnRead then dedupe_touch key now m else m))"

definition dedupe_check :: "DedupeCache \<Rightarrow> string option \<Rightarrow> rat \<Rightarrow> Timestamps \<Rightarrow> bool \<times> Timestamps" where
  "dedupe_check c key now m =
    (if or_else key [] = [] then (False, m)
     else (case hasUnexpired c (the key) now True m of
        (True, m) \<Rightarrow> (True, m)
      | (False, m) \<Rightarrow> (False, dedupe_prune c now (dedupe_touch (the key) now m))))"

definition dedupe_peek :: "DedupeCache \<Rightarrow> string option \<Rightarrow> rat \<Rightarrow> Timestamps \<Rightarrow> bool \<times> Timestamps" where
  "dedupe_peek c key now m = (if or_else key [] = [] then (False, m) else hasUnexpired c (the key) now False m)"

definition dedupe_delete :: "string option \<Rightarrow> Timestamps \<Rightarrow> Timestamps" where
  "dedupe_delete key m = (if or_else key [] = [] then m else jm_del (the key) m)"

definition dedupe_clear :: "Timestamps \<Rightarrow> Timestamps" where
  "dedupe_clear m = []"

definition dedupe_size :: "Timestamps \<Rightarrow> nat" where
  "dedupe_size m = length m"

section \<open>The scoped id cache\<close>

record ScopedIdCache =
  sc_ttlMs :: rat
  sc_cleanupThreshold :: js_limit

definition createScopedExpiringIdCache :: "rat \<Rightarrow> js_number \<Rightarrow> ScopedIdCache" where
  "createScopedExpiringIdCache ttlMs threshold =
    \<lparr>sc_ttlMs = max 0 ttlMs, sc_cleanupThreshold = floor_max 1 threshold\<rparr>"

type_synonym ScopedStore = "(string, Timestamps) jsmap"

definition cleanupExpired :: "ScopedIdCache \<Rightarrow> string \<Rightarrow> Timestamps \<Rightarrow> rat \<Rightarrow> ScopedStore \<Rightarrow> ScopedStore" where
  "cleanupExpired c scopeKey entry now store =
    (let entry = filter (\<lambda>(i, ts). \<not> sc_ttlMs c < now - ts) entry in
     if entry = [] then jm_del scopeKey store else jm_set scopeKey entry store)"

definition exceeds_limit :: "nat \<Rightarrow> js_limit \<Rightarrow> bool" where
  "exceeds_limit n lmt = (case lmt of LimitInt m \<Rightarrow> m < int n | _ \<Rightarrow> False)"

definition scoped_record :: "ScopedIdCache \<Rightarrow> string \<Rightarrow> string \<Rightarrow> rat \<Rightarrow> ScopedStore \<Rightarrow> ScopedStore" where
  "scoped_record c scope i now store =
    (let entry = jm_set i now (or_else (jm_get store scope) []);
         store = jm_set scope entry store
     in if exceeds_limit (length entry) (sc_cleanupThreshold c) then cleanupExpired c scope entry now store else store)"

definition scoped_has :: "ScopedIdCache \<Rightarrow> string \<Rightarrow> string \<Rightarrow> rat \<Rightarrow> ScopedStore \<Rightarrow> bool \<times> ScopedStore" where
  "scoped_has c scope i now store =
    (case jm_get store scope of
       None \<Rightarrow> (False, store)
     | Some entry \<Rightarrow>
         (jm_has i (filter (\<lambda>(i, ts). \<not> sc_ttlMs c < now - ts) entry), cleanupExpired c scope entry now store))"

definition scoped_clear :: "ScopedStore \<Rightarrow> ScopedStore" where
  "scoped_clear store = []"

section \<open>Forgetful maps\<close>

text \<open>
  A store of times that may forget entries, but only dead ones. \<open>lookup\<close> is what it holds, \<open>put\<close>
  writes a time, \<open>tidy\<close> is any reading that may clean up.
\<close>

definition alive :: "(rat \<Rightarrow> rat \<Rightarrow> bool) \<Rightarrow> rat \<Rightarrow> rat option \<Rightarrow> bool" where
  "alive dead now v = (case v of None \<Rightarrow> False | Some t \<Rightarrow> \<not> dead now t)"

definition keeps :: "(rat \<Rightarrow> rat \<Rightarrow> bool) \<Rightarrow> rat \<Rightarrow> rat option \<Rightarrow> rat option \<Rightarrow> bool" where
  "keeps dead now v w \<longleftrightarrow> w = v \<or> w = None \<and> \<not> alive dead now v"

locale forgetful_map =
  fixes lookup :: "'s \<Rightarrow> 'k \<Rightarrow> rat option"
    and put :: "'k \<Rightarrow> rat \<Rightarrow> 's \<Rightarrow> 's"
    and tidy :: "'k \<Rightarrow> rat \<Rightarrow> 's \<Rightarrow> 's"
    and dead :: "rat \<Rightarrow> rat \<Rightarrow> bool"
    and invar :: "'s \<Rightarrow> bool"
    and known :: "'k \<Rightarrow> bool"
  assumes put_same: "invar s \<Longrightarrow> known k \<Longrightarrow> lookup (put k now s) k = Some now"
    and put_other: "invar s \<Longrightarrow> known k \<Longrightarrow> k' \<noteq> k \<Longrightarrow> keeps dead now (lookup s k') (lookup (put k now s) k')"
    and tidy_keeps: "invar s \<Longrightarrow> keeps dead now (lookup s k') (lookup (tidy k now s) k')"
    and invar_put: "invar s \<Longrightarrow> known k \<Longrightarrow> invar (put k now s)"
    and invar_tidy: "invar s \<Longrightarrow> invar (tidy k now s)"
    and dead_later: "dead now t \<Longrightarrow> now \<le> u \<Longrightarrow> dead u t"
begin

definition remembers :: "rat \<Rightarrow> 's \<Rightarrow> ('k \<Rightarrow> rat option) \<Rightarrow> bool" where
  "remembers now s seen \<longleftrightarrow> invar s \<and> (\<forall>k. keeps dead now (seen k) (lookup s k))"

lemma keeps_later: "keeps dead now v w \<Longrightarrow> now \<le> u \<Longrightarrow> keeps dead u v w"
  by (auto simp: keeps_def alive_def intro: dead_later split: option.splits)

lemma keeps_trans: "keeps dead now v w \<Longrightarrow> keeps dead now w x \<Longrightarrow> keeps dead now v x"
  by (auto simp: keeps_def alive_def)

lemma remembers_later: "remembers now s seen \<Longrightarrow> now \<le> u \<Longrightarrow> remembers u s seen"
  by (auto simp: remembers_def intro: keeps_later)

lemma remembers_put:
  assumes "remembers now s seen" "known k"
  shows "remembers now (put k now s) (seen(k \<mapsto> now))"
proof -
  have inv: "invar s" using assms(1) by (simp add: remembers_def)
  have "keeps dead now ((seen(k \<mapsto> now)) j) (lookup (put k now s) j)" for j
  proof (cases "j = k")
    case True
    then show ?thesis using put_same [OF inv assms(2)] by (simp add: keeps_def)
  next
    case False
    have "keeps dead now (seen j) (lookup s j)" using assms(1) by (simp add: remembers_def)
    then show ?thesis using keeps_trans put_other [OF inv assms(2) False] False by simp
  qed
  then show ?thesis using invar_put [OF inv assms(2)] by (simp add: remembers_def)
qed

lemma remembers_tidy: "remembers now s seen \<Longrightarrow> remembers now (tidy k now s) seen"
  unfolding remembers_def using tidy_keeps keeps_trans invar_tidy by blast

lemma remembers_alive:
  assumes "remembers now s seen"
  shows "alive dead now (lookup s k) = alive dead now (seen k)"
proof -
  have "keeps dead now (seen k) (lookup s k)" using assms by (simp add: remembers_def)
  then show ?thesis by (auto simp: keeps_def alive_def)
qed

end

section \<open>The two caches forget only what is dead\<close>

lemma jm_wf_touch: "jm_wf m \<Longrightarrow> jm_wf (dedupe_touch k now m)"
  by (simp add: dedupe_touch_def)

lemma touch_end: "dedupe_touch k now m = jm_del k m @ [(k, now)]"
proof -
  have "jm_set k now m' = m' @ [(k, now)]" if "k \<notin> fst ` set m'" for m' :: Timestamps
    using that by (induction m') (auto simp: image_iff)
  moreover have "k \<notin> fst ` set (jm_del k m)" by (auto simp: jm_del_def)
  ultimately show ?thesis unfolding dedupe_touch_def by blast
qed

definition dedupe_dead :: "rat \<Rightarrow> rat \<Rightarrow> rat \<Rightarrow> bool" where
  "dedupe_dead ttl now t \<longleftrightarrow> 0 < ttl \<and> ttl \<le> now - t"

text \<open>A check, by what it does to the timestamps.\<close>

lemma check_result:
  assumes "k \<noteq> []"
  shows "fst (dedupe_check c (Some k) now m) = alive (dedupe_dead (dc_ttlMs c)) now (jm_get m k)"
    and "snd (dedupe_check c (Some k) now m) =
      (if alive (dedupe_dead (dc_ttlMs c)) now (jm_get m k) then dedupe_touch k now m
       else dedupe_prune c now (dedupe_touch k now m))"
  using assms
  by (auto simp: dedupe_check_def hasUnexpired_def alive_def dedupe_dead_def dedupe_touch_def jm_del_def split: option.splits)

lemma peek_result:
  assumes "k \<noteq> []"
  shows "fst (dedupe_peek c (Some k) now m) = alive (dedupe_dead (dc_ttlMs c)) now (jm_get m k)"
    and "snd (dedupe_peek c (Some k) now m) =
      (if alive (dedupe_dead (dc_ttlMs c)) now (jm_get m k) then m else jm_del k m)"
  using assms
  by (auto simp: dedupe_peek_def hasUnexpired_def alive_def dedupe_dead_def jm_del_absent split: option.splits)

lemma prune_bounded:
  assumes "jm_wf m" "dc_maxSize c = LimitInt n"
  shows "length (dedupe_prune c now m) \<le> nat n"
  using assms length_filter_le [of "\<lambda>(k, ts). \<not> ts < now - dc_ttlMs c" m]
  by (auto simp: dedupe_prune_def Let_def pruneMapToMaxSize_def prune_loop_drop jm_wf_filter)

lemma prune_jm_wf:
  assumes "jm_wf m"
  shows "jm_wf (dedupe_prune c now m)"
proof -
  have d: "jm_wf (drop i m')" if "jm_wf m'" for i and m' :: Timestamps
    using that by (simp add: jm_wf_def drop_map [symmetric])
  show ?thesis using assms
    by (auto simp: dedupe_prune_def Let_def pruneMapToMaxSize_def prune_loop_drop jm_wf_filter d split: js_limit.splits)
qed

lemma check_wf:
  assumes "jm_wf m" "k \<noteq> []"
  shows "jm_wf (snd (dedupe_check c (Some k) now m))"
  unfolding check_result(2) [OF assms(2)] using assms(1) by (simp add: jm_wf_touch prune_jm_wf)

lemma check_bounded:
  assumes "jm_wf m" "dc_maxSize c = LimitInt n" "length m \<le> nat n" "k \<noteq> []"
  shows "length (snd (dedupe_check c (Some k) now m)) \<le> nat n"
proof (cases "alive (dedupe_dead (dc_ttlMs c)) now (jm_get m k)")
  case True
  then have "jm_has k m" by (auto simp: jm_has_iff alive_def split: option.splits)
  then have "length (dedupe_touch k now m) = length m"
    using assms(1) by (cases m) (auto simp: touch_end length_jm_del jm_has_def)
  then show ?thesis using True assms(3) by (simp add: check_result(2) [OF assms(4)])
next
  case False
  then show ?thesis
    using prune_bounded [OF jm_wf_touch [OF assms(1)] assms(2)] by (simp add: check_result(2) [OF assms(4)])
qed

lemma get_filter_expired:
  "jm_wf m \<Longrightarrow> jm_get (filter (\<lambda>(k, ts). P ts) m) k = Option.bind (jm_get m k) (\<lambda>ts. if P ts then Some ts else None)"
  by (subst jm_get_filter) (auto split: option.splits)

text \<open>As long as no more keys are in use than fit, pruning drops dead entries only.\<close>

lemma keys_card: "jm_wf m \<Longrightarrow> fst ` set m \<subseteq> K \<Longrightarrow> finite K \<Longrightarrow> length m \<le> card K"
  by (metis card_mono distinct_card jm_wf_def length_map list.set_map)

lemma loop_get:
  assumes "jm_wf m" "dc_maxSize c = LimitInt n" "0 < n" "fst ` set m \<subseteq> K" "finite K" "card K \<le> nat n"
  shows "jm_get (dedupe_prune c now m) k
    = Option.bind (jm_get m k) (\<lambda>ts. if 0 < dc_ttlMs c \<and> ts < now - dc_ttlMs c then None else Some ts)"
proof -
  let ?m = "filter (\<lambda>(k, ts). \<not> ts < now - dc_ttlMs c) m"
  have "length m \<le> nat n" using keys_card [OF assms(1,4,5)] assms(6) by linarith
  moreover have "length ?m \<le> length m" by (rule length_filter_le)
  ultimately have "length ?m \<le> nat n" by (rule order_trans [rotated])
  note l = \<open>length m \<le> nat n\<close> this
  have "dedupe_prune c now m = (if 0 < dc_ttlMs c then ?m else m)"
    using assms(1-3) l by (simp add: dedupe_prune_def Let_def pruneMapToMaxSize_def prune_loop_drop jm_wf_filter)
  then show ?thesis using get_filter_expired [OF assms(1), of "\<lambda>ts. \<not> ts < now - dc_ttlMs c"]
    by (cases "jm_get m k") auto
qed

lemma prune_keys: "fst ` set (dedupe_prune c now m) \<subseteq> fst ` set m" if "jm_wf m"
proof -
  have "set (drop i m') \<subseteq> set m'" for i and m' :: Timestamps by (rule set_drop_subset)
  then show ?thesis using that
    by (fastforce simp: dedupe_prune_def Let_def pruneMapToMaxSize_def prune_loop_drop jm_wf_filter
        split: js_limit.splits if_splits dest: in_set_dropD)
qed

definition dedupe_invar :: "string set \<Rightarrow> Timestamps \<Rightarrow> bool" where
  "dedupe_invar K m \<longleftrightarrow> jm_wf m \<and> fst ` set m \<subseteq> K"

text \<open>The set of keys in use, empty when it is too large for the cache.\<close>

definition fitting :: "DedupeCache \<Rightarrow> string set \<Rightarrow> string set" where
  "fitting c K = (case dc_maxSize c of
     LimitInt n \<Rightarrow> if 0 < n \<and> finite K \<and> card K \<le> nat n then K - {[]} else {} | _ \<Rightarrow> {})"

lemma touch_get: "jm_get (dedupe_touch k now m) = (jm_get m)(k \<mapsto> now)"
  by (rule ext) (simp add: dedupe_touch_def)

lemma touch_keys: "fst ` set (dedupe_touch k now m) \<subseteq> insert k (fst ` set m)"
  by (auto simp: touch_end jm_del_def)

interpretation dedupe: forgetful_map jm_get "\<lambda>k now m. snd (dedupe_check c (Some k) now m)"
    "\<lambda>k now m. snd (dedupe_peek c (Some k) now m)" "dedupe_dead (dc_ttlMs c)"
    "dedupe_invar (fitting c K)" "\<lambda>k. k \<in> fitting c K" for c K
proof
  fix s k now k' t u
  assume inv: "dedupe_invar (fitting c K) s"
  then have wf: "jm_wf s" and sub: "fst ` set s \<subseteq> fitting c K" by (simp_all add: dedupe_invar_def)
  {
    assume k: "k \<in> fitting c K"
    then obtain n where n: "dc_maxSize c = LimitInt n" "0 < n" "finite K" "card K \<le> nat n" "k \<noteq> []" "fitting c K = K - {[]}"
      by (auto simp: fitting_def split: js_limit.splits if_splits)
    have sub': "fst ` set (dedupe_touch k now s) \<subseteq> fitting c K" using touch_keys [of k now s] sub k by auto
    have card: "card (fitting c K) \<le> nat n" "finite (fitting c K)"
      using n card_Diff1_le [of K "[]"] by auto
    have get: "jm_get (snd (dedupe_check c (Some k) now s)) j =
        (if alive (dedupe_dead (dc_ttlMs c)) now (jm_get s k) then (jm_get (dedupe_touch k now s)) j
         else Option.bind (jm_get (dedupe_touch k now s) j) (\<lambda>ts. if 0 < dc_ttlMs c \<and> ts < now - dc_ttlMs c then None else Some ts))" for j
      unfolding check_result(2) [OF n(5)]
      using loop_get [OF jm_wf_touch [OF wf] n(1,2) sub' card(2,1)] by simp
    show "jm_get (snd (dedupe_check c (Some k) now s)) k = Some now"
      unfolding get touch_get by auto
    show "keeps (dedupe_dead (dc_ttlMs c)) now (jm_get s k') (jm_get (snd (dedupe_check c (Some k) now s)) k')" if "k' \<noteq> k"
      unfolding get touch_get using that by (cases "jm_get s k'") (auto simp: keeps_def alive_def dedupe_dead_def)
    show "dedupe_invar (fitting c K) (snd (dedupe_check c (Some k) now s))"
      unfolding dedupe_invar_def
      using check_wf [OF wf n(5), of c now] sub' order_trans [OF prune_keys [OF jm_wf_touch [OF wf], of c now k now] sub']
      by (simp add: check_result(2) [OF n(5)])
  }
  show "keeps (dedupe_dead (dc_ttlMs c)) now (jm_get s k') (jm_get (snd (dedupe_peek c (Some k) now s)) k')"
    by (cases "k = []") (simp_all add: keeps_def dedupe_peek_def, auto simp: hasUnexpired_def alive_def dedupe_dead_def split: option.splits)
  show "dedupe_invar (fitting c K) (snd (dedupe_peek c (Some k) now s))"
  proof (cases "k = []")
    case True
    then show ?thesis using inv by (simp add: dedupe_peek_def)
  next
    case False
    then show ?thesis using wf sub by (auto simp: peek_result(2) dedupe_invar_def) (auto simp: jm_del_def)
  qed
next
  fix now t u assume "dedupe_dead (dc_ttlMs c) now t" "now \<le> u"
  then show "dedupe_dead (dc_ttlMs c) u t" by (auto simp: dedupe_dead_def)
qed

lemma scoped_get:
  "Option.bind (jm_get (scoped_record c scope i now s) sc) (\<lambda>e. jm_get e j) =
    (if (sc, j) = (scope, i) then
       (if exceeds_limit (length (jm_set i now (or_else (jm_get s scope) []))) (sc_cleanupThreshold c) \<and> sc_ttlMs c < 0
        then None else Some now)
     else (case Option.bind (jm_get s sc) (\<lambda>e. jm_get e j) of
        None \<Rightarrow> None
      | Some t \<Rightarrow> if sc = scope \<and> exceeds_limit (length (jm_set i now (or_else (jm_get s scope) []))) (sc_cleanupThreshold c)
                      \<and> sc_ttlMs c < now - t then None else Some t))"
  if "jm_wf s" "list_all (\<lambda>(k, e). jm_wf e) s"
proof -
  have ewf: "jm_wf e" if "jm_get s scope = Some e" for e
    using \<open>list_all (\<lambda>(k, e). jm_wf e) s\<close> jm_get_SomeD [OF that] by (auto simp: list_all_iff)
  let ?e = "jm_set i now (or_else (jm_get s scope) [])"
  have wf: "jm_wf ?e" using ewf by (cases "jm_get s scope") (simp_all, simp add: jm_wf_def)
  have get: "jm_get ?e j = (if j = i then Some now else Option.bind (jm_get s scope) (\<lambda>e. jm_get e j))" for j
    by (cases "jm_get s scope") auto
  have fil: "jm_get (filter (\<lambda>(i, ts). \<not> sc_ttlMs c < now - ts) ?e) j
      = Option.bind (jm_get ?e j) (\<lambda>ts. if \<not> sc_ttlMs c < now - ts then Some ts else None)" for j
    by (rule get_filter_expired [OF wf])
  have empty: "jm_get (filter P ?e) j = None" if "filter P ?e = []" for P j using that by simp
  show ?thesis
  proof (cases "exceeds_limit (length ?e) (sc_cleanupThreshold c)")
    case True
    then have "scoped_record c scope i now s = cleanupExpired c scope ?e now (jm_set scope ?e s)"
      by (simp add: scoped_record_def Let_def)
    moreover have "Option.bind (jm_get (cleanupExpired c scope ?e now (jm_set scope ?e s)) sc) (\<lambda>e. jm_get e j)
      = (if sc = scope then jm_get (filter (\<lambda>(i, ts). \<not> sc_ttlMs c < now - ts) ?e) j else Option.bind (jm_get s sc) (\<lambda>e. jm_get e j))"
      by (simp add: cleanupExpired_def Let_def)
    ultimately show ?thesis unfolding fil get using True
      by (cases "jm_get s sc"; cases "jm_get s scope") (auto split: option.splits)
  next
    case False
    then have "scoped_record c scope i now s = jm_set scope ?e s" by (simp add: scoped_record_def Let_def)
    then show ?thesis using False get by (cases "jm_get s sc") (auto split: option.splits)
  qed
qed

definition scoped_lookup :: "ScopedStore \<Rightarrow> string \<times> string \<Rightarrow> rat option" where
  "scoped_lookup s k = Option.bind (jm_get s (fst k)) (\<lambda>e. jm_get e (snd k))"

definition scoped_dead :: "rat \<Rightarrow> rat \<Rightarrow> rat \<Rightarrow> bool" where
  "scoped_dead ttl now t \<longleftrightarrow> max 0 ttl < now - t"

definition scoped_wf :: "ScopedStore \<Rightarrow> bool" where
  "scoped_wf s \<longleftrightarrow> jm_wf s \<and> list_all (\<lambda>(k, e). jm_wf e) s"

lemma list_all_jm_set: "list_all P m \<Longrightarrow> P (k, v) \<Longrightarrow> list_all P (jm_set k v m)"
  by (auto simp: list_all_iff dest: in_jm_setD)

lemma cleanup_wf: "scoped_wf s \<Longrightarrow> jm_wf e \<Longrightarrow> scoped_wf (cleanupExpired c scope e now s)"
  by (auto simp: scoped_wf_def cleanupExpired_def Let_def jm_wf_filter list_all_jm_set)
    (auto simp: jm_del_def list_all_iff)

lemma scoped_entry_wf: "scoped_wf s \<Longrightarrow> jm_get s scope = Some e \<Longrightarrow> jm_wf e"
  by (auto simp: scoped_wf_def list_all_iff dest: jm_get_SomeD)

lemma record_wf: "scoped_wf s \<Longrightarrow> scoped_wf (scoped_record c scope i now s)"
proof -
  assume wf: "scoped_wf s"
  let ?e = "jm_set i now (or_else (jm_get s scope) [])"
  have e: "jm_wf ?e" using scoped_entry_wf [OF wf] by (cases "jm_get s scope") (simp_all, simp add: jm_wf_def)
  have "scoped_wf (jm_set scope ?e s)" using wf e by (simp add: scoped_wf_def list_all_jm_set)
  then show ?thesis using cleanup_wf [OF _ e] by (simp add: scoped_record_def Let_def)
qed

lemma has_lookup:
  assumes "scoped_wf s"
  shows "fst (scoped_has c scope i now s) = alive (\<lambda>now t. sc_ttlMs c < now - t) now (scoped_lookup s (scope, i))"
    and "scoped_lookup (snd (scoped_has c scope i now s)) (sc, j) =
      (if sc = scope \<and> \<not> alive (\<lambda>now t. sc_ttlMs c < now - t) now (scoped_lookup s (sc, j)) then None
       else scoped_lookup s (sc, j))"
proof -
  let ?P = "\<lambda>(i, ts). \<not> sc_ttlMs c < now - ts"
  have fil: "jm_get (filter ?P e) j = Option.bind (jm_get e j) (\<lambda>ts. if \<not> sc_ttlMs c < now - ts then Some ts else None)"
    if "jm_get s scope = Some e" for e j
    by (rule get_filter_expired [OF scoped_entry_wf [OF assms that]])
  show "fst (scoped_has c scope i now s) = alive (\<lambda>now t. sc_ttlMs c < now - t) now (scoped_lookup s (scope, i))"
    using fil [of _ i] by (auto simp: scoped_has_def scoped_lookup_def alive_def jm_has_iff split: option.splits bind_splits)
  have clean: "scoped_lookup (cleanupExpired c scope e now s) (sc, j)
      = (if sc = scope then jm_get (filter ?P e) j else scoped_lookup s (sc, j))" if "jm_get s scope = Some e" for e
    using that by (auto simp: scoped_lookup_def cleanupExpired_def Let_def)
  show "scoped_lookup (snd (scoped_has c scope i now s)) (sc, j) =
      (if sc = scope \<and> \<not> alive (\<lambda>now t. sc_ttlMs c < now - t) now (scoped_lookup s (sc, j)) then None
       else scoped_lookup s (sc, j))"
  proof (cases "jm_get s scope")
    case None
    then show ?thesis by (simp add: scoped_has_def scoped_lookup_def)
  next
    case (Some e)
    have "scoped_lookup s (scope, j) = jm_get e j" using Some by (simp add: scoped_lookup_def)
    then show ?thesis using clean [OF Some] fil [OF Some, of j]
      by (cases "jm_get e j") (auto simp: scoped_has_def Some alive_def)
  qed
qed

interpretation scoped: forgetful_map scoped_lookup "\<lambda>(scope, i) now s. scoped_record (createScopedExpiringIdCache ttl threshold) scope i now s"
    "\<lambda>(scope, i) now s. snd (scoped_has (createScopedExpiringIdCache ttl threshold) scope i now s)"
    "scoped_dead ttl" scoped_wf "\<lambda>k. True" for ttl threshold
proof
  have ttl: "sc_ttlMs (createScopedExpiringIdCache ttl threshold) = max 0 ttl"
    by (simp add: createScopedExpiringIdCache_def)
  have dead: "(\<lambda>now t. max 0 ttl < now - t) = scoped_dead ttl" by (simp add: scoped_dead_def fun_eq_iff)
  fix s :: ScopedStore and k k' :: "string \<times> string" and now :: rat
  assume wf: "scoped_wf s"
  obtain scope i sc j where k: "k = (scope, i)" "k' = (sc, j)" by (cases k; cases k') auto
  note get = scoped_get [OF conjunct1 [OF wf [unfolded scoped_wf_def]] conjunct2 [OF wf [unfolded scoped_wf_def]],
      of "createScopedExpiringIdCache ttl threshold" scope i now, unfolded ttl]
  show "scoped_lookup ((case k of (scope, i) \<Rightarrow> \<lambda>now s. scoped_record (createScopedExpiringIdCache ttl threshold) scope i now s) now s) k = Some now"
    using get [of scope i] by (simp add: k scoped_lookup_def)
  show "keeps (scoped_dead ttl) now (scoped_lookup s k')
      (scoped_lookup ((case k of (scope, i) \<Rightarrow> \<lambda>now s. scoped_record (createScopedExpiringIdCache ttl threshold) scope i now s) now s) k')"
    if "k' \<noteq> k"
    using get [of sc j] that
    by (cases "Option.bind (jm_get s sc) (\<lambda>e. jm_get e j)") (auto simp: k scoped_lookup_def keeps_def alive_def scoped_dead_def)
  show "keeps (scoped_dead ttl) now (scoped_lookup s k')
      (scoped_lookup ((case k of (scope, i) \<Rightarrow> \<lambda>now s. snd (scoped_has (createScopedExpiringIdCache ttl threshold) scope i now s)) now s) k')"
    using has_lookup(2) [OF wf, of "createScopedExpiringIdCache ttl threshold" scope i now sc j, unfolded ttl dead]
    by (cases "sc = scope \<and> \<not> alive (scoped_dead ttl) now (scoped_lookup s (sc, j))") (auto simp: k keeps_def)
  show "scoped_wf ((case k of (scope, i) \<Rightarrow> \<lambda>now s. scoped_record (createScopedExpiringIdCache ttl threshold) scope i now s) now s)"
    using record_wf [OF wf] by (simp add: k)
  show "scoped_wf ((case k of (scope, i) \<Rightarrow> \<lambda>now s. snd (scoped_has (createScopedExpiringIdCache ttl threshold) scope i now s)) now s)"
    using cleanup_wf [OF wf scoped_entry_wf [OF wf]] wf by (simp add: k scoped_has_def split: option.split)
next
  fix now t u assume "scoped_dead ttl now t" "now \<le> u"
  then show "scoped_dead ttl u t" by (auto simp: scoped_dead_def)
qed

section \<open>Runs\<close>

text \<open>The reference: a map of the last time each key was written, which forgets nothing; an
  operation is a write or a read of a key at a time.\<close>

fun recall_run :: "(rat \<Rightarrow> rat \<Rightarrow> bool) \<Rightarrow> (bool \<times> 'k \<times> rat) list \<Rightarrow> ('k \<Rightarrow> rat option) \<Rightarrow> bool list" where
  "recall_run dead [] seen = []"
| "recall_run dead ((w, k, t) # ops) seen =
     alive dead t (seen k) # recall_run dead ops (if w then seen(k \<mapsto> t) else seen)"

text \<open>The dedupe cache: \<open>check\<close> is a write, \<open>peek\<close> a read; both answer.\<close>

fun dedupe_run :: "DedupeCache \<Rightarrow> (bool \<times> string \<times> rat) list \<Rightarrow> Timestamps \<Rightarrow> bool list \<times> Timestamps" where
  "dedupe_run c [] m = ([], m)"
| "dedupe_run c ((w, k, t) # ops) m =
     (let (r, m) = (if w then dedupe_check c (Some k) t m else dedupe_peek c (Some k) t m);
          (rs, m) = dedupe_run c ops m in (r # rs, m))"

text \<open>The scoped cache: \<open>record\<close> is a write without an answer, shown as the answer \<open>has\<close> would give.\<close>

fun scoped_run :: "ScopedIdCache \<Rightarrow> (bool \<times> (string \<times> string) \<times> rat) list \<Rightarrow> ScopedStore \<Rightarrow> bool list" where
  "scoped_run c [] s = []"
| "scoped_run c ((w, (scope, i), t) # ops) s =
     fst (scoped_has c scope i t s)
       # scoped_run c ops (if w then scoped_record c scope i t s else snd (scoped_has c scope i t s))"

definition op_time :: "bool \<times> 'k \<times> rat \<Rightarrow> rat" where "op_time op = snd (snd op)"
definition op_key :: "bool \<times> 'k \<times> rat \<Rightarrow> 'k" where "op_key op = fst (snd op)"

lemma dedupe_run_recalls:
  assumes "sorted (map op_time ops)" "op_key ` set ops \<subseteq> fitting c K"
    and "\<And>t. t \<in> op_time ` set ops \<Longrightarrow> dedupe.remembers c K t m seen"
  shows "fst (dedupe_run c ops m) = recall_run (dedupe_dead (dc_ttlMs c)) ops seen"
  using assms
proof (induction ops arbitrary: m seen)
  case (Cons op ops)
  obtain w k t where op: "op = (w, k, t)" by (cases op) auto
  have le: "t \<le> u" if "u \<in> op_time ` set ops" for u using Cons.prems(1) that by (auto simp: op op_time_def)
  have rem: "dedupe.remembers c K t m seen" by (rule Cons.prems(3)) (simp add: op op_time_def)
  have k: "k \<in> fitting c K" using Cons.prems(2) by (simp add: op op_key_def)
  then have ne: "k \<noteq> []" by (auto simp: fitting_def split: js_limit.splits if_splits)
  have rest: "sorted (map op_time ops)" "op_key ` set ops \<subseteq> fitting c K" using Cons.prems(1,2) by simp_all
  define m1 where "m1 = snd (if w then dedupe_check c (Some k) t m else dedupe_peek c (Some k) t m)"
  have "dedupe.remembers c K t m1 (if w then seen(k \<mapsto> t) else seen)"
    using dedupe.remembers_put [OF rem k] dedupe.remembers_tidy [OF rem, of k] by (simp add: m1_def)
  then have "fst (dedupe_run c ops m1) = recall_run (dedupe_dead (dc_ttlMs c)) ops (if w then seen(k \<mapsto> t) else seen)"
    by (intro Cons.IH [OF rest]) (rule dedupe.remembers_later, use le in auto)
  then show ?case
    using dedupe.remembers_alive [OF rem, of k] check_result(1) [OF ne, of c t m] peek_result(1) [OF ne, of c t m]
    by (simp add: op m1_def split_def Let_def)
qed simp

lemma dedupe_run_bounded:
  assumes "jm_wf m" "dc_maxSize c = LimitInt n" "length m \<le> nat n"
  shows "length (snd (dedupe_run c ops m)) \<le> nat n"
  using assms(1,3)
proof (induction ops arbitrary: m)
  case (Cons op ops)
  obtain w k t where op: "op = (w, k, t)" by (cases op) auto
  define m1 where "m1 = snd (if w then dedupe_check c (Some k) t m else dedupe_peek c (Some k) t m)"
  have "jm_wf m1 \<and> length m1 \<le> nat n"
  proof (cases "k = []")
    case True
    then show ?thesis using Cons.prems by (simp add: m1_def dedupe_check_def dedupe_peek_def)
  next
    case False
    then show ?thesis
      using Cons.prems check_wf check_bounded [OF _ assms(2)] order_trans [OF length_jm_del_le]
      by (auto simp: m1_def peek_result(2))
  qed
  then show ?case using Cons.IH [of m1] by (simp add: op m1_def split_def Let_def)
qed simp

section \<open>Properties\<close>

text \<open>C39: The dedupe cache never holds more than its maximal number of ids; and while no more ids than that are in
  use, with a clock that does not run backwards, its answers are those of a map that forgets nothing: an id is a duplicate
  exactly when it was checked less than one time-to-live ago (with no time-to-live: ever).\<close>

theorem dedupe_refines_last_seen:
  "length (snd (dedupe_run (createDedupeCache ttl (Fin maxSize)) ops [])) \<le> nat (max 0 \<lfloor>maxSize\<rfloor>)
   \<and> (if sorted (map op_time ops) \<and> [] \<notin> op_key ` set ops \<and> 0 < \<lfloor>maxSize\<rfloor> \<and> card (op_key ` set ops) \<le> nat \<lfloor>maxSize\<rfloor>
      then fst (dedupe_run (createDedupeCache ttl (Fin maxSize)) ops [])
         = recall_run (\<lambda>now t. 0 < ttl \<and> ttl \<le> now - t) ops (\<lambda>_. None) else True)"
proof -
  let ?c = "createDedupeCache ttl (Fin maxSize)" and ?K = "op_key ` set ops"
  have c: "dc_maxSize ?c = LimitInt (max 0 \<lfloor>maxSize\<rfloor>)" "dc_ttlMs ?c = max 0 ttl"
    by (simp_all add: createDedupeCache_def floor_max_def)
  have "fst (dedupe_run ?c ops []) = recall_run (dedupe_dead (dc_ttlMs ?c)) ops (\<lambda>_. None)"
    if "sorted (map op_time ops)" "[] \<notin> ?K" "0 < \<lfloor>maxSize\<rfloor>" "card ?K \<le> nat \<lfloor>maxSize\<rfloor>"
  proof (rule dedupe_run_recalls [of _ _ ?K])
    show "?K \<subseteq> fitting ?c ?K" using that by (auto simp: fitting_def c)
    show "dedupe.remembers ?c ?K t [] (\<lambda>_. None)" for t
      by (simp add: dedupe.remembers_def dedupe_invar_def keeps_def)
  qed (rule that(1))
  moreover have "dedupe_dead (max 0 ttl) = (\<lambda>now t. 0 < ttl \<and> ttl \<le> now - t)"
    by (auto simp: dedupe_dead_def fun_eq_iff)
  moreover have "length (snd (dedupe_run ?c ops [])) \<le> nat (max 0 \<lfloor>maxSize\<rfloor>)"
    by (rule dedupe_run_bounded [OF _ c(1)]) simp_all
  ultimately show ?thesis by (simp add: c(2))
qed

lemma scoped_run_recalls:
  assumes "sorted (map op_time ops)"
    and "\<And>t. t \<in> op_time ` set ops \<Longrightarrow> scoped.remembers ttl t s seen"
  shows "scoped_run (createScopedExpiringIdCache ttl threshold) ops s = recall_run (scoped_dead ttl) ops seen"
  using assms
proof (induction ops arbitrary: s seen)
  case (Cons op ops)
  obtain w scope i t where op: "op = (w, (scope, i), t)" by (cases op) auto
  let ?c = "createScopedExpiringIdCache ttl threshold"
  have le: "t \<le> u" if "u \<in> op_time ` set ops" for u using Cons.prems(1) that by (auto simp: op op_time_def)
  have rem: "scoped.remembers ttl t s seen" by (rule Cons.prems(2)) (simp add: op op_time_def)
  have rest: "sorted (map op_time ops)" using Cons.prems(1) by simp
  define s1 where "s1 = (if w then scoped_record ?c scope i t s else snd (scoped_has ?c scope i t s))"
  have "scoped.remembers ttl t s1 (if w then seen((scope, i) \<mapsto> t) else seen)"
    using scoped.remembers_put [OF rem TrueI, where k = "(scope, i)"] scoped.remembers_tidy [OF rem, where k = "(scope, i)"]
    by (simp add: s1_def)
  then have "scoped_run ?c ops s1 = recall_run (scoped_dead ttl) ops (if w then seen((scope, i) \<mapsto> t) else seen)"
    by (intro Cons.IH [OF rest]) (rule scoped.remembers_later, use le in auto)
  moreover have "fst (scoped_has ?c scope i t s) = alive (scoped_dead ttl) t (scoped_lookup s (scope, i))"
  proof -
    have "scoped_wf s" using rem unfolding scoped.remembers_def by (rule conjunct1)
    moreover have "(\<lambda>now t. sc_ttlMs ?c < now - t) = scoped_dead ttl"
      by (intro ext) (simp add: createScopedExpiringIdCache_def scoped_dead_def)
    ultimately show ?thesis using has_lookup(1) [of s ?c scope i t] by (simp only:)
  qed
  ultimately show ?case
    using scoped.remembers_alive [OF rem, of "(scope, i)"] by (simp add: op s1_def)
qed simp

text \<open>The scoped id cache, whatever its cleanup threshold and whenever it cleans up, answers like a map that
  forgets nothing: with a clock that does not run backwards an id is known in a scope exactly when it was recorded there
  at most one time-to-live ago.\<close>

lemma scoped_cache_refines_last_seen:
  assumes "sorted (map op_time ops)"
  shows "scoped_run (createScopedExpiringIdCache ttl threshold) ops []
    = recall_run (\<lambda>now t. max 0 ttl < now - t) ops (\<lambda>_. None)"
proof -
  have "scoped_run (createScopedExpiringIdCache ttl threshold) ops [] = recall_run (scoped_dead ttl) ops (\<lambda>_. None)"
    by (rule scoped_run_recalls [OF assms]) (simp add: scoped.remembers_def scoped_wf_def scoped_lookup_def keeps_def)
  then show ?thesis by (simp add: scoped_dead_def [abs_def])
qed

definition sample_ids :: "(bool \<times> (string \<times> string) \<times> rat) list" where
  "sample_ids = [(True, (''a'', ''1''), 0), (True, (''a'', ''2''), 5), (False, (''a'', ''1''), 10), (False, (''a'', ''1''), 11)]"

lemma scoped_cache_refines_last_seen_witness:
  "sorted (map op_time sample_ids)
   \<and> scoped_run (createScopedExpiringIdCache 10 (Fin 1)) sample_ids [] = [False, False, True, False]"
proof -
  have srt: "sorted (map op_time sample_ids)" by (simp add: sample_ids_def op_time_def)
  have "recall_run (\<lambda>now t. max 0 10 < now - t) sample_ids (\<lambda>_. None) = [False, False, True, False]"
    by (simp add: sample_ids_def alive_def)
  then show ?thesis using srt scoped_cache_refines_last_seen [OF srt, of 10 "Fin 1"] by simp
qed

end
