(* ===== verification/ApprovalManager.thy ===== *)
theory ApprovalManager
  imports JsString JsMap
begin

text \<open>
  The manager of exec approvals (src/src/gateway/exec-approval-manager.ts): pending approvals by
  id, their promises, expiry timers and the grace period of resolved entries. An entry, and its
  promise, is named by a token; timers are listed in the state and fire as operations. What
  happens to promises is emitted. The payload of a request is a type parameter; a generated id is
  an argument.
\<close>

section \<open>Records and state\<close>

datatype ExecApprovalDecision = AllowOnce | AllowAlways | Deny

record 'p ExecApprovalRecord =
  ar_id :: string
  ar_request :: 'p
  ar_createdAtMs :: int
  ar_expiresAtMs :: int
  ar_requestedByConnId :: "string option"
  ar_requestedByDeviceId :: "string option"
  ar_requestedByClientId :: "string option"
  ar_requestedByDeviceTokenAuth :: "bool option"
  ar_resolvedAtMs :: "int option"
  ar_decision :: "ExecApprovalDecision option"
  ar_consumedDecision :: "ExecApprovalDecision option"
  ar_resolvedBy :: "string option"

record 'p PendingEntry =
  pe_record :: "'p ExecApprovalRecord"
  pe_token :: nat

datatype ExecApprovalIdLookupResult =
  ExactId string | PrefixId string | AmbiguousIds "string list" | NoId

record 'p ExecApprovalManager =
  am_pending :: "(string, 'p PendingEntry) jsmap"
  am_nextToken :: nat
  am_timers :: "(nat \<times> string) list"
  am_cleanups :: "(nat \<times> string) list"

datatype ApprovalEmit = Settled nat "ExecApprovalDecision option" | Consumed nat

datatype RegisterError = AlreadyResolved string

definition new_manager :: "'p ExecApprovalManager" where
  "new_manager = \<lparr>am_pending = [], am_nextToken = 0, am_timers = [], am_cleanups = []\<rparr>"

section \<open>Operations\<close>

definition create :: "'p \<Rightarrow> int \<Rightarrow> string option \<Rightarrow> string \<Rightarrow> int \<Rightarrow> 'p ExecApprovalRecord" where
  "create request timeoutMs i randomUUID now =
    \<lparr>ar_id = (case i of None \<Rightarrow> randomUUID | Some x \<Rightarrow> if js_trim x \<noteq> [] then js_trim x else randomUUID),
     ar_request = request, ar_createdAtMs = now, ar_expiresAtMs = now + timeoutMs,
     ar_requestedByConnId = None, ar_requestedByDeviceId = None, ar_requestedByClientId = None,
     ar_requestedByDeviceTokenAuth = None, ar_resolvedAtMs = None, ar_decision = None,
     ar_consumedDecision = None, ar_resolvedBy = None\<rparr>"

text \<open>The promise returned is named by its token.\<close>

definition register :: "'p ExecApprovalRecord \<Rightarrow> 'p ExecApprovalManager \<Rightarrow> (RegisterError + nat) \<times> 'p ExecApprovalManager" where
  "register r s =
    (case jm_get (am_pending s) (ar_id r) of
       Some existing \<Rightarrow>
         if ar_resolvedAtMs (pe_record existing) = None then (Inr (pe_token existing), s)
         else (Inl (AlreadyResolved (ar_id r)), s)
     | None \<Rightarrow>
         (Inr (am_nextToken s),
          s\<lparr>am_pending := jm_set (ar_id r) \<lparr>pe_record = r, pe_token = am_nextToken s\<rparr> (am_pending s),
            am_timers := am_timers s @ [(am_nextToken s, ar_id r)],
            am_nextToken := am_nextToken s + 1\<rparr>))"

definition settle_pending ::
  "string \<Rightarrow> ExecApprovalDecision option \<Rightarrow> string option \<Rightarrow> int \<Rightarrow> 'p ExecApprovalManager
    \<Rightarrow> bool \<times> 'p ExecApprovalManager \<times> ApprovalEmit list" where
  "settle_pending recordId decision resolvedBy now s =
    (case jm_get (am_pending s) recordId of
       None \<Rightarrow> (False, s, [])
     | Some p \<Rightarrow>
         if ar_resolvedAtMs (pe_record p) \<noteq> None then (False, s, [])
         else
          (let r = (pe_record p)\<lparr>ar_resolvedAtMs := Some now, ar_decision := decision, ar_resolvedBy := resolvedBy\<rparr> in
           (True,
            s\<lparr>am_pending := jm_set recordId (p\<lparr>pe_record := r\<rparr>) (am_pending s),
              am_timers := filter (\<lambda>x. fst x \<noteq> pe_token p) (am_timers s),
              am_cleanups := am_cleanups s @ [(pe_token p, recordId)]\<rparr>,
            [Settled (pe_token p) decision])))"

definition resolve_approval ::
  "string \<Rightarrow> ExecApprovalDecision \<Rightarrow> string option \<Rightarrow> int \<Rightarrow> 'p ExecApprovalManager
    \<Rightarrow> bool \<times> 'p ExecApprovalManager \<times> ApprovalEmit list" where
  "resolve_approval recordId decision resolvedBy now s = settle_pending recordId (Some decision) resolvedBy now s"

definition expire ::
  "string \<Rightarrow> string option \<Rightarrow> int \<Rightarrow> 'p ExecApprovalManager \<Rightarrow> bool \<times> 'p ExecApprovalManager \<times> ApprovalEmit list" where
  "expire recordId resolvedBy now s = settle_pending recordId None resolvedBy now s"

text \<open>The expiry timer of an entry fires, and the timer that ends the grace period.\<close>

definition fire_expiry :: "nat \<Rightarrow> int \<Rightarrow> 'p ExecApprovalManager \<Rightarrow> 'p ExecApprovalManager \<times> ApprovalEmit list" where
  "fire_expiry token now s =
    (case find (\<lambda>x. fst x = token) (am_timers s) of
       None \<Rightarrow> (s, [])
     | Some (tk, recordId) \<Rightarrow>
         snd (expire recordId None now (s\<lparr>am_timers := filter (\<lambda>x. fst x \<noteq> token) (am_timers s)\<rparr>)))"

definition scheduleResolvedEntryCleanup :: "nat \<Rightarrow> 'p ExecApprovalManager \<Rightarrow> 'p ExecApprovalManager" where
  "scheduleResolvedEntryCleanup token s =
    (case find (\<lambda>x. fst x = token) (am_cleanups s) of
       None \<Rightarrow> s
     | Some (tk, recordId) \<Rightarrow>
         (let s = s\<lparr>am_cleanups := filter (\<lambda>x. fst x \<noteq> token) (am_cleanups s)\<rparr> in
          if map_option pe_token (jm_get (am_pending s) recordId) = Some token
          then s\<lparr>am_pending := jm_del recordId (am_pending s)\<rparr> else s))"

definition consumeAllowOnce :: "string \<Rightarrow> 'p ExecApprovalManager \<Rightarrow> bool \<times> 'p ExecApprovalManager \<times> ApprovalEmit list" where
  "consumeAllowOnce recordId s =
    (case jm_get (am_pending s) recordId of
       None \<Rightarrow> (False, s, [])
     | Some p \<Rightarrow>
         if ar_decision (pe_record p) \<noteq> Some AllowOnce then (False, s, [])
         else
          (let r = (pe_record p)\<lparr>ar_consumedDecision := ar_decision (pe_record p), ar_decision := None\<rparr> in
           (True, s\<lparr>am_pending := jm_set recordId (p\<lparr>pe_record := r\<rparr>) (am_pending s)\<rparr>, [Consumed (pe_token p)])))"

section \<open>Reads\<close>

definition getSnapshot :: "string \<Rightarrow> 'p ExecApprovalManager \<Rightarrow> 'p ExecApprovalRecord option" where
  "getSnapshot recordId s = map_option pe_record (jm_get (am_pending s) recordId)"

definition listPendingRecords :: "'p ExecApprovalManager \<Rightarrow> 'p ExecApprovalRecord list" where
  "listPendingRecords s = filter (\<lambda>r. ar_resolvedAtMs r = None) (map pe_record (jm_values (am_pending s)))"

definition awaitDecision :: "string \<Rightarrow> 'p ExecApprovalManager \<Rightarrow> nat option" where
  "awaitDecision recordId s = map_option pe_token (jm_get (am_pending s) recordId)"

definition lookup_visible :: "bool \<Rightarrow> ('p ExecApprovalRecord \<Rightarrow> bool) option \<Rightarrow> 'p PendingEntry \<Rightarrow> bool" where
  "lookup_visible includeResolved flt p \<longleftrightarrow>
    (includeResolved \<or> ar_resolvedAtMs (pe_record p) = None) \<and> (case flt of None \<Rightarrow> True | Some f \<Rightarrow> f (pe_record p))"

definition lookupApprovalId ::
  "string \<Rightarrow> bool \<Rightarrow> ('p ExecApprovalRecord \<Rightarrow> bool) option \<Rightarrow> 'p ExecApprovalManager \<Rightarrow> ExecApprovalIdLookupResult" where
  "lookupApprovalId input includeResolved flt s =
    (let normalized = js_trim input in
     if normalized = [] then NoId
     else (case jm_get (am_pending s) normalized of
        Some exact \<Rightarrow> if lookup_visible includeResolved flt exact then ExactId normalized else NoId
      | None \<Rightarrow>
         (let lowerPrefix = normalizeLowercaseStringOrEmpty (Some normalized);
              matches = map fst (filter (\<lambda>(i, p). lookup_visible includeResolved flt p
                \<and> starts_with (normalizeLowercaseStringOrEmpty (Some i)) lowerPrefix) (am_pending s))
          in case matches of [] \<Rightarrow> NoId | [i] \<Rightarrow> PrefixId i | _ \<Rightarrow> AmbiguousIds matches)))"

definition lookupPendingId :: "string \<Rightarrow> 'p ExecApprovalManager \<Rightarrow> ExecApprovalIdLookupResult" where
  "lookupPendingId input s = lookupApprovalId input False None s"

section \<open>Runs\<close>

text \<open>Requests are created and registered; decisions, consumptions, explicit expiries and timers
  interleave with them.\<close>

datatype 'p ApprovalOp =
  ApRequest 'p int "string option" string int
| ApResolve string ExecApprovalDecision "string option" int
| ApExpire string "string option" int
| ApConsume string
| ApExpiryTimer nat int
| ApCleanupTimer nat

fun approval_op :: "'p ApprovalOp \<Rightarrow> 'p ExecApprovalManager \<Rightarrow> 'p ExecApprovalManager \<times> ApprovalEmit list" where
  "approval_op (ApRequest request timeoutMs i uuid now) s = (snd (register (create request timeoutMs i uuid now) s), [])"
| "approval_op (ApResolve i d who now) s = snd (resolve_approval i d who now s)"
| "approval_op (ApExpire i who now) s = snd (expire i who now s)"
| "approval_op (ApConsume i) s = snd (consumeAllowOnce i s)"
| "approval_op (ApExpiryTimer token now) s = fire_expiry token now s"
| "approval_op (ApCleanupTimer token) s = (scheduleResolvedEntryCleanup token s, [])"

fun approval_run :: "'p ApprovalOp list \<Rightarrow> 'p ExecApprovalManager \<Rightarrow> 'p ExecApprovalManager \<times> ApprovalEmit list" where
  "approval_run [] s = (s, [])"
| "approval_run (op # ops) s =
     (let (s, e) = approval_op op s; (s, es) = approval_run ops s in (s, e @ es))"

fun settled_tokens :: "ApprovalEmit list \<Rightarrow> nat list" where
  "settled_tokens [] = []"
| "settled_tokens (Settled t d # es) = t # settled_tokens es"
| "settled_tokens (Consumed t # es) = settled_tokens es"

fun consumed_tokens :: "ApprovalEmit list \<Rightarrow> nat list" where
  "consumed_tokens [] = []"
| "consumed_tokens (Settled t d # es) = consumed_tokens es"
| "consumed_tokens (Consumed t # es) = t # consumed_tokens es"

section \<open>The invariant\<close>

lemma settled_tokens_append [simp]: "settled_tokens (xs @ ys) = settled_tokens xs @ settled_tokens ys"
  by (induction xs rule: settled_tokens.induct) auto

lemma consumed_tokens_append [simp]: "consumed_tokens (xs @ ys) = consumed_tokens xs @ consumed_tokens ys"
  by (induction xs rule: consumed_tokens.induct) auto

lemma settled_tokens_set: "t \<in> set (settled_tokens log) \<longleftrightarrow> (\<exists>d. Settled t d \<in> set log)"
  by (induction log rule: settled_tokens.induct) auto

definition pend :: "'p ExecApprovalManager \<Rightarrow> string \<Rightarrow> 'p PendingEntry option" where
  "pend s i = jm_get (am_pending s) i"

definition unresolved :: "'p PendingEntry \<Rightarrow> bool" where
  "unresolved p \<longleftrightarrow> ar_resolvedAtMs (pe_record p) = None"

definition entry_ok :: "nat \<Rightarrow> (nat \<times> string) list \<Rightarrow> ApprovalEmit list \<Rightarrow> string \<Rightarrow> 'p PendingEntry \<Rightarrow> bool" where
  "entry_ok next timers log i p \<longleftrightarrow> pe_token p < next \<and>
    (if unresolved p
     then ar_decision (pe_record p) = None \<and> (pe_token p, i) \<in> set timers \<and> pe_token p \<notin> set (settled_tokens log)
     else pe_token p \<in> set (settled_tokens log)
       \<and> (case ar_decision (pe_record p) of None \<Rightarrow> True
          | Some d \<Rightarrow> Settled (pe_token p) (Some d) \<in> set log \<and> (d = AllowOnce \<longrightarrow> pe_token p \<notin> set (consumed_tokens log))))"

definition approval_inv :: "'p ExecApprovalManager \<Rightarrow> ApprovalEmit list \<Rightarrow> bool" where
  "approval_inv s log \<longleftrightarrow> jm_wf (am_pending s)
     \<and> (\<forall>i p. pend s i = Some p \<longrightarrow> entry_ok (am_nextToken s) (am_timers s) log i p)
     \<and> (\<forall>i j p q. pend s i = Some p \<longrightarrow> pend s j = Some q \<longrightarrow> pe_token p = pe_token q \<longrightarrow> i = j)
     \<and> (\<forall>t i. (t, i) \<in> set (am_timers s) \<longrightarrow> (\<exists>p. pend s i = Some p \<and> pe_token p = t \<and> unresolved p))
     \<and> distinct (settled_tokens log) \<and> distinct (consumed_tokens log)
     \<and> (\<forall>t \<in> set (consumed_tokens log). Settled t (Some AllowOnce) \<in> set log)
     \<and> (\<forall>t \<in> set (settled_tokens log). t < am_nextToken s)
     \<and> (\<forall>t < am_nextToken s. t \<in> set (settled_tokens log) \<or> (\<exists>i p. pend s i = Some p \<and> pe_token p = t \<and> unresolved p))"

lemma approval_inv_start: "approval_inv new_manager []"
  by (simp add: approval_inv_def new_manager_def pend_def)

lemma approval_invD:
  assumes "approval_inv s log"
  shows "jm_wf (am_pending s)"
    and "pend s i = Some p \<Longrightarrow> entry_ok (am_nextToken s) (am_timers s) log i p"
    and "pend s i = Some p \<Longrightarrow> pend s j = Some q \<Longrightarrow> pe_token p = pe_token q \<Longrightarrow> i = j"
    and "(t, i) \<in> set (am_timers s) \<Longrightarrow> \<exists>p. pend s i = Some p \<and> pe_token p = t \<and> unresolved p"
    and "distinct (settled_tokens log)" "distinct (consumed_tokens log)"
    and "t \<in> set (consumed_tokens log) \<Longrightarrow> Settled t (Some AllowOnce) \<in> set log"
    and "t \<in> set (settled_tokens log) \<Longrightarrow> t < am_nextToken s"
    and "t < am_nextToken s \<Longrightarrow> t \<in> set (settled_tokens log) \<or> (\<exists>i p. pend s i = Some p \<and> pe_token p = t \<and> unresolved p)"
  using assms unfolding approval_inv_def by blast+

text \<open>Two entries never share a token, so an entry whose token a change names is the changed one.\<close>

lemma register_inv:
  assumes inv: "approval_inv s log" and r: "ar_resolvedAtMs r = None" "ar_decision r = None"
  shows "approval_inv (snd (register r s)) log"
proof (cases "pend s (ar_id r)")
  case (Some p)
  then show ?thesis using inv by (simp add: register_def pend_def)
next
  case None
  define t where "t = s\<lparr>am_pending := jm_set (ar_id r) \<lparr>pe_record = r, pe_token = am_nextToken s\<rparr> (am_pending s),
      am_timers := am_timers s @ [(am_nextToken s, ar_id r)], am_nextToken := am_nextToken s + 1\<rparr>"
  have t: "snd (register r s) = t" using None by (simp add: register_def pend_def t_def)
  have get: "pend t i = (if i = ar_id r then Some \<lparr>pe_record = r, pe_token = am_nextToken s\<rparr> else pend s i)" for i
    by (simp add: t_def pend_def)
  have sel: "am_nextToken t = am_nextToken s + 1" "am_timers t = am_timers s @ [(am_nextToken s, ar_id r)]"
    by (simp_all add: t_def)
  have small: "pe_token p < am_nextToken s" if "pend s i = Some p" for i p
    using approval_invD(2) [OF inv that] by (simp add: entry_ok_def)
  have fresh: "am_nextToken s \<notin> set (settled_tokens log)" using approval_invD(8) [OF inv] by blast
  show ?thesis unfolding t approval_inv_def
  proof (intro conjI allI impI ballI)
    show "jm_wf (am_pending t)" using approval_invD(1) [OF inv] by (simp add: t_def)
    show "entry_ok (am_nextToken t) (am_timers t) log i p" if "pend t i = Some p" for i p
      using that approval_invD(2) [OF inv, of i p] fresh r
      by (auto simp: get sel entry_ok_def unresolved_def split: if_splits)
    show "i = j" if "pend t i = Some p" "pend t j = Some q" "pe_token p = pe_token q" for i j p q
      using that small [of i p] small [of j q] approval_invD(3) [OF inv, of i p j q] by (auto simp: get split: if_splits)
    show "\<exists>p. pend t i = Some p \<and> pe_token p = tk \<and> unresolved p" if "(tk, i) \<in> set (am_timers t)" for tk i
      using that approval_invD(4) [OF inv, of tk i] None r by (auto simp: get sel unresolved_def)
    show "distinct (settled_tokens log)" "distinct (consumed_tokens log)" using approval_invD(5,6) [OF inv] .
    show "Settled tk (Some AllowOnce) \<in> set log" if "tk \<in> set (consumed_tokens log)" for tk
      by (rule approval_invD(7) [OF inv that])
    show "tk < am_nextToken t" if "tk \<in> set (settled_tokens log)" for tk
      using approval_invD(8) [OF inv that] by (simp add: sel)
    show "tk \<in> set (settled_tokens log) \<or> (\<exists>i p. pend t i = Some p \<and> pe_token p = tk \<and> unresolved p)"
      if "tk < am_nextToken t" for tk
    proof (cases "tk = am_nextToken s")
      case True
      then show ?thesis using r by (intro disjI2 exI [of _ "ar_id r"]) (simp add: get unresolved_def)
    next
      case False
      then have "tk < am_nextToken s" using that by (simp add: sel)
      from approval_invD(9) [OF inv this] show ?thesis
      proof
        assume "\<exists>i p. pend s i = Some p \<and> pe_token p = tk \<and> unresolved p"
        then obtain i p where "pend s i = Some p" "pe_token p = tk" "unresolved p" by blast
        then show ?thesis using None by (intro disjI2 exI [of _ i] exI [of _ p]) (auto simp: get)
      qed simp
    qed
  qed
qed

lemma settle_inv:
  assumes inv: "approval_inv s log" and res: "settle_pending i d who now s = (ok, t, em)"
  shows "approval_inv t (log @ em)"
proof (cases "\<exists>p. pend s i = Some p \<and> unresolved p")
  case False
  then have "t = s \<and> em = []" using res by (auto simp: settle_pending_def pend_def unresolved_def split: option.splits)
  then show ?thesis using inv by simp
next
  case True
  then obtain p where p: "pend s i = Some p" "unresolved p" by blast
  define p' where "p' = p\<lparr>pe_record := (pe_record p)\<lparr>ar_resolvedAtMs := Some now, ar_decision := d, ar_resolvedBy := who\<rparr>\<rparr>"
  have t: "t = s\<lparr>am_pending := jm_set i p' (am_pending s), am_timers := filter (\<lambda>x. fst x \<noteq> pe_token p) (am_timers s),
      am_cleanups := am_cleanups s @ [(pe_token p, i)]\<rparr>" and em: "em = [Settled (pe_token p) d]"
    using res p by (simp_all add: settle_pending_def pend_def unresolved_def p'_def Let_def)
  have get: "pend t j = (if j = i then Some p' else pend s j)" for j by (simp add: t pend_def)
  have p': "pe_token p' = pe_token p" "\<not> unresolved p'" "ar_decision (pe_record p') = d"
    by (simp_all add: p'_def unresolved_def)
  have ok: "entry_ok (am_nextToken s) (am_timers s) log i p" by (rule approval_invD(2) [OF inv p(1)])
  have uniq: "pe_token q \<noteq> pe_token p" if "pend s j = Some q" "j \<noteq> i" for j q
    using approval_invD(3) [OF inv that(1) p(1)] that(2) by blast
  have new: "pe_token p \<notin> set (settled_tokens log)" "pe_token p < am_nextToken s"
    using ok p(2) by (simp_all add: entry_ok_def)
  then have unconsumed: "pe_token p \<notin> set (consumed_tokens log)"
    using approval_invD(7) [OF inv] by (auto simp: settled_tokens_set)
  show ?thesis unfolding approval_inv_def
  proof (intro conjI allI impI ballI)
    show "jm_wf (am_pending t)" using approval_invD(1) [OF inv] by (simp add: t)
    show "entry_ok (am_nextToken t) (am_timers t) (log @ em) j q" if "pend t j = Some q" for j q
    proof (cases "j = i")
      case True
      then have "q = p'" using that by (simp add: get)
      then show ?thesis using new unconsumed p' True by (auto simp: em entry_ok_def t split: option.splits)
    next
      case False
      then have q: "pend s j = Some q" using that by (simp add: get)
      show ?thesis using approval_invD(2) [OF inv q] uniq [OF q False]
        by (auto simp: entry_ok_def em t split: option.splits if_splits)
    qed
    show "j = k" if "pend t j = Some q" "pend t k = Some u" "pe_token q = pe_token u" for j k q u
      using that uniq [of j q] uniq [of k u] approval_invD(3) [OF inv, of j q k u] p' by (auto simp: get split: if_splits)
    show "\<exists>q. pend t j = Some q \<and> pe_token q = tk \<and> unresolved q" if "(tk, j) \<in> set (am_timers t)" for tk j
    proof -
      have "(tk, j) \<in> set (am_timers s)" "tk \<noteq> pe_token p" using that by (auto simp: t)
      then obtain q where "pend s j = Some q" "pe_token q = tk" "unresolved q" using approval_invD(4) [OF inv] by blast
      then show ?thesis using \<open>tk \<noteq> pe_token p\<close> p(1) by (intro exI [of _ q]) (auto simp: get)
    qed
    show "distinct (settled_tokens (log @ em))" "distinct (consumed_tokens (log @ em))"
      using approval_invD(5,6) [OF inv] new by (simp_all add: em)
    show "Settled tk (Some AllowOnce) \<in> set (log @ em)" if "tk \<in> set (consumed_tokens (log @ em))" for tk
      using approval_invD(7) [OF inv, of tk] that by (simp add: em)
    show "tk < am_nextToken t" if "tk \<in> set (settled_tokens (log @ em))" for tk
      using approval_invD(8) [OF inv, of tk] that new(2) by (auto simp: em t)
    show "tk \<in> set (settled_tokens (log @ em)) \<or> (\<exists>j q. pend t j = Some q \<and> pe_token q = tk \<and> unresolved q)"
      if "tk < am_nextToken t" for tk
    proof (cases "tk = pe_token p")
      case False
      have "tk < am_nextToken s" using that by (simp add: t)
      from approval_invD(9) [OF inv this] show ?thesis
      proof
        assume "\<exists>j q. pend s j = Some q \<and> pe_token q = tk \<and> unresolved q"
        then obtain j q where "pend s j = Some q" "pe_token q = tk" "unresolved q" by blast
        then show ?thesis using False p(1) by (intro disjI2 exI [of _ j] exI [of _ q]) (auto simp: get)
      qed simp
    qed (simp add: em)
  qed
qed

lemma drop_timer_settle:
  assumes inv: "approval_inv s log" and tm: "(tk, i) \<in> set (am_timers s)"
  shows "settle_pending i d who now (s\<lparr>am_timers := filter (\<lambda>x. fst x \<noteq> tk) (am_timers s)\<rparr>) = settle_pending i d who now s"
proof -
  obtain p where p: "pend s i = Some p" "pe_token p = tk" "unresolved p" using approval_invD(4) [OF inv tm] by blast
  then show ?thesis by (simp add: settle_pending_def pend_def unresolved_def Let_def)
qed

lemma expiry_inv:
  assumes inv: "approval_inv s log" and res: "fire_expiry tk now s = (t, em)"
  shows "approval_inv t (log @ em)"
proof (cases "find (\<lambda>x. fst x = tk) (am_timers s)")
  case None
  then show ?thesis using res inv by (simp add: fire_expiry_def)
next
  case (Some x)
  obtain i where x: "x = (tk, i)" using find_SomeD [OF Some] by (cases x) auto
  have tm: "(tk, i) \<in> set (am_timers s)" using find_SomeD [OF Some] x by simp
  have "fire_expiry tk now s = snd (settle_pending i None None now s)"
    using Some x drop_timer_settle [OF inv tm] by (simp add: fire_expiry_def expire_def)
  then show ?thesis using settle_inv [OF inv] res by (metis prod.collapse)
qed

lemma cleanup_inv:
  assumes inv: "approval_inv s log" and cl: "\<And>tk i. (tk, i) \<in> set (am_cleanups s) \<Longrightarrow> tk \<in> set (settled_tokens log)"
  shows "approval_inv (scheduleResolvedEntryCleanup tk s) log"
proof -
  define s1 where "s1 = s\<lparr>am_cleanups := filter (\<lambda>x. fst x \<noteq> tk) (am_cleanups s)\<rparr>"
  have inv1: "approval_inv s1 log" using inv by (simp add: s1_def approval_inv_def pend_def)
  show ?thesis
  proof (cases "find (\<lambda>x. fst x = tk) (am_cleanups s)")
    case None
    then show ?thesis using inv by (simp add: scheduleResolvedEntryCleanup_def)
  next
    case (Some x)
    obtain i where x: "x = (tk, i)" using find_SomeD [OF Some] by (cases x) auto
    have settled: "tk \<in> set (settled_tokens log)" using find_SomeD [OF Some] x cl by simp
    show ?thesis
    proof (cases "map_option pe_token (pend s i) = Some tk")
      case False
      then have "map_option pe_token (jm_get (am_pending s) i) \<noteq> Some tk" by (simp add: pend_def)
      then have "scheduleResolvedEntryCleanup tk s = s1"
        using Some x by (auto simp: scheduleResolvedEntryCleanup_def s1_def Let_def)
      then show ?thesis using inv1 by simp
    next
      case True
      then obtain p where p: "pend s1 i = Some p" "pe_token p = tk" by (auto simp: s1_def pend_def)
      have np: "\<not> unresolved p" using approval_invD(2) [OF inv1 p(1)] settled p(2) by (auto simp: entry_ok_def)
      define t where "t = s1\<lparr>am_pending := jm_del i (am_pending s1)\<rparr>"
      have t: "scheduleResolvedEntryCleanup tk s = t"
        using Some x True by (simp add: scheduleResolvedEntryCleanup_def s1_def pend_def t_def Let_def)
      have get: "pend t j = (if j = i then None else pend s1 j)" for j by (simp add: t_def pend_def)
      have sel: "am_nextToken t = am_nextToken s1" "am_timers t = am_timers s1" by (simp_all add: t_def)
      have keep: "pend t j = Some q" if "pend s1 j = Some q" "unresolved q" for j q
        using that p(1) np by (auto simp: get)
      show ?thesis unfolding t approval_inv_def sel
      proof (intro conjI allI impI ballI)
        show "jm_wf (am_pending t)" using approval_invD(1) [OF inv1] by (simp add: t_def)
        show "entry_ok (am_nextToken s1) (am_timers s1) log j q" if "pend t j = Some q" for j q
          using approval_invD(2) [OF inv1, of j q] that by (simp add: get split: if_splits)
        show "j = k" if "pend t j = Some q" "pend t k = Some u" "pe_token q = pe_token u" for j k q u
          using approval_invD(3) [OF inv1, of j q k u] that by (simp add: get split: if_splits)
        show "\<exists>q. pend t j = Some q \<and> pe_token q = u \<and> unresolved q" if "(u, j) \<in> set (am_timers s1)" for u j
          using approval_invD(4) [OF inv1 that] keep by blast
        show "u \<in> set (settled_tokens log) \<or> (\<exists>j q. pend t j = Some q \<and> pe_token q = u \<and> unresolved q)"
          if "u < am_nextToken s1" for u
          using approval_invD(9) [OF inv1 that] keep by blast
      qed (use approval_invD [OF inv1] in auto)
    qed
  qed
qed

lemma consume_inv:
  assumes inv: "approval_inv s log" and res: "consumeAllowOnce i s = (ok, t, em)"
  shows "approval_inv t (log @ em)"
proof (cases "\<exists>p. pend s i = Some p \<and> ar_decision (pe_record p) = Some AllowOnce")
  case False
  then have "t = s \<and> em = []" using res by (auto simp: consumeAllowOnce_def pend_def split: option.splits if_splits)
  then show ?thesis using inv by simp
next
  case True
  then obtain p where p: "pend s i = Some p" "ar_decision (pe_record p) = Some AllowOnce" by blast
  define p' where "p' = p\<lparr>pe_record := (pe_record p)\<lparr>ar_consumedDecision := Some AllowOnce, ar_decision := None\<rparr>\<rparr>"
  have t: "t = s\<lparr>am_pending := jm_set i p' (am_pending s)\<rparr>" and em: "em = [Consumed (pe_token p)]"
    using res p by (simp_all add: consumeAllowOnce_def pend_def p'_def Let_def)
  have get: "pend t j = (if j = i then Some p' else pend s j)" for j by (simp add: t pend_def)
  have sel: "am_nextToken t = am_nextToken s" "am_timers t = am_timers s" by (simp_all add: t)
  have p': "pe_token p' = pe_token p" "unresolved p' = unresolved p" "ar_decision (pe_record p') = None"
    by (simp_all add: p'_def unresolved_def)
  have ok: "entry_ok (am_nextToken s) (am_timers s) log i p" by (rule approval_invD(2) [OF inv p(1)])
  have np: "\<not> unresolved p" using ok p(2) by (auto simp: entry_ok_def)
  have once: "Settled (pe_token p) (Some AllowOnce) \<in> set log" "pe_token p \<notin> set (consumed_tokens log)"
    "pe_token p \<in> set (settled_tokens log)" "pe_token p < am_nextToken s"
    using ok p(2) np by (auto simp: entry_ok_def)
  have uniq: "pe_token q \<noteq> pe_token p" if "pend s j = Some q" "j \<noteq> i" for j q
    using approval_invD(3) [OF inv that(1) p(1)] that(2) by blast
  show ?thesis unfolding approval_inv_def sel
  proof (intro conjI allI impI ballI)
    show "jm_wf (am_pending t)" using approval_invD(1) [OF inv] by (simp add: t)
    show "entry_ok (am_nextToken s) (am_timers s) (log @ em) j q" if "pend t j = Some q" for j q
    proof (cases "j = i")
      case True
      then have "q = p'" using that by (simp add: get)
      then show ?thesis using once np p' by (simp add: em entry_ok_def)
    next
      case False
      then have q: "pend s j = Some q" using that by (simp add: get)
      show ?thesis using approval_invD(2) [OF inv q] uniq [OF q False]
        by (auto simp: entry_ok_def em split: option.splits if_splits)
    qed
    show "j = k" if "pend t j = Some q" "pend t k = Some u" "pe_token q = pe_token u" for j k q u
      using that uniq [of j q] uniq [of k u] approval_invD(3) [OF inv, of j q k u] p' by (auto simp: get split: if_splits)
    show "\<exists>q. pend t j = Some q \<and> pe_token q = tk \<and> unresolved q" if "(tk, j) \<in> set (am_timers s)" for tk j
    proof -
      have "\<exists>q. pend s j = Some q \<and> pe_token q = tk \<and> unresolved q" by (rule approval_invD(4) [OF inv that])
      then obtain q where "pend s j = Some q" "pe_token q = tk" "unresolved q" by blast
      then show ?thesis using p(1) np by (intro exI [of _ q]) (auto simp: get)
    qed
    show "distinct (settled_tokens (log @ em))" "distinct (consumed_tokens (log @ em))"
      using approval_invD(5,6) [OF inv] once by (simp_all add: em)
    show "Settled tk (Some AllowOnce) \<in> set (log @ em)" if "tk \<in> set (consumed_tokens (log @ em))" for tk
      using approval_invD(7) [OF inv, of tk] once(1) that by (auto simp: em)
    show "tk < am_nextToken s" if "tk \<in> set (settled_tokens (log @ em))" for tk
      using approval_invD(8) [OF inv, of tk] that by (simp add: em)
    show "tk \<in> set (settled_tokens (log @ em)) \<or> (\<exists>j q. pend t j = Some q \<and> pe_token q = tk \<and> unresolved q)"
      if "tk < am_nextToken s" for tk
      using approval_invD(9) [OF inv that]
    proof
      assume "\<exists>j q. pend s j = Some q \<and> pe_token q = tk \<and> unresolved q"
      then obtain j q where "pend s j = Some q" "pe_token q = tk" "unresolved q" by blast
      then show ?thesis using p(1) np by (intro disjI2 exI [of _ j] exI [of _ q]) (auto simp: get)
    qed (simp add: em)
  qed
qed

text \<open>Cleanups are only scheduled for settled entries.\<close>

definition cleanups_ok :: "'p ExecApprovalManager \<Rightarrow> ApprovalEmit list \<Rightarrow> bool" where
  "cleanups_ok s log \<longleftrightarrow> (\<forall>(tk, i) \<in> set (am_cleanups s). tk \<in> set (settled_tokens log))"

lemma settle_cleanups:
  "cleanups_ok s log \<Longrightarrow> settle_pending i d who now s = (ok, t, em) \<Longrightarrow> cleanups_ok t (log @ em)"
  by (auto simp: cleanups_ok_def settle_pending_def Let_def split: option.splits if_splits)

lemma op_inv:
  assumes inv: "approval_inv s log" and cl: "cleanups_ok s log" and op: "approval_op op s = (t, em)"
  shows "approval_inv t (log @ em) \<and> cleanups_ok t (log @ em)"
proof (cases op)
  case (ApRequest request timeoutMs i uuid now)
  let ?r = "create request timeoutMs i uuid now"
  have t: "t = snd (register ?r s)" "em = []" using op by (simp_all add: ApRequest)
  have "approval_inv t log" unfolding t by (rule register_inv [OF inv]) (simp_all add: create_def)
  moreover have "cleanups_ok t log" using cl unfolding t by (auto simp: register_def cleanups_ok_def split: option.splits)
  ultimately show ?thesis by (simp add: t)
next
  case (ApResolve i d who now)
  then have "settle_pending i (Some d) who now s = (fst (settle_pending i (Some d) who now s), t, em)"
    using op by (simp add: resolve_approval_def prod_eq_iff)
  then show ?thesis using settle_inv [OF inv] settle_cleanups [OF cl] by blast
next
  case (ApExpire i who now)
  then have "settle_pending i None who now s = (fst (settle_pending i None who now s), t, em)"
    using op by (simp add: expire_def prod_eq_iff)
  then show ?thesis using settle_inv [OF inv] settle_cleanups [OF cl] by blast
next
  case (ApConsume i)
  then have c: "consumeAllowOnce i s = (fst (consumeAllowOnce i s), t, em)" using op by (simp add: prod_eq_iff)
  moreover have "cleanups_ok t (log @ em)" using c cl
    by (auto simp: consumeAllowOnce_def cleanups_ok_def Let_def split: option.splits if_splits)
  ultimately show ?thesis using consume_inv [OF inv] by blast
next
  case (ApExpiryTimer tk now)
  then have f: "fire_expiry tk now s = (t, em)" using op by simp
  have "cleanups_ok t (log @ em)"
  proof (cases "find (\<lambda>x. fst x = tk) (am_timers s)")
    case None
    then show ?thesis using f cl by (simp add: fire_expiry_def)
  next
    case (Some x)
    let ?s = "s\<lparr>am_timers := filter (\<lambda>x. fst x \<noteq> tk) (am_timers s)\<rparr>"
    have "settle_pending (snd x) None None now ?s = (fst (settle_pending (snd x) None None now ?s), t, em)"
      using f Some by (cases x) (simp add: fire_expiry_def expire_def prod_eq_iff)
    moreover have "cleanups_ok ?s log" using cl by (simp add: cleanups_ok_def)
    ultimately show ?thesis using settle_cleanups by blast
  qed
  then show ?thesis using expiry_inv [OF inv f] by blast
next
  case (ApCleanupTimer tk)
  then have t: "t = scheduleResolvedEntryCleanup tk s" "em = []" using op by simp_all
  have "approval_inv t log" unfolding t by (rule cleanup_inv [OF inv]) (use cl in \<open>auto simp: cleanups_ok_def\<close>)
  moreover have "cleanups_ok t log" using cl unfolding t
    by (auto simp: scheduleResolvedEntryCleanup_def cleanups_ok_def Let_def split: option.splits)
  ultimately show ?thesis by (simp add: t)
qed

text \<open>The manager with the record of what it emitted, as a transition system.\<close>

inductive approval_step ::
  "'p ExecApprovalManager \<times> ApprovalEmit list \<Rightarrow> 'p ExecApprovalManager \<times> ApprovalEmit list \<Rightarrow> bool" where
  approval_stepI: "approval_op op s = (t, em) \<Longrightarrow> approval_step (s, log) (t, log @ em)"

inductive_cases approval_stepE: "approval_step x y"

definition approval_start :: "'p ExecApprovalManager \<times> ApprovalEmit list \<Rightarrow> bool" where
  "approval_start x \<longleftrightarrow> x = (new_manager, [])"

definition approval_ok :: "'p ExecApprovalManager \<times> ApprovalEmit list \<Rightarrow> bool" where
  "approval_ok x \<longleftrightarrow> approval_inv (fst x) (snd x) \<and> cleanups_ok (fst x) (snd x)"

interpretation approvals: transition_system approval_start approval_step approval_ok
proof
  show "approval_start x \<Longrightarrow> approval_ok x" for x :: "'p ExecApprovalManager \<times> ApprovalEmit list"
    by (simp add: approval_start_def approval_ok_def approval_inv_start) (simp add: cleanups_ok_def new_manager_def)
  show "approval_ok x \<Longrightarrow> approval_step x y \<Longrightarrow> approval_ok y" for x y :: "'p ExecApprovalManager \<times> ApprovalEmit list"
    by (erule approval_stepE) (auto simp: approval_ok_def dest: op_inv)
qed

lemma run_reachable:
  "reachable_from approval_start approval_step (s, log) \<Longrightarrow> approval_run ops s = (t, em) \<Longrightarrow>
   reachable_from approval_start approval_step (t, log @ em)"
proof (induction ops arbitrary: s t log em)
  case (Cons op ops)
  obtain s1 e1 where op: "approval_op op s = (s1, e1)" by force
  obtain t' e2 where run: "approval_run ops s1 = (t', e2)" by force
  have te: "t = t'" "em = e1 @ e2" using Cons.prems(2) by (simp_all add: op run)
  have "reachable_from approval_start approval_step (s1, log @ e1)"
    by (rule reach_step [OF Cons.prems(1) approval_stepI [OF op]])
  from Cons.IH [OF this run] show ?case by (simp add: te)
qed simp

lemma run_from_new: "approval_run ops new_manager = (t, em) \<Longrightarrow> approval_inv t em"
proof -
  assume run: "approval_run ops new_manager = (t, em)"
  have "reachable_from approval_start approval_step (new_manager, [])"
    by (rule reach_start) (simp add: approval_start_def)
  from run_reachable [OF this run] have "reachable_from approval_start approval_step (t, em)" by simp
  then show ?thesis using approvals.reachable_inv by (fastforce simp: approval_ok_def)
qed

section \<open>Liveness\<close>

fun fire_all :: "nat list \<Rightarrow> int \<Rightarrow> 'p ExecApprovalManager \<Rightarrow> 'p ExecApprovalManager \<times> ApprovalEmit list" where
  "fire_all [] now s = (s, [])"
| "fire_all (tk # tks) now s = (let (s, e) = fire_expiry tk now s; (s, es) = fire_all tks now s in (s, e @ es))"

lemma fire_settles:
  assumes inv: "approval_inv s log" and f: "fire_expiry tk now s = (t, em)"
  shows "tk \<notin> fst ` set (am_timers t) \<and> set (am_timers t) \<subseteq> set (am_timers s) \<and> am_nextToken t = am_nextToken s"
proof (cases "find (\<lambda>x. fst x = tk) (am_timers s)")
  case None
  then have "\<forall>x \<in> set (am_timers s). fst x \<noteq> tk" using find_NoneD by fast
  then show ?thesis using f None by (auto simp: fire_expiry_def)
next
  case (Some x)
  then show ?thesis using f
    by (cases x) (auto simp: fire_expiry_def expire_def settle_pending_def Let_def split: option.splits if_splits)
qed

lemma fire_all_settles:
  "approval_inv s log \<Longrightarrow> fire_all tks now s = (t, em) \<Longrightarrow>
     approval_inv t (log @ em) \<and> set (am_timers t) \<subseteq> set (am_timers s) \<and> fst ` set (am_timers t) \<inter> set tks = {}
     \<and> am_nextToken t = am_nextToken s"
proof (induction tks arbitrary: s t log em)
  case (Cons tk tks)
  obtain s1 e1 where f: "fire_expiry tk now s = (s1, e1)" by force
  obtain t' e2 where run: "fire_all tks now s1 = (t', e2)" by force
  have te: "t = t'" "em = e1 @ e2" using Cons.prems(2) by (simp_all add: f run)
  have "approval_inv s1 (log @ e1)" by (rule expiry_inv [OF Cons.prems(1) f])
  from Cons.IH [OF this run] fire_settles [OF Cons.prems(1) f] show ?case by (auto simp: te)
qed simp

section \<open>Properties\<close>

text \<open>C7: Decisions are final and single-use. Over any interleaving of requests, decisions, explicit expiries, expiry
  timers, consumptions and cleanups: the promise of a registration is settled at most once, an allow-once decision
  is consumed at most once per registration (no replay within the grace period), and only after its promise was settled
  with allow-once.\<close>

theorem approvals_decided_and_consumed_once:
  "let log = snd (approval_run ops new_manager) in
   distinct (settled_tokens log) \<and> distinct (consumed_tokens log)
   \<and> list_all (\<lambda>t. Settled t (Some AllowOnce) \<in> set log) (consumed_tokens log)"
proof -
  obtain t log where run: "approval_run ops new_manager = (t, log)" by force
  note inv = run_from_new [OF run]
  show ?thesis using approval_invD(5,6,7) [OF inv] by (simp add: run list_all_iff)
qed

text \<open>C33: No approval waits forever: whatever happened before, once the armed expiry timers have fired every
  registration made so far is settled, exactly once, and no record is pending any more.\<close>

theorem approvals_always_settle:
  "let (s, log) = approval_run ops new_manager; (t, em) = fire_all (map fst (am_timers s)) now s in
   distinct (settled_tokens (log @ em)) \<and> set (settled_tokens (log @ em)) = {0..<am_nextToken s}
   \<and> listPendingRecords t = []"
proof -
  obtain s log where run: "approval_run ops new_manager = (s, log)" by force
  obtain t em where f: "fire_all (map fst (am_timers s)) now s = (t, em)" by force
  have fa: "approval_inv t (log @ em) \<and> set (am_timers t) \<subseteq> set (am_timers s)
      \<and> fst ` set (am_timers t) \<inter> set (map fst (am_timers s)) = {} \<and> am_nextToken t = am_nextToken s"
    by (rule fire_all_settles [OF run_from_new [OF run] f])
  then have inv: "approval_inv t (log @ em)" and none: "am_timers t = []" by (cases "am_timers t"; auto)+
  have no: "\<not> unresolved p" if "pend t i = Some p" for i p
    using approval_invD(2) [OF inv that] by (auto simp: entry_ok_def none)
  have "set (settled_tokens (log @ em)) = {0..<am_nextToken s}"
    using approval_invD(8,9) [OF inv] no fa by fastforce
  moreover have "\<not> unresolved p" if "(i, p) \<in> set (am_pending t)" for i p
    using no [of i p] that approval_invD(1) [OF inv] by (simp add: pend_def jm_get_in_set)
  then have "listPendingRecords t = []"
    by (auto simp: listPendingRecords_def jm_values_def unresolved_def filter_empty_conv)
  ultimately show ?thesis using approval_invD(5) [OF inv] by (simp add: run f)
qed

text \<open>Looking an approval up: the exact id wins, even when it is not visible; otherwise the visible ids that start with
  the input, ignoring case, decide: one is found, several are ambiguous and all listed, none is no result. An empty input
  finds nothing.\<close>

lemma lookup_characterised:
  "let s = fst (approval_run ops new_manager) in
   lookupApprovalId input includeResolved flt s =
    (if js_trim input = [] then NoId
     else (case getSnapshot (js_trim input) s of
        Some r \<Rightarrow> if (includeResolved \<or> ar_resolvedAtMs r = None) \<and> or_else (map_option (\<lambda>f. f r) flt) True
                  then ExactId (js_trim input) else NoId
      | None \<Rightarrow>
         (let found = filter (\<lambda>i. starts_with (js_lower (js_trim i)) (js_lower (js_trim input))
                \<and> (case getSnapshot i s of None \<Rightarrow> False
                   | Some r \<Rightarrow> (includeResolved \<or> ar_resolvedAtMs r = None) \<and> or_else (map_option (\<lambda>f. f r) flt) True))
              (jm_keys (am_pending s))
          in if found = [] then NoId else if tl found = [] then PrefixId (hd found) else AmbiguousIds found)))"
proof -
  define s :: "'a ExecApprovalManager" where "s = fst (approval_run ops new_manager)"
  have wf: "jm_wf (am_pending s)"
    using approval_invD(1) [OF run_from_new [of ops s "snd (approval_run ops new_manager)"]] by (simp add: s_def)
  have vis: "lookup_visible includeResolved flt p =
      ((includeResolved \<or> ar_resolvedAtMs (pe_record p) = None) \<and> or_else (map_option (\<lambda>f. f (pe_record p)) flt) True)" for p
    by (cases flt) (simp_all add: lookup_visible_def)
  have "map fst (filter (\<lambda>(i, p). lookup_visible includeResolved flt p
        \<and> starts_with (normalizeLowercaseStringOrEmpty (Some i)) (normalizeLowercaseStringOrEmpty (Some (js_trim input)))) m)
    = filter (\<lambda>i. starts_with (js_lower (js_trim i)) (js_lower (js_trim input))
        \<and> (case map_option pe_record (jm_get (am_pending s) i) of None \<Rightarrow> False
           | Some r \<Rightarrow> (includeResolved \<or> ar_resolvedAtMs r = None) \<and> or_else (map_option (\<lambda>f. f r) flt) True)) (map fst m)"
    if "m = am_pending s" for m
    unfolding filter_map comp_def
  proof (intro arg_cong [where f = "map fst"] filter_cong refl)
    fix x assume "x \<in> set m"
    then have "(fst x, snd x) \<in> set (am_pending s)" using that by simp
    then have "jm_get (am_pending s) (fst x) = Some (snd x)" using wf by (simp only: jm_get_in_set)
    then show "(case x of (i, p) \<Rightarrow> lookup_visible includeResolved flt p
        \<and> starts_with (normalizeLowercaseStringOrEmpty (Some i)) (normalizeLowercaseStringOrEmpty (Some (js_trim input))))
      = (starts_with (js_lower (js_trim (fst x))) (js_lower (js_trim input))
        \<and> (case map_option pe_record (jm_get (am_pending s) (fst x)) of None \<Rightarrow> False
           | Some r \<Rightarrow> (includeResolved \<or> ar_resolvedAtMs r = None) \<and> or_else (map_option (\<lambda>f. f r) flt) True))"
      by (cases x) (simp add: vis normalizeLowercase_eq conj_commute)
  qed
  from this [OF refl] show ?thesis unfolding Let_def s_def [symmetric]
    by (simp add: lookupApprovalId_def Let_def getSnapshot_def jm_keys_def vis split: option.split list.split)
qed

end
