(* ===== verification/MergePatch.thy ===== *)
theory MergePatch
  imports JsString JsMap AccountIds
begin

text \<open>
  Merge patches of configuration values (src/src/config/merge-patch.ts). A JSON value is a
  datatype, an object the list of its own fields in insertion order; copies (spread and
  \<open>structuredClone\<close>) are the value itself. Keys that JavaScript would enumerate out of
  insertion order, the integer-like ones, are not treated specially.
\<close>

section \<open>JSON values\<close>

datatype json = JNull | JBool bool | JNum int | JStr string | JArr "json list" | JObj "(string \<times> json) list"

definition isPlainObject :: "json \<Rightarrow> bool" where
  "isPlainObject j = (case j of JObj fs \<Rightarrow> True | _ \<Rightarrow> False)"

definition fields :: "json \<Rightarrow> (string, json) jsmap" where
  "fields j = (case j of JObj fs \<Rightarrow> fs | _ \<Rightarrow> [])"

definition string_id :: "json \<Rightarrow> string option" where
  "string_id j = (case jm_get (fields j) ''id'' of Some (JStr s) \<Rightarrow> if s \<noteq> [] then Some s else None | _ \<Rightarrow> None)"

definition isObjectWithStringId :: "json \<Rightarrow> bool" where
  "isObjectWithStringId j \<longleftrightarrow> string_id j \<noteq> None"

section \<open>Merging\<close>

text \<open>The index of the base entries by id: of equal ids the last one counts.\<close>

fun index_ids :: "nat \<Rightarrow> json list \<Rightarrow> (string, nat) jsmap \<Rightarrow> (string, nat) jsmap" where
  "index_ids i [] m = m"
| "index_ids i (e # es) m = index_ids (i + 1) es (case string_id e of None \<Rightarrow> m | Some x \<Rightarrow> jm_set x i m)"

function (sequential) applyMergePatch :: "bool \<Rightarrow> json \<Rightarrow> json \<Rightarrow> json"
  and merge_fields :: "bool \<Rightarrow> (string, json) jsmap \<Rightarrow> (string \<times> json) list \<Rightarrow> (string, json) jsmap"
  and merge_value :: "bool \<Rightarrow> json option \<Rightarrow> json \<Rightarrow> json"
  and merge_items :: "bool \<Rightarrow> json list \<Rightarrow> (string, nat) jsmap \<Rightarrow> json list \<Rightarrow> json list" where
  "applyMergePatch byId base (JObj es) = JObj (merge_fields byId (fields base) es)"
| "applyMergePatch byId base patch = patch"
| "merge_fields byId result [] = result"
| "merge_fields byId result ((k, v) # es) =
     merge_fields byId
       (if isBlockedObjectKey k then result
        else if v = JNull then jm_del k result
        else jm_set k (merge_value byId (jm_get result k) v) result) es"
| "merge_value byId old (JArr ps) =
     (case old of
        Some (JArr bs) \<Rightarrow>
          if byId \<and> list_all isObjectWithStringId bs then JArr (merge_items byId bs (index_ids 0 bs []) ps) else JArr ps
      | _ \<Rightarrow> JArr ps)"
| "merge_value byId old (JObj es) =
     applyMergePatch byId (case old of Some (JObj b) \<Rightarrow> JObj b | _ \<Rightarrow> JObj []) (JObj es)"
| "merge_value byId old v = v"
| "merge_items byId merged index [] = merged"
| "merge_items byId merged index (p # ps) =
     (case string_id p of
        None \<Rightarrow> merge_items byId (merged @ [p]) index ps
      | Some x \<Rightarrow>
          (case jm_get index x of
             None \<Rightarrow> merge_items byId (merged @ [p]) (jm_set x (length merged) index) ps
           | Some i \<Rightarrow> merge_items byId (merged[i := applyMergePatch byId (merged ! i) p]) index ps))"
  by pat_completeness auto

termination
  by (relation "measure (\<lambda>x. case x of
      Inl (Inl (_, _, p)) \<Rightarrow> 2 * size p
    | Inl (Inr (_, _, es)) \<Rightarrow> 2 * size_list (size_prod (\<lambda>_. 0) size) es
    | Inr (Inl (_, _, v)) \<Rightarrow> Suc (2 * size v)
    | Inr (Inr (_, _, _, ps)) \<Rightarrow> 2 * size_list size ps)") auto

definition mergeObjectArraysById :: "bool \<Rightarrow> json list \<Rightarrow> json list \<Rightarrow> json list option" where
  "mergeObjectArraysById byId base patch =
    (if list_all isObjectWithStringId base then Some (merge_items byId base (index_ids 0 base []) patch) else None)"

text \<open>The array case of \<open>merge_value\<close> is \<open>mergeObjectArraysById\<close>, with the replacement when it gives no array.\<close>

lemma merge_value_arrays:
  "merge_value True (Some (JArr bs)) (JArr ps) = JArr (or_else (mergeObjectArraysById True bs ps) ps)"
  by (simp add: mergeObjectArraysById_def)

section \<open>Blocked keys\<close>

text \<open>No blocked key on the spine: in the value and in the objects reached from it through objects.
  Arrays are copied as they are and not looked into.\<close>

fun spine_safe :: "json \<Rightarrow> bool" where
  "spine_safe (JObj fs) = list_all (\<lambda>(k, v). \<not> isBlockedObjectKey k \<and> spine_safe v) fs"
| "spine_safe _ = True"

definition spine_fields :: "(string, json) jsmap \<Rightarrow> bool" where
  "spine_fields fs \<longleftrightarrow> list_all (\<lambda>(k, v). \<not> isBlockedObjectKey k \<and> spine_safe v) fs"

lemma spine_obj [simp]: "spine_safe (JObj fs) = spine_fields fs"
  by (simp add: spine_fields_def)

declare spine_safe.simps(1) [simp del]

lemma spine_fields_of: "spine_safe j \<Longrightarrow> spine_fields (fields j)"
  by (cases j) (simp_all add: fields_def, simp_all add: spine_fields_def)

lemma spine_set: "spine_fields fs \<Longrightarrow> \<not> isBlockedObjectKey k \<Longrightarrow> spine_safe v \<Longrightarrow> spine_fields (jm_set k v fs)"
  by (auto simp: spine_fields_def list_all_iff dest!: in_jm_setD)

lemma spine_del: "spine_fields fs \<Longrightarrow> spine_fields (jm_del k fs)"
  by (auto simp: spine_fields_def list_all_iff jm_del_def)

lemma spine_get: "spine_fields fs \<Longrightarrow> jm_get fs k = Some v \<Longrightarrow> spine_safe v"
  by (auto simp: spine_fields_def list_all_iff dest!: jm_get_SomeD)

lemma merge_spine:
  "spine_safe base \<Longrightarrow> spine_safe (applyMergePatch byId base patch)"
  "spine_fields result \<Longrightarrow> spine_fields (merge_fields byId result es)"
  "(case old of None \<Rightarrow> True | Some j \<Rightarrow> spine_safe j) \<Longrightarrow> spine_safe (merge_value byId old v)"
  "merge_items byId merged index ps = merge_items byId merged index ps"
proof (induction byId base patch and byId result es and byId old v and byId merged index ps
    rule: applyMergePatch_merge_fields_merge_value_merge_items.induct)
  case (1 byId base es)
  then show ?case by (simp add: spine_fields_of)
next
  case (4 byId result k v es)
  show ?case
  proof (cases "isBlockedObjectKey k \<or> v = JNull")
    case True
    then show ?thesis using 4 spine_del by auto
  next
    case False
    have "case jm_get result k of None \<Rightarrow> True | Some j \<Rightarrow> spine_safe j"
      using 4(3) spine_get by (auto split: option.splits)
    then show ?thesis using 4 False spine_set by simp
  qed
next
  case (5 byId old ps)
  then show ?case by (auto split: option.splits json.splits)
next
  case (6 byId old es)
  then show ?case by (auto simp: spine_fields_def split: option.splits json.splits)
qed simp_all

section \<open>Fields of the result\<close>

lemma merge_fields_wf: "jm_wf result \<Longrightarrow> jm_wf (merge_fields byId result es)"
  by (induction es arbitrary: result) auto

lemma merge_fields_get:
  "distinct (map fst es) \<Longrightarrow> jm_get (merge_fields byId result es) k =
    (if isBlockedObjectKey k then jm_get result k
     else (case map_of es k of
        None \<Rightarrow> jm_get result k
      | Some v \<Rightarrow> if v = JNull then None else Some (merge_value byId (jm_get result k) v)))"
proof (induction es arbitrary: result)
  case (Cons e es)
  obtain j v where e: "e = (j, v)" by force
  have d: "distinct (map fst es)" and new: "map_of es j = None" using Cons.prems by (auto simp: e map_of_eq_None_iff)
  show ?case using Cons.IH [OF d] new by (auto simp: e split: option.splits)
qed simp

lemma apply_fields: "applyMergePatch byId base p = applyMergePatch byId (JObj (fields base)) p"
  by (cases p) (simp_all add: fields_def)

lemma merge_value_rfc: "merge_value False old v = applyMergePatch False (or_else old JNull) v"
proof (cases v)
  case (JObj es)
  then show ?thesis
    by (cases old) (auto simp: fields_def split: json.splits)
qed (auto split: option.splits json.splits)

section \<open>Idempotence\<close>

text \<open>Objects have distinct keys; what arrays hold does not matter.\<close>

fun wf_json :: "json \<Rightarrow> bool" where
  "wf_json (JObj fs) = (distinct (map fst fs) \<and> list_all (\<lambda>(k, v). wf_json v) fs)"
| "wf_json _ = True"

lemma wf_fields: "wf_json j \<Longrightarrow> jm_wf (fields j)"
  by (cases j) (simp_all add: fields_def jm_wf_def)

lemma wf_get: "wf_json j \<Longrightarrow> jm_get (fields j) k = Some v \<Longrightarrow> wf_json v"
  by (cases j) (auto simp: fields_def list_all_iff dest!: jm_get_SomeD)

lemma merge_value_absorbs:
  "wf_json v \<Longrightarrow> merge_value False (Some (merge_value False old v)) v = merge_value False old v"
proof (induction v arbitrary: old)
  case (JObj es)
  define f where "f = (case old of Some (JObj b) \<Rightarrow> b | _ \<Rightarrow> [])"
  define r where "r = merge_fields False f es"
  have d: "distinct (map fst es)" using JObj.prems by simp
  have mv: "merge_value False old (JObj es) = JObj r"
    by (auto simp: r_def f_def fields_def split: option.splits json.splits)
  have absorb: "merge_fields False r' es' = r'"
    if "\<And>k v. (k, v) \<in> set es' \<Longrightarrow> \<not> isBlockedObjectKey k \<Longrightarrow>
        (if v = JNull then jm_get r' k = None else \<exists>w. jm_get r' k = Some w \<and> merge_value False (Some w) v = w)"
    for es' r'
    using that
  proof (induction es')
    case (Cons e es')
    obtain k v where e: "e = (k, v)" by force
    have IH: "merge_fields False r' es' = r'" by (rule Cons.IH, rule Cons.prems) simp_all
    have "jm_del k r' = r'" if "jm_get r' k = None"
      using that by (auto simp: jm_del_def map_of_eq_None_iff intro!: filter_True)
    moreover have "jm_set k w r' = r'" if "jm_get r' k = Some w" for w
      using that by (induction r') (auto split: if_splits)
    ultimately show ?case using IH Cons.prems [of k v] by (auto simp: e split: if_splits)
  qed simp
  have "merge_fields False r es = r"
  proof (rule absorb)
    fix k v assume kv: "(k, v) \<in> set es" "\<not> isBlockedObjectKey k"
    have m: "map_of es k = Some v" using kv(1) d by simp
    have g: "jm_get r k = (if v = JNull then None else Some (merge_value False (jm_get f k) v))"
      unfolding r_def merge_fields_get [OF d] using kv(2) m by simp
    have "wf_json v" using JObj.prems kv(1) by (auto simp: list_all_iff)
    then have "merge_value False (Some (merge_value False (jm_get f k) v)) v = merge_value False (jm_get f k) v"
      using JObj.IH [OF kv(1), of v] by auto
    then show "if v = JNull then jm_get r k = None else \<exists>w. jm_get r k = Some w \<and> merge_value False (Some w) v = w"
      by (simp add: g)
  qed
  then have "merge_value False (Some (JObj r)) (JObj es) = JObj r" by (simp add: fields_def)
  then show ?case unfolding mv .
qed (simp_all split: option.split json.split)

section \<open>Properties\<close>

text \<open>Patches cannot plant prototype keys: a value without the keys __proto__, prototype and constructor on its object spine
  has none after any patch, merged by id or not.\<close>

lemma patch_keeps_blocked_keys_out:
  assumes "spine_safe base"
  shows "spine_safe (applyMergePatch byId base patch)"
  by (rule merge_spine(1) [OF assms])

lemma patch_keeps_blocked_keys_out_witness:
  "spine_safe (applyMergePatch True (JObj [(''gateway'', JObj [(''port'', JNum 1)])])
     (JObj [(''__proto__'', JObj [(''admin'', JBool True)]), (''gateway'', JObj [(''constructor'', JNull), (''port'', JNum 2)])]))"
  by (rule patch_keeps_blocked_keys_out) (simp add: spine_fields_def isBlockedObjectKey_def)

text \<open>C38: Without merging by id, applying a patch object is the merge-patch rule of RFC 7396, but for blocked keys, which it skips:
  a key the patch does not name keeps its value, null removes it, and any other value is merged
  recursively into the old one (into nothing, where there is none).\<close>

theorem patch_is_rfc7396:
  assumes "distinct (map fst es)"
  shows "jm_get (fields (applyMergePatch False base (JObj es))) k =
    (if isBlockedObjectKey k then jm_get (fields base) k
     else (case map_of es k of
        None \<Rightarrow> jm_get (fields base) k
      | Some v \<Rightarrow> if v = JNull then None else Some (applyMergePatch False (or_else (jm_get (fields base) k) JNull) v)))"
  using merge_fields_get [OF assms, of False "fields base" k, unfolded merge_value_rfc]
  by (simp add: fields_def [of "JObj x" for x])

theorem patch_is_rfc7396_witness:
  "jm_get (fields (applyMergePatch False (JObj [(''a'', JStr ''b''), (''c'', JNum 1)]) (JObj [(''a'', JNull), (''d'', JObj [(''e'', JNull)])]))) ''d''
    = Some (JObj [])"
  using patch_is_rfc7396 [of "[(''a'', JNull), (''d'', JObj [(''e'', JNull)])]" "JObj [(''a'', JStr ''b''), (''c'', JNum 1)]" "''d''"]
  by (simp add: isBlockedObjectKey_def fields_def jm_del_def)

text \<open>Without merging by id, applying a patch twice is applying it once.\<close>

lemma patch_idempotent:
  assumes "wf_json patch"
  shows "applyMergePatch False (applyMergePatch False base patch) patch = applyMergePatch False base patch"
  using merge_value_absorbs [OF assms, of "Some base"] by (simp add: merge_value_rfc)

lemma patch_idempotent_witness:
  "applyMergePatch False (applyMergePatch False (JObj [(''a'', JNum 1)]) (JObj [(''a'', JNull), (''b'', JArr [JNull])]))
      (JObj [(''a'', JNull), (''b'', JArr [JNull])])
    = applyMergePatch False (JObj [(''a'', JNum 1)]) (JObj [(''a'', JNull), (''b'', JArr [JNull])])"
  by (rule patch_idempotent) simp

end
