(* ===== verification/NodePendingWork.thy ===== *)
theory NodePendingWork
  imports JsNumber JsString JsMap "HOL-Library.Multiset"
begin

text \<open>
  Work queued for device nodes (src/src/gateway/node-pending-work.ts): per node a revision and the
  items by id, at most one per type. Operations take and return the table of nodes; the clock, the
  generated id and \<open>localeCompare\<close> are arguments.
\<close>

section \<open>State\<close>

datatype NodePendingWorkType = StatusRequest | LocationRequest

datatype NodePendingWorkPriority = PriorityDefault | PriorityNormal | PriorityHigh

record 'p NodePendingWorkItem =
  nw_id :: string
  nw_type :: NodePendingWorkType
  nw_priority :: NodePendingWorkPriority
  nw_createdAtMs :: int
  nw_expiresAtMs :: "int option"
  nw_payload :: "'p option"

record 'p NodePendingWorkState =
  ns_revision :: nat
  ns_itemsById :: "(string, 'p NodePendingWorkItem) jsmap"

type_synonym 'p NodeTable = "(string, 'p NodePendingWorkState) jsmap"

record DrainOptions =
  do_maxItems :: "js_number option"
  do_includeDefaultStatus :: "bool option"

record 'p DrainResult =
  dr_revision :: nat
  dr_items :: "'p NodePendingWorkItem list"
  dr_hasMore :: bool

definition DEFAULT_STATUS_ITEM_ID :: string where "DEFAULT_STATUS_ITEM_ID = ''baseline-status''"

definition PRIORITY_RANK :: "NodePendingWorkPriority \<Rightarrow> int" where
  "PRIORITY_RANK p = (case p of PriorityHigh \<Rightarrow> 3 | PriorityNormal \<Rightarrow> 2 | PriorityDefault \<Rightarrow> 1)"

section \<open>Operations\<close>

definition empty_node :: "'p NodePendingWorkState" where
  "empty_node = \<lparr>ns_revision = 0, ns_itemsById = []\<rparr>"

definition getOrCreateState :: "string \<Rightarrow> 'p NodeTable \<Rightarrow> 'p NodePendingWorkState \<times> 'p NodeTable" where
  "getOrCreateState nodeId tbl =
    (case jm_get tbl nodeId of Some st \<Rightarrow> (st, tbl) | None \<Rightarrow> (empty_node, jm_set nodeId empty_node tbl))"

definition item_live :: "int \<Rightarrow> 'p NodePendingWorkItem \<Rightarrow> bool" where
  "item_live nowMs it = (case nw_expiresAtMs it of None \<Rightarrow> True | Some e \<Rightarrow> \<not> e \<le> nowMs)"

definition pruneExpired :: "'p NodePendingWorkState \<Rightarrow> int \<Rightarrow> 'p NodePendingWorkState" where
  "pruneExpired st nowMs =
    (let kept = filter (\<lambda>(i, it). item_live nowMs it) (ns_itemsById st) in
     if length kept \<noteq> length (ns_itemsById st)
     then \<lparr>ns_revision = ns_revision st + 1, ns_itemsById = kept\<rparr> else st)"

definition pruneStateIfEmpty :: "string \<Rightarrow> 'p NodePendingWorkState \<Rightarrow> 'p NodeTable \<Rightarrow> 'p NodeTable" where
  "pruneStateIfEmpty nodeId st tbl = (if ns_itemsById st = [] then jm_del nodeId tbl else tbl)"

definition item_order :: "(string \<Rightarrow> string \<Rightarrow> int) \<Rightarrow> 'p NodePendingWorkItem \<Rightarrow> 'p NodePendingWorkItem \<Rightarrow> int" where
  "item_order localeCompare a b =
    (let priorityDelta = PRIORITY_RANK (nw_priority b) - PRIORITY_RANK (nw_priority a) in
     if priorityDelta \<noteq> 0 then priorityDelta
     else if nw_createdAtMs a \<noteq> nw_createdAtMs b then nw_createdAtMs a - nw_createdAtMs b
     else localeCompare (nw_id a) (nw_id b))"

definition sortedItems :: "(string \<Rightarrow> string \<Rightarrow> int) \<Rightarrow> 'p NodePendingWorkState \<Rightarrow> 'p NodePendingWorkItem list" where
  "sortedItems localeCompare st = js_sort (item_order localeCompare) (jm_values (ns_itemsById st))"

definition makeBaselineStatusItem :: "int \<Rightarrow> 'p NodePendingWorkItem" where
  "makeBaselineStatusItem nowMs = \<lparr>nw_id = DEFAULT_STATUS_ITEM_ID, nw_type = StatusRequest,
     nw_priority = PriorityDefault, nw_createdAtMs = nowMs, nw_expiresAtMs = None, nw_payload = None\<rparr>"

definition expiry_of :: "int \<Rightarrow> js_number option \<Rightarrow> int option" where
  "expiry_of nowMs v = (case v of Some (Fin q) \<Rightarrow> Some (nowMs + max 1000 (js_trunc q)) | _ \<Rightarrow> None)"

text \<open>\<open>None\<close> when the node id is missing, which throws.\<close>

definition enqueueNodePendingWork ::
  "int \<Rightarrow> string \<Rightarrow> string \<Rightarrow> NodePendingWorkType \<Rightarrow> NodePendingWorkPriority option \<Rightarrow> js_number option \<Rightarrow> 'p option
    \<Rightarrow> 'p NodeTable \<Rightarrow> (nat \<times> 'p NodePendingWorkItem \<times> bool) option \<times> 'p NodeTable" where
  "enqueueNodePendingWork nowMs randomUUID rawNodeId tp priority expiresInMs payload tbl =
    (let nodeId = js_trim rawNodeId in
     if nodeId = [] then (None, tbl)
     else
      (let (st, tbl) = getOrCreateState nodeId tbl;
           st = pruneExpired st nowMs
       in case find (\<lambda>it. nw_type it = tp) (jm_values (ns_itemsById st)) of
            Some existing \<Rightarrow> (Some (ns_revision st, existing, True), jm_set nodeId st tbl)
          | None \<Rightarrow>
             (let item = \<lparr>nw_id = randomUUID, nw_type = tp, nw_priority = or_else priority PriorityNormal,
                    nw_createdAtMs = nowMs, nw_expiresAtMs = expiry_of nowMs expiresInMs, nw_payload = payload\<rparr>;
                  st = \<lparr>ns_revision = ns_revision st + 1, ns_itemsById = jm_set randomUUID item (ns_itemsById st)\<rparr>
              in (Some (ns_revision st, item, False), jm_set nodeId st tbl))))"

text \<open>\<open>Math.min(10, Math.max(1, Math.trunc(n)))\<close>, by default of 4; \<open>None\<close> is NaN.\<close>

definition max_items :: "js_number option \<Rightarrow> nat option" where
  "max_items v =
    (case or_else v (Fin 4) of
       Fin q \<Rightarrow> Some (nat (min 10 (max 1 (js_trunc q)))) | PosInf \<Rightarrow> Some 10 | NegInf \<Rightarrow> Some 1 | NaN \<Rightarrow> None)"

definition drain_items ::
  "int \<Rightarrow> nat option \<Rightarrow> bool \<Rightarrow> nat \<Rightarrow> 'p NodePendingWorkItem list \<Rightarrow> 'p DrainResult" where
  "drain_items nowMs maxItems includeDefaultStatus revision explicitItems =
    (let items = take (or_else maxItems 0) explicitItems;
         hasExplicitStatus = list_ex (\<lambda>it. nw_type it = StatusRequest) explicitItems;
         includeBaseline = (includeDefaultStatus \<and> \<not> hasExplicitStatus);
         items = (if includeBaseline \<and> (case maxItems of None \<Rightarrow> False | Some n \<Rightarrow> length items < n)
                  then items @ [makeBaselineStatusItem nowMs] else items);
         explicitReturnedCount = length (filter (\<lambda>it. nw_id it \<noteq> DEFAULT_STATUS_ITEM_ID) items);
         baselineIncluded = list_ex (\<lambda>it. nw_id it = DEFAULT_STATUS_ITEM_ID) items
     in \<lparr>dr_revision = revision, dr_items = items,
         dr_hasMore = (length explicitItems > explicitReturnedCount \<or> includeBaseline \<and> \<not> baselineIncluded)\<rparr>)"

definition drainNodePendingWork ::
  "(string \<Rightarrow> string \<Rightarrow> int) \<Rightarrow> int \<Rightarrow> string \<Rightarrow> DrainOptions \<Rightarrow> 'p NodeTable \<Rightarrow> 'p DrainResult \<times> 'p NodeTable" where
  "drainNodePendingWork localeCompare nowMs rawNodeId opts tbl =
    (let nodeId = js_trim rawNodeId in
     if nodeId = [] then (\<lparr>dr_revision = 0, dr_items = [], dr_hasMore = False\<rparr>, tbl)
     else
      (let found = jm_get tbl nodeId;
           revision = (case found of None \<Rightarrow> 0 | Some st \<Rightarrow> ns_revision st);
           pruned = map_option (\<lambda>st. pruneExpired st nowMs) found;
           tbl = (case pruned of None \<Rightarrow> tbl | Some st \<Rightarrow> pruneStateIfEmpty nodeId st (jm_set nodeId st tbl));
           explicitItems = (case pruned of None \<Rightarrow> [] | Some st \<Rightarrow> sortedItems localeCompare st)
       in (drain_items nowMs (max_items (do_maxItems opts)) (do_includeDefaultStatus opts \<noteq> Some False) revision explicitItems, tbl)))"

fun remove_items :: "string list \<Rightarrow> (string, 'p NodePendingWorkItem) jsmap \<Rightarrow> string list \<times> (string, 'p NodePendingWorkItem) jsmap" where
  "remove_items [] m = ([], m)"
| "remove_items (rawId # ids) m =
     (let i = js_trim rawId in
      if i = [] \<or> i = DEFAULT_STATUS_ITEM_ID \<or> \<not> jm_has i m then remove_items ids m
      else (let (removed, m) = remove_items ids (jm_del i m) in (i # removed, m)))"

definition acknowledgeNodePendingWork :: "string \<Rightarrow> string list \<Rightarrow> 'p NodeTable \<Rightarrow> (nat \<times> string list) \<times> 'p NodeTable" where
  "acknowledgeNodePendingWork rawNodeId itemIds tbl =
    (let nodeId = js_trim rawNodeId in
     case (if nodeId = [] then None else jm_get tbl nodeId) of
       None \<Rightarrow> ((0, []), tbl)
     | Some st \<Rightarrow>
        (let (removed, m) = remove_items itemIds (ns_itemsById st);
             st = \<lparr>ns_revision = (if removed \<noteq> [] then ns_revision st + 1 else ns_revision st), ns_itemsById = m\<rparr>
         in ((ns_revision st, removed), pruneStateIfEmpty nodeId st (jm_set nodeId st tbl))))"

section \<open>The invariant\<close>

definition node_ok :: "'p NodePendingWorkState \<Rightarrow> bool" where
  "node_ok st \<longleftrightarrow> jm_wf (ns_itemsById st) \<and> list_all (\<lambda>(i, it). nw_id it = i) (ns_itemsById st)
     \<and> distinct (map (\<lambda>(i, it). nw_type it) (ns_itemsById st))"

definition table_ok :: "'p NodeTable \<Rightarrow> bool" where
  "table_ok tbl \<longleftrightarrow> jm_wf tbl
     \<and> list_all (\<lambda>(n, st). n \<noteq> [] \<and> trimmed n \<and> ns_itemsById st \<noteq> [] \<and> node_ok st) tbl"

lemma table_get: "table_ok tbl \<Longrightarrow> jm_get tbl n = Some st \<Longrightarrow> ns_itemsById st \<noteq> [] \<and> node_ok st"
  by (auto simp: table_ok_def list_all_iff dest: jm_get_SomeD)

lemma node_prune: "node_ok st \<Longrightarrow> node_ok (pruneExpired st now)"
  by (auto simp: node_ok_def pruneExpired_def Let_def jm_wf_filter list_all_iff distinct_map_filter)

lemma node_filter:
  "node_ok st \<Longrightarrow> node_ok \<lparr>ns_revision = r, ns_itemsById = filter P (ns_itemsById st)\<rparr>"
  by (auto simp: node_ok_def jm_wf_filter list_all_iff distinct_map_filter)

lemma node_add:
  assumes "node_ok st" "find (\<lambda>it. nw_type it = tp) (jm_values (ns_itemsById st)) = None" "nw_type it = tp" "nw_id it = i"
  shows "node_ok \<lparr>ns_revision = r, ns_itemsById = jm_set i it (ns_itemsById st)\<rparr>"
proof -
  have new: "tp \<notin> set (map (\<lambda>(i, it). nw_type it) (ns_itemsById st))"
    using assms(2) by (force simp: find_None_iff jm_values_def)
  have "distinct (map (\<lambda>(i, it). nw_type it) (jm_set i it m))"
    if "distinct (map (\<lambda>(i, it). nw_type it) m)" "tp \<notin> set (map (\<lambda>(i, it). nw_type it) m)" for m
    using that
  proof (induction m)
    case (Cons x m)
    then show ?case using assms(3) by (cases x) (auto dest!: in_jm_setD)
  qed simp
  then show ?thesis using assms(1,4) new by (auto simp: node_ok_def list_all_iff dest!: in_jm_setD)
qed

lemma remove_items_filter:
  "\<exists>P. snd (remove_items ids m) = filter P m"
proof (induction ids arbitrary: m)
  case Nil
  show ?case by (rule exI [of _ "\<lambda>_. True"]) simp
next
  case (Cons rawId ids)
  show ?case
  proof (cases "js_trim rawId = [] \<or> js_trim rawId = DEFAULT_STATUS_ITEM_ID \<or> \<not> jm_has (js_trim rawId) m")
    case True
    then show ?thesis using Cons by (auto simp: Let_def)
  next
    case False
    obtain P where "snd (remove_items ids (jm_del (js_trim rawId) m)) = filter P (jm_del (js_trim rawId) m)"
      using Cons by blast
    then have "snd (remove_items (rawId # ids) m) = filter (\<lambda>x. fst x \<noteq> js_trim rawId \<and> P x) m"
      using False by (simp add: Let_def split_def jm_del_def conj_commute)
    then show ?thesis by blast
  qed
qed

lemma table_set:
  "table_ok tbl \<Longrightarrow> node_ok st \<Longrightarrow> ns_itemsById st \<noteq> [] \<Longrightarrow> n \<noteq> [] \<Longrightarrow> trimmed n \<Longrightarrow> table_ok (jm_set n st tbl)"
  by (auto simp: table_ok_def list_all_iff dest!: in_jm_setD)

lemma table_settle:
  assumes "table_ok tbl" "node_ok st" "n \<noteq> []" "trimmed n"
  shows "table_ok (pruneStateIfEmpty n st (jm_set n st tbl))"
proof (cases "ns_itemsById st = []")
  case True
  have "jm_del n (jm_set n st tbl) = jm_del n tbl" by (induction tbl) (auto simp: jm_del_def)
  then show ?thesis using assms(1) True by (auto simp: pruneStateIfEmpty_def table_ok_def list_all_iff jm_del_def jm_wf_filter)
next
  case False
  then show ?thesis using table_set [OF assms(1,2) _ assms(3,4)] by (simp add: pruneStateIfEmpty_def)
qed

datatype 'p WorkOp =
  WorkEnqueue int string string NodePendingWorkType "NodePendingWorkPriority option" "js_number option" "'p option"
| WorkDrain int string DrainOptions
| WorkAcknowledge string "string list"

fun work_op :: "(string \<Rightarrow> string \<Rightarrow> int) \<Rightarrow> 'p WorkOp \<Rightarrow> 'p NodeTable \<Rightarrow> 'p NodeTable" where
  "work_op lc (WorkEnqueue now uuid n tp p e d) tbl = snd (enqueueNodePendingWork now uuid n tp p e d tbl)"
| "work_op lc (WorkDrain now n opts) tbl = snd (drainNodePendingWork lc now n opts tbl)"
| "work_op lc (WorkAcknowledge n ids) tbl = snd (acknowledgeNodePendingWork n ids tbl)"

lemma enqueue_table:
  assumes "table_ok tbl"
  shows "table_ok (snd (enqueueNodePendingWork now uuid raw tp p e d tbl))"
proof (cases "js_trim raw = []")
  case True
  then show ?thesis using assms by (simp add: enqueueNodePendingWork_def)
next
  case False
  let ?n = "js_trim raw"
  obtain st tbl1 where g: "getOrCreateState ?n tbl = (st, tbl1)" by force
  have st: "node_ok st" using g table_get [OF assms]
    by (auto simp: getOrCreateState_def empty_node_def node_ok_def split: option.splits)
  have over: "table_ok (jm_set ?n st' tbl1)" if "node_ok st'" "ns_itemsById st' \<noteq> []" for st'
  proof -
    have "jm_set ?n st' tbl1 = jm_set ?n st' tbl"
    proof (cases "jm_get tbl ?n")
      case None
      then have "tbl1 = jm_set ?n empty_node tbl" using g by (simp add: getOrCreateState_def)
      moreover have "jm_set k v (jm_set k w m) = jm_set k v m" for k :: string and v w :: "'a NodePendingWorkState" and m
        by (induction m) auto
      ultimately show ?thesis by simp
    qed (use g in \<open>simp add: getOrCreateState_def\<close>)
    then show ?thesis using table_set [OF assms that False] by simp
  qed
  define st1 where "st1 = pruneExpired st now"
  have st1: "node_ok st1" by (simp add: st1_def node_prune [OF st])
  show ?thesis
  proof (cases "find (\<lambda>it. nw_type it = tp) (jm_values (ns_itemsById st1))")
    case (Some x)
    then have "ns_itemsById st1 \<noteq> []" by (auto simp: jm_values_def)
    then show ?thesis using over [OF st1] False Some
      by (simp add: enqueueNodePendingWork_def Let_def g st1_def)
  next
    case None
    let ?it = "\<lparr>nw_id = uuid, nw_type = tp, nw_priority = or_else p PriorityNormal, nw_createdAtMs = now,
      nw_expiresAtMs = expiry_of now e, nw_payload = d\<rparr>"
    have "node_ok \<lparr>ns_revision = ns_revision st1 + 1, ns_itemsById = jm_set uuid ?it (ns_itemsById st1)\<rparr>"
      by (rule node_add [OF st1 None]) simp_all
    moreover have "jm_set uuid ?it (ns_itemsById st1) \<noteq> []" by (cases "ns_itemsById st1") (auto split: if_splits)
    ultimately have "table_ok (jm_set ?n \<lparr>ns_revision = ns_revision st1 + 1, ns_itemsById = jm_set uuid ?it (ns_itemsById st1)\<rparr> tbl1)"
      by (intro over) simp_all
    then show ?thesis using False None
      by (simp add: enqueueNodePendingWork_def Let_def g st1_def)
  qed
qed

lemma trim_is_trimmed: "trimmed (js_trim s)"
  by (simp add: trimmed_js_trim)

lemma drain_table:
  assumes "table_ok tbl"
  shows "table_ok (snd (drainNodePendingWork lc now raw opts tbl))"
proof (cases "js_trim raw = [] \<or> jm_get tbl (js_trim raw) = None")
  case True
  then show ?thesis using assms by (auto simp: drainNodePendingWork_def Let_def)
next
  case False
  then obtain st where st: "jm_get tbl (js_trim raw) = Some st" "js_trim raw \<noteq> []" by auto
  have "node_ok (pruneExpired st now)" using table_get [OF assms st(1)] node_prune by blast
  then show ?thesis using table_settle [OF assms _ st(2) trim_is_trimmed] st by (simp add: drainNodePendingWork_def Let_def)
qed

lemma acknowledge_table:
  assumes "table_ok tbl"
  shows "table_ok (snd (acknowledgeNodePendingWork raw ids tbl))"
proof (cases "js_trim raw = [] \<or> jm_get tbl (js_trim raw) = None")
  case True
  then show ?thesis using assms by (auto simp: acknowledgeNodePendingWork_def Let_def)
next
  case False
  then obtain st where st: "jm_get tbl (js_trim raw) = Some st" "js_trim raw \<noteq> []" by auto
  obtain P where "snd (remove_items ids (ns_itemsById st)) = filter P (ns_itemsById st)" using remove_items_filter by blast
  then have "node_ok \<lparr>ns_revision = r, ns_itemsById = snd (remove_items ids (ns_itemsById st))\<rparr>" for r
    using node_filter [of st r P] table_get [OF assms st(1)] by simp
  then show ?thesis using table_settle [OF assms _ st(2) trim_is_trimmed] st
    by (simp add: acknowledgeNodePendingWork_def Let_def split_def)
qed

interpretation work: transition_system "\<lambda>tbl. tbl = []" "\<lambda>tbl tbl'. \<exists>op. tbl' = work_op lc op tbl" table_ok for lc
proof
  show "tbl = [] \<Longrightarrow> table_ok tbl" for tbl :: "'a NodeTable" by (simp add: table_ok_def)
  fix tbl tbl' :: "'a NodeTable"
  assume ok: "table_ok tbl" and "\<exists>op. tbl' = work_op lc op tbl"
  then obtain op where "tbl' = work_op lc op tbl" by blast
  then show "table_ok tbl'"
    by (cases op) (simp_all add: enqueue_table [OF ok] drain_table [OF ok] acknowledge_table [OF ok])
qed

lemma fold_reachable:
  "reachable_from (\<lambda>tbl. tbl = []) (\<lambda>tbl tbl'. \<exists>op. tbl' = work_op lc op tbl) tbl \<Longrightarrow>
   reachable_from (\<lambda>tbl. tbl = []) (\<lambda>tbl tbl'. \<exists>op. tbl' = work_op lc op tbl) (fold (work_op lc) ops tbl)"
proof (induction ops arbitrary: tbl)
  case (Cons op ops)
  have "\<exists>op'. work_op lc op tbl = work_op lc op' tbl" by blast
  from Cons.IH [OF reach_step [OF Cons.prems this]] show ?case by simp
qed simp


section \<open>What a drain returns\<close>

definition work_before :: "'p NodePendingWorkItem \<Rightarrow> 'p NodePendingWorkItem \<Rightarrow> bool" where
  "work_before a b \<longleftrightarrow>
     PRIORITY_RANK (nw_priority b) < PRIORITY_RANK (nw_priority a)
   \<or> PRIORITY_RANK (nw_priority a) = PRIORITY_RANK (nw_priority b) \<and> nw_createdAtMs a \<le> nw_createdAtMs b"

definition live_items :: "int \<Rightarrow> string \<Rightarrow> 'p NodeTable \<Rightarrow> 'p NodePendingWorkItem list" where
  "live_items now n tbl =
    (case jm_get tbl n of None \<Rightarrow> [] | Some st \<Rightarrow> filter (item_live now) (jm_values (ns_itemsById st)))"

lemma work_before_trans: "transp work_before"
  by (auto simp: work_before_def transp_def)

lemma sorted_items: "sorted_wrt work_before (sortedItems lc st)"
  unfolding sortedItems_def
  by (rule js_sort_sorted [OF _ _ work_before_trans]) (auto simp: item_order_def work_before_def Let_def split: if_splits)

lemma pruned_items: "jm_values (ns_itemsById (pruneExpired st now)) = filter (item_live now) (jm_values (ns_itemsById st))"
proof -
  have shrunk: "filter P m = m" if "length (filter P m) = length m" for P and m :: "(string \<times> 'a NodePendingWorkItem) list"
    using that by (metis length_filter_less filter_True nat_less_le)
  have vals: "jm_values (filter (\<lambda>(i, it). item_live now it) m) = filter (item_live now) (jm_values m)"
    for m :: "(string, 'a NodePendingWorkItem) jsmap"
    by (induction m) (auto simp: jm_values_def)
  show ?thesis using shrunk [of "\<lambda>(i, it). item_live now it" "ns_itemsById st"]
    by (auto simp: pruneExpired_def Let_def simp flip: vals)
qed

lemma drained_items: "mset (sortedItems lc (pruneExpired st now)) = mset (filter (item_live now) (jm_values (ns_itemsById st)))"
  by (simp add: sortedItems_def pruned_items)

lemma max_items_bounds: "max_items v = Some n \<Longrightarrow> 1 \<le> n \<and> n \<le> 10"
  by (auto simp: max_items_def split: js_number.splits)

lemma drain_items_spec:
  fixes xs :: "'p NodePendingWorkItem list"
  assumes "list_all (\<lambda>it. nw_id it \<noteq> DEFAULT_STATUS_ITEM_ID) xs"
  shows "drain_items now (Some n) incl rv xs =
    (let wanted = (incl \<and> \<not> list_ex (\<lambda>it. nw_type it = StatusRequest) xs) in
     \<lparr>dr_revision = rv,
      dr_items = take n xs @ (if wanted \<and> length xs < n then [makeBaselineStatusItem now] else []),
      dr_hasMore = (n < length xs \<or> wanted \<and> n \<le> length xs)\<rparr>)"
proof -
  have own: "filter (\<lambda>it. nw_id it \<noteq> DEFAULT_STATUS_ITEM_ID) (take n xs) = take n xs"
    "\<not> list_ex (\<lambda>it. nw_id it = DEFAULT_STATUS_ITEM_ID) (take n xs)"
    using assms by (auto simp: list_all_iff list_ex_iff intro!: filter_True dest: in_set_takeD)
  have own': "filter (\<lambda>it. nw_id it \<noteq> DEFAULT_STATUS_ITEM_ID) xs = xs"
    using assms by (auto simp: list_all_iff intro!: filter_True)
  have base: "nw_id (makeBaselineStatusItem now :: 'p NodePendingWorkItem) = DEFAULT_STATUS_ITEM_ID"
    by (simp add: makeBaselineStatusItem_def)
  have n: "min (length xs) n < n \<longleftrightarrow> length xs < n" by auto
  show ?thesis
    by (cases "incl \<and> \<not> list_ex (\<lambda>it. nw_type it = StatusRequest) xs"; cases "length xs < n")
      (auto simp: drain_items_def Let_def own own' base n)
qed

lemma drain_tables:
  assumes "table_ok tbl" "js_trim raw \<noteq> []"
  shows "live_items now (js_trim raw) (snd (drainNodePendingWork lc now raw opts tbl)) = live_items now (js_trim raw) tbl"
proof (cases "jm_get tbl (js_trim raw)")
  case (Some st)
  have "filter (item_live now) (jm_values (ns_itemsById st)) = []" if "ns_itemsById (pruneExpired st now) = []"
    using pruned_items [of st now] that by (simp add: jm_values_def)
  then show ?thesis using assms Some
    by (simp add: drainNodePendingWork_def Let_def live_items_def pruneStateIfEmpty_def pruned_items)
qed (use assms in \<open>simp add: drainNodePendingWork_def Let_def live_items_def\<close>)


section \<open>Properties\<close>

text \<open>Whatever sequence of enqueues, drains and acknowledgements runs, with whatever clock and
  ids, the table of pending work stays well formed: every node in it is named by a non-empty trimmed
  id and has work, its items are stored under their own id, each once, and no two items of a node
  have the same type.\<close>
lemma pending_work_well_formed: "table_ok (fold (work_op lc) ops [])"
  by (rule work.reachable_inv [OF fold_reachable [OF reach_start]]) simp

text \<open>A drain returns the live items of the node ordered by priority and then by age, cut at
  the requested maximum (between 1 and 10), with the baseline status request after them when it is
  wanted, no live item asks for a status and there is room; \<open>hasMore\<close> tells exactly whether
  something was left out; and no live item leaves the table, since only an acknowledgement removes
  one.\<close>
lemma drain_returns_live_work:
  assumes "table_ok tbl" "js_trim raw \<noteq> []" "max_items (do_maxItems opts) = Some n"
    and "list_all (\<lambda>it. nw_id it \<noteq> DEFAULT_STATUS_ITEM_ID) (live_items now (js_trim raw) tbl)"
  shows "\<exists>xs r tbl'. drainNodePendingWork lc now raw opts tbl = (r, tbl')
    \<and> mset xs = mset (live_items now (js_trim raw) tbl) \<and> sorted_wrt work_before xs \<and> 1 \<le> n \<and> n \<le> 10
    \<and> (let wanted = do_includeDefaultStatus opts \<noteq> Some False \<and> \<not> list_ex (\<lambda>it. nw_type it = StatusRequest) xs
       in dr_items r = take n xs @ (if wanted \<and> length xs < n then [makeBaselineStatusItem now] else [])
        \<and> dr_hasMore r = (n < length xs \<or> wanted \<and> n \<le> length xs))
    \<and> live_items now (js_trim raw) tbl' = live_items now (js_trim raw) tbl"
proof -
  define xs where "xs = (case jm_get tbl (js_trim raw) of None \<Rightarrow> [] | Some st \<Rightarrow> sortedItems lc (pruneExpired st now))"
  have all: "mset xs = mset (live_items now (js_trim raw) tbl)"
    by (simp add: xs_def live_items_def drained_items split: option.splits)
  have ids: "list_all (\<lambda>it. nw_id it \<noteq> DEFAULT_STATUS_ITEM_ID) xs"
    using assms(4) mset_eq_setD [OF all] by (simp add: list_all_iff)
  have sorted: "sorted_wrt work_before xs" by (simp add: xs_def sorted_items split: option.splits)
  have "fst (drainNodePendingWork lc now raw opts tbl) =
      drain_items now (Some n) (do_includeDefaultStatus opts \<noteq> Some False)
        (case jm_get tbl (js_trim raw) of None \<Rightarrow> 0 | Some st \<Rightarrow> ns_revision st) xs"
    using assms(2,3) by (cases "jm_get tbl (js_trim raw)") (simp_all add: drainNodePendingWork_def Let_def xs_def)
  moreover obtain r tbl' where run: "drainNodePendingWork lc now raw opts tbl = (r, tbl')" by force
  ultimately have r: "r = drain_items now (Some n) (do_includeDefaultStatus opts \<noteq> Some False)
        (case jm_get tbl (js_trim raw) of None \<Rightarrow> 0 | Some st \<Rightarrow> ns_revision st) xs"
    by simp
  have n: "1 \<le> n" "n \<le> 10" using max_items_bounds [OF assms(3)] by simp_all
  have "live_items now (js_trim raw) tbl' = live_items now (js_trim raw) tbl"
    using drain_tables [OF assms(1,2), of now lc opts] run by simp
  then show ?thesis
    by (intro exI [of _ xs] exI [of _ r] exI [of _ tbl'])
      (simp add: run r all sorted n [simplified] drain_items_spec [OF ids] Let_def)
qed

definition two_items :: "unit NodeTable" where
  "two_items = fold (work_op (\<lambda>_ _. 0))
     [WorkEnqueue 5 ''a'' '' n'' LocationRequest None None None,
      WorkEnqueue 6 ''b'' ''n'' StatusRequest (Some PriorityHigh) (Some (Fin 2000)) None] []"

lemma drain_returns_live_work_witness:
  "\<exists>xs r tbl'. drainNodePendingWork (\<lambda>_ _. 0) 10 ''n'' \<lparr>do_maxItems = Some (Fin 1), do_includeDefaultStatus = None\<rparr> two_items = (r, tbl')
    \<and> mset xs = mset (live_items 10 ''n'' two_items) \<and> length xs = 2 \<and> dr_hasMore r"
proof -
  have max: "max_items (Some (Fin 1)) = Some 1" by (simp add: max_items_def js_trunc_def)
  have trim: "js_trim ''n'' = ''n''" by code_simp
  have ids: "live_items 10 ''n'' two_items
    = [\<lparr>nw_id = ''a'', nw_type = LocationRequest, nw_priority = PriorityNormal, nw_createdAtMs = 5, nw_expiresAtMs = None, nw_payload = None\<rparr>,
       \<lparr>nw_id = ''b'', nw_type = StatusRequest, nw_priority = PriorityHigh, nw_createdAtMs = 6, nw_expiresAtMs = Some 2006, nw_payload = None\<rparr>]"
    by code_simp
  have ok: "table_ok two_items" by code_simp
  let ?opts = "\<lparr>do_maxItems = Some (Fin 1), do_includeDefaultStatus = None\<rparr>"
  have hyps: "js_trim ''n'' \<noteq> []" "max_items (do_maxItems ?opts) = Some 1"
    "list_all (\<lambda>it. nw_id it \<noteq> DEFAULT_STATUS_ITEM_ID) (live_items 10 (js_trim ''n'') two_items)"
    by (simp_all add: max trim ids DEFAULT_STATUS_ITEM_ID_def)
  obtain xs r tbl' where run: "drainNodePendingWork (\<lambda>_ _. 0) 10 ''n'' ?opts two_items = (r, tbl')"
      and all: "mset xs = mset (live_items 10 ''n'' two_items)"
      and more: "1 < length xs \<Longrightarrow> dr_hasMore r"
    using drain_returns_live_work [OF ok hyps, of "\<lambda>_ _. 0"] unfolding trim by (auto simp: Let_def)
  have "length xs = 2" using mset_eq_length [OF all] by (simp add: ids)
  then show ?thesis using run all more by auto
qed

end
