(* ===== verification/QueueHelpers.thy ===== *)
theory QueueHelpers
  imports JsString JsMap Complex_Main
begin

text \<open>
  What the queues of the auto-reply pipeline share (src/src/utils/queue-helpers.ts): the drop
  policy of a full queue, summaries of what was dropped, and prompts that collect several items.
  Caps and debounce times are finite numbers. The ellipsis, U+2026, is an argument.
\<close>

section \<open>State\<close>

datatype QueueDropPolicy = DropSummarize | DropOld | DropNew

record QueueSummaryState =
  qs_dropPolicy :: QueueDropPolicy
  qs_droppedCount :: nat
  qs_summaryLines :: "string list"

record 'a QueueItems = QueueSummaryState +
  qs_items :: "'a list"
  qs_cap :: int

definition clearQueueSummaryState :: "'m QueueSummaryState_scheme \<Rightarrow> 'm QueueSummaryState_scheme" where
  "clearQueueSummaryState st = st\<lparr>qs_droppedCount := 0, qs_summaryLines := []\<rparr>"

section \<open>Settings\<close>

record 'm RuntimeSettings =
  rs_mode :: 'm
  rs_debounceMs :: "rat option"
  rs_cap :: "rat option"
  rs_dropPolicy :: "QueueDropPolicy option"

text \<open>The settings given that are usable replace those of the target.\<close>

definition applyQueueRuntimeSettings ::
  "'m RuntimeSettings \<Rightarrow> 'm \<times> rat \<times> int \<times> QueueDropPolicy \<Rightarrow> 'm \<times> rat \<times> int \<times> QueueDropPolicy" where
  "applyQueueRuntimeSettings settings target =
    (case target of (mode, debounceMs, cap, dropPolicy) \<Rightarrow>
      (rs_mode settings,
       (case rs_debounceMs settings of None \<Rightarrow> debounceMs | Some d \<Rightarrow> max 0 d),
       (case rs_cap settings of None \<Rightarrow> cap | Some c \<Rightarrow> if 0 < c then \<lfloor>c\<rfloor> else cap),
       or_else (rs_dropPolicy settings) dropPolicy))"

section \<open>Text\<close>

definition elideQueueText :: "string \<Rightarrow> string \<Rightarrow> nat \<Rightarrow> string" where
  "elideQueueText ellipsis s limit =
    (if length s \<le> limit then s else trim_end (take (limit - 1) s) @ ellipsis)"

fun collapse_spaces :: "string \<Rightarrow> string" where
  "collapse_spaces [] = []"
| "collapse_spaces (c # cs) =
     (if is_js_space c
      then (case cs of d # ds \<Rightarrow> if is_js_space d then collapse_spaces cs else CHR '' '' # collapse_spaces cs | [] \<Rightarrow> '' '')
      else c # collapse_spaces cs)"

definition buildQueueSummaryLine :: "string \<Rightarrow> string \<Rightarrow> nat \<Rightarrow> string" where
  "buildQueueSummaryLine ellipsis s limit = elideQueueText ellipsis (js_trim (collapse_spaces s)) limit"

section \<open>Dropping\<close>

definition shouldSkipQueueItem :: "'a \<Rightarrow> 'a list \<Rightarrow> ('a \<Rightarrow> 'a list \<Rightarrow> bool) option \<Rightarrow> bool" where
  "shouldSkipQueueItem item items dedupe = (case dedupe of None \<Rightarrow> False | Some f \<Rightarrow> f item items)"

text \<open>Makes room for one more item, or refuses it; the dropped items are returned for the callback.\<close>

definition applyQueueDropPolicy ::
  "string \<Rightarrow> ('a \<Rightarrow> string) \<Rightarrow> int option \<Rightarrow> ('a, 'm) QueueItems_scheme \<Rightarrow> bool \<times> 'a list \<times> ('a, 'm) QueueItems_scheme" where
  "applyQueueDropPolicy ellipsis summarize summaryLimit q =
    (let cap = qs_cap q in
     if cap \<le> 0 \<or> int (length (qs_items q)) < cap then (True, [], q)
     else if qs_dropPolicy q = DropNew then (False, [], q)
     else
      (let dropCount = nat (int (length (qs_items q)) - cap + 1);
           dropped = take dropCount (qs_items q);
           q = q\<lparr>qs_items := drop dropCount (qs_items q)\<rparr>;
           lines = qs_summaryLines q @ map (\<lambda>i. buildQueueSummaryLine ellipsis (summarize i) 160) dropped;
           limit = nat (max 0 (or_else summaryLimit cap))
       in (True, dropped,
           if qs_dropPolicy q = DropSummarize
           then q\<lparr>qs_droppedCount := qs_droppedCount q + length dropped,
                  qs_summaryLines := drop (length lines - limit) lines\<rparr>
           else q)))"

section \<open>Prompts\<close>

definition newline :: string where "newline = [char_of (10 :: nat)]"

definition buildQueueSummaryPrompt ::
  "'m QueueSummaryState_scheme \<Rightarrow> string \<Rightarrow> string option \<Rightarrow> string option \<times> 'm QueueSummaryState_scheme" where
  "buildQueueSummaryPrompt st noun title =
    (if qs_dropPolicy st \<noteq> DropSummarize \<or> qs_droppedCount st \<le> 0 then (None, st)
     else
      (let title = or_else title (''[Queue overflow] Dropped '' @ nat_to_dec (qs_droppedCount st) @ '' '' @ noun @
             (if qs_droppedCount st = 1 then [] else ''s'') @ '' due to cap.'');
           lines = title # (if qs_summaryLines st \<noteq> []
             then (''Summary'' @ [CHR '':'']) # map (\<lambda>l. ''- '' @ l) (qs_summaryLines st) else [])
       in (Some (join_with newline lines), clearQueueSummaryState st)))"

definition previewQueueSummaryPrompt :: "'m QueueSummaryState_scheme \<Rightarrow> string \<Rightarrow> string option \<Rightarrow> string option" where
  "previewQueueSummaryPrompt st noun title =
    fst (buildQueueSummaryPrompt
      \<lparr>qs_dropPolicy = qs_dropPolicy st, qs_droppedCount = qs_droppedCount st, qs_summaryLines = qs_summaryLines st\<rparr> noun title)"

definition buildCollectPrompt :: "string \<Rightarrow> 'a list \<Rightarrow> string option \<Rightarrow> ('a \<Rightarrow> nat \<Rightarrow> string) \<Rightarrow> string" where
  "buildCollectPrompt title items summary renderItem =
    join_with (newline @ newline)
      ([title] @ (case summary of None \<Rightarrow> [] | Some s \<Rightarrow> if s \<noteq> [] then [s] else [])
        @ map (\<lambda>(idx, item). renderItem item idx) (enumerate 0 items))"

section \<open>Draining\<close>

definition hasCrossChannelItems :: "'a list \<Rightarrow> ('a \<Rightarrow> string option \<times> bool) \<Rightarrow> bool" where
  "hasCrossChannelItems items resolveKey =
    (list_ex (\<lambda>i. snd (resolveKey i)) items
     \<or> 1 < length (uniq (filter (\<lambda>k. k \<noteq> []) (map (\<lambda>i. or_else (fst (resolveKey i)) []) items))))"

text \<open>The debounce timer: has the queue been quiet for long enough?\<close>

definition waitForQueueDebounce :: "bool \<Rightarrow> rat \<Rightarrow> rat \<Rightarrow> rat \<Rightarrow> bool" where
  "waitForQueueDebounce testFast debounceMs lastEnqueuedAt now \<longleftrightarrow>
     testFast \<or> max 0 debounceMs \<le> 0 \<or> max 0 debounceMs \<le> now - lastEnqueuedAt"

section \<open>Facts\<close>

lemma drop_policy_room:
  "applyQueueDropPolicy e f lmt q = (True, dropped, q') \<Longrightarrow> 0 < qs_cap q \<Longrightarrow> int (length (qs_items q')) < qs_cap q"
  by (auto simp: applyQueueDropPolicy_def Let_def split: if_splits)

lemma drop_policy_items:
  "applyQueueDropPolicy e f lmt q = (ok, dropped, q') \<Longrightarrow> qs_items q = dropped @ qs_items q'"
  by (auto simp: applyQueueDropPolicy_def Let_def split: if_splits)

lemma drop_policy_none:
  "int (length (qs_items q)) < qs_cap q \<Longrightarrow> applyQueueDropPolicy e f lmt q = (True, [], q)"
  by (simp add: applyQueueDropPolicy_def Let_def)

lemma elide_length: "length ellipsis = 1 \<Longrightarrow> 0 < limit \<Longrightarrow> length (elideQueueText ellipsis s limit) \<le> limit"
proof -
  assume e: "length ellipsis = 1" and "0 < limit"
  have "length (trim_end u) \<le> length u" for u
    by (simp add: trim_end_def) (metis length_dropWhile_le length_rev)
  from this [of "take (limit - 1) s"] show ?thesis using e \<open>0 < limit\<close> by (auto simp: elideQueueText_def)
qed

end
