(* ===== verification/JsJson.thy ===== *)
theory JsJson
  imports JsString
begin

text \<open>
  \<open>JSON.stringify\<close> of an array of strings and booleans, as the source uses it to build keys
  that can not collide: the text of an array determines the array.
\<close>

section \<open>Strings\<close>

definition hex_digit :: "nat \<Rightarrow> char" where
  "hex_digit k = char_of (if k < 10 then 48 + k else 87 + k)"

definition json_esc :: "char \<Rightarrow> string" where
  "json_esc c =
    (let n = of_char c in
     if n = 34 then [CHR 0x5C, CHR 0x22]
     else if n = 92 then [CHR 0x5C, CHR 0x5C]
     else if n = 8 then [CHR 0x5C, CHR ''b'']
     else if n = 9 then [CHR 0x5C, CHR ''t'']
     else if n = 10 then [CHR 0x5C, CHR ''n'']
     else if n = 12 then [CHR 0x5C, CHR ''f'']
     else if n = 13 then [CHR 0x5C, CHR ''r'']
     else if n < (32 :: nat) then [CHR 0x5C, CHR ''u'', CHR ''0'', CHR ''0'', hex_digit (n div 16), hex_digit (n mod 16)]
     else [c])"

definition json_quote :: "string \<Rightarrow> string" where
  "json_quote s = CHR 0x22 # concat (map json_esc s) @ [CHR 0x22]"

text \<open>Reading one escaped character back.\<close>

definition hex_value :: "char \<Rightarrow> nat" where
  "hex_value c = (if of_char c < (58 :: nat) then of_char c - 48 else of_char c - 87)"

fun json_unesc :: "string \<Rightarrow> char \<times> string" where
  "json_unesc (c # d # r) =
     (if c \<noteq> CHR 0x5C then (c, d # r)
      else if d = CHR ''b'' then (char_of (8 :: nat), r)
      else if d = CHR ''t'' then (char_of (9 :: nat), r)
      else if d = CHR ''n'' then (char_of (10 :: nat), r)
      else if d = CHR ''f'' then (char_of (12 :: nat), r)
      else if d = CHR ''r'' then (char_of (13 :: nat), r)
      else if d = CHR ''u'' then (char_of (16 * hex_value (r ! 2) + hex_value (r ! 3)), drop 4 r)
      else (d, r))"
| "json_unesc r = (hd r, tl r)"

lemma hex_value_digit: "k < 16 \<Longrightarrow> hex_value (hex_digit k) = k"
  by (auto simp: hex_value_def hex_digit_def)

lemma char_eq_of_nat: "of_char c = n \<Longrightarrow> c = char_of (n :: nat)"
  by (metis char_of_char)

lemma json_unesc_esc: "json_unesc (json_esc c @ x) = (c, x)"
proof -
  define n :: nat where "n = of_char c"
  have c: "c = char_of n" by (simp add: n_def)
  have quotes: "char_of (34 :: nat) = CHR 0x22" "char_of (92 :: nat) = CHR 0x5C" by (simp_all add: char_of_def bit_0)
  consider "n = 34" | "n = 92" | "n = 8" | "n = 9" | "n = 10" | "n = 12" | "n = 13"
    | (control) "n < 32" "n \<notin> {8, 9, 10, 12, 13}" | (plain) "32 \<le> n" "n \<noteq> 34" "n \<noteq> 92" by force
  then show ?thesis
  proof cases
    case control
    have "n div 16 < 16" "n mod 16 < 16" using control(1) by auto
    then show ?thesis using control n_def
      by (simp add: json_esc_def c [symmetric] hex_value_digit Let_def)
  next
    case plain
    have "c \<noteq> CHR 0x5C" using plain n_def by auto
    then show ?thesis using plain n_def by (cases x) (simp_all add: json_esc_def)
  qed (simp_all add: json_esc_def n_def [symmetric] c quotes)
qed

lemma json_esc_head: "json_esc c = d # r \<Longrightarrow> d \<noteq> CHR 0x22"
  by (auto simp: json_esc_def Let_def split: if_splits)

lemma json_esc_not_Nil: "json_esc c \<noteq> []"
  by (simp add: json_esc_def Let_def)

lemma json_body_unique:
  "concat (map json_esc s) @ CHR 0x22 # x = concat (map json_esc t) @ CHR 0x22 # y \<Longrightarrow> s = t \<and> x = y"
proof (induction s arbitrary: t)
  case Nil
  show ?case
  proof (cases t)
    case (Cons c t')
    obtain d r where "json_esc c = d # r" using json_esc_not_Nil by (cases "json_esc c") auto
    then show ?thesis using Nil Cons json_esc_head by auto
  qed (use Nil in simp)
next
  case (Cons c s)
  show ?case
  proof (cases t)
    case Nil
    obtain d r where "json_esc c = d # r" using json_esc_not_Nil by (cases "json_esc c") auto
    then show ?thesis using Cons.prems Nil json_esc_head by auto
  next
    case (Cons d t')
    have "json_unesc (json_esc c @ concat (map json_esc s) @ CHR 0x22 # x)
        = json_unesc (json_esc d @ concat (map json_esc t') @ CHR 0x22 # y)"
      using Cons.prems Cons by simp
    then have "c = d" "concat (map json_esc s) @ CHR 0x22 # x = concat (map json_esc t') @ CHR 0x22 # y"
      by (simp_all add: json_unesc_esc)
    then show ?thesis using Cons.IH [of t'] Cons by simp
  qed
qed

lemma json_quote_unique: "json_quote s @ x = json_quote t @ y \<longleftrightarrow> s = t \<and> x = y"
  using json_body_unique [of s x t y] by (auto simp: json_quote_def)

section \<open>Arrays of strings and booleans\<close>

datatype json_atom = JAStr string | JABool bool

definition json_atom_text :: "json_atom \<Rightarrow> string" where
  "json_atom_text a = (case a of JAStr s \<Rightarrow> json_quote s | JABool b \<Rightarrow> if b then ''true'' else ''false'')"

definition json_array :: "json_atom list \<Rightarrow> string" where
  "json_array as = ''['' @ join_with '','' (map json_atom_text as) @ '']''"

definition json_strings :: "string list \<Rightarrow> string" where
  "json_strings xs = json_array (map JAStr xs)"

lemma json_atom_unique: "json_atom_text a @ x = json_atom_text b @ y \<longleftrightarrow> a = b \<and> x = y"
  by (cases a; cases b; auto simp: json_atom_text_def json_quote_unique; simp add: json_quote_def)

lemma json_array_unique: "json_array as = json_array bs \<longleftrightarrow> as = bs"
proof
  have tails: "concat (map (\<lambda>a. '','' @ json_atom_text a) as) @ '']'' = concat (map (\<lambda>a. '','' @ json_atom_text a) bs) @ '']''
      \<Longrightarrow> as = bs" for as bs
  proof (induction as arbitrary: bs)
    case Nil
    then show ?case by (cases bs) auto
  next
    case (Cons a as)
    then show ?case by (cases bs) (auto simp: json_atom_unique)
  qed
  have joined: "join_with '','' (map json_atom_text (a # as)) =
      json_atom_text a @ concat (map (\<lambda>a. '','' @ json_atom_text a) as)" for a as
    by (induction as arbitrary: a) auto
  have first: "json_atom_text a @ x \<noteq> '']''" for a x
    by (cases a) (auto simp: json_atom_text_def json_quote_def)
  assume eq: "json_array as = json_array bs"
  show "as = bs"
  proof (cases as; cases bs)
    fix a as' b bs' assume ab: "as = a # as'" "bs = b # bs'"
    then have "json_atom_text a @ concat (map (\<lambda>a. '','' @ json_atom_text a) as') @ '']''
        = json_atom_text b @ concat (map (\<lambda>a. '','' @ json_atom_text a) bs') @ '']''"
      using eq unfolding json_array_def ab joined by simp
    then have "a = b" "as' = bs'" using tails by (simp_all add: json_atom_unique)
    then show ?thesis by (simp add: ab)
  next
    fix a as' assume "as = a # as'" "bs = []"
    then show ?thesis using eq first unfolding json_array_def by (simp add: joined del: list.map(2))
  next
    fix b bs' assume "as = []" "bs = b # bs'"
    then show ?thesis using eq first [THEN not_sym] unfolding json_array_def by (simp add: joined del: list.map(2))
  qed simp
qed simp

lemma json_strings_unique [simp]: "json_strings xs = json_strings ys \<longleftrightarrow> xs = ys"
proof -
  have "inj JAStr" by (auto intro: injI)
  then show ?thesis by (simp add: json_strings_def json_array_unique inj_map_eq_map)
qed

end
