(* ===== verification/ChannelRoute.thy ===== *)
theory ChannelRoute
  imports JsJson AccountIds SessionKeys
begin

text \<open>
  Routes of messages and the keys that compare them (src/src/plugin-sdk/channel-route.ts).
  A field of unknown type enters as its string value, \<open>None\<close> when it holds no string; a thread
  id is a string or an integer.
\<close>

section \<open>Routes\<close>

datatype ChannelRouteThreadKind = TopicThread | PlainThread | ReplyThread

datatype ChannelRouteThreadSource = ExplicitSource | TargetSource | SessionSource | TurnSource

record RouteTarget =
  rt_to :: string
  rt_rawTo :: "string option"
  rt_chatType :: "ChatType option"

record RouteThread =
  rh_id :: js_entry
  rh_kind :: "ChannelRouteThreadKind option"
  rh_source :: "ChannelRouteThreadSource option"

record ChannelRouteRef =
  cr_channel :: "string option"
  cr_accountId :: "string option"
  cr_target :: "RouteTarget option"
  cr_thread :: "RouteThread option"

record ChannelRouteRefInput =
  ci_channel :: "string option"
  ci_accountId :: "string option"
  ci_to :: "string option"
  ci_rawTo :: "string option"
  ci_chatType :: "ChatType option"
  ci_threadId :: "js_entry option"
  ci_threadKind :: "ChannelRouteThreadKind option"
  ci_threadSource :: "ChannelRouteThreadSource option"

definition normalizeRouteThreadId :: "js_entry option \<Rightarrow> js_entry option" where
  "normalizeRouteThreadId v =
    (case v of None \<Rightarrow> None
     | Some (ENum n) \<Rightarrow> Some (ENum n)
     | Some (EStr s) \<Rightarrow> map_option EStr (normalizeOptionalString (Some s)))"

definition stringifyRouteThreadId :: "js_entry option \<Rightarrow> string option" where
  "stringifyRouteThreadId v = map_option js_String (normalizeRouteThreadId v)"

definition normalizeChannelRouteRef :: "ChannelRouteRefInput option \<Rightarrow> ChannelRouteRef option" where
  "normalizeChannelRouteRef input =
    (case input of None \<Rightarrow> None
     | Some i \<Rightarrow>
        (let channel = normalizeLowercaseStringOrEmpty (ci_channel i);
             accountId = (case ci_accountId i of None \<Rightarrow> None | Some a \<Rightarrow> normalizeOptionalAccountId (Some a));
             to = normalizeOptionalString (ci_to i);
             rawTo = normalizeOptionalString (ci_rawTo i);
             threadId = normalizeRouteThreadId (ci_threadId i)
         in if channel = [] \<and> to = None \<and> accountId = None \<and> threadId = None then None
            else Some
             \<lparr>cr_channel = (if channel \<noteq> [] then Some channel else None),
              cr_accountId = accountId,
              cr_target = map_option (\<lambda>t. \<lparr>rt_to = t, rt_rawTo = (if rawTo \<noteq> Some t then rawTo else None),
                rt_chatType = ci_chatType i\<rparr>) to,
              cr_thread = map_option (\<lambda>t. \<lparr>rh_id = t, rh_kind = ci_threadKind i, rh_source = ci_threadSource i\<rparr>) threadId\<rparr>))"

definition channelRouteTarget :: "ChannelRouteRef option \<Rightarrow> string option" where
  "channelRouteTarget r = map_option rt_to (Option.bind r cr_target)"

definition channelRouteThreadId :: "ChannelRouteRef option \<Rightarrow> js_entry option" where
  "channelRouteThreadId r = map_option rh_id (Option.bind r cr_thread)"

text \<open>The input of a target has no thread kind or source.\<close>

definition normalizeChannelRouteTarget :: "ChannelRouteRefInput option \<Rightarrow> ChannelRouteRef option" where
  "normalizeChannelRouteTarget input = normalizeChannelRouteRef input"

section \<open>Targets with a channel's parser\<close>

record ChannelRouteExplicitTarget =
  et_to :: string
  et_threadId :: "js_entry option"
  et_chatType :: "ChatType option"

record ChannelRouteParsedTarget =
  pt_channel :: string
  pt_rawTo :: string
  pt_to :: string
  pt_threadId :: "js_entry option"
  pt_chatType :: "ChatType option"

definition resolveChannelRouteTargetWithParser ::
  "(string \<Rightarrow> string \<Rightarrow> ChannelRouteExplicitTarget option) \<Rightarrow> string \<Rightarrow> string option \<Rightarrow> js_entry option
    \<Rightarrow> ChannelRouteParsedTarget option" where
  "resolveChannelRouteTargetWithParser parseExplicitTarget channel rawTarget fallbackThreadId =
    (let channel = normalizeLowercaseStringOrEmpty (Some channel) in
     case normalizeOptionalString rawTarget of
       None \<Rightarrow> None
     | Some rawTo \<Rightarrow>
        if channel = [] then None
        else
         (let parsed = parseExplicitTarget channel rawTo;
              fallback = normalizeRouteThreadId fallbackThreadId;
              own = Option.bind parsed et_threadId
          in Some \<lparr>pt_channel = channel, pt_rawTo = rawTo, pt_to = or_else (map_option et_to parsed) rawTo,
               pt_threadId = normalizeRouteThreadId (if own \<noteq> None then own else fallback),
               pt_chatType = Option.bind parsed et_chatType\<rparr>))"

section \<open>Keys and comparisons\<close>

definition route_parts :: "ChannelRouteRef option \<Rightarrow> string list" where
  "route_parts r =
    [or_else (Option.bind r cr_channel) [], or_else (channelRouteTarget r) [], or_else (Option.bind r cr_accountId) [],
     or_else (stringifyRouteThreadId (channelRouteThreadId r)) []]"

definition channelRouteDedupeKey :: "ChannelRouteRefInput option \<Rightarrow> string" where
  "channelRouteDedupeKey input = json_strings (route_parts (normalizeChannelRouteTarget input))"

definition threadIdsEqual :: "js_entry option \<Rightarrow> js_entry option \<Rightarrow> bool" where
  "threadIdsEqual l r \<longleftrightarrow> stringifyRouteThreadId l = stringifyRouteThreadId r"

definition accountsCompatible :: "string option \<Rightarrow> string option \<Rightarrow> bool" where
  "accountsCompatible l r \<longleftrightarrow> or_else l [] = [] \<or> or_else r [] = [] \<or> l = r"

definition accountsEqual :: "string option \<Rightarrow> string option \<Rightarrow> bool" where
  "accountsEqual l r \<longleftrightarrow> or_else l [] = or_else r []"

definition channelRoutesMatchExact :: "ChannelRouteRef option \<Rightarrow> ChannelRouteRef option \<Rightarrow> bool" where
  "channelRoutesMatchExact left right =
    (case (left, right) of
       (Some l, Some r) \<Rightarrow>
         cr_channel l = cr_channel r \<and> map_option rt_to (cr_target l) = map_option rt_to (cr_target r)
         \<and> accountsEqual (cr_accountId l) (cr_accountId r)
         \<and> threadIdsEqual (map_option rh_id (cr_thread l)) (map_option rh_id (cr_thread r))
     | _ \<Rightarrow> False)"

definition channelRoutesShareConversation :: "ChannelRouteRef option \<Rightarrow> ChannelRouteRef option \<Rightarrow> bool" where
  "channelRoutesShareConversation left right =
    (case (left, right) of
       (Some l, Some r) \<Rightarrow>
         if cr_channel l \<noteq> cr_channel r \<or> map_option rt_to (cr_target l) \<noteq> map_option rt_to (cr_target r)
           \<or> \<not> accountsCompatible (cr_accountId l) (cr_accountId r) then False
         else if cr_thread l = None \<or> cr_thread r = None then True
         else threadIdsEqual (map_option rh_id (cr_thread l)) (map_option rh_id (cr_thread r))
     | _ \<Rightarrow> False)"

definition channelRouteTargetsMatchExact :: "ChannelRouteRefInput option \<Rightarrow> ChannelRouteRefInput option \<Rightarrow> bool" where
  "channelRouteTargetsMatchExact l r = channelRoutesMatchExact (normalizeChannelRouteTarget l) (normalizeChannelRouteTarget r)"

definition channelRouteTargetsShareConversation :: "ChannelRouteRefInput option \<Rightarrow> ChannelRouteRefInput option \<Rightarrow> bool" where
  "channelRouteTargetsShareConversation l r =
    channelRoutesShareConversation (normalizeChannelRouteTarget l) (normalizeChannelRouteTarget r)"

text \<open>A key input is a route or a target.\<close>

definition normalizeChannelRouteKeyInput :: "(ChannelRouteRef + ChannelRouteRefInput) option \<Rightarrow> ChannelRouteRef option" where
  "normalizeChannelRouteKeyInput route =
    (case route of None \<Rightarrow> None
     | Some (Inl r) \<Rightarrow>
         normalizeChannelRouteRef (Some \<lparr>ci_channel = cr_channel r, ci_accountId = cr_accountId r,
           ci_to = map_option rt_to (cr_target r), ci_rawTo = None, ci_chatType = None,
           ci_threadId = map_option rh_id (cr_thread r), ci_threadKind = None, ci_threadSource = None\<rparr>)
     | Some (Inr i) \<Rightarrow> normalizeChannelRouteTarget (Some i))"

definition channelRouteCompactKey :: "(ChannelRouteRef + ChannelRouteRefInput) option \<Rightarrow> string option" where
  "channelRouteCompactKey route =
    (let n = normalizeChannelRouteKeyInput route in
     if Option.bind n cr_channel = None \<or> channelRouteTarget n = None then None
     else Some (join_with ''|'' (route_parts n)))"


section \<open>What a key says\<close>

lemma thread_text_not_Nil: "stringifyRouteThreadId t = Some s \<Longrightarrow> s \<noteq> []"
  by (auto simp: stringifyRouteThreadId_def normalizeRouteThreadId_def js_String_def int_to_dec_def
      normalizeOptionalString_Some_iff split: option.splits js_entry.splits if_splits)

lemma account_not_Nil: "normalizeOptionalAccountId a = Some s \<Longrightarrow> s \<noteq> []"
  using canonical_safe by (auto simp: normalizeOptionalAccountId_def normalizeCanonicalAccountId_def Let_def split: if_splits)

lemma thread_kept: "normalizeRouteThreadId t = Some u \<Longrightarrow> stringifyRouteThreadId (Some u) \<noteq> None"
  by (auto simp: stringifyRouteThreadId_def normalizeRouteThreadId_def normalizeOptionalString_Some_iff
      normalizeOptionalString_def Let_def split: option.splits js_entry.splits if_splits)

lemma never_empty: "normalizeOptionalAccountId a \<noteq> Some []" "normalizeOptionalString b \<noteq> Some []"
  using account_not_Nil by (auto simp: normalizeOptionalString_Some_iff)

text \<open>A normalised route: no part is an empty string, and some part is there.\<close>

definition route_ok :: "ChannelRouteRef \<Rightarrow> bool" where
  "route_ok r \<longleftrightarrow> cr_channel r \<noteq> Some [] \<and> cr_accountId r \<noteq> Some [] \<and> map_option rt_to (cr_target r) \<noteq> Some []
     \<and> (case cr_thread r of None \<Rightarrow> True | Some t \<Rightarrow> stringifyRouteThreadId (Some (rh_id t)) \<noteq> None)
     \<and> (cr_channel r \<noteq> None \<or> cr_accountId r \<noteq> None \<or> cr_target r \<noteq> None \<or> cr_thread r \<noteq> None)"

lemma normalized_ok:
  assumes "normalizeChannelRouteRef i = Some r" shows "route_ok r"
proof -
  obtain x where x: "i = Some x" using assms by (cases i) (auto simp: normalizeChannelRouteRef_def)
  have thread: "case cr_thread r of None \<Rightarrow> True | Some t \<Rightarrow> stringifyRouteThreadId (Some (rh_id t)) \<noteq> None"
    using assms thread_kept [of "ci_threadId x"]
    by (cases "normalizeRouteThreadId (ci_threadId x)") (auto simp: x normalizeChannelRouteRef_def Let_def split: if_splits)
  have "cr_channel r \<noteq> Some [] \<and> cr_accountId r \<noteq> Some [] \<and> map_option rt_to (cr_target r) \<noteq> Some []"
    using assms by (auto simp: x never_empty normalizeChannelRouteRef_def Let_def split: option.splits if_splits)
  moreover have "cr_channel r \<noteq> None \<or> cr_accountId r \<noteq> None \<or> cr_target r \<noteq> None \<or> cr_thread r \<noteq> None"
    using assms by (auto simp: x normalizeChannelRouteRef_def Let_def split: option.splits if_splits)
  ultimately show ?thesis using thread by (simp add: route_ok_def)
qed

lemma thread_text_None [simp]: "stringifyRouteThreadId None = None"
  by (simp add: stringifyRouteThreadId_def normalizeRouteThreadId_def)

lemma parts_eq_iff:
  assumes "route_ok l" "route_ok r"
  shows "route_parts (Some l) = route_parts (Some r) \<longleftrightarrow> channelRoutesMatchExact (Some l) (Some r)"
proof -
  have same: "or_else a [] = or_else b [] \<longleftrightarrow> a = b" if "a \<noteq> Some []" "b \<noteq> Some []" for a b :: "string option"
    using that by (cases a; cases b) auto
  have thr: "stringifyRouteThreadId t \<noteq> Some []" for t using thread_text_not_Nil [of t "[]"] by auto
  show ?thesis
    using assms thr same
    by (simp add: route_ok_def route_parts_def channelRoutesMatchExact_def accountsEqual_def threadIdsEqual_def
        channelRouteTarget_def channelRouteThreadId_def)
qed

lemma parts_empty_iff:
  assumes "route_ok r" shows "route_parts (Some r) \<noteq> route_parts None"
proof -
  have empty: "or_else a [] = [] \<longleftrightarrow> a = None" if "a \<noteq> Some []" for a :: "string option"
    using that by (cases a) auto
  have thr: "stringifyRouteThreadId t \<noteq> Some []" for t using thread_text_not_Nil [of t "[]"] by auto
  show ?thesis
    using assms empty [OF thr]
    by (auto simp: route_ok_def route_parts_def channelRouteTarget_def channelRouteThreadId_def empty split: option.splits)
qed

section \<open>Properties\<close>

text \<open>The dedupe key of a target is exact: two targets have the same key exactly when their
  normalised routes match in channel, address, account and thread, or when neither is a route.\<close>
lemma dedupe_key_exact:
  "channelRouteDedupeKey l = channelRouteDedupeKey r \<longleftrightarrow>
     channelRouteTargetsMatchExact l r \<or> normalizeChannelRouteTarget l = None \<and> normalizeChannelRouteTarget r = None"
proof -
  have ok: "route_ok x" if "normalizeChannelRouteTarget i = Some x" for i x
    using that normalized_ok by (simp add: normalizeChannelRouteTarget_def)
  have none: "\<not> channelRoutesMatchExact a None" "\<not> channelRoutesMatchExact None a" for a
    by (simp_all add: channelRoutesMatchExact_def split: option.splits)
  show ?thesis
    by (cases "normalizeChannelRouteTarget l"; cases "normalizeChannelRouteTarget r")
      (simp_all add: channelRouteDedupeKey_def channelRouteTargetsMatchExact_def none parts_eq_iff ok
        parts_empty_iff parts_empty_iff [THEN not_sym])
qed

text \<open>The compact key is not: an address may hold the separator.\<close>

lemma compact_key_collides:
  "let target = (\<lambda>to account thread. \<lparr>ci_channel = Some ''sms'', ci_accountId = account, ci_to = Some to, ci_rawTo = None,
      ci_chatType = None, ci_threadId = Some (EStr thread), ci_threadKind = None, ci_threadSource = None\<rparr>);
    l = target ''a|b'' None ''t''; r = target ''a'' (Some ''b'') ''|t''
   in channelRouteCompactKey (Some (Inr l)) = channelRouteCompactKey (Some (Inr r))
      \<and> channelRouteDedupeKey (Some l) \<noteq> channelRouteDedupeKey (Some r)"
  by code_simp

lemma accounts_equal_compatible: "accountsEqual l r \<Longrightarrow> accountsCompatible l r"
  by (cases l; cases r) (auto simp: accountsEqual_def accountsCompatible_def)

lemma exact_shares_conversation:
  "channelRouteTargetsMatchExact l r \<Longrightarrow> channelRouteTargetsShareConversation l r"
  by (auto simp: channelRouteTargetsMatchExact_def channelRouteTargetsShareConversation_def channelRoutesMatchExact_def
      channelRoutesShareConversation_def accounts_equal_compatible split: option.splits)

end
