(* ===== verification/FollowupQueue.thy ===== *)
theory FollowupQueue
  imports QueueHelpers ChannelRoute Dedupe CommandQueue
begin

text \<open>
  The follow-up queues of the auto-reply pipeline (src/src/auto-reply/reply/queue): messages that
  arrive while an agent is busy wait in the queue of their session and are drained by one
  asynchronous loop per queue. Queue objects have an identity, so the state holds a list of them
  and a map from keys to positions; a drain is a process suspended at an await, with its program
  point. Between two awaits the code runs without interruption, so every operation here is
  one atomic step. What reaches the outside, and what happens to each message, is recorded in a log.
  Callbacks run their own queue operations only while they are awaited. Values that are only
  passed on have the type \<open>'x\<close>.
\<close>

section \<open>Messages\<close>

datatype QueueMode = Steer | Followup | Collect | Interrupt

type_synonym QueueSettings = "QueueMode RuntimeSettings"

datatype QueueDedupeMode = DedupeMessageId | DedupePrompt | DedupeNone

datatype InboundEventKind = UserRequest | RoomEvent

datatype OverrideSource = AutoSource | UserSource

datatype AbortSignal = Signal nat | AnySignal "AbortSignal list"

fun signal_aborted :: "nat list \<Rightarrow> AbortSignal \<Rightarrow> bool" where
  "signal_aborted ab (Signal n) = (n \<in> set ab)"
| "signal_aborted ab (AnySignal ss) = list_ex (signal_aborted ab) ss"

record ExecOverrides =
  eo_host :: "string option"
  eo_security :: "string option"
  eo_ask :: "string option"
  eo_node :: "string option"

record BashElevated =
  be_enabled :: bool
  be_allowed :: bool
  be_defaultLevel :: "string option"

record 'x AgentRun =
  ru_sessionId :: string
  ru_sessionFile :: string
  ru_provider :: string
  ru_model :: string
  ru_hasSessionModelOverride :: "bool option"
  ru_modelOverrideSource :: "OverrideSource option"
  ru_hasAutoFallbackProvenance :: "bool option"
  ru_authProfileId :: "string option"
  ru_authProfileIdSource :: "OverrideSource option"
  ru_senderId :: "string option"
  ru_senderName :: "string option"
  ru_senderUsername :: "string option"
  ru_senderE164 :: "string option"
  ru_senderIsOwner :: "bool option"
  ru_execOverrides :: "ExecOverrides option"
  ru_bashElevated :: "BashElevated option"
  ru_rest :: 'x

text \<open>The \<open>run\<close> of a message is an object that a session refresh changes in place: messages and queues refer to it.\<close>

record 'x FollowupRun =
  fr_prompt :: string
  fr_currentInboundEventKind :: "InboundEventKind option"
  fr_currentInboundContext :: "'x option"
  fr_abortSignal :: "AbortSignal option"
  fr_deliveryCorrelations :: "'x list option"
  fr_queuedLifecycle :: "nat option"
  fr_messageId :: "string option"
  fr_summaryLine :: "string option"
  fr_enqueuedAt :: rat
  fr_images :: "'x list option"
  fr_imageOrder :: "'x list option"
  fr_originatingChannel :: "string option"
  fr_originatingTo :: "string option"
  fr_originatingAccountId :: "string option"
  fr_originatingThreadId :: "js_entry option"
  fr_run :: nat

section \<open>Queues, drains and the log\<close>

record 'x FollowupQueueState = "'x FollowupRun QueueItems" +
  fq_draining :: bool
  fq_lastEnqueuedAt :: rat
  fq_mode :: QueueMode
  fq_debounceMs :: rat
  fq_summarySources :: "'x FollowupRun list"
  fq_lastRun :: "nat option"

text \<open>The awaits of a drain. The first scan for aborted messages comes before the debounce, the second after it.\<close>

datatype ScanPhase = BeforeDebounce | AfterDebounce

datatype 'x DrainPoint =
  LoopAgain
| ScanRun ScanPhase nat nat "'x FollowupRun"
| ScanDone ScanPhase nat
| DebounceWait rat
| DebounceDone
| CollectEmpty
| CollectSkipped
| ItemRun "'x FollowupRun"
| ItemMissing
| SummaryRun
| SummaryDone
| SummaryItemRun "'x FollowupRun"
| SummaryItemDone "'x FollowupRun"
| GroupRun "string option" "'x FollowupRun list" "'x FollowupRun list list"
| GroupDone "string option" "'x FollowupRun list" "'x FollowupRun list list"
| Throwing
| DrainEnded

record 'x Drain =
  dr_key :: string
  dr_queue :: nat
  dr_callback :: nat
  dr_forceIndividualCollect :: bool
  dr_point :: "'x DrainPoint"

text \<open>
  The log. \<open>Ran\<close> holds the messages that a fulfilled call of the callback was given; \<open>Left\<close> the messages that
  a statement has removed from the queue, with the statement: a drain's \<open>splice\<close> or \<open>shift\<close>, the drop policy, or a clear.
  What a drain removes need not be what it ran: only \<open>Ran\<close> tells what was run.
\<close>

datatype LeaveReason = TakenByDrain | LeftDropped | LeftCleared

datatype 'x FollowupEvent =
  OnEnqueued nat
| OnComplete nat
| RunFollowup nat "'x FollowupRun"
| DrainFailed string
| Admitted nat "'x FollowupRun"
| Ran nat "'x FollowupRun list"
| Left nat LeaveReason "'x FollowupRun list"

record 'x Followups =
  fs_runs :: "'x AgentRun list"
  fs_objects :: "'x FollowupQueueState list"
  fs_queues :: "(string, nat) jsmap"
  fs_callbacks :: "(string, nat) jsmap"
  fs_recent :: Timestamps
  fs_enqueued :: "nat list"
  fs_completed :: "nat list"
  fs_aborted :: "nat list"
  fs_drains :: "'x Drain list"
  fs_log :: "'x FollowupEvent list"

record FollowupEnv =
  fe_ellipsis :: string
  fe_isChannel :: "string \<Rightarrow> bool"
  fe_testFast :: bool

definition no_followups :: "'x Followups" where
  "no_followups = \<lparr>fs_runs = [], fs_objects = [], fs_queues = [], fs_callbacks = [], fs_recent = [], fs_enqueued = [],
     fs_completed = [], fs_aborted = [], fs_drains = [], fs_log = []\<rparr>"

definition queue_at :: "nat \<Rightarrow> 'x Followups \<Rightarrow> 'x FollowupQueueState" where
  "queue_at q s = fs_objects s ! q"

definition run_at :: "nat \<Rightarrow> 'x Followups \<Rightarrow> 'x AgentRun" where
  "run_at r s = fs_runs s ! r"

definition set_queue :: "nat \<Rightarrow> 'x FollowupQueueState \<Rightarrow> 'x Followups \<Rightarrow> 'x Followups" where
  "set_queue q st s = s\<lparr>fs_objects := (fs_objects s)[q := st]\<rparr>"

definition put_log :: "'x FollowupEvent \<Rightarrow> 'x Followups \<Rightarrow> 'x Followups" where
  "put_log e s = s\<lparr>fs_log := fs_log s @ [e]\<rparr>"

section \<open>Lifecycles (types.ts)\<close>

definition isFollowupRunAborted :: "'x Followups \<Rightarrow> 'x FollowupRun \<Rightarrow> bool" where
  "isFollowupRunAborted s run = (case fr_abortSignal run of None \<Rightarrow> False | Some sg \<Rightarrow> signal_aborted (fs_aborted s) sg)"

definition markFollowupRunEnqueued :: "'x FollowupRun \<Rightarrow> 'x Followups \<Rightarrow> 'x Followups" where
  "markFollowupRunEnqueued run s =
    (case fr_queuedLifecycle run of None \<Rightarrow> s
     | Some l \<Rightarrow> if l \<in> set (fs_enqueued s) then s else put_log (OnEnqueued l) (s\<lparr>fs_enqueued := l # fs_enqueued s\<rparr>))"

definition completeFollowupRunLifecycle :: "'x FollowupRun \<Rightarrow> 'x Followups \<Rightarrow> 'x Followups" where
  "completeFollowupRunLifecycle run s =
    (case fr_queuedLifecycle run of None \<Rightarrow> s
     | Some l \<Rightarrow> if l \<in> set (fs_completed s) then s else put_log (OnComplete l) (s\<lparr>fs_completed := l # fs_completed s\<rparr>))"

section \<open>The registry (state.ts)\<close>

definition DEFAULT_QUEUE_DEBOUNCE_MS :: rat where "DEFAULT_QUEUE_DEBOUNCE_MS = 500"
definition DEFAULT_QUEUE_CAP :: int where "DEFAULT_QUEUE_CAP = 20"
definition DEFAULT_QUEUE_DROP :: QueueDropPolicy where "DEFAULT_QUEUE_DROP = DropSummarize"

definition getExistingFollowupQueue :: "string \<Rightarrow> 'x Followups \<Rightarrow> nat option" where
  "getExistingFollowupQueue key s = (let cleaned = js_trim key in if cleaned = [] then None else jm_get (fs_queues s) cleaned)"

definition apply_settings :: "QueueSettings \<Rightarrow> 'x FollowupQueueState \<Rightarrow> 'x FollowupQueueState" where
  "apply_settings settings st =
    (case applyQueueRuntimeSettings settings (fq_mode st, fq_debounceMs st, qs_cap st, qs_dropPolicy st) of
       (mode, debounceMs, cap, dropPolicy) \<Rightarrow>
         st\<lparr>fq_mode := mode, fq_debounceMs := debounceMs, qs_cap := cap, qs_dropPolicy := dropPolicy\<rparr>)"

definition new_queue :: "QueueSettings \<Rightarrow> 'x FollowupQueueState" where
  "new_queue settings =
    \<lparr>qs_dropPolicy = or_else (rs_dropPolicy settings) DEFAULT_QUEUE_DROP, qs_droppedCount = 0, qs_summaryLines = [],
     qs_items = [],
     qs_cap = (case rs_cap settings of None \<Rightarrow> DEFAULT_QUEUE_CAP | Some c \<Rightarrow> if 0 < c then \<lfloor>c\<rfloor> else DEFAULT_QUEUE_CAP),
     fq_draining = False, fq_lastEnqueuedAt = 0, fq_mode = rs_mode settings,
     fq_debounceMs = (case rs_debounceMs settings of None \<Rightarrow> DEFAULT_QUEUE_DEBOUNCE_MS | Some d \<Rightarrow> max 0 d),
     fq_summarySources = [], fq_lastRun = None\<rparr>"

definition getFollowupQueue :: "string \<Rightarrow> QueueSettings \<Rightarrow> 'x Followups \<Rightarrow> nat \<times> 'x Followups" where
  "getFollowupQueue key settings s =
    (case jm_get (fs_queues s) key of
       Some q \<Rightarrow> (q, set_queue q (apply_settings settings (queue_at q s)) s)
     | None \<Rightarrow>
        (let q = length (fs_objects s) in
         (q, s\<lparr>fs_objects := fs_objects s @ [apply_settings settings (new_queue settings)], fs_queues := jm_set key q (fs_queues s)\<rparr>)))"

definition clearFollowupQueue :: "string \<Rightarrow> 'x Followups \<Rightarrow> nat \<times> 'x Followups" where
  "clearFollowupQueue key s =
    (let cleaned = js_trim key in
     case getExistingFollowupQueue cleaned s of
       None \<Rightarrow> (0, s)
     | Some q \<Rightarrow>
        (let st = queue_at q s;
             s' = fold completeFollowupRunLifecycle (qs_items st @ fq_summarySources st) s;
             s' = put_log (Left q LeftCleared (qs_items st)) s';
             s' = set_queue q (st\<lparr>qs_items := [], qs_droppedCount := 0, qs_summaryLines := [], fq_summarySources := [],
                    fq_lastRun := None, fq_lastEnqueuedAt := 0\<rparr>) s'
         in (length (qs_items st) + qs_droppedCount st, s'\<lparr>fs_queues := jm_del cleaned (fs_queues s')\<rparr>)))"

text \<open>An outer \<open>None\<close> is a parameter that is not there at all.\<close>

record RefreshParams =
  rf_key :: string
  rf_previousSessionId :: "string option"
  rf_nextSessionId :: "string option"
  rf_nextSessionFile :: "string option"
  rf_nextProvider :: "string option"
  rf_nextModel :: "string option"
  rf_nextModelOverrideSource :: "OverrideSource option option"
  rf_nextAuthProfileId :: "string option option"
  rf_nextAuthProfileIdSource :: "OverrideSource option option"

definition rewrites_session :: "RefreshParams \<Rightarrow> bool" where
  "rewrites_session p \<longleftrightarrow> or_else (rf_previousSessionId p) [] \<noteq> [] \<and> or_else (rf_nextSessionId p) [] \<noteq> []
     \<and> rf_previousSessionId p \<noteq> rf_nextSessionId p"

definition rewrites_model :: "RefreshParams \<Rightarrow> bool" where
  "rewrites_model p \<longleftrightarrow> rf_nextProvider p \<noteq> None \<or> rf_nextModel p \<noteq> None \<or> rf_nextModelOverrideSource p \<noteq> None"

definition rewrites_selection :: "RefreshParams \<Rightarrow> bool" where
  "rewrites_selection p \<longleftrightarrow> rewrites_model p \<or> rf_nextAuthProfileId p \<noteq> None \<or> rf_nextAuthProfileIdSource p \<noteq> None"

definition rewriteRun :: "RefreshParams \<Rightarrow> 'x AgentRun \<Rightarrow> 'x AgentRun" where
  "rewriteRun p run =
    (let run = (if rewrites_session p \<and> Some (ru_sessionId run) = rf_previousSessionId p
           then run\<lparr>ru_sessionId := the (rf_nextSessionId p),
                    ru_sessionFile := or_else (normalizeOptionalString (rf_nextSessionFile p)) (ru_sessionFile run)\<rparr>
           else run)
     in if \<not> rewrites_selection p then run
        else
         (let run = run\<lparr>ru_provider := or_else (rf_nextProvider p) (ru_provider run), ru_model := or_else (rf_nextModel p) (ru_model run)\<rparr>;
              run = (if rewrites_model p then run\<lparr>ru_hasAutoFallbackProvenance := None\<rparr> else run);
              run = (case rf_nextModelOverrideSource p of None \<Rightarrow> run
                     | Some src \<Rightarrow> run\<lparr>ru_hasSessionModelOverride := Some (ru_provider run \<noteq> [] \<or> ru_model run \<noteq> []), ru_modelOverrideSource := src\<rparr>);
              run = (case rf_nextAuthProfileId p of None \<Rightarrow> run
                     | Some i \<Rightarrow> run\<lparr>ru_authProfileId := normalizeOptionalString i\<rparr>)
          in (case rf_nextAuthProfileIdSource p of None \<Rightarrow> run
              | Some src \<Rightarrow> run\<lparr>ru_authProfileIdSource := (if or_else (ru_authProfileId run) [] \<noteq> [] then src else None)\<rparr>)))"

definition rewrite_at :: "RefreshParams \<Rightarrow> nat \<Rightarrow> 'x Followups \<Rightarrow> 'x Followups" where
  "rewrite_at p r s = s\<lparr>fs_runs := (fs_runs s)[r := rewriteRun p (run_at r s)]\<rparr>"

definition refreshQueuedFollowupSession :: "RefreshParams \<Rightarrow> 'x Followups \<Rightarrow> 'x Followups" where
  "refreshQueuedFollowupSession p s =
    (case getExistingFollowupQueue (js_trim (rf_key p)) s of
       None \<Rightarrow> s
     | Some q \<Rightarrow>
        if \<not> rewrites_session p \<and> \<not> rewrites_selection p then s
        else fold (rewrite_at p)
          ((case fq_lastRun (queue_at q s) of None \<Rightarrow> [] | Some r \<Rightarrow> [r]) @ map fr_run (qs_items (queue_at q s))) s)"


section \<open>Metadata of what is run (drain.ts)\<close>

definition truthy :: "string option \<Rightarrow> bool" where
  "truthy v \<longleftrightarrow> or_else v [] \<noteq> []"

definition thread_given :: "js_entry option \<Rightarrow> bool" where
  "thread_given t \<longleftrightarrow> t \<noteq> None \<and> t \<noteq> Some (EStr [])"

type_synonym OriginRoutingMetadata = "string option \<times> string option \<times> string option \<times> js_entry option"

text \<open>Each field comes from the first message that has it; the loop stops when all are found.\<close>

fun origin_routing :: "'x FollowupRun list \<Rightarrow> OriginRoutingMetadata \<Rightarrow> OriginRoutingMetadata" where
  "origin_routing [] m = m"
| "origin_routing (item # items) (channel, to, account, thread) =
     (let channel = (if \<not> truthy channel \<and> truthy (fr_originatingChannel item) then fr_originatingChannel item else channel);
          to = (if \<not> truthy to \<and> truthy (fr_originatingTo item) then fr_originatingTo item else to);
          account = (if \<not> truthy account \<and> truthy (fr_originatingAccountId item) then fr_originatingAccountId item else account);
          thread = (if thread = None \<and> thread_given (fr_originatingThreadId item) then fr_originatingThreadId item else thread)
      in if truthy channel \<and> truthy to \<and> truthy account \<and> thread \<noteq> None then (channel, to, account, thread)
         else origin_routing items (channel, to, account, thread))"

definition resolveOriginRoutingMetadata :: "'x FollowupRun list \<Rightarrow> OriginRoutingMetadata" where
  "resolveOriginRoutingMetadata items = origin_routing items (None, None, None, None)"

definition resolveFollowupAuthorizationKey :: "'x AgentRun \<Rightarrow> string" where
  "resolveFollowupAuthorizationKey run =
    json_array
     [JAStr (or_else (ru_senderId run) []),
      JAStr (or_else (ru_senderE164 run) []),
      JABool (ru_senderIsOwner run = Some True),
      JAStr (or_else (Option.bind (ru_execOverrides run) eo_host) []),
      JAStr (or_else (Option.bind (ru_execOverrides run) eo_security) []),
      JAStr (or_else (Option.bind (ru_execOverrides run) eo_ask) []),
      JAStr (or_else (Option.bind (ru_execOverrides run) eo_node) []),
      JABool (map_option be_enabled (ru_bashElevated run) = Some True),
      JABool (map_option be_allowed (ru_bashElevated run) = Some True),
      JAStr (or_else (Option.bind (ru_bashElevated run) be_defaultLevel) [])]"

text \<open>The groups so far, the current group and its key.\<close>

fun split_groups ::
  "('a \<Rightarrow> string) \<Rightarrow> 'a list list \<Rightarrow> 'a list \<Rightarrow> string option \<Rightarrow> 'a list \<Rightarrow> 'a list list" where
  "split_groups keyOf groups current key [] = (if current \<noteq> [] then groups @ [current] else groups)"
| "split_groups keyOf groups current key (item # items) =
     (if current = [] \<or> Some (keyOf item) = key
      then split_groups keyOf groups (current @ [item]) (Some (keyOf item)) items
      else split_groups keyOf (groups @ [current]) [item] (Some (keyOf item)) items)"

definition splitCollectItemsByAuthorization :: "'x Followups \<Rightarrow> 'x FollowupRun list \<Rightarrow> 'x FollowupRun list list" where
  "splitCollectItemsByAuthorization s items =
    (if length items \<le> 1 then (if items = [] then [] else [items])
     else split_groups (\<lambda>item. resolveFollowupAuthorizationKey (run_at (fr_run item) s)) [] [] None items)"

definition renderCollectItem :: "'x Followups \<Rightarrow> 'x FollowupRun \<Rightarrow> nat \<Rightarrow> string" where
  "renderCollectItem s item idx =
    (let run = run_at (fr_run item) s;
         senderLabel = (case ru_senderName run of Some n \<Rightarrow> Some n | None \<Rightarrow>
           (case ru_senderUsername run of Some n \<Rightarrow> Some n | None \<Rightarrow>
             (case ru_senderId run of Some n \<Rightarrow> Some n | None \<Rightarrow> ru_senderE164 run)));
         senderSuffix = (if truthy senderLabel then '' (from '' @ the senderLabel @ '')'' else [])
     in js_trim (''---'' @ newline @ ''Queued #'' @ nat_to_dec (idx + 1) @ senderSuffix @ newline @ fr_prompt item))"

definition collectQueuedImages :: "'x FollowupRun list \<Rightarrow> 'x list option \<times> 'x list option" where
  "collectQueuedImages items =
    (let images = concat (map (\<lambda>i. or_else (fr_images i) []) items);
         imageOrder = concat (map (\<lambda>i. or_else (fr_imageOrder i) []) items)
     in (if images \<noteq> [] then Some images else None, if imageOrder \<noteq> [] then Some imageOrder else None))"

definition hasCurrentTurnRuntimeMetadata :: "'x FollowupRun \<Rightarrow> bool" where
  "hasCurrentTurnRuntimeMetadata item \<longleftrightarrow>
     fr_currentInboundEventKind item = Some RoomEvent \<or> fr_currentInboundContext item \<noteq> None"

definition hasRuntimeOnlyFollowupMetadata :: "'x FollowupRun \<Rightarrow> bool" where
  "hasRuntimeOnlyFollowupMetadata item \<longleftrightarrow> hasCurrentTurnRuntimeMetadata item \<or> fr_abortSignal item \<noteq> None
     \<or> or_else (fr_deliveryCorrelations item) [] \<noteq> [] \<or> fr_queuedLifecycle item \<noteq> None"

definition combineAbortSignals :: "'x FollowupRun list \<Rightarrow> AbortSignal option" where
  "combineAbortSignals items =
    (case concat (map (\<lambda>i. case fr_abortSignal i of None \<Rightarrow> [] | Some sg \<Rightarrow> [sg]) items) of
       [] \<Rightarrow> None | [sg] \<Rightarrow> Some sg | sgs \<Rightarrow> Some (AnySignal sgs))"

record 'x FollowupRuntimeMetadata =
  fm_currentInboundEventKind :: "InboundEventKind option"
  fm_currentInboundContext :: "'x option"
  fm_abortSignal :: "AbortSignal option"
  fm_deliveryCorrelations :: "'x list option"
  fm_queuedLifecycle :: "nat option"

definition collectRuntimeMetadata :: "'x FollowupRun list \<Rightarrow> 'x FollowupRun option \<Rightarrow> 'x FollowupRuntimeMetadata" where
  "collectRuntimeMetadata items singletonOwner =
    (let candidates = (case singletonOwner of None \<Rightarrow> items | Some o1 \<Rightarrow> o1 # items);
         currentTurnSource = (case singletonOwner of
            Some o1 \<Rightarrow> if hasCurrentTurnRuntimeMetadata o1 then Some o1 else find hasCurrentTurnRuntimeMetadata items
          | None \<Rightarrow> find hasCurrentTurnRuntimeMetadata items);
         ownSignal = Option.bind singletonOwner fr_abortSignal;
         deliveryCorrelations = concat (map (\<lambda>i. or_else (fr_deliveryCorrelations i) []) items);
         lifecycleSource = (case singletonOwner of Some o1 \<Rightarrow> Some o1
            | None \<Rightarrow> find (\<lambda>i. fr_queuedLifecycle i \<noteq> None) items);
         ownLifecycle = Option.bind singletonOwner fr_queuedLifecycle
     in \<lparr>fm_currentInboundEventKind = Option.bind currentTurnSource fr_currentInboundEventKind,
         fm_currentInboundContext = Option.bind currentTurnSource fr_currentInboundContext,
         fm_abortSignal = (if ownSignal \<noteq> None then ownSignal else combineAbortSignals candidates),
         fm_deliveryCorrelations = (if deliveryCorrelations \<noteq> [] then Some deliveryCorrelations else None),
         fm_queuedLifecycle = (if ownLifecycle \<noteq> None then ownLifecycle
            else if length items = 1 then Option.bind lifecycleSource fr_queuedLifecycle else None)\<rparr>)"

definition collectSummaryRuntimeMetadata :: "'x FollowupRun list \<Rightarrow> 'x FollowupRuntimeMetadata" where
  "collectSummaryRuntimeMetadata items = collectRuntimeMetadata items (if length items = 1 then Some (hd items) else None)"

text \<open>The object literal \<open>{ prompt, run, enqueuedAt, ...routing, ...metadata, ...images }\<close>.\<close>

definition followup_literal ::
  "string \<Rightarrow> nat \<Rightarrow> rat \<Rightarrow> OriginRoutingMetadata \<Rightarrow> 'x FollowupRuntimeMetadata \<Rightarrow> 'x list option \<times> 'x list option \<Rightarrow> 'x FollowupRun" where
  "followup_literal prompt run enqueuedAt routing m images =
    (case routing of (channel, to, account, thread) \<Rightarrow>
      \<lparr>fr_prompt = prompt, fr_currentInboundEventKind = fm_currentInboundEventKind m,
       fr_currentInboundContext = fm_currentInboundContext m, fr_abortSignal = fm_abortSignal m,
       fr_deliveryCorrelations = fm_deliveryCorrelations m, fr_queuedLifecycle = fm_queuedLifecycle m,
       fr_messageId = None, fr_summaryLine = None, fr_enqueuedAt = enqueuedAt,
       fr_images = fst images, fr_imageOrder = snd images,
       fr_originatingChannel = channel, fr_originatingTo = to, fr_originatingAccountId = account,
       fr_originatingThreadId = thread, fr_run = run\<rparr>)"

definition route_input :: "'x FollowupRun \<Rightarrow> ChannelRouteRefInput" where
  "route_input item = \<lparr>ci_channel = fr_originatingChannel item, ci_accountId = fr_originatingAccountId item,
     ci_to = fr_originatingTo item, ci_rawTo = None, ci_chatType = None, ci_threadId = fr_originatingThreadId item,
     ci_threadKind = None, ci_threadSource = None\<rparr>"

definition isRoutableChannel :: "FollowupEnv \<Rightarrow> string option \<Rightarrow> bool" where
  "isRoutableChannel env channel \<longleftrightarrow> truthy channel \<and> channel \<noteq> Some ''webchat'' \<and> fe_isChannel env (or_else channel [])"

definition resolveCrossChannelKey :: "FollowupEnv \<Rightarrow> 'x FollowupRun \<Rightarrow> string option \<times> bool" where
  "resolveCrossChannelKey env item =
    (if \<not> truthy (fr_originatingChannel item) \<and> \<not> truthy (fr_originatingTo item)
        \<and> \<not> truthy (fr_originatingAccountId item) \<and> \<not> thread_given (fr_originatingThreadId item) then (None, False)
     else if \<not> isRoutableChannel env (fr_originatingChannel item) \<or> \<not> truthy (fr_originatingTo item) then (None, True)
     else (case channelRouteCompactKey (Some (Inr (route_input item))) of
        None \<Rightarrow> (None, True) | Some key \<Rightarrow> (Some key, False)))"


section \<open>Draining (drain.ts)\<close>

definition rememberFollowupDrainCallback :: "string \<Rightarrow> nat \<Rightarrow> 'x Followups \<Rightarrow> 'x Followups" where
  "rememberFollowupDrainCallback key cb s = s\<lparr>fs_callbacks := jm_set key cb (fs_callbacks s)\<rparr>"

definition clearFollowupDrainCallback :: "string \<Rightarrow> 'x Followups \<Rightarrow> 'x Followups" where
  "clearFollowupDrainCallback key s = s\<lparr>fs_callbacks := jm_del key (fs_callbacks s)\<rparr>"

definition completeFollowupQueueSummarySources :: "nat \<Rightarrow> 'x Followups \<Rightarrow> 'x Followups" where
  "completeFollowupQueueSummarySources q s =
    (let s' = fold completeFollowupRunLifecycle (fq_summarySources (queue_at q s)) s
     in set_queue q ((queue_at q s')\<lparr>fq_summarySources := []\<rparr>) s')"

definition clearFollowupQueueSummaryState :: "nat \<Rightarrow> 'x Followups \<Rightarrow> 'x Followups" where
  "clearFollowupQueueSummaryState q s =
    (let s = completeFollowupQueueSummarySources q s in set_queue q (clearQueueSummaryState (queue_at q s)) s)"

definition queue_done :: "nat \<Rightarrow> 'x Followups \<Rightarrow> bool" where
  "queue_done q s \<longleftrightarrow> qs_items (queue_at q s) = [] \<and> qs_droppedCount (queue_at q s) = 0"

definition drain_at :: "nat \<Rightarrow> 'x Followups \<Rightarrow> 'x Drain" where
  "drain_at d s = fs_drains s ! d"

definition suspend :: "nat \<Rightarrow> 'x DrainPoint \<Rightarrow> 'x Followups \<Rightarrow> 'x Followups" where
  "suspend d pt s = s\<lparr>fs_drains := (fs_drains s)[d := (drain_at d s)\<lparr>dr_point := pt\<rparr>]\<rparr>"

text \<open>Calls the callback and awaits it.\<close>

definition await_run :: "nat \<Rightarrow> 'x FollowupRun \<Rightarrow> 'x DrainPoint \<Rightarrow> 'x Followups \<Rightarrow> 'x Followups" where
  "await_run d run pt s = suspend d pt (put_log (RunFollowup (dr_callback (drain_at d s)) run) s)"

text \<open>Removes the items from position \<open>i\<close> on, \<open>n\<close> of them: \<open>splice(i, n)\<close>, \<open>shift()\<close>.\<close>

definition take_out :: "nat \<Rightarrow> nat \<Rightarrow> nat \<Rightarrow> 'x Followups \<Rightarrow> 'x Followups" where
  "take_out q i n s =
    (let st = queue_at q s; items = qs_items st
     in put_log (Left q TakenByDrain (take n (drop i items))) (set_queue q (st\<lparr>qs_items := take i items @ drop (i + n) items\<rparr>) s))"

text \<open>\<open>dropAbortedFollowups\<close>, from position \<open>n - 1\<close> down.\<close>

fun last_aborted :: "'x Followups \<Rightarrow> 'x FollowupRun list \<Rightarrow> nat \<Rightarrow> nat option" where
  "last_aborted s items 0 = None"
| "last_aborted s items (Suc i) = (if isFollowupRunAborted s (items ! i) then Some i else last_aborted s items i)"

definition dropAbortedFollowups :: "nat \<Rightarrow> ScanPhase \<Rightarrow> nat \<Rightarrow> nat \<Rightarrow> 'x Followups \<Rightarrow> 'x Followups" where
  "dropAbortedFollowups d phase n dropped s =
    (let items = qs_items (queue_at (dr_queue (drain_at d s)) s)
     in case last_aborted s items n of
          None \<Rightarrow> suspend d (ScanDone phase dropped) s
        | Some i \<Rightarrow> await_run d (items ! i) (ScanRun phase i dropped (items ! i)) s)"

text \<open>The \<open>finally\<close> of a drain whose queue is empty.\<close>

definition drop_queue :: "string \<Rightarrow> nat \<Rightarrow> 'x Followups \<Rightarrow> 'x Followups" where
  "drop_queue key q s =
    (if jm_get (fs_queues s) key = Some q then clearFollowupDrainCallback key (s\<lparr>fs_queues := jm_del key (fs_queues s)\<rparr>) else s)"

definition end_drain :: "nat \<Rightarrow> 'x Followups \<Rightarrow> 'x Followups" where
  "end_drain d s =
    (let q = dr_queue (drain_at d s) in suspend d DrainEnded (set_queue q ((queue_at q s)\<lparr>fq_draining := False\<rparr>) s))"

text \<open>The head of the loop: leave it, or start the first scan.\<close>

definition loop_head :: "nat \<Rightarrow> 'x Followups \<Rightarrow> 'x Followups" where
  "loop_head d s =
    (let q = dr_queue (drain_at d s) in
     if queue_done q s then drop_queue (dr_key (drain_at d s)) q (end_drain d s)
     else dropAbortedFollowups d BeforeDebounce (length (qs_items (queue_at q s))) 0 s)"

definition beginQueueDrain :: "string \<Rightarrow> 'x Followups \<Rightarrow> nat option \<times> 'x Followups" where
  "beginQueueDrain key s =
    (case jm_get (fs_queues s) key of None \<Rightarrow> (None, s)
     | Some q \<Rightarrow> if fq_draining (queue_at q s) then (None, s)
         else (Some q, set_queue q ((queue_at q s)\<lparr>fq_draining := True\<rparr>) s))"

definition scheduleFollowupDrain :: "string \<Rightarrow> nat \<Rightarrow> 'x Followups \<Rightarrow> 'x Followups" where
  "scheduleFollowupDrain key runFollowup s =
    (case beginQueueDrain key s of
       (None, s) \<Rightarrow> s
     | (Some q, s) \<Rightarrow>
        (let effective = or_else (jm_get (fs_callbacks s) key) runFollowup;
             d = length (fs_drains s);
             s = rememberFollowupDrainCallback key effective s;
             s = s\<lparr>fs_drains := fs_drains s @ [\<lparr>dr_key = key, dr_queue = q, dr_callback = effective,
                   dr_forceIndividualCollect = False, dr_point = LoopAgain\<rparr>]\<rparr>
         in loop_head d s))"

definition kickFollowupDrainIfIdle :: "string \<Rightarrow> 'x Followups \<Rightarrow> 'x Followups" where
  "kickFollowupDrainIfIdle key s =
    (case jm_get (fs_callbacks s) key of None \<Rightarrow> s | Some cb \<Rightarrow> scheduleFollowupDrain key cb s)"

text \<open>Leaving the loop by \<open>break\<close>, with the \<open>finally\<close>.\<close>

definition finish_drain :: "nat \<Rightarrow> 'x Followups \<Rightarrow> 'x Followups" where
  "finish_drain d s =
    (let dr = drain_at d s; s = end_drain d s
     in if queue_done (dr_queue dr) s then drop_queue (dr_key dr) (dr_queue dr) s
        else scheduleFollowupDrain (dr_key dr) (dr_callback dr) s)"

definition catch_drain :: "nat \<Rightarrow> rat \<Rightarrow> 'x Followups \<Rightarrow> 'x Followups" where
  "catch_drain d now s =
    (let q = dr_queue (drain_at d s)
     in finish_drain d (put_log (DrainFailed (dr_key (drain_at d s))) (set_queue q ((queue_at q s)\<lparr>fq_lastEnqueuedAt := now\<rparr>) s)))"

text \<open>A run whose prompt is the summary alone.\<close>

definition summary_alone ::
  "nat \<Rightarrow> rat \<Rightarrow> string option \<Rightarrow> nat option \<Rightarrow> 'x list option \<times> 'x list option \<Rightarrow> 'x Followups \<Rightarrow> 'x Followups" where
  "summary_alone d now summary run images s =
    (case (summary, run) of
       (Some p, Some r) \<Rightarrow>
         await_run d (followup_literal p r now (None, None, None, None) (collectSummaryRuntimeMetadata []) images) SummaryRun s
     | _ \<Rightarrow> finish_drain d s)"

text \<open>The groups of a collection, one after the other.\<close>

definition run_group :: "nat \<Rightarrow> rat \<Rightarrow> string option \<Rightarrow> 'x FollowupRun list list \<Rightarrow> 'x Followups \<Rightarrow> 'x Followups" where
  "run_group d now pendingSummary groups s =
    (case groups of
       [] \<Rightarrow> loop_head d s
     | g # gs \<Rightarrow>
         await_run d
           (followup_literal
              (buildCollectPrompt ''[Queued messages while agent was busy]'' g pendingSummary (renderCollectItem s))
              (fr_run (last g)) now (resolveOriginRoutingMetadata g) (collectRuntimeMetadata g None) (collectQueuedImages g))
           (GroupRun pendingSummary g gs) s)"

definition summary_of :: "nat \<Rightarrow> 'x Followups \<Rightarrow> string option" where
  "summary_of q s = previewQueueSummaryPrompt (queue_at q s) ''message'' None"

definition drainCollectQueueStep :: "FollowupEnv \<Rightarrow> nat \<Rightarrow> 'x Followups \<Rightarrow> 'x Followups" where
  "drainCollectQueueStep env d s =
    (let dr = drain_at d s; items = qs_items (queue_at (dr_queue dr) s);
         isCrossChannel = (hasCrossChannelItems items (resolveCrossChannelKey env) \<or> list_ex hasRuntimeOnlyFollowupMetadata items);
         force = (dr_forceIndividualCollect dr \<and> \<not> (\<not> isCrossChannel \<and> 1 < length items));
         s = s\<lparr>fs_drains := (fs_drains s)[d := dr\<lparr>dr_forceIndividualCollect := force \<or> isCrossChannel\<rparr>]\<rparr>
     in if \<not> force \<and> \<not> isCrossChannel then suspend d CollectSkipped s
        else if items = [] then suspend d CollectEmpty s
        else await_run d (hd items) (ItemRun (hd items)) s)"

text \<open>The body of the loop, after the second scan.\<close>

definition drain_body :: "FollowupEnv \<Rightarrow> nat \<Rightarrow> rat \<Rightarrow> 'x Followups \<Rightarrow> 'x Followups" where
  "drain_body env d now s =
    (let q = dr_queue (drain_at d s); st = queue_at q s in
     if fq_mode st = Collect then drainCollectQueueStep env d s
     else (case summary_of q s of
        Some p \<Rightarrow>
          (case fq_lastRun st of
             None \<Rightarrow> finish_drain d s
           | Some r \<Rightarrow>
              if qs_items st = [] then suspend d ItemMissing s
              else (let item = hd (qs_items st)
                    in await_run d
                         (followup_literal p r now
                            (fr_originatingChannel item, fr_originatingTo item, fr_originatingAccountId item, fr_originatingThreadId item)
                            (collectSummaryRuntimeMetadata [item]) (collectQueuedImages [item]))
                         (SummaryItemRun item) s))
      | None \<Rightarrow> if qs_items st = [] then suspend d ItemMissing s
                else await_run d (hd (qs_items st)) (ItemRun (hd (qs_items st))) s))"

text \<open>What a drain does when the promise it awaits settles: \<open>ok\<close> tells whether a run was fulfilled.\<close>

definition resume_drain :: "FollowupEnv \<Rightarrow> nat \<Rightarrow> bool \<Rightarrow> rat \<Rightarrow> 'x Followups \<Rightarrow> 'x Followups" where
  "resume_drain env d ok now s =
    (let q = dr_queue (drain_at d s); st = queue_at q s in
     case dr_point (drain_at d s) of
       LoopAgain \<Rightarrow> loop_head d s
     | ScanRun phase i dropped item \<Rightarrow>
         if \<not> ok then suspend d Throwing s
         else
          (let s = completeFollowupRunLifecycle item (put_log (Ran q [item]) s);
               s = take_out q i 1 s
           in if i \<le> length (qs_items (queue_at q s)) then dropAbortedFollowups d phase i (dropped + 1) s
              else suspend d Throwing s)
     | ScanDone phase dropped \<Rightarrow>
         (let s = (if 0 < dropped \<and> qs_items st = [] then clearFollowupQueueSummaryState q s else s)
          in if queue_done q s then finish_drain d s
             else (case phase of
                BeforeDebounce \<Rightarrow> suspend d (DebounceWait (max 0 (fq_debounceMs (queue_at q s)))) s
              | AfterDebounce \<Rightarrow> drain_body env d now s))
     | DebounceWait debounceMs \<Rightarrow>
         if waitForQueueDebounce (fe_testFast env) debounceMs (fq_lastEnqueuedAt st) now then suspend d DebounceDone s else s
     | DebounceDone \<Rightarrow> dropAbortedFollowups d AfterDebounce (length (qs_items st)) 0 s
     | CollectEmpty \<Rightarrow> summary_alone d now (summary_of q s) (fq_lastRun st) (collectQueuedImages (qs_items st)) s
     | CollectSkipped \<Rightarrow>
         (case splitCollectItemsByAuthorization s (qs_items st) of
            [] \<Rightarrow> summary_alone d now (summary_of q s) (fq_lastRun st) (None, None) s
          | g # gs \<Rightarrow> run_group d now (summary_of q s) (g # gs) s)
     | ItemRun item \<Rightarrow>
         if \<not> ok then suspend d Throwing s
         else suspend d LoopAgain (take_out q 0 1 (put_log (Ran q [item]) s))
     | ItemMissing \<Rightarrow> finish_drain d s
     | SummaryRun \<Rightarrow> suspend d (if ok then SummaryDone else Throwing) (completeFollowupQueueSummarySources q s)
     | SummaryDone \<Rightarrow> loop_head d (clearFollowupQueueSummaryState q s)
     | SummaryItemRun item \<Rightarrow>
         suspend d (if ok then SummaryItemDone item else Throwing)
           (completeFollowupQueueSummarySources q s)
     | SummaryItemDone item \<Rightarrow> suspend d SummaryDone (take_out q 0 1 s)
     | GroupRun pendingSummary g gs \<Rightarrow>
         suspend d (if ok then GroupDone pendingSummary g gs else Throwing)
           ((if pendingSummary \<noteq> None then completeFollowupQueueSummarySources q else id)
             (if ok then put_log (Ran q g) s else s))
     | GroupDone pendingSummary g gs \<Rightarrow>
         (let s = take_out q 0 (length g) s;
              s = (if pendingSummary \<noteq> None then clearFollowupQueueSummaryState q s else s)
          in run_group d now None gs s)
     | Throwing \<Rightarrow> catch_drain d now s
     | DrainEnded \<Rightarrow> s)"

section \<open>Enqueueing (enqueue.ts)\<close>

definition RECENT_QUEUE_MESSAGE_IDS :: DedupeCache where
  "RECENT_QUEUE_MESSAGE_IDS = createDedupeCache (5 * 60 * 1000) (Fin 10000)"

definition followupRouteIdentityKey :: "'x FollowupRun \<Rightarrow> string" where
  "followupRouteIdentityKey run = channelRouteDedupeKey (Some (route_input run))"

definition buildRecentMessageIdKey :: "'x FollowupRun \<Rightarrow> string \<Rightarrow> string option" where
  "buildRecentMessageIdKey run queueKey =
    (case normalizeOptionalString (fr_messageId run) of None \<Rightarrow> None
     | Some messageId \<Rightarrow> Some (json_strings [''queue'', queueKey, followupRouteIdentityKey run, messageId]))"

definition isRunAlreadyQueued :: "'x FollowupRun \<Rightarrow> 'x FollowupRun list \<Rightarrow> bool \<Rightarrow> bool" where
  "isRunAlreadyQueued run items allowPromptFallback =
    (let sameRouting = (\<lambda>item. followupRouteIdentityKey item = followupRouteIdentityKey run) in
     case normalizeOptionalString (fr_messageId run) of
       Some messageId \<Rightarrow> list_ex (\<lambda>item. normalizeOptionalString (fr_messageId item) = Some messageId \<and> sameRouting item) items
     | None \<Rightarrow> allowPromptFallback \<and> list_ex (\<lambda>item. fr_prompt item = fr_prompt run \<and> sameRouting item) items)"

definition followup_summary :: "'x FollowupRun \<Rightarrow> string" where
  "followup_summary item = or_default (or_else (normalizeOptionalString (fr_summaryLine item)) []) (js_trim (fr_prompt item))"

text \<open>Makes room in the queue; dropped messages are completed or kept until they have been summarised.\<close>

definition make_room :: "FollowupEnv \<Rightarrow> nat \<Rightarrow> 'x Followups \<Rightarrow> bool \<times> 'x Followups" where
  "make_room env q s =
    (case applyQueueDropPolicy (fe_ellipsis env) followup_summary None (queue_at q s) of
       (shouldEnqueue, dropped, st) \<Rightarrow>
        (let summarize = (qs_dropPolicy st = DropSummarize);
             s = set_queue q (if summarize then st\<lparr>fq_summarySources := fq_summarySources st @ dropped\<rparr> else st) s;
             s = (if dropped = [] then s else put_log (Left q LeftDropped dropped) s);
             s = (if summarize then s else fold completeFollowupRunLifecycle dropped s);
             sources = fq_summarySources (queue_at q s);
             overflow = length sources - length (qs_summaryLines (queue_at q s));
             s = (if summarize
                  then fold completeFollowupRunLifecycle (take overflow sources)
                    (set_queue q ((queue_at q s)\<lparr>fq_summarySources := drop overflow sources\<rparr>) s)
                  else s)
         in (shouldEnqueue, s)))"

definition enqueueFollowupRun ::
  "FollowupEnv \<Rightarrow> string \<Rightarrow> 'x FollowupRun \<Rightarrow> QueueSettings \<Rightarrow> QueueDedupeMode \<Rightarrow> nat option \<Rightarrow> bool \<Rightarrow> rat
    \<Rightarrow> 'x Followups \<Rightarrow> bool \<times> 'x Followups" where
  "enqueueFollowupRun env key run settings dedupeMode runFollowup restartIfIdle now s =
    (if isFollowupRunAborted s run then (False, s)
     else
      (let (q, s) = getFollowupQueue key settings s;
           recentMessageIdKey = (if dedupeMode \<noteq> DedupeNone then buildRecentMessageIdKey run key else None);
           (seen, recent) = dedupe_peek RECENT_QUEUE_MESSAGE_IDS recentMessageIdKey now (fs_recent s);
           s = s\<lparr>fs_recent := recent\<rparr>;
           dedupe = (if dedupeMode = DedupeNone then None
             else Some (\<lambda>item items. isRunAlreadyQueued item items (dedupeMode = DedupePrompt)))
       in if seen then (False, s)
          else if shouldSkipQueueItem run (qs_items (queue_at q s)) dedupe then (False, s)
          else
           (let s = set_queue q ((queue_at q s)\<lparr>fq_lastEnqueuedAt := now, fq_lastRun := Some (fr_run run)\<rparr>) s;
                (shouldEnqueue, s) = make_room env q s
            in if \<not> shouldEnqueue then (False, s)
               else
                (let s = put_log (Admitted q run) (set_queue q ((queue_at q s)\<lparr>qs_items := qs_items (queue_at q s) @ [run]\<rparr>) s);
                     s = markFollowupRunEnqueued run s;
                     s = s\<lparr>fs_recent := snd (dedupe_check RECENT_QUEUE_MESSAGE_IDS recentMessageIdKey now (fs_recent s))\<rparr>;
                     s = (case runFollowup of None \<Rightarrow> s | Some cb \<Rightarrow> rememberFollowupDrainCallback key cb s);
                     s = (if restartIfIdle \<and> \<not> fq_draining (queue_at q s) then kickFollowupDrainIfIdle key s else s)
                 in (True, s)))))"

definition getFollowupQueueDepth :: "string \<Rightarrow> 'x Followups \<Rightarrow> nat" where
  "getFollowupQueueDepth key s =
    (case getExistingFollowupQueue key s of None \<Rightarrow> 0 | Some q \<Rightarrow> length (qs_items (queue_at q s)))"


section \<open>Clearing a session (cleanup.ts)\<close>

definition resolveSessionLane :: "string \<Rightarrow> string" where
  "resolveSessionLane key =
    (let cleaned = or_default (js_trim key) main_lane; prefix = ''session'' @ [CHR '':'']
     in if starts_with cleaned prefix then cleaned else prefix @ cleaned)"

definition cron_lane :: string where "cron_lane = ''cron''"
definition cron_nested_lane :: string where "cron_nested_lane = ''cron-nested''"

definition resolveGlobalLane :: "string option \<Rightarrow> string" where
  "resolveGlobalLane lane =
    (let cleaned = or_else (map_option js_trim lane) [] in
     if cleaned = cron_lane then cron_nested_lane else or_default cleaned main_lane)"

definition resolveEmbeddedSessionLane :: "string \<Rightarrow> string" where
  "resolveEmbeddedSessionLane key = resolveSessionLane key"

text \<open>Work nested in a cron job never waits for the lane that the job itself holds.\<close>

lemma global_lane_not_cron: "resolveGlobalLane lane \<noteq> cron_lane"
  by (auto simp: resolveGlobalLane_def cron_lane_def cron_nested_lane_def main_lane_def or_default_def Let_def)

record ClearSessionQueueResult =
  cq_followupCleared :: nat
  cq_laneCleared :: nat
  cq_keys :: "string list"

fun clear_session_keys ::
  "string option list \<Rightarrow> string list \<Rightarrow> ClearSessionQueueResult \<Rightarrow> 'x Followups \<Rightarrow> QueueState \<Rightarrow> QueueEmit list
    \<Rightarrow> ClearSessionQueueResult \<times> 'x Followups \<times> QueueState \<times> QueueEmit list" where
  "clear_session_keys [] seen res s lanes emits = (res, s, lanes, emits)"
| "clear_session_keys (key # keys) seen res s lanes emits =
     (case normalizeOptionalString key of
        None \<Rightarrow> clear_session_keys keys seen res s lanes emits
      | Some cleaned \<Rightarrow>
         if cleaned \<in> set seen then clear_session_keys keys seen res s lanes emits
         else
          (let (n, s) = clearFollowupQueue cleaned s;
               s = clearFollowupDrainCallback cleaned s;
               (m, lanes, em) = clearCommandLane (resolveSessionLane cleaned) lanes
           in clear_session_keys keys (cleaned # seen)
                (res\<lparr>cq_followupCleared := cq_followupCleared res + n, cq_laneCleared := cq_laneCleared res + m,
                   cq_keys := cq_keys res @ [cleaned]\<rparr>) s lanes (emits @ em)))"

definition clearSessionQueues ::
  "string option list \<Rightarrow> 'x Followups \<Rightarrow> QueueState \<Rightarrow> ClearSessionQueueResult \<times> 'x Followups \<times> QueueState \<times> QueueEmit list" where
  "clearSessionQueues keys s lanes =
    clear_session_keys keys [] \<lparr>cq_followupCleared = 0, cq_laneCleared = 0, cq_keys = []\<rparr> s lanes []"

section \<open>Runs\<close>

text \<open>
  A message arrives with a run object of its own. Drains resume in any order, each await ends at
  any time and with any outcome, and every other operation can come in between.
\<close>

datatype 'x FollowupOp =
  FoEnqueue string "'x FollowupRun" "'x AgentRun" QueueSettings QueueDedupeMode "nat option" bool rat
| FoSchedule string nat
| FoResume nat bool rat
| FoClear string
| FoForgetCallback string
| FoRefresh RefreshParams
| FoAbort nat
| FoForgetIds

fun followup_op :: "FollowupEnv \<Rightarrow> 'x FollowupOp \<Rightarrow> 'x Followups \<Rightarrow> 'x Followups" where
  "followup_op env (FoEnqueue key m run settings dedupe cb restart now) s =
     snd (enqueueFollowupRun env key (m\<lparr>fr_run := length (fs_runs s)\<rparr>) settings dedupe cb restart now
       (s\<lparr>fs_runs := fs_runs s @ [run]\<rparr>))"
| "followup_op env (FoSchedule key cb) s = scheduleFollowupDrain key cb s"
| "followup_op env (FoResume d ok now) s = (if d < length (fs_drains s) then resume_drain env d ok now s else s)"
| "followup_op env (FoClear key) s = snd (clearFollowupQueue key s)"
| "followup_op env (FoForgetCallback key) s = clearFollowupDrainCallback key s"
| "followup_op env (FoRefresh p) s = refreshQueuedFollowupSession p s"
| "followup_op env (FoAbort n) s = s\<lparr>fs_aborted := n # fs_aborted s\<rparr>"
| "followup_op env FoForgetIds s = s\<lparr>fs_recent := []\<rparr>"

definition followup_run :: "FollowupEnv \<Rightarrow> 'x FollowupOp list \<Rightarrow> 'x Followups" where
  "followup_run env ops = fold (followup_op env) ops no_followups"

end
