(* ===== verification/FollowupQueueProps.thy ===== *)
theory FollowupQueueProps
  imports FollowupQueue
begin

text \<open>
  What the follow-up queues promise. The log of a run accounts for every message; the invariant
  ties the log to the queues and to what each suspended drain still holds, and every
  operation, at every await of every drain, keeps it. Then the groups of a collection, the memory of message
  ids, and a drain that nothing disturbs. The last section has concrete runs: witnesses,
  and the behaviours in which messages are lost or a drain never ends.
\<close>

section \<open>Accounting\<close>

definition admitted :: "nat \<Rightarrow> 'x FollowupEvent list \<Rightarrow> 'x FollowupRun list" where
  "admitted q es = concat (map (\<lambda>e. case e of Admitted q' i \<Rightarrow> if q' = q then [i] else [] | _ \<Rightarrow> []) es)"

definition delivered :: "nat \<Rightarrow> 'x FollowupEvent list \<Rightarrow> 'x FollowupRun list" where
  "delivered q es = concat (map (\<lambda>e. case e of Ran q' is \<Rightarrow> if q' = q then is else [] | _ \<Rightarrow> []) es)"

definition removed :: "LeaveReason list \<Rightarrow> nat \<Rightarrow> 'x FollowupEvent list \<Rightarrow> 'x FollowupRun list" where
  "removed hows q es = concat (map (\<lambda>e. case e of Left q' how is \<Rightarrow> if q' = q \<and> how \<in> set hows then is else [] | _ \<Rightarrow> []) es)"

abbreviation gone :: "nat \<Rightarrow> 'x FollowupEvent list \<Rightarrow> 'x FollowupRun list" where
  "gone \<equiv> removed [TakenByDrain, LeftDropped, LeftCleared]"

abbreviation lost :: "nat \<Rightarrow> 'x FollowupEvent list \<Rightarrow> 'x FollowupRun list" where
  "lost \<equiv> removed [LeftDropped, LeftCleared]"

lemma log_append [simp]:
  "admitted q (es @ [e]) = admitted q es @ (case e of Admitted q' i \<Rightarrow> if q' = q then [i] else [] | _ \<Rightarrow> [])"
  "delivered q (es @ [e]) = delivered q es @ (case e of Ran q' is \<Rightarrow> if q' = q then is else [] | _ \<Rightarrow> [])"
  "removed hows q (es @ [e]) =
     removed hows q es @ (case e of Left q' how is \<Rightarrow> if q' = q \<and> how \<in> set hows then is else [] | _ \<Rightarrow> [])"
  by (simp_all add: admitted_def delivered_def removed_def)

lemma log_Nil [simp]: "admitted q [] = []" "delivered q [] = []" "removed hows q [] = []"
  by (simp_all add: admitted_def delivered_def removed_def)

section \<open>What the small operations leave alone\<close>

lemma put_log_fields [simp]:
  "fs_objects (put_log e s) = fs_objects s" "fs_queues (put_log e s) = fs_queues s"
  "fs_drains (put_log e s) = fs_drains s" "fs_callbacks (put_log e s) = fs_callbacks s"
  "fs_log (put_log e s) = fs_log s @ [e]" "queue_at q (put_log e s) = queue_at q s" "drain_at d (put_log e s) = drain_at d s"
  "fs_aborted (put_log e s) = fs_aborted s" "fs_runs (put_log e s) = fs_runs s"
  by (simp_all add: put_log_def queue_at_def drain_at_def)

lemma set_queue_fields [simp]:
  "length (fs_objects (set_queue q st s)) = length (fs_objects s)" "fs_queues (set_queue q st s) = fs_queues s"
  "fs_drains (set_queue q st s) = fs_drains s" "fs_callbacks (set_queue q st s) = fs_callbacks s"
  "fs_log (set_queue q st s) = fs_log s" "drain_at d (set_queue q st s) = drain_at d s"
  "fs_aborted (set_queue q st s) = fs_aborted s" "fs_runs (set_queue q st s) = fs_runs s"
  by (simp_all add: set_queue_def drain_at_def)

lemma queue_at_set [simp]:
  "q < length (fs_objects s) \<Longrightarrow> queue_at q' (set_queue q st s) = (if q' = q then st else queue_at q' s)"
  by (simp add: queue_at_def set_queue_def)

lemma set_queue_twice [simp]: "set_queue q st (set_queue q st' s) = set_queue q st s"
  by (simp add: set_queue_def)

lemma complete_fields [simp]:
  "fs_objects (completeFollowupRunLifecycle i s) = fs_objects s" "fs_queues (completeFollowupRunLifecycle i s) = fs_queues s"
  "fs_drains (completeFollowupRunLifecycle i s) = fs_drains s" "queue_at q (completeFollowupRunLifecycle i s) = queue_at q s"
  "drain_at d (completeFollowupRunLifecycle i s) = drain_at d s" "fs_aborted (completeFollowupRunLifecycle i s) = fs_aborted s"
  "fs_callbacks (completeFollowupRunLifecycle i s) = fs_callbacks s"
  "admitted q (fs_log (completeFollowupRunLifecycle i s)) = admitted q (fs_log s)"
  "delivered q (fs_log (completeFollowupRunLifecycle i s)) = delivered q (fs_log s)"
  "removed hows q (fs_log (completeFollowupRunLifecycle i s)) = removed hows q (fs_log s)"
  by (auto simp: completeFollowupRunLifecycle_def queue_at_def drain_at_def put_log_def split: option.splits)

lemma mark_fields [simp]:
  "fs_objects (markFollowupRunEnqueued i s) = fs_objects s" "fs_queues (markFollowupRunEnqueued i s) = fs_queues s"
  "fs_drains (markFollowupRunEnqueued i s) = fs_drains s" "queue_at q (markFollowupRunEnqueued i s) = queue_at q s"
  "drain_at d (markFollowupRunEnqueued i s) = drain_at d s" "fs_callbacks (markFollowupRunEnqueued i s) = fs_callbacks s"
  "admitted q (fs_log (markFollowupRunEnqueued i s)) = admitted q (fs_log s)"
  "delivered q (fs_log (markFollowupRunEnqueued i s)) = delivered q (fs_log s)"
  "removed hows q (fs_log (markFollowupRunEnqueued i s)) = removed hows q (fs_log s)"
  by (auto simp: markFollowupRunEnqueued_def queue_at_def drain_at_def put_log_def split: option.splits)

lemma fold_complete_fields [simp]:
  "fs_objects (fold completeFollowupRunLifecycle is s) = fs_objects s"
  "fs_queues (fold completeFollowupRunLifecycle is s) = fs_queues s"
  "fs_drains (fold completeFollowupRunLifecycle is s) = fs_drains s"
  "fs_callbacks (fold completeFollowupRunLifecycle is s) = fs_callbacks s"
  "queue_at q (fold completeFollowupRunLifecycle is s) = queue_at q s"
  "drain_at d (fold completeFollowupRunLifecycle is s) = drain_at d s"
  "fs_aborted (fold completeFollowupRunLifecycle is s) = fs_aborted s"
  "admitted q (fs_log (fold completeFollowupRunLifecycle is s)) = admitted q (fs_log s)"
  "delivered q (fs_log (fold completeFollowupRunLifecycle is s)) = delivered q (fs_log s)"
  "removed hows q (fs_log (fold completeFollowupRunLifecycle is s)) = removed hows q (fs_log s)"
  by (induction "is" arbitrary: s) simp_all

section \<open>The invariant\<close>

definition active :: "nat \<Rightarrow> 'x Followups \<Rightarrow> bool" where
  "active d s \<longleftrightarrow> d < length (fs_drains s) \<and> dr_point (drain_at d s) \<noteq> DrainEnded"

text \<open>The messages a drain holds are where it left them, as long as nothing was dropped or cleared.\<close>

fun point_ok :: "'x FollowupRun list \<Rightarrow> 'x DrainPoint \<Rightarrow> bool" where
  "point_ok items (ScanRun ph i n item) \<longleftrightarrow> i < length items \<and> items ! i = item"
| "point_ok items (ItemRun item) \<longleftrightarrow> items \<noteq> [] \<and> hd items = item"
| "point_ok items (GroupRun p g gs) \<longleftrightarrow> take (length (concat (g # gs))) items = concat (g # gs)"
| "point_ok items (GroupDone p g gs) \<longleftrightarrow> take (length (concat (g # gs))) items = concat (g # gs)"
| "point_ok items (SummaryItemRun item) \<longleftrightarrow> False"
| "point_ok items (SummaryItemDone item) \<longleftrightarrow> False"
| "point_ok items pt \<longleftrightarrow> True"

fun finished_group :: "'x DrainPoint \<Rightarrow> 'x FollowupRun list" where
  "finished_group (GroupDone p g gs) = g"
| "finished_group pt = []"

definition queue_ok :: "nat \<Rightarrow> 'x Followups \<Rightarrow> bool" where
  "queue_ok q s \<longleftrightarrow>
     mset (admitted q (fs_log s)) = mset (gone q (fs_log s)) + mset (qs_items (queue_at q s))
   \<and> length (fq_summarySources (queue_at q s)) \<le> length (qs_summaryLines (queue_at q s))
   \<and> length (qs_summaryLines (queue_at q s)) \<le> qs_droppedCount (queue_at q s)
   \<and> qs_droppedCount (queue_at q s) \<le> length (lost q (fs_log s))"

definition log_ok :: "nat \<Rightarrow> 'x Followups \<Rightarrow> bool" where
  "log_ok q s \<longleftrightarrow> (lost q (fs_log s) = [] \<longrightarrow> mset (gone q (fs_log s)) \<subseteq># mset (delivered q (fs_log s)))"

definition drain_ok :: "nat \<Rightarrow> 'x Followups \<Rightarrow> bool" where
  "drain_ok d s \<longleftrightarrow> (let q = dr_queue (drain_at d s); pt = dr_point (drain_at d s) in
     lost q (fs_log s) = [] \<longrightarrow> point_ok (qs_items (queue_at q s)) pt
       \<and> mset (gone q (fs_log s)) + mset (finished_group pt) \<subseteq># mset (delivered q (fs_log s)))"

definition drain_owns :: "nat \<Rightarrow> 'x Followups \<Rightarrow> bool" where
  "drain_owns d s \<longleftrightarrow> dr_queue (drain_at d s) < length (fs_objects s) \<and> fq_draining (queue_at (dr_queue (drain_at d s)) s)"

text \<open>Everything but what drain \<open>x\<close> holds.\<close>

definition inv_but :: "nat option \<Rightarrow> 'x Followups \<Rightarrow> bool" where
  "inv_but x s \<longleftrightarrow>
     (\<forall>k q. jm_get (fs_queues s) k = Some q \<longrightarrow> q < length (fs_objects s))
   \<and> (\<forall>q. q < length (fs_objects s) \<longrightarrow> queue_ok q s)
   \<and> (\<forall>q. q \<ge> length (fs_objects s) \<longrightarrow> admitted q (fs_log s) = [] \<and> delivered q (fs_log s) = [] \<and> gone q (fs_log s) = [] \<and> lost q (fs_log s) = [])
   \<and> (\<forall>q. log_ok q s)
   \<and> (\<forall>d. active d s \<longrightarrow> drain_owns d s)
   \<and> (\<forall>d. active d s \<longrightarrow> Some d \<noteq> x \<longrightarrow> drain_ok d s)
   \<and> (\<forall>d e. active d s \<longrightarrow> active e s \<longrightarrow> dr_queue (drain_at d s) = dr_queue (drain_at e s) \<longrightarrow> d = e)
   \<and> (\<forall>q. q < length (fs_objects s) \<longrightarrow> fq_draining (queue_at q s) \<longrightarrow> (\<exists>d. active d s \<and> dr_queue (drain_at d s) = q))
   \<and> (case x of None \<Rightarrow> True | Some d \<Rightarrow> active d s)"

abbreviation followup_inv :: "'x Followups \<Rightarrow> bool" where
  "followup_inv \<equiv> inv_but None"


lemma inv_butD:
  assumes "inv_but x s"
  shows "jm_get (fs_queues s) k = Some q \<Longrightarrow> q < length (fs_objects s)"
    and "q < length (fs_objects s) \<Longrightarrow> queue_ok q s"
    and "q \<ge> length (fs_objects s) \<Longrightarrow> admitted q (fs_log s) = [] \<and> delivered q (fs_log s) = [] \<and> gone q (fs_log s) = [] \<and> lost q (fs_log s) = []"
    and "log_ok q s"
    and "active d s \<Longrightarrow> drain_owns d s"
    and "active d s \<Longrightarrow> Some d \<noteq> x \<Longrightarrow> drain_ok d s"
    and "active d s \<Longrightarrow> active e s \<Longrightarrow> dr_queue (drain_at d s) = dr_queue (drain_at e s) \<Longrightarrow> d = e"
    and "q < length (fs_objects s) \<Longrightarrow> fq_draining (queue_at q s) \<Longrightarrow> \<exists>d. active d s \<and> dr_queue (drain_at d s) = q"
    and "x = Some d \<Longrightarrow> active d s"
  using assms unfolding inv_but_def by (blast, blast, blast, blast, blast, blast, blast, blast, simp)

lemma inv_butI:
  assumes "\<And>k q. jm_get (fs_queues s) k = Some q \<Longrightarrow> q < length (fs_objects s)"
    and "\<And>q. q < length (fs_objects s) \<Longrightarrow> queue_ok q s"
    and "\<And>q. q \<ge> length (fs_objects s) \<Longrightarrow> admitted q (fs_log s) = [] \<and> delivered q (fs_log s) = [] \<and> gone q (fs_log s) = [] \<and> lost q (fs_log s) = []"
    and "\<And>q. log_ok q s"
    and "\<And>d. active d s \<Longrightarrow> drain_owns d s"
    and "\<And>d. active d s \<Longrightarrow> Some d \<noteq> x \<Longrightarrow> drain_ok d s"
    and "\<And>d e. active d s \<Longrightarrow> active e s \<Longrightarrow> dr_queue (drain_at d s) = dr_queue (drain_at e s) \<Longrightarrow> d = e"
    and "\<And>q. q < length (fs_objects s) \<Longrightarrow> fq_draining (queue_at q s) \<Longrightarrow> \<exists>d. active d s \<and> dr_queue (drain_at d s) = q"
    and "\<And>d. x = Some d \<Longrightarrow> active d s"
  shows "inv_but x s"
  using assms unfolding inv_but_def by (auto split: option.splits)

text \<open>The invariant sees the registry, the queues, the drains and the accounts.\<close>

lemma inv_cong:
  assumes "fs_queues s' = fs_queues s" "fs_objects s' = fs_objects s" "fs_drains s' = fs_drains s"
    and "\<And>q. admitted q (fs_log s') = admitted q (fs_log s)" "\<And>q. delivered q (fs_log s') = delivered q (fs_log s)"
    and "\<And>hows q. removed hows q (fs_log s') = removed hows q (fs_log s)"
  shows "inv_but x s' = inv_but x s"
proof -
  have at: "queue_at q s' = queue_at q s" "drain_at d s' = drain_at d s" for q d
    using assms(2,3) by (simp_all add: queue_at_def drain_at_def)
  have "queue_ok q s' = queue_ok q s" "log_ok q s' = log_ok q s" "active d s' = active d s"
      "drain_owns d s' = drain_owns d s" "drain_ok d s' = drain_ok d s" for q d
    using assms by (simp_all add: queue_ok_def log_ok_def active_def drain_owns_def drain_ok_def at Let_def)
  then show ?thesis using assms by (cases x) (simp_all add: inv_but_def at)
qed

definition silent :: "'x FollowupEvent \<Rightarrow> bool" where
  "silent e = (case e of Admitted q i \<Rightarrow> False | Ran q is \<Rightarrow> False | Left q how is \<Rightarrow> False | _ \<Rightarrow> True)"

lemma inv_silent: "silent e \<Longrightarrow> inv_but x (put_log e s) = inv_but x s"
  by (rule inv_cong) (auto simp: silent_def split: FollowupEvent.splits)

lemma inv_complete: "inv_but x (completeFollowupRunLifecycle i s) = inv_but x s"
  by (rule inv_cong) simp_all

lemma inv_fold_complete: "inv_but x (fold completeFollowupRunLifecycle is s) = inv_but x s"
  by (rule inv_cong) simp_all

lemma inv_mark: "inv_but x (markFollowupRunEnqueued i s) = inv_but x s"
  by (rule inv_cong) simp_all

lemma inv_bookkeeping:
  "inv_but x (s\<lparr>fs_recent := r\<rparr>) = inv_but x s" "inv_but x (s\<lparr>fs_callbacks := c\<rparr>) = inv_but x s"
  "inv_but x (s\<lparr>fs_runs := rs\<rparr>) = inv_but x s" "inv_but x (s\<lparr>fs_aborted := ab\<rparr>) = inv_but x s"
  by (rule inv_cong; simp)+

lemma active_set [simp]: "active d (set_queue q st s) = active d s"
  by (simp add: active_def)

lemma active_log [simp]: "active d (put_log e s) = active d s"
  by (simp add: active_def)

text \<open>Updating a queue without touching its messages.\<close>

lemma inv_set:
  assumes "inv_but x s" "q < length (fs_objects s)"
    and "qs_items st = qs_items (queue_at q s)" "fq_draining st = fq_draining (queue_at q s)"
    and "length (fq_summarySources st) \<le> length (qs_summaryLines st)" "length (qs_summaryLines st) \<le> qs_droppedCount st"
    and "qs_droppedCount st \<le> length (lost q (fs_log s))"
  shows "inv_but x (set_queue q st s)"
proof (rule inv_butI)
  fix q' assume "q' < length (fs_objects (set_queue q st s))"
  then show "queue_ok q' (set_queue q st s)"
    using inv_butD(2) [OF assms(1), of q'] assms(2-7) by (auto simp: queue_ok_def)
next
  fix q' show "log_ok q' (set_queue q st s)" using inv_butD(4) [OF assms(1), of q'] by (simp add: log_ok_def)
next
  fix d assume "active d (set_queue q st s)"
  then show "drain_owns d (set_queue q st s)"
    using inv_butD(5) [OF assms(1), of d] assms(2,4) by (auto simp: drain_owns_def)
next
  fix d assume "active d (set_queue q st s)" "Some d \<noteq> x"
  then show "drain_ok d (set_queue q st s)"
    using inv_butD(6) [OF assms(1), of d] assms(2,3) by (auto simp: drain_ok_def Let_def)
next
  fix q' assume "q' < length (fs_objects (set_queue q st s))" "fq_draining (queue_at q' (set_queue q st s))"
  then show "\<exists>d. active d (set_queue q st s) \<and> dr_queue (drain_at d (set_queue q st s)) = q'"
    using inv_butD(8) [OF assms(1), of q'] assms(2,4) by (auto split: if_splits)
qed (use assms(1,2) in \<open>auto dest: inv_butD(1,3,7,9) [OF assms(1)]\<close>)

lemma drain_at_suspend:
  "d < length (fs_drains s) \<Longrightarrow> drain_at e (suspend d pt s) = (if e = d then (drain_at d s)\<lparr>dr_point := pt\<rparr> else drain_at e s)"
  by (simp add: suspend_def drain_at_def)

lemma suspend_fields [simp]:
  "fs_objects (suspend d pt s) = fs_objects s" "fs_queues (suspend d pt s) = fs_queues s" "fs_log (suspend d pt s) = fs_log s"
  "queue_at q (suspend d pt s) = queue_at q s" "length (fs_drains (suspend d pt s)) = length (fs_drains s)"
  "fs_callbacks (suspend d pt s) = fs_callbacks s" "fs_aborted (suspend d pt s) = fs_aborted s"
  by (simp_all add: suspend_def queue_at_def)

lemma inv_open: "followup_inv s \<Longrightarrow> active d s \<Longrightarrow> inv_but (Some d) s"
  by (simp add: inv_but_def)

text \<open>Suspending the open drain closes the invariant.\<close>

lemma inv_suspend:
  assumes "inv_but (Some d) s" "pt \<noteq> DrainEnded"
    and ok: "lost (dr_queue (drain_at d s)) (fs_log s) = [] \<Longrightarrow>
      point_ok (qs_items (queue_at (dr_queue (drain_at d s)) s)) pt
      \<and> mset (gone (dr_queue (drain_at d s)) (fs_log s)) + mset (finished_group pt) \<subseteq># mset (delivered (dr_queue (drain_at d s)) (fs_log s))"
  shows "followup_inv (suspend d pt s)"
proof -
  have d: "active d s" using inv_butD(9) [OF assms(1)] by simp
  then have len: "d < length (fs_drains s)" by (simp add: active_def)
  note at = drain_at_suspend [OF len, of _ pt]
  have act: "active e (suspend d pt s) = active e s" for e
    using d assms(2) by (auto simp: active_def at)
  have own: "dr_queue (drain_at e (suspend d pt s)) = dr_queue (drain_at e s)" for e by (simp add: at)
  show ?thesis
  proof (rule inv_butI)
    fix e assume "active e (suspend d pt s)"
    then show "drain_ok e (suspend d pt s)"
      using inv_butD(6) [OF assms(1), of e] ok by (cases "e = d") (auto simp: drain_ok_def Let_def at act)
  qed (use inv_butD(1-5,7,8) [OF assms(1)] in \<open>auto simp: act own queue_ok_def log_ok_def drain_owns_def\<close>)
qed


lemma removed_mono: "set hows \<subseteq> set hows' \<Longrightarrow> set (removed hows q es) \<subseteq> set (removed hows' q es)"
  by (auto simp: removed_def split: FollowupEvent.splits if_splits)

lemma inv_delivered:
  assumes "inv_but x s" "q < length (fs_objects s)"
  shows "inv_but x (put_log (Ran q is) s)"
proof (rule inv_butI)
  fix q' show "log_ok q' (put_log (Ran q is) s)"
    using inv_butD(4) [OF assms(1), of q'] by (auto simp: log_ok_def intro: subset_mset.add_increasing2)
next
  fix d assume "active d (put_log (Ran q is) s)" "Some d \<noteq> x"
  then show "drain_ok d (put_log (Ran q is) s)"
    using inv_butD(6) [OF assms(1), of d] by (auto simp: drain_ok_def Let_def intro: subset_mset.add_increasing2)
qed (use inv_butD(1-3,5,7-9) [OF assms(1)] assms(2) in \<open>auto simp: queue_ok_def drain_owns_def\<close>)

lemma take_out_fields [simp]:
  "fs_queues (take_out q i n s) = fs_queues s" "fs_drains (take_out q i n s) = fs_drains s"
  "length (fs_objects (take_out q i n s)) = length (fs_objects s)" "drain_at d (take_out q i n s) = drain_at d s"
  "active d (take_out q i n s) = active d s" "fs_aborted (take_out q i n s) = fs_aborted s"
  by (simp_all add: take_out_def Let_def)

lemma take_out_queue:
  "q < length (fs_objects s) \<Longrightarrow> queue_at q' (take_out q i n s) =
     (if q' = q then (queue_at q s)\<lparr>qs_items := take i (qs_items (queue_at q s)) @ drop (i + n) (qs_items (queue_at q s))\<rparr> else queue_at q' s)"
  by (simp add: take_out_def Let_def)

lemma take_out_log [simp]:
  "fs_log (take_out q i n s) = fs_log s @ [Left q TakenByDrain (take n (drop i (qs_items (queue_at q s))))]"
  by (simp add: take_out_def Let_def)

lemma mset_splice: "mset (take i xs @ drop (i + n) xs) + mset (take n (drop i xs)) = mset xs"
proof -
  have "xs = take i xs @ take n (drop i xs) @ drop (i + n) xs"
    by (simp add: add.commute [of i] flip: drop_drop)
  then show ?thesis by (metis mset_append union_assoc union_commute)
qed

lemma inv_take_out:
  assumes inv: "inv_but (Some d) s" and q: "q = dr_queue (drain_at d s)"
    and ran: "lost q (fs_log s) = [] \<Longrightarrow>
      mset (gone q (fs_log s)) + mset (take n (drop i (qs_items (queue_at q s)))) \<subseteq># mset (delivered q (fs_log s))"
  shows "inv_but (Some d) (take_out q i n s)"
proof -
  have d: "active d s" using inv_butD(9) [OF inv] by simp
  have len: "q < length (fs_objects s)" using inv_butD(5) [OF inv d] q by (simp add: drain_owns_def)
  show ?thesis
  proof (rule inv_butI)
    fix q' assume "q' < length (fs_objects (take_out q i n s))"
    then have "queue_ok q' s" using inv_butD(2) [OF inv] by simp
    then show "queue_ok q' (take_out q i n s)"
      using mset_splice [of i "qs_items (queue_at q s)" n]
      by (auto simp: queue_ok_def take_out_queue [OF len] ac_simps)
  next
    fix q' show "log_ok q' (take_out q i n s)"
      using inv_butD(4) [OF inv, of q'] ran by (auto simp: log_ok_def)
  next
    fix e assume "active e (take_out q i n s)"
    then show "drain_owns e (take_out q i n s)"
      using inv_butD(5) [OF inv, of e] by (auto simp: drain_owns_def take_out_queue [OF len])
  next
    fix e assume e: "active e (take_out q i n s)" "Some e \<noteq> Some d"
    then have "dr_queue (drain_at e s) \<noteq> q" using inv_butD(7) [OF inv _ d, of e] q by auto
    then show "drain_ok e (take_out q i n s)"
      using inv_butD(6) [OF inv, of e] e by (auto simp: drain_ok_def Let_def take_out_queue [OF len])
  next
    fix q' assume "q' < length (fs_objects (take_out q i n s))" "fq_draining (queue_at q' (take_out q i n s))"
    then show "\<exists>e. active e (take_out q i n s) \<and> dr_queue (drain_at e (take_out q i n s)) = q'"
      using inv_butD(8) [OF inv, of q'] by (auto simp: take_out_queue [OF len] split: if_splits)
  qed (use inv_butD(1,3,7,9) [OF inv] len in \<open>auto\<close>)
qed

text \<open>A drain ends.\<close>

lemma inv_end:
  assumes inv: "inv_but (Some d) s" shows "followup_inv (end_drain d s)"
proof -
  have d: "active d s" using inv_butD(9) [OF inv] by simp
  then have len: "d < length (fs_drains s)" by (simp add: active_def)
  define q where "q = dr_queue (drain_at d s)"
  have ql: "q < length (fs_objects s)" using inv_butD(5) [OF inv d] by (simp add: drain_owns_def q_def)
  let ?s = "set_queue q ((queue_at q s)\<lparr>fq_draining := False\<rparr>) s"
  have e: "end_drain d s = suspend d DrainEnded ?s" by (simp add: end_drain_def q_def Let_def)
  have at: "drain_at x (end_drain d s) = (if x = d then (drain_at d s)\<lparr>dr_point := DrainEnded\<rparr> else drain_at x s)" for x
    using len by (simp add: e drain_at_suspend)
  have "length (fs_drains (end_drain d s)) = length (fs_drains s)" by (simp add: e)
  then have act: "active x (end_drain d s) \<longleftrightarrow> active x s \<and> x \<noteq> d" for x using d by (auto simp: active_def at)
  have qat: "queue_at q' (end_drain d s) = (if q' = q then (queue_at q s)\<lparr>fq_draining := False\<rparr> else queue_at q' s)" for q'
    using ql by (simp add: e)
  have other: "dr_queue (drain_at x s) \<noteq> q" if "active x s" "x \<noteq> d" for x
    using inv_butD(7) [OF inv that(1) d] that(2) by (auto simp: q_def)
  have log: "fs_log (end_drain d s) = fs_log s" "length (fs_objects (end_drain d s)) = length (fs_objects s)"
    "fs_queues (end_drain d s) = fs_queues s" by (simp_all add: e)
  show ?thesis
  proof (rule inv_butI)
    fix q' assume "q' < length (fs_objects (end_drain d s))"
    then show "queue_ok q' (end_drain d s)" using inv_butD(2) [OF inv, of q'] by (auto simp: queue_ok_def qat log)
  next
    fix x assume "active x (end_drain d s)"
    then show "drain_owns x (end_drain d s)"
      using inv_butD(5) [OF inv, of x] other [of x] by (simp add: act drain_owns_def at qat log)
  next
    fix x assume "active x (end_drain d s)"
    then show "drain_ok x (end_drain d s)"
      using inv_butD(6) [OF inv, of x] other [of x] by (simp add: act drain_ok_def at qat log Let_def)
  next
    fix x y assume "active x (end_drain d s)" "active y (end_drain d s)"
      "dr_queue (drain_at x (end_drain d s)) = dr_queue (drain_at y (end_drain d s))"
    then show "x = y" using inv_butD(7) [OF inv, of x y] by (simp add: act at)
  next
    fix q' assume a: "q' < length (fs_objects (end_drain d s))" "fq_draining (queue_at q' (end_drain d s))"
    then have "q' \<noteq> q" by (auto simp: qat)
    then obtain x where "active x s" "dr_queue (drain_at x s) = q'"
      using inv_butD(8) [OF inv, of q'] a by (auto simp: qat log)
    moreover from this have "x \<noteq> d" using \<open>q' \<noteq> q\<close> by (auto simp: q_def)
    ultimately show "\<exists>x. active x (end_drain d s) \<and> dr_queue (drain_at x (end_drain d s)) = q'"
      by (auto simp: act at)
  qed (use inv_butD(1,3,4) [OF inv] in \<open>auto simp: log log_ok_def\<close>)
qed

lemma inv_unlink:
  assumes "inv_but x s" shows "inv_but x (s\<lparr>fs_queues := jm_del k (fs_queues s)\<rparr>)"
proof -
  let ?s = "s\<lparr>fs_queues := jm_del k (fs_queues s)\<rparr>"
  have at: "queue_at q ?s = queue_at q s" "drain_at d ?s = drain_at d s" for q d
    by (simp_all add: queue_at_def drain_at_def)
  have "queue_ok q ?s = queue_ok q s" "log_ok q ?s = log_ok q s" "active d ?s = active d s"
      "drain_owns d ?s = drain_owns d s" "drain_ok d ?s = drain_ok d s" for q d
    by (simp_all add: queue_ok_def log_ok_def active_def drain_owns_def drain_ok_def at Let_def)
  moreover have "jm_get (jm_del k (fs_queues s)) k' = Some q \<Longrightarrow> jm_get (fs_queues s) k' = Some q" for k' q
    by (auto split: if_splits)
  ultimately show ?thesis using assms by (cases x) (auto simp: inv_but_def at)
qed

lemma inv_drop_queue: "inv_but x s \<Longrightarrow> inv_but x (drop_queue key q s)"
  by (simp add: drop_queue_def clearFollowupDrainCallback_def inv_bookkeeping inv_unlink)


section \<open>Every operation keeps the invariant\<close>

lemma owned: "inv_but (Some d) s \<Longrightarrow> dr_queue (drain_at d s) < length (fs_objects s)"
  using inv_butD(5,9) by (fastforce simp: drain_owns_def)

lemma inv_log_ok: "inv_but x s \<Longrightarrow> lost q (fs_log s) = [] \<Longrightarrow> mset (gone q (fs_log s)) \<subseteq># mset (delivered q (fs_log s))"
  using inv_butD(4) by (auto simp: log_ok_def)

lemma inv_await:
  assumes "inv_but (Some d) s" "pt \<noteq> DrainEnded" "finished_group pt = []"
    and "lost (dr_queue (drain_at d s)) (fs_log s) = [] \<Longrightarrow> point_ok (qs_items (queue_at (dr_queue (drain_at d s)) s)) pt"
  shows "followup_inv (await_run d run pt s)"
proof -
  have "inv_but (Some d) (put_log (RunFollowup cb run) s)" for cb using assms(1) by (simp add: inv_silent silent_def)
  then show ?thesis
    unfolding await_run_def using assms(2-4) inv_log_ok [OF assms(1)] by (intro inv_suspend) simp_all
qed

lemma last_aborted_Some: "last_aborted s items n = Some i \<Longrightarrow> i < n \<and> isFollowupRunAborted s (items ! i)"
  by (induction n) (auto split: if_splits)

lemma inv_drop_aborted:
  assumes "inv_but (Some d) s" "n \<le> length (qs_items (queue_at (dr_queue (drain_at d s)) s))"
  shows "followup_inv (dropAbortedFollowups d phase n dropped s)"
proof (cases "last_aborted s (qs_items (queue_at (dr_queue (drain_at d s)) s)) n")
  case None
  then show ?thesis using assms inv_log_ok [OF assms(1)]
    by (simp add: dropAbortedFollowups_def Let_def inv_suspend)
next
  case (Some i)
  then have "i < length (qs_items (queue_at (dr_queue (drain_at d s)) s))" using assms(2) last_aborted_Some by fastforce
  then show ?thesis using assms Some by (simp add: dropAbortedFollowups_def Let_def inv_await)
qed

lemma inv_loop_head: "inv_but (Some d) s \<Longrightarrow> followup_inv (loop_head d s)"
  by (simp add: loop_head_def Let_def inv_drop_aborted inv_end inv_drop_queue)

lemma inv_schedule:
  assumes inv: "followup_inv s" shows "followup_inv (scheduleFollowupDrain key cb s)"
proof (cases "beginQueueDrain key s")
  case (Pair o1 s1)
  show ?thesis
  proof (cases o1)
    case None
    then have "s1 = s" using Pair by (auto simp: beginQueueDrain_def split: option.splits if_splits)
    then show ?thesis using inv Pair None by (simp add: scheduleFollowupDrain_def)
  next
    case (Some q)
    then have k: "jm_get (fs_queues s) key = Some q" and idle: "\<not> fq_draining (queue_at q s)"
      and s1: "s1 = set_queue q ((queue_at q s)\<lparr>fq_draining := True\<rparr>) s"
      using Pair by (auto simp: beginQueueDrain_def split: option.splits if_splits)
    have ql: "q < length (fs_objects s)" using inv_butD(1) [OF inv k] .
    have free: "\<not> (active x s \<and> dr_queue (drain_at x s) = q)" for x
      using inv_butD(5) [OF inv, of x] idle by (auto simp: drain_owns_def)
    define d where "d = length (fs_drains s)"
    define s2 where "s2 e = (rememberFollowupDrainCallback key e s1)
      \<lparr>fs_drains := fs_drains s1 @ [\<lparr>dr_key = key, dr_queue = q, dr_callback = e, dr_forceIndividualCollect = False, dr_point = LoopAgain\<rparr>]\<rparr>"
      for e
    have at: "drain_at x (s2 e) = (if x = d then \<lparr>dr_key = key, dr_queue = q, dr_callback = e, dr_forceIndividualCollect = False, dr_point = LoopAgain\<rparr>
        else drain_at x s)" if "x \<le> d" for x e
      using that by (auto simp: s2_def s1 drain_at_def d_def rememberFollowupDrainCallback_def nth_append set_queue_def)
    have act: "active x (s2 e) \<longleftrightarrow> active x s \<or> x = d" for x e
      using at [of x e] by (cases "x \<le> d") (auto simp: active_def s2_def s1 d_def rememberFollowupDrainCallback_def)
    have small: "active x s \<Longrightarrow> x < d" for x by (simp add: active_def d_def)
    have qat: "queue_at q' (s2 e) = (if q' = q then (queue_at q s)\<lparr>fq_draining := True\<rparr> else queue_at q' s)" for q' e
      using ql by (simp add: s2_def s1 rememberFollowupDrainCallback_def queue_at_def set_queue_def)
    have log: "fs_log (s2 e) = fs_log s" "length (fs_objects (s2 e)) = length (fs_objects s)" "fs_queues (s2 e) = fs_queues s" for e
      by (simp_all add: s2_def s1 rememberFollowupDrainCallback_def)
    have "inv_but (Some d) (s2 e)" for e
    proof (rule inv_butI)
      fix q' assume "q' < length (fs_objects (s2 e))"
      then show "queue_ok q' (s2 e)" using inv_butD(2) [OF inv, of q'] by (auto simp: queue_ok_def qat log)
    next
      fix x assume "active x (s2 e)"
      then show "drain_owns x (s2 e)"
        using inv_butD(5) [OF inv, of x] small [of x] ql by (auto simp: act drain_owns_def at qat log)
    next
      fix x assume "active x (s2 e)" "Some x \<noteq> Some d"
      then show "drain_ok x (s2 e)"
        using inv_butD(6) [OF inv, of x] small [of x] free [of x] by (simp add: act drain_ok_def at qat log Let_def)
    next
      fix x y assume "active x (s2 e)" "active y (s2 e)" "dr_queue (drain_at x (s2 e)) = dr_queue (drain_at y (s2 e))"
      then show "x = y"
        using inv_butD(7) [OF inv, of x y] small [of x] small [of y] free [of x] free [of y]
        by (cases "x = d"; cases "y = d") (auto simp: act at)
    next
      fix q' assume a: "q' < length (fs_objects (s2 e))" "fq_draining (queue_at q' (s2 e))"
      show "\<exists>x. active x (s2 e) \<and> dr_queue (drain_at x (s2 e)) = q'"
      proof (cases "q' = q")
        case True
        then show ?thesis using at [of d e] act [of d e] by auto
      next
        case False
        then obtain x where "active x s" "dr_queue (drain_at x s) = q'"
          using inv_butD(8) [OF inv, of q'] a by (auto simp: qat log)
        then show ?thesis using small [of x] at [of x e] act [of x e] by auto
      qed
    next
      fix x assume "Some d = Some x"
      then show "active x (s2 e)" using act [of d e] by simp
    qed (use inv_butD(1,3,4) [OF inv] in \<open>auto simp: log log_ok_def\<close>)
    then have "followup_inv (loop_head d (s2 e))" for e by (rule inv_loop_head)
    then show ?thesis using Pair Some
      by (simp add: scheduleFollowupDrain_def Let_def s2_def d_def s1 rememberFollowupDrainCallback_def)
  qed
qed

lemma inv_kick: "followup_inv s \<Longrightarrow> followup_inv (kickFollowupDrainIfIdle key s)"
  by (simp add: kickFollowupDrainIfIdle_def inv_schedule split: option.split)

lemma inv_finish: "inv_but (Some d) s \<Longrightarrow> followup_inv (finish_drain d s)"
  by (simp add: finish_drain_def Let_def inv_end inv_drop_queue inv_schedule)

lemma queue_ok_at: "inv_but (Some d) s \<Longrightarrow> queue_ok (dr_queue (drain_at d s)) s"
  using inv_butD(2) owned by blast

lemma inv_catch:
  assumes "inv_but (Some d) s" shows "followup_inv (catch_drain d now s)"
proof -
  have "inv_but (Some d) (set_queue (dr_queue (drain_at d s)) ((queue_at (dr_queue (drain_at d s)) s)\<lparr>fq_lastEnqueuedAt := now\<rparr>) s)"
    using queue_ok_at [OF assms] by (intro inv_set [OF assms owned [OF assms]]) (simp_all add: queue_ok_def)
  then show ?thesis by (simp add: catch_drain_def Let_def inv_finish inv_silent silent_def)
qed

lemma complete_sources_fields [simp]:
  "drain_at d (completeFollowupQueueSummarySources q s) = drain_at d s"
  "length (fs_objects (completeFollowupQueueSummarySources q s)) = length (fs_objects s)"
  "admitted q' (fs_log (completeFollowupQueueSummarySources q s)) = admitted q' (fs_log s)"
  "delivered q' (fs_log (completeFollowupQueueSummarySources q s)) = delivered q' (fs_log s)"
  "removed hows q' (fs_log (completeFollowupQueueSummarySources q s)) = removed hows q' (fs_log s)"
  "q < length (fs_objects s) \<Longrightarrow> qs_items (queue_at q' (completeFollowupQueueSummarySources q s)) = qs_items (queue_at q' s)"
  by (simp_all add: completeFollowupQueueSummarySources_def Let_def)

lemma clear_summary_fields [simp]:
  "drain_at d (clearFollowupQueueSummaryState q s) = drain_at d s"
  "length (fs_objects (clearFollowupQueueSummaryState q s)) = length (fs_objects s)"
  "admitted q' (fs_log (clearFollowupQueueSummaryState q s)) = admitted q' (fs_log s)"
  "delivered q' (fs_log (clearFollowupQueueSummaryState q s)) = delivered q' (fs_log s)"
  "removed hows q' (fs_log (clearFollowupQueueSummaryState q s)) = removed hows q' (fs_log s)"
  "q < length (fs_objects s) \<Longrightarrow> qs_items (queue_at q' (clearFollowupQueueSummaryState q s)) = qs_items (queue_at q' s)"
  by (simp_all add: clearFollowupQueueSummaryState_def clearQueueSummaryState_def Let_def)

lemma inv_complete_sources:
  assumes "inv_but x s" "q < length (fs_objects s)" shows "inv_but x (completeFollowupQueueSummarySources q s)"
  unfolding completeFollowupQueueSummarySources_def Let_def
  using inv_butD(2) [OF assms]
  by (intro inv_set) (simp_all add: assms inv_fold_complete queue_ok_def)

lemma inv_clear_summary:
  assumes "inv_but x s" "q < length (fs_objects s)" shows "inv_but x (clearFollowupQueueSummaryState q s)"
proof -
  have inv: "inv_but x (completeFollowupQueueSummarySources q s)" by (rule inv_complete_sources [OF assms])
  have "fq_summarySources (queue_at q (completeFollowupQueueSummarySources q s)) = []"
    using assms(2) by (simp add: completeFollowupQueueSummarySources_def Let_def)
  then show ?thesis unfolding clearFollowupQueueSummaryState_def Let_def
    using assms(2) by (intro inv_set [OF inv]) (simp_all add: clearQueueSummaryState_def)
qed


lemma inv_park:
  assumes "inv_but (Some d) s" "pt \<noteq> DrainEnded" "finished_group pt = []" "\<And>items. point_ok items pt"
  shows "followup_inv (suspend d pt s)"
  using inv_log_ok [OF assms(1)] by (intro inv_suspend [OF assms(1,2)]) (simp add: assms(3,4))

lemma inv_force:
  assumes "inv_but (Some d) s"
  shows "inv_but (Some d) (s\<lparr>fs_drains := (fs_drains s)[d := (drain_at d s)\<lparr>dr_forceIndividualCollect := f\<rparr>]\<rparr>)" (is "inv_but _ ?s")
proof -
  have "d < length (fs_drains s)" using inv_butD(9) [OF assms] by (simp add: active_def)
  then have at: "drain_at x ?s = (if x = d then (drain_at d s)\<lparr>dr_forceIndividualCollect := f\<rparr> else drain_at x s)" for x
    by (simp add: drain_at_def)
  have qat: "queue_at q ?s = queue_at q s" for q by (simp add: queue_at_def)
  have "queue_ok q ?s = queue_ok q s" "log_ok q ?s = log_ok q s" "active x ?s = active x s"
      "drain_owns x ?s = drain_owns x s" "drain_ok x ?s = drain_ok x s" "dr_queue (drain_at x ?s) = dr_queue (drain_at x s)" for q x
    by (auto simp: queue_ok_def log_ok_def active_def drain_owns_def drain_ok_def at qat Let_def)
  then show ?thesis using assms by (simp add: inv_but_def qat)
qed

lemma inv_summary_alone: "inv_but (Some d) s \<Longrightarrow> followup_inv (summary_alone d now p r im s)"
  by (auto simp: summary_alone_def inv_finish inv_await split: option.split)

lemma inv_run_group:
  assumes "inv_but (Some d) s"
    and "lost (dr_queue (drain_at d s)) (fs_log s) = [] \<Longrightarrow>
      take (length (concat gs)) (qs_items (queue_at (dr_queue (drain_at d s)) s)) = concat gs"
  shows "followup_inv (run_group d now p gs s)"
  using assms by (cases gs) (simp_all add: run_group_def inv_loop_head inv_await)

lemma inv_collect_step:
  assumes "inv_but (Some d) s" shows "followup_inv (drainCollectQueueStep env d s)"
proof -
  define f where "f x = s\<lparr>fs_drains := (fs_drains s)[d := (drain_at d s)\<lparr>dr_forceIndividualCollect := x\<rparr>]\<rparr>" for x
  have inv: "inv_but (Some d) (f x)" for x unfolding f_def by (rule inv_force [OF assms])
  have same: "dr_queue (drain_at d (f x)) = dr_queue (drain_at d s)" "queue_at q (f x) = queue_at q s" "fs_log (f x) = fs_log s" for x q
    using inv_butD(9) [OF assms] by (auto simp: f_def drain_at_def queue_at_def active_def)
  have "followup_inv (suspend d CollectSkipped (f x))" "followup_inv (suspend d CollectEmpty (f x))" for x
    using inv_park [OF inv] by simp_all
  moreover have "followup_inv (await_run d r (ItemRun (hd (qs_items (queue_at (dr_queue (drain_at d s)) s)))) (f x))"
    if "qs_items (queue_at (dr_queue (drain_at d s)) s) \<noteq> []" for r x
    using that by (intro inv_await [OF inv]) (simp_all add: same)
  ultimately show ?thesis by (simp add: drainCollectQueueStep_def Let_def flip: f_def)
qed

lemma summary_means_dropped: "summary_of q s = Some p \<Longrightarrow> 0 < qs_droppedCount (queue_at q s)"
  by (auto simp: summary_of_def previewQueueSummaryPrompt_def buildQueueSummaryPrompt_def Let_def split: if_splits)

lemma inv_drain_body:
  assumes inv: "inv_but (Some d) s" shows "followup_inv (drain_body env d now s)"
proof -
  let ?q = "dr_queue (drain_at d s)"
  have missing: "followup_inv (suspend d ItemMissing s)" using inv_park [OF inv] by simp
  have dropped: "lost ?q (fs_log s) \<noteq> []" if "summary_of ?q s = Some p" for p
    using summary_means_dropped [OF that] queue_ok_at [OF inv] by (auto simp: queue_ok_def)
  show ?thesis
  proof (cases "summary_of ?q s")
    case None
    then show ?thesis using missing inv by (simp add: drain_body_def Let_def inv_collect_step inv_await)
  next
    case (Some p)
    then show ?thesis using missing inv dropped [OF Some]
      by (auto simp: drain_body_def Let_def inv_collect_step inv_finish intro!: inv_await split: option.split)
  qed
qed

lemma drain_ok_at: "followup_inv s \<Longrightarrow> active d s \<Longrightarrow> drain_ok d s"
  using inv_butD(6) by blast

lemma inv_resume_scan:
  assumes inv: "followup_inv s" and act: "active d s" and pt: "dr_point (drain_at d s) = ScanRun ph i n item"
  shows "followup_inv (resume_drain env d ok now s)"
proof -
  let ?q = "dr_queue (drain_at d s)"
  have open1: "inv_but (Some d) s" by (rule inv_open [OF inv act])
  have throw: "followup_inv (suspend d Throwing s')" if "inv_but (Some d) s'" for s' :: "'a Followups"
    using inv_park [OF that] by simp
  define s1 where "s1 = completeFollowupRunLifecycle item (put_log (Ran ?q [item]) s)"
  have inv1: "inv_but (Some d) s1" by (simp add: s1_def inv_complete inv_delivered [OF open1 owned [OF open1]])
  have q1: "dr_queue (drain_at d s1) = ?q" "queue_at ?q s1 = queue_at ?q s" by (simp_all add: s1_def)
  have len: "?q < length (fs_objects s1)" using owned [OF open1] by (simp add: s1_def)
  have inv2: "inv_but (Some d) (take_out ?q i 1 s1)"
  proof (rule inv_take_out [OF inv1])
    assume "lost ?q (fs_log s1) = []"
    then have "lost ?q (fs_log s) = []" by (simp add: s1_def)
    then have "i < length (qs_items (queue_at ?q s))" "qs_items (queue_at ?q s) ! i = item"
        "mset (gone ?q (fs_log s)) \<subseteq># mset (delivered ?q (fs_log s))"
      using drain_ok_at [OF inv act] pt by (simp_all add: drain_ok_def Let_def)
    then show "mset (gone ?q (fs_log s1)) + mset (take 1 (drop i (qs_items (queue_at ?q s1)))) \<subseteq># mset (delivered ?q (fs_log s1))"
      by (simp add: s1_def take_Suc_conv_app_nth hd_drop_conv_nth take_Suc)
  qed (simp_all add: q1)
  show ?thesis
    using throw [OF open1] throw [OF inv2] inv_drop_aborted [OF inv2, of i] pt
    by (simp add: resume_drain_def Let_def s1_def)
qed

lemma inv_resume_item:
  assumes inv: "followup_inv s" and act: "active d s" and pt: "dr_point (drain_at d s) = ItemRun item"
  shows "followup_inv (resume_drain env d ok now s)"
proof -
  let ?q = "dr_queue (drain_at d s)"
  have open1: "inv_but (Some d) s" by (rule inv_open [OF inv act])
  define s1 where "s1 = put_log (Ran ?q [item]) s"
  have inv1: "inv_but (Some d) s1" by (simp add: s1_def inv_delivered [OF open1 owned [OF open1]])
  have inv2: "inv_but (Some d) (take_out ?q 0 1 s1)"
  proof (rule inv_take_out [OF inv1])
    assume "lost ?q (fs_log s1) = []"
    then have "qs_items (queue_at ?q s) \<noteq> []" "hd (qs_items (queue_at ?q s)) = item"
        "mset (gone ?q (fs_log s)) \<subseteq># mset (delivered ?q (fs_log s))"
      using drain_ok_at [OF inv act] pt by (simp_all add: drain_ok_def Let_def s1_def)
    then show "mset (gone ?q (fs_log s1)) + mset (take 1 (drop 0 (qs_items (queue_at ?q s1)))) \<subseteq># mset (delivered ?q (fs_log s1))"
      by (cases "qs_items (queue_at ?q s)") (simp_all add: s1_def)
  qed (simp_all add: s1_def)
  have "followup_inv (suspend d LoopAgain (take_out ?q 0 1 s1))" "followup_inv (suspend d Throwing s)"
    using inv_park [OF inv2] inv_park [OF open1] by simp_all
  then show ?thesis using pt by (simp add: resume_drain_def Let_def s1_def)
qed

lemma inv_resume_group_run:
  assumes inv: "followup_inv s" and act: "active d s" and pt: "dr_point (drain_at d s) = GroupRun p g gs"
  shows "followup_inv (resume_drain env d ok now s)"
proof -
  let ?q = "dr_queue (drain_at d s)"
  have open1: "inv_but (Some d) s" by (rule inv_open [OF inv act])
  note len = owned [OF open1]
  define s1 where "s1 = (if ok then put_log (Ran ?q g) s else s)"
  have inv1: "inv_but (Some d) s1" by (simp add: s1_def inv_delivered [OF open1 len] open1)
  have len1: "?q < length (fs_objects s1)" using len by (simp add: s1_def)
  define s2 where "s2 = (if p \<noteq> None then completeFollowupQueueSummarySources ?q else id) s1"
  have inv2: "inv_but (Some d) s2" by (simp add: s2_def inv_complete_sources [OF inv1 len1] inv1)
  have same: "drain_at d s2 = drain_at d s" "qs_items (queue_at ?q s2) = qs_items (queue_at ?q s)"
    "lost ?q (fs_log s2) = lost ?q (fs_log s)" "gone ?q (fs_log s2) = gone ?q (fs_log s)"
    "delivered ?q (fs_log s2) = (if ok then delivered ?q (fs_log s) @ g else delivered ?q (fs_log s))"
    using len1 len by (simp_all add: s2_def s1_def)
  have "followup_inv (suspend d (if ok then GroupDone p g gs else Throwing) s2)"
    using drain_ok_at [OF inv act] pt
    by (intro inv_suspend [OF inv2]) (auto simp: same drain_ok_def Let_def)
  then show ?thesis using pt by (cases p; cases ok) (simp_all add: resume_drain_def Let_def s1_def s2_def)
qed

lemma inv_resume_group_done:
  assumes inv: "followup_inv s" and act: "active d s" and pt: "dr_point (drain_at d s) = GroupDone p g gs"
  shows "followup_inv (resume_drain env d ok now s)"
proof -
  let ?q = "dr_queue (drain_at d s)"
  have open1: "inv_but (Some d) s" by (rule inv_open [OF inv act])
  note len = owned [OF open1]
  have held: "take (length g + length (concat gs)) (qs_items (queue_at ?q s)) = g @ concat gs"
      "mset (gone ?q (fs_log s)) + mset g \<subseteq># mset (delivered ?q (fs_log s))" if "lost ?q (fs_log s) = []"
    using drain_ok_at [OF inv act] pt that by (simp_all add: drain_ok_def Let_def)
  have front: "take (length g) (qs_items (queue_at ?q s)) = g" if "lost ?q (fs_log s) = []"
    using arg_cong [OF held(1) [OF that], of "take (length g)"] by simp
  have rest: "take (length (concat gs)) (drop (length g) (qs_items (queue_at ?q s))) = concat gs" if "lost ?q (fs_log s) = []"
    using arg_cong [OF held(1) [OF that], of "drop (length g)"] by (simp add: drop_take)
  define s1 where "s1 = take_out ?q 0 (length g) s"
  have inv1: "inv_but (Some d) s1" unfolding s1_def
    by (rule inv_take_out [OF open1]) (simp_all add: front held(2))
  have len1: "?q < length (fs_objects s1)" using len by (simp add: s1_def)
  define s2 where "s2 = (if p \<noteq> None then clearFollowupQueueSummaryState ?q s1 else s1)"
  have inv2: "inv_but (Some d) s2" by (simp add: s2_def inv_clear_summary [OF inv1 len1] inv1)
  have same: "drain_at d s2 = drain_at d s" "qs_items (queue_at ?q s2) = drop (length g) (qs_items (queue_at ?q s))"
    "lost ?q (fs_log s2) = lost ?q (fs_log s)"
    using len1 len by (simp_all add: s2_def s1_def take_out_queue)
  have "followup_inv (run_group d now None gs s2)"
    by (rule inv_run_group [OF inv2]) (simp add: same rest)
  then show ?thesis using pt by (cases p) (simp_all add: resume_drain_def Let_def s1_def s2_def)
qed


lemma inv_resume_scan_done:
  assumes inv: "followup_inv s" and act: "active d s" and pt: "dr_point (drain_at d s) = ScanDone ph n"
  shows "followup_inv (resume_drain env d ok now s)"
proof -
  let ?q = "dr_queue (drain_at d s)"
  have open1: "inv_but (Some d) s" by (rule inv_open [OF inv act])
  define s1 where "s1 = (if 0 < n \<and> qs_items (queue_at ?q s) = [] then clearFollowupQueueSummaryState ?q s else s)"
  have inv1: "inv_but (Some d) s1" by (simp add: s1_def inv_clear_summary [OF open1 owned [OF open1]] open1)
  have "dr_queue (drain_at d s1) = ?q" by (simp add: s1_def)
  then have "followup_inv (if queue_done ?q s1 then finish_drain d s1
      else case ph of BeforeDebounce \<Rightarrow> suspend d (DebounceWait (max 0 (fq_debounceMs (queue_at ?q s1)))) s1
        | AfterDebounce \<Rightarrow> drain_body env d now s1)"
    using inv_finish [OF inv1] inv_park [OF inv1] inv_drain_body [OF inv1] by (simp split: ScanPhase.split)
  then show ?thesis using pt
    by (cases "0 < n \<and> qs_items (queue_at ?q s) = []") (auto simp: resume_drain_def Let_def s1_def split: ScanPhase.splits)
qed

lemma split_groups_concat: "concat (split_groups k groups current key items) = concat groups @ current @ items"
  by (induction k groups current key items rule: split_groups.induct) simp_all

lemma split_concat: "concat (splitCollectItemsByAuthorization s items) = items"
  by (simp add: splitCollectItemsByAuthorization_def split_groups_concat)

lemma inv_resume:
  assumes inv: "followup_inv s" and act: "active d s"
  shows "followup_inv (resume_drain env d ok now s)"
proof -
  let ?q = "dr_queue (drain_at d s)"
  have open1: "inv_but (Some d) s" by (rule inv_open [OF inv act])
  note len = owned [OF open1]
  note sources = inv_complete_sources [OF open1 len] and cleared = inv_clear_summary [OF open1 len]
  note park = inv_park [OF open1] inv_park [OF sources] inv_park [OF cleared]
  show ?thesis
  proof (cases "dr_point (drain_at d s)")
    case LoopAgain
    then show ?thesis by (simp add: resume_drain_def Let_def inv_loop_head [OF open1])
  next
    case (ScanRun ph i n item)
    then show ?thesis by (rule inv_resume_scan [OF inv act])
  next
    case (ScanDone ph n)
    then show ?thesis by (rule inv_resume_scan_done [OF inv act])
  next
    case (DebounceWait w)
    then show ?thesis using park(1) inv by (simp add: resume_drain_def Let_def)
  next
    case DebounceDone
    then show ?thesis by (simp add: resume_drain_def Let_def inv_drop_aborted [OF open1])
  next
    case CollectEmpty
    then show ?thesis by (simp add: resume_drain_def Let_def inv_summary_alone [OF open1])
  next
    case CollectSkipped
    have "take (length (concat (g # gs))) (qs_items (queue_at ?q s)) = concat (g # gs)"
      if "splitCollectItemsByAuthorization s (qs_items (queue_at ?q s)) = g # gs" for g gs
      using split_concat [of s "qs_items (queue_at ?q s)"] unfolding that by simp
    then show ?thesis using CollectSkipped inv_run_group [OF open1]
      by (simp add: resume_drain_def Let_def inv_summary_alone [OF open1] split: list.split)
  next
    case (ItemRun item)
    then show ?thesis by (rule inv_resume_item [OF inv act])
  next
    case ItemMissing
    then show ?thesis by (simp add: resume_drain_def Let_def inv_finish [OF open1])
  next
    case SummaryRun
    then show ?thesis using park(2) by (simp add: resume_drain_def Let_def)
  next
    case SummaryDone
    then show ?thesis by (simp add: resume_drain_def Let_def inv_loop_head [OF cleared])
  next
    case (SummaryItemRun item)
    have "lost ?q (fs_log s) \<noteq> []"
      using drain_ok_at [OF inv act] SummaryItemRun by (auto simp: drain_ok_def Let_def)
    then have "followup_inv (suspend d (SummaryItemDone item) (completeFollowupQueueSummarySources ?q s))"
      by (intro inv_suspend [OF sources]) simp_all
    then show ?thesis using SummaryItemRun park(2) by (simp add: resume_drain_def Let_def)
  next
    case (SummaryItemDone item)
    have "lost ?q (fs_log s) \<noteq> []"
      using drain_ok_at [OF inv act] SummaryItemDone by (auto simp: drain_ok_def Let_def)
    then have "inv_but (Some d) (take_out ?q 0 1 s)" by (intro inv_take_out [OF open1]) simp_all
    from inv_park [OF this] show ?thesis using SummaryItemDone by (simp add: resume_drain_def Let_def)
  next
    case (GroupRun p g gs)
    then show ?thesis by (rule inv_resume_group_run [OF inv act])
  next
    case (GroupDone p g gs)
    then show ?thesis by (rule inv_resume_group_done [OF inv act])
  next
    case Throwing
    then show ?thesis by (simp add: resume_drain_def Let_def inv_catch [OF open1])
  next
    case DrainEnded
    then show ?thesis using act by (simp add: active_def)
  qed
qed

text \<open>Settings and new queues.\<close>

lemma apply_settings_fields [simp]:
  "qs_items (apply_settings settings st) = qs_items st" "fq_draining (apply_settings settings st) = fq_draining st"
  "fq_summarySources (apply_settings settings st) = fq_summarySources st" "qs_summaryLines (apply_settings settings st) = qs_summaryLines st"
  "qs_droppedCount (apply_settings settings st) = qs_droppedCount st"
  by (simp_all add: apply_settings_def applyQueueRuntimeSettings_def)

lemma new_queue_fields [simp]:
  "qs_items (new_queue settings) = []" "fq_draining (new_queue settings) = False" "fq_summarySources (new_queue settings) = []"
  "qs_summaryLines (new_queue settings) = []" "qs_droppedCount (new_queue settings) = 0"
  by (simp_all add: new_queue_def)

lemma inv_new_object:
  assumes inv: "followup_inv s" and st: "qs_items st = []" "\<not> fq_draining st" "fq_summarySources st = []" "qs_summaryLines st = []" "qs_droppedCount st = 0"
  shows "followup_inv (s\<lparr>fs_objects := fs_objects s @ [st], fs_queues := jm_set key (length (fs_objects s)) (fs_queues s)\<rparr>)" (is "followup_inv ?s")
proof -
  let ?q = "length (fs_objects s)"
  have at: "drain_at d ?s = drain_at d s" "active d ?s = active d s" for d by (simp_all add: drain_at_def active_def)
  have qat: "queue_at q ?s = (if q = ?q then st else queue_at q s)" if "q \<le> ?q" for q
    using that by (auto simp: queue_at_def nth_append)
  have none: "admitted ?q (fs_log s) = []" "gone ?q (fs_log s) = []" "lost ?q (fs_log s) = []"
    using inv_butD(3) [OF inv, of ?q] by simp_all
  have small: "dr_queue (drain_at d s) < ?q" if "active d s" for d
    using inv_butD(5) [OF inv that] by (simp add: drain_owns_def)
  show ?thesis
  proof (rule inv_butI)
    fix k q assume "jm_get (fs_queues ?s) k = Some q"
    then show "q < length (fs_objects ?s)" using inv_butD(1) [OF inv, of k q] by (auto split: if_splits)
  next
    fix q assume "q < length (fs_objects ?s)"
    then show "queue_ok q ?s" using inv_butD(2) [OF inv, of q] qat [of q] st none
      by (cases "q = ?q") (auto simp: queue_ok_def)
  next
    fix d assume "active d ?s"
    then show "drain_owns d ?s" using inv_butD(5) [OF inv, of d] small [of d] by (simp add: at drain_owns_def qat)
  next
    fix d assume "active d ?s"
    then show "drain_ok d ?s" using inv_butD(6) [OF inv, of d] small [of d] by (simp add: at drain_ok_def qat Let_def)
  next
    fix q assume "q < length (fs_objects ?s)" "fq_draining (queue_at q ?s)"
    then show "\<exists>d. active d ?s \<and> dr_queue (drain_at d ?s) = q"
      using inv_butD(8) [OF inv, of q] qat [of q] st by (cases "q = ?q") (auto simp: at)
  qed (use inv_butD(3,4,7) [OF inv] in \<open>auto simp: at log_ok_def\<close>)
qed

lemma inv_get_queue:
  assumes inv: "followup_inv s" and g: "getFollowupQueue key settings s = (q, s')"
  shows "followup_inv s' \<and> q < length (fs_objects s')"
proof (cases "jm_get (fs_queues s) key")
  case None
  then have "q = length (fs_objects s)"
    "s' = s\<lparr>fs_objects := fs_objects s @ [apply_settings settings (new_queue settings)], fs_queues := jm_set key (length (fs_objects s)) (fs_queues s)\<rparr>"
    using g by (auto simp: getFollowupQueue_def Let_def)
  then show ?thesis using inv_new_object [OF inv] by simp
next
  case (Some q0)
  then have "q = q0" "s' = set_queue q0 (apply_settings settings (queue_at q0 s)) s" using g by (auto simp: getFollowupQueue_def)
  moreover have "q0 < length (fs_objects s)" by (rule inv_butD(1) [OF inv Some])
  moreover from this have "queue_ok q0 s" by (rule inv_butD(2) [OF inv])
  ultimately show ?thesis by (auto intro!: inv_set [OF inv] simp: queue_ok_def)
qed


text \<open>Dropping makes room: what is dropped is accounted for.\<close>

lemma drop_policy_cases:
  assumes "applyQueueDropPolicy e f None (st :: 'x FollowupQueueState) = (ok, dropped, st')"
  shows "qs_items st = dropped @ qs_items st'" "qs_dropPolicy st' = qs_dropPolicy st" "fq_draining st' = fq_draining st"
    "fq_summarySources st' = fq_summarySources st"
    "qs_dropPolicy st = DropSummarize \<Longrightarrow> qs_droppedCount st' = qs_droppedCount st + length dropped
       \<and> length (qs_summaryLines st') \<le> length (qs_summaryLines st) + length dropped"
    "qs_dropPolicy st \<noteq> DropSummarize \<Longrightarrow> qs_droppedCount st' = qs_droppedCount st \<and> qs_summaryLines st' = qs_summaryLines st"
  using assms
  by (auto simp: applyQueueDropPolicy_def Let_def split: if_splits
      intro!: le_trans [OF diff_le_self add_le_mono [OF diff_le_self le_refl]])

text \<open>An update of a queue with an entry of the log: dropped, cleared, or admitted.\<close>

lemma inv_lose:
  assumes inv: "followup_inv s" and q: "q < length (fs_objects s)" and how: "how = LeftDropped \<or> how = LeftCleared"
    and items: "qs_items (queue_at q s) = is @ qs_items st" and drn: "fq_draining st = fq_draining (queue_at q s)"
    and sums: "length (fq_summarySources st) \<le> length (qs_summaryLines st)" "length (qs_summaryLines st) \<le> qs_droppedCount st"
      "qs_droppedCount st \<le> length (lost q (fs_log s)) + length is"
  shows "followup_inv (put_log (Left q how is) (set_queue q st s))"
proof (cases "is = []")
  case True
  have eq: "inv_but None (put_log (Left q how []) s') = inv_but None s'" for s' :: "'a Followups"
    by (rule inv_cong) simp_all
  have "followup_inv (set_queue q st s)" using assms True by (intro inv_set) simp_all
  then show ?thesis by (simp add: True eq)
next
  case False
  let ?s = "put_log (Left q how is) (set_queue q st s)"
  show ?thesis
  proof (rule inv_butI)
    fix q' assume "q' < length (fs_objects ?s)"
    then show "queue_ok q' ?s" using inv_butD(2) [OF inv, of q'] q how items sums by (auto simp: queue_ok_def ac_simps)
  next
    fix q' show "log_ok q' ?s" using inv_butD(4) [OF inv, of q'] False how by (auto simp: log_ok_def)
  next
    fix d assume "active d ?s"
    then show "drain_owns d ?s" using inv_butD(5) [OF inv, of d] q drn by (auto simp: drain_owns_def)
  next
    fix d assume "active d ?s"
    then show "drain_ok d ?s" using inv_butD(6) [OF inv, of d] q False how by (auto simp: drain_ok_def Let_def)
  next
    fix q' assume "q' < length (fs_objects ?s)" "fq_draining (queue_at q' ?s)"
    then show "\<exists>d. active d ?s \<and> dr_queue (drain_at d ?s) = q'"
      using inv_butD(8) [OF inv, of q'] q drn by (auto split: if_splits)
  qed (use inv_butD(1,3,7) [OF inv] q in auto)
qed

lemma point_ok_append: "point_ok items pt \<Longrightarrow> point_ok (items @ extra) pt"
  by (cases pt) (auto simp: nth_append take_append dest: arg_cong [where f = length])

lemma inv_admit:
  assumes inv: "followup_inv s" and q: "q < length (fs_objects s)"
  shows "followup_inv (put_log (Admitted q m) (set_queue q ((queue_at q s)\<lparr>qs_items := qs_items (queue_at q s) @ [m]\<rparr>) s))"
    (is "followup_inv ?s")
proof (rule inv_butI)
  fix q' assume "q' < length (fs_objects ?s)"
  then show "queue_ok q' ?s" using inv_butD(2) [OF inv, of q'] q by (auto simp: queue_ok_def)
next
  fix q' show "log_ok q' ?s" using inv_butD(4) [OF inv, of q'] by (simp add: log_ok_def)
next
  fix d assume "active d ?s"
  then show "drain_owns d ?s" using inv_butD(5) [OF inv, of d] q by (auto simp: drain_owns_def)
next
  fix d assume "active d ?s"
  then show "drain_ok d ?s" using inv_butD(6) [OF inv, of d] q by (auto simp: drain_ok_def Let_def intro: point_ok_append)
next
  fix q' assume "q' < length (fs_objects ?s)" "fq_draining (queue_at q' ?s)"
  then show "\<exists>d. active d ?s \<and> dr_queue (drain_at d ?s) = q'"
    using inv_butD(8) [OF inv, of q'] q by (auto split: if_splits)
qed (use inv_butD(1,3,7) [OF inv] q in auto)

lemma inv_make_room:
  assumes inv: "followup_inv s" and q: "q < length (fs_objects s)"
  shows "followup_inv (snd (make_room env q s)) \<and> length (fs_objects (snd (make_room env q s))) = length (fs_objects s)"
proof -
  obtain ok dropped st where a: "applyQueueDropPolicy (fe_ellipsis env) followup_summary None (queue_at q s) = (ok, dropped, st)"
    by (metis prod_cases3)
  note c = drop_policy_cases [OF a]
  have ok: "queue_ok q s" by (rule inv_butD(2) [OF inv q])
  have none: "inv_but None (put_log (Left q LeftDropped []) s') = inv_but None s'" for s' :: "'a Followups"
    by (rule inv_cong) simp_all
  have log: "followup_inv (if dropped = [] then s' else put_log (Left q LeftDropped dropped) s') =
      followup_inv (put_log (Left q LeftDropped dropped) s')" for s' :: "'a Followups"
    using none by auto
  show ?thesis
  proof (cases "qs_dropPolicy st = DropSummarize")
    case False
    then have "followup_inv (put_log (Left q LeftDropped dropped) (set_queue q st s))"
      using ok c by (intro inv_lose [OF inv q]) (auto simp: queue_ok_def)
    then show ?thesis using False a log by (simp add: make_room_def Let_def inv_fold_complete)
  next
    case True
    define sources where "sources = fq_summarySources st @ dropped"
    define n where "n = length sources - length (qs_summaryLines st)"
    let ?st = "st\<lparr>fq_summarySources := drop n sources\<rparr>"
    have "followup_inv (put_log (Left q LeftDropped dropped) (set_queue q ?st s))"
      using ok c True by (intro inv_lose [OF inv q]) (auto simp: queue_ok_def n_def sources_def)
    then have "followup_inv (if dropped = [] then set_queue q ?st s else put_log (Left q LeftDropped dropped) (set_queue q ?st s))"
      using none by (cases "dropped = []") simp_all
    moreover have "set_queue q st1 (if dropped = [] then s' else put_log (Left q LeftDropped dropped) s')
        = (if dropped = [] then set_queue q st1 s' else put_log (Left q LeftDropped dropped) (set_queue q st1 s'))" for st1 s'
      by (simp add: set_queue_def put_log_def)
    ultimately show ?thesis using True a q
      by (cases "dropped = []") (simp_all add: make_room_def Let_def inv_fold_complete sources_def n_def)
  qed
qed


lemma inv_enqueue:
  assumes "followup_inv s" shows "followup_inv (snd (enqueueFollowupRun env key m settings dedupe cb restart now s))"
proof (cases "isFollowupRunAborted s m")
  case True
  then show ?thesis using assms by (simp add: enqueueFollowupRun_def)
next
  case False
  obtain q s1 where g: "getFollowupQueue key settings s = (q, s1)" by force
  have 1: "followup_inv s1" "q < length (fs_objects s1)" using inv_get_queue [OF assms g] by simp_all
  define rk where "rk = (if dedupe \<noteq> DedupeNone then buildRecentMessageIdKey m key else None)"
  obtain seen recent where d: "dedupe_peek RECENT_QUEUE_MESSAGE_IDS rk now (fs_recent s1) = (seen, recent)" by force
  define s2 where "s2 = s1\<lparr>fs_recent := recent\<rparr>"
  have 2: "followup_inv s2" "q < length (fs_objects s2)" "queue_at q s2 = queue_at q s1"
    using 1 by (simp_all add: s2_def inv_bookkeeping queue_at_def)
  define s3 where "s3 = set_queue q ((queue_at q s2)\<lparr>fq_lastEnqueuedAt := now, fq_lastRun := Some (fr_run m)\<rparr>) s2"
  have 3: "followup_inv s3" "q < length (fs_objects s3)"
    using 2 inv_butD(2) [OF 2(1,2)] unfolding s3_def by (auto intro!: inv_set [OF 2(1)] simp: queue_ok_def)
  obtain ok s4 where room: "make_room env q s3 = (ok, s4)" by force
  have 4: "followup_inv s4" "q < length (fs_objects s4)" using inv_make_room [OF 3, of env] 3 by (simp_all add: room)
  define s5 where "s5 = markFollowupRunEnqueued m (put_log (Admitted q m) (set_queue q ((queue_at q s4)\<lparr>qs_items := qs_items (queue_at q s4) @ [m]\<rparr>) s4))"
  have 5: "followup_inv s5" by (simp add: s5_def inv_mark inv_admit [OF 4])
  define s6 where "s6 = (case cb of None \<Rightarrow> id | Some c \<Rightarrow> rememberFollowupDrainCallback key c)
      (s5\<lparr>fs_recent := snd (dedupe_check RECENT_QUEUE_MESSAGE_IDS rk now (fs_recent s5))\<rparr>)"
  have 6: "followup_inv s6" using 5
    by (cases cb) (simp_all add: s6_def inv_bookkeeping rememberFollowupDrainCallback_def)
  have "snd (enqueueFollowupRun env key m settings dedupe cb restart now s) \<in> {s2, s4, s6, kickFollowupDrainIfIdle key s6}"
    using False g d room
    by (cases cb) (auto simp: enqueueFollowupRun_def Let_def rk_def [symmetric] s2_def s3_def s5_def s6_def)
  then show ?thesis using 2(1) 4(1) 6 inv_kick [OF 6] by auto
qed

lemma inv_clear:
  assumes "followup_inv s" shows "followup_inv (snd (clearFollowupQueue key s))"
proof (cases "getExistingFollowupQueue (js_trim key) s")
  case None
  then show ?thesis using assms by (simp add: clearFollowupQueue_def Let_def)
next
  case (Some q)
  then have "jm_get (fs_queues s) (js_trim key) = Some q"
    by (simp add: getExistingFollowupQueue_def Let_def split: if_splits)
  then have q: "q < length (fs_objects s)" using inv_butD(1) [OF assms] by blast
  define s1 where "s1 = fold completeFollowupRunLifecycle (fq_summarySources (queue_at q s))
    (fold completeFollowupRunLifecycle (qs_items (queue_at q s)) s)"
  have s1: "followup_inv s1" "q < length (fs_objects s1)" "queue_at q s1 = queue_at q s"
    using assms q by (simp_all add: s1_def inv_fold_complete)
  let ?st = "(queue_at q s)\<lparr>qs_items := [], qs_droppedCount := 0, qs_summaryLines := [], fq_summarySources := [],
    fq_lastRun := None, fq_lastEnqueuedAt := 0\<rparr>"
  have "followup_inv (put_log (Left q LeftCleared (qs_items (queue_at q s))) (set_queue q ?st s1))"
    by (rule inv_lose [OF s1(1,2)]) (simp_all add: s1(3))
  note inv_unlink [OF this, of "js_trim key"]
  moreover have "set_queue q st (put_log e s') = put_log e (set_queue q st s')" for st e and s' :: "'a Followups"
    by (simp add: set_queue_def put_log_def)
  ultimately show ?thesis using Some
    by (simp add: clearFollowupQueue_def Let_def s1_def)
qed

lemma inv_rewrites: "inv_but x (fold (rewrite_at p) rs s) = inv_but x s"
  by (induction rs arbitrary: s) (simp_all add: rewrite_at_def inv_bookkeeping)

lemma inv_op: "followup_inv s \<Longrightarrow> followup_inv (followup_op env op s)"
proof (cases op)
  case (FoResume d ok now)
  assume inv: "followup_inv s"
  show ?thesis
  proof (cases "active d s")
    case False
    have "resume_drain env d ok now s = s" if "d < length (fs_drains s)"
      using False that by (simp add: resume_drain_def active_def Let_def)
    then show ?thesis using inv FoResume by simp
  qed (use FoResume inv_resume [OF inv] inv in simp)
qed (simp_all add: inv_enqueue inv_schedule inv_clear clearFollowupDrainCallback_def refreshQueuedFollowupSession_def
    inv_rewrites inv_bookkeeping split: option.split)

inductive followup_step :: "FollowupEnv \<Rightarrow> 'x Followups \<Rightarrow> 'x Followups \<Rightarrow> bool" for env :: FollowupEnv where
  followup_stepI: "followup_step env s (followup_op env op s)"

inductive_cases followup_stepE: "followup_step env s t"

interpretation followups: transition_system "\<lambda>s. s = no_followups" "followup_step env" followup_inv for env
proof
  show "s = no_followups \<Longrightarrow> followup_inv s" for s :: "'a Followups"
    by (simp add: no_followups_def inv_but_def log_ok_def active_def)
  show "followup_inv s \<Longrightarrow> followup_step env s t \<Longrightarrow> followup_inv t" for s t :: "'a Followups"
    by (auto elim!: followup_stepE intro: inv_op)
qed

lemma followup_reachable: "reachable_from (\<lambda>s. s = no_followups) (followup_step env) (followup_run env ops)"
  unfolding followup_run_def
proof (induction ops rule: rev_induct)
  case Nil
  show ?case by (simp add: reach_start)
next
  case (snoc op ops)
  show ?case by (simp add: reach_step [OF snoc.IH followup_stepI])
qed

lemma followup_run_inv: "followup_inv (followup_run env ops)"
  by (rule followups.reachable_inv [OF followup_reachable])


section \<open>Groups of a collection\<close>

text \<open>What decides the authorization of a message, field by field.\<close>

definition authorization :: "'x AgentRun \<Rightarrow> string list \<times> bool list" where
  "authorization run =
    ([or_else (ru_senderId run) [], or_else (ru_senderE164 run) [],
      or_else (Option.bind (ru_execOverrides run) eo_host) [], or_else (Option.bind (ru_execOverrides run) eo_security) [],
      or_else (Option.bind (ru_execOverrides run) eo_ask) [], or_else (Option.bind (ru_execOverrides run) eo_node) [],
      or_else (Option.bind (ru_bashElevated run) be_defaultLevel) []],
     [ru_senderIsOwner run = Some True, map_option be_enabled (ru_bashElevated run) = Some True,
      map_option be_allowed (ru_bashElevated run) = Some True])"

lemma authorization_key: "resolveFollowupAuthorizationKey a = resolveFollowupAuthorizationKey b \<longleftrightarrow> authorization a = authorization b"
  by (auto simp: resolveFollowupAuthorizationKey_def authorization_def json_array_unique)

definition uniform :: "('a \<Rightarrow> 'b) \<Rightarrow> 'a list list \<Rightarrow> bool" where
  "uniform keyOf gs \<longleftrightarrow> list_all (\<lambda>g. g \<noteq> [] \<and> list_all (\<lambda>i. keyOf i = keyOf (last g)) g) gs
     \<and> successively (\<lambda>g h. keyOf (last g) \<noteq> keyOf (hd h)) gs"

lemma split_groups_uniform:
  assumes "uniform keyOf (groups @ (if current = [] then [] else [current]))"
    and "current \<noteq> [] \<Longrightarrow> key = Some (keyOf (last current))" and "current = [] \<Longrightarrow> groups = []"
  shows "uniform keyOf (split_groups keyOf groups current key items)"
  using assms
proof (induction keyOf groups current key items rule: split_groups.induct)
  case (1 keyOf groups current key)
  then show ?case by (cases "current = []") simp_all
next
  case (2 keyOf groups current key item items)
  show ?case
  proof (cases "current = [] \<or> Some (keyOf item) = key")
    case True
    have "uniform keyOf (groups @ [current @ [item]])"
      using 2(3-5) True by (cases "current = []") (auto simp: uniform_def successively_append_iff)
    then show ?thesis using 2(1) [OF True] 2(5) True by simp
  next
    case False
    then have "uniform keyOf (groups @ [current] @ [[item]])"
      using 2(3,4) by (auto simp: uniform_def successively_append_iff)
    then show ?thesis using 2(2) [OF False] False by simp
  qed
qed

section \<open>An undisturbed drain\<close>

definition runs_of :: "'x FollowupEvent list \<Rightarrow> 'x FollowupRun list" where
  "runs_of es = concat (map (\<lambda>e. case e of RunFollowup cb r \<Rightarrow> [r] | _ \<Rightarrow> []) es)"

lemma runs_of_append [simp]: "runs_of (es @ es') = runs_of es @ runs_of es'"
  by (simp add: runs_of_def)

lemma runs_of_simps [simp]:
  "runs_of [] = []" "runs_of (RunFollowup cb r # es) = r # runs_of es" "runs_of (Ran q is # es) = runs_of es"
  "runs_of (Left q how is # es) = runs_of es"
  by (simp_all add: runs_of_def)

text \<open>A drain after its first scan, with nothing in its way.\<close>

definition quiet :: "FollowupEnv \<Rightarrow> rat \<Rightarrow> nat \<Rightarrow> string \<Rightarrow> nat \<Rightarrow> 'x FollowupRun list \<Rightarrow> 'x Followups \<Rightarrow> bool" where
  "quiet env now d key q items s \<longleftrightarrow>
     d < length (fs_drains s) \<and> dr_key (drain_at d s) = key \<and> dr_queue (drain_at d s) = q
   \<and> q < length (fs_objects s) \<and> jm_get (fs_queues s) key = Some q \<and> fs_aborted s = []
   \<and> qs_items (queue_at q s) = items \<and> qs_droppedCount (queue_at q s) = 0 \<and> fq_mode (queue_at q s) \<noteq> Collect
   \<and> waitForQueueDebounce (fe_testFast env) (max 0 (fq_debounceMs (queue_at q s))) (fq_lastEnqueuedAt (queue_at q s)) now"

lemma not_aborted: "fs_aborted s = [] \<Longrightarrow> last_aborted s items n = None"
proof -
  assume "fs_aborted s = []"
  then have "\<not> signal_aborted (fs_aborted s) sg" for sg by (induction sg) (auto simp: list_ex_iff)
  then show ?thesis by (induction n) (auto simp: isFollowupRunAborted_def split: option.splits)
qed


lemma quiet_suspend: "quiet env now d key q items s \<Longrightarrow> quiet env now d key q items (suspend d pt s)"
  by (simp add: quiet_def drain_at_suspend)

lemma quiet_log: "quiet env now d key q items (put_log e s) = quiet env now d key q items s"
  by (simp add: quiet_def)

lemma quiet_point: "quiet env now d key q items s \<Longrightarrow> dr_point (drain_at d (suspend d pt s)) = pt"
  by (simp add: quiet_def drain_at_suspend)

lemma quiet_head:
  assumes "quiet env now d key q items s"
  shows "loop_head d s = (if items = [] then drop_queue key q (end_drain d s) else suspend d (ScanDone BeforeDebounce 0) s)"
  using assms by (simp add: quiet_def loop_head_def queue_done_def dropAbortedFollowups_def not_aborted Let_def)

lemma quiet_no_summary: "quiet env now d key q items s \<Longrightarrow> summary_of q s = None"
  by (simp add: quiet_def summary_of_def previewQueueSummaryPrompt_def buildQueueSummaryPrompt_def)

lemma quiet_round:
  assumes qt: "quiet env now d key q (m # ms) s" and pt: "dr_point (drain_at d s) = ScanDone BeforeDebounce 0"
  shows "\<exists>s'. (resume_drain env d True now ^^ 5) s = s' \<and> quiet env now d key q ms s'
    \<and> dr_point (drain_at d s') = LoopAgain \<and> runs_of (fs_log s') = runs_of (fs_log s) @ [m]"
proof -
  note Q = quiet_def resume_drain_def Let_def queue_done_def
  define s1 where "s1 = suspend d (DebounceWait (max 0 (fq_debounceMs (queue_at q s)))) s"
  define s2 where "s2 = suspend d DebounceDone s1"
  define s3 where "s3 = suspend d (ScanDone AfterDebounce 0) s2"
  define s4 where "s4 = await_run d m (ItemRun m) s3"
  define s5 where "s5 = suspend d LoopAgain (take_out q 0 1 (put_log (Ran q [m]) s4))"
  have q1: "quiet env now d key q (m # ms) s1" unfolding s1_def by (rule quiet_suspend [OF qt])
  have q2: "quiet env now d key q (m # ms) s2" unfolding s2_def by (rule quiet_suspend [OF q1])
  have q3: "quiet env now d key q (m # ms) s3" unfolding s3_def by (rule quiet_suspend [OF q2])
  have q4: "quiet env now d key q (m # ms) s4" unfolding s4_def await_run_def
    by (rule quiet_suspend) (simp add: quiet_log q3)
  have p1: "dr_point (drain_at d s1) = DebounceWait (max 0 (fq_debounceMs (queue_at q s)))"
    unfolding s1_def by (rule quiet_point [OF qt])
  have p2: "dr_point (drain_at d s2) = DebounceDone" unfolding s2_def by (rule quiet_point [OF q1])
  have p3: "dr_point (drain_at d s3) = ScanDone AfterDebounce 0" unfolding s3_def by (rule quiet_point [OF q2])
  have p4: "dr_point (drain_at d s4) = ItemRun m" unfolding s4_def await_run_def
    by (rule quiet_point [of env now d key q "m # ms"]) (simp add: quiet_log q3)
  have r1: "resume_drain env d True now s = s1" using qt pt by (simp add: Q s1_def)
  have "queue_at q s1 = queue_at q s" by (simp add: s1_def)
  then have r2: "resume_drain env d True now s1 = s2" using q1 p1 by (simp add: Q s2_def)
  have r3: "resume_drain env d True now s2 = s3" using q2 p2 by (simp add: Q s3_def dropAbortedFollowups_def not_aborted)
  have r4: "resume_drain env d True now s3 = s4" using q3 p3 quiet_no_summary [OF q3] by (simp add: Q s4_def drain_body_def)
  have r5: "resume_drain env d True now s4 = s5" using q4 p4 by (simp add: Q s5_def)
  have "(resume_drain env d True now ^^ 5) s = s5" by (simp add: eval_nat_numeral r1 r2 r3 r4 r5)
  moreover have "quiet env now d key q ms s5" using q4 by (simp add: s5_def quiet_def take_out_queue drain_at_suspend)
  moreover have "dr_point (drain_at d s5) = LoopAgain" using q4 by (simp add: s5_def quiet_def drain_at_suspend)
  moreover have "runs_of (fs_log s5) = runs_of (fs_log s) @ [m]"
    by (simp add: s5_def s4_def await_run_def s3_def s2_def s1_def)
  ultimately show ?thesis by blast
qed

lemma quiet_drain:
  "quiet env now d key q items s \<Longrightarrow>
   (let t = (resume_drain env d True now ^^ (6 * length items)) (loop_head d s)
    in runs_of (fs_log t) = runs_of (fs_log s) @ items \<and> jm_get (fs_queues t) key = None \<and> dr_point (drain_at d t) = DrainEnded)"
proof (induction items arbitrary: s)
  case Nil
  then show ?case
    by (simp add: quiet_head drop_queue_def end_drain_def clearFollowupDrainCallback_def Let_def)
      (simp add: quiet_def drain_at_def suspend_def)
next
  case (Cons m ms)
  let ?r = "resume_drain env d True now"
  let ?s = "suspend d (ScanDone BeforeDebounce 0) s"
  have q: "quiet env now d key q (m # ms) ?s" by (rule quiet_suspend [OF Cons.prems])
  obtain s' where s': "(?r ^^ 5) ?s = s'" "quiet env now d key q ms s'" "dr_point (drain_at d s') = LoopAgain"
      "runs_of (fs_log s') = runs_of (fs_log ?s) @ [m]"
    using quiet_round [OF q quiet_point [OF Cons.prems]] by blast
  have "?r s' = loop_head d s'" using s'(3) by (simp add: resume_drain_def Let_def)
  then have six: "(?r ^^ 6) ?s = loop_head d s'" using s'(1) by (simp add: eval_nat_numeral)
  have all: "(?r ^^ (6 * length (m # ms))) ?s = (?r ^^ (6 * length ms)) ((?r ^^ 6) ?s)"
    using fun_cong [OF funpow_add [of "6 * length ms" 6 ?r], of ?s] by (simp add: comp_def add.commute)
  have head: "loop_head d s = ?s" using quiet_head [OF Cons.prems] by simp
  show ?case unfolding head all six using Cons.IH [OF s'(2)] s'(4) by (simp add: Let_def)
qed


section \<open>Recent message ids\<close>

lemma recent_small [simp]:
  "fs_recent (put_log e s) = fs_recent s" "fs_recent (set_queue q st s) = fs_recent s" "fs_recent (suspend d pt s) = fs_recent s"
  "fs_recent (completeFollowupRunLifecycle i s) = fs_recent s" "fs_recent (markFollowupRunEnqueued i s) = fs_recent s"
  "fs_recent (rememberFollowupDrainCallback k cb s) = fs_recent s" "fs_recent (clearFollowupDrainCallback k s) = fs_recent s"
  "fs_recent (await_run d i pt s) = fs_recent s" "fs_recent (take_out q j n s) = fs_recent s"
  "fs_recent (drop_queue k q s) = fs_recent s" "fs_recent (rewrite_at p r s) = fs_recent s"
  by (simp_all add: put_log_def set_queue_def suspend_def completeFollowupRunLifecycle_def markFollowupRunEnqueued_def
      rememberFollowupDrainCallback_def clearFollowupDrainCallback_def await_run_def take_out_def drop_queue_def rewrite_at_def Let_def
      split: option.split)

lemma recent_fold [simp]:
  "fs_recent (fold completeFollowupRunLifecycle is s) = fs_recent s" "fs_recent (fold (rewrite_at p) rs s) = fs_recent s"
proof -
  show "fs_recent (fold completeFollowupRunLifecycle is s) = fs_recent s" by (induction "is" arbitrary: s) simp_all
  show "fs_recent (fold (rewrite_at p) rs s) = fs_recent s" by (induction rs arbitrary: s) simp_all
qed

lemma recent_drain [simp]:
  "fs_recent (completeFollowupQueueSummarySources q s) = fs_recent s" "fs_recent (clearFollowupQueueSummaryState q s) = fs_recent s"
  "fs_recent (dropAbortedFollowups d phase n m s) = fs_recent s" "fs_recent (end_drain d s) = fs_recent s"
  "fs_recent (loop_head d s) = fs_recent s" "fs_recent (scheduleFollowupDrain k cb s) = fs_recent s"
  "fs_recent (kickFollowupDrainIfIdle k s) = fs_recent s"
proof -
  show a: "fs_recent (completeFollowupQueueSummarySources q s) = fs_recent s" for s :: "'a Followups"
    by (simp add: completeFollowupQueueSummarySources_def Let_def)
  show "fs_recent (clearFollowupQueueSummaryState q s) = fs_recent s"
    by (simp add: clearFollowupQueueSummaryState_def Let_def a)
  show b: "fs_recent (dropAbortedFollowups d phase n m s) = fs_recent s" for d and s :: "'a Followups" and phase n m
    by (simp add: dropAbortedFollowups_def Let_def split: option.split)
  show c: "fs_recent (end_drain d s) = fs_recent s" for d and s :: "'a Followups"
    by (simp add: end_drain_def Let_def)
  show l: "fs_recent (loop_head d s) = fs_recent s" for d and s :: "'a Followups"
    by (simp add: loop_head_def Let_def b c)
  show e: "fs_recent (scheduleFollowupDrain k cb s) = fs_recent s" for cb and s :: "'a Followups"
    by (simp add: scheduleFollowupDrain_def beginQueueDrain_def Let_def l split: option.split)
  show "fs_recent (kickFollowupDrainIfIdle k s) = fs_recent s"
    by (simp add: kickFollowupDrainIfIdle_def e split: option.split)
qed

lemma recent_finish [simp]:
  "fs_recent (finish_drain d s) = fs_recent s" "fs_recent (catch_drain d now s) = fs_recent s"
  "fs_recent (summary_alone d now su r im s) = fs_recent s" "fs_recent (run_group d now p gs s) = fs_recent s"
  "fs_recent (drainCollectQueueStep env d s) = fs_recent s"
  by (simp_all add: finish_drain_def catch_drain_def summary_alone_def run_group_def drainCollectQueueStep_def Let_def
      split: option.split list.split)

lemma recent_resume [simp]: "fs_recent (resume_drain env d ok now s) = fs_recent s"
proof -
  have "fs_recent (drain_body env d now s) = fs_recent s" for s :: "'a Followups"
    by (simp add: drain_body_def Let_def split: option.split)
  then show ?thesis by (cases "dr_point (drain_at d s)") (simp_all add: resume_drain_def Let_def split: ScanPhase.split list.split)
qed

lemma recent_registry [simp]:
  "fs_recent (snd (clearFollowupQueue key s)) = fs_recent s" "fs_recent (refreshQueuedFollowupSession p s) = fs_recent s"
  "fs_recent (snd (getFollowupQueue key settings s)) = fs_recent s" "fs_recent (snd (make_room env q s)) = fs_recent s"
  by (simp_all add: clearFollowupQueue_def refreshQueuedFollowupSession_def getFollowupQueue_def make_room_def Let_def
      split: option.split prod.split)

definition remembers_ids :: "'x FollowupOp \<Rightarrow> bool" where
  "remembers_ids op = (case op of FoEnqueue _ _ _ _ _ _ _ _ \<Rightarrow> False | FoForgetIds \<Rightarrow> False | _ \<Rightarrow> True)"

lemma recent_op: "remembers_ids op \<Longrightarrow> fs_recent (followup_op env op s) = fs_recent s"
  by (cases op) (simp_all add: remembers_ids_def)

lemma recent_ops: "list_all remembers_ids ops \<Longrightarrow> fs_recent (fold (followup_op env) ops s) = fs_recent s"
  by (induction ops arbitrary: s) (simp_all add: recent_op)

lemma last_kept: "k \<notin> fst ` set m \<Longrightarrow> 0 < n \<Longrightarrow> jm_get (drop (length (m @ [(k, t)]) - n) (m @ [(k, t)])) k = Some t"
proof -
  assume "k \<notin> fst ` set m" "0 < n"
  then have "jm_get (drop i m) k = None" for i by (auto simp: map_of_eq_None_iff dest: in_set_dropD)
  then show ?thesis using \<open>0 < n\<close> by (simp add: map_add_Some_iff)
qed

lemma check_remembers:
  assumes "jm_wf m" "k \<noteq> []" "dc_maxSize c = LimitInt n" "0 < n" "0 < dc_ttlMs c"
  shows "jm_get (snd (dedupe_check c (Some k) now m)) k = Some now"
proof -
  let ?f = "filter (\<lambda>(k, ts). \<not> ts < now - dc_ttlMs c)"
  have wf: "jm_wf (?f (dedupe_touch k now m))" using assms(1) by (simp add: jm_wf_filter jm_wf_touch)
  have "?f (dedupe_touch k now m) = ?f (jm_del k m) @ [(k, now)]" using assms(5) by (simp add: touch_end)
  moreover have "k \<notin> fst ` set (?f (jm_del k m))" by (auto simp: jm_del_def)
  ultimately have "jm_get (dedupe_prune c now (dedupe_touch k now m)) k = Some now"
    using last_kept [of k "?f (jm_del k m)" "nat n" now] assms(3-5) wf
    by (simp add: dedupe_prune_def pruneMapToMaxSize_def prune_loop_drop)
  then show ?thesis by (simp add: check_result(2) [OF assms(2)] touch_get)
qed

definition id_key :: "string \<Rightarrow> 'x FollowupRun \<Rightarrow> QueueDedupeMode \<Rightarrow> string option" where
  "id_key key m dedupe = (if dedupe \<noteq> DedupeNone then buildRecentMessageIdKey m key else None)"

text \<open>What an enqueue does to the recent ids, and when they refuse it.\<close>

lemma enqueue_recent:
  fixes s :: "'x Followups"
  assumes "\<not> isFollowupRunAborted s m" "dedupe_peek RECENT_QUEUE_MESSAGE_IDS (id_key key m dedupe) now (fs_recent s) = (seen, r)"
    and "enqueueFollowupRun env key m settings dedupe cb restart now s = (ok, t)"
  shows "fs_recent t = (if ok then snd (dedupe_check RECENT_QUEUE_MESSAGE_IDS (id_key key m dedupe) now r) else r)"
    and "seen \<Longrightarrow> \<not> ok \<and> fs_log t = fs_log s"
proof -
  obtain q s1 where g: "getFollowupQueue key settings s = (q, s1)" by fastforce
  define s2 where "s2 = s1\<lparr>fs_recent := r\<rparr>"
  define s3 where "s3 = set_queue q ((queue_at q s2)\<lparr>fq_lastEnqueuedAt := now, fq_lastRun := Some (fr_run m)\<rparr>) s2"
  obtain room s4 where mr: "make_room env q s3 = (room, s4)" by fastforce
  have recent: "fs_recent s1 = fs_recent s" using recent_registry(3) [of key settings s] g by simp
  have r2: "fs_recent s2 = r" and r3: "fs_recent s3 = r" by (simp_all add: s2_def s3_def)
  have r4: "fs_recent s4 = r" using recent_registry(4) [of env q s3] mr r3 by simp
  have l1: "fs_log s1 = fs_log s" using g by (auto simp: getFollowupQueue_def Let_def set_queue_def split: option.splits)
  note E = enqueueFollowupRun_def g recent id_key_def [symmetric] assms(1,2) s2_def [symmetric] s3_def [symmetric] mr Let_def
  show "fs_recent t = (if ok then snd (dedupe_check RECENT_QUEUE_MESSAGE_IDS (id_key key m dedupe) now r) else r)"
    using assms(3) r2 r4 by (simp add: E split: if_splits option.splits) auto
  show "\<not> ok \<and> fs_log t = fs_log s" if seen using assms(3) l1 that by (simp add: E) (auto simp: s2_def)
qed

section \<open>Properties\<close>

text \<open>The statements that remove messages account for every accepted one, each once.\<close>

lemma followups_leave_once:
  "mset (admitted q (fs_log (followup_run env ops)))
   = mset (gone q (fs_log (followup_run env ops)))
     + (if q < length (fs_objects (followup_run env ops)) then mset (qs_items (queue_at q (followup_run env ops))) else {#})"
proof (cases "q < length (fs_objects (followup_run env ops))")
  case True
  then show ?thesis using inv_butD(2) [OF followup_run_inv, of q env ops] by (simp add: queue_ok_def)
next
  case False
  then show ?thesis using inv_butD(3) [OF followup_run_inv, of env ops q] by simp
qed

definition waiting :: "nat \<Rightarrow> 'x Followups \<Rightarrow> 'x FollowupRun list" where
  "waiting q s = (if q < length (fs_objects s) then qs_items (queue_at q s) else [])"

text \<open>C10: No accepted message is lost. As long as a queue has dropped nothing to make room and was not cleared
  while it held messages, every message that it has ever accepted still waits in it, or a call of the callback that was given the
  message, alone or in a group, has been fulfilled; and what waits was accepted, no message twice. This holds in whatever order
  arrivals, resumptions of the drains, failing runs, aborts and restarts come. (After an overflow messages do get lost:
  \<open>summary_swallows_head\<close>, \<open>overflow_during_run_loses_next\<close>.)
\<close>

theorem followups_accounted:
  assumes "lost q (fs_log (followup_run env ops)) = []"
  shows "mset (waiting q (followup_run env ops)) \<subseteq># mset (admitted q (fs_log (followup_run env ops)))
    \<and> mset (admitted q (fs_log (followup_run env ops)))
      \<subseteq># mset (delivered q (fs_log (followup_run env ops))) + mset (waiting q (followup_run env ops))"
proof -
  have all: "mset (admitted q (fs_log (followup_run env ops)))
      = mset (gone q (fs_log (followup_run env ops))) + mset (waiting q (followup_run env ops))"
    using followups_leave_once [of q env ops] by (simp add: waiting_def)
  have ran: "mset (gone q (fs_log (followup_run env ops))) \<subseteq># mset (delivered q (fs_log (followup_run env ops)))"
    using inv_butD(4) [OF followup_run_inv, of q env ops] assms by (simp add: log_ok_def)
  show ?thesis unfolding all using subset_mset.add_right_mono [OF ran] by simp
qed


text \<open>C12: A queue object is drained by at most one loop at a time, and the flag \<open>draining\<close> of a queue
  is set exactly while such a loop is alive: also after failures, clears of the session in the
  middle of a run, and restarts.
\<close>

theorem one_drain_per_queue:
  "distinct (map (\<lambda>d. dr_queue (drain_at d (followup_run env ops))) (filter (\<lambda>d. active d (followup_run env ops)) [0..<length (fs_drains (followup_run env ops))]))
   \<and> {dr_queue (drain_at d (followup_run env ops)) |d. active d (followup_run env ops)}
     = {q. q < length (fs_objects (followup_run env ops)) \<and> fq_draining (queue_at q (followup_run env ops))}"
proof -
  note I = followup_run_inv [of env ops]
  have "inj_on (\<lambda>d. dr_queue (drain_at d (followup_run env ops))) {d. active d (followup_run env ops)}"
    using inv_butD(7) [OF I] by (auto intro: inj_onI)
  then have "distinct (map (\<lambda>d. dr_queue (drain_at d (followup_run env ops)))
      (filter (\<lambda>d. active d (followup_run env ops)) [0..<length (fs_drains (followup_run env ops))]))"
    by (simp add: distinct_map) (auto elim: inj_on_subset)
  then show ?thesis using inv_butD(5) [OF I] inv_butD(8) [OF I] by (fastforce simp: drain_owns_def)
qed

lemma recent_wf: "jm_wf (fs_recent (followup_run env ops))"
  unfolding followup_run_def
proof (induction ops rule: rev_induct)
  case Nil
  show ?case by (simp add: no_followups_def jm_wf_def)
next
  case (snoc op ops)
  let ?s = "fold (followup_op env) ops no_followups"
  have wf: "jm_wf (snd (dedupe_peek c k now r))" "jm_wf (snd (dedupe_check c k now r))" if "jm_wf r" for c k now and r :: Timestamps
    using that by (auto simp: dedupe_peek_def dedupe_check_def hasUnexpired_def jm_wf_touch prune_jm_wf split: option.splits)
  have enq: "jm_wf (fs_recent (snd (enqueueFollowupRun env key m settings dedupe cb restart now s)))"
    if "jm_wf (fs_recent s)" for key m settings dedupe cb restart now and s :: "'a Followups"
  proof (cases "isFollowupRunAborted s m")
    case True
    then show ?thesis using that by (simp add: enqueueFollowupRun_def)
  next
    case False
    obtain seen r where "dedupe_peek RECENT_QUEUE_MESSAGE_IDS (id_key key m dedupe) now (fs_recent s) = (seen, r)" by fastforce
    note this moreover obtain ok t where "enqueueFollowupRun env key m settings dedupe cb restart now s = (ok, t)" by fastforce
    ultimately show ?thesis
      using enqueue_recent(1) [OF False] wf [of "fs_recent s"] wf [of r] that by (metis snd_conv)
  qed
  show ?case
  proof (cases "remembers_ids op")
    case True
    then show ?thesis using snoc by (simp add: recent_op)
  next
    case False
    then show ?thesis using snoc by (cases op) (auto simp: remembers_ids_def jm_wf_def [of "[]"] intro!: enq)
  qed
qed

text \<open>Once a message with an id has been accepted, a redelivery with the same id, queue key and
  route is refused for five minutes and nothing happens to the queues or the log - even when the message
  has long been run, its queue cleared, or its session refreshed in between.
\<close>

lemma redelivery_refused:
  assumes "enqueueFollowupRun env key m settings dedupe cb restart now (followup_run env ops) = (True, s)"
    and "normalizeOptionalString (fr_messageId m) = Some i" "normalizeOptionalString (fr_messageId m') = Some i"
    and "followupRouteIdentityKey m' = followupRouteIdentityKey m" "dedupe \<noteq> DedupeNone" "dedupe' \<noteq> DedupeNone"
    and "list_all remembers_ids ops'" "now' < now + 5 * 60 * 1000"
  shows "fst (enqueueFollowupRun env key m' settings' dedupe' cb' restart' now' (fold (followup_op env) ops' s)) = False
    \<and> fs_log (snd (enqueueFollowupRun env key m' settings' dedupe' cb' restart' now' (fold (followup_op env) ops' s)))
      = fs_log (fold (followup_op env) ops' s)"
proof -
  let ?t = "fold (followup_op env) ops' s" and ?s = "followup_run env ops"
  let ?C = RECENT_QUEUE_MESSAGE_IDS
  define k where "k = json_strings [''queue'', key, followupRouteIdentityKey m, i]"
  have k: "id_key key m dedupe = Some k" "id_key key m' dedupe' = Some k"
    using assms(2-6) by (simp_all add: id_key_def buildRecentMessageIdKey_def k_def)
  have ne: "k \<noteq> []" by (simp add: k_def json_strings_def json_array_def)
  have C: "dc_ttlMs ?C = 300000" "dc_maxSize ?C = LimitInt 10000"
    by (simp_all add: RECENT_QUEUE_MESSAGE_IDS_def createDedupeCache_def floor_max_def)
  have na: "\<not> isFollowupRunAborted ?s m" using assms(1) by (auto simp: enqueueFollowupRun_def)
  obtain seen r where peek: "dedupe_peek ?C (id_key key m dedupe) now (fs_recent ?s) = (seen, r)" by fastforce
  have "jm_wf r" using recent_wf [of env ops] peek peek_result(2) [OF ne, of ?C now "fs_recent ?s"]
    by (auto simp: k split: if_splits)
  then have "jm_get (fs_recent s) k = Some now"
    using enqueue_recent(1) [OF na peek assms(1)] check_remembers [OF _ ne] by (simp add: k C)
  then have "jm_get (fs_recent ?t) k = Some now" by (simp add: recent_ops assms(7))
  then have alive: "fst (dedupe_peek ?C (id_key key m' dedupe') now' (fs_recent ?t))"
    using assms(8) by (simp add: k peek_result(1) [OF ne] alive_def dedupe_dead_def C)
  show ?thesis
  proof (cases "isFollowupRunAborted ?t m'")
    case True
    then show ?thesis by (simp add: enqueueFollowupRun_def)
  next
    case False
    obtain r' where "dedupe_peek ?C (id_key key m' dedupe') now' (fs_recent ?t) = (True, r')" using alive by (metis prod.collapse)
    then show ?thesis using enqueue_recent(2) [OF False] by (metis (no_types, lifting) fst_conv snd_conv surj_pair)
  qed
qed

text \<open>C36: When collected messages are run as one prompt, no message is run with the authorization of
  another: splitting keeps every message in order, and within a group sender, ownership, the
  execution overrides and the elevation settings of all messages are the same. Neighbouring groups
  differ, so nothing is split without need.
\<close>

theorem collect_groups_share_authorization:
  "concat (splitCollectItemsByAuthorization s items) = items
   \<and> uniform (\<lambda>item. authorization (run_at (fr_run item) s)) (splitCollectItemsByAuthorization s items)"
proof -
  let ?key = "\<lambda>item. resolveFollowupAuthorizationKey (run_at (fr_run item) s)"
  have "uniform ?key (split_groups ?key [] [] None items)"
    by (rule split_groups_uniform) (simp_all add: uniform_def)
  then have "uniform (\<lambda>item. authorization (run_at (fr_run item) s)) (split_groups ?key [] [] None items)"
    by (simp add: uniform_def authorization_key)
  moreover have "uniform f []" "xs \<noteq> [] \<Longrightarrow> length xs \<le> 1 \<Longrightarrow> uniform f [xs]"
    for f :: "'a FollowupRun \<Rightarrow> string list \<times> bool list" and xs
    by (simp add: uniform_def) (cases xs, simp_all add: uniform_def)
  ultimately show ?thesis by (simp add: split_concat) (simp add: splitCollectItemsByAuthorization_def)
qed

lemma quiet_schedule:
  assumes "jm_get (fs_queues s) key = Some q" "q < length (fs_objects s)" "\<not> fq_draining (queue_at q s)"
    and "fs_aborted s = []" "qs_droppedCount (queue_at q s) = 0" "fq_mode (queue_at q s) \<noteq> Collect"
    and "waitForQueueDebounce (fe_testFast env) (max 0 (fq_debounceMs (queue_at q s))) (fq_lastEnqueuedAt (queue_at q s)) now"
  shows "\<exists>s'. scheduleFollowupDrain key cb s = loop_head (length (fs_drains s)) s' \<and> fs_log s' = fs_log s
    \<and> quiet env now (length (fs_drains s)) key q (qs_items (queue_at q s)) s'"
  using assms
  by (simp add: scheduleFollowupDrain_def beginQueueDrain_def rememberFollowupDrainCallback_def Let_def)
    (rule exI, rule conjI, rule refl, simp add: quiet_def, simp add: drain_at_def queue_at_def set_queue_def)

text \<open>C37: An idle queue that is left alone drains completely. Let the queue not collect (its mode is not \<open>collect\<close>), count no dropped
  messages and not be draining, no abort signal be set, and its debounce time be over; and let every call of the callback be fulfilled. Then
  a drain that is scheduled hands every waiting message to the callback, in the
  order of arrival, within six resumptions per message, then removes the queue and ends.
\<close>

theorem quiet_queue_drains_in_order:
  assumes "jm_get (fs_queues (followup_run env ops)) key = Some q" "\<not> fq_draining (queue_at q (followup_run env ops))"
    and "fs_aborted (followup_run env ops) = []"
    and "qs_droppedCount (queue_at q (followup_run env ops)) = 0" "fq_mode (queue_at q (followup_run env ops)) \<noteq> Collect"
    and "waitForQueueDebounce (fe_testFast env) (max 0 (fq_debounceMs (queue_at q (followup_run env ops))))
      (fq_lastEnqueuedAt (queue_at q (followup_run env ops))) now"
  shows "let s = followup_run env ops; d = length (fs_drains s); items = qs_items (queue_at q s);
             t = (resume_drain env d True now ^^ (6 * length items)) (scheduleFollowupDrain key cb s)
         in runs_of (fs_log t) = runs_of (fs_log s) @ items \<and> jm_get (fs_queues t) key = None
           \<and> dr_point (drain_at d t) = DrainEnded"
proof -
  have "q < length (fs_objects (followup_run env ops))" by (rule inv_butD(1) [OF followup_run_inv assms(1)])
  then show ?thesis using quiet_schedule [OF assms(1) _ assms(2-6), of cb] quiet_drain by (fastforce simp: Let_def)
qed

section \<open>Concrete runs\<close>

definition sample_agent_run :: "unit AgentRun" where
  "sample_agent_run = \<lparr>ru_sessionId = ''s1'', ru_sessionFile = ''f1'', ru_provider = ''p'', ru_model = ''m'',
     ru_hasSessionModelOverride = None, ru_modelOverrideSource = None, ru_hasAutoFallbackProvenance = None,
     ru_authProfileId = None, ru_authProfileIdSource = None, ru_senderId = Some ''ann'', ru_senderName = None,
     ru_senderUsername = None, ru_senderE164 = None, ru_senderIsOwner = None, ru_execOverrides = None,
     ru_bashElevated = None, ru_rest = ()\<rparr>"

definition sample_followup :: "string \<Rightarrow> unit FollowupRun" where
  "sample_followup prompt = \<lparr>fr_prompt = prompt, fr_currentInboundEventKind = None, fr_currentInboundContext = None,
     fr_abortSignal = None, fr_deliveryCorrelations = None, fr_queuedLifecycle = None, fr_messageId = None,
     fr_summaryLine = None, fr_enqueuedAt = 0, fr_images = None, fr_imageOrder = None, fr_originatingChannel = None,
     fr_originatingTo = None, fr_originatingAccountId = None, fr_originatingThreadId = None, fr_run = 0\<rparr>"

definition sample_followup_env :: FollowupEnv where
  "sample_followup_env = \<lparr>fe_ellipsis = ''~'', fe_isChannel = (\<lambda>c. False), fe_testFast = True\<rparr>"

definition sample_queue_settings :: "rat \<Rightarrow> QueueSettings" where
  "sample_queue_settings cap = \<lparr>rs_mode = Followup, rs_debounceMs = None, rs_cap = Some cap, rs_dropPolicy = None\<rparr>"

definition sample_enqueue :: "rat \<Rightarrow> string \<Rightarrow> unit FollowupOp" where
  "sample_enqueue cap prompt =
    FoEnqueue ''a'' (sample_followup prompt) sample_agent_run (sample_queue_settings cap) DedupeMessageId None False 0"

text \<open>A witness for the property on undropped queues.\<close>

definition sample_undropped :: "unit FollowupOp list" where
  "sample_undropped = [sample_enqueue 5 ''one'', sample_enqueue 5 ''two'', FoSchedule ''a'' 0]
     @ replicate 4 (FoResume 0 True 0) @ [FoResume 0 False 0, FoResume 0 False 0] @ replicate 5 (FoResume 1 True 0)"


theorem followups_accounted_witness:
  "mset (admitted 0 (fs_log (followup_run sample_followup_env sample_undropped)))
     \<subseteq># mset (delivered 0 (fs_log (followup_run sample_followup_env sample_undropped)))
         + mset (waiting 0 (followup_run sample_followup_env sample_undropped))
   \<and> map fr_prompt (admitted 0 (fs_log (followup_run sample_followup_env sample_undropped))) = [''one'', ''two'']
   \<and> map fr_prompt (delivered 0 (fs_log (followup_run sample_followup_env sample_undropped))) = [''one'']
   \<and> map fr_prompt (waiting 0 (followup_run sample_followup_env sample_undropped)) = [''two'']"
proof (intro conjI)
  have "lost 0 (fs_log (followup_run sample_followup_env sample_undropped)) = []" by code_simp
  then show "mset (admitted 0 (fs_log (followup_run sample_followup_env sample_undropped)))
     \<subseteq># mset (delivered 0 (fs_log (followup_run sample_followup_env sample_undropped)))
         + mset (waiting 0 (followup_run sample_followup_env sample_undropped))"
    by (rule followups_accounted [THEN conjunct2])
qed (code_simp, code_simp, code_simp)

definition sample_with_id :: "string \<Rightarrow> unit FollowupRun" where
  "sample_with_id prompt = (sample_followup prompt)\<lparr>fr_messageId := Some ''id7''\<rparr>"

definition sample_accepted :: "bool \<times> unit Followups" where
  "sample_accepted = enqueueFollowupRun sample_followup_env ''a'' (sample_with_id ''one'') (sample_queue_settings 5)
     DedupeMessageId None False 0 (followup_run sample_followup_env [])"

lemma redelivery_refused_witness:
  "fst (enqueueFollowupRun sample_followup_env ''a'' (sample_with_id ''again'') (sample_queue_settings 5) DedupePrompt None False 299999
     (fold (followup_op sample_followup_env) [FoClear ''a''] (snd sample_accepted))) = False"
proof -
  have a: "enqueueFollowupRun sample_followup_env ''a'' (sample_with_id ''one'') (sample_queue_settings 5)
     DedupeMessageId None False 0 (followup_run sample_followup_env []) = (True, snd sample_accepted)"
  proof -
    have "fst sample_accepted" by code_simp
    then show ?thesis unfolding sample_accepted_def by (cases "enqueueFollowupRun sample_followup_env ''a'' (sample_with_id ''one'')
       (sample_queue_settings 5) DedupeMessageId None False 0 (followup_run sample_followup_env [])") simp
  qed
  have i: "normalizeOptionalString (fr_messageId (sample_with_id p)) = Some ''id7''" for p
  proof -
    have "normalizeOptionalString (Some ''id7'') = Some ''id7''" by code_simp
    then show ?thesis by (simp add: sample_with_id_def)
  qed
  have r: "followupRouteIdentityKey (sample_with_id ''again'') = followupRouteIdentityKey (sample_with_id ''one'')"
    by (simp add: followupRouteIdentityKey_def route_input_def sample_with_id_def sample_followup_def)
  have "list_all remembers_ids [FoClear ''a'' :: unit FollowupOp]" by (simp add: remembers_ids_def)
  then show ?thesis by (intro redelivery_refused [OF a i i r, THEN conjunct1]) simp_all
qed

theorem quiet_queue_drains_in_order_witness:
  "let s = followup_run sample_followup_env [sample_enqueue 5 ''one'', sample_enqueue 5 ''two''];
       t = (resume_drain sample_followup_env 0 True 0 ^^ 12) (scheduleFollowupDrain ''a'' 3 s)
   in map fr_prompt (runs_of (fs_log t)) = [''one'', ''two''] \<and> jm_get (fs_queues t) ''a'' = None"
proof -
  let ?s = "followup_run sample_followup_env [sample_enqueue 5 ''one'', sample_enqueue 5 ''two'']"
  have *: "jm_get (fs_queues ?s) ''a'' = Some 0" "\<not> fq_draining (queue_at 0 ?s)" "fs_aborted ?s = []"
    "qs_droppedCount (queue_at 0 ?s) = 0" "fq_mode (queue_at 0 ?s) \<noteq> Collect"
    by (code_simp, code_simp, code_simp, code_simp, code_simp)
  have w: "waitForQueueDebounce (fe_testFast sample_followup_env) (max 0 (fq_debounceMs (queue_at 0 ?s)))
      (fq_lastEnqueuedAt (queue_at 0 ?s)) 0"
    by (simp add: waitForQueueDebounce_def sample_followup_env_def)
  have e: "length (qs_items (queue_at 0 ?s)) = 2" "length (fs_drains ?s) = 0"
      "map fr_prompt (runs_of (fs_log ?s) @ qs_items (queue_at 0 ?s)) = [''one'', ''two'']"
    by (code_simp, code_simp, code_simp)
  have "12 = 6 * length (qs_items (queue_at 0 ?s))" using e(1) by simp
  then show ?thesis using quiet_queue_drains_in_order [OF * w, of 3] e(2,3) by (simp add: Let_def)
qed

text \<open>
  A finding: outside of collection, the message at the head of the queue is consumed by the run of
  the overflow summary. Its own prompt is never run.
\<close>

lemma summary_swallows_head:
  "let s = followup_run sample_followup_env
       ([sample_enqueue 1 ''one'', sample_enqueue 1 ''two'', FoSchedule ''a'' 0] @ replicate 10 (FoResume 0 True 0))
   in length (runs_of (fs_log s)) = 1 \<and> list_all (\<lambda>r. fr_prompt r \<noteq> ''two'') (runs_of (fs_log s))
     \<and> map fr_prompt (removed [TakenByDrain] 0 (fs_log s)) = [''two''] \<and> jm_get (fs_queues s) ''a'' = None"
  by code_simp

text \<open>
  A finding: while the head of a full queue is running, an overflow drops that head; the \<open>shift\<close>
  after the run then removes the next message, which is never run.
\<close>

lemma overflow_during_run_loses_next:
  "let s = followup_run sample_followup_env
       ([sample_enqueue 2 ''one'', sample_enqueue 2 ''two'', FoSchedule ''a'' 0] @ replicate 4 (FoResume 0 True 0)
        @ [sample_enqueue 2 ''three'', FoResume 0 True 0])
   in map fr_prompt (runs_of (fs_log s)) = [''one''] \<and> map fr_prompt (removed [TakenByDrain] 0 (fs_log s)) = [''two'']
     \<and> map fr_prompt (removed [LeftDropped] 0 (fs_log s)) = [''one''] \<and> map fr_prompt (qs_items (queue_at 0 s)) = [''three'']"
  by code_simp

text \<open>A queue without messages that still counts dropped ones, but no longer summarises them.\<close>

definition stuck :: "FollowupEnv \<Rightarrow> rat \<Rightarrow> nat \<Rightarrow> string \<Rightarrow> nat \<Rightarrow> 'x Followups \<Rightarrow> bool" where
  "stuck env now d key q s \<longleftrightarrow>
     length (fs_drains s) = Suc d \<and> dr_key (drain_at d s) = key \<and> dr_queue (drain_at d s) = q
   \<and> dr_point (drain_at d s) = ScanDone BeforeDebounce 0
   \<and> q < length (fs_objects s) \<and> jm_get (fs_queues s) key = Some q
   \<and> qs_items (queue_at q s) = [] \<and> 0 < qs_droppedCount (queue_at q s) \<and> qs_dropPolicy (queue_at q s) \<noteq> DropSummarize
   \<and> fq_mode (queue_at q s) \<noteq> Collect
   \<and> waitForQueueDebounce (fe_testFast env) (max 0 (fq_debounceMs (queue_at q s))) (fq_lastEnqueuedAt (queue_at q s)) now"

lemma stuck_round:
  assumes "stuck env now d key q s"
  shows "stuck env now (Suc d) key q ((resume_drain env d True now ^^ 5) s) \<and> fs_log ((resume_drain env d True now ^^ 5) s) = fs_log s"
proof -
  note S = assms [unfolded stuck_def] and R = resume_drain_def Let_def queue_done_def drain_at_suspend
  define s1 where "s1 = suspend d (DebounceWait (max 0 (fq_debounceMs (queue_at q s)))) s"
  define s2 where "s2 = suspend d DebounceDone s1"
  define s3 where "s3 = suspend d (ScanDone AfterDebounce 0) s2"
  define s4 where "s4 = suspend d ItemMissing s3"
  have r1: "resume_drain env d True now s = s1" using S by (simp add: R s1_def)
  have r2: "resume_drain env d True now s1 = s2" using S by (simp add: R s1_def s2_def)
  have r3: "resume_drain env d True now s2 = s3" using S by (simp add: R s1_def s2_def s3_def dropAbortedFollowups_def)
  have "summary_of q s3 = None" using S
    by (simp add: s3_def s2_def s1_def summary_of_def previewQueueSummaryPrompt_def buildQueueSummaryPrompt_def)
  then have r4: "resume_drain env d True now s3 = s4" using S by (simp add: R s1_def s2_def s3_def s4_def drain_body_def)
  have r5: "resume_drain env d True now s4 = finish_drain d s4" using S by (simp add: R s1_def s2_def s3_def s4_def)
  have five: "(resume_drain env d True now ^^ 5) s = finish_drain d s4" by (simp add: eval_nat_numeral r1 r2 r3 r4 r5)
  define s5 where "s5 = end_drain d s4"
  have s5: "length (fs_drains s5) = Suc d" "q < length (fs_objects s5)" "fs_queues s5 = fs_queues s" "fs_log s5 = fs_log s"
      "queue_at q s5 = (queue_at q s)\<lparr>fq_draining := False\<rparr>" "drain_at d s4 = (drain_at d s)\<lparr>dr_point := ItemMissing\<rparr>"
    using S by (simp_all add: s5_def end_drain_def s4_def s3_def s2_def s1_def drain_at_suspend Let_def)
  obtain cb where f: "finish_drain d s4 = scheduleFollowupDrain key cb s5"
    using S s5(5,6) by (auto simp: finish_drain_def s5_def [symmetric] queue_done_def Let_def)
  show ?thesis unfolding five f using S s5(1-5)
    by (simp add: stuck_def scheduleFollowupDrain_def beginQueueDrain_def rememberFollowupDrainCallback_def Let_def loop_head_def
        queue_done_def dropAbortedFollowups_def drain_at_def queue_at_def set_queue_def suspend_def nth_append)
qed

lemma stuck_rounds:
  assumes "stuck env now d key q s"
  shows "stuck env now (d + n) key q (fold (\<lambda>i. resume_drain env i True now ^^ 5) [d..<d + n] s)
    \<and> fs_log (fold (\<lambda>i. resume_drain env i True now ^^ 5) [d..<d + n] s) = fs_log s"
  using assms by (induction n) (auto dest: stuck_round)

text \<open>The queue overflows, then its settings stop summarising; both waiting messages are run.\<close>

definition sample_stuck :: "unit Followups" where
  "sample_stuck = followup_run sample_followup_env
     ([sample_enqueue 1 ''one'', sample_enqueue 1 ''two'',
       FoEnqueue ''a'' (sample_followup ''three'') sample_agent_run ((sample_queue_settings 5)\<lparr>rs_dropPolicy := Some DropOld\<rparr>)
         DedupeMessageId None False 0, FoSchedule ''a'' 0] @ replicate 12 (FoResume 0 True 0))"

text \<open>A finding: when a queue has dropped messages and its drop policy is then changed from
  \<open>summarize\<close>, its drain never ends. With no message left, every drain finds the count of dropped
  messages, has nothing to run, and schedules the next drain: after any number of rounds of a concrete
  run there is one more drain, and nothing has been run.
\<close>

lemma dropped_count_restarts_forever:
  "let t = fold (\<lambda>i. resume_drain sample_followup_env i True 0 ^^ 5) [0..<n] sample_stuck
   in length (fs_drains t) = Suc n \<and> active n t \<and> fs_log t = fs_log sample_stuck \<and> qs_items (queue_at 0 t) = []
     \<and> map fr_prompt (runs_of (fs_log t)) = [''two'', ''three'']"
proof -
  have "stuck sample_followup_env 0 0 ''a'' 0 sample_stuck"
  proof -
    have "length (fs_drains sample_stuck) = 1" "dr_key (drain_at 0 sample_stuck) = ''a''" "dr_queue (drain_at 0 sample_stuck) = 0"
      "dr_point (drain_at 0 sample_stuck) = ScanDone BeforeDebounce 0" "length (fs_objects sample_stuck) = 1"
      "jm_get (fs_queues sample_stuck) ''a'' = Some 0" "qs_items (queue_at 0 sample_stuck) = []"
      "qs_droppedCount (queue_at 0 sample_stuck) = 1" "qs_dropPolicy (queue_at 0 sample_stuck) = DropOld"
      "fq_mode (queue_at 0 sample_stuck) = Followup"
      by (code_simp, code_simp, code_simp, code_simp, code_simp, code_simp, code_simp, code_simp, code_simp, code_simp)
    then show ?thesis by (simp add: stuck_def waitForQueueDebounce_def sample_followup_env_def)
  qed
  note rounds = stuck_rounds [OF this, of n]
  have "map fr_prompt (runs_of (fs_log sample_stuck)) = [''two'', ''three'']" by code_simp
  then show ?thesis using rounds by (simp add: stuck_def active_def Let_def)
qed

end
