(* ===== verification/Fences.thy ===== *)
theory Fences
  imports JsString
begin

text \<open>
  Fenced code blocks of markdown (src/src/markdown/fences.ts): the spans of a text, and the binary
  search for the span around a position. The spans of any text are sorted, which makes the binary
  search find what a linear search would.
\<close>

abbreviation nl :: char where "nl \<equiv> CHR 0x0A"
abbreviation cr :: char where "cr \<equiv> CHR 0x0D"

section \<open>Spans\<close>

record FenceSpan =
  fe_start :: nat
  fe_end :: nat
  fe_openLine :: string
  fe_marker :: string
  fe_indent :: string

record FenceOpen =
  fo_start :: nat
  fo_markerChar :: char
  fo_markerLen :: nat
  fo_openLine :: string
  fo_marker :: string
  fo_indent :: string

text \<open>
  The match of \<open>^( {0,3})(`{3,}|~{3,})(.*)$\<close> on a line without newlines: indent and marker. The dot
  does not match a carriage return.
\<close>

definition fence_match :: "string \<Rightarrow> (string \<times> string) option" where
  "fence_match line =
    (let indent = takeWhile (\<lambda>c. c = CHR '' '') line; rest = dropWhile (\<lambda>c. c = CHR '' '') line in
     case rest of [] \<Rightarrow> None
     | c # _ \<Rightarrow>
         let marker = takeWhile (\<lambda>d. d = c) rest in
         if 3 < length indent \<or> c \<noteq> CHR ''`'' \<and> c \<noteq> CHR ''~'' \<or> length marker < 3 \<or> cr \<in> set (dropWhile (\<lambda>d. d = c) rest) then None
         else Some (indent, marker))"

definition close_span :: "FenceOpen \<Rightarrow> nat \<Rightarrow> FenceSpan" where
  "close_span open1 end1 = \<lparr>fe_start = fo_start open1, fe_end = end1, fe_openLine = fo_openLine open1,
     fe_marker = fo_marker open1, fe_indent = fo_indent open1\<rparr>"

text \<open>One line of the loop: the span it closes and the fence that is open afterwards.\<close>

definition fence_line :: "nat \<Rightarrow> string \<Rightarrow> FenceOpen option \<Rightarrow> FenceSpan list \<times> FenceOpen option" where
  "fence_line offset line open1 =
    (case fence_match line of
       None \<Rightarrow> ([], open1)
     | Some (indent, marker) \<Rightarrow>
        (case open1 of
           None \<Rightarrow> ([], Some \<lparr>fo_start = offset, fo_markerChar = hd marker, fo_markerLen = length marker,
                     fo_openLine = line, fo_marker = marker, fo_indent = indent\<rparr>)
         | Some op \<Rightarrow>
             if fo_markerChar op = hd marker \<and> fo_markerLen op \<le> length marker
             then ([close_span op (offset + length line)], None) else ([], open1)))"

function fence_loop :: "nat \<Rightarrow> string \<Rightarrow> FenceOpen option \<Rightarrow> FenceSpan list \<times> FenceOpen option" where
  "fence_loop offset rest open1 =
    (let line = takeWhile (\<lambda>c. c \<noteq> nl) rest; (spans, open2) = fence_line offset line open1 in
     case dropWhile (\<lambda>c. c \<noteq> nl) rest of
       [] \<Rightarrow> (spans, open2)
     | _ # rest2 \<Rightarrow> (let (spans2, open3) = fence_loop (offset + length line + 1) rest2 open2 in (spans @ spans2, open3)))"
  by pat_completeness auto

termination
proof (relation "measure (\<lambda>(offset, rest, open1). length rest)")
  fix rest c rest2
  assume "dropWhile (\<lambda>c. c \<noteq> nl) rest = c # (rest2 :: string)"
  then have "Suc (length rest2) \<le> length rest" by (metis length_Cons length_dropWhile_le)
  then show "((o2, rest2, op2), o1, rest, op1) \<in> measure (\<lambda>(offset, rest, open1). length rest)" for o2 o1 :: nat and op2 op1 :: "FenceOpen option"
    by simp
qed simp

declare fence_loop.simps [simp del]

definition parseFenceSpans :: "string \<Rightarrow> FenceSpan list" where
  "parseFenceSpans buffer =
    (case fence_loop 0 buffer None of
       (spans, None) \<Rightarrow> spans
     | (spans, Some op) \<Rightarrow> spans @ [close_span op (length buffer)])"

section \<open>The span around a position\<close>

function span_search :: "FenceSpan list \<Rightarrow> nat \<Rightarrow> int \<Rightarrow> int \<Rightarrow> FenceSpan option" where
  "span_search spans index low high =
    (if low \<le> high
     then (let mid = (low + high) div 2 in
           if mid < 0 \<or> int (length spans) \<le> mid then None
           else (let span = spans ! nat mid in
                 if index \<le> fe_start span then span_search spans index low (mid - 1)
                 else if fe_end span \<le> index then span_search spans index (mid + 1) high
                 else Some span))
     else None)"
  by pat_completeness auto

termination
  by (relation "measure (\<lambda>(spans, index, low, high). nat (high - low + 1))") auto

declare span_search.simps [simp del]

definition findFenceSpanAt :: "FenceSpan list \<Rightarrow> nat \<Rightarrow> FenceSpan option" where
  "findFenceSpanAt spans index = span_search spans index 0 (int (length spans) - 1)"

definition isSafeFenceBreak :: "FenceSpan list \<Rightarrow> nat \<Rightarrow> bool" where
  "isSafeFenceBreak spans index \<longleftrightarrow> findFenceSpanAt spans index = None"

section \<open>Spans are sorted\<close>

definition spans_sorted :: "FenceSpan list \<Rightarrow> bool" where
  "spans_sorted spans \<longleftrightarrow> sorted_wrt (\<lambda>s t. fe_end s < fe_start t) spans \<and> list_all (\<lambda>s. fe_start s \<le> fe_end s) spans"

text \<open>What is open when the loop starts bounds where its spans start.\<close>

definition fence_from :: "nat \<Rightarrow> FenceOpen option \<Rightarrow> nat" where
  "fence_from offset open1 = (case open1 of None \<Rightarrow> offset | Some op \<Rightarrow> fo_start op)"

definition loop_ok :: "nat \<Rightarrow> nat \<Rightarrow> FenceSpan list \<times> FenceOpen option \<Rightarrow> bool" where
  "loop_ok lo hi r \<longleftrightarrow> spans_sorted (fst r) \<and> list_all (\<lambda>s. lo \<le> fe_start s \<and> fe_end s \<le> hi) (fst r)
     \<and> (case snd r of None \<Rightarrow> True
        | Some op \<Rightarrow> lo \<le> fo_start op \<and> fo_start op \<le> hi \<and> list_all (\<lambda>s. fe_end s < fo_start op) (fst r))"

lemma fence_line_ok:
  "fence_from offset open1 \<le> offset \<Longrightarrow> loop_ok (fence_from offset open1) (offset + length line) (fence_line offset line open1)"
  by (auto simp: fence_line_def loop_ok_def spans_sorted_def fence_from_def close_span_def Let_def split: option.splits)

lemma fence_line_from:
  "fence_from offset open1 \<le> offset \<Longrightarrow> fence_line offset line open1 = (spans, open2) \<Longrightarrow>
     fence_from (offset + length line + 1) open2 \<le> offset + length line + 1
   \<and> list_all (\<lambda>s. fe_end s < fence_from (offset + length line + 1) open2) spans
   \<and> fence_from offset open1 \<le> fence_from (offset + length line + 1) open2"
  by (auto simp: fence_line_def fence_from_def close_span_def split: option.splits if_splits)

lemma loop_ok_append:
  assumes "loop_ok lo mid (spans, op1)" "loop_ok lo2 hi (spans2, op2)" "lo \<le> lo2" "mid \<le> hi"
    and "list_all (\<lambda>s. fe_end s < lo2) spans"
  shows "loop_ok lo hi (spans @ spans2, op2)"
  using assms by (fastforce simp: loop_ok_def spans_sorted_def sorted_wrt_append list_all_iff split: option.splits)

lemma fence_loop_ok:
  "fence_from offset open1 \<le> offset \<Longrightarrow> loop_ok (fence_from offset open1) (offset + length rest) (fence_loop offset rest open1)"
proof (induction offset rest open1 rule: fence_loop.induct)
  case (1 offset rest open1)
  let ?line = "takeWhile (\<lambda>c. c \<noteq> nl) rest"
  obtain spans open2 where l: "fence_line offset ?line open1 = (spans, open2)" by fastforce
  note ok = fence_line_ok [OF 1(2), of ?line, unfolded l] and nx = fence_line_from [OF 1(2) l]
  have len: "length ?line + length (dropWhile (\<lambda>c. c \<noteq> nl) rest) = length rest"
    by (metis length_append takeWhile_dropWhile_id)
  show ?case
  proof (cases "dropWhile (\<lambda>c. c \<noteq> nl) rest")
    case Nil
    then have "fence_loop offset rest open1 = (spans, open2)"
      by (subst fence_loop.simps) (simp only: l Let_def prod.case list.case)
    moreover have "length ?line = length rest" using len Nil by (metis add.right_neutral list.size(3))
    ultimately show ?thesis using ok by (simp only:)
  next
    case (Cons c rest2)
    let ?next = "fence_loop (offset + length ?line + 1) rest2 open2"
    have ih: "loop_ok (fence_from (offset + length ?line + 1) open2) (offset + length ?line + 1 + length rest2) ?next"
      using 1(1) [OF refl l [symmetric] refl Cons] nx by simp
    obtain spans2 open3 where n: "?next = (spans2, open3)" by fastforce
    have hi: "offset + length ?line + 1 + length rest2 = offset + length rest" using len Cons by simp
    have "loop_ok (fence_from offset open1) (offset + length rest) (spans @ spans2, open3)"
      by (rule loop_ok_append [OF ok ih [unfolded n hi]]) (use nx len in \<open>simp_all\<close>)
    moreover have "fence_loop offset rest open1 = (spans @ spans2, open3)"
      by (subst fence_loop.simps) (simp only: l n Cons Let_def prod.case list.case)
    ultimately show ?thesis by (simp only:)
  qed
qed

lemma parse_sorted: "spans_sorted (parseFenceSpans buffer) \<and> list_all (\<lambda>s. fe_end s \<le> length buffer) (parseFenceSpans buffer)"
proof -
  obtain spans open1 where l: "fence_loop 0 buffer None = (spans, open1)" by fastforce
  then show ?thesis using fence_loop_ok [of 0 None buffer]
    by (fastforce simp: parseFenceSpans_def loop_ok_def fence_from_def spans_sorted_def sorted_wrt_append close_span_def list_all_iff
        split: option.splits)
qed

section \<open>The binary search finds what a linear search finds\<close>

abbreviation inside :: "nat \<Rightarrow> FenceSpan \<Rightarrow> bool" where
  "inside i s \<equiv> fe_start s < i \<and> i < fe_end s"

lemma span_search_Some:
  "span_search spans i low high = Some s \<Longrightarrow> s \<in> set spans \<and> inside i s"
proof (induction spans i low high rule: span_search.induct)
  case (1 spans i low high)
  let ?mid = "(low + high) div 2"
  have "low \<le> high" "\<not> (?mid < 0 \<or> int (length spans) \<le> ?mid)"
    using 1(3) by (simp_all add: span_search.simps [of spans i low high] Let_def split: if_splits)
  note r = this
  then have "spans ! nat ?mid \<in> set spans" by (intro nth_mem) linarith
  then show ?case using 1(1,2) [OF r(1) refl r(2) refl] 1(3) r
    by (auto simp: span_search.simps [of spans i low high] Let_def split: if_splits)
qed

lemma spans_order:
  assumes "spans_sorted spans" "a < b" "b < length spans"
  shows "fe_start (spans ! a) \<le> fe_end (spans ! a) \<and> fe_end (spans ! a) < fe_start (spans ! b)"
  using assms by (auto simp: spans_sorted_def sorted_wrt_iff_nth_less list_all_length)

lemma span_search_None:
  "spans_sorted spans \<Longrightarrow> span_search spans i low high = None \<Longrightarrow> 0 \<le> low \<Longrightarrow> high < int (length spans) \<Longrightarrow>
   low \<le> int k \<Longrightarrow> int k \<le> high \<Longrightarrow> \<not> inside i (spans ! k)"
proof (induction spans i low high arbitrary: k rule: span_search.induct)
  case (1 spans i low high)
  let ?mid = "(low + high) div 2"
  have le: "low \<le> high" and m: "low \<le> ?mid" "?mid \<le> high" using 1(7,8) by linarith+
  have r: "\<not> (?mid < 0 \<or> int (length spans) \<le> ?mid)" using m 1(5,6) by linarith
  consider (left) "i \<le> fe_start (spans ! nat ?mid)" | (right) "\<not> i \<le> fe_start (spans ! nat ?mid)" "fe_end (spans ! nat ?mid) \<le> i"
    using 1(4) le r by (auto simp: span_search.simps [of spans i low high] Let_def split: if_splits)
  then show ?case
  proof cases
    case left
    then have n: "span_search spans i low (?mid - 1) = None" using 1(4) le r by (simp add: span_search.simps [of spans i low high] Let_def)
    show ?thesis
    proof (cases "int k \<le> ?mid - 1")
      case True
      show ?thesis by (rule 1(1) [OF le refl r refl left 1(3) n 1(5) _ 1(7) True]) (use r in linarith)
    next
      case False
      then have "nat ?mid = k \<or> nat ?mid < k" by linarith
      then show ?thesis using left spans_order [OF 1(3), of "nat ?mid" k] 1(6,8) by (auto simp: not_less)
    qed
  next
    case right
    then have n: "span_search spans i (?mid + 1) high = None" using 1(4) le r by (simp add: span_search.simps [of spans i low high] Let_def)
    show ?thesis
    proof (cases "?mid + 1 \<le> int k")
      case True
      show ?thesis by (rule 1(2) [OF le refl r refl right 1(3) n _ 1(6) True 1(8)]) (use m 1(5) in linarith)
    next
      case False
      then have "nat ?mid = k \<or> k < nat ?mid" by linarith
      moreover have "nat ?mid < length spans" using r by linarith
      ultimately show ?thesis using right spans_order [OF 1(3), of k "nat ?mid"] by auto
    qed
  qed
qed

lemma find_span_unique:
  assumes "spans_sorted spans" "s \<in> set spans" "inside i s"
  shows "find (inside i) spans = Some s"
proof -
  obtain t where t: "find (inside i) spans = Some t" using assms(2,3) by (cases "find (inside i) spans") (auto simp: find_None_iff)
  then have "t \<in> set spans" "inside i t" by (auto dest: find_SomeD)
  then obtain a b where "a < length spans" "spans ! a = s" "b < length spans" "spans ! b = t"
    using assms(2) by (metis in_set_conv_nth)
  then have "a = b" using spans_order [OF assms(1), of a b] spans_order [OF assms(1), of b a] assms(3) \<open>inside i t\<close>
    by (cases a b rule: linorder_cases) auto
  then show ?thesis using t \<open>spans ! a = s\<close> \<open>spans ! b = t\<close> by simp
qed

lemma search_is_find: "spans_sorted spans \<Longrightarrow> findFenceSpanAt spans i = find (inside i) spans"
proof (cases "findFenceSpanAt spans i")
  case (Some s)
  assume "spans_sorted spans"
  moreover have "s \<in> set spans" "inside i s" using span_search_Some [OF Some [unfolded findFenceSpanAt_def]] by blast+
  ultimately show ?thesis using Some find_span_unique [of spans s i] by simp
next
  case None
  assume s: "spans_sorted spans"
  have "\<not> inside i (spans ! k)" if "k < length spans" for k
    by (rule span_search_None [OF s None [unfolded findFenceSpanAt_def]]) (use that in auto)
  then have "find (inside i) spans = None" by (auto simp: find_None_iff in_set_conv_nth)
  then show ?thesis using None by simp
qed

text \<open>The binary search for the code fence around a position finds exactly what a linear search
  through the fences of the text finds - for every text and position, since the fences of
  a text never overlap.\<close>

lemma fence_lookup_is_linear:
  "findFenceSpanAt (parseFenceSpans buffer) i = find (\<lambda>s. fe_start s < i \<and> i < fe_end s) (parseFenceSpans buffer)"
  using parse_sorted search_is_find by blast

end
