(* ===== verification/Chunking.thy ===== *)
theory Chunking
  imports Fences AccountIds
begin

text \<open>
  Splitting outbound text into pieces of a channel's size (src/src/auto-reply/chunk.ts and
  src/src/shared/text-chunking.ts): by length at word boundaries outside parentheses, by lines, by
  paragraphs, and with markdown fences that are closed and reopened. Limits are integers.
\<close>

section \<open>Chunks by length\<close>

text \<open>The loop of \<open>chunkTextByBreakResolver\<close>; the resolver answers a position in its window.\<close>

definition break_index :: "(string \<Rightarrow> int) \<Rightarrow> nat \<Rightarrow> string \<Rightarrow> nat" where
  "break_index resolve limit remaining =
    (let candidate = resolve (take limit remaining) in
     if 0 < candidate \<and> candidate \<le> int limit then nat candidate else limit)"

definition after_break :: "string \<Rightarrow> nat \<Rightarrow> nat" where
  "after_break text breakIdx =
    (let brokeOnSeparator = (breakIdx < length text \<and> is_js_space (text ! breakIdx))
     in min (length text) (breakIdx + (if brokeOnSeparator then 1 else 0)))"

lemma break_index_bounds: "0 < limit \<Longrightarrow> 0 < break_index resolve limit remaining \<and> break_index resolve limit remaining \<le> limit"
  by (auto simp: break_index_def Let_def)

lemma after_break_bounds:
  "breakIdx \<le> length text \<Longrightarrow> breakIdx \<le> after_break text breakIdx \<and> after_break text breakIdx \<le> length text"
  by (auto simp: after_break_def)

function break_loop :: "(string \<Rightarrow> int) \<Rightarrow> nat \<Rightarrow> string \<Rightarrow> string list" where
  "break_loop resolve limit remaining =
    (if 0 < limit \<and> limit < length remaining
     then (let breakIdx = break_index resolve limit remaining;
               chunk = trim_end (take breakIdx remaining);
               rest = trim_start (drop (after_break remaining breakIdx) remaining)
           in (if chunk \<noteq> [] then [chunk] else []) @ break_loop resolve limit rest)
     else if remaining \<noteq> [] then [remaining] else [])"
  by pat_completeness auto

termination
proof (relation "measure (\<lambda>(resolve, limit, remaining). length remaining)")
  fix resolve :: "string \<Rightarrow> int" and limit and remaining :: string
  assume c: "0 < limit \<and> limit < length remaining"
  let ?a = "after_break remaining (break_index resolve limit remaining)"
  have "0 < ?a" "?a \<le> length remaining"
    using c break_index_bounds [of limit resolve remaining] after_break_bounds [of "break_index resolve limit remaining" remaining] by linarith+
  then have "length (trim_start (drop ?a remaining)) < length remaining"
    using length_dropWhile_le [of is_js_space "drop ?a remaining"] c by (simp add: trim_start_def)
  then show "x = break_index resolve limit remaining \<Longrightarrow> y = trim_end (take x remaining) \<Longrightarrow>
      z = trim_start (drop (after_break remaining x) remaining) \<Longrightarrow>
      ((resolve, limit, z), resolve, limit, remaining) \<in> measure (\<lambda>(resolve, limit, remaining). length remaining)" for x y z
    by simp
qed simp

declare break_loop.simps [simp del]

definition chunkTextByBreakResolver :: "string \<Rightarrow> int \<Rightarrow> (string \<Rightarrow> int) \<Rightarrow> string list" where
  "chunkTextByBreakResolver text limit resolve =
    (if text = [] then []
     else if limit \<le> 0 \<or> int (length text) \<le> limit then [text]
     else break_loop resolve (nat limit) text)"

text \<open>
  The scan for break positions: last newline and last other white space outside parentheses, -1
  if there is none. The characters come with their positions.
\<close>

fun scan_breaks :: "(nat \<Rightarrow> bool) \<Rightarrow> nat \<Rightarrow> string \<Rightarrow> nat \<Rightarrow> int \<times> int \<Rightarrow> int \<times> int" where
  "scan_breaks allowed i [] depth (lastNewline, lastWhitespace) = (lastNewline, lastWhitespace)"
| "scan_breaks allowed i (c # cs) depth (lastNewline, lastWhitespace) =
     (if \<not> allowed i then scan_breaks allowed (i + 1) cs depth (lastNewline, lastWhitespace)
      else if c = CHR ''('' then scan_breaks allowed (i + 1) cs (depth + 1) (lastNewline, lastWhitespace)
      else if c = CHR '')'' \<and> 0 < depth then scan_breaks allowed (i + 1) cs (depth - 1) (lastNewline, lastWhitespace)
      else if depth \<noteq> 0 then scan_breaks allowed (i + 1) cs depth (lastNewline, lastWhitespace)
      else if c = nl then scan_breaks allowed (i + 1) cs depth (int i, lastWhitespace)
      else if is_js_space c then scan_breaks allowed (i + 1) cs depth (lastNewline, int i)
      else scan_breaks allowed (i + 1) cs depth (lastNewline, lastWhitespace))"

definition scanParenAwareBreakpoints :: "string \<Rightarrow> nat \<Rightarrow> nat \<Rightarrow> (nat \<Rightarrow> bool) \<Rightarrow> int \<times> int" where
  "scanParenAwareBreakpoints text start end1 allowed =
    scan_breaks allowed start (take (end1 - start) (drop start text)) 0 (- 1, - 1)"

definition resolveChunkEarlyReturn :: "string \<Rightarrow> int \<Rightarrow> string list option" where
  "resolveChunkEarlyReturn text limit =
    (if text = [] then Some []
     else if limit \<le> 0 then Some [text]
     else if int (length text) \<le> limit then Some [text] else None)"

definition text_break :: "string \<Rightarrow> int" where
  "text_break window =
    (let (lastNewline, lastWhitespace) = scanParenAwareBreakpoints window 0 (length window) (\<lambda>_. True)
     in if 0 < lastNewline then lastNewline else lastWhitespace)"

definition chunkText :: "string \<Rightarrow> int \<Rightarrow> string list" where
  "chunkText text limit =
    (case resolveChunkEarlyReturn text limit of Some early \<Rightarrow> early
     | None \<Rightarrow> chunkTextByBreakResolver text limit text_break)"

section \<open>Chunks by line\<close>

text \<open>The loop with the line it reads and its position.\<close>

fun split_lines :: "(nat \<Rightarrow> bool) \<Rightarrow> nat \<Rightarrow> string \<Rightarrow> string \<Rightarrow> string list" where
  "split_lines isSafeBreak i line [] = [line]"
| "split_lines isSafeBreak i line (c # cs) =
     (if c = nl \<and> isSafeBreak i then line # split_lines isSafeBreak (i + 1) [] cs
      else split_lines isSafeBreak (i + 1) (line @ [c]) cs)"

definition splitByNewline :: "string \<Rightarrow> (nat \<Rightarrow> bool) \<Rightarrow> string list" where
  "splitByNewline text isSafeBreak = split_lines isSafeBreak 0 [] text"

definition line_chunks :: "int \<Rightarrow> bool \<Rightarrow> bool \<Rightarrow> nat \<Rightarrow> string \<Rightarrow> string list" where
  "line_chunks maxLineLength splitLongLines trimLines pendingBlankLines line =
    (let maxPrefix = max 0 (maxLineLength - 1);
         cappedBlankLines = (if 0 < pendingBlankLines then min (int pendingBlankLines) maxPrefix else 0);
         prefix = (if 0 < cappedBlankLines then replicate (nat cappedBlankLines) nl else []);
         lineValue = (if trimLines then js_trim line else line)
     in if \<not> splitLongLines \<or> int (length lineValue + length prefix) \<le> maxLineLength then [prefix @ lineValue]
        else
         (let firstLimit = nat (max 1 (maxLineLength - int (length prefix)));
              remaining = drop firstLimit lineValue
          in [prefix @ take firstLimit lineValue] @ (if remaining \<noteq> [] then chunkText remaining maxLineLength else [])))"

fun newline_loop :: "int \<Rightarrow> bool \<Rightarrow> bool \<Rightarrow> string list \<Rightarrow> nat \<Rightarrow> string list \<Rightarrow> string list" where
  "newline_loop maxLineLength splitLongLines trimLines [] pendingBlankLines chunks =
     (if 0 < pendingBlankLines \<and> chunks \<noteq> []
      then butlast chunks @ [last chunks @ replicate pendingBlankLines nl] else chunks)"
| "newline_loop maxLineLength splitLongLines trimLines (line # lines) pendingBlankLines chunks =
     (if js_trim line = [] then newline_loop maxLineLength splitLongLines trimLines lines (pendingBlankLines + 1) chunks
      else newline_loop maxLineLength splitLongLines trimLines lines 0
             (chunks @ line_chunks maxLineLength splitLongLines trimLines pendingBlankLines line))"

definition chunkByNewline :: "string \<Rightarrow> int \<Rightarrow> bool \<Rightarrow> bool \<Rightarrow> (nat \<Rightarrow> bool) \<Rightarrow> string list" where
  "chunkByNewline text maxLineLength splitLongLines trimLines isSafeBreak =
    (if text = [] then []
     else if maxLineLength \<le> 0 then (if js_trim text \<noteq> [] then [text] else [])
     else newline_loop maxLineLength splitLongLines trimLines (splitByNewline text isSafeBreak) 0 [])"

section \<open>Chunks by paragraph\<close>

text \<open>\<open>text.replace(/\r\n?/g, "\n")\<close>\<close>

fun normalize_newlines :: "string \<Rightarrow> string" where
  "normalize_newlines [] = []"
| "normalize_newlines (c # cs) =
     (if c = cr then nl # (case cs of d # ds \<Rightarrow> if d = nl then normalize_newlines ds else normalize_newlines cs | [] \<Rightarrow> [])
      else c # normalize_newlines cs)"

text \<open>The length of a match of \<open>\n[\t ]*\n+\<close> at the front, and the matches of a text from left to right.\<close>

definition paragraph_match :: "string \<Rightarrow> nat option" where
  "paragraph_match s =
    (case s of [] \<Rightarrow> None
     | c # cs \<Rightarrow>
        let blanks = takeWhile (\<lambda>c. c = CHR 0x09 \<or> c = CHR '' '') cs;
            newlines = takeWhile (\<lambda>c. c = nl) (dropWhile (\<lambda>c. c = CHR 0x09 \<or> c = CHR '' '') cs)
        in if c \<noteq> nl \<or> newlines = [] then None else Some (1 + length blanks + length newlines))"

function paragraph_breaks :: "nat \<Rightarrow> string \<Rightarrow> (nat \<times> nat) list" where
  "paragraph_breaks i [] = []"
| "paragraph_breaks i (c # cs) =
     (case paragraph_match (c # cs) of
        None \<Rightarrow> paragraph_breaks (i + 1) cs
      | Some n \<Rightarrow> (i, n) # paragraph_breaks (i + n) (drop n (c # cs)))"
  by pat_completeness auto
termination
  by (relation "measure (\<lambda>(i, s). length s)")
    (auto simp: paragraph_match_def Let_def split: if_splits)

fun paragraph_parts :: "string \<Rightarrow> FenceSpan list \<Rightarrow> nat \<Rightarrow> (nat \<times> nat) list \<Rightarrow> string list" where
  "paragraph_parts text spans lastIndex [] = [drop lastIndex text]"
| "paragraph_parts text spans lastIndex ((idx, n) # ms) =
     (if \<not> isSafeFenceBreak spans idx then paragraph_parts text spans lastIndex ms
      else take (idx - lastIndex) (drop lastIndex text) # paragraph_parts text spans (idx + n) ms)"

definition part_chunks :: "int \<Rightarrow> bool \<Rightarrow> string \<Rightarrow> string list" where
  "part_chunks limit splitLongParagraphs part =
    (let paragraph = trim_end part in
     if js_trim paragraph = [] then []
     else if int (length paragraph) \<le> limit then [paragraph]
     else if \<not> splitLongParagraphs then [paragraph]
     else chunkText paragraph limit)"

definition chunkByParagraph :: "string \<Rightarrow> int \<Rightarrow> bool \<Rightarrow> string list" where
  "chunkByParagraph text limit splitLongParagraphs =
    (if text = [] then []
     else if limit \<le> 0 then [text]
     else
      (let normalized = normalize_newlines text; matches = paragraph_breaks 0 normalized in
       if matches = []
       then (if int (length normalized) \<le> limit then [normalized]
             else if \<not> splitLongParagraphs then [normalized] else chunkText normalized limit)
       else concat (map (part_chunks limit splitLongParagraphs)
              (paragraph_parts normalized (parseFenceSpans normalized) 0 matches))))"

section \<open>Markdown\<close>

definition skipLeadingNewlines :: "string \<Rightarrow> nat \<Rightarrow> nat" where
  "skipLeadingNewlines value1 start = start + length (takeWhile (\<lambda>c. c = nl) (drop start value1))"

definition pickSafeBreakIndex :: "string \<Rightarrow> nat \<Rightarrow> nat \<Rightarrow> FenceSpan list \<Rightarrow> int" where
  "pickSafeBreakIndex text start end1 spans =
    (let (lastNewline, lastWhitespace) = scanParenAwareBreakpoints text start end1 (isSafeFenceBreak spans)
     in if int start < lastNewline then lastNewline else if int start < lastWhitespace then lastWhitespace else - 1)"

text \<open>\<open>text.lastIndexOf("\n", pos)\<close>; a negative position counts as 0.\<close>

fun last_newline :: "string \<Rightarrow> nat \<Rightarrow> nat option" where
  "last_newline text 0 = (if text \<noteq> [] \<and> text ! 0 = nl then Some 0 else None)"
| "last_newline text (Suc p) = (if Suc p < length text \<and> text ! Suc p = nl then Some (Suc p) else last_newline text p)"

lemma last_newline_le: "last_newline text p = Some n \<Longrightarrow> n \<le> p"
  by (induction p) (auto split: if_splits)

text \<open>
  Looks for the last line break of a fence to cut at. A newline at position 0 ends the search: its
  candidate, 1, is below the least index that makes progress.
\<close>

function newline_cut :: "string \<Rightarrow> FenceSpan list \<Rightarrow> FenceSpan \<Rightarrow> nat \<Rightarrow> nat \<Rightarrow> nat option \<Rightarrow> nat option" where
  "newline_cut text spans initialFence start minProgressIdx None = None"
| "newline_cut text spans initialFence start minProgressIdx (Some lastNewline) =
     (if lastNewline < start then None
      else
       (let candidateBreak = lastNewline + 1 in
        if candidateBreak < minProgressIdx \<or> lastNewline = 0 then None
        else if map_option fe_start (findFenceSpanAt spans candidateBreak) = Some (fe_start initialFence) then Some candidateBreak
        else newline_cut text spans initialFence start minProgressIdx (last_newline text (lastNewline - 1))))"
  by pat_completeness auto
termination
proof (relation "measure (\<lambda>(text, spans, f, start, m, n). case n of None \<Rightarrow> 0 | Some i \<Rightarrow> Suc i)")
  fix tx :: string and lastNewline candidateBreak minProgressIdx :: nat and spans f start
  assume "\<not> (candidateBreak < minProgressIdx \<or> lastNewline = 0)"
  then show "((tx, spans, f, start, minProgressIdx, last_newline tx (lastNewline - 1)),
      tx, spans, f, start, minProgressIdx, Some lastNewline)
      \<in> measure (\<lambda>(text, spans, f, start, m, n). case n of None \<Rightarrow> 0 | Some i \<Rightarrow> Suc i)"
    using last_newline_le [of tx "lastNewline - 1"] by (fastforce split: option.splits)
qed simp

definition close_line :: "FenceSpan \<Rightarrow> string" where
  "close_line f = fe_indent f @ fe_marker f"

definition min_progress :: "string \<Rightarrow> nat \<Rightarrow> FenceSpan \<Rightarrow> nat" where
  "min_progress text start f = min (length text) (max (start + 1) (fe_start f + length (fe_openLine f) + 2))"

text \<open>Where to cut inside a fence. Bounds below zero are those of the code, hence integers.\<close>

definition fence_cut :: "string \<Rightarrow> FenceSpan list \<Rightarrow> nat \<Rightarrow> nat \<Rightarrow> nat \<Rightarrow> FenceSpan \<Rightarrow> nat" where
  "fence_cut text spans start contentLimit windowEnd initialFence =
    (let closeLength = int (length (close_line initialFence));
         maxIdxIfNeedNewline = int start + (int contentLimit - (closeLength + 1)) in
     if maxIdxIfNeedNewline \<le> int start then windowEnd
     else
      (let minProgressIdx = min_progress text start initialFence;
           maxIdxIfAlreadyNewline = int start + (int contentLimit - closeLength) in
       case newline_cut text spans initialFence start minProgressIdx
              (last_newline text (nat (max (int start) (maxIdxIfAlreadyNewline - 1)))) of
         Some candidateBreak \<Rightarrow> candidateBreak
       | None \<Rightarrow> if maxIdxIfAlreadyNewline < int minProgressIdx then windowEnd
                 else nat (max (int minProgressIdx) maxIdxIfNeedNewline)))"

definition reopen_prefix :: "FenceSpan option \<Rightarrow> string" where
  "reopen_prefix reopenFence = (case reopenFence of None \<Rightarrow> [] | Some f \<Rightarrow> fe_openLine f @ [nl])"

definition content_limit :: "nat \<Rightarrow> FenceSpan option \<Rightarrow> nat" where
  "content_limit limit reopenFence = nat (max 1 (int limit - int (length (reopen_prefix reopenFence))))"

text \<open>The index at which the text from \<open>start\<close> on is cut, and the fence that is cut there.\<close>

definition markdown_cut :: "string \<Rightarrow> FenceSpan list \<Rightarrow> nat \<Rightarrow> nat \<Rightarrow> nat \<times> FenceSpan option" where
  "markdown_cut text spans contentLimit start =
    (let windowEnd = min (length text) (start + contentLimit);
         softBreak = pickSafeBreakIndex text start windowEnd spans;
         breakIdx = (if int start < softBreak then nat softBreak else windowEnd);
         initialFence = (if isSafeFenceBreak spans breakIdx then None else findFenceSpanAt spans breakIdx)
     in case initialFence of None \<Rightarrow> (breakIdx, None)
        | Some f \<Rightarrow>
           (let breakIdx = fence_cut text spans start contentLimit windowEnd f;
                fenceAtBreak = findFenceSpanAt spans breakIdx
            in (breakIdx, if map_option fe_start fenceAtBreak = Some (fe_start f) then fenceAtBreak else None)))"

definition close_chunk :: "string \<Rightarrow> FenceSpan option \<Rightarrow> string" where
  "close_chunk rawChunk fenceToSplit =
    (case fenceToSplit of None \<Rightarrow> rawChunk
     | Some f \<Rightarrow> if rawChunk \<noteq> [] \<and> last rawChunk = nl then rawChunk @ close_line f else rawChunk @ [nl] @ close_line f)"

lemma skip_newlines_bounds: "start \<le> skipLeadingNewlines text start"
  by (simp add: skipLeadingNewlines_def)

lemma next_start_progress:
  assumes "start < breakIdx" "start < length text"
  shows "start < (if f = None then skipLeadingNewlines text (after_break text breakIdx) else after_break text breakIdx)"
  using assms skip_newlines_bounds [of "after_break text breakIdx" "text"] by (auto simp: after_break_def)

function markdown_loop :: "string \<Rightarrow> FenceSpan list \<Rightarrow> nat \<Rightarrow> nat \<Rightarrow> FenceSpan option \<Rightarrow> string list" where
  "markdown_loop text spans limit start reopenFence =
    (if length text \<le> start then []
     else
      (let reopenPrefix = reopen_prefix reopenFence; contentLimit = content_limit limit reopenFence in
       if length text - start \<le> contentLimit
       then (let finalChunk = reopenPrefix @ drop start text in if finalChunk \<noteq> [] then [finalChunk] else [])
       else
        (let (breakIdx, fenceToSplit) = markdown_cut text spans contentLimit start;
             rawContent = take (breakIdx - start) (drop start text)
         in if rawContent = [] then []
            else
             (let nextStart = after_break text breakIdx;
                  nextStart = (if fenceToSplit = None then skipLeadingNewlines text nextStart else nextStart)
              in close_chunk (reopenPrefix @ rawContent) fenceToSplit
                   # markdown_loop text spans limit nextStart fenceToSplit))))"
  by pat_completeness auto

termination
proof (relation "measure (\<lambda>(text, spans, limit, start, reopenFence). length text - start)", goal_cases)
  case 1
  show ?case by simp
next
  case (2 tx spans limit start reopenFence p l c b f raw n1 n2)
  then have "start < b" by (auto simp: not_less)
  then have "start < n2" using next_start_progress [of start b tx f] 2 by (cases f) simp_all
  then show ?case using 2(1) by simp
qed

declare markdown_loop.simps [simp del]

definition chunkMarkdownText :: "string \<Rightarrow> int \<Rightarrow> string list" where
  "chunkMarkdownText text limit =
    (case resolveChunkEarlyReturn text limit of Some early \<Rightarrow> early
     | None \<Rightarrow> markdown_loop text (parseFenceSpans text) (nat limit) 0 None)"

section \<open>Configuration\<close>

datatype ChunkMode = LengthMode | NewlineMode

definition DEFAULT_CHUNK_LIMIT :: int where "DEFAULT_CHUNK_LIMIT = 4000"
definition DEFAULT_CHUNK_MODE :: ChunkMode where "DEFAULT_CHUNK_MODE = LengthMode"

text \<open>The settings of an account, a channel with its accounts, and the configuration: \<open>channels\<close> and its own keys. What
  is in \<open>streaming\<close> has not been validated.\<close>

record ChunkSettings =
  ck_textChunkLimit :: "int option"
  ck_chunkMode :: "ChunkMode option"
  ck_streaming :: "string option option"

record ProviderChunkConfig = ChunkSettings +
  ck_accounts :: "(string, ChunkSettings) jsmap option"

record ChunkConfig =
  cc_channels :: "(string, ProviderChunkConfig) jsmap option"
  cc_own :: "(string, ProviderChunkConfig) jsmap"

definition resolveAccountEntry :: "(string, 'a) jsmap option \<Rightarrow> string \<Rightarrow> 'a option" where
  "resolveAccountEntry accounts accountId =
    (case accounts of None \<Rightarrow> None
     | Some accounts \<Rightarrow>
        (case jm_get accounts accountId of
           Some e \<Rightarrow> Some e
         | None \<Rightarrow>
            (let normalized = normalizeLowercaseStringOrEmpty (Some accountId) in
             case find (\<lambda>key. normalizeLowercaseStringOrEmpty (Some key) = normalized) (jm_keys accounts) of
               None \<Rightarrow> None
             | Some matchKey \<Rightarrow> if matchKey \<noteq> [] then jm_get accounts matchKey else None)))"

definition asTextChunkMode :: "string option \<Rightarrow> ChunkMode option" where
  "asTextChunkMode value1 =
    (if value1 = Some ''length'' then Some LengthMode else if value1 = Some ''newline'' then Some NewlineMode else None)"

definition resolveChannelStreamingChunkMode :: "'m ChunkSettings_scheme option \<Rightarrow> ChunkMode option" where
  "resolveChannelStreamingChunkMode entry =
    (case entry of None \<Rightarrow> None
     | Some e \<Rightarrow> or_opt (asTextChunkMode (Option.bind (ck_streaming e) id)) (ck_chunkMode e))"

definition resolveChunkLimitForProvider :: "ProviderChunkConfig option \<Rightarrow> string option \<Rightarrow> int option" where
  "resolveChunkLimitForProvider cfgSection accountId =
    (case cfgSection of None \<Rightarrow> None
     | Some c \<Rightarrow> or_opt (Option.bind (resolveAccountEntry (ck_accounts c) (normalizeAccountId accountId)) ck_textChunkLimit)
                   (ck_textChunkLimit c))"

definition provider_section :: "ChunkConfig option \<Rightarrow> string \<Rightarrow> ProviderChunkConfig option" where
  "provider_section cfg provider =
    or_opt (Option.bind cfg (\<lambda>c. Option.bind (cc_channels c) (\<lambda>m. jm_get m provider)))
      (Option.bind cfg (\<lambda>c. jm_get (cc_own c) provider))"

definition resolveTextChunkLimit :: "ChunkConfig option \<Rightarrow> string option \<Rightarrow> string option \<Rightarrow> int option \<Rightarrow> int" where
  "resolveTextChunkLimit cfg provider accountId fallbackLimit =
    (let fallback = (case fallbackLimit of Some l \<Rightarrow> if 0 < l then l else DEFAULT_CHUNK_LIMIT | None \<Rightarrow> DEFAULT_CHUNK_LIMIT);
         providerOverride = (if or_else provider [] = [] then None
           else resolveChunkLimitForProvider (provider_section cfg (the provider)) accountId)
     in (case providerOverride of Some l \<Rightarrow> if 0 < l then l else fallback | None \<Rightarrow> fallback))"

definition resolveChunkModeForProvider :: "ProviderChunkConfig option \<Rightarrow> string option \<Rightarrow> ChunkMode option" where
  "resolveChunkModeForProvider cfgSection accountId =
    (case cfgSection of None \<Rightarrow> None
     | Some c \<Rightarrow>
        or_opt (resolveChannelStreamingChunkMode (resolveAccountEntry (ck_accounts c) (normalizeAccountId accountId)))
          (or_opt (resolveChannelStreamingChunkMode cfgSection) (ck_chunkMode c)))"

definition resolveChunkMode :: "ChunkConfig option \<Rightarrow> string option \<Rightarrow> string option \<Rightarrow> ChunkMode" where
  "resolveChunkMode cfg provider accountId =
    (if or_else provider [] = [] then DEFAULT_CHUNK_MODE
     else or_else (resolveChunkModeForProvider (provider_section cfg (the provider)) accountId) DEFAULT_CHUNK_MODE)"

lemma chunk_limit_positive: "0 < resolveTextChunkLimit cfg provider accountId fallbackLimit"
  by (simp add: resolveTextChunkLimit_def DEFAULT_CHUNK_LIMIT_def Let_def split: option.split)

section \<open>Modes\<close>

definition chunkTextWithMode :: "string \<Rightarrow> int \<Rightarrow> ChunkMode \<Rightarrow> string list" where
  "chunkTextWithMode text limit mode = (if mode = NewlineMode then chunkByParagraph text limit True else chunkText text limit)"

definition chunkMarkdownTextWithMode :: "string \<Rightarrow> int \<Rightarrow> ChunkMode \<Rightarrow> string list" where
  "chunkMarkdownTextWithMode text limit mode =
    (if mode = NewlineMode
     then concat (map (\<lambda>chunk. let nested = chunkMarkdownText chunk limit in
            if nested = [] \<and> chunk \<noteq> [] then [chunk] else nested)
            (chunkByParagraph text limit False))
     else chunkMarkdownText text limit)"

end
