(* ===== verification/ChunkingProps.thy ===== *)
theory ChunkingProps
  imports Chunking
begin

text \<open>
  What chunking promises: no chunk is larger than the limit, and apart from white space no
  character of the text is lost, repeated or moved. Markdown chunks are a cut of the text with
  fences closed at a seam and reopened after it.
\<close>

section \<open>Text up to white space\<close>

definition ink :: "string \<Rightarrow> string" where
  "ink s = filter (\<lambda>c. \<not> is_js_space c) s"

lemma ink_simps [simp]: "ink [] = []" "ink (s @ t) = ink s @ ink t" "ink (c # s) = (if is_js_space c then ink s else c # ink s)"
  by (simp_all add: ink_def)

lemma ink_concat: "ink (concat ss) = concat (map ink ss)"
  by (induction ss) simp_all

lemma ink_spaces: "list_all is_js_space s \<Longrightarrow> ink s = []"
  by (induction s) simp_all

lemma space_nl [simp]: "is_js_space nl" "is_js_space cr" "is_js_space (CHR 0x09)" "is_js_space (CHR '' '')"
  by (simp_all add: is_js_space_def)

lemma ink_trim_start [simp]: "ink (trim_start s) = ink s"
  by (induction s) (simp_all add: trim_start_def)

lemma ink_rev: "ink (rev s) = rev (ink s)"
  by (simp add: ink_def rev_filter)

lemma ink_trim_end [simp]: "ink (trim_end s) = ink s"
proof -
  have "ink (rev (dropWhile is_js_space (rev s))) = rev (ink (trim_start (rev s)))"
    unfolding trim_start_def by (rule ink_rev)
  then show ?thesis by (simp add: trim_end_def ink_rev)
qed

lemma ink_js_trim [simp]: "ink (js_trim s) = ink s"
  by (simp add: js_trim_def)

lemma js_trim_empty: "js_trim s = [] \<Longrightarrow> ink s = []"
  by (metis ink_js_trim ink_simps(1))

lemma length_trim_end: "length (trim_end s) \<le> length s"
  by (simp add: trim_end_def) (metis length_dropWhile_le length_rev)

lemma ink_after_break: "ink (drop (after_break s i) s) = ink (drop i s)"
proof (cases "i < length s")
  case True
  then have "drop i s = s ! i # drop (Suc i) s" by (simp add: Cons_nth_drop_Suc)
  then show ?thesis using True by (simp add: after_break_def min_def)
qed (simp add: after_break_def)

section \<open>Chunks by length\<close>

lemma break_loop_fits:
  "0 < limit \<Longrightarrow> list_all (\<lambda>c. c \<noteq> [] \<and> length c \<le> limit) (break_loop resolve limit remaining)"
proof (induction resolve limit remaining rule: break_loop.induct)
  case (1 resolve limit remaining)
  show ?case
  proof (cases "0 < limit \<and> limit < length remaining")
    case True
    let ?b = "break_index resolve limit remaining"
    have "length (trim_end (take ?b remaining)) \<le> limit"
      using length_trim_end [of "take ?b remaining"] break_index_bounds [of limit resolve remaining] True by simp
    then show ?thesis using 1(1) [OF True refl refl refl 1(2)] True by (subst break_loop.simps) (simp add: Let_def)
  next
    case False
    then show ?thesis using 1(2) by (subst break_loop.simps) auto
  qed
qed

lemma break_loop_ink: "ink (concat (break_loop resolve limit remaining)) = ink remaining"
proof (induction resolve limit remaining rule: break_loop.induct)
  case (1 resolve limit remaining)
  show ?case
  proof (cases "0 < limit \<and> limit < length remaining")
    case True
    let ?b = "break_index resolve limit remaining" and ?t = "trim_end (take (break_index resolve limit remaining) remaining)"
    have "?t = [] \<Longrightarrow> ink (take ?b remaining) = []" by (metis ink_trim_end ink_simps(1))
    then have "ink (concat (break_loop resolve limit remaining)) = ink ?t @ ink (trim_start (drop (after_break remaining ?b) remaining))"
      using 1 [OF True refl refl refl] True by (subst break_loop.simps) (simp add: Let_def)
    also have "\<dots> = ink (take ?b remaining @ drop ?b remaining)"
      by (simp only: ink_simps(2) ink_trim_end ink_trim_start ink_after_break)
    finally show ?thesis by (simp only: append_take_drop_id)
  next
    case False
    then show ?thesis by (subst break_loop.simps) auto
  qed
qed

definition fits :: "int \<Rightarrow> string list \<Rightarrow> bool" where
  "fits limit cs \<longleftrightarrow> list_all (\<lambda>c. c \<noteq> [] \<and> (limit \<le> 0 \<or> int (length c) \<le> limit)) cs"

lemma fits_simps [simp]: "fits limit []" "fits limit (xs @ ys) \<longleftrightarrow> fits limit xs \<and> fits limit ys"
    "fits limit [c] \<longleftrightarrow> c \<noteq> [] \<and> (limit \<le> 0 \<or> int (length c) \<le> limit)"
  by (auto simp: fits_def)

lemma chunk_text_fits: "fits limit (chunkText text limit)"
proof (cases "resolveChunkEarlyReturn text limit")
  case None
  then have "0 < nat limit" "limit < int (length text)" by (auto simp: resolveChunkEarlyReturn_def split: if_splits)
  then show ?thesis using None break_loop_fits [of "nat limit" text_break "text"]
    by (auto simp: chunkText_def chunkTextByBreakResolver_def fits_def list_all_iff)
next
  case (Some early)
  then show ?thesis by (auto simp: chunkText_def resolveChunkEarlyReturn_def fits_def split: if_splits)
qed

lemma chunk_text_ink: "ink (concat (chunkText text limit)) = ink text"
  by (auto simp: chunkText_def resolveChunkEarlyReturn_def chunkTextByBreakResolver_def break_loop_ink)

section \<open>Chunks by paragraph\<close>

lemma normalize_ink: "ink (normalize_newlines s) = ink s"
  by (induction s rule: normalize_newlines.induct) (auto split: list.split)

lemma take_prefix: "s = x @ z \<Longrightarrow> length x = n \<Longrightarrow> take n s = x"
  by simp

lemma paragraph_match_spaces:
  assumes "paragraph_match s = Some n"
  shows "n \<le> length s \<and> 0 < n \<and> ink (take n s) = []"
proof (cases s)
  case Nil
  then show ?thesis using assms by (simp add: paragraph_match_def)
next
  case (Cons c cs)
  let ?P = "\<lambda>c. c = CHR 0x09 \<or> c = CHR '' ''"
  let ?b = "takeWhile ?P cs" and ?r = "dropWhile ?P cs"
  let ?n = "takeWhile (\<lambda>c. c = nl) ?r" and ?z = "dropWhile (\<lambda>c. c = nl) ?r"
  have c: "c = nl" and n: "n = 1 + length ?b + length ?n"
    using assms Cons by (auto simp: paragraph_match_def Let_def split: if_splits)
  have "cs = ?b @ ?n @ ?z" by simp
  then have s: "s = (c # ?b @ ?n) @ ?z" using Cons by simp
  have "take n s = c # ?b @ ?n" by (rule take_prefix [OF s]) (simp add: n)
  moreover have "list_all is_js_space (c # ?b @ ?n)" by (auto simp: c list_all_iff dest!: set_takeWhileD)
  moreover have "length s = length (c # ?b @ ?n) + length ?z" by (subst s) (rule length_append)
  ultimately show ?thesis using n ink_spaces by simp
qed

text \<open>Breaks come in order and are white space.\<close>

fun breaks_ok :: "string \<Rightarrow> nat \<Rightarrow> (nat \<times> nat) list \<Rightarrow> bool" where
  "breaks_ok s lo [] \<longleftrightarrow> lo \<le> length s"
| "breaks_ok s lo ((i, n) # ms) \<longleftrightarrow> lo \<le> i \<and> i + n \<le> length s \<and> ink (take n (drop i s)) = [] \<and> breaks_ok s (i + n) ms"

lemma breaks_ok_le: "breaks_ok s lo ms \<Longrightarrow> lo' \<le> lo \<Longrightarrow> breaks_ok s lo' ms"
  by (cases ms) auto

lemma paragraph_breaks_ok: "i \<le> length s \<Longrightarrow> r = drop i s \<Longrightarrow> breaks_ok s i (paragraph_breaks i r)"
proof (induction i r rule: paragraph_breaks.induct)
  case (1 i)
  then show ?case by simp
next
  case (2 i c cs)
  have i: "i < length s" using 2(4) by (metis drop_all leI list.discI)
  have cs: "cs = drop (i + 1) s" using 2(4) by (metis Suc_eq_plus1 drop_Suc list.sel(3) tl_drop)
  show ?case
  proof (cases "paragraph_match (c # cs)")
    case None
    then show ?thesis using 2(1) [OF None _ cs] i breaks_ok_le [of s "i + 1" _ i] by simp
  next
    case (Some n)
    note m = paragraph_match_spaces [OF Some]
    have "i + n \<le> length s" using m 2(4) i by (metis add.commute diff_diff_cancel diff_le_mono2 le_add_diff_inverse2 length_drop less_imp_le nat_le_linear add_le_cancel_left le_add_diff_inverse)
    moreover have "drop n (c # cs) = drop (i + n) s" using 2(4) by (simp add: add.commute)
    moreover have "paragraph_breaks i (c # cs) = (i, n) # paragraph_breaks (i + n) (drop n (c # cs))" using Some by simp
    moreover have "ink (take n (drop i s)) = []" using m 2(4) by simp
    ultimately show ?thesis using 2(2) [OF Some] by simp
  qed
qed

lemma parts_ink:
  "breaks_ok s lastIndex ms \<Longrightarrow> ink (concat (paragraph_parts s spans lastIndex ms)) = ink (drop lastIndex s)"
proof (induction s spans lastIndex ms rule: paragraph_parts.induct)
  case (1 s spans lastIndex)
  show ?case by simp
next
  case (2 s spans lastIndex i n ms)
  show ?case
  proof (cases "isSafeFenceBreak spans i")
    case True
    have "drop lastIndex s = take (i - lastIndex) (drop lastIndex s) @ drop i s"
      using 2(3) by (metis append_take_drop_id breaks_ok.simps(2) drop_drop le_add_diff_inverse2)
    moreover have "drop i s = take n (drop i s) @ drop (i + n) s"
      by (metis append_take_drop_id drop_drop add.commute)
    ultimately have "ink (drop lastIndex s) = ink (take (i - lastIndex) (drop lastIndex s)) @ ink (take n (drop i s)) @ ink (drop (i + n) s)"
      by (metis ink_simps(2))
    then show ?thesis using True 2(2) [OF _ ] 2(3) by simp
  next
    case False
    then show ?thesis using 2(1) 2(3) breaks_ok_le [of s "i + n" ms lastIndex] by simp
  qed
qed

lemma part_chunks_ok:
  "ink (concat (part_chunks limit split part)) = ink part" "split \<Longrightarrow> fits limit (part_chunks limit split part)"
proof -
  have e: "ink part = []" if "js_trim (trim_end part) = []" using js_trim_empty [OF that] by simp
  show "ink (concat (part_chunks limit split part)) = ink part"
    by (simp add: part_chunks_def Let_def chunk_text_ink e)
  show "split \<Longrightarrow> fits limit (part_chunks limit split part)"
    by (auto simp: part_chunks_def Let_def chunk_text_fits)
qed

lemma parts_chunks_ok:
  "ink (concat (concat (map (part_chunks limit split) parts))) = ink (concat parts)"
  "split \<Longrightarrow> fits limit (concat (map (part_chunks limit split) parts))"
  by (induction parts) (simp_all add: part_chunks_ok)

lemma paragraph_chunks_ok:
  "ink (concat (chunkByParagraph text limit split)) = ink text"
  "split \<Longrightarrow> fits limit (chunkByParagraph text limit split)"
proof -
  let ?s = "normalize_newlines text"
  have b: "breaks_ok ?s 0 (paragraph_breaks 0 ?s)" by (rule paragraph_breaks_ok) simp_all
  show "ink (concat (chunkByParagraph text limit split)) = ink text"
    by (simp add: chunkByParagraph_def Let_def parts_chunks_ok parts_ink [OF b] chunk_text_ink normalize_ink)
  have "?s \<noteq> []" if "text \<noteq> []" using that by (cases "text") simp_all
  then show "split \<Longrightarrow> fits limit (chunkByParagraph text limit split)"
    by (auto simp: chunkByParagraph_def Let_def parts_chunks_ok chunk_text_fits)
qed

text \<open>C35: Text sent in chunks, in either mode, arrives whole: no chunk is empty or larger than
  the limit, and apart from white space the chunks in a row are the text.\<close>

theorem text_chunks_fit:
  "list_all (\<lambda>c. c \<noteq> [] \<and> (limit \<le> 0 \<or> int (length c) \<le> limit)) (chunkTextWithMode text limit mode)
   \<and> filter (\<lambda>c. \<not> is_js_space c) (concat (chunkTextWithMode text limit mode)) = filter (\<lambda>c. \<not> is_js_space c) text"
  using paragraph_chunks_ok(1) [of "text" limit True] paragraph_chunks_ok(2) [of True limit "text"] chunk_text_fits [of limit "text"] chunk_text_ink [of "text" limit]
  by (simp add: chunkTextWithMode_def fits_def ink_def)

section \<open>Chunks by line\<close>

lemma split_lines_ink: "ink (concat (split_lines safe i line s)) = ink (line @ s)"
  by (induction safe i line s rule: split_lines.induct) simp_all

lemma line_chunks_ink: "ink (concat (line_chunks m sp tr n line)) = ink line"
proof -
  have b: "ink (replicate k nl) = []" for k by (rule ink_spaces) (simp add: list_all_iff)
  have c: "ink (take k v) @ ink (concat (if drop k v \<noteq> [] then chunkText (drop k v) m else [])) = ink v" for k v
  proof -
    have "ink (concat (if drop k v \<noteq> [] then chunkText (drop k v) m else [])) = ink (drop k v)"
      using chunk_text_ink [of "drop k v" m] by (auto simp del: drop_eq_Nil)
    then show ?thesis by (metis append_take_drop_id ink_simps(2))
  qed
  have v: "ink (if tr then js_trim line else line) = ink line" by simp
  show ?thesis
    unfolding line_chunks_def Let_def using c v by (simp only: b ink_simps concat.simps concat_append append_Nil2 append_Nil split: if_split) simp
qed

lemma newline_loop_ink: "ink (concat (newline_loop m sp tr lines n chunks)) = ink (concat chunks) @ ink (concat lines)"
proof (induction m sp tr lines n chunks rule: newline_loop.induct)
  case (1 m sp tr n chunks)
  have "ink (replicate k nl) = []" for k by (rule ink_spaces) (simp add: list_all_iff)
  then have "chunks \<noteq> [] \<Longrightarrow> ink (concat (butlast chunks @ [last chunks @ replicate n nl])) = ink (concat chunks)"
    by (cases chunks rule: rev_cases) simp_all
  then show ?case by simp
next
  case (2 m sp tr line lines n chunks)
  then show ?case by (auto simp: line_chunks_ink js_trim_empty)
qed

lemma newline_chunks_ink: "ink (concat (chunkByNewline text m sp tr safe)) = ink text"
  by (simp add: chunkByNewline_def newline_loop_ink splitByNewline_def split_lines_ink js_trim_empty)

section \<open>Markdown\<close>

lemma scan_breaks_range:
  "scan_breaks allowed i cs depth (a, b) = (a', b') \<Longrightarrow>
   (a' = a \<or> int i \<le> a' \<and> a' < int (i + length cs)) \<and> (b' = b \<or> int i \<le> b' \<and> b' < int (i + length cs))"
proof (induction cs arbitrary: i depth a b)
  case (Cons c cs)
  then show ?case by (auto split: if_splits dest!: Cons.IH)
qed simp

lemma pick_range:
  "int start < pickSafeBreakIndex s start end1 spans \<Longrightarrow> pickSafeBreakIndex s start end1 spans < int end1"
proof -
  obtain a b where r: "scanParenAwareBreakpoints s start end1 (isSafeFenceBreak spans) = (a, b)" by fastforce
  then have "(a = - 1 \<or> int start \<le> a \<and> a < int (start + length (take (end1 - start) (drop start s)))) \<and>
      (b = - 1 \<or> int start \<le> b \<and> b < int (start + length (take (end1 - start) (drop start s))))"
    unfolding scanParenAwareBreakpoints_def by (rule scan_breaks_range)
  then show "int start < pickSafeBreakIndex s start end1 spans \<Longrightarrow> pickSafeBreakIndex s start end1 spans < int end1"
    by (auto simp: pickSafeBreakIndex_def r split: if_splits)
qed

lemma last_newline_bound: "last_newline s p = Some n \<Longrightarrow> n < length s"
  by (induction p) (auto split: if_splits)

lemma newline_cut_range:
  "newline_cut s spans f start m last1 = Some i \<Longrightarrow> (\<And>n. last1 = Some n \<Longrightarrow> n < length s \<and> n \<le> hi) \<Longrightarrow>
     m \<le> i \<and> i \<le> length s \<and> i \<le> Suc hi"
proof (induction s spans f start m last1 rule: newline_cut.induct)
  case (2 s spans f start m n)
  have n: "n < length s" "n \<le> hi" using 2(3) by auto
  note rec = 2(1)
  show ?case
  proof (cases "map_option fe_start (findFenceSpanAt spans (n + 1)) = Some (fe_start f)")
    case True
    then show ?thesis using 2(2) n by (auto simp: Let_def split: if_splits)
  next
    case False
    then have c: "\<not> n < start" "\<not> (n + 1 < m \<or> n = 0)" "newline_cut s spans f start m (last_newline s (n - 1)) = Some i"
      using 2(2) by (auto simp: Let_def split: if_splits)
    show ?thesis
      by (rule rec [OF c(1) refl c(2) False c(3)])
        (use n last_newline_bound last_newline_le in \<open>fastforce\<close>)
  qed
qed simp

lemma fence_cut_range:
  assumes "start + contentLimit < length s" "0 < contentLimit"
  shows "start < fence_cut s spans start contentLimit (start + contentLimit) f \<and>
    fence_cut s spans start contentLimit (start + contentLimit) f \<le> start + contentLimit"
proof -
  let ?close = "int (length (close_line f))" and ?m = "min_progress s start f"
  let ?need = "int start + (int contentLimit - (?close + 1))" and ?have = "int start + (int contentLimit - ?close)"
  let ?pos = "nat (max (int start) (?have - 1))"
  have m: "start < ?m" "?m \<le> length s" using assms by (auto simp: min_progress_def)
  show ?thesis
  proof (cases "?need \<le> int start")
    case True
    then show ?thesis using assms(2) by (simp add: fence_cut_def Let_def)
  next
    case False
    then have pos: "Suc ?pos \<le> start + contentLimit" by linarith
    show ?thesis
    proof (cases "newline_cut s spans f start ?m (last_newline s ?pos)")
      case None
      then have "fence_cut s spans start contentLimit (start + contentLimit) f =
          (if ?have < int ?m then start + contentLimit else nat (max (int ?m) ?need))"
        using False by (simp add: fence_cut_def Let_def)
      moreover have "int start < max (int ?m) ?need" using False by linarith
      moreover have "max (int ?m) ?need \<le> int (start + contentLimit)" if "\<not> ?have < int ?m" using that by linarith
      ultimately show ?thesis using assms(2) by (auto simp: nat_le_iff zless_nat_eq_int_zless)
    next
      case (Some i)
      then have "?m \<le> i \<and> i \<le> length s \<and> i \<le> Suc ?pos"
        by (rule newline_cut_range) (auto dest: last_newline_bound last_newline_le)
      moreover have "fence_cut s spans start contentLimit (start + contentLimit) f = i"
        using False Some by (simp add: fence_cut_def Let_def)
      ultimately show ?thesis using m pos by simp
    qed
  qed
qed

lemma markdown_cut_range:
  assumes "start + contentLimit < length s" "0 < contentLimit" "markdown_cut s spans contentLimit start = (b, f)"
  shows "start < b \<and> b \<le> start + contentLimit \<and> (\<forall>g. f = Some g \<longrightarrow> g \<in> set spans)"
proof -
  have w: "min (length s) (start + contentLimit) = start + contentLimit" using assms(1) by simp
  let ?soft = "pickSafeBreakIndex s start (start + contentLimit) spans"
  define b0 where "b0 = (if int start < ?soft then nat ?soft else start + contentLimit)"
  have "?soft < int (start + contentLimit)" if "int start < ?soft" using pick_range [OF that] .
  then have b0: "start < b0" "b0 \<le> start + contentLimit" using assms(2) by (auto simp: b0_def)
  have mem: "g \<in> set spans" if "findFenceSpanAt spans i = Some g" for i g
    using span_search_Some that by (simp add: findFenceSpanAt_def)
  show ?thesis
  proof (cases "isSafeFenceBreak spans b0")
    case True
    then show ?thesis using assms(3) b0 by (simp add: markdown_cut_def Let_def w b0_def [symmetric])
  next
    case False
    then obtain g where g: "findFenceSpanAt spans b0 = Some g" by (auto simp: isSafeFenceBreak_def)
    then show ?thesis
      using assms(3) False fence_cut_range [OF assms(1,2), of spans g] mem
      by (auto simp: markdown_cut_def Let_def w b0_def [symmetric] split: if_splits)
  qed
qed

text \<open>
  A cut: what is put before the content of a chunk, the content, and what is put after it. The
  seams connect cuts: a fence that is closed at the end of one is reopened at the start of the next.
\<close>

type_synonym cut = "string \<times> string \<times> string"

definition cut_chunk :: "cut \<Rightarrow> string" where "cut_chunk k = (case k of (p, c, x) \<Rightarrow> p @ c @ x)"
definition cut_content :: "cut \<Rightarrow> string" where "cut_content k = (case k of (p, c, x) \<Rightarrow> c)"

definition cut_fits :: "int \<Rightarrow> cut \<Rightarrow> bool" where
  "cut_fits limit k = (case k of (p, c, x) \<Rightarrow>
     c \<noteq> [] \<and> (limit \<le> 0 \<or> int (length (p @ c)) \<le> max limit (int (length p) + 1)))"

fun seams :: "FenceSpan list \<Rightarrow> FenceSpan option \<Rightarrow> cut list \<Rightarrow> bool" where
  "seams spans open1 [] \<longleftrightarrow> True"
| "seams spans open1 ((p, c, x) # cuts) \<longleftrightarrow> p = reopen_prefix open1
     \<and> (x = [] \<and> seams spans None cuts
        \<or> list_ex (\<lambda>f. (x = close_line f \<or> x = nl # close_line f) \<and> seams spans (Some f) cuts) spans)"

lemma drop_skip_ink: "ink (drop (skipLeadingNewlines s i) s) = ink (drop i s)"
proof -
  let ?t = "takeWhile (\<lambda>c. c = nl) (drop i s)"
  have "drop i s = ?t @ dropWhile (\<lambda>c. c = nl) (drop i s)" by simp
  then have "drop (skipLeadingNewlines s i) s = dropWhile (\<lambda>c. c = nl) (drop i s)"
    by (metis add.commute append_eq_conv_conj drop_drop skipLeadingNewlines_def)
  moreover have "list_all is_js_space ?t" by (auto simp: list_all_iff dest!: set_takeWhileD)
  ultimately show ?thesis
    by (metis append_Nil ink_simps(2) ink_spaces takeWhile_dropWhile_id)
qed

lemma close_chunk_cases:
  "\<exists>x. close_chunk r (Some f) = r @ x \<and> (x = close_line f \<or> x = nl # close_line f)"
  by (simp add: close_chunk_def)

lemma markdown_loop_cuts:
  "0 < limit \<Longrightarrow> \<exists>cuts. markdown_loop s spans limit start reopen = map cut_chunk cuts
     \<and> ink (concat (map cut_content cuts)) = ink (drop start s)
     \<and> list_all (cut_fits (int limit)) cuts \<and> seams spans reopen cuts"
proof (induction s spans limit start reopen rule: markdown_loop.induct)
  case (1 s spans limit start reopen)
  let ?p = "reopen_prefix reopen" and ?l = "content_limit limit reopen"
  have l: "0 < ?l" "int (length ?p + ?l) \<le> max (int limit) (int (length ?p) + 1)"
    by (auto simp: content_limit_def)
  consider (over) "length s \<le> start" | (final) "\<not> length s \<le> start" "length s - start \<le> ?l"
    | (cut) "\<not> length s \<le> start" "\<not> length s - start \<le> ?l" by blast
  then show ?case
  proof cases
    case over
    then show ?thesis by (subst markdown_loop.simps) (simp add: exI [of _ "[]"])
  next
    case final
    let ?k = "(?p, drop start s, []) :: cut"
    have "markdown_loop s spans limit start reopen = map cut_chunk [?k]"
      using final by (subst markdown_loop.simps) (simp add: Let_def cut_chunk_def)
    moreover have "cut_fits (int limit) ?k" using final l by (auto simp: cut_fits_def)
    ultimately show ?thesis by (intro exI [of _ "[?k]"]) (simp add: cut_content_def)
  next
    case cut
    obtain b f where mc: "markdown_cut s spans ?l start = (b, f)" by fastforce
    have r: "start < b" "b \<le> start + ?l" "f = Some g \<Longrightarrow> g \<in> set spans" for g
      using markdown_cut_range [OF _ l(1) mc] cut by auto
    let ?c = "take (b - start) (drop start s)"
    let ?n = "if f = None then skipLeadingNewlines s (after_break s b) else after_break s b"
    have c: "?c \<noteq> []" using r(1) cut by simp
    obtain cuts where ih: "markdown_loop s spans limit ?n f = map cut_chunk cuts"
        "ink (concat (map cut_content cuts)) = ink (drop ?n s)" "list_all (cut_fits (int limit)) cuts" "seams spans f cuts"
      using 1(1) [OF cut(1) refl refl cut(2) mc [symmetric] refl refl c refl refl 1(2)] by blast
    obtain x where x: "close_chunk (?p @ ?c) f = ?p @ ?c @ x"
        "f = None \<and> x = [] \<or> (\<exists>g. f = Some g \<and> (x = close_line g \<or> x = nl # close_line g))"
      using close_chunk_cases [of "?p @ ?c"] by (cases f) (auto simp: close_chunk_def)
    let ?k = "(?p, ?c, x) :: cut"
    have "markdown_loop s spans limit start reopen = close_chunk (?p @ ?c) f # markdown_loop s spans limit ?n f"
      using cut c by (subst markdown_loop.simps) (simp only: Let_def mc prod.case if_False)
    then have "markdown_loop s spans limit start reopen = map cut_chunk (?k # cuts)"
      using ih(1) x(1) by (simp add: cut_chunk_def)
    moreover have "ink (drop ?n s) = ink (drop b s)" by (simp add: drop_skip_ink ink_after_break)
    then have "ink (concat (map cut_content (?k # cuts))) = ink (drop start s)"
      using ih(2) r(1) by (simp add: cut_content_def) (metis append_take_drop_id drop_drop ink_simps(2) le_add_diff_inverse2 less_imp_le)
    moreover have "cut_fits (int limit) ?k" using c l(2) r by (auto simp: cut_fits_def)
    moreover have "seams spans reopen (?k # cuts)" using ih(4) x(2) r(3) by (auto simp: list_ex_iff)
    ultimately show ?thesis using ih(3) by (intro exI [of _ "?k # cuts"]) simp
  qed
qed

text \<open>Markdown chunks are the text, cut: each is a nonempty piece of it, together with the text
  around it no larger than the limit (or one character, if the reopened fence leaves no room), and the pieces
  in a row are the text up to white space. Only a fence of the text is ever added, closed at the end of one
  chunk and reopened with its own opening line at the start of the next.\<close>

lemma markdown_chunks_cut_text:
  "\<exists>cuts. chunkMarkdownText text limit = map cut_chunk cuts
     \<and> filter (\<lambda>c. \<not> is_js_space c) (concat (map cut_content cuts)) = filter (\<lambda>c. \<not> is_js_space c) text
     \<and> list_all (cut_fits limit) cuts \<and> seams (parseFenceSpans text) None cuts"
proof (cases "resolveChunkEarlyReturn text limit")
  case None
  then have "0 < nat limit" "int (nat limit) = limit" by (auto simp: resolveChunkEarlyReturn_def split: if_splits)
  then show ?thesis
    using None markdown_loop_cuts [of "nat limit" "text" "parseFenceSpans text" 0 None] by (simp add: chunkMarkdownText_def ink_def)
next
  case (Some early)
  show ?thesis
  proof (cases "text = []")
    case True
    then show ?thesis by (intro exI [of _ "[]"]) (simp add: chunkMarkdownText_def resolveChunkEarlyReturn_def)
  next
    case False
    then show ?thesis using Some
      by (intro exI [of _ "[([], text, [])]"])
        (auto simp: chunkMarkdownText_def resolveChunkEarlyReturn_def cut_chunk_def cut_content_def cut_fits_def reopen_prefix_def split: if_splits)
  qed
qed

text \<open>Without fences the limit is exact.\<close>

lemma seams_no_fence: "seams [] None cuts \<Longrightarrow> list_all (\<lambda>(p, c, x). p = [] \<and> x = []) cuts"
  by (induction "[] :: FenceSpan list" "None :: FenceSpan option" cuts rule: seams.induct) (auto simp: reopen_prefix_def)

lemma plain_markdown_fits:
  assumes "parseFenceSpans text = []" "0 < limit"
  shows "list_all (\<lambda>c. c \<noteq> [] \<and> int (length c) \<le> limit) (chunkMarkdownText text limit)"
proof -
  obtain cuts where c: "chunkMarkdownText text limit = map cut_chunk cuts" "list_all (cut_fits limit) cuts" "seams [] None cuts"
    using markdown_chunks_cut_text [of "text" limit] assms(1) by auto
  then have "list_all (\<lambda>(p, c, x). p = [] \<and> x = []) cuts" using seams_no_fence by blast
  then show ?thesis using c(2) assms(2) unfolding c(1)
    by (fastforce simp: list_all_iff cut_fits_def cut_chunk_def)
qed

section \<open>Where the markdown chunker is not what it means to be\<close>

text \<open>A chunk cut right behind the first character of its fence has no newline at its end, but no room for one either.\<close>

lemma fenced_chunk_too_large:
  "map length (chunkMarkdownText (''```'' @ [nl] @ ''abcdef'' @ [nl] @ ''```'') 8) = [9, 12, 12, 5]"
  by code_simp

text \<open>The white space that is dropped after a cut can be the indentation of a line of code.\<close>

lemma fenced_indentation_lost:
  "chunkMarkdownText (''```'' @ [nl] @ ''if:'' @ [nl] @ ''  go'' @ [nl] @ ''```'') 13
   = [''```'' @ [nl] @ ''if:'' @ [nl] @ ''```'', ''```'' @ [nl] @ '' go'' @ [nl] @ ''```'']"
  by code_simp

text \<open>With carriage returns no fence is recognised.\<close>

lemma fences_need_plain_newlines:
  "parseFenceSpans (''```js'' @ [cr, nl] @ ''x'' @ [cr, nl] @ ''```'' @ [cr, nl]) = []
   \<and> length (parseFenceSpans (''```js'' @ [nl] @ ''x'' @ [nl] @ ''```'' @ [nl])) = 1"
  by code_simp

text \<open>Blank lines at the end are added to the last line chunk, over its limit.\<close>

lemma trailing_blank_lines_overflow:
  "chunkByNewline (''abc'' @ [nl, nl, nl]) 3 True True (\<lambda>_. True) = [''abc'' @ [nl, nl, nl]]"
  by code_simp

end
