(* ===== verification/HeartbeatWake.thy ===== *)
theory HeartbeatWake
  imports JsNumber JsMap JsString
begin

text \<open>
  Wake-ups of the heartbeat (src/src/infra/heartbeat-wake.ts, src/src/infra/heartbeat-reason.ts):
  requests coalesce per target, a timer starts a run that hands them to the registered handler one by
  one, and busy or failing targets are retried. There is at most one timer; a run is a process that is
  suspended while it awaits the handler. Requests and calls are recorded in a log.
\<close>

section \<open>Wakes\<close>

datatype HeartbeatRunResult = HbRan int | HbSkipped string | HbFailed string

definition HEARTBEAT_SKIP_REQUESTS_IN_FLIGHT :: string where "HEARTBEAT_SKIP_REQUESTS_IN_FLIGHT = ''requests-in-flight''"
definition HEARTBEAT_SKIP_CRON_IN_PROGRESS :: string where "HEARTBEAT_SKIP_CRON_IN_PROGRESS = ''cron-in-progress''"
definition HEARTBEAT_SKIP_LANES_BUSY :: string where "HEARTBEAT_SKIP_LANES_BUSY = ''lanes-busy''"

definition isRetryableHeartbeatBusySkipReason :: "string \<Rightarrow> bool" where
  "isRetryableHeartbeatBusySkipReason reason \<longleftrightarrow>
     reason \<in> set [HEARTBEAT_SKIP_REQUESTS_IN_FLIGHT, HEARTBEAT_SKIP_CRON_IN_PROGRESS, HEARTBEAT_SKIP_LANES_BUSY]"

datatype HeartbeatWakeIntent = ScheduledIntent | EventIntent | ImmediateIntent | ManualIntent

datatype HeartbeatWakeSource = WsInterval | WsManual | WsExecEvent | WsNotificationsEvent | WsCron | WsHook | WsBackgroundTask
  | WsBackgroundTaskBlocked | WsAcpSpawn | WsCliWatchdog | WsRestartSentinel | WsRetry | WsOther

record HeartbeatWakeOverride =
  hv_target :: "string option"
  hv_to :: "string option"
  hv_accountId :: "string option"

text \<open>A request, the same as what a handler is called with.\<close>

record HeartbeatWakeRequest =
  hr_source :: HeartbeatWakeSource
  hr_intent :: HeartbeatWakeIntent
  hr_reason :: "string option"
  hr_agentId :: "string option"
  hr_sessionKey :: "string option"
  hr_heartbeat :: "HeartbeatWakeOverride option"

datatype WakeTimerKind = NormalTimer | RetryTimer

record PendingWakeReason =
  pw_source :: HeartbeatWakeSource
  pw_intent :: HeartbeatWakeIntent
  pw_reason :: string
  pw_priority :: nat
  pw_requestedAt :: rat
  pw_agentId :: "string option"
  pw_sessionKey :: "string option"
  pw_heartbeat :: "HeartbeatWakeOverride option"

section \<open>State\<close>

record WakeTimer =
  wt_dueAt :: rat
  wt_kind :: WakeTimerKind
  wt_delay :: rat

text \<open>A run that awaits the handler: its handler, its batch, the wake it waits for and those after it.\<close>

record WakeRun =
  wr_handler :: nat
  wr_batch :: "PendingWakeReason list"
  wr_current :: PendingWakeReason
  wr_rest :: "PendingWakeReason list"
  wr_delay :: rat

datatype WakeEvent = Requested string | Called string nat HeartbeatWakeRequest

record WakeState =
  hw_enabled :: bool
  hw_handler :: "nat option"
  hw_generation :: nat
  hw_pending :: "(string, PendingWakeReason) jsmap"
  hw_scheduled :: bool
  hw_running :: bool
  hw_timer :: "WakeTimer option"
  hw_runs :: "WakeRun option list"
  hw_log :: "WakeEvent list"

definition initial_wakes :: WakeState where
  "initial_wakes = \<lparr>hw_enabled = True, hw_handler = None, hw_generation = 0, hw_pending = [], hw_scheduled = False,
     hw_running = False, hw_timer = None, hw_runs = [], hw_log = []\<rparr>"

definition setHeartbeatsEnabled :: "bool \<Rightarrow> WakeState \<Rightarrow> WakeState" where
  "setHeartbeatsEnabled enabled s = s\<lparr>hw_enabled := enabled\<rparr>"

definition areHeartbeatsEnabled :: "WakeState \<Rightarrow> bool" where
  "areHeartbeatsEnabled s = hw_enabled s"

definition DEFAULT_COALESCE_MS :: rat where "DEFAULT_COALESCE_MS = 250"
definition DEFAULT_RETRY_MS :: rat where "DEFAULT_RETRY_MS = 1000"

definition REASON_PRIORITY_RETRY :: nat where "REASON_PRIORITY_RETRY = 0"
definition REASON_PRIORITY_INTERVAL :: nat where "REASON_PRIORITY_INTERVAL = 1"
definition REASON_PRIORITY_DEFAULT :: nat where "REASON_PRIORITY_DEFAULT = 2"
definition REASON_PRIORITY_ACTION :: nat where "REASON_PRIORITY_ACTION = 3"

definition resolveWakePriority :: "HeartbeatWakeSource \<Rightarrow> HeartbeatWakeIntent \<Rightarrow> string \<Rightarrow> nat" where
  "resolveWakePriority source intent reason =
    (if intent = ManualIntent \<or> intent = ImmediateIntent then REASON_PRIORITY_ACTION
     else if source = WsRetry \<or> reason = ''retry'' then REASON_PRIORITY_RETRY
     else if intent = ScheduledIntent \<or> source = WsInterval \<or> reason = ''interval'' then REASON_PRIORITY_INTERVAL
     else REASON_PRIORITY_DEFAULT)"

definition normalizeHeartbeatWakeReason :: "string option \<Rightarrow> string" where
  "normalizeHeartbeatWakeReason reason = or_else (normalizeOptionalString reason) ''requested''"

definition normalizeWakeTarget :: "string option \<Rightarrow> string option" where
  "normalizeWakeTarget value1 =
    (let trimmed = or_else (normalizeOptionalString value1) [] in if trimmed = [] then None else Some trimmed)"

definition getWakeTargetKey :: "string option \<Rightarrow> string option \<Rightarrow> string" where
  "getWakeTargetKey agentId sessionKey =
    or_else (normalizeWakeTarget agentId) [] @ [CHR '':'', CHR '':''] @ or_else (normalizeWakeTarget sessionKey) []"

section \<open>Queueing and scheduling\<close>

definition pending_wake :: "HeartbeatWakeRequest \<Rightarrow> rat \<Rightarrow> PendingWakeReason" where
  "pending_wake req requestedAt =
    (let normalizedReason = normalizeHeartbeatWakeReason (hr_reason req)
     in \<lparr>pw_source = hr_source req, pw_intent = hr_intent req, pw_reason = normalizedReason,
         pw_priority = resolveWakePriority (hr_source req) (hr_intent req) normalizedReason, pw_requestedAt = requestedAt,
         pw_agentId = normalizeWakeTarget (hr_agentId req), pw_sessionKey = normalizeWakeTarget (hr_sessionKey req),
         pw_heartbeat = hr_heartbeat req\<rparr>)"

text \<open>What becomes of the pending wake of a target when the next one comes in.\<close>

definition merge_wake :: "PendingWakeReason option \<Rightarrow> PendingWakeReason \<Rightarrow> PendingWakeReason" where
  "merge_wake previous next =
    (case previous of None \<Rightarrow> next
     | Some prev \<Rightarrow>
        (let merged = next\<lparr>pw_heartbeat := or_opt (pw_heartbeat next) (pw_heartbeat prev)\<rparr> in
         if pw_priority prev < pw_priority next then merged
         else if pw_priority next = pw_priority prev \<and> pw_requestedAt prev \<le> pw_requestedAt next then merged
         else prev))"

definition queuePendingWakeReason :: "HeartbeatWakeRequest \<Rightarrow> rat \<Rightarrow> WakeState \<Rightarrow> WakeState" where
  "queuePendingWakeReason req requestedAt s =
    (let wakeTargetKey = getWakeTargetKey (normalizeWakeTarget (hr_agentId req)) (normalizeWakeTarget (hr_sessionKey req));
         next = pending_wake req requestedAt
     in s\<lparr>hw_pending := jm_set wakeTargetKey (merge_wake (jm_get (hw_pending s) wakeTargetKey) next) (hw_pending s),
          hw_log := hw_log s @ [Requested wakeTargetKey]\<rparr>)"

definition schedule_wake :: "js_number \<Rightarrow> WakeTimerKind \<Rightarrow> rat \<Rightarrow> WakeState \<Rightarrow> WakeState" where
  "schedule_wake coalesceMs kind now s =
    (let delay = (case coalesceMs of Fin d \<Rightarrow> max 0 d | _ \<Rightarrow> DEFAULT_COALESCE_MS);
         dueAt = now + delay;
         new = s\<lparr>hw_timer := Some \<lparr>wt_dueAt = dueAt, wt_kind = kind, wt_delay = delay\<rparr>\<rparr>
     in case hw_timer s of
          None \<Rightarrow> new
        | Some t \<Rightarrow> if wt_kind t = RetryTimer then s
                    else if wt_dueAt t \<le> dueAt then s
                    else new)"

definition requestHeartbeat :: "HeartbeatWakeRequest \<Rightarrow> js_number option \<Rightarrow> rat \<Rightarrow> WakeState \<Rightarrow> WakeState" where
  "requestHeartbeat opts coalesceMs now s =
    schedule_wake (or_else coalesceMs (Fin DEFAULT_COALESCE_MS)) NormalTimer now (queuePendingWakeReason opts now s)"

section \<open>Runs\<close>

definition wake_opts :: "PendingWakeReason \<Rightarrow> HeartbeatWakeRequest" where
  "wake_opts w = \<lparr>hr_source = pw_source w, hr_intent = pw_intent w, hr_reason = Some (pw_reason w),
     hr_agentId = pw_agentId w, hr_sessionKey = pw_sessionKey w, hr_heartbeat = pw_heartbeat w\<rparr>"

definition wake_key :: "PendingWakeReason \<Rightarrow> string" where
  "wake_key w = getWakeTargetKey (pw_agentId w) (pw_sessionKey w)"

text \<open>The wake is queued again, with its reason.\<close>

definition requeue_wake :: "PendingWakeReason \<Rightarrow> rat \<Rightarrow> WakeState \<Rightarrow> WakeState" where
  "requeue_wake w now s = queuePendingWakeReason (wake_opts w) now s"

definition call_handler :: "nat \<Rightarrow> PendingWakeReason \<Rightarrow> WakeState \<Rightarrow> WakeState" where
  "call_handler h w s = s\<lparr>hw_log := hw_log s @ [Called (wake_key w) h (wake_opts w)]\<rparr>"

text \<open>The \<open>finally\<close> of a run.\<close>

definition end_run :: "rat \<Rightarrow> rat \<Rightarrow> WakeState \<Rightarrow> WakeState" where
  "end_run delay now s =
    (let s = s\<lparr>hw_running := False\<rparr> in
     if hw_pending s \<noteq> [] \<or> hw_scheduled s then schedule_wake (Fin delay) NormalTimer now s else s)"

text \<open>The timer fires.\<close>

definition fire_timer :: "rat \<Rightarrow> WakeState \<Rightarrow> WakeState" where
  "fire_timer now s =
    (case hw_timer s of None \<Rightarrow> s
     | Some t \<Rightarrow>
        (let s = s\<lparr>hw_timer := None, hw_scheduled := False\<rparr> in
         case hw_handler s of None \<Rightarrow> s
         | Some active \<Rightarrow>
            if hw_running s then schedule_wake (Fin (wt_delay t)) (wt_kind t) now (s\<lparr>hw_scheduled := True\<rparr>)
            else
             (let pendingBatch = jm_values (hw_pending s); s = s\<lparr>hw_pending := [], hw_running := True\<rparr> in
              case pendingBatch of
                [] \<Rightarrow> end_run (wt_delay t) now s
              | w # ws \<Rightarrow>
                  call_handler active w (s\<lparr>hw_runs := hw_runs s @ [Some \<lparr>wr_handler = active, wr_batch = pendingBatch,
                    wr_current = w, wr_rest = ws, wr_delay = wt_delay t\<rparr>]\<rparr>))))"

text \<open>The handler of run \<open>i\<close> settles: \<open>None\<close> is a rejection.\<close>

definition resume_run :: "nat \<Rightarrow> HeartbeatRunResult option \<Rightarrow> rat \<Rightarrow> WakeState \<Rightarrow> WakeState" where
  "resume_run i result now s =
    (if length (hw_runs s) \<le> i then s
     else case hw_runs s ! i of None \<Rightarrow> s
     | Some r \<Rightarrow>
        (case result of
           None \<Rightarrow>
             end_run (wr_delay r) now (schedule_wake (Fin DEFAULT_RETRY_MS) RetryTimer now
               (fold (\<lambda>w. requeue_wake w now) (wr_batch r) (s\<lparr>hw_runs := (hw_runs s)[i := None]\<rparr>)))
         | Some res \<Rightarrow>
            (let s = (case res of
                   HbSkipped reason \<Rightarrow>
                     if isRetryableHeartbeatBusySkipReason reason
                     then schedule_wake (Fin DEFAULT_RETRY_MS) RetryTimer now (requeue_wake (wr_current r) now s) else s
                 | _ \<Rightarrow> s)
             in case wr_rest r of
                  [] \<Rightarrow> end_run (wr_delay r) now (s\<lparr>hw_runs := (hw_runs s)[i := None]\<rparr>)
                | w # ws \<Rightarrow>
                    call_handler (wr_handler r) w (s\<lparr>hw_runs := (hw_runs s)[i := Some (r\<lparr>wr_current := w, wr_rest := ws\<rparr>)]\<rparr>))))"

section \<open>Handlers\<close>

text \<open>Returns the registration that its disposer clears: generation and handler.\<close>

definition setHeartbeatWakeHandler :: "nat option \<Rightarrow> rat \<Rightarrow> WakeState \<Rightarrow> (nat \<times> nat option) \<times> WakeState" where
  "setHeartbeatWakeHandler next now s =
    (let generation = hw_generation s + 1;
         s = s\<lparr>hw_generation := generation, hw_handler := next\<rparr>;
         s = (if next \<noteq> None then s\<lparr>hw_timer := None, hw_running := False, hw_scheduled := False\<rparr> else s);
         s = (if hw_handler s \<noteq> None \<and> hw_pending s \<noteq> [] then schedule_wake (Fin DEFAULT_COALESCE_MS) NormalTimer now s else s)
     in ((generation, next), s))"

definition dispose_handler :: "nat \<times> nat option \<Rightarrow> WakeState \<Rightarrow> WakeState" where
  "dispose_handler d s =
    (case d of (generation, next) \<Rightarrow>
      if hw_generation s \<noteq> generation then s
      else if hw_handler s \<noteq> next then s
      else s\<lparr>hw_generation := hw_generation s + 1, hw_handler := None\<rparr>)"

definition hasHeartbeatWakeHandler :: "WakeState \<Rightarrow> bool" where
  "hasHeartbeatWakeHandler s \<longleftrightarrow> hw_handler s \<noteq> None"

definition hasPendingHeartbeatWake :: "WakeState \<Rightarrow> bool" where
  "hasPendingHeartbeatWake s \<longleftrightarrow> hw_pending s \<noteq> [] \<or> hw_timer s \<noteq> None \<or> hw_scheduled s"

definition resetHeartbeatWakeStateForTests :: "WakeState \<Rightarrow> WakeState" where
  "resetHeartbeatWakeStateForTests s = s\<lparr>hw_timer := None, hw_pending := [], hw_scheduled := False, hw_running := False,
     hw_generation := hw_generation s + 1, hw_handler := None\<rparr>"

section \<open>Executions\<close>

text \<open>A timer fires when it is due, not necessarily at once; handlers settle at any time, in any order of the runs.\<close>

datatype WakeOp =
  WoRequest HeartbeatWakeRequest "js_number option" rat
| WoFire rat
| WoSettle nat "HeartbeatRunResult option" rat
| WoSetHandler "nat option" rat
| WoDispose "nat \<times> nat option"
| WoEnable bool

fun wake_op :: "WakeOp \<Rightarrow> WakeState \<Rightarrow> WakeState" where
  "wake_op (WoRequest req coalesceMs now) s = requestHeartbeat req coalesceMs now s"
| "wake_op (WoFire now) s =
     (case hw_timer s of None \<Rightarrow> s | Some t \<Rightarrow> if wt_dueAt t \<le> now then fire_timer now s else s)"
| "wake_op (WoSettle i result now) s = resume_run i result now s"
| "wake_op (WoSetHandler next now) s = snd (setHeartbeatWakeHandler next now s)"
| "wake_op (WoDispose d) s = dispose_handler d s"
| "wake_op (WoEnable b) s = setHeartbeatsEnabled b s"

definition wake_run :: "WakeOp list \<Rightarrow> WakeState" where
  "wake_run ops = fold wake_op ops initial_wakes"

inductive wake_step :: "WakeState \<Rightarrow> WakeState \<Rightarrow> bool" where
  wake_stepI: "wake_step s (wake_op op s)"

inductive_cases wake_stepE: "wake_step s t"

end
