(* ===== verification/HeartbeatWakeProps.thy ===== *)
theory HeartbeatWakeProps
  imports HeartbeatWake
begin

text \<open>
  What the wake-ups of the heartbeat promise: coalescing keeps the most urgent request of a target,
  no requested target is forgotten before the handler has been called for it, and with a handler in
  place pending wakes always have a timer or a run that will take care of them.
\<close>

section \<open>Coalescing\<close>

text \<open>The requests of one target, in the order of their times.\<close>

definition coalesced :: "(HeartbeatWakeRequest \<times> rat) list \<Rightarrow> PendingWakeReason option" where
  "coalesced rs = fold (\<lambda>(req, t) p. Some (merge_wake p (pending_wake req t))) rs None"

lemma coalesced_Nil: "coalesced [] = None" by (simp add: coalesced_def)

lemma coalesced_append: "coalesced (rs @ [(req, t)]) = Some (merge_wake (coalesced rs) (pending_wake req t))"
  by (simp add: coalesced_def)

definition prio :: "HeartbeatWakeRequest \<times> rat \<Rightarrow> nat" where
  "prio r = pw_priority (pending_wake (fst r) (snd r))"

text \<open>The last of the most urgent requests, but for its heartbeat target, which it may take from an earlier one.\<close>

definition most_urgent :: "(HeartbeatWakeRequest \<times> rat) list \<Rightarrow> HeartbeatWakeRequest \<times> rat" where
  "most_urgent rs = last (filter (\<lambda>r. prio r = Max (prio ` set rs)) rs)"

lemma most_urgent_single: "most_urgent [r] = r"
  by (simp add: most_urgent_def)

lemma most_urgent_snoc:
  assumes "rs \<noteq> []"
  shows "most_urgent (rs @ [r]) = (if prio (most_urgent rs) \<le> prio r then r else most_urgent rs)"
    and "prio (most_urgent rs) = Max (prio ` set rs)" and "most_urgent rs \<in> set rs"
proof -
  let ?m = "Max (prio ` set rs)"
  have "?m \<in> prio ` set rs" using assms by (intro Max_in) simp_all
  then have ne: "filter (\<lambda>r. prio r = ?m) rs \<noteq> []" by (auto simp: filter_empty_conv)
  then have "last (filter (\<lambda>r. prio r = ?m) rs) \<in> set (filter (\<lambda>r. prio r = ?m) rs)" by (rule last_in_set)
  then show p: "prio (most_urgent rs) = ?m" and "most_urgent rs \<in> set rs" by (simp_all add: most_urgent_def)
  have mx: "Max (insert (prio r) (prio ` set rs)) = max (prio r) ?m" using assms by (simp add: Max_insert)
  show "most_urgent (rs @ [r]) = (if prio (most_urgent rs) \<le> prio r then r else most_urgent rs)"
  proof (cases "?m \<le> prio r")
    case True
    then show ?thesis using p by (simp add: most_urgent_def mx max_absorb1)
  next
    case False
    then show ?thesis using p ne by (simp add: most_urgent_def mx max_absorb2)
  qed
qed

lemma pending_wake_time: "pw_requestedAt (pending_wake req t) = t"
  by (simp add: pending_wake_def Let_def)

lemma coalesced_is_most_urgent:
  assumes "rs \<noteq> []" "sorted (map snd rs)"
  shows "\<exists>hb. coalesced rs = Some ((pending_wake (fst (most_urgent rs)) (snd (most_urgent rs)))\<lparr>pw_heartbeat := hb\<rparr>)"
  using assms
proof (induction rs rule: rev_induct)
  case (snoc r rs)
  obtain req t where r: "r = (req, t)" by fastforce
  show ?case
  proof (cases "rs = []")
    case True
    then show ?thesis by (intro exI [of _ "hr_heartbeat req"])
        (simp add: r coalesced_def merge_wake_def most_urgent_single pending_wake_def Let_def)
  next
    case False
    obtain hb where ih: "coalesced rs = Some ((pending_wake (fst (most_urgent rs)) (snd (most_urgent rs)))\<lparr>pw_heartbeat := hb\<rparr>)"
      using snoc False by (auto simp: sorted_append)
    have le: "snd (most_urgent rs) \<le> t"
      using snoc.prems(2) most_urgent_snoc(3) [OF False] by (auto simp: sorted_append r)
    show ?thesis
    proof (cases "prio (most_urgent rs) \<le> prio r")
      case True
      then have "pw_priority (pending_wake (fst (most_urgent rs)) (snd (most_urgent rs))) \<le> pw_priority (pending_wake req t)"
        by (simp add: prio_def r)
      then show ?thesis using le True unfolding most_urgent_snoc(1) [OF False] r coalesced_append ih
        by (auto simp: merge_wake_def Let_def pending_wake_time)
    next
      case F: False
      then have "\<not> pw_priority (pending_wake (fst (most_urgent rs)) (snd (most_urgent rs))) \<le> pw_priority (pending_wake req t)"
        by (simp add: prio_def r)
      then show ?thesis using F unfolding most_urgent_snoc(1) [OF False] r coalesced_append ih
        by (auto simp: merge_wake_def Let_def)
    qed
  qed
qed simp

section \<open>Targets\<close>

lemma normalize_target_idem [simp]: "normalizeWakeTarget (normalizeWakeTarget v) = normalizeWakeTarget v"
  by (cases v) (auto simp: normalizeWakeTarget_def normalizeOptionalString_def Let_def)

lemma wake_key_normal [simp]: "getWakeTargetKey (normalizeWakeTarget a) (normalizeWakeTarget b) = getWakeTargetKey a b"
  by (simp add: getWakeTargetKey_def)

lemma key_of_pending [simp]: "wake_key (pending_wake req t) = getWakeTargetKey (hr_agentId req) (hr_sessionKey req)"
  by (simp add: wake_key_def pending_wake_def Let_def)

lemma key_of_merge: "(\<And>p. prev = Some p \<Longrightarrow> wake_key p = k) \<Longrightarrow> wake_key w = k \<Longrightarrow> wake_key (merge_wake prev w) = k"
  by (auto simp: merge_wake_def wake_key_def Let_def split: option.split)

lemma key_of_opts [simp]: "getWakeTargetKey (hr_agentId (wake_opts w)) (hr_sessionKey (wake_opts w)) = wake_key w"
  by (simp add: wake_opts_def wake_key_def)

section \<open>The invariant\<close>

text \<open>A target is awaited when it has been requested after the last call for it.\<close>

definition awaited :: "string \<Rightarrow> WakeEvent list \<Rightarrow> bool" where
  "awaited k es = fold (\<lambda>e a. case e of Requested k' \<Rightarrow> k' = k \<or> a | Called k' h r \<Rightarrow> k' \<noteq> k \<and> a) es False"

lemma awaited_simps [simp]:
  "\<not> awaited k []" "awaited k (es @ [Requested k']) \<longleftrightarrow> k' = k \<or> awaited k es"
  "awaited k (es @ [Called k' h r]) \<longleftrightarrow> k' \<noteq> k \<and> awaited k es"
  by (simp_all add: awaited_def)

definition still_to_call :: "WakeRun option list \<Rightarrow> string set" where
  "still_to_call rs = {wake_key w |w i r. i < length rs \<and> rs ! i = Some r \<and> w \<in> set (wr_rest r)}"

definition keyed :: "(string, PendingWakeReason) jsmap \<Rightarrow> bool" where
  "keyed m \<longleftrightarrow> list_all (\<lambda>(k, w). wake_key w = k) m"

abbreviation idle :: "WakeState \<Rightarrow> bool" where
  "idle s \<equiv> list_all (\<lambda>r. r = None) (hw_runs s)"

definition runs_ok :: "WakeRun option list \<Rightarrow> bool" where
  "runs_ok rs \<longleftrightarrow> (\<forall>i r. i < length rs \<longrightarrow> rs ! i = Some r \<longrightarrow> set (wr_rest r) \<subseteq> set (wr_batch r))"

lemma runs_okD: "runs_ok rs \<Longrightarrow> i < length rs \<Longrightarrow> rs ! i = Some r \<Longrightarrow> set (wr_rest r) \<subseteq> set (wr_batch r)"
  by (simp add: runs_ok_def)

lemma runs_ok_Nil [simp]: "runs_ok []"
  by (simp add: runs_ok_def)

lemma runs_ok_update: "runs_ok rs \<Longrightarrow> (\<And>r. x = Some r \<Longrightarrow> set (wr_rest r) \<subseteq> set (wr_batch r)) \<Longrightarrow> runs_ok (rs[i := x])"
proof -
  assume r: "runs_ok rs" "\<And>r. x = Some r \<Longrightarrow> set (wr_rest r) \<subseteq> set (wr_batch r)"
  have "set (wr_rest q) \<subseteq> set (wr_batch q)" if "j < length (rs[i := x])" "rs[i := x] ! j = Some q" for j q
    using that r runs_okD [OF r(1), of j q] by (cases "j = i") simp_all
  then show ?thesis by (simp add: runs_ok_def)
qed

lemma runs_ok_snoc: "runs_ok rs \<Longrightarrow> set (wr_rest r) \<subseteq> set (wr_batch r) \<Longrightarrow> runs_ok (rs @ [Some r])"
  by (auto simp: runs_ok_def nth_append less_Suc_eq)

definition no_wake_lost :: "WakeState \<Rightarrow> bool" where
  "no_wake_lost s \<longleftrightarrow> keyed (hw_pending s)
     \<and> {k. awaited k (hw_log s)} \<subseteq> fst ` set (hw_pending s) \<union> still_to_call (hw_runs s)
     \<and> runs_ok (hw_runs s)"

definition taken_care :: "WakeState \<Rightarrow> bool" where
  "taken_care s \<longleftrightarrow> \<not> (hw_handler s \<noteq> None \<and> hw_pending s \<noteq> [] \<and> hw_timer s = None \<and> idle s) \<and> \<not> (hw_running s \<and> idle s)"

definition wake_inv :: "WakeState \<Rightarrow> bool" where
  "wake_inv s \<longleftrightarrow> no_wake_lost s \<and> taken_care s"

lemma still_to_call_snoc: "still_to_call (rs @ [Some r]) = still_to_call rs \<union> wake_key ` set (wr_rest r)"
  unfolding still_to_call_def by (auto simp: nth_append less_Suc_eq split: if_splits) fastforce+

lemma still_to_call_update:
  assumes "i < length rs" "rs ! i = Some r"
  shows "still_to_call rs \<subseteq> still_to_call (rs[i := None]) \<union> wake_key ` set (wr_rest r)"
    and "still_to_call (rs[i := None]) \<union> wake_key ` set (wr_rest r') \<subseteq> still_to_call (rs[i := Some r'])"
proof -
  show "still_to_call rs \<subseteq> still_to_call (rs[i := None]) \<union> wake_key ` set (wr_rest r)"
  proof
    fix k assume "k \<in> still_to_call rs"
    then obtain w j q where "k = wake_key w" "j < length rs" "rs ! j = Some q" "w \<in> set (wr_rest q)"
      by (auto simp: still_to_call_def)
    then show "k \<in> still_to_call (rs[i := None]) \<union> wake_key ` set (wr_rest r)"
      using assms by (cases "j = i") (auto simp: still_to_call_def intro!: exI [of _ w] exI [of _ j])
  qed
  show "still_to_call (rs[i := None]) \<union> wake_key ` set (wr_rest r') \<subseteq> still_to_call (rs[i := Some r'])"
  proof
    fix k assume "k \<in> still_to_call (rs[i := None]) \<union> wake_key ` set (wr_rest r')"
    then show "k \<in> still_to_call (rs[i := Some r'])"
    proof
      assume "k \<in> still_to_call (rs[i := None])"
      then obtain w j q where w: "k = wake_key w" "j < length rs" "rs[i := None] ! j = Some q" "w \<in> set (wr_rest q)"
        by (auto simp: still_to_call_def)
      then have "j \<noteq> i" using assms(1) by auto
      then show ?thesis using w by (auto simp: still_to_call_def intro!: exI [of _ w] exI [of _ j])
    next
      assume "k \<in> wake_key ` set (wr_rest r')"
      then obtain w where "k = wake_key w" "w \<in> set (wr_rest r')" by blast
      then show ?thesis using assms(1) by (auto simp: still_to_call_def intro!: exI [of _ w] exI [of _ i])
    qed
  qed
qed

text \<open>Scheduling changes the timer only; after it there is one.\<close>

lemma schedule_fields [simp]:
  "hw_pending (schedule_wake c k now s) = hw_pending s" "hw_log (schedule_wake c k now s) = hw_log s"
  "hw_runs (schedule_wake c k now s) = hw_runs s" "hw_handler (schedule_wake c k now s) = hw_handler s"
  "hw_running (schedule_wake c k now s) = hw_running s" "hw_scheduled (schedule_wake c k now s) = hw_scheduled s"
  "hw_timer (schedule_wake c k now s) \<noteq> None"
  by (simp_all add: schedule_wake_def Let_def split: option.split)

lemma retry_timer_kept: "hw_timer s = Some t \<Longrightarrow> wt_kind t = RetryTimer \<Longrightarrow> schedule_wake c k now s = s"
  by (simp add: schedule_wake_def Let_def)

lemma queue_fields [simp]:
  "hw_runs (queuePendingWakeReason req now s) = hw_runs s" "hw_handler (queuePendingWakeReason req now s) = hw_handler s"
  "hw_timer (queuePendingWakeReason req now s) = hw_timer s" "hw_running (queuePendingWakeReason req now s) = hw_running s"
  by (simp_all add: queuePendingWakeReason_def Let_def)

lemma no_wake_lost_cong:
  "hw_pending s = hw_pending t \<Longrightarrow> hw_log s = hw_log t \<Longrightarrow> hw_runs s = hw_runs t \<Longrightarrow> no_wake_lost s = no_wake_lost t"
  by (simp add: no_wake_lost_def)

lemma keyed_get: "keyed m \<Longrightarrow> jm_get m k = Some w \<Longrightarrow> wake_key w = k"
  using jm_get_SomeD by (fastforce simp: keyed_def list_all_iff)

lemma keyed_set: "keyed m \<Longrightarrow> wake_key w = k \<Longrightarrow> keyed (jm_set k w m)"
  using in_jm_setD by (fastforce simp: keyed_def list_all_iff)

lemma no_wake_lost_queue:
  assumes "no_wake_lost s" shows "no_wake_lost (queuePendingWakeReason req now s)"
proof -
  let ?k = "getWakeTargetKey (hr_agentId req) (hr_sessionKey req)"
  have "keyed (hw_pending s)" using assms by (simp add: no_wake_lost_def)
  then have "keyed (jm_set ?k (merge_wake (jm_get (hw_pending s) ?k) (pending_wake req now)) (hw_pending s))"
    by (intro keyed_set key_of_merge) (auto dest: keyed_get)
  then show ?thesis using assms
    by (auto simp: no_wake_lost_def queuePendingWakeReason_def Let_def)
qed

lemma requeue_fields [simp]:
  "hw_runs (requeue_wake w now s) = hw_runs s" "hw_handler (requeue_wake w now s) = hw_handler s"
  by (simp_all add: requeue_wake_def)

lemma queue_pending:
  "fst ` set (hw_pending (queuePendingWakeReason req now s)) =
     insert (getWakeTargetKey (hr_agentId req) (hr_sessionKey req)) (fst ` set (hw_pending s))"
  "awaited k (hw_log (queuePendingWakeReason req now s)) \<longleftrightarrow>
     getWakeTargetKey (hr_agentId req) (hr_sessionKey req) = k \<or> awaited k (hw_log s)"
  by (simp_all add: queuePendingWakeReason_def Let_def)

lemma keyed_queue: "keyed (hw_pending s) \<Longrightarrow> keyed (hw_pending (queuePendingWakeReason req now s))"
  by (auto simp: queuePendingWakeReason_def Let_def intro!: keyed_set key_of_merge dest: keyed_get)

lemma requeue_all:
  "keyed (hw_pending s) \<Longrightarrow> keyed (hw_pending (fold (\<lambda>w. requeue_wake w now) ws s))"
  "fst ` set (hw_pending (fold (\<lambda>w. requeue_wake w now) ws s)) = wake_key ` set ws \<union> fst ` set (hw_pending s)"
  "awaited k (hw_log (fold (\<lambda>w. requeue_wake w now) ws s)) \<longleftrightarrow> k \<in> wake_key ` set ws \<or> awaited k (hw_log s)"
  "hw_runs (fold (\<lambda>w. requeue_wake w now) ws s) = hw_runs s"
  by (induction ws arbitrary: s) (auto simp: requeue_wake_def keyed_queue queue_pending)

lemma end_run_fields [simp]:
  "no_wake_lost (end_run d now s) = no_wake_lost s" "hw_runs (end_run d now s) = hw_runs s"
  by (auto simp: end_run_def Let_def no_wake_lost_def)

lemma taken_care_end_run: "taken_care (end_run d now s)"
  by (auto simp: end_run_def Let_def taken_care_def)

lemma taken_care_busy: "\<not> idle s \<Longrightarrow> taken_care s"
  by (simp add: taken_care_def)

section \<open>Every operation keeps it\<close>

lemma inv_request: "wake_inv s \<Longrightarrow> wake_inv (requestHeartbeat req c now s)"
proof -
  assume i: "wake_inv s"
  let ?q = "queuePendingWakeReason req now s"
  have "no_wake_lost (requestHeartbeat req c now s) = no_wake_lost ?q"
    by (rule no_wake_lost_cong) (simp_all add: requestHeartbeat_def)
  then show ?thesis using i no_wake_lost_queue [of s req now] by (simp add: wake_inv_def taken_care_def requestHeartbeat_def)
qed

lemma keys_of_values: "keyed m \<Longrightarrow> wake_key ` set (jm_values m) = fst ` set m"
  by (force simp: keyed_def list_all_iff jm_values_def)

lemma inv_fire: "wake_inv s \<Longrightarrow> wake_inv (fire_timer now s)"
proof -
  assume i: "wake_inv s"
  then have n: "no_wake_lost s" and t: "taken_care s" by (simp_all add: wake_inv_def)
  show ?thesis
  proof (cases "hw_timer s")
    case None
    then show ?thesis using i by (simp add: fire_timer_def)
  next
    case (Some tm)
    let ?s = "s\<lparr>hw_timer := None, hw_scheduled := False\<rparr>"
    have n1: "no_wake_lost ?s" using n by (simp add: no_wake_lost_def)
    show ?thesis
    proof (cases "hw_handler s")
      case None
      then have "taken_care ?s" using t by (simp add: taken_care_def)
      then show ?thesis using None Some n1 by (simp add: fire_timer_def wake_inv_def)
    next
      case (Some h)
      show ?thesis
      proof (cases "hw_running s")
        case True
        then have "fire_timer now s = schedule_wake (Fin (wt_delay tm)) (wt_kind tm) now (?s\<lparr>hw_scheduled := True\<rparr>)"
          using \<open>hw_timer s = Some tm\<close> Some by (simp add: fire_timer_def)
        then show ?thesis using n t by (simp add: wake_inv_def no_wake_lost_def taken_care_def)
      next
        case False
        have keyed: "keyed (hw_pending s)" using n by (simp add: no_wake_lost_def)
        show ?thesis
        proof (cases "jm_values (hw_pending s)")
          case Nil
          then have "hw_pending s = []" by (simp add: jm_values_def)
          then have "no_wake_lost (?s\<lparr>hw_pending := [], hw_running := True\<rparr>)" using n by (simp add: no_wake_lost_def)
          then show ?thesis using Nil False Some \<open>hw_timer s = Some tm\<close>
            by (simp add: fire_timer_def Let_def wake_inv_def taken_care_end_run)
        next
          case (Cons w ws)
          let ?r = "\<lparr>wr_handler = h, wr_batch = w # ws, wr_current = w, wr_rest = ws, wr_delay = wt_delay tm\<rparr>"
          have f: "fire_timer now s = call_handler h w (?s\<lparr>hw_pending := [], hw_running := True, hw_runs := hw_runs s @ [Some ?r]\<rparr>)"
            using Cons False Some \<open>hw_timer s = Some tm\<close> by (simp add: fire_timer_def Let_def)
          have "fst ` set (hw_pending s) = insert (wake_key w) (wake_key ` set ws)"
            using keys_of_values [OF keyed] Cons by simp
          then have "{k. awaited k (hw_log s)} - {wake_key w} \<subseteq> still_to_call (hw_runs s @ [Some ?r])"
            using n by (auto simp: no_wake_lost_def still_to_call_snoc)
          then have "no_wake_lost (fire_timer now s)" unfolding f using n
            by (auto simp: no_wake_lost_def call_handler_def keyed_def intro!: runs_ok_snoc)
          moreover have "\<not> idle (fire_timer now s)" unfolding f by (simp add: call_handler_def)
          ultimately show ?thesis using taken_care_busy by (simp add: wake_inv_def)
        qed
      qed
    qed
  qed
qed

lemma inv_settle: "wake_inv s \<Longrightarrow> wake_inv (resume_run i result now s)"
proof -
  assume iv: "wake_inv s"
  then have n: "no_wake_lost s" by (simp add: wake_inv_def)
  show ?thesis
  proof (cases "i < length (hw_runs s) \<and> hw_runs s ! i \<noteq> None")
    case False
    then show ?thesis using iv by (auto simp: resume_run_def split: option.split)
  next
    case True
    then obtain r where i: "i < length (hw_runs s)" "hw_runs s ! i = Some r" by blast
    note upd = still_to_call_update [OF i]
    have rest: "set (wr_rest r) \<subseteq> set (wr_batch r)" using n runs_okD [OF _ i] by (simp add: no_wake_lost_def)
    have runs: "runs_ok (hw_runs s)" using n by (simp add: no_wake_lost_def)
    then have ended: "runs_ok ((hw_runs s)[i := None])" by (rule runs_ok_update) simp
    show ?thesis
    proof (cases result)
      case None
      let ?s = "s\<lparr>hw_runs := (hw_runs s)[i := None]\<rparr>"
      let ?q = "fold (\<lambda>w. requeue_wake w now) (wr_batch r) ?s"
      have q: "fst ` set (hw_pending ?q) = wake_key ` set (wr_batch r) \<union> fst ` set (hw_pending s)"
        "\<And>k. awaited k (hw_log ?q) \<longleftrightarrow> k \<in> wake_key ` set (wr_batch r) \<or> awaited k (hw_log s)"
        "hw_runs ?q = (hw_runs s)[i := None]"
        by (simp_all add: requeue_all)
      have "keyed (hw_pending ?q)" using n by (intro requeue_all) (simp add: no_wake_lost_def)
      moreover have "still_to_call (hw_runs s) \<subseteq> still_to_call ((hw_runs s)[i := None]) \<union> wake_key ` set (wr_batch r)"
        using upd(1) image_mono [OF rest, of wake_key] by (rule order_trans [OF _ Un_mono [OF order_refl]])
      then have "{k. awaited k (hw_log ?q)} \<subseteq> fst ` set (hw_pending ?q) \<union> still_to_call (hw_runs ?q)"
        using n unfolding no_wake_lost_def q by blast
      moreover have "runs_ok (hw_runs ?q)" using ended by (simp only: q(3))
      ultimately have "no_wake_lost ?q" by (simp add: no_wake_lost_def)
      moreover have "resume_run i result now s = end_run (wr_delay r) now (schedule_wake (Fin DEFAULT_RETRY_MS) RetryTimer now ?q)"
        using i None by (simp add: resume_run_def)
      moreover have "no_wake_lost (schedule_wake (Fin DEFAULT_RETRY_MS) RetryTimer now ?q) = no_wake_lost ?q"
        by (rule no_wake_lost_cong) simp_all
      ultimately show ?thesis by (simp add: wake_inv_def taken_care_end_run)
    next
      case (Some res)
      define t where "t = (case res of
          HbSkipped reason \<Rightarrow>
            if isRetryableHeartbeatBusySkipReason reason
            then schedule_wake (Fin DEFAULT_RETRY_MS) RetryTimer now (requeue_wake (wr_current r) now s) else s
        | _ \<Rightarrow> s)"
      have t: "no_wake_lost t" "hw_runs t = hw_runs s"
        using n no_wake_lost_queue [OF n, of "wake_opts (wr_current r)" now]
        by (auto simp: t_def requeue_wake_def no_wake_lost_def split: HeartbeatRunResult.split)
      show ?thesis
      proof (cases "wr_rest r")
        case Nil
        then have "resume_run i result now s = end_run (wr_delay r) now (t\<lparr>hw_runs := (hw_runs t)[i := None]\<rparr>)"
          using i Some by (simp add: resume_run_def Let_def t_def [symmetric])
        moreover have "no_wake_lost (t\<lparr>hw_runs := (hw_runs t)[i := None]\<rparr>)"
          using t upd(1) Nil ended by (auto simp: no_wake_lost_def)
        ultimately show ?thesis by (simp add: wake_inv_def taken_care_end_run)
      next
        case (Cons w ws)
        let ?r = "r\<lparr>wr_current := w, wr_rest := ws\<rparr>"
        have r: "resume_run i result now s = call_handler (wr_handler r) w (t\<lparr>hw_runs := (hw_runs t)[i := Some ?r]\<rparr>)"
          using i Some Cons by (simp add: resume_run_def Let_def t_def [symmetric])
        have "still_to_call (hw_runs t) - {wake_key w} \<subseteq> still_to_call ((hw_runs t)[i := Some ?r])"
          using upd(1) upd(2) [of ?r] Cons by (auto simp: t(2))
        moreover have "runs_ok ((hw_runs t)[i := Some ?r])" unfolding t(2) using rest Cons by (intro runs_ok_update [OF runs]) auto
        ultimately have "no_wake_lost (resume_run i result now s)" unfolding r using t(1)
          by (auto simp: no_wake_lost_def call_handler_def)
        moreover have "\<not> idle (resume_run i result now s)" unfolding r using i
          by (auto simp: call_handler_def list_all_length t(2))
        ultimately show ?thesis using taken_care_busy by (simp add: wake_inv_def)
      qed
    qed
  qed
qed

lemma inv_handler: "wake_inv s \<Longrightarrow> wake_inv (snd (setHeartbeatWakeHandler next now s))"
  by (auto simp: setHeartbeatWakeHandler_def wake_inv_def no_wake_lost_def taken_care_def Let_def)

lemma inv_dispose: "wake_inv s \<Longrightarrow> wake_inv (dispose_handler d s)"
  by (auto simp: dispose_handler_def wake_inv_def no_wake_lost_def taken_care_def split: prod.split)

interpretation wakes: transition_system "\<lambda>s. s = initial_wakes" wake_step wake_inv
proof
  show "s = initial_wakes \<Longrightarrow> wake_inv s" for s
    by (simp add: initial_wakes_def wake_inv_def no_wake_lost_def taken_care_def keyed_def)
  show "wake_inv s \<Longrightarrow> wake_step s t \<Longrightarrow> wake_inv t" for s t
  proof (elim wake_stepE)
    fix op assume i: "wake_inv s" and "t = wake_op op s"
    moreover have "wake_inv (setHeartbeatsEnabled b s)" for b
      using i by (simp add: setHeartbeatsEnabled_def wake_inv_def no_wake_lost_def taken_care_def)
    ultimately show "wake_inv t"
      by (cases op) (simp_all add: inv_request inv_settle inv_handler inv_dispose inv_fire split: option.split)
  qed
qed

lemma wake_reachable: "reachable_from (\<lambda>s. s = initial_wakes) wake_step (wake_run ops)"
  unfolding wake_run_def
proof (induction ops rule: rev_induct)
  case Nil
  show ?case by (simp add: reach_start)
next
  case (snoc op ops)
  show ?case by (simp add: reach_step [OF snoc.IH wake_stepI])
qed

lemma wake_run_inv: "wake_inv (wake_run ops)"
  by (rule wakes.reachable_inv [OF wake_reachable])

section \<open>A run to its end\<close>

definition call_event :: "nat \<Rightarrow> PendingWakeReason \<Rightarrow> WakeEvent" where
  "call_event h w = Called (wake_key w) h (wake_opts w)"

lemma run_to_end:
  assumes "i < length (hw_runs u)" "hw_runs u ! i = Some r" "wr_rest r = ws" "hw_pending u = []" "\<not> hw_scheduled u"
  shows "let v = (resume_run i (Some (HbRan d)) now ^^ Suc (length ws)) u in
    hw_log v = hw_log u @ map (call_event (wr_handler r)) ws \<and> hw_pending v = [] \<and> hw_runs v = (hw_runs u)[i := None] \<and> \<not> hw_running v"
  using assms
proof (induction ws arbitrary: u r)
  case Nil
  then show ?case by (simp add: resume_run_def end_run_def Let_def)
next
  case (Cons w ws)
  let ?r = "r\<lparr>wr_current := w, wr_rest := ws\<rparr>"
  let ?u = "call_handler (wr_handler r) w (u\<lparr>hw_runs := (hw_runs u)[i := Some ?r]\<rparr>)"
  have u: "resume_run i (Some (HbRan d)) now u = ?u" using Cons.prems by (simp add: resume_run_def Let_def)
  have all: "(resume_run i (Some (HbRan d)) now ^^ Suc (length (w # ws))) u = (resume_run i (Some (HbRan d)) now ^^ Suc (length ws)) ?u"
    unfolding u [symmetric] by (simp add: funpow_swap1)
  have "i < length (hw_runs ?u)" "hw_runs ?u ! i = Some ?r" "wr_rest ?r = ws" "hw_pending ?u = []" "\<not> hw_scheduled ?u"
    using Cons.prems by (simp_all add: call_handler_def)
  note ih = Cons.IH [OF this]
  show ?case unfolding all using ih Cons.prems(1)
    by (simp add: Let_def call_handler_def call_event_def del: funpow.simps)
qed

section \<open>Properties\<close>

text \<open>C34: No requested wake is forgotten: a target that was requested after the last call for it is still
  pending or still to be called in a run that is under way - through coalescing, busy and failing handlers,
  and replaced handlers.\<close>

theorem requested_wakes_not_forgotten:
  "{k. awaited k (hw_log (wake_run ops))}
   \<subseteq> {k. jm_get (hw_pending (wake_run ops)) k \<noteq> None}
     \<union> {wake_key w |w i r. i < length (hw_runs (wake_run ops)) \<and> hw_runs (wake_run ops) ! i = Some r \<and> w \<in> set (wr_rest r)}"
proof -
  have "no_wake_lost (wake_run ops)" using wake_run_inv by (simp add: wake_inv_def)
  then have "{k. awaited k (hw_log (wake_run ops))} \<subseteq> fst ` set (hw_pending (wake_run ops)) \<union> still_to_call (hw_runs (wake_run ops))"
    by (simp add: no_wake_lost_def)
  moreover have "fst ` set m \<subseteq> {k. jm_get m k \<noteq> None}" for m :: "(string, PendingWakeReason) jsmap"
    by (auto simp: map_of_eq_None_iff)
  ultimately show ?thesis unfolding still_to_call_def by blast
qed

text \<open>Pending wakes never strand: while a handler is registered and something is pending, a timer is
  armed or a run is under way; and whenever no run is under way, the flag that would keep a timer from
  starting one is clear. Any order of requests, timers, settling handlers and registrations keeps it so.\<close>

lemma pending_wakes_taken_care_of:
  "\<not> (hasHeartbeatWakeHandler (wake_run ops) \<and> hw_pending (wake_run ops) \<noteq> [] \<and> hw_timer (wake_run ops) = None \<and> idle (wake_run ops))
   \<and> \<not> (hw_running (wake_run ops) \<and> idle (wake_run ops))"
  using wake_run_inv [of ops] by (simp add: wake_inv_def taken_care_def hasHeartbeatWakeHandler_def)

text \<open>A due timer delivers: with a handler and no run under way, a firing timer and one settled call per
  pending wake hand all pending wakes to the handler, in the order of the queue, and leave nothing pending.\<close>

lemma due_timer_delivers:
  assumes "hw_handler (wake_run ops) = Some h" "hw_timer (wake_run ops) = Some t" "wt_dueAt t \<le> now" "idle (wake_run ops)"
  shows "let s = wake_run ops; ws = jm_values (hw_pending s);
             v = (resume_run (length (hw_runs s)) (Some (HbRan d)) now ^^ length ws) (wake_op (WoFire now) s)
         in hw_log v = hw_log s @ map (call_event h) ws \<and> hw_pending v = [] \<and> idle v \<and> \<not> hw_running v"
proof -
  let ?s = "wake_run ops"
  have run: "\<not> hw_running ?s" using wake_run_inv [of ops] assms(4) by (simp add: wake_inv_def taken_care_def)
  show ?thesis
  proof (cases "jm_values (hw_pending ?s)")
    case Nil
    then have "hw_pending ?s = []" by (simp add: jm_values_def)
    then show ?thesis using assms run Nil by (simp add: fire_timer_def end_run_def Let_def)
  next
    case (Cons w ws)
    let ?r = "\<lparr>wr_handler = h, wr_batch = w # ws, wr_current = w, wr_rest = ws, wr_delay = wt_delay t\<rparr>"
    let ?u = "wake_op (WoFire now) ?s"
    have u: "?u = call_handler h w (?s\<lparr>hw_timer := None, hw_scheduled := False, hw_pending := [], hw_running := True, hw_runs := hw_runs ?s @ [Some ?r]\<rparr>)"
      using assms run Cons by (simp add: fire_timer_def Let_def)
    have "length (hw_runs ?s) < length (hw_runs ?u)" "hw_runs ?u ! length (hw_runs ?s) = Some ?r" "wr_rest ?r = ws"
        "hw_pending ?u = []" "\<not> hw_scheduled ?u"
      unfolding u by (simp_all add: call_handler_def)
    note v = run_to_end [OF this, of d now]
    moreover have "hw_log ?u = hw_log ?s @ [call_event h w]" unfolding u by (simp add: call_handler_def call_event_def)
    moreover have "hw_runs ?u = hw_runs ?s @ [Some ?r]" unfolding u by (simp add: call_handler_def)
    ultimately show ?thesis using Cons assms(4) by (simp add: Let_def del: funpow.simps wake_op.simps)
  qed
qed

text \<open>Coalescing keeps what matters: of the requests of one target, in the order of their times, the pending
  wake is the last of the most urgent ones; only its heartbeat target may come from an earlier one.\<close>

lemma coalescing_keeps_most_urgent:
  assumes "rs \<noteq> []" "sorted (map snd rs)" "list_all (\<lambda>r. getWakeTargetKey (hr_agentId (fst r)) (hr_sessionKey (fst r)) = k) rs"
    and "jm_get (hw_pending s) k = None"
  shows "\<exists>hb. jm_get (hw_pending (fold (\<lambda>(req, t). queuePendingWakeReason req t) rs s)) k
    = Some ((pending_wake (fst (most_urgent rs)) (snd (most_urgent rs)))\<lparr>pw_heartbeat := hb\<rparr>)"
proof -
  have "jm_get (hw_pending (fold (\<lambda>(req, t). queuePendingWakeReason req t) rs s)) k = coalesced rs"
    using assms(3,4)
  proof (induction rs rule: rev_induct)
    case Nil
    then show ?case by (simp add: coalesced_Nil)
  next
    case (snoc r rs)
    then show ?case by (cases r) (simp add: queuePendingWakeReason_def Let_def coalesced_append)
  qed
  then show ?thesis using coalesced_is_most_urgent [OF assms(1,2)] by simp
qed

section \<open>Concrete runs\<close>

definition sample_wake :: "string \<Rightarrow> HeartbeatWakeIntent \<Rightarrow> HeartbeatWakeRequest" where
  "sample_wake agent intent = \<lparr>hr_source = WsOther, hr_intent = intent, hr_reason = None, hr_agentId = Some agent,
     hr_sessionKey = None, hr_heartbeat = None\<rparr>"

lemma due_timer_delivers_witness:
  "let s = wake_run [WoSetHandler (Some 7) 0, WoRequest (sample_wake ''a'' EventIntent) None 1, WoRequest (sample_wake ''b'' EventIntent) None 2];
       v = (resume_run 0 (Some (HbRan 3)) 300 ^^ 2) (wake_op (WoFire 300) s)
   in length (hw_log s) = 2 \<and> length (hw_log v) = 4 \<and> hw_pending v = []"
proof -
  let ?s = "wake_run [WoSetHandler (Some 7) 0, WoRequest (sample_wake ''a'' EventIntent) None 1, WoRequest (sample_wake ''b'' EventIntent) None 2]"
  let ?t = "\<lparr>wt_dueAt = 251, wt_kind = NormalTimer, wt_delay = 250\<rparr>"
  have h: "hw_handler ?s = Some 7" "hw_timer ?s = Some ?t" "idle ?s" by (code_simp, code_simp, code_simp)
  have n: "length (hw_runs ?s) = 0" "length (jm_values (hw_pending ?s)) = 2" "length (hw_log ?s) = 2" by (code_simp, code_simp, code_simp)
  have "wt_dueAt ?t \<le> 300" by simp
  from due_timer_delivers [OF h(1,2) this h(3), of 3] show ?thesis using n by (simp add: Let_def)
qed

lemma coalescing_keeps_most_urgent_witness:
  "\<exists>hb. jm_get (hw_pending (fold (\<lambda>(req, t). queuePendingWakeReason req t)
      [(sample_wake ''a'' ManualIntent, 1), (sample_wake ''a'' EventIntent, 2)] initial_wakes)) ''a::''
    = Some ((pending_wake (sample_wake ''a'' ManualIntent) 1)\<lparr>pw_heartbeat := hb\<rparr>)"
proof -
  let ?rs = "[(sample_wake ''a'' ManualIntent, 1), (sample_wake ''a'' EventIntent, 2 :: rat)]"
  have m: "most_urgent ?rs = (sample_wake ''a'' ManualIntent, 1)"
    by (simp add: most_urgent_def prio_def pending_wake_def Let_def resolveWakePriority_def sample_wake_def
        REASON_PRIORITY_ACTION_def REASON_PRIORITY_DEFAULT_def REASON_PRIORITY_RETRY_def REASON_PRIORITY_INTERVAL_def)
  have k: "getWakeTargetKey (Some ''a'') None = ''a::''" by code_simp
  have "\<exists>hb. jm_get (hw_pending (fold (\<lambda>(req, t). queuePendingWakeReason req t) ?rs initial_wakes)) ''a::''
    = Some ((pending_wake (fst (most_urgent ?rs)) (snd (most_urgent ?rs)))\<lparr>pw_heartbeat := hb\<rparr>)"
    by (rule coalescing_keeps_most_urgent) (simp_all add: sample_wake_def k initial_wakes_def)
  then show ?thesis unfolding m by simp
qed

text \<open>
  A finding: when a handler is replaced while a run of the old one is under way, the end of that old run clears
  the flag of the new handler's run, and a second run of the new handler starts beside it.
\<close>

lemma stale_run_breaks_exclusion:
  "let s = wake_run [WoSetHandler (Some 1) 0, WoRequest (sample_wake ''a'' EventIntent) None 0, WoFire 300,
       WoSetHandler (Some 2) 400, WoRequest (sample_wake ''b'' EventIntent) None 400, WoFire 700,
       WoSettle 0 (Some (HbRan 1)) 800, WoRequest (sample_wake ''c'' EventIntent) None 900, WoFire 1200]
   in map (map_option wr_handler) (hw_runs s) = [None, Some 2, Some 2]"
  by code_simp

end
