(* ===== verification/ToolCatalog.thy ===== *)
theory ToolCatalog
  imports JsString JsMap
begin

text \<open>
  The catalog of core tools (src/src/agents/tool-catalog.ts): sections, profiles and the groups of
  tools a policy can name, with the summaries of src/src/agents/tool-description-presets.ts.
\<close>

section \<open>The catalog\<close>

datatype ToolProfileId = Minimal | Coding | Messaging | Full

record CoreToolDefinition =
  ct_id :: string
  ct_label :: string
  ct_description :: string
  ct_sectionId :: string
  ct_profiles :: "ToolProfileId list"
  ct_includeInGroup :: bool

definition core_tool :: "string \<Rightarrow> string \<Rightarrow> string \<Rightarrow> string \<Rightarrow> ToolProfileId list \<Rightarrow> bool \<Rightarrow> CoreToolDefinition" where
  "core_tool i l d s ps inc =
    \<lparr>ct_id = i, ct_label = l, ct_description = d, ct_sectionId = s, ct_profiles = ps, ct_includeInGroup = inc\<rparr>"

definition CORE_TOOL_SECTION_ORDER :: "(string \<times> string) list" where
  "CORE_TOOL_SECTION_ORDER =
    [(''fs'', ''Files''), (''runtime'', ''Runtime''), (''web'', ''Web''), (''memory'', ''Memory''), (''sessions'', ''Sessions''), (''ui'', ''UI''), (''messaging'', ''Messaging''), (''automation'', ''Automation''), (''nodes'', ''Nodes''), (''agents'', ''Agents''), (''media'', ''Media'')]"

text \<open>The table in two parts, the first with the tools of the workspace, the web and sessions.\<close>

definition core_tools_until_sessions :: "CoreToolDefinition list" where
  "core_tools_until_sessions = [
    core_tool ''read'' ''read'' ''Read file contents'' ''fs'' [Coding] False,
    core_tool ''write'' ''write'' ''Create or overwrite files'' ''fs'' [Coding] False,
    core_tool ''edit'' ''edit'' ''Make precise edits'' ''fs'' [Coding] False,
    core_tool ''apply_patch'' ''apply_patch'' ''Patch files'' ''fs'' [Coding] False,
    core_tool ''exec'' ''exec'' ''Run shell now.'' ''runtime'' [Coding] False,
    core_tool ''process'' ''process'' ''Inspect/control exec sessions.'' ''runtime'' [Coding] False,
    core_tool ''code_execution'' ''code_execution'' ''Run sandboxed remote analysis'' ''runtime'' [Coding] True,
    core_tool ''web_search'' ''web_search'' ''Search the web'' ''web'' [Coding] True,
    core_tool ''web_fetch'' ''web_fetch'' ''Fetch web content'' ''web'' [Coding] True,
    core_tool ''x_search'' ''x_search'' ''Search X posts'' ''web'' [Coding] True,
    core_tool ''memory_search'' ''memory_search'' ''Semantic search'' ''memory'' [Coding] True,
    core_tool ''memory_get'' ''memory_get'' ''Read memory files'' ''memory'' [Coding] True,
    core_tool ''sessions_list'' ''sessions_list'' ''List visible sessions; filters/previews.'' ''sessions'' [Coding, Messaging] True,
    core_tool ''sessions_history'' ''sessions_history'' ''Read sanitized session history.'' ''sessions'' [Coding, Messaging] True,
    core_tool ''sessions_send'' ''sessions_send'' ''Message session or configured agent.'' ''sessions'' [Coding, Messaging] True,
    core_tool ''sessions_spawn'' ''sessions_spawn'' ''Spawn subagent or ACP session.'' ''sessions'' [Coding] True,
    core_tool ''sessions_yield'' ''sessions_yield'' ''End turn to receive sub-agent results'' ''sessions'' [Coding] True,
    core_tool ''subagents'' ''subagents'' ''Manage sub-agents'' ''sessions'' [Coding] True,
    core_tool ''session_status'' ''session_status'' ''Show session status/model/usage.'' ''sessions'' [Minimal, Coding, Messaging] True]"

definition core_tools_after_sessions :: "CoreToolDefinition list" where
  "core_tools_after_sessions = [
    core_tool ''browser'' ''browser'' ''Control web browser'' ''ui'' [] True,
    core_tool ''canvas'' ''canvas'' ''Control node Canvas surfaces when the Canvas plugin is enabled'' ''ui'' [] False,
    core_tool ''message'' ''message'' ''Send messages'' ''messaging'' [Messaging] True,
    core_tool ''heartbeat_respond'' ''heartbeat_respond'' ''Record heartbeat outcomes'' ''automation'' [] True,
    core_tool ''cron'' ''cron'' ''Schedule reminders, cron, wake events.'' ''automation'' [Coding] True,
    core_tool ''gateway'' ''gateway'' ''Gateway control'' ''automation'' [] True,
    core_tool ''nodes'' ''nodes'' ''Nodes + devices'' ''nodes'' [] True,
    core_tool ''agents_list'' ''agents_list'' ''List agents'' ''agents'' [] True,
    core_tool ''update_plan'' ''update_plan'' ''Track short work plan.'' ''agents'' [Coding] True,
    core_tool ''image'' ''image'' ''Image understanding'' ''media'' [Coding] True,
    core_tool ''image_generate'' ''image_generate'' ''Image generation'' ''media'' [Coding] True,
    core_tool ''music_generate'' ''music_generate'' ''Music generation'' ''media'' [Coding] True,
    core_tool ''video_generate'' ''video_generate'' ''Video generation'' ''media'' [Coding] True,
    core_tool ''tts'' ''tts'' ''Text-to-speech conversion'' ''media'' [] True]"

definition CORE_TOOL_DEFINITIONS :: "CoreToolDefinition list" where
  "CORE_TOOL_DEFINITIONS = core_tools_until_sessions @ core_tools_after_sessions"

lemmas core_tool_table = CORE_TOOL_DEFINITIONS_def core_tools_until_sessions_def core_tools_after_sessions_def core_tool_def

definition CORE_TOOL_BY_ID :: "(string, CoreToolDefinition) jsmap" where
  "CORE_TOOL_BY_ID = foldl (\<lambda>m t. jm_set (ct_id t) t m) [] CORE_TOOL_DEFINITIONS"

section \<open>Profiles\<close>

record ToolProfilePolicy =
  pp_allow :: "string list option"
  pp_deny :: "string list option"

definition listCoreToolIdsForProfile :: "ToolProfileId \<Rightarrow> string list" where
  "listCoreToolIdsForProfile profile = map ct_id (filter (\<lambda>t. profile \<in> set (ct_profiles t)) CORE_TOOL_DEFINITIONS)"

definition CORE_TOOL_PROFILES :: "(string, ToolProfilePolicy) jsmap" where
  "CORE_TOOL_PROFILES =
    [(''minimal'', \<lparr>pp_allow = Some (listCoreToolIdsForProfile Minimal), pp_deny = None\<rparr>),
     (''coding'', \<lparr>pp_allow = Some (listCoreToolIdsForProfile Coding @ [''bundle-mcp'']), pp_deny = None\<rparr>),
     (''messaging'', \<lparr>pp_allow = Some (listCoreToolIdsForProfile Messaging @ [''bundle-mcp'']), pp_deny = None\<rparr>),
     (''full'', \<lparr>pp_allow = Some [''*''], pp_deny = None\<rparr>)]"

text \<open>The table is an object: a profile named like a property that every object inherits is left
  out of the model.\<close>

definition resolveCoreToolProfilePolicy :: "string option \<Rightarrow> ToolProfilePolicy option" where
  "resolveCoreToolProfilePolicy profile =
    (case profile of
       None \<Rightarrow> None
     | Some p \<Rightarrow>
         if p = [] then None
         else (case jm_get CORE_TOOL_PROFILES p of
                 None \<Rightarrow> None
               | Some resolved \<Rightarrow> if pp_allow resolved = None \<and> pp_deny resolved = None then None else Some resolved))"

section \<open>Groups\<close>

definition add_to_section :: "(string, string list) jsmap \<Rightarrow> CoreToolDefinition \<Rightarrow> (string, string list) jsmap" where
  "add_to_section m t =
    (let group = ''group:'' @ ct_sectionId t in jm_set group (or_else (jm_get m group) [] @ [ct_id t]) m)"

definition buildCoreToolGroupMap :: "(string, string list) jsmap" where
  "buildCoreToolGroupMap =
    (let sections = foldl add_to_section [] CORE_TOOL_DEFINITIONS;
         included = map ct_id (filter ct_includeInGroup CORE_TOOL_DEFINITIONS)
     in foldl (\<lambda>m p. jm_set (fst p) (snd p) m) [(''group:nova-ai'', included)] sections)"

definition CORE_TOOL_GROUPS :: "(string, string list) jsmap" where
  "CORE_TOOL_GROUPS = buildCoreToolGroupMap"

section \<open>Listing\<close>

record CoreToolSection =
  cs_id :: string
  cs_label :: string
  cs_tools :: "(string \<times> string \<times> string) list"

definition listCoreToolSections :: "CoreToolSection list" where
  "listCoreToolSections =
    filter (\<lambda>s. cs_tools s \<noteq> [])
      (map (\<lambda>s. \<lparr>cs_id = fst s, cs_label = snd s,
              cs_tools = map (\<lambda>t. (ct_id t, ct_label t, ct_description t))
                (filter (\<lambda>t. ct_sectionId t = fst s) CORE_TOOL_DEFINITIONS)\<rparr>) CORE_TOOL_SECTION_ORDER)"

definition resolveCoreToolProfiles :: "string \<Rightarrow> ToolProfileId list" where
  "resolveCoreToolProfiles toolId =
    (case jm_get CORE_TOOL_BY_ID toolId of None \<Rightarrow> [] | Some t \<Rightarrow> ct_profiles t)"

definition isKnownCoreToolId :: "string \<Rightarrow> bool" where
  "isKnownCoreToolId toolId = jm_has toolId CORE_TOOL_BY_ID"

section \<open>Facts about the catalog\<close>

text \<open>The ids are distinct, written as tool names, and every tool is in a listed section.\<close>

lemma catalog_ids_distinct: "distinct (map ct_id CORE_TOOL_DEFINITIONS)"
  by (simp add: core_tool_table)

lemma catalog_ids_known: "isKnownCoreToolId i \<longleftrightarrow> i \<in> ct_id ` set CORE_TOOL_DEFINITIONS"
proof -
  have "jm_has i (foldl (\<lambda>m t. jm_set (ct_id t) t m) m ts) \<longleftrightarrow> jm_has i m \<or> i \<in> ct_id ` set ts" for m ts
    by (induction ts arbitrary: m) (auto simp: jm_has_iff)
  from this [of "[]" CORE_TOOL_DEFINITIONS] show ?thesis by (simp add: isKnownCoreToolId_def CORE_TOOL_BY_ID_def jm_has_def)
qed

lemma minimal_profile: "listCoreToolIdsForProfile Minimal = [''session_status'']"
  by (simp add: listCoreToolIdsForProfile_def core_tool_table)

lemma section_group:
  "jm_get (foldl add_to_section m ts) g = (let own = map ct_id (filter (\<lambda>t. ''group:'' @ ct_sectionId t = g) ts) in
     if own = [] then jm_get m g else Some (or_else (jm_get m g) [] @ own))"
proof (induction ts arbitrary: m)
  case (Cons t ts)
  show ?case
  proof (cases "''group:'' @ ct_sectionId t = g")
    case True
    then show ?thesis unfolding foldl_Cons Cons.IH by (simp add: Let_def add_to_section_def or_else_def)
  next
    case False
    then show ?thesis unfolding foldl_Cons Cons.IH by (auto simp: Let_def add_to_section_def)
  qed
qed (simp add: Let_def)

end
