(* ===== verification/ToolPolicy.thy ===== *)
theory ToolPolicy
  imports ToolCatalog
begin

text \<open>
  Policies over the tools an agent may call: names and groups (src/src/agents/tool-policy-shared.ts),
  glob patterns (src/src/agents/glob-pattern.ts), the matcher (src/src/agents/tool-policy-match.ts),
  allow lists (src/src/agents/sandbox-tool-policy.ts), owner-only tools and plugin groups
  (src/src/agents/tool-policy.ts). The lookup tables of the source are plain objects; the two names
  that every object inherits in lower case, \<open>constructor\<close> and \<open>__proto__\<close>, are outside the model.
\<close>

section \<open>Names and groups\<close>

definition TOOL_NAME_ALIASES :: "(string, string) jsmap" where
  "TOOL_NAME_ALIASES = [(''bash'', ''exec''), (''apply-patch'', ''apply_patch'')]"

definition normalizeToolName :: "string \<Rightarrow> string" where
  "normalizeToolName name =
    (let normalized = normalizeLowercaseStringOrEmpty (Some name)
     in or_else (jm_get TOOL_NAME_ALIASES normalized) normalized)"

definition normalizeToolList :: "string list option \<Rightarrow> string list" where
  "normalizeToolList list = filter (\<lambda>n. n \<noteq> []) (map normalizeToolName (or_else list []))"

definition TOOL_GROUPS :: "(string, string list) jsmap" where
  "TOOL_GROUPS = CORE_TOOL_GROUPS"

definition expandToolGroups :: "string list option \<Rightarrow> string list" where
  "expandToolGroups list =
    uniq (concat (map (\<lambda>value. case jm_get TOOL_GROUPS value of Some members \<Rightarrow> members | None \<Rightarrow> [value]) (normalizeToolList list)))"

definition resolveToolProfilePolicy :: "string option \<Rightarrow> ToolProfilePolicy option" where
  "resolveToolProfilePolicy profile = resolveCoreToolProfilePolicy profile"

section \<open>Glob patterns\<close>

text \<open>
  A pattern with stars is compiled to the source of a regular expression. Such a source consists of
  literal characters, characters escaped by a backslash, and the pair of a dot and a star; the
  matching of these by JavaScript is \<open>regex_items\<close> and \<open>match_items\<close>: the dot stands for any
  character but a line terminator, and the expression is anchored at both ends.
\<close>

definition regex_special :: "char \<Rightarrow> bool" where
  "regex_special c \<longleftrightarrow> c \<in> set (CHR 0x5C # ''.*+?^${}()|[]'')"

definition escapeRegex :: "string \<Rightarrow> string" where
  "escapeRegex value = concat (map (\<lambda>c. if regex_special c then [CHR 0x5C, c] else [c]) value)"

text \<open>\<open>replaceAll("\\*", ".*")\<close>: the pair of a backslash and a star becomes a dot and a star.\<close>

fun stars_to_runs :: "string \<Rightarrow> string" where
  "stars_to_runs (c # d # r) =
     (if c = CHR 0x5C \<and> d = CHR ''*'' then ''.*'' @ stars_to_runs r else c # stars_to_runs (d # r))"
| "stars_to_runs r = r"

datatype regex_item = Literal char | AnyRun

fun regex_items :: "string \<Rightarrow> regex_item list" where
  "regex_items (c # d # r) =
     (if c = CHR 0x5C then Literal d # regex_items r
      else if c = CHR ''.'' \<and> d = CHR ''*'' then AnyRun # regex_items r
      else Literal c # regex_items (d # r))"
| "regex_items [c] = [Literal c]"
| "regex_items [] = []"

definition is_line_end :: "char \<Rightarrow> bool" where
  "is_line_end c \<longleftrightarrow> c = CHR 0x0A \<or> c = CHR 0x0D"

fun match_items :: "regex_item list \<Rightarrow> string \<Rightarrow> bool" where
  "match_items [] s = (s = [])"
| "match_items (Literal c # is) s = (case s of [] \<Rightarrow> False | d # r \<Rightarrow> c = d \<and> match_items is r)"
| "match_items (AnyRun # is) [] = match_items is []"
| "match_items (AnyRun # is) (d # r) = (match_items is (d # r) \<or> (\<not> is_line_end d \<and> match_items (AnyRun # is) r))"

datatype CompiledGlobPattern = GlobAll | GlobExact string | GlobRegex string

definition compileGlobPattern :: "(string \<Rightarrow> string) \<Rightarrow> string \<Rightarrow> CompiledGlobPattern" where
  "compileGlobPattern nrm raw =
    (let normalized = nrm raw in
     if normalized = [] then GlobExact []
     else if normalized = ''*'' then GlobAll
     else if CHR ''*'' \<notin> set normalized then GlobExact normalized
     else GlobRegex (stars_to_runs (escapeRegex normalized)))"

definition compileGlobPatterns :: "(string \<Rightarrow> string) \<Rightarrow> string list option \<Rightarrow> CompiledGlobPattern list" where
  "compileGlobPatterns nrm raw =
    filter (\<lambda>pattern. pattern \<noteq> GlobExact []) (map (compileGlobPattern nrm) (or_else raw []))"

definition matches_pattern :: "string \<Rightarrow> CompiledGlobPattern \<Rightarrow> bool" where
  "matches_pattern value pattern =
    (case pattern of GlobAll \<Rightarrow> True | GlobExact v \<Rightarrow> value = v | GlobRegex src \<Rightarrow> match_items (regex_items src) value)"

definition matchesAnyGlobPattern :: "string \<Rightarrow> CompiledGlobPattern list \<Rightarrow> bool" where
  "matchesAnyGlobPattern value patterns = list_ex (matches_pattern value) patterns"

section \<open>The matcher\<close>

text \<open>The mark of a list that only came from \<open>alsoAllow\<close> is a flag of the policy.\<close>

record ToolPolicyLike =
  allow :: "string list option"
  deny :: "string list option"
  implicitAllowAll :: bool

definition makeToolPolicyMatcher :: "ToolPolicyLike \<Rightarrow> string \<Rightarrow> bool" where
  "makeToolPolicyMatcher policy =
    (let denied = compileGlobPatterns normalizeToolName (Some (expandToolGroups (deny policy)));
         allowed = compileGlobPatterns normalizeToolName (Some (expandToolGroups (allow policy)))
     in (\<lambda>name.
          let normalized = normalizeToolName name in
          if matchesAnyGlobPattern normalized denied then False
          else if allowed = [] then True
          else if matchesAnyGlobPattern normalized allowed then True
          else normalized = ''apply_patch'' \<and> matchesAnyGlobPattern ''write'' allowed))"

definition isToolAllowedByPolicyName :: "string \<Rightarrow> ToolPolicyLike option \<Rightarrow> bool" where
  "isToolAllowedByPolicyName name policy = (case policy of None \<Rightarrow> True | Some p \<Rightarrow> makeToolPolicyMatcher p name)"

definition isToolAllowedByPolicies :: "string \<Rightarrow> ToolPolicyLike option list \<Rightarrow> bool" where
  "isToolAllowedByPolicies name policies = list_all (isToolAllowedByPolicyName name) policies"

section \<open>Lists of allowed tools\<close>

definition unionAllow :: "string list option \<Rightarrow> string list option \<Rightarrow> string list option" where
  "unionAllow base extra =
    (case extra of
       None \<Rightarrow> base
     | Some xs \<Rightarrow>
         if xs = [] then base
         else (case base of
                 None \<Rightarrow> Some (uniq (''*'' # xs))
               | Some bs \<Rightarrow> if bs = [] then Some (uniq (''*'' # xs)) else Some (uniq (bs @ xs))))"

definition hasExplicitAllowAll :: "string list option \<Rightarrow> bool" where
  "hasExplicitAllowAll list = list_ex (\<lambda>entry. js_trim entry = ''*'') (or_else list [])"

record SandboxToolPolicyConfig =
  cfg_allow :: "string list option"
  cfg_alsoAllow :: "string list option"
  cfg_deny :: "string list option"

definition pickSandboxToolPolicy :: "('x SandboxToolPolicyConfig_scheme) option \<Rightarrow> ToolPolicyLike option" where
  "pickSandboxToolPolicy config =
    (case config of
       None \<Rightarrow> None
     | Some cfg \<Rightarrow>
         let also = or_else (cfg_alsoAllow cfg) [];
             alsoOnly = cfg_allow cfg = None \<and> also \<noteq> [] \<and> \<not> hasExplicitAllowAll (cfg_alsoAllow cfg);
             allowed = (if cfg_allow cfg \<noteq> None then unionAllow (cfg_allow cfg) (cfg_alsoAllow cfg)
                        else if also \<noteq> [] then unionAllow None (cfg_alsoAllow cfg) else None)
         in if allowed = None \<and> cfg_deny cfg = None then None
            else Some \<lparr>allow = allowed, deny = cfg_deny cfg, implicitAllowAll = alsoOnly\<rparr>)"

definition mergeAlsoAllowPolicy :: "ToolPolicyLike option \<Rightarrow> string list option \<Rightarrow> ToolPolicyLike option" where
  "mergeAlsoAllowPolicy policy alsoAllow =
    (case policy of
       None \<Rightarrow> None
     | Some p \<Rightarrow>
         (case (allow p, alsoAllow) of
            (Some allowed, Some also) \<Rightarrow> if also = [] then Some p else Some (p\<lparr>allow := Some (uniq (allowed @ also))\<rparr>)
          | _ \<Rightarrow> Some p))"

section \<open>Owner-only tools\<close>

datatype OwnerOnlyToolApprovalClass = ControlPlane | ExecCapable | Interactive

text \<open>What runs when a tool is executed: its own implementation, or the error of a restricted tool.\<close>

datatype 'e Executor = Runs 'e | ThrowsRestricted

record 'e AgentTool =
  tool_name :: string
  ownerOnly :: "bool option"
  execute :: "'e Executor option"

definition wrapOwnerOnlyToolExecution :: "'e AgentTool \<Rightarrow> bool \<Rightarrow> 'e AgentTool" where
  "wrapOwnerOnlyToolExecution tool authorized =
    (if ownerOnly tool \<noteq> Some True \<or> authorized \<or> execute tool = None then tool else tool\<lparr>execute := Some ThrowsRestricted\<rparr>)"

definition OWNER_ONLY_TOOL_APPROVAL_CLASS_FALLBACKS :: "(string, OwnerOnlyToolApprovalClass) jsmap" where
  "OWNER_ONLY_TOOL_APPROVAL_CLASS_FALLBACKS = [(''cron'', ControlPlane), (''gateway'', ControlPlane), (''nodes'', ExecCapable)]"

definition resolveOwnerOnlyToolApprovalClass :: "string \<Rightarrow> OwnerOnlyToolApprovalClass option" where
  "resolveOwnerOnlyToolApprovalClass name = jm_get OWNER_ONLY_TOOL_APPROVAL_CLASS_FALLBACKS (normalizeToolName name)"

definition isOwnerOnlyToolName :: "string \<Rightarrow> bool" where
  "isOwnerOnlyToolName name \<longleftrightarrow> resolveOwnerOnlyToolApprovalClass name \<noteq> None"

definition isOwnerOnlyTool :: "'e AgentTool \<Rightarrow> bool" where
  "isOwnerOnlyTool tool \<longleftrightarrow> ownerOnly tool = Some True \<or> isOwnerOnlyToolName (tool_name tool)"

definition applyOwnerOnlyToolPolicy :: "'e AgentTool list \<Rightarrow> bool \<Rightarrow> string list option \<Rightarrow> 'e AgentTool list" where
  "applyOwnerOnlyToolPolicy tools senderIsOwner ownerOnlyToolAllowlist =
    (let allowed = map normalizeToolName (or_else ownerOnlyToolAllowlist []);
         isAuthorized = (\<lambda>tool. senderIsOwner \<or> normalizeToolName (tool_name tool) \<in> set allowed);
         withGuard = map (\<lambda>tool. if \<not> isOwnerOnlyTool tool then tool else wrapOwnerOnlyToolExecution tool (isAuthorized tool)) tools
     in if senderIsOwner then withGuard
        else filter (\<lambda>tool. \<not> isOwnerOnlyTool tool \<or> isAuthorized tool) withGuard)"

section \<open>Explicit lists\<close>

definition DEFAULT_PLUGIN_TOOLS_ALLOWLIST_ENTRY :: string where
  "DEFAULT_PLUGIN_TOOLS_ALLOWLIST_ENTRY = ''__nova-ai_default_plugin_tools__''"

definition hasRestrictiveAllowPolicy :: "ToolPolicyLike option \<Rightarrow> bool" where
  "hasRestrictiveAllowPolicy policy =
    list_ex (\<lambda>entry. let normalized = normalizeToolName entry in
        normalized \<noteq> [] \<and> normalized \<noteq> ''*'' \<and> normalized \<noteq> DEFAULT_PLUGIN_TOOLS_ALLOWLIST_ENTRY)
      (or_else (Option.bind policy allow) [])"

definition replaceWithEffectiveToolAllowlist :: "'e AgentTool list \<Rightarrow> string list" where
  "replaceWithEffectiveToolAllowlist tools =
    foldl (\<lambda>target tool. let normalized = normalizeToolName (tool_name tool) in
        if normalized = [] \<or> normalized \<in> set target then target else target @ [normalized]) [] tools"

definition explicit_entries :: "ToolPolicyLike \<Rightarrow> string list" where
  "explicit_entries policy =
    (case allow policy of
       None \<Rightarrow> []
     | Some xs \<Rightarrow>
         filter (\<lambda>trimmed. trimmed \<noteq> [] \<and> \<not> (trimmed = ''*'' \<and> implicitAllowAll policy)) (map js_trim xs)
         @ (if implicitAllowAll policy then [DEFAULT_PLUGIN_TOOLS_ALLOWLIST_ENTRY] else []))"

definition collectExplicitAllowlist :: "ToolPolicyLike option list \<Rightarrow> string list" where
  "collectExplicitAllowlist policies =
    uniq (concat (map (\<lambda>policy. case policy of None \<Rightarrow> [] | Some p \<Rightarrow> explicit_entries p) policies))"

definition collectExplicitDenylist :: "ToolPolicyLike option list \<Rightarrow> string list" where
  "collectExplicitDenylist policies =
    concat (map (\<lambda>policy. case policy of None \<Rightarrow> []
      | Some p \<Rightarrow> filter (\<lambda>trimmed. trimmed \<noteq> []) (map js_trim (or_else (deny p) []))) policies)"

section \<open>Plugin groups\<close>

record PluginToolGroups =
  all_tools :: "string list"
  byPlugin :: "(string, string list) jsmap"

text \<open>What plugin a tool belongs to is \<open>toolMeta\<close>: none, or the id of the plugin.\<close>

definition add_plugin_tool :: "('e AgentTool \<Rightarrow> string option) \<Rightarrow> PluginToolGroups \<Rightarrow> 'e AgentTool \<Rightarrow> PluginToolGroups" where
  "add_plugin_tool toolMeta groups tool =
    (case toolMeta tool of
       None \<Rightarrow> groups
     | Some plugin \<Rightarrow>
         let name = normalizeToolName (tool_name tool);
             groups1 = groups\<lparr>all_tools := all_tools groups @ [name]\<rparr>
         in (case normalizeOptionalLowercaseString (Some plugin) of
               None \<Rightarrow> groups1
             | Some pluginId \<Rightarrow>
                 groups1\<lparr>byPlugin := jm_set pluginId (or_else (jm_get (byPlugin groups1) pluginId) [] @ [name]) (byPlugin groups1)\<rparr>))"

definition buildPluginToolGroups :: "'e AgentTool list \<Rightarrow> ('e AgentTool \<Rightarrow> string option) \<Rightarrow> PluginToolGroups" where
  "buildPluginToolGroups tools toolMeta = foldl (add_plugin_tool toolMeta) \<lparr>all_tools = [], byPlugin = []\<rparr> tools"

definition expand_plugin_entry :: "PluginToolGroups \<Rightarrow> string \<Rightarrow> string list" where
  "expand_plugin_entry groups entry =
    (let normalized = normalizeToolName entry in
     if normalized = ''group:plugins'' then (if all_tools groups \<noteq> [] then all_tools groups else [normalized])
     else (case jm_get (byPlugin groups) normalized of
             Some tools \<Rightarrow> if tools \<noteq> [] then tools else [normalized]
           | None \<Rightarrow> [normalized]))"

definition expandPluginGroups :: "string list option \<Rightarrow> PluginToolGroups \<Rightarrow> string list option" where
  "expandPluginGroups list groups =
    (case list of
       None \<Rightarrow> None
     | Some xs \<Rightarrow> if xs = [] then Some xs else Some (uniq (concat (map (expand_plugin_entry groups) xs))))"

definition expandPolicyWithPluginGroups :: "ToolPolicyLike option \<Rightarrow> PluginToolGroups \<Rightarrow> ToolPolicyLike option" where
  "expandPolicyWithPluginGroups policy groups =
    map_option (\<lambda>p. \<lparr>allow = expandPluginGroups (allow p) groups, deny = expandPluginGroups (deny p) groups,
      implicitAllowAll = False\<rparr>) policy"

record AllowlistResolution =
  res_policy :: "ToolPolicyLike option"
  unknownAllowlist :: "string list"
  pluginOnlyAllowlist :: bool

definition is_plugin_entry :: "PluginToolGroups \<Rightarrow> string \<Rightarrow> bool" where
  "is_plugin_entry groups entry \<longleftrightarrow>
    entry = ''group:plugins'' \<or> jm_has entry (byPlugin groups) \<or> entry \<in> set (all_tools groups)"

definition is_core_entry :: "string list \<Rightarrow> string \<Rightarrow> bool" where
  "is_core_entry coreTools entry = list_ex (\<lambda>tool. tool \<in> set coreTools) (expandToolGroups (Some [entry]))"

definition analyzeAllowlistByToolType :: "ToolPolicyLike option \<Rightarrow> PluginToolGroups \<Rightarrow> string list \<Rightarrow> AllowlistResolution" where
  "analyzeAllowlistByToolType policy groups coreTools =
    (let normalized = normalizeToolList (Option.bind policy allow) in
     if normalized = [] then \<lparr>res_policy = policy, unknownAllowlist = [], pluginOnlyAllowlist = False\<rparr>
     else
       \<lparr>res_policy = policy,
        unknownAllowlist = uniq (filter (\<lambda>entry. entry \<noteq> ''*'' \<and> \<not> is_core_entry coreTools entry \<and> \<not> is_plugin_entry groups entry) normalized),
        pluginOnlyAllowlist = list_all (\<lambda>entry. entry \<noteq> ''*'' \<and> is_plugin_entry groups entry) normalized\<rparr>)"

end
