(* ===== verification/ToolPipeline.thy ===== *)
theory ToolPipeline
  imports ToolPolicy
begin

text \<open>
  The pipeline of tool policies (src/src/agents/tool-policy-pipeline.ts): every step keeps the tools
  its policy allows and warns, once per text, about entries of its allow list that name no tool.
\<close>

section \<open>The cache of warnings\<close>

definition MAX_TOOL_POLICY_WARNING_CACHE :: nat where
  "MAX_TOOL_POLICY_WARNING_CACHE = 256"

record WarningCache =
  seenToolPolicyWarnings :: "string list"
  toolPolicyWarningOrder :: "string list"

definition no_warnings_seen :: WarningCache where
  "no_warnings_seen = \<lparr>seenToolPolicyWarnings = [], toolPolicyWarningOrder = []\<rparr>"

text \<open>\<open>if (oldest)\<close> is false of an empty text as well as of a missing one.\<close>

definition forget_oldest :: "WarningCache \<Rightarrow> WarningCache" where
  "forget_oldest c =
    (case toolPolicyWarningOrder c of
       [] \<Rightarrow> c
     | oldest # rest \<Rightarrow>
         \<lparr>seenToolPolicyWarnings = (if oldest = [] then seenToolPolicyWarnings c else removeAll oldest (seenToolPolicyWarnings c)),
          toolPolicyWarningOrder = rest\<rparr>)"

definition rememberToolPolicyWarning :: "string \<Rightarrow> WarningCache \<Rightarrow> bool \<times> WarningCache" where
  "rememberToolPolicyWarning warning c =
    (if warning \<in> set (seenToolPolicyWarnings c) then (False, c)
     else
       let c1 = (if MAX_TOOL_POLICY_WARNING_CACHE \<le> length (seenToolPolicyWarnings c) then forget_oldest c else c)
       in (True, \<lparr>seenToolPolicyWarnings = seenToolPolicyWarnings c1 @ [warning],
                  toolPolicyWarningOrder = toolPolicyWarningOrder c1 @ [warning]\<rparr>))"

section \<open>Steps\<close>

record ToolPolicyPipelineStep =
  step_policy :: "ToolPolicyLike option"
  step_label :: string
  stripPluginOnlyAllowlist :: bool
  suppressUnavailableCoreToolWarning :: bool
  suppressUnavailableCoreToolWarningAllowlist :: "string list option"
  unavailableCoreToolReason :: "string option"

record DefaultStepParams =
  ds_profilePolicy :: "ToolPolicyLike option"
  ds_profile :: "string option"
  ds_profileUnavailable :: "string list option"
  ds_providerProfilePolicy :: "ToolPolicyLike option"
  ds_providerProfile :: "string option"
  ds_providerProfileUnavailable :: "string list option"
  ds_globalPolicy :: "ToolPolicyLike option"
  ds_globalProviderPolicy :: "ToolPolicyLike option"
  ds_agentPolicy :: "ToolPolicyLike option"
  ds_agentProviderPolicy :: "ToolPolicyLike option"
  ds_groupPolicy :: "ToolPolicyLike option"
  ds_senderPolicy :: "ToolPolicyLike option"
  ds_agentId :: "string option"
  ds_unavailableCoreToolReason :: "string option"

text \<open>A label with a name in it when the trimmed name is not empty.\<close>

definition named_label :: "string option \<Rightarrow> (string \<Rightarrow> string) \<Rightarrow> string \<Rightarrow> string" where
  "named_label name f other =
    (case map_option js_trim name of None \<Rightarrow> other | Some n \<Rightarrow> if n = [] then other else f n)"

definition buildDefaultToolPolicyPipelineSteps :: "DefaultStepParams \<Rightarrow> ToolPolicyPipelineStep list" where
  "buildDefaultToolPolicyPipelineSteps p =
    (let reason = map_option js_trim (ds_unavailableCoreToolReason p);
         step = (\<lambda>policy label unavailable.
           \<lparr>step_policy = policy, step_label = label, stripPluginOnlyAllowlist = True,
            suppressUnavailableCoreToolWarning = False, suppressUnavailableCoreToolWarningAllowlist = unavailable,
            unavailableCoreToolReason = reason\<rparr>)
     in [step (ds_profilePolicy p)
           (named_label (ds_profile p) (\<lambda>n. ''tools.profile ('' @ n @ '')'') ''tools.profile'') (ds_profileUnavailable p),
         step (ds_providerProfilePolicy p)
           (named_label (ds_providerProfile p) (\<lambda>n. ''tools.byProvider.profile ('' @ n @ '')'') ''tools.byProvider.profile'')
           (ds_providerProfileUnavailable p),
         step (ds_globalPolicy p) ''tools.allow'' None,
         step (ds_globalProviderPolicy p) ''tools.byProvider.allow'' None,
         step (ds_agentPolicy p) (named_label (ds_agentId p) (\<lambda>n. ''agents.'' @ n @ ''.tools.allow'') ''agent tools.allow'') None,
         step (ds_agentProviderPolicy p)
           (named_label (ds_agentId p) (\<lambda>n. ''agents.'' @ n @ ''.tools.byProvider.allow'') ''agent tools.byProvider.allow'') None,
         step (ds_groupPolicy p) ''group tools.allow'' None,
         step (ds_senderPolicy p) ''tools.toolsBySender'' None])"

section \<open>Warnings\<close>

definition shouldWarnAboutUnknownAllowlist :: "bool \<Rightarrow> bool \<Rightarrow> bool" where
  "shouldWarnAboutUnknownAllowlist hasGatedCoreEntries hasOtherEntries = (hasGatedCoreEntries \<or> hasOtherEntries)"

definition describeUnknownAllowlistSuffix :: "bool \<Rightarrow> bool \<Rightarrow> bool \<Rightarrow> string option \<Rightarrow> string" where
  "describeUnknownAllowlistSuffix pluginOnly gated others reason =
    (let preface = (if pluginOnly then ''Allowlist contains only plugin entries; core tools will not be available.'' else []);
         trimmed = js_trim (or_else reason []);
         unavailable =
           (if trimmed \<noteq> [] then ''These entries are shipped core tools but unavailable here: '' @ trimmed @ ''.''
            else ''These entries are shipped core tools but unavailable in the current runtime/provider/model/config.'');
         mixed =
           (if trimmed \<noteq> []
            then ''Some entries are shipped core tools but unavailable here: '' @ trimmed
                   @ ''; other entries won't match any tool unless the plugin is enabled.''
            else ''Some entries are shipped core tools but unavailable in the current runtime/provider/model/config; other entries won't match any tool unless the plugin is enabled.'');
         detail =
           (if gated \<and> others then mixed
            else if gated then unavailable
            else ''These entries won't match any tool unless the plugin is enabled.'')
     in if preface \<noteq> [] then preface @ '' '' @ detail else detail)"

text \<open>The warning of a step about its allow list, if it has one to give.\<close>

definition step_warning :: "ToolPolicyPipelineStep \<Rightarrow> AllowlistResolution \<Rightarrow> string option" where
  "step_warning step resolved =
    (if unknownAllowlist resolved = [] then None
     else
       let unavailable = map normalizeToolName (or_else (suppressUnavailableCoreToolWarningAllowlist step) []);
           gatedCore = filter isKnownCoreToolId (unknownAllowlist resolved);
           gated = (if suppressUnavailableCoreToolWarning step then [] else filter (\<lambda>e. e \<notin> set unavailable) gatedCore);
           others = filter (\<lambda>e. \<not> isKnownCoreToolId e \<and> e \<notin> set unavailable) (unknownAllowlist resolved)
       in if shouldWarnAboutUnknownAllowlist (gated \<noteq> []) (others \<noteq> [])
          then Some (''tools: '' @ step_label step @ '' allowlist contains unknown entries ('' @ join_with '', '' (gated @ others) @ ''). ''
            @ describeUnknownAllowlistSuffix (pluginOnlyAllowlist resolved) (gated \<noteq> []) (others \<noteq> []) (unavailableCoreToolReason step))
          else None)"

section \<open>The pipeline\<close>

definition filterToolsByPolicy :: "'e AgentTool list \<Rightarrow> ToolPolicyLike option \<Rightarrow> 'e AgentTool list" where
  "filterToolsByPolicy tools policy =
    (case policy of None \<Rightarrow> tools | Some p \<Rightarrow> filter (\<lambda>tool. isToolAllowedByPolicyName (tool_name tool) (Some p)) tools)"

record 'e PipelineState =
  ps_filtered :: "'e AgentTool list"
  ps_warned :: "string list"
  ps_cache :: WarningCache

definition warn_once :: "string option \<Rightarrow> 'e PipelineState \<Rightarrow> 'e PipelineState" where
  "warn_once warning s =
    (case warning of
       None \<Rightarrow> s
     | Some w \<Rightarrow>
         let (fresh, cache) = rememberToolPolicyWarning w (ps_cache s)
         in s\<lparr>ps_warned := (if fresh then ps_warned s @ [w] else ps_warned s), ps_cache := cache\<rparr>)"

definition pipeline_step :: "PluginToolGroups \<Rightarrow> string list \<Rightarrow> 'e PipelineState \<Rightarrow> ToolPolicyPipelineStep \<Rightarrow> 'e PipelineState" where
  "pipeline_step groups core s step =
    (case step_policy step of
       None \<Rightarrow> s
     | Some p \<Rightarrow>
         let resolved = analyzeAllowlistByToolType (Some p) groups core;
             s1 = (if stripPluginOnlyAllowlist step then warn_once (step_warning step resolved) s else s);
             policy = (if stripPluginOnlyAllowlist step then res_policy resolved else Some p);
             expanded = expandPolicyWithPluginGroups policy groups
         in s1\<lparr>ps_filtered := filterToolsByPolicy (ps_filtered s1) expanded\<rparr>)"

definition applyToolPolicyPipeline :: "'e AgentTool list \<Rightarrow> ('e AgentTool \<Rightarrow> string option) \<Rightarrow> ToolPolicyPipelineStep list \<Rightarrow>
    WarningCache \<Rightarrow> 'e PipelineState" where
  "applyToolPolicyPipeline tools toolMeta steps cache =
    (let core = filter (\<lambda>n. n \<noteq> []) (map (\<lambda>t. normalizeToolName (tool_name t)) (filter (\<lambda>t. toolMeta t = None) tools));
         groups = buildPluginToolGroups tools toolMeta
     in foldl (pipeline_step groups core) \<lparr>ps_filtered = tools, ps_warned = [], ps_cache = cache\<rparr> steps)"

section \<open>The pipeline is a filter\<close>

text \<open>Whether a step lets a tool through.\<close>

definition step_allows :: "PluginToolGroups \<Rightarrow> ToolPolicyPipelineStep \<Rightarrow> 'e AgentTool \<Rightarrow> bool" where
  "step_allows groups step tool \<longleftrightarrow>
    isToolAllowedByPolicyName (tool_name tool) (expandPolicyWithPluginGroups (step_policy step) groups)"

lemma analyze_policy [simp]: "res_policy (analyzeAllowlistByToolType policy groups core) = policy"
  by (simp add: analyzeAllowlistByToolType_def Let_def)

lemma warn_once_filtered [simp]: "ps_filtered (warn_once w s) = ps_filtered s"
  by (simp add: warn_once_def Let_def split: option.split prod.split)

lemma filterToolsByPolicy_eq:
  "filterToolsByPolicy tools policy = filter (\<lambda>t. isToolAllowedByPolicyName (tool_name t) policy) tools"
  by (cases policy) (simp_all add: filterToolsByPolicy_def isToolAllowedByPolicyName_def)

lemma pipeline_step_filtered: "ps_filtered (pipeline_step groups core s step) = filter (step_allows groups step) (ps_filtered s)"
  by (cases "step_policy step")
    (simp_all add: pipeline_step_def step_allows_def [abs_def] Let_def filterToolsByPolicy_eq isToolAllowedByPolicyName_def
      expandPolicyWithPluginGroups_def)

lemma pipeline_filters:
  "ps_filtered (applyToolPolicyPipeline tools toolMeta steps cache) =
    filter (\<lambda>t. \<forall>step \<in> set steps. step_allows (buildPluginToolGroups tools toolMeta) step t) tools"
proof -
  have "ps_filtered (foldl (pipeline_step groups core) s steps) = filter (\<lambda>t. \<forall>step \<in> set steps. step_allows groups step t) (ps_filtered s)"
    for groups core and s :: "'a PipelineState"
    by (induction steps arbitrary: s) (simp_all add: pipeline_step_filtered)
  then show ?thesis by (simp add: applyToolPolicyPipeline_def Let_def)
qed

section \<open>The cache\<close>

definition cache_ok :: "WarningCache \<Rightarrow> bool" where
  "cache_ok c \<longleftrightarrow> seenToolPolicyWarnings c = toolPolicyWarningOrder c \<and> distinct (toolPolicyWarningOrder c) \<and>
    length (toolPolicyWarningOrder c) \<le> MAX_TOOL_POLICY_WARNING_CACHE \<and> [] \<notin> set (toolPolicyWarningOrder c)"

lemma remember_ok: "cache_ok c \<Longrightarrow> w \<noteq> [] \<Longrightarrow> cache_ok (snd (rememberToolPolicyWarning w c))"
  by (auto simp: cache_ok_def rememberToolPolicyWarning_def forget_oldest_def Let_def MAX_TOOL_POLICY_WARNING_CACHE_def
      removeAll_id split: list.split)

lemma step_warning_not_Nil: "step_warning step resolved = Some w \<Longrightarrow> w \<noteq> []"
  by (auto simp: step_warning_def Let_def split: if_splits)

lemma warn_once_ok: "cache_ok (ps_cache s) \<Longrightarrow> cache_ok (ps_cache (warn_once (step_warning step resolved) s))"
  using remember_ok [of "ps_cache s"] step_warning_not_Nil [of step resolved]
  by (auto simp: warn_once_def Let_def split: option.split prod.split) (metis snd_conv)

lemma pipeline_cache_ok: "cache_ok cache \<Longrightarrow> cache_ok (ps_cache (applyToolPolicyPipeline tools toolMeta steps cache))"
proof -
  have "cache_ok (ps_cache s) \<Longrightarrow> cache_ok (ps_cache (pipeline_step groups core s step))" for groups core step and s :: "'a PipelineState"
    by (cases "step_policy step") (simp_all add: pipeline_step_def Let_def warn_once_ok)
  then have "cache_ok (ps_cache s) \<Longrightarrow> cache_ok (ps_cache (foldl (pipeline_step groups core) s steps))" for groups core and s :: "'a PipelineState"
    by (induction steps arbitrary: s) simp_all
  then show "cache_ok cache \<Longrightarrow> ?thesis" by (simp add: applyToolPolicyPipeline_def Let_def)
qed

end
