(* ===== verification/SessionConversation.thy ===== *)
theory SessionConversation
  imports SessionKeys
begin

text \<open>
  The conversation behind a session key (src/src/channels/plugins/session-conversation.ts). What
  channel plugins answer is the environment: the ids their registries give a channel name, the
  messaging adapter of a loaded plugin, and the session-key module of a bundled plugin. An adapter
  that throws is outside the model.
\<close>

record SessionConversationHookResult =
  hk_id :: string
  hk_threadId :: "string option"
  hk_baseConversationId :: "string option"
  hk_parents :: "string list option"

text \<open>An adapter has either function or lacks it; a function may answer null.\<close>

record MessagingAdapter =
  ma_resolve :: "(string \<Rightarrow> string \<Rightarrow> SessionConversationHookResult option) option"
  ma_parents :: "(string \<Rightarrow> string \<Rightarrow> string list option) option"

record ConversationEnv =
  ce_anyChannelId :: "string \<Rightarrow> string option"
  ce_chatChannelId :: "string \<Rightarrow> string option"
  ce_adapter :: "string \<Rightarrow> MessagingAdapter option"
  ce_bundled :: "string \<Rightarrow> (string \<Rightarrow> string \<Rightarrow> SessionConversationHookResult option) option"
  ce_pluginsEnabled :: "bool option"
  ce_entryEnabled :: "string \<Rightarrow> bool option"
  ce_hasPlugins :: bool

record ResolvedSessionConversation =
  sc_id :: string
  sc_threadId :: "string option"
  sc_baseConversationId :: string
  sc_parents :: "string list"

record NormalizedResolution = ResolvedSessionConversation +
  sc_explicitParents :: bool

definition normalizeResolvedChannel :: "ConversationEnv \<Rightarrow> string \<Rightarrow> string" where
  "normalizeResolvedChannel env channel =
    or_else (or_opt (ce_anyChannelId env channel)
      (or_opt (ce_chatChannelId env channel) (normalizeOptionalLowercaseString (Some channel)))) []"

definition getMessagingAdapter :: "ConversationEnv \<Rightarrow> string \<Rightarrow> MessagingAdapter option" where
  "getMessagingAdapter env channel = ce_adapter env (normalizeResolvedChannel env channel)"

definition dedupeConversationIds :: "string option list \<Rightarrow> string list" where
  "dedupeConversationIds values = uniq (filter (\<lambda>t. t \<noteq> []) (map (\<lambda>v. js_trim (or_else v [])) values))"

definition buildGenericConversationResolution :: "string \<Rightarrow> ResolvedSessionConversation option" where
  "buildGenericConversationResolution rawId =
    (let trimmed = js_trim rawId in
     if trimmed = [] then None
     else
       let parsed = parseThreadSessionSuffix (Some trimmed);
           i = js_trim (or_else (ts_baseSessionKey parsed) trimmed)
       in if i = [] then None
          else Some \<lparr>sc_id = i, sc_threadId = ts_threadId parsed, sc_baseConversationId = i,
            sc_parents = dedupeConversationIds (if ts_threadId parsed \<noteq> None then [ts_baseSessionKey parsed] else [])\<rparr>)"

definition last_opt :: "'a list \<Rightarrow> 'a option" where
  "last_opt xs = (if xs = [] then None else Some (last xs))"

definition normalizeSessionConversationResolution :: "SessionConversationHookResult option \<Rightarrow> NormalizedResolution option" where
  "normalizeSessionConversationResolution resolved =
    (case resolved of
       None \<Rightarrow> None
     | Some h \<Rightarrow>
         let i = js_trim (hk_id h); parents = dedupeConversationIds (map Some (or_else (hk_parents h) [])) in
         if i = [] then None
         else Some \<lparr>sc_id = i, sc_threadId = normalizeOptionalString (hk_threadId h),
           sc_baseConversationId = or_else (or_opt (normalizeOptionalString (hk_baseConversationId h)) (last_opt parents)) i,
           sc_parents = parents, sc_explicitParents = (hk_parents h \<noteq> None)\<rparr>)"

definition isBundledSessionConversationFallbackDisabled :: "ConversationEnv \<Rightarrow> string \<Rightarrow> bool" where
  "isBundledSessionConversationFallbackDisabled env channel =
    (if \<not> ce_hasPlugins env then False
     else if ce_pluginsEnabled env = Some False then True
     else ce_entryEnabled env (normalizeResolvedChannel env channel) = Some False)"

definition resolveBundledSessionConversationFallback :: "ConversationEnv \<Rightarrow> string \<Rightarrow> string \<Rightarrow> string \<Rightarrow> NormalizedResolution option" where
  "resolveBundledSessionConversationFallback env channel kind rawId =
    (if isBundledSessionConversationFallbackDisabled env channel then None
     else (case ce_bundled env (normalizeResolvedChannel env channel) of
             None \<Rightarrow> None
           | Some resolve \<Rightarrow> normalizeSessionConversationResolution (resolve kind rawId)))"

definition shouldProbeBundledSessionConversationFallback :: "string \<Rightarrow> bool" where
  "shouldProbeBundledSessionConversationFallback rawId \<longleftrightarrow> colon \<in> set rawId"

definition as_resolution :: "NormalizedResolution \<Rightarrow> ResolvedSessionConversation" where
  "as_resolution r = \<lparr>sc_id = sc_id r, sc_threadId = sc_threadId r, sc_baseConversationId = sc_baseConversationId r, sc_parents = sc_parents r\<rparr>"

definition resolveSessionConversation :: "ConversationEnv \<Rightarrow> string \<Rightarrow> string \<Rightarrow> string \<Rightarrow> bool \<Rightarrow> ResolvedSessionConversation option" where
  "resolveSessionConversation env channel kind raw bundledFallback =
    (let rawId = js_trim raw in
     if rawId = [] then None
     else
       let messaging = getMessagingAdapter env channel;
           pluginResolved = normalizeSessionConversationResolution
             (Option.bind (Option.bind messaging ma_resolve) (\<lambda>f. f kind rawId));
           tryBundled = (bundledFallback \<and> messaging = None \<and> shouldProbeBundledSessionConversationFallback rawId);
           resolved = or_opt (map_option as_resolution pluginResolved)
             (or_opt (if tryBundled then map_option as_resolution (resolveBundledSessionConversationFallback env channel kind rawId) else None)
               (buildGenericConversationResolution rawId))
       in (case resolved of
             None \<Rightarrow> None
           | Some r \<Rightarrow>
               let explicit = (case pluginResolved of Some p \<Rightarrow> sc_explicitParents p | None \<Rightarrow> False);
                   parents = dedupeConversationIds (map Some
                     (if explicit then sc_parents r
                      else or_else (Option.bind (Option.bind messaging ma_parents) (\<lambda>f. f kind rawId)) (sc_parents r)))
               in Some (r\<lparr>sc_baseConversationId := or_else (last_opt parents) (sc_baseConversationId r), sc_parents := parents\<rparr>)))"

record ResolvedSessionConversationRef = ResolvedSessionConversation +
  sr_channel :: string
  sr_kind :: string
  sr_rawId :: string
  sr_baseSessionKey :: string

definition buildBaseSessionKey :: "RawSessionConversationRef \<Rightarrow> string \<Rightarrow> string" where
  "buildBaseSessionKey raw i = rc_prefix raw @ [colon] @ i"

definition resolveSessionConversationRef :: "ConversationEnv \<Rightarrow> string option \<Rightarrow> bool \<Rightarrow> ResolvedSessionConversationRef option" where
  "resolveSessionConversationRef env sessionKey bundledFallback =
    (case parseRawSessionConversationRef sessionKey of
       None \<Rightarrow> None
     | Some raw \<Rightarrow>
         (case resolveSessionConversation env (rc_channel raw) (rc_kind raw) (rc_rawId raw) bundledFallback of
            None \<Rightarrow> None
          | Some r \<Rightarrow>
              Some \<lparr>sc_id = sc_id r, sc_threadId = sc_threadId r, sc_baseConversationId = sc_baseConversationId r,
                sc_parents = sc_parents r, sr_channel = normalizeResolvedChannel env (rc_channel raw), sr_kind = rc_kind raw,
                sr_rawId = rc_rawId raw, sr_baseSessionKey = buildBaseSessionKey raw (sc_id r)\<rparr>))"

definition resolveSessionThreadInfo :: "ConversationEnv \<Rightarrow> string option \<Rightarrow> bool \<Rightarrow> ParsedThreadSessionSuffix" where
  "resolveSessionThreadInfo env sessionKey bundledFallback =
    (case resolveSessionConversationRef env sessionKey bundledFallback of
       None \<Rightarrow> parseThreadSessionSuffix sessionKey
     | Some r \<Rightarrow>
         \<lparr>ts_baseSessionKey = (if sc_threadId r \<noteq> None then Some (sr_baseSessionKey r) else normalizeOptionalString sessionKey),
          ts_threadId = sc_threadId r\<rparr>)"

definition resolveSessionParentSessionKey :: "ConversationEnv \<Rightarrow> string option \<Rightarrow> string option" where
  "resolveSessionParentSessionKey env sessionKey =
    (let info = resolveSessionThreadInfo env sessionKey True in
     if ts_threadId info = None then None else ts_baseSessionKey info)"

text \<open>The base of a conversation is its outermost parent, when it has parents.\<close>

lemma conversation_base:
  "resolveSessionConversation env channel kind raw fb = Some r \<Longrightarrow> sc_parents r \<noteq> [] \<Longrightarrow> sc_baseConversationId r = last (sc_parents r)"
  by (auto simp: resolveSessionConversation_def Let_def last_opt_def or_else_def split: option.splits if_splits)

lemma conversation_id_trimmed:
  "resolveSessionConversation env channel kind raw fb = Some r \<Longrightarrow> sc_id r \<noteq> [] \<and> js_trim (sc_id r) = sc_id r"
  by (auto simp: resolveSessionConversation_def Let_def or_opt_def as_resolution_def buildGenericConversationResolution_def
      resolveBundledSessionConversationFallback_def normalizeSessionConversationResolution_def
      split: option.splits if_splits)

text \<open>A gateway without channel plugins.\<close>

definition no_plugins :: ConversationEnv where
  "no_plugins = \<lparr>ce_anyChannelId = \<lambda>_. None, ce_chatChannelId = \<lambda>_. None, ce_adapter = \<lambda>_. None, ce_bundled = \<lambda>_. None,
    ce_pluginsEnabled = None, ce_entryEnabled = \<lambda>_. None, ce_hasPlugins = False\<rparr>"

end
