(* ===== verification/ProviderId.thy ===== *)
theory ProviderId
  imports JsString JsMap
begin

text \<open>
  Provider ids (src/src/agents/provider-id.ts) and the aliases under which plugins offer the
  credentials of another provider (src/src/agents/provider-auth-aliases.ts). The installed plugins,
  the trust of a workspace plugin and \<open>localeCompare\<close> are arguments; the cache of the
  computed map is left out.
\<close>

section \<open>Canonical ids\<close>

definition normalizeProviderId :: "string \<Rightarrow> string" where
  "normalizeProviderId provider =
    (let n = normalizeLowercaseStringOrEmpty (Some provider) in
     if n = ''modelstudio'' \<or> n = ''qwencloud'' then ''qwen''
     else if n = ''z.ai'' \<or> n = ''z-ai'' then ''zai''
     else if n = ''opencode-zen'' then ''opencode''
     else if n = ''opencode-go-auth'' then ''opencode-go''
     else if n = ''anthropic-cli'' then ''claude-cli''
     else if n = ''kimi'' \<or> n = ''kimi-code'' \<or> n = ''kimi-coding'' then ''kimi''
     else if n = ''moonshotai'' \<or> n = ''moonshot-ai'' then ''moonshot''
     else if n = ''bedrock'' \<or> n = ''aws-bedrock'' then ''amazon-bedrock''
     else if n = ''bytedance'' \<or> n = ''doubao'' then ''volcengine''
     else n)"

definition findNormalizedProviderValue :: "(string, 'v) jsmap option \<Rightarrow> string \<Rightarrow> 'v option" where
  "findNormalizedProviderValue entries provider =
    (case entries of None \<Rightarrow> None
     | Some es \<Rightarrow> map_option snd (find (\<lambda>e. normalizeProviderId (fst e) = normalizeProviderId provider) es))"

definition findNormalizedProviderKey :: "(string, 'v) jsmap option \<Rightarrow> string \<Rightarrow> string option" where
  "findNormalizedProviderKey entries provider =
    (case entries of None \<Rightarrow> None
     | Some es \<Rightarrow> find (\<lambda>k. normalizeProviderId k = normalizeProviderId provider) (jm_keys es))"

section \<open>Aliases for authentication\<close>

datatype PluginOrigin = ConfigOrigin | BundledOrigin | GlobalOrigin | WorkspaceOrigin

record AuthAliasPlugin =
  pa_origin :: PluginOrigin
  pa_providerAuthAliases :: "(string, string) jsmap option"
  pa_providerAuthChoices :: "(string \<times> string list option) list option"

record ProviderAuthAliasCandidate =
  ac_origin :: "PluginOrigin option"
  ac_target :: string

definition MAX_SAFE_INTEGER :: int where
  "MAX_SAFE_INTEGER = 9007199254740991"

definition resolveProviderAuthAliasOriginPriority :: "PluginOrigin option \<Rightarrow> int" where
  "resolveProviderAuthAliasOriginPriority origin =
    (case origin of None \<Rightarrow> MAX_SAFE_INTEGER
     | Some ConfigOrigin \<Rightarrow> 0 | Some BundledOrigin \<Rightarrow> 1 | Some GlobalOrigin \<Rightarrow> 2 | Some WorkspaceOrigin \<Rightarrow> 3)"

definition shouldUsePluginAuthAliases :: "(AuthAliasPlugin \<Rightarrow> bool) \<Rightarrow> bool \<Rightarrow> AuthAliasPlugin \<Rightarrow> bool" where
  "shouldUsePluginAuthAliases trusted includeUntrustedWorkspacePlugins plugin \<longleftrightarrow>
    (if pa_origin plugin \<noteq> WorkspaceOrigin \<or> includeUntrustedWorkspacePlugins then True else trusted plugin)"

definition setPreferredAlias ::
  "string \<Rightarrow> PluginOrigin option \<Rightarrow> string \<Rightarrow> (string, ProviderAuthAliasCandidate) jsmap
   \<Rightarrow> (string, ProviderAuthAliasCandidate) jsmap" where
  "setPreferredAlias alias origin target aliases =
    (let normalizedAlias = normalizeProviderId alias; normalizedTarget = normalizeProviderId target in
     if normalizedAlias = [] \<or> normalizedTarget = [] then aliases
     else
       let wins = (case jm_get aliases normalizedAlias of None \<Rightarrow> True
           | Some existing \<Rightarrow> resolveProviderAuthAliasOriginPriority origin < resolveProviderAuthAliasOriginPriority (ac_origin existing))
       in if wins then jm_set normalizedAlias \<lparr>ac_origin = origin, ac_target = normalizedTarget\<rparr> aliases else aliases)"

definition add_plugin_aliases ::
  "(string \<Rightarrow> string \<Rightarrow> int) \<Rightarrow> AuthAliasPlugin \<Rightarrow> (string, ProviderAuthAliasCandidate) jsmap
   \<Rightarrow> (string, ProviderAuthAliasCandidate) jsmap" where
  "add_plugin_aliases localeCompare plugin aliases =
    (let declared = fold (\<lambda>e. setPreferredAlias (fst e) (Some (pa_origin plugin)) (snd e))
           (js_sort (\<lambda>l r. localeCompare (fst l) (fst r)) (or_else (pa_providerAuthAliases plugin) [])) aliases
     in fold (\<lambda>c. fold (\<lambda>i. setPreferredAlias i (Some (pa_origin plugin)) (fst c)) (or_else (snd c) []))
          (or_else (pa_providerAuthChoices plugin) []) declared)"

definition resolveProviderAuthAliasMap ::
  "(string \<Rightarrow> string \<Rightarrow> int) \<Rightarrow> (AuthAliasPlugin \<Rightarrow> bool) \<Rightarrow> bool \<Rightarrow> AuthAliasPlugin list \<Rightarrow> (string, string) jsmap" where
  "resolveProviderAuthAliasMap localeCompare trusted includeUntrusted plugins =
    map (\<lambda>e. (fst e, ac_target (snd e)))
      (fold (\<lambda>p. if shouldUsePluginAuthAliases trusted includeUntrusted p then add_plugin_aliases localeCompare p else id)
        plugins [])"

definition resolveProviderIdForAuth :: "(string, string) jsmap \<Rightarrow> string \<Rightarrow> string" where
  "resolveProviderIdForAuth aliases provider =
    (let normalized = normalizeProviderId provider in
     if normalized = [] then normalized else or_else (jm_get aliases normalized) normalized)"

end
