(* ===== verification/ToolAccess.thy ===== *)
theory ToolAccess
  imports ToolPolicy SessionConversation ProviderId JsNumber
begin

text \<open>
  Which policy applies to whom (src/src/agents/pi-tools.policy.ts): the tools denied to sub-agents,
  what a spawned session inherits (src/src/agents/inherited-tool-deny.ts), policies by provider and
  model (whose canonical provider ids are those of ProviderId), and the group ids a session can vouch for. The role of
  a session comes from its depth (src/src/agents/subagent-capabilities.ts); numbers of the
  configuration are rationals.
\<close>

section \<open>Sub-agents\<close>

definition SUBAGENT_TOOL_DENY_ALWAYS :: "string list" where
  "SUBAGENT_TOOL_DENY_ALWAYS = [''gateway'', ''agents_list'', ''session_status'', ''cron'', ''sessions_send'']"

definition SUBAGENT_TOOL_DENY_LEAF :: "string list" where
  "SUBAGENT_TOOL_DENY_LEAF = [''subagents'', ''sessions_list'', ''sessions_history'', ''sessions_spawn'']"

definition DEFAULT_SUBAGENT_MAX_SPAWN_DEPTH :: rat where
  "DEFAULT_SUBAGENT_MAX_SPAWN_DEPTH = 1"

definition resolveSubagentDenyList :: "rat \<Rightarrow> rat \<Rightarrow> string list" where
  "resolveSubagentDenyList depth maxSpawnDepth =
    (if of_int (max 1 \<lfloor>maxSpawnDepth\<rfloor>) \<le> depth then SUBAGENT_TOOL_DENY_ALWAYS @ SUBAGENT_TOOL_DENY_LEAF
     else SUBAGENT_TOOL_DENY_ALWAYS)"

datatype SubagentSessionRole = MainRole | OrchestratorRole | LeafRole

datatype SubagentControlScope = ScopeChildren | ScopeNone

definition resolveSubagentDenyListForRole :: "SubagentSessionRole \<Rightarrow> string list" where
  "resolveSubagentDenyListForRole role =
    (if role = LeafRole then SUBAGENT_TOOL_DENY_ALWAYS @ SUBAGENT_TOOL_DENY_LEAF else SUBAGENT_TOOL_DENY_ALWAYS)"

definition mergeConfiguredSubagentAllow :: "string list option \<Rightarrow> string list option \<Rightarrow> string list option" where
  "mergeConfiguredSubagentAllow allowed alsoAllow =
    (case (allowed, alsoAllow) of (Some a, Some b) \<Rightarrow> Some (uniq (a @ b)) | _ \<Rightarrow> allowed)"

text \<open>The policy of a sub-agent from the tools that are denied to it and the configured lists.\<close>

definition subagent_policy :: "SandboxToolPolicyConfig option \<Rightarrow> string list \<Rightarrow> ToolPolicyLike" where
  "subagent_policy configured baseDeny =
    (let allowed = Option.bind configured cfg_allow;
         also = Option.bind configured cfg_alsoAllow;
         explicit = map normalizeToolName (or_else allowed [] @ or_else also [])
     in \<lparr>allow = mergeConfiguredSubagentAllow allowed also,
         deny = Some (filter (\<lambda>tool. normalizeToolName tool \<notin> set explicit) baseDeny @ or_else (Option.bind configured cfg_deny) []),
         implicitAllowAll = False\<rparr>)"

definition resolveSubagentToolPolicy :: "SandboxToolPolicyConfig option \<Rightarrow> rat option \<Rightarrow> rat option \<Rightarrow> ToolPolicyLike" where
  "resolveSubagentToolPolicy configured maxSpawnDepth depth =
    (let effective = (case depth of Some d \<Rightarrow> if 0 \<le> d then d else 1 | None \<Rightarrow> 1)
     in subagent_policy configured (resolveSubagentDenyList effective (or_else maxSpawnDepth DEFAULT_SUBAGENT_MAX_SPAWN_DEPTH)))"

text \<open>\<open>Number.isFinite\<close> of the maximum holds of every rational; an absent one is the default.\<close>

definition resolveSubagentRoleForDepth :: "rat \<Rightarrow> rat option \<Rightarrow> SubagentSessionRole" where
  "resolveSubagentRoleForDepth depth maxSpawnDepth =
    (let d = (if of_int \<lfloor>depth\<rfloor> = depth then max 0 \<lfloor>depth\<rfloor> else 0);
         m = (case maxSpawnDepth of Some q \<Rightarrow> max 1 \<lfloor>q\<rfloor> | None \<Rightarrow> \<lfloor>DEFAULT_SUBAGENT_MAX_SPAWN_DEPTH\<rfloor>)
     in if d \<le> 0 then MainRole else if d < m then OrchestratorRole else LeafRole)"

definition resolveSubagentControlScopeForRole :: "SubagentSessionRole \<Rightarrow> SubagentControlScope" where
  "resolveSubagentControlScopeForRole role = (if role = LeafRole then ScopeNone else ScopeChildren)"

record SubagentCapabilities =
  cap_depth :: int
  cap_role :: SubagentSessionRole
  cap_controlScope :: SubagentControlScope
  cap_canSpawn :: bool
  cap_canControlChildren :: bool

definition resolveSubagentCapabilities :: "rat \<Rightarrow> rat option \<Rightarrow> SubagentCapabilities" where
  "resolveSubagentCapabilities depth maxSpawnDepth =
    (let role = resolveSubagentRoleForDepth depth maxSpawnDepth;
         scope = resolveSubagentControlScopeForRole role
     in \<lparr>cap_depth = max 0 \<lfloor>depth\<rfloor>, cap_role = role, cap_controlScope = scope,
         cap_canSpawn = (role = MainRole \<or> role = OrchestratorRole), cap_canControlChildren = (scope = ScopeChildren)\<rparr>)"

text \<open>The policy of a session, given the role that its stored capabilities have.\<close>

definition resolveSubagentToolPolicyForSession :: "SandboxToolPolicyConfig option \<Rightarrow> SubagentSessionRole \<Rightarrow> ToolPolicyLike" where
  "resolveSubagentToolPolicyForSession configured role = subagent_policy configured (resolveSubagentDenyListForRole role)"

section \<open>Inherited lists\<close>

definition ACP_UNSUPPORTED_INHERITED_TOOL_DENY :: "string list" where
  "ACP_UNSUPPORTED_INHERITED_TOOL_DENY =
    [''apply_patch'', ''edit'', ''exec'', ''fs_delete'', ''fs_move'', ''fs_write'', ''process'', ''read'', ''shell'', ''spawn'', ''write'']"

definition ACP_REQUIRED_INHERITED_TOOL_ALLOW :: "string list" where
  "ACP_REQUIRED_INHERITED_TOOL_ALLOW = [''apply_patch'', ''edit'', ''exec'', ''process'', ''read'', ''write'']"

text \<open>A stored list is an array whose entries may be no strings, or it is no array.\<close>

definition normalizeInheritedToolDenylist :: "string option list option \<Rightarrow> string list" where
  "normalizeInheritedToolDenylist v =
    foldl (\<lambda>result entry. case entry of None \<Rightarrow> result
        | Some e \<Rightarrow> let normalized = normalizeToolName e in
            if normalized = [] \<or> normalized \<in> set result then result else result @ [normalized]) [] (or_else v [])"

definition inheritedToolDenyPatch :: "string option list option \<Rightarrow> string list option" where
  "inheritedToolDenyPatch v = (let d = normalizeInheritedToolDenylist v in if d \<noteq> [] then Some d else None)"

definition normalizeInheritedToolAllowlist :: "string option list option \<Rightarrow> string list" where
  "normalizeInheritedToolAllowlist v = normalizeInheritedToolDenylist v"

definition inheritedToolAllowPatch :: "string option list option \<Rightarrow> string list option" where
  "inheritedToolAllowPatch v = (let a = normalizeInheritedToolAllowlist v in if a \<noteq> [] then Some a else None)"

definition findAcpUnsupportedInheritedToolDeny :: "string option list option \<Rightarrow> string option" where
  "findAcpUnsupportedInheritedToolDeny v =
    (let d = normalizeInheritedToolDenylist v in
     if d = [] then None
     else find (\<lambda>tool. \<not> isToolAllowedByPolicyName tool (Some \<lparr>allow = None, deny = Some d, implicitAllowAll = False\<rparr>))
            ACP_UNSUPPORTED_INHERITED_TOOL_DENY)"

definition findAcpUnsupportedInheritedToolAllow :: "string option list option \<Rightarrow> string option" where
  "findAcpUnsupportedInheritedToolAllow v =
    (let a = normalizeInheritedToolAllowlist v in
     if a = [] then None
     else find (\<lambda>tool. \<not> isToolAllowedByPolicyName tool (Some \<lparr>allow = Some a, deny = None, implicitAllowAll = False\<rparr>))
            ACP_REQUIRED_INHERITED_TOOL_ALLOW)"

definition formatAcpInheritedToolDenyError :: "string \<Rightarrow> string" where
  "formatAcpInheritedToolDenyError tool =
    ''runtime=\"acp\" is unavailable because the requester denies '' @ tool @ ''. Use runtime=\"subagent\".''"

definition formatAcpInheritedToolAllowError :: "string \<Rightarrow> string" where
  "formatAcpInheritedToolAllowError tool =
    ''runtime=\"acp\" is unavailable because the requester does not allow '' @ tool @ ''. Use runtime=\"subagent\".''"

text \<open>The policy of the lists a session inherited, an empty list counting as none.\<close>

definition resolveInheritedToolPolicyForSession :: "string list \<Rightarrow> string list \<Rightarrow> ToolPolicyLike option" where
  "resolveInheritedToolPolicyForSession inheritedToolAllow inheritedToolDeny =
    (if inheritedToolAllow = [] \<and> inheritedToolDeny = [] then None
     else Some \<lparr>allow = (if inheritedToolAllow \<noteq> [] then Some inheritedToolAllow else None),
                deny = (if inheritedToolDeny \<noteq> [] then Some inheritedToolDeny else None), implicitAllowAll = False\<rparr>)"

section \<open>Policies by provider\<close>

text \<open>\<open>indexOf("/")\<close> is positive when there is a slash that is not the first character.\<close>

definition normalizeProviderKey :: "string \<Rightarrow> string" where
  "normalizeProviderKey v =
    (let normalized = normalizeLowercaseStringOrEmpty (Some v);
         before = takeWhile (\<lambda>c. c \<noteq> CHR ''/'') normalized
     in if before = [] \<or> before = normalized then normalizeProviderId normalized
        else
          let provider = normalizeProviderId before;
              modelId = drop (length before + 1) normalized
          in if modelId \<noteq> [] then provider @ ''/'' @ modelId else provider)"

definition isCanonicalProviderKey :: "string \<Rightarrow> bool" where
  "isCanonicalProviderKey v \<longleftrightarrow> normalizeLowercaseStringOrEmpty (Some v) = normalizeProviderKey v"

record ToolPolicyConfig = SandboxToolPolicyConfig +
  cfg_profile :: "string option"

definition add_provider_entry :: "(string, bool \<times> 'p) jsmap \<Rightarrow> string \<times> 'p \<Rightarrow> (string, bool \<times> 'p) jsmap" where
  "add_provider_entry lookup entry =
    (let normalized = normalizeProviderKey (fst entry); canonical = isCanonicalProviderKey (fst entry) in
     if normalized = [] then lookup
     else (case jm_get lookup normalized of
             None \<Rightarrow> jm_set normalized (canonical, snd entry) lookup
           | Some (old, _) \<Rightarrow> if canonical \<and> \<not> old then jm_set normalized (canonical, snd entry) lookup else lookup))"

definition buildProviderToolPolicyLookup :: "(string \<times> 'p) list \<Rightarrow> (string, 'p) jsmap" where
  "buildProviderToolPolicyLookup entries = map (\<lambda>(k, c, v). (k, v)) (foldl add_provider_entry [] entries)"

definition resolveProviderToolPolicy :: "(string \<times> 'p) list option \<Rightarrow> string option \<Rightarrow> string option \<Rightarrow> 'p option" where
  "resolveProviderToolPolicy byProvider modelProvider modelId =
    (let provider = js_trim (or_else modelProvider []) in
     if provider = [] \<or> or_else byProvider [] = [] then None
     else
       let lookup = buildProviderToolPolicyLookup (or_else byProvider []);
           normalizedProvider = normalizeProviderKey provider;
           full = map_option (\<lambda>m. normalizedProvider @ ''/'' @ m) (normalizeOptionalLowercaseString modelId)
       in or_opt (Option.bind full (jm_get lookup)) (jm_get lookup normalizedProvider))"

section \<open>Trusted groups\<close>

definition collectUniqueStrings :: "string option list \<Rightarrow> string list" where
  "collectUniqueStrings values = uniq (filter (\<lambda>t. t \<noteq> []) (map (\<lambda>v. js_trim (or_else v [])) values))"

text \<open>
  The patterns \<open>^(.+):topic:([^:]+):sender:([^:]+)$\<close>, \<open>^(.+):topic:([^:]+)$\<close> and
  \<open>^(.+):sender:([^:]+)$\<close>, without case. The last pieces are free of colons, so what the first group
  matches is everything before the last pieces between colons; it holds no line end.
\<close>

definition no_line_end :: "string \<Rightarrow> bool" where
  "no_line_end s \<longleftrightarrow> list_all (\<lambda>c. \<not> is_line_end c) s"

definition scoped_match :: "string \<Rightarrow> string \<Rightarrow> (string \<times> string) option" where
  "scoped_match marker raw =
    (case rev (split_char colon raw) of
       x # m # c # cs \<Rightarrow>
         let chat = join_with [colon] (rev (c # cs)) in
         if x \<noteq> [] \<and> js_lower m = marker \<and> chat \<noteq> [] \<and> no_line_end chat then Some (chat, x) else None
     | _ \<Rightarrow> None)"

definition topic_sender_match :: "string \<Rightarrow> (string \<times> string) option" where
  "topic_sender_match raw =
    (case rev (split_char colon raw) of
       sender # m # topic # n # c # cs \<Rightarrow>
         let chat = join_with [colon] (rev (c # cs)) in
         if sender \<noteq> [] \<and> js_lower m = ''sender'' \<and> topic \<noteq> [] \<and> js_lower n = ''topic'' \<and> chat \<noteq> [] \<and> no_line_end chat
         then Some (chat, topic) else None
     | _ \<Rightarrow> None)"

definition buildScopedGroupIdCandidates :: "string option \<Rightarrow> string list" where
  "buildScopedGroupIdCandidates groupId =
    (let raw = js_trim (or_else groupId []) in
     if raw = [] then []
     else case topic_sender_match raw of
       Some (chat, topic) \<Rightarrow> collectUniqueStrings [Some raw, Some (chat @ '':topic:'' @ topic), Some chat]
     | None \<Rightarrow>
         (case scoped_match ''topic'' raw of
            Some (chat, topic) \<Rightarrow> collectUniqueStrings [Some (chat @ '':topic:'' @ topic), Some chat]
          | None \<Rightarrow>
              (case scoped_match ''sender'' raw of
                 Some (chat, sender) \<Rightarrow> collectUniqueStrings [Some raw, Some chat]
               | None \<Rightarrow> [raw])))"

record GroupContext =
  gc_channel :: "string option"
  gc_groupIds :: "string list option"

definition no_group_context :: GroupContext where
  "no_group_context = \<lparr>gc_channel = None, gc_groupIds = None\<rparr>"

definition resolveGroupContextFromSessionKey :: "ConversationEnv \<Rightarrow> string option \<Rightarrow> GroupContext" where
  "resolveGroupContextFromSessionKey env sessionKey =
    (let raw = js_trim (or_else sessionKey []) in
     if raw = [] then no_group_context
     else
       let parsed = parseThreadSessionSuffix (Some raw);
           conversationKey = (if ts_threadId parsed \<noteq> None then ts_baseSessionKey parsed else Some raw)
       in case parseRawSessionConversationRef conversationKey of
            Some conversation \<Rightarrow>
              \<lparr>gc_channel = Some (rc_channel conversation),
               gc_groupIds = Some (collectUniqueStrings
                 (map Some (buildScopedGroupIdCandidates (Some (rc_rawId conversation))) @
                  (case resolveSessionConversation env (rc_channel conversation) (rc_kind conversation) (rc_rawId conversation) True of
                     None \<Rightarrow> []
                   | Some c \<Rightarrow> Some (sc_id c) # Some (sc_baseConversationId c) # map Some (sc_parents c))))\<rparr>
          | None \<Rightarrow>
              let parts = filter (\<lambda>p. p \<noteq> []) (split_char colon (or_else conversationKey raw));
                  body0 = (if parts \<noteq> [] \<and> hd parts = ''agent'' then drop 2 parts else parts);
                  body = (if body0 \<noteq> [] \<and> hd body0 = ''subagent'' then tl body0 else body0)
              in (case body of
                    channel # kind # r # rest \<Rightarrow>
                      let groupId = js_trim (join_with [colon] (r # rest)) in
                      if kind \<noteq> ''group'' \<and> kind \<noteq> ''channel'' then no_group_context
                      else if groupId = [] then no_group_context
                      else \<lparr>gc_channel = Some (normalizeLowercaseStringOrEmpty (Some channel)),
                             gc_groupIds = Some (buildScopedGroupIdCandidates (Some groupId))\<rparr>
                  | _ \<Rightarrow> no_group_context))"

record TrustedGroup =
  tg_groupId :: "string option"
  tg_dropped :: bool

definition resolveTrustedGroupIdFromContexts :: "string option \<Rightarrow> GroupContext \<Rightarrow> GroupContext \<Rightarrow> TrustedGroup" where
  "resolveTrustedGroupIdFromContexts groupId sessionContext spawnedContext =
    (let caller = js_trim (or_else groupId []) in
     if caller = [] then \<lparr>tg_groupId = groupId, tg_dropped = False\<rparr>
     else
       let trusted = collectUniqueStrings
             (map Some (or_else (gc_groupIds sessionContext) []) @ map Some (or_else (gc_groupIds spawnedContext) []))
       in if trusted = [] then \<lparr>tg_groupId = None, tg_dropped = True\<rparr>
          else if caller \<in> set trusted then \<lparr>tg_groupId = groupId, tg_dropped = False\<rparr>
          else \<lparr>tg_groupId = None, tg_dropped = True\<rparr>)"

definition resolveTrustedGroupId :: "ConversationEnv \<Rightarrow> string option \<Rightarrow> string option \<Rightarrow> string option \<Rightarrow> TrustedGroup" where
  "resolveTrustedGroupId env groupId sessionKey spawnedBy =
    resolveTrustedGroupIdFromContexts groupId
      (resolveGroupContextFromSessionKey env sessionKey) (resolveGroupContextFromSessionKey env spawnedBy)"

section \<open>The effective policy\<close>

text \<open>The tool section of the configuration, global or of an agent; of its exec and fs sections only
  their presence counts.\<close>

record AgentToolsConfig = ToolPolicyConfig +
  tc_byProvider :: "(string \<times> ToolPolicyConfig) list option"
  tc_exec :: bool
  tc_fs :: bool

definition resolveExplicitProfileAlsoAllow :: "AgentToolsConfig option \<Rightarrow> string list option" where
  "resolveExplicitProfileAlsoAllow tools = Option.bind tools cfg_alsoAllow"

definition detectImplicitProfileGrants :: "AgentToolsConfig option \<Rightarrow> AgentToolsConfig option \<Rightarrow> bool \<Rightarrow> (string \<times> string list) list option" where
  "detectImplicitProfileGrants globalTools agentTools includeGlobalSections =
    (let has = (\<lambda>f t. case t of None \<Rightarrow> False | Some c \<Rightarrow> f c);
         entries =
           (if has tc_exec agentTools \<or> includeGlobalSections \<and> has tc_exec globalTools
            then [(''tools.exec'', [''exec'', ''process''])] else []) @
           (if has tc_fs agentTools \<or> includeGlobalSections \<and> has tc_fs globalTools
            then [(''tools.fs'', [''read'', ''write'', ''edit''])] else [])
     in if entries = [] then None else Some entries)"

definition formatToolListForWarning :: "string list \<Rightarrow> string" where
  "formatToolListForWarning toolNames = join_with '', '' (map (\<lambda>t. [CHR 0x22] @ t @ [CHR 0x22]) toolNames)"

definition as_policy :: "ToolProfilePolicy \<Rightarrow> ToolPolicyLike" where
  "as_policy p = \<lparr>allow = pp_allow p, deny = pp_deny p, implicitAllowAll = False\<rparr>"

text \<open>The warning about tool sections that a profile does not grant any more.\<close>

definition profile_warning :: "string \<Rightarrow> string option \<Rightarrow> (string \<times> string list) list \<Rightarrow> ToolPolicyLike option \<Rightarrow> string option" where
  "profile_warning profile agentId grants profilePolicy =
    (let uncoveredEntries = filter (\<lambda>e. snd e \<noteq> [])
           (map (\<lambda>e. (fst e, filter (\<lambda>tool. \<not> isToolAllowedByPolicyName tool profilePolicy) (snd e))) grants);
         uncovered = concat (map snd uncoveredEntries)
     in if uncovered = [] then None
        else Some (''tools policy: profile \"'' @ profile @ ''\"''
          @ (case agentId of None \<Rightarrow> [] | Some a \<Rightarrow> if a = [] then [] else '' (agent \"'' @ a @ ''\")'')
          @ '' has configured tool sections ('' @ join_with '' / '' (map fst uncoveredEntries)
          @ '') that no longer implicitly widen the profile. Add alsoAllow: ['' @ formatToolListForWarning uncovered
          @ ''] explicitly if these tools should be available. See #47487.''))"

record EffectiveToolPolicy =
  ep_agentId :: "string option"
  ep_globalPolicy :: "ToolPolicyLike option"
  ep_globalProviderPolicy :: "ToolPolicyLike option"
  ep_agentPolicy :: "ToolPolicyLike option"
  ep_agentProviderPolicy :: "ToolPolicyLike option"
  ep_profile :: "string option"
  ep_providerProfile :: "string option"
  ep_profileAlsoAllow :: "string list option"
  ep_providerProfileAlsoAllow :: "string list option"
  ep_warning :: "string option"

text \<open>\<open>agentToolsOf\<close> is the tool section of an agent of the configuration.\<close>

definition resolveEffectiveToolPolicy :: "AgentToolsConfig option \<Rightarrow> (string \<Rightarrow> AgentToolsConfig option) \<Rightarrow> string option \<Rightarrow> string option \<Rightarrow>
    string option \<Rightarrow> string option \<Rightarrow> EffectiveToolPolicy" where
  "resolveEffectiveToolPolicy globalTools agentToolsOf sessionKey explicitAgent modelProvider modelId =
    (let explicitAgentId = (case explicitAgent of Some a \<Rightarrow> if js_trim a = [] then None else Some (normalizeAgentId (Some a)) | None \<Rightarrow> None);
         agentId = or_opt explicitAgentId
           (case sessionKey of Some k \<Rightarrow> if k = [] then None else Some (resolveAgentIdFromSessionKey (Some k)) | None \<Rightarrow> None);
         agentTools = (case agentId of Some a \<Rightarrow> if a = [] then None else agentToolsOf a | None \<Rightarrow> None);
         profile = or_opt (Option.bind agentTools cfg_profile) (Option.bind globalTools cfg_profile);
         fromAgent = (case Option.bind agentTools cfg_profile of Some p \<Rightarrow> p \<noteq> [] | None \<Rightarrow> False);
         fromGlobal = (\<not> fromAgent \<and> (case Option.bind globalTools cfg_profile of Some p \<Rightarrow> p \<noteq> [] | None \<Rightarrow> False));
         providerPolicy = resolveProviderToolPolicy (Option.bind globalTools tc_byProvider) modelProvider modelId;
         agentProviderPolicy = resolveProviderToolPolicy (Option.bind agentTools tc_byProvider) modelProvider modelId;
         explicitAlso = or_opt (resolveExplicitProfileAlsoAllow agentTools) (resolveExplicitProfileAlsoAllow globalTools);
         warning =
           (case profile of
              None \<Rightarrow> None
            | Some p \<Rightarrow>
                if p = [] then None
                else (case detectImplicitProfileGrants globalTools agentTools fromGlobal of
                        None \<Rightarrow> None
                      | Some grants \<Rightarrow>
                          profile_warning p agentId grants
                            (mergeAlsoAllowPolicy (map_option as_policy (resolveToolProfilePolicy (Some p))) explicitAlso)))
     in \<lparr>ep_agentId = agentId,
         ep_globalPolicy = pickSandboxToolPolicy globalTools,
         ep_globalProviderPolicy = pickSandboxToolPolicy providerPolicy,
         ep_agentPolicy = pickSandboxToolPolicy agentTools,
         ep_agentProviderPolicy = pickSandboxToolPolicy agentProviderPolicy,
         ep_profile = profile,
         ep_providerProfile = or_opt (Option.bind agentProviderPolicy cfg_profile) (Option.bind providerPolicy cfg_profile),
         ep_profileAlsoAllow = map_option uniq explicitAlso,
         ep_providerProfileAlsoAllow =
           or_opt (Option.bind agentProviderPolicy cfg_alsoAllow) (Option.bind providerPolicy cfg_alsoAllow),
         ep_warning = warning\<rparr>)"

end
