(* ===== verification/ToolPolicyProps.thy ===== *)
theory ToolPolicyProps
  imports ToolPipeline ToolAccess
begin

text \<open>
  What tool policies guarantee: patterns mean what a glob means, a policy decides by its expanded
  lists and denial wins, the pipeline is one filter whatever the order of its steps, owner-only
  tools stay with owners, and a spawned session gets no tool its requester lacks.
\<close>

section \<open>Globs\<close>

text \<open>A value matches a pattern when the stars of the pattern can be replaced by texts without line
  ends so that the value results.\<close>

inductive glob :: "string \<Rightarrow> string \<Rightarrow> bool" where
  glob_end: "glob [] []"
| glob_char: "c \<noteq> CHR ''*'' \<Longrightarrow> glob p s \<Longrightarrow> glob (c # p) (c # s)"
| glob_star: "no_line_end w \<Longrightarrow> glob p s \<Longrightarrow> glob (CHR ''*'' # p) (w @ s)"

inductive_cases glob_NilE: "glob [] s"
inductive_cases glob_ConsE: "glob (c # p) s"

definition glob_items :: "string \<Rightarrow> regex_item list" where
  "glob_items p = map (\<lambda>c. if c = CHR ''*'' then AnyRun else Literal c) p"

lemma escape_head: "escapeRegex s = c # r \<Longrightarrow> c \<noteq> CHR ''*''"
  by (cases s) (auto simp: escapeRegex_def regex_special_def split: if_splits)

lemma stars_Cons: "stars_to_runs (c # escapeRegex s) = c # stars_to_runs (escapeRegex s)"
  using escape_head [of s] by (cases "escapeRegex s") auto

lemma escape_Cons: "escapeRegex (c # s) = (if regex_special c then [CHR 0x5C, c] else [c]) @ escapeRegex s"
  by (simp add: escapeRegex_def)

text \<open>The compiled source denotes the pattern with its stars as runs.\<close>

lemma compiled_items: "regex_items (stars_to_runs (escapeRegex p)) = glob_items p"
proof (induction p)
  case (Cons c p)
  let ?rest = "stars_to_runs (escapeRegex p)"
  consider (star) "c = CHR ''*''" | (special) "c \<noteq> CHR ''*''" "regex_special c" | (plain) "c \<noteq> CHR ''*''" "\<not> regex_special c" by blast
  then show ?case
  proof cases
    case star
    then have "stars_to_runs (escapeRegex (c # p)) = ''.*'' @ ?rest" by (simp add: escape_Cons regex_special_def)
    then show ?thesis using Cons star by (simp add: glob_items_def)
  next
    case special
    then have "stars_to_runs (escapeRegex (c # p)) = CHR 0x5C # c # ?rest" by (simp add: escape_Cons stars_Cons)
    then show ?thesis using Cons special by (simp add: glob_items_def)
  next
    case plain
    then have "stars_to_runs (escapeRegex (c # p)) = c # ?rest" by (simp add: escape_Cons stars_Cons)
    moreover have "c \<noteq> CHR 0x5C" "c \<noteq> CHR ''.''" using plain by (auto simp: regex_special_def)
    ultimately show ?thesis using Cons plain by (cases ?rest) (simp_all add: glob_items_def)
  qed
qed (simp add: escapeRegex_def glob_items_def)

lemma glob_star_step: "\<not> is_line_end d \<Longrightarrow> glob (CHR ''*'' # p) s \<Longrightarrow> glob (CHR ''*'' # p) (d # s)"
proof (elim glob_ConsE)
  fix w r assume "\<not> is_line_end d" "no_line_end w" "glob p r" "s = w @ r"
  then show ?thesis using glob_star [of "d # w" p r] by (simp add: no_line_end_def)
qed auto

lemma match_items_glob: "match_items (glob_items p) s \<longleftrightarrow> glob p s"
proof
  show "glob p s \<Longrightarrow> match_items (glob_items p) s"
  proof (induction rule: glob.induct)
    case (glob_star w p s)
    from glob_star(1,3) show ?case
    proof (induction w)
      case Nil
      then show ?case by (cases s) (simp_all add: glob_items_def)
    qed (simp add: glob_items_def no_line_end_def)
  qed (simp_all add: glob_items_def)
next
  have "match_items is s \<Longrightarrow> is = glob_items p \<Longrightarrow> glob p s" for "is"
  proof (induction "is" s arbitrary: p rule: match_items.induct)
    case (1 s)
    then show ?case by (simp add: glob_items_def glob_end)
  next
    case (2 c "is" s)
    then obtain q where p: "p = c # q" "c \<noteq> CHR ''*''" "is = glob_items q"
      by (auto simp: glob_items_def split: if_splits)
    obtain r where s: "s = c # r" "match_items is r" using 2(2) by (cases s) auto
    then show ?case using 2(1) p by (auto intro: glob_char)
  next
    case (3 "is")
    then obtain q where p: "p = CHR ''*'' # q" "is = glob_items q" by (auto simp: glob_items_def split: if_splits)
    then show ?case using 3 glob_star [of "[]" q "[]"] by (simp add: no_line_end_def)
  next
    case (4 "is" d r)
    then obtain q where p: "p = CHR ''*'' # q" "is = glob_items q" by (auto simp: glob_items_def split: if_splits)
    consider "match_items is (d # r)" | "\<not> is_line_end d" "match_items (AnyRun # is) r" using 4(3) by auto
    then show ?case
    proof cases
      case 1
      then show ?thesis using 4(1) p glob_star [of "[]" q "d # r"] by (simp add: no_line_end_def)
    next
      case 2
      then show ?thesis using 4(2) [of p] p 4(4) glob_star_step by simp
    qed
  qed
  then show "match_items (glob_items p) s \<Longrightarrow> glob p s" by blast
qed

lemma glob_without_stars: "CHR ''*'' \<notin> set p \<Longrightarrow> glob p s \<longleftrightarrow> s = p"
proof (induction p arbitrary: s)
  case Nil
  then show ?case by (auto intro: glob_end elim: glob_NilE)
next
  case (Cons c p)
  then show ?case by (auto intro: glob_char elim!: glob_ConsE)
qed

lemma matches_pattern_glob:
  "matches_pattern v (compileGlobPattern nrm raw) \<longleftrightarrow> nrm raw = ''*'' \<or> glob (nrm raw) v"
  by (auto simp: compileGlobPattern_def matches_pattern_def Let_def compiled_items match_items_glob glob_without_stars
      intro: glob_end elim: glob_NilE)

section \<open>Decisions of a policy\<close>

text \<open>The names and patterns of a list after groups are expanded, and what a pattern names.\<close>

definition policy_patterns :: "string list option \<Rightarrow> string list" where
  "policy_patterns entries = filter (\<lambda>p. p \<noteq> []) (map normalizeToolName (expandToolGroups entries))"

definition names_tool :: "string \<Rightarrow> string \<Rightarrow> bool" where
  "names_tool tool pattern \<longleftrightarrow> pattern = ''*'' \<or> glob pattern tool"

lemma compiled_patterns:
  "compileGlobPatterns normalizeToolName (Some (expandToolGroups entries)) =
    map (compileGlobPattern id) (policy_patterns entries)"
proof -
  have "filter (\<lambda>pattern. pattern \<noteq> GlobExact []) (map (compileGlobPattern normalizeToolName) xs)
      = map (compileGlobPattern id) (filter (\<lambda>p. p \<noteq> []) (map normalizeToolName xs))" for xs
    by (induction xs) (auto simp: compileGlobPattern_def Let_def)
  then show ?thesis by (simp add: compileGlobPatterns_def policy_patterns_def)
qed

lemma matches_any: "matchesAnyGlobPattern v (map (compileGlobPattern id) ps) \<longleftrightarrow> list_ex (names_tool v) ps"
  by (induction ps) (simp_all add: matchesAnyGlobPattern_def matches_pattern_glob names_tool_def)

lemma policy_decides:
  "isToolAllowedByPolicyName name (Some policy) \<longleftrightarrow>
    (let tool = normalizeToolName name; denied = policy_patterns (deny policy); allowed = policy_patterns (allow policy) in
      \<not> list_ex (names_tool tool) denied \<and>
      (allowed = [] \<or> list_ex (names_tool tool) allowed \<or> tool = ''apply_patch'' \<and> list_ex (names_tool ''write'') allowed))"
  by (auto simp: isToolAllowedByPolicyName_def makeToolPolicyMatcher_def Let_def compiled_patterns matches_any)

lemma normalizeToolName_idem [simp]: "normalizeToolName (normalizeToolName n) = normalizeToolName n"
proof -
  let ?n = "normalizeLowercaseStringOrEmpty (Some n)"
  have "normalizeToolName ''exec'' = ''exec''" "normalizeToolName ''apply_patch'' = ''apply_patch''" by code_simp+
  moreover have "?n \<noteq> ''bash'' \<Longrightarrow> ?n \<noteq> ''apply-patch'' \<Longrightarrow> normalizeToolName ?n = ?n"
    by (simp add: normalizeToolName_def TOOL_NAME_ALIASES_def Let_def)
  ultimately show ?thesis
    by (cases "?n = ''bash''"; cases "?n = ''apply-patch''") (simp_all add: normalizeToolName_def [of n] TOOL_NAME_ALIASES_def Let_def)
qed

section \<open>Owner-only tools\<close>

text \<open>Whether a sender may use a tool.\<close>

definition sender_may_use :: "bool \<Rightarrow> string list option \<Rightarrow> 'e AgentTool \<Rightarrow> bool" where
  "sender_may_use senderIsOwner granted tool \<longleftrightarrow>
    senderIsOwner \<or> \<not> isOwnerOnlyTool tool \<or> normalizeToolName (tool_name tool) \<in> normalizeToolName ` set (or_else granted [])"

lemma owner_only_filter:
  "applyOwnerOnlyToolPolicy tools senderIsOwner granted = filter (sender_may_use senderIsOwner granted) tools"
proof (induction tools)
  case (Cons t ts)
  have wrapped: "tool_name (wrapOwnerOnlyToolExecution t a) = tool_name t" "isOwnerOnlyTool (wrapOwnerOnlyToolExecution t a) = isOwnerOnlyTool t"
    "wrapOwnerOnlyToolExecution t True = t" for a
    by (simp_all add: wrapOwnerOnlyToolExecution_def isOwnerOnlyTool_def)
  show ?case using Cons
    by (cases senderIsOwner; cases "isOwnerOnlyTool t"; cases "normalizeToolName (tool_name t) \<in> normalizeToolName ` set (or_else granted [])")
      (simp_all add: applyOwnerOnlyToolPolicy_def Let_def sender_may_use_def wrapped)
qed (simp add: applyOwnerOnlyToolPolicy_def Let_def)

section \<open>Policies by provider\<close>

text \<open>The entry that counts for a key: the first canonical one, or else the first one.\<close>

definition provider_entry :: "string \<Rightarrow> (string \<times> 'p) list \<Rightarrow> (bool \<times> 'p) option" where
  "provider_entry n entries =
    (case find (\<lambda>e. normalizeProviderKey (fst e) = n \<and> isCanonicalProviderKey (fst e)) entries of
       Some e \<Rightarrow> Some (True, snd e)
     | None \<Rightarrow> map_option (\<lambda>e. (False, snd e)) (find (\<lambda>e. normalizeProviderKey (fst e) = n) entries))"

lemma provider_fold:
  assumes "n \<noteq> []"
  shows "jm_get (foldl add_provider_entry m entries) n =
    (case jm_get m n of
       None \<Rightarrow> provider_entry n entries
     | Some (True, v) \<Rightarrow> Some (True, v)
     | Some (False, v) \<Rightarrow>
         (case find (\<lambda>e. normalizeProviderKey (fst e) = n \<and> isCanonicalProviderKey (fst e)) entries of
            Some e \<Rightarrow> Some (True, snd e) | None \<Rightarrow> Some (False, v)))"
proof (induction entries arbitrary: m)
  case Nil
  then show ?case by (auto simp: provider_entry_def split: option.split bool.split)
next
  case (Cons e entries)
  have step: "jm_get (add_provider_entry m e) n =
      (if normalizeProviderKey (fst e) \<noteq> n then jm_get m n
       else case jm_get m n of
         None \<Rightarrow> Some (isCanonicalProviderKey (fst e), snd e)
       | Some (old, v) \<Rightarrow> if isCanonicalProviderKey (fst e) \<and> \<not> old then Some (True, snd e) else Some (old, v))"
    using assms by (auto simp: add_provider_entry_def Let_def split: option.split)
  show ?case
  proof (cases "normalizeProviderKey (fst e) = n")
    case False
    then show ?thesis using Cons.IH [of "add_provider_entry m e"]
      by (auto simp: step provider_entry_def split: option.split bool.split)
  next
    case True
    then show ?thesis using Cons.IH [of "add_provider_entry m e"]
      by (cases "jm_get m n"; cases "isCanonicalProviderKey (fst e)")
        (auto simp: step provider_entry_def split: option.split bool.split if_splits)
  qed
qed

lemma provider_lookup:
  "n \<noteq> [] \<Longrightarrow> jm_get (buildProviderToolPolicyLookup entries) n = map_option snd (provider_entry n entries)"
proof -
  assume "n \<noteq> []"
  have "jm_get (map (\<lambda>(k, c, v). (k, v)) m) n = map_option snd (jm_get m n)" for m :: "(string, bool \<times> 'a) jsmap"
    by (induction m) auto
  then show ?thesis using provider_fold [OF \<open>n \<noteq> []\<close>, of "[]" entries] by (simp add: buildProviderToolPolicyLookup_def)
qed

section \<open>Spawned sessions\<close>

lemma effective_allowlist:
  "set (replaceWithEffectiveToolAllowlist tools) = normalizeToolName ` tool_name ` set tools - {[]} \<and>
    distinct (replaceWithEffectiveToolAllowlist tools)"
proof -
  let ?f = "\<lambda>target tool. let normalized = normalizeToolName (tool_name tool) in
    if normalized = [] \<or> normalized \<in> set target then target else target @ [normalized]"
  have "distinct target \<Longrightarrow> [] \<notin> set target \<Longrightarrow>
      set (foldl ?f target ts) = set target \<union> (normalizeToolName ` tool_name ` set ts - {[]}) \<and> distinct (foldl ?f target ts)"
    for target and ts :: "'a AgentTool list"
    by (induction ts arbitrary: target) (auto simp: Let_def)
  from this [of "[]" tools] show ?thesis by (simp add: replaceWithEffectiveToolAllowlist_def)
qed

lemma inherited_list_kept:
  assumes "distinct xs" "[] \<notin> set xs" "\<And>x. x \<in> set xs \<Longrightarrow> normalizeToolName x = x"
  shows "normalizeInheritedToolAllowlist (Some (map Some xs)) = xs"
proof -
  let ?f = "\<lambda>result entry. case entry of None \<Rightarrow> result
    | Some e \<Rightarrow> let normalized = normalizeToolName e in
        if normalized = [] \<or> normalized \<in> set result then result else result @ [normalized]"
  have "distinct (ys @ xs) \<Longrightarrow> [] \<notin> set xs \<Longrightarrow> \<forall>x \<in> set xs. normalizeToolName x = x \<Longrightarrow> foldl ?f ys (map Some xs) = ys @ xs" for ys
    by (induction xs arbitrary: ys) (auto simp: Let_def)
  then show ?thesis using assms by (simp add: normalizeInheritedToolAllowlist_def normalizeInheritedToolDenylist_def)
qed

text \<open>A tool name that stands only for itself: no pattern and no group.\<close>

definition plain_tool_name :: "string \<Rightarrow> bool" where
  "plain_tool_name n \<longleftrightarrow> CHR ''*'' \<notin> set n \<and> jm_get TOOL_GROUPS n = None"

lemma normalizeToolList_fixed:
  "(\<And>x. x \<in> set xs \<Longrightarrow> normalizeToolName x = x \<and> x \<noteq> []) \<Longrightarrow> normalizeToolList (Some xs) = xs"
  by (induction xs) (auto simp: normalizeToolList_def)

lemma policy_patterns_plain:
  assumes "\<And>x. x \<in> set xs \<Longrightarrow> normalizeToolName x = x \<and> x \<noteq> [] \<and> plain_tool_name x"
  shows "set (policy_patterns (Some xs)) = set xs"
proof -
  have "concat (map (\<lambda>value. case jm_get TOOL_GROUPS value of Some members \<Rightarrow> members | None \<Rightarrow> [value]) xs) = xs"
    using assms by (induction xs) (auto simp: plain_tool_name_def)
  then have "expandToolGroups (Some xs) = uniq xs"
    using normalizeToolList_fixed [of xs] assms by (simp add: expandToolGroups_def)
  then show ?thesis using assms by (force simp: policy_patterns_def image_iff)
qed

lemma names_plain: "plain_tool_name p \<Longrightarrow> p \<noteq> [] \<Longrightarrow> names_tool tool p \<longleftrightarrow> tool = p"
  by (auto simp: names_tool_def plain_tool_name_def glob_without_stars)

lemma policy_patterns_none [simp]: "policy_patterns None = []" "policy_patterns (Some []) = []"
  by code_simp+

lemma inherited_policy_decides:
  "isToolAllowedByPolicyName name (resolveInheritedToolPolicyForSession own denied) \<longleftrightarrow>
    (let tool = normalizeToolName name; allowed = policy_patterns (Some own) in
      \<not> list_ex (names_tool tool) (policy_patterns (Some denied)) \<and>
      (allowed = [] \<or> list_ex (names_tool tool) allowed \<or> tool = ''apply_patch'' \<and> list_ex (names_tool ''write'') allowed))"
  by (cases "own = []"; cases "denied = []")
    (simp_all add: resolveInheritedToolPolicyForSession_def policy_decides isToolAllowedByPolicyName_def [of name None] Let_def)

lemma inherited_tools:
  assumes tools: "\<And>t. t \<in> set tools \<Longrightarrow> normalizeToolName (tool_name t) \<noteq> [] \<and> plain_tool_name (normalizeToolName (tool_name t))"
  shows "normalizeInheritedToolAllowlist (Some (map Some (replaceWithEffectiveToolAllowlist tools))) = replaceWithEffectiveToolAllowlist tools"
    and "list_ex (names_tool v) (policy_patterns (Some (replaceWithEffectiveToolAllowlist tools)))
      \<longleftrightarrow> v \<in> normalizeToolName ` tool_name ` set tools"
    and "policy_patterns (Some (replaceWithEffectiveToolAllowlist tools)) = [] \<longleftrightarrow> tools = []"
proof -
  let ?own = "replaceWithEffectiveToolAllowlist tools"
  have own: "set ?own = normalizeToolName ` tool_name ` set tools" "distinct ?own"
    using effective_allowlist [of tools] tools by auto
  have fixed: "normalizeToolName x = x \<and> x \<noteq> [] \<and> plain_tool_name x" if "x \<in> set ?own" for x
    using that tools unfolding own(1) by auto
  show "normalizeInheritedToolAllowlist (Some (map Some ?own)) = ?own"
    using inherited_list_kept [OF own(2)] fixed by blast
  have pats: "set (policy_patterns (Some ?own)) = set ?own" using fixed by (rule policy_patterns_plain)
  have "list_ex (names_tool v) (policy_patterns (Some ?own)) \<longleftrightarrow> (\<exists>p \<in> set ?own. names_tool v p)"
    unfolding list_ex_iff pats ..
  also have "\<dots> \<longleftrightarrow> (\<exists>p \<in> set ?own. v = p)" by (intro bex_cong refl names_plain) (use fixed in blast)+
  also have "\<dots> \<longleftrightarrow> v \<in> set ?own" by simp
  finally show "list_ex (names_tool v) (policy_patterns (Some ?own)) \<longleftrightarrow> v \<in> normalizeToolName ` tool_name ` set tools"
    unfolding own(1) .
  have "policy_patterns (Some ?own) = [] \<longleftrightarrow> set ?own = {}" unfolding pats [symmetric] by simp
  then show "policy_patterns (Some ?own) = [] \<longleftrightarrow> tools = []" unfolding own(1) by simp
qed

section \<open>Sub-agents\<close>

lemma deny_names:
  assumes "tool \<in> set (or_else (deny policy) [])" "normalizeToolName tool = tool" "tool \<noteq> []" "jm_get TOOL_GROUPS tool = None"
    "normalizeToolName name = tool"
  shows "\<not> isToolAllowedByPolicyName name (Some policy)"
proof -
  have "tool \<in> set (normalizeToolList (deny policy))"
    using assms(1-3) by (force simp: normalizeToolList_def)
  then have "tool \<in> set (expandToolGroups (deny policy))" using assms(4) by (force simp: expandToolGroups_def)
  then have "tool \<in> set (policy_patterns (deny policy))" using assms(2,3) by (force simp: policy_patterns_def)
  moreover have "names_tool tool tool"
  proof -
    have "glob t t" for t
    proof (induction t)
      case (Cons c t)
      then show ?case using glob_star [of "''*''" t t] by (cases "c = CHR ''*''") (auto intro: glob_char simp: no_line_end_def is_line_end_def)
    qed (rule glob_end)
    then show ?thesis by (simp add: names_tool_def)
  qed
  ultimately show ?thesis unfolding policy_decides Let_def list_ex_iff using assms(5) by blast
qed

lemma deny_always_plain:
  "tool \<in> set (SUBAGENT_TOOL_DENY_ALWAYS @ SUBAGENT_TOOL_DENY_LEAF) \<Longrightarrow>
    normalizeToolName tool = tool \<and> tool \<noteq> [] \<and> jm_get TOOL_GROUPS tool = None"
proof -
  have "list_all (\<lambda>t. normalizeToolName t = t \<and> t \<noteq> [] \<and> jm_get TOOL_GROUPS t = None) (SUBAGENT_TOOL_DENY_ALWAYS @ SUBAGENT_TOOL_DENY_LEAF)"
    by code_simp
  then show "tool \<in> set (SUBAGENT_TOOL_DENY_ALWAYS @ SUBAGENT_TOOL_DENY_LEAF) \<Longrightarrow> ?thesis" by (auto simp: list_all_iff)
qed

section \<open>Trusted groups\<close>

lemma trusted_group:
  "resolveTrustedGroupIdFromContexts groupId a b =
    (let caller = js_trim (or_else groupId []);
         vouched = caller = [] \<or> caller \<in> set (collectUniqueStrings (map Some (or_else (gc_groupIds a) [] @ or_else (gc_groupIds b) [])))
     in \<lparr>tg_groupId = (if vouched then groupId else None), tg_dropped = (\<not> vouched)\<rparr>)"
  by (auto simp: resolveTrustedGroupIdFromContexts_def Let_def)

lemma provider_lookup_all:
  "jm_get (buildProviderToolPolicyLookup entries) n = (if n = [] then None else map_option snd (provider_entry n entries))"
proof (cases "n = []")
  case True
  have "jm_get (add_provider_entry m e) [] = jm_get m []" for m :: "(string, bool \<times> 'a) jsmap" and e
    by (auto simp: add_provider_entry_def Let_def split: option.split)
  then have "jm_get (foldl add_provider_entry m entries) [] = jm_get m []" for m
    by (induction entries arbitrary: m) simp_all
  moreover have "jm_get (map (\<lambda>(k, c, v). (k, v)) m) n = map_option snd (jm_get m n)" for m :: "(string, bool \<times> 'a) jsmap"
    by (induction m) auto
  ultimately show ?thesis using True by (simp add: buildProviderToolPolicyLookup_def)
qed (simp add: provider_lookup)

section \<open>Properties\<close>

text \<open>C15: What a policy allows: a tool passes exactly when, after groups are expanded and names brought to their
  canonical form, no pattern of the deny list names it and the allow list is empty or one of its patterns names it,
  patching being allowed by writing as well; a pattern names what its stars, as any text without line ends, make of it.\<close>

theorem tool_policy_decides:
  "isToolAllowedByPolicyName name policy \<longleftrightarrow>
    (case policy of
       None \<Rightarrow> True
     | Some p \<Rightarrow>
         let tool = normalizeToolName name; denied = policy_patterns (deny p); allowed = policy_patterns (allow p) in
         \<not> list_ex (names_tool tool) denied \<and>
         (allowed = [] \<or> list_ex (names_tool tool) allowed \<or> tool = ''apply_patch'' \<and> list_ex (names_tool ''write'') allowed))"
  by (cases policy) (simp_all add: policy_decides isToolAllowedByPolicyName_def [of name None])

text \<open>C16: The pipeline of policies is one filter: the tools it returns are, in their order, those that the policy of
  every step allows with the tools of plugins in place of their groups, whatever the order of the steps and the warnings.\<close>

theorem tool_pipeline_filters:
  "ps_filtered (applyToolPolicyPipeline tools toolMeta steps cache) =
    filter (\<lambda>tool. list_all (\<lambda>step. isToolAllowedByPolicyName (tool_name tool)
        (expandPolicyWithPluginGroups (step_policy step) (buildPluginToolGroups tools toolMeta))) steps) tools"
  by (simp add: pipeline_filters step_allows_def list_all_iff)

text \<open>C17: Spawning never widens what an agent can do. Let the names of the requester's tools be plain (not empty, without stars,
  not names of tool groups). If the requester has a tool at all, then under the lists that a session inherits from it, a tool may be called
  exactly if it is one of the requester's, or a patch where the requester may write, and no pattern of the inherited deny list
  names it. A requester without any tool leaves an empty list, which restricts nothing: then only the deny list counts.\<close>

theorem spawned_session_inherits:
  assumes "\<And>t. t \<in> set tools \<Longrightarrow> normalizeToolName (tool_name t) \<noteq> [] \<and> plain_tool_name (normalizeToolName (tool_name t))"
  shows "isToolAllowedByPolicyName name (resolveInheritedToolPolicyForSession
      (normalizeInheritedToolAllowlist (Some (map Some (replaceWithEffectiveToolAllowlist tools)))) denied) \<longleftrightarrow>
    \<not> list_ex (names_tool (normalizeToolName name)) (policy_patterns (Some denied)) \<and>
    (tools = [] \<or> normalizeToolName name \<in> normalizeToolName ` tool_name ` set tools \<or>
     normalizeToolName name = ''apply_patch'' \<and> ''write'' \<in> normalizeToolName ` tool_name ` set tools)"
  by (simp add: inherited_tools [OF assms] inherited_policy_decides Let_def)

definition sample_tools :: "nat AgentTool list" where
  "sample_tools = [\<lparr>tool_name = ''read'', ownerOnly = None, execute = Some (Runs 1)\<rparr>, \<lparr>tool_name = ''bash'', ownerOnly = None, execute = None\<rparr>]"

theorem spawned_session_inherits_witness:
  "isToolAllowedByPolicyName ''exec'' (resolveInheritedToolPolicyForSession
      (normalizeInheritedToolAllowlist (Some (map Some (replaceWithEffectiveToolAllowlist sample_tools)))) []) \<and>
   \<not> isToolAllowedByPolicyName ''write'' (resolveInheritedToolPolicyForSession
      (normalizeInheritedToolAllowlist (Some (map Some (replaceWithEffectiveToolAllowlist sample_tools)))) [])"
proof -
  have "list_all (\<lambda>t. normalizeToolName (tool_name t) \<noteq> [] \<and> plain_tool_name (normalizeToolName (tool_name t))) sample_tools"
    by code_simp
  then have plain: "normalizeToolName (tool_name t) \<noteq> [] \<and> plain_tool_name (normalizeToolName (tool_name t))" if "t \<in> set sample_tools" for t
    using that by (simp add: list_all_iff)
  have "normalizeToolName ''exec'' = ''exec''" "normalizeToolName ''write'' = ''write''" by code_simp+
  moreover have "normalizeToolName ` tool_name ` set sample_tools = {''read'', ''exec''}"
  proof -
    have "map (\<lambda>t. normalizeToolName (tool_name t)) sample_tools = [''read'', ''exec'']" by code_simp
    from arg_cong [OF this, of set] show ?thesis by (simp add: image_image)
  qed
  ultimately show ?thesis
    using spawned_session_inherits [of sample_tools "''exec''" "[]", OF plain] spawned_session_inherits [of sample_tools "''write''" "[]", OF plain]
    by (simp add: sample_tools_def)
qed

text \<open>A sub-agent never gets what its role forbids: a tool on the deny list of the role of a session is refused
  under any of its names, unless the configuration of sub-agents lists it by name.\<close>

lemma subagent_role_denied:
  assumes "tool \<in> set (resolveSubagentDenyListForRole role)" "normalizeToolName name = tool"
    and "tool \<notin> normalizeToolName ` set (or_else (Option.bind configured cfg_allow) [] @ or_else (Option.bind configured cfg_alsoAllow) [])"
  shows "\<not> isToolAllowedByPolicyName name (Some (resolveSubagentToolPolicyForSession configured role))"
proof (rule deny_names [OF _ _ _ _ assms(2)])
  have "tool \<in> set (SUBAGENT_TOOL_DENY_ALWAYS @ SUBAGENT_TOOL_DENY_LEAF)"
    using assms(1) by (auto simp: resolveSubagentDenyListForRole_def split: if_splits)
  from deny_always_plain [OF this] show t: "normalizeToolName tool = tool" "tool \<noteq> []" "jm_get TOOL_GROUPS tool = None" by blast+
  show "tool \<in> set (or_else (deny (resolveSubagentToolPolicyForSession configured role)) [])"
    using assms t(1) by (auto simp: resolveSubagentToolPolicyForSession_def subagent_policy_def Let_def)
qed

lemma subagent_role_denied_witness:
  "\<not> isToolAllowedByPolicyName ''Sessions_Spawn'' (Some (resolveSubagentToolPolicyForSession
    (Some \<lparr>cfg_allow = Some [''*''], cfg_alsoAllow = None, cfg_deny = None\<rparr>) LeafRole))"
proof (rule subagent_role_denied [where tool = "''sessions_spawn''"])
  show "''sessions_spawn'' \<in> set (resolveSubagentDenyListForRole LeafRole)" by code_simp
  show "normalizeToolName ''Sessions_Spawn'' = ''sessions_spawn''" by code_simp
  show "''sessions_spawn'' \<notin> normalizeToolName ` set (or_else (Option.bind (Some \<lparr>cfg_allow = Some [''*''], cfg_alsoAllow = None, cfg_deny = None\<rparr>) cfg_allow) []
      @ or_else (Option.bind (Some \<lparr>cfg_allow = Some [''*''], cfg_alsoAllow = None, cfg_deny = None\<rparr>) cfg_alsoAllow) [])"
    by code_simp
qed

text \<open>A caller cannot choose its group policy: the group id it gives counts exactly when it is blank or one of the
  ids that its session key, or the key of the session that spawned it, vouches for; any other is dropped.\<close>

lemma untrusted_group_dropped:
  "resolveTrustedGroupId env groupId sessionKey spawnedBy =
    (let caller = js_trim (or_else groupId []);
         ids = (\<lambda>key. or_else (gc_groupIds (resolveGroupContextFromSessionKey env key)) []);
         vouched = caller = [] \<or> caller \<in> set (collectUniqueStrings (map Some (ids sessionKey @ ids spawnedBy)))
     in \<lparr>tg_groupId = (if vouched then groupId else None), tg_dropped = (\<not> vouched)\<rparr>)"
  by (simp add: resolveTrustedGroupId_def trusted_group Let_def)

end
