(* ===== verification/DiagnosticState.thy ===== *)
theory DiagnosticState
  imports JsString JsMap
begin

text \<open>
  The diagnostic state of sessions (src/src/logging/diagnostic-session-state.ts), the transitions
  that src/src/logging/diagnostic.ts makes on it and the poll counters of
  src/src/agents/command-poll-backoff.ts. The table is an insertion-ordered map; a caller holds a
  reference to an entry of it, which is the entry's key together with the state it reads, and what
  it writes goes to the entry as long as that is still in the table. Times are in milliseconds and
  are arguments.
\<close>

section \<open>State\<close>

datatype SessionStateValue = IdleState | ProcessingState | WaitingState

record ToolCallRecord =
  toolName :: string
  argsHash :: string
  toolCallId :: "string option"
  runId :: "string option"
  resultHash :: "string option"
  unknownToolName :: "string option"
  timestamp :: int

record PollCount =
  pollCount :: int
  lastPollAt :: int

record SessionState =
  sessionId :: "string option"
  sessionKey :: "string option"
  lastActivity :: int
  generation :: "int option"
  lastStuckWarnAgeMs :: "int option"
  lastLongRunningWarnAgeMs :: "int option"
  sessionState :: SessionStateValue
  queueDepth :: int
  activeQueuedTurn :: "bool option"
  toolCallHistory :: "ToolCallRecord list option"
  toolLoopWarningBuckets :: "(string, int) jsmap option"
  commandPollCounts :: "(string, PollCount) jsmap option"

record SessionRef =
  ref_sessionId :: "string option"
  ref_sessionKey :: "string option"

record Diagnostics =
  diagnosticSessionStates :: "(string, SessionState) jsmap"
  lastSessionPruneAt :: int

definition SESSION_STATE_TTL_MS :: int where
  "SESSION_STATE_TTL_MS = 30 * 60 * 1000"

definition SESSION_STATE_PRUNE_INTERVAL_MS :: int where
  "SESSION_STATE_PRUNE_INTERVAL_MS = 60 * 1000"

definition SESSION_STATE_MAX_ENTRIES :: nat where
  "SESSION_STATE_MAX_ENTRIES = 2000"

text \<open>A string that JavaScript takes for true: present and not empty.\<close>

definition truthy :: "string option \<Rightarrow> bool" where
  "truthy s \<longleftrightarrow> s \<noteq> None \<and> s \<noteq> Some []"

section \<open>Pruning\<close>

definition expired :: "int \<Rightarrow> SessionState \<Rightarrow> bool" where
  "expired now s \<longleftrightarrow> sessionState s = IdleState \<and> queueDepth s \<le> 0 \<and> SESSION_STATE_TTL_MS < now - lastActivity s"

definition by_activity :: "string \<times> SessionState \<Rightarrow> string \<times> SessionState \<Rightarrow> int" where
  "by_activity a b = lastActivity (snd a) - lastActivity (snd b)"

text \<open>The deletion loop over the entries in order of activity stops at an empty key.\<close>

fun delete_oldest :: "nat \<Rightarrow> (string \<times> SessionState) list \<Rightarrow> (string, SessionState) jsmap \<Rightarrow> (string, SessionState) jsmap" where
  "delete_oldest 0 ordered m = m"
| "delete_oldest (Suc n) [] m = m"
| "delete_oldest (Suc n) ((k, s) # ordered) m = (if k = [] then m else delete_oldest n ordered (jm_del k m))"

definition pruneDiagnosticSessionStates :: "int \<Rightarrow> bool \<Rightarrow> Diagnostics \<Rightarrow> Diagnostics" where
  "pruneDiagnosticSessionStates now force d =
    (let m = diagnosticSessionStates d in
     if \<not> force \<and> \<not> SESSION_STATE_MAX_ENTRIES < length m \<and> now - lastSessionPruneAt d < SESSION_STATE_PRUNE_INTERVAL_MS
     then d
     else
       let m1 = filter (\<lambda>p. \<not> expired now (snd p)) m in
       \<lparr> diagnosticSessionStates =
           (if length m1 \<le> SESSION_STATE_MAX_ENTRIES then m1
            else delete_oldest (length m1 - SESSION_STATE_MAX_ENTRIES) (js_sort by_activity m1) m1),
         lastSessionPruneAt = now \<rparr>)"

section \<open>Finding and merging\<close>

definition resolveSessionKey :: "SessionRef \<Rightarrow> string" where
  "resolveSessionKey r = or_else (ref_sessionKey r) (or_else (ref_sessionId r) ''unknown'')"

definition findStateEntryBySessionId :: "string \<Rightarrow> (string, SessionState) jsmap \<Rightarrow> (string \<times> SessionState) option" where
  "findStateEntryBySessionId i m = find (\<lambda>p. sessionId (snd p) = Some i) m"

definition sessionStatePriority :: "SessionStateValue \<Rightarrow> int" where
  "sessionStatePriority v = (case v of IdleState \<Rightarrow> 0 | WaitingState \<Rightarrow> 1 | ProcessingState \<Rightarrow> 2)"

definition max_bucket :: "(string, int) jsmap \<Rightarrow> string \<times> int \<Rightarrow> (string, int) jsmap" where
  "max_bucket bs p = jm_set (fst p) (max (or_else (jm_get bs (fst p)) 0) (snd p)) bs"

definition newer_poll :: "(string, PollCount) jsmap \<Rightarrow> string \<times> PollCount \<Rightarrow> (string, PollCount) jsmap" where
  "newer_poll cs p =
    (case jm_get cs (fst p) of
       None \<Rightarrow> jm_set (fst p) (snd p) cs
     | Some old \<Rightarrow> if lastPollAt old < lastPollAt (snd p) then jm_set (fst p) (snd p) cs else cs)"

definition max_age :: "int option \<Rightarrow> int option \<Rightarrow> int option" where
  "max_age a b = (case (a, b) of (Some x, Some y) \<Rightarrow> Some (max x y) | _ \<Rightarrow> None)"

text \<open>\<open>a ||= b\<close> of optional booleans.\<close>

definition or_assign :: "bool option \<Rightarrow> bool option \<Rightarrow> bool option" where
  "or_assign a b = (if a = Some True then a else b)"

definition mergeSessionState :: "SessionState \<Rightarrow> SessionState \<Rightarrow> SessionState" where
  "mergeSessionState target source =
    (let newer = lastActivity target < lastActivity source;
         same_age = lastActivity source = lastActivity target \<and>
           sessionStatePriority (sessionState target) < sessionStatePriority (sessionState source)
     in \<lparr> sessionId = or_opt (sessionId target) (sessionId source),
          sessionKey = or_opt (sessionKey target) (sessionKey source),
          lastActivity = max (lastActivity target) (lastActivity source),
          generation = Some (max (or_else (generation target) 0) (or_else (generation source) 0)),
          lastStuckWarnAgeMs = max_age (lastStuckWarnAgeMs target) (lastStuckWarnAgeMs source),
          lastLongRunningWarnAgeMs = max_age (lastLongRunningWarnAgeMs target) (lastLongRunningWarnAgeMs source),
          sessionState = (if newer \<or> same_age then sessionState source else sessionState target),
          queueDepth = queueDepth target + queueDepth source,
          activeQueuedTurn = or_assign (activeQueuedTurn target) (activeQueuedTurn source),
          toolCallHistory =
            (if or_else (toolCallHistory source) [] \<noteq> []
             then Some (or_else (toolCallHistory target) [] @ or_else (toolCallHistory source) [])
             else toolCallHistory target),
          toolLoopWarningBuckets =
            (if or_else (toolLoopWarningBuckets source) [] \<noteq> []
             then Some (foldl max_bucket (or_else (toolLoopWarningBuckets target) []) (or_else (toolLoopWarningBuckets source) []))
             else toolLoopWarningBuckets target),
          commandPollCounts =
            (if or_else (commandPollCounts source) [] \<noteq> []
             then Some (foldl newer_poll (or_else (commandPollCounts target) []) (or_else (commandPollCounts source) []))
             else commandPollCounts target) \<rparr>)"

section \<open>Looking a session up\<close>

definition name_state :: "SessionRef \<Rightarrow> SessionState \<Rightarrow> SessionState" where
  "name_state r s =
    (let s1 = (if truthy (ref_sessionId r) then s\<lparr>sessionId := ref_sessionId r\<rparr> else s)
     in if truthy (ref_sessionKey r) then s1\<lparr>sessionKey := ref_sessionKey r\<rparr> else s1)"

definition new_state :: "int \<Rightarrow> SessionRef \<Rightarrow> SessionState" where
  "new_state now r =
    \<lparr> sessionId = ref_sessionId r, sessionKey = ref_sessionKey r, lastActivity = now, generation = Some 0,
      lastStuckWarnAgeMs = None, lastLongRunningWarnAgeMs = None, sessionState = IdleState, queueDepth = 0,
      activeQueuedTurn = None, toolCallHistory = None, toolLoopWarningBuckets = None, commandPollCounts = None \<rparr>"

definition entry_by_id :: "SessionRef \<Rightarrow> (string, SessionState) jsmap \<Rightarrow> (string \<times> SessionState) option" where
  "entry_by_id r m = (if truthy (ref_sessionId r) then findStateEntryBySessionId (the (ref_sessionId r)) m else None)"

text \<open>Two entries of the table are the same object exactly when their keys are equal. The result
  is the key of the entry and the state the caller reads.\<close>

definition resolve_entry :: "SessionRef \<Rightarrow> (string, SessionState) jsmap \<Rightarrow> (string \<times> SessionState \<times> (string, SessionState) jsmap) option" where
  "resolve_entry r m =
    (let key = resolveSessionKey r in
     case (jm_get m key, entry_by_id r m) of
       (Some direct, Some (k, s)) \<Rightarrow>
         if k \<noteq> key
         then let s' = name_state r (mergeSessionState direct s) in Some (key, s', jm_set key s' (jm_del k m))
         else let s' = name_state r direct in Some (key, s', jm_set key s' m)
     | (Some direct, None) \<Rightarrow> let s' = name_state r direct in Some (key, s', jm_set key s' m)
     | (None, Some (k, s)) \<Rightarrow>
         let s' = name_state r s in
         if truthy (ref_sessionKey r) then Some (key, s', jm_set key s' (jm_del k m)) else Some (k, s', jm_set k s' m)
     | (None, None) \<Rightarrow> None)"

definition getDiagnosticSessionState :: "int \<Rightarrow> SessionRef \<Rightarrow> Diagnostics \<Rightarrow> (string \<times> SessionState) \<times> Diagnostics" where
  "getDiagnosticSessionState now r d0 =
    (let d = pruneDiagnosticSessionStates now False d0 in
     case resolve_entry r (diagnosticSessionStates d) of
       Some (k, s, m) \<Rightarrow> ((k, s), d\<lparr>diagnosticSessionStates := m\<rparr>)
     | None \<Rightarrow>
         let key = resolveSessionKey r; created = new_state now r in
         ((key, created),
          pruneDiagnosticSessionStates now True
            (d\<lparr>diagnosticSessionStates := jm_set key created (diagnosticSessionStates d)\<rparr>)))"

definition peekDiagnosticSessionState :: "SessionRef \<Rightarrow> Diagnostics \<Rightarrow> SessionState option" where
  "peekDiagnosticSessionState r d =
    or_opt (jm_get (diagnosticSessionStates d) (resolveSessionKey r))
      (map_option snd (entry_by_id r (diagnosticSessionStates d)))"

definition isDiagnosticSessionStateCurrent :: "SessionRef \<Rightarrow> int option \<Rightarrow> SessionStateValue option \<Rightarrow> Diagnostics \<Rightarrow> bool" where
  "isDiagnosticSessionStateCurrent r gen st d =
    (case gen of
       None \<Rightarrow> True
     | Some g \<Rightarrow>
         (case peekDiagnosticSessionState r d of
            None \<Rightarrow> False
          | Some s \<Rightarrow> or_else (generation s) 0 = g \<and> (st = None \<or> st = Some (sessionState s))))"

text \<open>What a caller does to the state it got: the write reaches the table when the entry is still there.\<close>

definition write_state :: "string \<Rightarrow> SessionState \<Rightarrow> Diagnostics \<Rightarrow> Diagnostics" where
  "write_state k s d =
    (if jm_has k (diagnosticSessionStates d) then d\<lparr>diagnosticSessionStates := jm_set k s (diagnosticSessionStates d)\<rparr> else d)"

definition with_session :: "int \<Rightarrow> SessionRef \<Rightarrow> (SessionState \<Rightarrow> SessionState) \<Rightarrow> Diagnostics \<Rightarrow> Diagnostics" where
  "with_session now r f d = (let ((k, s), d') = getDiagnosticSessionState now r d in write_state k (f s) d')"

section \<open>Transitions\<close>

definition touch :: "int \<Rightarrow> SessionState \<Rightarrow> SessionState" where
  "touch now s = s\<lparr>lastActivity := now, generation := Some (or_else (generation s) 0 + 1),
     lastStuckWarnAgeMs := None, lastLongRunningWarnAgeMs := None\<rparr>"

definition logMessageQueued :: "bool \<Rightarrow> int \<Rightarrow> SessionRef \<Rightarrow> Diagnostics \<Rightarrow> Diagnostics" where
  "logMessageQueued enabled now r d =
    (if enabled then with_session now r (\<lambda>s. touch now (s\<lparr>queueDepth := queueDepth s + 1\<rparr>)) d else d)"

definition change_state :: "int \<Rightarrow> SessionStateValue \<Rightarrow> SessionState \<Rightarrow> SessionState" where
  "change_state now v s =
    (let s1 = touch now (s\<lparr>sessionState := v\<rparr>);
         s2 = (if v = ProcessingState \<and> sessionState s \<noteq> ProcessingState then s1\<lparr>activeQueuedTurn := Some (0 < queueDepth s1)\<rparr> else s1)
     in if v = IdleState then s2\<lparr>queueDepth := max 0 (queueDepth s2 - 1), activeQueuedTurn := Some False\<rparr> else s2)"

definition logSessionStateChange :: "bool \<Rightarrow> int \<Rightarrow> SessionRef \<Rightarrow> SessionStateValue \<Rightarrow> Diagnostics \<Rightarrow> Diagnostics" where
  "logSessionStateChange enabled now r v d = (if enabled then with_session now r (change_state now v) d else d)"

definition markDiagnosticSessionProgress :: "bool \<Rightarrow> int \<Rightarrow> SessionRef \<Rightarrow> Diagnostics \<Rightarrow> Diagnostics" where
  "markDiagnosticSessionProgress enabled now r d = (if enabled then with_session now r (touch now) d else d)"

section \<open>Poll counters\<close>

definition BACKOFF_SCHEDULE_MS :: "int list" where
  "BACKOFF_SCHEDULE_MS = [5000, 10000, 30000, 60000]"

definition calculateBackoffMs :: "int \<Rightarrow> int" where
  "calculateBackoffMs n =
    (let index = min n (int (length BACKOFF_SCHEDULE_MS) - 1)
     in if 0 \<le> index then BACKOFF_SCHEDULE_MS ! nat index else 60000)"

definition recordCommandPoll :: "int \<Rightarrow> SessionState \<Rightarrow> string \<Rightarrow> bool \<Rightarrow> int \<times> SessionState" where
  "recordCommandPoll now s commandId hasNewOutput =
    (let counts = or_else (commandPollCounts s) [];
         put = (\<lambda>n. s\<lparr>commandPollCounts := Some (jm_set commandId \<lparr>pollCount = n, lastPollAt = now\<rparr> counts)\<rparr>)
     in if hasNewOutput then (BACKOFF_SCHEDULE_MS ! 0, put 0)
        else let n = (case jm_get counts commandId of None \<Rightarrow> -1 | Some e \<Rightarrow> pollCount e) + 1
             in (calculateBackoffMs n, put n))"

definition getCommandPollSuggestion :: "SessionState \<Rightarrow> string \<Rightarrow> int option" where
  "getCommandPollSuggestion s commandId =
    (case jm_get (or_else (commandPollCounts s) []) commandId of None \<Rightarrow> None | Some e \<Rightarrow> Some (calculateBackoffMs (pollCount e)))"

definition resetCommandPollCount :: "SessionState \<Rightarrow> string \<Rightarrow> SessionState" where
  "resetCommandPollCount s commandId = s\<lparr>commandPollCounts := map_option (jm_del commandId) (commandPollCounts s)\<rparr>"

definition pruneStaleCommandPolls :: "int \<Rightarrow> int \<Rightarrow> SessionState \<Rightarrow> SessionState" where
  "pruneStaleCommandPolls now maxAgeMs s =
    s\<lparr>commandPollCounts := map_option (filter (\<lambda>p. \<not> maxAgeMs < now - lastPollAt (snd p))) (commandPollCounts s)\<rparr>"

text \<open>The process tool polls through the session whose id is the id of the command.\<close>

definition recordPollRetrySuggestion :: "int \<Rightarrow> string \<Rightarrow> bool \<Rightarrow> Diagnostics \<Rightarrow> int \<times> Diagnostics" where
  "recordPollRetrySuggestion now i hasNewOutput d =
    (let ((k, s), d') = getDiagnosticSessionState now \<lparr>ref_sessionId = Some i, ref_sessionKey = None\<rparr> d;
         (ms, s') = recordCommandPoll now s i hasNewOutput
     in (ms, write_state k s' d'))"

definition resetPollRetrySuggestion :: "int \<Rightarrow> string \<Rightarrow> Diagnostics \<Rightarrow> Diagnostics" where
  "resetPollRetrySuggestion now i d =
    with_session now \<lparr>ref_sessionId = Some i, ref_sessionKey = None\<rparr> (\<lambda>s. resetCommandPollCount s i) d"

section \<open>Runs of operations\<close>

datatype DiagOp = LookUp SessionRef | Queued SessionRef | StateChange SessionRef SessionStateValue | Progressed SessionRef
  | Polled string bool | PollReset string

text \<open>One operation at a time; diagnostics may be switched off at any of them.\<close>

definition diag_step :: "Diagnostics \<Rightarrow> bool \<times> int \<times> DiagOp \<Rightarrow> Diagnostics" where
  "diag_step d x = (case x of (enabled, now, op) \<Rightarrow>
    (case op of
       LookUp r \<Rightarrow> snd (getDiagnosticSessionState now r d)
     | Queued r \<Rightarrow> logMessageQueued enabled now r d
     | StateChange r v \<Rightarrow> logSessionStateChange enabled now r v d
     | Progressed r \<Rightarrow> markDiagnosticSessionProgress enabled now r d
     | Polled i out \<Rightarrow> snd (recordPollRetrySuggestion now i out d)
     | PollReset i \<Rightarrow> resetPollRetrySuggestion now i d))"

definition no_diagnostics :: Diagnostics where
  "no_diagnostics = \<lparr>diagnosticSessionStates = [], lastSessionPruneAt = 0\<rparr>"

definition run_diag :: "(bool \<times> int \<times> DiagOp) list \<Rightarrow> Diagnostics" where
  "run_diag ops = foldl diag_step no_diagnostics ops"

text \<open>The key an operation looks up.\<close>

definition op_key :: "DiagOp \<Rightarrow> string" where
  "op_key op =
    (case op of LookUp r \<Rightarrow> resolveSessionKey r | Queued r \<Rightarrow> resolveSessionKey r | StateChange r v \<Rightarrow> resolveSessionKey r
     | Progressed r \<Rightarrow> resolveSessionKey r | Polled i out \<Rightarrow> i | PollReset i \<Rightarrow> i)"

section \<open>The table\<close>

text \<open>No two entries carry the same session id.\<close>

definition ids_unique :: "(string, SessionState) jsmap \<Rightarrow> bool" where
  "ids_unique m \<longleftrightarrow>
    (\<forall>p \<in> set m. \<forall>q \<in> set m. truthy (sessionId (snd p)) \<longrightarrow> sessionId (snd p) = sessionId (snd q) \<longrightarrow> fst p = fst q)"

definition table_ok :: "Diagnostics \<Rightarrow> bool" where
  "table_ok d \<longleftrightarrow> jm_wf (diagnosticSessionStates d) \<and> ids_unique (diagnosticSessionStates d)"

lemma ids_uniqueI:
  assumes "\<And>k s k' s'. (k, s) \<in> set m \<Longrightarrow> (k', s') \<in> set m \<Longrightarrow> truthy (sessionId s) \<Longrightarrow> sessionId s = sessionId s' \<Longrightarrow> k = k'"
  shows "ids_unique m"
  using assms by (fastforce simp: ids_unique_def)

lemma ids_uniqueD:
  "ids_unique m \<Longrightarrow> (k, s) \<in> set m \<Longrightarrow> (k', s') \<in> set m \<Longrightarrow> truthy (sessionId s) \<Longrightarrow> sessionId s = sessionId s' \<Longrightarrow> k = k'"
  by (fastforce simp: ids_unique_def)

lemma ids_unique_subset: "ids_unique m \<Longrightarrow> set m' \<subseteq> set m \<Longrightarrow> ids_unique m'"
  by (auto simp: ids_unique_def)

lemma set_jm_del: "set (jm_del k m) \<subseteq> set m"
  by (auto simp: jm_del_def)

lemma jm_set_otherD: "jm_wf m \<Longrightarrow> (k', s') \<in> set (jm_set k s m) \<Longrightarrow> (k' = k \<and> s' = s) \<or> (k' \<noteq> k \<and> (k', s') \<in> set m)"
  by (metis fun_upd_other fun_upd_same jm_get_in_set jm_get_set jm_wf_set option.inject)

text \<open>Setting an entry keeps the ids apart when its id is no other entry's.\<close>

lemma ids_unique_set:
  assumes wf: "jm_wf m" and ids: "ids_unique m"
    and fresh: "\<And>k' s'. (k', s') \<in> set m \<Longrightarrow> k' \<noteq> k \<Longrightarrow> truthy (sessionId s) \<Longrightarrow> sessionId s' \<noteq> sessionId s"
  shows "ids_unique (jm_set k s m)"
proof (rule ids_uniqueI)
  fix k1 s1 k2 s2
  assume in1: "(k1, s1) \<in> set (jm_set k s m)" and in2: "(k2, s2) \<in> set (jm_set k s m)"
    and t: "truthy (sessionId s1)" and eq: "sessionId s1 = sessionId s2"
  show "k1 = k2"
    using jm_set_otherD [OF wf in1] jm_set_otherD [OF wf in2] fresh t eq ids_uniqueD [OF ids] by metis
qed

lemma delete_oldest_subset: "set (delete_oldest n ordered m) \<subseteq> set m"
proof (induction n ordered m rule: delete_oldest.induct)
  case (3 n k s ordered m)
  then show ?case using set_jm_del [of k m] by auto
qed auto

lemma delete_oldest_wf: "jm_wf m \<Longrightarrow> jm_wf (delete_oldest n ordered m)"
  by (induction n ordered m rule: delete_oldest.induct) auto

lemma prune_subset: "set (diagnosticSessionStates (pruneDiagnosticSessionStates now force d)) \<subseteq> set (diagnosticSessionStates d)"
  by (auto simp: pruneDiagnosticSessionStates_def Let_def dest!: subsetD [OF delete_oldest_subset])

lemma prune_ok: "table_ok d \<Longrightarrow> table_ok (pruneDiagnosticSessionStates now force d)"
  using ids_unique_subset [OF _ prune_subset, of d now force]
  by (auto simp: table_ok_def pruneDiagnosticSessionStates_def Let_def delete_oldest_wf jm_wf_filter)

lemma found_by_id:
  assumes "entry_by_id r m = Some (k, s)"
  shows "(k, s) \<in> set m" "truthy (ref_sessionId r)" "sessionId s = ref_sessionId r"
  using assms by (auto simp: entry_by_id_def findStateEntryBySessionId_def truthy_def split: if_splits dest: find_SomeD)

lemma not_found_by_id:
  "entry_by_id r m = None \<Longrightarrow> truthy (ref_sessionId r) \<Longrightarrow> (k, s) \<in> set m \<Longrightarrow> sessionId s \<noteq> ref_sessionId r"
  by (auto simp: entry_by_id_def findStateEntryBySessionId_def find_None_iff truthy_def)

lemma name_state_id: "sessionId (name_state r s) = (if truthy (ref_sessionId r) then ref_sessionId r else sessionId s)"
  by (simp add: name_state_def Let_def)

text \<open>What looking a session up leaves: one entry for the session, with the id and key it was
  looked up by.\<close>

lemma resolve_set:
  assumes wf: "jm_wf m" and ids: "ids_unique m" and res: "resolve_entry r m = Some (k, s, m')"
  shows "\<exists>m0. m' = jm_set k s m0 \<and> jm_wf m0 \<and> set m0 \<subseteq> set m \<and>
    (\<forall>k' s'. (k', s') \<in> set m0 \<longrightarrow> k' \<noteq> k \<longrightarrow> truthy (sessionId s) \<longrightarrow> sessionId s' \<noteq> sessionId s) \<and>
    length m' \<le> length m"
proof -
  let ?key = "resolveSessionKey r"
  note unique = ids_uniqueD [OF ids]
  show ?thesis
  proof (cases "jm_get m ?key")
    case None
    then obtain k0 s0 where found: "entry_by_id r m = Some (k0, s0)"
      using res by (auto simp: resolve_entry_def Let_def split: option.splits)
    note f = found_by_id [OF found]
    have s: "s = name_state r s0" using res None found by (auto simp: resolve_entry_def Let_def split: if_splits)
    have id: "sessionId s = sessionId s0" "truthy (sessionId s0)" using f by (auto simp: s name_state_id)
    have others: "k' \<noteq> k0 \<Longrightarrow> (k', s') \<in> set m \<Longrightarrow> sessionId s' \<noteq> sessionId s" for k' s'
      using unique [OF f(1)] id by metis
    show ?thesis
    proof (cases "truthy (ref_sessionKey r)")
      case True
      then have m': "k = ?key" "m' = jm_set k s (jm_del k0 m)"
        using res None found by (auto simp: resolve_entry_def Let_def)
      have "length (jm_del k0 m) < length m"
        using f(1) unfolding jm_del_def by (intro length_filter_less) auto
      moreover have "(k', s') \<in> set (jm_del k0 m) \<Longrightarrow> sessionId s' \<noteq> sessionId s" for k' s'
        using others [of k' s'] by (auto simp: jm_del_def)
      ultimately show ?thesis unfolding m' using set_jm_del [of k0 m] wf
        by (intro exI [of _ "jm_del k0 m"]) (auto simp: length_jm_set)
    next
      case False
      then have m': "k = k0" "m' = jm_set k s m" using res None found by (auto simp: resolve_entry_def Let_def)
      have "jm_has k0 m" using f(1) by (force simp: jm_has_def)
      then show ?thesis unfolding m' using others wf by (intro exI [of _ m]) (auto simp: length_jm_set)
    qed
  next
    case (Some direct)
    have direct: "(?key, direct) \<in> set m" "jm_has ?key m" using Some by (auto simp: jm_has_iff dest: map_of_SomeD)
    show ?thesis
    proof (cases "entry_by_id r m")
      case None
      then have m': "k = ?key" "s = name_state r direct" "m' = jm_set k s m"
        using res Some by (auto simp: resolve_entry_def Let_def)
      have fresh: "sessionId s' \<noteq> sessionId s" if "(k', s') \<in> set m" "k' \<noteq> k" "truthy (sessionId s)" for k' s'
      proof (cases "truthy (ref_sessionId r)")
        case True
        then show ?thesis using not_found_by_id [OF None True that(1)] by (simp add: m' name_state_id)
      next
        case False
        then have "sessionId s = sessionId direct" by (simp add: m'(2) name_state_id)
        then show ?thesis using unique [OF direct(1) that(1)] that(2,3) m'(1) by metis
      qed
      have "length m' \<le> length m" using direct(2) by (simp add: m'(1,3) length_jm_set)
      then show ?thesis using wf m'(3) by (intro exI [of _ m] conjI allI impI) (simp_all add: fresh)
    next
      case (Some p)
      then obtain k0 s0 where found: "entry_by_id r m = Some (k0, s0)" by (cases p) auto
      note f = found_by_id [OF found]
      have id: "sessionId (name_state r x) = sessionId s0" "truthy (sessionId s0)" for x using f by (auto simp: name_state_id)
      have others: "k' \<noteq> k0 \<Longrightarrow> (k', s') \<in> set m \<Longrightarrow> sessionId s' \<noteq> sessionId s0" for k' s'
        using unique [OF f(1)] id by metis
      show ?thesis
      proof (cases "k0 = ?key")
        case True
        then have m': "k = ?key" "s = name_state r direct" "m' = jm_set k s m"
          using res \<open>jm_get m ?key = Some direct\<close> found by (auto simp: resolve_entry_def Let_def)
        then show ?thesis using wf direct(2) others True
          by (intro exI [of _ m]) (auto simp: m' id(1) length_jm_set)
      next
        case False
        then have m': "k = ?key" "s = name_state r (mergeSessionState direct s0)" "m' = jm_set k s (jm_del k0 m)"
          using res \<open>jm_get m ?key = Some direct\<close> found by (auto simp: resolve_entry_def Let_def)
        have "(k', s') \<in> set (jm_del k0 m) \<Longrightarrow> sessionId s' \<noteq> sessionId s0" for k' s'
          using others [of k' s'] by (auto simp: jm_del_def)
        moreover have "jm_has ?key (jm_del k0 m)"
          using \<open>jm_get m ?key = Some direct\<close> False by (auto simp: jm_has_iff)
        ultimately show ?thesis using wf set_jm_del [of k0 m] length_jm_del_le [of k0 m]
          by (intro exI [of _ "jm_del k0 m"]) (auto simp: m' id(1) length_jm_set)
      qed
    qed
  qed
qed

lemma resolve_ok:
  assumes "jm_wf m" "ids_unique m" "resolve_entry r m = Some (k, s, m')"
  shows "jm_wf m' \<and> ids_unique m' \<and> jm_get m' k = Some s \<and> length m' \<le> length m"
proof -
  obtain m0 where m0: "m' = jm_set k s m0" "jm_wf m0" "set m0 \<subseteq> set m" "length m' \<le> length m"
    "\<And>k' s'. (k', s') \<in> set m0 \<Longrightarrow> k' \<noteq> k \<Longrightarrow> truthy (sessionId s) \<Longrightarrow> sessionId s' \<noteq> sessionId s"
    using resolve_set [OF assms] by blast
  then show ?thesis using ids_unique_set [OF m0(2) ids_unique_subset [OF assms(2) m0(3)]] by auto
qed

lemma resolve_None:
  "resolve_entry r m = None \<longleftrightarrow> jm_get m (resolveSessionKey r) = None \<and> entry_by_id r m = None"
  by (auto simp: resolve_entry_def Let_def split: option.splits if_splits)

lemma pruned_entry:
  assumes "jm_wf (diagnosticSessionStates d)" "jm_get (diagnosticSessionStates (pruneDiagnosticSessionStates now force d)) k = Some s"
  shows "jm_get (diagnosticSessionStates d) k = Some s"
  using prune_subset map_of_SomeD [OF assms(2)] jm_get_in_set [OF assms(1)] by blast

text \<open>The state a caller got is the entry under its key, unless pruning dropped it at once.\<close>

lemma lookup_ok:
  assumes ok: "table_ok d" and got: "getDiagnosticSessionState now r d = ((k, s), d')"
  shows "table_ok d' \<and> (\<forall>x. jm_get (diagnosticSessionStates d') k = Some x \<longrightarrow> x = s)"
proof -
  let ?d = "pruneDiagnosticSessionStates now False d"
  let ?m = "diagnosticSessionStates ?d"
  have ok': "jm_wf ?m" "ids_unique ?m" using prune_ok [OF ok] by (auto simp: table_ok_def)
  show ?thesis
  proof (cases "resolve_entry r ?m")
    case None
    let ?created = "new_state now r" and ?key = "resolveSessionKey r"
    let ?d1 = "?d\<lparr>diagnosticSessionStates := jm_set ?key ?created ?m\<rparr>"
    have got': "k = ?key" "s = ?created" "d' = pruneDiagnosticSessionStates now True ?d1"
      using got None by (auto simp: getDiagnosticSessionState_def Let_def)
    have absent: "jm_get ?m ?key = None" "entry_by_id r ?m = None" using None by (auto simp: resolve_None)
    have "sessionId s' \<noteq> sessionId ?created" if "(k', s') \<in> set ?m" "truthy (sessionId ?created)" for k' s'
      using not_found_by_id [OF absent(2) _ that(1)] that(2) by (simp add: new_state_def)
    then have "ids_unique (jm_set ?key ?created ?m)" using ids_unique_set [OF ok'] by blast
    then have "table_ok ?d1" using ok' by (simp add: table_ok_def)
    moreover have "x = ?created" if "jm_get (diagnosticSessionStates d') ?key = Some x" for x
      using pruned_entry [of ?d1 now True ?key x] that ok' by (simp add: got' table_ok_def)
    moreover have "table_ok d'" unfolding got' by (rule prune_ok) fact
    ultimately show ?thesis using got'(1,2) by blast
  next
    case (Some p)
    then obtain k1 s1 m1 where res: "resolve_entry r ?m = Some (k1, s1, m1)" by (cases p) auto
    have "getDiagnosticSessionState now r d = ((k1, s1), ?d\<lparr>diagnosticSessionStates := m1\<rparr>)"
      by (simp add: getDiagnosticSessionState_def Let_def res)
    then have eqs: "k = k1" "s = s1" "d' = ?d\<lparr>diagnosticSessionStates := m1\<rparr>" using got by simp_all
    show ?thesis using resolve_ok [OF ok' res] unfolding eqs by (simp add: table_ok_def)
  qed
qed

lemma write_ok:
  assumes ok: "table_ok d" and same: "\<And>x. jm_get (diagnosticSessionStates d) k = Some x \<Longrightarrow> sessionId s = sessionId x"
  shows "table_ok (write_state k s d)"
proof (cases "jm_has k (diagnosticSessionStates d)")
  case True
  let ?m = "diagnosticSessionStates d"
  obtain x where x: "jm_get ?m k = Some x" using True by (auto simp: jm_has_iff)
  have m: "jm_wf ?m" "ids_unique ?m" using ok by (auto simp: table_ok_def)
  have "sessionId s' \<noteq> sessionId s" if "(k', s') \<in> set ?m" "k' \<noteq> k" "truthy (sessionId s)" for k' s'
    using ids_uniqueD [OF m(2) map_of_SomeD [OF x] that(1)] that(2,3) same [OF x] by metis
  then show ?thesis using ids_unique_set [OF m] m(1) True by (simp add: write_state_def table_ok_def)
next
  case False
  then show ?thesis using ok by (simp add: write_state_def)
qed

lemma with_session_ok:
  assumes "table_ok d" "\<And>s. sessionId (f s) = sessionId s"
  shows "table_ok (with_session now r f d)"
proof -
  obtain k s d' where got: "getDiagnosticSessionState now r d = ((k, s), d')" by (metis prod.exhaust)
  then show ?thesis using lookup_ok [OF assms(1) got] assms(2) by (auto simp: with_session_def intro!: write_ok)
qed

lemma writers_keep_ids:
  "sessionId (touch now s) = sessionId s"
  "sessionId (change_state now v s) = sessionId s"
  "sessionId (snd (recordCommandPoll now s i out)) = sessionId s"
  "sessionId (resetCommandPollCount s i) = sessionId s"
  by (simp_all add: touch_def change_state_def Let_def recordCommandPoll_def resetCommandPollCount_def)

lemma polled_with_session:
  "snd (recordPollRetrySuggestion now i out d) =
    with_session now \<lparr>ref_sessionId = Some i, ref_sessionKey = None\<rparr> (\<lambda>s. snd (recordCommandPoll now s i out)) d"
  by (simp add: recordPollRetrySuggestion_def with_session_def Let_def split: prod.splits)

lemma diag_step_ok: "table_ok d \<Longrightarrow> table_ok (diag_step d x)"
proof -
  assume ok: "table_ok d"
  obtain enabled now op where x: "x = (enabled, now, op)" by (cases x)
  have look: "table_ok (snd (getDiagnosticSessionState now r d))" for r
    using lookup_ok [OF ok] by (metis prod.collapse)
  show ?thesis
    by (cases op) (auto simp: x diag_step_def look ok logMessageQueued_def logSessionStateChange_def
      markDiagnosticSessionProgress_def polled_with_session resetPollRetrySuggestion_def
      writers_keep_ids intro!: with_session_ok)
qed

section \<open>The size of the table\<close>

definition keys_named :: "(string, SessionState) jsmap \<Rightarrow> bool" where
  "keys_named m \<longleftrightarrow> \<not> jm_has [] m"

lemma length_delete_oldest:
  "jm_wf m \<Longrightarrow> distinct (map fst ordered) \<Longrightarrow> set (map fst ordered) \<subseteq> set (map fst m) - {[]} \<Longrightarrow> n \<le> length ordered \<Longrightarrow>
   length (delete_oldest n ordered m) = length m - n"
proof (induction n ordered m rule: delete_oldest.induct)
  case (3 n k s ordered m)
  have len: "length (jm_del k m) = length m - 1" using 3(2,4) by (simp add: length_jm_del jm_has_def)
  have keys: "set (map fst (jm_del k m)) = set (map fst m) - {k}" by (auto simp: jm_del_def)
  have "k \<notin> set (map fst ordered)" "set (map fst ordered) \<subseteq> set (map fst m) - {[]}" using 3(3,4) by simp_all
  then have "set (map fst ordered) \<subseteq> set (map fst (jm_del k m)) - {[]}" unfolding keys by blast
  moreover have "k \<noteq> []" "jm_wf (jm_del k m)" "distinct (map fst ordered)" "n \<le> length ordered" using 3 by auto
  ultimately show ?case using 3(1) len by simp
qed auto

lemma length_prune:
  assumes wf: "jm_wf (diagnosticSessionStates d)" and named: "keys_named (diagnosticSessionStates d)"
  shows "length (diagnosticSessionStates (pruneDiagnosticSessionStates now force d)) \<le> SESSION_STATE_MAX_ENTRIES"
proof -
  let ?m1 = "filter (\<lambda>p. \<not> expired now (snd p)) (diagnosticSessionStates d)"
  let ?n = "length ?m1 - SESSION_STATE_MAX_ENTRIES"
  have wf1: "jm_wf ?m1" using wf by (rule jm_wf_filter)
  have "mset (map fst (js_sort by_activity ?m1)) = mset (map fst ?m1)" by (simp add: mset_js_sort)
  then have "distinct (map fst (js_sort by_activity ?m1))" "set (map fst (js_sort by_activity ?m1)) = set (map fst ?m1)"
    using wf1 mset_eq_imp_distinct_iff mset_eq_setD unfolding jm_wf_def by (blast, blast)
  moreover have "[] \<notin> set (map fst ?m1)" using named by (auto simp: keys_named_def jm_has_def)
  ultimately have "length (delete_oldest ?n (js_sort by_activity ?m1) ?m1) = length ?m1 - ?n"
    using wf1 by (intro length_delete_oldest) auto
  then show ?thesis by (auto simp: pruneDiagnosticSessionStates_def Let_def)
qed

lemma keys_named_subset: "keys_named m \<Longrightarrow> set m' \<subseteq> set m \<Longrightarrow> keys_named m'"
  by (auto simp: keys_named_def jm_has_def)

lemma keys_named_set: "keys_named m \<Longrightarrow> k \<noteq> [] \<Longrightarrow> keys_named (jm_set k s m)"
  by (auto simp: keys_named_def jm_has_iff)

text \<open>A well-formed table whose keys are not empty and that is within its bound.\<close>

definition table_bounded :: "Diagnostics \<Rightarrow> bool" where
  "table_bounded d \<longleftrightarrow> table_ok d \<and> keys_named (diagnosticSessionStates d) \<and>
    length (diagnosticSessionStates d) \<le> SESSION_STATE_MAX_ENTRIES"

lemma resolved_key:
  assumes "jm_wf m" "ids_unique m" "resolve_entry r m = Some (k, s, m')"
  shows "k = resolveSessionKey r \<or> jm_has k m"
  using assms(3) found_by_id(1) [of r m]
  by (force simp: resolve_entry_def Let_def jm_has_def split: option.splits if_splits)

lemma lookup_bounded:
  assumes ok: "table_bounded d" and key: "resolveSessionKey r \<noteq> []"
  shows "table_bounded (snd (getDiagnosticSessionState now r d))"
proof -
  let ?d = "pruneDiagnosticSessionStates now False d"
  let ?m = "diagnosticSessionStates ?d"
  have d: "table_ok d" "keys_named (diagnosticSessionStates d)" using ok by (auto simp: table_bounded_def)
  have m: "jm_wf ?m" "ids_unique ?m" using prune_ok [OF d(1)] by (auto simp: table_ok_def)
  have named: "keys_named ?m" using keys_named_subset [OF d(2) prune_subset] .
  have len: "length ?m \<le> SESSION_STATE_MAX_ENTRIES" using d by (intro length_prune) (auto simp: table_ok_def)
  obtain k s d' where got: "getDiagnosticSessionState now r d = ((k, s), d')" by (metis prod.exhaust)
  have "keys_named (diagnosticSessionStates d') \<and> length (diagnosticSessionStates d') \<le> SESSION_STATE_MAX_ENTRIES"
  proof (cases "resolve_entry r ?m")
    case None
    let ?d1 = "?d\<lparr>diagnosticSessionStates := jm_set (resolveSessionKey r) (new_state now r) ?m\<rparr>"
    have d': "d' = pruneDiagnosticSessionStates now True ?d1"
      using got None by (auto simp: getDiagnosticSessionState_def Let_def)
    have "keys_named (diagnosticSessionStates ?d1)" "jm_wf (diagnosticSessionStates ?d1)"
      using named key m(1) by (auto intro: keys_named_set)
    then show ?thesis unfolding d' using length_prune keys_named_subset [OF _ prune_subset] by blast
  next
    case (Some p)
    then obtain k1 s1 m1 where res: "resolve_entry r ?m = Some (k1, s1, m1)" by (cases p) auto
    have d': "diagnosticSessionStates d' = m1" using got res by (auto simp: getDiagnosticSessionState_def Let_def)
    obtain m0 where m0: "m1 = jm_set k1 s1 m0" "set m0 \<subseteq> set ?m" "length m1 \<le> length ?m"
      using resolve_set [OF m res] by blast
    have "k1 \<noteq> []" using resolved_key [OF m res] key named by (auto simp: keys_named_def)
    then show ?thesis unfolding d' using m0 len keys_named_set [OF keys_named_subset [OF named m0(2)]] by auto
  qed
  then show ?thesis using lookup_ok [OF d(1) got] by (simp add: got table_bounded_def)
qed

lemma write_bounded:
  "table_bounded d \<Longrightarrow> table_ok (write_state k s d) \<Longrightarrow> table_bounded (write_state k s d)"
  by (auto simp: table_bounded_def write_state_def length_jm_set keys_named_def jm_has_iff)

lemma with_session_bounded:
  assumes "table_bounded d" "resolveSessionKey r \<noteq> []" "\<And>s. sessionId (f s) = sessionId s"
  shows "table_bounded (with_session now r f d)"
proof -
  obtain k s d' where got: "getDiagnosticSessionState now r d = ((k, s), d')" by (metis prod.exhaust)
  have eq: "with_session now r f d = write_state k (f s) d'" by (simp add: with_session_def got)
  have "table_ok (write_state k (f s) d')"
    using with_session_ok [of d f now r] assms(1,3) by (simp add: eq table_bounded_def)
  then show ?thesis using lookup_bounded [OF assms(1,2), of now] by (simp add: eq got write_bounded)
qed

lemma diag_step_bounded:
  assumes "table_bounded d" "op_key (snd (snd x)) \<noteq> []"
  shows "table_bounded (diag_step d x)"
proof -
  obtain enabled now op where x: "x = (enabled, now, op)" by (cases x)
  have key: "resolveSessionKey \<lparr>ref_sessionId = Some i, ref_sessionKey = None\<rparr> = i" for i
    by (simp add: resolveSessionKey_def)
  show ?thesis using assms
    by (cases op) (auto simp: x diag_step_def op_key_def key lookup_bounded logMessageQueued_def logSessionStateChange_def
      markDiagnosticSessionProgress_def polled_with_session resetPollRetrySuggestion_def
      writers_keep_ids intro!: with_session_bounded)
qed

lemma no_diagnostics_bounded: "table_bounded no_diagnostics"
  by (simp add: table_bounded_def table_ok_def no_diagnostics_def ids_unique_def keys_named_def jm_has_def)

section \<open>Reachable tables\<close>

inductive diag_trans :: "(bool \<times> int \<times> DiagOp \<Rightarrow> bool) \<Rightarrow> Diagnostics \<Rightarrow> Diagnostics \<Rightarrow> bool" for ok where
  diag_transI: "ok x \<Longrightarrow> diag_trans ok d (diag_step d x)"

inductive_cases diag_transE: "diag_trans ok d d'"

definition named_op :: "bool \<times> int \<times> DiagOp \<Rightarrow> bool" where
  "named_op x \<longleftrightarrow> op_key (snd (snd x)) \<noteq> []"

interpretation diagnostics: transition_system "\<lambda>d. d = no_diagnostics" "diag_trans (\<lambda>x. True)" table_ok
  by unfold_locales (use no_diagnostics_bounded in \<open>auto simp: table_bounded_def elim!: diag_transE intro: diag_step_ok\<close>)

interpretation named_diagnostics: transition_system "\<lambda>d. d = no_diagnostics" "diag_trans named_op" table_bounded
  by unfold_locales (auto simp: no_diagnostics_bounded named_op_def elim!: diag_transE intro: diag_step_bounded)

lemma foldl_diag_trans: "list_all ok ops \<Longrightarrow> (diag_trans ok)\<^sup>*\<^sup>* d (foldl diag_step d ops)"
proof (induction ops arbitrary: d)
  case (Cons x ops)
  then show ?case using diag_transI [of ok x d] converse_rtranclp_into_rtranclp [of "diag_trans ok" d] by simp
qed simp

text \<open>C29: The table of sessions is well formed. Whatever operations run on it, with any keys and ids, its
  keys are distinct and no two of its entries carry the same session id: looking a session up by a
  key and an id of two entries merges them.\<close>

theorem session_table_well_formed: "table_ok (run_diag ops)"
  using diagnostics.rtranclp_inv [OF foldl_diag_trans [of "\<lambda>x. True" ops no_diagnostics]] diagnostics.inv_start
  by (simp add: run_diag_def list_all_iff)

text \<open>The table of sessions is bounded. As long as no operation looks up the empty key, it never holds
  more than its maximum, however many sessions there are.\<close>

lemma session_table_bounded:
  assumes "list_all (\<lambda>x. op_key (snd (snd x)) \<noteq> []) ops"
  shows "length (diagnosticSessionStates (run_diag ops)) \<le> SESSION_STATE_MAX_ENTRIES"
  using named_diagnostics.rtranclp_inv [OF foldl_diag_trans [of named_op ops no_diagnostics]] named_diagnostics.inv_start assms
  by (simp add: run_diag_def named_op_def [abs_def] table_bounded_def)

lemma session_table_bounded_witness:
  "length (diagnosticSessionStates (run_diag
     [(True, 5, Queued \<lparr>ref_sessionId = Some ''i'', ref_sessionKey = None\<rparr>),
      (True, 6, StateChange \<lparr>ref_sessionId = Some ''i'', ref_sessionKey = Some ''k''\<rparr> ProcessingState)])) \<le> SESSION_STATE_MAX_ENTRIES"
  by (rule session_table_bounded) (simp add: op_key_def resolveSessionKey_def)

end
