(* ===== verification/StableJson.thy ===== *)
theory StableJson
  imports JsString JsJson
begin

text \<open>
  Values of type \<open>unknown\<close> and their stable serialization (src/src/agents/stable-stringify.ts,
  src/src/infra/plain-object.ts), the text that is hashed to compare calls of tools. A finite number
  is its decimal text, since the code only ever prints numbers; a \<open>Uint8Array\<close> is its base64
  text, which \<open>Buffer\<close> computes; an object of another class is the list of its own
  enumerable fields. Values are trees, so the marker of a circular reference never appears.
\<close>

section \<open>Values\<close>

datatype js_val =
    VUndef | VNull | VBool bool
  | VNum string | VNonFinite string | VBigInt int
  | VStr string
  | VFunction
  | VArr "js_val list"
  | VObj "(string \<times> js_val) list"
  | VInstance "(string \<times> js_val) list"
  | VError string string "string option"
  | VBytes string

text \<open>The objects whose \<open>Object.prototype.toString\<close> is the one of a plain object.\<close>

fun plain_fields :: "js_val \<Rightarrow> (string \<times> js_val) list option" where
  "plain_fields (VObj fs) = Some fs"
| "plain_fields v = None"

definition is_plain_object :: "js_val \<Rightarrow> bool" where
  "is_plain_object v \<longleftrightarrow> plain_fields v \<noteq> None"

text \<open>\<open>o.k\<close>, undefined when the field is absent.\<close>

definition field :: "(string \<times> js_val) list \<Rightarrow> string \<Rightarrow> js_val" where
  "field fs k = (case map_of fs k of None \<Rightarrow> VUndef | Some v \<Rightarrow> v)"

section \<open>Serialization\<close>

definition by_key :: "(string \<times> 'a) \<Rightarrow> (string \<times> 'a) \<Rightarrow> int" where
  "by_key p q = str_cmp (fst p) (fst q)"

definition stable_field :: "string \<times> string \<Rightarrow> string" where
  "stable_field p = json_quote (fst p) @ '':'' @ snd p"

definition stable_object :: "(string \<times> string) list \<Rightarrow> string" where
  "stable_object fs = ''{'' @ join_with '','' (map stable_field (js_sort by_key fs)) @ ''}''"

primrec stableStringify :: "js_val \<Rightarrow> string" where
  "stableStringify VUndef = ''undefined''"
| "stableStringify VNull = ''null''"
| "stableStringify (VBool b) = (if b then ''true'' else ''false'')"
| "stableStringify (VNum n) = n"
| "stableStringify (VNonFinite n) = json_quote n"
| "stableStringify (VBigInt i) = json_quote (int_to_dec i)"
| "stableStringify (VStr s) = json_quote s"
| "stableStringify VFunction = ''null''"
| "stableStringify (VArr vs) = ''['' @ join_with '','' (map stableStringify vs) @ '']''"
| "stableStringify (VObj fs) = stable_object (map (map_prod id stableStringify) fs)"
| "stableStringify (VInstance fs) = stable_object (map (map_prod id stableStringify) fs)"
| "stableStringify (VError name message stk) =
     stable_object [(''name'', json_quote name), (''message'', json_quote message),
       (''stack'', case stk of None \<Rightarrow> ''undefined'' | Some s \<Rightarrow> json_quote s)]"
| "stableStringify (VBytes base64) =
     stable_object [(''type'', json_quote ''Uint8Array''), (''data'', json_quote base64)]"

section \<open>The order of fields does not matter\<close>

lemma sorted_wrt_mset_unique:
  assumes "sorted_wrt R xs" "sorted_wrt R ys" "mset xs = mset ys"
    and anti: "\<And>x y. x \<in> set xs \<Longrightarrow> y \<in> set xs \<Longrightarrow> R x y \<Longrightarrow> R y x \<Longrightarrow> x = y"
  shows "xs = ys"
  using assms
proof (induction xs arbitrary: ys)
  case (Cons x xs)
  then obtain y zs where ys: "ys = y # zs" by (cases ys) auto
  have sets: "set ys = insert x (set xs)" using Cons.prems(3) by (metis list.set(2) set_mset_mset)
  have "x = y"
  proof (rule ccontr)
    assume ne: "x \<noteq> y"
    have "R x y" "R y x" using Cons.prems(1,2) sets ne unfolding ys by auto
    moreover have "y \<in> set (x # xs)" using sets unfolding ys by auto
    ultimately show False using Cons.prems(4) [of x y] ne by auto
  qed
  then show ?case using Cons.IH [of zs] Cons.prems unfolding ys by simp
qed simp

lemma js_sort_by_key:
  assumes "mset fs = mset gs" "distinct (map fst fs)"
  shows "js_sort by_key fs = js_sort by_key gs"
proof (rule sorted_wrt_mset_unique)
  let ?R = "\<lambda>p q. str_cmp (fst p) (fst q) \<le> 0"
  have trans: "transp ?R" by (auto intro!: transpI elim: str_cmp_trans)
  show "sorted_wrt ?R (js_sort by_key xs)" for xs :: "(string \<times> 'a) list"
    by (rule js_sort_sorted [OF _ _ trans]) (simp_all add: by_key_def, metis str_cmp_neg le_cases neg_le_0_iff_le)
  then show "sorted_wrt ?R (js_sort by_key gs)" .
  show "mset (js_sort by_key fs) = mset (js_sort by_key gs)" using assms by (simp add: mset_js_sort)
  fix p q assume "p \<in> set (js_sort by_key fs)" "q \<in> set (js_sort by_key fs)" and le: "?R p q" "?R q p"
  then have "p \<in> set fs" "q \<in> set fs" by auto
  moreover have "fst p = fst q" using le str_cmp_neg [of "fst p" "fst q"] by (simp add: str_cmp_eq_0 [symmetric])
  ultimately show "p = q" using assms(2) by (simp add: distinct_map inj_on_def)
qed

text \<open>Equality of values up to the order in which objects list their fields.\<close>

inductive same_value :: "js_val \<Rightarrow> js_val \<Rightarrow> bool" where
  same_refl: "same_value v v"
| same_array: "list_all2 same_value vs ws \<Longrightarrow> same_value (VArr vs) (VArr ws)"
| same_object: "distinct (map fst fs) \<Longrightarrow> mset fs = mset hs \<Longrightarrow> list_all2 (rel_prod (=) same_value) hs gs \<Longrightarrow>
    same_value (VObj fs) (VObj gs)"

lemma stable_object_cong:
  "mset fs = mset gs \<Longrightarrow> distinct (map fst fs) \<Longrightarrow> stable_object fs = stable_object gs"
  by (simp add: stable_object_def js_sort_by_key)

lemma stable_same_value: "same_value v w \<Longrightarrow> stableStringify v = stableStringify w"
proof (induction rule: same_value.induct)
  case (same_array vs ws)
  then have "map stableStringify vs = map stableStringify ws"
    by (simp add: list_all2_conv_all_nth list_eq_iff_nth_eq)
  then show ?case by simp
next
  case (same_object fs hs gs)
  let ?m = "map_prod id stableStringify"
  have "map ?m hs = map ?m gs"
    using same_object(3) by (fastforce simp: list_all2_conv_all_nth list_eq_iff_nth_eq rel_prod_sel prod_eq_iff)
  moreover have "mset (map ?m fs) = mset (map ?m hs)" using same_object(2) by simp
  moreover have "distinct (map fst (map ?m fs))" using same_object(1) by (simp add: comp_def)
  ultimately show ?case by (simp add: stable_object_cong)
qed simp

end
