(* ===== verification/ToolLoop.thy ===== *)
theory ToolLoop
  imports DiagnosticState StableJson JsNumber
begin

text \<open>
  Detection of agents that are stuck in a loop of tool calls (src/src/agents/tool-loop-detection.ts):
  a sliding window of calls and their outcomes per session, the streaks read off it, and the verdict
  before the next call. \<open>sha256\<close>, the hash of \<open>node:crypto\<close> in hexadecimal, is an argument of
  what computes digests; logging is left out.
\<close>

section \<open>Configuration\<close>

definition TOOL_CALL_HISTORY_SIZE :: nat where "TOOL_CALL_HISTORY_SIZE = 30"
definition WARNING_THRESHOLD :: nat where "WARNING_THRESHOLD = 10"
definition UNKNOWN_TOOL_THRESHOLD :: nat where "UNKNOWN_TOOL_THRESHOLD = 10"
definition CRITICAL_THRESHOLD :: nat where "CRITICAL_THRESHOLD = 20"
definition GLOBAL_CIRCUIT_BREAKER_THRESHOLD :: nat where "GLOBAL_CIRCUIT_BREAKER_THRESHOLD = 30"

record LoopDetectors =
  cfg_genericRepeat :: "bool option"
  cfg_knownPollNoProgress :: "bool option"
  cfg_pingPong :: "bool option"

record ToolLoopDetectionConfig =
  cfg_enabled :: "bool option"
  cfg_historySize :: "js_number option"
  cfg_warningThreshold :: "js_number option"
  cfg_unknownToolThreshold :: "js_number option"
  cfg_criticalThreshold :: "js_number option"
  cfg_globalCircuitBreakerThreshold :: "js_number option"
  cfg_detectors :: "LoopDetectors option"

record ResolvedLoopDetectionConfig =
  enabled :: bool
  historySize :: nat
  warningThreshold :: nat
  unknownToolThreshold :: nat
  criticalThreshold :: nat
  globalCircuitBreakerThreshold :: nat
  genericRepeat :: bool
  knownPollNoProgress :: bool
  pingPong :: bool

definition normalizeRunId :: "string option \<Rightarrow> string option" where
  "normalizeRunId r = (case r of None \<Rightarrow> None | Some s \<Rightarrow> if js_trim s = [] then None else Some (js_trim s))"

definition selectHistoryForScope :: "ToolCallRecord list \<Rightarrow> string option \<Rightarrow> ToolCallRecord list" where
  "selectHistoryForScope history scope = filter (\<lambda>rec. normalizeRunId (runId rec) = normalizeRunId scope) history"

definition asPositiveInt :: "js_number option \<Rightarrow> nat \<Rightarrow> nat" where
  "asPositiveInt value fallback =
    (case value of Some (Fin q) \<Rightarrow> if of_int \<lfloor>q\<rfloor> = q \<and> 0 < q then nat \<lfloor>q\<rfloor> else fallback | _ \<Rightarrow> fallback)"

definition resolveLoopDetectionConfig :: "ToolLoopDetectionConfig option \<Rightarrow> ResolvedLoopDetectionConfig" where
  "resolveLoopDetectionConfig config =
    (let get = (\<lambda>f fallback. asPositiveInt (Option.bind config f) fallback);
         detector = (\<lambda>f. or_else (Option.bind (Option.bind config cfg_detectors) f) True);
         warning = get cfg_warningThreshold WARNING_THRESHOLD;
         critical0 = get cfg_criticalThreshold CRITICAL_THRESHOLD;
         global0 = get cfg_globalCircuitBreakerThreshold GLOBAL_CIRCUIT_BREAKER_THRESHOLD;
         critical = (if critical0 \<le> warning then warning + 1 else critical0);
         global = (if global0 \<le> critical then critical + 1 else global0)
     in \<lparr> enabled = or_else (Option.bind config cfg_enabled) False,
          historySize = get cfg_historySize TOOL_CALL_HISTORY_SIZE,
          warningThreshold = warning,
          unknownToolThreshold = get cfg_unknownToolThreshold UNKNOWN_TOOL_THRESHOLD,
          criticalThreshold = critical,
          globalCircuitBreakerThreshold = global,
          genericRepeat = detector cfg_genericRepeat,
          knownPollNoProgress = detector cfg_knownPollNoProgress,
          pingPong = detector cfg_pingPong \<rparr>)"

section \<open>Hashes of calls and outcomes\<close>

definition digestStable :: "(string \<Rightarrow> string) \<Rightarrow> js_val \<Rightarrow> string" where
  "digestStable sha256 v = sha256 (stableStringify v)"

definition hashToolCall :: "(string \<Rightarrow> string) \<Rightarrow> string \<Rightarrow> js_val \<Rightarrow> string" where
  "hashToolCall sha256 tool params = tool @ '':'' @ digestStable sha256 params"

definition isKnownPollToolCall :: "string \<Rightarrow> js_val \<Rightarrow> bool" where
  "isKnownPollToolCall tool params =
    (if tool = ''command_status'' then True
     else if tool \<noteq> ''process'' then False
     else (case plain_fields params of
             None \<Rightarrow> False
           | Some fs \<Rightarrow> field fs ''action'' = VStr ''poll'' \<or> field fs ''action'' = VStr ''log''))"

text \<open>The text of an entry of \<open>content\<close> whose type and text are strings.\<close>

definition content_text :: "js_val \<Rightarrow> string option" where
  "content_text entry =
    (case plain_fields entry of
       None \<Rightarrow> None
     | Some fs \<Rightarrow> (case (field fs ''type'', field fs ''text'') of (VStr t, VStr s) \<Rightarrow> Some s | _ \<Rightarrow> None))"

definition extractTextContent :: "js_val \<Rightarrow> string" where
  "extractTextContent result =
    (case plain_fields result of
       None \<Rightarrow> []
     | Some fs \<Rightarrow>
         (case field fs ''content'' of
            VArr entries \<Rightarrow> js_trim (join_with [CHR 0x0A] (List.map_filter content_text entries))
          | _ \<Rightarrow> []))"

definition formatErrorForHash :: "js_val \<Rightarrow> string" where
  "formatErrorForHash e =
    (case e of
       VError name message stk \<Rightarrow> or_default message name
     | VStr s \<Rightarrow> s
     | VNum n \<Rightarrow> n
     | VNonFinite n \<Rightarrow> n
     | VBool b \<Rightarrow> if b then ''true'' else ''false''
     | VBigInt i \<Rightarrow> int_to_dec i
     | _ \<Rightarrow> stableStringify e)"

subsection \<open>The name of an unknown tool in an error\<close>

text \<open>
  The two patterns \<open>unknown tool[:\s]+["']?([a-z0-9_.-]+)["']?\<close> and
  \<open>tool\s+["']?([a-z0-9_.-]+)["']?\s+(?:not found|is not available)\<close>, without case: the
  leftmost match counts. Their classes of characters are disjoint where one repetition follows
  another, so the longest run is the only one that can match.
\<close>

definition is_quote_char :: "char \<Rightarrow> bool" where
  "is_quote_char c \<longleftrightarrow> c = CHR 0x22 \<or> c = CHR 0x27"

definition is_tool_char :: "char \<Rightarrow> bool" where
  "is_tool_char c \<longleftrightarrow>
    (let n = (of_char c :: nat) in
      97 \<le> n \<and> n \<le> 122 \<or> 65 \<le> n \<and> n \<le> 90 \<or> 48 \<le> n \<and> n \<le> 57 \<or> c = CHR ''_'' \<or> c = CHR ''.'' \<or> c = CHR ''-'')"

text \<open>The rest of the text after a literal, letters compared without case.\<close>

definition after_literal :: "string \<Rightarrow> string \<Rightarrow> string option" where
  "after_literal lit s = (if js_lower (take (length lit) s) = lit then Some (drop (length lit) s) else None)"

definition skip_quote :: "string \<Rightarrow> string" where
  "skip_quote s = (case s of c # r \<Rightarrow> if is_quote_char c then r else s | [] \<Rightarrow> s)"

definition unknown_tool_here :: "string \<Rightarrow> string option" where
  "unknown_tool_here s =
    (case after_literal ''unknown tool'' s of
       None \<Rightarrow> None
     | Some r \<Rightarrow>
         let sep = (\<lambda>c. c = CHR '':'' \<or> is_js_space c);
             name = takeWhile is_tool_char (skip_quote (dropWhile sep r))
         in if takeWhile sep r = [] \<or> name = [] then None else Some name)"

definition missing_tool_here :: "string \<Rightarrow> string option" where
  "missing_tool_here s =
    (case after_literal ''tool'' s of
       None \<Rightarrow> None
     | Some r \<Rightarrow>
         let body = skip_quote (dropWhile is_js_space r);
             name = takeWhile is_tool_char body;
             tail = skip_quote (dropWhile is_tool_char body);
             verb = dropWhile is_js_space tail
         in if takeWhile is_js_space r = [] \<or> name = [] \<or> takeWhile is_js_space tail = [] then None
            else if after_literal ''not found'' verb \<noteq> None \<or> after_literal ''is not available'' verb \<noteq> None
            then Some name else None)"

fun leftmost :: "(string \<Rightarrow> string option) \<Rightarrow> string \<Rightarrow> string option" where
  "leftmost m [] = m []"
| "leftmost m (c # s) = (case m (c # s) of Some x \<Rightarrow> Some x | None \<Rightarrow> leftmost m s)"

definition extractUnknownToolName :: "js_val \<Rightarrow> string option" where
  "extractUnknownToolName e =
    (let raw = js_trim (formatErrorForHash e) in
     if raw = [] then None
     else case or_opt (leftmost unknown_tool_here raw) (leftmost missing_tool_here raw) of
            None \<Rightarrow> None
          | Some m \<Rightarrow> let tool = js_trim m in if tool = [] then None else Some (js_lower tool))"

subsection \<open>Outcomes\<close>

definition stringField :: "js_val \<Rightarrow> string option" where
  "stringField v = (case v of VStr s \<Rightarrow> Some s | _ \<Rightarrow> None)"

definition nonEmptyStringField :: "js_val \<Rightarrow> string option" where
  "nonEmptyStringField v = (case v of VStr s \<Rightarrow> if js_trim s = [] then None else Some (js_trim s) | _ \<Rightarrow> None)"

definition or_null :: "js_val \<Rightarrow> js_val" where
  "or_null v = (if v = VUndef then VNull else v)"

definition string_or_null :: "string option \<Rightarrow> js_val" where
  "string_or_null s = (case s of None \<Rightarrow> VNull | Some t \<Rightarrow> VStr t)"

definition number_or_null :: "js_val \<Rightarrow> js_val" where
  "number_or_null v = (case v of VNum n \<Rightarrow> v | VNonFinite n \<Rightarrow> v | _ \<Rightarrow> VNull)"

definition hashExecToolOutcome :: "(string \<Rightarrow> string) \<Rightarrow> (string \<times> js_val) list \<Rightarrow> string \<Rightarrow> string option" where
  "hashExecToolOutcome sha256 details txt =
    (case stringField (field details ''status'') of
       None \<Rightarrow> None
     | Some status \<Rightarrow>
         if status = [] then None
         else if status = ''running'' then
           Some (digestStable sha256 (VObj
             [(''status'', VStr status), (''tail'', VStr (or_else (stringField (field details ''tail'')) []))]))
         else if status = ''completed'' \<or> status = ''failed'' then
           Some (digestStable sha256 (VObj
             [(''status'', VStr status), (''exitCode'', number_or_null (field details ''exitCode'')),
              (''timedOut'', VBool (field details ''timedOut'' = VBool True)),
              (''output'', VStr (or_else (nonEmptyStringField (field details ''aggregated'')) txt))]))
         else if status = ''approval-pending'' \<or> status = ''approval-unavailable'' then
           Some (digestStable sha256 (VObj
             [(''status'', VStr status), (''reason'', string_or_null (stringField (field details ''reason''))),
              (''host'', string_or_null (stringField (field details ''host''))),
              (''command'', VStr (or_else (stringField (field details ''command'')) [])),
              (''warningText'', VStr (or_else (stringField (field details ''warningText'')) []))]))
         else None)"

text \<open>The outcome of a poll or of a log request of the process tool.\<close>

definition poll_outcome :: "(string \<times> js_val) list \<Rightarrow> string \<Rightarrow> js_val" where
  "poll_outcome details txt = VObj
    [(''action'', VStr ''poll''), (''status'', field details ''status''), (''exitCode'', or_null (field details ''exitCode'')),
     (''exitSignal'', or_null (field details ''exitSignal'')), (''aggregated'', or_null (field details ''aggregated'')),
     (''text'', VStr txt)]"

definition log_outcome :: "(string \<times> js_val) list \<Rightarrow> string \<Rightarrow> js_val" where
  "log_outcome details txt = VObj
    [(''action'', VStr ''log''), (''status'', field details ''status''), (''totalLines'', or_null (field details ''totalLines'')),
     (''totalChars'', or_null (field details ''totalChars'')), (''truncated'', or_null (field details ''truncated'')),
     (''exitCode'', or_null (field details ''exitCode'')), (''exitSignal'', or_null (field details ''exitSignal'')),
     (''text'', VStr txt)]"

text \<open>The hash of an outcome and the name of the unknown tool. An absent result or error is undefined.\<close>

definition hashToolOutcome :: "(string \<Rightarrow> string) \<Rightarrow> string \<Rightarrow> js_val \<Rightarrow> js_val \<Rightarrow> js_val \<Rightarrow> string option \<times> string option" where
  "hashToolOutcome sha256 tool params result err =
    (if err \<noteq> VUndef then
       (Some (''error:'' @ digestStable sha256 (VStr (formatErrorForHash err))), extractUnknownToolName err)
     else case plain_fields result of
       None \<Rightarrow> (if result = VUndef then None else Some (digestStable sha256 result), None)
     | Some fs \<Rightarrow>
         let details = or_else (plain_fields (field fs ''details'')) [];
             txt = extractTextContent result;
             exec = (if tool = ''exec'' then hashExecToolOutcome sha256 details txt else None);
             action = (if isKnownPollToolCall tool params \<and> tool = ''process''
                       then map_option (\<lambda>ps. field ps ''action'') (plain_fields params) else None)
         in if truthy exec then (exec, None)
            else if action = Some (VStr ''poll'') then (Some (digestStable sha256 (poll_outcome details txt)), None)
            else if action = Some (VStr ''log'') then (Some (digestStable sha256 (log_outcome details txt)), None)
            else (Some (digestStable sha256 (VObj [(''details'', VObj details), (''text'', VStr txt)])), None))"

section \<open>Streaks\<close>

text \<open>The loops run over the history from its end, so they recurse over the reversed list.\<close>

fun unknown_loop :: "string \<Rightarrow> nat \<Rightarrow> string option \<Rightarrow> ToolCallRecord list \<Rightarrow> nat \<times> string option" where
  "unknown_loop tool streak repeated [] = (streak, repeated)"
| "unknown_loop tool streak repeated (rec # recs) =
     (if toolName rec \<noteq> tool \<or> \<not> truthy (unknownToolName rec) then (streak, repeated)
      else if \<not> truthy repeated then unknown_loop tool 1 (unknownToolName rec) recs
      else if unknownToolName rec \<noteq> repeated then (streak, repeated)
      else unknown_loop tool (streak + 1) repeated recs)"

definition getUnknownToolRepeatStreak :: "ToolCallRecord list \<Rightarrow> string \<Rightarrow> nat \<times> string option" where
  "getUnknownToolRepeatStreak history tool = unknown_loop tool 0 None (rev history)"

fun no_progress_loop :: "string \<Rightarrow> string \<Rightarrow> nat \<Rightarrow> string option \<Rightarrow> ToolCallRecord list \<Rightarrow> nat \<times> string option" where
  "no_progress_loop tool hash streak latest [] = (streak, latest)"
| "no_progress_loop tool hash streak latest (rec # recs) =
     (if toolName rec \<noteq> tool \<or> argsHash rec \<noteq> hash then no_progress_loop tool hash streak latest recs
      else if \<not> truthy (resultHash rec) then no_progress_loop tool hash streak latest recs
      else if \<not> truthy latest then no_progress_loop tool hash 1 (resultHash rec) recs
      else if resultHash rec \<noteq> latest then (streak, latest)
      else no_progress_loop tool hash (streak + 1) latest recs)"

definition getNoProgressStreak :: "ToolCallRecord list \<Rightarrow> string \<Rightarrow> string \<Rightarrow> nat \<times> string option" where
  "getNoProgressStreak history tool hash = no_progress_loop tool hash 0 None (rev history)"

record PingPongStreak =
  pp_count :: nat
  pairedToolName :: "string option"
  pairedSignature :: "string option"
  noProgressEvidence :: bool

definition no_ping_pong :: PingPongStreak where
  "no_ping_pong = \<lparr>pp_count = 0, pairedToolName = None, pairedSignature = None, noProgressEvidence = False\<rparr>"

text \<open>How many calls at the end alternate between two signatures, the later one first.\<close>

fun alternating_tail :: "string \<Rightarrow> string \<Rightarrow> nat \<Rightarrow> ToolCallRecord list \<Rightarrow> nat" where
  "alternating_tail lst other n [] = n"
| "alternating_tail lst other n (call # calls) =
     (if argsHash call \<noteq> (if n mod 2 = 0 then lst else other) then n else alternating_tail lst other (n + 1) calls)"

text \<open>The results of the tail: the first hash of either side, and whether nothing spoke against a standstill.\<close>

fun stable_results :: "string \<Rightarrow> string \<Rightarrow> string option \<Rightarrow> string option \<Rightarrow> ToolCallRecord list \<Rightarrow>
    string option \<times> string option \<times> bool" where
  "stable_results lst other a b [] = (a, b, True)"
| "stable_results lst other a b (call # calls) =
     (if \<not> truthy (resultHash call) then (a, b, False)
      else if argsHash call = lst then
        (if \<not> truthy a then stable_results lst other (resultHash call) b calls
         else if a \<noteq> resultHash call then (a, b, False)
         else stable_results lst other a b calls)
      else if argsHash call = other then
        (if \<not> truthy b then stable_results lst other a (resultHash call) calls
         else if b \<noteq> resultHash call then (a, b, False)
         else stable_results lst other a b calls)
      else (a, b, False))"

definition getPingPongStreak :: "ToolCallRecord list \<Rightarrow> string \<Rightarrow> PingPongStreak" where
  "getPingPongStreak history currentSignature =
    (case rev history of
       [] \<Rightarrow> no_ping_pong
     | lst # earlier \<Rightarrow>
         (case find (\<lambda>call. argsHash call \<noteq> argsHash lst) earlier of
            None \<Rightarrow> no_ping_pong
          | Some oth \<Rightarrow>
              if argsHash oth = [] \<or> toolName oth = [] then no_ping_pong
              else
                let n = alternating_tail (argsHash lst) (argsHash oth) 0 (rev history) in
                if n < 2 \<or> currentSignature \<noteq> argsHash oth then no_ping_pong
                else
                  let (a, b, unrefuted) =
                        stable_results (argsHash lst) (argsHash oth) None None (drop (length history - n) history)
                  in \<lparr> pp_count = n + 1, pairedToolName = Some (toolName lst), pairedSignature = Some (argsHash lst),
                       noProgressEvidence = (unrefuted \<and> truthy a \<and> truthy b) \<rparr>))"

definition canonicalPairKey :: "string \<Rightarrow> string \<Rightarrow> string" where
  "canonicalPairKey a b = join_with ''|'' (js_sort str_cmp [a, b])"

section \<open>The verdict\<close>

datatype LoopLevel = LoopWarning | LoopCritical

datatype LoopDetectorKind = GenericRepeat | UnknownToolRepeat | KnownPollNoProgress | GlobalCircuitBreaker | PingPong

record LoopFinding =
  lf_level :: LoopLevel
  lf_detector :: LoopDetectorKind
  lf_count :: nat
  lf_message :: string
  lf_pairedToolName :: "string option"
  lf_warningKey :: "string option"

text \<open>\<open>{ stuck: false }\<close> is \<open>None\<close>.\<close>

type_synonym LoopDetectionResult = "LoopFinding option"

definition stuck :: "LoopLevel \<Rightarrow> LoopDetectorKind \<Rightarrow> nat \<Rightarrow> string \<Rightarrow> string option \<Rightarrow> string \<Rightarrow> LoopDetectionResult" where
  "stuck lv d n message paired key =
    Some \<lparr>lf_level = lv, lf_detector = d, lf_count = n, lf_message = message, lf_pairedToolName = paired, lf_warningKey = Some key\<rparr>"

definition unknown_message :: "string \<Rightarrow> nat \<Rightarrow> string" where
  "unknown_message tool n = ''CRITICAL: attempted unavailable tool '' @ tool @ '' '' @ nat_to_dec n
     @ '' times. Stop retrying that missing tool and answer without it.''"

definition global_message :: "string \<Rightarrow> nat \<Rightarrow> string" where
  "global_message tool n = ''CRITICAL: '' @ tool @ '' has repeated identical no-progress outcomes '' @ nat_to_dec n
     @ '' times. Session execution blocked by global circuit breaker to prevent runaway loops.''"

definition poll_critical_message :: "string \<Rightarrow> nat \<Rightarrow> string" where
  "poll_critical_message tool n = ''CRITICAL: Called '' @ tool @ '' with identical arguments and no progress '' @ nat_to_dec n
     @ '' times. This appears to be a stuck polling loop. Session execution blocked to prevent resource waste.''"

definition poll_warning_message :: "string \<Rightarrow> nat \<Rightarrow> string" where
  "poll_warning_message tool n = ''WARNING: You have called '' @ tool @ '' '' @ nat_to_dec n
     @ '' times with identical arguments and no progress. Stop polling and either (1) increase wait time between checks, or (2) report the task as failed if the process is stuck.''"

definition ping_critical_message :: "nat \<Rightarrow> string" where
  "ping_critical_message n = ''CRITICAL: You are alternating between repeated tool-call patterns ('' @ nat_to_dec n
     @ '' consecutive calls) with no progress. This appears to be a stuck ping-pong loop. Session execution blocked to prevent resource waste.''"

definition ping_warning_message :: "nat \<Rightarrow> string" where
  "ping_warning_message n = ''WARNING: You are alternating between repeated tool-call patterns ('' @ nat_to_dec n
     @ '' consecutive calls). This looks like a ping-pong loop; stop retrying and report the task as failed.''"

definition generic_critical_message :: "string \<Rightarrow> nat \<Rightarrow> string" where
  "generic_critical_message tool n = ''CRITICAL: Called '' @ tool @ '' with identical arguments and identical outcomes '' @ nat_to_dec n
     @ '' times. Session execution blocked to prevent runaway loops.''"

definition generic_warning_message :: "string \<Rightarrow> nat \<Rightarrow> string" where
  "generic_warning_message tool n = ''WARNING: You have called '' @ tool @ '' '' @ nat_to_dec n
     @ '' times with identical arguments. If this is not making progress, stop retrying and report the task as failed.''"

text \<open>The verdict on a history that is already selected for the run, with a resolved configuration.\<close>

definition judge :: "ResolvedLoopDetectionConfig \<Rightarrow> ToolCallRecord list \<Rightarrow> string \<Rightarrow> string \<Rightarrow> bool \<Rightarrow> LoopDetectionResult" where
  "judge cfg history tool hash poll =
    (let (unknown, unknownTool) = getUnknownToolRepeatStreak history tool;
         (streak, latest) = getNoProgressStreak history tool hash;
         pp = getPingPongStreak history hash;
         key = (\<lambda>prefix. prefix @ '':'' @ tool @ '':'' @ hash @ '':'' @ or_else latest ''none'');
         pp_key = (if truthy (pairedSignature pp) then ''pingpong:'' @ canonicalPairKey hash (the (pairedSignature pp))
                   else ''pingpong:'' @ tool @ '':'' @ hash);
         recentCount = length (filter (\<lambda>h. toolName h = tool \<and> argsHash h = hash) history)
     in
     if unknownToolThreshold cfg \<le> unknown then
       stuck LoopCritical UnknownToolRepeat unknown (unknown_message (or_else unknownTool tool) unknown) None
         (''unknown-tool:'' @ tool @ '':'' @ or_else unknownTool ''unknown'')
     else if globalCircuitBreakerThreshold cfg \<le> streak then
       stuck LoopCritical GlobalCircuitBreaker streak (global_message tool streak) None (key ''global'')
     else if poll \<and> knownPollNoProgress cfg \<and> criticalThreshold cfg \<le> streak then
       stuck LoopCritical KnownPollNoProgress streak (poll_critical_message tool streak) None (key ''poll'')
     else if poll \<and> knownPollNoProgress cfg \<and> warningThreshold cfg \<le> streak then
       stuck LoopWarning KnownPollNoProgress streak (poll_warning_message tool streak) None (key ''poll'')
     else if pingPong cfg \<and> criticalThreshold cfg \<le> pp_count pp \<and> noProgressEvidence pp then
       stuck LoopCritical PingPong (pp_count pp) (ping_critical_message (pp_count pp)) (pairedToolName pp) pp_key
     else if pingPong cfg \<and> warningThreshold cfg \<le> pp_count pp then
       stuck LoopWarning PingPong (pp_count pp) (ping_warning_message (pp_count pp)) (pairedToolName pp) pp_key
     else if \<not> poll \<and> genericRepeat cfg \<and> criticalThreshold cfg \<le> streak then
       stuck LoopCritical GenericRepeat streak (generic_critical_message tool streak) None (key ''generic'')
     else if \<not> poll \<and> genericRepeat cfg \<and> warningThreshold cfg \<le> recentCount then
       stuck LoopWarning GenericRepeat recentCount (generic_warning_message tool recentCount) None
         (''generic:'' @ tool @ '':'' @ hash)
     else None)"

definition detectToolCallLoop :: "(string \<Rightarrow> string) \<Rightarrow> SessionState \<Rightarrow> string \<Rightarrow> js_val \<Rightarrow> ToolLoopDetectionConfig option \<Rightarrow>
    string option \<Rightarrow> LoopDetectionResult" where
  "detectToolCallLoop sha256 s tool params config scope =
    (let cfg = resolveLoopDetectionConfig config in
     if \<not> enabled cfg then None
     else judge cfg (selectHistoryForScope (or_else (toolCallHistory s) []) scope) tool (hashToolCall sha256 tool params)
            (isKnownPollToolCall tool params))"

section \<open>Recording\<close>

text \<open>The sliding window: \<open>splice(0, length - size)\<close> of a history that grew too long.\<close>

definition slide :: "nat \<Rightarrow> 'a list \<Rightarrow> 'a list" where
  "slide cap history = (if cap < length history then drop (length history - cap) history else history)"

definition recordToolCall :: "(string \<Rightarrow> string) \<Rightarrow> int \<Rightarrow> SessionState \<Rightarrow> string \<Rightarrow> js_val \<Rightarrow> string option \<Rightarrow>
    ToolLoopDetectionConfig option \<Rightarrow> string option \<Rightarrow> SessionState" where
  "recordToolCall sha256 now s tool params callId config scope =
    (let rec = \<lparr>toolName = tool, argsHash = hashToolCall sha256 tool params, toolCallId = callId,
                runId = normalizeRunId scope, resultHash = None, unknownToolName = None, timestamp = now\<rparr>
     in s\<lparr>toolCallHistory :=
           Some (slide (historySize (resolveLoopDetectionConfig config)) (or_else (toolCallHistory s) [] @ [rec]))\<rparr>)"

text \<open>The record an outcome belongs to: the latest call of the same run, call id, tool and
  arguments that has no outcome yet.\<close>

definition awaits_outcome :: "string option \<Rightarrow> string option \<Rightarrow> string \<Rightarrow> string \<Rightarrow> ToolCallRecord \<Rightarrow> bool" where
  "awaits_outcome run callId tool hash call \<longleftrightarrow>
    normalizeRunId (runId call) = run \<and> \<not> (truthy callId \<and> toolCallId call \<noteq> callId) \<and>
    toolName call = tool \<and> argsHash call = hash \<and> resultHash call = None"

fun complete_first :: "(ToolCallRecord \<Rightarrow> bool) \<Rightarrow> (ToolCallRecord \<Rightarrow> ToolCallRecord) \<Rightarrow> ToolCallRecord list \<Rightarrow>
    (ToolCallRecord \<times> ToolCallRecord list) option" where
  "complete_first p f [] = None"
| "complete_first p f (call # calls) =
     (if p call then Some (f call, f call # calls)
      else map_option (\<lambda>(done_rec, rest). (done_rec, call # rest)) (complete_first p f calls))"

record OutcomeParams =
  op_toolName :: string
  op_toolParams :: js_val
  op_toolCallId :: "string option"
  op_result :: js_val
  op_error :: js_val
  op_config :: "ToolLoopDetectionConfig option"
  op_runId :: "string option"

definition recordToolCallOutcome :: "(string \<Rightarrow> string) \<Rightarrow> int \<Rightarrow> SessionState \<Rightarrow> OutcomeParams \<Rightarrow>
    ToolCallRecord option \<times> SessionState" where
  "recordToolCallOutcome sha256 now s p =
    (let cap = historySize (resolveLoopDetectionConfig (op_config p));
         run = normalizeRunId (op_runId p);
         (res, unknown) = hashToolOutcome sha256 (op_toolName p) (op_toolParams p) (op_result p) (op_error p);
         hash = hashToolCall sha256 (op_toolName p) (op_toolParams p);
         history = or_else (toolCallHistory s) []
     in if \<not> truthy res then (None, s)
        else
          (case complete_first (awaits_outcome run (op_toolCallId p) (op_toolName p) hash)
                  (\<lambda>call. call\<lparr>resultHash := res, unknownToolName := unknown\<rparr>) (rev history) of
             Some (call, calls) \<Rightarrow> (Some call, s\<lparr>toolCallHistory := Some (slide cap (rev calls))\<rparr>)
           | None \<Rightarrow>
               let rec = \<lparr>toolName = op_toolName p, argsHash = hash, toolCallId = op_toolCallId p, runId = run,
                          resultHash = res, unknownToolName = unknown, timestamp = now\<rparr>
               in (Some rec, s\<lparr>toolCallHistory := Some (slide cap (history @ [rec]))\<rparr>)))"

section \<open>Statistics\<close>

record ToolCallStats =
  totalCalls :: nat
  uniquePatterns :: nat
  mostFrequent :: "(string \<times> nat) option"

definition count_pattern :: "(string, string \<times> nat) jsmap \<Rightarrow> ToolCallRecord \<Rightarrow> (string, string \<times> nat) jsmap" where
  "count_pattern patterns call =
    (case jm_get patterns (argsHash call) of
       Some (tool, n) \<Rightarrow> jm_set (argsHash call) (tool, n + 1) patterns
     | None \<Rightarrow> jm_set (argsHash call) (toolName call, 1) patterns)"

definition more_frequent :: "(string \<times> nat) option \<Rightarrow> string \<times> nat \<Rightarrow> (string \<times> nat) option" where
  "more_frequent best pattern =
    (case best of None \<Rightarrow> Some pattern | Some b \<Rightarrow> if snd b < snd pattern then Some pattern else best)"

definition getToolCallStats :: "SessionState \<Rightarrow> ToolCallStats" where
  "getToolCallStats s =
    (let history = or_else (toolCallHistory s) [];
         patterns = foldl count_pattern [] history
     in \<lparr>totalCalls = length history, uniquePatterns = length patterns,
         mostFrequent = foldl more_frequent None (jm_values patterns)\<rparr>)"

end
