(* ===== verification/ToolLoopProps.thy ===== *)
theory ToolLoopProps
  imports ToolLoop
begin

text \<open>
  What the detection of tool loops guarantees: the streaks are the leading runs of what happened
  latest, a critical verdict is only given to an agent that makes no progress, and every agent that
  repeats itself long enough gets one. The predicates on histories look at the latest calls first.
\<close>

section \<open>Leading runs\<close>

text \<open>How often the first element is repeated at the front of a list, and the element.\<close>

definition leading_run :: "'a list \<Rightarrow> nat \<times> 'a option" where
  "leading_run xs = (case xs of [] \<Rightarrow> (0, None) | x # _ \<Rightarrow> (length (takeWhile ((=) x) xs), Some x))"

lemma leading_run_Nil [simp]: "leading_run [] = (0, None)"
  by (simp add: leading_run_def)

lemma leading_run_Cons [simp]: "leading_run (x # xs) = (Suc (length (takeWhile ((=) x) xs)), Some x)"
  by (simp add: leading_run_def)

text \<open>The results of the calls of a tool with some arguments, the latest first.\<close>

definition finished :: "string \<Rightarrow> string \<Rightarrow> ToolCallRecord \<Rightarrow> bool" where
  "finished tool hash rec \<longleftrightarrow> toolName rec = tool \<and> argsHash rec = hash \<and> truthy (resultHash rec)"

definition latest_results :: "ToolCallRecord list \<Rightarrow> string \<Rightarrow> string \<Rightarrow> string list" where
  "latest_results history tool hash = map (the \<circ> resultHash) (filter (finished tool hash) (rev history))"

text \<open>The unknown tools that the latest uninterrupted calls of a tool asked for.\<close>

definition misses :: "string \<Rightarrow> ToolCallRecord \<Rightarrow> bool" where
  "misses tool rec \<longleftrightarrow> toolName rec = tool \<and> truthy (unknownToolName rec)"

definition latest_misses :: "ToolCallRecord list \<Rightarrow> string \<Rightarrow> string list" where
  "latest_misses history tool = map (the \<circ> unknownToolName) (takeWhile (misses tool) (rev history))"

lemma truthy_Some [simp]: "truthy (Some s) \<longleftrightarrow> s \<noteq> []" "\<not> truthy None"
  by (auto simp: truthy_def)

lemma truthyE: "truthy v \<Longrightarrow> (\<And>s. v = Some s \<Longrightarrow> s \<noteq> [] \<Longrightarrow> thesis) \<Longrightarrow> thesis"
  by (cases v) auto

lemma no_progress_loop_Some:
  "x \<noteq> [] \<Longrightarrow> no_progress_loop tool hash n (Some x) recs =
    (n + length (takeWhile ((=) x) (map (the \<circ> resultHash) (filter (finished tool hash) recs))), Some x)"
  by (induction recs arbitrary: n) (auto simp: finished_def elim!: truthyE)

lemma no_progress_streak: "getNoProgressStreak history tool hash = leading_run (latest_results history tool hash)"
proof -
  have "no_progress_loop tool hash 0 None recs = leading_run (map (the \<circ> resultHash) (filter (finished tool hash) recs))"
    for recs
    by (induction recs) (auto simp: finished_def [abs_def] comp_def no_progress_loop_Some elim!: truthyE)
  then show ?thesis by (simp add: getNoProgressStreak_def latest_results_def)
qed

lemma unknown_loop_Some:
  "x \<noteq> [] \<Longrightarrow> unknown_loop tool n (Some x) recs =
    (n + length (takeWhile ((=) x) (map (the \<circ> unknownToolName) (takeWhile (misses tool) recs))), Some x)"
  by (induction recs arbitrary: n) (auto simp: misses_def elim!: truthyE)

lemma unknown_streak: "getUnknownToolRepeatStreak history tool = leading_run (latest_misses history tool)"
proof -
  have "unknown_loop tool 0 None recs = leading_run (map (the \<circ> unknownToolName) (takeWhile (misses tool) recs))" for recs
    by (cases recs) (auto simp: misses_def unknown_loop_Some elim!: truthyE)
  then show ?thesis by (simp add: getUnknownToolRepeatStreak_def latest_misses_def)
qed

lemma leading_run_at_least:
  assumes "0 < n"
  shows "n \<le> fst (leading_run xs) \<longleftrightarrow> n \<le> length xs \<and> take n xs = replicate n (hd xs)"
proof -
  have "n \<le> length (takeWhile ((=) y) xs) \<longleftrightarrow> n \<le> length xs \<and> take n xs = replicate n y" for xs y n
  proof (induction xs arbitrary: n)
    case (Cons z zs)
    then show ?case by (cases n) auto
  qed auto
  from this [of n "hd xs" xs] show ?thesis using assms by (cases xs) (simp_all add: leading_run_def)
qed

section \<open>Standstills\<close>

text \<open>The latest \<open>n\<close> results of a call are all the same.\<close>

definition stalled_repeat :: "nat \<Rightarrow> string \<Rightarrow> string \<Rightarrow> ToolCallRecord list \<Rightarrow> bool" where
  "stalled_repeat n tool hash history \<longleftrightarrow>
    (let rs = latest_results history tool hash in n \<le> length rs \<and> take n rs = replicate n (hd rs))"

text \<open>The latest \<open>n\<close> calls all missed the same tool.\<close>

definition stalled_unknown :: "nat \<Rightarrow> string \<Rightarrow> ToolCallRecord list \<Rightarrow> bool" where
  "stalled_unknown n tool history \<longleftrightarrow>
    (let ms = latest_misses history tool in n \<le> length ms \<and> take n ms = replicate n (hd ms))"

text \<open>The latest \<open>n\<close> calls alternate between another call, made last, and this one.\<close>

definition alternating :: "nat \<Rightarrow> string \<Rightarrow> ToolCallRecord list \<Rightarrow> bool" where
  "alternating n hash history \<longleftrightarrow> 2 \<le> n \<and> n \<le> length history \<and>
    (\<exists>other. other \<noteq> hash \<and> (\<forall>i < n. argsHash (rev history ! i) = (if even i then other else hash)))"

text \<open>\dots and each of the two had the same result every time.\<close>

definition stable_alternation :: "nat \<Rightarrow> ToolCallRecord list \<Rightarrow> bool" where
  "stable_alternation n history \<longleftrightarrow>
    (\<exists>a b. a \<noteq> [] \<and> b \<noteq> [] \<and> (\<forall>i < n. resultHash (rev history ! i) = Some (if even i then a else b)))"

lemma alternating_tail_spec:
  "alternating_tail lst other k calls =
     k + length (takeWhile (\<lambda>(i, c). argsHash c = (if even i then lst else other)) (zip [k ..< k + length calls] calls))"
proof (induction calls arbitrary: k)
  case (Cons c calls)
  have "[k ..< k + length (c # calls)] = k # [Suc k ..< Suc k + length calls]"
    using upt_conv_Cons [of k "k + length (c # calls)"] by (simp del: upt_Suc)
  then show ?case using Cons.IH [of "Suc k"] by (auto simp: even_iff_mod_2_eq_zero)
qed simp

lemma alternating_tail_le: "alternating_tail lst other 0 calls \<le> length calls"
proof -
  have "length (takeWhile P (zip [0 ..< length calls] calls)) \<le> length (zip [0 ..< length calls] calls)" for P
    by (rule length_takeWhile_le)
  then show ?thesis by (simp add: alternating_tail_spec)
qed

lemma alternating_tail_nth:
  assumes "i < alternating_tail lst other 0 calls"
  shows "argsHash (calls ! i) = (if even i then lst else other)"
proof -
  let ?xs = "zip [0 ..< length calls] calls" and ?P = "\<lambda>(i, c). argsHash c = (if even i then lst else other)"
  have i: "i < length (takeWhile ?P ?xs)" using assms by (simp add: alternating_tail_spec)
  then have "takeWhile ?P ?xs ! i \<in> set (takeWhile ?P ?xs)" by (rule nth_mem)
  then have "?P (takeWhile ?P ?xs ! i)" by (rule set_takeWhileD [THEN conjunct2])
  moreover have "takeWhile ?P ?xs ! i = ?xs ! i" using i by (rule takeWhile_nth)
  moreover have "i < length calls" using assms alternating_tail_le less_le_trans by blast
  ultimately show ?thesis by simp
qed

lemma stable_results_sound:
  "stable_results lst other a b calls = (a', b', True) \<Longrightarrow>
    (\<forall>c \<in> set calls. truthy (resultHash c) \<and> argsHash c \<in> {lst, other} \<and> resultHash c = (if argsHash c = lst then a' else b')) \<and>
    (truthy a \<longrightarrow> a' = a) \<and> (truthy b \<longrightarrow> b' = b)"
proof (induction calls arbitrary: a b)
  case (Cons c calls)
  have t: "truthy (resultHash c)" using Cons.prems by (simp split: if_splits)
  show ?case
  proof (cases "argsHash c = lst")
    case True
    have step: "stable_results lst other (resultHash c) b calls = (a', b', True)" "truthy a \<longrightarrow> a = resultHash c"
      using Cons.prems t True by (simp_all split: if_splits)
    from Cons.IH [OF step(1)] t have "resultHash c = (if argsHash c = lst then a' else b')" by (simp add: True)
    then show ?thesis using Cons.IH [OF step(1)] step(2) t True unfolding list.set by blast
  next
    case False
    have step: "argsHash c = other" "stable_results lst other a (resultHash c) calls = (a', b', True)" "truthy b \<longrightarrow> b = resultHash c"
      using Cons.prems t False by (simp_all split: if_splits)
    from Cons.IH [OF step(2)] t have "resultHash c = (if argsHash c = lst then a' else b')" by (simp add: False)
    then show ?thesis using Cons.IH [OF step(2)] step(1,3) t unfolding list.set by blast
  qed
qed simp

lemma stable_results_complete:
  assumes "\<And>c. c \<in> set calls \<Longrightarrow> argsHash c \<in> {lst, other} \<and> resultHash c = Some (if argsHash c = lst then x else y)"
    "x \<noteq> []" "y \<noteq> []" "a \<in> {None, Some x}" "b \<in> {None, Some y}"
  shows "\<exists>a' b'. stable_results lst other a b calls = (a', b', True) \<and>
    (a = Some x \<or> lst \<in> argsHash ` set calls \<longrightarrow> a' = Some x) \<and> (b = Some y \<or> other \<noteq> lst \<and> other \<in> argsHash ` set calls \<longrightarrow> b' = Some y)"
  using assms
proof (induction calls arbitrary: a b)
  case (Cons c calls)
  have c: "argsHash c \<in> {lst, other}" "resultHash c = Some (if argsHash c = lst then x else y)" using Cons.prems(1) by auto
  have rest: "argsHash c' \<in> {lst, other} \<and> resultHash c' = Some (if argsHash c' = lst then x else y)"
    if "c' \<in> set calls" for c' using Cons.prems(1) that by simp
  show ?case
  proof (cases "argsHash c = lst")
    case True
    have "stable_results lst other a b (c # calls) = stable_results lst other (Some x) b calls"
      using Cons.prems(2,4) c True by (auto simp: truthy_def)
    then show ?thesis using Cons.IH [of "Some x" b] rest Cons.prems(2-5) c True by auto
  next
    case False
    have "stable_results lst other a b (c # calls) = stable_results lst other a (Some y) calls"
      using Cons.prems(3,5) c False by (auto simp: truthy_def)
    then show ?thesis using Cons.IH [of a "Some y"] rest Cons.prems(2-5) c False by auto
  qed
qed auto

lemma set_tail: "n \<le> length xs \<Longrightarrow> set (drop (length xs - n) xs) = (\<lambda>i. rev xs ! i) ` {..< n}"
proof -
  assume n: "n \<le> length xs"
  then have "drop (length xs - n) xs = rev (take n (rev xs))" by (simp add: take_rev)
  moreover have "set (take n (rev xs)) = (\<lambda>i. rev xs ! i) ` {..< n}"
    using n nth_image [of n "rev xs"] by (simp add: lessThan_atLeast0)
  ultimately show ?thesis by simp
qed

text \<open>The results of an alternating tail are stable exactly when nothing refutes a standstill.\<close>

lemma stable_results_alternation:
  assumes "2 \<le> n" "n \<le> length history" "lst \<noteq> other"
    and alt: "\<forall>i < n. argsHash (rev history ! i) = (if even i then lst else other)"
    and res: "stable_results lst other None None (drop (length history - n) history) = (a, b, unrefuted)"
  shows "unrefuted \<and> truthy a \<and> truthy b \<longleftrightarrow> stable_alternation n history"
proof
  note tail = set_tail [OF assms(2)]
  assume u: "unrefuted \<and> truthy a \<and> truthy b"
  then have all: "\<forall>c \<in> set (drop (length history - n) history). resultHash c = (if argsHash c = lst then a else b)"
    using stable_results_sound [of lst other None None "drop (length history - n) history" a b] res by simp
  have "resultHash (rev history ! i) = (if even i then a else b)" if "i < n" for i
    using all that alt assms(3) unfolding tail by simp
  then show "stable_alternation n history" using u unfolding stable_alternation_def
    by (intro exI [of _ "the a"] exI [of _ "the b"]) (auto elim!: truthyE)
next
  note tail = set_tail [OF assms(2)]
  assume "stable_alternation n history"
  then obtain x y where xy: "x \<noteq> []" "y \<noteq> []" "\<forall>i < n. resultHash (rev history ! i) = Some (if even i then x else y)"
    by (auto simp: stable_alternation_def)
  have each: "argsHash c \<in> {lst, other} \<and> resultHash c = Some (if argsHash c = lst then x else y)"
    if "c \<in> set (drop (length history - n) history)" for c
    using that alt xy(3) assms(3) unfolding tail by auto
  have "lst \<in> argsHash ` set (drop (length history - n) history)" "other \<in> argsHash ` set (drop (length history - n) history)"
    unfolding tail image_image using alt [rule_format, of 0] alt [rule_format, of 1] assms(1) by (force intro: image_eqI [of _ _ 0])+
  then show "unrefuted \<and> truthy a \<and> truthy b"
    using stable_results_complete [of "drop (length history - n) history" lst other x y None None] each xy(1,2) res assms(3)
    by auto
qed

text \<open>What a ping-pong streak is.\<close>

lemma ping_pong_streak:
  assumes "pp_count (getPingPongStreak history hash) \<noteq> 0"
  defines "n \<equiv> pp_count (getPingPongStreak history hash) - 1"
  shows "alternating n hash history"
    "noProgressEvidence (getPingPongStreak history hash) \<longleftrightarrow> stable_alternation n history"
proof -
  obtain l earlier where rev: "rev history = l # earlier"
    using assms(1) by (cases "rev history") (auto simp: getPingPongStreak_def no_ping_pong_def)
  obtain oth where oth: "find (\<lambda>call. argsHash call \<noteq> argsHash l) earlier = Some oth"
    using assms(1) by (cases "find (\<lambda>call. argsHash call \<noteq> argsHash l) earlier") (auto simp: getPingPongStreak_def no_ping_pong_def rev)
  define k where "k = alternating_tail (argsHash l) (argsHash oth) 0 (rev history)"
  have differ: "argsHash oth \<noteq> argsHash l" using find_SomeD [OF oth] by simp
  have ok: "\<not> (argsHash oth = [] \<or> toolName oth = [])" "\<not> (k < 2 \<or> hash \<noteq> argsHash oth)"
    using assms(1) by (auto simp: getPingPongStreak_def no_ping_pong_def rev oth k_def Let_def split: if_splits prod.splits)
  obtain a b u where res: "stable_results (argsHash l) (argsHash oth) None None (drop (length history - k) history) = (a, b, u)"
    by (metis prod.exhaust)
  have pp: "getPingPongStreak history hash = \<lparr>pp_count = k + 1, pairedToolName = Some (toolName l),
      pairedSignature = Some (argsHash l), noProgressEvidence = (u \<and> truthy a \<and> truthy b)\<rparr>"
    using ok res by (simp add: getPingPongStreak_def rev oth k_def [unfolded rev])
  then have n: "n = k" by (simp add: n_def)
  have k: "2 \<le> k" "k \<le> length history" "hash = argsHash oth"
    using ok alternating_tail_le [of "argsHash l" "argsHash oth" "rev history"] by (auto simp: k_def)
  have alt: "\<forall>i < k. argsHash (rev history ! i) = (if even i then argsHash l else argsHash oth)"
    using alternating_tail_nth by (auto simp: k_def)
  then show "alternating n hash history" using k differ unfolding n alternating_def
    by (intro conjI exI [of _ "argsHash l"]) auto
  show "noProgressEvidence (getPingPongStreak history hash) \<longleftrightarrow> stable_alternation n history"
    using stable_results_alternation [OF k(1,2) _ alt res] differ by (simp add: pp n)
qed

section \<open>Thresholds\<close>

lemma asPositiveInt_pos: "0 < fallback \<Longrightarrow> 0 < asPositiveInt v fallback"
  by (auto simp: asPositiveInt_def split: option.split js_number.split)

lemma resolved_thresholds:
  fixes config
  defines "cfg \<equiv> resolveLoopDetectionConfig config"
  shows "0 < historySize cfg" "0 < unknownToolThreshold cfg" "0 < warningThreshold cfg"
    "warningThreshold cfg < criticalThreshold cfg" "criticalThreshold cfg < globalCircuitBreakerThreshold cfg"
  by (simp_all add: cfg_def resolveLoopDetectionConfig_def Let_def asPositiveInt_pos TOOL_CALL_HISTORY_SIZE_def
      UNKNOWN_TOOL_THRESHOLD_def WARNING_THRESHOLD_def)

section \<open>The verdict\<close>

lemma stuckD: "stuck lv d n m p k = Some f \<Longrightarrow> lf_level f = lv \<and> lf_detector f = d \<and> lf_count f = n"
  by (auto simp: stuck_def)

lemma stuck_not_None [simp]: "stuck lv d n m p k \<noteq> None"
  by (simp add: stuck_def)

lemma judge_Some:
  assumes "judge cfg history tool hash poll = Some f"
  defines "u \<equiv> fst (getUnknownToolRepeatStreak history tool)" and "n \<equiv> fst (getNoProgressStreak history tool hash)"
    and "pp \<equiv> getPingPongStreak history hash" and "r \<equiv> length (filter (\<lambda>h. toolName h = tool \<and> argsHash h = hash) history)"
  shows "(lf_level f, lf_detector f, lf_count f) =
    (if unknownToolThreshold cfg \<le> u then (LoopCritical, UnknownToolRepeat, u)
     else if globalCircuitBreakerThreshold cfg \<le> n then (LoopCritical, GlobalCircuitBreaker, n)
     else if poll \<and> knownPollNoProgress cfg \<and> criticalThreshold cfg \<le> n then (LoopCritical, KnownPollNoProgress, n)
     else if poll \<and> knownPollNoProgress cfg \<and> warningThreshold cfg \<le> n then (LoopWarning, KnownPollNoProgress, n)
     else if pingPong cfg \<and> criticalThreshold cfg \<le> pp_count pp \<and> noProgressEvidence pp then (LoopCritical, PingPong, pp_count pp)
     else if pingPong cfg \<and> warningThreshold cfg \<le> pp_count pp then (LoopWarning, PingPong, pp_count pp)
     else if \<not> poll \<and> genericRepeat cfg \<and> criticalThreshold cfg \<le> n then (LoopCritical, GenericRepeat, n)
     else (LoopWarning, GenericRepeat, r))"
  using assms(1) unfolding judge_def Let_def case_prod_beta u_def [symmetric] n_def [symmetric] pp_def [symmetric] r_def [symmetric]
  by (simp only: split: if_split_asm) (simp_all, (drule stuckD, simp)+)

text \<open>The history a verdict reads, and the streaks of the current call in it.\<close>

definition loop_history :: "SessionState \<Rightarrow> string option \<Rightarrow> ToolCallRecord list" where
  "loop_history s scope = selectHistoryForScope (or_else (toolCallHistory s) []) scope"

text \<open>An agent stands still: it keeps missing the same tool, or repeats a call with the same
  result, or alternates between two calls with the same two results.\<close>

definition standstill :: "ResolvedLoopDetectionConfig \<Rightarrow> string \<Rightarrow> string \<Rightarrow> ToolCallRecord list \<Rightarrow> bool" where
  "standstill cfg tool hash history \<longleftrightarrow>
    stalled_unknown (unknownToolThreshold cfg) tool history \<or>
    stalled_repeat (criticalThreshold cfg) tool hash history \<or>
    (\<exists>n \<in> {criticalThreshold cfg - 1 .. length history}. alternating n hash history \<and> stable_alternation n history)"

lemma stalled_repeat_mono: "stalled_repeat n tool hash h \<Longrightarrow> m \<le> n \<Longrightarrow> stalled_repeat m tool hash h"
  unfolding stalled_repeat_def Let_def by (metis min.absorb1 order.trans take_replicate take_take)

lemma judge_critical:
  assumes cfg: "cfg = resolveLoopDetectionConfig config" and j: "judge cfg history tool hash poll = Some f" "lf_level f = LoopCritical"
  shows "standstill cfg tool hash history"
proof -
  let ?pp = "getPingPongStreak history hash"
  let ?u = "fst (getUnknownToolRepeatStreak history tool)" and ?n = "fst (getNoProgressStreak history tool hash)"
  note pos = resolved_thresholds [of config, folded cfg]
  have "unknownToolThreshold cfg \<le> ?u \<or> criticalThreshold cfg \<le> ?n \<or>
      criticalThreshold cfg \<le> pp_count ?pp \<and> noProgressEvidence ?pp"
    using judge_Some [OF j(1)] j(2) pos(5) by (simp split: if_split_asm)
  then consider (u) "unknownToolThreshold cfg \<le> ?u" | (r) "criticalThreshold cfg \<le> ?n"
    | (p) "criticalThreshold cfg \<le> pp_count ?pp" "noProgressEvidence ?pp" by blast
  then show ?thesis
  proof cases
    case u
    then show ?thesis using pos(2) leading_run_at_least
      by (auto simp: standstill_def unknown_streak stalled_unknown_def Let_def)
  next
    case r
    then show ?thesis using pos(4) leading_run_at_least [of "criticalThreshold cfg"]
      by (auto simp: standstill_def no_progress_streak stalled_repeat_def Let_def)
  next
    case p
    then have "pp_count ?pp \<noteq> 0" using pos(4) by linarith
    from ping_pong_streak [OF this] p show ?thesis unfolding standstill_def
      by (intro disjI2 bexI [of _ "pp_count ?pp - 1"]) (auto simp: alternating_def)
  qed
qed

text \<open>A repeated call is blocked once its own detector reaches the critical threshold, unless another
  detector already blocks it; a ping-pong in progress can only be under way when the latest call was a different one.\<close>

lemma no_ping_pong_after_same_call:
  "history \<noteq> [] \<Longrightarrow> argsHash (last history) = hash \<Longrightarrow> pp_count (getPingPongStreak history hash) = 0"
proof (rule ccontr)
  assume h: "history \<noteq> []" "argsHash (last history) = hash" and "pp_count (getPingPongStreak history hash) \<noteq> 0"
  then have "alternating (pp_count (getPingPongStreak history hash) - 1) hash history" by (blast intro: ping_pong_streak)
  then obtain n other where "2 \<le> n" "other \<noteq> hash" "\<forall>i < n. argsHash (rev history ! i) = (if even i then other else hash)"
    unfolding alternating_def by blast
  then have "argsHash (rev history ! 0) \<noteq> hash" by force
  then show False using h by (simp add: rev_nth last_conv_nth)
qed

definition repeat_detector :: "ResolvedLoopDetectionConfig \<Rightarrow> bool \<Rightarrow> bool" where
  "repeat_detector cfg poll \<longleftrightarrow> (if poll then knownPollNoProgress cfg else genericRepeat cfg)"

lemma judge_blocks_repeat:
  assumes cfg: "cfg = resolveLoopDetectionConfig config" and on: "repeat_detector cfg poll"
    and stall: "stalled_repeat (criticalThreshold cfg) tool hash history"
    and latest: "history \<noteq> []" "argsHash (last history) = hash"
  shows "\<exists>f. judge cfg history tool hash poll = Some f \<and> lf_level f = LoopCritical"
proof -
  note pos = resolved_thresholds [of config, folded cfg]
  have n: "criticalThreshold cfg \<le> fst (getNoProgressStreak history tool hash)"
    using stall pos leading_run_at_least [of "criticalThreshold cfg" "latest_results history tool hash"]
    by (simp add: no_progress_streak stalled_repeat_def Let_def)
  note pp = no_ping_pong_after_same_call [OF latest]
  have "judge cfg history tool hash poll \<noteq> None"
    using n pp pos on by (auto simp: judge_def Let_def case_prod_beta repeat_detector_def simp del: not_None_eq)
  then obtain f where f: "judge cfg history tool hash poll = Some f" by blast
  then show ?thesis using judge_Some [OF f] n pp pos on by (auto simp: repeat_detector_def split: if_split_asm)
qed

section \<open>The window\<close>

lemma length_slide [simp]: "length (slide cap xs) \<le> cap"
  by (simp add: slide_def)

lemma slide_append: "0 < cap \<Longrightarrow> slide cap (xs @ [x]) = drop (Suc (length xs) - cap) xs @ [x]"
  by (auto simp: slide_def)

lemma set_slide: "set (slide cap xs) \<subseteq> set xs"
  by (auto simp: slide_def dest: in_set_dropD)

lemma length_complete_first: "complete_first p f xs = Some (c, ys) \<Longrightarrow> length ys = length xs"
  by (induction xs arbitrary: ys) (auto split: if_splits)

text \<open>Runs of recordings on one session.\<close>

datatype LoopOp = CallOp string js_val "string option" "string option" | OutcomeOp string js_val "string option" js_val js_val "string option"

definition loop_step :: "(string \<Rightarrow> string) \<Rightarrow> ToolLoopDetectionConfig option \<Rightarrow> SessionState \<Rightarrow> int \<times> LoopOp \<Rightarrow> SessionState" where
  "loop_step sha256 config s x =
    (case x of
       (now, CallOp tool params callId run) \<Rightarrow> recordToolCall sha256 now s tool params callId config run
     | (now, OutcomeOp tool params callId result err run) \<Rightarrow>
         snd (recordToolCallOutcome sha256 now s
           \<lparr>op_toolName = tool, op_toolParams = params, op_toolCallId = callId, op_result = result, op_error = err,
            op_config = config, op_runId = run\<rparr>))"

lemma loop_step_window:
  "length (or_else (toolCallHistory s) []) \<le> historySize (resolveLoopDetectionConfig config) \<Longrightarrow>
    length (or_else (toolCallHistory (loop_step sha256 config s x)) []) \<le> historySize (resolveLoopDetectionConfig config)"
  by (auto simp: loop_step_def recordToolCall_def recordToolCallOutcome_def Let_def or_else_def
      split: prod.split LoopOp.split option.split)

text \<open>The streaks of the detection are leading runs. The no-progress streak is the length of the run of
  equal results that the latest finished calls of this tool and arguments begin with, the
  unknown-tool streak the run of equal names that the latest uninterrupted calls missed, and a
  ping-pong streak counts calls that alternate with another one, with evidence exactly when either
  side had the same result throughout.\<close>

lemma tool_loop_streaks:
  "getNoProgressStreak history tool hash = leading_run (latest_results history tool hash) \<and>
   getUnknownToolRepeatStreak history tool = leading_run (latest_misses history tool) \<and>
   (let pp = getPingPongStreak history hash in
    if pp_count pp = 0 then True
    else alternating (pp_count pp - 1) hash history \<and> noProgressEvidence pp = stable_alternation (pp_count pp - 1) history)"
  using ping_pong_streak [of history hash] by (auto simp: no_progress_streak unknown_streak Let_def)

lemma loop_steps_window:
  "length (or_else (toolCallHistory s) []) \<le> historySize (resolveLoopDetectionConfig config) \<Longrightarrow>
    length (or_else (toolCallHistory (foldl (loop_step sha256 config) s ops)) []) \<le> historySize (resolveLoopDetectionConfig config)"
proof (induction ops arbitrary: s)
  case (Cons x ops)
  then show ?case using loop_step_window [of s config sha256 x] by simp
qed simp

text \<open>The window of calls is bounded. However many calls and outcomes are recorded on a new session, its
  history never grows beyond the configured size.\<close>

lemma tool_history_bounded:
  "length (or_else (toolCallHistory (foldl (loop_step sha256 config) (new_state now r) ops)) [])
    \<le> historySize (resolveLoopDetectionConfig config)"
  by (rule loop_steps_window) (simp add: new_state_def)

end
