(* ===== verification/PluginToolHooks.thy ===== *)
theory PluginToolHooks
  imports StableJson JsMap
begin

text \<open>
  What plugins may say about a tool call: trusted policies (src/src/plugins/trusted-tool-policy.ts),
  the ordinary \<open>before_tool_call\<close> hooks (src/src/plugins/hooks.ts, hook-runner-global.ts), and the
  approval a plugin may ask for (src/src/agents/pi-tools.before-tool-call.ts). The answers of
  plugins and of the gateway are arguments: a plugin's function of the parameters it is shown, the
  gateway's replies as values. The hints about paths that are derived from the parameters, and the
  session state that a policy may read, belong to what a plugin answers.
\<close>

section \<open>Answers\<close>

datatype TimeoutBehavior = TimeoutAllow | TimeoutDeny

record PluginApproval =
  pa_title :: string
  pa_description :: string
  pa_timeoutBehavior :: "TimeoutBehavior option"
  pa_pluginId :: "string option"

record BeforeToolCallResult =
  hr_params :: "js_val option"
  hr_block :: "bool option"
  hr_blockReason :: "string option"
  hr_requireApproval :: "PluginApproval option"

section \<open>Trusted policies\<close>

text \<open>A policy decides nothing, allows or refuses, or answers like a hook; or its evaluation throws.\<close>

datatype TrustedDecision = NoDecision | AllowDecision bool "string option" | ResultDecision BeforeToolCallResult

record TrustedToolPolicy =
  tp_pluginId :: string
  tp_id :: string
  tp_evaluate :: "js_val \<Rightarrow> TrustedDecision option"

definition hasTrustedToolPolicies :: "TrustedToolPolicy list \<Rightarrow> bool" where
  "hasTrustedToolPolicies policies \<longleftrightarrow> policies \<noteq> []"

text \<open>The loop over the policies: the parameters as adjusted so far, whether they are, and the approval
  that was asked for first. \<open>None\<close> is an exception, \<open>Some None\<close> is undefined.\<close>

fun trusted_loop :: "js_val \<Rightarrow> bool \<Rightarrow> PluginApproval option \<Rightarrow> TrustedToolPolicy list \<Rightarrow> BeforeToolCallResult option option" where
  "trusted_loop params adjusted approval [] =
     (if \<not> adjusted \<and> approval = None then Some None
      else Some (Some \<lparr>hr_params = (if adjusted then Some params else None), hr_block = None, hr_blockReason = None,
                       hr_requireApproval = approval\<rparr>))"
| "trusted_loop params adjusted approval (p # ps) =
     (case tp_evaluate p params of
        None \<Rightarrow> None
      | Some NoDecision \<Rightarrow> trusted_loop params adjusted approval ps
      | Some (AllowDecision a reason) \<Rightarrow>
          if \<not> a then Some (Some \<lparr>hr_params = None, hr_block = Some True,
                 hr_blockReason = Some (or_else reason (''blocked by '' @ tp_id p)), hr_requireApproval = None\<rparr>)
          else trusted_loop params adjusted approval ps
      | Some (ResultDecision d) \<Rightarrow>
          if hr_block d = Some True
          then Some (Some (d\<lparr>hr_blockReason := Some (or_else (hr_blockReason d) (''blocked by '' @ tp_id p))\<rparr>))
          else
            let plain = (case hr_params d of Some v \<Rightarrow> is_plain_object v | None \<Rightarrow> False) in
            trusted_loop (if plain then the (hr_params d) else params) (adjusted \<or> plain) (or_opt approval (hr_requireApproval d)) ps)"

definition runTrustedToolPolicies :: "TrustedToolPolicy list \<Rightarrow> js_val \<Rightarrow> BeforeToolCallResult option option" where
  "runTrustedToolPolicies policies params = trusted_loop params False None policies"

section \<open>Hooks\<close>

text \<open>A handler throws or times out, answers nothing, or gives a result.\<close>

datatype HookAnswer = HookThrows | HookNothing | HookGives BeforeToolCallResult

record HookRegistration =
  hg_hookName :: string
  hg_pluginId :: string
  hg_priority :: "int option"
  hg_handler :: "js_val \<Rightarrow> HookAnswer"

datatype HookFailurePolicy = FailOpen | FailClosed

definition getHooksForName :: "HookRegistration list \<Rightarrow> string \<Rightarrow> HookRegistration list" where
  "getHooksForName typedHooks name =
    js_sort (\<lambda>a b. or_else (hg_priority b) 0 - or_else (hg_priority a) 0) (filter (\<lambda>h. hg_hookName h = name) typedHooks)"

definition hasHooks :: "HookRegistration list \<Rightarrow> string \<Rightarrow> bool" where
  "hasHooks typedHooks name \<longleftrightarrow> list_ex (\<lambda>h. hg_hookName h = name) typedHooks"

definition shouldCatchHookErrors :: "bool \<Rightarrow> (string, HookFailurePolicy) jsmap \<Rightarrow> string \<Rightarrow> bool" where
  "shouldCatchHookErrors catchErrors failurePolicyByHook name \<longleftrightarrow>
    catchErrors \<and> or_else (jm_get failurePolicyByHook name) FailOpen = FailOpen"

text \<open>The failure policies of the global runner, which also catches errors where they leave hooks open.\<close>

definition global_failure_policies :: "(string, HookFailurePolicy) jsmap" where
  "global_failure_policies = [(''before_agent_run'', FailClosed), (''before_tool_call'', FailClosed)]"

definition lastDefined :: "'a option \<Rightarrow> 'a option \<Rightarrow> 'a option" where
  "lastDefined prev nxt = or_opt nxt prev"

definition stickyTrue :: "bool option \<Rightarrow> bool option \<Rightarrow> bool option" where
  "stickyTrue prev nxt = (if prev = Some True \<or> nxt = Some True then Some True else None)"

definition mergeBeforeToolCall :: "BeforeToolCallResult option \<Rightarrow> BeforeToolCallResult \<Rightarrow> HookRegistration \<Rightarrow> BeforeToolCallResult" where
  "mergeBeforeToolCall acc nxt reg =
    (if Option.bind acc hr_block = Some True then the acc
     else
       let approvalPlugin = Option.bind (Option.bind acc hr_requireApproval) pa_pluginId;
           freeze = (case approvalPlugin of None \<Rightarrow> False | Some p \<Rightarrow> p \<noteq> [] \<and> p \<noteq> hg_pluginId reg)
       in \<lparr>hr_params = (if freeze then Option.bind acc hr_params else lastDefined (Option.bind acc hr_params) (hr_params nxt)),
           hr_block = stickyTrue (Option.bind acc hr_block) (hr_block nxt),
           hr_blockReason = lastDefined (Option.bind acc hr_blockReason) (hr_blockReason nxt),
           hr_requireApproval = or_opt (Option.bind acc hr_requireApproval)
             (map_option (\<lambda>r. r\<lparr>pa_pluginId := Some (hg_pluginId reg)\<rparr>) (hr_requireApproval nxt))\<rparr>)"

text \<open>The handlers run in turn on the same event; a result that blocks ends the run.\<close>

fun modifying_loop :: "bool \<Rightarrow> js_val \<Rightarrow> BeforeToolCallResult option \<Rightarrow> HookRegistration list \<Rightarrow> BeforeToolCallResult option option" where
  "modifying_loop catches params result [] = Some result"
| "modifying_loop catches params result (h # hs) =
     (case hg_handler h params of
        HookThrows \<Rightarrow> if catches then modifying_loop catches params result hs else None
      | HookNothing \<Rightarrow> modifying_loop catches params result hs
      | HookGives r \<Rightarrow>
          let merged = mergeBeforeToolCall result r h in
          if hr_block merged = Some True then Some (Some merged) else modifying_loop catches params (Some merged) hs)"

definition runBeforeToolCall :: "HookRegistration list \<Rightarrow> js_val \<Rightarrow> BeforeToolCallResult option option" where
  "runBeforeToolCall typedHooks params =
    modifying_loop (shouldCatchHookErrors True global_failure_policies ''before_tool_call'') params None
      (getHooksForName typedHooks ''before_tool_call'')"

section \<open>Approvals\<close>

datatype HookBlockedKind = Veto | HookFailure

datatype HookBlockedReason = PluginBeforeToolCall | PluginApprovalReason | ToolLoopReason

datatype HookOutcome = Blocked HookBlockedKind HookBlockedReason string js_val | Allowed js_val

text \<open>The reply to a request: an error (a cancellation by the run's abort or another), or an id and
  perhaps a decision, which may be null, undefined or a text. The reply to the wait likewise.\<close>

datatype ReplyDecision = NoDecisionField | NullDecision | DecisionField "string option"

datatype RequestReply = RequestThrows bool | RequestReply "string option" ReplyDecision

datatype WaitReply = WaitThrows bool | WaitReply "string option"

definition mergeParamsWithApprovalOverrides :: "js_val \<Rightarrow> js_val option \<Rightarrow> js_val" where
  "mergeParamsWithApprovalOverrides original approvalParams =
    (case approvalParams of
       None \<Rightarrow> original
     | Some a \<Rightarrow>
         (case plain_fields a of
            None \<Rightarrow> original
          | Some fs \<Rightarrow>
              (case plain_fields original of
                 None \<Rightarrow> a
               | Some os \<Rightarrow> VObj (foldl (\<lambda>m p. jm_set (fst p) (snd p) m) os fs))))"

definition approval_resolution :: "string option \<Rightarrow> string" where
  "approval_resolution d =
    (if d = Some ''allow-once'' \<or> d = Some ''allow-always'' \<or> d = Some ''deny'' then the d else ''timeout'')"

text \<open>What a decision makes of the call, and the resolution the plugin is told of.\<close>

definition resolve_decision :: "PluginApproval \<Rightarrow> js_val \<Rightarrow> js_val option \<Rightarrow> string option \<Rightarrow> HookOutcome \<times> string" where
  "resolve_decision approval base override d =
    (if d = Some ''allow-once'' \<or> d = Some ''allow-always'' then Allowed (mergeParamsWithApprovalOverrides base override)
     else if d = Some ''deny'' then Blocked HookFailure PluginApprovalReason ''Denied by user'' base
     else if or_else (pa_timeoutBehavior approval) TimeoutDeny = TimeoutAllow then Allowed (mergeParamsWithApprovalOverrides base override)
     else Blocked HookFailure PluginApprovalReason ''Approval timed out'' base,
     approval_resolution d)"

definition approval_error :: "bool \<Rightarrow> js_val \<Rightarrow> HookOutcome \<times> string" where
  "approval_error aborted base =
    (Blocked HookFailure PluginApprovalReason
       (if aborted then ''Approval cancelled (run aborted)'' else ''Plugin approval required (gateway unavailable)'') base,
     ''cancelled'')"

definition requestPluginToolApproval :: "(PluginApproval \<Rightarrow> RequestReply) \<Rightarrow> (string \<Rightarrow> WaitReply) \<Rightarrow> PluginApproval \<Rightarrow> js_val \<Rightarrow>
    js_val option \<Rightarrow> HookOutcome \<times> string" where
  "requestPluginToolApproval request wait approval base override =
    (case request approval of
       RequestThrows aborted \<Rightarrow> approval_error aborted base
     | RequestReply reply d \<Rightarrow>
         if reply = None \<or> reply = Some [] then
           (Blocked HookFailure PluginApprovalReason (or_default (pa_description approval) ''Plugin approval request failed'') base,
            ''cancelled'')
         else (case d of
             NullDecision \<Rightarrow>
               (Blocked HookFailure PluginApprovalReason ''Plugin approval unavailable (no approval route)'' base, ''cancelled'')
           | DecisionField v \<Rightarrow> resolve_decision approval base override v
           | NoDecisionField \<Rightarrow>
               (case wait (the reply) of
                  WaitThrows aborted \<Rightarrow> approval_error aborted base
                | WaitReply v \<Rightarrow> resolve_decision approval base override v)))"

section \<open>The plugins' verdict\<close>

record PluginEnv =
  pe_policies :: "TrustedToolPolicy list"
  pe_hooks :: "HookRegistration list"
  pe_request :: "PluginApproval \<Rightarrow> RequestReply"
  pe_wait :: "string \<Rightarrow> WaitReply"
  pe_report :: bool

definition report_reason :: "PluginApproval \<Rightarrow> string" where
  "report_reason a = or_default (pa_description a) (or_default (pa_title a) ''Plugin approval required'')"

definition ask :: "PluginEnv \<Rightarrow> PluginApproval \<Rightarrow> js_val \<Rightarrow> js_val option \<Rightarrow> HookOutcome" where
  "ask env approval base override =
    (if pe_report env then Blocked HookFailure PluginApprovalReason (report_reason approval) base
     else fst (requestPluginToolApproval (pe_request env) (pe_wait env) approval base override))"

definition BEFORE_TOOL_CALL_HOOK_FAILURE_REASON :: string where
  "BEFORE_TOOL_CALL_HOOK_FAILURE_REASON = ''Tool call blocked because before_tool_call hook failed''"

definition plain_or_empty :: "js_val \<Rightarrow> js_val" where
  "plain_or_empty v = (if is_plain_object v then v else VObj [])"

definition hook_failed :: "js_val \<Rightarrow> HookOutcome" where
  "hook_failed params = Blocked HookFailure PluginBeforeToolCall BEFORE_TOOL_CALL_HOOK_FAILURE_REASON params"

text \<open>The ordinary hooks, with the parameters that the trusted policies left.\<close>

definition ordinary_hooks :: "PluginEnv \<Rightarrow> js_val \<Rightarrow> js_val \<Rightarrow> HookOutcome" where
  "ordinary_hooks env params adjusted =
    (if \<not> hasHooks (pe_hooks env) ''before_tool_call'' then Allowed adjusted
     else (case runBeforeToolCall (pe_hooks env) (plain_or_empty adjusted) of
         None \<Rightarrow> hook_failed params
       | Some None \<Rightarrow> Allowed adjusted
       | Some (Some r) \<Rightarrow>
           if hr_block r = Some True then
             Blocked Veto PluginBeforeToolCall (or_default (or_else (hr_blockReason r) []) ''Tool call blocked by plugin hook'') adjusted
           else (case hr_requireApproval r of
               Some a \<Rightarrow> ask env a adjusted (hr_params r)
             | None \<Rightarrow> (case hr_params r of
                 Some v \<Rightarrow> Allowed (mergeParamsWithApprovalOverrides adjusted (Some v))
               | None \<Rightarrow> Allowed adjusted))))"

definition plugin_verdict :: "PluginEnv \<Rightarrow> js_val \<Rightarrow> HookOutcome" where
  "plugin_verdict env params =
    (if \<not> hasTrustedToolPolicies (pe_policies env) \<and> \<not> hasHooks (pe_hooks env) ''before_tool_call'' then Allowed params
     else (case (if hasTrustedToolPolicies (pe_policies env) then runTrustedToolPolicies (pe_policies env) (plain_or_empty params)
                 else Some None) of
         None \<Rightarrow> hook_failed params
       | Some None \<Rightarrow> ordinary_hooks env params params
       | Some (Some r) \<Rightarrow>
           if hr_block r = Some True then
             Blocked Veto PluginBeforeToolCall (or_default (or_else (hr_blockReason r) []) ''Tool call blocked by trusted plugin policy'') params
           else (case hr_requireApproval r of
               Some a \<Rightarrow> ask env a params (hr_params r)
             | None \<Rightarrow> ordinary_hooks env params (or_else (hr_params r) params))))"

end
