(* ===== verification/ToolGuard.thy ===== *)
theory ToolGuard
  imports ToolLoopProps ToolPolicy PluginToolHooks
begin

text \<open>
  The guard around every tool call (src/src/agents/pi-tools.before-tool-call.ts): the loop check and
  its warnings, the verdict of the plugins, the run of the tool and the record of its outcome, on
  the diagnostic state of sessions. The tool is an argument, a function of the parameters it is run
  with. Diagnostic events and logs other than the loop events are left out, and so is the path
  context of plugins.
\<close>

section \<open>Warnings\<close>

definition LOOP_WARNING_BUCKET_SIZE :: int where "LOOP_WARNING_BUCKET_SIZE = 10"
definition MAX_LOOP_WARNING_KEYS :: nat where "MAX_LOOP_WARNING_KEYS = 256"
definition MAX_TRACKED_ADJUSTED_PARAMS :: nat where "MAX_TRACKED_ADJUSTED_PARAMS = 1024"

text \<open>The oldest key is only deleted when it is not empty.\<close>

definition drop_oldest_named :: "(string, 'v) jsmap \<Rightarrow> (string, 'v) jsmap" where
  "drop_oldest_named m = (case m of [] \<Rightarrow> [] | (k, v) # _ \<Rightarrow> if k = [] then m else jm_del k m)"

definition shouldEmitLoopWarning :: "SessionState \<Rightarrow> string \<Rightarrow> int \<Rightarrow> bool \<times> SessionState" where
  "shouldEmitLoopWarning s key n =
    (let buckets = or_else (toolLoopWarningBuckets s) [];
         s0 = s\<lparr>toolLoopWarningBuckets := Some buckets\<rparr>;
         bucket = n div LOOP_WARNING_BUCKET_SIZE;
         lastBucket = or_else (jm_get buckets key) 0
     in if bucket \<le> lastBucket then (False, s0)
        else
          let buckets1 = jm_set key bucket buckets
          in (True, s0\<lparr>toolLoopWarningBuckets :=
                Some (if MAX_LOOP_WARNING_KEYS < length buckets1 then drop_oldest_named buckets1 else buckets1)\<rparr>))"

section \<open>The loop check\<close>

record HookContext =
  ctx_sessionKey :: "string option"
  ctx_sessionId :: "string option"
  ctx_runId :: "string option"
  ctx_loopDetection :: "ToolLoopDetectionConfig option"

definition ctx_ref :: "HookContext \<Rightarrow> SessionRef" where
  "ctx_ref ctx = \<lparr>ref_sessionId = ctx_sessionId ctx, ref_sessionKey = ctx_sessionKey ctx\<rparr>"

definition loop_scope :: "HookContext \<Rightarrow> string option" where
  "loop_scope ctx = (if truthy (ctx_runId ctx) then ctx_runId ctx else None)"

definition detector_name :: "LoopDetectorKind \<Rightarrow> string" where
  "detector_name d = (case d of GenericRepeat \<Rightarrow> ''generic_repeat'' | UnknownToolRepeat \<Rightarrow> ''unknown_tool_repeat''
     | KnownPollNoProgress \<Rightarrow> ''known_poll_no_progress'' | GlobalCircuitBreaker \<Rightarrow> ''global_circuit_breaker'' | PingPong \<Rightarrow> ''ping_pong'')"

definition warning_key :: "HookContext \<Rightarrow> string \<Rightarrow> LoopFinding \<Rightarrow> string" where
  "warning_key ctx tool f =
    (let base = or_else (lf_warningKey f) (detector_name (lf_detector f) @ '':'' @ tool)
     in if truthy (ctx_runId ctx) then the (ctx_runId ctx) @ '':'' @ base else base)"

text \<open>What the check found and told: the finding that blocks the call, or the warning it gave, if any.\<close>

datatype LoopCheck = LoopBlocks LoopFinding | LoopPasses "LoopFinding option"

definition loop_check :: "(string \<Rightarrow> string) \<Rightarrow> HookContext \<Rightarrow> int \<Rightarrow> string \<Rightarrow> js_val \<Rightarrow> string option \<Rightarrow> SessionState \<Rightarrow>
    LoopCheck \<times> SessionState" where
  "loop_check sha256 ctx now tool params callId s =
    (let found = detectToolCallLoop sha256 s tool params (ctx_loopDetection ctx) (loop_scope ctx);
         record = (\<lambda>s. if Option.bind (ctx_loopDetection ctx) cfg_enabled \<noteq> Some False
                    then recordToolCall sha256 now s tool params callId (ctx_loopDetection ctx) (loop_scope ctx) else s)
     in (case found of
           None \<Rightarrow> (LoopPasses None, record s)
         | Some f \<Rightarrow>
             if lf_level f = LoopCritical then (LoopBlocks f, s)
             else
               let (emit, s1) = shouldEmitLoopWarning s (warning_key ctx tool f) (int (lf_count f))
               in (LoopPasses (if emit then Some f else None), record s1)))"

section \<open>Outcomes\<close>

record ToolOutcomeObservation =
  oo_toolName :: string
  oo_argsHash :: string
  oo_resultHash :: string

definition outcome_params :: "HookContext \<Rightarrow> string \<Rightarrow> js_val \<Rightarrow> string option \<Rightarrow> js_val \<Rightarrow> js_val \<Rightarrow> OutcomeParams" where
  "outcome_params ctx tool params callId result err =
    \<lparr>op_toolName = tool, op_toolParams = params, op_toolCallId = callId, op_result = result, op_error = err,
     op_config = ctx_loopDetection ctx, op_runId = loop_scope ctx\<rparr>"

definition observation :: "ToolCallRecord option \<Rightarrow> ToolOutcomeObservation option" where
  "observation rec =
    (case rec of
       None \<Rightarrow> None
     | Some r \<Rightarrow>
         if truthy (resultHash r)
         then Some \<lparr>oo_toolName = toolName r, oo_argsHash = argsHash r, oo_resultHash = the (resultHash r)\<rparr> else None)"

definition buildBlockedToolResult :: "string \<Rightarrow> HookBlockedReason \<Rightarrow> js_val" where
  "buildBlockedToolResult reason denied =
    VObj [(''content'', VArr [VObj [(''type'', VStr ''text''), (''text'', VStr reason)]]),
          (''details'', VObj [(''status'', VStr ''blocked''),
             (''deniedReason'', VStr (case denied of PluginBeforeToolCall \<Rightarrow> ''plugin-before-tool-call''
                | PluginApprovalReason \<Rightarrow> ''plugin-approval'' | ToolLoopReason \<Rightarrow> ''tool-loop'')),
             (''reason'', VStr reason)])]"

section \<open>The guard on the table of sessions\<close>

record GuardWorld =
  gw_diagnostics :: Diagnostics
  gw_adjusted :: "(string, js_val) jsmap"

definition buildAdjustedParamsKey :: "string option \<Rightarrow> string \<Rightarrow> string" where
  "buildAdjustedParamsKey run callId =
    (case run of Some r \<Rightarrow> if js_trim r \<noteq> [] then r @ '':'' @ callId else callId | None \<Rightarrow> callId)"

definition remember_adjusted :: "HookContext \<Rightarrow> string option \<Rightarrow> js_val \<Rightarrow> (string, js_val) jsmap \<Rightarrow> (string, js_val) jsmap" where
  "remember_adjusted ctx callId params m =
    (if \<not> truthy callId then m
     else
       let m1 = jm_set (buildAdjustedParamsKey (ctx_runId ctx) (the callId)) params m
       in if MAX_TRACKED_ADJUSTED_PARAMS < length m1 then drop_oldest_named m1 else m1)"

definition consumeAdjustedParamsForToolCall :: "string \<Rightarrow> string option \<Rightarrow> GuardWorld \<Rightarrow> js_val option \<times> GuardWorld" where
  "consumeAdjustedParamsForToolCall callId run w =
    (let key = buildAdjustedParamsKey run callId
     in (jm_get (gw_adjusted w) key, w\<lparr>gw_adjusted := jm_del key (gw_adjusted w)\<rparr>))"

text \<open>The hook: the loop check when there is a session key, then the plugins.\<close>

definition runBeforeToolCallHook :: "(string \<Rightarrow> string) \<Rightarrow> PluginEnv \<Rightarrow> HookContext option \<Rightarrow> int \<Rightarrow> string \<Rightarrow> js_val \<Rightarrow>
    string option \<Rightarrow> Diagnostics \<Rightarrow> HookOutcome \<times> LoopFinding option \<times> Diagnostics" where
  "runBeforeToolCallHook sha256 env ctx now name params callId d =
    (let tool = normalizeToolName (or_default name ''tool'') in
     case ctx of
       None \<Rightarrow> (plugin_verdict env params, None, d)
     | Some c \<Rightarrow>
         if \<not> truthy (ctx_sessionKey c) then (plugin_verdict env params, None, d)
         else
           let ((k, s), d1) = getDiagnosticSessionState now (ctx_ref c) d;
               (check, s1) = loop_check sha256 c now tool params callId s
           in (case check of
                 LoopBlocks f \<Rightarrow> (Blocked Veto ToolLoopReason (lf_message f) params, Some f, write_state k s1 d1)
               | LoopPasses w \<Rightarrow> (plugin_verdict env params, w, write_state k s1 d1)))"

definition recordLoopOutcome :: "(string \<Rightarrow> string) \<Rightarrow> HookContext option \<Rightarrow> int \<Rightarrow> string \<Rightarrow> js_val \<Rightarrow> string option \<Rightarrow> js_val \<Rightarrow> js_val \<Rightarrow>
    Diagnostics \<Rightarrow> ToolOutcomeObservation option \<times> Diagnostics" where
  "recordLoopOutcome sha256 ctx now tool params callId result err d =
    (case ctx of
       None \<Rightarrow> (None, d)
     | Some c \<Rightarrow>
         if \<not> truthy (ctx_sessionKey c) \<and> \<not> truthy (ctx_sessionId c) then (None, d)
         else
           let ((k, s), d1) = getDiagnosticSessionState now (ctx_ref c) d;
               (rec, s1) = recordToolCallOutcome sha256 now s (outcome_params c tool params callId result err)
           in (observation rec, write_state k s1 d1))"

text \<open>What a wrapped tool gives: a result or an error thrown; the parameters the tool was run with,
  if it was; the loop event; and the outcome that observers see.\<close>

datatype ToolAnswer = Returned js_val | Threw js_val

record GuardedCall =
  gc_answer :: ToolAnswer
  gc_ranWith :: "js_val option"
  gc_loopEvent :: "LoopFinding option"
  gc_observed :: "ToolOutcomeObservation option"
  gc_world :: GuardWorld

definition wrapToolWithBeforeToolCallHook :: "(string \<Rightarrow> string) \<Rightarrow> PluginEnv \<Rightarrow> HookContext option \<Rightarrow> string \<Rightarrow> (js_val \<Rightarrow> ToolAnswer) \<Rightarrow>
    int \<times> int \<Rightarrow> string option \<Rightarrow> js_val \<Rightarrow> GuardWorld \<Rightarrow> GuardedCall" where
  "wrapToolWithBeforeToolCallHook sha256 env ctx name run clock callId params w =
    (let toolName = or_default name ''tool'';
         tool = normalizeToolName toolName;
         (outcome, event, d1) = runBeforeToolCallHook sha256 env ctx (fst clock) toolName params callId (gw_diagnostics w)
     in (case outcome of
           Blocked kind denied reason p \<Rightarrow>
             if kind \<noteq> Veto then
               \<lparr>gc_answer = Threw (VError ''Error'' reason None), gc_ranWith = None, gc_loopEvent = event, gc_observed = None,
                gc_world = w\<lparr>gw_diagnostics := d1\<rparr>\<rparr>
             else
               let result = buildBlockedToolResult reason denied;
                   (seen, d2) = recordLoopOutcome sha256 ctx (snd clock) tool (if p = VUndef \<or> p = VNull then params else p) callId result VUndef d1
               in \<lparr>gc_answer = Returned result, gc_ranWith = None, gc_loopEvent = event, gc_observed = seen,
                   gc_world = w\<lparr>gw_diagnostics := d2\<rparr>\<rparr>
         | Allowed p \<Rightarrow>
             let w1 = w\<lparr>gw_diagnostics := d1, gw_adjusted := remember_adjusted (or_else ctx
                   \<lparr>ctx_sessionKey = None, ctx_sessionId = None, ctx_runId = None, ctx_loopDetection = None\<rparr>) callId p (gw_adjusted w)\<rparr>;
                 answer = run p;
                 (seen, d2) = (case answer of
                     Returned result \<Rightarrow> recordLoopOutcome sha256 ctx (snd clock) tool p callId result VUndef d1
                   | Threw err \<Rightarrow> recordLoopOutcome sha256 ctx (snd clock) tool p callId VUndef err d1)
             in \<lparr>gc_answer = answer, gc_ranWith = Some p, gc_loopEvent = event, gc_observed = seen,
                 gc_world = w1\<lparr>gw_diagnostics := d2\<rparr>\<rparr>))"

end
