(* ===== verification/ToolGuardProps.thy ===== *)
theory ToolGuardProps
  imports ToolGuard
begin

text \<open>
  What the guard around tool calls guarantees: a runaway loop on a busy session is stopped, a refusal
  lasts for one call, plugins and approvals fail closed, and what an approval was asked for is what
  runs.
\<close>

section \<open>One round on a session\<close>

lemma normalizeRunId_idem [simp]: "normalizeRunId (normalizeRunId r) = normalizeRunId r"
  by (auto simp: normalizeRunId_def split: option.splits)

lemma complete_first_head: "p x \<Longrightarrow> complete_first p f (x # xs) = Some (f x, f x # xs)"
  by simp

lemma slide_length_le: "length xs \<le> cap \<Longrightarrow> slide cap xs = xs"
  by (simp add: slide_def)

text \<open>A call and its outcome leave one finished record at the end of the window.\<close>

definition finished_record :: "(string \<Rightarrow> string) \<Rightarrow> HookContext \<Rightarrow> int \<Rightarrow> string \<Rightarrow> js_val \<Rightarrow> string option \<Rightarrow> string \<Rightarrow> string option \<Rightarrow> ToolCallRecord" where
  "finished_record sha256 ctx now tool params callId r u =
    \<lparr>toolName = tool, argsHash = hashToolCall sha256 tool params, toolCallId = callId, runId = normalizeRunId (loop_scope ctx),
     resultHash = Some r, unknownToolName = u, timestamp = now\<rparr>"

abbreviation ctx_config :: "HookContext \<Rightarrow> ResolvedLoopDetectionConfig" where
  "ctx_config ctx \<equiv> resolveLoopDetectionConfig (ctx_loopDetection ctx)"

definition history_of :: "SessionState \<Rightarrow> ToolCallRecord list" where
  "history_of s = or_else (toolCallHistory s) []"

lemma recorded_call_and_outcome:
  assumes "hashToolOutcome sha256 tool used result err = (Some r, u)" "r \<noteq> []"
    and same: "hashToolCall sha256 tool used = hashToolCall sha256 tool params"
  shows "history_of (snd (recordToolCallOutcome sha256 now2
      (recordToolCall sha256 now s tool params callId (ctx_loopDetection ctx) (loop_scope ctx))
      (outcome_params ctx tool used callId result err)))
    = slide (historySize (ctx_config ctx)) (history_of s @ [finished_record sha256 ctx now tool params callId r u])"
proof -
  let ?cap = "historySize (ctx_config ctx)" and ?h = "history_of s" and ?hash = "hashToolCall sha256 tool params"
  let ?pending = "\<lparr>toolName = tool, argsHash = ?hash, toolCallId = callId, runId = normalizeRunId (loop_scope ctx),
    resultHash = None, unknownToolName = None, timestamp = now\<rparr>"
  let ?s1 = "recordToolCall sha256 now s tool params callId (ctx_loopDetection ctx) (loop_scope ctx)"
  have cap: "0 < ?cap" by (rule resolved_thresholds)
  let ?front = "drop (Suc (length ?h) - ?cap) ?h"
  have h1: "history_of ?s1 = ?front @ [?pending]"
    using cap by (simp add: recordToolCall_def Let_def history_of_def slide_append)
  have fits: "length (?front @ [finished_record sha256 ctx now tool params callId r u]) \<le> ?cap" using cap by simp
  have "awaits_outcome (normalizeRunId (loop_scope ctx)) callId tool ?hash ?pending" by (simp add: awaits_outcome_def)
  then have "complete_first (awaits_outcome (normalizeRunId (loop_scope ctx)) callId tool ?hash)
      (\<lambda>call. call\<lparr>resultHash := Some r, unknownToolName := u\<rparr>) (rev (history_of ?s1))
    = Some (finished_record sha256 ctx now tool params callId r u, finished_record sha256 ctx now tool params callId r u # rev ?front)"
    unfolding h1 by (simp add: finished_record_def)
  then show ?thesis
    using assms(1,2) cap fits
    by (simp add: recordToolCallOutcome_def same outcome_params_def Let_def history_of_def slide_append slide_length_le)
qed

lemma outcome_without_call:
  assumes "hashToolOutcome sha256 tool params result err = (Some r, u)" "r \<noteq> []"
    and "list_all (\<lambda>rec. resultHash rec \<noteq> None) (history_of s)"
  shows "history_of (snd (recordToolCallOutcome sha256 now s (outcome_params ctx tool params callId result err)))
    = slide (historySize (ctx_config ctx)) (history_of s @ [finished_record sha256 ctx now tool params callId r u])"
proof -
  have none: "complete_first p f xs = None \<longleftrightarrow> (\<forall>x \<in> set xs. \<not> p x)" for p f xs
    by (induction xs) auto
  have "complete_first (awaits_outcome (normalizeRunId (loop_scope ctx)) callId tool (hashToolCall sha256 tool params)) f (rev (history_of s)) = None" for f
    using assms(3) by (auto simp: none awaits_outcome_def list_all_iff)
  then show ?thesis using assms(1,2)
    by (simp add: recordToolCallOutcome_def outcome_params_def Let_def history_of_def finished_record_def)
qed

section \<open>Repetition in the window\<close>

text \<open>The latest \<open>n\<close> records are finished calls of this run with this result.\<close>

definition repeats :: "(string \<Rightarrow> string) \<Rightarrow> HookContext \<Rightarrow> string \<Rightarrow> js_val \<Rightarrow> string \<Rightarrow> ToolCallRecord \<Rightarrow> bool" where
  "repeats sha256 ctx tool params r rec \<longleftrightarrow> toolName rec = tool \<and> argsHash rec = hashToolCall sha256 tool params \<and>
    normalizeRunId (runId rec) = normalizeRunId (loop_scope ctx) \<and> resultHash rec = Some r"

definition repeated_tail :: "(string \<Rightarrow> string) \<Rightarrow> HookContext \<Rightarrow> string \<Rightarrow> js_val \<Rightarrow> string \<Rightarrow> nat \<Rightarrow> ToolCallRecord list \<Rightarrow> bool" where
  "repeated_tail sha256 ctx tool params r n history \<longleftrightarrow>
    n \<le> length history \<and> list_all (repeats sha256 ctx tool params r) (take n (rev history))"

lemma repeated_tail_slide:
  assumes "repeated_tail sha256 ctx tool params r n history" "repeats sha256 ctx tool params r rec" "0 < cap"
  shows "repeated_tail sha256 ctx tool params r (min (Suc n) cap) (slide cap (history @ [rec]))"
proof -
  have rev: "rev (slide cap (history @ [rec])) = take cap (rec # rev history)"
    using assms(3) by (cases "cap \<le> length history") (auto simp: slide_def rev_drop take_Cons' Suc_diff_le)
  have "length (slide cap (history @ [rec])) = min cap (Suc (length history))" using assms(3) by (auto simp: slide_def)
  moreover have "list_all (repeats sha256 ctx tool params r) (take (min (Suc n) cap) (take cap (rec # rev history)))"
  proof -
    have all: "\<forall>x \<in> set (take k (rev history)). repeats sha256 ctx tool params r x" if "k \<le> n" for k
      using set_take_subset_set_take [OF that, of "rev history"] assms(1) by (fastforce simp: repeated_tail_def list_all_iff)
    show ?thesis using assms(2) all [of "cap - 1"] all [of n]
      by (auto simp: list_all_iff min_def take_Cons' split: if_splits)
  qed
  ultimately show ?thesis using assms(1) unfolding repeated_tail_def rev by auto
qed

lemma repeated_tail_stalled:
  assumes "repeated_tail sha256 ctx tool params r n (history_of s)" "r \<noteq> []" "0 < n"
  shows "stalled_repeat n tool (hashToolCall sha256 tool params) (loop_history s (loop_scope ctx))"
    and "loop_history s (loop_scope ctx) \<noteq> []"
    and "argsHash (last (loop_history s (loop_scope ctx))) = hashToolCall sha256 tool params"
proof -
  let ?scope = "\<lambda>rec. normalizeRunId (runId rec) = normalizeRunId (loop_scope ctx)"
  let ?fin = "finished tool (hashToolCall sha256 tool params)"
  define h where "h = rev (history_of s)"
  have h: "n \<le> length h" "list_all (repeats sha256 ctx tool params r) (take n h)"
    using assms(1) by (simp_all add: repeated_tail_def h_def)
  have rev: "rev (loop_history s (loop_scope ctx)) = filter ?scope h"
    by (simp add: loop_history_def selectHistoryForScope_def history_of_def h_def rev_filter)
  have split: "h = take n h @ drop n h" by simp
  have front: "filter ?scope (take n h) = take n h" "filter ?fin (take n h) = take n h"
    using h(2) assms(2) by (auto simp: list_all_iff repeats_def finished_def intro!: filter_True)
  have "map (the \<circ> resultHash) (take n h) = replicate n r"
    using h by (intro nth_equalityI) (auto simp: list_all_length repeats_def)
  then have results: "latest_results (loop_history s (loop_scope ctx)) tool (hashToolCall sha256 tool params)
      = replicate n r @ map (the \<circ> resultHash) (filter ?fin (filter ?scope (drop n h)))"
    unfolding latest_results_def rev by (subst split) (simp only: filter_append map_append front)
  then show "stalled_repeat n tool (hashToolCall sha256 tool params) (loop_history s (loop_scope ctx))"
    using assms(3) by (cases n) (simp_all add: stalled_repeat_def Let_def)
  have ne: "take n h \<noteq> []" using h(1) assms(3) by (cases h) auto
  then obtain x xs where x: "take n h = x # xs" by (cases "take n h") auto
  have "filter ?scope h = take n h @ filter ?scope (drop n h)" by (subst split) (simp only: filter_append front)
  then have revx: "rev (loop_history s (loop_scope ctx)) = x # xs @ filter ?scope (drop n h)" unfolding rev x by simp
  then show ne': "loop_history s (loop_scope ctx) \<noteq> []" by auto
  have "repeats sha256 ctx tool params r x" using h(2) x by simp
  moreover have "last (loop_history s (loop_scope ctx)) = x" using revx ne' by (metis hd_rev list.sel(1))
  ultimately show "argsHash (last (loop_history s (loop_scope ctx))) = hashToolCall sha256 tool params" by (simp add: repeats_def)
qed

section \<open>A session-level round\<close>

text \<open>What the tool gave, as the result and the error of an outcome.\<close>

definition answer_outcome :: "ToolAnswer \<Rightarrow> js_val \<times> js_val" where
  "answer_outcome a = (case a of Returned v \<Rightarrow> (v, VUndef) | Threw e \<Rightarrow> (VUndef, e))"

text \<open>The check of a call and the record of its outcome, when the plugins let it through with the
  parameters \<open>used\<close>.\<close>

definition session_round :: "(string \<Rightarrow> string) \<Rightarrow> HookContext \<Rightarrow> string \<Rightarrow> js_val \<Rightarrow> js_val \<Rightarrow> ToolAnswer \<Rightarrow> int \<times> int \<times> string option \<Rightarrow>
    SessionState \<Rightarrow> LoopCheck \<times> SessionState" where
  "session_round sha256 ctx tool params used answer x s =
    (case x of (now1, now2, callId) \<Rightarrow>
      (let (check, s1) = loop_check sha256 ctx now1 tool params callId s;
           outcome = (case check of
               LoopBlocks f \<Rightarrow> outcome_params ctx tool params callId (buildBlockedToolResult (lf_message f) ToolLoopReason) VUndef
             | LoopPasses w \<Rightarrow> outcome_params ctx tool used callId (fst (answer_outcome answer)) (snd (answer_outcome answer)))
       in (check, snd (recordToolCallOutcome sha256 now2 s1 outcome))))"

definition is_block :: "LoopCheck \<Rightarrow> bool" where
  "is_block c \<longleftrightarrow> (case c of LoopBlocks f \<Rightarrow> True | LoopPasses w \<Rightarrow> False)"

lemma emit_keeps_history [simp]: "toolCallHistory (snd (shouldEmitLoopWarning s k n)) = toolCallHistory s"
  by (simp add: shouldEmitLoopWarning_def Let_def)

lemma history_of_record [simp]:
  "toolCallHistory s = toolCallHistory t \<Longrightarrow>
    history_of (snd (recordToolCallOutcome sha256 now2 (recordToolCall sha256 now s tool params callId cfg scope) p)) =
    history_of (snd (recordToolCallOutcome sha256 now2 (recordToolCall sha256 now t tool params callId cfg scope) p))"
  by (simp add: recordToolCall_def recordToolCallOutcome_def Let_def history_of_def split: prod.split option.split)

lemma loop_check_passes:
  assumes "loop_check sha256 ctx now tool params callId s = (LoopPasses w, s1)" "enabled (ctx_config ctx)"
  shows "\<exists>s0. toolCallHistory s0 = toolCallHistory s \<and>
    s1 = recordToolCall sha256 now s0 tool params callId (ctx_loopDetection ctx) (loop_scope ctx)"
proof -
  have on: "Option.bind (ctx_loopDetection ctx) cfg_enabled \<noteq> Some False"
    using assms(2) by (auto simp: resolveLoopDetectionConfig_def Let_def)
  show ?thesis
  proof (cases "detectToolCallLoop sha256 s tool params (ctx_loopDetection ctx) (loop_scope ctx)")
    case None
    then show ?thesis using assms(1) on by (auto simp: loop_check_def Let_def)
  next
    case (Some f)
    have "s1 = recordToolCall sha256 now (snd (shouldEmitLoopWarning s (warning_key ctx tool f) (int (lf_count f)))) tool params callId
        (ctx_loopDetection ctx) (loop_scope ctx)"
      using assms(1) on Some by (auto simp: loop_check_def Let_def split: if_splits prod.splits)
    then show ?thesis using emit_keeps_history by blast
  qed
qed

lemma round_state:
  assumes "session_round sha256 ctx tool params used answer (now1, now2, callId) s = (check, s')" "\<not> is_block check"
    and "enabled (ctx_config ctx)" "answer_outcome answer = (result, err)"
  obtains s0 where "toolCallHistory s0 = toolCallHistory s"
    "s' = snd (recordToolCallOutcome sha256 now2 (recordToolCall sha256 now1 s0 tool params callId (ctx_loopDetection ctx) (loop_scope ctx))
       (outcome_params ctx tool used callId result err))"
proof -
  obtain c s1 where c: "loop_check sha256 ctx now1 tool params callId s = (c, s1)" by (cases "loop_check sha256 ctx now1 tool params callId s")
  then obtain w where w: "c = LoopPasses w" using assms(1,2) by (cases c) (auto simp: session_round_def is_block_def Let_def split: prod.splits)
  obtain s0 where s0: "toolCallHistory s0 = toolCallHistory s"
    "s1 = recordToolCall sha256 now1 s0 tool params callId (ctx_loopDetection ctx) (loop_scope ctx)"
    using loop_check_passes [OF c [unfolded w] assms(3)] by blast
  have "s' = snd (recordToolCallOutcome sha256 now2 s1 (outcome_params ctx tool used callId result err))"
    using assms(1,4) by (simp add: session_round_def c w)
  then show thesis using that s0 by simp
qed

lemma round_passes:
  assumes "session_round sha256 ctx tool params used answer (now1, now2, callId) s = (check, s')" "\<not> is_block check"
    and "enabled (ctx_config ctx)" "answer_outcome answer = (result, err)"
    and "hashToolOutcome sha256 tool used result err = (Some r, u)" "r \<noteq> []"
    and "hashToolCall sha256 tool used = hashToolCall sha256 tool params"
  shows "history_of s' = slide (historySize (ctx_config ctx)) (history_of s @ [finished_record sha256 ctx now1 tool params callId r u])"
proof -
  obtain s0 where s0: "toolCallHistory s0 = toolCallHistory s"
    "s' = snd (recordToolCallOutcome sha256 now2 (recordToolCall sha256 now1 s0 tool params callId (ctx_loopDetection ctx) (loop_scope ctx))
       (outcome_params ctx tool used callId result err))" by (rule round_state [OF assms(1-4)])
  then show ?thesis using recorded_call_and_outcome [OF assms(5-7), of now2 now1 s0 callId ctx] by (simp add: history_of_def)
qed

text \<open>The check blocks a call that was repeated often enough.\<close>

lemma repeated_is_blocked:
  assumes "repeated_tail sha256 ctx tool params r (criticalThreshold (ctx_config ctx)) (history_of s)" "r \<noteq> []"
    and "enabled (ctx_config ctx)" "repeat_detector (ctx_config ctx) (isKnownPollToolCall tool params)"
  shows "is_block (fst (loop_check sha256 ctx now tool params callId s))"
proof -
  have pos: "0 < criticalThreshold (ctx_config ctx)" using resolved_thresholds(4) [of "ctx_loopDetection ctx"] by simp
  note stalled = repeated_tail_stalled [OF assms(1,2) pos]
  obtain f where f: "judge (ctx_config ctx) (loop_history s (loop_scope ctx)) tool (hashToolCall sha256 tool params)
      (isKnownPollToolCall tool params) = Some f" "lf_level f = LoopCritical"
    using judge_blocks_repeat [OF refl assms(4) stalled] by blast
  then show ?thesis using assms(3)
    by (simp add: loop_check_def detectToolCallLoop_def Let_def loop_history_def is_block_def)
qed

section \<open>A session that is busy\<close>

text \<open>The session of a running agent: it has its own entry in the table, under its key and with its
  id, and is not idle, so no lookup drops it.\<close>

definition anchored :: "HookContext \<Rightarrow> Diagnostics \<Rightarrow> SessionState \<Rightarrow> bool" where
  "anchored ctx d s \<longleftrightarrow> table_bounded d \<and> truthy (ctx_sessionKey ctx) \<and>
    jm_get (diagnosticSessionStates d) (resolveSessionKey (ctx_ref ctx)) = Some s \<and>
    sessionState s \<noteq> IdleState \<and> (truthy (ctx_sessionId ctx) \<longrightarrow> sessionId s = ctx_sessionId ctx)"

lemma resolveSessionKey_keyed: "truthy (ctx_sessionKey ctx) \<Longrightarrow> ctx_sessionKey ctx = Some (resolveSessionKey (ctx_ref ctx)) \<and> resolveSessionKey (ctx_ref ctx) \<noteq> []"
  by (auto simp: resolveSessionKey_def ctx_ref_def elim!: truthyE)

lemma prune_keeps_busy:
  assumes "table_bounded d" "jm_get (diagnosticSessionStates d) k = Some s" "sessionState s \<noteq> IdleState"
  shows "jm_get (diagnosticSessionStates (pruneDiagnosticSessionStates now False d)) k = Some s"
proof -
  let ?m = "diagnosticSessionStates d" and ?m1 = "filter (\<lambda>p. \<not> expired now (snd p)) (diagnosticSessionStates d)"
  have wf: "jm_wf ?m" and len: "length ?m \<le> SESSION_STATE_MAX_ENTRIES" using assms(1) by (auto simp: table_bounded_def table_ok_def)
  have "(k, s) \<in> set ?m1" using assms(3) map_of_SomeD [OF assms(2)] by (simp add: expired_def)
  then have "jm_get ?m1 k = Some s" by (simp only: jm_get_in_set [OF jm_wf_filter [OF wf]])
  moreover have "length ?m1 \<le> SESSION_STATE_MAX_ENTRIES" using len length_filter_le le_trans by blast
  ultimately show ?thesis using assms(2) by (simp add: pruneDiagnosticSessionStates_def Let_def)
qed

lemma anchored_lookup:
  assumes a: "anchored ctx d s"
  shows "\<exists>d'. getDiagnosticSessionState now (ctx_ref ctx) d =
      ((resolveSessionKey (ctx_ref ctx), name_state (ctx_ref ctx) s), d') \<and> anchored ctx d' (name_state (ctx_ref ctx) s)"
proof -
  let ?r = "ctx_ref ctx" and ?d = "pruneDiagnosticSessionStates now False d"
  let ?m = "diagnosticSessionStates ?d" and ?key = "resolveSessionKey ?r"
  have b: "table_bounded d" "truthy (ctx_sessionKey ctx)" "jm_get (diagnosticSessionStates d) ?key = Some s" "sessionState s \<noteq> IdleState"
    "truthy (ctx_sessionId ctx) \<Longrightarrow> sessionId s = ctx_sessionId ctx" using a by (auto simp: anchored_def)
  have got: "jm_get ?m ?key = Some s" by (rule prune_keeps_busy [OF b(1,3,4)])
  have m: "jm_wf ?m" "ids_unique ?m" using prune_ok [of d now False] b(1) by (auto simp: table_ok_def table_bounded_def)
  have same: "k = ?key" if "entry_by_id ?r ?m = Some (k, s0)" for k s0
  proof -
    note f = found_by_id [OF that]
    have "sessionId s0 = sessionId s" "truthy (sessionId s0)" using f b(5) by (simp_all add: ctx_ref_def)
    then show ?thesis using ids_uniqueD [OF m(2) f(1) map_of_SomeD [OF got]] by blast
  qed
  have res: "resolve_entry ?r ?m = Some (?key, name_state ?r s, jm_set ?key (name_state ?r s) ?m)"
    using same by (auto simp: resolve_entry_def Let_def got split: option.split)
  let ?d' = "?d\<lparr>diagnosticSessionStates := jm_set ?key (name_state ?r s) ?m\<rparr>"
  have eq: "getDiagnosticSessionState now ?r d = ((?key, name_state ?r s), ?d')"
    by (simp add: getDiagnosticSessionState_def Let_def res)
  have "table_bounded ?d'" using lookup_bounded [OF b(1), of ?r now] resolveSessionKey_keyed [OF b(2)] unfolding eq by simp
  then have "anchored ctx ?d' (name_state ?r s)"
    using b(2,4,5) m(1) by (auto simp: anchored_def name_state_def Let_def ctx_ref_def)
  then show ?thesis using eq by blast
qed

lemma anchored_write:
  assumes "anchored ctx d s" "sessionId t = sessionId s" "sessionState t = sessionState s"
  shows "anchored ctx (write_state (resolveSessionKey (ctx_ref ctx)) t d) t"
proof -
  let ?k = "resolveSessionKey (ctx_ref ctx)"
  have b: "table_bounded d" "jm_get (diagnosticSessionStates d) ?k = Some s" using assms(1) by (auto simp: anchored_def)
  have "table_ok (write_state ?k t d)" using b assms(2) by (intro write_ok) (auto simp: table_bounded_def)
  then have "table_bounded (write_state ?k t d)" by (rule write_bounded [OF b(1)])
  moreover have "jm_get (diagnosticSessionStates (write_state ?k t d)) ?k = Some t"
    using b by (auto simp: write_state_def jm_has_iff table_bounded_def table_ok_def)
  ultimately show ?thesis using assms by (auto simp: anchored_def)
qed

lemma loop_check_keeps:
  "sessionId (snd (loop_check sha256 ctx now tool params callId s)) = sessionId s"
  "sessionState (snd (loop_check sha256 ctx now tool params callId s)) = sessionState s"
  by (auto simp: loop_check_def Let_def recordToolCall_def shouldEmitLoopWarning_def split: option.split prod.split)

lemma outcome_keeps:
  "sessionId (snd (recordToolCallOutcome sha256 now s p)) = sessionId s"
  "sessionState (snd (recordToolCallOutcome sha256 now s p)) = sessionState s"
  by (auto simp: recordToolCallOutcome_def Let_def split: option.split prod.split)

lemma outcome_history:
  "toolCallHistory s = toolCallHistory t \<Longrightarrow>
    history_of (snd (recordToolCallOutcome sha256 now s p)) = history_of (snd (recordToolCallOutcome sha256 now t p))"
  by (simp add: recordToolCallOutcome_def Let_def history_of_def split: prod.split option.split)

lemma anchored_outcome:
  assumes "anchored ctx d s"
  obtains t where "anchored ctx (snd (recordLoopOutcome sha256 (Some ctx) now tool params callId result err d)) t"
    "history_of t = history_of (snd (recordToolCallOutcome sha256 now s (outcome_params ctx tool params callId result err)))"
proof -
  obtain d' where d': "getDiagnosticSessionState now (ctx_ref ctx) d =
      ((resolveSessionKey (ctx_ref ctx), name_state (ctx_ref ctx) s), d')" "anchored ctx d' (name_state (ctx_ref ctx) s)"
    using anchored_lookup [OF assms] by blast
  let ?p = "outcome_params ctx tool params callId result err"
  let ?t = "snd (recordToolCallOutcome sha256 now (name_state (ctx_ref ctx) s) ?p)"
  have key: "truthy (ctx_sessionKey ctx)" using assms by (simp add: anchored_def)
  have eq: "snd (recordLoopOutcome sha256 (Some ctx) now tool params callId result err d) = write_state (resolveSessionKey (ctx_ref ctx)) ?t d'"
    by (simp add: recordLoopOutcome_def key d'(1) split: prod.split)
  have "anchored ctx (write_state (resolveSessionKey (ctx_ref ctx)) ?t d') ?t"
    by (rule anchored_write [OF d'(2)]) (simp_all add: outcome_keeps)
  moreover have "toolCallHistory (name_state (ctx_ref ctx) s) = toolCallHistory s" by (simp add: name_state_def Let_def)
  ultimately show thesis using that eq outcome_history by metis
qed

text \<open>A guarded call on such a session is a round on its history.\<close>

lemma guarded_session:
  fixes sha256 name run now1 now2 callId
  assumes a: "anchored ctx (gw_diagnostics w) s" and v: "plugin_verdict env params = Allowed used"
  defines "g \<equiv> wrapToolWithBeforeToolCallHook sha256 env (Some ctx) name run (now1, now2) callId params w"
    and "tool \<equiv> normalizeToolName (or_default name ''tool'')"
  obtains s0 t where "toolCallHistory s0 = toolCallHistory s" "anchored ctx (gw_diagnostics (gc_world g)) t"
    "history_of t = history_of (snd (session_round sha256 ctx tool params used (run used) (now1, now2, callId) s0))"
    "gc_ranWith g = (if is_block (fst (loop_check sha256 ctx now1 tool params callId s0)) then None else Some used)"
    "gc_loopEvent g = (case fst (loop_check sha256 ctx now1 tool params callId s0) of LoopBlocks f \<Rightarrow> Some f | LoopPasses x \<Rightarrow> x)"
proof -
  let ?k = "resolveSessionKey (ctx_ref ctx)"
  define s0 where "s0 = name_state (ctx_ref ctx) s"
  have key: "truthy (ctx_sessionKey ctx)" using a by (simp add: anchored_def)
  obtain d1 where d1: "getDiagnosticSessionState now1 (ctx_ref ctx) (gw_diagnostics w) = ((?k, s0), d1)" "anchored ctx d1 s0"
    using anchored_lookup [OF a] unfolding s0_def by blast
  obtain check s1 where c: "loop_check sha256 ctx now1 tool params callId s0 = (check, s1)" by fastforce
  have a1: "anchored ctx (write_state ?k s1 d1) s1"
    using anchored_write [OF d1(2), of s1] loop_check_keeps [of sha256 ctx now1 tool params callId s0] unfolding c by simp
  have twice: "or_default (or_default name ''tool'') ''tool'' = or_default name ''tool''" by (simp add: or_default_def)
  have history: "toolCallHistory s0 = toolCallHistory s" by (simp add: s0_def name_state_def Let_def)
  show thesis
  proof (cases check)
    case (LoopBlocks f)
    have hook: "runBeforeToolCallHook sha256 env (Some ctx) now1 (or_default name ''tool'') params callId (gw_diagnostics w) =
        (Blocked Veto ToolLoopReason (lf_message f) params, Some f, write_state ?k s1 d1)"
      unfolding runBeforeToolCallHook_def twice tool_def [symmetric] by (simp add: key d1(1) c LoopBlocks Let_def)
    obtain t where t: "anchored ctx (snd (recordLoopOutcome sha256 (Some ctx) now2 tool params callId
          (buildBlockedToolResult (lf_message f) ToolLoopReason) VUndef (write_state ?k s1 d1))) t"
      "history_of t = history_of (snd (recordToolCallOutcome sha256 now2 s1
          (outcome_params ctx tool params callId (buildBlockedToolResult (lf_message f) ToolLoopReason) VUndef)))"
      by (rule anchored_outcome [OF a1])
    have g: "gc_ranWith g = None" "gc_loopEvent g = Some f" "gw_diagnostics (gc_world g) =
        snd (recordLoopOutcome sha256 (Some ctx) now2 tool params callId (buildBlockedToolResult (lf_message f) ToolLoopReason) VUndef (write_state ?k s1 d1))"
      unfolding g_def wrapToolWithBeforeToolCallHook_def Let_def fst_conv hook tool_def [symmetric]
      by (simp_all split: prod.split)
    show thesis by (rule that [of s0 t]) (simp_all add: history g t c LoopBlocks is_block_def session_round_def)
  next
    case (LoopPasses x)
    have hook: "runBeforeToolCallHook sha256 env (Some ctx) now1 (or_default name ''tool'') params callId (gw_diagnostics w) =
        (Allowed used, x, write_state ?k s1 d1)"
      unfolding runBeforeToolCallHook_def twice tool_def [symmetric] by (simp add: key d1(1) c LoopPasses v Let_def)
    let ?result = "fst (answer_outcome (run used))" and ?err = "snd (answer_outcome (run used))"
    obtain t where t: "anchored ctx (snd (recordLoopOutcome sha256 (Some ctx) now2 tool used callId ?result ?err (write_state ?k s1 d1))) t"
      "history_of t = history_of (snd (recordToolCallOutcome sha256 now2 s1 (outcome_params ctx tool used callId ?result ?err)))"
      by (rule anchored_outcome [OF a1])
    have g: "gc_ranWith g = Some used" "gc_loopEvent g = x" "gw_diagnostics (gc_world g) =
        snd (recordLoopOutcome sha256 (Some ctx) now2 tool used callId ?result ?err (write_state ?k s1 d1))"
      unfolding g_def wrapToolWithBeforeToolCallHook_def Let_def fst_conv hook tool_def [symmetric]
      by (simp_all add: answer_outcome_def split: prod.split ToolAnswer.split)
    show thesis by (rule that [of s0 t]) (simp_all add: history g t c LoopPasses is_block_def session_round_def)
  qed
qed

section \<open>Rows of calls\<close>

fun guarded_calls :: "(string \<Rightarrow> string) \<Rightarrow> PluginEnv \<Rightarrow> HookContext \<Rightarrow> string \<Rightarrow> (js_val \<Rightarrow> ToolAnswer) \<Rightarrow> js_val \<Rightarrow>
    (int \<times> int \<times> string option) list \<Rightarrow> GuardWorld \<Rightarrow> GuardedCall list" where
  "guarded_calls sha256 env ctx name run params [] w = []"
| "guarded_calls sha256 env ctx name run params ((now1, now2, callId) # xs) w =
     (let g = wrapToolWithBeforeToolCallHook sha256 env (Some ctx) name run (now1, now2) callId params w
      in g # guarded_calls sha256 env ctx name run params xs (gc_world g))"

lemma calls_stopped:
  fixes name
  defines "tool \<equiv> normalizeToolName (or_default name ''tool'')"
  assumes v: "plugin_verdict env params = Allowed used" "hashToolCall sha256 tool used = hashToolCall sha256 tool params"
    and cfg: "enabled (ctx_config ctx)" "repeat_detector (ctx_config ctx) (isKnownPollToolCall tool params)"
    "criticalThreshold (ctx_config ctx) \<le> historySize (ctx_config ctx)"
    and out: "answer_outcome (run used) = (result, err)" "hashToolOutcome sha256 tool used result err = (Some r, u)" "r \<noteq> []"
  shows "anchored ctx (gw_diagnostics w) s \<Longrightarrow> repeated_tail sha256 ctx tool params r n (history_of s) \<Longrightarrow>
    n \<le> criticalThreshold (ctx_config ctx) \<Longrightarrow> criticalThreshold (ctx_config ctx) - n < length xs \<Longrightarrow>
    \<exists>g \<in> set (guarded_calls sha256 env ctx name run params xs w). gc_ranWith g = None"
proof (induction xs arbitrary: n s w)
  case (Cons x xs)
  obtain now1 now2 callId where x: "x = (now1, now2, callId)" by (cases x)
  define g where "g = wrapToolWithBeforeToolCallHook sha256 env (Some ctx) name run (now1, now2) callId params w"
  obtain s0 t where st: "toolCallHistory s0 = toolCallHistory s" "anchored ctx (gw_diagnostics (gc_world g)) t"
    "history_of t = history_of (snd (session_round sha256 ctx tool params used (run used) (now1, now2, callId) s0))"
    "gc_ranWith g = (if is_block (fst (loop_check sha256 ctx now1 tool params callId s0)) then None else Some used)"
    using guarded_session [OF Cons.prems(1) v(1), of sha256 name run now1 now2 callId] unfolding g_def tool_def by metis
  obtain check s' where round: "session_round sha256 ctx tool params used (run used) (now1, now2, callId) s0 = (check, s')" by fastforce
  have check: "check = fst (loop_check sha256 ctx now1 tool params callId s0)"
    using round by (auto simp: session_round_def Let_def split: prod.splits)
  have s0: "history_of s0 = history_of s" using st(1) by (simp add: history_of_def)
  show ?case
  proof (cases "is_block check")
    case True
    then show ?thesis using st(4) by (simp add: x g_def [symmetric] check [symmetric])
  next
    case False
    then have "n \<noteq> criticalThreshold (ctx_config ctx)"
      using repeated_is_blocked [OF _ out(3) cfg(1,2), of sha256 s0] Cons.prems(2) unfolding check s0 by blast
    then have n: "Suc n \<le> criticalThreshold (ctx_config ctx)" using Cons.prems(3) by simp
    note history = round_passes [OF round False cfg(1) out v(2)]
    have "repeats sha256 ctx tool params r (finished_record sha256 ctx now1 tool params callId r u)"
      by (simp add: repeats_def finished_record_def)
    from repeated_tail_slide [OF Cons.prems(2) this, of "historySize (ctx_config ctx)"] n cfg(3)
    have "repeated_tail sha256 ctx tool params r (Suc n) (history_of t)"
      unfolding st(3) round snd_conv history s0 by (simp add: min_absorb1)
    then show ?thesis using Cons.IH [OF st(2), of "Suc n"] n Cons.prems(4) by (auto simp: x g_def [symmetric])
  qed
qed simp

section \<open>After a refusal\<close>

lemma rev_slide: "0 < cap \<Longrightarrow> rev (slide cap (xs @ [x])) = x # take (cap - 1) (rev xs)"
  by (cases "cap \<le> length xs") (auto simp: slide_def rev_drop take_Cons' Suc_diff_le)

lemma filter_take: "\<exists>k. filter p (take n xs) = take k (filter p xs)"
proof -
  have "filter p xs = filter p (take n xs) @ filter p (drop n xs)" by (metis append_take_drop_id filter_append)
  then have "take (length (filter p (take n xs))) (filter p xs) = filter p (take n xs)" by simp
  then show ?thesis by metis
qed

text \<open>What the window says of a call whose newest record is finished, named no unknown tool and had
  another result than the one before: no standstill.\<close>

lemma fresh_result_no_standstill:
  assumes cfg: "cfg = resolveLoopDetectionConfig config" and cap: "0 < cap"
    and hist: "history_of t = slide cap (history_of s @ [rec])"
    and rec: "normalizeRunId (runId rec) = normalizeRunId scope" "toolName rec = tool" "argsHash rec = hash" "resultHash rec = Some r" "r \<noteq> []"
      "unknownToolName rec = None"
    and fresh: "r \<notin> set (take 1 (latest_results (loop_history s scope) tool hash))"
  shows "\<not> standstill cfg tool hash (loop_history t scope)"
proof
  note pos = resolved_thresholds [of config, folded cfg]
  let ?scope = "\<lambda>rec. normalizeRunId (runId rec) = normalizeRunId scope"
  have rev: "rev (loop_history t scope) = rec # filter ?scope (take (cap - 1) (rev (history_of s)))"
    using cap rec(1) by (simp add: loop_history_def selectHistoryForScope_def history_of_def [symmetric] rev_filter hist rev_slide)
  have misses: "latest_misses (loop_history t scope) tool = []" using rec(6) by (simp add: latest_misses_def rev misses_def)
  obtain k where k: "filter (finished tool hash) (filter ?scope (take (cap - 1) (rev (history_of s))))
      = take k (filter (finished tool hash) (filter ?scope (rev (history_of s))))"
    using filter_take [of "\<lambda>rec. ?scope rec \<and> finished tool hash rec" "cap - 1" "rev (history_of s)"]
    unfolding filter_filter by (elim exE)
  have fin: "finished tool hash rec" using rec by (simp add: finished_def)
  have results: "latest_results (loop_history t scope) tool hash = r # take k (latest_results (loop_history s scope) tool hash)"
    unfolding latest_results_def rev
    by (simp add: fin rec(4) k [unfolded filter_filter One_nat_def] take_map loop_history_def selectHistoryForScope_def history_of_def [symmetric] rev_filter)
  assume "standstill cfg tool hash (loop_history t scope)"
  then consider (u) "stalled_unknown (unknownToolThreshold cfg) tool (loop_history t scope)"
    | (n) "stalled_repeat (criticalThreshold cfg) tool hash (loop_history t scope)"
    | (p) n where "alternating n hash (loop_history t scope)" unfolding standstill_def by blast
  then show False
  proof cases
    case u
    then show False using pos(2) by (simp add: stalled_unknown_def misses)
  next
    case n
    then have two: "stalled_repeat 2 tool hash (loop_history t scope)" using pos(3,4) by (elim stalled_repeat_mono) simp
    then have "take k (latest_results (loop_history s scope) tool hash) \<noteq> []" "hd (take k (latest_results (loop_history s scope) tool hash)) = r"
      unfolding stalled_repeat_def Let_def results
      by (cases "take k (latest_results (loop_history s scope) tool hash)"; simp add: numeral_2_eq_2)+
    then show False using fresh by (cases k; cases "latest_results (loop_history s scope) tool hash") auto
  next
    case p
    then obtain other where "2 \<le> n" "other \<noteq> hash" "\<forall>i < n. argsHash (rev (loop_history t scope) ! i) = (if even i then other else hash)"
      unfolding alternating_def by blast
    then have "argsHash (rev (loop_history t scope) ! 0) \<noteq> hash" by force
    then show False using rec(3) by (simp add: rev)
  qed
qed

lemma block_standstill:
  assumes "is_block (fst (loop_check sha256 ctx now tool params callId s))"
  shows "enabled (ctx_config ctx) \<and> standstill (ctx_config ctx) tool (hashToolCall sha256 tool params) (loop_history s (loop_scope ctx))"
proof -
  obtain f where "detectToolCallLoop sha256 s tool params (ctx_loopDetection ctx) (loop_scope ctx) = Some f" "lf_level f = LoopCritical"
    using assms by (auto simp: loop_check_def Let_def is_block_def split: option.splits if_splits prod.splits)
  then show ?thesis using judge_critical [OF refl]
    by (auto simp: detectToolCallLoop_def Let_def loop_history_def split: if_splits)
qed

text \<open>The refusal is itself recorded as an outcome of the call.\<close>

definition refusal_hash :: "(string \<Rightarrow> string) \<Rightarrow> string \<Rightarrow> js_val \<Rightarrow> string \<Rightarrow> string" where
  "refusal_hash sha256 tool params message =
    the (fst (hashToolOutcome sha256 tool params (buildBlockedToolResult message ToolLoopReason) VUndef))"

lemma object_outcome:
  assumes "\<And>x. sha256 x \<noteq> []"
  shows "\<exists>h. hashToolOutcome sha256 tool params (VObj fs) VUndef = (Some h, None) \<and> h \<noteq> []"
  by (auto simp: hashToolOutcome_def Let_def digestStable_def assms elim!: truthyE)

lemma refusal_outcome:
  assumes "\<And>x. sha256 x \<noteq> []"
  shows "hashToolOutcome sha256 tool params (buildBlockedToolResult message ToolLoopReason) VUndef = (Some (refusal_hash sha256 tool params message), None)"
    "refusal_hash sha256 tool params message \<noteq> []"
proof -
  obtain h where "hashToolOutcome sha256 tool params (buildBlockedToolResult message ToolLoopReason) VUndef = (Some h, None)" "h \<noteq> []"
    using object_outcome [of sha256 tool params, OF assms] unfolding buildBlockedToolResult_def by blast
  then show "hashToolOutcome sha256 tool params (buildBlockedToolResult message ToolLoopReason) VUndef = (Some (refusal_hash sha256 tool params message), None)"
    "refusal_hash sha256 tool params message \<noteq> []" by (simp_all add: refusal_hash_def)
qed

lemma blocked_round:
  assumes blocks: "is_block (fst (loop_check sha256 ctx now1 tool params callId s))"
    and done_all: "list_all (\<lambda>rec. resultHash rec \<noteq> None) (history_of s)" and sha: "\<And>x. sha256 x \<noteq> []"
  obtains f where "fst (loop_check sha256 ctx now1 tool params callId s) = LoopBlocks f"
    "history_of (snd (session_round sha256 ctx tool params used answer (now1, now2, callId) s)) =
      slide (historySize (ctx_config ctx))
        (history_of s @ [finished_record sha256 ctx now2 tool params callId (refusal_hash sha256 tool params (lf_message f)) None])"
proof -
  obtain f where f: "loop_check sha256 ctx now1 tool params callId s = (LoopBlocks f, s)"
    using blocks by (auto simp: loop_check_def Let_def is_block_def split: option.splits if_splits prod.splits)
  then show thesis using that outcome_without_call [OF refusal_outcome [OF sha] done_all] by (simp add: session_round_def)
qed

lemma refused_then_passed:
  assumes blocks: "is_block (fst (loop_check sha256 ctx now1 tool params callId s))"
    and done_all: "list_all (\<lambda>rec. resultHash rec \<noteq> None) (history_of s)" and sha: "\<And>x. sha256 x \<noteq> []"
    and fresh: "\<And>f. fst (loop_check sha256 ctx now1 tool params callId s) = LoopBlocks f \<Longrightarrow>
      refusal_hash sha256 tool params (lf_message f) \<notin> set (take 1 (latest_results (loop_history s (loop_scope ctx)) tool (hashToolCall sha256 tool params)))"
    and t: "history_of t = history_of (snd (session_round sha256 ctx tool params used answer (now1, now2, callId) s))"
  shows "\<not> is_block (fst (loop_check sha256 ctx now3 tool params callId2 t))"
proof -
  obtain f where f: "fst (loop_check sha256 ctx now1 tool params callId s) = LoopBlocks f"
    "history_of t = slide (historySize (ctx_config ctx))
      (history_of s @ [finished_record sha256 ctx now2 tool params callId (refusal_hash sha256 tool params (lf_message f)) None])"
    using blocked_round [OF blocks done_all sha] t by metis
  have "\<not> standstill (ctx_config ctx) tool (hashToolCall sha256 tool params) (loop_history t (loop_scope ctx))"
    using fresh [OF f(1)] refusal_outcome [OF sha]
    by (intro fresh_result_no_standstill [OF refl _ f(2)]) (simp_all add: finished_record_def resolved_thresholds)
  then show ?thesis using block_standstill by blast
qed

section \<open>Calls that a plugin rewrites\<close>

text \<open>No record has an outcome under these arguments, and none names an unknown tool.\<close>

definition traceless :: "string \<Rightarrow> ToolCallRecord \<Rightarrow> bool" where
  "traceless hash rec \<longleftrightarrow> \<not> (argsHash rec = hash \<and> truthy (resultHash rec)) \<and> \<not> truthy (unknownToolName rec)"

lemma traceless_no_standstill:
  assumes "list_all (traceless hash) (history_of s)" "cfg = resolveLoopDetectionConfig config"
  shows "\<not> standstill cfg tool hash (loop_history s scope)"
proof
  note pos = resolved_thresholds [of config, folded assms(2)]
  let ?h = "loop_history s scope"
  have all: "traceless hash rec" if "rec \<in> set ?h" for rec
    using that assms(1) by (auto simp: list_all_iff loop_history_def selectHistoryForScope_def history_of_def)
  have none: "latest_results ?h tool hash = []" "latest_misses ?h tool = []"
    using all by (auto simp: latest_results_def latest_misses_def finished_def misses_def traceless_def filter_empty_conv
        takeWhile_eq_Nil_iff hd_rev)
  have never: "\<not> (alternating n hash ?h \<and> stable_alternation n ?h)" for n
  proof
    assume "alternating n hash ?h \<and> stable_alternation n ?h"
    then have n: "2 \<le> n" "n \<le> length ?h" "argsHash (rev ?h ! 1) = hash" "truthy (resultHash (rev ?h ! 1))"
      unfolding alternating_def stable_alternation_def by fastforce+
    then have "rev ?h ! 1 \<in> set ?h" using nth_mem [of 1 "rev ?h"] by simp
    then show False using all n(3,4) by (auto simp: traceless_def)
  qed
  assume "standstill cfg tool hash ?h"
  then show False using never pos by (auto simp: standstill_def stalled_repeat_def stalled_unknown_def none)
qed

lemma list_all_slide: "list_all p xs \<Longrightarrow> list_all p (slide cap xs)"
  using set_slide [of cap xs] by (auto simp: list_all_iff)

lemma list_all_complete_first:
  "complete_first q f xs = Some (c, ys) \<Longrightarrow> list_all p xs \<Longrightarrow> (\<And>x. q x \<Longrightarrow> p x \<Longrightarrow> p (f x)) \<Longrightarrow> list_all p ys"
  by (induction xs arbitrary: ys) (auto split: if_splits)

lemma traceless_step:
  assumes "list_all (traceless (hashToolCall sha256 tool params)) (history_of s)"
    and "hashToolCall sha256 tool used \<noteq> hashToolCall sha256 tool params" "snd (hashToolOutcome sha256 tool used result err) = None"
  shows "list_all (traceless (hashToolCall sha256 tool params)) (history_of (snd (recordToolCallOutcome sha256 now2
    (recordToolCall sha256 now1 s tool params callId (ctx_loopDetection ctx) (loop_scope ctx)) (outcome_params ctx tool used callId result err))))"
proof -
  let ?s1 = "recordToolCall sha256 now1 s tool params callId (ctx_loopDetection ctx) (loop_scope ctx)"
  obtain res where res: "hashToolOutcome sha256 tool used result err = (res, None)" using assms(3) by (metis prod.collapse)
  have h1: "list_all (traceless (hashToolCall sha256 tool params)) (history_of ?s1)"
    using assms(1) by (auto simp: recordToolCall_def Let_def history_of_def traceless_def intro!: list_all_slide)
  show ?thesis
  proof (cases "truthy res")
    case False
    then show ?thesis using h1 by (simp add: recordToolCallOutcome_def outcome_params_def Let_def res)
  next
    case True
    let ?p = "awaits_outcome (normalizeRunId (loop_scope ctx)) callId tool (hashToolCall sha256 tool used)"
      and ?f = "\<lambda>call. call\<lparr>resultHash := res, unknownToolName := None\<rparr>"
    show ?thesis
    proof (cases "complete_first ?p ?f (rev (history_of ?s1))")
      case None
      then show ?thesis using True h1 assms(2)
        by (auto simp: recordToolCallOutcome_def outcome_params_def Let_def res history_of_def [symmetric] traceless_def)
          (auto simp: history_of_def traceless_def intro!: list_all_slide)
    next
      case (Some cc)
      obtain c calls where cc: "cc = (c, calls)" by (cases cc)
      have "list_all (traceless (hashToolCall sha256 tool params)) calls"
        using list_all_complete_first [OF Some [unfolded cc], of "traceless (hashToolCall sha256 tool params)"] h1 assms(2)
        by (auto simp: list_all_iff awaits_outcome_def traceless_def)
      then show ?thesis using True Some unfolding cc
        by (auto simp: recordToolCallOutcome_def outcome_params_def Let_def res history_of_def intro!: list_all_slide)
    qed
  qed
qed

lemma calls_never_blocked:
  fixes name
  defines "tool \<equiv> normalizeToolName (or_default name ''tool'')"
  assumes v: "plugin_verdict env params = Allowed used" "hashToolCall sha256 tool used \<noteq> hashToolCall sha256 tool params"
    and on: "enabled (ctx_config ctx)"
    and out: "answer_outcome (run used) = (result, err)" "snd (hashToolOutcome sha256 tool used result err) = None"
  shows "anchored ctx (gw_diagnostics w) s \<Longrightarrow> list_all (traceless (hashToolCall sha256 tool params)) (history_of s) \<Longrightarrow>
    list_all (\<lambda>g. gc_ranWith g = Some used) (guarded_calls sha256 env ctx name run params xs w)"
proof (induction xs arbitrary: s w)
  case (Cons x xs)
  obtain now1 now2 callId where x: "x = (now1, now2, callId)" by (cases x)
  define g where "g = wrapToolWithBeforeToolCallHook sha256 env (Some ctx) name run (now1, now2) callId params w"
  obtain s0 t where st: "toolCallHistory s0 = toolCallHistory s" "anchored ctx (gw_diagnostics (gc_world g)) t"
    "history_of t = history_of (snd (session_round sha256 ctx tool params used (run used) (now1, now2, callId) s0))"
    "gc_ranWith g = (if is_block (fst (loop_check sha256 ctx now1 tool params callId s0)) then None else Some used)"
    using guarded_session [OF Cons.prems(1) v(1), of sha256 name run now1 now2 callId] unfolding g_def tool_def by metis
  have s0: "history_of s0 = history_of s" using st(1) by (simp add: history_of_def)
  have free: "list_all (traceless (hashToolCall sha256 tool params)) (history_of s0)" using Cons.prems(2) by (simp add: s0)
  have passes: "\<not> is_block (fst (loop_check sha256 ctx now1 tool params callId s0))"
    using block_standstill traceless_no_standstill [OF free refl] by blast
  obtain check s' where round: "session_round sha256 ctx tool params used (run used) (now1, now2, callId) s0 = (check, s')" by fastforce
  then have "\<not> is_block check" using passes by (auto simp: session_round_def Let_def split: prod.splits)
  then obtain s1 where s1: "toolCallHistory s1 = toolCallHistory s0"
    "s' = snd (recordToolCallOutcome sha256 now2 (recordToolCall sha256 now1 s1 tool params callId (ctx_loopDetection ctx) (loop_scope ctx))
       (outcome_params ctx tool used callId result err))" by (rule round_state [OF round _ on out(1)])
  have "list_all (traceless (hashToolCall sha256 tool params)) (history_of t)"
    unfolding st(3) round snd_conv s1(2) using s1(1) free by (intro traceless_step [OF _ v(2) out(2)]) (simp add: history_of_def)
  then show ?case using Cons.IH [OF st(2)] passes st(4) by (simp add: x g_def [symmetric])
qed simp

section \<open>The guard on a busy session\<close>

text \<open>The name a wrapped tool is judged under.\<close>

abbreviation guarded_name :: "string \<Rightarrow> string" where
  "guarded_name name \<equiv> normalizeToolName (or_default name ''tool'')"

definition sample_config :: ToolLoopDetectionConfig where
  "sample_config = \<lparr>cfg_enabled = Some True, cfg_historySize = Some (Fin 4), cfg_warningThreshold = Some (Fin 1),
     cfg_unknownToolThreshold = None, cfg_criticalThreshold = Some (Fin 2), cfg_globalCircuitBreakerThreshold = None, cfg_detectors = None\<rparr>"

definition sample_ctx :: HookContext where
  "sample_ctx = \<lparr>ctx_sessionKey = Some ''main'', ctx_sessionId = None, ctx_runId = None, ctx_loopDetection = Some sample_config\<rparr>"

definition sample_session :: SessionState where
  "sample_session = (new_state 0 (ctx_ref sample_ctx))\<lparr>sessionState := ProcessingState\<rparr>"

definition sample_world :: GuardWorld where
  "sample_world = \<lparr>gw_diagnostics = \<lparr>diagnosticSessionStates = [(''main'', sample_session)], lastSessionPruneAt = 0\<rparr>, gw_adjusted = []\<rparr>"

definition sample_hook :: "js_val \<Rightarrow> HookRegistration" where
  "sample_hook v = \<lparr>hg_hookName = ''before_tool_call'', hg_pluginId = ''p'', hg_priority = None,
     hg_handler = (\<lambda>_. HookGives \<lparr>hr_params = Some v, hr_block = None, hr_blockReason = None, hr_requireApproval = None\<rparr>)\<rparr>"

definition sample_env :: "HookRegistration list \<Rightarrow> PluginEnv" where
  "sample_env hooks = \<lparr>pe_policies = [], pe_hooks = hooks, pe_request = (\<lambda>_. RequestThrows False), pe_wait = (\<lambda>_. WaitThrows False),
     pe_report = False\<rparr>"

abbreviation sample_tool :: "js_val \<Rightarrow> ToolAnswer" where
  "sample_tool \<equiv> (\<lambda>_. Returned (VStr ''same''))"

lemma sample_anchored: "anchored sample_ctx (gw_diagnostics sample_world) sample_session"
  by (simp add: anchored_def sample_world_def sample_session_def sample_ctx_def ctx_ref_def new_state_def resolveSessionKey_def
      table_bounded_def table_ok_def jm_wf_def ids_unique_def keys_named_def jm_has_def SESSION_STATE_MAX_ENTRIES_def)

lemma sample_resolved:
  "enabled (ctx_config sample_ctx)" "repeat_detector (ctx_config sample_ctx) poll"
  "historySize (ctx_config sample_ctx) = 4" "criticalThreshold (ctx_config sample_ctx) = 2"
  by (simp_all add: sample_ctx_def sample_config_def resolveLoopDetectionConfig_def asPositiveInt_def Let_def repeat_detector_def)

lemma sample_rewrites:
  "plugin_verdict (sample_env [sample_hook (VObj [(''path'', VStr ''b'')])]) (VObj [(''path'', VStr ''a'')]) = Allowed (VObj [(''path'', VStr ''b'')])"
  by code_simp

lemma sample_hashes:
  "hashToolCall ((@) ''h'') (guarded_name ''read'') (VObj [(''path'', VStr ''b'')]) \<noteq>
   hashToolCall ((@) ''h'') (guarded_name ''read'') (VObj [(''path'', VStr ''a'')])"
  by code_simp

definition sample_stuck :: SessionState where
  "sample_stuck = sample_session\<lparr>toolCallHistory := Some (replicate 2
     (finished_record ((@) ''h'') sample_ctx 0 ''read'' (VObj []) None ((@) ''h'' (stableStringify (VStr ''same''))) None))\<rparr>"

definition sample_stuck_world :: GuardWorld where
  "sample_stuck_world = \<lparr>gw_diagnostics = \<lparr>diagnosticSessionStates = [(''main'', sample_stuck)], lastSessionPruneAt = 0\<rparr>, gw_adjusted = []\<rparr>"

definition sample_refused :: GuardedCall where
  "sample_refused = wrapToolWithBeforeToolCallHook ((@) ''h'') (sample_env []) (Some sample_ctx) ''read'' sample_tool (1, 2) None (VObj [])
     sample_stuck_world"

lemma sample_stuck_anchored: "anchored sample_ctx (gw_diagnostics sample_stuck_world) sample_stuck"
  by (simp add: anchored_def sample_stuck_world_def sample_stuck_def sample_session_def sample_ctx_def ctx_ref_def new_state_def resolveSessionKey_def
      table_bounded_def table_ok_def jm_wf_def ids_unique_def keys_named_def jm_has_def SESSION_STATE_MAX_ENTRIES_def)

lemma sample_stuck_facts:
  "list_all (\<lambda>rec. resultHash rec \<noteq> None) (history_of sample_stuck)"
  "plugin_verdict (sample_env []) (VObj []) = Allowed (VObj [])"
  "gc_ranWith sample_refused = None"
  "gc_loopEvent sample_refused = Some (the (gc_loopEvent sample_refused))"
  "refusal_hash ((@) ''h'') (guarded_name ''read'') (VObj []) (lf_message (the (gc_loopEvent sample_refused))) \<notin>
     set (take 1 (latest_results (loop_history sample_stuck (loop_scope sample_ctx)) (guarded_name ''read'')
       (hashToolCall ((@) ''h'') (guarded_name ''read'') (VObj []))))"
  by code_simp+

text \<open>C18: Liveness of the loop guard. A running agent repeats a call whose outcome never changes, its
  plugins leave the call alone, detection is on and the window is at least as long as the critical
  threshold. Then one of every threshold plus one calls in a row is refused: the tool is not run.\<close>

theorem runaway_loop_is_stopped:
  assumes "anchored ctx (gw_diagnostics w) s"
    and "plugin_verdict env params = Allowed used"
    and "hashToolCall sha256 (guarded_name name) used = hashToolCall sha256 (guarded_name name) params"
    and "enabled (ctx_config ctx)" "repeat_detector (ctx_config ctx) (isKnownPollToolCall (guarded_name name) params)"
    and "criticalThreshold (ctx_config ctx) \<le> historySize (ctx_config ctx)"
    and "answer_outcome (run used) = (result, err)"
    and "hashToolOutcome sha256 (guarded_name name) used result err = (Some r, u)" "r \<noteq> []"
    and "criticalThreshold (ctx_config ctx) < length xs"
  shows "\<exists>g \<in> set (guarded_calls sha256 env ctx name run params xs w). gc_ranWith g = None"
  using calls_stopped [where run = run and n = 0, OF assms(2-9) assms(1)] assms(10) by (simp add: repeated_tail_def)

theorem runaway_loop_is_stopped_witness:
  "\<exists>g \<in> set (guarded_calls (\<lambda>t. ''h'' @ t) (sample_env []) sample_ctx ''read'' sample_tool (VObj [])
     [(1, 2, None), (3, 4, None), (5, 6, None)] sample_world). gc_ranWith g = None"
  by (rule runaway_loop_is_stopped [OF sample_anchored, where used = "VObj []" and result = "VStr ''same''" and err = VUndef
        and r = "''h'' @ stableStringify (VStr ''same'')" and u = None])
    (simp_all add: sample_resolved sample_env_def plugin_verdict_def hasTrustedToolPolicies_def hasHooks_def answer_outcome_def
      hashToolOutcome_def digestStable_def)

text \<open>C19: Only a standstill is refused. When plugins would let a call of a running agent through and it is
  not run, then the agent keeps missing the same tool, or its latest calls with these arguments had
  the same result, or it alternates between two calls that each had the same result.\<close>

theorem blocked_only_at_standstill:
  assumes "anchored ctx (gw_diagnostics w) s" "plugin_verdict env params = Allowed used"
    and "gc_ranWith (wrapToolWithBeforeToolCallHook sha256 env (Some ctx) name run (now1, now2) callId params w) = None"
  shows "standstill (ctx_config ctx) (guarded_name name) (hashToolCall sha256 (guarded_name name) params) (loop_history s (loop_scope ctx))"
proof -
  obtain s0 where s0: "toolCallHistory s0 = toolCallHistory s" "is_block (fst (loop_check sha256 ctx now1 (guarded_name name) params callId s0))"
    using guarded_session [OF assms(1,2), of sha256 name run now1 now2 callId] assms(3) by (metis option.distinct(1))
  then show ?thesis using block_standstill [OF s0(2)] by (simp add: loop_history_def)
qed

theorem blocked_only_at_standstill_witness:
  "standstill (ctx_config sample_ctx) (guarded_name ''read'') (hashToolCall ((@) ''h'') (guarded_name ''read'') (VObj []))
     (loop_history sample_stuck (loop_scope sample_ctx))"
  by (rule blocked_only_at_standstill [OF sample_stuck_anchored sample_stuck_facts(2) sample_stuck_facts(3) [unfolded sample_refused_def]])

text \<open>A refusal lasts for one call. The refusal's own text is recorded as the outcome of the call, so
  that the same call made next is run again, unless its last result already was that text.\<close>

lemma refusal_lasts_one_call:
  assumes "anchored ctx (gw_diagnostics w) s" "list_all (\<lambda>rec. resultHash rec \<noteq> None) (history_of s)"
    and "plugin_verdict env params = Allowed used" "\<And>x. sha256 x \<noteq> []"
    and "g = wrapToolWithBeforeToolCallHook sha256 env (Some ctx) name run (now1, now2) callId params w"
    and "gc_ranWith g = None" "gc_loopEvent g = Some f"
    and "refusal_hash sha256 (guarded_name name) params (lf_message f) \<notin>
      set (take 1 (latest_results (loop_history s (loop_scope ctx)) (guarded_name name)
        (hashToolCall sha256 (guarded_name name) params)))"
  shows "gc_ranWith (wrapToolWithBeforeToolCallHook sha256 env (Some ctx) name run (now3, now4) callId2 params (gc_world g)) = Some used"
proof -
  let ?tool = "guarded_name name"
  obtain s0 t where st: "toolCallHistory s0 = toolCallHistory s" "anchored ctx (gw_diagnostics (gc_world g)) t"
    "history_of t = history_of (snd (session_round sha256 ctx ?tool params used (run used) (now1, now2, callId) s0))"
    "gc_ranWith g = (if is_block (fst (loop_check sha256 ctx now1 ?tool params callId s0)) then None else Some used)"
    "gc_loopEvent g = (case fst (loop_check sha256 ctx now1 ?tool params callId s0) of LoopBlocks f \<Rightarrow> Some f | LoopPasses x \<Rightarrow> x)"
    using guarded_session [OF assms(1,3), of sha256 name run now1 now2 callId] unfolding assms(5) by metis
  obtain t0 where t0: "toolCallHistory t0 = toolCallHistory t"
    "gc_ranWith (wrapToolWithBeforeToolCallHook sha256 env (Some ctx) name run (now3, now4) callId2 params (gc_world g)) =
      (if is_block (fst (loop_check sha256 ctx now3 ?tool params callId2 t0)) then None else Some used)"
    using guarded_session [OF st(2) assms(3), of sha256 name run now3 now4 callId2] by metis
  have eqs: "history_of s0 = history_of s" "history_of t0 = history_of t" "loop_history s0 = loop_history s"
    using st(1) t0(1) by (simp_all add: history_of_def loop_history_def fun_eq_iff)
  have blocks: "is_block (fst (loop_check sha256 ctx now1 ?tool params callId s0))"
    using st(4) assms(6) by (simp split: if_splits)
  have fresh: "refusal_hash sha256 ?tool params (lf_message f') \<notin>
      set (take 1 (latest_results (loop_history s0 (loop_scope ctx)) ?tool (hashToolCall sha256 ?tool params)))"
    if "fst (loop_check sha256 ctx now1 ?tool params callId s0) = LoopBlocks f'" for f'
    using st(5) assms(7,8) unfolding that eqs(3) by simp
  have "\<not> is_block (fst (loop_check sha256 ctx now3 ?tool params callId2 t0))"
    by (rule refused_then_passed [OF blocks _ assms(4) fresh eqs(2) [unfolded st(3)]]) (use assms(2) eqs(1) in auto)
  then show ?thesis using t0(2) by simp
qed

lemma refusal_lasts_one_call_witness:
  "gc_ranWith (wrapToolWithBeforeToolCallHook ((@) ''h'') (sample_env []) (Some sample_ctx) ''read'' sample_tool (3, 4) None (VObj [])
    (gc_world sample_refused)) = Some (VObj [])"
  by (rule refusal_lasts_one_call [OF sample_stuck_anchored sample_stuck_facts(1) sample_stuck_facts(2) _ sample_refused_def
        sample_stuck_facts(3,4,5)]) simp

text \<open>Calls that a plugin rewrites are never refused for looping. The call is recorded under the
  agent's arguments and its outcome under the plugin's, so no number of repetitions adds up to a streak.\<close>

lemma rewritten_calls_never_blocked:
  assumes "anchored ctx (gw_diagnostics w) s"
    and "plugin_verdict env params = Allowed used"
    and "hashToolCall sha256 (guarded_name name) used \<noteq> hashToolCall sha256 (guarded_name name) params"
    and "enabled (ctx_config ctx)"
    and "answer_outcome (run used) = (result, err)"
    and "snd (hashToolOutcome sha256 (guarded_name name) used result err) = None"
    and "list_all (traceless (hashToolCall sha256 (guarded_name name) params)) (history_of s)"
  shows "list_all (\<lambda>g. gc_ranWith g = Some used) (guarded_calls sha256 env ctx name run params xs w)"
  by (rule calls_never_blocked [where run = run, OF assms(2-6,1,7)])

lemma rewritten_calls_never_blocked_witness:
  "list_all (\<lambda>g. gc_ranWith g = Some (VObj [(''path'', VStr ''b'')]))
     (guarded_calls ((@) ''h'') (sample_env [sample_hook (VObj [(''path'', VStr ''b'')])]) sample_ctx ''read'' sample_tool
        (VObj [(''path'', VStr ''a'')]) (replicate 100 (1, 2, None)) sample_world)"
  by (rule rewritten_calls_never_blocked [OF sample_anchored, where result = "VStr ''same''" and err = VUndef])
    (simp_all only: sample_rewrites sample_hashes sample_resolved not_False_eq_True,
     simp_all add: answer_outcome_def hashToolOutcome_def digestStable_def history_of_def sample_session_def new_state_def)

end
