(* ===== verification/PluginToolHooksProps.thy ===== *)
theory PluginToolHooksProps
  imports PluginToolHooks
begin

text \<open>
  When plugins let a tool call run: every trusted policy and every hook consents to the parameters it
  is shown, and the approval that was asked for first is granted. A policy or a hook that throws
  refuses.
\<close>

section \<open>Consent\<close>

text \<open>The parameters after a policy's answer, and those each policy in turn is shown.\<close>

definition rewritten :: "TrustedToolPolicy \<Rightarrow> js_val \<Rightarrow> js_val" where
  "rewritten p v =
    (case tp_evaluate p v of
       Some (ResultDecision d) \<Rightarrow> (case hr_params d of Some v' \<Rightarrow> if is_plain_object v' then v' else v | None \<Rightarrow> v)
     | _ \<Rightarrow> v)"

fun policies_view :: "js_val \<Rightarrow> TrustedToolPolicy list \<Rightarrow> js_val list" where
  "policies_view v [] = []"
| "policies_view v (p # ps) = v # policies_view (rewritten p v) ps"

definition policy_consents :: "TrustedToolPolicy \<Rightarrow> js_val \<Rightarrow> bool" where
  "policy_consents p v \<longleftrightarrow>
    (case tp_evaluate p v of
       None \<Rightarrow> False
     | Some NoDecision \<Rightarrow> True
     | Some (AllowDecision a reason) \<Rightarrow> a
     | Some (ResultDecision d) \<Rightarrow> hr_block d \<noteq> Some True)"

definition policy_approval :: "TrustedToolPolicy \<Rightarrow> js_val \<Rightarrow> PluginApproval option" where
  "policy_approval p v = (case tp_evaluate p v of Some (ResultDecision d) \<Rightarrow> hr_requireApproval d | _ \<Rightarrow> None)"

definition first_some :: "'a option list \<Rightarrow> 'a option" where
  "first_some xs = foldr or_opt xs None"

lemma first_some_simps [simp]: "first_some [] = None" "first_some (x # xs) = or_opt x (first_some xs)"
  by (simp_all add: first_some_def)

lemma or_opt_assoc: "or_opt (or_opt a b) c = or_opt a (or_opt b c)"
  by (cases a) (simp_all add: or_opt_def)

lemma or_opt_None [simp]: "or_opt None b = b" "or_opt a None = a"
  by (simp_all add: or_opt_def split: option.split)

definition hook_consents :: "js_val \<Rightarrow> HookRegistration \<Rightarrow> bool" where
  "hook_consents v h \<longleftrightarrow>
    (case hg_handler h v of HookThrows \<Rightarrow> False | HookNothing \<Rightarrow> True | HookGives r \<Rightarrow> hr_block r \<noteq> Some True)"

definition hook_approval :: "js_val \<Rightarrow> HookRegistration \<Rightarrow> PluginApproval option" where
  "hook_approval v h =
    (case hg_handler h v of
       HookGives r \<Rightarrow> map_option (\<lambda>a. a\<lparr>pa_pluginId := Some (hg_pluginId h)\<rparr>) (hr_requireApproval r)
     | _ \<Rightarrow> None)"

text \<open>The decision of the user, when one was obtained: a text, or none in time.\<close>

definition obtained_decision :: "PluginEnv \<Rightarrow> PluginApproval \<Rightarrow> string option option" where
  "obtained_decision env a =
    (case pe_request env a of
       RequestReply (Some i) d \<Rightarrow>
         if i = [] then None
         else (case d of
             NullDecision \<Rightarrow> None
           | DecisionField v \<Rightarrow> Some v
           | NoDecisionField \<Rightarrow> (case pe_wait env i of WaitThrows x \<Rightarrow> None | WaitReply v \<Rightarrow> Some v))
     | _ \<Rightarrow> None)"

definition granted :: "PluginEnv \<Rightarrow> PluginApproval \<Rightarrow> bool" where
  "granted env a \<longleftrightarrow> \<not> pe_report env \<and>
    (case obtained_decision env a of
       None \<Rightarrow> False
     | Some d \<Rightarrow> d \<in> {Some ''allow-once'', Some ''allow-always''} \<or>
         (d \<noteq> Some ''deny'' \<and> pa_timeoutBehavior a = Some TimeoutAllow))"

text \<open>The whole: policies, then the approval they ask for or else the hooks.\<close>

definition consented :: "PluginEnv \<Rightarrow> js_val \<Rightarrow> bool" where
  "consented env params \<longleftrightarrow>
    (let ps = pe_policies env; views = policies_view (plain_or_empty params) ps;
         v = foldl (\<lambda>v p. rewritten p v) (plain_or_empty params) ps;
         hooks = getHooksForName (pe_hooks env) ''before_tool_call''
     in list_all2 policy_consents ps views \<and>
        (case first_some (map2 policy_approval ps views) of
           Some a \<Rightarrow> granted env a
         | None \<Rightarrow> list_all (hook_consents v) hooks \<and>
             (case first_some (map (hook_approval v) hooks) of Some a \<Rightarrow> granted env a | None \<Rightarrow> True)))"

section \<open>The code's verdict\<close>

definition allowed :: "HookOutcome \<Rightarrow> bool" where
  "allowed out \<longleftrightarrow> (case out of Allowed p \<Rightarrow> True | Blocked k d r p \<Rightarrow> False)"

lemma allowed_simps [simp]: "allowed (Allowed p)" "\<not> allowed (Blocked k d r p)" "\<not> allowed (hook_failed p)"
  by (simp_all add: allowed_def hook_failed_def)

lemma resolve_decision_allowed:
  "allowed (fst (resolve_decision a base override d)) \<longleftrightarrow>
    d \<in> {Some ''allow-once'', Some ''allow-always''} \<or> (d \<noteq> Some ''deny'' \<and> pa_timeoutBehavior a = Some TimeoutAllow)"
  by (cases "pa_timeoutBehavior a") (auto simp: resolve_decision_def)

lemma request_allowed:
  "allowed (fst (requestPluginToolApproval (pe_request env) (pe_wait env) a base override)) \<longleftrightarrow>
    (case obtained_decision env a of
       None \<Rightarrow> False
     | Some d \<Rightarrow> d \<in> {Some ''allow-once'', Some ''allow-always''} \<or>
         (d \<noteq> Some ''deny'' \<and> pa_timeoutBehavior a = Some TimeoutAllow))"
proof (cases "pe_request env a")
  case (RequestThrows x)
  then show ?thesis by (simp add: requestPluginToolApproval_def obtained_decision_def approval_error_def)
next
  case (RequestReply i d)
  show ?thesis
  proof (cases "i = None \<or> i = Some []")
    case True
    then show ?thesis by (auto simp: requestPluginToolApproval_def obtained_decision_def RequestReply)
  next
    case False
    then obtain i' where i: "i = Some i'" "i' \<noteq> []" by auto
    show ?thesis
    proof (cases d)
      case NoDecisionField
      then show ?thesis
        by (cases "pe_wait env i'")
          (simp_all add: requestPluginToolApproval_def obtained_decision_def RequestReply i approval_error_def resolve_decision_allowed)
    qed (simp_all add: requestPluginToolApproval_def obtained_decision_def RequestReply i resolve_decision_allowed)
  qed
qed

lemma ask_allowed: "allowed (ask env a base override) \<longleftrightarrow> granted env a"
  unfolding ask_def granted_def by (simp add: request_allowed)

lemma plain_or_empty_plain [simp]: "is_plain_object (plain_or_empty v)" "is_plain_object v \<Longrightarrow> plain_or_empty v = v"
  by (simp_all add: plain_or_empty_def) (simp add: is_plain_object_def)

lemma rewritten_plain: "is_plain_object v \<Longrightarrow> is_plain_object (rewritten p v)"
  by (simp add: rewritten_def split: option.split TrustedDecision.split)

lemma trusted_loop_spec:
  "is_plain_object v \<Longrightarrow> trusted_loop v adjusted approval ps = r \<Longrightarrow>
   (if list_all2 policy_consents ps (policies_view v ps)
    then (\<exists>w. r = Some w \<and> Option.bind w hr_block = None \<and>
           Option.bind w hr_requireApproval = or_opt approval (first_some (map2 policy_approval ps (policies_view v ps))) \<and>
           (\<forall>x. Option.bind w hr_params = Some x \<longrightarrow> x = foldl (\<lambda>v p. rewritten p v) v ps) \<and>
           (Option.bind w hr_params = None \<longrightarrow> \<not> adjusted \<and> foldl (\<lambda>v p. rewritten p v) v ps = v))
    else r = None \<or> (\<exists>w. r = Some (Some w) \<and> hr_block w = Some True))"
proof (induction ps arbitrary: v adjusted approval)
  case Nil
  then show ?case by auto
next
  case (Cons p ps)
  show ?case
  proof (cases "tp_evaluate p v")
    case None
    then show ?thesis using Cons.prems by (auto simp: policy_consents_def)
  next
    case (Some d)
    note ev = Some
    show ?thesis
    proof (cases d)
      case NoDecision
      then have "rewritten p v = v" "policy_consents p v" "policy_approval p v = None"
        by (simp_all add: ev rewritten_def policy_consents_def policy_approval_def)
      then show ?thesis using Cons.IH [of v adjusted approval] Cons.prems by (simp add: ev NoDecision)
    next
      case (AllowDecision a reason)
      then have facts: "rewritten p v = v" "policy_consents p v = a" "policy_approval p v = None"
        by (simp_all add: ev rewritten_def policy_consents_def policy_approval_def)
      show ?thesis
      proof (cases a)
        case True
        then show ?thesis using Cons.IH [of v adjusted approval] Cons.prems facts by (simp add: ev AllowDecision)
      next
        case False
        then show ?thesis using Cons.prems facts by (auto simp: ev AllowDecision)
      qed
    next
      case (ResultDecision res)
      show ?thesis
      proof (cases "hr_block res = Some True")
        case True
        then show ?thesis using Cons.prems by (auto simp: ev ResultDecision policy_consents_def)
      next
        case False
        define plain where "plain = (case hr_params res of Some v \<Rightarrow> is_plain_object v | None \<Rightarrow> False)"
        have rw: "rewritten p v = (if plain then the (hr_params res) else v)"
          by (simp add: ev ResultDecision rewritten_def plain_def split: option.split)
        have facts: "policy_consents p v" "policy_approval p v = hr_requireApproval res"
          using False by (simp_all add: ev ResultDecision policy_consents_def policy_approval_def)
        have loop: "trusted_loop (rewritten p v) (adjusted \<or> plain) (or_opt approval (hr_requireApproval res)) ps = r"
          using Cons.prems(2) False by (simp add: ev ResultDecision rw plain_def [symmetric] Let_def)
        have unmoved: "\<not> plain \<Longrightarrow> rewritten p v = v" by (simp add: rw)
        from Cons.IH [OF rewritten_plain [OF Cons.prems(1)] loop] facts unmoved show ?thesis
          by (auto simp: or_opt_assoc split: option.splits if_splits)
      qed
    qed
  qed
qed

lemma modifying_loop_spec:
  "Option.bind acc hr_block = None \<Longrightarrow> modifying_loop False v acc hs = r \<Longrightarrow>
   (if list_all (hook_consents v) hs
    then (\<exists>w. r = Some w \<and> Option.bind w hr_block = None \<and>
           Option.bind w hr_requireApproval = or_opt (Option.bind acc hr_requireApproval) (first_some (map (hook_approval v) hs)))
    else r = None \<or> (\<exists>w. r = Some (Some w) \<and> hr_block w = Some True))"
proof (induction hs arbitrary: acc)
  case Nil
  then show ?case by auto
next
  case (Cons h hs)
  note acc = Cons.prems(1)
  show ?case
  proof (cases "hg_handler h v")
    case HookThrows
    then have "\<not> hook_consents v h" by (simp add: hook_consents_def)
    then show ?thesis using Cons.prems(2) by (simp add: HookThrows)
  next
    case HookNothing
    then have "hook_consents v h" "hook_approval v h = None" by (simp_all add: hook_consents_def hook_approval_def)
    then show ?thesis using Cons.IH [OF acc] Cons.prems(2) by (simp add: HookNothing)
  next
    case (HookGives res)
    let ?m = "mergeBeforeToolCall acc res h"
    have m: "hr_block ?m = (if hr_block res = Some True then Some True else None)"
      "hr_requireApproval ?m = or_opt (Option.bind acc hr_requireApproval) (hook_approval v h)"
      using acc by (simp_all add: mergeBeforeToolCall_def Let_def stickyTrue_def hook_approval_def HookGives)
    show ?thesis
    proof (cases "hr_block res = Some True")
      case True
      then show ?thesis using Cons.prems(2) m by (auto simp: HookGives hook_consents_def Let_def)
    next
      case False
      then show ?thesis using Cons.IH [of "Some ?m"] Cons.prems(2) m by (auto simp: HookGives hook_consents_def Let_def or_opt_assoc)
    qed
  qed
qed

lemma before_tool_call_fails_closed: "shouldCatchHookErrors True global_failure_policies ''before_tool_call'' = False"
  by (simp add: shouldCatchHookErrors_def global_failure_policies_def or_else_def)

lemma getHooksForName_Nil: "\<not> hasHooks hs name \<Longrightarrow> getHooksForName hs name = []"
proof -
  assume "\<not> hasHooks hs name"
  then have "filter (\<lambda>h. hg_hookName h = name) hs = []" by (simp add: hasHooks_def list_ex_iff filter_empty_conv)
  then show ?thesis by (simp add: getHooksForName_def js_sort_def)
qed

lemma ordinary_hooks_allowed:
  "allowed (ordinary_hooks env params adjusted) \<longleftrightarrow>
    (let v = plain_or_empty adjusted; hooks = getHooksForName (pe_hooks env) ''before_tool_call'' in
     list_all (hook_consents v) hooks \<and> (case first_some (map (hook_approval v) hooks) of Some a \<Rightarrow> granted env a | None \<Rightarrow> True))"
proof (cases "hasHooks (pe_hooks env) ''before_tool_call''")
  case True
  let ?hooks = "getHooksForName (pe_hooks env) ''before_tool_call''" and ?v = "plain_or_empty adjusted"
  have run: "runBeforeToolCall (pe_hooks env) ?v = modifying_loop False ?v None ?hooks"
    by (simp add: runBeforeToolCall_def before_tool_call_fails_closed)
  from modifying_loop_spec [OF _ run [symmetric]] show ?thesis using True
    by (auto simp: ordinary_hooks_def Let_def ask_allowed split: option.splits if_splits)
next
  case False
  then show ?thesis by (simp add: ordinary_hooks_def getHooksForName_Nil)
qed

lemma foldl_rewritten_plain: "is_plain_object v \<Longrightarrow> is_plain_object (foldl (\<lambda>v p. rewritten p v) v ps)"
  by (induction ps arbitrary: v) (auto simp: rewritten_plain)

lemma verdict_with_policies:
  assumes "pe_policies env \<noteq> []"
  shows "allowed (plugin_verdict env params) \<longleftrightarrow> consented env params"
proof -
  let ?ps = "pe_policies env" and ?start = "plain_or_empty params"
  let ?v = "foldl (\<lambda>v p. rewritten p v) ?start ?ps"
  obtain r where r: "trusted_loop ?start False None ?ps = r" by blast
  note spec = trusted_loop_spec [OF plain_or_empty_plain(1) r]
  show ?thesis
  proof (cases "list_all2 policy_consents ?ps (policies_view ?start ?ps)")
    case False
    then have "r = None \<or> (\<exists>w. r = Some (Some w) \<and> hr_block w = Some True)" using spec by simp
    then have "\<not> allowed (plugin_verdict env params)"
      using assms r by (auto simp: plugin_verdict_def hasTrustedToolPolicies_def runTrustedToolPolicies_def)
    then show ?thesis using False by (simp add: consented_def Let_def)
  next
    case True
    then obtain w where w: "r = Some w" "Option.bind w hr_block = None"
      "Option.bind w hr_requireApproval = first_some (map2 policy_approval ?ps (policies_view ?start ?ps))"
      "\<And>x. Option.bind w hr_params = Some x \<Longrightarrow> x = ?v" "Option.bind w hr_params = None \<Longrightarrow> ?v = ?start" using spec by auto
    have v: "plain_or_empty (or_else (Option.bind w hr_params) params) = ?v"
      using w(4,5) foldl_rewritten_plain [of ?start ?ps] by (cases "Option.bind w hr_params") (auto simp: or_else_def)
    have "allowed (plugin_verdict env params) \<longleftrightarrow>
      (case Option.bind w hr_requireApproval of Some a \<Rightarrow> granted env a
       | None \<Rightarrow> allowed (ordinary_hooks env params (or_else (Option.bind w hr_params) params)))"
      using assms r w(1,2)
      by (auto simp: plugin_verdict_def hasTrustedToolPolicies_def runTrustedToolPolicies_def ask_allowed or_else_def split: option.splits)
    then show ?thesis using True unfolding w(3) ordinary_hooks_allowed v consented_def Let_def by simp
  qed
qed

lemma verdict_without_policies:
  assumes "pe_policies env = []"
  shows "allowed (plugin_verdict env params) \<longleftrightarrow> consented env params"
proof -
  have "allowed (plugin_verdict env params) \<longleftrightarrow> allowed (ordinary_hooks env params params)"
    using assms by (simp add: plugin_verdict_def hasTrustedToolPolicies_def ordinary_hooks_def)
  then show ?thesis using assms by (simp add: ordinary_hooks_allowed consented_def Let_def)
qed

text \<open>C14: Plugins fail closed. A tool call runs exactly when every trusted policy consents to the
  parameters it is shown and then either the approval a policy asked for first is granted, or every
  hook consents and the approval a hook asked for first, if any, is granted. What throws refuses,
  and an approval that nobody answers is granted only if the plugin said so.\<close>

theorem plugins_fail_closed:
  "(case plugin_verdict env params of Allowed p \<Rightarrow> True | Blocked kind denied reason p \<Rightarrow> False) = consented env params"
  using verdict_with_policies verdict_without_policies unfolding allowed_def by blast

end
