(* ===== verification/CompactionGuard.thy ===== *)
theory CompactionGuard
  imports ToolLoopProps
begin

text \<open>
  The guard against loops that a compaction did not break
  (src/src/agents/pi-embedded-runner/post-compaction-loop-guard.ts): armed after a compaction, it
  watches the next calls of tools and aborts the run when they all are the same with the same
  result. Logging is left out.
\<close>

section \<open>State and operations\<close>

record GuardObservation =
  ob_toolName :: string
  ob_argsHash :: string
  ob_resultHash :: string

record GuardState =
  gs_enabled :: bool
  windowSize :: nat
  remainingAttempts :: nat
  gs_history :: "GuardObservation list"

record AbortDetails =
  ab_count :: nat
  ab_toolName :: string
  ab_message :: string

record GuardVerdict =
  gv_abort :: "AbortDetails option"
  gv_armed :: bool
  gv_remaining :: nat

definition DEFAULT_WINDOW_SIZE :: nat where "DEFAULT_WINDOW_SIZE = 3"

definition createPostCompactionLoopGuard :: "js_number option \<Rightarrow> bool option \<Rightarrow> GuardState" where
  "createPostCompactionLoopGuard window on =
    \<lparr>gs_enabled = or_else on True, windowSize = asPositiveInt window DEFAULT_WINDOW_SIZE, remainingAttempts = 0, gs_history = []\<rparr>"

definition armPostCompaction :: "GuardState \<Rightarrow> GuardState" where
  "armPostCompaction s = s\<lparr>remainingAttempts := windowSize s, gs_history := []\<rparr>"

definition abort_message :: "string \<Rightarrow> nat \<Rightarrow> nat \<Rightarrow> string" where
  "abort_message tool n window = ''CRITICAL: tool '' @ tool @ '' repeated '' @ nat_to_dec n
     @ '' times with identical arguments and identical results within '' @ nat_to_dec window
     @ '' attempts after auto-compaction. The compaction did not break the loop. Aborting to prevent runaway resource use.''"

definition observe :: "GuardState \<Rightarrow> GuardObservation \<Rightarrow> GuardVerdict \<times> GuardState" where
  "observe s call =
    (if \<not> gs_enabled s then (\<lparr>gv_abort = None, gv_armed = False, gv_remaining = 0\<rparr>, s)
     else if remainingAttempts s = 0 then (\<lparr>gv_abort = None, gv_armed = False, gv_remaining = 0\<rparr>, s)
     else
       let s1 = s\<lparr>remainingAttempts := remainingAttempts s - 1, gs_history := gs_history s @ [call]\<rparr>;
           n = length (filter (\<lambda>entry. ob_toolName entry = ob_toolName call \<and> ob_argsHash entry = ob_argsHash call \<and>
                 ob_resultHash entry = ob_resultHash call) (gs_history s1))
       in (\<lparr>gv_abort = (if windowSize s \<le> n
              then Some \<lparr>ab_count = n, ab_toolName = ob_toolName call, ab_message = abort_message (ob_toolName call) n (windowSize s)\<rparr>
              else None),
            gv_armed = (0 < remainingAttempts s1), gv_remaining = remainingAttempts s1\<rparr>, s1))"

definition guard_snapshot :: "GuardState \<Rightarrow> bool \<times> nat" where
  "guard_snapshot s = (0 < remainingAttempts s, remainingAttempts s)"

fun observe_all :: "GuardState \<Rightarrow> GuardObservation list \<Rightarrow> GuardVerdict list \<times> GuardState" where
  "observe_all s [] = ([], s)"
| "observe_all s (c # cs) = (let (v, s1) = observe s c; (vs, s2) = observe_all s1 cs in (v # vs, s2))"

section \<open>When the guard aborts\<close>

lemma same_observation:
  "(ob_toolName x = ob_toolName c \<and> ob_argsHash x = ob_argsHash c \<and> ob_resultHash x = ob_resultHash c) = (x = c)"
  for x c :: GuardObservation
  by (cases x, cases c) auto

lemma observe_window:
  "windowSize (snd (observe s c)) = windowSize s" "gs_enabled (snd (observe s c)) = gs_enabled s"
  by (simp_all add: observe_def Let_def)

text \<open>The history and the attempts that are left make up the window while the guard is armed.\<close>

definition guard_ok :: "GuardState \<Rightarrow> bool" where
  "guard_ok s \<longleftrightarrow> 0 < windowSize s \<and> remainingAttempts s + length (gs_history s) \<in> {0, windowSize s}"

lemma created_ok: "guard_ok (createPostCompactionLoopGuard window on)"
  by (simp add: guard_ok_def createPostCompactionLoopGuard_def asPositiveInt_pos DEFAULT_WINDOW_SIZE_def)

lemma armed_ok: "guard_ok s \<Longrightarrow> guard_ok (armPostCompaction s)"
  by (simp add: guard_ok_def armPostCompaction_def)

lemma observed_ok: "guard_ok s \<Longrightarrow> guard_ok (snd (observe s c))"
  by (auto simp: guard_ok_def observe_def Let_def)

text \<open>A verdict aborts exactly at the end of a window whose calls were all the same.\<close>

lemma observe_aborts_iff:
  assumes "guard_ok s"
  shows "gv_abort (fst (observe s c)) \<noteq> None \<longleftrightarrow>
    gs_enabled s \<and> remainingAttempts s = 1 \<and> list_all ((=) c) (gs_history s)"
proof (cases "gs_enabled s \<and> remainingAttempts s \<noteq> 0")
  case True
  let ?n = "length (filter (\<lambda>x. x = c) (gs_history s @ [c]))"
  have window: "windowSize s = remainingAttempts s + length (gs_history s)" using assms True by (auto simp: guard_ok_def)
  have "gv_abort (fst (observe s c)) \<noteq> None \<longleftrightarrow> windowSize s \<le> ?n"
    using True by (auto simp: observe_def Let_def same_observation)
  also have "\<dots> \<longleftrightarrow> remainingAttempts s = 1 \<and> length (filter (\<lambda>x. x = c) (gs_history s)) = length (gs_history s)"
  proof -
    have "?n = Suc (length (filter (\<lambda>x. x = c) (gs_history s)))" by simp
    then show ?thesis using True length_filter_le [of "\<lambda>x. x = c" "gs_history s"] unfolding window by linarith
  qed
  also have "length (filter (\<lambda>x. x = c) (gs_history s)) = length (gs_history s) \<longleftrightarrow> list_all ((=) c) (gs_history s)"
    by (metis (mono_tags, lifting) Ball_set filter_True length_filter_less less_irrefl)
  finally show ?thesis using True by blast
qed (auto simp: observe_def)

lemma observe_state:
  "remainingAttempts (snd (observe s c)) = (if gs_enabled s then remainingAttempts s - 1 else remainingAttempts s)"
  "gs_history (snd (observe s c)) = (if gs_enabled s \<and> remainingAttempts s \<noteq> 0 then gs_history s @ [c] else gs_history s)"
  by (simp_all add: observe_def Let_def)

lemma observe_all_aborts:
  "guard_ok s \<Longrightarrow> list_ex (\<lambda>v. gv_abort v \<noteq> None) (fst (observe_all s cs)) \<longleftrightarrow>
    gs_enabled s \<and> 0 < remainingAttempts s \<and> remainingAttempts s \<le> length cs \<and>
    (\<exists>c. list_all ((=) c) (gs_history s @ take (remainingAttempts s) cs))"
proof (induction cs arbitrary: s)
  case (Cons c cs)
  obtain v s1 where o: "observe s c = (v, s1)" by fastforce
  obtain vs s2 where r: "observe_all s1 cs = (vs, s2)" by fastforce
  have ok: "guard_ok s1" using observed_ok [OF Cons.prems, of c] by (simp add: o)
  have s1: "remainingAttempts s1 = (if gs_enabled s then remainingAttempts s - 1 else remainingAttempts s)"
    "gs_history s1 = (if gs_enabled s \<and> remainingAttempts s \<noteq> 0 then gs_history s @ [c] else gs_history s)" "gs_enabled s1 = gs_enabled s"
    using observe_state [of s c] observe_window [of s c] by (simp_all add: o)
  have "list_ex (\<lambda>v. gv_abort v \<noteq> None) (fst (observe_all s (c # cs))) \<longleftrightarrow>
      (gs_enabled s \<and> remainingAttempts s = 1 \<and> list_all ((=) c) (gs_history s)) \<or> list_ex (\<lambda>v. gv_abort v \<noteq> None) vs"
    using observe_aborts_iff [OF Cons.prems, of c] by (simp add: o r)
  also have "list_ex (\<lambda>v. gv_abort v \<noteq> None) vs \<longleftrightarrow> gs_enabled s1 \<and> 0 < remainingAttempts s1 \<and> remainingAttempts s1 \<le> length cs \<and>
      (\<exists>c. list_all ((=) c) (gs_history s1 @ take (remainingAttempts s1) cs))"
    using Cons.IH [OF ok] by (simp add: r)
  finally show ?case unfolding s1
    by (cases "remainingAttempts s"; cases "remainingAttempts s - 1") (auto simp: list_all_iff)
qed auto

text \<open>The guard after a compaction aborts exactly a persisting loop. Whatever it saw before, among the
  calls observed after it was armed there is one at which it aborts exactly when it is enabled, at
  least as many calls as its window came, and these first calls all are the same with the same result.\<close>

lemma compaction_guard_aborts_iff:
  assumes "guard_ok s"
  shows "list_ex (\<lambda>v. gv_abort v \<noteq> None) (fst (observe_all (armPostCompaction s) calls)) \<longleftrightarrow>
    gs_enabled s \<and> windowSize s \<le> length calls \<and> (\<exists>c. list_all ((=) c) (take (windowSize s) calls))"
  using observe_all_aborts [OF armed_ok [OF assms], of calls] assms by (simp add: armPostCompaction_def guard_ok_def)

lemma compaction_guard_aborts_iff_witness:
  "list_ex (\<lambda>v. gv_abort v \<noteq> None) (fst (observe_all (armPostCompaction (createPostCompactionLoopGuard (Some (Fin 2)) None))
     [\<lparr>ob_toolName = ''read'', ob_argsHash = ''a'', ob_resultHash = ''r''\<rparr>, \<lparr>ob_toolName = ''read'', ob_argsHash = ''a'', ob_resultHash = ''r''\<rparr>]))"
  using compaction_guard_aborts_iff [OF created_ok [of "Some (Fin 2)" None], of
      "[\<lparr>ob_toolName = ''read'', ob_argsHash = ''a'', ob_resultHash = ''r''\<rparr>, \<lparr>ob_toolName = ''read'', ob_argsHash = ''a'', ob_resultHash = ''r''\<rparr>]"]
  by (simp add: createPostCompactionLoopGuard_def asPositiveInt_def or_else_def)

end
