(* ===== verification/AuthUsage.thy ===== *)
theory AuthUsage
  imports ProviderId JsNumber
begin

text \<open>
  Usage of credentials: which profile of a provider may be used, and for how long a failed one is
  left alone (src/src/agents/auth-profiles/types.ts, usage-state.ts, usage.ts). Times are
  milliseconds as rationals and counters are whole; a store that is loaded from disk holds finite
  numbers only (auth-profiles/state.ts), so the tests for finiteness appear where other numbers come
  in: the configuration, a caller's argument and the answer of the usage service. That answer, the
  clock and the locked store file are arguments.
\<close>

section \<open>Data\<close>

datatype AuthProfileFailureReason =
    FR_auth | FR_auth_permanent | FR_format | FR_overloaded | FR_rate_limit | FR_billing | FR_timeout
  | FR_model_not_found | FR_session_expired | FR_empty_response | FR_no_error_details
  | FR_unclassified | FR_unknown

datatype AuthProfileBlockedReason = BR_subscription_limit

datatype AuthProfileBlockedSource = BS_codex_rate_limits | BS_wham

record ProfileUsageStats =
  us_lastUsed :: "rat option"
  us_blockedUntil :: "rat option"
  us_blockedReason :: "AuthProfileBlockedReason option"
  us_blockedSource :: "AuthProfileBlockedSource option"
  us_blockedModel :: "string option"
  us_cooldownUntil :: "rat option"
  us_cooldownReason :: "AuthProfileFailureReason option"
  us_cooldownModel :: "string option"
  us_disabledUntil :: "rat option"
  us_disabledReason :: "AuthProfileFailureReason option"
  us_errorCount :: "int option"
  us_failureCounts :: "(AuthProfileFailureReason, int) jsmap option"
  us_lastFailureAt :: "rat option"

definition no_stats :: ProfileUsageStats where
  "no_stats = \<lparr>us_lastUsed = None, us_blockedUntil = None, us_blockedReason = None, us_blockedSource = None,
     us_blockedModel = None, us_cooldownUntil = None, us_cooldownReason = None, us_cooldownModel = None,
     us_disabledUntil = None, us_disabledReason = None, us_errorCount = None, us_failureCounts = None,
     us_lastFailureAt = None\<rparr>"

datatype SecretRefSource = EnvSource | FileSource | ExecSource

text \<open>A reference to a secret; one of an older version has no provider.\<close>

datatype SecretInput = SecretText string | SecretRefObj SecretRefSource "string option" string

datatype expires_value = ExpiresNumber js_number | ExpiresOther

datatype AuthProfileCredential =
    ApiKeyCredential (cred_provider: string) (cred_key: "string option") (cred_keyRef: "SecretInput option")
  | TokenCredential (cred_provider: string) (cred_token: "string option") (cred_tokenRef: "SecretInput option")
      (cred_expires: "expires_value option")
  | OAuthCredential (cred_provider: string) (cred_access: "string option") (cred_refresh: "string option")
      (cred_expires: "expires_value option") (cred_accountId: "string option")

type_synonym UsageTable = "(string, ProfileUsageStats) jsmap"

record AuthProfileStore =
  as_profiles :: "(string, AuthProfileCredential) jsmap"
  as_order :: "(string, string list) jsmap option"
  as_lastGood :: "(string, string) jsmap option"
  as_usageStats :: "UsageTable option"

definition provider_of :: "AuthProfileStore \<Rightarrow> string \<Rightarrow> string option" where
  "provider_of store profileId = map_option cred_provider (jm_get (as_profiles store) profileId)"

definition stats_of :: "AuthProfileStore \<Rightarrow> string \<Rightarrow> ProfileUsageStats option" where
  "stats_of store profileId = Option.bind (as_usageStats store) (\<lambda>u. jm_get u profileId)"

section \<open>Windows in which a profile is not used\<close>

definition isAuthCooldownBypassedForProvider :: "string option \<Rightarrow> bool" where
  "isAuthCooldownBypassedForProvider provider \<longleftrightarrow>
    (let normalized = normalizeProviderId (or_else provider []) in
     normalized = ''openrouter'' \<or> normalized = ''kilocode'')"

fun latest :: "rat list \<Rightarrow> rat option" where
  "latest [] = None"
| "latest (x # xs) = Some (case latest xs of None \<Rightarrow> x | Some m \<Rightarrow> max x m)"

definition given :: "'a option list \<Rightarrow> 'a list" where
  "given xs = concat (map (\<lambda>x. case x of None \<Rightarrow> [] | Some v \<Rightarrow> [v]) xs)"

definition resolveProfileUnusableUntil :: "ProfileUsageStats \<Rightarrow> rat option" where
  "resolveProfileUnusableUntil stats =
    latest (filter (\<lambda>v. 0 < v) (given [us_blockedUntil stats, us_cooldownUntil stats, us_disabledUntil stats]))"

definition isActiveUnusableWindow :: "rat option \<Rightarrow> rat \<Rightarrow> bool" where
  "isActiveUnusableWindow until now = (case until of None \<Rightarrow> False | Some u \<Rightarrow> 0 < u \<and> now < u)"

text \<open>A string that is present and not empty, as \<open>&&\<close> takes it.\<close>

definition present :: "string option \<Rightarrow> bool" where
  "present s \<longleftrightarrow> s \<noteq> None \<and> s \<noteq> Some []"

definition shouldBypassModelScopedCooldown :: "ProfileUsageStats \<Rightarrow> rat \<Rightarrow> string option \<Rightarrow> bool" where
  "shouldBypassModelScopedCooldown stats now forModel \<longleftrightarrow>
    present forModel \<and> us_cooldownReason stats = Some FR_rate_limit \<and> present (us_cooldownModel stats) \<and>
    us_cooldownModel stats \<noteq> forModel \<and> \<not> isActiveUnusableWindow (us_disabledUntil stats) now"

definition isProfileInCooldown :: "AuthProfileStore \<Rightarrow> string \<Rightarrow> rat \<Rightarrow> string option \<Rightarrow> bool" where
  "isProfileInCooldown store profileId now forModel \<longleftrightarrow>
    (if isAuthCooldownBypassedForProvider (provider_of store profileId) then False
     else case stats_of store profileId of
       None \<Rightarrow> False
     | Some stats \<Rightarrow>
         if shouldBypassModelScopedCooldown stats now forModel then False
         else (case resolveProfileUnusableUntil stats of None \<Rightarrow> False | Some u \<Rightarrow> now < u))"

definition soonest_step ::
  "AuthProfileStore \<Rightarrow> rat \<Rightarrow> string option \<Rightarrow> string \<Rightarrow> rat option \<times> rat option \<Rightarrow> rat option \<times> rat option" where
  "soonest_step store ts forModel profileId acc =
    (case stats_of store profileId of
       None \<Rightarrow> acc
     | Some stats \<Rightarrow>
         if shouldBypassModelScopedCooldown stats ts forModel then acc
         else (case resolveProfileUnusableUntil stats of
             None \<Rightarrow> acc
           | Some until \<Rightarrow>
               if present forModel \<and> us_cooldownReason stats = Some FR_rate_limit \<and>
                  us_cooldownModel stats = forModel \<and> \<not> isActiveUnusableWindow (us_disabledUntil stats) ts
               then (fst acc, Some (case snd acc of None \<Rightarrow> until | Some l \<Rightarrow> max l until))
               else (Some (case fst acc of None \<Rightarrow> until | Some s \<Rightarrow> if until < s then until else s), snd acc)))"

definition getSoonestCooldownExpiry ::
  "AuthProfileStore \<Rightarrow> string list \<Rightarrow> rat \<Rightarrow> string option \<Rightarrow> rat option" where
  "getSoonestCooldownExpiry store profileIds ts forModel =
    (case fold (soonest_step store ts forModel) profileIds (None, None) of
       (None, latestMatching) \<Rightarrow> latestMatching
     | (Some soonest, None) \<Rightarrow> Some soonest
     | (Some soonest, Some latestMatching) \<Rightarrow> Some (min soonest latestMatching))"

definition window_expired :: "rat option \<Rightarrow> rat \<Rightarrow> bool" where
  "window_expired until ts = (case until of None \<Rightarrow> False | Some u \<Rightarrow> 0 < u \<and> u \<le> ts)"

text \<open>What \<open>clearExpiredCooldowns\<close> does to the entry of one profile.\<close>

definition clear_expired_entry :: "rat \<Rightarrow> ProfileUsageStats \<Rightarrow> bool \<times> ProfileUsageStats" where
  "clear_expired_entry ts stats =
    (let cooldownExpired = window_expired (us_cooldownUntil stats) ts;
         blockedExpired = window_expired (us_blockedUntil stats) ts;
         disabledExpired = window_expired (us_disabledUntil stats) ts;
         s1 = (if cooldownExpired
               then stats\<lparr>us_cooldownUntil := None, us_cooldownReason := None, us_cooldownModel := None\<rparr> else stats);
         s2 = (if blockedExpired
               then s1\<lparr>us_blockedUntil := None, us_blockedReason := None, us_blockedSource := None, us_blockedModel := None\<rparr>
               else s1);
         s3 = (if disabledExpired then s2\<lparr>us_disabledUntil := None, us_disabledReason := None\<rparr> else s2);
         mutated = cooldownExpired \<or> blockedExpired \<or> disabledExpired
     in (mutated,
         if mutated \<and> resolveProfileUnusableUntil s3 = None
         then s3\<lparr>us_errorCount := Some 0, us_failureCounts := None\<rparr> else s3))"

definition clearExpiredCooldowns :: "AuthProfileStore \<Rightarrow> rat \<Rightarrow> bool \<times> AuthProfileStore" where
  "clearExpiredCooldowns store ts =
    (case as_usageStats store of
       None \<Rightarrow> (False, store)
     | Some usage \<Rightarrow>
         (list_ex (\<lambda>e. fst (clear_expired_entry ts (snd e))) usage,
          store\<lparr>as_usageStats := Some (map (\<lambda>e. (fst e, snd (clear_expired_entry ts (snd e)))) usage)\<rparr>))"

section \<open>The reason why no profile is available\<close>

definition FAILURE_REASON_PRIORITY :: "AuthProfileFailureReason list" where
  "FAILURE_REASON_PRIORITY = [FR_auth_permanent, FR_auth, FR_billing, FR_format, FR_model_not_found, FR_overloaded,
     FR_timeout, FR_rate_limit, FR_empty_response, FR_no_error_details, FR_unclassified, FR_unknown]"

type_synonym Scores = "(AuthProfileFailureReason, int) jsmap"

definition add_score :: "AuthProfileFailureReason \<Rightarrow> int \<Rightarrow> Scores \<Rightarrow> Scores" where
  "add_score reason v scores =
    (if reason \<notin> set FAILURE_REASON_PRIORITY \<or> v \<le> 0 then scores
     else jm_set reason (or_else (jm_get scores reason) 0 + v) scores)"

definition counted_reason :: "AuthProfileFailureReason \<times> int \<Rightarrow> bool" where
  "counted_reason e \<longleftrightarrow> fst e \<in> set FAILURE_REASON_PRIORITY \<and> 0 < snd e"

definition score_profile :: "rat \<Rightarrow> ProfileUsageStats \<Rightarrow> Scores \<Rightarrow> Scores" where
  "score_profile now stats scores =
    (let disabledActive = isActiveUnusableWindow (us_disabledUntil stats) now;
         disabledReason = (case us_disabledReason stats of
             Some r \<Rightarrow> if disabledActive \<and> r \<in> set FAILURE_REASON_PRIORITY then Some r else None | None \<Rightarrow> None)
     in case disabledReason of
          Some r \<Rightarrow> add_score r 1000 scores
        | None \<Rightarrow>
            if isActiveUnusableWindow (us_blockedUntil stats) now then add_score FR_rate_limit 1000 scores
            else if \<not> isActiveUnusableWindow (us_cooldownUntil stats) now then scores
            else
              let recorded = filter counted_reason (or_else (us_failureCounts stats) []) in
              if recorded = [] then add_score FR_unknown 1 scores
              else fold (\<lambda>e. add_score (fst e) (snd e)) recorded scores)"

text \<open>The best entry so far: its reason, score and position in the priority list.\<close>

definition better_reason ::
  "Scores \<Rightarrow> nat \<times> AuthProfileFailureReason \<Rightarrow> (AuthProfileFailureReason option \<times> int \<times> int)
   \<Rightarrow> AuthProfileFailureReason option \<times> int \<times> int" where
  "better_reason scores p best =
    (case jm_get scores (snd p) of
       None \<Rightarrow> best
     | Some score \<Rightarrow>
         (case best of (_, bestScore, bestPriority) \<Rightarrow>
            if bestScore < score \<or> (score = bestScore \<and> int (fst p) < bestPriority)
            then (Some (snd p), score, int (fst p)) else best))"

definition resolveProfilesUnavailableReason ::
  "AuthProfileStore \<Rightarrow> string list \<Rightarrow> rat \<Rightarrow> AuthProfileFailureReason option" where
  "resolveProfilesUnavailableReason store profileIds now =
    (let scores = fold (\<lambda>i sc. case stats_of store i of None \<Rightarrow> sc | Some stats \<Rightarrow> score_profile now stats sc) profileIds []
     in if scores = [] then None
        else fst (fold (better_reason scores) (List.enumerate 0 FAILURE_REASON_PRIORITY) (None, -1, MAX_SAFE_INTEGER)))"

section \<open>How long a failure keeps a profile out\<close>

definition calculateAuthProfileCooldownMs :: "int \<Rightarrow> rat" where
  "calculateAuthProfileCooldownMs errorCount =
    (let normalized = max 1 errorCount in
     if normalized \<le> 1 then 30000 else if normalized \<le> 2 then 60000 else 5 * 60000)"

record AuthCooldowns =
  cd_billingBackoffHours :: "js_number option"
  cd_billingBackoffHoursByProvider :: "(string, js_number) jsmap option"
  cd_billingMaxHours :: "js_number option"
  cd_authPermanentBackoffMinutes :: "js_number option"
  cd_authPermanentMaxMinutes :: "js_number option"
  cd_failureWindowHours :: "js_number option"

record ResolvedAuthCooldownConfig =
  rc_billingBackoffMs :: rat
  rc_billingMaxMs :: rat
  rc_authPermanentBackoffMs :: rat
  rc_authPermanentMaxMs :: rat
  rc_failureWindowMs :: rat

definition resolvePositiveNumber :: "js_number option \<Rightarrow> rat \<Rightarrow> rat" where
  "resolvePositiveNumber v fallback = (case v of Some (Fin q) \<Rightarrow> if 0 < q then q else fallback | _ \<Rightarrow> fallback)"

definition resolveAuthCooldownConfig :: "AuthCooldowns option \<Rightarrow> string \<Rightarrow> ResolvedAuthCooldownConfig" where
  "resolveAuthCooldownConfig cooldowns providerId =
    (let billingOverride = Option.bind (Option.bind cooldowns cd_billingBackoffHoursByProvider)
           (\<lambda>m. map_option snd (find (\<lambda>e. normalizeProviderId (fst e) = providerId) m));
         billingBackoffHours = resolvePositiveNumber (or_opt billingOverride (Option.bind cooldowns cd_billingBackoffHours)) 5;
         billingMaxHours = resolvePositiveNumber (Option.bind cooldowns cd_billingMaxHours) 24;
         authPermanentBackoffMinutes = resolvePositiveNumber (Option.bind cooldowns cd_authPermanentBackoffMinutes) 10;
         authPermanentMaxMinutes = resolvePositiveNumber (Option.bind cooldowns cd_authPermanentMaxMinutes) 60;
         failureWindowHours = resolvePositiveNumber (Option.bind cooldowns cd_failureWindowHours) 24
     in \<lparr>rc_billingBackoffMs = billingBackoffHours * 60 * 60 * 1000,
         rc_billingMaxMs = billingMaxHours * 60 * 60 * 1000,
         rc_authPermanentBackoffMs = authPermanentBackoffMinutes * 60 * 1000,
         rc_authPermanentMaxMs = authPermanentMaxMinutes * 60 * 1000,
         rc_failureWindowMs = failureWindowHours * 60 * 60 * 1000\<rparr>)"

definition calculateDisabledLaneBackoffMs :: "int \<Rightarrow> rat \<Rightarrow> rat \<Rightarrow> rat" where
  "calculateDisabledLaneBackoffMs errorCount configuredBaseMs configuredMaxMs =
    (let normalized = max 1 errorCount;
         baseMs = max 60000 configuredBaseMs;
         maxMs = max baseMs configuredMaxMs;
         expo = min (normalized - 1) 10;
         raw = baseMs * 2 ^ nat expo
     in min maxMs raw)"

text \<open>\<open>DISABLED_FAILURE_BACKOFF_POLICIES\<close>: base and limit of the two reasons that disable.\<close>

definition disabled_policy :: "AuthProfileFailureReason \<Rightarrow> ResolvedAuthCooldownConfig \<Rightarrow> rat \<times> rat" where
  "disabled_policy reason cfg =
    (if reason = FR_billing then (rc_billingBackoffMs cfg, rc_billingMaxMs cfg)
     else (rc_authPermanentBackoffMs cfg, rc_authPermanentMaxMs cfg))"

definition resolveDisabledFailureBackoffMs :: "AuthProfileFailureReason \<Rightarrow> int \<Rightarrow> ResolvedAuthCooldownConfig \<Rightarrow> rat" where
  "resolveDisabledFailureBackoffMs reason errorCount cfg =
    calculateDisabledLaneBackoffMs errorCount (fst (disabled_policy reason cfg)) (snd (disabled_policy reason cfg))"

definition resolveProfileUnusableUntilForDisplay :: "AuthProfileStore \<Rightarrow> string \<Rightarrow> rat option" where
  "resolveProfileUnusableUntilForDisplay store profileId =
    (if isAuthCooldownBypassedForProvider (provider_of store profileId) then None
     else Option.bind (stats_of store profileId) resolveProfileUnusableUntil)"

definition resetUsageStats :: "ProfileUsageStats option \<Rightarrow> ProfileUsageStats" where
  "resetUsageStats existing =
    (or_else existing no_stats)\<lparr>us_errorCount := Some 0, us_blockedUntil := None, us_blockedReason := None,
       us_blockedSource := None, us_blockedModel := None, us_cooldownUntil := None, us_cooldownReason := None,
       us_cooldownModel := None, us_disabledUntil := None, us_disabledReason := None, us_failureCounts := None\<rparr>"

definition updateUsageStatsEntry ::
  "AuthProfileStore \<Rightarrow> string \<Rightarrow> (ProfileUsageStats option \<Rightarrow> ProfileUsageStats) \<Rightarrow> AuthProfileStore" where
  "updateUsageStatsEntry store profileId updater =
    (let usage = or_else (as_usageStats store) [] in
     store\<lparr>as_usageStats := Some (jm_set profileId (updater (jm_get usage profileId)) usage)\<rparr>)"

definition keepActiveWindowOrRecompute :: "rat option \<Rightarrow> rat \<Rightarrow> rat \<Rightarrow> rat" where
  "keepActiveWindowOrRecompute existingUntil now recomputedUntil =
    (case existingUntil of None \<Rightarrow> recomputedUntil | Some u \<Rightarrow> if now < u then u else recomputedUntil)"

text \<open>Whether the counters start afresh: the failure window has passed, or the previous cooldown.\<close>

definition counters_reset :: "ProfileUsageStats \<Rightarrow> rat \<Rightarrow> ResolvedAuthCooldownConfig \<Rightarrow> bool" where
  "counters_reset existing now cfg \<longleftrightarrow>
    (let windowExpired = (case us_lastFailureAt existing of None \<Rightarrow> False
           | Some t \<Rightarrow> 0 < t \<and> rc_failureWindowMs cfg < now - t);
         previousCooldownExpired = (case resolveProfileUnusableUntil existing of None \<Rightarrow> False | Some u \<Rightarrow> u \<le> now)
     in windowExpired \<or> previousCooldownExpired)"

text \<open>The model to which the cooldown of a failure is confined.\<close>

definition next_cooldown_model ::
  "ProfileUsageStats \<Rightarrow> rat \<Rightarrow> AuthProfileFailureReason \<Rightarrow> string option \<Rightarrow> string option" where
  "next_cooldown_model existing now reason modelId =
    (let existingCooldownActive = (case us_cooldownUntil existing of None \<Rightarrow> False | Some u \<Rightarrow> now < u) in
     if existingCooldownActive then
       (if present (us_cooldownModel existing) \<and> present modelId \<and> us_cooldownModel existing \<noteq> modelId then None
        else if reason = FR_rate_limit \<and> \<not> present modelId \<and> present (us_cooldownModel existing) then None
        else if reason \<noteq> FR_rate_limit then None
        else us_cooldownModel existing)
     else if reason = FR_rate_limit then modelId else None)"

definition computeNextProfileUsageStats ::
  "ProfileUsageStats \<Rightarrow> rat \<Rightarrow> AuthProfileFailureReason \<Rightarrow> ResolvedAuthCooldownConfig \<Rightarrow> string option \<Rightarrow> ProfileUsageStats" where
  "computeNextProfileUsageStats existing now reason cfg modelId =
    (let shouldResetCounters = counters_reset existing now cfg;
         baseErrorCount = (if shouldResetCounters then 0 else or_else (us_errorCount existing) 0);
         nextErrorCount = baseErrorCount + 1;
         counts = (if shouldResetCounters then [] else or_else (us_failureCounts existing) []);
         failureCounts = jm_set reason (or_else (jm_get counts reason) 0 + 1) counts;
         updated = existing\<lparr>us_errorCount := Some nextErrorCount, us_failureCounts := Some failureCounts,
                            us_lastFailureAt := Some now\<rparr>
     in if reason = FR_billing \<or> reason = FR_auth_permanent then
          let disableCount = or_else (jm_get failureCounts reason) 1;
              backoffMs = resolveDisabledFailureBackoffMs reason disableCount cfg
          in updated\<lparr>us_disabledUntil := Some (keepActiveWindowOrRecompute (us_disabledUntil existing) now (now + backoffMs)),
                     us_disabledReason := Some reason\<rparr>
        else
          let backoffMs = calculateAuthProfileCooldownMs nextErrorCount
          in updated\<lparr>us_cooldownUntil := Some (keepActiveWindowOrRecompute (us_cooldownUntil existing) now (now + backoffMs)),
                     us_cooldownReason := Some reason,
                     us_cooldownModel := next_cooldown_model existing now reason modelId\<rparr>)"

section \<open>The answer of the usage service\<close>

definition WHAM_BURST_COOLDOWN_MS :: rat where "WHAM_BURST_COOLDOWN_MS = 15000"
definition WHAM_PROBE_FAILURE_COOLDOWN_MS :: rat where "WHAM_PROBE_FAILURE_COOLDOWN_MS = 30000"
definition WHAM_HTTP_ERROR_COOLDOWN_MS :: rat where "WHAM_HTTP_ERROR_COOLDOWN_MS = 5 * 60 * 1000"
definition WHAM_TOKEN_EXPIRED_COOLDOWN_MS :: rat where "WHAM_TOKEN_EXPIRED_COOLDOWN_MS = 12 * 60 * 60 * 1000"
definition WHAM_DEAD_ACCOUNT_COOLDOWN_MS :: rat where "WHAM_DEAD_ACCOUNT_COOLDOWN_MS = 24 * 60 * 60 * 1000"

record WhamUsageWindow =
  ww_used_percent :: "js_number option"
  ww_reset_at :: "js_number option"
  ww_reset_after_seconds :: "js_number option"

record WhamRateLimit =
  wr_limit_reached :: "bool option"
  wr_primary_window :: "WhamUsageWindow option"
  wr_secondary_window :: "WhamUsageWindow option"

record WhamCooldownProbeResult =
  wp_cooldownMs :: rat
  wp_reason :: string
  wp_blockedUntil :: "rat option"
  wp_blockedSource :: "AuthProfileBlockedSource option"

text \<open>How the request ends: it throws or is aborted, an error status, or a body, in which the
  limits may be missing; the clock is read when the body has arrived.\<close>

datatype wham_response = WhamThrows | WhamStatus int | WhamBody rat "WhamRateLimit option"

definition shouldProbeWhamForFailure :: "string option \<Rightarrow> AuthProfileFailureReason \<Rightarrow> bool" where
  "shouldProbeWhamForFailure provider reason \<longleftrightarrow>
    normalizeProviderId (or_else provider []) = ''openai-codex'' \<and>
    reason \<in> {FR_rate_limit, FR_empty_response, FR_no_error_details, FR_unclassified, FR_unknown}"

definition positive_number :: "js_number option \<Rightarrow> rat option" where
  "positive_number v = (case v of Some (Fin q) \<Rightarrow> if 0 < q then Some q else None | _ \<Rightarrow> None)"

definition resolveWhamResetMs :: "WhamUsageWindow option \<Rightarrow> rat \<Rightarrow> rat option" where
  "resolveWhamResetMs window now =
    (case window of None \<Rightarrow> None
     | Some w \<Rightarrow>
         (case positive_number (ww_reset_after_seconds w) of
            Some s \<Rightarrow> Some (s * 1000)
          | None \<Rightarrow> map_option (\<lambda>t. max 0 (t * 1000 - now)) (positive_number (ww_reset_at w))))"

definition isWhamWindowExhausted :: "WhamUsageWindow option \<Rightarrow> bool" where
  "isWhamWindowExhausted window =
    (case window of None \<Rightarrow> False
     | Some w \<Rightarrow> (case ww_used_percent w of Some (Fin q) \<Rightarrow> 100 \<le> q | _ \<Rightarrow> False))"

definition wham_cooldown :: "rat \<Rightarrow> string \<Rightarrow> WhamCooldownProbeResult" where
  "wham_cooldown ms reason = \<lparr>wp_cooldownMs = ms, wp_reason = reason, wp_blockedUntil = None, wp_blockedSource = None\<rparr>"

definition wham_blocked :: "rat \<Rightarrow> rat option \<Rightarrow> string \<Rightarrow> WhamCooldownProbeResult" where
  "wham_blocked now resetMs reason =
    (case resetMs of
       None \<Rightarrow> wham_cooldown WHAM_PROBE_FAILURE_COOLDOWN_MS ''wham_probe_failed''
     | Some ms \<Rightarrow> \<lparr>wp_cooldownMs = WHAM_BURST_COOLDOWN_MS, wp_reason = reason, wp_blockedUntil = Some (now + ms),
                  wp_blockedSource = Some BS_wham\<rparr>)"

definition probeWhamForCooldown :: "AuthProfileStore \<Rightarrow> string \<Rightarrow> wham_response \<Rightarrow> WhamCooldownProbeResult option" where
  "probeWhamForCooldown store profileId response =
    (case jm_get (as_profiles store) profileId of
       Some (OAuthCredential _ access _ _ _) \<Rightarrow>
         if \<not> present access then None
         else Some (case response of
             WhamThrows \<Rightarrow> wham_cooldown WHAM_PROBE_FAILURE_COOLDOWN_MS ''wham_probe_failed''
           | WhamStatus st \<Rightarrow>
               if st = 401 then wham_cooldown WHAM_TOKEN_EXPIRED_COOLDOWN_MS ''wham_token_expired''
               else if st = 403 then wham_cooldown WHAM_DEAD_ACCOUNT_COOLDOWN_MS ''wham_account_dead''
               else wham_cooldown WHAM_HTTP_ERROR_COOLDOWN_MS ''wham_http_error''
           | WhamBody now None \<Rightarrow> wham_cooldown WHAM_PROBE_FAILURE_COOLDOWN_MS ''wham_probe_failed''
           | WhamBody now (Some limits) \<Rightarrow>
               if wr_limit_reached limits = Some False then wham_cooldown WHAM_BURST_COOLDOWN_MS ''wham_burst_contention''
               else
                 let primaryResetMs = resolveWhamResetMs (wr_primary_window limits) now;
                     secondaryResetMs = resolveWhamResetMs (wr_secondary_window limits) now
                 in if wr_secondary_window limits = None then wham_blocked now primaryResetMs ''wham_personal_rolling''
                    else if isWhamWindowExhausted (wr_secondary_window limits)
                    then wham_blocked now secondaryResetMs ''wham_team_weekly''
                    else if isWhamWindowExhausted (wr_primary_window limits)
                    then wham_blocked now primaryResetMs ''wham_team_rolling''
                    else wham_cooldown WHAM_PROBE_FAILURE_COOLDOWN_MS ''wham_probe_failed'')
     | _ \<Rightarrow> None)"

definition active_until :: "rat option \<Rightarrow> rat \<Rightarrow> rat" where
  "active_until until now = (case until of None \<Rightarrow> 0 | Some u \<Rightarrow> if now < u then u else 0)"

definition applyWhamCooldownResult ::
  "ProfileUsageStats \<Rightarrow> ProfileUsageStats \<Rightarrow> rat \<Rightarrow> WhamCooldownProbeResult \<Rightarrow> ProfileUsageStats" where
  "applyWhamCooldownResult existing computed now whamResult =
    (let existingActiveCooldownUntil = active_until (us_cooldownUntil existing) now;
         existingActiveBlockedUntil = active_until (us_blockedUntil existing) now
     in case wp_blockedUntil whamResult of
          Some b \<Rightarrow>
            if b \<noteq> 0 then
              computed\<lparr>us_blockedUntil := Some (max existingActiveBlockedUntil b),
                us_blockedReason := Some BR_subscription_limit,
                us_blockedSource := Some (or_else (wp_blockedSource whamResult) BS_wham),
                us_blockedModel := None, us_cooldownUntil := None, us_cooldownReason := None, us_cooldownModel := None\<rparr>
            else computed\<lparr>us_cooldownUntil := Some (max existingActiveCooldownUntil (now + wp_cooldownMs whamResult))\<rparr>
        | None \<Rightarrow> computed\<lparr>us_cooldownUntil := Some (max existingActiveCooldownUntil (now + wp_cooldownMs whamResult))\<rparr>)"

section \<open>Marking profiles\<close>

text \<open>The store file under its lock (\<open>updateAuthProfileStoreWithLock\<close> of store.ts): taking the lock or
  loading fails, or the store on disk is loaded and saving it works or throws. The result is the store
  that the caller gets, and the one that is written.\<close>

datatype lock_outcome = LockFailed | Locked AuthProfileStore bool

definition updateAuthProfileStoreWithLock ::
  "lock_outcome \<Rightarrow> (AuthProfileStore \<Rightarrow> bool \<times> AuthProfileStore) \<Rightarrow> AuthProfileStore option \<times> AuthProfileStore option" where
  "updateAuthProfileStoreWithLock lock updater =
    (case lock of
       LockFailed \<Rightarrow> (None, None)
     | Locked fresh saves \<Rightarrow>
         (case updater fresh of (shouldSave, store) \<Rightarrow>
            if shouldSave then (if saves then (Some store, Some store) else (None, None)) else (Some store, None)))"

text \<open>The store in memory after a call, and the store it has written, if any.\<close>

record StoreEffect =
  se_memory :: AuthProfileStore
  se_written :: "AuthProfileStore option"

definition next_failure_stats ::
  "AuthCooldowns option \<Rightarrow> AuthProfileFailureReason \<Rightarrow> string option \<Rightarrow> WhamCooldownProbeResult option \<Rightarrow> string
   \<Rightarrow> rat \<Rightarrow> ProfileUsageStats option \<Rightarrow> ProfileUsageStats" where
  "next_failure_stats cfg reason modelId whamResult provider now previous =
    (let cfgResolved = resolveAuthCooldownConfig cfg (normalizeProviderId provider);
         computed = computeNextProfileUsageStats (or_else previous no_stats) now reason cfgResolved modelId
     in case whamResult of
          Some w \<Rightarrow> if shouldProbeWhamForFailure (Some provider) reason
                    then applyWhamCooldownResult (or_else previous no_stats) computed now w else computed
        | None \<Rightarrow> computed)"

definition markAuthProfileFailure ::
  "AuthProfileStore \<Rightarrow> string \<Rightarrow> AuthProfileFailureReason \<Rightarrow> AuthCooldowns option \<Rightarrow> string option \<Rightarrow> wham_response
   \<Rightarrow> lock_outcome \<Rightarrow> rat \<Rightarrow> StoreEffect" where
  "markAuthProfileFailure store profileId reason cfg modelId response lock now =
    (case provider_of store profileId of
       None \<Rightarrow> \<lparr>se_memory = store, se_written = None\<rparr>
     | Some provider \<Rightarrow>
         if isAuthCooldownBypassedForProvider (Some provider) then \<lparr>se_memory = store, se_written = None\<rparr>
         else
           let whamResult = (if shouldProbeWhamForFailure (Some provider) reason
                             then probeWhamForCooldown store profileId response else None);
               mark = (\<lambda>s p. updateUsageStatsEntry s profileId (next_failure_stats cfg reason modelId whamResult p now))
           in case updateAuthProfileStoreWithLock lock (\<lambda>fresh. case provider_of fresh profileId of
                     None \<Rightarrow> (False, fresh)
                   | Some p \<Rightarrow> if isAuthCooldownBypassedForProvider (Some p) then (False, fresh) else (True, mark fresh p)) of
                (Some updated, w) \<Rightarrow> \<lparr>se_memory = store\<lparr>as_usageStats := as_usageStats updated\<rparr>, se_written = w\<rparr>
              | (None, w) \<Rightarrow> (let s = mark store provider in \<lparr>se_memory = s, se_written = Some s\<rparr>))"

definition blocked_stats ::
  "rat \<Rightarrow> AuthProfileBlockedSource \<Rightarrow> string option \<Rightarrow> rat \<Rightarrow> ProfileUsageStats option \<Rightarrow> ProfileUsageStats" where
  "blocked_stats blockedUntil source modelId now previous =
    (let prev = or_else previous no_stats;
         activeBlockedUntil = active_until (us_blockedUntil prev) now;
         counts = or_else (us_failureCounts prev) []
     in prev\<lparr>us_blockedUntil := Some (max activeBlockedUntil blockedUntil),
          us_blockedReason := Some BR_subscription_limit, us_blockedSource := Some source, us_blockedModel := modelId,
          us_cooldownUntil := None, us_cooldownReason := None, us_cooldownModel := None,
          us_lastFailureAt := Some now,
          us_failureCounts := Some (jm_set FR_rate_limit (or_else (jm_get counts FR_rate_limit) 0 + 1) counts)\<rparr>)"

definition markAuthProfileBlockedUntil ::
  "AuthProfileStore \<Rightarrow> string \<Rightarrow> js_number \<Rightarrow> AuthProfileBlockedSource \<Rightarrow> string option \<Rightarrow> lock_outcome \<Rightarrow> rat \<Rightarrow> rat \<Rightarrow> StoreEffect" where
  "markAuthProfileBlockedUntil store profileId blockedUntil source modelId lock calledAt now =
    (case (provider_of store profileId, blockedUntil) of
       (Some provider, Fin b) \<Rightarrow>
         if isAuthCooldownBypassedForProvider (Some provider) \<or> b \<le> calledAt then \<lparr>se_memory = store, se_written = None\<rparr>
         else
           let mark = (\<lambda>s. updateUsageStatsEntry s profileId (blocked_stats b source modelId now))
           in (case updateAuthProfileStoreWithLock lock (\<lambda>fresh. case provider_of fresh profileId of
                      None \<Rightarrow> (False, fresh)
                    | Some p \<Rightarrow> if isAuthCooldownBypassedForProvider (Some p) then (False, fresh) else (True, mark fresh)) of
                 (Some updated, w) \<Rightarrow> \<lparr>se_memory = store\<lparr>as_usageStats := as_usageStats updated\<rparr>, se_written = w\<rparr>
               | (None, w) \<Rightarrow> (let s = mark store in \<lparr>se_memory = s, se_written = Some s\<rparr>))
     | _ \<Rightarrow> \<lparr>se_memory = store, se_written = None\<rparr>)"

definition markAuthProfileCooldown ::
  "AuthProfileStore \<Rightarrow> string \<Rightarrow> wham_response \<Rightarrow> lock_outcome \<Rightarrow> rat \<Rightarrow> StoreEffect" where
  "markAuthProfileCooldown store profileId response lock now =
    markAuthProfileFailure store profileId FR_unknown None None response lock now"

definition clearAuthProfileCooldown :: "AuthProfileStore \<Rightarrow> string \<Rightarrow> lock_outcome \<Rightarrow> StoreEffect" where
  "clearAuthProfileCooldown store profileId lock =
    (let clear = (\<lambda>s. updateUsageStatsEntry s profileId resetUsageStats) in
     case updateAuthProfileStoreWithLock lock (\<lambda>fresh.
            if stats_of fresh profileId = None then (False, fresh) else (True, clear fresh)) of
       (Some updated, w) \<Rightarrow> \<lparr>se_memory = store\<lparr>as_usageStats := as_usageStats updated\<rparr>, se_written = w\<rparr>
     | (None, w) \<Rightarrow>
         if stats_of store profileId = None then \<lparr>se_memory = store, se_written = None\<rparr>
         else (let s = clear store in \<lparr>se_memory = s, se_written = Some s\<rparr>))"

end
