(* ===== verification/AuthUsageProps.thy ===== *)
theory AuthUsageProps
  imports AuthUsage
begin

text \<open>
  What the windows of src/src/agents/auth-profiles/usage.ts amount to: their length over any sequence
  of failures, the models they apply to, when a profile is in cooldown, and the reason that is
  reported when none is available.
\<close>

section \<open>When a profile is unusable\<close>

lemma latest_eq_None: "latest xs = None \<longleftrightarrow> xs = []"
  by (cases xs) auto

lemma latest_less: "(case latest xs of None \<Rightarrow> False | Some u \<Rightarrow> (t::rat) < u) \<longleftrightarrow> (\<exists>x \<in> set xs. t < x)"
proof (induction xs)
  case (Cons x xs)
  then show ?case by (cases "latest xs") (auto simp: latest_eq_None less_max_iff_disj)
qed simp

lemma latest_le: "(case latest xs of None \<Rightarrow> True | Some u \<Rightarrow> u \<le> (t::rat)) \<longleftrightarrow> (\<forall>x \<in> set xs. x \<le> t)"
proof (induction xs)
  case (Cons x xs)
  then show ?case by (cases "latest xs") (auto simp: latest_eq_None)
qed simp

definition unusable_at :: "ProfileUsageStats \<Rightarrow> rat \<Rightarrow> bool" where
  "unusable_at stats t = (case resolveProfileUnusableUntil stats of None \<Rightarrow> False | Some u \<Rightarrow> t < u)"

lemma unusable_at_iff:
  "unusable_at stats t \<longleftrightarrow> isActiveUnusableWindow (us_blockedUntil stats) t \<or>
     isActiveUnusableWindow (us_cooldownUntil stats) t \<or> isActiveUnusableWindow (us_disabledUntil stats) t"
  unfolding unusable_at_def resolveProfileUnusableUntil_def latest_less
  by (auto simp: given_def isActiveUnusableWindow_def split: option.splits)

lemma no_window_iff:
  "resolveProfileUnusableUntil stats = None \<longleftrightarrow>
     (\<forall>u \<in> set (given [us_blockedUntil stats, us_cooldownUntil stats, us_disabledUntil stats]). u \<le> 0)"
  unfolding resolveProfileUnusableUntil_def latest_eq_None by (auto simp: filter_empty_conv not_less)

lemma windows_over_iff:
  "(case resolveProfileUnusableUntil stats of None \<Rightarrow> False | Some u \<Rightarrow> u \<le> t) \<longleftrightarrow>
     resolveProfileUnusableUntil stats \<noteq> None \<and> \<not> unusable_at stats t"
  by (auto simp: unusable_at_def split: option.splits)

lemma isProfileInCooldown_stats:
  "isProfileInCooldown store i t m \<longleftrightarrow>
     \<not> isAuthCooldownBypassedForProvider (provider_of store i) \<and>
     (case stats_of store i of None \<Rightarrow> False
      | Some s \<Rightarrow> \<not> shouldBypassModelScopedCooldown s t m \<and> unusable_at s t)"
  by (auto simp: isProfileInCooldown_def unusable_at_def split: option.splits)

section \<open>The length of windows\<close>

type_synonym failure = "rat \<times> AuthProfileFailureReason \<times> string option"

definition fail_step :: "ResolvedAuthCooldownConfig \<Rightarrow> ProfileUsageStats \<Rightarrow> failure \<Rightarrow> ProfileUsageStats" where
  "fail_step cfg s f = computeNextProfileUsageStats s (fst f) (fst (snd f)) cfg (snd (snd f))"

definition fail_run :: "ResolvedAuthCooldownConfig \<Rightarrow> failure list \<Rightarrow> ProfileUsageStats" where
  "fail_run cfg fs = foldl (fail_step cfg) no_stats fs"

definition disabling :: "AuthProfileFailureReason \<Rightarrow> bool" where
  "disabling r \<longleftrightarrow> r = FR_billing \<or> r = FR_auth_permanent"

text \<open>The reference: a failure inside an open window changes nothing, any other opens one of the given
  length.\<close>

fun window_end :: "rat \<Rightarrow> rat list \<Rightarrow> rat option \<Rightarrow> rat option" where
  "window_end len [] w = w"
| "window_end len (t # ts) w =
    window_end len ts (case w of None \<Rightarrow> Some (t + len) | Some u \<Rightarrow> if t < u then Some u else Some (t + len))"

definition same_lane :: "AuthProfileFailureReason \<Rightarrow> AuthProfileFailureReason \<Rightarrow> bool" where
  "same_lane r r' \<longleftrightarrow> (if disabling r then r' = r else \<not> disabling r')"

definition lane_window :: "ResolvedAuthCooldownConfig \<Rightarrow> AuthProfileFailureReason \<Rightarrow> rat" where
  "lane_window cfg r = (if disabling r then max 60000 (fst (disabled_policy r cfg)) else 30000)"

definition lane_until :: "AuthProfileFailureReason \<Rightarrow> ProfileUsageStats \<Rightarrow> rat option" where
  "lane_until r s = (if disabling r then us_disabledUntil s else us_cooldownUntil s)"

definition lane_inv :: "AuthProfileFailureReason \<Rightarrow> ProfileUsageStats \<Rightarrow> bool" where
  "lane_inv r s \<longleftrightarrow> us_blockedUntil s = None \<and>
     (if disabling r then us_cooldownUntil s = None else us_disabledUntil s = None) \<and>
     (case lane_until r s of None \<Rightarrow> us_errorCount s = None \<and> us_failureCounts s = None | Some u \<Rightarrow> 0 < u)"

lemma lane_unusable:
  assumes "lane_inv r s"
  shows "resolveProfileUnusableUntil s = lane_until r s"
  using assms
  by (auto simp: lane_inv_def lane_until_def resolveProfileUnusableUntil_def given_def split: option.splits if_splits)

lemma disabled_backoff_first: "resolveDisabledFailureBackoffMs r 1 cfg = max 60000 (fst (disabled_policy r cfg))"
  by (simp add: resolveDisabledFailureBackoffMs_def calculateDisabledLaneBackoffMs_def)

lemma lane_step:
  assumes inv: "lane_inv r s" and t: "0 \<le> t" and lane: "same_lane r r'"
  shows "lane_inv r (fail_step cfg s (t, r', m)) \<and>
         lane_until r (fail_step cfg s (t, r', m)) = window_end (lane_window cfg r) [t] (lane_until r s)"
proof -
  have dis: "disabling r' \<longleftrightarrow> disabling r" and same: "disabling r \<Longrightarrow> r' = r"
    using lane by (auto simp: same_lane_def split: if_splits)
  have pos: "0 < lane_window cfg r" by (simp add: lane_window_def less_max_iff_disj)
  have pos': "0 < t + lane_window cfg r" using pos t by linarith
  show ?thesis
  proof (cases "lane_until r s")
    case None
    have fresh: "us_errorCount s = None" "us_failureCounts s = None" using inv None by (simp_all add: lane_inv_def)
    show ?thesis using inv None fresh pos' dis same
      by (auto simp: fail_step_def computeNextProfileUsageStats_def Let_def lane_inv_def lane_until_def disabling_def
          keepActiveWindowOrRecompute_def calculateAuthProfileCooldownMs_def disabled_backoff_first lane_window_def
          split: if_splits)
  next
    case (Some u)
    show ?thesis
    proof (cases "t < u")
      case True
      then show ?thesis using inv Some dis same
        by (auto simp: fail_step_def computeNextProfileUsageStats_def Let_def lane_inv_def lane_until_def disabling_def
            keepActiveWindowOrRecompute_def split: if_splits)
    next
      case False
      then have reset: "counters_reset s t cfg"
        using lane_unusable [OF inv] Some by (simp add: counters_reset_def Let_def)
      show ?thesis using inv Some False pos' dis same reset
        by (auto simp: fail_step_def computeNextProfileUsageStats_def Let_def lane_inv_def lane_until_def disabling_def
            keepActiveWindowOrRecompute_def calculateAuthProfileCooldownMs_def disabled_backoff_first lane_window_def
            split: if_splits)
    qed
  qed
qed

lemma window_end_append: "window_end len (ts @ [t]) w = window_end len [t] (window_end len ts w)"
  by (induction len ts w rule: window_end.induct) auto

lemma lane_run:
  assumes "list_all (\<lambda>f. 0 \<le> fst f \<and> same_lane r (fst (snd f))) fs"
  shows "lane_inv r (fail_run cfg fs) \<and> lane_until r (fail_run cfg fs) = window_end (lane_window cfg r) (map fst fs) None"
  using assms
proof (induction fs rule: rev_induct)
  case Nil
  show ?case by (simp add: fail_run_def lane_inv_def lane_until_def no_stats_def)
next
  case (snoc f fs)
  obtain t r' m where f: "f = (t, r', m)" by (metis prod_cases3)
  have IH: "lane_inv r (fail_run cfg fs)" "lane_until r (fail_run cfg fs) = window_end (lane_window cfg r) (map fst fs) None"
    using snoc by auto
  have run: "fail_run cfg (fs @ [(t, r', m)]) = fail_step cfg (fail_run cfg fs) (t, r', m)" by (simp add: fail_run_def)
  have "0 \<le> t" "same_lane r r'" using snoc.prems by (auto simp: f)
  then show ?case using lane_step [OF IH(1), of t r' cfg m] IH(2)
    by (simp add: run f window_end_append del: window_end.simps(2))
qed

text \<open>C21: windows never grow. As long as the failures of a profile are of one kind (all transient, all
  billing, or all permanent authentication failures), each opens a window of the shortest length of its kind
  (30 seconds; the configured base, at least a minute), or falls into the window that is open: the counters
  restart with the end of a window, so the steps of the backoff are never taken.\<close>

theorem failure_windows_never_grow:
  assumes "list_all (\<lambda>f. 0 \<le> fst f \<and> same_lane r (fst (snd f))) fs"
  shows "lane_until r (fail_run cfg fs) = window_end (lane_window cfg r) (map fst fs) None"
  using lane_run [OF assms] by blast

theorem failure_windows_never_grow_witness:
  "lane_until FR_timeout (fail_run (resolveAuthCooldownConfig None ''openai'')
     [(0, FR_timeout, None), (40000, FR_rate_limit, Some ''a''), (50000, FR_timeout, None), (80000, FR_unknown, None)])
   = Some 110000"
  using failure_windows_never_grow [of FR_timeout "[(0, FR_timeout, None), (40000, FR_rate_limit, Some ''a''),
      (50000, FR_timeout, None), (80000, FR_unknown, None)]"]
  by (simp add: same_lane_def disabling_def lane_window_def)

section \<open>Bounds\<close>

definition lane_limit :: "ResolvedAuthCooldownConfig \<Rightarrow> AuthProfileFailureReason \<Rightarrow> rat" where
  "lane_limit cfg r = max (max 60000 (fst (disabled_policy r cfg))) (snd (disabled_policy r cfg))"

definition longest_window :: "ResolvedAuthCooldownConfig \<Rightarrow> rat" where
  "longest_window cfg = max 300000 (max (lane_limit cfg FR_billing) (lane_limit cfg FR_auth_permanent))"

lemma cooldown_bounds: "30000 \<le> calculateAuthProfileCooldownMs n \<and> calculateAuthProfileCooldownMs n \<le> 300000"
  by (simp add: calculateAuthProfileCooldownMs_def Let_def)

lemma disabled_bounds:
  "60000 \<le> resolveDisabledFailureBackoffMs r n cfg \<and> resolveDisabledFailureBackoffMs r n cfg \<le> lane_limit cfg r"
proof -
  define b where "b = max 60000 (fst (disabled_policy r cfg))"
  define k where "k = nat (min (max 1 n - 1) 10)"
  have b: "60000 \<le> b" by (simp add: b_def)
  have "b * 1 \<le> b * 2 ^ k" by (rule mult_left_mono) (use b in simp_all)
  then have raw: "60000 \<le> b * 2 ^ k" using b by linarith
  have "resolveDisabledFailureBackoffMs r n cfg = min (lane_limit cfg r) (b * 2 ^ k)"
    by (simp add: resolveDisabledFailureBackoffMs_def calculateDisabledLaneBackoffMs_def Let_def lane_limit_def b_def k_def)
  moreover have "60000 \<le> lane_limit cfg r" using b by (simp add: lane_limit_def b_def le_max_iff_disj)
  ultimately show ?thesis using raw by simp
qed

definition bounded_by :: "ResolvedAuthCooldownConfig \<Rightarrow> rat \<Rightarrow> ProfileUsageStats \<Rightarrow> bool" where
  "bounded_by cfg t s \<longleftrightarrow> us_blockedUntil s = None \<and>
     (case us_cooldownUntil s of None \<Rightarrow> True | Some u \<Rightarrow> u \<le> t + longest_window cfg) \<and>
     (case us_disabledUntil s of None \<Rightarrow> True | Some u \<Rightarrow> u \<le> t + longest_window cfg)"

lemma longest_window_bounds:
  "300000 \<le> longest_window cfg" "disabling r \<Longrightarrow> lane_limit cfg r \<le> longest_window cfg"
  by (auto simp: longest_window_def disabling_def)

lemma fail_step_bounded:
  assumes b: "bounded_by cfg t0 s" and t: "t0 \<le> fst f" "0 \<le> fst f"
  shows "bounded_by cfg (fst f) (fail_step cfg s f) \<and> unusable_at (fail_step cfg s f) (fst f)"
proof -
  obtain t r m where f: "f = (t, r, m)" by (metis prod_cases3)
  show ?thesis
  proof (cases "disabling r")
    case True
    define n where "n = or_else (jm_get (jm_set r (or_else (jm_get (if counters_reset s t cfg then [] else
      or_else (us_failureCounts s) []) r) 0 + 1) (if counters_reset s t cfg then [] else or_else (us_failureCounts s) [])) r) 1"
    define d where "d = resolveDisabledFailureBackoffMs r n cfg"
    have d: "60000 \<le> d" "d \<le> longest_window cfg"
      using disabled_bounds [of r n cfg] longest_window_bounds(2) [OF True, of cfg] by (simp_all add: d_def)
    have until: "us_disabledUntil (fail_step cfg s (t, r, m)) = Some (keepActiveWindowOrRecompute (us_disabledUntil s) t (t + d))"
      "us_cooldownUntil (fail_step cfg s (t, r, m)) = us_cooldownUntil s" "us_blockedUntil (fail_step cfg s (t, r, m)) = us_blockedUntil s"
      using True by (simp_all add: fail_step_def computeNextProfileUsageStats_def Let_def disabling_def d_def n_def)
    show ?thesis using b t d
      by (auto simp: bounded_by_def unusable_at_iff until f keepActiveWindowOrRecompute_def isActiveUnusableWindow_def
          split: option.splits)
  next
    case False
    define n where "n = (if counters_reset s t cfg then 0 else or_else (us_errorCount s) 0) + 1"
    define d where "d = calculateAuthProfileCooldownMs n"
    have d: "30000 \<le> d" "d \<le> longest_window cfg"
      using cooldown_bounds [of n] longest_window_bounds(1) [of cfg] by (simp_all add: d_def)
    have until: "us_cooldownUntil (fail_step cfg s (t, r, m)) = Some (keepActiveWindowOrRecompute (us_cooldownUntil s) t (t + d))"
      "us_disabledUntil (fail_step cfg s (t, r, m)) = us_disabledUntil s" "us_blockedUntil (fail_step cfg s (t, r, m)) = us_blockedUntil s"
      using False by (simp_all add: fail_step_def computeNextProfileUsageStats_def Let_def disabling_def d_def n_def)
    show ?thesis using b t d
      by (auto simp: bounded_by_def unusable_at_iff until f keepActiveWindowOrRecompute_def isActiveUnusableWindow_def
          split: option.splits)
  qed
qed

lemma fail_run_bounded:
  assumes "sorted (0 # map fst fs)"
  shows "bounded_by cfg (last (0 # map fst fs)) (fail_run cfg fs) \<and>
    (fs \<noteq> [] \<longrightarrow> unusable_at (fail_run cfg fs) (last (map fst fs)))"
  using assms
proof (induction fs rule: rev_induct)
  case Nil
  show ?case by (simp add: fail_run_def bounded_by_def no_stats_def)
next
  case (snoc f fs)
  have IH: "bounded_by cfg (last (0 # map fst fs)) (fail_run cfg fs)" using snoc by (auto simp: sorted_append)
  have "last (0 # map fst fs) \<in> set (0 # map fst fs)" by (rule last_in_set) simp
  moreover have "\<forall>t \<in> set (0 # map fst fs). t \<le> fst f" using snoc.prems by (auto simp: sorted_append)
  ultimately have "last (0 # map fst fs) \<le> fst f" "0 \<le> fst f" by auto
  from fail_step_bounded [OF IH this] show ?case by (simp add: fail_run_def)
qed

lemma unusable_until_bounded:
  assumes "bounded_by cfg t s" "unusable_at s t"
  shows "case resolveProfileUnusableUntil s of None \<Rightarrow> False | Some u \<Rightarrow> t < u \<and> u \<le> t + longest_window cfg"
proof -
  have "case resolveProfileUnusableUntil s of None \<Rightarrow> True | Some u \<Rightarrow> u \<le> t + longest_window cfg"
    using assms(1) unfolding resolveProfileUnusableUntil_def latest_le
    by (auto simp: bounded_by_def given_def split: option.splits)
  then show ?thesis using assms(2) by (auto simp: unusable_at_def split: option.splits)
qed

text \<open>A failed profile is left alone, but never for long. Whatever failures a profile has had, in the
  order of time, the last of them leaves it unusable for some time, and at most for five minutes or the
  limits of the configuration, whichever is longer.\<close>

lemma failed_profile_recovers:
  assumes "sorted (0 # map fst (fs @ [f]))"
  shows "case resolveProfileUnusableUntil (fail_run cfg (fs @ [f])) of
     None \<Rightarrow> False | Some u \<Rightarrow> fst f < u \<and> u \<le> fst f + longest_window cfg"
  using fail_run_bounded [OF assms, of cfg] by (intro unusable_until_bounded) auto

lemma failed_profile_recovers_witness:
  "case resolveProfileUnusableUntil (fail_run (resolveAuthCooldownConfig None ''openai'')
      ([(0, FR_timeout, None), (5000, FR_billing, None)] @ [(40000, FR_timeout, None)])) of
     None \<Rightarrow> False | Some u \<Rightarrow> 40000 < u \<and> u \<le> 40000 + longest_window (resolveAuthCooldownConfig None ''openai'')"
  using failed_profile_recovers [of "[(0, FR_timeout, None), (5000, FR_billing, None)]" "(40000, FR_timeout, None)"
      "resolveAuthCooldownConfig None ''openai''"] unfolding fst_conv by simp

section \<open>Cooldowns of one model\<close>

text \<open>The failures since the current cooldown was opened, beside the statistics.\<close>

definition logged_step ::
  "ResolvedAuthCooldownConfig \<Rightarrow> ProfileUsageStats \<times> (AuthProfileFailureReason \<times> string option) list \<Rightarrow> failure
   \<Rightarrow> ProfileUsageStats \<times> (AuthProfileFailureReason \<times> string option) list" where
  "logged_step cfg sl f =
    (fail_step cfg (fst sl) f,
     if disabling (fst (snd f)) then snd sl
     else if (case us_cooldownUntil (fst sl) of None \<Rightarrow> False | Some u \<Rightarrow> fst f < u) then snd sl @ [snd f]
     else [snd f])"

definition logged_run ::
  "ResolvedAuthCooldownConfig \<Rightarrow> failure list \<Rightarrow> ProfileUsageStats \<times> (AuthProfileFailureReason \<times> string option) list" where
  "logged_run cfg fs = foldl (logged_step cfg) (no_stats, []) fs"

definition limited_model :: "(AuthProfileFailureReason \<times> string option) list \<Rightarrow> string option" where
  "limited_model hist = (case hist of [] \<Rightarrow> None
     | g # rest \<Rightarrow> (case snd g of None \<Rightarrow> None
         | Some m \<Rightarrow> if fst g = FR_rate_limit \<and> m \<noteq> [] \<and> list_all (\<lambda>h. h = g) rest then Some m else None))"

definition log_inv :: "ProfileUsageStats \<Rightarrow> (AuthProfileFailureReason \<times> string option) list \<Rightarrow> bool" where
  "log_inv s hist \<longleftrightarrow>
     (hist = [] \<longrightarrow> us_cooldownUntil s = None) \<and>
     us_cooldownReason s = (if hist = [] then None else Some (fst (last hist))) \<and>
     limited_model hist = (if present (us_cooldownModel s) then us_cooldownModel s else None)"

lemma limited_model_Some:
  "limited_model hist = Some m \<longleftrightarrow> hist \<noteq> [] \<and> m \<noteq> [] \<and> list_all (\<lambda>h. h = (FR_rate_limit, Some m)) hist"
  by (cases hist) (auto simp: limited_model_def prod_eq_iff list_all_iff split: option.splits)

lemma limited_model_snoc:
  "hist \<noteq> [] \<Longrightarrow> limited_model (hist @ [g]) =
     (case limited_model hist of None \<Rightarrow> None | Some m \<Rightarrow> if g = (FR_rate_limit, Some m) then Some m else None)"
  by (cases hist) (auto simp: limited_model_def prod_eq_iff split: option.splits)

lemma limited_model_present: "limited_model hist = Some m \<Longrightarrow> m \<noteq> []"
  by (simp add: limited_model_Some)

lemma logged_step_inv:
  assumes inv: "log_inv s hist"
  shows "log_inv (fst (logged_step cfg (s, hist) f)) (snd (logged_step cfg (s, hist) f))"
proof -
  obtain t r m where f: "f = (t, r, m)" by (metis prod_cases3)
  show ?thesis
  proof (cases "disabling r")
    case True
    then have "us_cooldownUntil (fail_step cfg s f) = us_cooldownUntil s"
      "us_cooldownReason (fail_step cfg s f) = us_cooldownReason s" "us_cooldownModel (fail_step cfg s f) = us_cooldownModel s"
      by (simp_all add: f fail_step_def computeNextProfileUsageStats_def Let_def disabling_def)
    then show ?thesis using inv True by (simp add: log_inv_def logged_step_def f)
  next
    case False
    have new: "us_cooldownUntil (fail_step cfg s f) \<noteq> None" "us_cooldownReason (fail_step cfg s f) = Some r"
      "us_cooldownModel (fail_step cfg s f) = next_cooldown_model s t r m"
      using False by (simp_all add: f fail_step_def computeNextProfileUsageStats_def Let_def disabling_def)
    show ?thesis
    proof (cases "case us_cooldownUntil s of None \<Rightarrow> False | Some u \<Rightarrow> t < u")
      case True
      then have hist: "hist \<noteq> []" using inv by (auto simp: log_inv_def)
      have "limited_model (hist @ [(r, m)]) = (if present (next_cooldown_model s t r m) then next_cooldown_model s t r m else None)"
      proof (cases "limited_model hist")
        case None
        then have "\<not> present (us_cooldownModel s)"
          using inv by (auto simp: log_inv_def present_def split: if_splits)
        then show ?thesis using True None unfolding limited_model_snoc [OF hist]
          by (auto simp: next_cooldown_model_def Let_def present_def)
      next
        case (Some x)
        then have "us_cooldownModel s = Some x" "x \<noteq> []"
          using inv by (auto simp: log_inv_def present_def split: if_splits)
        then show ?thesis using True Some unfolding limited_model_snoc [OF hist]
          by (auto simp: next_cooldown_model_def Let_def present_def)
      qed
      moreover have "logged_step cfg (s, hist) f = (fail_step cfg s f, hist @ [(r, m)])"
        using False True by (auto simp: logged_step_def f split: option.splits)
      ultimately show ?thesis using new by (simp add: log_inv_def del: not_None_eq)
    next
      case inactive: False
      then have "next_cooldown_model s t r m = (if r = FR_rate_limit then m else None)"
        by (simp add: next_cooldown_model_def Let_def)
      moreover have "logged_step cfg (s, hist) f = (fail_step cfg s f, [(r, m)])"
        using False inactive by (auto simp: logged_step_def f split: option.splits)
      ultimately show ?thesis using new by (cases m) (auto simp: log_inv_def limited_model_def present_def)
    qed
  qed
qed

lemma logged_run_inv: "log_inv (fst (logged_run cfg fs)) (snd (logged_run cfg fs))"
proof (induction fs rule: rev_induct)
  case Nil
  show ?case by (simp add: logged_run_def log_inv_def no_stats_def limited_model_def present_def)
next
  case (snoc f fs)
  have "logged_run cfg (fs @ [f]) = logged_step cfg (logged_run cfg fs) f" by (simp add: logged_run_def)
  then show ?case using logged_step_inv [OF snoc, of cfg f] by simp
qed

lemma limited_model_last: "limited_model hist = Some m \<Longrightarrow> last hist = (FR_rate_limit, Some m)"
  using last_in_set [of hist] by (auto simp: limited_model_Some list_all_iff)

text \<open>C6: when a cooldown is confined to one model. Another model may use a profile in spite of its cooldown
  exactly if every failure since that cooldown began was a rate limit of one and the same model, and no
  billing or permanent authentication failure disables the profile.\<close>

theorem cooldown_confined_exactly:
  "shouldBypassModelScopedCooldown (fst (logged_run cfg fs)) t (Some other) \<longleftrightarrow>
     other \<noteq> [] \<and> \<not> isActiveUnusableWindow (us_disabledUntil (fst (logged_run cfg fs))) t \<and>
     (case limited_model (snd (logged_run cfg fs)) of None \<Rightarrow> False | Some m \<Rightarrow> m \<noteq> other)"
proof -
  obtain s hist where sl: "logged_run cfg fs = (s, hist)" by fastforce
  have inv: "log_inv s hist" using logged_run_inv [of cfg fs] by (simp add: sl)
  have m: "limited_model hist = (if present (us_cooldownModel s) then us_cooldownModel s else None)"
    using inv by (simp add: log_inv_def)
  show ?thesis
  proof (cases "limited_model hist")
    case None
    then have "\<not> present (us_cooldownModel s)" using m by (auto simp: present_def split: if_splits)
    then show ?thesis using None by (simp add: sl shouldBypassModelScopedCooldown_def)
  next
    case (Some x)
    have "hist \<noteq> []" using Some by (auto simp: limited_model_def)
    then have "us_cooldownReason s = Some FR_rate_limit"
      using inv limited_model_last [OF Some] by (simp add: log_inv_def)
    moreover have "us_cooldownModel s = Some x" "present (us_cooldownModel s)" using m Some by (auto split: if_splits)
    ultimately show ?thesis by (auto simp: sl Some shouldBypassModelScopedCooldown_def present_def)
  qed
qed

section \<open>Expired windows\<close>

lemma expired_inactive: "window_expired u t \<Longrightarrow> t \<le> t' \<Longrightarrow> \<not> isActiveUnusableWindow u t'"
  by (auto simp: window_expired_def isActiveUnusableWindow_def split: option.splits)

lemma clear_entry_until:
  "us_cooldownUntil (snd (clear_expired_entry ts s)) = (if window_expired (us_cooldownUntil s) ts then None else us_cooldownUntil s)"
  "us_blockedUntil (snd (clear_expired_entry ts s)) = (if window_expired (us_blockedUntil s) ts then None else us_blockedUntil s)"
  "us_disabledUntil (snd (clear_expired_entry ts s)) = (if window_expired (us_disabledUntil s) ts then None else us_disabledUntil s)"
  by (simp_all add: clear_expired_entry_def Let_def)

lemma clear_entry_unusable:
  assumes "ts \<le> t"
  shows "unusable_at (snd (clear_expired_entry ts s)) t = unusable_at s t"
  using expired_inactive [OF _ assms]
  by (auto simp: unusable_at_iff clear_entry_until isActiveUnusableWindow_def [of None])

lemma clear_then_reset_iff:
  assumes "fst (clear_expired_entry ts s)"
  shows "resolveProfileUnusableUntil (snd (clear_expired_entry ts s)) = None \<longleftrightarrow> \<not> unusable_at s ts"
  unfolding no_window_iff unusable_at_iff
  by (auto simp: clear_entry_until given_def isActiveUnusableWindow_def window_expired_def split: option.splits)

definition strip_expired :: "rat \<Rightarrow> ProfileUsageStats \<Rightarrow> ProfileUsageStats" where
  "strip_expired ts s =
    (let s1 = (if window_expired (us_cooldownUntil s) ts
               then s\<lparr>us_cooldownUntil := None, us_cooldownReason := None, us_cooldownModel := None\<rparr> else s);
         s2 = (if window_expired (us_blockedUntil s) ts
               then s1\<lparr>us_blockedUntil := None, us_blockedReason := None, us_blockedSource := None, us_blockedModel := None\<rparr>
               else s1)
     in if window_expired (us_disabledUntil s) ts then s2\<lparr>us_disabledUntil := None, us_disabledReason := None\<rparr> else s2)"

lemma clear_entry_form:
  "snd (clear_expired_entry ts s) =
    (if fst (clear_expired_entry ts s) \<and> resolveProfileUnusableUntil (strip_expired ts s) = None
     then (strip_expired ts s)\<lparr>us_errorCount := Some 0, us_failureCounts := None\<rparr> else strip_expired ts s)"
  unfolding clear_expired_entry_def strip_expired_def Let_def fst_conv snd_conv by (rule refl)

lemma clear_entry_strip:
  "snd (clear_expired_entry ts s) =
    (if fst (clear_expired_entry ts s) \<and> \<not> unusable_at s ts
     then (strip_expired ts s)\<lparr>us_errorCount := Some 0, us_failureCounts := None\<rparr> else strip_expired ts s)"
proof (cases "fst (clear_expired_entry ts s)")
  case True
  have "resolveProfileUnusableUntil (snd (clear_expired_entry ts s)) = resolveProfileUnusableUntil (strip_expired ts s)"
    unfolding clear_entry_form by (simp add: resolveProfileUnusableUntil_def)
  then show ?thesis using True clear_then_reset_iff [OF True] unfolding clear_entry_form [of ts s] by simp
next
  case False
  then show ?thesis unfolding clear_entry_form [of ts s] by simp
qed

lemma clear_entry_unusable_now: "unusable_at s ts \<Longrightarrow> snd (clear_expired_entry ts s) = strip_expired ts s"
  by (simp add: clear_entry_strip)

definition counters :: "ProfileUsageStats \<Rightarrow> rat \<Rightarrow> ResolvedAuthCooldownConfig \<Rightarrow> int \<times> (AuthProfileFailureReason, int) jsmap" where
  "counters s now cfg =
    (if counters_reset s now cfg then (0, []) else (or_else (us_errorCount s) 0, or_else (us_failureCounts s) []))"

lemma compute_counters:
  "computeNextProfileUsageStats s now r cfg m =
    (let n = fst (counters s now cfg) + 1; counts = snd (counters s now cfg);
         counts' = jm_set r (or_else (jm_get counts r) 0 + 1) counts;
         updated = s\<lparr>us_errorCount := Some n, us_failureCounts := Some counts', us_lastFailureAt := Some now\<rparr>
     in if disabling r then
          updated\<lparr>us_disabledUntil := Some (keepActiveWindowOrRecompute (us_disabledUntil s) now
               (now + resolveDisabledFailureBackoffMs r (or_else (jm_get counts' r) 1) cfg)),
             us_disabledReason := Some r\<rparr>
        else
          updated\<lparr>us_cooldownUntil := Some (keepActiveWindowOrRecompute (us_cooldownUntil s) now
               (now + calculateAuthProfileCooldownMs n)),
             us_cooldownReason := Some r, us_cooldownModel := next_cooldown_model s now r m\<rparr>)"
proof (cases "counters_reset s now cfg")
  case True
  then show ?thesis unfolding computeNextProfileUsageStats_def counters_def Let_def disabling_def
    by (simp only: if_True fst_conv snd_conv)
next
  case False
  then show ?thesis unfolding computeNextProfileUsageStats_def counters_def Let_def disabling_def
    by (simp only: if_False fst_conv snd_conv)
qed

lemma counters_clear: "counters (snd (clear_expired_entry now s)) now cfg = counters s now cfg"
proof (cases "fst (clear_expired_entry now s)")
  case mut: True
  define c where "c = snd (clear_expired_entry now s)"
  have last: "us_lastFailureAt c = us_lastFailureAt s" by (simp add: c_def clear_expired_entry_def Let_def)
  have exp: "resolveProfileUnusableUntil s \<noteq> None"
    using mut unfolding no_window_iff
    by (auto simp: clear_expired_entry_def Let_def window_expired_def given_def not_le split: option.splits)
  show ?thesis
  proof (cases "unusable_at s now")
    case True
    then have "c = strip_expired now s" by (simp add: c_def clear_entry_unusable_now)
    then have "us_errorCount c = us_errorCount s" "us_failureCounts c = us_failureCounts s"
      by (simp_all add: strip_expired_def Let_def)
    moreover have "unusable_at c now" using True clear_entry_unusable [of now now s] by (simp add: c_def)
    ultimately have "counters c now cfg = counters s now cfg" using True last
      by (simp add: counters_def counters_reset_def windows_over_iff)
    then show ?thesis by (simp add: c_def)
  next
    case False
    then have "counters_reset s now cfg" using exp by (simp add: counters_reset_def windows_over_iff)
    moreover have "us_errorCount c = Some 0" "us_failureCounts c = None"
      using mut False by (simp_all add: c_def clear_entry_strip)
    ultimately have "counters c now cfg = counters s now cfg" by (simp add: counters_def)
    then show ?thesis by (simp add: c_def)
  qed
next
  case False
  then have "snd (clear_expired_entry now s) = s"
    by (simp add: clear_expired_entry_def Let_def)
  then show ?thesis by simp
qed

lemma keep_clear:
  "keepActiveWindowOrRecompute (us_cooldownUntil (snd (clear_expired_entry now s))) now x = keepActiveWindowOrRecompute (us_cooldownUntil s) now x"
  "keepActiveWindowOrRecompute (us_disabledUntil (snd (clear_expired_entry now s))) now x = keepActiveWindowOrRecompute (us_disabledUntil s) now x"
  by (auto simp: clear_entry_until keepActiveWindowOrRecompute_def window_expired_def split: option.splits)

lemma next_model_clear: "next_cooldown_model (snd (clear_expired_entry now s)) now r m = next_cooldown_model s now r m"
proof (cases "window_expired (us_cooldownUntil s) now")
  case True
  then show ?thesis
    by (auto simp: next_cooldown_model_def Let_def clear_entry_until window_expired_def split: option.splits)
next
  case False
  then have "us_cooldownModel (snd (clear_expired_entry now s)) = us_cooldownModel s"
    by (simp add: clear_expired_entry_def Let_def)
  then show ?thesis using False by (simp add: next_cooldown_model_def Let_def clear_entry_until)
qed

lemma keep_active: "0 < d \<Longrightarrow> 0 \<le> now \<Longrightarrow>
    now < keepActiveWindowOrRecompute u now (now + d) \<and> 0 < keepActiveWindowOrRecompute u now (now + d)"
  by (auto simp: keepActiveWindowOrRecompute_def split: option.splits)

lemma backoff_pos: "0 < calculateAuthProfileCooldownMs n" "0 < resolveDisabledFailureBackoffMs r n cfg"
  using cooldown_bounds [of n] disabled_bounds [of r n cfg] by linarith+

lemma compute_unusable: "0 \<le> now \<Longrightarrow> unusable_at (computeNextProfileUsageStats s now r cfg m) now"
  unfolding compute_counters unusable_at_iff
  by (simp add: Let_def isActiveUnusableWindow_def keep_active backoff_pos)

lemma strip_compute:
  assumes now: "0 \<le> now"
  shows "strip_expired now (computeNextProfileUsageStats (snd (clear_expired_entry now s)) now r cfg m)
       = strip_expired now (computeNextProfileUsageStats s now r cfg m)"
proof -
  define c where "c = snd (clear_expired_entry now s)"
  obtain n counts where cnt: "counters s now cfg = (n, counts)" by fastforce
  have c: "\<exists>e f. c = (strip_expired now s)\<lparr>us_errorCount := e, us_failureCounts := f\<rparr>"
  proof -
    have "strip_expired now s = (strip_expired now s)\<lparr>us_errorCount := us_errorCount (strip_expired now s),
       us_failureCounts := us_failureCounts (strip_expired now s)\<rparr>" by simp
    then show ?thesis unfolding c_def clear_entry_strip by metis
  qed
  then obtain e f where cf: "c = (strip_expired now s)\<lparr>us_errorCount := e, us_failureCounts := f\<rparr>" by blast
  note same = counters_clear [of now s cfg, folded c_def] keep_clear [of now s, folded c_def]
    next_model_clear [of now s r m, folded c_def]
  have live: "\<not> window_expired (Some (keepActiveWindowOrRecompute u now (now + d))) now" if "0 < d" for u d
    using keep_active [OF that now, of u] by (simp add: window_expired_def)
  show ?thesis
  proof (cases "disabling r")
    case True
    show ?thesis unfolding c_def [symmetric] compute_counters same cnt unfolding cf
      by (cases "window_expired (us_cooldownUntil s) now"; cases "window_expired (us_blockedUntil s) now";
          cases "window_expired (us_disabledUntil s) now")
        (simp_all add: strip_expired_def Let_def True live [OF backoff_pos(2)] window_expired_def [of None])
  next
    case False
    show ?thesis unfolding c_def [symmetric] compute_counters same cnt unfolding cf
      by (cases "window_expired (us_cooldownUntil s) now"; cases "window_expired (us_blockedUntil s) now";
          cases "window_expired (us_disabledUntil s) now")
        (simp_all add: strip_expired_def Let_def False live [OF backoff_pos(1)] window_expired_def [of None])
  qed
qed

lemma jm_get_map_snd: "jm_get (map (\<lambda>e. (fst e, f (snd e))) m) k = map_option f (jm_get m k)"
  by (induction m) auto

text \<open>Clearing expired windows in memory and leaving them on disk come to the same. A store whose expired
  windows have been cleared has the same profiles in cooldown, now and later; and the next failure, whether it is
  computed on the cleared or on the stale entry, gives the same entry once expired windows are cleared again.\<close>

lemma clearing_is_transparent:
  assumes "ts \<le> t" "0 \<le> t"
  shows "isProfileInCooldown (snd (clearExpiredCooldowns store ts)) i t None = isProfileInCooldown store i t None \<and>
    snd (clear_expired_entry t (computeNextProfileUsageStats (snd (clear_expired_entry t s)) t r cfg m))
      = snd (clear_expired_entry t (computeNextProfileUsageStats s t r cfg m))"
proof
  have "provider_of (snd (clearExpiredCooldowns store ts)) i = provider_of store i"
    by (simp add: provider_of_def clearExpiredCooldowns_def split: option.splits)
  moreover have "stats_of (snd (clearExpiredCooldowns store ts)) i
      = map_option (\<lambda>s. snd (clear_expired_entry ts s)) (stats_of store i)"
    by (auto simp: stats_of_def clearExpiredCooldowns_def jm_get_map_snd [where f = "\<lambda>s. snd (clear_expired_entry ts s)"] split: option.splits)
  moreover have "\<not> shouldBypassModelScopedCooldown s t None" for s
    by (simp add: shouldBypassModelScopedCooldown_def present_def)
  ultimately show "isProfileInCooldown (snd (clearExpiredCooldowns store ts)) i t None = isProfileInCooldown store i t None"
    using clear_entry_unusable [OF assms(1)] by (simp add: isProfileInCooldown_stats split: option.splits)
  show "snd (clear_expired_entry t (computeNextProfileUsageStats (snd (clear_expired_entry t s)) t r cfg m))
      = snd (clear_expired_entry t (computeNextProfileUsageStats s t r cfg m))"
    using strip_compute [OF assms(2)] compute_unusable [OF assms(2)] by (simp add: clear_entry_unusable_now)
qed

definition stale_stats :: ProfileUsageStats where
  "stale_stats = no_stats\<lparr>us_cooldownUntil := Some 1000, us_cooldownReason := Some FR_timeout, us_errorCount := Some 3\<rparr>"

definition stale_store :: AuthProfileStore where
  "stale_store = \<lparr>as_profiles = [(''p'', ApiKeyCredential ''openai'' (Some ''k'') None)], as_order = None,
     as_lastGood = None, as_usageStats = Some [(''p'', stale_stats)]\<rparr>"

lemma clearing_is_transparent_witness:
  "isProfileInCooldown (snd (clearExpiredCooldowns stale_store 2000)) ''p'' 3000 None = isProfileInCooldown stale_store ''p'' 3000 None \<and>
    snd (clear_expired_entry 3000 (computeNextProfileUsageStats (snd (clear_expired_entry 3000 stale_stats)) 3000 FR_timeout
        (resolveAuthCooldownConfig None ''openai'') None))
      = snd (clear_expired_entry 3000 (computeNextProfileUsageStats stale_stats 3000 FR_timeout
        (resolveAuthCooldownConfig None ''openai'') None))"
  by (rule clearing_is_transparent) simp_all

section \<open>The reported reason\<close>

definition reason_weight :: "rat \<Rightarrow> ProfileUsageStats \<Rightarrow> AuthProfileFailureReason \<Rightarrow> int" where
  "reason_weight now stats r =
    (if isActiveUnusableWindow (us_disabledUntil stats) now \<and> us_disabledReason stats \<noteq> None \<and>
        the (us_disabledReason stats) \<in> set FAILURE_REASON_PRIORITY
     then if us_disabledReason stats = Some r then 1000 else 0
     else if isActiveUnusableWindow (us_blockedUntil stats) now then if r = FR_rate_limit then 1000 else 0
     else if \<not> isActiveUnusableWindow (us_cooldownUntil stats) now then 0
     else if filter counted_reason (or_else (us_failureCounts stats) []) = [] then if r = FR_unknown then 1 else 0
     else sum_list (map snd (filter (\<lambda>e. counted_reason e \<and> fst e = r) (or_else (us_failureCounts stats) []))))"

definition total_weight :: "AuthProfileStore \<Rightarrow> string list \<Rightarrow> rat \<Rightarrow> AuthProfileFailureReason \<Rightarrow> int" where
  "total_weight store ids now r =
    sum_list (map (\<lambda>i. case stats_of store i of None \<Rightarrow> 0 | Some stats \<Rightarrow> reason_weight now stats r) ids)"

definition scores_ok :: "Scores \<Rightarrow> bool" where
  "scores_ok scores \<longleftrightarrow> (\<forall>r v. jm_get scores r = Some v \<longrightarrow> 0 < v \<and> r \<in> set FAILURE_REASON_PRIORITY)"

definition score_of :: "Scores \<Rightarrow> AuthProfileFailureReason \<Rightarrow> int" where
  "score_of scores r = or_else (jm_get scores r) 0"

lemma scores_ok_ge: "scores_ok scores \<Longrightarrow> 0 \<le> score_of scores r"
  by (cases "jm_get scores r") (auto simp: scores_ok_def score_of_def less_imp_le)

lemma add_score_ok: "scores_ok scores \<Longrightarrow> scores_ok (add_score q v scores)"
  using scores_ok_ge [of scores q] by (auto simp: scores_ok_def add_score_def score_of_def)

lemma score_of_add:
  "score_of (add_score q v scores) r =
     score_of scores r + (if r = q \<and> q \<in> set FAILURE_REASON_PRIORITY \<and> 0 < v then v else 0)"
  by (auto simp: score_of_def add_score_def)

lemma fold_add_score:
  assumes "list_all counted_reason es" "scores_ok scores"
  shows "scores_ok (fold (\<lambda>e. add_score (fst e) (snd e)) es scores) \<and>
    score_of (fold (\<lambda>e. add_score (fst e) (snd e)) es scores) r =
      score_of scores r + sum_list (map snd (filter (\<lambda>e. fst e = r) es))"
  using assms
proof (induction es arbitrary: scores)
  case (Cons e es)
  then show ?case using add_score_ok [OF Cons.prems(2), of "fst e" "snd e"]
    by (auto simp: score_of_add counted_reason_def)
qed simp

lemma score_profile_ok:
  assumes "scores_ok scores"
  shows "scores_ok (score_profile now stats scores) \<and>
    (r \<in> set FAILURE_REASON_PRIORITY \<longrightarrow>
      score_of (score_profile now stats scores) r = score_of scores r + reason_weight now stats r)"
proof -
  have prio: "FR_rate_limit \<in> set FAILURE_REASON_PRIORITY" "FR_unknown \<in> set FAILURE_REASON_PRIORITY"
    by (simp_all add: FAILURE_REASON_PRIORITY_def)
  have all: "list_all counted_reason (filter counted_reason es)" for es by (simp add: list_all_iff)
  note step = add_score_ok [OF assms] score_of_add prio
  show ?thesis
  proof (cases "isActiveUnusableWindow (us_disabledUntil stats) now \<and> us_disabledReason stats \<noteq> None \<and>
        the (us_disabledReason stats) \<in> set FAILURE_REASON_PRIORITY")
    case True
    then show ?thesis using step by (auto simp: score_profile_def reason_weight_def)
  next
    case no: False
    then have none: "(case us_disabledReason stats of
             Some r \<Rightarrow> if isActiveUnusableWindow (us_disabledUntil stats) now \<and> r \<in> set FAILURE_REASON_PRIORITY then Some r else None
           | None \<Rightarrow> None) = None"
      by (auto split: option.splits)
    show ?thesis
      unfolding score_profile_def Let_def none reason_weight_def if_not_P [OF no]
      using step fold_add_score [OF all assms, of "or_else (us_failureCounts stats) []" r] assms
      by (auto simp: filter_filter)
  qed
qed

lemma fold_profiles_ok:
  assumes "scores_ok scores"
  shows "scores_ok (fold (\<lambda>i sc. case stats_of store i of None \<Rightarrow> sc | Some stats \<Rightarrow> score_profile now stats sc) ids scores) \<and>
    (r \<in> set FAILURE_REASON_PRIORITY \<longrightarrow>
      score_of (fold (\<lambda>i sc. case stats_of store i of None \<Rightarrow> sc | Some stats \<Rightarrow> score_profile now stats sc) ids scores) r
        = score_of scores r + total_weight store ids now r)"
  using assms
proof (induction ids arbitrary: scores)
  case Nil
  then show ?case by (simp add: total_weight_def)
next
  case (Cons i ids)
  define sc where "sc = (case stats_of store i of None \<Rightarrow> scores | Some stats \<Rightarrow> score_profile now stats scores)"
  have "scores_ok sc \<and> (r \<in> set FAILURE_REASON_PRIORITY \<longrightarrow> score_of sc r = score_of scores r +
      (case stats_of store i of None \<Rightarrow> 0 | Some stats \<Rightarrow> reason_weight now stats r))"
    using score_profile_ok [OF Cons.prems, of now _ r] Cons.prems by (auto simp: sc_def split: option.splits)
  then show ?case using Cons.IH [of sc] by (simp add: sc_def [symmetric] total_weight_def)
qed

lemma fold_better_reason:
  assumes ok: "scores_ok scores" and prio: "bs \<noteq> -1 \<Longrightarrow> bp < int n" and bs: "bs = -1 \<or> 0 < bs"
  shows "fst (fold (better_reason scores) (List.enumerate n rs) (b, bs, bp)) =
    (if list_all (\<lambda>q. score_of scores q \<le> max bs 0) rs then b
     else find (\<lambda>r. list_all (\<lambda>q. score_of scores q \<le> score_of scores r) rs) rs)"
  using prio bs
proof (induction rs arbitrary: n b bs bp)
  case (Cons x rs)
  let ?v = "score_of scores"
  show ?case
  proof (cases "max bs 0 < ?v x")
    case True
    then have "jm_get scores x = Some (?v x)" by (auto simp: score_of_def split: option.splits) (metis less_irrefl or_else_simps(1) or_else_simps(2) option.exhaust)
    then have "better_reason scores (n, x) (b, bs, bp) = (Some x, ?v x, int n)"
      using True by (simp add: better_reason_def)
    then have fold: "fst (fold (better_reason scores) (List.enumerate n (x # rs)) (b, bs, bp)) =
       (if list_all (\<lambda>q. ?v q \<le> ?v x) rs then Some x else find (\<lambda>r. list_all (\<lambda>q. ?v q \<le> ?v r) rs) rs)"
      using Cons.IH [of "?v x" "int n" "Suc n" "Some x"] True by simp
    have "find (\<lambda>r. list_all (\<lambda>q. ?v q \<le> ?v r) rs) rs = find (\<lambda>r. list_all (\<lambda>q. ?v q \<le> ?v r) (x # rs)) rs"
      if "\<not> list_all (\<lambda>q. ?v q \<le> ?v x) rs"
      using that by (intro find_cong_on) (fastforce simp: list_all_iff)
    then show ?thesis using True unfolding fold by auto
  next
    case False
    have "better_reason scores (n, x) (b, bs, bp) = (b, bs, bp)"
    proof (cases "jm_get scores x")
      case (Some v)
      then have "0 < v" "v \<le> max bs 0" using ok False by (auto simp: scores_ok_def score_of_def)
      then show ?thesis using Some Cons.prems by (auto simp: better_reason_def)
    qed (simp add: better_reason_def)
    then have fold: "fst (fold (better_reason scores) (List.enumerate n (x # rs)) (b, bs, bp)) =
       (if list_all (\<lambda>q. ?v q \<le> max bs 0) rs then b else find (\<lambda>r. list_all (\<lambda>q. ?v q \<le> ?v r) rs) rs)"
      using Cons.IH [of bs bp "Suc n" b] Cons.prems by fastforce
    have "find (\<lambda>r. list_all (\<lambda>q. ?v q \<le> ?v r) rs) rs = find (\<lambda>r. list_all (\<lambda>q. ?v q \<le> ?v r) (x # rs)) (x # rs)"
      if "\<not> list_all (\<lambda>q. ?v q \<le> max bs 0) rs"
    proof -
      from that obtain q where q: "q \<in> set rs" "max bs 0 < ?v q" by (auto simp: list_all_iff not_le)
      have "?v x < ?v q" using q(2) False by linarith
      then have "\<not> list_all (\<lambda>q. ?v q \<le> ?v x) (x # rs)" using q(1) by (auto simp: list_all_iff not_le)
      moreover have "find (\<lambda>r. list_all (\<lambda>q. ?v q \<le> ?v r) rs) rs = find (\<lambda>r. list_all (\<lambda>q. ?v q \<le> ?v r) (x # rs)) rs"
        using q(1) \<open>?v x < ?v q\<close> by (intro find_cong_on) (fastforce simp: list_all_iff)
      ultimately show ?thesis by simp
    qed
    then show ?thesis using False unfolding fold by auto
  qed
qed simp

text \<open>The reason that is reported. When no profile is available, the reason is the one with the greatest
  weight over all profiles, the first of the priority list among equals; there is none exactly if no
  reason of the list has any weight.\<close>

lemma unavailable_reason_is_heaviest:
  "resolveProfilesUnavailableReason store ids now =
    (if list_all (\<lambda>r. total_weight store ids now r = 0) FAILURE_REASON_PRIORITY then None
     else find (\<lambda>r. list_all (\<lambda>q. total_weight store ids now q \<le> total_weight store ids now r) FAILURE_REASON_PRIORITY)
            FAILURE_REASON_PRIORITY)"
proof -
  define scores where
    "scores = fold (\<lambda>i sc. case stats_of store i of None \<Rightarrow> sc | Some stats \<Rightarrow> score_profile now stats sc) ids []"
  let ?P = FAILURE_REASON_PRIORITY
  have ok: "scores_ok scores" and tot: "r \<in> set ?P \<Longrightarrow> score_of scores r = total_weight store ids now r" for r
    using fold_profiles_ok [where scores = "[]" and store = store and now = now and ids = ids and r = r] by (auto simp: scores_def scores_ok_def score_of_def)
  have empty: "scores = [] \<longleftrightarrow> list_all (\<lambda>r. score_of scores r = 0) ?P"
  proof (cases scores)
    case (Cons e es)
    then have "jm_get scores (fst e) = Some (snd e)" by (cases e) simp
    then have "score_of scores (fst e) \<noteq> 0" "fst e \<in> set ?P" using ok unfolding scores_ok_def score_of_def by fastforce+
    then show ?thesis using Cons by (auto simp: list_all_iff)
  qed (simp add: score_of_def list_all_iff)
  have zero: "list_all (\<lambda>q. score_of scores q \<le> max (- 1) 0) ?P \<longleftrightarrow> list_all (\<lambda>r. score_of scores r = 0) ?P"
    using scores_ok_ge [OF ok] by (auto simp: list_all_iff intro: antisym)
  have "resolveProfilesUnavailableReason store ids now =
    (if list_all (\<lambda>r. score_of scores r = 0) ?P then None
     else find (\<lambda>r. list_all (\<lambda>q. score_of scores q \<le> score_of scores r) ?P) ?P)"
    using fold_better_reason [OF ok, of "-1" MAX_SAFE_INTEGER 0 ?P None] zero empty
    by (simp add: resolveProfilesUnavailableReason_def scores_def [symmetric])
  moreover have "find (\<lambda>r. list_all (\<lambda>q. score_of scores q \<le> score_of scores r) ?P) ?P =
      find (\<lambda>r. list_all (\<lambda>q. total_weight store ids now q \<le> total_weight store ids now r) ?P) ?P"
    using tot by (intro find_cong_on) (auto simp: list_all_iff)
  moreover have "list_all (\<lambda>r. score_of scores r = 0) ?P \<longleftrightarrow> list_all (\<lambda>r. total_weight store ids now r = 0) ?P"
    using tot by (simp add: list_all_iff)
  ultimately show ?thesis by simp
qed

section \<open>Marking a failure\<close>

lemma compute_not_bypassed:
  "0 \<le> now \<Longrightarrow> \<not> shouldBypassModelScopedCooldown (computeNextProfileUsageStats s now r cfg m) now m"
  unfolding compute_counters
  by (auto simp: Let_def shouldBypassModelScopedCooldown_def isActiveUnusableWindow_def keep_active backoff_pos
      next_cooldown_model_def present_def split: if_splits option.splits)

lemma probe_cooldown_pos: "probeWhamForCooldown store i response = Some w \<Longrightarrow> 0 < wp_cooldownMs w"
  by (auto simp: probeWhamForCooldown_def Let_def wham_cooldown_def wham_blocked_def WHAM_BURST_COOLDOWN_MS_def
      WHAM_PROBE_FAILURE_COOLDOWN_MS_def WHAM_HTTP_ERROR_COOLDOWN_MS_def WHAM_TOKEN_EXPIRED_COOLDOWN_MS_def
      WHAM_DEAD_ACCOUNT_COOLDOWN_MS_def split: option.splits AuthProfileCredential.splits wham_response.splits if_splits)

definition block_is_open :: "WhamCooldownProbeResult option \<Rightarrow> rat \<Rightarrow> bool" where
  "block_is_open w now = (case Option.bind w wp_blockedUntil of None \<Rightarrow> True | Some b \<Rightarrow> now < b)"

lemma wham_result_unusable:
  assumes now: "0 \<le> now" and pos: "0 < wp_cooldownMs w" and open_: "block_is_open (Some w) now"
  shows "unusable_at (applyWhamCooldownResult s (computeNextProfileUsageStats s now r cfg m) now w) now \<and>
    \<not> shouldBypassModelScopedCooldown (applyWhamCooldownResult s (computeNextProfileUsageStats s now r cfg m) now w) now m"
proof (cases "wp_blockedUntil w")
  case None
  then show ?thesis using now pos compute_not_bypassed [OF now, of s r cfg m]
    by (auto simp: applyWhamCooldownResult_def Let_def unusable_at_iff isActiveUnusableWindow_def
        shouldBypassModelScopedCooldown_def less_max_iff_disj)
next
  case (Some b)
  then have "now < b" "b \<noteq> 0" using open_ now by (auto simp: block_is_open_def)
  then show ?thesis using Some now
    by (auto simp: applyWhamCooldownResult_def Let_def unusable_at_iff isActiveUnusableWindow_def
        shouldBypassModelScopedCooldown_def less_max_iff_disj)
qed

lemma next_failure_unusable:
  assumes now: "0 \<le> now" and w: "\<And>x. w = Some x \<Longrightarrow> 0 < wp_cooldownMs x" and open_: "block_is_open w now"
  shows "unusable_at (next_failure_stats cfg r m w p now prev) now \<and>
    \<not> shouldBypassModelScopedCooldown (next_failure_stats cfg r m w p now prev) now m"
  using compute_unusable [OF now] compute_not_bypassed [OF now] wham_result_unusable [OF now] w open_
  by (auto simp: next_failure_stats_def Let_def split: option.splits)

lemma stats_of_update:
  "stats_of (updateUsageStatsEntry s i u) j = (if j = i then Some (u (stats_of s i)) else stats_of s j)"
  by (cases "as_usageStats s") (auto simp: stats_of_def updateUsageStatsEntry_def Let_def)

lemma provider_of_update [simp]: "provider_of (updateUsageStatsEntry s i u) j = provider_of s j"
  by (simp add: provider_of_def updateUsageStatsEntry_def Let_def)

lemma stats_of_table: "as_usageStats s = as_usageStats s' \<Longrightarrow> stats_of s i = stats_of s' i"
  by (simp add: stats_of_def)

text \<open>The store whose statistics a locked update works on.\<close>

definition update_base :: "lock_outcome \<Rightarrow> AuthProfileStore \<Rightarrow> AuthProfileStore" where
  "update_base lock store = (case lock of Locked fresh True \<Rightarrow> fresh | _ \<Rightarrow> store)"

definition still_on_disk :: "lock_outcome \<Rightarrow> string \<Rightarrow> string \<Rightarrow> bool" where
  "still_on_disk lock i p = (case lock of LockFailed \<Rightarrow> True | Locked fresh _ \<Rightarrow> provider_of fresh i = Some p)"

lemma failure_effect:
  assumes p: "provider_of store i = Some p" and np: "\<not> isAuthCooldownBypassedForProvider (Some p)"
    and disk: "still_on_disk lock i p"
    and e_def: "e = markAuthProfileFailure store i r cfg m response lock now"
    and w_def: "w = (if shouldProbeWhamForFailure (Some p) r then probeWhamForCooldown store i response else None)"
  shows "provider_of (se_memory e) j = provider_of store j \<and>
    stats_of (se_memory e) j = (if j = i then Some (next_failure_stats cfg r m w p now (stats_of (update_base lock store) i))
       else stats_of (update_base lock store) j) \<and>
    map_option as_usageStats (se_written e) = Some (as_usageStats (se_memory e))"
proof (cases lock)
  case LockFailed
  then show ?thesis using p np
    by (simp add: e_def w_def markAuthProfileFailure_def Let_def updateAuthProfileStoreWithLock_def stats_of_update update_base_def)
next
  case (Locked fresh saves)
  have f: "provider_of fresh i = Some p" using disk Locked by (simp add: still_on_disk_def)
  have mem: "provider_of (store\<lparr>as_usageStats := u\<rparr>) j = provider_of store j" for u by (simp add: provider_of_def)
  have tab: "stats_of (store\<lparr>as_usageStats := as_usageStats t\<rparr>) j = stats_of t j" for t by (simp add: stats_of_def)
  show ?thesis using p np f Locked
    by (cases saves) (simp_all add: e_def w_def markAuthProfileFailure_def Let_def updateAuthProfileStoreWithLock_def
        stats_of_update update_base_def mem tab)
qed

text \<open>C20: a failed profile is out. After a failure has been recorded, with the store's file or, when it can
  not be locked or written, in memory, the profile is in cooldown for the model that failed, every other
  profile has the statistics of the store that was updated, and what is written is what is in memory; only a
  usage limit that the service reports as over already leaves the profile in use.\<close>

theorem failure_takes_profile_out:
  assumes "provider_of store i = Some p" "\<not> isAuthCooldownBypassedForProvider (Some p)" "still_on_disk lock i p"
    and "0 \<le> now" "block_is_open (probeWhamForCooldown store i response) now"
  shows "isProfileInCooldown (se_memory (markAuthProfileFailure store i r cfg m response lock now)) i now m \<and>
    (j = i \<or> stats_of (se_memory (markAuthProfileFailure store i r cfg m response lock now)) j
       = stats_of (update_base lock store) j) \<and>
    map_option as_usageStats (se_written (markAuthProfileFailure store i r cfg m response lock now))
      = Some (as_usageStats (se_memory (markAuthProfileFailure store i r cfg m response lock now)))"
proof -
  define w where "w = (if shouldProbeWhamForFailure (Some p) r then probeWhamForCooldown store i response else None)"
  have "block_is_open w now" using assms(5) by (simp add: w_def block_is_open_def)
  moreover have "\<And>x. w = Some x \<Longrightarrow> 0 < wp_cooldownMs x"
    using probe_cooldown_pos by (auto simp: w_def split: if_splits)
  ultimately have out: "unusable_at (next_failure_stats cfg r m w p now prev) now"
    "\<not> shouldBypassModelScopedCooldown (next_failure_stats cfg r m w p now prev) now m" for prev
    using next_failure_unusable [OF assms(4)] by blast+
  note eff = failure_effect [OF assms(1-3) refl w_def, of cfg m now]
  show ?thesis
    using eff [of i] eff [of j] out assms(1,2) unfolding isProfileInCooldown_stats by simp
qed

definition codex_store :: AuthProfileStore where
  "codex_store = \<lparr>as_profiles = [(''c'', OAuthCredential ''openai-codex'' (Some ''t'') None None None)], as_order = None,
     as_lastGood = None, as_usageStats = None\<rparr>"

theorem failure_takes_profile_out_witness:
  "isProfileInCooldown (se_memory (markAuthProfileFailure codex_store ''c'' FR_rate_limit None (Some ''m'') (WhamStatus 401)
      (Locked codex_store True) 1000)) ''c'' 1000 (Some ''m'') \<and>
    (''d'' = ''c'' \<or> stats_of (se_memory (markAuthProfileFailure codex_store ''c'' FR_rate_limit None (Some ''m'') (WhamStatus 401)
      (Locked codex_store True) 1000)) ''d'' = stats_of (update_base (Locked codex_store True) codex_store) ''d'') \<and>
    map_option as_usageStats (se_written (markAuthProfileFailure codex_store ''c'' FR_rate_limit None (Some ''m'') (WhamStatus 401)
      (Locked codex_store True) 1000))
      = Some (as_usageStats (se_memory (markAuthProfileFailure codex_store ''c'' FR_rate_limit None (Some ''m'') (WhamStatus 401)
      (Locked codex_store True) 1000)))"
proof (rule failure_takes_profile_out)
  show "provider_of codex_store ''c'' = Some ''openai-codex''" by code_simp
  show "\<not> isAuthCooldownBypassedForProvider (Some ''openai-codex'')" by code_simp
  show "still_on_disk (Locked codex_store True) ''c'' ''openai-codex''" by code_simp
  show "block_is_open (probeWhamForCooldown codex_store ''c'' (WhamStatus 401)) 1000" by code_simp
qed simp

text \<open>A usage limit whose reported reset lies in the past: the profile that has just failed stays in use.\<close>

definition late_answer :: wham_response where
  "late_answer = WhamBody 5000 (Some \<lparr>wr_limit_reached = Some True,
     wr_primary_window = Some \<lparr>ww_used_percent = Some (Fin 100), ww_reset_at = Some (Fin 4), ww_reset_after_seconds = None\<rparr>,
     wr_secondary_window = None\<rparr>)"

lemma ended_limit_leaves_profile_in_use:
  "\<not> isProfileInCooldown (se_memory (markAuthProfileFailure codex_store ''c'' FR_rate_limit None (Some ''m'') late_answer
      (Locked codex_store True) 5000)) ''c'' 5000 (Some ''m'')"
  by code_simp

text \<open>A block of the whole profile, followed by a rate limit of one model whose usage could not be read:
  another model may use the blocked profile.\<close>

lemma block_bypassed_by_other_model:
  "(let blocked = se_memory (markAuthProfileBlockedUntil codex_store ''c'' (Fin 9000000) BS_codex_rate_limits None LockFailed 1000 1000);
        failed = se_memory (markAuthProfileFailure blocked ''c'' FR_rate_limit None (Some ''m'') WhamThrows LockFailed 2000)
    in isProfileInCooldown failed ''c'' 3000 (Some ''m'') \<and> \<not> isProfileInCooldown failed ''c'' 3000 (Some ''other'') \<and>
       isProfileInCooldown blocked ''c'' 3000 (Some ''other''))"
  by code_simp

end
