(* ===== verification/AuthOrder.thy ===== *)
theory AuthOrder
  imports AuthUsage
begin

text \<open>
  Which credentials may serve a provider and in which order they are tried
  (src/src/agents/auth-profiles/credential-state.ts, profile-list.ts, order.ts), and the operations on
  the stored profiles (profiles.ts). The order is computed without awaiting, so one reading of the
  clock stands for all of them. Keys of the profile tables are not array indices, so the tables are
  listed in the order in which their entries were made.
\<close>

section \<open>Secrets\<close>

type_synonym SecretRef = "SecretRefSource \<times> string \<times> string"

definition is_upper_char :: "char \<Rightarrow> bool" where
  "is_upper_char c \<longleftrightarrow> (let n = of_char c :: nat in 65 \<le> n \<and> n \<le> 90)"

definition is_env_char :: "char \<Rightarrow> bool" where
  "is_env_char c \<longleftrightarrow> is_upper_char c \<or> (let n = of_char c :: nat in 48 \<le> n \<and> n \<le> 57) \<or> c = CHR ''_''"

definition isValidEnvSecretRefId :: "string \<Rightarrow> bool" where
  "isValidEnvSecretRefId v = (case v of [] \<Rightarrow> False
     | c # cs \<Rightarrow> is_upper_char c \<and> length cs \<le> 127 \<and> list_all is_env_char cs)"

definition parseEnvTemplateSecretRef :: "string \<Rightarrow> SecretRef option" where
  "parseEnvTemplateSecretRef v =
    (let t = js_trim v;
         template = (if starts_with t ''${'' \<and> ends_with t ''}'' \<and> isValidEnvSecretRefId (butlast (drop 2 t))
                     then Some (butlast (drop 2 t)) else None);
         shorthand = (if starts_with t ''$'' \<and> isValidEnvSecretRefId (drop 1 t) then Some (drop 1 t) else None)
     in map_option (\<lambda>i. (EnvSource, ''default'', i)) (or_opt template shorthand))"

definition parseLegacySecretRefEnvMarker :: "string \<Rightarrow> SecretRef option" where
  "parseLegacySecretRefEnvMarker v =
    (let t = js_trim v;
         prefix = (if starts_with t ''secretref-env:'' then ''secretref-env:''
                   else if starts_with t ''__env__:'' then ''__env__:'' else [])
     in if prefix = [] then None
        else if isValidEnvSecretRefId (drop (length prefix) t) then Some (EnvSource, ''default'', drop (length prefix) t)
        else None)"

definition coerceSecretRef :: "SecretInput option \<Rightarrow> SecretRef option" where
  "coerceSecretRef v =
    (case v of None \<Rightarrow> None
     | Some (SecretRefObj src (Some p) i) \<Rightarrow> if js_trim p \<noteq> [] \<and> js_trim i \<noteq> [] then Some (src, p, i) else None
     | Some (SecretRefObj src None i) \<Rightarrow> if js_trim i \<noteq> [] then Some (src, ''default'', i) else None
     | Some (SecretText t) \<Rightarrow> or_opt (parseLegacySecretRefEnvMarker t) (parseEnvTemplateSecretRef t))"

definition normalizeSecretInputString :: "string option \<Rightarrow> string option" where
  "normalizeSecretInputString v =
    (case v of None \<Rightarrow> None | Some s \<Rightarrow> if js_trim s = [] then None else Some (js_trim s))"

section \<open>Eligibility of a credential\<close>

datatype AuthCredentialReasonCode = RC_ok | RC_missing_credential | RC_invalid_expires | RC_expired | RC_unresolved_ref

datatype TokenExpiryState = TokenMissing | TokenValid | TokenExpiring | TokenExpired | TokenInvalid

definition resolveTokenExpiryState :: "expires_value option \<Rightarrow> rat \<Rightarrow> rat option \<Rightarrow> TokenExpiryState" where
  "resolveTokenExpiryState expires now expiringWithin =
    (case expires of
       None \<Rightarrow> TokenMissing
     | Some ExpiresOther \<Rightarrow> TokenInvalid
     | Some (ExpiresNumber (Fin e)) \<Rightarrow>
         if e \<le> 0 then TokenInvalid
         else if e - now \<le> 0 then TokenExpired
         else let w = max 0 (or_else expiringWithin 0) in
              if 0 < w \<and> e - now \<le> w then TokenExpiring else TokenValid
     | Some (ExpiresNumber _) \<Rightarrow> TokenInvalid)"

definition DEFAULT_OAUTH_REFRESH_MARGIN_MS :: rat where
  "DEFAULT_OAUTH_REFRESH_MARGIN_MS = 5 * 60 * 1000"

definition hasUsableOAuthCredential :: "AuthProfileCredential option \<Rightarrow> rat \<Rightarrow> rat option \<Rightarrow> bool" where
  "hasUsableOAuthCredential credential now refreshMarginMs =
    (case credential of
       Some (OAuthCredential _ (Some access) _ expires _) \<Rightarrow>
         js_trim access \<noteq> [] \<and>
         resolveTokenExpiryState expires now (Some (max 0 (or_else refreshMarginMs DEFAULT_OAUTH_REFRESH_MARGIN_MS))) = TokenValid
     | _ \<Rightarrow> False)"

definition evaluateStoredCredentialEligibility :: "AuthProfileCredential \<Rightarrow> rat \<Rightarrow> bool \<times> AuthCredentialReasonCode" where
  "evaluateStoredCredentialEligibility credential now =
    (case credential of
       ApiKeyCredential _ key keyRef \<Rightarrow>
         if normalizeSecretInputString key = None \<and> coerceSecretRef keyRef = None
         then (False, RC_missing_credential) else (True, RC_ok)
     | TokenCredential _ token tokenRef expires \<Rightarrow>
         if normalizeSecretInputString token = None \<and> coerceSecretRef tokenRef = None
         then (False, RC_missing_credential)
         else (case resolveTokenExpiryState expires now None of
                 TokenInvalid \<Rightarrow> (False, RC_invalid_expires)
               | TokenExpired \<Rightarrow> (False, RC_expired)
               | _ \<Rightarrow> (True, RC_ok))
     | OAuthCredential _ access refresh _ _ \<Rightarrow>
         if normalizeSecretInputString access = None \<and> normalizeSecretInputString refresh = None
         then (False, RC_missing_credential) else (True, RC_ok))"

section \<open>Profiles of a provider\<close>

datatype CredentialMode = ApiKeyMode | AwsSdkMode | OAuthMode | TokenMode

fun credential_type :: "AuthProfileCredential \<Rightarrow> CredentialMode" where
  "credential_type (ApiKeyCredential _ _ _) = ApiKeyMode"
| "credential_type (TokenCredential _ _ _ _) = TokenMode"
| "credential_type (OAuthCredential _ _ _ _ _) = OAuthMode"

record AuthProfileConfig =
  pc_provider :: string
  pc_mode :: CredentialMode

text \<open>What the order reads of the configuration: \<open>auth.profiles\<close>, \<open>auth.order\<close> and the \<open>auth\<close> setting of
  \<open>models.providers\<close>.\<close>

record AuthOrderConfig =
  oc_profiles :: "(string, AuthProfileConfig) jsmap option"
  oc_order :: "(string, string list) jsmap option"
  oc_providers :: "(string, string option) jsmap option"

text \<open>The alias maps computed with and without the configuration.\<close>

record AuthAliases =
  aa_configured :: "(string, string) jsmap"
  aa_default :: "(string, string) jsmap"

definition dedupeProfileIds :: "string list \<Rightarrow> string list" where
  "dedupeProfileIds profileIds = uniq profileIds"

definition listProfilesForProvider :: "AuthAliases \<Rightarrow> AuthProfileStore \<Rightarrow> string \<Rightarrow> string list" where
  "listProfilesForProvider al store provider =
    map fst (filter (\<lambda>e. resolveProviderIdForAuth (aa_default al) (cred_provider (snd e))
                       = resolveProviderIdForAuth (aa_default al) provider) (as_profiles store))"

definition isOpenAIApiKeyCompatibleWithCodexAuth ::
  "AuthAliases \<Rightarrow> string \<Rightarrow> AuthProfileCredential option \<Rightarrow> string option \<Rightarrow> CredentialMode option \<Rightarrow> bool" where
  "isOpenAIApiKeyCompatibleWithCodexAuth al providerAuthKey credential profileProvider profileMode \<longleftrightarrow>
    (if providerAuthKey \<noteq> ''openai-codex'' then False
     else resolveProviderIdForAuth (aa_configured al) (or_else profileProvider []) = ''openai'' \<and>
          or_opt (map_option credential_type credential) profileMode = Some ApiKeyMode)"

definition isCredentialProviderCompatibleWithAuthProvider :: "AuthAliases \<Rightarrow> string \<Rightarrow> AuthProfileCredential \<Rightarrow> bool" where
  "isCredentialProviderCompatibleWithAuthProvider al providerAuthKey credential \<longleftrightarrow>
    resolveProviderIdForAuth (aa_configured al) (cred_provider credential) = providerAuthKey \<or>
    isOpenAIApiKeyCompatibleWithCodexAuth al providerAuthKey (Some credential) (Some (cred_provider credential)) None"

definition isStoredCredentialCompatibleWithAuthProvider :: "AuthAliases \<Rightarrow> string \<Rightarrow> AuthProfileCredential \<Rightarrow> bool" where
  "isStoredCredentialCompatibleWithAuthProvider al provider credential =
    isCredentialProviderCompatibleWithAuthProvider al (resolveProviderIdForAuth (aa_configured al) provider) credential"

definition isConfiguredProfileCompatibleWithAuthProvider ::
  "AuthAliases \<Rightarrow> string \<Rightarrow> string \<Rightarrow> CredentialMode option \<Rightarrow> AuthProfileCredential option \<Rightarrow> bool" where
  "isConfiguredProfileCompatibleWithAuthProvider al providerAuthKey provider mode credential \<longleftrightarrow>
    resolveProviderIdForAuth (aa_configured al) provider = providerAuthKey \<or>
    isOpenAIApiKeyCompatibleWithCodexAuth al providerAuthKey credential (Some provider) mode"

definition listProfilesCompatibleWithAuthProvider :: "AuthAliases \<Rightarrow> AuthProfileStore \<Rightarrow> string \<Rightarrow> string \<Rightarrow> string list" where
  "listProfilesCompatibleWithAuthProvider al store provider providerAuthKey =
    (if providerAuthKey \<noteq> ''openai-codex'' then listProfilesForProvider al store provider
     else map fst (filter (\<lambda>e. isCredentialProviderCompatibleWithAuthProvider al providerAuthKey (snd e)) (as_profiles store)))"

definition resolveProviderAuthMode :: "AuthOrderConfig option \<Rightarrow> string \<Rightarrow> string option" where
  "resolveProviderAuthMode cfg provider =
    Option.bind (findNormalizedProviderValue (Option.bind cfg oc_providers) provider) (\<lambda>auth. auth)"

definition providerAllowsAwsSdkAuth :: "AuthOrderConfig option \<Rightarrow> string \<Rightarrow> bool" where
  "providerAllowsAwsSdkAuth cfg provider \<longleftrightarrow>
    (let authMode = resolveProviderAuthMode cfg provider in
     authMode = Some ''aws-sdk'' \<or> (authMode = None \<and> normalizeProviderId provider = ''amazon-bedrock''))"

definition profile_config :: "AuthOrderConfig option \<Rightarrow> string \<Rightarrow> AuthProfileConfig option" where
  "profile_config cfg profileId = Option.bind (Option.bind cfg oc_profiles) (\<lambda>m. jm_get m profileId)"

definition isConfiguredAwsSdkAuthProfileForProvider :: "AuthAliases \<Rightarrow> AuthOrderConfig option \<Rightarrow> string \<Rightarrow> string \<Rightarrow> bool" where
  "isConfiguredAwsSdkAuthProfileForProvider al cfg provider profileId =
    (case profile_config cfg profileId of
       None \<Rightarrow> False
     | Some pc \<Rightarrow>
         if pc_mode pc \<noteq> AwsSdkMode then False
         else if resolveProviderIdForAuth (aa_configured al) (pc_provider pc) \<noteq> resolveProviderIdForAuth (aa_configured al) provider
         then False
         else providerAllowsAwsSdkAuth cfg provider)"

datatype AuthProfileEligibilityReasonCode =
  CredentialReason AuthCredentialReasonCode | ProfileMissing | ProviderMismatch | ModeMismatch

definition resolveAuthProfileEligibility ::
  "AuthAliases \<Rightarrow> AuthOrderConfig option \<Rightarrow> AuthProfileStore \<Rightarrow> string \<Rightarrow> string \<Rightarrow> rat \<Rightarrow> bool \<times> AuthProfileEligibilityReasonCode" where
  "resolveAuthProfileEligibility al cfg store provider profileId now =
    (let providerAuthKey = resolveProviderIdForAuth (aa_configured al) provider in
     case jm_get (as_profiles store) profileId of
       None \<Rightarrow>
         if isConfiguredAwsSdkAuthProfileForProvider al cfg provider profileId then (True, CredentialReason RC_ok)
         else (False, ProfileMissing)
     | Some cred \<Rightarrow>
         if \<not> isCredentialProviderCompatibleWithAuthProvider al providerAuthKey cred then (False, ProviderMismatch)
         else
           let verdict = map_prod id CredentialReason (evaluateStoredCredentialEligibility cred now) in
           (case profile_config cfg profileId of
              None \<Rightarrow> verdict
            | Some pc \<Rightarrow>
                if \<not> isConfiguredProfileCompatibleWithAuthProvider al providerAuthKey (pc_provider pc) (Some (pc_mode pc)) (Some cred)
                then (False, ProviderMismatch)
                else if pc_mode pc \<noteq> credential_type cred \<and> \<not> (pc_mode pc = OAuthMode \<and> credential_type cred = TokenMode)
                then (False, ModeMismatch)
                else verdict))"

section \<open>The order\<close>

definition resolveAuthOrder :: "(string, string list) jsmap option \<Rightarrow> string \<Rightarrow> string list option" where
  "resolveAuthOrder order provider = findNormalizedProviderValue order provider"

definition isNativeCredentialProviderCompatibleWithAuthProvider :: "AuthAliases \<Rightarrow> string \<Rightarrow> AuthProfileCredential option \<Rightarrow> bool" where
  "isNativeCredentialProviderCompatibleWithAuthProvider al providerAuthKey credential =
    (case credential of None \<Rightarrow> False
     | Some c \<Rightarrow> resolveProviderIdForAuth (aa_configured al) (cred_provider c) = providerAuthKey)"

definition mergeAliasOrderWithNativeProfiles :: "string list \<Rightarrow> string list \<Rightarrow> string list" where
  "mergeAliasOrderWithNativeProfiles aliasOrder nativeProfiles =
    (let aliasHasNativeProfile = list_ex (\<lambda>i. i \<in> set nativeProfiles) aliasOrder in
     dedupeProfileIds (if aliasHasNativeProfile then aliasOrder @ nativeProfiles else nativeProfiles @ aliasOrder))"

definition rat_cmp :: "rat \<Rightarrow> rat \<Rightarrow> int" where
  "rat_cmp a b = (if a < b then -1 else if a = b then 0 else 1)"

definition cooldown_until :: "AuthProfileStore \<Rightarrow> rat \<Rightarrow> string \<Rightarrow> rat" where
  "cooldown_until store now profileId =
    or_else (resolveProfileUnusableUntil (or_else (stats_of store profileId) no_stats)) now"

definition type_score :: "AuthProfileStore \<Rightarrow> string \<Rightarrow> int" where
  "type_score store profileId =
    (case map_option credential_type (jm_get (as_profiles store) profileId) of
       Some OAuthMode \<Rightarrow> 0 | Some TokenMode \<Rightarrow> 1 | Some ApiKeyMode \<Rightarrow> 2 | _ \<Rightarrow> 3)"

definition last_used :: "AuthProfileStore \<Rightarrow> string \<Rightarrow> rat" where
  "last_used store profileId = or_else (Option.bind (stats_of store profileId) us_lastUsed) 0"

definition round_robin_cmp :: "AuthProfileStore \<Rightarrow> string \<Rightarrow> string \<Rightarrow> int" where
  "round_robin_cmp store a b =
    (if type_score store a \<noteq> type_score store b then type_score store a - type_score store b
     else rat_cmp (last_used store a) (last_used store b))"

definition sort_by_cooldown :: "AuthProfileStore \<Rightarrow> rat \<Rightarrow> string list \<Rightarrow> string list" where
  "sort_by_cooldown store now ids = js_sort (\<lambda>a b. rat_cmp (cooldown_until store now a) (cooldown_until store now b)) ids"

definition orderProfilesByMode :: "string list \<Rightarrow> AuthProfileStore \<Rightarrow> rat \<Rightarrow> string list" where
  "orderProfilesByMode order store now =
    (let available = filter (\<lambda>i. \<not> isProfileInCooldown store i now None) order;
         inCooldown = filter (\<lambda>i. isProfileInCooldown store i now None) order
     in js_sort (round_robin_cmp store) available @ sort_by_cooldown store now inCooldown)"

definition put_first :: "string option \<Rightarrow> string list \<Rightarrow> string list" where
  "put_first preferred ids =
    (case preferred of None \<Rightarrow> ids
     | Some p \<Rightarrow> if p \<noteq> [] \<and> p \<in> set ids then p # filter (\<lambda>e. e \<noteq> p) ids else ids)"

text \<open>The orders that the store or the configuration gives: under the provider itself, or for Codex under
  \<open>openai\<close>, with the native profiles merged in.\<close>

definition explicit_order ::
  "AuthAliases \<Rightarrow> AuthOrderConfig option \<Rightarrow> AuthProfileStore \<Rightarrow> string \<Rightarrow> string list option" where
  "explicit_order al cfg store provider =
    (let providerKey = normalizeProviderId provider;
         providerAuthKey = resolveProviderIdForAuth (aa_configured al) provider;
         aliased = (providerAuthKey = ''openai-codex'' \<or> providerKey = ''openai-codex'');
         cfgOrder = Option.bind cfg oc_order;
         directStoredOrder = or_opt (resolveAuthOrder (as_order store) providerAuthKey) (resolveAuthOrder (as_order store) providerKey);
         aliasStoredOrder = (if aliased then resolveAuthOrder (as_order store) ''openai'' else None);
         directConfiguredOrder = or_opt (resolveAuthOrder cfgOrder providerAuthKey) (resolveAuthOrder cfgOrder providerKey);
         aliasConfiguredOrder = (if aliased then resolveAuthOrder cfgOrder ''openai'' else None);
         nativeStoreProfiles = (if aliased \<and> providerAuthKey = ''openai-codex''
           then filter (\<lambda>i. isNativeCredentialProviderCompatibleWithAuthProvider al providerAuthKey (jm_get (as_profiles store) i))
                  (listProfilesCompatibleWithAuthProvider al store provider providerAuthKey)
           else [])
     in or_opt (or_opt directStoredOrder directConfiguredOrder)
          (map_option (\<lambda>o1. mergeAliasOrderWithNativeProfiles o1 nativeStoreProfiles)
            (or_opt aliasStoredOrder aliasConfiguredOrder)))"

definition explicit_profiles ::
  "AuthAliases \<Rightarrow> AuthOrderConfig option \<Rightarrow> AuthProfileStore \<Rightarrow> string \<Rightarrow> string list" where
  "explicit_profiles al cfg store provider =
    (case Option.bind cfg oc_profiles of
       None \<Rightarrow> []
     | Some ps \<Rightarrow> map fst (filter (\<lambda>e. isConfiguredProfileCompatibleWithAuthProvider al
           (resolveProviderIdForAuth (aa_configured al) provider) (pc_provider (snd e)) (Some (pc_mode (snd e)))
           (jm_get (as_profiles store) (fst e))) ps))"

text \<open>The profiles from which the order is made: those listed that are eligible, or, when all that are
  configured are gone from the store, the eligible ones of the store.\<close>

definition order_candidates ::
  "AuthAliases \<Rightarrow> AuthOrderConfig option \<Rightarrow> AuthProfileStore \<Rightarrow> string \<Rightarrow> rat \<Rightarrow> string list" where
  "order_candidates al cfg store provider now =
    (let explicitProfiles = explicit_profiles al cfg store provider;
         storeProfiles = listProfilesCompatibleWithAuthProvider al store provider (resolveProviderIdForAuth (aa_configured al) provider);
         baseOrder = or_else (explicit_order al cfg store provider) (if explicitProfiles \<noteq> [] then explicitProfiles else storeProfiles);
         isValidProfile = (\<lambda>i. fst (resolveAuthProfileEligibility al cfg store provider i now));
         filtered = filter isValidProfile baseOrder;
         allBaseProfilesMissing = list_all (\<lambda>i. jm_get (as_profiles store) i = None) baseOrder
     in if baseOrder = [] then []
        else dedupeProfileIds (if filtered = [] \<and> explicitProfiles \<noteq> [] \<and> allBaseProfilesMissing
                               then filter isValidProfile storeProfiles else filtered))"

definition resolveAuthProfileOrder ::
  "AuthAliases \<Rightarrow> AuthOrderConfig option \<Rightarrow> AuthProfileStore \<Rightarrow> string \<Rightarrow> string option \<Rightarrow> rat \<Rightarrow> string list \<times> AuthProfileStore" where
  "resolveAuthProfileOrder al cfg store0 provider preferredProfile now =
    (let store = snd (clearExpiredCooldowns store0 now);
         deduped = order_candidates al cfg store provider now;
         explicitOrder = explicit_order al cfg store provider
     in (if explicitOrder \<noteq> None \<and> explicitOrder \<noteq> Some [] then
           let available = filter (\<lambda>i. \<not> isProfileInCooldown store i now None) deduped;
               inCooldown = filter (\<lambda>i. isProfileInCooldown store i now None) deduped
           in put_first preferredProfile (available @ sort_by_cooldown store now inCooldown)
         else put_first preferredProfile (orderProfilesByMode deduped store now),
         store))"

section \<open>Operations on the stored profiles\<close>

text \<open>\<open>normalizeSecretInput\<close> on characters up to 255.\<close>

definition normalizeSecretInput :: "string \<Rightarrow> string" where
  "normalizeSecretInput v = js_trim (filter (\<lambda>c. c \<noteq> CHR 0x0D \<and> c \<noteq> CHR 0x0A) v)"

definition normalizeAuthProfileCredential :: "AuthProfileCredential \<Rightarrow> AuthProfileCredential" where
  "normalizeAuthProfileCredential credential =
    (case credential of
       ApiKeyCredential p (Some k) r \<Rightarrow>
         ApiKeyCredential p (if normalizeSecretInput k \<noteq> [] then Some (normalizeSecretInput k) else None) r
     | TokenCredential p (Some t) r e \<Rightarrow>
         TokenCredential p (if normalizeSecretInput t \<noteq> [] then Some (normalizeSecretInput t) else None) r e
     | c \<Rightarrow> c)"

definition none_if_empty :: "('k, 'v) jsmap \<Rightarrow> ('k, 'v) jsmap option" where
  "none_if_empty m = (if m = [] then None else Some m)"

definition setAuthProfileOrder ::
  "string \<Rightarrow> string list option \<Rightarrow> lock_outcome \<Rightarrow> AuthProfileStore option \<times> AuthProfileStore option" where
  "setAuthProfileOrder provider order lock =
    (let providerKey = normalizeProviderId provider;
         deduped = dedupeProfileIds (filter (\<lambda>s. s \<noteq> []) (map js_trim (or_else order [])))
     in updateAuthProfileStoreWithLock lock (\<lambda>store.
          let table = or_else (as_order store) [] in
          if deduped = [] then
            (if jm_get table providerKey = None then (False, store\<lparr>as_order := Some table\<rparr>)
             else (True, store\<lparr>as_order := none_if_empty (jm_del providerKey table)\<rparr>))
          else (True, store\<lparr>as_order := Some (jm_set providerKey deduped table)\<rparr>)))"

definition promoteAuthProfileInOrder ::
  "AuthAliases \<Rightarrow> string \<Rightarrow> string \<Rightarrow> lock_outcome \<Rightarrow> AuthProfileStore option \<times> AuthProfileStore option" where
  "promoteAuthProfileInOrder al provider profileId lock =
    (let providerKey = resolveProviderIdForAuth (aa_default al) provider in
     updateAuthProfileStoreWithLock lock (\<lambda>store.
       case provider_of store profileId of
         None \<Rightarrow> (False, store)
       | Some p \<Rightarrow>
           if resolveProviderIdForAuth (aa_default al) p \<noteq> providerKey then (False, store)
           else
             let orderKey = or_else (findNormalizedProviderKey (as_order store) providerKey) (normalizeProviderId providerKey);
                 existing = or_else (Option.bind (as_order store) (\<lambda>m. jm_get m orderKey)) [];
                 next_order = dedupeProfileIds (profileId # filter (\<lambda>i. i \<noteq> profileId) existing)
             in if existing = [] then (False, store)
                else if next_order = existing then (False, store)
                else (True, store\<lparr>as_order := Some (jm_set orderKey next_order (or_else (as_order store) []))\<rparr>)))"

definition upsertAuthProfileWithLock ::
  "string \<Rightarrow> AuthProfileCredential \<Rightarrow> lock_outcome \<Rightarrow> AuthProfileStore option \<times> AuthProfileStore option" where
  "upsertAuthProfileWithLock profileId credential lock =
    updateAuthProfileStoreWithLock lock (\<lambda>store.
      (True, store\<lparr>as_profiles := jm_set profileId (normalizeAuthProfileCredential credential) (as_profiles store)\<rparr>))"

definition removeProviderAuthProfilesWithLock ::
  "AuthAliases \<Rightarrow> string \<Rightarrow> lock_outcome \<Rightarrow> AuthProfileStore option \<times> AuthProfileStore option" where
  "removeProviderAuthProfilesWithLock al provider lock =
    (let providerKey = resolveProviderIdForAuth (aa_default al) provider;
         storeOrderKey = normalizeProviderId provider
     in updateAuthProfileStoreWithLock lock (\<lambda>store.
          let ids = listProfilesForProvider al store provider;
              profiles = filter (\<lambda>e. fst e \<notin> set ids) (as_profiles store);
              usage = map_option (filter (\<lambda>e. fst e \<notin> set ids)) (as_usageStats store);
              orderHit = Option.bind (as_order store) (\<lambda>m. jm_get m storeOrderKey) \<noteq> None;
              goodHit = (case Option.bind (as_lastGood store) (\<lambda>m. jm_get m providerKey) of None \<Rightarrow> False | Some g \<Rightarrow> g \<noteq> []);
              changed = (ids \<noteq> [] \<or> orderHit \<or> goodHit)
          in (changed, store\<lparr>
               as_profiles := profiles,
               as_order := (if orderHit then Option.bind (as_order store) (\<lambda>m. none_if_empty (jm_del storeOrderKey m)) else as_order store),
               as_lastGood := (if goodHit then Option.bind (as_lastGood store) (\<lambda>m. none_if_empty (jm_del providerKey m)) else as_lastGood store),
               as_usageStats := Option.bind usage none_if_empty\<rparr>)))"

definition clearLastGoodProfileWithLock ::
  "AuthAliases \<Rightarrow> string \<Rightarrow> string \<Rightarrow> lock_outcome \<Rightarrow> AuthProfileStore option \<times> AuthProfileStore option" where
  "clearLastGoodProfileWithLock al provider profileId lock =
    (let providerKey = resolveProviderIdForAuth (aa_default al) provider in
     updateAuthProfileStoreWithLock lock (\<lambda>store.
       if Option.bind (as_lastGood store) (\<lambda>m. jm_get m providerKey) \<noteq> Some profileId then (False, store)
       else (True, store\<lparr>as_lastGood := Option.bind (as_lastGood store) (\<lambda>m. none_if_empty (jm_del providerKey m))\<rparr>)))"

definition resetSuccessfulUsageStats :: "rat \<Rightarrow> ProfileUsageStats option \<Rightarrow> ProfileUsageStats" where
  "resetSuccessfulUsageStats lastUsed existing = (resetUsageStats existing)\<lparr>us_lastUsed := Some lastUsed\<rparr>"

definition mark_success :: "string \<Rightarrow> string \<Rightarrow> rat \<Rightarrow> AuthProfileStore \<Rightarrow> AuthProfileStore" where
  "mark_success providerKey profileId lastUsed store =
    updateUsageStatsEntry (store\<lparr>as_lastGood := Some (jm_set providerKey profileId (or_else (as_lastGood store) []))\<rparr>)
      profileId (resetSuccessfulUsageStats lastUsed)"

definition markAuthProfileSuccess ::
  "AuthAliases \<Rightarrow> AuthProfileStore \<Rightarrow> string \<Rightarrow> string \<Rightarrow> lock_outcome \<Rightarrow> rat \<Rightarrow> StoreEffect" where
  "markAuthProfileSuccess al store provider profileId lock lastUsed =
    (let providerKey = resolveProviderIdForAuth (aa_default al) provider;
         accepts = (\<lambda>s. case provider_of s profileId of None \<Rightarrow> False
                        | Some p \<Rightarrow> resolveProviderIdForAuth (aa_default al) p = providerKey)
     in case updateAuthProfileStoreWithLock lock (\<lambda>fresh.
               if accepts fresh then (True, mark_success providerKey profileId lastUsed fresh) else (False, fresh)) of
          (Some updated, w) \<Rightarrow>
            \<lparr>se_memory = store\<lparr>as_lastGood := as_lastGood updated, as_usageStats := as_usageStats updated\<rparr>, se_written = w\<rparr>
        | (None, w) \<Rightarrow>
            if accepts store
            then (let s = mark_success providerKey profileId lastUsed store in \<lparr>se_memory = s, se_written = Some s\<rparr>)
            else \<lparr>se_memory = store, se_written = None\<rparr>)"

end
