(* ===== verification/AuthOrderProps.thy ===== *)
theory AuthOrderProps
  imports AuthOrder AuthUsageProps
begin

text \<open>
  The order in which credentials are tried (src/src/agents/auth-profiles/order.ts): which profiles
  are in it, that profiles in cooldown come last, and the rotation that successes bring about.
\<close>

section \<open>Sorting by a rational key\<close>

definition sort_on :: "('a \<Rightarrow> rat) \<Rightarrow> 'a list \<Rightarrow> 'a list" where
  "sort_on f = js_sort (\<lambda>a b. rat_cmp (f a) (f b))"

abbreviation insert_on :: "('a \<Rightarrow> rat) \<Rightarrow> 'a \<Rightarrow> 'a list \<Rightarrow> 'a list" where
  "insert_on f \<equiv> js_insert (\<lambda>a b. rat_cmp (f a) (f b))"

lemma rat_cmp_le: "rat_cmp a b \<le> 0 \<longleftrightarrow> a \<le> b"
  by (auto simp: rat_cmp_def)

lemma sort_on_simps [simp]:
  "sort_on f [] = []" "sort_on f (x # xs) = insert_on f x (sort_on f xs)"
  by (simp_all add: sort_on_def js_sort_def)

lemma set_sort_on [simp]: "set (sort_on f xs) = set xs"
  by (simp add: sort_on_def)

lemma sorted_sort_on: "sorted_wrt (\<lambda>a b. f a \<le> f b) (sort_on f xs)"
  unfolding sort_on_def by (rule js_sort_sorted) (auto simp: rat_cmp_le transp_def)

lemma insert_on_last: "\<forall>y \<in> set ys. f y < f x \<Longrightarrow> insert_on f x ys = ys @ [x]"
  by (induction ys) (auto simp: rat_cmp_le)

lemma insert_on_snoc: "f y \<le> f x \<Longrightarrow> insert_on f y (ys @ [x]) = insert_on f y ys @ [x]"
  by (induction ys) (auto simp: rat_cmp_le)

lemma sort_on_greatest_last:
  assumes "distinct xs" "x \<in> set xs" "\<forall>y \<in> set xs. y \<noteq> x \<longrightarrow> f y < f x"
  shows "sort_on f xs = sort_on f (removeAll x xs) @ [x]"
  using assms
proof (induction xs)
  case (Cons y ys)
  show ?case
  proof (cases "y = x")
    case True
    then have "removeAll x ys = ys" using Cons.prems by simp
    moreover have "insert_on f x (sort_on f ys) = sort_on f ys @ [x]"
      by (rule insert_on_last) (use Cons.prems True in auto)
    ultimately show ?thesis using True by simp
  next
    case False
    then have "sort_on f ys = sort_on f (removeAll x ys) @ [x]" using Cons by auto
    moreover have "f y \<le> f x" using Cons.prems False by (simp add: less_imp_le)
    ultimately show ?thesis using False by (simp add: insert_on_snoc)
  qed
qed simp

lemma removeAll_insert_on:
  assumes "y \<noteq> x" "sorted_wrt (\<lambda>a b. f a \<le> f b) ys"
  shows "removeAll x (insert_on f y ys) = insert_on f y (removeAll x ys)"
  using assms(2)
proof (induction ys)
  case (Cons z zs)
  show ?case
  proof (cases "f y \<le> f z")
    case True
    have "insert_on f y us = y # us" if "\<forall>u \<in> set us. f y \<le> f u" for us
      using that by (cases us) (simp_all add: rat_cmp_le)
    moreover have "\<forall>u \<in> set (removeAll x (z # zs)). f y \<le> f u"
      using True Cons.prems by (auto intro: order_trans)
    ultimately show ?thesis using True assms(1) by (auto simp: rat_cmp_le)
  next
    case False
    then show ?thesis using Cons by (auto simp: rat_cmp_le)
  qed
qed (use assms(1) in simp)

lemma sort_on_removeAll: "sort_on f (removeAll x xs) = removeAll x (sort_on f xs)"
proof (induction xs)
  case (Cons y ys)
  have "removeAll x (insert_on f x us) = removeAll x us" for us by (induction us) auto
  then show ?case using Cons removeAll_insert_on [OF _ sorted_sort_on, of y x f ys] by auto
qed simp

lemma js_insert_cong: "(\<And>a. a \<in> set xs \<Longrightarrow> c x a = c' x a) \<Longrightarrow> js_insert c x xs = js_insert c' x xs"
  by (induction xs) auto

lemma js_sort_cong: "(\<And>a b. a \<in> set xs \<Longrightarrow> b \<in> set xs \<Longrightarrow> c a b = c' a b) \<Longrightarrow> js_sort c xs = js_sort c' xs"
proof (induction xs)
  case (Cons x xs)
  then have "js_sort c xs = js_sort c' xs" by simp
  moreover have "js_insert c x (js_sort c' xs) = js_insert c' x (js_sort c' xs)"
    using Cons.prems by (intro js_insert_cong) simp
  ultimately show ?case by (simp add: js_sort_def)
qed (simp add: js_sort_def)

section \<open>What the order consists of\<close>

lemma store_update_sels:
  "as_profiles (store\<lparr>as_usageStats := u\<rparr>) = as_profiles store" "as_order (store\<lparr>as_usageStats := u\<rparr>) = as_order store"
  "as_profiles (store\<lparr>as_lastGood := g\<rparr>) = as_profiles store" "as_order (store\<lparr>as_lastGood := g\<rparr>) = as_order store"
  by simp_all

lemmas order_reads = explicit_profiles_def explicit_order_def listProfilesCompatibleWithAuthProvider_def
  listProfilesForProvider_def resolveAuthProfileEligibility_def store_update_sels

lemma order_candidates_usage [simp]:
  "order_candidates al cfg (store\<lparr>as_usageStats := u\<rparr>) provider now = order_candidates al cfg store provider now"
  "order_candidates al cfg (store\<lparr>as_lastGood := g\<rparr>) provider now = order_candidates al cfg store provider now"
  unfolding order_candidates_def order_reads by (rule refl)+

lemma explicit_order_usage [simp]:
  "explicit_order al cfg (store\<lparr>as_usageStats := u\<rparr>) provider = explicit_order al cfg store provider"
  "explicit_order al cfg (store\<lparr>as_lastGood := g\<rparr>) provider = explicit_order al cfg store provider"
  unfolding order_reads by (rule refl)+

lemma eligible_usage [simp]:
  "resolveAuthProfileEligibility al cfg (store\<lparr>as_usageStats := u\<rparr>) provider i now
   = resolveAuthProfileEligibility al cfg store provider i now"
  unfolding order_reads by (rule refl)

lemma clear_usage_only: "\<exists>u. snd (clearExpiredCooldowns store now) = store\<lparr>as_usageStats := u\<rparr>"
proof (cases "as_usageStats store")
  case None
  then have "snd (clearExpiredCooldowns store now) = store" by (simp add: clearExpiredCooldowns_def)
  then show ?thesis by (intro exI [of _ "as_usageStats store"]) simp
qed (auto simp: clearExpiredCooldowns_def)

lemma candidates_clear [simp]:
  "order_candidates al cfg (snd (clearExpiredCooldowns store t)) provider now = order_candidates al cfg store provider now"
  "explicit_order al cfg (snd (clearExpiredCooldowns store t)) provider = explicit_order al cfg store provider"
  using clear_usage_only [of store t] by auto

lemma distinct_candidates: "distinct (order_candidates al cfg store provider now)"
  by (simp add: order_candidates_def Let_def dedupeProfileIds_def)

lemma eligible_clear:
  "resolveAuthProfileEligibility al cfg (snd (clearExpiredCooldowns store t)) provider i now
   = resolveAuthProfileEligibility al cfg store provider i now"
  using clear_usage_only [of store t] by auto

lemma candidates_eligible:
  "list_all (\<lambda>i. fst (resolveAuthProfileEligibility al cfg store provider i now)) (order_candidates al cfg store provider now)"
  unfolding order_candidates_def Let_def dedupeProfileIds_def list_all_iff by simp

lemma mset_put_first: "distinct ids \<Longrightarrow> mset (put_first p ids) = mset ids"
proof (cases p)
  case (Some x)
  assume d: "distinct ids"
  have "mset (x # filter (\<lambda>e. e \<noteq> x) ids) = mset ids" if "x \<in> set ids"
    using that d by (intro set_eq_iff_mset_eq_distinct [THEN iffD1]) auto
  then show ?thesis using Some by (auto simp: put_first_def)
qed (simp add: put_first_def)

lemma filter_put_first: "filter (\<lambda>i. p \<noteq> Some i) (put_first p ids) = filter (\<lambda>i. p \<noteq> Some i) ids"
  by (auto simp: put_first_def filter_filter split: option.splits intro!: filter_cong)

text \<open>Profiles in use come before those in cooldown, which are sorted by the end of it.\<close>

definition cooldown_last :: "AuthProfileStore \<Rightarrow> rat \<Rightarrow> string \<Rightarrow> string \<Rightarrow> bool" where
  "cooldown_last store now a b \<longleftrightarrow>
    (if isProfileInCooldown store a now None
     then isProfileInCooldown store b now None \<and> cooldown_until store now a \<le> cooldown_until store now b else True)"

lemma sort_by_cooldown_on: "sort_by_cooldown store now = sort_on (cooldown_until store now)"
  by (rule ext) (simp add: sort_by_cooldown_def sort_on_def)

lemma sorted_wrt_partition:
  assumes "set av \<subseteq> {i. \<not> isProfileInCooldown store i now None}" "set cd \<subseteq> {i. isProfileInCooldown store i now None}"
    and "sorted_wrt (\<lambda>a b. cooldown_until store now a \<le> cooldown_until store now b) cd"
  shows "sorted_wrt (cooldown_last store now) (av @ cd)"
proof -
  have "sorted_wrt (cooldown_last store now) av" using assms(1)
    by (induction av) (auto simp: cooldown_last_def)
  moreover have "sorted_wrt (cooldown_last store now) cd" using assms(2,3)
    by (induction cd) (auto simp: cooldown_last_def)
  ultimately show ?thesis using assms(1) by (auto simp: sorted_wrt_append cooldown_last_def)
qed

lemma mset_partition: "mset (filter P xs) + mset (filter (\<lambda>x. \<not> P x) xs) = mset xs"
  by (induction xs) auto

lemma order_parts:
  "\<exists>av cd. fst (resolveAuthProfileOrder al cfg store0 provider preferred now) = put_first preferred (av @ cd) \<and>
     mset (av @ cd) = mset (order_candidates al cfg store0 provider now) \<and>
     sorted_wrt (cooldown_last (snd (clearExpiredCooldowns store0 now)) now) (av @ cd)"
proof -
  define s where "s = snd (clearExpiredCooldowns store0 now)"
  define cand where "cand = order_candidates al cfg store0 provider now"
  define av where "av = filter (\<lambda>i. \<not> isProfileInCooldown s i now None) cand"
  define cd where "cd = sort_by_cooldown s now (filter (\<lambda>i. isProfileInCooldown s i now None) cand)"
  have ms: "mset cd = mset (filter (\<lambda>i. isProfileInCooldown s i now None) cand)"
    by (simp add: cd_def sort_by_cooldown_def)
  have cd: "set cd \<subseteq> {i. isProfileInCooldown s i now None}" "sorted_wrt (\<lambda>a b. cooldown_until s now a \<le> cooldown_until s now b) cd"
    using sorted_sort_on by (auto simp: cd_def sort_by_cooldown_on)
  have av': "set (js_sort (round_robin_cmp s) av) \<subseteq> {i. \<not> isProfileInCooldown s i now None}" by (auto simp: av_def)
  have av: "set av \<subseteq> {i. \<not> isProfileInCooldown s i now None}" by (auto simp: av_def)
  have tot: "mset (av @ cd) = mset cand" using mset_partition [of "\<lambda>i. isProfileInCooldown s i now None" cand] ms
    by (simp add: av_def add.commute)
  have "fst (resolveAuthProfileOrder al cfg store0 provider preferred now)
      = put_first preferred ((if explicit_order al cfg store0 provider \<noteq> None \<and> explicit_order al cfg store0 provider \<noteq> Some []
          then av else js_sort (round_robin_cmp s) av) @ cd)"
    by (simp add: resolveAuthProfileOrder_def Let_def s_def av_def cd_def cand_def orderProfilesByMode_def)
  moreover have "mset (js_sort (round_robin_cmp s) av @ cd) = mset cand" using tot by simp
  ultimately show ?thesis using tot sorted_wrt_partition [OF av cd] sorted_wrt_partition [OF av' cd]
    unfolding s_def [symmetric] cand_def [symmetric]
    by (cases "explicit_order al cfg store0 provider \<noteq> None \<and> explicit_order al cfg store0 provider \<noteq> Some []")
      (simp_all only: if_True if_False simp_thms, blast+)
qed

lemma mset_order:
  "mset (fst (resolveAuthProfileOrder al cfg store provider preferred now)) = mset (order_candidates al cfg store provider now)"
proof -
  obtain av cd where parts: "fst (resolveAuthProfileOrder al cfg store provider preferred now) = put_first preferred (av @ cd)"
    "mset (av @ cd) = mset (order_candidates al cfg store provider now)"
    using order_parts [of al cfg store provider preferred now] by blast
  have "distinct (av @ cd)" using mset_eq_imp_distinct_iff [OF parts(2)] distinct_candidates by blast
  then show ?thesis using mset_put_first parts by simp
qed

text \<open>C22: the order of profiles. It has every eligible candidate once and nothing else, and apart from a
  preferred profile, which comes first, a profile in cooldown stands behind all profiles that are not and
  behind those whose cooldown ends earlier.\<close>

theorem order_is_complete_and_cool_last:
  "(let order = fst (resolveAuthProfileOrder al cfg store provider preferred now);
        cleared = snd (resolveAuthProfileOrder al cfg store provider preferred now)
    in mset order = mset (order_candidates al cfg store provider now) \<and> distinct order \<and>
       list_all (\<lambda>i. fst (resolveAuthProfileEligibility al cfg cleared provider i now)) order \<and>
       sorted_wrt (cooldown_last cleared now) (filter (\<lambda>i. preferred \<noteq> Some i) order))"
proof -
  define s where "s = snd (clearExpiredCooldowns store now)"
  define cand where "cand = order_candidates al cfg store provider now"
  obtain av cd where parts: "fst (resolveAuthProfileOrder al cfg store provider preferred now) = put_first preferred (av @ cd)"
    "mset (av @ cd) = mset cand" "sorted_wrt (cooldown_last s now) (av @ cd)"
    using order_parts [of al cfg store provider preferred now] unfolding s_def [symmetric] cand_def [symmetric] by blast
  have dist: "distinct cand" by (simp add: cand_def distinct_candidates)
  then have d: "distinct (av @ cd)" using mset_eq_imp_distinct_iff [OF parts(2)] by blast
  have ms: "mset (put_first preferred (av @ cd)) = mset cand" using mset_put_first [OF d] parts(2) by simp
  have "distinct (put_first preferred (av @ cd))" using mset_eq_imp_distinct_iff [OF ms] dist by blast
  moreover have "set (put_first preferred (av @ cd)) = set cand" using mset_eq_setD [OF ms] .
  moreover have "list_all (\<lambda>i. fst (resolveAuthProfileEligibility al cfg s provider i now)) cand"
    using candidates_eligible [of al cfg store provider now] by (simp add: s_def cand_def eligible_clear)
  moreover have "snd (resolveAuthProfileOrder al cfg store provider preferred now) = s"
    by (simp add: resolveAuthProfileOrder_def Let_def s_def)
  moreover have "sorted_wrt (cooldown_last s now) (filter (\<lambda>i. preferred \<noteq> Some i) (put_first preferred (av @ cd)))"
    using parts(3) unfolding filter_put_first by (rule sorted_wrt_filter)
  ultimately show ?thesis using ms by (simp add: Let_def parts(1) cand_def [symmetric] list_all_iff)
qed

section \<open>Rotation\<close>

lemma stats_of_clear:
  "stats_of (snd (clearExpiredCooldowns store ts)) i = map_option (\<lambda>s. snd (clear_expired_entry ts s)) (stats_of store i)"
  by (auto simp: stats_of_def clearExpiredCooldowns_def jm_get_map_snd [where f = "\<lambda>s. snd (clear_expired_entry ts s)"]
      split: option.splits)

lemma last_used_clear [simp]: "last_used (snd (clearExpiredCooldowns store ts)) i = last_used store i"
proof -
  have "us_lastUsed (snd (clear_expired_entry ts s)) = us_lastUsed s" for s
    by (simp add: clear_entry_strip strip_expired_def Let_def)
  then show ?thesis by (cases "stats_of store i") (simp_all add: last_used_def stats_of_clear)
qed

lemma type_score_clear [simp]: "type_score (snd (clearExpiredCooldowns store ts)) i = type_score store i"
  using clear_usage_only [of store ts] by (auto simp: type_score_def)

lemma cooldown_clear [simp]:
  "isProfileInCooldown (snd (clearExpiredCooldowns store t)) i t None = isProfileInCooldown store i t None"
proof -
  have "provider_of (snd (clearExpiredCooldowns store t)) i = provider_of store i"
    using clear_usage_only [of store t] by (auto simp: provider_of_def)
  then show ?thesis
    by (auto simp: isProfileInCooldown_stats stats_of_clear clear_entry_unusable shouldBypassModelScopedCooldown_def present_def
        split: option.splits)
qed

lemma cooldown_over_stays:
  assumes "\<not> isProfileInCooldown store i now None" "now \<le> t"
  shows "\<not> isProfileInCooldown store i t None"
  using assms
  by (auto simp: isProfileInCooldown_stats unusable_at_iff isActiveUnusableWindow_def shouldBypassModelScopedCooldown_def
      present_def split: option.splits)

text \<open>An order without explicit lists, among profiles of one type of which none is in cooldown, is the order
  of their last use.\<close>

lemma plain_order:
  assumes "explicit_order al cfg store provider = None"
    and "\<And>i. i \<in> set (order_candidates al cfg store provider now) \<Longrightarrow>
          \<not> isProfileInCooldown store i now None \<and> type_score store i = ty"
  shows "fst (resolveAuthProfileOrder al cfg store provider None now) = sort_on (last_used store) (order_candidates al cfg store provider now)"
proof -
  define cand where "cand = order_candidates al cfg store provider now"
  have av: "filter (\<lambda>i. \<not> isProfileInCooldown store i now None) cand = cand"
    "filter (\<lambda>i. isProfileInCooldown store i now None) cand = []"
    using assms(2) by (auto simp: cand_def filter_id_conv filter_empty_conv)
  have "js_sort (round_robin_cmp (snd (clearExpiredCooldowns store now))) cand = sort_on (last_used store) cand"
    unfolding sort_on_def using assms(2) by (intro js_sort_cong) (simp add: round_robin_cmp_def cand_def)
  then show ?thesis using assms(1) av
    by (simp add: resolveAuthProfileOrder_def Let_def orderProfilesByMode_def cand_def [symmetric] put_first_def
        sort_by_cooldown_on)
qed

lemma mark_success_sels:
  "as_profiles (mark_success k i t s) = as_profiles s"
  "provider_of (mark_success k i t s) j = provider_of s j"
  "stats_of (mark_success k i t s) j = (if j = i then Some (resetSuccessfulUsageStats t (stats_of s i)) else stats_of s j)"
proof -
  show "as_profiles (mark_success k i t s) = as_profiles s" by (simp add: mark_success_def updateUsageStatsEntry_def Let_def)
  show "provider_of (mark_success k i t s) j = provider_of s j" by (simp add: mark_success_def provider_of_def updateUsageStatsEntry_def Let_def)
  show "stats_of (mark_success k i t s) j = (if j = i then Some (resetSuccessfulUsageStats t (stats_of s i)) else stats_of s j)"
    by (auto simp: mark_success_def stats_of_update) (auto simp: stats_of_def)
qed

lemma mark_success_usage_only: "\<exists>u g. mark_success k i t s = s\<lparr>as_lastGood := g, as_usageStats := u\<rparr>"
  by (auto simp: mark_success_def updateUsageStatsEntry_def Let_def)

definition in_step :: "lock_outcome \<Rightarrow> AuthProfileStore \<Rightarrow> bool" where
  "in_step lock store \<longleftrightarrow> lock = LockFailed \<or> lock = Locked store True \<or> lock = Locked store False"

lemma success_memory:
  assumes "in_step lock store" "provider_of store x = Some p"
    and "resolveProviderIdForAuth (aa_default al) p = resolveProviderIdForAuth (aa_default al) provider"
  shows "se_memory (markAuthProfileSuccess al store provider x lock t)
       = mark_success (resolveProviderIdForAuth (aa_default al) provider) x t store"
proof -
  define k where "k = resolveProviderIdForAuth (aa_default al) provider"
  obtain u g where m: "mark_success k x t store = store\<lparr>as_lastGood := g, as_usageStats := u\<rparr>"
    using mark_success_usage_only by blast
  have acc: "resolveProviderIdForAuth (aa_default al) p = k" using assms(3) by (simp add: k_def)
  show ?thesis using assms(1,2) unfolding in_step_def k_def [symmetric]
    by (auto simp: markAuthProfileSuccess_def Let_def updateAuthProfileStoreWithLock_def k_def [symmetric] acc m)
qed

text \<open>C23: profiles take turns. Among healthy profiles of one type without an explicit order, the profile that
  has just been used successfully is the last of the next order, and the others keep theirs.
\<close>

theorem used_profile_goes_last:
  assumes order: "fst (resolveAuthProfileOrder al cfg store provider None now) = x # rest"
    and explicit: "explicit_order al cfg store provider = None"
    and healthy: "list_all (\<lambda>i. \<not> isProfileInCooldown store i now None \<and> type_score store i = ty \<and> last_used store i < t) (x # rest)"
    and x: "provider_of store x = Some p"
      "resolveProviderIdForAuth (aa_default al) p = resolveProviderIdForAuth (aa_default al) provider"
    and later: "now \<le> now'" "order_candidates al cfg store provider now' = order_candidates al cfg store provider now"
    and disk: "in_step lock store"
  shows "fst (resolveAuthProfileOrder al cfg (se_memory (markAuthProfileSuccess al store provider x lock t)) provider None now')
       = rest @ [x]"
proof -
  define cand where "cand = order_candidates al cfg store provider now"
  define s' where "s' = mark_success (resolveProviderIdForAuth (aa_default al) provider) x t store"
  have mem: "se_memory (markAuthProfileSuccess al store provider x lock t) = s'"
    using success_memory [OF disk x] by (simp add: s'_def)
  obtain u g where s': "s' = store\<lparr>as_lastGood := g, as_usageStats := u\<rparr>"
    unfolding s'_def using mark_success_usage_only by blast
  have "mset (x # rest) = mset cand"
    using mset_order [of al cfg store provider None now] by (simp add: order cand_def)
  then have set_cand: "set cand = insert x (set rest)" by (metis list.simps(15) mset_eq_setD)
  have dist: "distinct cand" by (simp add: cand_def distinct_candidates)
  have healthy': "\<not> isProfileInCooldown store i now None \<and> type_score store i = ty \<and> last_used store i < t" if "i \<in> set cand" for i
    using that healthy by (auto simp: set_cand list_all_iff)
  have sorted: "sort_on (last_used store) cand = x # rest"
    using plain_order [OF explicit, of now ty] healthy' order by (simp add: cand_def)
  have used: "last_used s' i = (if i = x then t else last_used store i)" for i
    by (simp add: last_used_def s'_def mark_success_sels resetSuccessfulUsageStats_def)
  have ty: "type_score s' i = type_score store i" for i by (simp add: type_score_def s')
  have cool: "\<not> isProfileInCooldown s' i now' None" if "i \<in> set cand" for i
  proof (cases "i = x")
    case True
    then show ?thesis
      by (simp add: isProfileInCooldown_stats s'_def mark_success_sels unusable_at_iff resetSuccessfulUsageStats_def
          resetUsageStats_def isActiveUnusableWindow_def)
  next
    case False
    then have "isProfileInCooldown s' i now' None = isProfileInCooldown store i now' None"
      by (simp add: isProfileInCooldown_def s'_def mark_success_sels)
    then show ?thesis using cooldown_over_stays [OF _ later(1)] healthy' [OF that] by blast
  qed
  have "order_candidates al cfg s' provider now' = cand" using later(2) by (simp add: s' cand_def)
  moreover have "explicit_order al cfg s' provider = None" using explicit by (simp add: s')
  ultimately have new: "fst (resolveAuthProfileOrder al cfg s' provider None now') = sort_on (last_used s') cand"
    using plain_order [of al cfg s' provider now' ty] cool ty healthy' by simp
  have greatest: "\<forall>y \<in> set cand. y \<noteq> x \<longrightarrow> last_used s' y < last_used s' x" using healthy' by (simp add: used)
  have "x \<in> set cand" by (simp add: set_cand)
  note split = sort_on_greatest_last [OF dist this greatest]
  have "sort_on (last_used s') (removeAll x cand) = sort_on (last_used store) (removeAll x cand)"
    unfolding sort_on_def by (rule js_sort_cong) (simp add: used)
  also have "\<dots> = removeAll x (x # rest)" by (simp add: sort_on_removeAll sorted)
  also have "\<dots> = rest"
  proof -
    have "distinct (x # rest)" using dist mset_eq_imp_distinct_iff [OF \<open>mset (x # rest) = mset cand\<close>] by simp
    then show ?thesis by simp
  qed
  finally show ?thesis using new split by (simp add: mem)
qed

definition two_keys :: AuthProfileStore where
  "two_keys = \<lparr>as_profiles = [(''a'', ApiKeyCredential ''openai'' (Some ''k'') None), (''b'', ApiKeyCredential ''openai'' (Some ''l'') None)],
     as_order = None, as_lastGood = None, as_usageStats = None\<rparr>"

definition no_aliases :: AuthAliases where
  "no_aliases = \<lparr>aa_configured = [], aa_default = []\<rparr>"

theorem used_profile_goes_last_witness:
  "fst (resolveAuthProfileOrder no_aliases None (se_memory (markAuthProfileSuccess no_aliases two_keys ''openai'' ''a'' LockFailed 20))
      ''openai'' None 30) = [''b''] @ [''a'']"
proof (rule used_profile_goes_last [where now = 10 and ty = 2 and p = "''openai''"])
  show "fst (resolveAuthProfileOrder no_aliases None two_keys ''openai'' None 10) = [''a'', ''b'']" by code_simp
  show "explicit_order no_aliases None two_keys ''openai'' = None" by code_simp
  show "list_all (\<lambda>i. \<not> isProfileInCooldown two_keys i 10 None \<and> type_score two_keys i = 2 \<and> last_used two_keys i < 20) [''a'', ''b'']"
    by code_simp
  show "provider_of two_keys ''a'' = Some ''openai''" by code_simp
  show "order_candidates no_aliases None two_keys ''openai'' 30 = order_candidates no_aliases None two_keys ''openai'' 10" by code_simp
qed (simp_all add: in_step_def)

end
