(* ===== verification/ModelFallback.thy ===== *)
theory ModelFallback
  imports AuthOrder
begin

text \<open>
  Trying the models of a run one after the other (src/src/agents/model-fallback.ts,
  failover-policy.ts, model-fallback.types.ts, \<open>modelKey\<close> of model-ref-shared.ts). What a
  model answers, how an error is read (failover-error.ts classifies it by its status and message), the
  check of the harness and the clock are arguments; the loop, the decisions for providers in cooldown and
  the throttle of probes are the code's. The authentication store of the run is the one of AuthOrder.
  Observers of decisions and of errors are left out.
\<close>

section \<open>Candidates\<close>

record ModelCandidate =
  mc_provider :: string
  mc_model :: string

definition modelKey :: "string \<Rightarrow> string \<Rightarrow> string" where
  "modelKey provider model =
    (let providerId = js_trim provider; modelId = js_trim model in
     if providerId = [] then modelId
     else if modelId = [] then providerId
     else if starts_with (normalizeLowercaseStringOrEmpty (Some modelId)) (normalizeLowercaseStringOrEmpty (Some providerId) @ ''/'')
     then modelId else providerId @ ''/'' @ modelId)"

definition candidate_key :: "ModelCandidate \<Rightarrow> string" where
  "candidate_key c = modelKey (mc_provider c) (mc_model c)"

text \<open>\<open>addCandidate\<close> of the collector, on the keys seen and the candidates so far; \<open>enforceAllowlist\<close> is
  false for candidates that the user has named.\<close>

definition addCandidate ::
  "string list option \<Rightarrow> bool \<Rightarrow> ModelCandidate \<Rightarrow> string list \<times> ModelCandidate list \<Rightarrow> string list \<times> ModelCandidate list" where
  "addCandidate allowlist enforceAllowlist candidate sc =
    (if mc_provider candidate = [] \<or> mc_model candidate = [] then sc
     else
       let key = candidate_key candidate in
       if key \<in> set (fst sc) then sc
       else if enforceAllowlist \<and> allowlist \<noteq> None \<and> key \<notin> set (or_else allowlist []) then sc
       else (key # fst sc, snd sc @ [candidate]))"

definition collect_candidates :: "string list option \<Rightarrow> (bool \<times> ModelCandidate) list \<Rightarrow> ModelCandidate list" where
  "collect_candidates allowlist added = snd (fold (\<lambda>e. addCandidate allowlist (fst e) (snd e)) added ([], []))"

section \<open>Reasons\<close>

datatype FailoverReason = Reason AuthProfileFailureReason | ServerError

definition shouldUseTransientCooldownProbeSlot :: "FailoverReason option \<Rightarrow> bool" where
  "shouldUseTransientCooldownProbeSlot reason \<longleftrightarrow>
    reason \<in> Some ` Reason ` {FR_rate_limit, FR_overloaded, FR_unknown, FR_empty_response, FR_no_error_details,
      FR_unclassified, FR_timeout}"

definition shouldAllowCooldownProbeForReason :: "FailoverReason option \<Rightarrow> bool" where
  "shouldAllowCooldownProbeForReason reason \<longleftrightarrow>
    reason \<in> Some ` Reason ` {FR_rate_limit, FR_overloaded, FR_billing, FR_unknown, FR_empty_response, FR_no_error_details,
      FR_unclassified, FR_timeout}"

definition shouldPreserveTransientCooldownProbeSlot :: "FailoverReason option \<Rightarrow> bool" where
  "shouldPreserveTransientCooldownProbeSlot reason \<longleftrightarrow>
    reason \<in> Some ` Reason ` {FR_model_not_found, FR_format, FR_auth, FR_auth_permanent, FR_session_expired}"

section \<open>The throttle of probes\<close>

definition MIN_PROBE_INTERVAL_MS :: rat where "MIN_PROBE_INTERVAL_MS = 30000"
definition PROBE_MARGIN_MS :: rat where "PROBE_MARGIN_MS = 2 * 60 * 1000"
definition PROBE_STATE_TTL_MS :: rat where "PROBE_STATE_TTL_MS = 24 * 60 * 60 * 1000"
definition MAX_PROBE_KEYS :: nat where "MAX_PROBE_KEYS = 256"

type_synonym ProbeState = "(string, rat) jsmap"

definition resolveProbeThrottleKey :: "string \<Rightarrow> string option \<Rightarrow> string" where
  "resolveProbeThrottleKey provider agentDir =
    (let scope = or_else (normalizeOptionalString agentDir) [] in
     if scope \<noteq> [] then scope @ ''::'' @ provider else provider)"

definition pruneProbeState :: "rat \<Rightarrow> ProbeState \<Rightarrow> ProbeState" where
  "pruneProbeState now probes = filter (\<lambda>e. \<not> (snd e \<le> 0 \<or> PROBE_STATE_TTL_MS < now - snd e)) probes"

text \<open>The key with the oldest time stamp, the first among equals.\<close>

fun oldest_probe :: "ProbeState \<Rightarrow> (string \<times> rat) option \<Rightarrow> (string \<times> rat) option" where
  "oldest_probe [] best = best"
| "oldest_probe (e # es) best =
    oldest_probe es (case best of None \<Rightarrow> Some e | Some b \<Rightarrow> if snd e < snd b then Some e else best)"

lemma oldest_probe_in: "oldest_probe es best = Some e \<Longrightarrow> e \<in> set es \<or> best = Some e"
  by (induction es best rule: oldest_probe.induct) (auto split: option.splits if_splits)

function enforceProbeStateCap :: "ProbeState \<Rightarrow> ProbeState" where
  "enforceProbeStateCap probes =
    (if length probes \<le> MAX_PROBE_KEYS then probes
     else (case oldest_probe probes None of
             None \<Rightarrow> probes
           | Some e \<Rightarrow> if fst e = [] then probes else enforceProbeStateCap (jm_del (fst e) probes)))"
  by pat_completeness auto
termination
proof (relation "measure length")
  fix probes :: ProbeState and e
  assume "oldest_probe probes None = Some e"
  then have "e \<in> set probes" using oldest_probe_in by fastforce
  then have "length (filter (\<lambda>p. fst p \<noteq> fst e) probes) < length probes" by (intro length_filter_less) auto
  then show "(jm_del (fst e) probes, probes) \<in> measure length" by (simp add: jm_del_def)
qed simp

declare enforceProbeStateCap.simps [simp del]

definition isProbeThrottleOpen :: "rat \<Rightarrow> string \<Rightarrow> ProbeState \<Rightarrow> bool \<times> ProbeState" where
  "isProbeThrottleOpen now throttleKey probes =
    (let pruned = pruneProbeState now probes;
         lastProbe = or_else (jm_get pruned throttleKey) 0
     in (MIN_PROBE_INTERVAL_MS \<le> now - lastProbe, pruned))"

definition markProbeAttempt :: "rat \<Rightarrow> string \<Rightarrow> ProbeState \<Rightarrow> ProbeState" where
  "markProbeAttempt now throttleKey probes =
    enforceProbeStateCap (jm_set throttleKey now (pruneProbeState now probes))"

section \<open>What is done about a provider in cooldown\<close>

definition shouldProbePrimaryDuringCooldown ::
  "bool \<Rightarrow> bool \<Rightarrow> rat \<Rightarrow> string \<Rightarrow> AuthProfileStore \<Rightarrow> string list \<Rightarrow> string \<Rightarrow> ProbeState \<Rightarrow> bool \<times> ProbeState" where
  "shouldProbePrimaryDuringCooldown isPrimary hasFallbackCandidates now throttleKey authStore profileIds model probes =
    (if \<not> isPrimary \<or> \<not> hasFallbackCandidates then (False, probes)
     else (case isProbeThrottleOpen now throttleKey probes of (isOpen, pruned) \<Rightarrow>
       if \<not> isOpen then (False, pruned)
       else (case getSoonestCooldownExpiry authStore profileIds now (Some model) of
               None \<Rightarrow> (True, pruned)
             | Some soonest \<Rightarrow> (soonest - PROBE_MARGIN_MS \<le> now, pruned))))"

datatype CooldownDecision =
    SkipProvider AuthProfileFailureReason
  | AttemptInCooldown AuthProfileFailureReason bool
  | SuspendLanes AuthProfileFailureReason

definition resolveCooldownDecision ::
  "ModelCandidate \<Rightarrow> bool \<Rightarrow> bool \<Rightarrow> bool \<Rightarrow> rat \<Rightarrow> string \<Rightarrow> AuthProfileStore \<Rightarrow> string list \<Rightarrow> ProbeState
   \<Rightarrow> CooldownDecision \<times> ProbeState" where
  "resolveCooldownDecision candidate isPrimary requestedModel hasFallbackCandidates now probeThrottleKey authStore profileIds probes0 =
    (case shouldProbePrimaryDuringCooldown isPrimary hasFallbackCandidates now probeThrottleKey authStore profileIds
            (mc_model candidate) probes0 of (shouldProbe, probes) \<Rightarrow>
       let inferredReason = or_else (resolveProfilesUnavailableReason authStore profileIds now) FR_unknown in
       if inferredReason = FR_auth \<or> inferredReason = FR_auth_permanent then (SkipProvider inferredReason, probes)
       else if inferredReason = FR_billing then
         (let single = (if isPrimary \<and> \<not> hasFallbackCandidates then isProbeThrottleOpen now probeThrottleKey probes
                        else (False, probes))
          in if isPrimary \<and> (shouldProbe \<or> fst single) then (AttemptInCooldown inferredReason True, snd single)
             else (SuspendLanes inferredReason, snd single))
       else
         let shouldAttemptDespiteCooldown = (isPrimary \<and> (\<not> requestedModel \<or> shouldProbe)) \<or>
               (\<not> isPrimary \<and> shouldUseTransientCooldownProbeSlot (Some (Reason inferredReason)))
         in if \<not> shouldAttemptDespiteCooldown then (SuspendLanes inferredReason, probes)
            else (AttemptInCooldown inferredReason (isPrimary \<and> shouldProbe), probes))"

section \<open>The loop\<close>

record FallbackAttempt =
  fa_provider :: string
  fa_model :: string
  fa_error :: string
  fa_reason :: "FailoverReason option"

datatype ('r, 'e) run_outcome = RunOk 'r | RunThrows 'e

text \<open>What the loop asks about an error.\<close>

record 'e ErrorReader =
  er_laneTimeout :: "'e \<Rightarrow> bool"
  er_coerceToFailoverError :: "'e \<Rightarrow> ModelCandidate \<Rightarrow> 'e option"
  er_shouldRethrowAbort :: "'e \<Rightarrow> bool"
  er_runtimeCoordination :: "'e \<Rightarrow> bool"
  er_contextOverflow :: "'e \<Rightarrow> bool"
  er_missingHarness :: "'e \<Rightarrow> bool"
  er_isFailoverError :: "'e \<Rightarrow> bool"
  er_liveSwitch :: "'e \<Rightarrow> ModelCandidate option"
  er_switchFailover :: "'e \<Rightarrow> ModelCandidate \<Rightarrow> 'e"
  er_message :: "'e \<Rightarrow> string"
  er_formatErrorMessage :: "'e \<Rightarrow> string"
  er_reason :: "'e \<Rightarrow> FailoverReason option"

record ('r, 'e) FallbackEnv =
  fe_run :: "nat \<Rightarrow> ModelCandidate \<Rightarrow> bool \<Rightarrow> ('r, 'e) run_outcome"
  fe_classify :: "'r \<Rightarrow> ModelCandidate \<Rightarrow> 'e option"
  fe_harness :: "ModelCandidate \<Rightarrow> 'e option"
  fe_errors :: "'e ErrorReader"
  fe_clock :: "nat \<Rightarrow> rat"
  fe_aliases :: AuthAliases
  fe_config :: "AuthOrderConfig option"
  fe_agentDir :: "string option"
  fe_sessionId :: "string option"

text \<open>The variables of the loop (\<open>fs_probeUsed\<close> is \<open>cooldownProbeUsedProviders\<close>); the calls of \<open>run\<close> with their option
  and the suspensions of the session are recorded.\<close>

record 'e FallbackState =
  fs_attempts :: "FallbackAttempt list"
  fs_lastError :: "'e option"
  fs_probeUsed :: "string list"
  fs_store :: "AuthProfileStore option"
  fs_probes :: ProbeState
  fs_calls :: "(ModelCandidate \<times> bool) list"
  fs_suspended :: "(ModelCandidate \<times> AuthProfileFailureReason) list"
  fs_circuitOpen :: bool

datatype ('r, 'e) fallback_result =
    FallbackSuccess 'r ModelCandidate "FallbackAttempt list"
  | FallbackThrows 'e
  | FallbackSummary "FallbackAttempt list" "rat option"

definition push_attempt :: "ModelCandidate \<Rightarrow> string \<Rightarrow> FailoverReason option \<Rightarrow> 'e FallbackState \<Rightarrow> 'e FallbackState" where
  "push_attempt c msg reason st =
    st\<lparr>fs_attempts := fs_attempts st @ [\<lparr>fa_provider = mc_provider c, fa_model = mc_model c, fa_error = msg, fa_reason = reason\<rparr>]\<rparr>"

definition cooldown_text :: "ModelCandidate \<Rightarrow> string \<Rightarrow> string" where
  "cooldown_text c why = ''Provider '' @ mc_provider c @ '' is in cooldown ('' @ why @ '')''"

definition reason_text :: "AuthProfileFailureReason \<Rightarrow> string" where
  "reason_text r = (case r of FR_auth \<Rightarrow> ''auth'' | FR_auth_permanent \<Rightarrow> ''auth_permanent'' | FR_format \<Rightarrow> ''format''
     | FR_overloaded \<Rightarrow> ''overloaded'' | FR_rate_limit \<Rightarrow> ''rate_limit'' | FR_billing \<Rightarrow> ''billing'' | FR_timeout \<Rightarrow> ''timeout''
     | FR_model_not_found \<Rightarrow> ''model_not_found'' | FR_session_expired \<Rightarrow> ''session_expired''
     | FR_empty_response \<Rightarrow> ''empty_response'' | FR_no_error_details \<Rightarrow> ''no_error_details''
     | FR_unclassified \<Rightarrow> ''unclassified'' | FR_unknown \<Rightarrow> ''unknown'')"

text \<open>What precedes a call of \<open>run\<close>: whether the candidate is passed over, or called with which option and
  for which provider it takes the transient slot.\<close>

datatype candidate_plan = PassOver | CallRun bool "string option"

definition plan_candidate ::
  "('r, 'e) FallbackEnv \<Rightarrow> ModelCandidate list \<Rightarrow> ModelCandidate \<Rightarrow> nat \<Rightarrow> 'e FallbackState \<Rightarrow> candidate_plan \<times> 'e FallbackState" where
  "plan_candidate env candidates c i st =
    (case fs_store st of
       None \<Rightarrow> (CallRun False None, st)
     | Some authStore0 \<Rightarrow>
         (let now = fe_clock env i in
          case resolveAuthProfileOrder (fe_aliases env) (fe_config env) authStore0 (mc_provider c) None now of
            (profileIds, authStore) \<Rightarrow>
              let st1 = st\<lparr>fs_store := Some authStore\<rparr>;
                  isAnyProfileAvailable = list_ex (\<lambda>p. \<not> isProfileInCooldown authStore p now (Some (mc_model c))) profileIds
              in if profileIds = [] \<or> isAnyProfileAvailable then (CallRun False None, st1)
                 else
                   let key = resolveProbeThrottleKey (mc_provider c) (fe_agentDir env) in
                   (case resolveCooldownDecision c (i = 0) (Some c = (case candidates of [] \<Rightarrow> None | r # _ \<Rightarrow> Some r))
                           (1 < length candidates) now key authStore profileIds (fs_probes st1) of (decision, probes) \<Rightarrow>
                      let st2 = st1\<lparr>fs_probes := probes\<rparr> in
                      (case decision of
                         SuspendLanes r \<Rightarrow>
                           (PassOver, (push_attempt c (cooldown_text c ''suspending lanes'') (Some (Reason r)) st2)
                              \<lparr>fs_suspended := fs_suspended st2 @ (if present (fe_sessionId env) then [(c, r)] else [])\<rparr>)
                       | SkipProvider r \<Rightarrow>
                           (PassOver, push_attempt c (''Provider '' @ mc_provider c @ '' has '' @ reason_text r
                              @ '' issue (skipping all models)'') (Some (Reason r)) st2)
                       | AttemptInCooldown r mark \<Rightarrow>
                           let st3 = (if mark then st2\<lparr>fs_probes := markProbeAttempt now key (fs_probes st2)\<rparr> else st2);
                               transient = shouldUseTransientCooldownProbeSlot (Some (Reason r))
                           in if \<not> shouldAllowCooldownProbeForReason (Some (Reason r)) then (CallRun False None, st3)
                              else if transient \<and> mc_provider c \<in> set (fs_probeUsed st3)
                              then (PassOver, push_attempt c (cooldown_text c ''probe already attempted this run'') (Some (Reason r)) st3)
                              else (CallRun True (if transient then Some (mc_provider c) else None), st3)))))"

text \<open>\<open>runFallbackCandidate\<close> and \<open>runFallbackAttempt\<close>: success, an error for the loop, or a throw.\<close>

datatype ('r, 'e) attempt_outcome = AttemptOk 'r | AttemptError 'e | AttemptThrows 'e

definition runFallbackAttempt :: "('r, 'e) FallbackEnv \<Rightarrow> ModelCandidate \<Rightarrow> nat \<Rightarrow> bool \<Rightarrow> ('r, 'e) attempt_outcome" where
  "runFallbackAttempt env c i allowProbe =
    (case fe_run env i c allowProbe of
       RunThrows e \<Rightarrow>
         if er_laneTimeout (fe_errors env) e then AttemptThrows e
         else
           let normalizedFailover = er_coerceToFailoverError (fe_errors env) e c in
           if er_shouldRethrowAbort (fe_errors env) e \<and> normalizedFailover = None then AttemptThrows e
           else AttemptError (or_else normalizedFailover e)
     | RunOk r \<Rightarrow> (case fe_classify env r c of Some e \<Rightarrow> AttemptError e | None \<Rightarrow> AttemptOk r))"

definition push_failure :: "('r, 'e) FallbackEnv \<Rightarrow> ModelCandidate \<Rightarrow> 'e \<Rightarrow> 'e FallbackState \<Rightarrow> 'e FallbackState" where
  "push_failure env c e st =
    push_attempt c (er_message (fe_errors env) e) (Some (or_else (er_reason (fe_errors env) e) (Reason FR_unknown))) st"

definition resolveFallbackSoonestCooldownExpiry ::
  "('r, 'e) FallbackEnv \<Rightarrow> AuthProfileStore option \<Rightarrow> rat \<Rightarrow> ModelCandidate list \<Rightarrow> rat option" where
  "resolveFallbackSoonestCooldownExpiry env refreshed now candidates =
    (case refreshed of
       None \<Rightarrow> None
     | Some store0 \<Rightarrow>
         fst (fold (\<lambda>c acc.
           (case resolveAuthProfileOrder (fe_aliases env) (fe_config env) (snd acc) (mc_provider c) None now of (ids, store) \<Rightarrow>
              (case getSoonestCooldownExpiry store ids now (Some (mc_model c)) of
                 None \<Rightarrow> (fst acc, store)
               | Some s \<Rightarrow> (if fst acc = None \<or> s < the (fst acc) then Some s else fst acc, store))))
           candidates (None, store0)))"

definition throwFallbackFailureSummary ::
  "'e FallbackState \<Rightarrow> rat option \<Rightarrow> string option \<Rightarrow> ('r, 'e) fallback_result \<times> 'e FallbackState" where
  "throwFallbackFailureSummary st soonest sessionId =
    (case fs_lastError st of
       Some e \<Rightarrow> if length (fs_attempts st) \<le> 1 then (FallbackThrows e, st)
                 else (FallbackSummary (fs_attempts st) soonest, st\<lparr>fs_circuitOpen := present sessionId\<rparr>)
     | None \<Rightarrow> (FallbackSummary (fs_attempts st) soonest, st\<lparr>fs_circuitOpen := present sessionId\<rparr>))"

text \<open>One pass of the loop: the end of the run, or the candidates that are left.\<close>

datatype ('r, 'e) pass_outcome = PassEnds "('r, 'e) fallback_result" | PassGoesOn "ModelCandidate list"

definition fallback_error ::
  "('r, 'e) FallbackEnv \<Rightarrow> ModelCandidate \<Rightarrow> ModelCandidate list \<Rightarrow> string option \<Rightarrow> 'e \<Rightarrow> 'e FallbackState
   \<Rightarrow> ('r, 'e) pass_outcome \<times> 'e FallbackState" where
  "fallback_error env c rest slot err st =
    (let E = fe_errors env in
     if er_runtimeCoordination E err then (PassEnds (FallbackThrows err), st)
     else
       let st1 = (case slot of
             Some p \<Rightarrow> if shouldPreserveTransientCooldownProbeSlot (er_reason E err) then st
                       else st\<lparr>fs_probeUsed := (if p \<in> set (fs_probeUsed st) then fs_probeUsed st else fs_probeUsed st @ [p])\<rparr>
           | None \<Rightarrow> st)
       in if er_contextOverflow E err then (PassEnds (FallbackThrows err), st1)
          else if er_missingHarness E err then (PassEnds (FallbackThrows err), st1)
          else
            let normalized = or_else (er_coerceToFailoverError E err c) err in
            (case er_liveSwitch E err of
               Some target \<Rightarrow>
                 (let later = dropWhile (\<lambda>x. candidate_key x \<noteq> candidate_key target) rest in
                  if later \<noteq> [] then (PassGoesOn later, st1)
                  else
                    let switched = er_switchFailover E err c in
                    (PassGoesOn rest, push_failure env c switched (st1\<lparr>fs_lastError := Some switched\<rparr>)))
             | None \<Rightarrow>
                 if \<not> er_isFailoverError E normalized \<and> rest = [] then (PassEnds (FallbackThrows err), st1)
                 else
                   (PassGoesOn rest, push_failure env c normalized
                      (st1\<lparr>fs_lastError := Some (if er_isFailoverError E normalized then normalized else err)\<rparr>))))"

definition fallback_pass ::
  "('r, 'e) FallbackEnv \<Rightarrow> ModelCandidate list \<Rightarrow> ModelCandidate \<Rightarrow> ModelCandidate list \<Rightarrow> 'e FallbackState
   \<Rightarrow> ('r, 'e) pass_outcome \<times> 'e FallbackState" where
  "fallback_pass env candidates c rest st =
    (let i = length candidates - Suc (length rest) in
     case fe_harness env c of
       Some e \<Rightarrow> (PassEnds (FallbackThrows e), st)
     | None \<Rightarrow>
         (case plan_candidate env candidates c i st of
            (PassOver, st1) \<Rightarrow> (PassGoesOn rest, st1)
          | (CallRun allowProbe slot, st1) \<Rightarrow>
              let st2 = st1\<lparr>fs_calls := fs_calls st1 @ [(c, allowProbe)]\<rparr> in
              (case runFallbackAttempt env c i allowProbe of
                 AttemptOk r \<Rightarrow> (PassEnds (FallbackSuccess r c (fs_attempts st2)), st2)
               | AttemptThrows e \<Rightarrow> (PassEnds (FallbackThrows e), st2)
               | AttemptError err \<Rightarrow> fallback_error env c rest slot err st2)))"

lemma pass_goes_on_shorter:
  "fallback_pass env candidates c rest st = (PassGoesOn rest', st') \<Longrightarrow> length rest' \<le> length rest"
proof -
  have "length (dropWhile P rest) \<le> length rest" for P by (rule length_dropWhile_le)
  then show "fallback_pass env candidates c rest st = (PassGoesOn rest', st') \<Longrightarrow> length rest' \<le> length rest"
    by (auto simp: fallback_pass_def fallback_error_def Let_def
        split: option.splits prod.splits candidate_plan.splits attempt_outcome.splits if_splits)
qed

function fallback_loop ::
  "('r, 'e) FallbackEnv \<Rightarrow> ModelCandidate list \<Rightarrow> AuthProfileStore option \<Rightarrow> ModelCandidate list \<Rightarrow> 'e FallbackState
   \<Rightarrow> ('r, 'e) fallback_result \<times> 'e FallbackState" where
  "fallback_loop env candidates refreshed [] st =
    throwFallbackFailureSummary st
       (if fs_store st = None then None
        else resolveFallbackSoonestCooldownExpiry env refreshed (fe_clock env (length candidates)) candidates) (fe_sessionId env)"
| "fallback_loop env candidates refreshed (c # rest) st =
    (case fallback_pass env candidates c rest st of
       (PassEnds r, st') \<Rightarrow> (r, st')
     | (PassGoesOn rest', st') \<Rightarrow> fallback_loop env candidates refreshed rest' st')"
  by pat_completeness auto
termination
  by (relation "measure (\<lambda>(env, candidates, refreshed, rest, st). length rest)")
    (auto dest: pass_goes_on_shorter [OF sym] simp: less_Suc_eq_le)

definition fallback_start :: "AuthProfileStore option \<Rightarrow> ProbeState \<Rightarrow> 'e FallbackState" where
  "fallback_start authStore probes =
    \<lparr>fs_attempts = [], fs_lastError = None, fs_probeUsed = [], fs_store = authStore, fs_probes = probes, fs_calls = [],
     fs_suspended = [], fs_circuitOpen = False\<rparr>"

definition runWithModelFallback ::
  "('r, 'e) FallbackEnv \<Rightarrow> AuthProfileStore option \<Rightarrow> AuthProfileStore option \<Rightarrow> ProbeState \<Rightarrow> ModelCandidate list
   \<Rightarrow> ('r, 'e) fallback_result \<times> 'e FallbackState" where
  "runWithModelFallback env authStore refreshed probes candidates =
    fallback_loop env candidates refreshed candidates (fallback_start authStore probes)"

section \<open>Models for images\<close>

fun image_loop ::
  "('r, 'e) FallbackEnv \<Rightarrow> ModelCandidate list \<Rightarrow> nat \<Rightarrow> 'e FallbackState \<Rightarrow> ('r, 'e) fallback_result \<times> 'e FallbackState" where
  "image_loop env [] i st = throwFallbackFailureSummary st None None"
| "image_loop env (c # rest) i st =
    (let st1 = st\<lparr>fs_calls := fs_calls st @ [(c, False)]\<rparr> in
     case runFallbackAttempt (env\<lparr>fe_classify := \<lambda>_ _. None\<rparr>) c i False of
       AttemptOk r \<Rightarrow> (FallbackSuccess r c (fs_attempts st1), st1)
     | AttemptThrows e \<Rightarrow> (FallbackThrows e, st1)
     | AttemptError e \<Rightarrow>
         image_loop env rest (Suc i) (push_attempt c (er_formatErrorMessage (fe_errors env) e) None (st1\<lparr>fs_lastError := Some e\<rparr>)))"

definition runWithImageModelFallback ::
  "('r, 'e) FallbackEnv \<Rightarrow> ModelCandidate list \<Rightarrow> (('r, 'e) fallback_result \<times> 'e FallbackState) option" where
  "runWithImageModelFallback env candidates =
    (if candidates = [] then None else Some (image_loop env candidates 0 (fallback_start None [])))"

end
