(* ===== verification/ModelFallbackProps.thy ===== *)
theory ModelFallbackProps
  imports ModelFallback "HOL-Library.Sublist"
begin

text \<open>
  The fallback over models (src/src/agents/model-fallback.ts): which candidates are tried, that none is
  left out of the summary, the one transient probe of a provider in cooldown, and the throttle of
  probes of the first model over any sequence of runs.
\<close>

section \<open>Candidates\<close>

lemma addCandidate_inv:
  assumes "fst sc = map candidate_key (rev (snd sc))" "distinct (map candidate_key (snd sc))"
  shows "fst (addCandidate al en c sc) = map candidate_key (rev (snd (addCandidate al en c sc)))
    \<and> distinct (map candidate_key (snd (addCandidate al en c sc)))"
  using assms by (auto simp: addCandidate_def Let_def)

lemma collect_candidates_distinct: "distinct (map candidate_key (collect_candidates al added))"
proof -
  have "fst (fold (\<lambda>e. addCandidate al (fst e) (snd e)) es sc) = map candidate_key (rev (snd (fold (\<lambda>e. addCandidate al (fst e) (snd e)) es sc)))
    \<and> distinct (map candidate_key (snd (fold (\<lambda>e. addCandidate al (fst e) (snd e)) es sc)))"
    if "fst sc = map candidate_key (rev (snd sc))" "distinct (map candidate_key (snd sc))" for es sc
    using that
  proof (induction es arbitrary: sc)
    case (Cons e es)
    show ?case using Cons.IH addCandidate_inv [OF Cons.prems] by simp
  qed simp
  from this [of "([], [])" added] show ?thesis by (simp add: collect_candidates_def)
qed

section \<open>One pass\<close>

definition attempt_ref :: "FallbackAttempt \<Rightarrow> ModelCandidate" where
  "attempt_ref a = \<lparr>mc_provider = fa_provider a, mc_model = fa_model a\<rparr>"

lemma push_attempt_simps [simp]:
  "map attempt_ref (fs_attempts (push_attempt c m r st)) = map attempt_ref (fs_attempts st) @ [c]"
  "fs_calls (push_attempt c m r st) = fs_calls st"
  "fs_probeUsed (push_attempt c m r st) = fs_probeUsed st"
  by (simp_all add: push_attempt_def attempt_ref_def)

lemma plan_candidate_state:
  assumes "plan_candidate env cands c i st = (plan, st')"
  shows "fs_calls st' = fs_calls st \<and> fs_probeUsed st' = fs_probeUsed st \<and>
    map attempt_ref (fs_attempts st') = map attempt_ref (fs_attempts st) @ (if plan = PassOver then [c] else []) \<and>
    (case plan of CallRun _ (Some p) \<Rightarrow> p \<notin> set (fs_probeUsed st) | _ \<Rightarrow> True)"
  using assms
  by (auto simp: plan_candidate_def Let_def split: option.splits prod.splits CooldownDecision.splits if_splits)

lemma suffix_subseq_Cons: "suffix xs ys \<Longrightarrow> subseq zs xs \<Longrightarrow> subseq (c # zs) (c # ys) \<and> subseq zs (c # ys)"
proof -
  assume "suffix xs ys" "subseq zs xs"
  then have "subseq zs ys" using suffix_imp_subseq subseq_order.trans by blast
  then show ?thesis by (auto intro: list_emb_Cons)
qed

text \<open>What a pass adds: at most one call and at most one attempt, both of the current candidate.\<close>

definition pass_adds :: "ModelCandidate \<Rightarrow> 'e FallbackState \<Rightarrow> 'e FallbackState \<Rightarrow> bool" where
  "pass_adds c st st' \<longleftrightarrow>
     (map fst (fs_calls st') = map fst (fs_calls st) \<or> map fst (fs_calls st') = map fst (fs_calls st) @ [c]) \<and>
     (map attempt_ref (fs_attempts st') = map attempt_ref (fs_attempts st) \<or>
      map attempt_ref (fs_attempts st') = map attempt_ref (fs_attempts st) @ [c])"

lemma fallback_error_adds:
  assumes e: "fallback_error env c rest slot err st = (outcome, st')"
  shows "fs_calls st' = fs_calls st \<and>
     (map attempt_ref (fs_attempts st') = map attempt_ref (fs_attempts st) \<or>
      map attempt_ref (fs_attempts st') = map attempt_ref (fs_attempts st) @ [c]) \<and>
     (case outcome of PassEnds r \<Rightarrow> r = FallbackThrows err
      | PassGoesOn rest' \<Rightarrow> suffix rest' rest \<and>
          (er_liveSwitch (fe_errors env) err = None \<longrightarrow> rest' = rest \<and>
             map attempt_ref (fs_attempts st') = map attempt_ref (fs_attempts st) @ [c]))"
proof -
  let ?E = "fe_errors env"
  define st1 where "st1 = (case slot of
             Some p \<Rightarrow> if shouldPreserveTransientCooldownProbeSlot (er_reason ?E err) then st
                       else st\<lparr>fs_probeUsed := (if p \<in> set (fs_probeUsed st) then fs_probeUsed st else fs_probeUsed st @ [p])\<rparr>
           | None \<Rightarrow> st)"
  have st1: "fs_calls st1 = fs_calls st" "fs_attempts st1 = fs_attempts st"
    by (auto simp: st1_def split: option.splits)
  note def = e [unfolded fallback_error_def Let_def, folded st1_def]
  show ?thesis
  proof (cases "er_runtimeCoordination ?E err \<or> er_contextOverflow ?E err \<or> er_missingHarness ?E err")
    case True
    then show ?thesis using def st1 by (auto split: if_splits)
  next
    case False
    show ?thesis
    proof (cases "er_liveSwitch ?E err")
      case None
      then show ?thesis using def st1 False by (auto simp: push_failure_def split: if_splits)
    next
      case (Some target)
      have "suffix (dropWhile (\<lambda>x. candidate_key x \<noteq> candidate_key target) rest) rest" by (rule suffix_dropWhile)
      then show ?thesis using def st1 False Some by (auto simp: push_failure_def split: if_splits)
    qed
  qed
qed

lemma fallback_pass_adds:
  assumes "fallback_pass env cands c rest st = (outcome, st')"
  shows "pass_adds c st st' \<and>
     (case outcome of PassEnds (FallbackSummary _ _) \<Rightarrow> False
      | PassEnds (FallbackSuccess _ c' _) \<Rightarrow> c' = c \<and> map fst (fs_calls st') = map fst (fs_calls st) @ [c]
      | PassEnds _ \<Rightarrow> True
      | PassGoesOn rest' \<Rightarrow> suffix rest' rest \<and>
          (er_liveSwitch (fe_errors env) = (\<lambda>_. None) \<longrightarrow> rest' = rest \<and>
             map attempt_ref (fs_attempts st') = map attempt_ref (fs_attempts st) @ [c]))"
proof (cases "fe_harness env c")
  case (Some e)
  then show ?thesis using assms by (auto simp: fallback_pass_def pass_adds_def)
next
  case None
  define i where "i = length cands - Suc (length rest)"
  obtain plan st1 where plan: "plan_candidate env cands c i st = (plan, st1)" by fastforce
  note p = plan_candidate_state [OF plan]
  show ?thesis
  proof (cases plan)
    case PassOver
    then show ?thesis using assms None plan p
      by (auto simp: fallback_pass_def Let_def i_def [symmetric] pass_adds_def)
  next
    case (CallRun allow slot)
    define st2 where "st2 = st1\<lparr>fs_calls := fs_calls st1 @ [(c, allow)]\<rparr>"
    have st2: "map fst (fs_calls st2) = map fst (fs_calls st) @ [c]" "map attempt_ref (fs_attempts st2) = map attempt_ref (fs_attempts st)"
      using p CallRun by (simp_all add: st2_def)
    have pass: "fallback_pass env cands c rest st = (case runFallbackAttempt env c i allow of
        AttemptOk r \<Rightarrow> (PassEnds (FallbackSuccess r c (fs_attempts st2)), st2)
      | AttemptThrows e \<Rightarrow> (PassEnds (FallbackThrows e), st2)
      | AttemptError err \<Rightarrow> fallback_error env c rest slot err st2)"
      unfolding st2_def fallback_pass_def Let_def i_def [symmetric] by (simp add: None plan CallRun)
    show ?thesis
    proof (cases "runFallbackAttempt env c i allow")
      case (AttemptError err)
      have "fallback_error env c rest slot err st2 = (outcome, st')" using assms pass AttemptError by simp
      from fallback_error_adds [OF this] show ?thesis
        using st2 by (cases outcome) (auto simp: pass_adds_def)
    qed (use assms pass st2 in \<open>auto simp: pass_adds_def\<close>)
  qed
qed

section \<open>The whole loop\<close>

definition grows :: "'a list \<Rightarrow> 'a list \<Rightarrow> 'a list \<Rightarrow> bool" where
  "grows cs a b \<longleftrightarrow> (\<exists>xs. b = a @ xs \<and> subseq xs cs)"

lemma grows_refl: "grows cs a a"
  by (auto simp: grows_def)

lemma grows_one: "b = a \<or> b = a @ [c] \<Longrightarrow> grows (c # rest) a b"
  by (auto simp: grows_def)

lemma grows_later: "b = a \<or> b = a @ [c] \<Longrightarrow> suffix rest' rest \<Longrightarrow> grows rest' b d \<Longrightarrow> grows (c # rest) a d"
  using suffix_subseq_Cons unfolding grows_def by fastforce

lemma fallback_loop_adds:
  assumes "fallback_loop env cands ref rest st = (r, st')"
  shows "grows rest (map fst (fs_calls st)) (map fst (fs_calls st')) \<and>
    grows rest (map attempt_ref (fs_attempts st)) (map attempt_ref (fs_attempts st')) \<and>
    (case r of FallbackSuccess _ c _ \<Rightarrow> fs_calls st' \<noteq> [] \<and> last (map fst (fs_calls st')) = c
     | FallbackSummary attempts _ \<Rightarrow> attempts = fs_attempts st'
     | FallbackThrows _ \<Rightarrow> True)"
  using assms
proof (induction env cands ref rest st rule: fallback_loop.induct)
  case (1 env cands ref st)
  then show ?case
    by (auto simp: throwFallbackFailureSummary_def grows_refl split: option.splits if_splits)
next
  case (2 env cands ref c rest st)
  obtain outcome st1 where pass: "fallback_pass env cands c rest st = (outcome, st1)" by fastforce
  note adds = fallback_pass_adds [OF pass]
  then have one: "map fst (fs_calls st1) = map fst (fs_calls st) \<or> map fst (fs_calls st1) = map fst (fs_calls st) @ [c]"
    "map attempt_ref (fs_attempts st1) = map attempt_ref (fs_attempts st) \<or>
      map attempt_ref (fs_attempts st1) = map attempt_ref (fs_attempts st) @ [c]"
    unfolding pass_adds_def by blast+
  show ?case
  proof (cases outcome)
    case (PassEnds r1)
    then have r: "r = r1" "st' = st1" using 2(2) pass by simp_all
    have "case r1 of FallbackSuccess _ c _ \<Rightarrow> fs_calls st1 \<noteq> [] \<and> last (map fst (fs_calls st1)) = c
     | FallbackSummary attempts _ \<Rightarrow> attempts = fs_attempts st1 | FallbackThrows _ \<Rightarrow> True"
    proof (cases r1)
      case (FallbackSuccess x c' as)
      then have "c' = c" "map fst (fs_calls st1) = map fst (fs_calls st) @ [c]" using adds PassEnds by simp_all
      then show ?thesis using FallbackSuccess by (cases "fs_calls st1") simp_all
    qed (use adds PassEnds in simp_all)
    then show ?thesis using grows_one [OF one(1)] grows_one [OF one(2)] unfolding r by blast
  next
    case (PassGoesOn rest1)
    have loop: "fallback_loop env cands ref rest1 st1 = (r, st')" using 2(2) pass PassGoesOn by simp
    have "suffix rest1 rest" using adds PassGoesOn by simp
    then show ?thesis
      using 2(1) [OF pass [symmetric] PassGoesOn loop] grows_later [OF one(1)] grows_later [OF one(2)] by blast
  qed
qed

lemma fallback_loop_complete:
  assumes "fallback_loop env cands ref rest st = (r, st')" "er_liveSwitch (fe_errors env) = (\<lambda>_. None)"
  shows "case r of FallbackSummary attempts _ \<Rightarrow> map attempt_ref attempts = map attempt_ref (fs_attempts st) @ rest | _ \<Rightarrow> True"
  using assms
proof (induction env cands ref rest st rule: fallback_loop.induct)
  case (1 env cands ref st)
  then show ?case by (auto simp: throwFallbackFailureSummary_def split: option.splits if_splits)
next
  case (2 env cands ref c rest st)
  obtain outcome st1 where pass: "fallback_pass env cands c rest st = (outcome, st1)" by fastforce
  note adds = fallback_pass_adds [OF pass]
  show ?case
  proof (cases outcome)
    case (PassEnds r1)
    then have "r = r1" using 2(2) pass by simp
    then show ?thesis using adds PassEnds by (cases r1) simp_all
  next
    case (PassGoesOn rest1)
    have loop: "fallback_loop env cands ref rest1 st1 = (r, st')" using 2(2) pass PassGoesOn by simp
    have "rest1 = rest" "map attempt_ref (fs_attempts st1) = map attempt_ref (fs_attempts st) @ [c]"
      using adds PassGoesOn 2(3) by simp_all
    then show ?thesis using 2(1) [OF pass [symmetric] PassGoesOn loop 2(3)] by (simp split: fallback_result.splits)
  qed
qed

lemma fallback_start_simps [simp]:
  "fs_calls (fallback_start a p) = []" "fs_attempts (fallback_start a p) = []" "fs_probeUsed (fallback_start a p) = []"
  "fs_store (fallback_start a p) = a" "fs_probes (fallback_start a p) = p"
  by (simp_all add: fallback_start_def)

text \<open>C24: the models are tried in their order, each at most once. The calls of a run and its recorded attempts
  are candidates in the order given, without repetition, whatever the models, errors and cooldowns are; a
  result is the one of the last call, and a summary reports the attempts that were made.\<close>

theorem models_tried_in_order:
  "(case runWithModelFallback env authStore refreshed probes (collect_candidates allowed added) of (r, st) \<Rightarrow>
     subseq (map fst (fs_calls st)) (collect_candidates allowed added) \<and> distinct (map fst (fs_calls st)) \<and>
     subseq (map attempt_ref (fs_attempts st)) (collect_candidates allowed added) \<and>
     (case r of FallbackSuccess _ c _ \<Rightarrow> fs_calls st \<noteq> [] \<and> last (map fst (fs_calls st)) = c
      | FallbackSummary attempts _ \<Rightarrow> attempts = fs_attempts st
      | FallbackThrows _ \<Rightarrow> True))"
proof -
  define cands where "cands = collect_candidates allowed added"
  obtain r st where run: "runWithModelFallback env authStore refreshed probes cands = (r, st)" by fastforce
  have dist: "distinct cands"
    using collect_candidates_distinct [of allowed added] by (simp add: cands_def distinct_map)
  note adds = fallback_loop_adds [OF run [unfolded runWithModelFallback_def], unfolded grows_def, simplified]
  have "subseq (map fst (fs_calls st)) cands" using adds by simp
  moreover from this have "distinct (map fst (fs_calls st))" using dist by (metis distinct_nthsI subseq_conv_nths)
  moreover have "subseq (map attempt_ref (fs_attempts st)) cands" using adds by simp
  moreover have "case r of FallbackSuccess _ c _ \<Rightarrow> fs_calls st \<noteq> [] \<and> last (map fst (fs_calls st)) = c
      | FallbackSummary attempts _ \<Rightarrow> attempts = fs_attempts st
      | FallbackThrows _ \<Rightarrow> True" using adds by blast
  ultimately show ?thesis unfolding cands_def [symmetric] run by simp
qed

text \<open>C25: a summary leaves no model out. If no model switch of the live session cuts the chain short, the summary
  that is thrown when all models have failed has one attempt for every candidate, in order, whether it was
  called or passed over.\<close>

theorem summary_covers_all_models:
  assumes "er_liveSwitch (fe_errors env) = (\<lambda>_. None)"
  shows "case fst (runWithModelFallback env authStore refreshed probes candidates) of
     FallbackSummary attempts _ \<Rightarrow> map attempt_ref attempts = candidates | _ \<Rightarrow> True"
proof -
  obtain r st where run: "fallback_loop env candidates refreshed candidates (fallback_start authStore probes) = (r, st)" by fastforce
  show ?thesis using fallback_loop_complete [OF run assms]
    by (simp add: runWithModelFallback_def run split: fallback_result.splits)
qed

definition failing_env :: "(nat, string) FallbackEnv" where
  "failing_env = \<lparr>fe_run = (\<lambda>_ c _. RunThrows (mc_model c)), fe_classify = (\<lambda>_ _. None), fe_harness = (\<lambda>_. None),
     fe_errors = \<lparr>er_laneTimeout = (\<lambda>_. False), er_coerceToFailoverError = (\<lambda>e _. Some e), er_shouldRethrowAbort = (\<lambda>_. False),
       er_runtimeCoordination = (\<lambda>_. False), er_contextOverflow = (\<lambda>_. False), er_missingHarness = (\<lambda>_. False),
       er_isFailoverError = (\<lambda>_. True), er_liveSwitch = (\<lambda>_. None), er_switchFailover = (\<lambda>e _. e), er_message = (\<lambda>e. e),
       er_formatErrorMessage = (\<lambda>e. e), er_reason = (\<lambda>_. Some (Reason FR_rate_limit))\<rparr>,
     fe_clock = (\<lambda>i. of_nat i), fe_aliases = \<lparr>aa_configured = [], aa_default = []\<rparr>, fe_config = None,
     fe_agentDir = None, fe_sessionId = None\<rparr>"

definition two_models :: "ModelCandidate list" where
  "two_models = [\<lparr>mc_provider = ''openai'', mc_model = ''a''\<rparr>, \<lparr>mc_provider = ''zai'', mc_model = ''b''\<rparr>]"

theorem summary_covers_all_models_witness:
  "(case fst (runWithModelFallback failing_env None None [] two_models) of
     FallbackSummary attempts _ \<Rightarrow> map attempt_ref attempts = two_models | _ \<Rightarrow> True) \<and>
   (case fst (runWithModelFallback failing_env None None [] two_models) of FallbackSummary _ _ \<Rightarrow> True | _ \<Rightarrow> False)"
proof
  show "case fst (runWithModelFallback failing_env None None [] two_models) of
     FallbackSummary attempts _ \<Rightarrow> map attempt_ref attempts = two_models | _ \<Rightarrow> True"
    by (rule summary_covers_all_models) (simp add: failing_env_def)
  show "case fst (runWithModelFallback failing_env None None [] two_models) of FallbackSummary _ _ \<Rightarrow> True | _ \<Rightarrow> False"
    by code_simp
qed

section \<open>Probes within a run\<close>

text \<open>
  After which probes of a provider another of its models may be probed in the same run: the probe failed for a reason that
  lies in the request, in the model or in the credential and not in the state of the provider; or it was the first model of the
  run and its credentials were disabled for billing.
\<close>

definition request_caused :: "FailoverReason option \<Rightarrow> bool" where
  "request_caused reason \<longleftrightarrow> reason = Some (Reason FR_model_not_found) \<or> reason = Some (Reason FR_format) \<or>
     reason = Some (Reason FR_auth) \<or> reason = Some (Reason FR_auth_permanent) \<or> reason = Some (Reason FR_session_expired)"

definition candidate_index :: "ModelCandidate list \<Rightarrow> ModelCandidate \<Rightarrow> nat" where
  "candidate_index cands c = length (takeWhile (\<lambda>x. x \<noteq> c) cands)"

definition probe_failure_spares_slot :: "('r, 'e) FallbackEnv \<Rightarrow> ModelCandidate list \<Rightarrow> ModelCandidate \<Rightarrow> bool" where
  "probe_failure_spares_slot env cands c =
    (case runFallbackAttempt env c (candidate_index cands c) True of
       AttemptError err \<Rightarrow> request_caused (er_reason (fe_errors env) err)
     | _ \<Rightarrow> False)"

definition billing_cooldown :: "('r, 'e) FallbackEnv \<Rightarrow> AuthProfileStore option \<Rightarrow> ModelCandidate \<Rightarrow> bool" where
  "billing_cooldown env authStore c =
    (case authStore of
       None \<Rightarrow> False
     | Some store \<Rightarrow>
         (case resolveAuthProfileOrder (fe_aliases env) (fe_config env) store (mc_provider c) None (fe_clock env 0) of
            (profileIds, store') \<Rightarrow> resolveProfilesUnavailableReason store' profileIds (fe_clock env 0) = Some FR_billing))"

definition spares_slot :: "('r, 'e) FallbackEnv \<Rightarrow> AuthProfileStore option \<Rightarrow> ModelCandidate list \<Rightarrow> ModelCandidate \<Rightarrow> bool" where
  "spares_slot env authStore cands c \<longleftrightarrow>
    probe_failure_spares_slot env cands c \<or> (candidate_index cands c = 0 \<and> billing_cooldown env authStore c)"

text \<open>Two calls of a run, each a candidate with its option \<open>allowTransientCooldownProbe\<close>, in this order.\<close>

definition probes_compatible ::
  "('r, 'e) FallbackEnv \<Rightarrow> AuthProfileStore option \<Rightarrow> ModelCandidate list \<Rightarrow> ModelCandidate \<times> bool \<Rightarrow> ModelCandidate \<times> bool \<Rightarrow> bool" where
  "probes_compatible env authStore cands a b =
    (if snd a \<and> snd b \<and> mc_provider (fst a) = mc_provider (fst b) then spares_slot env authStore cands (fst a) else True)"

lemma request_caused_preserves: "request_caused reason = shouldPreserveTransientCooldownProbeSlot reason"
  by (auto simp: request_caused_def shouldPreserveTransientCooldownProbeSlot_def)

lemma plan_candidate_probe:
  assumes "plan_candidate env cands c i st = (CallRun True slot, st')"
  shows "slot = Some (mc_provider c) \<and> mc_provider c \<notin> set (fs_probeUsed st) \<or>
    slot = None \<and> i = 0 \<and> billing_cooldown env (fs_store st) c"
proof -
  obtain authStore0 where store: "fs_store st = Some authStore0"
    using assms by (cases "fs_store st") (simp_all add: plan_candidate_def)
  obtain ids authStore where order: "resolveAuthProfileOrder (fe_aliases env) (fe_config env) authStore0 (mc_provider c) None (fe_clock env i)
      = (ids, authStore)" by fastforce
  show ?thesis
    using assms store order
    by (auto simp: plan_candidate_def Let_def billing_cooldown_def resolveCooldownDecision_def shouldUseTransientCooldownProbeSlot_def
        shouldAllowCooldownProbeForReason_def or_else_def push_attempt_def
        split: option.splits prod.splits CooldownDecision.splits if_splits)
qed

text \<open>What the loop keeps: the probes so far are compatible, and each has used up the slot of its provider or spares it.\<close>

definition probes_accounted ::
  "('r, 'e) FallbackEnv \<Rightarrow> AuthProfileStore option \<Rightarrow> ModelCandidate list \<Rightarrow> 'e FallbackState \<Rightarrow> bool" where
  "probes_accounted env authStore cands st \<longleftrightarrow>
    sorted_wrt (probes_compatible env authStore cands) (fs_calls st) \<and>
    (\<forall>a \<in> set (fs_calls st). snd a \<longrightarrow> mc_provider (fst a) \<in> set (fs_probeUsed st) \<or> spares_slot env authStore cands (fst a))"

lemma candidate_index_suffix:
  assumes "distinct cands" "suffix (c # rest) cands"
  shows "candidate_index cands c = length cands - Suc (length rest)"
proof -
  obtain pre where cands: "cands = pre @ c # rest" using assms(2) by (auto simp: suffix_def)
  then have "takeWhile (\<lambda>x. x \<noteq> c) pre = pre" using assms(1) by (intro takeWhile_eq_all_conv [THEN iffD2]) auto
  then have "takeWhile (\<lambda>x. x \<noteq> c) cands = pre" unfolding cands by (simp add: takeWhile_append)
  then show ?thesis by (simp add: candidate_index_def cands)
qed

lemma fallback_error_slot:
  assumes "fallback_error env c rest slot err st = (outcome, st')"
  shows "set (fs_probeUsed st) \<subseteq> set (fs_probeUsed st') \<and> fs_probes st' = fs_probes st \<and>
    (case (slot, outcome) of
       (Some p, PassGoesOn _) \<Rightarrow> p \<in> set (fs_probeUsed st') \<or> request_caused (er_reason (fe_errors env) err)
     | _ \<Rightarrow> True)"
  using assms
  by (auto simp: fallback_error_def Let_def request_caused_preserves push_failure_def push_attempt_def split: option.splits if_splits)

lemma fallback_pass_probes:
  assumes pass: "fallback_pass env cands c rest st = (outcome, st')" and inv: "probes_accounted env authStore cands st"
    and start: "c # rest = cands \<Longrightarrow> st = fallback_start authStore probes"
    and pos: "distinct cands" "suffix (c # rest) cands"
  shows "sorted_wrt (probes_compatible env authStore cands) (fs_calls st') \<and>
    (case outcome of PassEnds _ \<Rightarrow> True | PassGoesOn _ \<Rightarrow> probes_accounted env authStore cands st')"
proof (cases "fe_harness env c")
  case (Some e)
  then show ?thesis using pass inv by (auto simp: fallback_pass_def probes_accounted_def)
next
  case None
  define i where "i = length cands - Suc (length rest)"
  have idx: "candidate_index cands c = i" using candidate_index_suffix [OF pos] by (simp add: i_def)
  have first: "c # rest = cands" if "i = 0"
    using pos(2) that by (auto simp: i_def suffix_def)
  obtain plan st1 where plan: "plan_candidate env cands c i st = (plan, st1)" by fastforce
  note p = plan_candidate_state [OF plan]
  show ?thesis
  proof (cases plan)
    case PassOver
    then have "outcome = PassGoesOn rest" "st' = st1"
      using pass None plan by (auto simp: fallback_pass_def Let_def i_def [symmetric])
    then show ?thesis using inv p by (simp add: probes_accounted_def)
  next
    case (CallRun allow slot)
    define st2 where "st2 = st1\<lparr>fs_calls := fs_calls st1 @ [(c, allow)]\<rparr>"
    have st2: "fs_calls st2 = fs_calls st @ [(c, allow)]" "fs_probeUsed st2 = fs_probeUsed st"
      using p by (simp_all add: st2_def)
    have slot: "slot = Some (mc_provider c) \<and> mc_provider c \<notin> set (fs_probeUsed st) \<or>
        slot = None \<and> fs_calls st = [] \<and> spares_slot env authStore cands c" if allow
    proof -
      have "slot = Some (mc_provider c) \<and> mc_provider c \<notin> set (fs_probeUsed st) \<or>
          slot = None \<and> i = 0 \<and> billing_cooldown env (fs_store st) c"
        by (rule plan_candidate_probe) (use plan CallRun that in simp)
      then show ?thesis using start first idx by (auto simp: spares_slot_def)
    qed
    have new: "probes_compatible env authStore cands a (c, allow)" if "a \<in> set (fs_calls st)" for a
    proof (cases "snd a \<and> allow \<and> mc_provider (fst a) = mc_provider c")
      case True
      then have "mc_provider c \<notin> set (fs_probeUsed st)" using slot that by auto
      then have "spares_slot env authStore cands (fst a)" using inv that True by (auto simp: probes_accounted_def)
      then show ?thesis by (simp add: probes_compatible_def)
    qed (auto simp: probes_compatible_def)
    have srt: "sorted_wrt (probes_compatible env authStore cands) (fs_calls st2)"
      using inv new by (simp add: st2 probes_accounted_def sorted_wrt_append)
    have run: "(outcome, st') = (case runFallbackAttempt env c i allow of
        AttemptOk r \<Rightarrow> (PassEnds (FallbackSuccess r c (fs_attempts st2)), st2)
      | AttemptThrows e \<Rightarrow> (PassEnds (FallbackThrows e), st2)
      | AttemptError err \<Rightarrow> fallback_error env c rest slot err st2)"
      using pass unfolding st2_def fallback_pass_def Let_def i_def [symmetric] by (simp add: None plan CallRun)
    show ?thesis
    proof (cases "runFallbackAttempt env c i allow")
      case (AttemptError err)
      then have err: "fallback_error env c rest slot err st2 = (outcome, st')" using run by simp
      note e = fallback_error_slot [OF err] and calls = fallback_error_adds [OF err, THEN conjunct1]
      show ?thesis
      proof (cases outcome)
        case (PassEnds r)
        then show ?thesis using srt calls by simp
      next
        case (PassGoesOn rest')
        have "mc_provider c \<in> set (fs_probeUsed st') \<or> spares_slot env authStore cands c" if allow
        proof (cases slot)
          case None
          then show ?thesis using slot that by simp
        next
          case (Some q)
          then have "mc_provider c \<in> set (fs_probeUsed st') \<or> request_caused (er_reason (fe_errors env) err)"
            using e slot that PassGoesOn by auto
          moreover have "runFallbackAttempt env c (candidate_index cands c) True = AttemptError err"
            using AttemptError that idx by simp
          ultimately show ?thesis by (auto simp: spares_slot_def probe_failure_spares_slot_def)
        qed
        then have "probes_accounted env authStore cands st'"
          using srt inv e unfolding probes_accounted_def calls st2 by auto
        then show ?thesis using PassGoesOn by (simp add: probes_accounted_def)
      qed
    qed (use run srt in auto)
  qed
qed

lemma fallback_loop_probes:
  assumes "fallback_loop env cands ref rest st = (r, st')" "probes_accounted env authStore cands st"
    and "rest = cands \<Longrightarrow> st = fallback_start authStore probes" "distinct cands" "suffix rest cands"
  shows "sorted_wrt (probes_compatible env authStore cands) (fs_calls st')"
  using assms
proof (induction env cands ref rest st rule: fallback_loop.induct)
  case (1 env cands ref st)
  then show ?case
    by (auto simp: throwFallbackFailureSummary_def probes_accounted_def split: option.splits if_splits)
next
  case (2 env cands ref c rest st)
  obtain outcome st1 where pass: "fallback_pass env cands c rest st = (outcome, st1)" by fastforce
  have now: "sorted_wrt (probes_compatible env authStore cands) (fs_calls st1) \<and>
    (case outcome of PassEnds _ \<Rightarrow> True | PassGoesOn _ \<Rightarrow> probes_accounted env authStore cands st1)"
    by (rule fallback_pass_probes [OF pass 2(3) _ 2(5,6)]) (rule 2(4))
  show ?case
  proof (cases outcome)
    case (PassEnds r1)
    then show ?thesis using 2(2) pass now by simp
  next
    case (PassGoesOn rest1)
    have loop: "fallback_loop env cands ref rest1 st1 = (r, st')" using 2(2) pass PassGoesOn by simp
    have "suffix rest1 rest" using fallback_pass_adds [OF pass] PassGoesOn by simp
    moreover have "suffix rest cands" using 2(6) by (rule suffix_ConsD)
    ultimately have "suffix rest1 cands" "length rest1 \<le> length rest"
      by (simp_all add: suffix_order.order_trans suffix_length_le)
    moreover have "length rest < length cands" using suffix_length_le [OF 2(6)] by simp
    ultimately have "suffix rest1 cands" "length rest1 < length cands" by simp_all
    then show ?thesis using 2(1) [OF pass [symmetric] PassGoesOn loop _ _ 2(5)] now PassGoesOn by auto
  qed
qed

text \<open>C5: one transient probe. When all credentials of a provider are cooling down, a call with the option to probe
  the provider is followed by a second such call in the same run only if the first failed with a reason that lies in the
  request, the model or the credential (model not found, format, authentication, permanent authentication, expired session), or if it was the
  first model of the run and its credentials were disabled for billing. So a provider that answers a probe with a rate
  limit, an overload, a timeout or an unknown error is not probed again, whatever the models answer and the stores hold.\<close>

theorem one_transient_probe:
  "sorted_wrt (probes_compatible env authStore (collect_candidates allowed added))
     (fs_calls (snd (runWithModelFallback env authStore refreshed probes (collect_candidates allowed added))))"
proof -
  define cands where "cands = collect_candidates allowed added"
  obtain r st where run: "fallback_loop env cands refreshed cands (fallback_start authStore probes) = (r, st)" by fastforce
  have "distinct cands" using collect_candidates_distinct [of allowed added] by (simp add: cands_def distinct_map)
  then have "sorted_wrt (probes_compatible env authStore cands) (fs_calls st)"
    by (intro fallback_loop_probes [OF run]) (simp_all add: probes_accounted_def)
  then show ?thesis unfolding cands_def [symmetric] by (simp add: runWithModelFallback_def run)
qed

section \<open>Probes of many runs\<close>

text \<open>
  A run with the arguments it is called with. The throttle is shared by all runs of the process. A run decides whether its
  first model is called, and records the probe, without awaiting in between, so runs that overlap are ordered by these
  decisions; that later models leave the throttle alone is part of what is proved.
\<close>

record ('r, 'e) FallbackRun =
  fr_env :: "('r, 'e) FallbackEnv"
  fr_store :: "AuthProfileStore option"
  fr_refreshed :: "AuthProfileStore option"
  fr_allowed :: "string list option"
  fr_added :: "(bool \<times> ModelCandidate) list"

definition run_candidates :: "('r, 'e) FallbackRun \<Rightarrow> ModelCandidate list" where
  "run_candidates r = collect_candidates (fr_allowed r) (fr_added r)"

definition run_fallback :: "('r, 'e) FallbackRun \<Rightarrow> ProbeState \<Rightarrow> ('r, 'e) fallback_result \<times> 'e FallbackState" where
  "run_fallback r probes = runWithModelFallback (fr_env r) (fr_store r) (fr_refreshed r) probes (run_candidates r)"

definition decided_at :: "('r, 'e) FallbackRun \<Rightarrow> rat" where
  "decided_at r = fe_clock (fr_env r) 0"

text \<open>All credentials of the candidate's provider are cooling down when the run starts.\<close>

definition provider_cooling :: "('r, 'e) FallbackEnv \<Rightarrow> AuthProfileStore option \<Rightarrow> ModelCandidate \<Rightarrow> bool" where
  "provider_cooling env authStore c =
    (case authStore of
       None \<Rightarrow> False
     | Some store \<Rightarrow>
         (case resolveAuthProfileOrder (fe_aliases env) (fe_config env) store (mc_provider c) None (fe_clock env 0) of
            (profileIds, store') \<Rightarrow> profileIds \<noteq> [] \<and>
              list_all (\<lambda>p. isProfileInCooldown store' p (fe_clock env 0) (Some (mc_model c))) profileIds))"

text \<open>The probe of a run: it calls its first model although the provider of this model is cooling down.\<close>

definition primary_probe :: "('r, 'e) FallbackRun \<Rightarrow> (ModelCandidate \<times> bool) list \<Rightarrow> (rat \<times> string) option" where
  "primary_probe r calls =
    (case (run_candidates r, calls) of
       (c # _, call # _) \<Rightarrow>
         if fst call = c \<and> provider_cooling (fr_env r) (fr_store r) c
         then Some (decided_at r, resolveProbeThrottleKey (mc_provider c) (fe_agentDir (fr_env r))) else None
     | _ \<Rightarrow> None)"

definition probe_list :: "'a option \<Rightarrow> 'a list" where
  "probe_list x = (case x of None \<Rightarrow> [] | Some a \<Rightarrow> [a])"

fun primary_probes :: "('r, 'e) FallbackRun list \<Rightarrow> ProbeState \<Rightarrow> (rat \<times> string) list" where
  "primary_probes [] probes = []"
| "primary_probes (r # rs) probes =
    (case run_fallback r probes of (_, st) \<Rightarrow> probe_list (primary_probe r (fs_calls st)) @ primary_probes rs (fs_probes st))"

text \<open>As many other keys as the throttle remembers were probed in an interval.\<close>

definition crowded :: "(rat \<times> string) list \<Rightarrow> rat \<Rightarrow> rat \<Rightarrow> string \<Rightarrow> bool" where
  "crowded ps t u k \<longleftrightarrow>
    MAX_PROBE_KEYS \<le> length (remdups (map snd (filter (\<lambda>p. t \<le> fst p \<and> fst p \<le> u \<and> snd p \<noteq> k) ps)))"

definition spaced_unless_crowded :: "(rat \<times> string) list \<Rightarrow> rat \<times> string \<Rightarrow> rat \<times> string \<Rightarrow> bool" where
  "spaced_unless_crowded ps a b =
    (if snd a = snd b \<and> fst b - fst a < MIN_PROBE_INTERVAL_MS then crowded ps (fst a) (fst b) (snd a) else True)"

subsection \<open>What one run does to the throttle\<close>

lemma plan_candidate_later_probes:
  assumes "plan_candidate env cands c i st = (plan, st')" "i \<noteq> 0"
  shows "fs_probes st' = fs_probes st"
  using assms
  by (auto simp: plan_candidate_def Let_def resolveCooldownDecision_def shouldProbePrimaryDuringCooldown_def push_attempt_def
      split: option.splits prod.splits CooldownDecision.splits if_splits)

lemma prune_idem: "pruneProbeState now (pruneProbeState now probes) = pruneProbeState now probes"
  by (simp add: pruneProbeState_def)

lemma shouldProbePrimary_open:
  "shouldProbePrimaryDuringCooldown p h now key s ids m probes = (go, probes') \<Longrightarrow>
    probes' \<in> {probes, pruneProbeState now probes} \<and>
    (go \<longrightarrow> probes' = pruneProbeState now probes \<and> fst (isProbeThrottleOpen now key probes))"
  by (auto simp: shouldProbePrimaryDuringCooldown_def isProbeThrottleOpen_def Let_def split: if_splits option.splits)

lemma resolveCooldownDecision_primary:
  assumes "resolveCooldownDecision c True True h now key s ids probes = (decision, probes')"
  shows "probes' \<in> {probes, pruneProbeState now probes} \<and>
    (case decision of AttemptInCooldown r mark \<Rightarrow>
        mark \<and> probes' = pruneProbeState now probes \<and> fst (isProbeThrottleOpen now key probes)
     | _ \<Rightarrow> True)"
proof -
  obtain go probes1 where go: "shouldProbePrimaryDuringCooldown True h now key s ids (mc_model c) probes = (go, probes1)" by fastforce
  note opened = shouldProbePrimary_open [OF go]
  show ?thesis
    using assms opened
    by (auto simp: resolveCooldownDecision_def go Let_def isProbeThrottleOpen_def prune_idem split: if_splits)
qed

text \<open>The first pass either leaves the throttle alone, up to pruning, or it finds it open, records the probe and calls the model.\<close>

lemma plan_first_candidate:
  assumes plan: "plan_candidate env (c # rest) c 0 (fallback_start authStore probes) = (plan, st')"
  shows "if provider_cooling env authStore c \<and> plan \<noteq> PassOver
    then fst (isProbeThrottleOpen (fe_clock env 0) (resolveProbeThrottleKey (mc_provider c) (fe_agentDir env)) probes) \<and>
         fs_probes st' = markProbeAttempt (fe_clock env 0) (resolveProbeThrottleKey (mc_provider c) (fe_agentDir env))
           (pruneProbeState (fe_clock env 0) probes)
    else fs_probes st' \<in> {probes, pruneProbeState (fe_clock env 0) probes}"
proof (cases authStore)
  case None
  then show ?thesis using plan by (auto simp: plan_candidate_def provider_cooling_def)
next
  case (Some store)
  let ?now = "fe_clock env 0"
  let ?key = "resolveProbeThrottleKey (mc_provider c) (fe_agentDir env)"
  obtain ids store' where order: "resolveAuthProfileOrder (fe_aliases env) (fe_config env) store (mc_provider c) None ?now
      = (ids, store')" by fastforce
  have cooling: "provider_cooling env authStore c \<longleftrightarrow>
      \<not> (ids = [] \<or> list_ex (\<lambda>p. \<not> isProfileInCooldown store' p ?now (Some (mc_model c))) ids)"
    by (simp add: provider_cooling_def Some order list_all_iff list_ex_iff)
  show ?thesis
  proof (cases "provider_cooling env authStore c")
    case False
    then show ?thesis using plan cooling by (auto simp: plan_candidate_def Some order Let_def)
  next
    case True
    obtain decision probes1 where d: "resolveCooldownDecision c True True (1 < length (c # rest)) ?now ?key store' ids probes
        = (decision, probes1)" by fastforce
    note dec = resolveCooldownDecision_primary [OF d]
    show ?thesis
      using plan True cooling dec d
      by (auto simp: plan_candidate_def Some order Let_def push_attempt_def split: CooldownDecision.splits if_splits)
  qed
qed

lemma fallback_pass_probes_later:
  assumes "fallback_pass env cands c rest st = (outcome, st')" "length (c # rest) < length cands"
  shows "fs_probes st' = fs_probes st"
proof (cases "fe_harness env c")
  case None
  have i: "length cands - Suc (length rest) \<noteq> 0" using assms(2) by simp
  obtain plan st1 where plan: "plan_candidate env cands c (length cands - Suc (length rest)) st = (plan, st1)" by fastforce
  have "fs_probes st1 = fs_probes st" by (rule plan_candidate_later_probes [OF plan i])
  then show ?thesis using assms(1) None plan fallback_error_slot
    by (fastforce simp: fallback_pass_def Let_def split: candidate_plan.splits attempt_outcome.splits)
qed (use assms in \<open>simp add: fallback_pass_def\<close>)

lemma fallback_loop_probes_later:
  assumes "fallback_loop env cands ref rest st = (r, st')" "length rest < length cands"
  shows "fs_probes st' = fs_probes st"
  using assms
proof (induction env cands ref rest st rule: fallback_loop.induct)
  case (1 env cands ref st)
  then show ?case by (auto simp: throwFallbackFailureSummary_def split: option.splits if_splits)
next
  case (2 env cands ref c rest st)
  obtain outcome st1 where pass: "fallback_pass env cands c rest st = (outcome, st1)" by fastforce
  have now: "fs_probes st1 = fs_probes st" by (rule fallback_pass_probes_later [OF pass 2(3)])
  show ?case
  proof (cases outcome)
    case (PassGoesOn rest1)
    have "length rest1 < length cands"
      using fallback_pass_adds [OF pass] suffix_length_le PassGoesOn 2(3) by fastforce
    then show ?thesis using 2(1) [OF pass [symmetric] PassGoesOn] 2(2) pass PassGoesOn now by simp
  qed (use 2(2) pass now in simp)
qed

lemma fallback_pass_first:
  assumes pass: "fallback_pass env (c # rest) c rest (fallback_start authStore probes) = (outcome, st')"
  shows "(fs_calls st' = [] \<or> (\<exists>allow. fs_calls st' = [(c, allow)])) \<and>
    (if provider_cooling env authStore c \<and> fs_calls st' \<noteq> []
     then fst (isProbeThrottleOpen (fe_clock env 0) (resolveProbeThrottleKey (mc_provider c) (fe_agentDir env)) probes) \<and>
          fs_probes st' = markProbeAttempt (fe_clock env 0) (resolveProbeThrottleKey (mc_provider c) (fe_agentDir env))
            (pruneProbeState (fe_clock env 0) probes)
     else fs_probes st' \<in> {probes, pruneProbeState (fe_clock env 0) probes})"
proof (cases "fe_harness env c")
  case (Some e)
  then show ?thesis using pass by (auto simp: fallback_pass_def)
next
  case None
  obtain plan st1 where plan: "plan_candidate env (c # rest) c 0 (fallback_start authStore probes) = (plan, st1)" by fastforce
  note p = plan_first_candidate [OF plan] and s = plan_candidate_state [OF plan]
  show ?thesis
  proof (cases plan)
    case PassOver
    then have "st' = st1" using pass None plan by (simp add: fallback_pass_def)
    then show ?thesis using p s PassOver by simp
  next
    case (CallRun allow slot)
    define st2 where "st2 = st1\<lparr>fs_calls := fs_calls st1 @ [(c, allow)]\<rparr>"
    have st2: "fs_calls st2 = [(c, allow)]" "fs_probes st2 = fs_probes st1" using s by (simp_all add: st2_def)
    have run: "(outcome, st') = (case runFallbackAttempt env c 0 allow of
        AttemptOk r \<Rightarrow> (PassEnds (FallbackSuccess r c (fs_attempts st2)), st2)
      | AttemptThrows e \<Rightarrow> (PassEnds (FallbackThrows e), st2)
      | AttemptError err \<Rightarrow> fallback_error env c rest slot err st2)"
      using pass unfolding st2_def by (simp add: fallback_pass_def Let_def None plan CallRun)
    have "fs_calls st' = [(c, allow)] \<and> fs_probes st' = fs_probes st1"
    proof (cases "runFallbackAttempt env c 0 allow")
      case (AttemptError err)
      then have err: "fallback_error env c rest slot err st2 = (outcome, st')" using run by simp
      show ?thesis using fallback_error_slot [OF err] fallback_error_adds [OF err] st2 by simp
    qed (use run st2 in simp_all)
    then show ?thesis using p CallRun by (auto split: if_splits)
  qed
qed

lemma run_fallback_throttle:
  assumes "run_fallback r probes = (res, st)"
  shows "case primary_probe r (fs_calls st) of
      None \<Rightarrow> fs_probes st \<in> {probes, pruneProbeState (decided_at r) probes}
    | Some (t, key) \<Rightarrow> t = decided_at r \<and> fst (isProbeThrottleOpen t key probes) \<and>
        fs_probes st = markProbeAttempt t key (pruneProbeState t probes)"
proof (cases "run_candidates r")
  case Nil
  then show ?thesis using assms
    by (auto simp: run_fallback_def runWithModelFallback_def throwFallbackFailureSummary_def primary_probe_def split: option.splits if_splits)
next
  case (Cons c rest)
  let ?env = "fr_env r"
  have dist: "distinct (c # rest)"
    using collect_candidates_distinct [of "fr_allowed r" "fr_added r"] by (simp add: distinct_map run_candidates_def flip: Cons)
  obtain outcome st1 where pass: "fallback_pass ?env (c # rest) c rest (fallback_start (fr_store r) probes) = (outcome, st1)" by fastforce
  have loop: "fallback_loop ?env (c # rest) (fr_refreshed r) (c # rest) (fallback_start (fr_store r) probes) = (res, st)"
    using assms by (simp add: run_fallback_def runWithModelFallback_def Cons)
  have "fs_probes st = fs_probes st1 \<and> grows rest (map fst (fs_calls st1)) (map fst (fs_calls st))"
  proof (cases outcome)
    case (PassEnds r1)
    then show ?thesis using loop pass by (simp add: grows_refl)
  next
    case (PassGoesOn rest1)
    then have l1: "fallback_loop ?env (c # rest) (fr_refreshed r) rest1 st1 = (res, st)" using loop pass by simp
    have suf: "suffix rest1 rest" using fallback_pass_adds [OF pass] PassGoesOn by simp
    have "grows rest (map fst (fs_calls st1)) (map fst (fs_calls st))"
      using fallback_loop_adds [OF l1] suffix_imp_subseq [OF suf] subseq_order.order_trans unfolding grows_def by blast
    moreover have "fs_probes st = fs_probes st1"
      by (rule fallback_loop_probes_later [OF l1]) (use suffix_length_le [OF suf] in simp)
    ultimately show ?thesis by blast
  qed
  then obtain later where later: "map fst (fs_calls st) = map fst (fs_calls st1) @ later" "subseq later rest"
    and probes: "fs_probes st = fs_probes st1"
    by (auto simp: grows_def)
  have other: "c \<notin> set later" using later(2) dist notin_set_nthsI by (metis distinct.simps(2) subseq_conv_nths)
  note first = fallback_pass_first [OF pass]
  have probe: "primary_probe r (fs_calls st) = (if provider_cooling ?env (fr_store r) c \<and> fs_calls st1 \<noteq> []
      then Some (decided_at r, resolveProbeThrottleKey (mc_provider c) (fe_agentDir ?env)) else None)"
  proof (cases "fs_calls st1")
    case Nil
    then have "map fst (fs_calls st) = later" using later(1) by simp
    then have "fst (hd (fs_calls st)) \<noteq> c" if "fs_calls st \<noteq> []" using other that by (cases "fs_calls st") auto
    then show ?thesis using Nil by (auto simp: primary_probe_def Cons split: list.splits)
  next
    case (Cons x xs)
    then have "fst x = c" using first by auto
    moreover have "fs_calls st \<noteq> []" "fst (hd (fs_calls st)) = fst x"
      using later(1) Cons by (cases "fs_calls st"; simp)+
    ultimately show ?thesis using Cons \<open>run_candidates r = c # rest\<close> by (cases "fs_calls st") (simp_all add: primary_probe_def)
  qed
  show ?thesis using first unfolding probe probes by (simp add: decided_at_def split: if_splits)
qed

subsection \<open>What the throttle remembers\<close>

definition throttle_knows :: "(rat \<times> string) list \<Rightarrow> rat \<Rightarrow> ProbeState \<Rightarrow> bool" where
  "throttle_knows ps t probes \<longleftrightarrow>
     jm_wf probes \<and> (\<forall>k u. jm_get probes k = Some u \<longrightarrow> 0 < u \<and> (u, k) \<in> set ps) \<and>
     (\<forall>a \<in> set ps. fst a \<le> t \<and>
        (case jm_get probes (snd a) of
           Some u \<Rightarrow> fst a \<le> u
         | None \<Rightarrow> PROBE_STATE_TTL_MS < t - fst a \<or> crowded ps (fst a) t (snd a)))"

lemma crowded_card:
  "crowded ps t u k \<longleftrightarrow> MAX_PROBE_KEYS \<le> card (snd ` {p \<in> set ps. t \<le> fst p \<and> fst p \<le> u \<and> snd p \<noteq> k})"
  by (simp add: crowded_def length_remdups_card_conv)

lemma crowded_mono: "crowded ps t u k \<Longrightarrow> set ps \<subseteq> set ps' \<Longrightarrow> u \<le> u' \<Longrightarrow> crowded ps' t u' k"
proof -
  assume c: "crowded ps t u k" "set ps \<subseteq> set ps'" "u \<le> u'"
  have "card (snd ` {p \<in> set ps. t \<le> fst p \<and> fst p \<le> u \<and> snd p \<noteq> k}) \<le> card (snd ` {p \<in> set ps'. t \<le> fst p \<and> fst p \<le> u' \<and> snd p \<noteq> k})"
    using c(2,3) by (intro card_mono image_mono) (auto intro: order_trans)
  then show ?thesis using c(1) by (simp add: crowded_card)
qed

lemma throttle_knows_later: "throttle_knows ps t probes \<Longrightarrow> t \<le> u \<Longrightarrow> throttle_knows ps u probes"
  unfolding throttle_knows_def
  by (fastforce intro: crowded_mono order_trans split: option.splits)

lemma throttle_knows_prune:
  assumes k: "throttle_knows ps now probes"
  shows "throttle_knows ps now (pruneProbeState now probes)"
proof -
  have wf: "jm_wf probes" using k by (simp add: throttle_knows_def)
  have get: "jm_get (pruneProbeState now probes) k = (case jm_get probes k of None \<Rightarrow> None
      | Some u \<Rightarrow> if u \<le> 0 \<or> PROBE_STATE_TTL_MS < now - u then None else Some u)" for k
    unfolding pruneProbeState_def jm_get_filter [OF wf] by (auto split: option.splits)
  have "case jm_get (pruneProbeState now probes) (snd a) of Some u \<Rightarrow> fst a \<le> u
      | None \<Rightarrow> PROBE_STATE_TTL_MS < now - fst a \<or> crowded ps (fst a) now (snd a)" if a: "a \<in> set ps" for a
  proof (cases "jm_get probes (snd a)")
    case None
    then show ?thesis using k a by (force simp: throttle_knows_def get)
  next
    case (Some u)
    then have "fst a \<le> u" "0 < u" using k a by (force simp: throttle_knows_def)+
    then show ?thesis using Some by (simp add: get)
  qed
  moreover have "jm_wf (pruneProbeState now probes)" using wf by (simp add: pruneProbeState_def jm_wf_filter)
  moreover have "0 < u \<and> (u, k) \<in> set ps" if "jm_get (pruneProbeState now probes) k = Some u" for k u
    using that assms by (auto simp: get throttle_knows_def split: option.splits if_splits)
  ultimately show ?thesis using k by (simp add: throttle_knows_def)
qed

lemma oldest_probe_least:
  "oldest_probe es best = Some e \<Longrightarrow> (\<forall>x \<in> set es. snd e \<le> snd x) \<and> (case best of None \<Rightarrow> True | Some b \<Rightarrow> snd e \<le> snd b)"
  by (induction es best rule: oldest_probe.induct) (fastforce split: option.splits if_splits)+

lemma throttle_knows_evict:
  assumes k: "throttle_knows ps now probes" and full: "MAX_PROBE_KEYS < length probes" and e: "oldest_probe probes None = Some e"
  shows "throttle_knows ps now (jm_del (fst e) probes)"
proof -
  have wf: "jm_wf probes" using k by (simp add: throttle_knows_def)
  have "e \<in> set probes" using oldest_probe_in [OF e] by simp
  then have old: "jm_get probes (fst e) = Some (snd e)" using jm_get_in_set [OF wf, of "fst e" "snd e"] by simp
  have crowd: "crowded ps (snd e) now (fst e)"
  proof -
    have "snd e \<le> u \<and> u \<le> now \<and> (u, k) \<in> set ps" if "(k, u) \<in> set probes" for k u
      using oldest_probe_least [OF e] that assms jm_get_in_set [OF wf, of k u] by (fastforce simp: throttle_knows_def)
    then have sub: "fst ` set probes - {fst e} \<subseteq> snd ` {p \<in> set ps. snd e \<le> fst p \<and> fst p \<le> now \<and> snd p \<noteq> fst e}"
      by (force simp: image_iff)
    have "length probes = card (fst ` set probes)" using wf by (metis distinct_card jm_wf_def length_map list.set_map)
    then have "MAX_PROBE_KEYS \<le> card (fst ` set probes - {fst e})" using full by (auto simp: card_Diff_singleton_if)
    also have "\<dots> \<le> card (snd ` {p \<in> set ps. snd e \<le> fst p \<and> fst p \<le> now \<and> snd p \<noteq> fst e})" by (rule card_mono [OF _ sub]) simp
    finally show ?thesis by (simp add: crowded_card)
  qed
  have "crowded ps (fst a) now (snd a)" if a: "a \<in> set ps" "snd a = fst e" for a
  proof -
    have "fst a \<le> snd e" using k a old by (force simp: throttle_knows_def)
    then have "card (snd ` {p \<in> set ps. snd e \<le> fst p \<and> fst p \<le> now \<and> snd p \<noteq> fst e})
        \<le> card (snd ` {p \<in> set ps. fst a \<le> fst p \<and> fst p \<le> now \<and> snd p \<noteq> fst e})"
      by (intro card_mono image_mono) auto
    then show ?thesis using crowd a(2) by (simp add: crowded_card)
  qed
  then show ?thesis using k wf unfolding throttle_knows_def by (auto split: option.splits)
qed

lemma throttle_knows_cap: "throttle_knows ps now probes \<Longrightarrow> throttle_knows ps now (enforceProbeStateCap probes)"
proof (induction probes rule: enforceProbeStateCap.induct)
  case (1 probes)
  show ?case
  proof (cases "length probes \<le> MAX_PROBE_KEYS \<or> oldest_probe probes None = None \<or> fst (the (oldest_probe probes None)) = []")
    case True
    then show ?thesis using 1(2) by (auto simp: enforceProbeStateCap.simps [of probes] split: option.splits)
  next
    case False
    then obtain e where e: "oldest_probe probes None = Some e" "fst e \<noteq> []" and full: "\<not> length probes \<le> MAX_PROBE_KEYS" by auto
    have "throttle_knows ps now (jm_del (fst e) probes)"
      by (rule throttle_knows_evict [OF 1(2) _ e(1)]) (use full in simp)
    from 1(1) [OF full e this] show ?thesis using e full by (simp add: enforceProbeStateCap.simps [of probes])
  qed
qed

lemma throttle_knows_mark:
  assumes k: "throttle_knows ps now (pruneProbeState now probes)" and now: "0 < now"
  shows "throttle_knows (ps @ [(now, key)]) now (markProbeAttempt now key (pruneProbeState now probes))"
proof -
  define m where "m = pruneProbeState now probes"
  have grow: "crowded ps t now k \<Longrightarrow> crowded (ps @ [(now, key)]) t now k" for t k by (erule crowded_mono) auto
  have "case jm_get (jm_set key now m) (snd a) of Some u \<Rightarrow> fst a \<le> u
      | None \<Rightarrow> PROBE_STATE_TTL_MS < now - fst a \<or> crowded (ps @ [(now, key)]) (fst a) now (snd a)" if a: "a \<in> set ps" for a
  proof -
    have "fst a \<le> now" "case jm_get m (snd a) of Some u \<Rightarrow> fst a \<le> u
      | None \<Rightarrow> PROBE_STATE_TTL_MS < now - fst a \<or> crowded ps (fst a) now (snd a)"
      using k a unfolding throttle_knows_def m_def [symmetric] by blast+
    then show ?thesis using grow by (auto split: option.splits)
  qed
  then have "throttle_knows (ps @ [(now, key)]) now (jm_set key now m)"
    using k now unfolding throttle_knows_def m_def [symmetric] by auto
  then show ?thesis unfolding markProbeAttempt_def prune_idem m_def by (rule throttle_knows_cap)
qed

lemma spaced_unless_crowded_mono:
  "spaced_unless_crowded ps a b \<Longrightarrow> set ps \<subseteq> set ps' \<Longrightarrow> spaced_unless_crowded ps' a b"
  unfolding spaced_unless_crowded_def by (auto intro: crowded_mono split: if_splits)

text \<open>A probe that finds the throttle open keeps its distance from all probes before.\<close>

lemma open_throttle_spaced:
  assumes k: "throttle_knows ps now (pruneProbeState now probes)" and go: "fst (isProbeThrottleOpen now key probes)" and a: "a \<in> set ps"
  shows "spaced_unless_crowded ps a (now, key)"
proof (cases "snd a = key")
  case True
  show ?thesis
  proof (cases "jm_get (pruneProbeState now probes) key")
    case None
    then have "PROBE_STATE_TTL_MS < now - fst a \<or> crowded ps (fst a) now (snd a)"
      using k a True by (force simp: throttle_knows_def)
    then show ?thesis by (auto simp: spaced_unless_crowded_def PROBE_STATE_TTL_MS_def MIN_PROBE_INTERVAL_MS_def)
  next
    case (Some u)
    then have "fst a \<le> u" using k a True by (force simp: throttle_knows_def)
    then show ?thesis using go Some by (simp add: spaced_unless_crowded_def isProbeThrottleOpen_def Let_def)
  qed
qed (simp add: spaced_unless_crowded_def)

lemma primary_probes_spaced:
  assumes "throttle_knows ps t probes" "sorted (t # map decided_at rs)" "list_all (\<lambda>r. 0 < decided_at r) rs"
  shows "sorted_wrt (spaced_unless_crowded (ps @ primary_probes rs probes)) (primary_probes rs probes) \<and>
    (\<forall>a \<in> set ps. \<forall>b \<in> set (primary_probes rs probes). spaced_unless_crowded (ps @ primary_probes rs probes) a b)"
  using assms
proof (induction rs arbitrary: ps t probes)
  case (Cons r rs)
  obtain res st where run: "run_fallback r probes = (res, st)" by fastforce
  have now: "throttle_knows ps (decided_at r) probes" using throttle_knows_later [OF Cons.prems(1)] Cons.prems(2) by simp
  note pruned = throttle_knows_prune [OF now] and throttle = run_fallback_throttle [OF run]
  have srt: "sorted (decided_at r # map decided_at rs)" "list_all (\<lambda>r. 0 < decided_at r) rs" using Cons.prems(2,3) by simp_all
  show ?case
  proof (cases "primary_probe r (fs_calls st)")
    case None
    then have "throttle_knows ps (decided_at r) (fs_probes st)" using throttle now pruned by auto
    from Cons.IH [OF this srt] show ?thesis by (simp add: run None probe_list_def)
  next
    case (Some x)
    obtain key where x: "x = (decided_at r, key)" and go: "fst (isProbeThrottleOpen (decided_at r) key probes)"
      and mark: "fs_probes st = markProbeAttempt (decided_at r) key (pruneProbeState (decided_at r) probes)"
      using throttle Some by (cases x) auto
    define es where "es = primary_probes rs (fs_probes st)"
    have all: "primary_probes (r # rs) probes = x # es" by (simp add: run Some probe_list_def es_def)
    have "throttle_knows (ps @ [x]) (decided_at r) (fs_probes st)"
      unfolding mark x by (rule throttle_knows_mark [OF pruned]) (use Cons.prems(3) in simp)
    note IH = Cons.IH [OF this srt, folded es_def, simplified]
    have "spaced_unless_crowded (ps @ x # es) a x" if "a \<in> set ps" for a
      by (rule spaced_unless_crowded_mono [OF open_throttle_spaced [OF pruned go that, folded x]]) auto
    then show ?thesis unfolding all using IH by auto
  qed
qed simp

text \<open>C26: probes are spaced. Over any number of runs, of any number of agents, whose decisions follow a positive clock that does not run
  backwards: two probes of the same key by the first models of their runs, that is, calls of a model whose
  provider is cooling down, lie at least half a minute apart, unless 256 other keys were probed in the time from the first to the second,
  so that the throttle has forgotten the first.\<close>

theorem probes_are_throttled:
  assumes "sorted (map decided_at rs)" "list_all (\<lambda>r. 0 < decided_at r) rs"
  shows "sorted_wrt (spaced_unless_crowded (primary_probes rs [])) (primary_probes rs [])"
proof -
  have "throttle_knows [] 0 []" by (simp add: throttle_knows_def)
  moreover have "sorted (0 # map decided_at rs)" using assms by (auto simp: list_all_iff less_imp_le)
  ultimately show ?thesis using primary_probes_spaced [of "[]" 0 "[]" rs] assms(2) by simp
qed

definition cooling_store :: AuthProfileStore where
  "cooling_store = \<lparr>as_profiles = [(''o'', ApiKeyCredential ''openai'' (Some ''k'') None)], as_order = None, as_lastGood = None,
     as_usageStats = Some [(''o'', no_stats\<lparr>us_cooldownUntil := Some 200000, us_cooldownReason := Some FR_rate_limit\<rparr>)]\<rparr>"

definition cooling_run :: "rat \<Rightarrow> (nat, string) FallbackRun" where
  "cooling_run t = \<lparr>fr_env = failing_env\<lparr>fe_run := \<lambda>_ _ _. RunOk 0, fe_clock := \<lambda>i. t + of_nat i\<rparr>,
     fr_store = Some cooling_store, fr_refreshed = None, fr_allowed = None, fr_added = map (Pair False) two_models\<rparr>"

lemma cooling_order:
  "t \<in> {100000, 110000, 130000} \<Longrightarrow>
     resolveAuthProfileOrder (fe_aliases failing_env) None cooling_store ''openai'' None t = ([''o''], cooling_store)"
  "resolveAuthProfileOrder (fe_aliases failing_env) None cooling_store ''zai'' None 110001 = ([], cooling_store)"
proof -
  let ?al = "fe_aliases failing_env"
  have clear: "snd (clearExpiredCooldowns cooling_store 100000) = cooling_store" "snd (clearExpiredCooldowns cooling_store 110000) = cooling_store"
    "snd (clearExpiredCooldowns cooling_store 130000) = cooling_store" "snd (clearExpiredCooldowns cooling_store 110001) = cooling_store"
    by code_simp+
  have cold: "isProfileInCooldown cooling_store ''o'' 100000 None" "isProfileInCooldown cooling_store ''o'' 110000 None"
    "isProfileInCooldown cooling_store ''o'' 130000 None"
    by code_simp+
  have o1: "order_candidates ?al None cooling_store ''openai'' 100000 = [''o'']" by code_simp
  have o2: "order_candidates ?al None cooling_store ''openai'' 110000 = [''o'']" by code_simp
  have o3: "order_candidates ?al None cooling_store ''openai'' 130000 = [''o'']" by code_simp
  have o4: "order_candidates ?al None cooling_store ''zai'' 110001 = []" by code_simp
  have e1: "explicit_order ?al None cooling_store ''openai'' = None" by code_simp
  have e2: "explicit_order ?al None cooling_store ''zai'' = None" by code_simp
  show "resolveAuthProfileOrder ?al None cooling_store ''openai'' None t = ([''o''], cooling_store)" if "t \<in> {100000, 110000, 130000}"
    using that clear cold o1 o2 o3 e1
    by (auto simp: resolveAuthProfileOrder_def put_first_def orderProfilesByMode_def sort_by_cooldown_def js_sort_def)
  show "resolveAuthProfileOrder ?al None cooling_store ''zai'' None 110001 = ([], cooling_store)"
    using clear o4 e2
    by (auto simp: resolveAuthProfileOrder_def put_first_def orderProfilesByMode_def sort_by_cooldown_def js_sort_def)
qed

lemma cooling_decision:
  "resolveCooldownDecision \<lparr>mc_provider = ''openai'', mc_model = ''a''\<rparr> True True True 100000 ''openai'' cooling_store [''o''] []
     = (AttemptInCooldown FR_unknown True, [])"
  "resolveCooldownDecision \<lparr>mc_provider = ''openai'', mc_model = ''a''\<rparr> True True True 110000 ''openai'' cooling_store [''o''] [(''openai'', 100000)]
     = (SuspendLanes FR_unknown, [(''openai'', 100000)])"
  "resolveCooldownDecision \<lparr>mc_provider = ''openai'', mc_model = ''a''\<rparr> True True True 130000 ''openai'' cooling_store [''o''] [(''openai'', 100000)]
     = (AttemptInCooldown FR_unknown True, [(''openai'', 100000)])"
  by code_simp+

lemma cooling_cold:
  "isProfileInCooldown cooling_store ''o'' 100000 (Some ''a'')" "isProfileInCooldown cooling_store ''o'' 110000 (Some ''a'')"
  "isProfileInCooldown cooling_store ''o'' 130000 (Some ''a'')"
  by code_simp+

lemma cooling_candidates: "run_candidates (cooling_run t) = two_models"
proof -
  have "collect_candidates None (map (Pair False) two_models) = two_models" by code_simp
  then show ?thesis by (simp add: run_candidates_def cooling_run_def)
qed

lemma cooling_key: "resolveProbeThrottleKey ''openai'' None = ''openai''"
  by code_simp

lemma cooling_fields:
  "fr_env (cooling_run t) = failing_env\<lparr>fe_run := \<lambda>_ _ _. RunOk 0, fe_clock := \<lambda>i. t + of_nat i\<rparr>"
  "fr_store (cooling_run t) = Some cooling_store" "fe_harness failing_env = (\<lambda>_. None)" "fe_classify failing_env = (\<lambda>_ _. None)"
  "fe_config failing_env = None" "fe_agentDir failing_env = None" "fe_sessionId failing_env = None"
  by (simp_all add: cooling_run_def failing_env_def)

lemmas run_evaluation = run_fallback_def runWithModelFallback_def cooling_candidates fallback_pass_def fallback_start_def plan_candidate_def
  runFallbackAttempt_def cooling_order cooling_cold cooling_key cooling_decision
  cooling_fields two_models_def shouldAllowCooldownProbeForReason_def shouldUseTransientCooldownProbeSlot_def markProbeAttempt_def
  pruneProbeState_def enforceProbeStateCap.simps MAX_PROBE_KEYS_def PROBE_STATE_TTL_MS_def push_attempt_def Let_def

lemma cooling_throttle:
  "fs_calls (snd (run_fallback (cooling_run 100000) [])) = [(\<lparr>mc_provider = ''openai'', mc_model = ''a''\<rparr>, True)]"
  "fs_probes (snd (run_fallback (cooling_run 100000) [])) = [(''openai'', 100000)]"
  "fs_calls (snd (run_fallback (cooling_run 110000) [(''openai'', 100000)])) = [(\<lparr>mc_provider = ''zai'', mc_model = ''b''\<rparr>, False)]"
  "fs_probes (snd (run_fallback (cooling_run 110000) [(''openai'', 100000)])) = [(''openai'', 100000)]"
  "fs_calls (snd (run_fallback (cooling_run 130000) [(''openai'', 100000)])) = [(\<lparr>mc_provider = ''openai'', mc_model = ''a''\<rparr>, True)]"
  by (simp_all add: run_evaluation)

text \<open>Three runs in a cooldown: the second, ten seconds after the probe of the first, passes its first model over.\<close>

theorem probes_are_throttled_witness:
  "primary_probes (map cooling_run [100000, 110000, 130000]) [] = [(100000, ''openai''), (130000, ''openai'')] \<and>
   sorted_wrt (spaced_unless_crowded (primary_probes (map cooling_run [100000, 110000, 130000]) []))
     (primary_probes (map cooling_run [100000, 110000, 130000]) [])"
proof
  show "primary_probes (map cooling_run [100000, 110000, 130000]) [] = [(100000, ''openai''), (130000, ''openai'')]"
    by (simp add: split_def cooling_throttle primary_probe_def cooling_candidates two_models_def provider_cooling_def cooling_fields
        cooling_order cooling_cold cooling_key probe_list_def decided_at_def)
  show "sorted_wrt (spaced_unless_crowded (primary_probes (map cooling_run [100000, 110000, 130000]) []))
     (primary_probes (map cooling_run [100000, 110000, 130000]) [])"
    by (rule probes_are_throttled) (simp_all add: decided_at_def cooling_run_def)
qed

end
