(* ===== verification/Retry.thy ===== *)
theory Retry
  imports JsString JsNumber "HOL-Library.Word"
begin

text \<open>
  Retries (src/src/infra/retry.ts, retry-policy.ts), the delays of reconnects and the sleep that can be
  aborted (src/src/infra/backoff.ts). The operation that is retried, the decision whether an error is
  worth it and the 32 random bits of a jitter (src/src/infra/secure-random.ts) are arguments; the
  waits are recorded instead of slept.
\<close>

section \<open>Settings\<close>

definition generateSecureFraction :: "32 word \<Rightarrow> rat" where
  "generateSecureFraction bits = of_int (uint bits) / 4294967296"

record RetryConfig =
  rt_attempts :: "js_number option"
  rt_minDelayMs :: "js_number option"
  rt_maxDelayMs :: "js_number option"
  rt_jitter :: "js_number option"

record ResolvedRetryConfig =
  rr_attempts :: rat
  rr_minDelayMs :: rat
  rr_maxDelayMs :: rat
  rr_jitter :: rat

definition DEFAULT_RETRY_CONFIG :: ResolvedRetryConfig where
  "DEFAULT_RETRY_CONFIG = \<lparr>rr_attempts = 3, rr_minDelayMs = 300, rr_maxDelayMs = 30000, rr_jitter = 0\<rparr>"

definition CHANNEL_API_RETRY_DEFAULTS :: ResolvedRetryConfig where
  "CHANNEL_API_RETRY_DEFAULTS = \<lparr>rr_attempts = 3, rr_minDelayMs = 400, rr_maxDelayMs = 30000, rr_jitter = 1 / 10\<rparr>"

definition clampNumber :: "js_number option \<Rightarrow> rat \<Rightarrow> rat \<Rightarrow> rat option \<Rightarrow> rat" where
  "clampNumber v fallback mn mx =
    (case v of Some (Fin q) \<Rightarrow> (case mx of None \<Rightarrow> max q mn | Some m \<Rightarrow> min (max q mn) m) | _ \<Rightarrow> fallback)"

definition resolveRetryConfig :: "ResolvedRetryConfig \<Rightarrow> RetryConfig \<Rightarrow> ResolvedRetryConfig" where
  "resolveRetryConfig defaults overrides =
    (let attempts = max 1 (of_int (js_round (clampNumber (rt_attempts overrides) (rr_attempts defaults) 1 None)));
         minDelayMs = max 0 (of_int (js_round (clampNumber (rt_minDelayMs overrides) (rr_minDelayMs defaults) 0 None)));
         maxDelayMs = max minDelayMs (of_int (js_round (clampNumber (rt_maxDelayMs overrides) (rr_maxDelayMs defaults) 0 None)));
         jitter = clampNumber (rt_jitter overrides) (rr_jitter defaults) 0 (Some 1)
     in \<lparr>rr_attempts = attempts, rr_minDelayMs = minDelayMs, rr_maxDelayMs = maxDelayMs, rr_jitter = jitter\<rparr>)"

text \<open>The settings of a call given on top of those of the configuration; a setting that is \<open>None\<close> is not a
  field of the object.\<close>

definition merge_retry :: "RetryConfig \<Rightarrow> RetryConfig \<Rightarrow> RetryConfig" where
  "merge_retry configRetry retry =
    \<lparr>rt_attempts = or_opt (rt_attempts retry) (rt_attempts configRetry),
     rt_minDelayMs = or_opt (rt_minDelayMs retry) (rt_minDelayMs configRetry),
     rt_maxDelayMs = or_opt (rt_maxDelayMs retry) (rt_maxDelayMs configRetry),
     rt_jitter = or_opt (rt_jitter retry) (rt_jitter configRetry)\<rparr>"

section \<open>Delays\<close>

datatype JitterMode = SymmetricJitter | PositiveJitter

definition applyJitter :: "rat \<Rightarrow> rat \<Rightarrow> JitterMode \<Rightarrow> 32 word \<Rightarrow> rat" where
  "applyJitter delayMs jitter mode bits =
    (if jitter \<le> 0 then delayMs
     else
       let fraction = generateSecureFraction bits;
           offset = (if mode = PositiveJitter then fraction * jitter else (fraction * 2 - 1) * jitter);
           raw = delayMs * (1 + offset)
       in max 0 (if mode = PositiveJitter then of_int \<lceil>raw\<rceil> else of_int (js_round raw)))"

definition min_cap :: "rat \<Rightarrow> rat option \<Rightarrow> rat" where
  "min_cap d cap = (case cap of None \<Rightarrow> d | Some m \<Rightarrow> min d m)"

text \<open>The wait after the given failed attempt; the hint of the server is taken when it is finite, and no
  cap stands for \<open>Infinity\<close>.\<close>

definition retry_cap :: "ResolvedRetryConfig \<Rightarrow> rat option" where
  "retry_cap cfg = (if 0 < rr_maxDelayMs cfg then Some (rr_maxDelayMs cfg) else None)"

definition retry_delay :: "ResolvedRetryConfig \<Rightarrow> nat \<Rightarrow> js_number option \<Rightarrow> 32 word \<Rightarrow> rat" where
  "retry_delay cfg attempt retryAfterMs bits =
    (let hint = (case retryAfterMs of Some (Fin h) \<Rightarrow> Some h | _ \<Rightarrow> None);
         baseDelay = (case hint of Some h \<Rightarrow> max h (rr_minDelayMs cfg) | None \<Rightarrow> rr_minDelayMs cfg * 2 ^ (attempt - 1));
         delay = min_cap baseDelay (retry_cap cfg);
         canHonorRetryAfter = (case hint of None \<Rightarrow> False
           | Some h \<Rightarrow> (case retry_cap cfg of None \<Rightarrow> True | Some m \<Rightarrow> h \<le> m));
         jittered = applyJitter delay (rr_jitter cfg) (if canHonorRetryAfter then PositiveJitter else SymmetricJitter) bits
     in min_cap (max jittered (rr_minDelayMs cfg)) (retry_cap cfg))"

section \<open>The loops\<close>

datatype ('r, 'e) try_result = TryOk 'r | TryFails 'e

text \<open>A recorded wait: the attempt that failed, its error, and the delay.\<close>

type_synonym 'e wait = "nat \<times> 'e \<times> rat"

record 'e RetryOptions =
  ro_config :: RetryConfig
  ro_shouldRetry :: "('e \<Rightarrow> nat \<Rightarrow> bool) option"
  ro_retryAfterMs :: "('e \<Rightarrow> js_number option) option"

definition worth_retrying :: "'e RetryOptions \<Rightarrow> 'e \<Rightarrow> nat \<Rightarrow> bool" where
  "worth_retrying opts err attempt = (case ro_shouldRetry opts of None \<Rightarrow> True | Some f \<Rightarrow> f err attempt)"

definition retry_hint :: "'e RetryOptions \<Rightarrow> 'e \<Rightarrow> js_number option" where
  "retry_hint opts err = Option.bind (ro_retryAfterMs opts) (\<lambda>f. f err)"

text \<open>\<open>left\<close> attempts may follow the one that is made now. The result carries the number of calls and the
  waits.\<close>

primrec retry_loop ::
  "(nat \<Rightarrow> ('r, 'e) try_result) \<Rightarrow> 'e RetryOptions \<Rightarrow> ResolvedRetryConfig \<Rightarrow> (nat \<Rightarrow> 32 word) \<Rightarrow> nat \<Rightarrow> nat
   \<Rightarrow> ('r, 'e) try_result \<times> nat \<times> 'e wait list" where
  "retry_loop fn opts cfg bits attempt 0 = (fn attempt, 1, [])"
| "retry_loop fn opts cfg bits attempt (Suc left) =
    (case fn attempt of
       TryOk r \<Rightarrow> (TryOk r, 1, [])
     | TryFails err \<Rightarrow>
         if \<not> worth_retrying opts err attempt then (TryFails err, 1, [])
         else
           let delay = retry_delay cfg attempt (retry_hint opts err) (bits attempt) in
           (case retry_loop fn opts cfg bits (Suc attempt) left of
              (r, calls, waits) \<Rightarrow> (r, Suc calls, (attempt, err, delay) # waits)))"

definition retryAsync ::
  "(nat \<Rightarrow> ('r, 'e) try_result) \<Rightarrow> 'e RetryOptions \<Rightarrow> (nat \<Rightarrow> 32 word) \<Rightarrow> ('r, 'e) try_result \<times> nat \<times> 'e wait list" where
  "retryAsync fn opts bits =
    (let cfg = resolveRetryConfig DEFAULT_RETRY_CONFIG (ro_config opts)
     in retry_loop fn opts cfg bits 1 (nat \<lfloor>rr_attempts cfg\<rfloor> - 1))"

text \<open>The form with a number of attempts and a delay that doubles.\<close>

primrec retry_simple_loop ::
  "(nat \<Rightarrow> ('r, 'e) try_result) \<Rightarrow> rat \<Rightarrow> nat \<Rightarrow> nat \<Rightarrow> ('r, 'e) try_result \<times> nat \<times> 'e wait list" where
  "retry_simple_loop fn initialDelayMs i 0 = (fn i, 1, [])"
| "retry_simple_loop fn initialDelayMs i (Suc left) =
    (case fn i of
       TryOk r \<Rightarrow> (TryOk r, 1, [])
     | TryFails err \<Rightarrow>
         (case retry_simple_loop fn initialDelayMs (Suc i) left of
            (r, calls, waits) \<Rightarrow> (r, Suc calls, (i, err, initialDelayMs * 2 ^ i) # waits)))"

definition retryAsyncSimple ::
  "(nat \<Rightarrow> ('r, 'e) try_result) \<Rightarrow> rat \<Rightarrow> rat \<Rightarrow> ('r, 'e) try_result \<times> nat \<times> 'e wait list" where
  "retryAsyncSimple fn attempts initialDelayMs = retry_simple_loop fn initialDelayMs 0 (nat (max 1 (js_round attempts)) - 1)"

section \<open>Channel APIs\<close>

text \<open>\<open>CHANNEL_API_RETRY_RE\<close>, which ignores case.\<close>

definition CHANNEL_API_RETRY_WORDS :: "string list" where
  "CHANNEL_API_RETRY_WORDS = [''429'', ''421'', ''timeout'', ''connect'', ''reset'', ''closed'', ''unavailable'', ''temporarily'',
     ''misdirected request'']"

definition channel_api_retry_re :: "string \<Rightarrow> bool" where
  "channel_api_retry_re message = list_ex (\<lambda>w. js_includes (js_lower message) w) CHANNEL_API_RETRY_WORDS"

definition resolveChannelApiShouldRetry ::
  "('e \<Rightarrow> string) \<Rightarrow> ('e \<Rightarrow> bool) option \<Rightarrow> bool \<Rightarrow> 'e \<Rightarrow> bool" where
  "resolveChannelApiShouldRetry formatErrorMessage shouldRetry strictShouldRetry err =
    (case shouldRetry of
       None \<Rightarrow> channel_api_retry_re (formatErrorMessage err)
     | Some f \<Rightarrow> if strictShouldRetry then f err else f err \<or> channel_api_retry_re (formatErrorMessage err))"

text \<open>Where an error object may carry \<open>retry_after\<close>: its own \<open>parameters\<close>, those of \<open>response\<close> (an object that
  has the key), or those of \<open>error\<close>.\<close>

record ApiErrorParameters =
  ap_retry_after :: "js_number option"

record ApiErrorShape =
  ae_parameters :: "ApiErrorParameters option"
  ae_response :: "ApiErrorParameters option option"
  ae_error :: "ApiErrorParameters option option"

definition getChannelApiRetryAfterMs :: "ApiErrorShape option \<Rightarrow> js_number option" where
  "getChannelApiRetryAfterMs err =
    (case err of None \<Rightarrow> None
     | Some e \<Rightarrow>
         let candidate = (case ae_parameters e of Some p \<Rightarrow> ap_retry_after p
               | None \<Rightarrow> (case ae_response e of Some ps \<Rightarrow> Option.bind ps ap_retry_after
                   | None \<Rightarrow> (case ae_error e of Some ps \<Rightarrow> Option.bind ps ap_retry_after | None \<Rightarrow> None)))
         in (case candidate of Some (Fin q) \<Rightarrow> Some (Fin (q * 1000)) | _ \<Rightarrow> None))"

definition resolved_overrides :: "ResolvedRetryConfig \<Rightarrow> RetryConfig" where
  "resolved_overrides cfg =
    \<lparr>rt_attempts = Some (Fin (rr_attempts cfg)), rt_minDelayMs = Some (Fin (rr_minDelayMs cfg)),
     rt_maxDelayMs = Some (Fin (rr_maxDelayMs cfg)), rt_jitter = Some (Fin (rr_jitter cfg))\<rparr>"

definition createRateLimitRetryRunner ::
  "RetryConfig \<Rightarrow> RetryConfig \<Rightarrow> ResolvedRetryConfig \<Rightarrow> ('e \<Rightarrow> bool) \<Rightarrow> ('e \<Rightarrow> js_number option) option
   \<Rightarrow> (nat \<Rightarrow> ('r, 'e) try_result) \<Rightarrow> (nat \<Rightarrow> 32 word) \<Rightarrow> ('r, 'e) try_result \<times> nat \<times> 'e wait list" where
  "createRateLimitRetryRunner retry configRetry defaults shouldRetry retryAfterMs fn bits =
    retryAsync fn \<lparr>ro_config = resolved_overrides (resolveRetryConfig defaults (merge_retry configRetry retry)),
                   ro_shouldRetry = Some (\<lambda>e _. shouldRetry e), ro_retryAfterMs = retryAfterMs\<rparr> bits"

definition createChannelApiRetryRunner ::
  "('e \<Rightarrow> string) \<Rightarrow> ('e \<Rightarrow> ApiErrorShape option) \<Rightarrow> RetryConfig \<Rightarrow> RetryConfig \<Rightarrow> ('e \<Rightarrow> bool) option \<Rightarrow> bool
   \<Rightarrow> (nat \<Rightarrow> ('r, 'e) try_result) \<Rightarrow> (nat \<Rightarrow> 32 word) \<Rightarrow> ('r, 'e) try_result \<times> nat \<times> 'e wait list" where
  "createChannelApiRetryRunner formatErrorMessage shape retry configRetry shouldRetry strictShouldRetry fn bits =
    retryAsync fn \<lparr>ro_config = resolved_overrides (resolveRetryConfig CHANNEL_API_RETRY_DEFAULTS (merge_retry configRetry retry)),
                   ro_shouldRetry = Some (\<lambda>e _. resolveChannelApiShouldRetry formatErrorMessage shouldRetry strictShouldRetry e),
                   ro_retryAfterMs = Some (\<lambda>e. getChannelApiRetryAfterMs (shape e))\<rparr> bits"

section \<open>Backoff and sleep\<close>

record BackoffPolicy =
  bo_initialMs :: rat
  bo_maxMs :: rat
  bo_factor :: rat
  bo_jitter :: rat

definition computeBackoff :: "BackoffPolicy \<Rightarrow> int \<Rightarrow> rat \<Rightarrow> rat" where
  "computeBackoff policy attempt random =
    (let base = bo_initialMs policy * bo_factor policy ^ nat (max (attempt - 1) 0);
         jitter = base * bo_jitter policy * random
     in min (bo_maxMs policy) (of_int (js_round (base + jitter))))"

text \<open>The promise of \<open>sleepWithAbort\<close>: its timer, its listener on the signal, and how it was settled.\<close>

datatype sleep_end = SleepResolved | SleepRejected

record SleepState =
  sl_settled :: bool
  sl_timer :: bool
  sl_listening :: bool
  sl_end :: "sleep_end option"

definition sleep_abort :: "SleepState \<Rightarrow> SleepState" where
  "sleep_abort s =
    (if sl_settled s then s
     else s\<lparr>sl_settled := True, sl_timer := False, sl_listening := False, sl_end := Some SleepRejected\<rparr>)"

definition sleep_fire :: "SleepState \<Rightarrow> SleepState" where
  "sleep_fire s = s\<lparr>sl_settled := True, sl_timer := False, sl_listening := False, sl_end := or_opt (sl_end s) (Some SleepResolved)\<rparr>"

text \<open>The state when the call returns; the signal is absent, or given with its \<open>aborted\<close> flag.\<close>

definition sleepWithAbort :: "rat \<Rightarrow> bool option \<Rightarrow> SleepState" where
  "sleepWithAbort ms abortSignal =
    (if ms \<le> 0 then \<lparr>sl_settled = True, sl_timer = False, sl_listening = False, sl_end = Some SleepResolved\<rparr>
     else
       let s = \<lparr>sl_settled = False, sl_timer = False, sl_listening = (abortSignal \<noteq> None), sl_end = None\<rparr> in
       if abortSignal = Some True then sleep_abort s else s\<lparr>sl_timer := True\<rparr>)"

datatype sleep_event = TimerEvent | AbortEvent

text \<open>The timer fires only while it is armed, and the signal reaches only a listener.\<close>

definition sleep_event_step :: "SleepState \<Rightarrow> sleep_event \<Rightarrow> SleepState" where
  "sleep_event_step s ev =
    (case ev of TimerEvent \<Rightarrow> if sl_timer s then sleep_fire s else s
              | AbortEvent \<Rightarrow> if sl_listening s then sleep_abort s else s)"

section \<open>Bounds of the waits\<close>

lemma resolved_bounds:
  "1 \<le> rr_attempts (resolveRetryConfig d ov)" "0 \<le> rr_minDelayMs (resolveRetryConfig d ov)"
  "rr_minDelayMs (resolveRetryConfig d ov) \<le> rr_maxDelayMs (resolveRetryConfig d ov)"
  by (simp_all add: resolveRetryConfig_def Let_def)

lemma fraction_bounds: "0 \<le> generateSecureFraction bits" "generateSecureFraction bits < 1"
proof -
  have lower: "0 \<le> uint bits" and upper: "uint bits < 2 ^ 32" using unsigned_less [of bits] by simp_all
  have "(of_int (uint bits) :: rat) < of_int (2 ^ 32)" using upper by (simp only: of_int_less_iff)
  moreover have "(0 :: rat) \<le> of_int (uint bits)" using lower by (simp only: of_int_0_le_iff)
  ultimately show "0 \<le> generateSecureFraction bits" "generateSecureFraction bits < 1"
    unfolding generateSecureFraction_def by (simp_all only: zero_le_divide_iff, simp_all)
qed

lemma positive_jitter_grows:
  assumes "0 \<le> delay"
  shows "delay \<le> applyJitter delay j PositiveJitter bits"
proof (cases "j \<le> 0")
  case False
  have "delay * 1 \<le> delay * (1 + generateSecureFraction bits * j)"
    using assms fraction_bounds(1) [of bits] False by (intro mult_left_mono) simp_all
  then have "delay \<le> of_int \<lceil>delay * (1 + generateSecureFraction bits * j)\<rceil>" using le_of_int_ceiling [of "delay * (1 + generateSecureFraction bits * j)"] by linarith
  then show ?thesis using False by (simp add: applyJitter_def Let_def)
qed (simp add: applyJitter_def)

definition retry_wait_ok :: "'e RetryOptions \<Rightarrow> ResolvedRetryConfig \<Rightarrow> 'e wait \<Rightarrow> bool" where
  "retry_wait_ok opts cfg w \<longleftrightarrow>
    (case w of (attempt, err, delay) \<Rightarrow>
       rr_minDelayMs cfg \<le> delay \<and>
       (case retry_cap cfg of None \<Rightarrow> True | Some m \<Rightarrow> delay \<le> m) \<and>
       (case retry_hint opts err of
          Some (Fin h) \<Rightarrow> (case retry_cap cfg of None \<Rightarrow> h \<le> delay | Some m \<Rightarrow> if h \<le> m then h \<le> delay else True)
        | _ \<Rightarrow> True))"

lemma retry_delay_ok:
  assumes "cfg = resolveRetryConfig d ov"
  shows "retry_wait_ok opts cfg (attempt, err, retry_delay cfg attempt (retry_hint opts err) bits)"
proof -
  have b: "0 \<le> rr_minDelayMs cfg" "rr_minDelayMs cfg \<le> rr_maxDelayMs cfg" using resolved_bounds assms by simp_all
  define hint where "hint = (case retry_hint opts err of Some (Fin h) \<Rightarrow> Some h | _ \<Rightarrow> None)"
  have hint_Some: "hint = Some h \<longleftrightarrow> retry_hint opts err = Some (Fin h)" for h
    by (auto simp: hint_def split: option.splits js_number.splits)
  show ?thesis
  proof (cases "hint")
    case None
    then have "\<And>h. retry_hint opts err \<noteq> Some (Fin h)" using hint_Some by simp
    then show ?thesis using b
      by (auto simp: retry_wait_ok_def retry_delay_def Let_def min_cap_def retry_cap_def split: option.splits js_number.splits)
  next
    case (Some h)
    then have h: "retry_hint opts err = Some (Fin h)" by (simp add: hint_Some)
    define base where "base = min_cap (max h (rr_minDelayMs cfg)) (retry_cap cfg)"
    have base: "0 \<le> base" using b by (auto simp: base_def min_cap_def retry_cap_def le_max_iff_disj split: option.splits)
    show ?thesis
    proof (cases "case retry_cap cfg of None \<Rightarrow> True | Some m \<Rightarrow> h \<le> m")
      case True
      have "base \<le> applyJitter base (rr_jitter cfg) PositiveJitter bits" by (rule positive_jitter_grows [OF base])
      moreover have "h \<le> base" using True by (auto simp: base_def min_cap_def split: option.splits)
      moreover have "retry_delay cfg attempt (retry_hint opts err) bits
          = min_cap (max (applyJitter base (rr_jitter cfg) PositiveJitter bits) (rr_minDelayMs cfg)) (retry_cap cfg)"
        using True by (simp add: retry_delay_def Let_def h base_def split: option.splits)
      ultimately show ?thesis using b True h
        by (auto simp: retry_wait_ok_def min_cap_def retry_cap_def le_max_iff_disj split: option.splits if_splits)
    next
      case False
      then show ?thesis using b h
        by (auto simp: retry_wait_ok_def retry_delay_def Let_def min_cap_def retry_cap_def split: option.splits if_splits)
    qed
  qed
qed

lemma retry_loop_ok:
  assumes "cfg = resolveRetryConfig d ov"
  shows "case retry_loop fn opts cfg bits attempt left of (r, calls, waits) \<Rightarrow>
    0 < calls \<and> calls \<le> Suc left \<and> r = fn (attempt + (calls - 1)) \<and> map fst waits = [attempt..<attempt + (calls - 1)] \<and>
    list_all (\<lambda>w. retry_wait_ok opts cfg w \<and> fn (fst w) = TryFails (fst (snd w)) \<and> worth_retrying opts (fst (snd w)) (fst w)) waits \<and>
    (\<forall>e. r = TryFails e \<longrightarrow> calls = Suc left \<or> \<not> worth_retrying opts e (attempt + (calls - 1)))"
proof (induction left arbitrary: attempt)
  case 0
  then show ?case by (simp split: try_result.splits)
next
  case (Suc left)
  show ?case
  proof (cases "fn attempt")
    case (TryFails err)
    show ?thesis
    proof (cases "worth_retrying opts err attempt")
      case True
      obtain r calls waits where rec: "retry_loop fn opts cfg bits (Suc attempt) left = (r, calls, waits)" by (metis prod_cases3)
      have IH: "0 < calls" "calls \<le> Suc left" "r = fn (Suc attempt + (calls - 1))" "map fst waits = [Suc attempt..<Suc attempt + (calls - 1)]"
        "list_all (\<lambda>w. retry_wait_ok opts cfg w \<and> fn (fst w) = TryFails (fst (snd w)) \<and> worth_retrying opts (fst (snd w)) (fst w)) waits"
        "\<And>e. r = TryFails e \<Longrightarrow> calls = Suc left \<or> \<not> worth_retrying opts e (Suc attempt + (calls - 1))"
        using Suc.IH [of "Suc attempt"] unfolding rec prod.case by blast+
      obtain k where k: "calls = Suc k" using IH(1) by (cases calls) auto
      have range: "attempt # map fst waits = [attempt..<attempt + calls]"
        using IH(4) by (simp add: k upt_conv_Cons)
      have "r = fn (attempt + calls)" "\<And>e. r = TryFails e \<Longrightarrow> calls = Suc left \<or> \<not> worth_retrying opts e (attempt + calls)"
        using IH(3,6) by (simp_all add: k)
      then show ?thesis using TryFails True IH(1,2,5) range retry_delay_ok [OF assms, of opts attempt err "bits attempt"]
        by (simp add: rec Let_def)
    qed (simp add: TryFails)
  qed simp
qed

lemma retryAsync_loop:
  "retryAsync fn opts bits = retry_loop fn opts (resolveRetryConfig DEFAULT_RETRY_CONFIG (ro_config opts)) bits 1
     (nat \<lfloor>rr_attempts (resolveRetryConfig DEFAULT_RETRY_CONFIG (ro_config opts))\<rfloor> - 1)"
  by (simp add: retryAsync_def Let_def)

lemma attempts_nat: "1 \<le> nat \<lfloor>rr_attempts (resolveRetryConfig d ov)\<rfloor>"
  using resolved_bounds(1) [of d ov] by linarith

text \<open>C27: retries are bounded. An operation is called at least once and at most as often as the settings allow,
  again only after an error worth it, and the outcome is the one of the last call; an error is given up on
  only when the attempts are used up or it is not worth a retry. Every wait lies between the smallest and
  the greatest delay, and is no shorter than the server asked for if that is within the limit.\<close>

theorem retries_are_bounded:
  "(case retryAsync fn opts bits of (r, calls, waits) \<Rightarrow>
     let cfg = resolveRetryConfig DEFAULT_RETRY_CONFIG (ro_config opts); attempts = nat \<lfloor>rr_attempts cfg\<rfloor>
     in 0 < calls \<and> calls \<le> attempts \<and> r = fn calls \<and> map fst waits = [1..<calls] \<and>
        list_all (\<lambda>w. retry_wait_ok opts cfg w \<and> fn (fst w) = TryFails (fst (snd w)) \<and> worth_retrying opts (fst (snd w)) (fst w)) waits \<and>
        (case r of TryOk _ \<Rightarrow> True | TryFails e \<Rightarrow> if calls < attempts then \<not> worth_retrying opts e calls else True))"
proof -
  define cfg where "cfg = resolveRetryConfig DEFAULT_RETRY_CONFIG (ro_config opts)"
  obtain r calls waits where run: "retryAsync fn opts bits = (r, calls, waits)" by (metis prod_cases3)
  have n: "1 \<le> nat \<lfloor>rr_attempts cfg\<rfloor>" unfolding cfg_def by (rule attempts_nat)
  note ok = retry_loop_ok [OF cfg_def, where fn = fn and opts = opts and bits = bits and attempt = 1 and left = "nat \<lfloor>rr_attempts cfg\<rfloor> - 1", unfolded cfg_def, folded retryAsync_loop, unfolded run prod.case]
  obtain k where k: "calls = Suc k" using ok by (cases calls) auto
  have le: "calls \<le> nat \<lfloor>rr_attempts cfg\<rfloor>" using ok n unfolding cfg_def by linarith
  have last: "case r of TryOk _ \<Rightarrow> True | TryFails e \<Rightarrow> if calls < nat \<lfloor>rr_attempts cfg\<rfloor> then \<not> worth_retrying opts e calls else True"
  proof (cases r)
    case (TryFails e)
    then have "calls = Suc (nat \<lfloor>rr_attempts cfg\<rfloor> - 1) \<or> \<not> worth_retrying opts e (1 + (calls - 1))"
      using ok unfolding cfg_def [symmetric] by blast
    then show ?thesis using TryFails n by (auto simp: k)
  qed simp
  have "r = fn calls" "map fst waits = [1..<calls]" "0 < calls" using ok by (simp_all add: k)
  then show ?thesis using ok le last unfolding run prod.case Let_def cfg_def [symmetric] by blast
qed

text \<open>No message is sent twice on a guess. When a channel's own test for retries is declared strict, an
  operation is repeated only after errors that this test accepts, whatever the text of the error.\<close>

lemma strict_retries_only_on_request:
  "(case createChannelApiRetryRunner fmt shape retry configRetry (Some shouldRetry) True fn bits of (r, calls, waits) \<Rightarrow>
     list_all (\<lambda>w. fn (fst w) = TryFails (fst (snd w)) \<and> shouldRetry (fst (snd w))) waits \<and> length waits = calls - 1)"
proof -
  define opts where "opts = \<lparr>ro_config = resolved_overrides (resolveRetryConfig CHANNEL_API_RETRY_DEFAULTS (merge_retry configRetry retry)),
                   ro_shouldRetry = Some (\<lambda>e (_ :: nat). resolveChannelApiShouldRetry fmt (Some shouldRetry) True e),
                   ro_retryAfterMs = Some (\<lambda>e. getChannelApiRetryAfterMs (shape e))\<rparr>"
  obtain r calls waits where run: "retryAsync fn opts bits = (r, calls, waits)" by (metis prod_cases3)
  have worth: "worth_retrying opts e i = shouldRetry e" for e i
    by (simp add: worth_retrying_def opts_def resolveChannelApiShouldRetry_def)
  note ok = retry_loop_ok [OF refl, where fn = fn and opts = opts and d = DEFAULT_RETRY_CONFIG and ov = "ro_config opts" and bits = bits
      and attempt = 1 and left = "nat \<lfloor>rr_attempts (resolveRetryConfig DEFAULT_RETRY_CONFIG (ro_config opts))\<rfloor> - 1", folded retryAsync_loop, unfolded run prod.case]
  have "map fst waits = [1..<1 + (calls - 1)]" using ok by blast
  then have "length (map fst waits) = length [1..<1 + (calls - 1)]" by (rule arg_cong)
  then have "length waits = calls - 1" unfolding length_map length_upt by simp
  moreover have "list_all (\<lambda>w. fn (fst w) = TryFails (fst (snd w)) \<and> shouldRetry (fst (snd w))) waits"
    using ok by (auto simp: list_all_iff worth)
  ultimately show ?thesis unfolding createChannelApiRetryRunner_def opts_def [symmetric] run by simp
qed

section \<open>The sleep\<close>

definition sleep_clean :: "SleepState \<Rightarrow> bool" where
  "sleep_clean s \<longleftrightarrow> (sl_settled s \<longleftrightarrow> sl_end s \<noteq> None) \<and> (if sl_settled s then \<not> sl_timer s \<and> \<not> sl_listening s else sl_timer s)"

lemma sleep_step_clean: "sleep_clean s \<Longrightarrow> sleep_clean (sleep_event_step s ev)"
  by (cases ev) (auto simp: sleep_clean_def sleep_event_step_def sleep_fire_def sleep_abort_def)

lemma sleep_settles_once:
  "sleep_clean (foldl sleep_event_step (sleepWithAbort ms signal) evs) \<and>
   (sl_end s \<noteq> None \<and> sleep_clean s \<longrightarrow> foldl sleep_event_step s evs = s)"
proof
  have start: "sleep_clean (sleepWithAbort ms signal)"
    by (auto simp: sleep_clean_def sleepWithAbort_def Let_def sleep_abort_def)
  show "sleep_clean (foldl sleep_event_step (sleepWithAbort ms signal) evs)"
    using start by (induction evs rule: rev_induct) (simp_all add: sleep_step_clean)
  show "sl_end s \<noteq> None \<and> sleep_clean s \<longrightarrow> foldl sleep_event_step s evs = s"
  proof
    assume s: "sl_end s \<noteq> None \<and> sleep_clean s"
    then have "sleep_event_step s ev = s" for ev
      by (cases ev) (auto simp: sleep_clean_def sleep_event_step_def)
    then show "foldl sleep_event_step s evs = s" by (induction evs) simp_all
  qed
qed

end
