(* ===== verification/SessionReset.thy ===== *)
theory SessionReset
  imports SessionConversation JsNumber
begin

text \<open>
  When a session is stale (src/src/config/sessions/reset-policy.ts, reset.ts and the loaded thread
  information of src/src/channels/plugins/session-thread-info-loaded.ts): the policy for its type and
  channel, the last daily reset and the idle window. Local time is the argument of the model: the instant
  of an hour on the day of an instant (\<open>setHours\<close>), and the same time a day earlier (\<open>setDate\<close>).
\<close>

section \<open>Policy\<close>

datatype SessionResetMode = DailyMode | IdleMode

datatype SessionResetType = DirectType | GroupType | ThreadType

record SessionResetConfig =
  rsc_mode :: "SessionResetMode option"
  rsc_atHour :: "js_number option"
  rsc_idleMinutes :: "js_number option"

record SessionResetByTypeConfig =
  rb_direct :: "SessionResetConfig option"
  rb_dm :: "SessionResetConfig option"
  rb_group :: "SessionResetConfig option"
  rb_thread :: "SessionResetConfig option"

record SessionResetSettings =
  se_idleMinutes :: "js_number option"
  se_reset :: "SessionResetConfig option"
  se_resetByType :: "SessionResetByTypeConfig option"
  se_resetByChannel :: "(string, SessionResetConfig) jsmap option"

record SessionResetPolicy =
  rp_mode :: SessionResetMode
  rp_atHour :: int
  rp_idleMinutes :: "int option"
  rp_configured :: bool

definition DEFAULT_RESET_MODE :: SessionResetMode where "DEFAULT_RESET_MODE = DailyMode"
definition DEFAULT_RESET_AT_HOUR :: int where "DEFAULT_RESET_AT_HOUR = 4"
definition DEFAULT_IDLE_MINUTES :: int where "DEFAULT_IDLE_MINUTES = 0"

definition normalizeResetAtHour :: "js_number option \<Rightarrow> int" where
  "normalizeResetAtHour v =
    (case v of
       Some (Fin q) \<Rightarrow> (let n = \<lfloor>q\<rfloor> in if n < 0 then 0 else if 23 < n then 23 else n)
     | _ \<Rightarrow> DEFAULT_RESET_AT_HOUR)"

definition reset_for_type :: "SessionResetByTypeConfig option \<Rightarrow> SessionResetType \<Rightarrow> SessionResetConfig option" where
  "reset_for_type byType resetType =
    (case byType of None \<Rightarrow> None
     | Some b \<Rightarrow> (case resetType of DirectType \<Rightarrow> or_opt (rb_direct b) (rb_dm b) | GroupType \<Rightarrow> rb_group b | ThreadType \<Rightarrow> rb_thread b))"

definition resolveSessionResetPolicy ::
  "SessionResetSettings option \<Rightarrow> SessionResetType \<Rightarrow> SessionResetConfig option \<Rightarrow> SessionResetPolicy" where
  "resolveSessionResetPolicy sessionCfg resetType resetOverride =
    (let baseReset = or_opt resetOverride (Option.bind sessionCfg se_reset);
         byType = Option.bind sessionCfg se_resetByType;
         typeReset = (if resetOverride \<noteq> None then None else reset_for_type byType resetType);
         hasExplicitReset = (baseReset \<noteq> None \<or> byType \<noteq> None);
         legacyIdleMinutes = (if resetOverride \<noteq> None then None else Option.bind sessionCfg se_idleMinutes);
         configured = (baseReset \<noteq> None \<or> typeReset \<noteq> None \<or> legacyIdleMinutes \<noteq> None);
         mode = or_else (or_opt (Option.bind typeReset rsc_mode) (Option.bind baseReset rsc_mode))
                  (if \<not> hasExplicitReset \<and> legacyIdleMinutes \<noteq> None then IdleMode else DEFAULT_RESET_MODE);
         atHour = normalizeResetAtHour (Some (or_else (or_opt (Option.bind typeReset rsc_atHour) (Option.bind baseReset rsc_atHour))
                    (Fin (of_int DEFAULT_RESET_AT_HOUR))));
         idleMinutesRaw = or_opt (or_opt (Option.bind typeReset rsc_idleMinutes) (Option.bind baseReset rsc_idleMinutes)) legacyIdleMinutes;
         idleMinutes = (case idleMinutesRaw of
             Some (Fin q) \<Rightarrow> Some (max \<lfloor>q\<rfloor> 0)
           | Some _ \<Rightarrow> None
           | None \<Rightarrow> if mode = IdleMode then Some DEFAULT_IDLE_MINUTES else None)
     in \<lparr>rp_mode = mode, rp_atHour = atHour, rp_idleMinutes = idleMinutes, rp_configured = configured\<rparr>)"

section \<open>Freshness\<close>

record LocalCalendar =
  lc_setHours :: "rat \<Rightarrow> int \<Rightarrow> rat"
  lc_dayBefore :: "rat \<Rightarrow> rat"

definition resolveDailyResetAtMs :: "LocalCalendar \<Rightarrow> rat \<Rightarrow> js_number option \<Rightarrow> rat" where
  "resolveDailyResetAtMs cal now atHour =
    (let resetAt = lc_setHours cal now (normalizeResetAtHour atHour) in
     if now < resetAt then lc_dayBefore cal resetAt else resetAt)"

definition resolveTimestamp :: "js_number option \<Rightarrow> rat \<Rightarrow> rat option" where
  "resolveTimestamp v now =
    (case v of Some (Fin q) \<Rightarrow> if q < 0 \<or> now < q then None else Some q | _ \<Rightarrow> None)"

record SessionFreshness =
  sf_fresh :: bool
  sf_dailyResetAt :: "rat option"
  sf_idleExpiresAt :: "rat option"

definition evaluateSessionFreshness ::
  "LocalCalendar \<Rightarrow> js_number \<Rightarrow> js_number option \<Rightarrow> js_number option \<Rightarrow> rat \<Rightarrow> SessionResetPolicy \<Rightarrow> SessionFreshness" where
  "evaluateSessionFreshness cal updatedAt0 sessionStartedAt0 lastInteractionAt0 now policy =
    (let updatedAt = or_else (resolveTimestamp (Some updatedAt0) now) 0;
         sessionStartedAt = or_else (resolveTimestamp sessionStartedAt0 now) updatedAt;
         lastInteractionAt = or_else (resolveTimestamp lastInteractionAt0 now) sessionStartedAt;
         dailyResetAt = (if rp_mode policy = DailyMode
           then Some (resolveDailyResetAtMs cal now (Some (Fin (of_int (rp_atHour policy))))) else None);
         idleExpiresAt = (case rp_idleMinutes policy of None \<Rightarrow> None
           | Some m \<Rightarrow> if 0 < m then Some (lastInteractionAt + of_int m * 60000) else None);
         staleDaily = (case dailyResetAt of None \<Rightarrow> False | Some d \<Rightarrow> sessionStartedAt < d);
         staleIdle = (case idleExpiresAt of None \<Rightarrow> False | Some e \<Rightarrow> e < now)
     in \<lparr>sf_fresh = (\<not> (staleDaily \<or> staleIdle)), sf_dailyResetAt = dailyResetAt, sf_idleExpiresAt = idleExpiresAt\<rparr>)"

section \<open>The type of a session\<close>

type_synonym LoadedConversationHook = "string \<Rightarrow> (string \<Rightarrow> string \<Rightarrow> SessionConversationHookResult option) option"

definition resolveLoadedSessionConversationThreadInfo ::
  "LoadedConversationHook \<Rightarrow> string option \<Rightarrow> ParsedThreadSessionSuffix option" where
  "resolveLoadedSessionConversationThreadInfo loaded sessionKey =
    (case parseRawSessionConversationRef sessionKey of
       None \<Rightarrow> None
     | Some raw \<Rightarrow>
         let rawId = js_trim (rc_rawId raw) in
         if rawId = [] then None
         else (case Option.bind (loaded (rc_channel raw)) (\<lambda>f. f (rc_kind raw) rawId) of
                 None \<Rightarrow> None
               | Some resolved \<Rightarrow>
                   let i = js_trim (hk_id resolved); threadId = normalizeOptionalString (hk_threadId resolved) in
                   if i = [] then None
                   else Some \<lparr>ts_baseSessionKey = (if threadId \<noteq> None then Some (rc_prefix raw @ '':'' @ i)
                                                else normalizeOptionalString sessionKey),
                              ts_threadId = threadId\<rparr>))"

definition resolveLoadedSessionThreadInfo :: "LoadedConversationHook \<Rightarrow> string option \<Rightarrow> ParsedThreadSessionSuffix" where
  "resolveLoadedSessionThreadInfo loaded sessionKey =
    or_else (resolveLoadedSessionConversationThreadInfo loaded sessionKey) (parseThreadSessionSuffix sessionKey)"

definition isThreadSessionKey :: "LoadedConversationHook \<Rightarrow> string option \<Rightarrow> bool" where
  "isThreadSessionKey loaded sessionKey \<longleftrightarrow>
    (case ts_threadId (resolveLoadedSessionThreadInfo loaded sessionKey) of None \<Rightarrow> False | Some t \<Rightarrow> t \<noteq> [])"

definition resolveSessionResetType ::
  "LoadedConversationHook \<Rightarrow> string option \<Rightarrow> bool \<Rightarrow> bool \<Rightarrow> SessionResetType" where
  "resolveSessionResetType loaded sessionKey isGroup isThread =
    (if isThread \<or> isThreadSessionKey loaded sessionKey then ThreadType
     else if isGroup then GroupType
     else
       let normalized = normalizeLowercaseStringOrEmpty sessionKey in
       if list_ex (\<lambda>m. js_includes normalized m) ['':group:'', '':channel:''] then GroupType else DirectType)"

definition resolveThreadFlag ::
  "LoadedConversationHook \<Rightarrow> string option \<Rightarrow> js_entry option \<Rightarrow> string option \<Rightarrow> string option \<Rightarrow> string option \<Rightarrow> bool" where
  "resolveThreadFlag loaded sessionKey messageThreadId threadLabel threadStarterBody parentSessionKey =
    (let filled = (\<lambda>v. js_trim (or_else v []) \<noteq> []) in
     if messageThreadId \<noteq> None then True
     else if filled threadLabel then True
     else if filled threadStarterBody then True
     else if filled parentSessionKey then True
     else isThreadSessionKey loaded sessionKey)"

text \<open>The channel registry (\<open>normalizeMessageChannel\<close>) is an argument.\<close>

definition resolveChannelResetConfig ::
  "(string option \<Rightarrow> string option) \<Rightarrow> SessionResetSettings option \<Rightarrow> string option \<Rightarrow> SessionResetConfig option" where
  "resolveChannelResetConfig normalizeMessageChannel sessionCfg channel =
    (case Option.bind sessionCfg se_resetByChannel of
       None \<Rightarrow> None
     | Some m \<Rightarrow>
         (case or_opt (normalizeMessageChannel channel) (normalizeOptionalLowercaseString channel) of
            None \<Rightarrow> None
          | Some key \<Rightarrow> if key = [] then None else jm_get m key))"

section \<open>The last reset\<close>

text \<open>Days are numbered, an hour of a day is the same instant from wherever on that day it is taken, and a
  day before an hour is that hour of the day before. The last does not hold on the day after an hour that
  the clocks skip.\<close>

definition regular_calendar :: "LocalCalendar \<Rightarrow> (rat \<Rightarrow> int) \<Rightarrow> int \<Rightarrow> bool" where
  "regular_calendar cal day h \<longleftrightarrow>
     (\<forall>s t. s \<le> t \<longrightarrow> day s \<le> day t) \<and>
     (\<forall>t. day (lc_setHours cal t h) = day t) \<and>
     (\<forall>s t. day s = day t \<longrightarrow> lc_setHours cal s h = lc_setHours cal t h) \<and>
     (\<forall>t. day (lc_dayBefore cal t) = day t - 1) \<and>
     (\<forall>s t. day s = day t - 1 \<longrightarrow> lc_dayBefore cal (lc_setHours cal t h) = lc_setHours cal s h)"

lemma daily_reset_latest:
  assumes reg: "regular_calendar cal day h" and h: "normalizeResetAtHour atHour = h"
  shows "(\<exists>s. resolveDailyResetAtMs cal now atHour = lc_setHours cal s h) \<and> resolveDailyResetAtMs cal now atHour \<le> now \<and>
    (\<forall>s. lc_setHours cal s h \<le> now \<longrightarrow> lc_setHours cal s h \<le> resolveDailyResetAtMs cal now atHour)"
proof -
  let ?at = "\<lambda>s. lc_setHours cal s h"
  have mono: "s \<le> t \<Longrightarrow> day s \<le> day t" and at_day: "day (?at t) = day t" and same: "day s = day t \<Longrightarrow> ?at s = ?at t"
    and before: "day (lc_dayBefore cal t) = day t - 1" and prev: "day s = day t - 1 \<Longrightarrow> lc_dayBefore cal (?at t) = ?at s" for s t
    using reg unfolding regular_calendar_def by blast+
  have later: "day s < day t \<Longrightarrow> s < t" for s t using mono [of t s] by linarith
  show ?thesis
  proof (cases "now < ?at now")
    case False
    have "?at s \<le> ?at now" if "?at s \<le> now" for s
    proof -
      have "day s \<le> day now" using mono [OF that] by (simp add: at_day)
      show ?thesis
      proof (cases "day s = day now")
        case True
        then have "?at s = ?at now" by (rule same)
        then show ?thesis by simp
      next
        case False
        then have "day (?at s) < day (?at now)" using \<open>day s \<le> day now\<close> unfolding at_day by linarith
        then have "?at s < ?at now" by (rule later)
        then show ?thesis by simp
      qed
    qed
    then show ?thesis using False by (auto simp: resolveDailyResetAtMs_def Let_def h)
  next
    case True
    define b where "b = lc_dayBefore cal (?at now)"
    have day_b: "day b = day now - 1" by (simp add: b_def before at_day)
    have b: "b = ?at b" using prev [OF day_b] by (simp add: b_def [symmetric])
    have "b < now" using day_b by (intro later) simp
    moreover have "?at s \<le> b" if s: "?at s \<le> now" for s
    proof -
      have "day s \<le> day now" using mono [OF s] by (simp add: at_day)
      moreover have "day s \<noteq> day now"
      proof
        assume "day s = day now"
        then have "?at s = ?at now" by (rule same)
        then show False using True s by simp
      qed
      ultimately have "day s = day b \<or> day (?at s) < day b" unfolding at_day using day_b by linarith
      then consider "day s = day b" | "day (?at s) < day b" by blast
      then show ?thesis
      proof cases
        case 1
        then have "?at s = ?at b" by (rule same)
        then show ?thesis using b by simp
      next
        case 2
        then have "?at s < b" by (rule later)
        then show ?thesis by simp
      qed
    qed
    moreover have "resolveDailyResetAtMs cal now atHour = b"
      using True by (simp add: resolveDailyResetAtMs_def Let_def h b_def)
    ultimately show ?thesis using b by (auto intro: less_imp_le)
  qed
qed

text \<open>C28: when a session is fresh. A session with known times is fresh exactly if no daily reset of the policy lies
  between its start and now, and, when the policy has an idle window, the last interaction is within it.\<close>

theorem session_fresh_exactly:
  assumes reg: "regular_calendar cal day (rp_atHour policy)" and hour: "0 \<le> rp_atHour policy" "rp_atHour policy \<le> 23"
    and started: "resolveTimestamp (Some started) now = Some s" and last_: "resolveTimestamp (Some lastAt) now = Some i"
  shows "sf_fresh (evaluateSessionFreshness cal updatedAt (Some started) (Some lastAt) now policy) \<longleftrightarrow>
     (if rp_mode policy = DailyMode
      then \<not> (\<exists>t. s < lc_setHours cal t (rp_atHour policy) \<and> lc_setHours cal t (rp_atHour policy) \<le> now) else True) \<and>
     (case rp_idleMinutes policy of None \<Rightarrow> True | Some m \<Rightarrow> m \<le> 0 \<or> now - i \<le> of_int m * 60000)"
proof -
  let ?h = "rp_atHour policy"
  define d where "d = resolveDailyResetAtMs cal now (Some (Fin (of_int ?h)))"
  have norm: "normalizeResetAtHour (Some (Fin (of_int ?h))) = ?h" using hour by (simp add: normalizeResetAtHour_def Let_def)
  note latest = daily_reset_latest [OF reg norm, of now, folded d_def]
  have "s < d \<longleftrightarrow> (\<exists>t. s < lc_setHours cal t ?h \<and> lc_setHours cal t ?h \<le> now)"
    using latest by (metis order_less_le_trans)
  then show ?thesis
    by (auto simp: evaluateSessionFreshness_def Let_def started last_ d_def [symmetric] split: option.splits)
qed

text \<open>A zone without changes of the clock, at a fixed distance from UTC.\<close>

definition fixed_zone :: "rat \<Rightarrow> LocalCalendar" where
  "fixed_zone offset =
    \<lparr>lc_setHours = (\<lambda>t h. of_int \<lfloor>(t + offset) / 86400000\<rfloor> * 86400000 + of_int h * 3600000 - offset),
     lc_dayBefore = (\<lambda>t. t - 86400000)\<rparr>"

lemma fixed_zone_regular:
  assumes "0 \<le> h" "h \<le> 23"
  shows "regular_calendar (fixed_zone offset) (\<lambda>t. \<lfloor>(t + offset) / 86400000\<rfloor>) h"
proof -
  have at: "\<lfloor>(of_int k * 86400000 + of_int h * 3600000) / 86400000\<rfloor> = k" for k :: int
  proof -
    have h: "0 \<le> (of_int h :: rat)" "(of_int h :: rat) \<le> 23" using assms by simp_all
    then have "0 \<le> of_int h * 3600000 / (86400000 :: rat)" "of_int h * 3600000 / (86400000 :: rat) < 1" by simp_all
    moreover have "(of_int k * 86400000 + of_int h * 3600000) / 86400000 = of_int k + of_int h * 3600000 / (86400000 :: rat)"
      by (simp add: field_simps)
    ultimately show ?thesis by (intro floor_unique) (simp_all add: field_simps)
  qed
  have before: "\<lfloor>(t - 86400000 + offset) / 86400000\<rfloor> = \<lfloor>(t + offset) / 86400000\<rfloor> - 1" for t :: rat
  proof -
    have "(t - 86400000 + offset) / 86400000 = (t + offset) / 86400000 - 1" by (simp add: field_simps)
    then show ?thesis by (simp only: floor_diff_one)
  qed
  show ?thesis unfolding regular_calendar_def
    by (auto simp: fixed_zone_def at before intro!: floor_mono divide_right_mono)
qed

theorem session_fresh_exactly_witness:
  "sf_fresh (evaluateSessionFreshness (fixed_zone 0) (Fin 0) (Some (Fin 20000000)) (Some (Fin 90000000)) 100000000
      \<lparr>rp_mode = DailyMode, rp_atHour = 4, rp_idleMinutes = Some 300, rp_configured = True\<rparr>) \<longleftrightarrow>
   (if DailyMode = DailyMode
      then \<not> (\<exists>t. 20000000 < lc_setHours (fixed_zone 0) t 4 \<and> lc_setHours (fixed_zone 0) t 4 \<le> 100000000) else True) \<and>
     (case Some 300 of None \<Rightarrow> True | Some m \<Rightarrow> m \<le> 0 \<or> 100000000 - 90000000 \<le> (of_int m * 60000 :: rat))"
  using session_fresh_exactly [of "fixed_zone 0" "\<lambda>t. \<lfloor>(t + 0) / 86400000\<rfloor>"
      "\<lparr>rp_mode = DailyMode, rp_atHour = 4, rp_idleMinutes = Some 300, rp_configured = True\<rparr>" "Fin 20000000" 100000000 20000000
      "Fin 90000000" 90000000 "Fin 0"] fixed_zone_regular [of 4 0]
  by (simp add: resolveTimestamp_def)

end
