(* ===== verification/Spec2Isabelle.thy ===== *)
theory Spec2Isabelle
  imports Prelude JsString JsMap AccountIds SessionKeys IngressRuntime RouteResolver CommandQueueProps
  RateLimit AuthRateLimit Dedupe ApprovalManager MergePatch NodePendingWork
  FollowupQueueProps ChunkingProps HeartbeatWakeProps
  ToolPipeline ToolPolicyProps ToolGuardProps PluginToolHooksProps CompactionGuard
  AuthUsageProps AuthOrderProps ModelFallbackProps Retry SessionReset
begin

text \<open>
  Nova AI: the gateway of a personal assistant that answers messages of many channels with
  configured agents. This development models its own decision logic, the TypeScript under
  src/src, as functions of the higher-order logic, and proves what makes each part correct.

  The program. A message that reaches the gateway goes through the ingress kernel, which resolves
  allowlists and access groups and decides whether the event is dispatched, dropped, or answered
  with a pairing request. An admitted message is routed: the bindings of the configuration give
  the agent and the session key. The command queue runs the work of a session in its lane; messages
  that arrive while an agent is busy wait in the follow-up queue of their session, and what an agent
  answers is cut into chunks of the channel's size. An agent is offered the tools that the policies
  for its session allow, and every call of a tool passes a guard: loops are refused, plugins and
  the user may veto. A session is started afresh when its reset is due. The turn of an agent tries the
  configured models one after the other, each with the credentials that are not cooling down after a
  failure, and operations on channels are retried. Beside this path stand the gateway's stateful services:
  the wake-ups of the heartbeat, limiters of authentication attempts and of
  control-plane writes, caches of recently seen ids, the manager of execution approvals, the table
  of work pending for device nodes, and the merge patches of the configuration.

  Theories, each importing the ones it uses:
  Prelude: list idioms of the source, the stable sort with a comparator, reachable states and the
  locale \<open>transition_system\<close>.
  JsString, JsNumber, JsMap: what the source uses of JavaScript's strings, numbers and \<open>Map\<close>; the
  coercions of shared/string-coerce.ts; the locales \<open>kv_store\<close> and \<open>memo_table\<close>.
  AccountIds: agent and account ids (routing/account-id.ts, part of routing/session-key.ts) with
  the bounded caches in front of the normaliser.
  SessionKeys: building, parsing and classifying session keys (routing/session-key.ts,
  sessions/session-key-utils.ts).
  Gating: command and mention gates (channels/command-gating.ts, channels/mention-gating.ts).
  IngressTypes, IngressSender, IngressDecision, IngressState, IngressIdentity, IngressRuntime: the
  modules of channels/message-access, from the data (types.ts) over the sender gates
  (allowlist.ts, sender-gates.ts), the decision (decision.ts), the resolution of allowlists
  (state.ts, channels/allow-from.ts) and the identity adapter (runtime-identity.ts) to the
  runtime that reads stores, calls all of these and projects the result (runtime.ts,
  runtime-access-groups.ts).
  Bindings, RouteResolver: agents and bindings (agents/agent-scope-config.ts, config/bindings.ts,
  routing/binding-scope.ts, routing/bindings.ts) and the route of a message with its three caches
  (routing/resolve-route.ts).
  CommandQueue, CommandQueueProps: lanes, priorities, generations, drains and waiters
  (process/command-queue.ts).
  RateLimit, AuthRateLimit: the window limiters (infra/fixed-window-rate-limit.ts,
  gateway/control-plane-rate-limit.ts) and the authentication limiter with its lockouts
  (gateway/auth-rate-limit.ts); an attempt is two events, its check and its report, as in
  gateway/auth.ts and server/ws-connection/auth-context.ts.
  Dedupe: infra/dedupe.ts, infra/map-size.ts, shared/scoped-expiring-id-cache.ts.
  ApprovalManager: gateway/exec-approval-manager.ts.
  NodePendingWork: gateway/node-pending-work.ts.
  MergePatch: config/merge-patch.ts, infra/plain-object.ts.
  JsJson, ChannelRoute: JSON texts of strings and booleans, and route references with their keys
  (plugin-sdk/channel-route.ts).
  QueueHelpers, FollowupQueue, FollowupQueueProps: the follow-up queues of sessions
  (utils/queue-helpers.ts, auto-reply/reply/queue/types.ts, state.ts, enqueue.ts, drain.ts, cleanup.ts;
  agents/pi-embedded-runner/lanes.ts). Queue objects and run objects are shared by reference and
  have positions in a list; a drain is a process suspended at one of its awaits.
  Fences, Chunking, ChunkingProps: code fences of markdown and the cutting of text
  (markdown/fences.ts, shared/text-chunking.ts, auto-reply/chunk.ts, routing/account-lookup.ts).
  HeartbeatWake, HeartbeatWakeProps: infra/heartbeat-wake.ts and infra/heartbeat-reason.ts.
  StableJson: values of type unknown and agents/stable-stringify.ts.
  DiagnosticState: the table of sessions (logging/diagnostic-session-state.ts), its transitions
  (parts of logging/diagnostic.ts) and poll counters (agents/command-poll-backoff.ts).
  ToolLoop, ToolLoopProps: agents/tool-loop-detection.ts; CompactionGuard:
  agents/pi-embedded-runner/post-compaction-loop-guard.ts.
  ToolCatalog, ToolPolicy, ToolPipeline, ToolPolicyProps: the catalog of core tools, policies by
  names, groups and glob patterns, and their pipeline (agents/tool-catalog.ts,
  tool-policy-shared.ts, glob-pattern.ts, tool-policy-match.ts, sandbox-tool-policy.ts,
  tool-policy.ts, tool-policy-pipeline.ts).
  SessionConversation, ToolAccess: the conversation of a session key
  (channels/plugins/session-conversation.ts) and which policies apply to a session
  (agents/pi-tools.policy.ts, inherited-tool-deny.ts, parts of subagent-capabilities.ts).
  PluginToolHooks, PluginToolHooksProps: trusted policies, hooks and approvals of plugins
  (plugins/trusted-tool-policy.ts, parts of plugins/hooks.ts, pi-tools.before-tool-call.ts).
  ToolGuard, ToolGuardProps: the wrapper around every call (agents/pi-tools.before-tool-call.ts).
  ProviderId: canonical provider ids and authentication aliases (agents/provider-id.ts,
  provider-auth-aliases.ts).
  AuthUsage, AuthUsageProps: the statistics of credentials, their cooldowns, blocks and backoffs, and
  marking failures in the locked store (agents/auth-profiles/types.ts, usage-state.ts, usage.ts, the
  locked update of store.ts).
  AuthOrder, AuthOrderProps: which credentials may serve a provider, their order, and the operations on
  stored profiles (agents/auth-profiles/credential-state.ts, profile-list.ts, order.ts, profiles.ts,
  parts of config/types.secrets.ts).
  ModelFallback, ModelFallbackProps: the loop over models, the decision for providers in cooldown and the
  throttle of probes (agents/model-fallback.ts, failover-policy.ts, \<open>modelKey\<close> of model-ref-shared.ts).
  Retry: infra/retry.ts, retry-policy.ts, backoff.ts.
  SessionReset: config/sessions/reset-policy.ts, reset.ts,
  channels/plugins/session-thread-info-loaded.ts.

  Interfaces. \<open>kv_store\<close> is the contract of a map, interpreted on the model of \<open>Map\<close>; \<open>memo_table\<close>
  extends it by a computation and bounds the damage of a bounded cache to nothing, interpreted on
  the account caches and on the route cache. \<open>ingress_adapter\<close> is what the resolution of
  allowlists needs of a channel, interpreted on the identity adapter of the runtime.
  \<open>transition_system\<close> turns an invariant kept by every step into one of every reachable state,
  interpreted on the command queue, the approval manager, the node table, the follow-up queues,
  the wake-ups and, with two invariants, the diagnostic table of sessions. \<open>window_limiter\<close>
  bounds the admissions of any interval, interpreted on both window limiters. \<open>forgetful_map\<close> is
  a store that may forget, but only dead entries, interpreted on both id caches.

  What the lemmas show. Identifiers and session keys: canonical forms, round trips, and that two
  direct conversations share a key only if they are the same. Ingress: the exact condition of a
  dispatch and of a pairing request, and what can not influence them (the pairing store outside
  its policy, mutable identifiers, unresolvable groups). Routes: the buckets, merges, indexes and
  caches of the resolver change nothing against the linear first-match rule. Queue: the invariant
  of lanes and waiters, no accepted command is lost or settled twice, and enough completions
  settle all of them. Limiters: bounds of the admissions of any interval, whatever prunes and
  evictions happen; for authentication, of the attempts begun in a window that fail, also when they overlap. Caches: refinement of an unbounded map of the last time seen.
  Approvals: each is decided and consumed at most once, and none waits for ever. Node work: the
  shape of the table, and completeness and order of a drain. Merge patches: RFC 7396, idempotence,
  and no prototype keys. Follow-up queues: unless the queue overflowed or was cleared, no accepted
  message is lost and none leaves before it has been run; one drain per queue, redeliveries are
  refused, collected messages share their authorization, and an undisturbed drain ends; concrete runs
  show where messages are lost and where drains never end. Chunks: within the limit and complete up to white
  space; cut fences are closed and reopened. Wake-ups: none is forgotten or stranded. Tools: what a
  policy, the pipeline and an inherited list allow; a repeated call is stopped, only a standstill
  is, and where the guard can not see a loop; plugins and approvals fail closed; the table of
  sessions is well formed and bounded. Credentials: a failure takes a profile out of use, for other
  models too unless all failures were rate limits of one model; how long, and why the backoff never
  grows; clearing expired windows is invisible; the order is complete, has cooling profiles last, and
  rotates. Models: tried in order and at most once, all of them reported in the summary, a
  cooling provider is probed again in a run only after a failure that the request caused, and probes of first models are spaced
  in time as far as the throttle remembers them. Retries: bounded in number and delay, never before the
  time a server asked for. Sessions: fresh exactly when no reset lies behind them.

  Conventions. Strings are sequences of code units up to 255. Numbers are \<open>int\<close> where the code
  computes with whole milliseconds and counters, and rationals with the infinities and NaN where
  the code has to handle them. A \<open>Map\<close> is an association list in insertion order, a clock, a
  generated id, \<open>localeCompare\<close>, the channel catalog, address resolution, the stores and the hooks
  of plugins are arguments. Functions that await are modelled by the value they resolve to, a
  rejected promise by \<open>None\<close> or an emitted event; where several calls interleave (queue, approvals,
  limiters, node work, follow-up queues, wake-ups) the properties quantify over every sequence of operations. Objects compared
  by reference are modelled by their values. Every function is total; no fuel is used. The bounds
  are those of the source: caches of 512, 2,000 and 4,000 entries, 10,000 budget buckets.

  Not modelled: the agent runtime and model transports, servers and wire protocols, stores and
  queues on disk, plugins and channel extensions, media, user interfaces, command line, scripts.
  They are I/O around third-party services. The classification of errors of model providers, the
  resolution of model references of the configuration and the parser of cron expressions are tables
  and libraries of third parties; what they yield is an argument where a model needs it. Logging and
  diagnostics are left out of what is modelled.
\<close>

end
